(* ===== verification/Prelude.thy ===== *)
theory Prelude
  imports Main "HOL-Library.Word" "HOL-Library.Finite_Map"
begin

unbundle bit_operations_syntax

section \<open>Shared vocabulary of the development\<close>

text \<open>
  What every component theory uses: Rust's machine integers as words, \<open>Result\<close> as a sum type with
  the \<open>?\<close> operator as \<open>bind_result\<close>, checked and saturating arithmetic, little-endian byte strings,
  UTF-8 validity as \<open>str::from_utf8\<close> decides it, and the lemmas on finite maps and sets that model
  \<open>BTreeMap\<close> and \<open>BTreeSet\<close>.  The collections declared here carry the component proofs:
  \<^item> \<open>result_simps\<close>: a chain of fallible steps rewritten to the conditions under which it succeeds;
  \<^item> \<open>codec_simps\<close>: what reading back a written field gives;
  \<^item> \<open>opcodes\<close>: the numeric values of the wire opcodes;
  \<^item> \<open>proto_consts\<close>: the bounds and capability bits of the protocol.
\<close>

named_theorems result_simps \<open>success of a chain of fallible steps\<close>
named_theorems codec_simps \<open>reading back what was written\<close>
named_theorems opcodes \<open>numeric opcodes\<close>
named_theorems proto_consts \<open>protocol constants\<close>

subsection \<open>Machine integers\<close>

type_synonym u8 = "8 word"
type_synonym u16 = "16 word"
type_synonym u32 = "32 word"
type_synonym u64 = "64 word"
type_synonym i32 = "32 word" \<comment> \<open>read with \<open>sint\<close> where the sign matters\<close>

text \<open>A Rust \<open>String\<close> is a byte vector whose contents are valid UTF-8.\<close>

type_synonym rust_string = "u8 list"

text \<open>\<open>checked_add\<close>: \<open>None\<close> when the sum does not fit.\<close>

definition checked_add :: "'a::len word \<Rightarrow> 'a word \<Rightarrow> 'a word option" where
  "checked_add a b = (if unat a + unat b < 2 ^ LENGTH('a) then Some (a + b) else None)"

lemma checked_add_Some_iff:
  "checked_add a b = Some c \<longleftrightarrow> c = a + b \<and> unat c = unat a + unat b"
proof -
  have "unat a + unat b < 2 ^ LENGTH('a) \<longleftrightarrow> unat (a + b) = unat a + unat b"
    by (metis unat_add_lem)
  then show ?thesis by (auto simp: checked_add_def)
qed

lemma checked_add_None_iff:
  "checked_add (a :: 'a::len word) b = None \<longleftrightarrow> 2 ^ LENGTH('a) \<le> unat a + unat b"
  by (auto simp: checked_add_def)

text \<open>\<open>saturating_add\<close>: the largest value when the sum does not fit.\<close>

definition saturating_add :: "'a::len word \<Rightarrow> 'a word \<Rightarrow> 'a word" where
  "saturating_add a b = (case checked_add a b of None \<Rightarrow> - 1 | Some c \<Rightarrow> c)"

text \<open>\<open>x.checked_add(y).is_none_or(|v| v > bound)\<close>: the exclusive end of a range leaves the bound.\<close>

definition end_exceeds :: "u32 \<Rightarrow> u32 \<Rightarrow> u32 \<Rightarrow> bool" where
  "end_exceeds x extent bound =
     (case checked_add x extent of None \<Rightarrow> True | Some v \<Rightarrow> bound < v)"

lemma end_exceeds_iff: "end_exceeds x extent bound \<longleftrightarrow> unat bound < unat x + unat extent"
proof (cases "checked_add x extent")
  case None
  then have "2 ^ LENGTH(32) \<le> unat x + unat extent"
    by (simp add: checked_add_None_iff)
  moreover have "unat bound < 2 ^ LENGTH(32)"
    by (rule unsigned_less)
  ultimately show ?thesis
    using None by (simp add: end_exceeds_def)
next
  case (Some v)
  then have "unat v = unat x + unat extent"
    by (auto simp: checked_add_Some_iff)
  then show ?thesis
    using Some by (simp add: end_exceeds_def word_less_nat_alt)
qed

subsection \<open>Results\<close>

type_synonym ('e, 'a) result = "'e + 'a"

definition bind_result :: "('e, 'a) result \<Rightarrow> ('a \<Rightarrow> ('e, 'b) result) \<Rightarrow> ('e, 'b) result" where
  "bind_result r k = (case r of Inl e \<Rightarrow> Inl e | Inr x \<Rightarrow> k x)"

definition ok_or :: "'e \<Rightarrow> 'a option \<Rightarrow> ('e, 'a) result" where
  "ok_or e m = (case m of None \<Rightarrow> Inl e | Some x \<Rightarrow> Inr x)"

definition map_err :: "('e \<Rightarrow> 'f) \<Rightarrow> ('e, 'a) result \<Rightarrow> ('f, 'a) result" where
  "map_err f r = (case r of Inl e \<Rightarrow> Inl (f e) | Inr x \<Rightarrow> Inr x)"

text \<open>\<open>if c { return Err(e) }\<close>\<close>

definition reject_if :: "bool \<Rightarrow> 'e \<Rightarrow> ('e, unit) result" where
  "reject_if c e = (if c then Inl e else Inr ())"

definition is_ok :: "('e, 'a) result \<Rightarrow> bool" where
  "is_ok r = (case r of Inl e \<Rightarrow> False | Inr x \<Rightarrow> True)"

lemma bind_result_simps [simp]:
  "bind_result (Inl e) k = Inl e"
  "bind_result (Inr x) k = k x"
  by (simp_all add: bind_result_def)

lemma bind_result_Inr_iff [result_simps]:
  "bind_result r k = Inr y \<longleftrightarrow> (\<exists>x. r = Inr x \<and> k x = Inr y)"
  by (cases r) auto

lemma bind_result_Inl_iff:
  "bind_result r k = Inl e \<longleftrightarrow> r = Inl e \<or> (\<exists>x. r = Inr x \<and> k x = Inl e)"
  by (cases r) auto

lemma ok_or_simps [simp]:
  "ok_or e None = Inl e" "ok_or e (Some x) = Inr x"
  by (simp_all add: ok_or_def)

lemma ok_or_Inr_iff [result_simps]: "ok_or e m = Inr x \<longleftrightarrow> m = Some x"
  by (cases m) auto

lemma map_err_simps [simp]:
  "map_err f (Inl e) = Inl (f e)" "map_err f (Inr x) = Inr x"
  by (simp_all add: map_err_def)

lemma map_err_Inl_iff: "map_err f r = Inl x \<longleftrightarrow> (\<exists>y. r = Inl y \<and> x = f y)"
  by (cases r) auto

lemma map_err_Inr_iff [result_simps]: "map_err f r = Inr x \<longleftrightarrow> r = Inr x"
  by (cases r) auto

lemma reject_if_simps [simp]: "reject_if True e = Inl e" "reject_if False e = Inr ()"
  by (simp_all add: reject_if_def)

lemma reject_if_Inr_iff [result_simps]: "reject_if c e = Inr u \<longleftrightarrow> \<not> c"
  by (cases c) auto

lemma is_ok_simps [simp]: "\<not> is_ok (Inl e)" "is_ok (Inr x)"
  by (simp_all add: is_ok_def)

lemma is_ok_iff: "is_ok r \<longleftrightarrow> (\<exists>x. r = Inr x)"
  by (cases r) auto

subsection \<open>Little-endian byte strings\<close>

text \<open>
  \<open>to_le_bytes\<close> and \<open>from_le_bytes\<close> go through the unsigned value: the \<open>k\<close> low-order digits in base
  256, least significant first.
\<close>

fun le_digits :: "nat \<Rightarrow> nat \<Rightarrow> nat list" where
  "le_digits 0 x = []"
| "le_digits (Suc k) x = x mod 256 # le_digits k (x div 256)"

fun le_value :: "nat list \<Rightarrow> nat" where
  "le_value [] = 0"
| "le_value (d # ds) = d + 256 * le_value ds"

definition to_le_bytes :: "nat \<Rightarrow> 'a::len word \<Rightarrow> u8 list" where
  "to_le_bytes k w = map word_of_nat (le_digits k (unat w))"

definition from_le_bytes :: "u8 list \<Rightarrow> 'a::len word" where
  "from_le_bytes bs = word_of_nat (le_value (map unat bs))"

lemma length_le_digits [simp]: "length (le_digits k x) = k"
  by (induction k arbitrary: x) auto

lemma length_to_le_bytes [simp]: "length (to_le_bytes k w) = k"
  by (simp add: to_le_bytes_def)

lemma le_digits_small: "d \<in> set (le_digits k x) \<Longrightarrow> d < 256"
  by (induction k arbitrary: x) auto

lemma le_value_le_digits: "x < 256 ^ k \<Longrightarrow> le_value (le_digits k x) = x"
  by (induction k arbitrary: x) (auto simp: less_mult_imp_div_less mult.commute)

lemma le_value_bound: "\<forall>d \<in> set ds. d < 256 \<Longrightarrow> le_value ds < 256 ^ length ds"
  by (induction ds) auto

lemma le_digits_le_value: "\<forall>d \<in> set ds. d < 256 \<Longrightarrow> le_digits (length ds) (le_value ds) = ds"
  by (induction ds) auto

lemma unat_of_byte: "d < 256 \<Longrightarrow> unat (word_of_nat d :: u8) = d"
  by (simp add: unat_of_nat)

lemma map_unat_of_bytes:
  "\<forall>d \<in> set ds. d < 256 \<Longrightarrow> map unat (map word_of_nat ds :: u8 list) = ds"
  by (induction ds) (auto simp: unat_of_byte)

lemma unat_byte_less: "unat (b :: u8) < 256"
proof -
  have "unat b < 2 ^ LENGTH(8)" by (rule unsigned_less)
  then show ?thesis by simp
qed

theorem from_le_to_le:
  assumes "LENGTH('a) = 8 * k"
  shows "from_le_bytes (to_le_bytes k (w :: 'a::len word)) = w"
proof -
  have "unat w < 2 ^ LENGTH('a)"
    by (rule unsigned_less)
  also have "(2 :: nat) ^ LENGTH('a) = 256 ^ k"
    by (simp add: assms power_mult)
  finally show ?thesis
    by (simp add: from_le_bytes_def to_le_bytes_def map_unat_of_bytes le_digits_small
        le_value_le_digits del: map_map)
qed

theorem to_le_from_le:
  assumes "LENGTH('a) = 8 * k" and "length bs = k"
  shows "to_le_bytes k (from_le_bytes bs :: 'a::len word) = bs"
proof -
  have small: "\<forall>d \<in> set (map unat bs). d < 256"
    by (auto simp: unat_byte_less)
  then have "le_value (map unat bs) < 256 ^ length (map unat bs)"
    by (rule le_value_bound)
  then have "le_value (map unat bs) < 2 ^ LENGTH('a)"
    by (simp add: assms power_mult)
  then have "unat (from_le_bytes bs :: 'a word) = le_value (map unat bs)"
    by (simp add: from_le_bytes_def unat_of_nat)
  then show ?thesis
    using le_digits_le_value [OF small] assms(2) by (simp add: to_le_bytes_def comp_def)
qed

subsection \<open>UTF-8 validity\<close>

text \<open>
  The test of \<open>std::str::from_utf8\<close>: the well-formed byte sequences of the Unicode standard, with
  overlong forms, surrogates and values above U+10FFFF excluded.
\<close>

definition utf8_cont :: "u8 \<Rightarrow> bool" where
  "utf8_cont b = (0x80 \<le> b \<and> b \<le> 0xBF)"

text \<open>The range of the second byte of a three- or four-byte sequence depends on the first.\<close>

definition utf8_second3 :: "u8 \<Rightarrow> u8 \<Rightarrow> bool" where
  "utf8_second3 a b =
     (if a = 0xE0 then 0xA0 \<le> b \<and> b \<le> 0xBF
      else if a = 0xED then 0x80 \<le> b \<and> b \<le> 0x9F
      else utf8_cont b)"

definition utf8_second4 :: "u8 \<Rightarrow> u8 \<Rightarrow> bool" where
  "utf8_second4 a b =
     (if a = 0xF0 then 0x90 \<le> b \<and> b \<le> 0xBF
      else if a = 0xF4 then 0x80 \<le> b \<and> b \<le> 0x8F
      else utf8_cont b)"

fun utf8_valid :: "u8 list \<Rightarrow> bool" where
  "utf8_valid [] = True"
| "utf8_valid (a # r) =
     (if a < 0x80 then utf8_valid r
      else if 0xC2 \<le> a \<and> a \<le> 0xDF then
        (case r of b # r' \<Rightarrow> utf8_cont b \<and> utf8_valid r' | _ \<Rightarrow> False)
      else if 0xE0 \<le> a \<and> a \<le> 0xEF then
        (case r of b # c # r' \<Rightarrow> utf8_second3 a b \<and> utf8_cont c \<and> utf8_valid r' | _ \<Rightarrow> False)
      else if 0xF0 \<le> a \<and> a \<le> 0xF4 then
        (case r of b # c # d # r' \<Rightarrow>
           utf8_second4 a b \<and> utf8_cont c \<and> utf8_cont d \<and> utf8_valid r' | _ \<Rightarrow> False)
      else False)"

lemma utf8_valid_ascii: "\<forall>b \<in> set bs. b < 0x80 \<Longrightarrow> utf8_valid bs"
  by (induction bs) auto

text \<open>\<open>u8::is_ascii_alphanumeric\<close>\<close>

definition is_ascii_alphanumeric :: "u8 \<Rightarrow> bool" where
  "is_ascii_alphanumeric b =
     ((0x30 \<le> b \<and> b \<le> 0x39) \<or> (0x41 \<le> b \<and> b \<le> 0x5A) \<or> (0x61 \<le> b \<and> b \<le> 0x7A))"

text \<open>\<open>str::split\<close> on one ASCII separator: the pieces between separators, empty ones included.\<close>

fun split_on :: "u8 \<Rightarrow> u8 list \<Rightarrow> u8 list list" where
  "split_on c [] = [[]]"
| "split_on c (b # bs) =
     (if b = c then [] # split_on c bs
      else (case split_on c bs of [] \<Rightarrow> [[b]] | p # ps \<Rightarrow> (b # p) # ps))"

lemma split_on_ne [simp]: "split_on c bs \<noteq> []"
  by (induction bs) (auto split: list.splits)

lemma set_split_on: "b \<in> set bs \<Longrightarrow> b = c \<or> (\<exists>p \<in> set (split_on c bs). b \<in> set p)"
  by (induction bs) (auto split: list.splits)

subsection \<open>State-passing operations\<close>

type_synonym ('e, 's, 'a) op = "'s \<Rightarrow> ('e, 'a) result \<times> 's"

definition op_return :: "'a \<Rightarrow> ('e, 's, 'a) op" where
  "op_return x = (\<lambda>s. (Inr x, s))"

definition op_lift :: "('e, 'a) result \<Rightarrow> ('e, 's, 'a) op" where
  "op_lift r = (\<lambda>s. (r, s))"

definition op_bind :: "('e, 's, 'a) op \<Rightarrow> ('a \<Rightarrow> ('e, 's, 'b) op) \<Rightarrow> ('e, 's, 'b) op" where
  "op_bind m k = (\<lambda>s. case m s of (Inl e, s1) \<Rightarrow> (Inl e, s1) | (Inr x, s1) \<Rightarrow> k x s1)"

lemma op_simps [simp]:
  "op_return x s = (Inr x, s)" "op_lift r s = (r, s)"
  "m s = (Inl e, s1) \<Longrightarrow> op_bind m k s = (Inl e, s1)"
  "m s = (Inr x, s1) \<Longrightarrow> op_bind m k s = k x s1"
  by (simp_all add: op_return_def op_lift_def op_bind_def)

lemma snd_op_bind:
  "snd (op_bind m k s) = (case m s of (Inl e, s1) \<Rightarrow> s1 | (Inr x, s1) \<Rightarrow> snd (k x s1))"
  by (auto simp: op_bind_def split: prod.splits sum.splits)

text \<open>Running an operation of a part of the state: \<open>self.field.f(..)\<close>.\<close>

definition op_on :: "('s \<Rightarrow> 't) \<Rightarrow> ('t \<Rightarrow> 's \<Rightarrow> 's) \<Rightarrow> ('e \<Rightarrow> 'f) \<Rightarrow> ('e, 't, 'a) op \<Rightarrow> ('f, 's, 'a) op" where
  "op_on get put f m = (\<lambda>s. case m (get s) of (r, t) \<Rightarrow> (map_err f r, put t s))"

lemma op_on_apply: "op_on get put f m s = (map_err f (fst (m (get s))), put (snd (m (get s))) s)"
  by (simp add: op_on_def split: prod.split)

subsection \<open>Finite maps and sets\<close>

text \<open>
  A \<open>BTreeMap\<close> is a finite map; its \<open>len\<close> is the number of keys.  A \<open>BTreeSet\<close> is a finite set.
\<close>

definition fmlen :: "('k, 'v) fmap \<Rightarrow> nat" where
  "fmlen m = fcard (fmdom m)"

lemma fmlen_empty [simp]: "fmlen fmempty = 0"
  by (simp add: fmlen_def)

lemma fmlen_upd: "fmlen (fmupd k v m) = (if k |\<in>| fmdom m then fmlen m else Suc (fmlen m))"
  by (simp add: fmlen_def fcard_finsert_if finsert_absorb)

lemma fmlen_drop: "fmlen (fmdrop k m) = (if k |\<in>| fmdom m then fmlen m - 1 else fmlen m)"
  by (simp add: fmlen_def fcard_fminus_fsingleton)

lemma fmlen_0_iff: "fmlen m = 0 \<longleftrightarrow> m = fmempty"
proof
  assume "fmlen m = 0"
  then have "fmdom m = {||}" by (simp add: fmlen_def fcard_0_eq)
  then show "m = fmempty" by (simp add: fmap_ext fmdom_notD)
qed simp

lemma fmdrop_fmupd_fresh: "fmlookup m k = None \<Longrightarrow> fmdrop k (fmupd k v m) = m"
  by (rule fmap_ext) auto

lemma fmupd_fmdrop_same: "fmlookup m k = Some v \<Longrightarrow> fmupd k v (fmdrop k m) = m"
  by (rule fmap_ext) auto

text \<open>The values of a \<open>BTreeMap\<close> in the order of their keys.\<close>

definition fmvalues :: "('k::linorder, 'v) fmap \<Rightarrow> 'v list" where
  "fmvalues m = map snd (sorted_list_of_fmap m)"

lemma set_fmvalues: "v \<in> set (fmvalues m) \<longleftrightarrow> (\<exists>k. fmlookup m k = Some v)"
  by (auto simp: fmvalues_def sorted_list_of_fmap_def image_iff fmlookup_dom_iff Bex_def)

lemma fmvalues_empty [simp]: "fmvalues fmempty = []"
  by (simp add: fmvalues_def sorted_list_of_fmap_def sorted_list_of_fset.rep_eq)

lemma fmlookup_Some_dom: "fmlookup m k = Some v \<Longrightarrow> k |\<in>| fmdom m"
  by (rule fmdomI)

lemma fmlookup_None_iff: "fmlookup m k = None \<longleftrightarrow> k |\<notin>| fmdom m"
  by (metis fmdom_notI fmdom_notD)

end
