(* ===== verification/Frame_Ledger.thy ===== *)
theory Frame_Ledger
  imports Prelude
begin

section \<open>Release before reuse, as an abstract ledger\<close>

text \<open>
  The presentation path promises one thing above all: a buffer that the host may still read is never
  handed out again.  Both sides of the connection keep their own record of it
  (\<open>PresentationState\<close> in \<open>graphics/droidloom-transport\<close> on the Android side,
  \<open>TaskPresentationState\<close> in \<open>graphics/droidloom-denial-protocol\<close> on the host side).  The contract is
  stated here once, independently of either: a ledger maps each frame in flight to the buffer it
  holds, a frame may be entered only with a buffer that no other frame holds, and it leaves the
  ledger only by being retired.  The locale \<open>frame_owner\<close> is the interface a state machine
  implements; what follows from it for every sequence of operations is proved inside it.
\<close>

datatype ('f, 'b) ledger_event = Reserve 'f 'b | Retire 'f 'b

fun ledger_step :: "('f, 'b) fmap \<Rightarrow> ('f, 'b) ledger_event \<Rightarrow> ('f, 'b) fmap option" where
  "ledger_step L (Reserve f b) =
     (if f |\<in>| fmdom L \<or> b |\<in>| fmran L then None else Some (fmupd f b L))"
| "ledger_step L (Retire f b) =
     (if fmlookup L f = Some b then Some (fmdrop f L) else None)"

fun ledger_run :: "('f, 'b) fmap \<Rightarrow> ('f, 'b) ledger_event list \<Rightarrow> ('f, 'b) fmap option" where
  "ledger_run L [] = Some L"
| "ledger_run L (e # es) = Option.bind (ledger_step L e) (\<lambda>L'. ledger_run L' es)"

definition exclusive :: "('f, 'b) fmap \<Rightarrow> bool" where
  "exclusive L \<longleftrightarrow>
     (\<forall>f g b. fmlookup L f = Some b \<longrightarrow> fmlookup L g = Some b \<longrightarrow> f = g)"

lemma exclusiveD:
  "exclusive L \<Longrightarrow> fmlookup L f = Some b \<Longrightarrow> fmlookup L g = Some b \<Longrightarrow> f = g"
  by (auto simp: exclusive_def)

lemma exclusive_empty [simp]: "exclusive fmempty"
  by (simp add: exclusive_def)

lemma exclusive_reserve:
  "exclusive L \<Longrightarrow> b |\<notin>| fmran L \<Longrightarrow> exclusive (fmupd f b L)"
  unfolding exclusive_def by (auto simp: fmlookup_ran_iff)

lemma exclusive_retire: "exclusive L \<Longrightarrow> exclusive (fmdrop f L)"
  unfolding exclusive_def by auto

lemma fmran_reserve:
  "f |\<notin>| fmdom L \<Longrightarrow> fmran (fmupd f b L) = finsert b (fmran L)"
proof (rule fset_eqI)
  fix x
  assume fresh: "f |\<notin>| fmdom L"
  have "x |\<in>| fmran (fmupd f b L) \<longleftrightarrow> (\<exists>g. fmlookup (fmupd f b L) g = Some x)"
    unfolding fmlookup_ran_iff ..
  also have "\<dots> \<longleftrightarrow> x = b \<or> (\<exists>g. fmlookup L g = Some x)"
    using fresh by (metis fmdomI fmupd_lookup option.inject)
  finally show "x |\<in>| fmran (fmupd f b L) \<longleftrightarrow> x |\<in>| finsert b (fmran L)"
    by (simp add: fmlookup_ran_iff)
qed

lemma fmran_retire:
  assumes "exclusive L" and "fmlookup L f = Some b"
  shows "fmran (fmdrop f L) = fmran L |-| {|b|}"
proof (rule fset_eqI)
  fix x
  have "x |\<in>| fmran (fmdrop f L) \<longleftrightarrow> (\<exists>g. g \<noteq> f \<and> fmlookup L g = Some x)"
    unfolding fmlookup_ran_iff by auto
  also have "\<dots> \<longleftrightarrow> (\<exists>g. fmlookup L g = Some x) \<and> x \<noteq> b"
    using assms(2) exclusiveD [OF assms(1) _ assms(2)] by (metis option.inject)
  finally show "x |\<in>| fmran (fmdrop f L) \<longleftrightarrow> x |\<in>| fmran L |-| {|b|}"
    unfolding fminus_iff fmlookup_ran_iff by simp
qed

lemma ledger_run_append:
  "ledger_run L (es @ fs) = Option.bind (ledger_run L es) (\<lambda>L'. ledger_run L' fs)"
  by (induction es arbitrary: L) (auto simp: bind_eq_None_conv split: Option.bind_split)

lemma ledger_step_exclusive: "exclusive L \<Longrightarrow> ledger_step L e = Some L' \<Longrightarrow> exclusive L'"
  by (cases e) (auto simp: exclusive_reserve exclusive_retire split: if_splits)

lemma ledger_run_exclusive: "exclusive L \<Longrightarrow> ledger_run L es = Some L' \<Longrightarrow> exclusive L'"
  by (induction es arbitrary: L) (auto simp: bind_eq_Some_conv dest: ledger_step_exclusive)

text \<open>A buffer held by a frame stays held by it until that frame is retired.\<close>

lemma ledger_holds_until_retired:
  assumes "exclusive L" and "fmlookup L f = Some b" and "ledger_run L es = Some L'"
    and "Retire f b \<notin> set es"
  shows "fmlookup L' f = Some b \<and> (\<forall>g. Reserve g b \<notin> set es)"
  using assms
proof (induction es arbitrary: L)
  case Nil
  then show ?case by simp
next
  case (Cons e es)
  from Cons.prems(3) obtain L1 where step: "ledger_step L e = Some L1"
    and rest: "ledger_run L1 es = Some L'"
    by (auto simp: bind_eq_Some_conv)
  have "b |\<in>| fmran L"
    using Cons.prems(2) by (rule fmranI)
  then have kept: "fmlookup L1 f = Some b" and head: "\<forall>g. e \<noteq> Reserve g b"
    using step Cons.prems(2,4) by (cases e; auto split: if_splits simp: fmdomI)+
  show ?case
    using Cons.IH [OF ledger_step_exclusive [OF Cons.prems(1) step] kept rest] Cons.prems(4) head
    by auto
qed

text \<open>Between two frames that use the same buffer, the first one was retired.\<close>

theorem ledger_release_before_reuse:
  assumes "exclusive L"
    and "ledger_run L (es1 @ Reserve f b # es2 @ Reserve g b # es3) = Some L'"
  shows "Retire f b \<in> set es2"
proof (rule ccontr)
  assume none: "Retire f b \<notin> set es2"
  from assms(2) obtain L1 L2 L3 where l1: "ledger_run L es1 = Some L1"
    and l2: "ledger_step L1 (Reserve f b) = Some L2"
    and l3: "ledger_run L2 es2 = Some L3"
    and l4: "ledger_step L3 (Reserve g b) \<noteq> None"
    by (auto simp: ledger_run_append bind_eq_Some_conv simp del: ledger_step.simps)
  have ex: "exclusive L2"
    using ledger_step_exclusive [OF ledger_run_exclusive [OF assms(1) l1] l2] .
  have "fmlookup L2 f = Some b"
    using l2 by (auto split: if_splits)
  then have "fmlookup L3 f = Some b"
    using ledger_holds_until_retired [OF ex _ l3 none] by blast
  then have "b |\<in>| fmran L3" by (rule fmranI)
  with l4 show False by simp
qed

subsection \<open>The interface\<close>

text \<open>Running a sequence of operations, and what the sequence does to the ledger.\<close>

fun run_ops :: "('s \<Rightarrow> 'op \<Rightarrow> 's) \<Rightarrow> 's \<Rightarrow> 'op list \<Rightarrow> 's" where
  "run_ops step s [] = s"
| "run_ops step s (op # ops) = run_ops step (step s op) ops"

fun trace_ops :: "('s \<Rightarrow> 'op \<Rightarrow> 's) \<Rightarrow> ('s \<Rightarrow> 'op \<Rightarrow> 'e list) \<Rightarrow> 's \<Rightarrow> 'op list \<Rightarrow> 'e list"
where
  "trace_ops step events s [] = []"
| "trace_ops step events s (op # ops) =
     events s op @ trace_ops step events (step s op) ops"

lemma run_ops_append: "run_ops step s (xs @ ys) = run_ops step (run_ops step s xs) ys"
  by (induction xs arbitrary: s) auto

text \<open>
  A frame owner is a state machine with an invariant, an abstraction to the ledger, a step function
  over its operations and the ledger events an operation performs.  The two laws: every operation
  keeps the invariant, and the events it performs are accepted by the ledger and lead to the
  abstraction of the next state.
\<close>

locale frame_owner =
  fixes abs :: "'s \<Rightarrow> ('f, 'b) fmap"
    and inv :: "'s \<Rightarrow> bool"
    and step :: "'s \<Rightarrow> 'op \<Rightarrow> 's"
    and events :: "'s \<Rightarrow> 'op \<Rightarrow> ('f, 'b) ledger_event list"
  assumes inv_exclusive: "inv s \<Longrightarrow> exclusive (abs s)"
    and inv_step: "inv s \<Longrightarrow> inv (step s op)"
    and step_refines: "inv s \<Longrightarrow> ledger_run (abs s) (events s op) = Some (abs (step s op))"
begin

lemma inv_run: "inv s \<Longrightarrow> inv (run_ops step s ops)"
  by (induction ops arbitrary: s) (auto intro: inv_step)

lemma run_refines: "inv s \<Longrightarrow> ledger_run (abs s) (trace_ops step events s ops) = Some (abs (run_ops step s ops))"
  by (induction ops arbitrary: s) (auto simp: ledger_run_append step_refines intro: inv_step)

lemma one_frame_per_buffer:
  assumes "inv s" and "fmlookup (abs (run_ops step s ops)) f = Some b"
    and "fmlookup (abs (run_ops step s ops)) g = Some b"
  shows "f = g"
  using inv_exclusive [OF inv_run [OF assms(1)]] assms(2,3) by (rule exclusiveD)

lemma release_before_reuse:
  assumes "inv s" and "trace_ops step events s ops = es1 @ Reserve f b # es2 @ Reserve g b # es3"
  shows "Retire f b \<in> set es2"
  using ledger_release_before_reuse [OF inv_exclusive [OF assms(1)]]
    run_refines [OF assms(1), of ops] unfolding assms(2) .

end

subsection \<open>Streams of points\<close>

text \<open>
  A component that hands out points of an order (timeline points, timestamps, identities) keeps a
  high-water mark and promises that the points an operation consumes are newer than the mark, in
  order, and not above the next mark.  Then the points of a whole run are strictly increasing.
\<close>

locale point_source =
  fixes latest :: "'s \<Rightarrow> 'p::linorder"
    and step :: "'s \<Rightarrow> 'op \<Rightarrow> 's"
    and consumed :: "'s \<Rightarrow> 'op \<Rightarrow> 'p list"
  assumes consumed_sorted: "sorted_wrt (<) (latest s # consumed s op)"
    and latest_step: "last (latest s # consumed s op) \<le> latest (step s op)"
begin

lemma consumed_below: "x \<in> set (latest s # consumed s op) \<Longrightarrow> x \<le> latest (step s op)"
  using consumed_sorted [of s op] latest_step [of s op]
  by (cases "consumed s op" rule: rev_cases)
    (auto simp: sorted_wrt_append intro: order.trans less_imp_le less_le_trans)

lemma latest_mono: "latest s \<le> latest (step s op)"
  by (rule consumed_below) simp

lemma points_sorted: "sorted_wrt (<) (latest s # trace_ops step consumed s ops)"
proof (induction ops arbitrary: s)
  case (Cons op ops)
  have tail: "sorted_wrt (<) (latest (step s op) # trace_ops step consumed (step s op) ops)"
    by (rule Cons.IH)
  show ?case
    using consumed_sorted [of s op] tail consumed_below [of _ s op] latest_mono [of s op]
    by (auto simp: sorted_wrt_append intro: le_less_trans)
qed simp

end

end
