(* ===== verification/Transport.thy ===== *)
theory Transport
  imports Frame_Ledger
begin

section \<open>Buffer metadata and the Android-side presentation state\<close>

text \<open>
  \<open>graphics/droidloom-transport/src/lib.rs\<close>: the metadata of a DMA-BUF allocation with its
  validation, and \<open>PresentationState\<close>, which Composer keeps for each task display.  An operation on
  \<open>&mut self\<close> takes the state and returns the new one beside its result, on the error paths too, so
  that what an error leaves behind is a theorem and not a convention.
\<close>

subsection \<open>Data\<close>

type_synonym buffer_id = u64
type_synonym frame_id = u64

record format_modifier =
  fourcc :: u32
  modifier :: u64

record plane_metadata =
  pl_index :: u32
  pl_offset :: u32
  pl_stride :: u32

record buffer_metadata =
  buf_id :: buffer_id
  buf_width :: u32
  buf_height :: u32
  buf_format :: format_modifier
  buf_planes :: "plane_metadata list"

record configure =
  cfg_serial :: u32
  cfg_width :: u32
  cfg_height :: u32
  cfg_refresh_millihz :: u32

record damage =
  dmg_x :: u32
  dmg_y :: u32
  dmg_width :: u32
  dmg_height :: u32

record accepted_frame =
  af_frame_id :: frame_id
  af_buffer :: buffer_metadata
  af_damage :: "damage list"
  af_requires_acquire_fence :: bool

record released_frame =
  rf_frame_id :: frame_id
  rf_buffer_id :: buffer_id
  rf_has_release_fence :: bool

datatype transport_error =
    Unconfigured
  | InvalidSerial u32
  | TransportSizeMismatch u32 u32 u32 u32
  | TransportUnsupportedFormat u32 u64
  | TransportBufferInFlight buffer_id
  | TransportUnknownFrame frame_id
  | MissingFence
  | InvalidBuffer string
  | TransportInvalidDamage
  | FrameIdExhausted

subsection \<open>Metadata validation\<close>

fun validate_planes :: "nat \<Rightarrow> plane_metadata list \<Rightarrow> (transport_error, unit) result" where
  "validate_planes expected [] = Inr ()"
| "validate_planes expected (plane # planes) =
     (if unat (pl_index plane) \<noteq> expected
      then Inl (InvalidBuffer ''plane indices must be dense and start at zero'')
      else if pl_stride plane = 0
      then Inl (InvalidBuffer ''plane stride must be non-zero'')
      else validate_planes (Suc expected) planes)"

definition buffer_validate :: "buffer_metadata \<Rightarrow> (transport_error, unit) result" where
  "buffer_validate b =
     (if buf_width b = 0 \<or> buf_height b = 0
      then Inl (InvalidBuffer ''dimensions must be non-zero'')
      else if 16384 < buf_width b \<or> 16384 < buf_height b
      then Inl (InvalidBuffer ''dimensions exceed the v1 16384-pixel bound'')
      else if buf_planes b = [] \<or> 4 < length (buf_planes b)
      then Inl (InvalidBuffer ''DMA-BUFs require one through four planes'')
      else validate_planes 0 (buf_planes b))"

definition damage_fits :: "damage \<Rightarrow> buffer_metadata \<Rightarrow> bool" where
  "damage_fits d b =
     (0 < dmg_width d \<and> 0 < dmg_height d \<and>
      (case checked_add (dmg_x d) (dmg_width d) of
         None \<Rightarrow> False | Some right \<Rightarrow> right \<le> buf_width b) \<and>
      (case checked_add (dmg_y d) (dmg_height d) of
         None \<Rightarrow> False | Some bottom \<Rightarrow> bottom \<le> buf_height b))"

subsection \<open>Presentation state\<close>

record presentation_state =
  ps_feedback :: "format_modifier fset"
  ps_latest_configure :: "configure option"
  ps_acknowledged_serial :: "u32 option"
  ps_in_flight :: "(frame_id, buffer_id) fmap"
  ps_busy_buffers :: "buffer_id fset"
  ps_next_frame_id :: u64

definition ps_default :: presentation_state where
  "ps_default = \<lparr>ps_feedback = {||}, ps_latest_configure = None, ps_acknowledged_serial = None,
     ps_in_flight = fmempty, ps_busy_buffers = {||}, ps_next_frame_id = 0\<rparr>"

definition ps_in_flight_buffer :: "presentation_state \<Rightarrow> frame_id \<Rightarrow> buffer_id option" where
  "ps_in_flight_buffer s frame = fmlookup (ps_in_flight s) frame"

definition ps_replace_feedback ::
  "presentation_state \<Rightarrow> format_modifier list \<Rightarrow> presentation_state" where
  "ps_replace_feedback s formats = s\<lparr>ps_feedback := fset_of_list formats\<rparr>"

definition ps_configure :: "presentation_state \<Rightarrow> configure \<Rightarrow> presentation_state" where
  "ps_configure s c =
     (let s1 = (if map_option cfg_serial (ps_latest_configure s) \<noteq> Some (cfg_serial c)
                then s\<lparr>ps_acknowledged_serial := None\<rparr> else s)
      in s1\<lparr>ps_latest_configure := Some c\<rparr>)"

definition ps_acknowledge ::
  "presentation_state \<Rightarrow> u32 \<Rightarrow> (transport_error, unit) result \<times> presentation_state" where
  "ps_acknowledge s serial =
     (if map_option cfg_serial (ps_latest_configure s) \<noteq> Some serial
      then (Inl (InvalidSerial serial), s)
      else (Inr (), s\<lparr>ps_acknowledged_serial := Some serial\<rparr>))"

definition ps_submit ::
  "presentation_state \<Rightarrow> buffer_metadata \<Rightarrow> damage list \<Rightarrow> bool \<Rightarrow>
   (transport_error, accepted_frame) result \<times> presentation_state" where
  "ps_submit s b ds has_acquire_fence =
     (case ps_latest_configure s of None \<Rightarrow> (Inl Unconfigured, s) | Some c \<Rightarrow>
      if ps_acknowledged_serial s \<noteq> Some (cfg_serial c) then (Inl Unconfigured, s)
      else (case buffer_validate b of Inl e \<Rightarrow> (Inl e, s) | Inr _ \<Rightarrow>
      if (buf_width b, buf_height b) \<noteq> (cfg_width c, cfg_height c)
      then (Inl (TransportSizeMismatch (cfg_width c) (cfg_height c) (buf_width b) (buf_height b)), s)
      else if buf_format b |\<notin>| ps_feedback s
      then (Inl (TransportUnsupportedFormat (fourcc (buf_format b)) (modifier (buf_format b))), s)
      else if \<not> has_acquire_fence then (Inl MissingFence, s)
      else if buf_id b |\<in>| ps_busy_buffers s then (Inl (TransportBufferInFlight (buf_id b)), s)
      else if \<exists>d \<in> set ds. \<not> damage_fits d b then (Inl TransportInvalidDamage, s)
      else (case checked_add (ps_next_frame_id s) 1 of
              None \<Rightarrow> (Inl FrameIdExhausted, s)
            | Some frame \<Rightarrow>
                (Inr \<lparr>af_frame_id = frame, af_buffer = b, af_damage = ds,
                      af_requires_acquire_fence = True\<rparr>,
                 s\<lparr>ps_next_frame_id := frame,
                   ps_busy_buffers := finsert (buf_id b) (ps_busy_buffers s),
                   ps_in_flight := fmupd frame (buf_id b) (ps_in_flight s)\<rparr>))))"

definition ps_release ::
  "presentation_state \<Rightarrow> frame_id \<Rightarrow> bool \<Rightarrow>
   (transport_error, released_frame) result \<times> presentation_state" where
  "ps_release s frame has_release_fence =
     (if \<not> has_release_fence then (Inl MissingFence, s)
      else (case fmlookup (ps_in_flight s) frame of
              None \<Rightarrow> (Inl (TransportUnknownFrame frame), s)
            | Some b \<Rightarrow>
                (Inr \<lparr>rf_frame_id = frame, rf_buffer_id = b, rf_has_release_fence = True\<rparr>,
                 s\<lparr>ps_in_flight := fmdrop frame (ps_in_flight s),
                   ps_busy_buffers := ps_busy_buffers s |-| {|b|}\<rparr>)))"

definition ps_cancel_unsubmitted ::
  "presentation_state \<Rightarrow> frame_id \<Rightarrow> (transport_error, buffer_id) result \<times> presentation_state" where
  "ps_cancel_unsubmitted s frame =
     (case fmlookup (ps_in_flight s) frame of
        None \<Rightarrow> (Inl (TransportUnknownFrame frame), s)
      | Some b \<Rightarrow>
          (Inr b, s\<lparr>ps_in_flight := fmdrop frame (ps_in_flight s),
                    ps_busy_buffers := ps_busy_buffers s |-| {|b|}\<rparr>))"

definition ps_in_flight_count :: "presentation_state \<Rightarrow> nat" where
  "ps_in_flight_count s = fmlen (ps_in_flight s)"

subsection \<open>What validation guarantees\<close>

lemma validate_planes_ok_iff:
  "validate_planes k planes = Inr u \<longleftrightarrow>
     (\<forall>i < length planes. unat (pl_index (planes ! i)) = k + i \<and> pl_stride (planes ! i) \<noteq> 0)"
proof (induction k planes rule: validate_planes.induct)
  case (1 k)
  then show ?case by simp
next
  case (2 k plane planes)
  then show ?case
    by (auto simp: All_less_Suc2)
qed

lemma buffer_validate_ok_iff:
  "buffer_validate b = Inr u \<longleftrightarrow>
     buf_width b \<noteq> 0 \<and> buf_height b \<noteq> 0 \<and> buf_width b \<le> 16384 \<and> buf_height b \<le> 16384 \<and>
     buf_planes b \<noteq> [] \<and> length (buf_planes b) \<le> 4 \<and>
     (\<forall>i < length (buf_planes b).
        unat (pl_index (buf_planes b ! i)) = i \<and> pl_stride (buf_planes b ! i) \<noteq> 0)"
  by (auto simp: buffer_validate_def validate_planes_ok_iff not_less)

lemma damage_fits_iff:
  "damage_fits d b \<longleftrightarrow>
     dmg_width d \<noteq> 0 \<and> dmg_height d \<noteq> 0 \<and>
     unat (dmg_x d) + unat (dmg_width d) \<le> unat (buf_width b) \<and>
     unat (dmg_y d) + unat (dmg_height d) \<le> unat (buf_height b)"
proof -
  have fit: "(case checked_add x e of None \<Rightarrow> False | Some v \<Rightarrow> v \<le> bound) \<longleftrightarrow>
      \<not> end_exceeds x e bound" for x e bound :: u32
    by (auto simp: end_exceeds_def not_less split: option.splits)
  show ?thesis
    unfolding damage_fits_def fit end_exceeds_iff
    by (simp add: not_less word_gt_0)
qed

subsection \<open>Invariant\<close>

text \<open>
  The set of busy buffers is exactly the set of buffers held by frames in flight, no two frames
  hold the same buffer, every frame in flight was numbered by this state, and an acknowledgement
  always names the latest configure.
\<close>

definition ps_inv :: "presentation_state \<Rightarrow> bool" where
  "ps_inv s \<longleftrightarrow>
     ps_busy_buffers s = fmran (ps_in_flight s) \<and>
     exclusive (ps_in_flight s) \<and>
     (\<forall>f. f |\<in>| fmdom (ps_in_flight s) \<longrightarrow> f \<le> ps_next_frame_id s) \<and>
     (\<forall>n. ps_acknowledged_serial s = Some n \<longrightarrow>
        map_option cfg_serial (ps_latest_configure s) = Some n)"

lemma ps_inv_default: "ps_inv ps_default"
  by (simp add: ps_inv_def ps_default_def)

lemma ps_inv_busyD: "ps_inv s \<Longrightarrow> ps_busy_buffers s = fmran (ps_in_flight s)"
  by (simp add: ps_inv_def)

lemma ps_inv_exclusive: "ps_inv s \<Longrightarrow> exclusive (ps_in_flight s)"
  by (simp add: ps_inv_def)

text \<open>The next frame number is not in flight, even at the end of the number space.\<close>

lemma next_frame_fresh:
  assumes "ps_inv s" and "checked_add (ps_next_frame_id s) 1 = Some f"
  shows "f |\<notin>| fmdom (ps_in_flight s)" and "ps_next_frame_id s < f"
proof -
  from assms(2) show less: "ps_next_frame_id s < f"
    by (auto simp: checked_add_Some_iff word_less_nat_alt)
  show "f |\<notin>| fmdom (ps_in_flight s)"
    using assms(1) less unfolding ps_inv_def by (meson leD)
qed

lemma ps_submit_cases:
  assumes "ps_submit s b ds fence = (r, s')"
  obtains (error) e where "r = Inl e" "s' = s"
  | (accepted) c f where "r = Inr \<lparr>af_frame_id = f, af_buffer = b, af_damage = ds,
        af_requires_acquire_fence = True\<rparr>"
      "s' = s\<lparr>ps_next_frame_id := f, ps_busy_buffers := finsert (buf_id b) (ps_busy_buffers s),
        ps_in_flight := fmupd f (buf_id b) (ps_in_flight s)\<rparr>"
      "ps_latest_configure s = Some c" "ps_acknowledged_serial s = Some (cfg_serial c)"
      "buffer_validate b = Inr ()" "buf_width b = cfg_width c" "buf_height b = cfg_height c"
      "buf_format b |\<in>| ps_feedback s" "fence" "buf_id b |\<notin>| ps_busy_buffers s"
      "\<forall>d \<in> set ds. damage_fits d b" "checked_add (ps_next_frame_id s) 1 = Some f"
  using assms unfolding ps_submit_def
  by (auto split: option.splits sum.splits if_splits)

lemma ps_inv_submit: "ps_inv s \<Longrightarrow> ps_inv (snd (ps_submit s b ds fence))"
proof (cases "ps_submit s b ds fence")
  case (Pair r s')
  assume inv: "ps_inv s"
  from Pair show ?thesis
  proof (cases rule: ps_submit_cases)
    case error
    with inv Pair show ?thesis by simp
  next
    case (accepted c f)
    have "\<forall>g. g |\<in>| fmdom (ps_in_flight s) \<longrightarrow> g \<le> f"
      using inv next_frame_fresh(2) [OF inv accepted(12)] unfolding ps_inv_def
      by (meson less_imp_le order_trans)
    then show ?thesis
      using inv accepted(2,10) next_frame_fresh(1) [OF inv accepted(12)] Pair
      by (simp add: ps_inv_def fmran_reserve exclusive_reserve)
  qed
qed

lemma ps_inv_retire:
  assumes "ps_inv s" and "fmlookup (ps_in_flight s) f = Some b"
  shows "ps_inv (s\<lparr>ps_in_flight := fmdrop f (ps_in_flight s),
    ps_busy_buffers := ps_busy_buffers s |-| {|b|}\<rparr>)"
  using assms fmran_retire [OF ps_inv_exclusive [OF assms(1)] assms(2)]
  by (auto simp: ps_inv_def exclusive_retire)

subsection \<open>Sequences of operations\<close>

datatype presentation_op =
    PsReplaceFeedback "format_modifier list"
  | PsConfigure configure
  | PsAcknowledge u32
  | PsSubmit buffer_metadata "damage list" bool
  | PsRelease frame_id bool
  | PsCancelUnsubmitted frame_id

fun ps_step :: "presentation_state \<Rightarrow> presentation_op \<Rightarrow> presentation_state" where
  "ps_step s (PsReplaceFeedback formats) = ps_replace_feedback s formats"
| "ps_step s (PsConfigure c) = ps_configure s c"
| "ps_step s (PsAcknowledge serial) = snd (ps_acknowledge s serial)"
| "ps_step s (PsSubmit b ds fence) = snd (ps_submit s b ds fence)"
| "ps_step s (PsRelease f fence) = snd (ps_release s f fence)"
| "ps_step s (PsCancelUnsubmitted f) = snd (ps_cancel_unsubmitted s f)"

text \<open>What an operation does to the ledger, read off its result.\<close>

fun ps_events :: "presentation_state \<Rightarrow> presentation_op \<Rightarrow> (frame_id, buffer_id) ledger_event list"
where
  "ps_events s (PsSubmit b ds fence) =
     (case fst (ps_submit s b ds fence) of
        Inl e \<Rightarrow> [] | Inr a \<Rightarrow> [Reserve (af_frame_id a) (buf_id (af_buffer a))])"
| "ps_events s (PsRelease f fence) =
     (case fst (ps_release s f fence) of
        Inl e \<Rightarrow> [] | Inr a \<Rightarrow> [Retire (rf_frame_id a) (rf_buffer_id a)])"
| "ps_events s (PsCancelUnsubmitted f) =
     (case fst (ps_cancel_unsubmitted s f) of Inl e \<Rightarrow> [] | Inr b \<Rightarrow> [Retire f b])"
| "ps_events s _ = []"

lemma ps_inv_release: "ps_inv s \<Longrightarrow> ps_inv (snd (ps_release s f fence))"
  by (auto simp: ps_release_def ps_inv_retire split: option.splits)

lemma ps_inv_cancel: "ps_inv s \<Longrightarrow> ps_inv (snd (ps_cancel_unsubmitted s f))"
  by (auto simp: ps_cancel_unsubmitted_def ps_inv_retire split: option.splits)

lemma ps_inv_step: "ps_inv s \<Longrightarrow> ps_inv (ps_step s op)"
proof (cases op)
  case (PsConfigure c)
  assume "ps_inv s"
  then show ?thesis
    by (auto simp: PsConfigure ps_inv_def ps_configure_def Let_def)
qed (auto simp: ps_inv_submit ps_inv_release ps_inv_cancel,
     auto simp: ps_inv_def ps_replace_feedback_def ps_acknowledge_def)

lemma ps_step_refines:
  assumes "ps_inv s"
  shows "ledger_run (ps_in_flight s) (ps_events s op) = Some (ps_in_flight (ps_step s op))"
proof (cases op)
  case (PsSubmit b ds fence)
  show ?thesis
  proof (cases "ps_submit s b ds fence")
    case (Pair r s')
    then show ?thesis
    proof (cases rule: ps_submit_cases)
      case error
      then show ?thesis by (simp add: PsSubmit Pair)
    next
      case (accepted c f)
      show ?thesis
        using accepted(1,2,10) next_frame_fresh(1) [OF assms accepted(12)] ps_inv_busyD [OF assms]
        by (simp add: PsSubmit Pair)
    qed
  qed
qed (auto simp: ps_replace_feedback_def ps_configure_def Let_def ps_acknowledge_def ps_release_def
      ps_cancel_unsubmitted_def split: option.splits)

interpretation pres: frame_owner ps_in_flight ps_inv ps_step ps_events
  by unfold_locales (auto intro: ps_inv_exclusive ps_inv_step ps_step_refines)

subsection \<open>Properties\<close>

text \<open>
  Release before reuse on the Android side: along any sequence of operations on a fresh
  \<open>PresentationState\<close>, if a buffer is accepted by \<open>submit\<close> for frame \<open>f\<close> and later for frame \<open>g\<close>,
  then frame \<open>f\<close> was retired in between, by a fenced release or by the rollback of an unsubmitted
  frame.
\<close>

theorem presentation_release_before_reuse:
  assumes "trace_ops ps_step ps_events ps_default ops =
    es1 @ Reserve f b # es2 @ Reserve g b # es3"
  shows "Retire f b \<in> set es2"
  using pres.release_before_reuse [OF ps_inv_default assms] .

text \<open>
  The bookkeeping of \<open>PresentationState\<close> stays consistent: after any sequence of operations the
  busy set is exactly the set of buffers of the frames in flight, no buffer is in flight twice, frame
  numbers never exceed the counter and an acknowledgement names the latest configure.
\<close>

theorem presentation_invariant: "ps_inv (run_ops ps_step ps_default ops)"
  using pres.inv_run [OF ps_inv_default] .

text \<open>
  \<open>submit\<close> accepts a buffer exactly when the latest configure is acknowledged, the metadata is
  valid and of the configured size, the format is in the feedback, an acquire fence is there, the
  buffer is idle, every damage rectangle lies inside the buffer as an unbounded sum (so no 32-bit
  wrap can admit one) and a 64-bit frame number is left.
\<close>

theorem submit_accepts_iff:
  "is_ok (fst (ps_submit s b ds fence)) \<longleftrightarrow>
     (\<exists>c. ps_latest_configure s = Some c \<and> ps_acknowledged_serial s = Some (cfg_serial c) \<and>
        buffer_validate b = Inr () \<and> buf_width b = cfg_width c \<and> buf_height b = cfg_height c \<and>
        buf_format b |\<in>| ps_feedback s \<and> fence \<and> buf_id b |\<notin>| ps_busy_buffers s \<and>
        (\<forall>d \<in> set ds. dmg_width d \<noteq> 0 \<and> dmg_height d \<noteq> 0 \<and>
           unat (dmg_x d) + unat (dmg_width d) \<le> unat (buf_width b) \<and>
           unat (dmg_y d) + unat (dmg_height d) \<le> unat (buf_height b)) \<and>
        unat (ps_next_frame_id s) + 1 < 2 ^ 64)"
proof -
  have room: "(\<exists>f. checked_add (n :: u64) 1 = Some f) \<longleftrightarrow> unat n + 1 < 2 ^ 64" for n
    by (simp add: checked_add_def)
  show ?thesis
    unfolding room [symmetric] damage_fits_iff [symmetric] ps_submit_def
    by (auto split: option.splits sum.splits)
qed

text \<open>A 64 by 32 single-plane buffer and a state that has feedback and an acknowledged configure.\<close>

definition example_format :: format_modifier where
  "example_format = \<lparr>fourcc = 0x34325258, modifier = 2\<rparr>"

definition example_buffer :: "buffer_id \<Rightarrow> buffer_metadata" where
  "example_buffer n = \<lparr>buf_id = n, buf_width = 64, buf_height = 32, buf_format = example_format,
     buf_planes = [\<lparr>pl_index = 0, pl_offset = 0, pl_stride = 256\<rparr>]\<rparr>"

definition example_ops :: "presentation_op list" where
  "example_ops = [PsReplaceFeedback [example_format],
     PsConfigure \<lparr>cfg_serial = 7, cfg_width = 64, cfg_height = 32, cfg_refresh_millihz = 60000\<rparr>,
     PsAcknowledge 7]"

lemmas example_ps_defs = example_ops_def example_buffer_def example_format_def ps_default_def
  ps_replace_feedback_def ps_configure_def ps_acknowledge_def ps_submit_def ps_release_def
  ps_cancel_unsubmitted_def buffer_validate_def damage_fits_def checked_add_def

text \<open>
  A rejected operation changes nothing: whenever \<open>acknowledge\<close>, \<open>submit\<close>, \<open>release\<close> or
  \<open>cancel_unsubmitted\<close> returns an error, the state is the one it started from.
\<close>

theorem presentation_errors_change_nothing:
  "(fst (ps_acknowledge s serial) = Inl e1 \<longrightarrow> snd (ps_acknowledge s serial) = s) \<and>
   (fst (ps_submit s b ds fence) = Inl e2 \<longrightarrow> snd (ps_submit s b ds fence) = s) \<and>
   (fst (ps_release s f rfence) = Inl e3 \<longrightarrow> snd (ps_release s f rfence) = s) \<and>
   (fst (ps_cancel_unsubmitted s f) = Inl e4 \<longrightarrow> snd (ps_cancel_unsubmitted s f) = s)"
proof (intro conjI impI)
  assume "fst (ps_submit s b ds fence) = Inl e2"
  then show "snd (ps_submit s b ds fence) = s"
    by (cases "ps_submit s b ds fence") (auto elim: ps_submit_cases)
qed (auto simp: ps_acknowledge_def ps_release_def ps_cancel_unsubmitted_def split: option.splits
      if_splits)

text \<open>
  The debug assertions of \<open>release\<close> and \<open>cancel_unsubmitted\<close> never fire: in every reachable state
  the buffer of a frame in flight is in the busy set when the frame is removed.
\<close>

theorem in_flight_frame_has_busy_buffer:
  assumes "fmlookup (ps_in_flight (run_ops ps_step ps_default ops)) f = Some b"
  shows "b |\<in>| ps_busy_buffers (run_ops ps_step ps_default ops)"
  using pres.inv_run [OF ps_inv_default, of ops] fmranI [OF assms] by (simp add: ps_inv_busyD)

end
