(* ===== verification/Wire_Codec.thy ===== *)
theory Wire_Codec
  imports Transport
begin

section \<open>Wire errors, the payload writer and reader\<close>

text \<open>
  The \<open>Writer\<close> and \<open>Reader\<close> of \<open>graphics/droidloom-denial-protocol/src/lib.rs\<close>.  The writer only
  appends, so a written field is the bytes it appends and a payload is their concatenation.  The
  reader consumes the front of the remaining slice; a reader is a function from the remaining bytes
  to an error or a value with the bytes left over.  The locale \<open>wire_codec\<close> is the contract between
  the two: what was written is read back, and nothing else is read as that value.  It is interpreted
  for each integer width and for strings here, and for each compound record where that is declared.
\<close>

datatype wire_error =
    ShortHeader
  | PacketTooLarge
  | InvalidMagic
  | UnsupportedVersion u16 u16
  | LengthMismatch
  | UnsupportedHeaderBits
  | UnknownOpcode u16
  | DescriptorCount nat nat
  | Truncated
  | TrailingBytes
  | InvalidString string
  | InvalidObject
  | InvalidEnum string u64
  | Limit string
  | WireTransport transport_error

subsection \<open>Writer\<close>

definition w_u8 :: "u8 \<Rightarrow> u8 list" where "w_u8 v = [v]"
definition w_u16 :: "u16 \<Rightarrow> u8 list" where "w_u16 v = to_le_bytes 2 v"
definition w_u32 :: "u32 \<Rightarrow> u8 list" where "w_u32 v = to_le_bytes 4 v"
definition w_i32 :: "i32 \<Rightarrow> u8 list" where "w_i32 v = to_le_bytes 4 v"
definition w_u64 :: "u64 \<Rightarrow> u8 list" where "w_u64 v = to_le_bytes 8 v"

text \<open>A length-prefixed string; \<open>usize::try_into::<u16>\<close> fails above 65535.\<close>

definition string_bytes :: "rust_string \<Rightarrow> u8 list" where
  "string_bytes v = w_u16 (word_of_nat (length v)) @ v"

definition w_string :: "rust_string \<Rightarrow> nat \<Rightarrow> string \<Rightarrow> (wire_error, u8 list) result" where
  "w_string v limit field =
     (if limit < length v then Inl (InvalidString field)
      else if 65535 < length v then Inl (InvalidString field)
      else Inr (string_bytes v))"

subsection \<open>Reader\<close>

type_synonym 'a reader = "u8 list \<Rightarrow> (wire_error, 'a \<times> u8 list) result"

definition rd_return :: "'a \<Rightarrow> 'a reader" where
  "rd_return x = (\<lambda>bs. Inr (x, bs))"

definition rd_bind :: "'a reader \<Rightarrow> ('a \<Rightarrow> 'b reader) \<Rightarrow> 'b reader" where
  "rd_bind r k = (\<lambda>bs. case r bs of Inl e \<Rightarrow> Inl e | Inr (x, rest) \<Rightarrow> k x rest)"

text \<open>A check that reads nothing.\<close>

definition rd_check :: "(wire_error, 'a) result \<Rightarrow> 'a reader" where
  "rd_check r = (\<lambda>bs. case r of Inl e \<Rightarrow> Inl e | Inr x \<Rightarrow> Inr (x, bs))"

definition rd_take :: "nat \<Rightarrow> u8 list reader" where
  "rd_take count = (\<lambda>bs. if length bs < count then Inl Truncated
                         else Inr (take count bs, drop count bs))"

definition rd_u8 :: "u8 reader" where
  "rd_u8 = rd_bind (rd_take 1) (\<lambda>bs. rd_return (hd bs))"
definition rd_u16 :: "u16 reader" where
  "rd_u16 = rd_bind (rd_take 2) (\<lambda>bs. rd_return (from_le_bytes bs))"
definition rd_u32 :: "u32 reader" where
  "rd_u32 = rd_bind (rd_take 4) (\<lambda>bs. rd_return (from_le_bytes bs))"
definition rd_i32 :: "i32 reader" where
  "rd_i32 = rd_bind (rd_take 4) (\<lambda>bs. rd_return (from_le_bytes bs))"
definition rd_u64 :: "u64 reader" where
  "rd_u64 = rd_bind (rd_take 8) (\<lambda>bs. rd_return (from_le_bytes bs))"

definition rd_string :: "nat \<Rightarrow> string \<Rightarrow> rust_string reader" where
  "rd_string limit field =
     rd_bind rd_u16 (\<lambda>n.
     rd_bind (rd_check (reject_if (limit < unat n) (InvalidString field))) (\<lambda>_.
     rd_bind (rd_take (unat n)) (\<lambda>bytes.
     rd_check (if utf8_valid bytes then Inr bytes else Inl (InvalidString field)))))"

definition rd_finish :: "u8 list \<Rightarrow> (wire_error, unit) result" where
  "rd_finish bs = (if bs = [] then Inr () else Inl TrailingBytes)"

text \<open>The counted loops of the decoders: \<open>for _ in 0..count\<close>.\<close>

fun rd_repeat :: "nat \<Rightarrow> 'a reader \<Rightarrow> 'a list reader" where
  "rd_repeat 0 r = rd_return []"
| "rd_repeat (Suc n) r =
     rd_bind r (\<lambda>x. rd_bind (rd_repeat n r) (\<lambda>xs. rd_return (x # xs)))"

lemma rd_bind_Inr_iff [result_simps]:
  "rd_bind r k bs = Inr y \<longleftrightarrow> (\<exists>x rest. r bs = Inr (x, rest) \<and> k x rest = Inr y)"
  by (auto simp: rd_bind_def split: sum.splits)

lemma rd_bind_Inr [simp]: "r bs = Inr (x, rest) \<Longrightarrow> rd_bind r k bs = k x rest"
  by (simp add: rd_bind_def)

lemma rd_bind_Inl [simp]: "r bs = Inl e \<Longrightarrow> rd_bind r k bs = Inl e"
  by (simp add: rd_bind_def)

lemma rd_check_Inr_iff [result_simps]:
  "rd_check c bs = Inr (x, rest) \<longleftrightarrow> c = Inr x \<and> rest = bs"
  by (auto simp: rd_check_def split: sum.splits)

lemma rd_check_simps [simp]: "rd_check (Inr x) bs = Inr (x, bs)" "rd_check (Inl e) bs = Inl e"
  by (simp_all add: rd_check_def)

lemma rd_return_app [simp]: "rd_return x bs = Inr (x, bs)"
  by (simp add: rd_return_def)

lemma rd_take_Inr_iff:
  "rd_take n bs = Inr (x, rest) \<longleftrightarrow> bs = x @ rest \<and> length x = n"
  by (auto simp: rd_take_def)

lemma rd_finish_Inr_iff [result_simps]: "rd_finish bs = Inr u \<longleftrightarrow> bs = []"
  by (auto simp: rd_finish_def)

lemma rd_word_iff:
  assumes "LENGTH('a) = 8 * k"
  shows "rd_bind (rd_take k) (\<lambda>bs. rd_return (from_le_bytes bs)) bs = Inr (x :: 'a::len word, rest)
    \<longleftrightarrow> bs = to_le_bytes k x @ rest"
proof
  assume "rd_bind (rd_take k) (\<lambda>bs. rd_return (from_le_bytes bs)) bs = Inr (x, rest)"
  then show "bs = to_le_bytes k x @ rest"
    using to_le_from_le [OF assms] by (auto simp: rd_bind_Inr_iff rd_take_Inr_iff)
next
  assume "bs = to_le_bytes k x @ rest"
  then show "rd_bind (rd_take k) (\<lambda>bs. rd_return (from_le_bytes bs)) bs = Inr (x, rest)"
    using from_le_to_le [OF assms] by (auto simp: rd_bind_Inr_iff rd_take_Inr_iff)
qed

lemma rd_u8_iff [codec_simps]: "rd_u8 bs = Inr (x, rest) \<longleftrightarrow> bs = w_u8 x @ rest"
  by (auto simp: rd_u8_def w_u8_def rd_bind_Inr_iff rd_take_Inr_iff length_Suc_conv)

lemma rd_u16_iff [codec_simps]: "rd_u16 bs = Inr (x, rest) \<longleftrightarrow> bs = w_u16 x @ rest"
  unfolding rd_u16_def w_u16_def by (rule rd_word_iff) simp

lemma rd_u32_iff [codec_simps]: "rd_u32 bs = Inr (x, rest) \<longleftrightarrow> bs = w_u32 x @ rest"
  unfolding rd_u32_def w_u32_def by (rule rd_word_iff) simp

lemma rd_i32_iff [codec_simps]: "rd_i32 bs = Inr (x, rest) \<longleftrightarrow> bs = w_i32 x @ rest"
  unfolding rd_i32_def w_i32_def by (rule rd_word_iff) simp

lemma rd_u64_iff [codec_simps]: "rd_u64 bs = Inr (x, rest) \<longleftrightarrow> bs = w_u64 x @ rest"
  unfolding rd_u64_def w_u64_def by (rule rd_word_iff) simp

lemma length_w [simp]:
  "length (w_u8 a) = 1" "length (w_u16 b) = 2" "length (w_u32 c) = 4" "length (w_i32 c) = 4"
  "length (w_u64 d) = 8"
  by (simp_all add: w_u8_def w_u16_def w_u32_def w_i32_def w_u64_def)

subsection \<open>The contract between writer and reader\<close>

locale wire_codec =
  fixes put :: "'a \<Rightarrow> u8 list"
    and get :: "'a reader"
    and ok :: "'a \<Rightarrow> bool"
  assumes get_iff: "get bs = Inr (x, rest) \<longleftrightarrow> ok x \<and> bs = put x @ rest"
begin

lemma get_put: "ok x \<Longrightarrow> get (put x @ rest) = Inr (x, rest)"
  by (simp add: get_iff)

lemma get_put_end: "ok x \<Longrightarrow> get (put x) = Inr (x, [])"
  by (simp add: get_iff)

lemma put_prefix_inject:
  assumes "ok x" "ok y" "put x @ r = put y @ r'"
  shows "x = y \<and> r = r'"
proof -
  have "get (put x @ r) = Inr (x, r)" and "get (put x @ r) = Inr (y, r')"
    using assms by (simp_all add: get_iff)
  then show ?thesis by simp
qed

lemma put_inject: "ok x \<Longrightarrow> ok y \<Longrightarrow> put x = put y \<longleftrightarrow> x = y"
  using put_prefix_inject [of x y "[]" "[]"] by auto

lemma repeat_iff:
  "rd_repeat n get bs = Inr (xs, rest) \<longleftrightarrow>
     length xs = n \<and> (\<forall>x \<in> set xs. ok x) \<and> bs = concat (map put xs) @ rest"
proof (induction n arbitrary: bs xs)
  case 0
  then show ?case by auto
next
  case (Suc n)
  show ?case
    by (cases xs) (auto simp: rd_bind_Inr_iff get_iff Suc.IH)
qed

end

text \<open>Records whose encodings all have the same length.\<close>

locale fixed_codec = wire_codec +
  fixes width :: nat
  assumes put_width: "length (put x) = width"
begin

lemma concat_width: "length (concat (map put xs)) = width * length xs"
  by (induction xs) (auto simp: put_width)

end

interpretation c8: fixed_codec w_u8 rd_u8 "\<lambda>_. True" 1
  by unfold_locales (auto simp: codec_simps)

interpretation c16: fixed_codec w_u16 rd_u16 "\<lambda>_. True" 2
  by unfold_locales (auto simp: codec_simps)

interpretation c32: fixed_codec w_u32 rd_u32 "\<lambda>_. True" 4
  by unfold_locales (auto simp: codec_simps)

interpretation ci32: fixed_codec w_i32 rd_i32 "\<lambda>_. True" 4
  by unfold_locales (auto simp: codec_simps)

interpretation c64: fixed_codec w_u64 rd_u64 "\<lambda>_. True" 8
  by unfold_locales (auto simp: codec_simps)

lemma rd_string_iff:
  assumes "limit \<le> 65535"
  shows "rd_string limit field bs = Inr (x, rest) \<longleftrightarrow>
    (length x \<le> limit \<and> utf8_valid x) \<and> bs = string_bytes x @ rest"
proof -
  have len: "unat (word_of_nat (length x) :: u16) = length x" if "length x \<le> limit"
    using that assms by (simp add: unat_of_nat)
  show ?thesis
  proof
    assume "rd_string limit field bs = Inr (x, rest)"
    then show "(length x \<le> limit \<and> utf8_valid x) \<and> bs = string_bytes x @ rest"
      by (auto simp: rd_string_def string_bytes_def result_simps codec_simps rd_take_Inr_iff
          split: if_splits)
  next
    assume "(length x \<le> limit \<and> utf8_valid x) \<and> bs = string_bytes x @ rest"
    then show "rd_string limit field bs = Inr (x, rest)"
      by (auto simp: rd_string_def string_bytes_def result_simps codec_simps rd_take_Inr_iff len)
  qed
qed

text \<open>Reading back after writing, in the two shapes a payload gives: more bytes follow, or none.\<close>

lemmas read_back [simp] =
  c8.get_put [OF TrueI] c16.get_put [OF TrueI] c32.get_put [OF TrueI] ci32.get_put [OF TrueI]
  c64.get_put [OF TrueI]
  c8.get_put_end [OF TrueI] c16.get_put_end [OF TrueI] c32.get_put_end [OF TrueI]
  ci32.get_put_end [OF TrueI] c64.get_put_end [OF TrueI]

lemmas w_inject [simp] =
  c8.put_inject [OF TrueI TrueI] c16.put_inject [OF TrueI TrueI] c32.put_inject [OF TrueI TrueI]
  ci32.put_inject [OF TrueI TrueI] c64.put_inject [OF TrueI TrueI]

end
