(* ===== verification/Protocol_Messages.thy ===== *)
theory Protocol_Messages
  imports Wire_Codec
begin

unbundle bit_operations_syntax

section \<open>Messages of the Android-to-host protocol\<close>

text \<open>
  The constants, enums, messages and field validators of
  \<open>graphics/droidloom-denial-protocol/src/lib.rs\<close>.  Newtypes over \<open>u64\<close> are type synonyms; an enum
  with explicit discriminants has its numeric code as a function and its decoder as the table the
  \<open>decode_enum!\<close> macro expands to.
\<close>

subsection \<open>Constants\<close>

definition MAGIC :: "u8 list" where "MAGIC = [0x44, 0x4C, 0x4F, 0x4D]"
definition PROTOCOL_MAJOR :: u16 where [proto_consts]: "PROTOCOL_MAJOR = 1"
definition PROTOCOL_MINOR :: u16 where [proto_consts]: "PROTOCOL_MINOR = 9"
definition BASE_PROTOCOL_MINOR :: u16 where [proto_consts]: "BASE_PROTOCOL_MINOR = 3"
definition ACTIVATION_PROTOCOL_MINOR :: u16 where [proto_consts]: "ACTIVATION_PROTOCOL_MINOR = 4"
definition HEADER_BYTES :: nat where [proto_consts]: "HEADER_BYTES = 32"
definition MAX_PACKET_BYTES :: nat where [proto_consts]: "MAX_PACKET_BYTES = 65536"
definition MAX_PACKET_DESCRIPTORS :: nat where [proto_consts]: "MAX_PACKET_DESCRIPTORS = 4"
definition MAX_PACKAGE_BYTES :: nat where [proto_consts]: "MAX_PACKAGE_BYTES = 255"
definition MAX_ERROR_BYTES :: nat where [proto_consts]: "MAX_ERROR_BYTES = 1024"
definition MAX_FORMATS :: nat where [proto_consts]: "MAX_FORMATS = 256"
definition MAX_DAMAGE_RECTS :: nat where [proto_consts]: "MAX_DAMAGE_RECTS = 256"
definition MAX_TASK_OBJECTS :: u32 where [proto_consts]: "MAX_TASK_OBJECTS = 4096"
definition MAX_BUFFERS_PER_TASK :: u32 where [proto_consts]: "MAX_BUFFERS_PER_TASK = 256"

definition U64_MAX :: u64 where [proto_consts]: "U64_MAX = - 1"

text \<open>Capability bits.\<close>

definition TASK_WINDOWS :: u64 where [proto_consts]: "TASK_WINDOWS = push_bit 0 1"
definition CACHED_DMABUF_IMPORT :: u64 where [proto_consts]: "CACHED_DMABUF_IMPORT = push_bit 1 1"
definition SYNCOBJ_TIMELINES :: u64 where [proto_consts]: "SYNCOBJ_TIMELINES = push_bit 2 1"
definition PRESENTATION_TIMING :: u64 where [proto_consts]: "PRESENTATION_TIMING = push_bit 3 1"
definition INPUT_CAPABILITY :: u64 where [proto_consts]: "INPUT_CAPABILITY = push_bit 4 1"
definition CLIENT_TARGET :: u64 where [proto_consts]: "CLIENT_TARGET = push_bit 5 1"
definition HOST_RENDER_TARGETS :: u64 where [proto_consts]: "HOST_RENDER_TARGETS = push_bit 6 1"
definition DROIDLOOM_COMPOSITION :: u64 where [proto_consts]: "DROIDLOOM_COMPOSITION = push_bit 7 1"
definition TASK_ACTIVATION :: u64 where [proto_consts]: "TASK_ACTIVATION = push_bit 8 1"
definition DISPLAY_POWER :: u64 where [proto_consts]: "DISPLAY_POWER = push_bit 9 1"
definition DIRECT_INPUT :: u64 where [proto_consts]: "DIRECT_INPUT = push_bit 10 1"
definition LAZY_RENDER_TARGETS :: u64 where [proto_consts]: "LAZY_RENDER_TARGETS = push_bit 11 1"
definition SCENE_PRESENTATION :: u64 where [proto_consts]: "SCENE_PRESENTATION = push_bit 12 1"
definition HOST_CLOCK :: u64 where [proto_consts]: "HOST_CLOCK = push_bit 13 1"

definition REQUIRED_V1 :: u64 where
  [proto_consts]: "REQUIRED_V1 = TASK_WINDOWS OR CACHED_DMABUF_IMPORT OR SYNCOBJ_TIMELINES
     OR PRESENTATION_TIMING OR INPUT_CAPABILITY OR HOST_RENDER_TARGETS OR DROIDLOOM_COMPOSITION
     OR DISPLAY_POWER"

text \<open>Content-state and presentation flags.\<close>

definition CONTENT_OPAQUE :: u32 where [proto_consts]: "CONTENT_OPAQUE = push_bit 0 1"
definition CONTENT_SECURE :: u32 where [proto_consts]: "CONTENT_SECURE = push_bit 1 1"
definition CONTENT_HDR :: u32 where [proto_consts]: "CONTENT_HDR = push_bit 2 1"
definition CONTENT_KNOWN :: u32 where
  [proto_consts]: "CONTENT_KNOWN = CONTENT_OPAQUE OR CONTENT_SECURE OR CONTENT_HDR"

definition FLAG_DISPLAYED :: u32 where [proto_consts]: "FLAG_DISPLAYED = push_bit 0 1"
definition FLAG_DIRECT_SCANOUT :: u32 where [proto_consts]: "FLAG_DIRECT_SCANOUT = push_bit 1 1"
definition FLAG_COMPOSITED :: u32 where [proto_consts]: "FLAG_COMPOSITED = push_bit 2 1"
definition PRESENTATION_KNOWN :: u32 where
  [proto_consts]: "PRESENTATION_KNOWN = FLAG_DISPLAYED OR FLAG_DIRECT_SCANOUT OR FLAG_COMPOSITED"

subsection \<open>Enums\<close>

type_synonym task_object_id = u64
type_synonym android_task_id = u64
type_synonym android_display_id = u64

datatype descriptor_kind =
  InputChannel | DmabufPlane | LayerStream | AcquireTimeline | ReleaseTimeline

datatype transform = TransformNormal | Rotate90 | Rotate180 | Rotate270
datatype visibility = Hidden | Visible | Obscured
datatype touch_action = TouchDown | TouchMotion | TouchUp | TouchCancel
datatype key_action = KeyDown | KeyUp
datatype navigation_action = NavBack | NavHome | NavOverview

datatype protocol_error_code =
    Incompatible | InvalidMessage | DuplicateObject | UnknownObjectCode | ResourceLimit
  | InvalidState | ProtectedContent | UnsupportedFormatCode

datatype input_event =
    Touch touch_action u32 i32 i32 u16
  | Key key_action u32 u16
  | Navigation navigation_action

subsection \<open>Messages\<close>

datatype android_message =
    RequestRenderTargets task_object_id u32
  | BindInputChannel u64 u16
  | BindInputRoute task_object_id u32 u64
  | ClientHello u16 u16 u64
  | CreateTask task_object_id android_display_id rust_string
  | BindTask task_object_id android_task_id
  | DestroyTask task_object_id
  | BindTimelines task_object_id
  | AckConfigure task_object_id u32
  | RegisterBuffer task_object_id buffer_metadata
  | UnregisterBuffer task_object_id buffer_id
  | Present task_object_id frame_id buffer_id u32 u64 u64 "damage list"
  | BindLayerStream task_object_id
  | SetContentState task_object_id u32
  | SetFrameRate task_object_id u32
  | RequestActivation task_object_id
  | Pong u64

datatype denial_message =
    RequestInputChannel u64
  | ServerHello u16 u16 u64 u32 u32 u32
  | DisplayPower bool
  | FormatFeedback task_object_id u32 "format_modifier list"
  | RegisterRenderTarget task_object_id u32 buffer_metadata
  | UnregisterRenderTarget task_object_id buffer_id
  | Configure task_object_id u32 u32 u32 u32 u32 transform u32
  | Insets task_object_id u32 u32 u32 u32
  | Visibility task_object_id visibility bool
  | Close task_object_id
  | BufferReleased task_object_id frame_id buffer_id u64
  | Presented task_object_id frame_id u64 u64 u64 u32
  | ScenePresented task_object_id u64 u64 u64 u64
  | Input task_object_id u64 u64 input_event
  | ErrorMessage "task_object_id option" protocol_error_code u16 rust_string
  | Ping u64
  | FrameGrant u64 u64 u64

record encoded_packet =
  pkt_bytes :: "u8 list"
  pkt_descriptors :: "descriptor_kind list"

record 'm decoded_packet =
  dec_message :: 'm
  dec_descriptors :: "descriptor_kind list"

subsection \<open>Field validators\<close>

definition valid_object :: "task_object_id \<Rightarrow> (wire_error, u64) result" where
  "valid_object object = (if object = 0 then Inl InvalidObject else Inr object)"

definition require_connection :: "u64 \<Rightarrow> (wire_error, unit) result" where
  "require_connection object = (if object = 0 then Inr () else Inl InvalidObject)"

definition nonzero :: "string \<Rightarrow> u64 \<Rightarrow> (wire_error, unit) result" where
  "nonzero field value = (if value = 0 then Inl (InvalidEnum field value) else Inr ())"

definition known_bits :: "string \<Rightarrow> u64 \<Rightarrow> u64 \<Rightarrow> (wire_error, unit) result" where
  "known_bits field value known =
     (if value AND NOT known = 0 then Inr () else Inl (InvalidEnum field value))"

definition frame_grant :: "u64 \<Rightarrow> u64 \<Rightarrow> u64 \<Rightarrow> (wire_error, unit) result" where
  "frame_grant latch target period =
     bind_result (nonzero ''grant latch'' latch) (\<lambda>_.
     bind_result (nonzero ''grant period'' period) (\<lambda>_.
     if target \<le> latch then Inl (InvalidEnum ''grant target'' target) else Inr ()))"

definition valid_package :: "rust_string \<Rightarrow> bool" where
  "valid_package package =
     (package \<noteq> [] \<and> length package \<le> MAX_PACKAGE_BYTES \<and>
      (\<forall>part \<in> set (split_on 0x2E package).
         part \<noteq> [] \<and> (\<forall>byte \<in> set part. is_ascii_alphanumeric byte \<or> byte = 0x5F)))"

definition validate_damage :: "damage \<Rightarrow> (wire_error, unit) result" where
  "validate_damage d =
     (if dmg_width d = 0 \<or> dmg_height d = 0
         \<or> checked_add (dmg_x d) (dmg_width d) = None
         \<or> checked_add (dmg_y d) (dmg_height d) = None
      then Inl (Limit ''damage rectangle'') else Inr ())"

definition validate_input_route :: "u32 \<Rightarrow> u64 \<Rightarrow> (wire_error, unit) result" where
  "validate_input_route display incarnation =
     (if 0x7FFFFFFF < display \<or> incarnation = 0 \<or> 0x7FFFFFFFFFFFFFFF < incarnation
      then Inl (InvalidEnum ''native input route'' incarnation) else Inr ())"

definition validate_server_hello ::
  "u16 \<Rightarrow> u16 \<Rightarrow> u64 \<Rightarrow> u32 \<Rightarrow> u32 \<Rightarrow> u32 \<Rightarrow> (wire_error, unit) result" where
  "validate_server_hello major minor capabilities max_task_objects max_buffers max_damage =
     (if major \<noteq> PROTOCOL_MAJOR \<or> PROTOCOL_MINOR < minor
      then Inl (UnsupportedVersion major minor)
      else if capabilities AND REQUIRED_V1 \<noteq> REQUIRED_V1
      then Inl (InvalidEnum ''required capabilities'' capabilities)
      else if max_task_objects = 0 \<or> MAX_TASK_OBJECTS < max_task_objects
      then Inl (Limit ''task objects'')
      else if max_buffers = 0 \<or> MAX_BUFFERS_PER_TASK < max_buffers
      then Inl (Limit ''buffers per task'')
      else if max_damage = 0 \<or> MAX_DAMAGE_RECTS < unat max_damage
      then Inl (Limit ''damage rectangles'')
      else Inr ())"

definition validate_configure ::
  "u32 \<Rightarrow> u32 \<Rightarrow> u32 \<Rightarrow> u32 \<Rightarrow> u32 \<Rightarrow> u32 \<Rightarrow> (wire_error, unit) result" where
  "validate_configure serial width height scale_numerator scale_denominator refresh_millihz =
     (if serial = 0 \<or> width = 0 \<or> height = 0 \<or> 16384 < width \<or> 16384 < height
         \<or> scale_numerator = 0 \<or> scale_denominator = 0
         \<or> refresh_millihz = 0 \<or> 1000000 < refresh_millihz
      then Inl (Limit ''configure'') else Inr ())"

definition validate_descriptor_layout ::
  "nat \<Rightarrow> nat \<Rightarrow> descriptor_kind list \<Rightarrow> (wire_error, unit) result" where
  "validate_descriptor_layout header_count received_count expected =
     (if header_count \<noteq> length expected \<or> received_count \<noteq> length expected
      then Inl (DescriptorCount (length expected) received_count) else Inr ())"

subsection \<open>Enum codes\<close>

fun transform_code :: "transform \<Rightarrow> u8" where
  "transform_code TransformNormal = 0" | "transform_code Rotate90 = 1"
| "transform_code Rotate180 = 2" | "transform_code Rotate270 = 3"

definition decode_transform :: "u8 \<Rightarrow> (wire_error, transform) result" where
  "decode_transform v =
     (if v = 0 then Inr TransformNormal else if v = 1 then Inr Rotate90
      else if v = 2 then Inr Rotate180 else if v = 3 then Inr Rotate270
      else Inl (InvalidEnum ''transform'' (ucast v)))"

fun visibility_code :: "visibility \<Rightarrow> u8" where
  "visibility_code Hidden = 0" | "visibility_code Visible = 1" | "visibility_code Obscured = 2"

definition decode_visibility :: "u8 \<Rightarrow> (wire_error, visibility) result" where
  "decode_visibility v =
     (if v = 0 then Inr Hidden else if v = 1 then Inr Visible else if v = 2 then Inr Obscured
      else Inl (InvalidEnum ''visibility'' (ucast v)))"

fun touch_action_code :: "touch_action \<Rightarrow> u8" where
  "touch_action_code TouchDown = 0" | "touch_action_code TouchMotion = 1"
| "touch_action_code TouchUp = 2" | "touch_action_code TouchCancel = 3"

definition decode_touch_action :: "u8 \<Rightarrow> (wire_error, touch_action) result" where
  "decode_touch_action v =
     (if v = 0 then Inr TouchDown else if v = 1 then Inr TouchMotion
      else if v = 2 then Inr TouchUp else if v = 3 then Inr TouchCancel
      else Inl (InvalidEnum ''touch action'' (ucast v)))"

fun key_action_code :: "key_action \<Rightarrow> u8" where
  "key_action_code KeyDown = 0" | "key_action_code KeyUp = 1"

definition decode_key_action :: "u8 \<Rightarrow> (wire_error, key_action) result" where
  "decode_key_action v =
     (if v = 0 then Inr KeyDown else if v = 1 then Inr KeyUp
      else Inl (InvalidEnum ''key action'' (ucast v)))"

fun navigation_action_code :: "navigation_action \<Rightarrow> u8" where
  "navigation_action_code NavBack = 0" | "navigation_action_code NavHome = 1"
| "navigation_action_code NavOverview = 2"

definition decode_navigation_action :: "u8 \<Rightarrow> (wire_error, navigation_action) result" where
  "decode_navigation_action v =
     (if v = 0 then Inr NavBack else if v = 1 then Inr NavHome else if v = 2 then Inr NavOverview
      else Inl (InvalidEnum ''navigation action'' (ucast v)))"

fun error_code :: "protocol_error_code \<Rightarrow> u16" where
  "error_code Incompatible = 1" | "error_code InvalidMessage = 2"
| "error_code DuplicateObject = 3" | "error_code UnknownObjectCode = 4"
| "error_code ResourceLimit = 5" | "error_code InvalidState = 6"
| "error_code ProtectedContent = 7" | "error_code UnsupportedFormatCode = 8"

definition decode_error_code :: "u16 \<Rightarrow> (wire_error, protocol_error_code) result" where
  "decode_error_code v =
     (if v = 1 then Inr Incompatible else if v = 2 then Inr InvalidMessage
      else if v = 3 then Inr DuplicateObject else if v = 4 then Inr UnknownObjectCode
      else if v = 5 then Inr ResourceLimit else if v = 6 then Inr InvalidState
      else if v = 7 then Inr ProtectedContent else if v = 8 then Inr UnsupportedFormatCode
      else Inl (InvalidEnum ''protocol error'' (ucast v)))"

definition bool_code :: "bool \<Rightarrow> u8" where
  "bool_code b = (if b then 1 else 0)"

definition decode_bool :: "u8 \<Rightarrow> string \<Rightarrow> (wire_error, bool) result" where
  "decode_bool v field =
     (if v = 0 then Inr False else if v = 1 then Inr True else Inl (InvalidEnum field (ucast v)))"

subsection \<open>Lemmas on validators and codes\<close>

lemma validator_Inr_iff [result_simps]:
  "valid_object ob = Inr x \<longleftrightarrow> ob \<noteq> 0 \<and> x = ob"
  "require_connection ob = Inr u \<longleftrightarrow> ob = 0"
  "nonzero field v = Inr u \<longleftrightarrow> v \<noteq> 0"
  "known_bits field v k = Inr u \<longleftrightarrow> v AND NOT k = 0"
  "frame_grant latch target period = Inr u \<longleftrightarrow> latch \<noteq> 0 \<and> period \<noteq> 0 \<and> latch < target"
  "validate_descriptor_layout h r ds = Inr u \<longleftrightarrow> h = length ds \<and> r = length ds"
  by (auto simp: valid_object_def require_connection_def nonzero_def known_bits_def frame_grant_def
      validate_descriptor_layout_def bind_result_def not_le)

lemma valid_object_ok [simp]: "ob \<noteq> 0 \<Longrightarrow> valid_object ob = Inr ob"
  by (simp add: valid_object_def)

lemma valid_object_error_iff: "valid_object ob = Inl e \<longleftrightarrow> ob = 0 \<and> e = InvalidObject"
  by (auto simp: valid_object_def)

lemma decode_enum_iff [result_simps]:
  "decode_transform v = Inr a \<longleftrightarrow> v = transform_code a"
  "decode_visibility v = Inr b \<longleftrightarrow> v = visibility_code b"
  "decode_touch_action v = Inr c \<longleftrightarrow> v = touch_action_code c"
  "decode_key_action v = Inr d \<longleftrightarrow> v = key_action_code d"
  "decode_navigation_action v = Inr f \<longleftrightarrow> v = navigation_action_code f"
  "decode_error_code w = Inr g \<longleftrightarrow> w = error_code g"
  "decode_bool v field = Inr h \<longleftrightarrow> v = bool_code h"
  subgoal by (cases a) (auto simp: decode_transform_def)
  subgoal by (cases b) (auto simp: decode_visibility_def)
  subgoal by (cases c) (auto simp: decode_touch_action_def)
  subgoal by (cases d) (auto simp: decode_key_action_def)
  subgoal by (cases f) (auto simp: decode_navigation_action_def)
  subgoal by (cases g) (auto simp: decode_error_code_def)
  subgoal by (auto simp: decode_bool_def bool_code_def)
  done

lemma decode_enum_code [simp]:
  "decode_transform (transform_code a) = Inr a"
  "decode_visibility (visibility_code b) = Inr b"
  "decode_touch_action (touch_action_code c) = Inr c"
  "decode_key_action (key_action_code d) = Inr d"
  "decode_navigation_action (navigation_action_code f) = Inr f"
  "decode_error_code (error_code g) = Inr g"
  "decode_bool (bool_code h) field = Inr h"
  by (simp_all add: decode_enum_iff)

text \<open>A package name is ASCII, hence valid UTF-8.\<close>

lemma valid_package_utf8: "valid_package p \<Longrightarrow> utf8_valid p"
proof (rule utf8_valid_ascii, rule ballI)
  fix b
  assume p: "valid_package p" and "b \<in> set p"
  then consider "b = 0x2E" | part where "part \<in> set (split_on 0x2E p)" "b \<in> set part"
    using set_split_on by blast
  then show "b < 0x80"
  proof cases
    case 2
    with p have "is_ascii_alphanumeric b \<or> b = 0x5F"
      by (auto simp: valid_package_def)
    then show ?thesis
      by (auto simp: is_ascii_alphanumeric_def elim: order.strict_trans1)
  qed simp
qed

lemma valid_package_length: "valid_package p \<Longrightarrow> length p \<le> MAX_PACKAGE_BYTES"
  by (simp add: valid_package_def)

end
