(* ===== verification/Packet_Framing.thy ===== *)
theory Packet_Framing
  imports Protocol_Messages
begin

section \<open>Opcodes and the packet header\<close>

text \<open>
  The opcode table, \<open>finish_packet\<close>, which prefixes a payload with the 32-byte header, and
  \<open>parse_header\<close>, which checks a received record and splits it.  The two functions are shown to be
  inverse, and every packet \<open>finish_packet\<close> builds is within the bounds the receiver enforces.
\<close>

subsection \<open>Opcodes\<close>

definition OP_CLIENT_HELLO :: u16 where [opcodes]: "OP_CLIENT_HELLO = 0x0001"
definition OP_CREATE_TASK :: u16 where [opcodes]: "OP_CREATE_TASK = 0x0002"
definition OP_DESTROY_TASK :: u16 where [opcodes]: "OP_DESTROY_TASK = 0x0003"
definition OP_BIND_TIMELINES :: u16 where [opcodes]: "OP_BIND_TIMELINES = 0x0004"
definition OP_ACK_CONFIGURE :: u16 where [opcodes]: "OP_ACK_CONFIGURE = 0x0005"
definition OP_REGISTER_BUFFER :: u16 where [opcodes]: "OP_REGISTER_BUFFER = 0x0006"
definition OP_UNREGISTER_BUFFER :: u16 where [opcodes]: "OP_UNREGISTER_BUFFER = 0x0007"
definition OP_PRESENT :: u16 where [opcodes]: "OP_PRESENT = 0x0008"
definition OP_SET_CONTENT_STATE :: u16 where [opcodes]: "OP_SET_CONTENT_STATE = 0x0009"
definition OP_SET_FRAME_RATE :: u16 where [opcodes]: "OP_SET_FRAME_RATE = 0x000A"
definition OP_PONG :: u16 where [opcodes]: "OP_PONG = 0x000B"
definition OP_BIND_TASK :: u16 where [opcodes]: "OP_BIND_TASK = 0x000C"
definition OP_BIND_LAYER_STREAM :: u16 where [opcodes]: "OP_BIND_LAYER_STREAM = 0x000D"
definition OP_REQUEST_ACTIVATION :: u16 where [opcodes]: "OP_REQUEST_ACTIVATION = 0x000E"
definition OP_BIND_INPUT_CHANNEL :: u16 where [opcodes]: "OP_BIND_INPUT_CHANNEL = 0x000F"
definition OP_BIND_INPUT_ROUTE :: u16 where [opcodes]: "OP_BIND_INPUT_ROUTE = 0x0010"
definition OP_REQUEST_RENDER_TARGETS :: u16 where [opcodes]: "OP_REQUEST_RENDER_TARGETS = 0x0011"
definition OP_SERVER_HELLO :: u16 where [opcodes]: "OP_SERVER_HELLO = 0x8001"
definition OP_FORMAT_FEEDBACK :: u16 where [opcodes]: "OP_FORMAT_FEEDBACK = 0x8002"
definition OP_CONFIGURE :: u16 where [opcodes]: "OP_CONFIGURE = 0x8003"
definition OP_INSETS :: u16 where [opcodes]: "OP_INSETS = 0x8004"
definition OP_VISIBILITY :: u16 where [opcodes]: "OP_VISIBILITY = 0x8005"
definition OP_CLOSE :: u16 where [opcodes]: "OP_CLOSE = 0x8006"
definition OP_BUFFER_RELEASED :: u16 where [opcodes]: "OP_BUFFER_RELEASED = 0x8007"
definition OP_PRESENTED :: u16 where [opcodes]: "OP_PRESENTED = 0x8008"
definition OP_INPUT :: u16 where [opcodes]: "OP_INPUT = 0x8009"
definition OP_ERROR :: u16 where [opcodes]: "OP_ERROR = 0x800A"
definition OP_PING :: u16 where [opcodes]: "OP_PING = 0x800B"
definition OP_REGISTER_RENDER_TARGET :: u16 where [opcodes]: "OP_REGISTER_RENDER_TARGET = 0x800C"
definition OP_UNREGISTER_RENDER_TARGET :: u16
  where [opcodes]: "OP_UNREGISTER_RENDER_TARGET = 0x800D"
definition OP_DISPLAY_POWER :: u16 where [opcodes]: "OP_DISPLAY_POWER = 0x800E"
definition OP_REQUEST_INPUT_CHANNEL :: u16 where [opcodes]: "OP_REQUEST_INPUT_CHANNEL = 0x800F"
definition OP_SCENE_PRESENTED :: u16 where [opcodes]: "OP_SCENE_PRESENTED = 0x8010"
definition OP_FRAME_GRANT :: u16 where [opcodes]: "OP_FRAME_GRANT = 0x8011"

subsection \<open>Building a packet\<close>

definition packet_minor :: "u16 \<Rightarrow> u16" where
  "packet_minor opcode =
     (if opcode = OP_REQUEST_ACTIVATION then ACTIVATION_PROTOCOL_MINOR
      else if opcode = OP_DISPLAY_POWER then 5
      else if opcode \<in> {OP_BIND_INPUT_CHANNEL, OP_BIND_INPUT_ROUTE, OP_REQUEST_INPUT_CHANNEL} then 6
      else if opcode = OP_REQUEST_RENDER_TARGETS then 7
      else if opcode = OP_SCENE_PRESENTED then 8
      else if opcode = OP_FRAME_GRANT then 9
      else BASE_PROTOCOL_MINOR)"

definition header_bytes :: "u16 \<Rightarrow> u16 \<Rightarrow> u16 \<Rightarrow> u64 \<Rightarrow> u32 \<Rightarrow> u8 list" where
  "header_bytes minor opcode fd_count object payload_length =
     MAGIC @ w_u16 PROTOCOL_MAJOR @ w_u16 minor @ w_u16 opcode @ w_u16 fd_count @ w_u32 0
     @ w_u64 object @ w_u32 payload_length @ w_u32 0"

definition finish_packet ::
  "u16 \<Rightarrow> u64 \<Rightarrow> u8 list \<Rightarrow> descriptor_kind list \<Rightarrow> (wire_error, encoded_packet) result" where
  "finish_packet opcode object payload descriptors =
     (if MAX_PACKET_BYTES < HEADER_BYTES + length payload then Inl PacketTooLarge
      else if 2 ^ 32 \<le> length payload then Inl PacketTooLarge
      else if 2 ^ 16 \<le> length descriptors then Inl (Limit ''descriptors'')
      else Inr \<lparr>pkt_bytes =
                  header_bytes (packet_minor opcode) opcode (word_of_nat (length descriptors)) object
                    (word_of_nat (length payload)) @ payload,
                pkt_descriptors = descriptors\<rparr>)"

subsection \<open>Parsing a header\<close>

record packet_header =
  hdr_opcode :: u16
  hdr_fd_count :: nat
  hdr_object :: u64
  hdr_payload :: "u8 list"

text \<open>The fields after the magic, in wire order: major and minor are checked as they are read.\<close>

definition rd_header_fields :: "(u16 \<times> u16 \<times> u32 \<times> u64 \<times> u32 \<times> u32) reader" where
  "rd_header_fields =
     rd_bind rd_u16 (\<lambda>major.
     rd_bind rd_u16 (\<lambda>minor.
     rd_bind (rd_check (reject_if (major \<noteq> PROTOCOL_MAJOR \<or> PROTOCOL_MINOR < minor)
       (UnsupportedVersion major minor))) (\<lambda>_.
     rd_bind rd_u16 (\<lambda>opcode.
     rd_bind rd_u16 (\<lambda>fd_count.
     rd_bind rd_u32 (\<lambda>flags.
     rd_bind rd_u64 (\<lambda>object.
     rd_bind rd_u32 (\<lambda>payload_length.
     rd_bind rd_u32 (\<lambda>reserved.
     rd_return (opcode, fd_count, flags, object, payload_length, reserved))))))))))"

definition parse_header :: "u8 list \<Rightarrow> nat \<Rightarrow> (wire_error, packet_header) result" where
  "parse_header packet received_descriptors =
     (if length packet < HEADER_BYTES then Inl ShortHeader
      else if MAX_PACKET_BYTES < length packet then Inl PacketTooLarge
      else if take 4 packet \<noteq> MAGIC then Inl InvalidMagic
      else bind_result (rd_header_fields (drop 4 (take HEADER_BYTES packet)))
        (\<lambda>((opcode, fd_count, flags, object, payload_length, reserved), rest).
          bind_result (rd_finish rest) (\<lambda>_.
          if flags \<noteq> 0 \<or> reserved \<noteq> 0 then Inl UnsupportedHeaderBits
          else if length packet \<noteq> HEADER_BYTES + unat payload_length then Inl LengthMismatch
          else if unat fd_count \<noteq> received_descriptors
          then Inl (DescriptorCount (unat fd_count) received_descriptors)
          else Inr \<lparr>hdr_opcode = opcode, hdr_fd_count = unat fd_count, hdr_object = object,
                    hdr_payload = drop HEADER_BYTES packet\<rparr>)))"

subsection \<open>Framing is invertible\<close>

lemma length_MAGIC [simp]: "length MAGIC = 4"
  by (simp add: MAGIC_def)

lemma length_header_bytes [simp]: "length (header_bytes m opc n ob k) = 32"
  by (simp add: header_bytes_def)

lemma rd_header_fields_iff:
  "rd_header_fields bs = Inr ((opc, n, flags, ob, k, reserved), rest) \<longleftrightarrow>
     (\<exists>minor. minor \<le> PROTOCOL_MINOR \<and>
        bs = w_u16 PROTOCOL_MAJOR @ w_u16 minor @ w_u16 opc @ w_u16 n @ w_u32 flags @ w_u64 ob
          @ w_u32 k @ w_u32 reserved @ rest)"
  by (auto simp: rd_header_fields_def result_simps codec_simps not_less)

text \<open>
  A record is accepted exactly when it is a well-formed header of some minor version up to ours,
  followed by as many payload bytes as it announces, with as many descriptors as it announces.
\<close>

lemma parse_header_accepts:
  assumes "minor \<le> PROTOCOL_MINOR" and "received < 2 ^ 16"
    and "HEADER_BYTES + length payload \<le> MAX_PACKET_BYTES"
  shows "parse_header (header_bytes minor opc (word_of_nat received) ob
      (word_of_nat (length payload)) @ payload) received =
    Inr \<lparr>hdr_opcode = opc, hdr_fd_count = received, hdr_object = ob, hdr_payload = payload\<rparr>"
proof -
  let ?n = "word_of_nat received :: u16" and ?k = "word_of_nat (length payload) :: u32"
  let ?packet = "header_bytes minor opc ?n ob ?k @ payload"
  have "drop 4 (take HEADER_BYTES ?packet) = w_u16 PROTOCOL_MAJOR @ w_u16 minor @ w_u16 opc
      @ w_u16 ?n @ w_u32 0 @ w_u64 ob @ w_u32 ?k @ w_u32 0 @ []"
    by (simp add: HEADER_BYTES_def header_bytes_def MAGIC_def)
  then have "rd_header_fields (drop 4 (take HEADER_BYTES ?packet)) = Inr ((opc, ?n, 0, ob, ?k, 0), [])"
    using assms(1) rd_header_fields_iff by blast
  moreover have "unat ?k = length payload" and "unat ?n = received"
    using assms(2,3) by (simp_all add: unat_of_nat proto_consts)
  moreover have "take 4 ?packet = MAGIC"
    by (simp add: header_bytes_def)
  ultimately show ?thesis
    using assms(3) by (simp add: parse_header_def rd_finish_def HEADER_BYTES_def)
qed

lemma parse_header_shape:
  assumes "parse_header packet received = Inr h"
  shows "\<exists>minor. minor \<le> PROTOCOL_MINOR \<and> received < 2 ^ 16 \<and> hdr_fd_count h = received \<and>
    HEADER_BYTES + length (hdr_payload h) \<le> MAX_PACKET_BYTES \<and>
    packet = header_bytes minor (hdr_opcode h) (word_of_nat received) (hdr_object h)
      (word_of_nat (length (hdr_payload h))) @ hdr_payload h"
proof -
  from assms obtain opc n ob k where bounds: "HEADER_BYTES \<le> length packet"
      "length packet \<le> MAX_PACKET_BYTES" and magic: "take 4 packet = MAGIC"
    and fields: "rd_header_fields (drop 4 (take HEADER_BYTES packet)) = Inr ((opc, n, 0, ob, k, 0), [])"
    and len: "length packet = HEADER_BYTES + unat k" and n: "unat n = received"
    and h: "h = \<lparr>hdr_opcode = opc, hdr_fd_count = unat n, hdr_object = ob,
      hdr_payload = drop HEADER_BYTES packet\<rparr>"
    by (auto simp: parse_header_def result_simps split: if_splits prod.splits)
  from fields obtain minor where minor: "minor \<le> PROTOCOL_MINOR"
    and rest: "drop 4 (take HEADER_BYTES packet) = w_u16 PROTOCOL_MAJOR @ w_u16 minor @ w_u16 opc
      @ w_u16 n @ w_u32 0 @ w_u64 ob @ w_u32 k @ w_u32 0"
    by (auto simp: rd_header_fields_iff)
  have "take 4 (take HEADER_BYTES packet) = MAGIC"
    using magic by (simp add: HEADER_BYTES_def)
  then have "take HEADER_BYTES packet = MAGIC @ drop 4 (take HEADER_BYTES packet)"
    by (metis append_take_drop_id)
  then have "take HEADER_BYTES packet = header_bytes minor opc n ob k"
    by (simp add: rest header_bytes_def)
  then have "packet = header_bytes minor opc n ob k @ drop HEADER_BYTES packet"
    by (metis append_take_drop_id)
  moreover have "n = word_of_nat received" "k = word_of_nat (length (drop HEADER_BYTES packet))"
    using n len by auto
  moreover have "unat n < 2 ^ LENGTH(16)"
    by (rule unsigned_less)
  ultimately show ?thesis
    using minor bounds n by (auto simp: h)
qed

lemma packet_minor_le: "packet_minor opc \<le> PROTOCOL_MINOR"
  by (simp add: packet_minor_def proto_consts)

lemma finish_packet_Inr_iff:
  "finish_packet opc ob payload ds = Inr pkt \<longleftrightarrow>
     HEADER_BYTES + length payload \<le> MAX_PACKET_BYTES \<and> length ds < 2 ^ 16 \<and>
     pkt = \<lparr>pkt_bytes = header_bytes (packet_minor opc) opc (word_of_nat (length ds)) ob
              (word_of_nat (length payload)) @ payload, pkt_descriptors = ds\<rparr>"
  by (auto simp: finish_packet_def proto_consts)

lemma parse_finish_packet:
  assumes "finish_packet opc ob payload ds = Inr pkt"
  shows "parse_header (pkt_bytes pkt) (length (pkt_descriptors pkt)) =
    Inr \<lparr>hdr_opcode = opc, hdr_fd_count = length ds, hdr_object = ob, hdr_payload = payload\<rparr>"
  using assms parse_header_accepts [OF packet_minor_le]
  by (auto simp: finish_packet_Inr_iff)

end
