(* ===== verification/Record_Codecs.thy ===== *)
theory Record_Codecs
  imports Packet_Framing
begin

section \<open>Compound records inside payloads\<close>

text \<open>
  Buffer metadata, damage rectangles, format/modifier pairs and input events, as
  \<open>encode_buffer\<close>/\<open>decode_buffer\<close>, \<open>encode_input\<close>/\<open>decode_input\<close> and the loops of the \<open>Present\<close> and
  \<open>FormatFeedback\<close> arms of \<open>graphics/droidloom-denial-protocol/src/lib.rs\<close> write and read them.  Each
  is an interpretation of \<open>wire_codec\<close>, so the counted loops over them are invertible by the locale's
  lemma \<open>repeat_iff\<close>.
\<close>

subsection \<open>Planes and buffers\<close>

definition plane_bytes :: "plane_metadata \<Rightarrow> u8 list" where
  "plane_bytes plane = w_u32 (pl_index plane) @ w_u32 (pl_offset plane) @ w_u32 (pl_stride plane)"

definition rd_plane :: "plane_metadata reader" where
  "rd_plane =
     rd_bind rd_u32 (\<lambda>index. rd_bind rd_u32 (\<lambda>offset. rd_bind rd_u32 (\<lambda>stride.
     rd_return \<lparr>pl_index = index, pl_offset = offset, pl_stride = stride\<rparr>)))"

definition buffer_bytes :: "buffer_metadata \<Rightarrow> u8 list" where
  "buffer_bytes b =
     w_u64 (buf_id b) @ w_u32 (buf_width b) @ w_u32 (buf_height b) @ w_u32 (fourcc (buf_format b))
     @ w_u64 (modifier (buf_format b)) @ w_u8 (word_of_nat (length (buf_planes b)))
     @ concat (map plane_bytes (buf_planes b))"

definition encode_buffer :: "buffer_metadata \<Rightarrow> (wire_error, u8 list) result" where
  "encode_buffer b =
     (if 255 < length (buf_planes b) then Inl (Limit ''DMA-BUF planes'') else Inr (buffer_bytes b))"

definition decode_buffer :: "buffer_metadata reader" where
  "decode_buffer =
     rd_bind rd_u64 (\<lambda>id. rd_bind rd_u32 (\<lambda>width. rd_bind rd_u32 (\<lambda>height.
     rd_bind rd_u32 (\<lambda>four. rd_bind rd_u64 (\<lambda>modi. rd_bind rd_u8 (\<lambda>count.
     rd_bind (rd_check (reject_if (count = 0 \<or> 4 < unat count) (Limit ''DMA-BUF planes''))) (\<lambda>_.
     rd_bind (rd_repeat (unat count) rd_plane) (\<lambda>planes.
     let b = \<lparr>buf_id = id, buf_width = width, buf_height = height,
              buf_format = \<lparr>fourcc = four, modifier = modi\<rparr>, buf_planes = planes\<rparr> in
     rd_bind (rd_check (map_err WireTransport (buffer_validate b))) (\<lambda>_.
     rd_bind (rd_check (reject_if (buf_id b = 0 \<or> modifier (buf_format b) = U64_MAX)
       (InvalidEnum ''buffer identity or modifier'' (buf_id b)))) (\<lambda>_.
     rd_return b))))))))))"

definition buffer_wire_ok :: "buffer_metadata \<Rightarrow> bool" where
  "buffer_wire_ok b \<longleftrightarrow>
     buffer_validate b = Inr () \<and> buf_id b \<noteq> 0 \<and> modifier (buf_format b) \<noteq> U64_MAX"

interpretation planes: fixed_codec plane_bytes rd_plane "\<lambda>_. True" 12
proof unfold_locales
  show "rd_plane bs = Inr (x, rest) \<longleftrightarrow> True \<and> bs = plane_bytes x @ rest" for bs x rest
    by (cases x) (auto simp: rd_plane_def plane_bytes_def result_simps codec_simps)
qed (simp add: plane_bytes_def)

lemma buffer_validate_planes:
  "buffer_validate b = Inr u \<Longrightarrow> buf_planes b \<noteq> [] \<and> length (buf_planes b) \<le> 4"
  by (simp add: buffer_validate_ok_iff)

lemma plane_count_code:
  "n \<le> 255 \<Longrightarrow> unat (word_of_nat n :: u8) = n"
  by (simp add: unat_of_nat)

lemma unat_eq_iff_word:
  "n \<le> 255 \<Longrightarrow> n = unat (c :: u8) \<longleftrightarrow> c = word_of_nat n"
  by (auto simp: plane_count_code)

interpretation buffers: wire_codec buffer_bytes decode_buffer buffer_wire_ok
proof unfold_locales
  fix bs rest and x :: buffer_metadata
  let ?n = "length (buf_planes x)"
  have decode: "decode_buffer bs = Inr (x, rest) \<longleftrightarrow>
      (\<exists>count. count \<noteq> 0 \<and> unat count \<le> 4 \<and> ?n = unat count \<and> buffer_wire_ok x \<and>
        bs = w_u64 (buf_id x) @ w_u32 (buf_width x) @ w_u32 (buf_height x)
          @ w_u32 (fourcc (buf_format x)) @ w_u64 (modifier (buf_format x)) @ w_u8 count
          @ concat (map plane_bytes (buf_planes x)) @ rest)"
    by (cases x; cases "buf_format x")
      (auto simp: decode_buffer_def Let_def result_simps codec_simps planes.repeat_iff
        buffer_wire_ok_def not_less)
  show "decode_buffer bs = Inr (x, rest) \<longleftrightarrow> buffer_wire_ok x \<and> bs = buffer_bytes x @ rest"
  proof
    assume "decode_buffer bs = Inr (x, rest)"
    then show "buffer_wire_ok x \<and> bs = buffer_bytes x @ rest"
      by (auto simp: decode buffer_bytes_def unat_eq_iff_word)
  next
    assume ok: "buffer_wire_ok x \<and> bs = buffer_bytes x @ rest"
    then have "?n \<le> 4" "?n \<noteq> 0"
      using buffer_validate_planes by (auto simp: buffer_wire_ok_def)
    then have "unat (word_of_nat ?n :: u8) = ?n"
      by (simp add: plane_count_code)
    with ok \<open>?n \<le> 4\<close> \<open>?n \<noteq> 0\<close> show "decode_buffer bs = Inr (x, rest)"
      unfolding decode
      by (intro exI [of _ "word_of_nat ?n"]) (auto simp: buffer_bytes_def simp flip: word_unat_eq_iff)
  qed
qed

lemma encode_buffer_ok: "buffer_validate b = Inr u \<Longrightarrow> encode_buffer b = Inr (buffer_bytes b)"
  using buffer_validate_planes [of b u] by (simp add: encode_buffer_def)

lemma length_buffer_bytes: "length (buffer_bytes b) = 29 + 12 * length (buf_planes b)"
  by (simp add: buffer_bytes_def planes.concat_width)

subsection \<open>Damage rectangles\<close>

definition damage_bytes :: "damage \<Rightarrow> u8 list" where
  "damage_bytes d = w_u32 (dmg_x d) @ w_u32 (dmg_y d) @ w_u32 (dmg_width d) @ w_u32 (dmg_height d)"

fun encode_damage :: "damage list \<Rightarrow> (wire_error, u8 list) result" where
  "encode_damage [] = Inr []"
| "encode_damage (d # ds) =
     bind_result (validate_damage d) (\<lambda>_.
     bind_result (encode_damage ds) (\<lambda>bytes. Inr (damage_bytes d @ bytes)))"

definition rd_damage :: "damage reader" where
  "rd_damage =
     rd_bind rd_u32 (\<lambda>x. rd_bind rd_u32 (\<lambda>y. rd_bind rd_u32 (\<lambda>width. rd_bind rd_u32 (\<lambda>height.
     let d = \<lparr>dmg_x = x, dmg_y = y, dmg_width = width, dmg_height = height\<rparr> in
     rd_bind (rd_check (validate_damage d)) (\<lambda>_. rd_return d)))))"

interpretation rects: fixed_codec damage_bytes rd_damage "\<lambda>d. validate_damage d = Inr ()" 16
proof unfold_locales
  show "rd_damage bs = Inr (x, rest) \<longleftrightarrow> validate_damage x = Inr () \<and> bs = damage_bytes x @ rest"
    for bs x rest
    by (cases x) (auto simp: rd_damage_def damage_bytes_def Let_def result_simps codec_simps)
qed (simp add: damage_bytes_def)

lemma encode_damage_iff:
  "encode_damage ds = Inr bytes \<longleftrightarrow>
     (\<forall>d \<in> set ds. validate_damage d = Inr ()) \<and> bytes = concat (map damage_bytes ds)"
  by (induction ds arbitrary: bytes) (auto simp: result_simps)

subsection \<open>Format/modifier pairs\<close>

definition format_bytes :: "format_modifier \<Rightarrow> u8 list" where
  "format_bytes f = w_u32 (fourcc f) @ w_u64 (modifier f)"

definition check_modifier :: "format_modifier \<Rightarrow> (wire_error, unit) result" where
  "check_modifier f =
     reject_if (modifier f = U64_MAX) (InvalidEnum ''DRM modifier'' (modifier f))"

fun encode_formats :: "format_modifier list \<Rightarrow> (wire_error, u8 list) result" where
  "encode_formats [] = Inr []"
| "encode_formats (f # fs) =
     bind_result (check_modifier f) (\<lambda>_.
     bind_result (encode_formats fs) (\<lambda>bytes. Inr (format_bytes f @ bytes)))"

definition rd_format :: "format_modifier reader" where
  "rd_format =
     rd_bind rd_u32 (\<lambda>four. rd_bind rd_u64 (\<lambda>modi.
     let f = \<lparr>fourcc = four, modifier = modi\<rparr> in
     rd_bind (rd_check (check_modifier f)) (\<lambda>_. rd_return f)))"

interpretation formats: fixed_codec format_bytes rd_format "\<lambda>f. modifier f \<noteq> U64_MAX" 12
proof unfold_locales
  show "rd_format bs = Inr (x, rest) \<longleftrightarrow> modifier x \<noteq> U64_MAX \<and> bs = format_bytes x @ rest"
    for bs x rest
    by (cases x) (auto simp: rd_format_def check_modifier_def format_bytes_def Let_def result_simps
        codec_simps)
qed (simp add: format_bytes_def)

lemma encode_formats_iff:
  "encode_formats fs = Inr bytes \<longleftrightarrow>
     (\<forall>f \<in> set fs. modifier f \<noteq> U64_MAX) \<and> bytes = concat (map format_bytes fs)"
  by (induction fs arbitrary: bytes) (auto simp: check_modifier_def result_simps)

subsection \<open>Input events\<close>

fun encode_input :: "input_event \<Rightarrow> u8 list" where
  "encode_input (Touch action pointer_id x_fixed y_fixed pressure) =
     w_u8 0 @ w_u8 (touch_action_code action) @ w_u32 pointer_id @ w_i32 x_fixed @ w_i32 y_fixed
     @ w_u16 pressure"
| "encode_input (Key action keycode repeat) =
     w_u8 1 @ w_u8 (key_action_code action) @ w_u32 keycode @ w_u16 repeat"
| "encode_input (Navigation action) = w_u8 2 @ w_u8 (navigation_action_code action)"

definition decode_input :: "input_event reader" where
  "decode_input =
     rd_bind rd_u8 (\<lambda>kind.
     if kind = 0 then
       rd_bind rd_u8 (\<lambda>code. rd_bind (rd_check (decode_touch_action code)) (\<lambda>action.
       rd_bind rd_u32 (\<lambda>pointer_id. rd_bind rd_i32 (\<lambda>x_fixed. rd_bind rd_i32 (\<lambda>y_fixed.
       rd_bind rd_u16 (\<lambda>pressure. rd_return (Touch action pointer_id x_fixed y_fixed pressure)))))))
     else if kind = 1 then
       rd_bind rd_u8 (\<lambda>code. rd_bind (rd_check (decode_key_action code)) (\<lambda>action.
       rd_bind rd_u32 (\<lambda>keycode. rd_bind rd_u16 (\<lambda>repeat. rd_return (Key action keycode repeat)))))
     else if kind = 2 then
       rd_bind rd_u8 (\<lambda>code. rd_bind (rd_check (decode_navigation_action code)) (\<lambda>action.
       rd_return (Navigation action)))
     else rd_check (Inl (InvalidEnum ''input event'' (ucast kind))))"

lemma if_app: "(if c then f else g) x = (if c then f x else g x)"
  by simp

interpretation inputs: wire_codec encode_input decode_input "\<lambda>_. True"
proof unfold_locales
  show "decode_input bs = Inr (x, rest) \<longleftrightarrow> True \<and> bs = encode_input x @ rest" for bs x rest
  proof
    assume "decode_input bs = Inr (x, rest)"
    then show "True \<and> bs = encode_input x @ rest"
      by (auto simp: decode_input_def if_app result_simps codec_simps split: if_splits)
  next
    assume "True \<and> bs = encode_input x @ rest"
    then show "decode_input bs = Inr (x, rest)"
      by (cases x) (simp_all add: decode_input_def)
  qed
qed

lemma length_encode_input: "length (encode_input ev) \<le> 16"
  by (cases ev) auto

end
