(* ===== verification/Message_Contract.thy ===== *)
theory Message_Contract
  imports Record_Codecs
begin

section \<open>The contract of a direction of the protocol\<close>

text \<open>
  What the two message tables of \<open>graphics/droidloom-denial-protocol/src/lib.rs\<close> share.  An encoder
  is a \<open>match\<close> that checks a message and yields an opcode, an object, a payload and descriptor roles,
  followed by \<open>finish_packet\<close>; a decoder is \<open>parse_header\<close>, a \<open>match\<close> on the opcode, \<open>finish\<close> on the
  reader and \<open>validate_descriptor_layout\<close>.  The locale \<open>message_codec\<close> states what the two matches
  promise each other (\<open>body_iff\<close>: a payload is decoded to a message exactly when the encoder produces
  that payload for it) and derives the properties of whole packets.
\<close>

type_synonym packet_parts = "u16 \<times> u64 \<times> u8 list \<times> descriptor_kind list"

text \<open>\<open>u64::from\<close> of a narrower integer is zero only for zero.\<close>

lemma ucast_u64_0 [simp]:
  "(ucast (x :: u32) :: u64) = 0 \<longleftrightarrow> x = 0"
  "(ucast (y :: u16) :: u64) = 0 \<longleftrightarrow> y = 0"
  by (transfer, simp add: take_bit_take_bit)+

lemma le_digits_numeral [simp]:
  "le_digits (numeral n) x = x mod 256 # le_digits (pred_numeral n) (x div 256)"
  by (simp only: numeral_eq_Suc [of n] le_digits.simps)

text \<open>The tail of most encoder arms: \<open>(OP, valid_object(*object)?, descriptors)\<close> after the payload.\<close>

definition object_parts ::
  "u16 \<Rightarrow> task_object_id \<Rightarrow> u8 list \<Rightarrow> descriptor_kind list \<Rightarrow> (wire_error, packet_parts) result" where
  "object_parts opcode object payload descriptors =
     bind_result (valid_object object) (\<lambda>ob. Inr (opcode, ob, payload, descriptors))"

text \<open>Decoder arms of task objects, and of the connection (object zero).\<close>

definition for_object :: "task_object_id \<Rightarrow> 'a reader \<Rightarrow> 'a reader" where
  "for_object object r = rd_bind (rd_check (valid_object object)) (\<lambda>_. r)"

definition for_connection :: "u64 \<Rightarrow> 'a reader \<Rightarrow> 'a reader" where
  "for_connection object r = rd_bind (rd_check (require_connection object)) (\<lambda>_. r)"

definition with_descriptors :: "descriptor_kind list \<Rightarrow> 'm reader \<Rightarrow> ('m \<times> descriptor_kind list) reader"
  where "with_descriptors ds r = rd_bind r (\<lambda>m. rd_return (m, ds))"

lemma object_parts_Inr_iff [result_simps]:
  "object_parts opc ob p ds = Inr x \<longleftrightarrow> ob \<noteq> 0 \<and> x = (opc, ob, p, ds)"
  by (auto simp: object_parts_def result_simps)

lemma for_object_Inr_iff [result_simps]: "for_object ob r bs = Inr x \<longleftrightarrow> ob \<noteq> 0 \<and> r bs = Inr x"
  by (auto simp: for_object_def result_simps)

lemma for_connection_Inr_iff [result_simps]:
  "for_connection ob r bs = Inr x \<longleftrightarrow> ob = 0 \<and> r bs = Inr x"
  by (auto simp: for_connection_def result_simps)

lemma with_descriptors_Inr_iff [result_simps]:
  "with_descriptors ds r bs = Inr (x, rest) \<longleftrightarrow> r bs = Inr (fst x, rest) \<and> snd x = ds"
  by (cases x) (auto simp: with_descriptors_def result_simps)

text \<open>The definitions that evaluate a concrete packet.\<close>

lemmas packet_write_defs =
  finish_packet_def header_bytes_def packet_minor_def w_u8_def w_u16_def w_u32_def w_u64_def
  to_le_bytes_def MAGIC_def object_parts_def nonzero_def proto_consts opcodes

lemmas packet_read_defs =
  parse_header_def rd_header_fields_def rd_u8_def rd_u16_def rd_u32_def rd_u64_def rd_take_def
  from_le_bytes_def rd_finish_def for_object_def for_connection_def require_connection_def
  with_descriptors_def validate_descriptor_layout_def MAGIC_def proto_consts opcodes

text \<open>Two headers that differ in the minor version only differ in bytes 6 and 7 only.\<close>

lemma header_bytes_split:
  "take 6 (header_bytes minor opc n ob k) = MAGIC @ w_u16 PROTOCOL_MAJOR"
  "drop 8 (header_bytes minor opc n ob k) =
     w_u16 opc @ w_u16 n @ w_u32 0 @ w_u64 ob @ w_u32 k @ w_u32 0"
  by (simp_all add: header_bytes_def MAGIC_def)

locale message_codec =
  fixes parts :: "'m \<Rightarrow> (wire_error, packet_parts) result"
    and body :: "u16 \<Rightarrow> u64 \<Rightarrow> ('m \<times> descriptor_kind list) reader"
    and wf :: "'m \<Rightarrow> bool"
    and encode :: "'m \<Rightarrow> (wire_error, encoded_packet) result"
    and decode :: "u8 list \<Rightarrow> nat \<Rightarrow> (wire_error, 'm decoded_packet) result"
  assumes encode_eq: "encode m = bind_result (parts m)
      (\<lambda>(opcode, object, payload, ds). finish_packet opcode object payload ds)"
    and decode_iff: "decode packet received = Inr d \<longleftrightarrow> (\<exists>h.
      parse_header packet received = Inr h \<and>
      body (hdr_opcode h) (hdr_object h) (hdr_payload h) = Inr ((dec_message d, dec_descriptors d), [])
      \<and> hdr_fd_count h = length (dec_descriptors d) \<and> received = length (dec_descriptors d))"
    and body_iff: "body opcode object bs = Inr ((m, ds), rest) \<longleftrightarrow>
      wf m \<and> (\<exists>payload. parts m = Inr (opcode, object, payload, ds) \<and> bs = payload @ rest)"
    and parts_bounds: "parts m = Inr (opcode, object, payload, ds) \<Longrightarrow>
      length payload \<le> 4134 \<and> length ds \<le> MAX_PACKET_DESCRIPTORS"
begin

lemma encode_Inr_iff:
  "encode m = Inr pkt \<longleftrightarrow> (\<exists>opc ob p ds. parts m = Inr (opc, ob, p, ds) \<and>
     finish_packet opc ob p ds = Inr pkt)"
  by (auto simp: encode_eq bind_result_Inr_iff)

lemma finish_parts:
  assumes "parts m = Inr (opc, ob, p, ds)"
  shows "finish_packet opc ob p ds = Inr \<lparr>pkt_bytes = header_bytes (packet_minor opc) opc
    (word_of_nat (length ds)) ob (word_of_nat (length p)) @ p, pkt_descriptors = ds\<rparr>"
  using parts_bounds [OF assms] by (simp add: finish_packet_Inr_iff proto_consts)

text \<open>A message that passes its checks always fits: framing never fails.\<close>

lemma encode_ok_iff: "is_ok (encode m) \<longleftrightarrow> is_ok (parts m)"
proof (cases "parts m")
  case (Inr x)
  then show ?thesis
    using finish_parts by (cases x) (simp add: encode_eq)
qed (simp add: encode_eq)

lemma encode_error: "encode m = Inl e \<longleftrightarrow> parts m = Inl e"
  using encode_ok_iff [of m] by (cases "parts m"; cases "encode m") (auto simp: encode_eq)

lemma packet_bounds:
  assumes "encode m = Inr pkt"
  shows "HEADER_BYTES \<le> length (pkt_bytes pkt) \<and> length (pkt_bytes pkt) \<le> MAX_PACKET_BYTES \<and>
    length (pkt_descriptors pkt) \<le> MAX_PACKET_DESCRIPTORS"
  using assms parts_bounds by (auto simp: encode_Inr_iff finish_packet_Inr_iff HEADER_BYTES_def)

lemma round_trip:
  assumes "encode m = Inr pkt" and "wf m"
  shows "decode (pkt_bytes pkt) (length (pkt_descriptors pkt)) =
    Inr \<lparr>dec_message = m, dec_descriptors = pkt_descriptors pkt\<rparr>"
proof -
  from assms(1) obtain opc ob p ds where parts: "parts m = Inr (opc, ob, p, ds)"
    and fin: "finish_packet opc ob p ds = Inr pkt"
    by (auto simp: encode_Inr_iff)
  from fin have ds: "pkt_descriptors pkt = ds"
    by (auto simp: finish_packet_Inr_iff)
  from parts assms(2) have "body opc ob p = Inr ((m, ds), [])"
    by (simp add: body_iff)
  with parse_finish_packet [OF fin] show ?thesis
    by (simp add: decode_iff ds)
qed

lemma encode_inject:
  assumes "encode m = Inr pkt" "encode m' = Inr pkt" "wf m" "wf m'"
  shows "m = m'"
  using round_trip [OF assms(1,3)] round_trip [OF assms(2,4)] by simp

lemma canonical:
  assumes "decode packet received = Inr d"
  shows "\<exists>pkt. encode (dec_message d) = Inr pkt \<and> pkt_descriptors pkt = dec_descriptors d \<and>
    received = length (dec_descriptors d) \<and> length (pkt_bytes pkt) = length packet \<and>
    take 6 (pkt_bytes pkt) = take 6 packet \<and> drop 8 (pkt_bytes pkt) = drop 8 packet"
proof -
  from assms obtain h where hdr: "parse_header packet received = Inr h"
    and rd: "body (hdr_opcode h) (hdr_object h) (hdr_payload h)
      = Inr ((dec_message d, dec_descriptors d), [])"
    and n: "received = length (dec_descriptors d)"
    by (auto simp: decode_iff)
  from rd have parts: "parts (dec_message d)
      = Inr (hdr_opcode h, hdr_object h, hdr_payload h, dec_descriptors d)"
    by (auto simp: body_iff)
  from parse_header_shape [OF hdr] obtain minor where
    "packet = header_bytes minor (hdr_opcode h) (word_of_nat received) (hdr_object h)
      (word_of_nat (length (hdr_payload h))) @ hdr_payload h"
    by blast
  with finish_parts [OF parts] parts n show ?thesis
    by (simp add: encode_eq header_bytes_split)
qed

lemma decoded_wf: "decode packet received = Inr d \<Longrightarrow> wf (dec_message d)"
  by (auto simp: decode_iff body_iff)

end

end
