(* ===== verification/Android_Codec.thy ===== *)
theory Android_Codec
  imports Message_Contract
begin

unbundle bit_operations_syntax

section \<open>Android-to-host messages\<close>

text \<open>
  \<open>encode_android\<close> and \<open>decode_android\<close> of \<open>graphics/droidloom-denial-protocol/src/lib.rs\<close>.  The
  \<open>match\<close> of the encoder is \<open>encode_android_parts\<close>: the checks, the payload it leaves in the writer,
  and the opcode, object and descriptor list it hands to \<open>finish_packet\<close>.  The \<open>match\<close> of the decoder
  is \<open>decode_android_body\<close>.  The interpretation of \<open>message_codec\<close> shows that the decoder accepts a
  payload exactly when the encoder produces it; the properties of packets follow from the locale.
\<close>

subsection \<open>Encoder\<close>

definition encode_client_hello :: "u16 \<Rightarrow> u16 \<Rightarrow> u64 \<Rightarrow> (wire_error, packet_parts) result" where
  "encode_client_hello min_major max_major capabilities =
     (if min_major = 0 \<or> max_major < min_major
      then Inl (InvalidEnum ''version range'' (ucast min_major))
      else Inr (OP_CLIENT_HELLO, 0, w_u16 min_major @ w_u16 max_major @ w_u64 capabilities, []))"

definition encode_create_task ::
  "task_object_id \<Rightarrow> android_display_id \<Rightarrow> rust_string \<Rightarrow> (wire_error, packet_parts) result" where
  "encode_create_task object display package =
     bind_result (valid_object object) (\<lambda>ob.
     if display = 0 \<or> \<not> valid_package package then Inl (InvalidString ''task identity'')
     else bind_result (w_string package MAX_PACKAGE_BYTES ''package'') (\<lambda>text.
       Inr (OP_CREATE_TASK, ob, w_u64 display @ text, [])))"

definition encode_register_buffer ::
  "task_object_id \<Rightarrow> buffer_metadata \<Rightarrow> (wire_error, packet_parts) result" where
  "encode_register_buffer object buffer =
     bind_result (map_err WireTransport (buffer_validate buffer)) (\<lambda>_.
     if buf_id buffer = 0 \<or> modifier (buf_format buffer) = U64_MAX
     then Inl (InvalidEnum ''buffer identity or modifier'' (buf_id buffer))
     else bind_result (encode_buffer buffer) (\<lambda>payload.
       object_parts OP_REGISTER_BUFFER object payload
         (replicate (length (buf_planes buffer)) DmabufPlane)))"

definition encode_present ::
  "task_object_id \<Rightarrow> frame_id \<Rightarrow> buffer_id \<Rightarrow> u32 \<Rightarrow> u64 \<Rightarrow> u64 \<Rightarrow> damage list
     \<Rightarrow> (wire_error, packet_parts) result" where
  "encode_present object frame buffer configure_serial acquire_point release_point damage =
     bind_result (nonzero ''frame ID'' frame) (\<lambda>_.
     bind_result (nonzero ''buffer ID'' buffer) (\<lambda>_.
     bind_result (nonzero ''configure serial'' (ucast configure_serial)) (\<lambda>_.
     bind_result (nonzero ''acquire point'' acquire_point) (\<lambda>_.
     bind_result (nonzero ''release point'' release_point) (\<lambda>_.
     if MAX_DAMAGE_RECTS < length damage then Inl (Limit ''damage'')
     else if 65535 < length damage then Inl (Limit ''damage'')
     else bind_result (encode_damage damage) (\<lambda>rects.
       object_parts OP_PRESENT object
         (w_u64 frame @ w_u64 buffer @ w_u32 configure_serial @ w_u64 acquire_point
           @ w_u64 release_point @ w_u16 (word_of_nat (length damage)) @ rects) []))))))"

fun encode_android_parts :: "android_message \<Rightarrow> (wire_error, packet_parts) result" where
  "encode_android_parts (RequestRenderTargets object configure_serial) =
     bind_result (nonzero ''configure serial'' (ucast configure_serial)) (\<lambda>_.
     object_parts OP_REQUEST_RENDER_TARGETS object (w_u32 configure_serial) [])"
| "encode_android_parts (BindInputChannel generation wire) =
     bind_result (nonzero ''input generation'' generation) (\<lambda>_.
     bind_result (nonzero ''input wire ABI'' (ucast wire)) (\<lambda>_.
     Inr (OP_BIND_INPUT_CHANNEL, 0, w_u64 generation @ w_u16 wire, [InputChannel])))"
| "encode_android_parts (BindInputRoute object display incarnation) =
     bind_result (validate_input_route display incarnation) (\<lambda>_.
     object_parts OP_BIND_INPUT_ROUTE object (w_u32 display @ w_u64 incarnation) [])"
| "encode_android_parts (ClientHello min_major max_major capabilities) =
     encode_client_hello min_major max_major capabilities"
| "encode_android_parts (CreateTask object display package) =
     encode_create_task object display package"
| "encode_android_parts (BindTask object task) =
     bind_result (nonzero ''Android task identity'' task) (\<lambda>_.
     object_parts OP_BIND_TASK object (w_u64 task) [])"
| "encode_android_parts (DestroyTask object) = object_parts OP_DESTROY_TASK object [] []"
| "encode_android_parts (BindTimelines object) =
     object_parts OP_BIND_TIMELINES object [] [AcquireTimeline, ReleaseTimeline]"
| "encode_android_parts (AckConfigure object serial) =
     (if serial = 0 then Inl (InvalidEnum ''configure serial'' 0)
      else object_parts OP_ACK_CONFIGURE object (w_u32 serial) [])"
| "encode_android_parts (RegisterBuffer object buffer) = encode_register_buffer object buffer"
| "encode_android_parts (UnregisterBuffer object buffer) =
     bind_result (nonzero ''buffer ID'' buffer) (\<lambda>_.
     object_parts OP_UNREGISTER_BUFFER object (w_u64 buffer) [])"
| "encode_android_parts
     (Present object frame buffer configure_serial acquire_point release_point damage) =
     encode_present object frame buffer configure_serial acquire_point release_point damage"
| "encode_android_parts (BindLayerStream object) =
     object_parts OP_BIND_LAYER_STREAM object [] [LayerStream, LayerStream]"
| "encode_android_parts (SetContentState object flags) =
     bind_result (known_bits ''content state'' (ucast flags) (ucast CONTENT_KNOWN)) (\<lambda>_.
     object_parts OP_SET_CONTENT_STATE object (w_u32 flags) [])"
| "encode_android_parts (SetFrameRate object millihz) =
     (if 1000000 < millihz then Inl (Limit ''frame rate'')
      else object_parts OP_SET_FRAME_RATE object (w_u32 millihz) [])"
| "encode_android_parts (RequestActivation object) =
     object_parts OP_REQUEST_ACTIVATION object [] []"
| "encode_android_parts (Pong cookie) = Inr (OP_PONG, 0, w_u64 cookie, [])"

definition encode_android :: "android_message \<Rightarrow> (wire_error, encoded_packet) result" where
  "encode_android message =
     bind_result (encode_android_parts message)
       (\<lambda>(opcode, object, payload, descriptors). finish_packet opcode object payload descriptors)"

subsection \<open>Decoder\<close>

text \<open>One reader per arm of \<open>decode_android\<close> that has a payload to check.\<close>

definition decode_client_hello :: "android_message reader" where
  "decode_client_hello =
     rd_bind rd_u16 (\<lambda>min_major. rd_bind rd_u16 (\<lambda>max_major.
     rd_bind (rd_check (reject_if (min_major = 0 \<or> max_major < min_major)
       (InvalidEnum ''version range'' (ucast min_major)))) (\<lambda>_.
     rd_bind rd_u64 (\<lambda>capabilities. rd_return (ClientHello min_major max_major capabilities)))))"

definition decode_create_task :: "task_object_id \<Rightarrow> android_message reader" where
  "decode_create_task object =
     rd_bind rd_u64 (\<lambda>display. rd_bind (rd_string MAX_PACKAGE_BYTES ''package'') (\<lambda>package.
     rd_bind (rd_check (reject_if (display = 0 \<or> \<not> valid_package package)
       (InvalidString ''task identity''))) (\<lambda>_.
     rd_return (CreateTask object display package))))"

definition decode_present :: "task_object_id \<Rightarrow> android_message reader" where
  "decode_present object =
     rd_bind rd_u64 (\<lambda>frame. rd_bind rd_u64 (\<lambda>buffer. rd_bind rd_u32 (\<lambda>configure_serial.
     rd_bind rd_u64 (\<lambda>acquire_point. rd_bind rd_u64 (\<lambda>release_point.
     rd_bind (rd_check (nonzero ''frame ID'' frame)) (\<lambda>_.
     rd_bind (rd_check (nonzero ''buffer ID'' buffer)) (\<lambda>_.
     rd_bind (rd_check (nonzero ''configure serial'' (ucast configure_serial))) (\<lambda>_.
     rd_bind (rd_check (nonzero ''acquire point'' acquire_point)) (\<lambda>_.
     rd_bind (rd_check (nonzero ''release point'' release_point)) (\<lambda>_.
     rd_bind rd_u16 (\<lambda>count.
     rd_bind (rd_check (reject_if (MAX_DAMAGE_RECTS < unat count) (Limit ''damage''))) (\<lambda>_.
     rd_bind (rd_repeat (unat count) rd_damage) (\<lambda>damage.
     rd_return (Present object frame buffer configure_serial acquire_point release_point
       damage))))))))))))))"

definition decode_u32_field ::
  "(u32 \<Rightarrow> (wire_error, unit) result) \<Rightarrow> (u32 \<Rightarrow> android_message) \<Rightarrow> android_message reader" where
  "decode_u32_field check mk =
     rd_bind rd_u32 (\<lambda>v. rd_bind (rd_check (check v)) (\<lambda>_. rd_return (mk v)))"

definition decode_u64_field ::
  "(u64 \<Rightarrow> (wire_error, unit) result) \<Rightarrow> (u64 \<Rightarrow> android_message) \<Rightarrow> android_message reader" where
  "decode_u64_field check mk =
     rd_bind rd_u64 (\<lambda>v. rd_bind (rd_check (check v)) (\<lambda>_. rd_return (mk v)))"

definition decode_bind_input_channel :: "android_message reader" where
  "decode_bind_input_channel =
     rd_bind rd_u64 (\<lambda>generation.
     rd_bind (rd_check (nonzero ''input generation'' generation)) (\<lambda>_.
     rd_bind rd_u16 (\<lambda>wire.
     rd_bind (rd_check (nonzero ''input wire ABI'' (ucast wire))) (\<lambda>_.
     rd_return (BindInputChannel generation wire)))))"

definition decode_bind_input_route :: "task_object_id \<Rightarrow> android_message reader" where
  "decode_bind_input_route object =
     rd_bind rd_u32 (\<lambda>display. rd_bind rd_u64 (\<lambda>incarnation.
     rd_bind (rd_check (validate_input_route display incarnation)) (\<lambda>_.
     rd_return (BindInputRoute object display incarnation))))"

definition decode_register_buffer ::
  "task_object_id \<Rightarrow> (android_message \<times> descriptor_kind list) reader" where
  "decode_register_buffer object =
     rd_bind decode_buffer (\<lambda>buffer.
     rd_return (RegisterBuffer object buffer,
       replicate (length (buf_planes buffer)) DmabufPlane))"

definition decode_android_body ::
  "u16 \<Rightarrow> u64 \<Rightarrow> (android_message \<times> descriptor_kind list) reader" where
  "decode_android_body opcode object =
     (if opcode = OP_REQUEST_RENDER_TARGETS then
        for_object object (with_descriptors []
          (decode_u32_field (\<lambda>v. nonzero ''configure serial'' (ucast v)) (RequestRenderTargets object)))
      else if opcode = OP_CLIENT_HELLO then
        for_connection object (with_descriptors [] decode_client_hello)
      else if opcode = OP_CREATE_TASK then
        for_object object (with_descriptors [] (decode_create_task object))
      else if opcode = OP_BIND_TASK then
        for_object object (with_descriptors []
          (decode_u64_field (nonzero ''Android task identity'') (BindTask object)))
      else if opcode = OP_DESTROY_TASK then
        for_object object (with_descriptors [] (rd_return (DestroyTask object)))
      else if opcode = OP_BIND_TIMELINES then
        for_object object (with_descriptors [AcquireTimeline, ReleaseTimeline]
          (rd_return (BindTimelines object)))
      else if opcode = OP_ACK_CONFIGURE then
        for_object object (with_descriptors []
          (decode_u32_field (\<lambda>v. nonzero ''configure serial'' (ucast v)) (AckConfigure object)))
      else if opcode = OP_REGISTER_BUFFER then
        for_object object (decode_register_buffer object)
      else if opcode = OP_UNREGISTER_BUFFER then
        for_object object (with_descriptors []
          (decode_u64_field (nonzero ''buffer ID'') (UnregisterBuffer object)))
      else if opcode = OP_PRESENT then
        for_object object (with_descriptors [] (decode_present object))
      else if opcode = OP_BIND_INPUT_CHANNEL then
        for_connection object (with_descriptors [InputChannel] decode_bind_input_channel)
      else if opcode = OP_BIND_INPUT_ROUTE then
        for_object object (with_descriptors [] (decode_bind_input_route object))
      else if opcode = OP_BIND_LAYER_STREAM then
        for_object object (with_descriptors [LayerStream, LayerStream]
          (rd_return (BindLayerStream object)))
      else if opcode = OP_SET_CONTENT_STATE then
        for_object object (with_descriptors []
          (decode_u32_field (\<lambda>v. known_bits ''content state'' (ucast v) (ucast CONTENT_KNOWN))
            (SetContentState object)))
      else if opcode = OP_SET_FRAME_RATE then
        for_object object (with_descriptors []
          (decode_u32_field (\<lambda>v. reject_if (1000000 < v) (Limit ''frame rate''))
            (SetFrameRate object)))
      else if opcode = OP_REQUEST_ACTIVATION then
        for_object object (with_descriptors [] (rd_return (RequestActivation object)))
      else if opcode = OP_PONG then
        for_connection object (with_descriptors [] (rd_bind rd_u64 (\<lambda>cookie. rd_return (Pong cookie))))
      else rd_check (Inl (UnknownOpcode opcode)))"

definition decode_android ::
  "u8 list \<Rightarrow> nat \<Rightarrow> (wire_error, android_message decoded_packet) result" where
  "decode_android packet received_descriptors =
     bind_result (parse_header packet received_descriptors) (\<lambda>header.
     bind_result (decode_android_body (hdr_opcode header) (hdr_object header) (hdr_payload header))
       (\<lambda>((message, descriptors), rest).
     bind_result (rd_finish rest) (\<lambda>_.
     bind_result
       (validate_descriptor_layout (hdr_fd_count header) received_descriptors descriptors) (\<lambda>_.
     Inr \<lparr>dec_message = message, dec_descriptors = descriptors\<rparr>))))"


subsection \<open>The two tables agree\<close>

lemmas android_encoder_defs =
  encode_client_hello_def encode_create_task_def encode_register_buffer_def encode_present_def

lemmas android_reader_defs =
  decode_client_hello_def decode_create_task_def decode_register_buffer_def decode_present_def
  decode_u32_field_def decode_u64_field_def decode_bind_input_channel_def
  decode_bind_input_route_def

text \<open>The decoder's arm for the opcode of a message reads what the encoder wrote.\<close>

lemma rd_package_iff:
  "rd_string MAX_PACKAGE_BYTES field bs = Inr (x, rest) \<longleftrightarrow>
     (length x \<le> MAX_PACKAGE_BYTES \<and> utf8_valid x) \<and> bs = string_bytes x @ rest"
  by (rule rd_string_iff) (simp add: proto_consts)

lemma w_package_ok: "valid_package x \<Longrightarrow> w_string x MAX_PACKAGE_BYTES field = Inr (string_bytes x)"
  using valid_package_length [of x] by (simp add: w_string_def proto_consts)

lemma damage_count_u16: "\<not> MAX_DAMAGE_RECTS < n \<Longrightarrow> \<not> 65535 < n"
  by (simp add: proto_consts)

lemma damage_count:
  "n \<le> MAX_DAMAGE_RECTS \<Longrightarrow> unat (word_of_nat n :: u16) = n"
  by (simp add: unat_of_nat proto_consts)

lemma decode_android_sound:
  assumes "decode_android_body opc ob bs = Inr ((m, ds), rest)"
  shows "\<exists>payload. encode_android_parts m = Inr (opc, ob, payload, ds) \<and> bs = payload @ rest"
  using assms
  by (auto simp: decode_android_body_def android_reader_defs android_encoder_defs result_simps
      codec_simps rd_package_iff rects.repeat_iff buffers.get_iff if_app
      buffer_wire_ok_def encode_buffer_ok w_package_ok encode_damage_iff damage_count_u16
      split: if_splits)

lemma decode_android_complete:
  assumes "encode_android_parts m = Inr (opc, ob, payload, ds)"
  shows "decode_android_body opc ob (payload @ rest) = Inr ((m, ds), rest)"
  using assms
  by (cases m)
    (auto simp: decode_android_body_def android_reader_defs android_encoder_defs result_simps
      codec_simps rd_package_iff rects.repeat_iff buffers.get_iff if_app opcodes
      buffer_wire_ok_def encode_buffer_ok w_package_ok valid_package_length valid_package_utf8
      encode_damage_iff damage_count split: if_splits)


lemma android_parts_bounds:
  assumes "encode_android_parts m = Inr (opc, ob, payload, ds)"
  shows "length payload \<le> 4134 \<and> length ds \<le> MAX_PACKET_DESCRIPTORS"
  using assms
  by (cases m)
    (auto simp: android_encoder_defs result_simps w_string_def string_bytes_def encode_damage_iff
      rects.concat_width encode_buffer_def length_buffer_bytes buffer_validate_ok_iff proto_consts
      split: if_splits)

interpretation android: message_codec encode_android_parts decode_android_body "\<lambda>_. True"
  encode_android decode_android
proof unfold_locales
  show "decode_android packet received = Inr d \<longleftrightarrow> (\<exists>h. parse_header packet received = Inr h \<and>
      decode_android_body (hdr_opcode h) (hdr_object h) (hdr_payload h)
        = Inr ((dec_message d, dec_descriptors d), []) \<and>
      hdr_fd_count h = length (dec_descriptors d) \<and> received = length (dec_descriptors d))"
    for packet received d
    by (cases d) (auto simp: decode_android_def result_simps split: prod.splits)
  show "decode_android_body opc ob bs = Inr ((m, ds), rest) \<longleftrightarrow> True \<and>
      (\<exists>payload. encode_android_parts m = Inr (opc, ob, payload, ds) \<and> bs = payload @ rest)"
    for opc ob bs m ds rest
    using decode_android_sound decode_android_complete by blast
qed (use android_parts_bounds in \<open>auto simp: encode_android_def\<close>)

subsection \<open>Properties\<close>

text \<open>
  C10. Every message \<open>encode_android\<close> accepts is decoded by \<open>decode_android\<close>, with the number of
  descriptors the packet carries, to the same message and the same descriptor roles.
\<close>

theorem android_round_trip:
  assumes "encode_android m = Inr pkt"
  shows "decode_android (pkt_bytes pkt) (length (pkt_descriptors pkt)) =
    Inr \<lparr>dec_message = m, dec_descriptors = pkt_descriptors pkt\<rparr>"
  using assms by (rule android.round_trip) simp

definition example_present :: android_message where
  "example_present = Present 7 1 9 3 5 6
     [\<lparr>dmg_x = 0, dmg_y = 0, dmg_width = 64, dmg_height = 32\<rparr>]"

definition example_present_packet :: encoded_packet where
  "example_present_packet = \<lparr>pkt_bytes =
     [0x44, 0x4C, 0x4F, 0x4D, 1, 0, 3, 0, 8, 0, 0, 0, 0, 0, 0, 0,
      7, 0, 0, 0, 0, 0, 0, 0, 54, 0, 0, 0, 0, 0, 0, 0,
      1, 0, 0, 0, 0, 0, 0, 0, 9, 0, 0, 0, 0, 0, 0, 0, 3, 0, 0, 0,
      5, 0, 0, 0, 0, 0, 0, 0, 6, 0, 0, 0, 0, 0, 0, 0, 1, 0,
      0, 0, 0, 0, 0, 0, 0, 0, 64, 0, 0, 0, 32, 0, 0, 0], pkt_descriptors = []\<rparr>"

lemma encode_example_present: "encode_android example_present = Inr example_present_packet"
  by (simp add: example_present_def example_present_packet_def encode_android_def encode_present_def
      validate_damage_def checked_add_def damage_bytes_def packet_write_defs)

theorem android_round_trip_witness:
  "decode_android (pkt_bytes example_present_packet) 0 =
     Inr \<lparr>dec_message = example_present, dec_descriptors = []\<rparr>"
  using android_round_trip [OF encode_example_present] by (simp add: example_present_packet_def)

text \<open>
  C19. The decoder is canonical: a packet it accepts is, byte for byte, the packet \<open>encode_android\<close>
  builds for the decoded message, with the same number of descriptors; only the header's minor
  version (bytes 6 and 7) may differ.
\<close>

theorem android_canonical:
  assumes "decode_android packet received = Inr d"
  shows "\<exists>pkt. encode_android (dec_message d) = Inr pkt \<and>
    pkt_descriptors pkt = dec_descriptors d \<and> received = length (dec_descriptors d) \<and>
    length (pkt_bytes pkt) = length packet \<and>
    take 6 (pkt_bytes pkt) = take 6 packet \<and> drop 8 (pkt_bytes pkt) = drop 8 packet"
  using assms by (rule android.canonical)

theorem android_canonical_witness:
  "\<exists>pkt. encode_android (Pong 1) = Inr pkt \<and> pkt_descriptors pkt = [] \<and>
     take 6 (pkt_bytes pkt) = [0x44, 0x4C, 0x4F, 0x4D, 1, 0] \<and>
     drop 8 (pkt_bytes pkt) = [0x0B, 0, 0, 0, 0, 0, 0, 0, 0, 0, 0, 0, 0, 0, 0, 0, 8, 0, 0, 0,
       0, 0, 0, 0, 1, 0, 0, 0, 0, 0, 0, 0]"
proof -
  have "decode_android [0x44, 0x4C, 0x4F, 0x4D, 1, 0, 0, 0, 0x0B, 0, 0, 0, 0, 0, 0, 0,
      0, 0, 0, 0, 0, 0, 0, 0, 8, 0, 0, 0, 0, 0, 0, 0, 1, 0, 0, 0, 0, 0, 0, 0] 0
      = Inr \<lparr>dec_message = Pong 1, dec_descriptors = []\<rparr>"
    by (simp add: decode_android_def decode_android_body_def packet_read_defs)
  from android_canonical [OF this] show ?thesis by auto
qed

text \<open>
  Framing never fails: \<open>encode_android\<close> rejects a message only where one of the message's own
  checks does, and every packet it builds respects the bounds its peer enforces.
\<close>

theorem android_framing_total:
  "case encode_android m of
     Inl e \<Rightarrow> encode_android_parts m = Inl e
   | Inr pkt \<Rightarrow> is_ok (encode_android_parts m) \<and>
       HEADER_BYTES \<le> length (pkt_bytes pkt) \<and> length (pkt_bytes pkt) \<le> MAX_PACKET_BYTES \<and>
       length (pkt_descriptors pkt) \<le> MAX_PACKET_DESCRIPTORS"
  using android.encode_error android.encode_ok_iff [of m] android.packet_bounds
  by (auto split: sum.splits)

end
