(* ===== verification/Denial_Codec.thy ===== *)
theory Denial_Codec
  imports Android_Codec
begin

unbundle bit_operations_syntax

section \<open>Host-to-Android messages\<close>

text \<open>
  \<open>encode_denial\<close> and \<open>decode_denial\<close> of \<open>graphics/droidloom-denial-protocol/src/lib.rs\<close>, in the same
  shape as the other direction.  The encoder's \<open>match\<close> yields opcode, object and payload; the
  descriptor roles are computed from the message afterwards, by \<open>denial_descriptors\<close>, on both sides.
  The only text the direction carries is the error message; a Rust \<open>String\<close> is valid UTF-8, which
  \<open>denial_wf\<close> states of the model's byte list.
\<close>

subsection \<open>Encoder\<close>

type_synonym denial_parts = "u16 \<times> u64 \<times> u8 list"

definition object_payload ::
  "u16 \<Rightarrow> task_object_id \<Rightarrow> u8 list \<Rightarrow> (wire_error, denial_parts) result" where
  "object_payload opcode object payload =
     bind_result (valid_object object) (\<lambda>ob. Inr (opcode, ob, payload))"

definition encode_server_hello ::
  "u16 \<Rightarrow> u16 \<Rightarrow> u64 \<Rightarrow> u32 \<Rightarrow> u32 \<Rightarrow> u32 \<Rightarrow> (wire_error, denial_parts) result" where
  "encode_server_hello major minor capabilities max_task_objects max_buffers max_damage =
     bind_result (validate_server_hello major minor capabilities max_task_objects max_buffers max_damage)
     (\<lambda>_. Inr (OP_SERVER_HELLO, 0, w_u16 major @ w_u16 minor @ w_u64 capabilities
       @ w_u32 max_task_objects @ w_u32 max_buffers @ w_u32 max_damage))"

definition encode_format_feedback ::
  "task_object_id \<Rightarrow> u32 \<Rightarrow> format_modifier list \<Rightarrow> (wire_error, denial_parts) result" where
  "encode_format_feedback object generation formats =
     bind_result (nonzero ''feedback generation'' (ucast generation)) (\<lambda>_.
     if formats = [] \<or> MAX_FORMATS < length formats then Inl (Limit ''format feedback'')
     else if 65535 < length formats then Inl (Limit ''format feedback'')
     else bind_result (encode_formats formats) (\<lambda>entries.
       object_payload OP_FORMAT_FEEDBACK object
         (w_u32 generation @ w_u16 (word_of_nat (length formats)) @ entries)))"

definition encode_register_render_target ::
  "task_object_id \<Rightarrow> u32 \<Rightarrow> buffer_metadata \<Rightarrow> (wire_error, denial_parts) result" where
  "encode_register_render_target object configure_serial buffer =
     bind_result (nonzero ''configure serial'' (ucast configure_serial)) (\<lambda>_.
     bind_result (map_err WireTransport (buffer_validate buffer)) (\<lambda>_.
     if buf_id buffer = 0 \<or> modifier (buf_format buffer) = U64_MAX
     then Inl (InvalidEnum ''render-target identity or modifier'' (buf_id buffer))
     else bind_result (encode_buffer buffer) (\<lambda>bytes.
       object_payload OP_REGISTER_RENDER_TARGET object (w_u32 configure_serial @ bytes))))"

definition encode_configure ::
  "task_object_id \<Rightarrow> u32 \<Rightarrow> u32 \<Rightarrow> u32 \<Rightarrow> u32 \<Rightarrow> u32 \<Rightarrow> transform \<Rightarrow> u32
     \<Rightarrow> (wire_error, denial_parts) result" where
  "encode_configure object serial width height scale_numerator scale_denominator transform
     refresh_millihz =
     bind_result
       (validate_configure serial width height scale_numerator scale_denominator refresh_millihz) (\<lambda>_.
     object_payload OP_CONFIGURE object
       (w_u32 serial @ w_u32 width @ w_u32 height @ w_u32 scale_numerator @ w_u32 scale_denominator
         @ w_u8 (transform_code transform) @ w_u32 refresh_millihz))"

definition encode_buffer_released ::
  "task_object_id \<Rightarrow> frame_id \<Rightarrow> buffer_id \<Rightarrow> u64 \<Rightarrow> (wire_error, denial_parts) result" where
  "encode_buffer_released object frame buffer release_point =
     bind_result (nonzero ''frame ID'' frame) (\<lambda>_.
     bind_result (nonzero ''buffer ID'' buffer) (\<lambda>_.
     bind_result (nonzero ''release point'' release_point) (\<lambda>_.
     object_payload OP_BUFFER_RELEASED object
       (w_u64 frame @ w_u64 buffer @ w_u64 release_point))))"

definition encode_presented ::
  "task_object_id \<Rightarrow> frame_id \<Rightarrow> u64 \<Rightarrow> u64 \<Rightarrow> u64 \<Rightarrow> u32 \<Rightarrow> (wire_error, denial_parts) result" where
  "encode_presented object frame timestamp_nanos refresh_period_nanos sequence flags =
     bind_result (nonzero ''frame ID'' frame) (\<lambda>_.
     bind_result (nonzero ''refresh period'' refresh_period_nanos) (\<lambda>_.
     bind_result (known_bits ''presentation flags'' (ucast flags) (ucast PRESENTATION_KNOWN)) (\<lambda>_.
     object_payload OP_PRESENTED object
       (w_u64 frame @ w_u64 timestamp_nanos @ w_u64 refresh_period_nanos @ w_u64 sequence
         @ w_u32 flags))))"

definition encode_scene_presented ::
  "task_object_id \<Rightarrow> u64 \<Rightarrow> u64 \<Rightarrow> u64 \<Rightarrow> u64 \<Rightarrow> (wire_error, denial_parts) result" where
  "encode_scene_presented object scene timestamp_nanos refresh_period_nanos sequence =
     bind_result (nonzero ''scene ID'' scene) (\<lambda>_.
     bind_result (nonzero ''presentation timestamp'' timestamp_nanos) (\<lambda>_.
     bind_result (nonzero ''refresh period'' refresh_period_nanos) (\<lambda>_.
     object_payload OP_SCENE_PRESENTED object
       (w_u64 scene @ w_u64 timestamp_nanos @ w_u64 refresh_period_nanos @ w_u64 sequence))))"

definition encode_error ::
  "task_object_id option \<Rightarrow> protocol_error_code \<Rightarrow> u16 \<Rightarrow> rust_string \<Rightarrow> (wire_error, denial_parts) result"
  where
  "encode_error object code offending_opcode message =
     bind_result (w_string message MAX_ERROR_BYTES ''error'') (\<lambda>text.
     bind_result (case object of Some value \<Rightarrow> valid_object value | None \<Rightarrow> Inr 0) (\<lambda>ob.
     Inr (OP_ERROR, ob, w_u16 (error_code code) @ w_u16 offending_opcode @ text)))"

fun encode_denial_parts :: "denial_message \<Rightarrow> (wire_error, denial_parts) result" where
  "encode_denial_parts (RequestInputChannel generation) =
     bind_result (nonzero ''input generation'' generation) (\<lambda>_.
     Inr (OP_REQUEST_INPUT_CHANNEL, 0, w_u64 generation))"
| "encode_denial_parts
     (ServerHello major minor capabilities max_task_objects max_buffers max_damage) =
     encode_server_hello major minor capabilities max_task_objects max_buffers max_damage"
| "encode_denial_parts (DisplayPower powered) =
     Inr (OP_DISPLAY_POWER, 0, w_u8 (bool_code powered))"
| "encode_denial_parts (FormatFeedback object generation formats) =
     encode_format_feedback object generation formats"
| "encode_denial_parts (RegisterRenderTarget object configure_serial buffer) =
     encode_register_render_target object configure_serial buffer"
| "encode_denial_parts (UnregisterRenderTarget object buffer) =
     bind_result (nonzero ''render-target ID'' buffer) (\<lambda>_.
     object_payload OP_UNREGISTER_RENDER_TARGET object (w_u64 buffer))"
| "encode_denial_parts (Configure object serial width height scale_numerator scale_denominator
     transform refresh_millihz) =
     encode_configure object serial width height scale_numerator scale_denominator transform
       refresh_millihz"
| "encode_denial_parts (Insets object left upper right lower) =
     object_payload OP_INSETS object (w_u32 left @ w_u32 upper @ w_u32 right @ w_u32 lower)"
| "encode_denial_parts (Visibility object visibility focused) =
     object_payload OP_VISIBILITY object
       (w_u8 (visibility_code visibility) @ w_u8 (bool_code focused))"
| "encode_denial_parts (Close object) = object_payload OP_CLOSE object []"
| "encode_denial_parts (BufferReleased object frame buffer release_point) =
     encode_buffer_released object frame buffer release_point"
| "encode_denial_parts
     (Presented object frame timestamp_nanos refresh_period_nanos sequence flags) =
     encode_presented object frame timestamp_nanos refresh_period_nanos sequence flags"
| "encode_denial_parts
     (ScenePresented object scene timestamp_nanos refresh_period_nanos sequence) =
     encode_scene_presented object scene timestamp_nanos refresh_period_nanos sequence"
| "encode_denial_parts (Input object serial timestamp_nanos event) =
     bind_result (nonzero ''input serial'' serial) (\<lambda>_.
     object_payload OP_INPUT object (w_u64 serial @ w_u64 timestamp_nanos @ encode_input event))"
| "encode_denial_parts (ErrorMessage object code offending_opcode message) =
     encode_error object code offending_opcode message"
| "encode_denial_parts (Ping cookie) = Inr (OP_PING, 0, w_u64 cookie)"
| "encode_denial_parts (FrameGrant latch target period) =
     bind_result (frame_grant latch target period) (\<lambda>_.
     Inr (OP_FRAME_GRANT, 0, w_u64 latch @ w_u64 target @ w_u64 period))"

fun denial_descriptors :: "denial_message \<Rightarrow> descriptor_kind list" where
  "denial_descriptors (RegisterRenderTarget object configure_serial buffer) =
     replicate (length (buf_planes buffer)) DmabufPlane"
| "denial_descriptors message = []"

definition encode_denial :: "denial_message \<Rightarrow> (wire_error, encoded_packet) result" where
  "encode_denial message =
     bind_result (encode_denial_parts message) (\<lambda>(opcode, object, payload).
     finish_packet opcode object payload (denial_descriptors message))"

subsection \<open>Decoder\<close>

definition decode_server_hello :: "denial_message reader" where
  "decode_server_hello =
     rd_bind rd_u16 (\<lambda>major. rd_bind rd_u16 (\<lambda>minor. rd_bind rd_u64 (\<lambda>capabilities.
     rd_bind rd_u32 (\<lambda>max_task_objects. rd_bind rd_u32 (\<lambda>max_buffers. rd_bind rd_u32 (\<lambda>max_damage.
     rd_bind (rd_check (validate_server_hello major minor capabilities max_task_objects max_buffers
       max_damage)) (\<lambda>_.
     rd_return (ServerHello major minor capabilities max_task_objects max_buffers max_damage))))))))"

definition decode_request_input_channel :: "denial_message reader" where
  "decode_request_input_channel =
     rd_bind rd_u64 (\<lambda>generation.
     rd_bind (rd_check (nonzero ''input generation'' generation)) (\<lambda>_.
     rd_return (RequestInputChannel generation)))"

definition decode_display_power :: "denial_message reader" where
  "decode_display_power =
     rd_bind rd_u8 (\<lambda>v. rd_bind (rd_check (decode_bool v ''display power'')) (\<lambda>powered.
     rd_return (DisplayPower powered)))"

definition decode_format_feedback :: "task_object_id \<Rightarrow> denial_message reader" where
  "decode_format_feedback object =
     rd_bind rd_u32 (\<lambda>generation.
     rd_bind (rd_check (nonzero ''feedback generation'' (ucast generation))) (\<lambda>_.
     rd_bind rd_u16 (\<lambda>count.
     rd_bind (rd_check (reject_if (unat count = 0 \<or> MAX_FORMATS < unat count)
       (Limit ''format feedback''))) (\<lambda>_.
     rd_bind (rd_repeat (unat count) rd_format) (\<lambda>formats.
     rd_return (FormatFeedback object generation formats))))))"

definition decode_register_render_target :: "task_object_id \<Rightarrow> denial_message reader" where
  "decode_register_render_target object =
     rd_bind rd_u32 (\<lambda>configure_serial.
     rd_bind (rd_check (nonzero ''configure serial'' (ucast configure_serial))) (\<lambda>_.
     rd_bind decode_buffer (\<lambda>buffer.
     rd_return (RegisterRenderTarget object configure_serial buffer))))"

definition decode_unregister_render_target :: "task_object_id \<Rightarrow> denial_message reader" where
  "decode_unregister_render_target object =
     rd_bind rd_u64 (\<lambda>buffer.
     rd_bind (rd_check (nonzero ''render-target ID'' buffer)) (\<lambda>_.
     rd_return (UnregisterRenderTarget object buffer)))"

definition decode_configure :: "task_object_id \<Rightarrow> denial_message reader" where
  "decode_configure object =
     rd_bind rd_u32 (\<lambda>serial. rd_bind rd_u32 (\<lambda>width. rd_bind rd_u32 (\<lambda>height.
     rd_bind rd_u32 (\<lambda>scale_numerator. rd_bind rd_u32 (\<lambda>scale_denominator.
     rd_bind rd_u8 (\<lambda>code. rd_bind (rd_check (decode_transform code)) (\<lambda>transform.
     rd_bind rd_u32 (\<lambda>refresh_millihz.
     rd_bind (rd_check (validate_configure serial width height scale_numerator scale_denominator
       refresh_millihz)) (\<lambda>_.
     rd_return (Configure object serial width height scale_numerator scale_denominator transform
       refresh_millihz))))))))))"

definition decode_insets :: "task_object_id \<Rightarrow> denial_message reader" where
  "decode_insets object =
     rd_bind rd_u32 (\<lambda>left. rd_bind rd_u32 (\<lambda>upper. rd_bind rd_u32 (\<lambda>right. rd_bind rd_u32 (\<lambda>lower.
     rd_return (Insets object left upper right lower)))))"

definition decode_visibility_message :: "task_object_id \<Rightarrow> denial_message reader" where
  "decode_visibility_message object =
     rd_bind rd_u8 (\<lambda>code. rd_bind (rd_check (decode_visibility code)) (\<lambda>visibility.
     rd_bind rd_u8 (\<lambda>v. rd_bind (rd_check (decode_bool v ''focus'')) (\<lambda>focused.
     rd_return (Visibility object visibility focused)))))"

definition decode_buffer_released :: "task_object_id \<Rightarrow> denial_message reader" where
  "decode_buffer_released object =
     rd_bind rd_u64 (\<lambda>frame. rd_bind rd_u64 (\<lambda>buffer. rd_bind rd_u64 (\<lambda>release_point.
     rd_bind (rd_check (nonzero ''frame ID'' frame)) (\<lambda>_.
     rd_bind (rd_check (nonzero ''buffer ID'' buffer)) (\<lambda>_.
     rd_bind (rd_check (nonzero ''release point'' release_point)) (\<lambda>_.
     rd_return (BufferReleased object frame buffer release_point)))))))"

definition decode_presented :: "task_object_id \<Rightarrow> denial_message reader" where
  "decode_presented object =
     rd_bind rd_u64 (\<lambda>frame. rd_bind rd_u64 (\<lambda>timestamp_nanos.
     rd_bind rd_u64 (\<lambda>refresh_period_nanos. rd_bind rd_u64 (\<lambda>sequence. rd_bind rd_u32 (\<lambda>flags.
     rd_bind (rd_check (nonzero ''frame ID'' frame)) (\<lambda>_.
     rd_bind (rd_check (nonzero ''refresh period'' refresh_period_nanos)) (\<lambda>_.
     rd_bind (rd_check (known_bits ''presentation flags'' (ucast flags) (ucast PRESENTATION_KNOWN)))
       (\<lambda>_.
     rd_return (Presented object frame timestamp_nanos refresh_period_nanos sequence flags)))))))))"

definition decode_scene_presented :: "task_object_id \<Rightarrow> denial_message reader" where
  "decode_scene_presented object =
     rd_bind rd_u64 (\<lambda>scene. rd_bind rd_u64 (\<lambda>timestamp_nanos.
     rd_bind rd_u64 (\<lambda>refresh_period_nanos. rd_bind rd_u64 (\<lambda>sequence.
     rd_bind (rd_check (nonzero ''scene ID'' scene)) (\<lambda>_.
     rd_bind (rd_check (nonzero ''presentation timestamp'' timestamp_nanos)) (\<lambda>_.
     rd_bind (rd_check (nonzero ''refresh period'' refresh_period_nanos)) (\<lambda>_.
     rd_return (ScenePresented object scene timestamp_nanos refresh_period_nanos sequence))))))))"

definition decode_input_message :: "task_object_id \<Rightarrow> denial_message reader" where
  "decode_input_message object =
     rd_bind rd_u64 (\<lambda>serial.
     rd_bind (rd_check (nonzero ''input serial'' serial)) (\<lambda>_.
     rd_bind rd_u64 (\<lambda>timestamp_nanos. rd_bind decode_input (\<lambda>event.
     rd_return (Input object serial timestamp_nanos event)))))"

definition decode_error_message :: "u64 \<Rightarrow> denial_message reader" where
  "decode_error_message object =
     rd_bind rd_u16 (\<lambda>v. rd_bind (rd_check (decode_error_code v)) (\<lambda>code.
     rd_bind rd_u16 (\<lambda>offending_opcode. rd_bind (rd_string MAX_ERROR_BYTES ''error'') (\<lambda>message.
     rd_return (ErrorMessage (if object \<noteq> 0 then Some object else None) code offending_opcode
       message)))))"

definition decode_ping :: "denial_message reader" where
  "decode_ping = rd_bind rd_u64 (\<lambda>cookie. rd_return (Ping cookie))"

definition decode_frame_grant :: "denial_message reader" where
  "decode_frame_grant =
     rd_bind rd_u64 (\<lambda>latch. rd_bind rd_u64 (\<lambda>target. rd_bind rd_u64 (\<lambda>period.
     rd_bind (rd_check (frame_grant latch target period)) (\<lambda>_.
     rd_return (FrameGrant latch target period)))))"

definition decode_denial_body :: "u16 \<Rightarrow> u64 \<Rightarrow> denial_message reader" where
  "decode_denial_body opcode object =
     (if opcode = OP_SERVER_HELLO then for_connection object decode_server_hello
      else if opcode = OP_REQUEST_INPUT_CHANNEL then
        for_connection object decode_request_input_channel
      else if opcode = OP_DISPLAY_POWER then for_connection object decode_display_power
      else if opcode = OP_FORMAT_FEEDBACK then for_object object (decode_format_feedback object)
      else if opcode = OP_REGISTER_RENDER_TARGET then
        for_object object (decode_register_render_target object)
      else if opcode = OP_UNREGISTER_RENDER_TARGET then
        for_object object (decode_unregister_render_target object)
      else if opcode = OP_CONFIGURE then for_object object (decode_configure object)
      else if opcode = OP_INSETS then for_object object (decode_insets object)
      else if opcode = OP_VISIBILITY then for_object object (decode_visibility_message object)
      else if opcode = OP_CLOSE then for_object object (rd_return (Close object))
      else if opcode = OP_BUFFER_RELEASED then for_object object (decode_buffer_released object)
      else if opcode = OP_PRESENTED then for_object object (decode_presented object)
      else if opcode = OP_SCENE_PRESENTED then for_object object (decode_scene_presented object)
      else if opcode = OP_INPUT then for_object object (decode_input_message object)
      else if opcode = OP_ERROR then decode_error_message object
      else if opcode = OP_PING then for_connection object decode_ping
      else if opcode = OP_FRAME_GRANT then for_connection object decode_frame_grant
      else rd_check (Inl (UnknownOpcode opcode)))"

definition decode_denial ::
  "u8 list \<Rightarrow> nat \<Rightarrow> (wire_error, denial_message decoded_packet) result" where
  "decode_denial packet received_descriptors =
     bind_result (parse_header packet received_descriptors) (\<lambda>header.
     bind_result (decode_denial_body (hdr_opcode header) (hdr_object header) (hdr_payload header))
       (\<lambda>(message, rest).
     bind_result (rd_finish rest) (\<lambda>_.
     let descriptors = denial_descriptors message in
     bind_result
       (validate_descriptor_layout (hdr_fd_count header) received_descriptors descriptors) (\<lambda>_.
     Inr \<lparr>dec_message = message, dec_descriptors = descriptors\<rparr>))))"

subsection \<open>The two tables agree\<close>

fun denial_wf :: "denial_message \<Rightarrow> bool" where
  "denial_wf (ErrorMessage object code offending_opcode message) = utf8_valid message"
| "denial_wf message = True"

lemmas denial_encoder_defs =
  encode_server_hello_def encode_format_feedback_def encode_register_render_target_def
  encode_configure_def encode_buffer_released_def encode_presented_def encode_scene_presented_def
  encode_error_def

lemmas denial_reader_defs =
  decode_server_hello_def decode_request_input_channel_def decode_display_power_def
  decode_format_feedback_def decode_register_render_target_def decode_unregister_render_target_def
  decode_configure_def decode_insets_def decode_visibility_message_def decode_buffer_released_def
  decode_presented_def decode_scene_presented_def decode_input_message_def decode_error_message_def
  decode_ping_def decode_frame_grant_def

lemma object_payload_Inr_iff [result_simps]:
  "object_payload opc ob p = Inr x \<longleftrightarrow> ob \<noteq> 0 \<and> x = (opc, ob, p)"
  by (auto simp: object_payload_def result_simps)

lemma rd_error_text_iff:
  "rd_string MAX_ERROR_BYTES field bs = Inr (x, rest) \<longleftrightarrow>
     (length x \<le> MAX_ERROR_BYTES \<and> utf8_valid x) \<and> bs = string_bytes x @ rest"
  by (rule rd_string_iff) (simp add: proto_consts)

lemma w_error_text_iff:
  "w_string x MAX_ERROR_BYTES field = Inr bytes \<longleftrightarrow>
     length x \<le> MAX_ERROR_BYTES \<and> bytes = string_bytes x"
  by (auto simp: w_string_def proto_consts)

lemma format_count_u16: "\<not> MAX_FORMATS < n \<Longrightarrow> \<not> 65535 < n"
  by (simp add: proto_consts)

lemma format_count: "n \<le> MAX_FORMATS \<Longrightarrow> unat (word_of_nat n :: u16) = n"
  by (simp add: unat_of_nat proto_consts)

lemma decode_denial_sound:
  assumes "decode_denial_body opc ob bs = Inr (m, rest)"
  shows "denial_wf m \<and> (\<exists>payload. encode_denial_parts m = Inr (opc, ob, payload) \<and> bs = payload @ rest)"
  using assms
  by (auto simp: decode_denial_body_def denial_reader_defs denial_encoder_defs result_simps
      codec_simps rd_error_text_iff w_error_text_iff formats.repeat_iff buffers.get_iff inputs.get_iff
      if_app buffer_wire_ok_def encode_buffer_ok encode_formats_iff format_count_u16
      split: if_splits)

lemma decode_denial_complete:
  assumes "encode_denial_parts m = Inr (opc, ob, payload)" and "denial_wf m"
  shows "decode_denial_body opc ob (payload @ rest) = Inr (m, rest)"
  using assms
  by (cases m)
    (auto simp: decode_denial_body_def denial_reader_defs denial_encoder_defs result_simps
      codec_simps rd_error_text_iff w_error_text_iff formats.repeat_iff buffers.get_iff inputs.get_iff
      if_app opcodes buffer_wire_ok_def encode_buffer_ok encode_formats_iff format_count
      split: if_splits option.splits)

lemma denial_parts_bounds:
  assumes "encode_denial_parts m = Inr (opc, ob, payload)"
  shows "length payload \<le> 4134 \<and> length (denial_descriptors m) \<le> MAX_PACKET_DESCRIPTORS"
  using assms
  by (cases m)
    (auto simp: denial_encoder_defs result_simps w_string_def string_bytes_def encode_formats_iff
      formats.concat_width encode_buffer_def length_buffer_bytes buffer_validate_ok_iff proto_consts
      intro: order_trans [OF length_encode_input] split: if_splits)

definition denial_parts_of :: "denial_message \<Rightarrow> (wire_error, packet_parts) result" where
  "denial_parts_of m = bind_result (encode_denial_parts m)
     (\<lambda>(opcode, object, payload). Inr (opcode, object, payload, denial_descriptors m))"

definition denial_body_of :: "u16 \<Rightarrow> u64 \<Rightarrow> (denial_message \<times> descriptor_kind list) reader" where
  "denial_body_of opcode object =
     rd_bind (decode_denial_body opcode object) (\<lambda>m. rd_return (m, denial_descriptors m))"

lemma denial_parts_of_iff:
  "denial_parts_of m = Inr (opc, ob, p, ds) \<longleftrightarrow>
     encode_denial_parts m = Inr (opc, ob, p) \<and> ds = denial_descriptors m"
  by (auto simp: denial_parts_of_def result_simps)

interpretation denial: message_codec denial_parts_of denial_body_of denial_wf
  encode_denial decode_denial
proof unfold_locales
  show "encode_denial m = bind_result (denial_parts_of m)
      (\<lambda>(opcode, object, payload, ds). finish_packet opcode object payload ds)" for m
    by (cases "encode_denial_parts m") (auto simp: encode_denial_def denial_parts_of_def)
  show "decode_denial packet received = Inr d \<longleftrightarrow> (\<exists>h. parse_header packet received = Inr h \<and>
      denial_body_of (hdr_opcode h) (hdr_object h) (hdr_payload h)
        = Inr ((dec_message d, dec_descriptors d), []) \<and>
      hdr_fd_count h = length (dec_descriptors d) \<and> received = length (dec_descriptors d))"
    for packet received d
    by (cases d)
      (auto simp: decode_denial_def denial_body_of_def Let_def result_simps split: prod.splits)
  show "denial_body_of opc ob bs = Inr ((m, ds), rest) \<longleftrightarrow> denial_wf m \<and>
      (\<exists>payload. denial_parts_of m = Inr (opc, ob, payload, ds) \<and> bs = payload @ rest)"
    for opc ob bs m ds rest
    using decode_denial_sound [of opc ob bs m rest] decode_denial_complete
    by (auto simp: denial_body_of_def denial_parts_of_iff rd_bind_Inr_iff)
  show "length p \<le> 4134 \<and> length ds \<le> MAX_PACKET_DESCRIPTORS"
    if "denial_parts_of m = Inr (opc, ob, p, ds)" for m opc ob p ds
    using that denial_parts_bounds by (auto simp: denial_parts_of_iff)
qed

subsection \<open>Properties\<close>

text \<open>
  C14. Every message \<open>encode_denial\<close> accepts, with an error text that is valid UTF-8 as every Rust
  string is, is decoded by \<open>decode_denial\<close> to the same message and the same descriptor roles.
\<close>

theorem denial_round_trip:
  assumes "encode_denial m = Inr pkt" and "denial_wf m"
  shows "decode_denial (pkt_bytes pkt) (length (pkt_descriptors pkt)) =
    Inr \<lparr>dec_message = m, dec_descriptors = pkt_descriptors pkt\<rparr>"
  using assms by (rule denial.round_trip)

definition example_error :: denial_message where
  "example_error = ErrorMessage (Some 7) InvalidState 8 [0x73, 0x74, 0x61, 0x6C, 0x65]"

definition example_error_packet :: encoded_packet where
  "example_error_packet = \<lparr>pkt_bytes =
     [0x44, 0x4C, 0x4F, 0x4D, 1, 0, 3, 0, 0x0A, 0x80, 0, 0, 0, 0, 0, 0,
      7, 0, 0, 0, 0, 0, 0, 0, 11, 0, 0, 0, 0, 0, 0, 0,
      6, 0, 8, 0, 5, 0, 0x73, 0x74, 0x61, 0x6C, 0x65], pkt_descriptors = []\<rparr>"

lemma encode_example_error: "encode_denial example_error = Inr example_error_packet"
  by (simp add: example_error_def example_error_packet_def encode_denial_def encode_error_def
      w_string_def string_bytes_def packet_write_defs)

theorem denial_round_trip_witness:
  "decode_denial (pkt_bytes example_error_packet) 0 =
     Inr \<lparr>dec_message = example_error, dec_descriptors = []\<rparr>"
proof -
  have "denial_wf example_error" by (simp add: example_error_def)
  from denial_round_trip [OF encode_example_error this] show ?thesis
    by (simp add: example_error_packet_def)
qed

text \<open>
  C20. The host-to-Android decoder is canonical too: what it accepts is the packet \<open>encode_denial\<close>
  builds for the decoded message, up to the header's minor version.
\<close>

theorem denial_canonical:
  assumes "decode_denial packet received = Inr d"
  shows "\<exists>pkt. encode_denial (dec_message d) = Inr pkt \<and>
    pkt_descriptors pkt = dec_descriptors d \<and> received = length (dec_descriptors d) \<and>
    length (pkt_bytes pkt) = length packet \<and>
    take 6 (pkt_bytes pkt) = take 6 packet \<and> drop 8 (pkt_bytes pkt) = drop 8 packet"
  using assms by (rule denial.canonical)

theorem denial_canonical_witness:
  "\<exists>pkt. encode_denial (DisplayPower True) = Inr pkt \<and> pkt_descriptors pkt = [] \<and>
     take 6 (pkt_bytes pkt) = [0x44, 0x4C, 0x4F, 0x4D, 1, 0] \<and>
     drop 8 (pkt_bytes pkt) = [0x0E, 0x80, 0, 0, 0, 0, 0, 0, 0, 0, 0, 0, 0, 0, 0, 0, 1, 0, 0, 0,
       0, 0, 0, 0, 1]"
proof -
  have "decode_denial [0x44, 0x4C, 0x4F, 0x4D, 1, 0, 9, 0, 0x0E, 0x80, 0, 0, 0, 0, 0, 0,
      0, 0, 0, 0, 0, 0, 0, 0, 1, 0, 0, 0, 0, 0, 0, 0, 1] 0
      = Inr \<lparr>dec_message = DisplayPower True, dec_descriptors = []\<rparr>"
    by (simp add: decode_denial_def decode_denial_body_def decode_display_power_def decode_bool_def
        packet_read_defs)
  from denial_canonical [OF this] show ?thesis by auto
qed

text \<open>
  Framing never fails in this direction either: \<open>encode_denial\<close> rejects a message only where one
  of its own checks does, and its packets respect the bounds.
\<close>

theorem denial_framing_total:
  "case encode_denial m of
     Inl e \<Rightarrow> encode_denial_parts m = Inl e
   | Inr pkt \<Rightarrow> is_ok (encode_denial_parts m) \<and>
       HEADER_BYTES \<le> length (pkt_bytes pkt) \<and> length (pkt_bytes pkt) \<le> MAX_PACKET_BYTES \<and>
       length (pkt_descriptors pkt) \<le> MAX_PACKET_DESCRIPTORS"
proof -
  have "denial_parts_of m = Inl e \<longleftrightarrow> encode_denial_parts m = Inl e" for e
    by (cases "encode_denial_parts m") (auto simp: denial_parts_of_def)
  moreover have "is_ok (denial_parts_of m) \<longleftrightarrow> is_ok (encode_denial_parts m)"
    by (cases "encode_denial_parts m") (auto simp: denial_parts_of_def)
  ultimately show ?thesis
    using denial.encode_error denial.encode_ok_iff [of m] denial.packet_bounds
    by (auto split: sum.splits)
qed

lemma android_opcode_low: "encode_android_parts m = Inr (opc, ob, p, ds) \<Longrightarrow> opc < 0x8000"
  by (cases m) (auto simp: android_encoder_defs result_simps opcodes split: if_splits)

lemma denial_opcode_high: "encode_denial_parts m = Inr (opc, ob, p) \<Longrightarrow> 0x8000 \<le> opc"
  by (cases m) (auto simp: denial_encoder_defs result_simps opcodes split: if_splits)

lemma denial_body_low: "opc < 0x8000 \<Longrightarrow> decode_denial_body opc ob bs = Inl (UnknownOpcode opc)"
  by (auto simp: decode_denial_body_def opcodes)

lemma android_body_high: "0x8000 \<le> opc \<Longrightarrow> decode_android_body opc ob bs = Inl (UnknownOpcode opc)"
  by (auto simp: decode_android_body_def opcodes word_le_nat_alt)

text \<open>
  Direction confusion is rejected: a packet of one direction, presented with its descriptors to
  the decoder of the other direction, fails as an unknown opcode.
\<close>

theorem direction_confusion_rejected:
  "(case encode_android am of Inl _ \<Rightarrow> True | Inr pkt \<Rightarrow>
     \<exists>opc. decode_denial (pkt_bytes pkt) (length (pkt_descriptors pkt)) = Inl (UnknownOpcode opc)) \<and>
   (case encode_denial dm of Inl _ \<Rightarrow> True | Inr pkt \<Rightarrow>
     \<exists>opc. decode_android (pkt_bytes pkt) (length (pkt_descriptors pkt)) = Inl (UnknownOpcode opc))"
  by (auto simp: android.encode_Inr_iff denial.encode_Inr_iff denial_parts_of_iff decode_denial_def
      decode_android_def parse_finish_packet denial_body_low android_body_high
      dest: android_opcode_low denial_opcode_high split: sum.split)

end
