(* ===== verification/Task_State.thy ===== *)
theory Task_State
  imports Denial_Codec
begin

section \<open>The host-side presentation state of one task\<close>

text \<open>
  \<open>TaskPresentationState\<close> of \<open>graphics/droidloom-denial-protocol/src/lib.rs\<close>: what the host keeps for
  one Android task object between the packet codec and the descriptor imports.  Operations return
  their result beside the state they leave, on the error paths too.  The state machine is an
  interpretation of \<open>frame_owner\<close>, so it keeps the same release-before-reuse ledger as the Android
  side, and an interpretation of \<open>point_source\<close>, the contract of a stream of timeline points.
\<close>

subsection \<open>Data\<close>

record accepted_wire_frame =
  awf_object :: task_object_id
  awf_frame :: frame_id
  awf_buffer :: buffer_id
  awf_acquire_point :: u64
  awf_release_point :: u64
  awf_damage :: "damage list"

datatype task_state_error =
    WrongObject task_object_id task_object_id
  | TimelinesAlreadyBound
  | TimelinesUnbound
  | FeedbackRegression u32 u32
  | MissingConfigure
  | StaleConfigure u32 u32
  | UnacknowledgedConfigure
  | DuplicateBuffer buffer_id
  | BufferLimit
  | UnknownBuffer buffer_id
  | BufferInFlight buffer_id
  | DuplicateFrame frame_id
  | UnknownFrame frame_id
  | ReleaseMismatch
  | TimelineRegression string u64 u64
  | SizeMismatch
  | UnsupportedFormat
  | InvalidDamage
  | TaskWire wire_error

record pending_wire_frame =
  pw_buffer :: buffer_id
  pw_release_point :: u64

record task_state =
  ts_object :: task_object_id
  ts_timelines_bound :: bool
  ts_feedback_generation :: u32
  ts_feedback :: "format_modifier fset"
  ts_configure_value :: "(u32 \<times> u32 \<times> u32) option"
  ts_acknowledged_serial :: "u32 option"
  ts_buffers :: "(buffer_id, buffer_metadata) fmap"
  ts_in_flight :: "(frame_id, pending_wire_frame) fmap"
  ts_busy_buffers :: "buffer_id fset"
  ts_last_acquire_point :: u64
  ts_last_release_point :: u64

subsection \<open>Operations\<close>

definition require_newer_point :: "string \<Rightarrow> u64 \<Rightarrow> u64 \<Rightarrow> (task_state_error, unit) result" where
  "require_newer_point timeline previous actual =
     (if previous < actual then Inr () else Inl (TimelineRegression timeline previous actual))"

text \<open>Sequence arithmetic modulo \<open>2 ^ 32\<close>: \<open>actual\<close> is at most half the number space behind.\<close>

definition serial_precedes :: "u32 \<Rightarrow> u32 \<Rightarrow> bool" where
  "serial_precedes actual expected = (actual \<noteq> expected \<and> expected - actual < push_bit 31 1)"

definition fresh_state :: "task_object_id \<Rightarrow> task_state" where
  "fresh_state object = \<lparr>ts_object = object, ts_timelines_bound = False,
     ts_feedback_generation = 0, ts_feedback = {||}, ts_configure_value = None,
     ts_acknowledged_serial = None, ts_buffers = fmempty, ts_in_flight = fmempty,
     ts_busy_buffers = {||}, ts_last_acquire_point = 0, ts_last_release_point = 0\<rparr>"

definition ts_new :: "task_object_id \<Rightarrow> (task_state_error, task_state) result" where
  "ts_new object =
     bind_result (map_err TaskWire (valid_object object)) (\<lambda>_. Inr (fresh_state object))"

definition ts_bind_timelines :: "task_state \<Rightarrow> (task_state_error, unit) result \<times> task_state" where
  "ts_bind_timelines s =
     (if ts_timelines_bound s then (Inl TimelinesAlreadyBound, s)
      else (Inr (), s\<lparr>ts_timelines_bound := True\<rparr>))"

definition ts_replace_feedback ::
  "task_state \<Rightarrow> u32 \<Rightarrow> format_modifier list \<Rightarrow> (task_state_error, unit) result \<times> task_state" where
  "ts_replace_feedback s generation formats =
     (if generation \<le> ts_feedback_generation s
      then (Inl (FeedbackRegression (ts_feedback_generation s) generation), s)
      else let feedback = fset_of_list formats in
      if feedback = {||} \<or> MAX_FORMATS < fcard feedback
      then (Inl (TaskWire (Limit ''format feedback'')), s)
      else if \<exists>f \<in> set formats. modifier f = U64_MAX
      then (Inl (TaskWire (InvalidEnum ''DRM modifier'' U64_MAX)), s)
      else (Inr (), s\<lparr>ts_feedback_generation := generation, ts_feedback := feedback\<rparr>))"

definition ts_configure ::
  "task_state \<Rightarrow> u32 \<Rightarrow> u32 \<Rightarrow> u32 \<Rightarrow> u32 \<Rightarrow> (task_state_error, unit) result \<times> task_state" where
  "ts_configure s serial width height refresh_millihz =
     (case validate_configure serial width height 1 1 refresh_millihz of
        Inl e \<Rightarrow> (Inl (TaskWire e), s)
      | Inr _ \<Rightarrow>
          let s1 = (if map_option fst (ts_configure_value s) \<noteq> Some serial
                    then s\<lparr>ts_acknowledged_serial := None\<rparr> else s)
          in (Inr (), s1\<lparr>ts_configure_value := Some (serial, width, height)\<rparr>))"

definition ts_acknowledge_configure ::
  "task_state \<Rightarrow> u32 \<Rightarrow> (task_state_error, unit) result \<times> task_state" where
  "ts_acknowledge_configure s serial =
     (case ts_configure_value s of
        None \<Rightarrow> (Inl MissingConfigure, s)
      | Some (expected, _, _) \<Rightarrow>
          if serial = expected then (Inr (), s\<lparr>ts_acknowledged_serial := Some serial\<rparr>)
          else if serial_precedes serial expected then (Inr (), s)
          else (Inl (StaleConfigure expected serial), s))"

definition ts_register_buffer ::
  "task_state \<Rightarrow> buffer_metadata \<Rightarrow> (task_state_error, unit) result \<times> task_state" where
  "ts_register_buffer s buffer =
     (case buffer_validate buffer of
        Inl e \<Rightarrow> (Inl (TaskWire (WireTransport e)), s)
      | Inr _ \<Rightarrow>
          if buf_id buffer = 0 \<or> modifier (buf_format buffer) = U64_MAX
          then (Inl (TaskWire (InvalidEnum ''buffer identity or modifier'' (buf_id buffer))), s)
          else if buf_id buffer |\<in>| fmdom (ts_buffers s)
          then (Inl (DuplicateBuffer (buf_id buffer)), s)
          else if unat MAX_BUFFERS_PER_TASK \<le> fmlen (ts_buffers s) then (Inl BufferLimit, s)
          else (Inr (), s\<lparr>ts_buffers := fmupd (buf_id buffer) buffer (ts_buffers s)\<rparr>))"

definition ts_unregister_buffer ::
  "task_state \<Rightarrow> buffer_id \<Rightarrow> (task_state_error, buffer_metadata) result \<times> task_state" where
  "ts_unregister_buffer s buffer =
     (if buffer |\<in>| ts_busy_buffers s then (Inl (BufferInFlight buffer), s)
      else case fmlookup (ts_buffers s) buffer of
        None \<Rightarrow> (Inl (UnknownBuffer buffer), s)
      | Some metadata \<Rightarrow> (Inr metadata, s\<lparr>ts_buffers := fmdrop buffer (ts_buffers s)\<rparr>))"

definition ts_require_object :: "task_state \<Rightarrow> task_object_id \<Rightarrow> (task_state_error, unit) result" where
  "ts_require_object s object =
     (if object = ts_object s then Inr () else Inl (WrongObject (ts_object s) object))"

definition damage_outside :: "u32 \<Rightarrow> u32 \<Rightarrow> damage \<Rightarrow> bool" where
  "damage_outside width height rect =
     (dmg_width rect = 0 \<or> dmg_height rect = 0 \<or>
      end_exceeds (dmg_x rect) (dmg_width rect) width \<or>
      end_exceeds (dmg_y rect) (dmg_height rect) height)"

text \<open>The checks of \<open>present\<close>, in order, and the state it leaves when they pass.\<close>

definition present_check ::
  "task_state \<Rightarrow> task_object_id \<Rightarrow> frame_id \<Rightarrow> buffer_id \<Rightarrow> u32 \<Rightarrow> u64 \<Rightarrow> u64 \<Rightarrow> damage list
     \<Rightarrow> (task_state_error, unit) result" where
  "present_check s object frame buffer configure_serial acquire_point release_point damage =
     bind_result (ts_require_object s object) (\<lambda>_.
     bind_result (reject_if (\<not> ts_timelines_bound s) TimelinesUnbound) (\<lambda>_.
     bind_result (ok_or MissingConfigure (ts_configure_value s)) (\<lambda>(expected_serial, width, height).
     bind_result (reject_if (configure_serial \<noteq> expected_serial)
       (StaleConfigure expected_serial configure_serial)) (\<lambda>_.
     bind_result (reject_if (ts_acknowledged_serial s \<noteq> Some expected_serial)
       UnacknowledgedConfigure) (\<lambda>_.
     bind_result (ok_or (UnknownBuffer buffer) (fmlookup (ts_buffers s) buffer)) (\<lambda>metadata.
     bind_result (reject_if ((buf_width metadata, buf_height metadata) \<noteq> (width, height))
       SizeMismatch) (\<lambda>_.
     bind_result (reject_if (buf_format metadata |\<notin>| ts_feedback s) UnsupportedFormat) (\<lambda>_.
     bind_result (reject_if (buffer |\<in>| ts_busy_buffers s) (BufferInFlight buffer)) (\<lambda>_.
     bind_result (reject_if (frame |\<in>| fmdom (ts_in_flight s)) (DuplicateFrame frame)) (\<lambda>_.
     bind_result (require_newer_point ''acquire'' (ts_last_acquire_point s) acquire_point) (\<lambda>_.
     bind_result (require_newer_point ''release'' (ts_last_release_point s) release_point) (\<lambda>_.
     reject_if (MAX_DAMAGE_RECTS < length damage
       \<or> (\<exists>rect \<in> set damage. damage_outside width height rect)) InvalidDamage))))))))))))"

definition ts_present ::
  "task_state \<Rightarrow> task_object_id \<Rightarrow> frame_id \<Rightarrow> buffer_id \<Rightarrow> u32 \<Rightarrow> u64 \<Rightarrow> u64 \<Rightarrow> damage list
     \<Rightarrow> (task_state_error, accepted_wire_frame) result \<times> task_state" where
  "ts_present s object frame buffer configure_serial acquire_point release_point damage =
     (case present_check s object frame buffer configure_serial acquire_point release_point damage of
        Inl e \<Rightarrow> (Inl e, s)
      | Inr _ \<Rightarrow>
          (Inr \<lparr>awf_object = object, awf_frame = frame, awf_buffer = buffer,
                awf_acquire_point = acquire_point, awf_release_point = release_point,
                awf_damage = damage\<rparr>,
           s\<lparr>ts_last_acquire_point := acquire_point,
             ts_last_release_point := release_point,
             ts_busy_buffers := finsert buffer (ts_busy_buffers s),
             ts_in_flight := fmupd frame \<lparr>pw_buffer = buffer, pw_release_point = release_point\<rparr>
               (ts_in_flight s)\<rparr>))"

definition discard_check ::
  "task_state \<Rightarrow> task_object_id \<Rightarrow> frame_id \<Rightarrow> buffer_id \<Rightarrow> u32 \<Rightarrow> u64 \<Rightarrow> u64
     \<Rightarrow> (task_state_error, unit) result" where
  "discard_check s object frame buffer configure_serial acquire_point release_point =
     bind_result (ts_require_object s object) (\<lambda>_.
     bind_result (reject_if (\<not> ts_timelines_bound s) TimelinesUnbound) (\<lambda>_.
     bind_result (ok_or MissingConfigure (ts_configure_value s)) (\<lambda>(expected_serial, _, _).
     bind_result (reject_if (\<not> serial_precedes configure_serial expected_serial)
       (StaleConfigure expected_serial configure_serial)) (\<lambda>_.
     bind_result (reject_if (buffer |\<in>| ts_busy_buffers s) (BufferInFlight buffer)) (\<lambda>_.
     bind_result (reject_if (frame |\<in>| fmdom (ts_in_flight s)) (DuplicateFrame frame)) (\<lambda>_.
     bind_result (require_newer_point ''acquire'' (ts_last_acquire_point s) acquire_point) (\<lambda>_.
     require_newer_point ''release'' (ts_last_release_point s) release_point)))))))"

definition ts_discard_superseded_present ::
  "task_state \<Rightarrow> task_object_id \<Rightarrow> frame_id \<Rightarrow> buffer_id \<Rightarrow> u32 \<Rightarrow> u64 \<Rightarrow> u64
     \<Rightarrow> (task_state_error, denial_message) result \<times> task_state" where
  "ts_discard_superseded_present s object frame buffer configure_serial acquire_point release_point =
     (case discard_check s object frame buffer configure_serial acquire_point release_point of
        Inl e \<Rightarrow> (Inl e, s)
      | Inr _ \<Rightarrow>
          (Inr (BufferReleased (ts_object s) frame buffer release_point),
           s\<lparr>ts_last_acquire_point := acquire_point, ts_last_release_point := release_point\<rparr>))"

text \<open>The lookup and tuple comparison \<open>release\<close> and \<open>cancel_unsubmitted\<close> both begin with.\<close>

definition pending_check ::
  "task_state \<Rightarrow> frame_id \<Rightarrow> buffer_id \<Rightarrow> u64 \<Rightarrow> (task_state_error, unit) result" where
  "pending_check s frame buffer release_point =
     bind_result (ok_or (UnknownFrame frame) (fmlookup (ts_in_flight s) frame)) (\<lambda>pending.
     reject_if (pw_buffer pending \<noteq> buffer \<or> pw_release_point pending \<noteq> release_point)
       ReleaseMismatch)"

definition drop_frame :: "task_state \<Rightarrow> frame_id \<Rightarrow> buffer_id \<Rightarrow> task_state" where
  "drop_frame s frame buffer =
     s\<lparr>ts_in_flight := fmdrop frame (ts_in_flight s),
       ts_busy_buffers := ts_busy_buffers s |-| {|buffer|}\<rparr>"

definition ts_release ::
  "task_state \<Rightarrow> frame_id \<Rightarrow> buffer_id \<Rightarrow> u64 \<Rightarrow> (task_state_error, denial_message) result \<times> task_state"
  where
  "ts_release s frame buffer release_point =
     (case pending_check s frame buffer release_point of
        Inl e \<Rightarrow> (Inl e, s)
      | Inr _ \<Rightarrow> (Inr (BufferReleased (ts_object s) frame buffer release_point),
                  drop_frame s frame buffer))"

definition ts_cancel_unsubmitted ::
  "task_state \<Rightarrow> frame_id \<Rightarrow> buffer_id \<Rightarrow> u64 \<Rightarrow> (task_state_error, unit) result \<times> task_state" where
  "ts_cancel_unsubmitted s frame buffer release_point =
     (case pending_check s frame buffer release_point of
        Inl e \<Rightarrow> (Inl e, s)
      | Inr _ \<Rightarrow> (Inr (), drop_frame s frame buffer))"

definition ts_registered_buffer_count :: "task_state \<Rightarrow> nat" where
  "ts_registered_buffer_count s = fmlen (ts_buffers s)"

definition ts_in_flight_count :: "task_state \<Rightarrow> nat" where
  "ts_in_flight_count s = fmlen (ts_in_flight s)"

subsection \<open>Invariant\<close>

definition ts_ledger :: "task_state \<Rightarrow> (frame_id, buffer_id) fmap" where
  "ts_ledger s = fmmap pw_buffer (ts_in_flight s)"

definition ts_points :: "task_state \<Rightarrow> (frame_id, u64) fmap" where
  "ts_points s = fmmap pw_release_point (ts_in_flight s)"

text \<open>Frames: the busy set is exact, and each frame in flight has a buffer and a point of its own.\<close>

definition ts_frames_inv :: "task_state \<Rightarrow> bool" where
  "ts_frames_inv s \<longleftrightarrow>
     ts_busy_buffers s = fmran (ts_ledger s) \<and> exclusive (ts_ledger s) \<and>
     exclusive (ts_points s) \<and> (\<forall>p. p |\<in>| fmran (ts_points s) \<longrightarrow> p \<le> ts_last_release_point s) \<and>
     (ts_in_flight s \<noteq> fmempty \<longrightarrow> ts_timelines_bound s)"

text \<open>Cache: bounded, keyed by identity, valid, and never without a buffer that is in use.\<close>

definition ts_cache_inv :: "task_state \<Rightarrow> bool" where
  "ts_cache_inv s \<longleftrightarrow>
     fmlen (ts_buffers s) \<le> unat MAX_BUFFERS_PER_TASK \<and>
     (\<forall>k b. fmlookup (ts_buffers s) k = Some b \<longrightarrow> buf_id b = k \<and> buffer_wire_ok b) \<and>
     ts_busy_buffers s |\<subseteq>| fmdom (ts_buffers s)"

text \<open>Configuration: valid dimensions, an acknowledgement of the latest serial, sound feedback.\<close>

definition ts_config_inv :: "task_state \<Rightarrow> bool" where
  "ts_config_inv s \<longleftrightarrow>
     ts_object s \<noteq> 0 \<and>
     (\<forall>serial w h. ts_configure_value s = Some (serial, w, h) \<longrightarrow>
        serial \<noteq> 0 \<and> 0 < w \<and> w \<le> 16384 \<and> 0 < h \<and> h \<le> 16384) \<and>
     (\<forall>n. ts_acknowledged_serial s = Some n \<longrightarrow> map_option fst (ts_configure_value s) = Some n) \<and>
     fcard (ts_feedback s) \<le> MAX_FORMATS \<and>
     (\<forall>f. f |\<in>| ts_feedback s \<longrightarrow> modifier f \<noteq> U64_MAX) \<and>
     (ts_feedback_generation s = 0 \<longleftrightarrow> ts_feedback s = {||})"

definition ts_inv :: "task_state \<Rightarrow> bool" where
  "ts_inv s \<longleftrightarrow> ts_frames_inv s \<and> ts_cache_inv s \<and> ts_config_inv s"

datatype task_op =
    TsBindTimelines
  | TsReplaceFeedback u32 "format_modifier list"
  | TsConfigure u32 u32 u32 u32
  | TsAcknowledge u32
  | TsRegister buffer_metadata
  | TsUnregister buffer_id
  | TsPresent task_object_id frame_id buffer_id u32 u64 u64 "damage list"
  | TsDiscard task_object_id frame_id buffer_id u32 u64 u64
  | TsRelease frame_id buffer_id u64
  | TsCancel frame_id buffer_id u64

fun ts_step :: "task_state \<Rightarrow> task_op \<Rightarrow> task_state" where
  "ts_step s TsBindTimelines = snd (ts_bind_timelines s)"
| "ts_step s (TsReplaceFeedback generation formats) =
     snd (ts_replace_feedback s generation formats)"
| "ts_step s (TsConfigure serial w h refresh) = snd (ts_configure s serial w h refresh)"
| "ts_step s (TsAcknowledge serial) = snd (ts_acknowledge_configure s serial)"
| "ts_step s (TsRegister buffer) = snd (ts_register_buffer s buffer)"
| "ts_step s (TsUnregister buffer) = snd (ts_unregister_buffer s buffer)"
| "ts_step s (TsPresent ob f b serial acq rel ds) = snd (ts_present s ob f b serial acq rel ds)"
| "ts_step s (TsDiscard ob f b serial acq rel) =
     snd (ts_discard_superseded_present s ob f b serial acq rel)"
| "ts_step s (TsRelease f b point) = snd (ts_release s f b point)"
| "ts_step s (TsCancel f b point) = snd (ts_cancel_unsubmitted s f b point)"

text \<open>A discarded frame is taken over and given back in one step.\<close>

fun ts_events :: "task_state \<Rightarrow> task_op \<Rightarrow> (frame_id, buffer_id) ledger_event list" where
  "ts_events s (TsPresent ob f b serial acq rel ds) =
     (if is_ok (fst (ts_present s ob f b serial acq rel ds)) then [Reserve f b] else [])"
| "ts_events s (TsDiscard ob f b serial acq rel) =
     (if is_ok (fst (ts_discard_superseded_present s ob f b serial acq rel))
      then [Reserve f b, Retire f b] else [])"
| "ts_events s (TsRelease f b point) =
     (if is_ok (fst (ts_release s f b point)) then [Retire f b] else [])"
| "ts_events s (TsCancel f b point) =
     (if is_ok (fst (ts_cancel_unsubmitted s f b point)) then [Retire f b] else [])"
| "ts_events s _ = []"

text \<open>The points an operation consumes on the two timelines.\<close>

fun ts_acquire_points :: "task_state \<Rightarrow> task_op \<Rightarrow> u64 list" where
  "ts_acquire_points s (TsPresent ob f b serial acq rel ds) =
     (if is_ok (fst (ts_present s ob f b serial acq rel ds)) then [acq] else [])"
| "ts_acquire_points s (TsDiscard ob f b serial acq rel) =
     (if is_ok (fst (ts_discard_superseded_present s ob f b serial acq rel)) then [acq] else [])"
| "ts_acquire_points s _ = []"

fun ts_release_points :: "task_state \<Rightarrow> task_op \<Rightarrow> u64 list" where
  "ts_release_points s (TsPresent ob f b serial acq rel ds) =
     (if is_ok (fst (ts_present s ob f b serial acq rel ds)) then [rel] else [])"
| "ts_release_points s (TsDiscard ob f b serial acq rel) =
     (if is_ok (fst (ts_discard_superseded_present s ob f b serial acq rel)) then [rel] else [])"
| "ts_release_points s _ = []"

subsection \<open>Acceptance\<close>

lemma require_newer_point_Inr_iff [result_simps]:
  "require_newer_point t p a = Inr u \<longleftrightarrow> p < a"
  by (simp add: require_newer_point_def)

lemma ts_require_object_Inr_iff [result_simps]:
  "ts_require_object s ob = Inr u \<longleftrightarrow> ob = ts_object s"
  by (simp add: ts_require_object_def)

lemma damage_outside_iff:
  "\<not> damage_outside w h d \<longleftrightarrow> dmg_width d \<noteq> 0 \<and> dmg_height d \<noteq> 0 \<and>
     unat (dmg_x d) + unat (dmg_width d) \<le> unat w \<and> unat (dmg_y d) + unat (dmg_height d) \<le> unat h"
  by (auto simp: damage_outside_def end_exceeds_iff)

lemma present_check_iff:
  "present_check s ob f b serial acq rel ds = Inr u \<longleftrightarrow>
     (\<exists>w h m. ob = ts_object s \<and> ts_timelines_bound s \<and>
        ts_configure_value s = Some (serial, w, h) \<and> ts_acknowledged_serial s = Some serial \<and>
        fmlookup (ts_buffers s) b = Some m \<and> buf_width m = w \<and> buf_height m = h \<and>
        buf_format m |\<in>| ts_feedback s \<and> b |\<notin>| ts_busy_buffers s \<and> f |\<notin>| fmdom (ts_in_flight s) \<and>
        ts_last_acquire_point s < acq \<and> ts_last_release_point s < rel \<and>
        length ds \<le> MAX_DAMAGE_RECTS \<and> (\<forall>d \<in> set ds. \<not> damage_outside w h d))"
  by (auto simp: present_check_def result_simps not_less)

lemma discard_check_iff:
  "discard_check s ob f b serial acq rel = Inr u \<longleftrightarrow>
     (\<exists>latest w h. ob = ts_object s \<and> ts_timelines_bound s \<and>
        ts_configure_value s = Some (latest, w, h) \<and> serial_precedes serial latest \<and>
        b |\<notin>| ts_busy_buffers s \<and> f |\<notin>| fmdom (ts_in_flight s) \<and>
        ts_last_acquire_point s < acq \<and> ts_last_release_point s < rel)"
  by (auto simp: discard_check_def result_simps)

lemma pending_check_iff [result_simps]:
  "pending_check s f b point = Inr u \<longleftrightarrow>
     fmlookup (ts_in_flight s) f = Some \<lparr>pw_buffer = b, pw_release_point = point\<rparr>"
  by (auto simp: pending_check_def result_simps)

lemma ts_ok_iff:
  "is_ok (fst (ts_present s ob f b serial acq rel ds)) \<longleftrightarrow>
     present_check s ob f b serial acq rel ds = Inr ()"
  "is_ok (fst (ts_discard_superseded_present s ob f b serial acq rel)) \<longleftrightarrow>
     discard_check s ob f b serial acq rel = Inr ()"
  "is_ok (fst (ts_release s f b point)) \<longleftrightarrow> pending_check s f b point = Inr ()"
  "is_ok (fst (ts_cancel_unsubmitted s f b point)) \<longleftrightarrow> pending_check s f b point = Inr ()"
  by (auto simp: ts_present_def ts_discard_superseded_present_def ts_release_def
      ts_cancel_unsubmitted_def split: sum.splits)

subsection \<open>Preservation\<close>

lemma fmdom_ledgers [simp]: "fmdom (ts_ledger s) = fmdom (ts_in_flight s)"
  "fmdom (ts_points s) = fmdom (ts_in_flight s)"
  by (simp_all add: ts_ledger_def ts_points_def)

lemma frames_inv_cong:
  assumes "ts_frames_inv s" and "ts_in_flight s' = ts_in_flight s"
    and "ts_busy_buffers s' = ts_busy_buffers s"
    and "ts_last_release_point s \<le> ts_last_release_point s'"
    and "ts_timelines_bound s \<Longrightarrow> ts_timelines_bound s'"
  shows "ts_frames_inv s'"
  using assms by (auto simp: ts_frames_inv_def ts_ledger_def ts_points_def)

lemma frames_inv_reserve:
  assumes inv: "ts_frames_inv s" and "ts_timelines_bound s" and fresh: "f |\<notin>| fmdom (ts_in_flight s)"
    and idle: "b |\<notin>| ts_busy_buffers s" and newer: "ts_last_release_point s < rel"
  shows "ts_frames_inv (s\<lparr>ts_last_acquire_point := acq, ts_last_release_point := rel,
    ts_busy_buffers := finsert b (ts_busy_buffers s),
    ts_in_flight := fmupd f \<lparr>pw_buffer = b, pw_release_point = rel\<rparr> (ts_in_flight s)\<rparr>)" (is "ts_frames_inv ?s")
proof -
  have L: "ts_ledger ?s = fmupd f b (ts_ledger s)" and P: "ts_points ?s = fmupd f rel (ts_points s)"
    by (simp_all add: ts_ledger_def ts_points_def fmmap_fmupd)
  have "rel |\<notin>| fmran (ts_points s)"
    using inv newer unfolding ts_frames_inv_def by (meson leD)
  then have "exclusive (ts_ledger ?s)" "exclusive (ts_points ?s)"
    using inv idle unfolding L P ts_frames_inv_def by (simp_all add: exclusive_reserve)
  moreover have "fmran (ts_ledger ?s) = finsert b (fmran (ts_ledger s))"
    "fmran (ts_points ?s) = finsert rel (fmran (ts_points s))"
    using fresh unfolding L P by (simp_all add: fmran_reserve)
  ultimately show ?thesis
    using assms unfolding ts_frames_inv_def by (auto intro: less_imp_le dest: order_trans)
qed

lemma frames_inv_drop:
  assumes inv: "ts_frames_inv s"
    and hit: "fmlookup (ts_in_flight s) f = Some \<lparr>pw_buffer = b, pw_release_point = point\<rparr>"
  shows "ts_frames_inv (drop_frame s f b)" (is "ts_frames_inv ?s")
proof -
  have L: "ts_ledger ?s = fmdrop f (ts_ledger s)" and P: "ts_points ?s = fmdrop f (ts_points s)"
    by (simp_all add: ts_ledger_def ts_points_def drop_frame_def)
  have "fmlookup (ts_ledger s) f = Some b" "fmlookup (ts_points s) f = Some point"
    using hit by (simp_all add: ts_ledger_def ts_points_def)
  then have "fmran (ts_ledger ?s) = fmran (ts_ledger s) |-| {|b|}"
    "fmran (ts_points ?s) = fmran (ts_points s) |-| {|point|}"
    using inv unfolding L P ts_frames_inv_def by (simp_all add: fmran_retire del: fmran_drop)
  moreover have "exclusive (ts_ledger ?s)" "exclusive (ts_points ?s)"
    using inv unfolding L P ts_frames_inv_def by (simp_all add: exclusive_retire)
  moreover have "ts_in_flight s \<noteq> fmempty"
    using hit by auto
  ultimately show ?thesis
    using inv unfolding ts_frames_inv_def by (simp add: drop_frame_def)
qed

lemma frames_inv_step: "ts_frames_inv s \<Longrightarrow> ts_frames_inv (ts_step s op)"
proof (cases op)
  case (TsPresent ob f b serial acq rel ds)
  assume "ts_frames_inv s"
  then show ?thesis
    using frames_inv_reserve [of s f b rel acq]
    by (auto simp: TsPresent ts_present_def present_check_iff split: sum.splits)
next
  case (TsDiscard ob f b serial acq rel)
  assume "ts_frames_inv s"
  then show ?thesis
    by (auto simp: TsDiscard ts_discard_superseded_present_def discard_check_iff
        intro: frames_inv_cong less_imp_le split: sum.splits)
qed (auto simp: ts_bind_timelines_def ts_replace_feedback_def ts_configure_def
      ts_acknowledge_configure_def ts_register_buffer_def ts_unregister_buffer_def ts_release_def
      ts_cancel_unsubmitted_def pending_check_iff Let_def frames_inv_drop
      intro: frames_inv_cong split: sum.splits option.splits if_splits)

lemma cache_inv_step: "ts_cache_inv s \<Longrightarrow> ts_cache_inv (ts_step s op)"
proof (cases op)
  case (TsRegister b)
  assume "ts_cache_inv s"
  then show ?thesis
    by (auto simp: TsRegister ts_register_buffer_def ts_cache_inv_def buffer_wire_ok_def fmlen_upd
        split: sum.splits if_splits)
next
  case (TsUnregister b)
  assume "ts_cache_inv s"
  then show ?thesis
    by (auto simp: TsUnregister ts_unregister_buffer_def ts_cache_inv_def fmlen_drop
        split: option.splits if_splits)
next
  case (TsPresent ob f b serial acq rel ds)
  assume "ts_cache_inv s"
  then show ?thesis
    by (auto simp: TsPresent ts_present_def present_check_iff ts_cache_inv_def fmdomI
        split: sum.splits)
qed (auto simp: ts_bind_timelines_def ts_replace_feedback_def ts_configure_def
      ts_acknowledge_configure_def ts_discard_superseded_present_def ts_release_def
      ts_cancel_unsubmitted_def drop_frame_def ts_cache_inv_def Let_def
      split: sum.splits option.splits if_splits)

lemma validate_configure_Inr_iff [result_simps]:
  "validate_configure serial w h num den refresh = Inr u \<longleftrightarrow>
     serial \<noteq> 0 \<and> 0 < w \<and> w \<le> 16384 \<and> 0 < h \<and> h \<le> 16384 \<and> num \<noteq> 0 \<and> den \<noteq> 0 \<and>
     0 < refresh \<and> refresh \<le> 1000000"
  by (auto simp: validate_configure_def not_less word_gt_0)

lemma config_inv_step: "ts_config_inv s \<Longrightarrow> ts_config_inv (ts_step s op)"
proof (cases op)
  case (TsReplaceFeedback generation formats)
  assume "ts_config_inv s"
  then show ?thesis
    by (auto simp: TsReplaceFeedback ts_replace_feedback_def ts_config_inv_def Let_def not_less
        fset_of_list_elem)
next
  case (TsConfigure serial w h refresh)
  assume inv: "ts_config_inv s"
  show ?thesis
  proof (cases "validate_configure serial w h 1 1 refresh")
    case (Inr u)
    then have "serial \<noteq> 0 \<and> 0 < w \<and> w \<le> 16384 \<and> 0 < h \<and> h \<le> 16384"
      by (simp add: validate_configure_Inr_iff)
    with inv Inr show ?thesis
      by (auto simp: TsConfigure ts_configure_def ts_config_inv_def Let_def)
  qed (use inv in \<open>simp add: TsConfigure ts_configure_def\<close>)
qed (auto simp: ts_bind_timelines_def ts_acknowledge_configure_def ts_register_buffer_def
      ts_unregister_buffer_def ts_present_def ts_discard_superseded_present_def ts_release_def
      ts_cancel_unsubmitted_def drop_frame_def ts_config_inv_def
      split: sum.splits option.splits if_splits)

lemma ts_inv_step: "ts_inv s \<Longrightarrow> ts_inv (ts_step s op)"
  by (simp add: ts_inv_def frames_inv_step cache_inv_step config_inv_step)

lemma ts_inv_fresh: "ob \<noteq> 0 \<Longrightarrow> ts_inv (fresh_state ob)"
  by (simp add: ts_inv_def ts_frames_inv_def ts_cache_inv_def ts_config_inv_def fresh_state_def
      ts_ledger_def ts_points_def fcard_fempty proto_consts)

lemma ts_step_refines:
  assumes "ts_inv s"
  shows "ledger_run (ts_ledger s) (ts_events s op) = Some (ts_ledger (ts_step s op))"
proof (cases op)
  case (TsPresent ob f b serial acq rel ds)
  then show ?thesis
    using assms
    by (auto simp: ts_ok_iff present_check_iff ts_inv_def ts_frames_inv_def ts_ledger_def ts_present_def
        fmmap_fmupd split: sum.splits)
next
  case (TsDiscard ob f b serial acq rel)
  then show ?thesis
    using assms
    by (auto simp: ts_ok_iff discard_check_iff ts_inv_def ts_frames_inv_def ts_ledger_def
        ts_discard_superseded_present_def fmdrop_fmupd_fresh fmdom_notD simp flip: fmdrop_fmmap
        split: sum.splits)
qed (auto simp: ts_ok_iff ts_ledger_def ts_bind_timelines_def ts_replace_feedback_def ts_configure_def
      ts_acknowledge_configure_def ts_register_buffer_def ts_unregister_buffer_def ts_release_def
      ts_cancel_unsubmitted_def drop_frame_def pending_check_iff Let_def
      split: sum.splits option.splits if_splits)

interpretation task: frame_owner ts_ledger ts_inv ts_step ts_events
proof unfold_locales
  show "exclusive (ts_ledger s)" if "ts_inv s" for s
    using that by (simp add: ts_inv_def ts_frames_inv_def)
qed (auto intro: ts_inv_step ts_step_refines)

lemma ts_point_steps:
  "ts_last_acquire_point (ts_step s op) = last (ts_last_acquire_point s # ts_acquire_points s op)"
  "ts_last_release_point (ts_step s op) = last (ts_last_release_point s # ts_release_points s op)"
  by (cases op; auto simp: ts_bind_timelines_def ts_replace_feedback_def ts_configure_def
      ts_acknowledge_configure_def ts_register_buffer_def ts_unregister_buffer_def ts_present_def
      ts_discard_superseded_present_def ts_release_def ts_cancel_unsubmitted_def drop_frame_def Let_def
      split: sum.splits option.splits if_splits)+

interpretation acquire_points: point_source ts_last_acquire_point ts_step ts_acquire_points
proof unfold_locales
  show "sorted_wrt (<) (ts_last_acquire_point s # ts_acquire_points s op)" for s op
    by (cases op) (auto simp: ts_ok_iff present_check_iff discard_check_iff)
qed (simp only: ts_point_steps order.refl)

interpretation release_points: point_source ts_last_release_point ts_step ts_release_points
proof unfold_locales
  show "sorted_wrt (<) (ts_last_release_point s # ts_release_points s op)" for s op
    by (cases op) (auto simp: ts_ok_iff present_check_iff discard_check_iff)
qed (simp only: ts_point_steps order.refl)

subsection \<open>Properties\<close>

text \<open>
  C9. Release before reuse on the host side: along any sequence of operations on a new
  \<open>TaskPresentationState\<close>, a buffer taken for frame \<open>f\<close> and later for frame \<open>g\<close> was given back for
  \<open>f\<close> in between, by \<open>release\<close>, \<open>cancel_unsubmitted\<close> or the discard of a superseded present.
\<close>

theorem task_release_before_reuse:
  assumes "ts_new ob = Inr s0"
    and "trace_ops ts_step ts_events s0 ops = es1 @ Reserve f b # es2 @ Reserve g b # es3"
  shows "Retire f b \<in> set es2"
proof -
  from assms(1) have "ts_inv s0"
    by (auto simp: ts_new_def result_simps intro: ts_inv_fresh)
  then show ?thesis
    using assms(2) by (rule task.release_before_reuse)
qed

text \<open>A task with feedback, bound timelines, an acknowledged configure and one cached buffer.\<close>

definition example_task_ops :: "task_op list" where
  "example_task_ops = [TsBindTimelines, TsReplaceFeedback 1 [example_format],
     TsConfigure 7 64 32 60000, TsAcknowledge 7, TsRegister (example_buffer 5)]"

lemmas example_task_defs = example_task_ops_def example_buffer_def example_format_def fresh_state_def
  ts_bind_timelines_def ts_replace_feedback_def ts_configure_def validate_configure_def
  ts_acknowledge_configure_def ts_register_buffer_def buffer_validate_def ts_present_def
  present_check_def ts_require_object_def require_newer_point_def damage_outside_def
  ts_discard_superseded_present_def discard_check_def serial_precedes_def ts_release_def
  pending_check_def drop_frame_def fmlen_def fcard_finsert_if fcard_fempty proto_consts

theorem task_release_before_reuse_witness:
  "\<exists>es. trace_ops ts_step ts_events (fresh_state 3) (example_task_ops @
      [TsPresent 3 1 5 7 10 20 [], TsRelease 1 5 20, TsPresent 3 2 5 7 11 21 []])
      = [] @ Reserve 1 5 # es @ Reserve 2 5 # [] \<and> Retire 1 5 \<in> set es"
proof -
  have new: "ts_new 3 = Inr (fresh_state 3)"
    by (simp add: ts_new_def valid_object_def)
  have trace: "trace_ops ts_step ts_events (fresh_state 3) (example_task_ops @
      [TsPresent 3 1 5 7 10 20 [], TsRelease 1 5 20, TsPresent 3 2 5 7 11 21 []])
      = [] @ Reserve 1 5 # [Retire 1 5] @ Reserve 2 5 # []"
    by (simp add: example_task_defs)
  with task_release_before_reuse [OF new trace] show ?thesis by blast
qed

text \<open>
  C15. The host-side invariant holds in every reachable state: the busy set is exactly the buffers of
  the frames in flight, each held by one frame with a release point of its own that was announced;
  every buffer in use is still cached; the cache holds at most 256 valid buffers under their own
  identities; the configure has legal dimensions, an acknowledgement names the latest configure and
  feedback has at most 256 explicit modifiers.
\<close>

theorem task_invariant:
  assumes "ob \<noteq> 0"
  shows "ts_inv (run_ops ts_step (fresh_state ob) ops)"
  using task.inv_run [OF ts_inv_fresh [OF assms]] .

theorem task_invariant_witness:
  "ts_inv (run_ops ts_step (fresh_state 3) (example_task_ops @ [TsPresent 3 1 5 7 10 20 []]))"
  by (rule task_invariant) simp

text \<open>
  \<open>present\<close> accepts a frame exactly under these conditions: right object, timelines bound, the
  latest configure named and acknowledged, a cached buffer of the configured size and of a format in
  the current feedback, buffer idle, frame new, both timeline points newer, at most 256 non-empty
  damage rectangles that lie inside the configured size as unbounded sums.  Then the frame is in
  flight with its buffer and release point, and both points are consumed.
\<close>

theorem present_accepts_iff:
  "(\<exists>a s'. ts_present s ob f b serial acq rel ds = (Inr a, s') \<and>
      fmlookup (ts_in_flight s') f = Some \<lparr>pw_buffer = b, pw_release_point = rel\<rparr> \<and>
      b |\<in>| ts_busy_buffers s' \<and> ts_last_acquire_point s' = acq \<and> ts_last_release_point s' = rel \<and>
      ts_buffers s' = ts_buffers s) \<longleftrightarrow>
   (\<exists>w h m. ob = ts_object s \<and> ts_timelines_bound s \<and>
      ts_configure_value s = Some (serial, w, h) \<and> ts_acknowledged_serial s = Some serial \<and>
      fmlookup (ts_buffers s) b = Some m \<and> buf_width m = w \<and> buf_height m = h \<and>
      buf_format m |\<in>| ts_feedback s \<and> b |\<notin>| ts_busy_buffers s \<and>
      fmlookup (ts_in_flight s) f = None \<and>
      ts_last_acquire_point s < acq \<and> ts_last_release_point s < rel \<and> length ds \<le> 256 \<and>
      (\<forall>d \<in> set ds. dmg_width d \<noteq> 0 \<and> dmg_height d \<noteq> 0 \<and>
         unat (dmg_x d) + unat (dmg_width d) \<le> unat w \<and>
         unat (dmg_y d) + unat (dmg_height d) \<le> unat h))"
  (is "?accept \<longleftrightarrow> ?conds")
proof -
  have "?accept \<longleftrightarrow> present_check s ob f b serial acq rel ds = Inr ()"
    by (auto simp: ts_present_def split: sum.splits)
  also have "\<dots> \<longleftrightarrow> ?conds"
    unfolding present_check_iff damage_outside_iff fmlookup_None_iff MAX_DAMAGE_RECTS_def by simp
  finally show ?thesis .
qed

text \<open>
  Timeline points only move forward: over any sequence of operations, the acquire points and the
  release points consumed by accepted and by discarded presents are strictly increasing and newer
  than where the sequence started, also when frames were cancelled in between.
\<close>

theorem task_points_strictly_increase:
  "sorted_wrt (<) (ts_last_acquire_point s # trace_ops ts_step ts_acquire_points s ops) \<and>
   sorted_wrt (<) (ts_last_release_point s # trace_ops ts_step ts_release_points s ops)"
  using acquire_points.points_sorted release_points.points_sorted by blast

lemma serial_precedes_iff:
  "serial_precedes a e \<longleftrightarrow> (\<exists>d. 0 < d \<and> d < 2 ^ 31 \<and> e = a + word_of_nat d)"
proof
  assume prec: "serial_precedes a e"
  show "\<exists>d. 0 < d \<and> d < 2 ^ 31 \<and> e = a + word_of_nat d"
  proof (intro exI conjI)
    show "0 < unat (e - a)"
      using prec by (auto simp: serial_precedes_def unat_gt_0)
    show "unat (e - a) < 2 ^ 31"
      using prec by (simp add: serial_precedes_def word_less_nat_alt)
    show "e = a + word_of_nat (unat (e - a))"
      by simp
  qed
next
  assume "\<exists>d. 0 < d \<and> d < 2 ^ 31 \<and> e = a + word_of_nat d"
  then obtain d where d: "0 < d" "d < 2 ^ 31" and e: "e = a + word_of_nat d"
    by blast
  have "unat (word_of_nat d :: u32) = d"
    using d by (simp add: unat_of_nat)
  then show "serial_precedes a e"
    using d by (auto simp: serial_precedes_def e word_less_nat_alt)
qed

text \<open>
  Configure serials are compared in sequence arithmetic: \<open>serial_precedes\<close> holds exactly when the
  expected serial is reached from the actual one by fewer than \<open>2 ^ 31\<close> increments modulo \<open>2 ^ 32\<close>,
  so it survives the wrap of the counter, and it never holds both ways.
\<close>

theorem serial_order:
  "(serial_precedes a e \<longleftrightarrow> (\<exists>d. 0 < d \<and> d < 2 ^ 31 \<and> e = a + word_of_nat d)) \<and>
   \<not> (serial_precedes a e \<and> serial_precedes e a)"
proof (rule conjI, rule serial_precedes_iff, rule notI)
  assume both: "serial_precedes a e \<and> serial_precedes e a"
  then have "unat (e - a) < 2 ^ 31" and "unat (a - e) < 2 ^ 31" and "a \<noteq> e"
    by (simp_all add: serial_precedes_def word_less_nat_alt)
  moreover have "(e - a) + (a - e) = 0"
    by simp
  ultimately have "unat (e - a) + unat (a - e) = unat ((e - a) + (a - e))"
    by (subst unat_add_lem [THEN iffD1]) auto
  then show False
    using \<open>a \<noteq> e\<close> by (simp add: unat_eq_0)
qed

text \<open>
  An acknowledgement has three outcomes once a configure is there: the latest serial is recorded;
  a superseded one is accepted and changes nothing, so it never acknowledges the latest configure; any
  other serial is refused.
\<close>

theorem acknowledge_outcomes:
  "ts_configure_value s = Some (latest, w, h) \<Longrightarrow>
   ts_acknowledge_configure s serial =
     (if serial = latest then (Inr (), s\<lparr>ts_acknowledged_serial := Some latest\<rparr>)
      else if \<exists>d. 0 < d \<and> d < 2 ^ 31 \<and> latest = serial + word_of_nat d then (Inr (), s)
      else (Inl (StaleConfigure latest serial), s))"
  unfolding serial_precedes_iff [symmetric] by (simp add: ts_acknowledge_configure_def)

text \<open>
  A rejected operation on the task state changes nothing, whichever operation it is.
\<close>

theorem task_errors_change_nothing:
  "(\<not> is_ok (fst (ts_bind_timelines s)) \<longrightarrow> ts_step s TsBindTimelines = s) \<and>
   (\<not> is_ok (fst (ts_replace_feedback s gen fs)) \<longrightarrow> ts_step s (TsReplaceFeedback gen fs) = s) \<and>
   (\<not> is_ok (fst (ts_configure s serial w h r)) \<longrightarrow> ts_step s (TsConfigure serial w h r) = s) \<and>
   (\<not> is_ok (fst (ts_acknowledge_configure s serial)) \<longrightarrow> ts_step s (TsAcknowledge serial) = s) \<and>
   (\<not> is_ok (fst (ts_register_buffer s m)) \<longrightarrow> ts_step s (TsRegister m) = s) \<and>
   (\<not> is_ok (fst (ts_unregister_buffer s b)) \<longrightarrow> ts_step s (TsUnregister b) = s) \<and>
   (\<not> is_ok (fst (ts_present s ob f b serial acq rel ds)) \<longrightarrow>
      ts_step s (TsPresent ob f b serial acq rel ds) = s) \<and>
   (\<not> is_ok (fst (ts_discard_superseded_present s ob f b serial acq rel)) \<longrightarrow>
      ts_step s (TsDiscard ob f b serial acq rel) = s) \<and>
   (\<not> is_ok (fst (ts_release s f b rel)) \<longrightarrow> ts_step s (TsRelease f b rel) = s) \<and>
   (\<not> is_ok (fst (ts_cancel_unsubmitted s f b rel)) \<longrightarrow> ts_step s (TsCancel f b rel) = s)"
  by (intro conjI)
    (auto simp: ts_bind_timelines_def ts_replace_feedback_def ts_configure_def
      ts_acknowledge_configure_def ts_register_buffer_def ts_unregister_buffer_def ts_present_def
      ts_discard_superseded_present_def ts_release_def ts_cancel_unsubmitted_def Let_def
      split: sum.splits option.splits if_splits)

text \<open>
  A superseded present is consumed without touching ownership: \<open>discard_superseded_present\<close>
  accepts exactly a frame of an older configure with new points, answers with the release of that
  frame, and leaves the frames in flight, the busy set and the cache as they were.
\<close>

theorem discard_superseded_consumes:
  "ts_discard_superseded_present s ob f b serial acq rel = (r, s') \<Longrightarrow>
   (is_ok r \<longleftrightarrow> (\<exists>latest w h. ob = ts_object s \<and> ts_timelines_bound s \<and>
      ts_configure_value s = Some (latest, w, h) \<and> serial_precedes serial latest \<and>
      b |\<notin>| ts_busy_buffers s \<and> f |\<notin>| fmdom (ts_in_flight s) \<and>
      ts_last_acquire_point s < acq \<and> ts_last_release_point s < rel)) \<and>
   (case r of Inl _ \<Rightarrow> s' = s
    | Inr reply \<Rightarrow> reply = BufferReleased (ts_object s) f b rel \<and>
        s' = s\<lparr>ts_last_acquire_point := acq, ts_last_release_point := rel\<rparr>)"
  unfolding discard_check_iff [symmetric, of _ _ _ _ _ _ _ "()"]
  by (auto simp: ts_discard_superseded_present_def split: sum.splits)

end
