(* ===== verification/Syncobj.thy ===== *)
theory Syncobj
  imports Frame_Ledger
begin

section \<open>DRM syncobj timelines\<close>

text \<open>
  \<open>graphics/droidloom-syncobj/src/lib.rs\<close>: one \<open>Timeline\<close> with its three high-water marks, the pairs
  of timelines both ends keep per task, the per-buffer Wayland timeline and the deadline arithmetic.
  The kernel and the \<open>drm\<close> crate are a parameter: \<open>drm_kernel\<close> says, for the operation name the code
  reports in its error, whether that ioctl fails and with which \<open>errno\<close>, and which handle, descriptor
  or value it returns otherwise.  A live timeline always owns its handle; releasing the handle on drop
  and the ioctl encoding are not modelled.
\<close>

type_synonym owned_fd = int
type_synonym syncobj_handle = u32
type_synonym os_error = int \<comment> \<open>\<open>raw_os_error\<close>\<close>

datatype syncobj_error =
    ZeroPoint
  | PointRegression u64 u64
  | Drm string os_error
  | ClockError os_error
  | DeadlineOverflow

text \<open>
  The ioctls of the render node, each with the arguments the code passes: handles, points, descriptors
  and flags.  A value of this type is the kernel's behaviour during one operation.
\<close>

record drm_kernel =
  k_create_syncobj :: "bool \<Rightarrow> (os_error, syncobj_handle) result"
  k_fd_to_syncobj :: "owned_fd \<Rightarrow> bool \<Rightarrow> (os_error, syncobj_handle) result"
  k_syncobj_to_fd :: "syncobj_handle \<Rightarrow> bool \<Rightarrow> (os_error, owned_fd) result"
  k_import_sync_file :: "syncobj_handle \<Rightarrow> owned_fd \<Rightarrow> (os_error, unit) result"
  k_timeline_transfer ::
    "syncobj_handle \<Rightarrow> syncobj_handle \<Rightarrow> u64 \<Rightarrow> u64 \<Rightarrow> (os_error, unit) result"
  k_timeline_signal :: "syncobj_handle \<Rightarrow> u64 \<Rightarrow> (os_error, unit) result"
  k_timeline_wait ::
    "syncobj_handle \<Rightarrow> u64 \<Rightarrow> int \<Rightarrow> bool \<Rightarrow> bool \<Rightarrow> bool \<Rightarrow> (os_error, unit) result"
  k_timeline_query :: "syncobj_handle \<Rightarrow> bool \<Rightarrow> (os_error, u64) result"
  k_eventfd :: "syncobj_handle \<Rightarrow> u64 \<Rightarrow> owned_fd \<Rightarrow> bool \<Rightarrow> (os_error, unit) result"

definition drm_call :: "string \<Rightarrow> (os_error, 'a) result \<Rightarrow> (syncobj_error, 'a) result" where
  "drm_call operation outcome = map_err (Drm operation) outcome"

record timeline =
  tl_handle :: syncobj_handle
  tl_transfer :: "syncobj_handle option"
  tl_last_attached_point :: u64
  tl_last_signalled_point :: u64
  tl_last_exported_point :: u64

definition new_timeline :: "syncobj_handle \<Rightarrow> timeline" where
  "new_timeline handle = \<lparr>tl_handle = handle, tl_transfer = None, tl_last_attached_point = 0,
     tl_last_signalled_point = 0, tl_last_exported_point = 0\<rparr>"

definition create_timeline :: "drm_kernel \<Rightarrow> (syncobj_error, timeline) result" where
  "create_timeline k =
     bind_result (drm_call ''create timeline syncobj'' (k_create_syncobj k False)) (\<lambda>handle.
     Inr (new_timeline handle))"

definition import_timeline :: "drm_kernel \<Rightarrow> owned_fd \<Rightarrow> (syncobj_error, timeline) result" where
  "import_timeline k fd =
     bind_result (drm_call ''import opaque timeline syncobj'' (k_fd_to_syncobj k fd False)) (\<lambda>handle.
     Inr (new_timeline handle))"

definition require_newer :: "u64 \<Rightarrow> u64 \<Rightarrow> (syncobj_error, unit) result" where
  "require_newer previous attempted =
     (if attempted = 0 then Inl ZeroPoint
      else if attempted \<le> previous then Inl (PointRegression previous attempted)
      else Inr ())"

subsection \<open>Timeline operations\<close>

text \<open>The scratch handle is created on first use and kept, also when a later ioctl fails.\<close>

definition transfer_handle ::
  "drm_kernel \<Rightarrow> timeline \<Rightarrow> (syncobj_error, syncobj_handle) result \<times> timeline" where
  "transfer_handle k t =
     (case tl_transfer t of
        Some handle \<Rightarrow> (Inr handle, t)
      | None \<Rightarrow>
          case drm_call ''create temporary binary syncobj'' (k_create_syncobj k False) of
            Inl e \<Rightarrow> (Inl e, t)
          | Inr handle \<Rightarrow> (Inr handle, t\<lparr>tl_transfer := Some handle\<rparr>))"

definition export_opaque :: "drm_kernel \<Rightarrow> timeline \<Rightarrow> (syncobj_error, owned_fd) result" where
  "export_opaque k t =
     drm_call ''export opaque timeline syncobj'' (k_syncobj_to_fd k (tl_handle t) False)"

definition import_sync_file_into ::
  "drm_kernel \<Rightarrow> syncobj_handle \<Rightarrow> owned_fd \<Rightarrow> (syncobj_error, unit) result" where
  "import_sync_file_into k handle sync_file =
     drm_call ''import sync_file into binary syncobj'' (k_import_sync_file k handle sync_file)"

definition attach_sync_file ::
  "drm_kernel \<Rightarrow> timeline \<Rightarrow> u64 \<Rightarrow> owned_fd \<Rightarrow> (syncobj_error, unit) result \<times> timeline" where
  "attach_sync_file k t point sync_file =
     (case require_newer (max (tl_last_attached_point t) (tl_last_signalled_point t)) point of
        Inl e \<Rightarrow> (Inl e, t)
      | Inr _ \<Rightarrow>
          case transfer_handle k t of
            (Inl e, t1) \<Rightarrow> (Inl e, t1)
          | (Inr temporary, t1) \<Rightarrow>
              case import_sync_file_into k temporary sync_file of
                Inl e \<Rightarrow> (Inl e, t1)
              | Inr _ \<Rightarrow>
                  case drm_call ''transfer sync_file into timeline point''
                      (k_timeline_transfer k temporary (tl_handle t1) 0 point) of
                    Inl e \<Rightarrow> (Inl e, t1)
                  | Inr _ \<Rightarrow> (Inr (), t1\<lparr>tl_last_attached_point := point\<rparr>))"

definition tl_signal ::
  "drm_kernel \<Rightarrow> timeline \<Rightarrow> u64 \<Rightarrow> (syncobj_error, unit) result \<times> timeline" where
  "tl_signal k t point =
     (case require_newer (max (tl_last_attached_point t) (tl_last_signalled_point t)) point of
        Inl e \<Rightarrow> (Inl e, t)
      | Inr _ \<Rightarrow>
          case drm_call ''signal timeline point'' (k_timeline_signal k (tl_handle t) point) of
            Inl e \<Rightarrow> (Inl e, t)
          | Inr _ \<Rightarrow> (Inr (), t\<lparr>tl_last_signalled_point := point\<rparr>))"

definition export_materialized ::
  "drm_kernel \<Rightarrow> timeline \<Rightarrow> u64 \<Rightarrow> (syncobj_error, owned_fd) result \<times> timeline" where
  "export_materialized k t point =
     (case require_newer (tl_last_exported_point t) point of
        Inl e \<Rightarrow> (Inl e, t)
      | Inr _ \<Rightarrow>
          case transfer_handle k t of
            (Inl e, t1) \<Rightarrow> (Inl e, t1)
          | (Inr temporary, t1) \<Rightarrow>
              case drm_call ''transfer timeline point into sync_file''
                  (k_timeline_transfer k (tl_handle t1) temporary point 0) of
                Inl e \<Rightarrow> (Inl e, t1)
              | Inr _ \<Rightarrow>
                  case drm_call ''export timeline point as sync_file''
                      (k_syncobj_to_fd k temporary True) of
                    Inl e \<Rightarrow> (Inl e, t1)
                  | Inr fd \<Rightarrow> (Inr fd, t1\<lparr>tl_last_exported_point := point\<rparr>))"

definition wait_available_and_export ::
  "drm_kernel \<Rightarrow> timeline \<Rightarrow> u64 \<Rightarrow> int \<Rightarrow> (syncobj_error, owned_fd) result \<times> timeline" where
  "wait_available_and_export k t point absolute_timeout_ns =
     (case require_newer (tl_last_exported_point t) point of
        Inl e \<Rightarrow> (Inl e, t)
      | Inr _ \<Rightarrow>
          case drm_call ''wait for timeline point availability''
              (k_timeline_wait k (tl_handle t) point absolute_timeout_ns True True True) of
            Inl e \<Rightarrow> (Inl e, t)
          | Inr _ \<Rightarrow> export_materialized k t point)"

subsection \<open>The timelines of a task, on each side\<close>

record task_timelines =
  tt_acquire :: timeline
  tt_release :: timeline

definition android_timelines_create ::
  "drm_kernel \<Rightarrow> drm_kernel \<Rightarrow> (syncobj_error, task_timelines) result" where
  "android_timelines_create k1 k2 =
     bind_result (create_timeline k1) (\<lambda>a. bind_result (create_timeline k2) (\<lambda>r.
     Inr \<lparr>tt_acquire = a, tt_release = r\<rparr>))"

definition android_export_descriptors ::
  "drm_kernel \<Rightarrow> drm_kernel \<Rightarrow> task_timelines \<Rightarrow> (syncobj_error, owned_fd \<times> owned_fd) result" where
  "android_export_descriptors k1 k2 tt =
     bind_result (export_opaque k1 (tt_acquire tt)) (\<lambda>a.
     bind_result (export_opaque k2 (tt_release tt)) (\<lambda>r. Inr (a, r)))"

definition on_acquire ::
  "(timeline \<Rightarrow> (syncobj_error, 'a) result \<times> timeline) \<Rightarrow> task_timelines
     \<Rightarrow> (syncobj_error, 'a) result \<times> task_timelines" where
  "on_acquire f tt = (case f (tt_acquire tt) of (r, t) \<Rightarrow> (r, tt\<lparr>tt_acquire := t\<rparr>))"

definition on_release ::
  "(timeline \<Rightarrow> (syncobj_error, 'a) result \<times> timeline) \<Rightarrow> task_timelines
     \<Rightarrow> (syncobj_error, 'a) result \<times> task_timelines" where
  "on_release f tt = (case f (tt_release tt) of (r, t) \<Rightarrow> (r, tt\<lparr>tt_release := t\<rparr>))"

definition android_import_acquire_fence where
  "android_import_acquire_fence k tt point sync_file =
     on_acquire (\<lambda>t. attach_sync_file k t point sync_file) tt"

definition android_signal_acquire where
  "android_signal_acquire k tt point = on_acquire (\<lambda>t. tl_signal k t point) tt"

definition android_export_acquire_fence where
  "android_export_acquire_fence k tt point = on_acquire (\<lambda>t. export_materialized k t point) tt"

definition android_export_release_fence where
  "android_export_release_fence k tt point absolute_timeout_ns =
     on_release (\<lambda>t. wait_available_and_export k t point absolute_timeout_ns) tt"

definition denial_timelines_import ::
  "drm_kernel \<Rightarrow> drm_kernel \<Rightarrow> owned_fd \<Rightarrow> owned_fd \<Rightarrow> (syncobj_error, task_timelines) result" where
  "denial_timelines_import k1 k2 acquire release =
     bind_result (import_timeline k1 acquire) (\<lambda>a. bind_result (import_timeline k2 release) (\<lambda>r.
     Inr \<lparr>tt_acquire = a, tt_release = r\<rparr>))"

definition denial_export_acquire_fence where
  "denial_export_acquire_fence k tt point = on_acquire (\<lambda>t. export_materialized k t point) tt"

definition denial_attach_release_fence where
  "denial_attach_release_fence k tt point completion_fence =
     on_release (\<lambda>t. attach_sync_file k t point completion_fence) tt"

definition denial_signal_release where
  "denial_signal_release k tt point = on_release (\<lambda>t. tl_signal k t point) tt"

subsection \<open>The Wayland timeline of a buffer\<close>

definition ETIME :: os_error where "ETIME = 62"

definition NO_WAIT :: int where "NO_WAIT = 0"

definition wayland_create :: "drm_kernel \<Rightarrow> (syncobj_error, timeline) result" where
  "wayland_create k = create_timeline k"

definition wayland_export_descriptor :: "drm_kernel \<Rightarrow> timeline \<Rightarrow> (syncobj_error, owned_fd) result" where
  "wayland_export_descriptor k t = export_opaque k t"

definition wayland_import_acquire_fence ::
  "drm_kernel \<Rightarrow> timeline \<Rightarrow> u64 \<Rightarrow> owned_fd \<Rightarrow> (syncobj_error, unit) result \<times> timeline" where
  "wayland_import_acquire_fence k t point sync_file = attach_sync_file k t point sync_file"

definition wayland_signal_acquire ::
  "drm_kernel \<Rightarrow> timeline \<Rightarrow> u64 \<Rightarrow> (syncobj_error, unit) result \<times> timeline" where
  "wayland_signal_acquire k t point = tl_signal k t point"

definition wayland_signalled_point :: "drm_kernel \<Rightarrow> timeline \<Rightarrow> (syncobj_error, u64) result" where
  "wayland_signalled_point k t =
     drm_call ''query Wayland release timeline'' (k_timeline_query k (tl_handle t) False)"

definition wayland_try_export_release_fence ::
  "drm_kernel \<Rightarrow> timeline \<Rightarrow> u64 \<Rightarrow> (syncobj_error, owned_fd option) result \<times> timeline" where
  "wayland_try_export_release_fence k t point =
     (case wait_available_and_export k t point NO_WAIT of
        (Inr fd, t1) \<Rightarrow> (Inr (Some fd), t1)
      | (Inl (Drm operation source), t1) \<Rightarrow>
          if source = ETIME then (Inr None, t1) else (Inl (Drm operation source), t1)
      | (Inl e, t1) \<Rightarrow> (Inl e, t1))"

definition wayland_notify_when_available ::
  "drm_kernel \<Rightarrow> timeline \<Rightarrow> u64 \<Rightarrow> owned_fd \<Rightarrow> (syncobj_error, unit) result" where
  "wayland_notify_when_available k t point event =
     bind_result (require_newer 0 point) (\<lambda>_.
     drm_call ''register Wayland fence availability wakeup'' (k_eventfd k (tl_handle t) point event True))"

definition wayland_notify_when_signalled ::
  "drm_kernel \<Rightarrow> timeline \<Rightarrow> u64 \<Rightarrow> owned_fd \<Rightarrow> (syncobj_error, unit) result" where
  "wayland_notify_when_signalled k t point event =
     bind_result (require_newer 0 point) (\<lambda>_.
     drm_call ''register Wayland release wakeup'' (k_eventfd k (tl_handle t) point event False))"

subsection \<open>Deadlines\<close>

text \<open>\<open>u128\<close> arithmetic on a \<open>timespec\<close> and the nanoseconds of a \<open>Duration\<close>, then \<open>i64::try_from\<close>.\<close>

definition u128_checked :: "int \<Rightarrow> int option" where
  "u128_checked v = (if 0 \<le> v \<and> v < 2 ^ 128 then Some v else None)"

definition deadline_from_parts :: "int \<Rightarrow> int \<Rightarrow> int \<Rightarrow> (syncobj_error, int) result" where
  "deadline_from_parts seconds nanoseconds timeout_nanos =
     bind_result (ok_or DeadlineOverflow (u128_checked seconds)) (\<lambda>s.
     bind_result (ok_or DeadlineOverflow (u128_checked nanoseconds)) (\<lambda>ns.
     if 1000000000 \<le> ns then Inl DeadlineOverflow
     else bind_result (ok_or DeadlineOverflow
       (Option.bind (u128_checked (s * 1000000000)) (\<lambda>v. u128_checked (v + ns)))) (\<lambda>now.
     bind_result (ok_or DeadlineOverflow (u128_checked (now + timeout_nanos))) (\<lambda>deadline.
     if deadline < 2 ^ 63 then Inr deadline else Inl DeadlineOverflow))))"

text \<open>\<open>clock_gettime\<close> is an argument: its error, or the seconds and nanoseconds it returned.\<close>

definition monotonic_deadline_after ::
  "(os_error, int \<times> int) result \<Rightarrow> int \<Rightarrow> (syncobj_error, int) result" where
  "monotonic_deadline_after clock_gettime timeout_nanos =
     bind_result (map_err ClockError clock_gettime) (\<lambda>(seconds, nanoseconds).
     deadline_from_parts seconds nanoseconds timeout_nanos)"

subsection \<open>Lemmas\<close>

lemma require_newer_Inr_iff [result_simps]: "require_newer p a = Inr u \<longleftrightarrow> p < a"
  by (auto simp: require_newer_def)

lemma transfer_handle_marks [simp]:
  "tl_last_attached_point (snd (transfer_handle k t)) = tl_last_attached_point t"
  "tl_last_signalled_point (snd (transfer_handle k t)) = tl_last_signalled_point t"
  "tl_last_exported_point (snd (transfer_handle k t)) = tl_last_exported_point t"
  by (auto simp: transfer_handle_def split: option.splits sum.splits)

definition tl_marks :: "timeline \<Rightarrow> u64 \<times> u64 \<times> u64" where
  "tl_marks t = (tl_last_attached_point t, tl_last_signalled_point t, tl_last_exported_point t)"

lemma transfer_handle_tl_marks: "transfer_handle k t = (r, t1) \<Longrightarrow> tl_marks t1 = tl_marks t"
  using transfer_handle_marks [of k t] by (simp add: tl_marks_def)

text \<open>Each operation either fails and keeps the marks, or moves its own mark to a newer point.\<close>

lemma attach_cases:
  "attach_sync_file k t p fd = (r, t') \<Longrightarrow>
   (\<exists>e. r = Inl e \<and> tl_marks t' = tl_marks t) \<or>
   (r = Inr () \<and> tl_marks t' = (p, tl_last_signalled_point t, tl_last_exported_point t) \<and>
    max (tl_last_attached_point t) (tl_last_signalled_point t) < p)"
  by (cases r) (auto simp: attach_sync_file_def require_newer_Inr_iff tl_marks_def
      dest!: transfer_handle_tl_marks split: sum.split_asm prod.split_asm)

lemma signal_cases:
  "tl_signal k t p = (r, t') \<Longrightarrow>
   (\<exists>e. r = Inl e \<and> t' = t) \<or>
   (r = Inr () \<and> tl_marks t' = (tl_last_attached_point t, p, tl_last_exported_point t) \<and>
    max (tl_last_attached_point t) (tl_last_signalled_point t) < p)"
  by (cases r) (auto simp: tl_signal_def require_newer_Inr_iff tl_marks_def split: sum.split_asm)

lemma export_cases:
  "export_materialized k t p = (r, t') \<Longrightarrow>
   (\<exists>e. r = Inl e \<and> tl_marks t' = tl_marks t) \<or>
   ((\<exists>fd. r = Inr fd) \<and> tl_marks t' = (tl_last_attached_point t, tl_last_signalled_point t, p) \<and>
    tl_last_exported_point t < p)"
  by (cases r) (auto simp: export_materialized_def require_newer_Inr_iff tl_marks_def
      dest!: transfer_handle_tl_marks split: sum.split_asm prod.split_asm)

lemma wait_export_cases:
  "wait_available_and_export k t p ns = (r, t') \<Longrightarrow>
   (\<exists>e. r = Inl e \<and> tl_marks t' = tl_marks t) \<or>
   ((\<exists>fd. r = Inr fd) \<and> tl_marks t' = (tl_last_attached_point t, tl_last_signalled_point t, p) \<and>
    tl_last_exported_point t < p)"
  using export_cases [of k t p r t']
  by (cases r) (auto simp: wait_available_and_export_def split: sum.split_asm)

datatype timeline_op =
    TlAttach drm_kernel u64 owned_fd
  | TlSignal drm_kernel u64
  | TlExport drm_kernel u64
  | TlWaitExport drm_kernel u64 int

fun tl_step :: "timeline \<Rightarrow> timeline_op \<Rightarrow> timeline" where
  "tl_step t (TlAttach k p fd) = snd (attach_sync_file k t p fd)"
| "tl_step t (TlSignal k p) = snd (tl_signal k t p)"
| "tl_step t (TlExport k p) = snd (export_materialized k t p)"
| "tl_step t (TlWaitExport k p ns) = snd (wait_available_and_export k t p ns)"

fun tl_fence_points :: "timeline \<Rightarrow> timeline_op \<Rightarrow> u64 list" where
  "tl_fence_points t (TlAttach k p fd) = (if is_ok (fst (attach_sync_file k t p fd)) then [p] else [])"
| "tl_fence_points t (TlSignal k p) = (if is_ok (fst (tl_signal k t p)) then [p] else [])"
| "tl_fence_points t _ = []"

fun tl_export_points :: "timeline \<Rightarrow> timeline_op \<Rightarrow> u64 list" where
  "tl_export_points t (TlExport k p) = (if is_ok (fst (export_materialized k t p)) then [p] else [])"
| "tl_export_points t (TlWaitExport k p ns) =
     (if is_ok (fst (wait_available_and_export k t p ns)) then [p] else [])"
| "tl_export_points t _ = []"

definition tl_latest_fence :: "timeline \<Rightarrow> u64" where
  "tl_latest_fence t = max (tl_last_attached_point t) (tl_last_signalled_point t)"

lemma tl_step_marks:
  "sorted_wrt (<) (tl_latest_fence t # tl_fence_points t op) \<and>
   tl_latest_fence (tl_step t op) = last (tl_latest_fence t # tl_fence_points t op) \<and>
   sorted_wrt (<) (tl_last_exported_point t # tl_export_points t op) \<and>
   tl_last_exported_point (tl_step t op) = last (tl_last_exported_point t # tl_export_points t op)"
proof (cases op)
  case (TlAttach k p fd)
  show ?thesis
    using attach_cases [of k t p fd, OF prod.collapse [symmetric]]
    by (auto simp: TlAttach tl_latest_fence_def tl_marks_def max_def)
next
  case (TlSignal k p)
  show ?thesis
    using signal_cases [of k t p, OF prod.collapse [symmetric]]
    by (auto simp: TlSignal tl_latest_fence_def tl_marks_def max_def)
next
  case (TlExport k p)
  show ?thesis
    using export_cases [of k t p, OF prod.collapse [symmetric]]
    by (auto simp: TlExport tl_latest_fence_def tl_marks_def)
next
  case (TlWaitExport k p ns)
  show ?thesis
    using wait_export_cases [of k t p ns, OF prod.collapse [symmetric]]
    by (auto simp: TlWaitExport tl_latest_fence_def tl_marks_def)
qed

interpretation fence_points: point_source tl_latest_fence tl_step tl_fence_points
  using tl_step_marks by unfold_locales (blast, metis order.refl)

interpretation export_points: point_source tl_last_exported_point tl_step tl_export_points
  using tl_step_marks by unfold_locales (blast, metis order.refl)

subsection \<open>Properties\<close>

text \<open>
  A timeline never goes backwards: whatever the kernel answers, the points at which fences are
  attached or signalled form one strictly increasing stream, and so do the points exported as
  \<open>sync_file\<close>; on a new timeline neither stream contains point zero.
\<close>

theorem timeline_points_strictly_increase:
  "sorted_wrt (<) (0 # trace_ops tl_step tl_fence_points (new_timeline h) ops) \<and>
   sorted_wrt (<) (0 # trace_ops tl_step tl_export_points (new_timeline h) ops)"
  using fence_points.points_sorted [of "new_timeline h" ops]
    export_points.points_sorted [of "new_timeline h" ops]
  by (simp add: tl_latest_fence_def new_timeline_def)

text \<open>
  A failed timeline operation can be retried: when the order check or any ioctl fails, none of the
  three high-water marks moves, so the same point is still acceptable afterwards.
\<close>

theorem timeline_failure_keeps_marks:
  "(case attach_sync_file k t p fd of (r, t') \<Rightarrow> is_ok r \<or> tl_marks t' = tl_marks t) \<and>
   (case tl_signal k t p of (r, t') \<Rightarrow> is_ok r \<or> tl_marks t' = tl_marks t) \<and>
   (case export_materialized k t p of (r, t') \<Rightarrow> is_ok r \<or> tl_marks t' = tl_marks t) \<and>
   (case wayland_try_export_release_fence k t p of
      (Inr (Some fd), t') \<Rightarrow> tl_last_exported_point t' = p | (_, t') \<Rightarrow> tl_marks t' = tl_marks t)"
proof (intro conjI)
  show "case attach_sync_file k t p fd of (r, t') \<Rightarrow> is_ok r \<or> tl_marks t' = tl_marks t"
    using attach_cases by (fastforce split: prod.split)
  show "case tl_signal k t p of (r, t') \<Rightarrow> is_ok r \<or> tl_marks t' = tl_marks t"
    using signal_cases by (fastforce split: prod.split)
  show "case export_materialized k t p of (r, t') \<Rightarrow> is_ok r \<or> tl_marks t' = tl_marks t"
    using export_cases by (fastforce split: prod.split)
  obtain r t' where w: "wait_available_and_export k t p NO_WAIT = (r, t')"
    by fastforce
  show "case wayland_try_export_release_fence k t p of
      (Inr (Some fd), t') \<Rightarrow> tl_last_exported_point t' = p | (_, t') \<Rightarrow> tl_marks t' = tl_marks t"
  proof (cases r)
    case (Inl e)
    with wait_export_cases [OF w] w show ?thesis
      by (cases e) (auto simp: wayland_try_export_release_fence_def)
  next
    case (Inr fd)
    with wait_export_cases [OF w] w show ?thesis
      by (auto simp: wayland_try_export_release_fence_def tl_marks_def)
  qed
qed

text \<open>
  The deadline of a bounded wait is the exact sum of the clock reading and the timeout, and it is
  produced exactly when the reading is a proper \<open>timespec\<close> and the sum fits a signed 64-bit integer:
  no intermediate \<open>u128\<close> step can fail or wrap for a 64-bit clock and a Rust \<open>Duration\<close>.
\<close>

theorem deadline_exact:
  assumes "seconds < 2 ^ 63" and "nanoseconds < 2 ^ 63" and "0 \<le> timeout" and "timeout < 2 ^ 94"
  shows "monotonic_deadline_after (Inr (seconds, nanoseconds)) timeout =
    (if 0 \<le> seconds \<and> 0 \<le> nanoseconds \<and> nanoseconds < 1000000000 \<and>
        seconds * 1000000000 + nanoseconds + timeout < 2 ^ 63
     then Inr (seconds * 1000000000 + nanoseconds + timeout) else Inl DeadlineOverflow)"
  using assms by (auto simp: monotonic_deadline_after_def deadline_from_parts_def u128_checked_def)

end
