(* ===== verification/Ipc_Socket.thy ===== *)
theory Ipc_Socket
  imports Denial_Codec Syncobj
begin

section \<open>The sequenced-packet socket\<close>

text \<open>
  \<open>graphics/droidloom-denial-ipc/src/lib.rs\<close>: one record per message over a Unix \<open>SOCK_SEQPACKET\<close>
  socket, descriptors as \<open>SCM_RIGHTS\<close> ancillary data, and \<open>ProtocolSocket\<close>, which pairs every record
  with the codec.  The kernel is a parameter: \<open>sendmsg\<close> is a function from the record and its
  descriptors to an error or a byte count, \<open>recvmsg\<close> a function from the buffer size to what was
  received, and the ABI sizes (\<open>CMSG_LEN(0)\<close>, the length of \<open>sun_path\<close>) are arguments.  The locale
  \<open>typed_socket\<close> extends the codec's contract by the two socket operations of a direction; both
  directions interpret it.  Raw socket creation, polling and the construction of \<open>msghdr\<close> in memory
  are not modelled.
\<close>

datatype ipc_error =
    IpcIo os_error
  | InvalidPath
  | NotSeqPacket
  | DescriptorLimit nat nat
  | DescriptorMismatch nat nat
  | IpcTruncated
  | InvalidAncillary
  | ShortSend nat nat
  | PeerClosed
  | IpcWire wire_error

record peer_credentials =
  peer_pid :: u32
  peer_uid :: u32
  peer_gid :: u32

text \<open>A descriptor with the role its packet gives it, and a decoded message with its descriptors.\<close>

type_synonym attached_descriptor = "descriptor_kind \<times> owned_fd"

record 'm received_message =
  rcv_message :: 'm
  rcv_descriptors :: "attached_descriptor list"

subsection \<open>Records\<close>

type_synonym sendmsg_fn = "u8 list \<Rightarrow> owned_fd list \<Rightarrow> (os_error, nat) result"

definition send_record ::
  "sendmsg_fn \<Rightarrow> u8 list \<Rightarrow> owned_fd list \<Rightarrow> (ipc_error, unit) result" where
  "send_record sendmsg packet descriptors =
     (if packet = [] \<or> MAX_PACKET_BYTES < length packet then Inl IpcTruncated
      else if MAX_PACKET_DESCRIPTORS < length descriptors
      then Inl (DescriptorLimit (length descriptors) MAX_PACKET_DESCRIPTORS)
      else case sendmsg packet descriptors of
        Inl errno \<Rightarrow> Inl (IpcIo errno)
      | Inr sent \<Rightarrow>
          if sent \<noteq> length packet then Inl (ShortSend (length packet) sent) else Inr ())"

text \<open>One control message header with the descriptors in its data.\<close>

record cmsg =
  cm_level :: int
  cm_type :: int
  cm_len :: nat
  cm_fds :: "owned_fd list"

datatype recv_outcome =
    RecvFailed os_error
  | RecvRecord "u8 list" "cmsg list" bool bool \<comment> \<open>bytes, control, \<open>MSG_TRUNC\<close>, \<open>MSG_CTRUNC\<close>\<close>

definition SOL_SOCKET :: int where "SOL_SOCKET = 1"
definition SCM_RIGHTS :: int where "SCM_RIGHTS = 1"
definition RAW_FD_BYTES :: nat where "RAW_FD_BYTES = 4"

fun extract_descriptors :: "nat \<Rightarrow> cmsg list \<Rightarrow> (ipc_error, owned_fd list) result" where
  "extract_descriptors base [] = Inr []"
| "extract_descriptors base (header # headers) =
     (if cm_level header \<noteq> SOL_SOCKET \<or> cm_type header \<noteq> SCM_RIGHTS then Inl InvalidAncillary
      else if cm_len header < base then Inl InvalidAncillary
      else let data_bytes = cm_len header - base in
      if data_bytes = 0 \<or> data_bytes mod RAW_FD_BYTES \<noteq> 0 then Inl InvalidAncillary
      else let fds = take (data_bytes div RAW_FD_BYTES) (cm_fds header) in
      if \<exists>fd \<in> set fds. fd < 0 then Inl InvalidAncillary
      else bind_result (extract_descriptors base headers) (\<lambda>rest. Inr (fds @ rest)))"

definition receive_record_into ::
  "nat \<Rightarrow> (nat \<Rightarrow> recv_outcome) \<Rightarrow> nat \<Rightarrow> (ipc_error, u8 list \<times> owned_fd list) result" where
  "receive_record_into base recvmsg capacity =
     (if capacity = 0 \<or> MAX_PACKET_BYTES < capacity then Inl IpcTruncated
      else case recvmsg capacity of
        RecvFailed errno \<Rightarrow> Inl (IpcIo errno)
      | RecvRecord bytes control trunc ctrunc \<Rightarrow>
          if length bytes = 0 then Inl PeerClosed
          else bind_result (extract_descriptors base control) (\<lambda>descriptors.
            if trunc \<or> ctrunc then Inl IpcTruncated
            else if MAX_PACKET_DESCRIPTORS < length descriptors
            then Inl (DescriptorLimit (length descriptors) MAX_PACKET_DESCRIPTORS)
            else Inr (bytes, descriptors)))"

definition receive_record ::
  "nat \<Rightarrow> (nat \<Rightarrow> recv_outcome) \<Rightarrow> (ipc_error, u8 list \<times> owned_fd list) result" where
  "receive_record base recvmsg = receive_record_into base recvmsg MAX_PACKET_BYTES"

text \<open>\<open>SO_PEERCRED\<close>: the kernel's \<open>ucred\<close> and the length it reports.\<close>

definition peer_credentials_of ::
  "nat \<Rightarrow> (os_error, int \<times> u32 \<times> u32 \<times> nat) result \<Rightarrow> (ipc_error, peer_credentials) result" where
  "peer_credentials_of ucred_size getsockopt =
     (case getsockopt of
        Inl errno \<Rightarrow> Inl (IpcIo errno)
      | Inr (pid, uid, gid, len) \<Rightarrow>
          if len \<noteq> ucred_size then Inl InvalidAncillary
          else if pid < 0 \<or> 2 ^ 32 \<le> pid then Inl InvalidAncillary
          else Inr \<lparr>peer_pid = word_of_int pid, peer_uid = uid, peer_gid = gid\<rparr>)"

text \<open>The path bytes with their terminator, zero-filled, and the address length.\<close>

definition unix_address ::
  "nat \<Rightarrow> nat \<Rightarrow> u8 list \<Rightarrow> (ipc_error, u8 list \<times> nat) result" where
  "unix_address sun_path_offset sun_path_len path =
     (if path = [] \<or> 0 \<in> set path \<or> sun_path_len < length path + 1 then Inl InvalidPath
      else Inr (path @ replicate (sun_path_len - length path) 0, sun_path_offset + length path + 1))"

subsection \<open>Typed messages\<close>

definition require_descriptor_count :: "nat \<Rightarrow> nat \<Rightarrow> (ipc_error, unit) result" where
  "require_descriptor_count expected actual =
     (if expected = actual then Inr () else Inl (DescriptorMismatch expected actual))"

definition attach_decoded ::
  "'m decoded_packet \<Rightarrow> owned_fd list \<Rightarrow> (ipc_error, 'm received_message) result" where
  "attach_decoded decoded descriptors =
     bind_result (require_descriptor_count (length (dec_descriptors decoded)) (length descriptors))
     (\<lambda>_. Inr \<lparr>rcv_message = dec_message decoded,
                rcv_descriptors = zip (dec_descriptors decoded) descriptors\<rparr>)"

definition send_android ::
  "sendmsg_fn \<Rightarrow> android_message \<Rightarrow> owned_fd list \<Rightarrow> (ipc_error, unit) result" where
  "send_android sendmsg message descriptors =
     bind_result (map_err IpcWire (encode_android message)) (\<lambda>encoded.
     bind_result (require_descriptor_count (length (pkt_descriptors encoded)) (length descriptors))
     (\<lambda>_. send_record sendmsg (pkt_bytes encoded) descriptors))"

definition receive_android_into ::
  "nat \<Rightarrow> (nat \<Rightarrow> recv_outcome) \<Rightarrow> nat \<Rightarrow> (ipc_error, android_message received_message) result" where
  "receive_android_into base recvmsg capacity =
     bind_result (receive_record_into base recvmsg capacity) (\<lambda>(bytes, descriptors).
     bind_result (map_err IpcWire (decode_android bytes (length descriptors))) (\<lambda>decoded.
     attach_decoded decoded descriptors))"

definition receive_android ::
  "nat \<Rightarrow> (nat \<Rightarrow> recv_outcome) \<Rightarrow> (ipc_error, android_message received_message) result" where
  "receive_android base recvmsg =
     bind_result (receive_record base recvmsg) (\<lambda>(bytes, descriptors).
     bind_result (map_err IpcWire (decode_android bytes (length descriptors))) (\<lambda>decoded.
     attach_decoded decoded descriptors))"

definition send_denial_with_descriptors ::
  "sendmsg_fn \<Rightarrow> denial_message \<Rightarrow> owned_fd list \<Rightarrow> (ipc_error, unit) result" where
  "send_denial_with_descriptors sendmsg message descriptors =
     bind_result (map_err IpcWire (encode_denial message)) (\<lambda>encoded.
     bind_result (require_descriptor_count (length (pkt_descriptors encoded)) (length descriptors))
     (\<lambda>_. send_record sendmsg (pkt_bytes encoded) descriptors))"

definition send_denial :: "sendmsg_fn \<Rightarrow> denial_message \<Rightarrow> (ipc_error, unit) result" where
  "send_denial sendmsg message = send_denial_with_descriptors sendmsg message []"

definition receive_denial_into ::
  "nat \<Rightarrow> (nat \<Rightarrow> recv_outcome) \<Rightarrow> nat \<Rightarrow> (ipc_error, denial_message received_message) result" where
  "receive_denial_into base recvmsg capacity =
     bind_result (receive_record_into base recvmsg capacity) (\<lambda>(bytes, descriptors).
     bind_result (map_err IpcWire (decode_denial bytes (length descriptors))) (\<lambda>decoded.
     attach_decoded decoded descriptors))"

definition receive_denial ::
  "nat \<Rightarrow> (nat \<Rightarrow> recv_outcome) \<Rightarrow> (ipc_error, denial_message received_message) result" where
  "receive_denial base recvmsg =
     bind_result (receive_record base recvmsg) (\<lambda>(bytes, descriptors).
     bind_result (map_err IpcWire (decode_denial bytes (length descriptors))) (\<lambda>decoded.
     attach_decoded decoded descriptors))"

subsection \<open>The contract of a typed socket\<close>

lemma require_descriptor_count_Inr_iff [result_simps]:
  "require_descriptor_count n k = Inr u \<longleftrightarrow> n = k"
  by (simp add: require_descriptor_count_def)

lemma send_record_ok_iff:
  "send_record sm packet fds = Inr u \<longleftrightarrow>
     packet \<noteq> [] \<and> length packet \<le> MAX_PACKET_BYTES \<and> length fds \<le> MAX_PACKET_DESCRIPTORS \<and>
     sm packet fds = Inr (length packet)"
  by (auto simp: send_record_def split: sum.splits)

text \<open>
  What the kernel hands over for one record: no control message, or one with the descriptors, which
  are numbers of the receiving process.
\<close>

definition rights_control :: "nat \<Rightarrow> owned_fd list \<Rightarrow> cmsg list" where
  "rights_control base fds =
     (if fds = [] then [] else [\<lparr>cm_level = SOL_SOCKET, cm_type = SCM_RIGHTS,
        cm_len = base + RAW_FD_BYTES * length fds, cm_fds = fds\<rparr>])"

definition delivered :: "nat \<Rightarrow> u8 list \<Rightarrow> owned_fd list \<Rightarrow> recv_outcome" where
  "delivered base packet fds = RecvRecord packet (rights_control base fds) False False"

lemma extract_rights_control:
  "\<forall>fd \<in> set fds. 0 \<le> fd \<Longrightarrow> extract_descriptors base (rights_control base fds) = Inr fds"
  by (auto simp: rights_control_def RAW_FD_BYTES_def)

lemma receive_delivered:
  assumes "rm capacity = delivered base packet fds" and "\<forall>fd \<in> set fds. 0 \<le> fd"
    and "0 < capacity" and "capacity \<le> MAX_PACKET_BYTES" and "packet \<noteq> []"
    and "length fds \<le> MAX_PACKET_DESCRIPTORS"
  shows "receive_record_into base rm capacity = Inr (packet, fds)"
  using assms extract_rights_control
  by (simp add: receive_record_into_def delivered_def)

text \<open>Whatever was received has at most four descriptors, each paired with one role.\<close>

lemma receive_record_bounds:
  "receive_record_into base rm capacity = Inr (bytes, fds) \<Longrightarrow>
     bytes \<noteq> [] \<and> length fds \<le> MAX_PACKET_DESCRIPTORS"
  by (auto simp: receive_record_into_def bind_result_Inr_iff split: if_splits recv_outcome.splits)

lemma attach_decoded_iff [result_simps]:
  "attach_decoded d fds = Inr r \<longleftrightarrow> length (dec_descriptors d) = length fds \<and>
     r = \<lparr>rcv_message = dec_message d, rcv_descriptors = zip (dec_descriptors d) fds\<rparr>"
  by (auto simp: attach_decoded_def result_simps)

locale typed_socket = message_codec parts body wf encode decode
  for parts :: "'m \<Rightarrow> (wire_error, packet_parts) result" and body wf encode decode +
  fixes send :: "sendmsg_fn \<Rightarrow> 'm \<Rightarrow> owned_fd list \<Rightarrow> (ipc_error, unit) result"
    and receive :: "nat \<Rightarrow> (nat \<Rightarrow> recv_outcome) \<Rightarrow> nat \<Rightarrow> (ipc_error, 'm received_message) result"
  assumes send_eq: "send sm m fds = bind_result (map_err IpcWire (encode m)) (\<lambda>p.
      bind_result (require_descriptor_count (length (pkt_descriptors p)) (length fds)) (\<lambda>_.
      send_record sm (pkt_bytes p) fds))"
    and receive_eq: "receive base rm capacity =
      bind_result (receive_record_into base rm capacity) (\<lambda>(bytes, fds).
      bind_result (map_err IpcWire (decode bytes (length fds))) (\<lambda>d. attach_decoded d fds))"
begin

text \<open>A valid message with the right number of descriptors fails only in the kernel.\<close>

lemma send_ok_iff:
  "send sm m fds = Inr () \<longleftrightarrow> (\<exists>p. encode m = Inr p \<and> length fds = length (pkt_descriptors p) \<and>
     sm (pkt_bytes p) fds = Inr (length (pkt_bytes p)))"
proof -
  have "pkt_bytes p \<noteq> []" if "encode m = Inr p" for p
    using packet_bounds [OF that] by (auto simp: HEADER_BYTES_def)
  then show ?thesis
    using packet_bounds by (auto simp: send_eq result_simps send_record_ok_iff)
qed

lemma delivery:
  assumes "wf m" and "encode m = Inr p" and "length fds = length (pkt_descriptors p)"
    and "\<forall>fd \<in> set fds. 0 \<le> fd" and "rm capacity = delivered base (pkt_bytes p) fds"
    and "0 < capacity" "capacity \<le> MAX_PACKET_BYTES"
  shows "receive base rm capacity =
    Inr \<lparr>rcv_message = m, rcv_descriptors = zip (pkt_descriptors p) fds\<rparr>"
proof -
  have "pkt_bytes p \<noteq> []" "length fds \<le> MAX_PACKET_DESCRIPTORS"
    using packet_bounds [OF assms(2)] assms(3) by (auto simp: HEADER_BYTES_def)
  then have "receive_record_into base rm capacity = Inr (pkt_bytes p, fds)"
    using assms by (simp add: receive_delivered)
  then show ?thesis
    using round_trip [OF assms(2,1)] assms(3) by (simp add: receive_eq result_simps)
qed

text \<open>What is received could have been sent: it is well-formed and its roles match its message.\<close>

lemma receive_sound:
  assumes "receive base rm capacity = Inr r"
  shows "wf (rcv_message r) \<and> (\<exists>p. encode (rcv_message r) = Inr p \<and>
    map fst (rcv_descriptors r) = pkt_descriptors p)"
proof -
  from assms obtain bytes fds d where dec: "decode bytes (length fds) = Inr d"
    and att: "length (dec_descriptors d) = length fds"
      "r = \<lparr>rcv_message = dec_message d, rcv_descriptors = zip (dec_descriptors d) fds\<rparr>"
    by (auto simp: receive_eq result_simps)
  with canonical [OF dec] decoded_wf [OF dec] show ?thesis by auto
qed

end

interpretation android_socket: typed_socket encode_android_parts decode_android_body "\<lambda>_. True"
  encode_android decode_android send_android receive_android_into
  by unfold_locales (simp_all add: send_android_def receive_android_into_def)

interpretation denial_socket: typed_socket denial_parts_of denial_body_of denial_wf
  encode_denial decode_denial send_denial_with_descriptors receive_denial_into
  by unfold_locales (simp_all add: send_denial_with_descriptors_def receive_denial_into_def)

subsection \<open>Properties\<close>

definition example_timelines_packet :: encoded_packet where
  "example_timelines_packet = \<lparr>pkt_bytes =
     [0x44, 0x4C, 0x4F, 0x4D, 1, 0, 3, 0, 4, 0, 2, 0, 0, 0, 0, 0,
      7, 0, 0, 0, 0, 0, 0, 0, 0, 0, 0, 0, 0, 0, 0, 0], pkt_descriptors = [AcquireTimeline, ReleaseTimeline]\<rparr>"

lemma encode_example_timelines: "encode_android (BindTimelines 7) = Inr example_timelines_packet"
  by (simp add: example_timelines_packet_def encode_android_def object_parts_def packet_write_defs)

text \<open>
  C23. End to end over the socket: an Android message that \<open>send_android\<close> handed to the kernel, and
  that the kernel delivers as one record with as many descriptors, in order and under numbers of its own
  choice, is received by \<open>receive_android_into\<close> as the same message, every descriptor paired with the
  role the encoder gave it.
\<close>

theorem android_message_delivered:
  assumes "send_android sm m fds = Inr ()" and "encode_android m = Inr p"
    and "length received = length fds" and "\<forall>fd \<in> set received. 0 \<le> fd"
    and "rm capacity = delivered base (pkt_bytes p) received"
    and "0 < capacity" and "capacity \<le> MAX_PACKET_BYTES"
  shows "receive_android_into base rm capacity =
    Inr \<lparr>rcv_message = m, rcv_descriptors = zip (pkt_descriptors p) received\<rparr>"
  using assms by (intro android_socket.delivery) (auto simp: android_socket.send_ok_iff)

theorem android_message_delivered_witness:
  "receive_android_into 16 (\<lambda>_. delivered 16 (pkt_bytes example_timelines_packet) [11, 12]) 65536 =
     Inr \<lparr>rcv_message = BindTimelines 7, rcv_descriptors = [(AcquireTimeline, 11), (ReleaseTimeline, 12)]\<rparr>"
proof -
  have "send_android (\<lambda>packet _. Inr (length packet)) (BindTimelines 7) [5, 6] = Inr ()"
    by (simp add: android_socket.send_ok_iff encode_example_timelines example_timelines_packet_def)
  from android_message_delivered [OF this encode_example_timelines, where received = "[11, 12]"
      and rm = "\<lambda>_. delivered 16 (pkt_bytes example_timelines_packet) [11, 12]" and capacity = 65536 and base = 16]
  show ?thesis by (simp add: example_timelines_packet_def MAX_PACKET_BYTES_def)
qed

text \<open>
  The same for the other direction, for every host message whose text is valid UTF-8.
\<close>

theorem denial_message_delivered:
  assumes "send_denial_with_descriptors sm m fds = Inr ()" and "denial_wf m"
    and "encode_denial m = Inr p"
    and "length received = length fds" and "\<forall>fd \<in> set received. 0 \<le> fd"
    and "rm capacity = delivered base (pkt_bytes p) received"
    and "0 < capacity" and "capacity \<le> MAX_PACKET_BYTES"
  shows "receive_denial_into base rm capacity =
    Inr \<lparr>rcv_message = m, rcv_descriptors = zip (pkt_descriptors p) received\<rparr>"
  using assms by (intro denial_socket.delivery) (auto simp: denial_socket.send_ok_iff)

text \<open>
  Nothing malformed gets past the socket, whatever bytes and ancillary data arrive: a received
  Android message re-encodes, its descriptors carry exactly the roles its encoding names, in order,
  and there are at most four of them.
\<close>

theorem received_android_sound:
  assumes "receive_android_into base rm capacity = Inr r"
  shows "\<exists>p. encode_android (rcv_message r) = Inr p \<and>
    map fst (rcv_descriptors r) = pkt_descriptors p \<and> length (rcv_descriptors r) \<le> 4"
proof -
  from android_socket.receive_sound [OF assms] obtain p where p: "encode_android (rcv_message r) = Inr p"
    "map fst (rcv_descriptors r) = pkt_descriptors p" by blast
  moreover have "length (rcv_descriptors r) = length (pkt_descriptors p)"
    using p(2) by (metis length_map)
  ultimately show ?thesis
    using android.packet_bounds [OF p(1)] by (auto simp: MAX_PACKET_DESCRIPTORS_def)
qed

end
