(* ===== verification/Endpoint.thy ===== *)
theory Endpoint
  imports Task_State Ipc_Socket
begin

unbundle bit_operations_syntax

section \<open>The host endpoint of a connection\<close>

text \<open>
  \<open>DenialEndpoint\<close> of \<open>graphics/droidloom-denial-endpoint/src/lib.rs\<close>: peer authentication, capability
  negotiation, the table of task objects and the reduction of every received record to one action
  for the compositor, together with everything the host sends back.  It composes the packet codec, the
  socket, the per-task presentation state and the syncobj timelines.  A method on \<open>&mut self\<close> is a
  function of the endpoint that returns its result beside the endpoint it leaves, on every error path.
  The kernel (socket and DRM) is the parameter \<open>host_env\<close>; \<open>ep_sent\<close> records the messages handed to
  the kernel with their descriptors.  Frame tracing is diagnostics only and not modelled.
\<close>

subsection \<open>Data\<close>

datatype endpoint_action =
    ActRequestRenderTargets task_object_id u32
  | ActBindInputChannel u64 u16 owned_fd
  | ActBindInputRoute task_object_id android_task_id u32 u64
  | ActClientReady
  | ActCreateTask task_object_id android_display_id rust_string
  | ActBindTask task_object_id android_task_id
  | ActDestroyTask task_object_id
  | ActTimelinesBound task_object_id
  | ActConfigureAcknowledged task_object_id u32
  | ActRegisterBuffer task_object_id buffer_metadata "owned_fd list"
  | ActUnregisterBuffer task_object_id buffer_id
  | ActPresent accepted_wire_frame owned_fd
  | ActSupersededPresentDiscarded task_object_id frame_id
  | ActBindLayerStream task_object_id "owned_fd list"
  | ActSetContentState task_object_id u32
  | ActSetFrameRate task_object_id u32
  | ActRequestActivation task_object_id
  | ActPong u64

datatype endpoint_error =
    HandshakeRequired
  | RepeatedHandshake
  | IncompatibleClient
  | TaskLimit
  | DuplicateIdentity
  | UnknownObject task_object_id
  | TaskBusy task_object_id
  | MissingDescriptor descriptor_kind
  | EndpointUnknownFrame task_object_id frame_id
  | EpIpc ipc_error
  | EpState task_state_error
  | EpSync syncobj_error

record expected_peer =
  exp_pid :: u32
  exp_uid :: u32
  exp_gid :: u32

definition peer_accepts :: "expected_peer \<Rightarrow> peer_credentials \<Rightarrow> bool" where
  "peer_accepts expected actual =
     ((exp_pid expected = 0 \<or> exp_pid expected = peer_pid actual) \<and>
      exp_uid expected = peer_uid actual \<and> exp_gid expected = peer_gid actual)"

record task_endpoint =
  te_task :: "android_task_id option"
  te_display :: android_display_id
  te_state :: task_state
  te_timelines :: "task_timelines option"
  te_pending :: "(frame_id, accepted_wire_frame) fmap"
  te_presentation_frames :: "frame_id fset"
  te_retiring :: bool

record endpoint =
  ep_ready :: bool
  ep_activation_requests :: bool
  ep_direct_input :: bool
  ep_lazy_render_targets :: bool
  ep_scene_presentation :: bool
  ep_host_clock :: bool
  ep_tasks :: "(task_object_id, task_endpoint) fmap"
  ep_sent :: "(denial_message \<times> owned_fd list) list"

record host_env =
  env_sendmsg :: sendmsg_fn
  env_recvmsg :: "nat \<Rightarrow> recv_outcome"
  env_cmsg_base :: nat
  env_drm :: drm_kernel
  env_drm_second :: drm_kernel \<comment> \<open>the kernel's behaviour at the second of two imports\<close>

type_synonym 'a ep_op = "(endpoint_error, endpoint, 'a) op"

definition ep_new :: endpoint where
  "ep_new = \<lparr>ep_ready = False, ep_activation_requests = False, ep_direct_input = False,
     ep_lazy_render_targets = False, ep_scene_presentation = False, ep_host_clock = False,
     ep_tasks = fmempty, ep_sent = []\<rparr>"

datatype listener_error = ListenerIpc ipc_error | UnexpectedPeer expected_peer peer_credentials

definition listener_accept ::
  "expected_peer \<Rightarrow> (ipc_error, unit) result \<Rightarrow> (ipc_error, peer_credentials) result
     \<Rightarrow> (listener_error, endpoint) result" where
  "listener_accept expected accepted credentials =
     bind_result (map_err ListenerIpc accepted) (\<lambda>_.
     bind_result (map_err ListenerIpc credentials) (\<lambda>actual.
     if \<not> peer_accepts expected actual then Inl (UnexpectedPeer expected actual)
     else Inr ep_new))"

text \<open>The opt-in builders; \<open>None\<close> is the panic of their assertion.\<close>

definition with_activation_requests :: "endpoint \<Rightarrow> endpoint option" where
  "with_activation_requests e =
     (if ep_ready e then None else Some (e\<lparr>ep_activation_requests := True\<rparr>))"

definition with_direct_input :: "endpoint \<Rightarrow> endpoint option" where
  "with_direct_input e = (if ep_ready e then None else Some (e\<lparr>ep_direct_input := True\<rparr>))"

definition with_lazy_render_targets :: "endpoint \<Rightarrow> endpoint option" where
  "with_lazy_render_targets e =
     (if ep_ready e then None else Some (e\<lparr>ep_lazy_render_targets := True\<rparr>))"

definition with_scene_presentation :: "endpoint \<Rightarrow> endpoint" where
  "with_scene_presentation e = e\<lparr>ep_scene_presentation := True\<rparr>"

definition with_host_clock :: "endpoint \<Rightarrow> endpoint" where
  "with_host_clock e = e\<lparr>ep_host_clock := True\<rparr>"

subsection \<open>Access to tasks and to the socket\<close>

definition set_task :: "endpoint \<Rightarrow> task_object_id \<Rightarrow> task_endpoint \<Rightarrow> endpoint" where
  "set_task e object te = e\<lparr>ep_tasks := fmupd object te (ep_tasks e)\<rparr>"

definition task_of :: "task_object_id \<Rightarrow> task_endpoint ep_op" where
  "task_of object = (\<lambda>e. (ok_or (UnknownObject object) (fmlookup (ep_tasks e) object), e))"

text \<open>\<open>self.task_mut(object)?.state.f(..)?\<close>\<close>

definition on_task_state ::
  "task_object_id \<Rightarrow> (task_state \<Rightarrow> (task_state_error, 'a) result \<times> task_state) \<Rightarrow> 'a ep_op" where
  "on_task_state object f = (\<lambda>e.
     case fmlookup (ep_tasks e) object of
       None \<Rightarrow> (Inl (UnknownObject object), e)
     | Some te \<Rightarrow>
         case f (te_state te) of
           (r, s) \<Rightarrow> (map_err EpState r, set_task e object (te\<lparr>te_state := s\<rparr>)))"

definition ep_send :: "host_env \<Rightarrow> denial_message \<Rightarrow> owned_fd list \<Rightarrow> unit ep_op" where
  "ep_send env message fds = (\<lambda>e.
     case send_denial_with_descriptors (env_sendmsg env) message fds of
       Inl err \<Rightarrow> (Inl (EpIpc err), e)
     | Inr _ \<Rightarrow> (Inr (), e\<lparr>ep_sent := ep_sent e @ [(message, fds)]\<rparr>))"

definition require_flag :: "(endpoint \<Rightarrow> bool) \<Rightarrow> unit ep_op" where
  "require_flag flag = (\<lambda>e. (reject_if (\<not> flag e) IncompatibleClient, e))"

subsection \<open>Received messages\<close>

definition negotiated :: "endpoint \<Rightarrow> u64 \<Rightarrow> endpoint" where
  "negotiated e capabilities =
     e\<lparr>ep_activation_requests :=
         (ep_activation_requests e \<and> capabilities AND TASK_ACTIVATION \<noteq> 0),
       ep_direct_input := (ep_direct_input e \<and> capabilities AND DIRECT_INPUT \<noteq> 0),
       ep_lazy_render_targets :=
         (ep_lazy_render_targets e \<and> capabilities AND LAZY_RENDER_TARGETS \<noteq> 0),
       ep_scene_presentation :=
         (ep_scene_presentation e \<and> capabilities AND SCENE_PRESENTATION \<noteq> 0),
       ep_host_clock := (ep_host_clock e \<and> capabilities AND HOST_CLOCK \<noteq> 0)\<rparr>"

definition server_hello :: "endpoint \<Rightarrow> denial_message" where
  "server_hello e = ServerHello PROTOCOL_MAJOR
     (if ep_host_clock e then PROTOCOL_MINOR else if ep_scene_presentation e then 8
      else if ep_lazy_render_targets e then 7 else 6)
     (REQUIRED_V1
      OR (if ep_activation_requests e then TASK_ACTIVATION else 0)
      OR (if ep_direct_input e then DIRECT_INPUT else 0)
      OR (if ep_scene_presentation e then SCENE_PRESENTATION else 0)
      OR (if ep_host_clock e then HOST_CLOCK else 0)
      OR (if ep_lazy_render_targets e then LAZY_RENDER_TARGETS else 0))
     MAX_TASK_OBJECTS MAX_BUFFERS_PER_TASK (word_of_nat MAX_DAMAGE_RECTS)"

definition client_hello :: "host_env \<Rightarrow> u16 \<Rightarrow> u16 \<Rightarrow> u64 \<Rightarrow> endpoint_action ep_op" where
  "client_hello env min_major max_major capabilities = (\<lambda>e.
     if ep_ready e then (Inl RepeatedHandshake, e)
     else if PROTOCOL_MAJOR < min_major \<or> max_major < PROTOCOL_MAJOR
       \<or> capabilities AND REQUIRED_V1 \<noteq> REQUIRED_V1 then (Inl IncompatibleClient, e)
     else let e1 = negotiated e capabilities in
       op_bind (ep_send env (server_hello e1) []) (\<lambda>_ e2. (Inr ActClientReady, e2\<lparr>ep_ready := True\<rparr>))
       e1)"

definition create_task ::
  "task_object_id \<Rightarrow> android_display_id \<Rightarrow> rust_string \<Rightarrow> endpoint_action ep_op" where
  "create_task object display package = (\<lambda>e.
     if unat MAX_TASK_OBJECTS \<le> fmlen (ep_tasks e) then (Inl TaskLimit, e)
     else if object |\<in>| fmdom (ep_tasks e)
       \<or> \<not> fmpred (\<lambda>_ live. te_display live \<noteq> display) (ep_tasks e) then (Inl DuplicateIdentity, e)
     else case ts_new object of
       Inl err \<Rightarrow> (Inl (EpState err), e)
     | Inr state \<Rightarrow>
         (Inr (ActCreateTask object display package),
          set_task e object \<lparr>te_task = None, te_display = display, te_state = state,
            te_timelines = None, te_pending = fmempty, te_presentation_frames = {||},
            te_retiring = False\<rparr>))"

definition bind_task :: "task_object_id \<Rightarrow> android_task_id \<Rightarrow> endpoint_action ep_op" where
  "bind_task object task = (\<lambda>e.
     if \<not> fmpred (\<lambda>_ live. te_task live \<noteq> Some task) (ep_tasks e) then (Inl DuplicateIdentity, e)
     else case fmlookup (ep_tasks e) object of
       None \<Rightarrow> (Inl (UnknownObject object), e)
     | Some te \<Rightarrow>
         if te_task te \<noteq> None then (Inl DuplicateIdentity, e)
         else (Inr (ActBindTask object task), set_task e object (te\<lparr>te_task := Some task\<rparr>)))"

definition destroy_task :: "task_object_id \<Rightarrow> endpoint_action ep_op" where
  "destroy_task object = (\<lambda>e.
     case fmlookup (ep_tasks e) object of
       None \<Rightarrow> (Inl (UnknownObject object), e)
     | Some te \<Rightarrow>
         let e1 = set_task e object (te\<lparr>te_retiring := True\<rparr>) in
         (Inr (ActDestroyTask object),
          if ts_in_flight_count (te_state te) = 0
          then e1\<lparr>ep_tasks := fmdrop object (ep_tasks e1)\<rparr> else e1))"

fun take_descriptor ::
  "attached_descriptor list \<Rightarrow> descriptor_kind
     \<Rightarrow> (endpoint_error, owned_fd \<times> attached_descriptor list) result" where
  "take_descriptor [] kind = Inl (MissingDescriptor kind)"
| "take_descriptor ((k, fd) # rest) kind =
     (if k \<noteq> kind then Inl (MissingDescriptor kind) else Inr (fd, rest))"

definition bind_timelines ::
  "host_env \<Rightarrow> task_object_id \<Rightarrow> attached_descriptor list \<Rightarrow> endpoint_action ep_op" where
  "bind_timelines env object descriptors =
     op_bind (op_lift (take_descriptor descriptors AcquireTimeline)) (\<lambda>(acquire, rest).
     op_bind (op_lift (take_descriptor rest ReleaseTimeline)) (\<lambda>(release, _).
     op_bind (op_lift (map_err EpSync
       (denial_timelines_import (env_drm env) (env_drm_second env) acquire release))) (\<lambda>timelines.
     op_bind (on_task_state object ts_bind_timelines) (\<lambda>_ e.
       case fmlookup (ep_tasks e) object of
         None \<Rightarrow> (Inl (UnknownObject object), e)
       | Some te \<Rightarrow> (Inr (ActTimelinesBound object),
                    set_task e object (te\<lparr>te_timelines := Some timelines\<rparr>))))))"

fun plane_descriptors :: "attached_descriptor list \<Rightarrow> (endpoint_error, owned_fd list) result" where
  "plane_descriptors [] = Inr []"
| "plane_descriptors ((kind, fd) # rest) =
     (if kind = DmabufPlane then bind_result (plane_descriptors rest) (\<lambda>fds. Inr (fd # fds))
      else Inl (MissingDescriptor DmabufPlane))"

definition register_buffer ::
  "task_object_id \<Rightarrow> buffer_metadata \<Rightarrow> attached_descriptor list \<Rightarrow> endpoint_action ep_op" where
  "register_buffer object buffer descriptors =
     op_bind (op_lift (plane_descriptors descriptors)) (\<lambda>planes.
     op_bind (on_task_state object (\<lambda>s. ts_register_buffer s buffer)) (\<lambda>_.
     op_return (ActRegisterBuffer object buffer planes)))"

text \<open>\<open>task.timelines.as_mut().ok_or(TimelinesUnbound)?.f(..)?\<close>\<close>

definition on_timelines ::
  "task_object_id \<Rightarrow> (task_timelines \<Rightarrow> (syncobj_error, 'a) result \<times> task_timelines) \<Rightarrow> 'a ep_op" where
  "on_timelines object f = (\<lambda>e.
     case fmlookup (ep_tasks e) object of
       None \<Rightarrow> (Inl (UnknownObject object), e)
     | Some te \<Rightarrow>
         case te_timelines te of
           None \<Rightarrow> (Inl (EpState TimelinesUnbound), e)
         | Some tt \<Rightarrow>
             case f tt of
               (r, tt1) \<Rightarrow> (map_err EpSync r, set_task e object (te\<lparr>te_timelines := Some tt1\<rparr>)))"

text \<open>A present of a superseded configure: consume the points, signal the release, answer, discard.\<close>

definition discard_superseded ::
  "host_env \<Rightarrow> task_object_id \<Rightarrow> frame_id \<Rightarrow> buffer_id \<Rightarrow> u32 \<Rightarrow> u64 \<Rightarrow> u64 \<Rightarrow> endpoint_action ep_op"
  where
  "discard_superseded env object frame buffer serial acquire_point release_point =
     op_bind (on_task_state object (\<lambda>s.
       ts_discard_superseded_present s object frame buffer serial acquire_point release_point))
       (\<lambda>released.
     op_bind (on_timelines object (\<lambda>tt. denial_export_acquire_fence (env_drm env) tt acquire_point))
       (\<lambda>_.
     op_bind (on_timelines object (\<lambda>tt. denial_signal_release (env_drm env) tt release_point)) (\<lambda>_.
     op_bind (ep_send env released []) (\<lambda>_.
     op_return (ActSupersededPresentDiscarded object frame)))))"

text \<open>An accepted present: export its acquire fence, or roll the reservation back.\<close>

definition submit_accepted ::
  "host_env \<Rightarrow> accepted_wire_frame \<Rightarrow> endpoint_action ep_op" where
  "submit_accepted env accepted = (\<lambda>e.
     let object = awf_object accepted; frame = awf_frame accepted in
     case fmlookup (ep_tasks e) object of
       None \<Rightarrow> (Inl (UnknownObject object), e)
     | Some te \<Rightarrow>
         case te_timelines te of
           None \<Rightarrow> (Inl (EpState TimelinesUnbound), e)
         | Some tt \<Rightarrow>
             case denial_export_acquire_fence (env_drm env) tt (awf_acquire_point accepted) of
               (Inl err, tt1) \<Rightarrow>
                 op_bind (on_task_state object (\<lambda>s.
                   ts_cancel_unsubmitted s frame (awf_buffer accepted) (awf_release_point accepted)))
                   (\<lambda>_. op_lift (Inl (EpSync err)))
                   (set_task e object (te\<lparr>te_timelines := Some tt1\<rparr>))
             | (Inr fence, tt1) \<Rightarrow>
                 (Inr (ActPresent accepted fence),
                  set_task e object (te\<lparr>te_timelines := Some tt1,
                    te_pending := fmupd frame accepted (te_pending te)\<rparr>)))"

definition ep_present ::
  "host_env \<Rightarrow> task_object_id \<Rightarrow> frame_id \<Rightarrow> buffer_id \<Rightarrow> u32 \<Rightarrow> u64 \<Rightarrow> u64 \<Rightarrow> damage list
     \<Rightarrow> endpoint_action ep_op" where
  "ep_present env object frame buffer serial acquire_point release_point damage = (\<lambda>e.
     case on_task_state object (\<lambda>s.
         ts_present s object frame buffer serial acquire_point release_point damage) e of
       (Inr accepted, e1) \<Rightarrow> submit_accepted env accepted e1
     | (Inl (EpState (StaleConfigure _ _)), e1) \<Rightarrow>
         discard_superseded env object frame buffer serial acquire_point release_point e1
     | (Inl err, e1) \<Rightarrow> (Inl err, e1))"

definition bind_input_channel ::
  "u64 \<Rightarrow> u16 \<Rightarrow> attached_descriptor list \<Rightarrow> endpoint_action ep_op" where
  "bind_input_channel generation wire descriptors =
     op_bind (require_flag ep_direct_input) (\<lambda>_.
     case descriptors of
       [] \<Rightarrow> op_lift (Inl IncompatibleClient)
     | (_, socket) # _ \<Rightarrow> op_return (ActBindInputChannel generation wire socket))"

definition bind_input_route :: "task_object_id \<Rightarrow> u32 \<Rightarrow> u64 \<Rightarrow> endpoint_action ep_op" where
  "bind_input_route object display incarnation =
     op_bind (require_flag ep_direct_input) (\<lambda>_.
     op_bind (task_of object) (\<lambda>te.
     op_bind (op_lift (ok_or (UnknownObject object) (te_task te))) (\<lambda>task.
     op_return (ActBindInputRoute object task display incarnation))))"

definition request_activation :: "task_object_id \<Rightarrow> endpoint_action ep_op" where
  "request_activation object =
     op_bind (require_flag ep_activation_requests) (\<lambda>_.
     op_bind (task_of object) (\<lambda>te.
     op_bind (op_lift (reject_if (te_task te = None) (UnknownObject object))) (\<lambda>_.
     op_return (ActRequestActivation object))))"

fun handle_android ::
  "host_env \<Rightarrow> android_message \<Rightarrow> attached_descriptor list \<Rightarrow> endpoint_action ep_op" where
  "handle_android env (RequestRenderTargets object serial) descriptors =
     op_bind (require_flag ep_lazy_render_targets) (\<lambda>_.
     op_bind (task_of object) (\<lambda>_. op_return (ActRequestRenderTargets object serial)))"
| "handle_android env (BindInputChannel generation wire) descriptors =
     bind_input_channel generation wire descriptors"
| "handle_android env (BindInputRoute object display incarnation) descriptors =
     bind_input_route object display incarnation"
| "handle_android env (ClientHello min_major max_major capabilities) descriptors =
     client_hello env min_major max_major capabilities"
| "handle_android env (CreateTask object display package) descriptors =
     create_task object display package"
| "handle_android env (BindTask object task) descriptors = bind_task object task"
| "handle_android env (DestroyTask object) descriptors = destroy_task object"
| "handle_android env (BindTimelines object) descriptors = bind_timelines env object descriptors"
| "handle_android env (AckConfigure object serial) descriptors =
     op_bind (on_task_state object (\<lambda>s. ts_acknowledge_configure s serial)) (\<lambda>_.
     op_return (ActConfigureAcknowledged object serial))"
| "handle_android env (RegisterBuffer object buffer) descriptors =
     register_buffer object buffer descriptors"
| "handle_android env (UnregisterBuffer object buffer) descriptors =
     op_bind (on_task_state object (\<lambda>s. ts_unregister_buffer s buffer)) (\<lambda>_.
     op_return (ActUnregisterBuffer object buffer))"
| "handle_android env (Present object frame buffer serial acquire_point release_point damage)
     descriptors =
     ep_present env object frame buffer serial acquire_point release_point damage"
| "handle_android env (BindLayerStream object) descriptors =
     op_bind (task_of object) (\<lambda>_. op_return (ActBindLayerStream object (map snd descriptors)))"
| "handle_android env (SetContentState object flags) descriptors =
     op_bind (task_of object) (\<lambda>_. op_return (ActSetContentState object flags))"
| "handle_android env (SetFrameRate object millihz) descriptors =
     op_bind (task_of object) (\<lambda>_. op_return (ActSetFrameRate object millihz))"
| "handle_android env (RequestActivation object) descriptors = request_activation object"
| "handle_android env (Pong cookie) descriptors = op_return (ActPong cookie)"

fun is_client_hello :: "android_message \<Rightarrow> bool" where
  "is_client_hello (ClientHello _ _ _) = True"
| "is_client_hello _ = False"

definition receive_action :: "host_env \<Rightarrow> endpoint_action ep_op" where
  "receive_action env =
     op_bind (op_lift (map_err EpIpc
       (receive_android_into (env_cmsg_base env) (env_recvmsg env) MAX_PACKET_BYTES))) (\<lambda>r e.
     if \<not> ep_ready e \<and> \<not> is_client_hello (rcv_message r) then (Inl HandshakeRequired, e)
     else handle_android env (rcv_message r) (rcv_descriptors r) e)"

subsection \<open>Messages the host sends\<close>

definition request_input_channel :: "host_env \<Rightarrow> u64 \<Rightarrow> unit ep_op" where
  "request_input_channel env generation =
     op_bind (require_flag (\<lambda>e. ep_ready e \<and> ep_direct_input e)) (\<lambda>_.
     ep_send env (RequestInputChannel generation) [])"

definition send_format_feedback ::
  "host_env \<Rightarrow> task_object_id \<Rightarrow> u32 \<Rightarrow> format_modifier list \<Rightarrow> unit ep_op" where
  "send_format_feedback env object generation formats =
     op_bind (on_task_state object (\<lambda>s. ts_replace_feedback s generation formats)) (\<lambda>_.
     ep_send env (FormatFeedback object generation formats) [])"

definition register_render_target ::
  "host_env \<Rightarrow> task_object_id \<Rightarrow> u32 \<Rightarrow> buffer_metadata \<Rightarrow> owned_fd list \<Rightarrow> unit ep_op" where
  "register_render_target env object configure_serial buffer planes =
     op_bind (on_task_state object (\<lambda>s. ts_register_buffer s buffer)) (\<lambda>_ e.
     case ep_send env (RegisterRenderTarget object configure_serial buffer) planes e of
       (Inr _, e1) \<Rightarrow> (Inr (), e1)
     | (Inl err, e1) \<Rightarrow>
         case fmlookup (ep_tasks e1) object of
           None \<Rightarrow> (Inl (UnknownObject object), e1)
         | Some te \<Rightarrow> (Inl err, set_task e1 object
             (te\<lparr>te_state := snd (ts_unregister_buffer (te_state te) (buf_id buffer))\<rparr>)))"

definition unregister_render_target ::
  "host_env \<Rightarrow> task_object_id \<Rightarrow> buffer_id \<Rightarrow> unit ep_op" where
  "unregister_render_target env object buffer =
     op_bind (on_task_state object (\<lambda>s. ts_unregister_buffer s buffer)) (\<lambda>metadata e.
     case ep_send env (UnregisterRenderTarget object buffer) [] e of
       (Inr _, e1) \<Rightarrow> (Inr (), e1)
     | (Inl err, e1) \<Rightarrow>
         op_bind (on_task_state object (\<lambda>s. ts_register_buffer s metadata)) (\<lambda>_. op_lift (Inl err)) e1)"

definition send_configure ::
  "host_env \<Rightarrow> task_object_id \<Rightarrow> u32 \<Rightarrow> u32 \<Rightarrow> u32 \<Rightarrow> u32 \<Rightarrow> u32 \<Rightarrow> transform \<Rightarrow> u32 \<Rightarrow> unit ep_op" where
  "send_configure env object serial width height scale_numerator scale_denominator transform
     refresh_millihz =
     op_bind (on_task_state object (\<lambda>s. ts_configure s serial width height refresh_millihz)) (\<lambda>_.
     ep_send env (Configure object serial width height scale_numerator scale_denominator transform
       refresh_millihz) [])"

definition send_visibility :: "host_env \<Rightarrow> task_object_id \<Rightarrow> visibility \<Rightarrow> bool \<Rightarrow> unit ep_op" where
  "send_visibility env object visibility focused =
     op_bind (task_of object) (\<lambda>_. ep_send env (Visibility object visibility focused) [])"

definition send_display_power :: "host_env \<Rightarrow> bool \<Rightarrow> unit ep_op" where
  "send_display_power env powered = ep_send env (DisplayPower powered) []"

definition send_close :: "host_env \<Rightarrow> task_object_id \<Rightarrow> unit ep_op" where
  "send_close env object = op_bind (task_of object) (\<lambda>_. ep_send env (Close object) [])"

definition send_input :: "host_env \<Rightarrow> task_object_id \<Rightarrow> u64 \<Rightarrow> u64 \<Rightarrow> input_event \<Rightarrow> unit ep_op" where
  "send_input env object serial timestamp_nanos event =
     op_bind (task_of object) (\<lambda>_. ep_send env (Input object serial timestamp_nanos event) [])"

definition materialize_release :: "task_object_id \<Rightarrow> frame_id \<Rightarrow> unit ep_op" where
  "materialize_release object frame =
     op_bind (task_of object) (\<lambda>te.
     op_bind (op_lift (reject_if (frame |\<notin>| fmdom (te_pending te))
       (EndpointUnknownFrame object frame))) (\<lambda>_.
     op_lift (reject_if (te_timelines te = None) (EpState TimelinesUnbound))))"

definition finish_release :: "host_env \<Rightarrow> task_object_id \<Rightarrow> frame_id \<Rightarrow> unit ep_op" where
  "finish_release env object frame = (\<lambda>e.
     case fmlookup (ep_tasks e) object of
       None \<Rightarrow> (Inl (UnknownObject object), e)
     | Some te \<Rightarrow>
         case fmlookup (te_pending te) frame of
           None \<Rightarrow> (Inl (EndpointUnknownFrame object frame), e)
         | Some pending \<Rightarrow>
             case ts_release (te_state te) frame (awf_buffer pending) (awf_release_point pending) of
               (Inl err, s) \<Rightarrow> (Inl (EpState err), set_task e object (te\<lparr>te_state := s\<rparr>))
             | (Inr message, s) \<Rightarrow>
                 let te1 = te\<lparr>te_state := s, te_pending := fmdrop frame (te_pending te)\<rparr>;
                     e1 = set_task e object te1;
                     e2 = (if te_retiring te \<and> ts_in_flight_count s = 0
                           then e1\<lparr>ep_tasks := fmdrop object (ep_tasks e1)\<rparr> else e1)
                 in if te_retiring te then (Inr (), e2) else ep_send env message [] e2)"

definition discard_frame :: "host_env \<Rightarrow> task_object_id \<Rightarrow> frame_id \<Rightarrow> unit ep_op" where
  "discard_frame env object frame =
     op_bind (materialize_release object frame) (\<lambda>_. finish_release env object frame)"

definition send_frame_grant :: "host_env \<Rightarrow> u64 \<Rightarrow> u64 \<Rightarrow> u64 \<Rightarrow> unit ep_op" where
  "send_frame_grant env latch target period = (\<lambda>e.
     if ep_ready e \<and> ep_host_clock e then ep_send env (FrameGrant latch target period) [] e
     else (Inr (), e))"

definition send_scene_presented ::
  "host_env \<Rightarrow> task_object_id \<Rightarrow> u64 \<Rightarrow> u64 \<Rightarrow> u64 \<Rightarrow> u64 \<Rightarrow> unit ep_op" where
  "send_scene_presented env object scene timestamp_nanos refresh_period_nanos sequence = (\<lambda>e.
     if \<not> (ep_ready e \<and> ep_scene_presentation e) then (Inr (), e)
     else op_bind (task_of object) (\<lambda>te.
       if te_retiring te then op_return ()
       else ep_send env (ScenePresented object scene timestamp_nanos refresh_period_nanos sequence)
         []) e)"

definition track_presentation :: "task_object_id \<Rightarrow> frame_id \<Rightarrow> bool ep_op" where
  "track_presentation object frame = (\<lambda>e.
     case fmlookup (ep_tasks e) object of
       None \<Rightarrow> (Inl (UnknownObject object), e)
     | Some te \<Rightarrow>
         if frame |\<notin>| fmdom (te_pending te) then (Inl (EndpointUnknownFrame object frame), e)
         else if 64 \<le> fcard (te_presentation_frames te) then (Inr False, e)
         else (Inr (frame |\<notin>| te_presentation_frames te),
               set_task e object (te\<lparr>te_presentation_frames :=
                 finsert frame (te_presentation_frames te)\<rparr>)))"

definition forget_presentation :: "task_object_id \<Rightarrow> frame_id \<Rightarrow> endpoint \<Rightarrow> endpoint" where
  "forget_presentation object frame e =
     (case fmlookup (ep_tasks e) object of
        None \<Rightarrow> e
      | Some te \<Rightarrow> set_task e object
          (te\<lparr>te_presentation_frames := te_presentation_frames te |-| {|frame|}\<rparr>))"

definition send_presented ::
  "host_env \<Rightarrow> task_object_id \<Rightarrow> frame_id \<Rightarrow> u64 \<Rightarrow> u64 \<Rightarrow> u64 \<Rightarrow> u32 \<Rightarrow> unit ep_op" where
  "send_presented env object frame timestamp_nanos refresh_period_nanos sequence flags = (\<lambda>e.
     case fmlookup (ep_tasks e) object of
       None \<Rightarrow> (Inl (UnknownObject object), e)
     | Some te \<Rightarrow>
         let tracked = frame |\<in>| te_presentation_frames te;
             e1 = set_task e object
               (te\<lparr>te_presentation_frames := te_presentation_frames te |-| {|frame|}\<rparr>)
         in if \<not> tracked \<and> frame |\<notin>| fmdom (te_pending te)
            then (Inl (EndpointUnknownFrame object frame), e1)
            else if te_retiring te then (Inr (), e1)
            else ep_send env (Presented object frame timestamp_nanos refresh_period_nanos sequence
              flags) [] e1)"

definition send_fatal ::
  "host_env \<Rightarrow> task_object_id option \<Rightarrow> protocol_error_code \<Rightarrow> u16 \<Rightarrow> rust_string \<Rightarrow> unit ep_op" where
  "send_fatal env object code offending_opcode message =
     ep_send env (ErrorMessage object code offending_opcode message) []"

end
