(* ===== verification/Endpoint_Invariant.thy ===== *)
theory Endpoint_Invariant
  imports Endpoint
begin

section \<open>What the endpoint keeps true\<close>

text \<open>
  The invariant of the connection, one theorem per method of \<open>DenialEndpoint\<close> that it is kept, and
  the interpretation of \<open>frame_owner\<close> for the frames of each task object.  The invariant ties the
  components together: the frames the endpoint remembers are the frames the task state has in flight,
  timelines are present exactly when the task state says so, and the points the timelines have seen
  are points the task state has consumed.
\<close>

subsection \<open>Invariant\<close>

definition wire_tuple :: "accepted_wire_frame \<Rightarrow> pending_wire_frame" where
  "wire_tuple a = \<lparr>pw_buffer = awf_buffer a, pw_release_point = awf_release_point a\<rparr>"

definition timelines_behind :: "task_timelines \<Rightarrow> task_state \<Rightarrow> bool" where
  "timelines_behind tt s \<longleftrightarrow>
     tl_last_exported_point (tt_acquire tt) \<le> ts_last_acquire_point s \<and>
     tl_latest_fence (tt_release tt) \<le> ts_last_release_point s"

definition te_inv :: "task_object_id \<Rightarrow> task_endpoint \<Rightarrow> bool" where
  "te_inv ob te \<longleftrightarrow>
     ts_object (te_state te) = ob \<and> ts_inv (te_state te) \<and>
     (ts_timelines_bound (te_state te) \<longleftrightarrow> te_timelines te \<noteq> None) \<and>
     (\<forall>tt. te_timelines te = Some tt \<longrightarrow> timelines_behind tt (te_state te)) \<and>
     fmmap wire_tuple (te_pending te) = ts_in_flight (te_state te) \<and>
     (\<forall>f a. fmlookup (te_pending te) f = Some a \<longrightarrow> awf_object a = ob \<and> awf_frame a = f) \<and>
     (te_retiring te \<longrightarrow> ts_in_flight (te_state te) \<noteq> fmempty) \<and>
     fcard (te_presentation_frames te) \<le> 64"

text \<open>No Android task is bound to two objects.\<close>

definition distinct_tasks :: "(task_object_id, task_endpoint) fmap \<Rightarrow> bool" where
  "distinct_tasks tasks \<longleftrightarrow>
     (\<forall>ob ob' te te' t. fmlookup tasks ob = Some te \<longrightarrow> fmlookup tasks ob' = Some te' \<longrightarrow>
        te_task te = Some t \<longrightarrow> te_task te' = Some t \<longrightarrow> ob = ob')"

definition tasks_inv :: "(task_object_id, task_endpoint) fmap \<Rightarrow> bool" where
  "tasks_inv tasks \<longleftrightarrow>
     (\<forall>ob te. fmlookup tasks ob = Some te \<longrightarrow> te_inv ob te) \<and>
     exclusive (fmmap te_display tasks) \<and>
     distinct_tasks tasks \<and>
     fmlen tasks \<le> unat MAX_TASK_OBJECTS"

definition ep_inv :: "endpoint \<Rightarrow> bool" where
  "ep_inv e \<longleftrightarrow> tasks_inv (ep_tasks e) \<and> (ep_tasks e \<noteq> fmempty \<longrightarrow> ep_ready e)"

lemma tasks_inv_te: "tasks_inv tasks \<Longrightarrow> fmlookup tasks ob = Some te \<Longrightarrow> te_inv ob te"
  by (simp add: tasks_inv_def)

lemma ep_inv_te: "ep_inv e \<Longrightarrow> fmlookup (ep_tasks e) ob = Some te \<Longrightarrow> te_inv ob te"
  unfolding ep_inv_def by (blast intro: tasks_inv_te)

text \<open>Replacing one task by another of the same identity, and removing one.\<close>

lemma tasks_inv_upd:
  assumes "tasks_inv tasks" and "fmlookup tasks ob = Some te" and "te_inv ob te'"
    and "te_display te' = te_display te" and "te_task te' = te_task te"
  shows "tasks_inv (fmupd ob te' tasks)"
proof -
  have "fmmap te_display (fmupd ob te' tasks) = fmmap te_display tasks"
    using assms(2,4) by (intro fmap_ext) auto
  moreover have "fmlen (fmupd ob te' tasks) = fmlen tasks"
    using assms(2) by (simp add: fmlen_upd fmdomI)
  moreover have "distinct_tasks (fmupd ob te' tasks)"
    using assms(1,2,5) unfolding tasks_inv_def distinct_tasks_def by (metis fmupd_lookup option.inject)
  ultimately show ?thesis
    using assms(1,3) unfolding tasks_inv_def by (auto split: if_splits)
qed

lemma tasks_inv_drop: "tasks_inv tasks \<Longrightarrow> tasks_inv (fmdrop ob tasks)"
  by (auto simp: tasks_inv_def distinct_tasks_def exclusive_retire fmlen_drop simp flip: fmdrop_fmmap split: if_splits)

lemma ep_inv_cong:
  assumes "ep_inv e" and "ep_tasks e' = ep_tasks e" and "ep_ready e \<Longrightarrow> ep_ready e'"
  shows "ep_inv e'"
  using assms by (auto simp: ep_inv_def)

lemma ep_inv_set_task:
  assumes "ep_inv e" and "fmlookup (ep_tasks e) ob = Some te" and "te_inv ob te'"
    and "te_display te' = te_display te" and "te_task te' = te_task te"
  shows "ep_inv (set_task e ob te')"
  using assms tasks_inv_upd [of "ep_tasks e" ob te te'] by (auto simp: ep_inv_def set_task_def)

subsection \<open>Rewriting operations\<close>

lemma set_task_simps [simp]:
  "ep_tasks (set_task e ob te) = fmupd ob te (ep_tasks e)"
  "ep_ready (set_task e ob te) = ep_ready e"
  "ep_sent (set_task e ob te) = ep_sent e"
  "set_task (set_task e ob te) ob te' = set_task e ob te'"
  by (simp_all add: set_task_def)

lemma set_task_same: "fmlookup (ep_tasks e) ob = Some te \<Longrightarrow> set_task e ob te = e"
proof -
  assume "fmlookup (ep_tasks e) ob = Some te"
  then have "fmupd ob te (ep_tasks e) = ep_tasks e"
    by (intro fmap_ext) auto
  then show ?thesis by (simp add: set_task_def)
qed

lemma on_task_state_Some:
  "fmlookup (ep_tasks e) ob = Some te \<Longrightarrow> f (te_state te) = (r, s) \<Longrightarrow>
     on_task_state ob f e = (map_err EpState r, set_task e ob (te\<lparr>te_state := s\<rparr>))"
  by (simp add: on_task_state_def)

lemma on_task_state_None [simp]:
  "fmlookup (ep_tasks e) ob = None \<Longrightarrow> on_task_state ob f e = (Inl (UnknownObject ob), e)"
  by (simp add: on_task_state_def)

lemma ep_send_frame [simp]:
  "ep_tasks (snd (ep_send env m fds e)) = ep_tasks e"
  "ep_ready (snd (ep_send env m fds e)) = ep_ready e"
  by (auto simp: ep_send_def split: sum.splits)

lemma ep_inv_send [simp]: "ep_inv (snd (ep_send env m fds e)) \<longleftrightarrow> ep_inv e"
  by (simp add: ep_inv_def)

text \<open>An operation that keeps the invariant whatever it returns.\<close>

definition keeps_inv :: "'a ep_op \<Rightarrow> bool" where
  "keeps_inv m \<longleftrightarrow> (\<forall>e. ep_inv e \<longrightarrow> ep_inv (snd (m e)))"

lemma keeps_invD: "keeps_inv m \<Longrightarrow> ep_inv e \<Longrightarrow> ep_inv (snd (m e))"
  by (simp add: keeps_inv_def)

lemma keeps_inv_bind: "keeps_inv m \<Longrightarrow> (\<And>x. keeps_inv (k x)) \<Longrightarrow> keeps_inv (op_bind m k)"
  unfolding keeps_inv_def snd_op_bind by (fastforce split: prod.splits sum.splits)

lemma keeps_inv_pure [simp]:
  "keeps_inv (op_return x)" "keeps_inv (op_lift r)" "keeps_inv (task_of ob)"
  "keeps_inv (require_flag flag)" "keeps_inv (ep_send env m fds)"
  by (simp_all add: keeps_inv_def task_of_def require_flag_def)

text \<open>A task-state operation that leaves the frames, the points and the binding alone.\<close>

definition ts_quiet :: "task_state \<Rightarrow> task_state \<Rightarrow> bool" where
  "ts_quiet s s' \<longleftrightarrow> ts_object s' = ts_object s \<and> ts_timelines_bound s' = ts_timelines_bound s \<and>
     ts_in_flight s' = ts_in_flight s \<and> ts_last_acquire_point s' = ts_last_acquire_point s \<and>
     ts_last_release_point s' = ts_last_release_point s"

lemma ts_quiet_steps:
  "ts_quiet s (ts_step s (TsReplaceFeedback gen fs))"
  "ts_quiet s (ts_step s (TsConfigure serial w h r))"
  "ts_quiet s (ts_step s (TsAcknowledge serial))"
  "ts_quiet s (ts_step s (TsRegister b))"
  "ts_quiet s (ts_step s (TsUnregister k))"
  by (auto simp: ts_quiet_def ts_replace_feedback_def ts_configure_def ts_acknowledge_configure_def
      ts_register_buffer_def ts_unregister_buffer_def Let_def
      split: sum.splits option.splits if_splits)

lemma te_inv_quiet:
  assumes "te_inv ob te" and "ts_quiet (te_state te) s" and "ts_inv s"
  shows "te_inv ob (te\<lparr>te_state := s\<rparr>)"
  using assms by (auto simp: te_inv_def ts_quiet_def timelines_behind_def)

lemma keeps_inv_on_task_state:
  assumes "\<And>s. ts_quiet s (snd (f s))" and "\<And>s. ts_inv s \<Longrightarrow> ts_inv (snd (f s))"
  shows "keeps_inv (on_task_state ob f)"
  unfolding keeps_inv_def
proof (intro allI impI)
  fix e
  assume inv: "ep_inv e"
  show "ep_inv (snd (on_task_state ob f e))"
  proof (cases "fmlookup (ep_tasks e) ob")
    case (Some te)
    have te: "te_inv ob te"
      using inv Some by (rule ep_inv_te)
    then have "te_inv ob (te\<lparr>te_state := snd (f (te_state te))\<rparr>)"
      by (rule te_inv_quiet) (use te assms in \<open>auto simp: te_inv_def\<close>)
    then show ?thesis
      using ep_inv_set_task [OF inv Some] Some
      by (cases "f (te_state te)") (simp add: on_task_state_def)
  qed (simp add: inv)
qed

lemma keeps_inv_task_steps [simp]:
  "keeps_inv (on_task_state ob (\<lambda>s. ts_replace_feedback s gen fs))"
  "keeps_inv (on_task_state ob (\<lambda>s. ts_configure s serial w h r))"
  "keeps_inv (on_task_state ob (\<lambda>s. ts_acknowledge_configure s serial))"
  "keeps_inv (on_task_state ob (\<lambda>s. ts_register_buffer s b))"
  "keeps_inv (on_task_state ob (\<lambda>s. ts_unregister_buffer s k))"
  using ts_quiet_steps ts_inv_step [of _ "TsReplaceFeedback gen fs"]
    ts_inv_step [of _ "TsConfigure serial w h r"] ts_inv_step [of _ "TsAcknowledge serial"]
    ts_inv_step [of _ "TsRegister b"] ts_inv_step [of _ "TsUnregister k"]
  by (auto intro!: keeps_inv_on_task_state)

subsection \<open>Operations on the task table\<close>

lemma keeps_inv_client_hello: "keeps_inv (client_hello env lo hi caps)"
proof -
  have "ep_inv (negotiated e caps) \<longleftrightarrow> ep_inv e" for e
    by (simp add: ep_inv_def negotiated_def)
  then show ?thesis
    unfolding keeps_inv_def client_hello_def
    by (auto simp: Let_def snd_op_bind ep_send_def ep_inv_def negotiated_def split: sum.splits)
qed

lemma te_inv_fresh:
  "ob \<noteq> 0 \<Longrightarrow> te_inv ob \<lparr>te_task = None, te_display = d, te_state = fresh_state ob,
     te_timelines = None, te_pending = fmempty, te_presentation_frames = {||}, te_retiring = False\<rparr>"
  using ts_inv_fresh [of ob] by (simp add: te_inv_def fresh_state_def fcard_fempty)

lemma tasks_inv_insert:
  assumes "tasks_inv tasks" and "fmlookup tasks ob = None" and "te_inv ob te" and "te_task te = None"
    and "fmpred (\<lambda>_ live. te_display live \<noteq> te_display te) tasks"
    and "fmlen tasks < unat MAX_TASK_OBJECTS"
  shows "tasks_inv (fmupd ob te tasks)"
proof -
  have "te_display te |\<notin>| fmran (fmmap te_display tasks)"
    using assms(5) unfolding fmlookup_ran_iff by (auto simp: fmpred_iff)
  then have "exclusive (fmmap te_display (fmupd ob te tasks))"
    using assms(1) by (simp add: fmmap_fmupd exclusive_reserve tasks_inv_def)
  moreover have "distinct_tasks (fmupd ob te tasks)"
    using assms(1,4) unfolding tasks_inv_def distinct_tasks_def by (metis fmupd_lookup option.inject option.distinct(1))
  ultimately show ?thesis
    using assms(1,2,3,6) unfolding tasks_inv_def by (auto simp: fmlen_upd fmlookup_None_iff split: if_splits)
qed

lemma ep_inv_create_task:
  assumes "ep_inv e" and "ep_ready e"
  shows "ep_inv (snd (create_task ob d package e))"
  using assms
  by (auto simp: create_task_def ts_new_def bind_result_def valid_object_def ep_inv_def not_le
      fmlookup_None_iff intro!: tasks_inv_insert te_inv_fresh split: sum.splits)

lemma keeps_inv_bind_task: "keeps_inv (bind_task ob t)"
  unfolding keeps_inv_def
proof (intro allI impI)
  fix e
  assume inv: "ep_inv e"
  show "ep_inv (snd (bind_task ob t e))"
  proof (cases "fmlookup (ep_tasks e) ob")
    case (Some te)
    let ?te = "te\<lparr>te_task := Some t\<rparr>"
    have "tasks_inv (fmupd ob ?te (ep_tasks e))"
      if free: "fmpred (\<lambda>_ live. te_task live \<noteq> Some t) (ep_tasks e)" and unbound: "te_task te = None"
    proof -
      have "fmmap te_display (fmupd ob ?te (ep_tasks e)) = fmmap te_display (ep_tasks e)"
        using Some by (intro fmap_ext) auto
      moreover have "distinct_tasks (fmupd ob ?te (ep_tasks e))"
        using free inv unfolding ep_inv_def tasks_inv_def distinct_tasks_def
        by (auto simp: fmpred_iff split: if_splits)
      moreover have "te_inv ob ?te"
        using ep_inv_te [OF inv Some] by (simp add: te_inv_def)
      ultimately show ?thesis
        using inv Some unfolding ep_inv_def tasks_inv_def
        by (auto simp: fmlen_upd fmdomI split: if_splits)
    qed
    then show ?thesis
      using inv Some by (auto simp: bind_task_def ep_inv_def)
  qed (simp add: bind_task_def inv)
qed

lemma ts_in_flight_count_0 [simp]: "ts_in_flight_count s = 0 \<longleftrightarrow> ts_in_flight s = fmempty"
  by (simp add: ts_in_flight_count_def fmlen_0_iff)

lemma keeps_inv_destroy_task: "keeps_inv (destroy_task ob)"
  unfolding keeps_inv_def
proof (intro allI impI)
  fix e
  assume inv: "ep_inv e"
  show "ep_inv (snd (destroy_task ob e))"
  proof (cases "fmlookup (ep_tasks e) ob")
    case (Some te)
    have ready: "ep_ready e"
      using inv Some unfolding ep_inv_def by auto
    show ?thesis
    proof (cases "ts_in_flight (te_state te) = fmempty")
      case True
      then show ?thesis
        using inv Some ready tasks_inv_drop [of "ep_tasks e" ob]
        by (simp add: destroy_task_def ep_inv_def fmdrop_fmupd_same)
    next
      case False
      then have "te_inv ob (te\<lparr>te_retiring := True\<rparr>)"
        using ep_inv_te [OF inv Some] by (simp add: te_inv_def)
      then show ?thesis
        using ep_inv_set_task [OF inv Some, of "te\<lparr>te_retiring := True\<rparr>"] Some False
        by (simp add: destroy_task_def Let_def)
    qed
  qed (simp add: destroy_task_def inv)
qed

lemma new_timelines_behind:
  "denial_timelines_import k1 k2 a b = Inr tt \<Longrightarrow> timelines_behind tt s"
  by (auto simp: denial_timelines_import_def import_timeline_def new_timeline_def timelines_behind_def
      tl_latest_fence_def result_simps)

lemma keeps_inv_bind_timelines: "keeps_inv (bind_timelines env ob ds)"
  unfolding keeps_inv_def
proof (intro allI impI)
  fix e
  assume inv: "ep_inv e"
  show "ep_inv (snd (bind_timelines env ob ds e))"
  proof (cases "fmlookup (ep_tasks e) ob")
    case (Some te)
    have te: "te_inv ob te"
      using inv Some by (rule ep_inv_te)
    have "te_inv ob (te\<lparr>te_state := s, te_timelines := Some tt\<rparr>)"
      if "ts_bind_timelines (te_state te) = (Inr (), s)"
        "denial_timelines_import (env_drm env) (env_drm_second env) a b = Inr tt" for s tt a b
      using that te ts_inv_step [of "te_state te" TsBindTimelines] new_timelines_behind
      by (auto simp: te_inv_def ts_bind_timelines_def split: if_splits)
    then have "ep_inv (set_task e ob (te\<lparr>te_state := s, te_timelines := Some tt\<rparr>))"
      if "ts_bind_timelines (te_state te) = (Inr (), s)"
        "denial_timelines_import (env_drm env) (env_drm_second env) a b = Inr tt" for s tt a b
      using that by (intro ep_inv_set_task [OF inv Some]) auto
    moreover have "ts_bind_timelines (te_state te) = (Inl err, s) \<Longrightarrow> s = te_state te" for err s
      by (auto simp: ts_bind_timelines_def split: if_splits)
    ultimately show ?thesis
      using inv Some set_task_same [OF Some]
      by (auto simp: bind_timelines_def snd_op_bind on_task_state_def map_err_Inl_iff map_err_Inr_iff
          split: sum.splits prod.splits)
  qed (simp add: bind_timelines_def snd_op_bind inv split: sum.splits prod.splits)
qed

subsection \<open>Present\<close>

text \<open>Fence operations keep the timelines behind a state that has consumed the point.\<close>

lemma behind_export:
  assumes "denial_export_acquire_fence k tt p = (r, tt')" and "timelines_behind tt s"
    and "p \<le> ts_last_acquire_point s"
  shows "timelines_behind tt' s"
proof -
  obtain t where t: "export_materialized k (tt_acquire tt) p = (r, t)" and "tt' = tt\<lparr>tt_acquire := t\<rparr>"
    using assms(1) by (auto simp: denial_export_acquire_fence_def on_acquire_def split: prod.splits)
  with export_cases [OF t] assms(2,3) show ?thesis
    by (auto simp: timelines_behind_def tl_marks_def)
qed

lemma behind_signal:
  assumes "denial_signal_release k tt p = (r, tt')" and "timelines_behind tt s"
    and "p \<le> ts_last_release_point s"
  shows "timelines_behind tt' s"
proof -
  obtain t where t: "tl_signal k (tt_release tt) p = (r, t)" and "tt' = tt\<lparr>tt_release := t\<rparr>"
    using assms(1) by (auto simp: denial_signal_release_def on_release_def split: prod.splits)
  with signal_cases [OF t] assms(2,3) show ?thesis
    by (auto simp: timelines_behind_def tl_marks_def tl_latest_fence_def)
qed

lemma behind_mono:
  "timelines_behind tt s \<Longrightarrow> ts_last_acquire_point s \<le> ts_last_acquire_point s' \<Longrightarrow>
   ts_last_release_point s \<le> ts_last_release_point s' \<Longrightarrow> timelines_behind tt s'"
  by (auto simp: timelines_behind_def intro: order_trans)

lemma te_inv_advance:
  assumes "te_inv ob te" and "te_timelines te = Some tt" and "ts_inv s" and "timelines_behind tt' s"
    and "ts_object s = ts_object (te_state te)" and "ts_in_flight s = ts_in_flight (te_state te)"
    and "ts_timelines_bound s = ts_timelines_bound (te_state te)"
  shows "te_inv ob (te\<lparr>te_state := s, te_timelines := Some tt'\<rparr>)"
  using assms by (simp add: te_inv_def)

lemma ts_present_Inr:
  "ts_present s ob f b serial acq rel ds = (Inr a, s') \<Longrightarrow>
     present_check s ob f b serial acq rel ds = Inr () \<and>
     a = \<lparr>awf_object = ob, awf_frame = f, awf_buffer = b, awf_acquire_point = acq,
          awf_release_point = rel, awf_damage = ds\<rparr> \<and>
     s' = s\<lparr>ts_last_acquire_point := acq, ts_last_release_point := rel,
       ts_busy_buffers := finsert b (ts_busy_buffers s),
       ts_in_flight := fmupd f \<lparr>pw_buffer = b, pw_release_point = rel\<rparr> (ts_in_flight s)\<rparr>"
  by (auto simp: ts_present_def split: sum.splits)

lemma ts_present_Inl: "ts_present s ob f b serial acq rel ds = (Inl err, s') \<Longrightarrow> s' = s"
  by (auto simp: ts_present_def split: sum.splits)

lemma ts_discard_Inr:
  "ts_discard_superseded_present s ob f b serial acq rel = (Inr m, s') \<Longrightarrow>
     discard_check s ob f b serial acq rel = Inr () \<and> m = BufferReleased (ts_object s) f b rel \<and>
     s' = s\<lparr>ts_last_acquire_point := acq, ts_last_release_point := rel\<rparr>"
  by (auto simp: ts_discard_superseded_present_def split: sum.splits)

lemma ts_discard_Inl:
  "ts_discard_superseded_present s ob f b serial acq rel = (Inl err, s') \<Longrightarrow> s' = s"
  by (auto simp: ts_discard_superseded_present_def split: sum.splits)

lemma te_upd_commute:
  "te\<lparr>te_timelines := x, te_state := y\<rparr> = te\<lparr>te_state := y, te_timelines := x\<rparr>"
  by simp

text \<open>
  An accepted present ends in one of two ways: the frame is pending with its fence, or the fence could
  not be exported and the reservation is undone; the points stay consumed in both.
\<close>

lemma submit_accepted_outcome:
  assumes inv: "te_inv ob te" and hit: "fmlookup (ep_tasks e) ob = Some te"
    and pres: "ts_present (te_state te) ob f b serial acq rel ds = (Inr a, s')"
  obtains (submitted) fence tt' where
      "submit_accepted env a (set_task e ob (te\<lparr>te_state := s'\<rparr>)) = (Inr (ActPresent a fence),
         set_task e ob (te\<lparr>te_state := s', te_timelines := Some tt',
           te_pending := fmupd f a (te_pending te)\<rparr>))"
      "te_inv ob (te\<lparr>te_state := s', te_timelines := Some tt',
         te_pending := fmupd f a (te_pending te)\<rparr>)"
  | (rolled_back) err tt' where
      "submit_accepted env a (set_task e ob (te\<lparr>te_state := s'\<rparr>)) = (Inl (EpSync err),
         set_task e ob (te\<lparr>te_state := drop_frame s' f b, te_timelines := Some tt'\<rparr>))"
      "te_inv ob (te\<lparr>te_state := drop_frame s' f b, te_timelines := Some tt'\<rparr>)"
      "ts_in_flight (drop_frame s' f b) = ts_in_flight (te_state te)"
proof -
  let ?s = "te_state te"
  note p = ts_present_Inr [OF pres]
  then have check: "present_check ?s ob f b serial acq rel ds = Inr ()" by blast
  then have bound: "ts_timelines_bound ?s" and fresh: "f |\<notin>| fmdom (ts_in_flight ?s)"
    and newer: "ts_last_acquire_point ?s \<le> acq" "ts_last_release_point ?s \<le> rel"
    by (auto simp: present_check_iff)
  from bound inv obtain tt where tt: "te_timelines te = Some tt" and behind: "timelines_behind tt ?s"
    by (auto simp: te_inv_def)
  obtain r tt' where ex: "denial_export_acquire_fence (env_drm env) tt acq = (r, tt')"
    by fastforce
  have s': "ts_object s' = ts_object ?s" "ts_timelines_bound s' = ts_timelines_bound ?s"
    "ts_in_flight s' = fmupd f \<lparr>pw_buffer = b, pw_release_point = rel\<rparr> (ts_in_flight ?s)"
    "ts_last_acquire_point s' = acq" "ts_last_release_point s' = rel"
    using p by auto
  have inv': "ts_inv s'"
    using inv ts_inv_step [of ?s "TsPresent ob f b serial acq rel ds"] pres by (simp add: te_inv_def)
  have behind': "timelines_behind tt' s'"
    by (rule behind_export [OF ex behind_mono [OF behind]]) (use newer s' in simp_all)
  show ?thesis
  proof (cases r)
    case (Inr fence)
    show ?thesis
    proof (rule submitted)
      show "submit_accepted env a (set_task e ob (te\<lparr>te_state := s'\<rparr>)) = (Inr (ActPresent a fence),
         set_task e ob (te\<lparr>te_state := s', te_timelines := Some tt',
           te_pending := fmupd f a (te_pending te)\<rparr>))"
        using p ex tt Inr by (simp add: submit_accepted_def)
      show "te_inv ob (te\<lparr>te_state := s', te_timelines := Some tt',
         te_pending := fmupd f a (te_pending te)\<rparr>)"
        using inv inv' behind' s' p tt by (auto simp: te_inv_def fmmap_fmupd wire_tuple_def)
    qed
  next
    case (Inl err)
    have hit': "fmlookup (ts_in_flight s') f = Some \<lparr>pw_buffer = b, pw_release_point = rel\<rparr>"
      using s' by simp
    then have cancel: "ts_cancel_unsubmitted s' f b rel = (Inr (), drop_frame s' f b)"
      using pending_check_iff [of s' f b rel "()"] by (simp add: ts_cancel_unsubmitted_def)
    have same: "ts_in_flight (drop_frame s' f b) = ts_in_flight ?s"
      using fresh s' by (simp add: drop_frame_def fmdrop_fmupd_fresh fmdom_notD)
    have "ts_inv (drop_frame s' f b)"
      using ts_inv_step [OF inv', of "TsCancel f b rel"] cancel by simp
    moreover have "timelines_behind tt' (drop_frame s' f b)"
      using behind' by (simp add: drop_frame_def timelines_behind_def)
    ultimately have "te_inv ob (te\<lparr>te_state := drop_frame s' f b, te_timelines := Some tt'\<rparr>)"
      using te_inv_advance [OF inv tt] same s' by (simp add: drop_frame_def)
    moreover have "submit_accepted env a (set_task e ob (te\<lparr>te_state := s'\<rparr>)) = (Inl (EpSync err),
         set_task e ob (te\<lparr>te_state := drop_frame s' f b, te_timelines := Some tt'\<rparr>))"
      using conjunct1 [OF conjunct2 [OF p]] ex tt Inl cancel
      by (simp add: submit_accepted_def on_task_state_def op_bind_def te_upd_commute)
    ultimately show ?thesis
      using same by (intro rolled_back)
  qed
qed

lemma discard_superseded_outcome:
  assumes inv: "te_inv ob te" and hit: "fmlookup (ep_tasks e) ob = Some te"
  obtains (refused) err where "discard_superseded env ob f b serial acq rel e = (Inl (EpState err), e)"
      "\<not> is_ok (fst (ts_discard_superseded_present (te_state te) ob f b serial acq rel))"
  | (consumed) r e' s' tt' where "discard_superseded env ob f b serial acq rel e = (r, e')"
      "ts_discard_superseded_present (te_state te) ob f b serial acq rel
         = (Inr (BufferReleased ob f b rel), s')"
      "ep_tasks e' = fmupd ob (te\<lparr>te_state := s', te_timelines := Some tt'\<rparr>) (ep_tasks e)"
      "ep_ready e' = ep_ready e"
      "te_inv ob (te\<lparr>te_state := s', te_timelines := Some tt'\<rparr>)"
      "ts_in_flight s' = ts_in_flight (te_state te)"
proof -
  let ?s = "te_state te" and ?k = "env_drm env"
  obtain r0 s' where disc: "ts_discard_superseded_present ?s ob f b serial acq rel = (r0, s')"
    by fastforce
  show ?thesis
  proof (cases r0)
    case (Inl err)
    then show ?thesis
      using disc hit ts_discard_Inl [of ?s ob f b serial acq rel err s'] set_task_same [OF hit]
      by (intro refused [of err]) (simp_all add: discard_superseded_def on_task_state_def op_bind_def)
  next
    case (Inr m)
    note d = ts_discard_Inr [OF disc [unfolded Inr]]
    then have bound: "ts_timelines_bound ?s" and newer: "ts_last_acquire_point ?s \<le> acq"
      "ts_last_release_point ?s \<le> rel" and m: "m = BufferReleased ob f b rel"
      using inv by (auto simp: discard_check_iff te_inv_def)
    from bound inv obtain tt where tt: "te_timelines te = Some tt" and behind: "timelines_behind tt ?s"
      by (auto simp: te_inv_def)
    have s': "ts_object s' = ts_object ?s" "ts_timelines_bound s' = ts_timelines_bound ?s"
      "ts_in_flight s' = ts_in_flight ?s" "ts_last_acquire_point s' = acq"
      "ts_last_release_point s' = rel"
      using d by auto
    have inv': "ts_inv s'"
      using inv ts_inv_step [of ?s "TsDiscard ob f b serial acq rel"] disc by (simp add: te_inv_def)
    obtain r1 tt1 where ex: "denial_export_acquire_fence ?k tt acq = (r1, tt1)" by fastforce
    obtain r2 tt2 where sg: "denial_signal_release ?k tt1 rel = (r2, tt2)" by fastforce
    have b1: "timelines_behind tt1 s'"
      by (rule behind_export [OF ex behind_mono [OF behind]]) (use newer s' in simp_all)
    then have b2: "timelines_behind tt2 s'"
      by (rule behind_signal [OF sg]) (use s' in simp)
    have at: "on_task_state ob (\<lambda>s. ts_discard_superseded_present s ob f b serial acq rel) e
        = (Inr m, set_task e ob (te\<lparr>te_state := s'\<rparr>))"
      using disc hit Inr by (simp add: on_task_state_def)
    let ?ex = "\<lambda>tt. denial_export_acquire_fence ?k tt acq" and ?sg = "\<lambda>tt. denial_signal_release ?k tt rel"
    have t1: "on_timelines ob ?ex (set_task e ob (te\<lparr>te_state := s'\<rparr>))
        = (map_err EpSync r1, set_task e ob (te\<lparr>te_state := s', te_timelines := Some tt1\<rparr>))"
      using tt ex by (simp add: on_timelines_def)
    have t2: "on_timelines ob ?sg (set_task e ob (te\<lparr>te_state := s', te_timelines := Some tt1\<rparr>))
        = (map_err EpSync r2, set_task e ob (te\<lparr>te_state := s', te_timelines := Some tt2\<rparr>))"
      using sg by (simp add: on_timelines_def)
    show ?thesis
    proof (cases r1)
      case (Inl err)
      show ?thesis
        by (rule consumed [of _ "set_task e ob (te\<lparr>te_state := s', te_timelines := Some tt1\<rparr>)" s' tt1])
          (use at t1 Inl s' disc \<open>r0 = Inr m\<close> m te_inv_advance [OF inv tt inv' b1] in
            \<open>simp_all add: discard_superseded_def op_bind_def\<close>)
    next
      case (Inr fd)
      show ?thesis
        by (rule consumed [of _ _ s' tt2, OF surjective_pairing])
          (use at t1 t2 Inr s' disc \<open>r0 = Inr m\<close> m te_inv_advance [OF inv tt inv' b2] in
            \<open>auto simp: discard_superseded_def op_bind_def ep_send_def split: sum.split\<close>)
    qed
  qed
qed

lemma ep_present_outcome:
  assumes inv: "te_inv ob te" and hit: "fmlookup (ep_tasks e) ob = Some te"
  obtains (refused) err where "ep_present env ob f b serial acq rel ds e = (Inl err, e)"
      "\<not> is_ok (fst (ts_present (te_state te) ob f b serial acq rel ds))"
      "(\<exists>x y. fst (ts_present (te_state te) ob f b serial acq rel ds) = Inl (StaleConfigure x y)) \<longrightarrow>
       \<not> is_ok (fst (ts_discard_superseded_present (te_state te) ob f b serial acq rel))"
  | (submitted) fence a s' tt' where
      "ep_present env ob f b serial acq rel ds e = (Inr (ActPresent a fence),
         set_task e ob (te\<lparr>te_state := s', te_timelines := Some tt',
           te_pending := fmupd f a (te_pending te)\<rparr>))"
      "ts_present (te_state te) ob f b serial acq rel ds = (Inr a, s')"
      "te_inv ob (te\<lparr>te_state := s', te_timelines := Some tt',
         te_pending := fmupd f a (te_pending te)\<rparr>)"
  | (rolled_back) err a s' tt' where
      "ep_present env ob f b serial acq rel ds e = (Inl (EpSync err),
         set_task e ob (te\<lparr>te_state := drop_frame s' f b, te_timelines := Some tt'\<rparr>))"
      "ts_present (te_state te) ob f b serial acq rel ds = (Inr a, s')"
      "te_inv ob (te\<lparr>te_state := drop_frame s' f b, te_timelines := Some tt'\<rparr>)"
      "ts_in_flight (drop_frame s' f b) = ts_in_flight (te_state te)"
  | (discarded) x y r e' s' tt' where
      "fst (ts_present (te_state te) ob f b serial acq rel ds) = Inl (StaleConfigure x y)"
      "ep_present env ob f b serial acq rel ds e = (r, e')"
      "ts_discard_superseded_present (te_state te) ob f b serial acq rel
         = (Inr (BufferReleased ob f b rel), s')"
      "ep_tasks e' = fmupd ob (te\<lparr>te_state := s', te_timelines := Some tt'\<rparr>) (ep_tasks e)"
      "ep_ready e' = ep_ready e"
      "te_inv ob (te\<lparr>te_state := s', te_timelines := Some tt'\<rparr>)"
      "ts_in_flight s' = ts_in_flight (te_state te)"
proof -
  let ?op = "\<lambda>s. ts_present s ob f b serial acq rel ds"
  obtain r0 s' where pres: "?op (te_state te) = (r0, s')" by fastforce
  show ?thesis
  proof (cases r0)
    case (Inr a)
    have at: "on_task_state ob ?op e = (Inr a, set_task e ob (te\<lparr>te_state := s'\<rparr>))"
      using hit pres Inr by (simp add: on_task_state_def)
    show ?thesis
    proof (cases rule: submit_accepted_outcome [OF inv hit pres [unfolded Inr], of env,
          case_names submitted' rolled_back'])
      case (submitted' fence tt')
      then show ?thesis
        using at pres Inr by (intro submitted) (simp_all add: ep_present_def)
    next
      case (rolled_back' err tt')
      then show ?thesis
        using at pres Inr by (intro rolled_back) (simp_all add: ep_present_def)
    qed
  next
    case (Inl err)
    then have "s' = te_state te"
      using pres ts_present_Inl by blast
    then have at: "on_task_state ob ?op e = (Inl (EpState err), e)"
      using hit pres Inl set_task_same [OF hit] by (simp add: on_task_state_def)
    show ?thesis
    proof (cases "\<exists>x y. err = StaleConfigure x y")
      case True
      then obtain x y where err: "err = StaleConfigure x y" by blast
      show ?thesis
      proof (cases rule: discard_superseded_outcome [OF inv hit, of env f b serial acq rel,
            case_names refused' consumed'])
        case (refused' err')
        then show ?thesis
          using at pres Inl err by (intro refused) (simp_all add: ep_present_def)
      next
        case (consumed' r e' s'' tt')
        then show ?thesis
          using at pres Inl err by (intro discarded [of x y r e' s'' tt']) (simp_all add: ep_present_def)
      qed
    next
      case False
      then show ?thesis
        using at pres Inl by (intro refused [of "EpState err"]) (auto simp: ep_present_def split: task_state_error.split)
    qed
  qed
qed

lemma keeps_inv_present: "keeps_inv (ep_present env ob f b serial acq rel ds)"
  unfolding keeps_inv_def
proof (intro allI impI)
  fix e
  assume inv: "ep_inv e"
  show "ep_inv (snd (ep_present env ob f b serial acq rel ds e))"
  proof (cases "fmlookup (ep_tasks e) ob")
    case None
    then show ?thesis using inv by (simp add: ep_present_def)
  next
    case (Some te)
    show ?thesis
    proof (cases rule: ep_present_outcome [OF ep_inv_te [OF inv Some] Some,
          of env f b serial acq rel ds, case_names refused submitted rolled_back discarded])
      case (discarded x y r e' s' tt')
      then show ?thesis
        using inv Some tasks_inv_upd [of "ep_tasks e" ob te] by (auto simp: ep_inv_def)
    qed (use inv Some ep_inv_set_task [OF inv Some] in simp_all)
  qed
qed

subsection \<open>Releases\<close>

text \<open>A frame the endpoint remembers is always released by the task state.\<close>

lemma pending_release:
  assumes "te_inv ob te" and "fmlookup (te_pending te) f = Some a"
  shows "ts_release (te_state te) f (awf_buffer a) (awf_release_point a) =
      (Inr (BufferReleased ob f (awf_buffer a) (awf_release_point a)),
       drop_frame (te_state te) f (awf_buffer a))"
    and "fmlookup (ts_in_flight (te_state te)) f = Some (wire_tuple a)"
proof -
  have "ts_in_flight (te_state te) = fmmap wire_tuple (te_pending te)"
    using assms(1) by (simp add: te_inv_def)
  then show hit: "fmlookup (ts_in_flight (te_state te)) f = Some (wire_tuple a)"
    using assms(2) by simp
  then show "ts_release (te_state te) f (awf_buffer a) (awf_release_point a) =
      (Inr (BufferReleased ob f (awf_buffer a) (awf_release_point a)),
       drop_frame (te_state te) f (awf_buffer a))"
    using assms(1) pending_check_iff [of "te_state te" f "awf_buffer a" "awf_release_point a" "()"]
    by (simp add: ts_release_def wire_tuple_def te_inv_def)
qed

lemma te_inv_release:
  assumes inv: "te_inv ob te" and hit: "fmlookup (te_pending te) f = Some a"
    and keep: "\<not> (te_retiring te \<and> fmdrop f (ts_in_flight (te_state te)) = fmempty)"
  shows "te_inv ob (te\<lparr>te_state := drop_frame (te_state te) f (awf_buffer a),
    te_pending := fmdrop f (te_pending te)\<rparr>)"
proof -
  have "ts_inv (drop_frame (te_state te) f (awf_buffer a))"
    using inv pending_release(1) [OF inv hit]
      ts_inv_step [of "te_state te" "TsRelease f (awf_buffer a) (awf_release_point a)"]
    by (simp add: te_inv_def)
  moreover have "fmmap wire_tuple (fmdrop f (te_pending te)) = fmdrop f (ts_in_flight (te_state te))"
    using inv by (simp add: te_inv_def flip: fmdrop_fmmap)
  ultimately show ?thesis
    using inv keep by (auto simp: te_inv_def drop_frame_def timelines_behind_def split: if_splits)
qed

lemma finish_release_tasks:
  assumes inv: "te_inv ob te" and hit: "fmlookup (ep_tasks e) ob = Some te"
    and pend: "fmlookup (te_pending te) f = Some a"
  shows "ep_tasks (snd (finish_release env ob f e)) =
    (if te_retiring te \<and> fmdrop f (ts_in_flight (te_state te)) = fmempty
     then fmdrop ob (ep_tasks e)
     else fmupd ob (te\<lparr>te_state := drop_frame (te_state te) f (awf_buffer a),
       te_pending := fmdrop f (te_pending te)\<rparr>) (ep_tasks e))"
    and "ep_ready (snd (finish_release env ob f e)) = ep_ready e"
  using assms pending_release(1) [OF inv pend]
  by (auto simp: finish_release_def Let_def drop_frame_def fmdrop_fmupd_same)

lemma finish_release_unknown:
  "fmlookup (ep_tasks e) ob = None \<Longrightarrow> finish_release env ob f e = (Inl (UnknownObject ob), e)"
  "fmlookup (ep_tasks e) ob = Some te \<Longrightarrow> fmlookup (te_pending te) f = None \<Longrightarrow>
     finish_release env ob f e = (Inl (EndpointUnknownFrame ob f), e)"
  by (simp_all add: finish_release_def)

lemma keeps_inv_finish_release: "keeps_inv (finish_release env ob f)"
  unfolding keeps_inv_def
proof (intro allI impI)
  fix e
  assume inv: "ep_inv e"
  show "ep_inv (snd (finish_release env ob f e))"
  proof (cases "fmlookup (ep_tasks e) ob")
    case (Some te)
    have te: "te_inv ob te"
      using inv Some by (rule ep_inv_te)
    have ready: "ep_ready e"
      using inv Some unfolding ep_inv_def by auto
    show ?thesis
    proof (cases "fmlookup (te_pending te) f")
      case pend: (Some a)
      show ?thesis
        unfolding ep_inv_def finish_release_tasks [OF te Some pend]
        using inv ready tasks_inv_drop [of "ep_tasks e" ob]
          tasks_inv_upd [OF _ Some te_inv_release [OF te pend]]
        by (auto simp: ep_inv_def)
    qed (use inv Some in \<open>simp add: finish_release_unknown\<close>)
  qed (simp add: finish_release_unknown inv)
qed

lemma keeps_inv_materialize [simp]: "keeps_inv (materialize_release ob f)"
  unfolding materialize_release_def by (intro keeps_inv_bind) simp_all

lemma keeps_inv_discard_frame: "keeps_inv (discard_frame env ob f)"
  unfolding discard_frame_def by (intro keeps_inv_bind keeps_inv_finish_release) simp_all

subsection \<open>Render targets and presentation feedback\<close>

text \<open>Registration and its rollback are inverse on the task state.\<close>

lemma register_unregister:
  assumes "ts_inv s" and "ts_register_buffer s b = (Inr (), s1)"
  shows "snd (ts_unregister_buffer s1 (buf_id b)) = s"
proof -
  have fresh: "buf_id b |\<notin>| fmdom (ts_buffers s)"
    and s1: "s1 = s\<lparr>ts_buffers := fmupd (buf_id b) b (ts_buffers s)\<rparr>"
    using assms(2) by (auto simp: ts_register_buffer_def split: sum.splits if_splits)
  then have "buf_id b |\<notin>| ts_busy_buffers s"
    using assms(1) unfolding ts_inv_def ts_cache_inv_def by blast
  then show ?thesis
    using fresh by (simp add: ts_unregister_buffer_def s1 fmdrop_fmupd_fresh fmdom_notD)
qed

lemma unregister_register:
  assumes inv: "ts_inv s" and "ts_unregister_buffer s k = (Inr b, s1)"
  shows "ts_register_buffer s1 b = (Inr (), s)"
proof -
  have hit: "fmlookup (ts_buffers s) k = Some b" and s1: "s1 = s\<lparr>ts_buffers := fmdrop k (ts_buffers s)\<rparr>"
    using assms(2) by (auto simp: ts_unregister_buffer_def split: if_splits option.splits)
  then have key: "buf_id b = k" and ok: "buffer_wire_ok b"
    and room: "fmlen (ts_buffers s) \<le> unat MAX_BUFFERS_PER_TASK"
    using inv by (auto simp: ts_inv_def ts_cache_inv_def)
  have "0 < fmlen (ts_buffers s)"
    using hit fmlen_0_iff [of "ts_buffers s"] by (cases "fmlen (ts_buffers s)") auto
  then have "fmlen (fmdrop k (ts_buffers s)) < unat MAX_BUFFERS_PER_TASK"
    using room hit by (simp add: fmlen_drop fmdomI)
  then show ?thesis
    using ok key fmupd_fmdrop_same [OF hit]
    by (simp add: ts_register_buffer_def s1 buffer_wire_ok_def)
qed

lemma register_render_target_failure:
  assumes inv: "ep_inv e" and bad: "register_render_target env ob serial b planes e = (Inl err, e')"
  shows "e' = e"
proof (cases "fmlookup (ep_tasks e) ob")
  case (Some te)
  have tsi: "ts_inv (te_state te)"
    using ep_inv_te [OF inv Some] by (simp add: te_inv_def)
  obtain r s1 where reg: "ts_register_buffer (te_state te) b = (r, s1)" by fastforce
  show ?thesis
  proof (cases r)
    case (Inl x)
    then have "s1 = te_state te"
      using reg by (auto simp: ts_register_buffer_def split: sum.splits if_splits)
    then show ?thesis
      using bad reg Inl Some set_task_same [OF Some]
      by (simp add: register_render_target_def on_task_state_def op_bind_def)
  next
    case (Inr u)
    then show ?thesis
      using bad reg Some set_task_same [OF Some] register_unregister [OF tsi, of b s1]
      by (auto simp: register_render_target_def on_task_state_def op_bind_def ep_send_def
          split: sum.splits)
  qed
qed (use bad in \<open>simp add: register_render_target_def op_bind_def\<close>)

lemma unregister_render_target_failure:
  assumes inv: "ep_inv e" and bad: "unregister_render_target env ob k e = (Inl err, e')"
  shows "e' = e" and "fmlookup (ep_tasks e) ob = Some te \<Longrightarrow>
    is_ok (fst (ts_unregister_buffer (te_state te) k)) \<Longrightarrow> \<exists>x. err = EpIpc x"
proof -
  have "e' = e \<and> (is_ok (fst (ts_unregister_buffer (te_state te) k)) \<longrightarrow> (\<exists>x. err = EpIpc x))"
    if Some: "fmlookup (ep_tasks e) ob = Some te" for te
  proof -
    have tsi: "ts_inv (te_state te)"
      using ep_inv_te [OF inv Some] by (simp add: te_inv_def)
    obtain r s1 where unreg: "ts_unregister_buffer (te_state te) k = (r, s1)" by fastforce
    show ?thesis
    proof (cases r)
      case (Inl x)
      then have "s1 = te_state te"
        using unreg by (auto simp: ts_unregister_buffer_def split: option.splits if_splits)
      then show ?thesis
        using bad unreg Inl Some set_task_same [OF Some]
        by (simp add: unregister_render_target_def on_task_state_def op_bind_def)
    next
      case (Inr b)
      then have "ts_register_buffer s1 b = (Inr (), te_state te)"
        using unregister_register [OF tsi] unreg by simp
      then show ?thesis
        using bad unreg Inr Some set_task_same [OF Some]
        by (auto simp: unregister_render_target_def on_task_state_def op_bind_def ep_send_def
            split: sum.splits)
    qed
  qed
  then show "e' = e" and "fmlookup (ep_tasks e) ob = Some te \<Longrightarrow>
      is_ok (fst (ts_unregister_buffer (te_state te) k)) \<Longrightarrow> \<exists>x. err = EpIpc x"
    using bad by (cases "fmlookup (ep_tasks e) ob";
        simp add: unregister_render_target_def op_bind_def)+
qed

lemma keeps_inv_register_render_target: "keeps_inv (register_render_target env ob serial b planes)"
  unfolding keeps_inv_def
proof (intro allI impI)
  fix e
  assume inv: "ep_inv e"
  obtain r e' where eq: "register_render_target env ob serial b planes e = (r, e')" by fastforce
  show "ep_inv (snd (register_render_target env ob serial b planes e))"
  proof (cases r)
    case (Inl err)
    then show ?thesis
      using eq inv register_render_target_failure [OF inv] by (metis snd_conv)
  next
    case (Inr u)
    then have "e' = snd (op_bind (on_task_state ob (\<lambda>s. ts_register_buffer s b))
        (\<lambda>_. ep_send env (RegisterRenderTarget ob serial b) planes) e)"
      using eq by (auto simp: register_render_target_def op_bind_def
          split: prod.splits sum.splits option.splits)
    moreover have "keeps_inv (op_bind (on_task_state ob (\<lambda>s. ts_register_buffer s b))
        (\<lambda>_. ep_send env (RegisterRenderTarget ob serial b) planes))"
      by (intro keeps_inv_bind) simp_all
    ultimately show ?thesis
      using eq inv by (simp add: keeps_invD)
  qed
qed

lemma keeps_inv_unregister_render_target: "keeps_inv (unregister_render_target env ob k)"
  unfolding keeps_inv_def
proof (intro allI impI)
  fix e
  assume inv: "ep_inv e"
  obtain r e' where eq: "unregister_render_target env ob k e = (r, e')" by fastforce
  show "ep_inv (snd (unregister_render_target env ob k e))"
  proof (cases r)
    case (Inl err)
    then show ?thesis
      using eq inv unregister_render_target_failure(1) [OF inv] by (metis snd_conv)
  next
    case (Inr u)
    then have "e' = snd (op_bind (on_task_state ob (\<lambda>s. ts_unregister_buffer s k))
        (\<lambda>_. ep_send env (UnregisterRenderTarget ob k) []) e)"
      using eq by (auto simp: unregister_render_target_def op_bind_def
          split: prod.splits sum.splits option.splits)
    moreover have "keeps_inv (op_bind (on_task_state ob (\<lambda>s. ts_unregister_buffer s k))
        (\<lambda>_. ep_send env (UnregisterRenderTarget ob k) []))"
      by (intro keeps_inv_bind) simp_all
    ultimately show ?thesis
      using eq inv by (simp add: keeps_invD)
  qed
qed

lemma te_inv_frames:
  "te_inv ob te \<Longrightarrow> fcard fs \<le> 64 \<Longrightarrow> te_inv ob (te\<lparr>te_presentation_frames := fs\<rparr>)"
  by (simp add: te_inv_def)

lemma fcard_fminus_le: "fcard (A |-| B) \<le> fcard A"
  by (rule fcard_mono) auto

lemma te_inv_forget:
  "te_inv ob te \<Longrightarrow>
     te_inv ob (te\<lparr>te_presentation_frames := te_presentation_frames te |-| {|f|}\<rparr>)"
  by (rule te_inv_frames) (auto simp: te_inv_def intro: order_trans [OF fcard_fminus_le])

lemma keeps_inv_track: "keeps_inv (track_presentation ob f)"
  unfolding keeps_inv_def
  by (auto simp: track_presentation_def fcard_finsert_if split: option.splits
      intro!: ep_inv_set_task te_inv_frames dest: ep_inv_te)

lemma ep_inv_forget: "ep_inv e \<Longrightarrow> ep_inv (forget_presentation ob f e)"
  by (auto simp: forget_presentation_def split: option.splits
      intro!: ep_inv_set_task te_inv_forget dest: ep_inv_te)

lemma keeps_inv_send_presented: "keeps_inv (send_presented env ob f t p q fl)"
  unfolding keeps_inv_def
  by (auto simp: send_presented_def Let_def split: option.splits
      intro!: ep_inv_set_task te_inv_forget dest: ep_inv_te)

lemma keeps_inv_scene: "keeps_inv (send_scene_presented env ob sc t p q)"
  unfolding keeps_inv_def send_scene_presented_def
  by (auto simp: snd_op_bind task_of_def split: sum.splits)

lemma keeps_inv_grant: "keeps_inv (send_frame_grant env l t p)"
  unfolding keeps_inv_def send_frame_grant_def by simp

lemma keeps_inv_sends [simp]:
  "keeps_inv (request_input_channel env g)" "keeps_inv (send_format_feedback env ob gen fs)"
  "keeps_inv (send_configure env ob serial w h n d tr r)" "keeps_inv (send_visibility env ob v fo)"
  "keeps_inv (send_display_power env po)" "keeps_inv (send_close env ob)"
  "keeps_inv (send_input env ob sn ts ev)" "keeps_inv (send_fatal env obo code opc text)"
  unfolding request_input_channel_def send_format_feedback_def send_configure_def send_visibility_def
    send_display_power_def send_close_def send_input_def send_fatal_def
  by (auto intro!: keeps_inv_bind)

subsection \<open>Every received record\<close>

lemma ep_inv_handle_android:
  assumes inv: "ep_inv e" and ready: "ep_ready e \<or> is_client_hello m"
  shows "ep_inv (snd (handle_android env m ds e))"
proof (cases m)
  case (CreateTask ob d package)
  then show ?thesis
    using ep_inv_create_task [OF inv] ready by simp
next
  case (RegisterBuffer ob b)
  have "keeps_inv (register_buffer ob b ds)"
    unfolding register_buffer_def by (intro keeps_inv_bind) simp_all
  then show ?thesis
    using inv by (simp add: RegisterBuffer keeps_invD)
next
  case (BindInputChannel g w)
  have "keeps_inv (bind_input_channel g w ds)"
    unfolding bind_input_channel_def by (intro keeps_inv_bind) (auto split: list.splits)
  then show ?thesis
    using inv by (simp add: BindInputChannel keeps_invD)
next
  case (BindInputRoute ob d i)
  have "keeps_inv (bind_input_route ob d i)"
    unfolding bind_input_route_def by (intro keeps_inv_bind) simp_all
  then show ?thesis
    using inv by (simp add: BindInputRoute keeps_invD)
next
  case (RequestActivation ob)
  have "keeps_inv (request_activation ob)"
    unfolding request_activation_def by (intro keeps_inv_bind) simp_all
  then show ?thesis
    using inv by (simp add: RequestActivation keeps_invD)
qed (use inv in \<open>auto intro!: keeps_invD [OF keeps_inv_bind] keeps_invD [OF keeps_inv_client_hello]
      keeps_invD [OF keeps_inv_bind_task] keeps_invD [OF keeps_inv_destroy_task]
      keeps_invD [OF keeps_inv_bind_timelines] keeps_invD [OF keeps_inv_present] keeps_inv_bind\<close>)

lemma keeps_inv_receive: "keeps_inv (receive_action env)"
  unfolding keeps_inv_def receive_action_def
  by (auto simp: snd_op_bind ep_inv_handle_android split: sum.splits)

subsection \<open>The endpoint as a frame owner\<close>

text \<open>Every public operation of the endpoint, with the kernel's behaviour during it.\<close>

datatype endpoint_call =
    CallReceive host_env
  | CallRequestInputChannel host_env u64
  | CallFormatFeedback host_env task_object_id u32 "format_modifier list"
  | CallRegisterTarget host_env task_object_id u32 buffer_metadata "owned_fd list"
  | CallUnregisterTarget host_env task_object_id buffer_id
  | CallConfigure host_env task_object_id u32 u32 u32 u32 u32 transform u32
  | CallVisibility host_env task_object_id visibility bool
  | CallDisplayPower host_env bool
  | CallClose host_env task_object_id
  | CallInput host_env task_object_id u64 u64 input_event
  | CallMaterializeRelease task_object_id frame_id
  | CallFinishRelease host_env task_object_id frame_id
  | CallDiscardFrame host_env task_object_id frame_id
  | CallFrameGrant host_env u64 u64 u64
  | CallScenePresented host_env task_object_id u64 u64 u64 u64
  | CallTrackPresentation task_object_id frame_id
  | CallForgetPresentation task_object_id frame_id
  | CallPresented host_env task_object_id frame_id u64 u64 u64 u32
  | CallFatal host_env "task_object_id option" protocol_error_code u16 rust_string

fun ep_step :: "endpoint \<Rightarrow> endpoint_call \<Rightarrow> endpoint" where
  "ep_step e (CallReceive env) = snd (receive_action env e)"
| "ep_step e (CallRequestInputChannel env g) = snd (request_input_channel env g e)"
| "ep_step e (CallFormatFeedback env ob gen fs) = snd (send_format_feedback env ob gen fs e)"
| "ep_step e (CallRegisterTarget env ob serial b planes) =
     snd (register_render_target env ob serial b planes e)"
| "ep_step e (CallUnregisterTarget env ob k) = snd (unregister_render_target env ob k e)"
| "ep_step e (CallConfigure env ob serial w h n d tr r) = snd (send_configure env ob serial w h n d tr r e)"
| "ep_step e (CallVisibility env ob v focused) = snd (send_visibility env ob v focused e)"
| "ep_step e (CallDisplayPower env powered) = snd (send_display_power env powered e)"
| "ep_step e (CallClose env ob) = snd (send_close env ob e)"
| "ep_step e (CallInput env ob serial t ev) = snd (send_input env ob serial t ev e)"
| "ep_step e (CallMaterializeRelease ob f) = snd (materialize_release ob f e)"
| "ep_step e (CallFinishRelease env ob f) = snd (finish_release env ob f e)"
| "ep_step e (CallDiscardFrame env ob f) = snd (discard_frame env ob f e)"
| "ep_step e (CallFrameGrant env l t p) = snd (send_frame_grant env l t p e)"
| "ep_step e (CallScenePresented env ob sc t p q) = snd (send_scene_presented env ob sc t p q e)"
| "ep_step e (CallTrackPresentation ob f) = snd (track_presentation ob f e)"
| "ep_step e (CallForgetPresentation ob f) = forget_presentation ob f e"
| "ep_step e (CallPresented env ob f t p q fl) = snd (send_presented env ob f t p q fl e)"
| "ep_step e (CallFatal env obo code opc text) = snd (send_fatal env obo code opc text e)"

lemma ep_inv_step: "ep_inv e \<Longrightarrow> ep_inv (ep_step e c)"
  by (cases c)
    (simp_all add: ep_inv_forget keeps_invD keeps_inv_receive keeps_inv_register_render_target
      keeps_inv_unregister_render_target keeps_inv_finish_release keeps_inv_discard_frame
      keeps_inv_track keeps_inv_send_presented keeps_inv_scene keeps_inv_grant)

lemma ep_inv_new: "ep_inv ep_new"
  by (simp add: ep_inv_def ep_new_def tasks_inv_def distinct_tasks_def)

text \<open>The ledger of one object: empty while no such task is live.\<close>

definition ep_ledger :: "task_object_id \<Rightarrow> endpoint \<Rightarrow> (frame_id, buffer_id) fmap" where
  "ep_ledger ob e =
     (case fmlookup (ep_tasks e) ob of None \<Rightarrow> fmempty | Some te \<Rightarrow> ts_ledger (te_state te))"

text \<open>What a present does to it: taken, taken and given back at once, or nothing.\<close>

definition present_events ::
  "host_env \<Rightarrow> endpoint \<Rightarrow> task_object_id \<Rightarrow> frame_id \<Rightarrow> buffer_id \<Rightarrow> u32 \<Rightarrow> u64 \<Rightarrow> u64 \<Rightarrow> damage list
     \<Rightarrow> (frame_id, buffer_id) ledger_event list" where
  "present_events env e ob f b serial acq rel ds =
     (case fmlookup (ep_tasks e) ob of
        None \<Rightarrow> []
      | Some te \<Rightarrow>
          (case fst (ts_present (te_state te) ob f b serial acq rel ds) of
             Inr _ \<Rightarrow>
               if is_ok (fst (ep_present env ob f b serial acq rel ds e)) then [Reserve f b]
               else [Reserve f b, Retire f b]
           | Inl (StaleConfigure _ _) \<Rightarrow> ts_events (te_state te) (TsDiscard ob f b serial acq rel)
           | Inl _ \<Rightarrow> []))"

definition release_events ::
  "endpoint \<Rightarrow> task_object_id \<Rightarrow> frame_id \<Rightarrow> (frame_id, buffer_id) ledger_event list" where
  "release_events e ob f =
     (case fmlookup (ep_tasks e) ob of
        None \<Rightarrow> []
      | Some te \<Rightarrow>
          (case fmlookup (te_pending te) f of None \<Rightarrow> [] | Some a \<Rightarrow> [Retire f (awf_buffer a)]))"

fun message_events ::
  "task_object_id \<Rightarrow> host_env \<Rightarrow> endpoint \<Rightarrow> android_message \<Rightarrow> (frame_id, buffer_id) ledger_event list"
where
  "message_events o1 env e (Present ob f b serial acq rel ds) =
     (if ob = o1 then present_events env e ob f b serial acq rel ds else [])"
| "message_events o1 env e _ = []"

fun ep_events ::
  "task_object_id \<Rightarrow> endpoint \<Rightarrow> endpoint_call \<Rightarrow> (frame_id, buffer_id) ledger_event list" where
  "ep_events o1 e (CallReceive env) =
     (case receive_android_into (env_cmsg_base env) (env_recvmsg env) MAX_PACKET_BYTES of
        Inl _ \<Rightarrow> []
      | Inr r \<Rightarrow> if ep_ready e then message_events o1 env e (rcv_message r) else [])"
| "ep_events o1 e (CallFinishRelease env ob f) = (if ob = o1 then release_events e ob f else [])"
| "ep_events o1 e (CallDiscardFrame env ob f) = (if ob = o1 then release_events e ob f else [])"
| "ep_events o1 e _ = []"

lemma ep_ledger_set_task [simp]:
  "ep_ledger o1 (set_task e ob te) = (if o1 = ob then ts_ledger (te_state te) else ep_ledger o1 e)"
  by (simp add: ep_ledger_def)

lemma ep_ledger_cong: "ep_tasks e' = ep_tasks e \<Longrightarrow> ep_ledger o1 e' = ep_ledger o1 e"
  by (simp add: ep_ledger_def)

lemma ep_ledger_sent [simp]: "ep_ledger o1 (e\<lparr>ep_sent := x\<rparr>) = ep_ledger o1 e"
  by (simp add: ep_ledger_def)

lemma ep_ledger_hit: "fmlookup (ep_tasks e) ob = Some te \<Longrightarrow> ep_ledger ob e = ts_ledger (te_state te)"
  by (simp add: ep_ledger_def)

text \<open>Operations that leave the ledger of every object alone.\<close>

definition keeps_ledger :: "'a ep_op \<Rightarrow> bool" where
  "keeps_ledger m \<longleftrightarrow> (\<forall>e o1. ep_ledger o1 (snd (m e)) = ep_ledger o1 e)"

lemma keeps_ledger_bind: "keeps_ledger m \<Longrightarrow> (\<And>x. keeps_ledger (k x)) \<Longrightarrow> keeps_ledger (op_bind m k)"
proof -
  assume m: "keeps_ledger m" and k: "\<And>x. keeps_ledger (k x)"
  have "ep_ledger o1 (snd (op_bind m k e)) = ep_ledger o1 e" for o1 e
  proof (cases "m e")
    case (Pair r e1)
    then have "ep_ledger o1 e1 = ep_ledger o1 e"
      using m by (metis keeps_ledger_def snd_conv)
    with Pair k show ?thesis
      by (cases r) (simp_all add: keeps_ledger_def)
  qed
  then show ?thesis by (simp add: keeps_ledger_def)
qed

lemma keeps_ledger_pure [simp]:
  "keeps_ledger (op_return x)" "keeps_ledger (op_lift r)" "keeps_ledger (task_of ob)"
  "keeps_ledger (require_flag flag)" "keeps_ledger (ep_send env m fds)"
  by (auto simp: keeps_ledger_def task_of_def require_flag_def intro: ep_ledger_cong)

lemma ts_ledger_quiet: "ts_quiet s s' \<Longrightarrow> ts_ledger s' = ts_ledger s"
  by (simp add: ts_quiet_def ts_ledger_def)

lemma keeps_ledger_on_task_state:
  assumes "\<And>s. ts_ledger (snd (f s)) = ts_ledger s"
  shows "keeps_ledger (on_task_state ob f)"
  unfolding keeps_ledger_def on_task_state_def
  using assms by (auto simp: ep_ledger_hit split: option.splits prod.splits) (metis snd_conv)

lemma ts_ledger_steps:
  "ts_ledger (snd (ts_replace_feedback s gen fs)) = ts_ledger s"
  "ts_ledger (snd (ts_configure s serial w h r)) = ts_ledger s"
  "ts_ledger (snd (ts_acknowledge_configure s serial)) = ts_ledger s"
  "ts_ledger (snd (ts_register_buffer s b)) = ts_ledger s"
  "ts_ledger (snd (ts_unregister_buffer s k)) = ts_ledger s"
  "ts_ledger (snd (ts_bind_timelines s)) = ts_ledger s"
  using ts_quiet_steps [THEN ts_ledger_quiet] by (simp_all add: ts_bind_timelines_def ts_ledger_def)

lemma keeps_ledger_task_steps [simp]:
  "keeps_ledger (on_task_state ob (\<lambda>s. ts_replace_feedback s gen fs))"
  "keeps_ledger (on_task_state ob (\<lambda>s. ts_configure s serial w h r))"
  "keeps_ledger (on_task_state ob (\<lambda>s. ts_acknowledge_configure s serial))"
  "keeps_ledger (on_task_state ob (\<lambda>s. ts_register_buffer s b))"
  "keeps_ledger (on_task_state ob (\<lambda>s. ts_unregister_buffer s k))"
  "keeps_ledger (on_task_state ob ts_bind_timelines)"
  by (auto intro!: keeps_ledger_on_task_state simp: ts_ledger_steps)

lemma keeps_ledger_table:
  "keeps_ledger (client_hello env lo hi caps)" "keeps_ledger (create_task ob d package)"
  "keeps_ledger (bind_task ob t)" "keeps_ledger (destroy_task ob)"
  subgoal
    unfolding keeps_ledger_def client_hello_def
    by (auto simp: Let_def snd_op_bind ep_send_def negotiated_def intro: ep_ledger_cong
        split: sum.splits)
  subgoal
    unfolding keeps_ledger_def create_task_def
    by (auto simp: ep_ledger_def fmlookup_None_iff ts_new_def bind_result_def valid_object_def
        fresh_state_def ts_ledger_def fmdom_notD split: sum.splits if_splits)
  subgoal
    unfolding keeps_ledger_def bind_task_def
    by (auto simp: ep_ledger_hit split: option.splits)
  subgoal
    unfolding keeps_ledger_def destroy_task_def
    by (auto simp: Let_def ep_ledger_def ts_ledger_def split: option.splits)
  done

lemma keeps_ledger_bind_timelines: "keeps_ledger (bind_timelines env ob ds)"
proof -
  have "keeps_ledger (\<lambda>e. case fmlookup (ep_tasks e) ob of None \<Rightarrow> (Inl (UnknownObject ob), e)
      | Some te \<Rightarrow> (Inr (ActTimelinesBound ob), set_task e ob (te\<lparr>te_timelines := Some tt\<rparr>)))" for tt
    unfolding keeps_ledger_def by (auto simp: ep_ledger_hit split: option.splits)
  then show ?thesis
    unfolding bind_timelines_def by (auto intro!: keeps_ledger_bind split: prod.splits)
qed

lemma keeps_ledger_targets:
  "keeps_ledger (register_render_target env ob serial b planes)"
  "keeps_ledger (unregister_render_target env ob k)"
proof -
  have "keeps_ledger (\<lambda>e. case ep_send env (RegisterRenderTarget ob serial b) planes e of
      (Inr _, e1) \<Rightarrow> (Inr (), e1)
    | (Inl err, e1) \<Rightarrow> (case fmlookup (ep_tasks e1) ob of None \<Rightarrow> (Inl (UnknownObject ob), e1)
        | Some te \<Rightarrow> (Inl err, set_task e1 ob
            (te\<lparr>te_state := snd (ts_unregister_buffer (te_state te) (buf_id b))\<rparr>))))"
    unfolding keeps_ledger_def ep_send_def
    by (auto simp: ep_ledger_hit ts_ledger_steps intro: ep_ledger_cong split: sum.splits option.splits)
  then show "keeps_ledger (register_render_target env ob serial b planes)"
    unfolding register_render_target_def by (auto intro!: keeps_ledger_bind)
  have "keeps_ledger (\<lambda>e. case ep_send env (UnregisterRenderTarget ob k) [] e of
      (Inr _, e1) \<Rightarrow> (Inr (), e1)
    | (Inl err, e1) \<Rightarrow>
        op_bind (on_task_state ob (\<lambda>s. ts_register_buffer s m)) (\<lambda>_. op_lift (Inl err)) e1)" for m
  proof -
    have "keeps_ledger (op_bind (on_task_state ob (\<lambda>s. ts_register_buffer s m))
        (\<lambda>_. op_lift (Inl err) :: unit ep_op))" for err
      by (intro keeps_ledger_bind) simp_all
    then show ?thesis
      unfolding keeps_ledger_def ep_send_def by (auto split: sum.splits)
  qed
  then show "keeps_ledger (unregister_render_target env ob k)"
    unfolding unregister_render_target_def by (auto intro!: keeps_ledger_bind)
qed

lemma keeps_ledger_feedback:
  "keeps_ledger (track_presentation ob f)" "keeps_ledger (send_presented env ob f t p q fl)"
  "ep_ledger o1 (forget_presentation ob f e) = ep_ledger o1 e"
  "keeps_ledger (send_scene_presented env ob2 sc t p q)" "keeps_ledger (send_frame_grant env l t p)"
  unfolding keeps_ledger_def
  by (auto simp: track_presentation_def send_presented_def forget_presentation_def Let_def ep_ledger_hit
      send_scene_presented_def send_frame_grant_def snd_op_bind task_of_def ep_send_def
      intro: ep_ledger_cong split: option.splits sum.splits)

lemma keeps_ledger_sends [simp]:
  "keeps_ledger (request_input_channel env g)" "keeps_ledger (send_format_feedback env ob gen fs)"
  "keeps_ledger (send_configure env ob serial w h n d tr r)" "keeps_ledger (send_visibility env ob v fo)"
  "keeps_ledger (send_display_power env po)" "keeps_ledger (send_close env ob)"
  "keeps_ledger (send_input env ob sn ts ev)" "keeps_ledger (send_fatal env obo code opc text)"
  "keeps_ledger (materialize_release ob f)" "keeps_ledger (register_buffer ob b ds)"
  "keeps_ledger (bind_input_channel gn wr ds)" "keeps_ledger (bind_input_route ob di inc)"
  "keeps_ledger (request_activation ob)"
  unfolding request_input_channel_def send_format_feedback_def send_configure_def send_visibility_def
    send_display_power_def send_close_def send_input_def send_fatal_def materialize_release_def
    register_buffer_def bind_input_channel_def bind_input_route_def request_activation_def
  by (auto intro!: keeps_ledger_bind split: list.splits)

lemma ledger_reserve_retire:
  "f |\<notin>| fmdom L \<Longrightarrow> b |\<notin>| fmran L \<Longrightarrow> ledger_run L [Reserve f b, Retire f b] = Some L"
  by (simp add: fmdrop_fmupd_fresh fmdom_notD)

lemma present_refines:
  assumes inv: "ep_inv e"
  shows "ledger_run (ep_ledger ob e) (present_events env e ob f b serial acq rel ds)
    = Some (ep_ledger ob (snd (ep_present env ob f b serial acq rel ds e)))"
proof (cases "fmlookup (ep_tasks e) ob")
  case None
  then show ?thesis by (simp add: present_events_def ep_present_def)
next
  case (Some te)
  let ?s = "te_state te"
  have te: "te_inv ob te"
    using inv Some by (rule ep_inv_te)
  then have tsi: "ts_inv ?s" by (simp add: te_inv_def)
  have busy: "ts_busy_buffers ?s = fmran (ts_ledger ?s)"
    using tsi by (simp add: ts_inv_def ts_frames_inv_def)
  show ?thesis
  proof (cases rule: ep_present_outcome [OF te Some, of env f b serial acq rel ds,
        case_names refused submitted rolled_back discarded])
    case (refused err)
    then have "present_events env e ob f b serial acq rel ds = []"
      using Some by (auto simp: present_events_def split: sum.split task_state_error.split)
    then show ?thesis using refused(1) by simp
  next
    case (submitted fence a s' tt')
    then have "present_events env e ob f b serial acq rel ds
        = ts_events ?s (TsPresent ob f b serial acq rel ds)"
      using Some by (simp add: present_events_def)
    then show ?thesis
      using submitted Some ts_step_refines [OF tsi, of "TsPresent ob f b serial acq rel ds"]
      by (simp add: ep_ledger_hit)
  next
    case (rolled_back err a s' tt')
    then have "present_check ?s ob f b serial acq rel ds = Inr ()"
      by (blast dest: ts_present_Inr)
    then have "f |\<notin>| fmdom (ts_ledger ?s)" and "b |\<notin>| fmran (ts_ledger ?s)"
      using busy by (auto simp: present_check_iff)
    moreover have "present_events env e ob f b serial acq rel ds = [Reserve f b, Retire f b]"
      using rolled_back Some by (simp add: present_events_def)
    moreover have "ts_ledger (drop_frame s' f b) = ts_ledger ?s"
      using rolled_back(4) by (simp add: ts_ledger_def)
    ultimately show ?thesis
      using rolled_back(1) Some by (simp add: ep_ledger_hit ledger_reserve_retire del: ledger_run.simps)
  next
    case (discarded x y r e' s' tt')
    then have "present_events env e ob f b serial acq rel ds
        = ts_events ?s (TsDiscard ob f b serial acq rel)"
      using Some by (simp add: present_events_def)
    then show ?thesis
      using discarded Some ts_step_refines [OF tsi, of "TsDiscard ob f b serial acq rel"]
      by (simp add: ep_ledger_def)
  qed
qed

lemma present_other_object:
  assumes inv: "ep_inv e" and "o1 \<noteq> ob"
  shows "ep_ledger o1 (snd (ep_present env ob f b serial acq rel ds e)) = ep_ledger o1 e"
proof (cases "fmlookup (ep_tasks e) ob")
  case None
  then show ?thesis by (simp add: ep_present_def)
next
  case (Some te)
  have te: "te_inv ob te"
    using inv Some by (rule ep_inv_te)
  show ?thesis
    by (cases rule: ep_present_outcome [OF te Some, of env f b serial acq rel ds])
      (use assms(2) in \<open>simp_all add: ep_ledger_def\<close>)
qed

lemma release_refines:
  assumes inv: "ep_inv e"
  shows "ledger_run (ep_ledger ob e) (release_events e ob f)
      = Some (ep_ledger ob (snd (finish_release env ob f e)))"
    and "o1 \<noteq> ob \<Longrightarrow> ep_ledger o1 (snd (finish_release env ob f e)) = ep_ledger o1 e"
proof -
  have "ledger_run (ep_ledger ob e) (release_events e ob f)
      = Some (ep_ledger ob (snd (finish_release env ob f e))) \<and>
    (o1 \<noteq> ob \<longrightarrow> ep_ledger o1 (snd (finish_release env ob f e)) = ep_ledger o1 e)"
  proof (cases "fmlookup (ep_tasks e) ob")
    case (Some te)
    have te: "te_inv ob te"
      using inv Some by (rule ep_inv_te)
    show ?thesis
    proof (cases "fmlookup (te_pending te) f")
      case pend: (Some a)
      have hit: "fmlookup (ts_ledger (te_state te)) f = Some (awf_buffer a)"
        using pending_release(2) [OF te pend] by (simp add: ts_ledger_def wire_tuple_def)
      have drop: "ts_ledger (drop_frame (te_state te) f (awf_buffer a)) = fmdrop f (ts_ledger (te_state te))"
        by (simp add: ts_ledger_def drop_frame_def)
      have gone: "fmdrop f (ts_in_flight (te_state te)) = fmempty \<Longrightarrow>
          fmdrop f (ts_ledger (te_state te)) = fmempty"
        by (simp add: ts_ledger_def)
      show ?thesis
        using Some pend hit drop gone finish_release_tasks(1) [OF te Some pend, of env]
        by (auto simp: release_events_def ep_ledger_def)
    qed (use Some in \<open>simp add: release_events_def finish_release_unknown\<close>)
  qed (simp add: release_events_def finish_release_unknown)
  then show "ledger_run (ep_ledger ob e) (release_events e ob f)
      = Some (ep_ledger ob (snd (finish_release env ob f e)))"
    and "o1 \<noteq> ob \<Longrightarrow> ep_ledger o1 (snd (finish_release env ob f e)) = ep_ledger o1 e"
    by blast+
qed

text \<open>A pending frame has timelines, so \<open>discard_frame\<close> is \<open>finish_release\<close>.\<close>

lemma discard_is_release:
  assumes inv: "ep_inv e"
  shows "snd (discard_frame env ob f e) = snd (finish_release env ob f e)"
proof (cases "fmlookup (ep_tasks e) ob")
  case (Some te)
  have te: "te_inv ob te"
    using inv Some by (rule ep_inv_te)
  show ?thesis
  proof (cases "fmlookup (te_pending te) f")
    case pend: (Some a)
    have "ts_in_flight (te_state te) \<noteq> fmempty"
      using pending_release(2) [OF te pend] by auto
    then have "te_timelines te \<noteq> None"
      using te by (auto simp: te_inv_def ts_inv_def ts_frames_inv_def)
    then show ?thesis
      using Some pend
      by (auto simp: discard_frame_def materialize_release_def op_bind_def task_of_def fmdomI)
  qed (use Some in \<open>simp add: discard_frame_def materialize_release_def op_bind_def task_of_def
      fmlookup_None_iff finish_release_unknown(2)\<close>)
qed (simp add: discard_frame_def materialize_release_def op_bind_def task_of_def finish_release_unknown)

fun is_present :: "android_message \<Rightarrow> bool" where
  "is_present (Present _ _ _ _ _ _ _) = True"
| "is_present _ = False"

lemma keeps_ledgerD: "keeps_ledger m \<Longrightarrow> ep_ledger o1 (snd (m e)) = ep_ledger o1 e"
  by (simp add: keeps_ledger_def)

lemma handle_keeps_ledger: "\<not> is_present m \<Longrightarrow> keeps_ledger (handle_android env m ds)"
  by (cases m) (auto simp: keeps_ledger_table keeps_ledger_bind_timelines intro!: keeps_ledger_bind)

lemma message_refines:
  assumes inv: "ep_inv e"
  shows "ledger_run (ep_ledger o1 e) (message_events o1 env e m)
    = Some (ep_ledger o1 (snd (handle_android env m ds e)))"
proof (cases "is_present m")
  case True
  then obtain ob f b serial acq rel rects where "m = Present ob f b serial acq rel rects"
    by (cases m) auto
  then show ?thesis
    using present_refines [OF inv] present_other_object [OF inv] by simp
next
  case False
  moreover from False have "message_events o1 env e m = []"
    by (cases m) auto
  ultimately show ?thesis
    using keeps_ledgerD [OF handle_keeps_ledger] by simp
qed

lemma receive_refines:
  assumes inv: "ep_inv e"
  shows "ledger_run (ep_ledger o1 e) (ep_events o1 e (CallReceive env))
    = Some (ep_ledger o1 (ep_step e (CallReceive env)))"
proof -
  have hello: "keeps_ledger (handle_android env m ds)" if "is_client_hello m" for m ds
    using that by (intro handle_keeps_ledger) (cases m; simp)
  show ?thesis
    using message_refines [OF inv] keeps_ledgerD [OF hello]
    by (auto simp: receive_action_def snd_op_bind split: sum.splits)
qed

lemma ep_step_refines:
  assumes inv: "ep_inv e"
  shows "ledger_run (ep_ledger o1 e) (ep_events o1 e c) = Some (ep_ledger o1 (ep_step e c))"
proof (cases c)
  case (CallReceive env)
  then show ?thesis using receive_refines [OF inv] by blast
next
  case (CallFinishRelease env ob f)
  then show ?thesis
    using release_refines [OF inv] by simp
next
  case (CallDiscardFrame env ob f)
  then show ?thesis
    using release_refines [OF inv] discard_is_release [OF inv] by simp
qed (simp_all add: keeps_ledgerD keeps_ledger_targets keeps_ledger_feedback)

interpretation endpoint_frames: frame_owner "ep_ledger ob" ep_inv ep_step "ep_events ob" for ob
proof unfold_locales
  show "exclusive (ep_ledger ob e)" if "ep_inv e" for e
    using that ep_inv_te [OF that, of ob]
    by (auto simp: ep_ledger_def te_inv_def ts_inv_def ts_frames_inv_def split: option.split)
qed (auto intro: ep_inv_step ep_step_refines)

end
