(* ===== verification/Endpoint_Properties.thy ===== *)
theory Endpoint_Properties
  imports Endpoint_Invariant
begin

unbundle bit_operations_syntax

section \<open>Properties of the host endpoint\<close>

text \<open>
  What the connection promises to the compositor and to Android, for every reachable state and every
  behaviour of the kernel.  The section begins with a concrete connection, driven through the packet
  codec, at which the properties are witnessed.
\<close>

subsection \<open>A concrete connection\<close>

text \<open>A kernel that accepts every record, delivers one encoded message and fails no ioctl.\<close>

definition quiet_drm :: drm_kernel where
  "quiet_drm = \<lparr>k_create_syncobj = (\<lambda>_. Inr 1), k_fd_to_syncobj = (\<lambda>_ _. Inr 1),
     k_syncobj_to_fd = (\<lambda>_ _. Inr 50), k_import_sync_file = (\<lambda>_ _. Inr ()),
     k_timeline_transfer = (\<lambda>_ _ _ _. Inr ()), k_timeline_signal = (\<lambda>_ _. Inr ()),
     k_timeline_wait = (\<lambda>_ _ _ _ _ _. Inr ()), k_timeline_query = (\<lambda>_ _. Inr 0),
     k_eventfd = (\<lambda>_ _ _ _. Inr ())\<rparr>"

definition delivering :: "android_message \<Rightarrow> owned_fd list \<Rightarrow> host_env" where
  "delivering m fds = \<lparr>env_sendmsg = (\<lambda>packet _. Inr (length packet)),
     env_recvmsg = (\<lambda>_. case encode_android m of Inl _ \<Rightarrow> RecvFailed 0
       | Inr p \<Rightarrow> delivered 16 (pkt_bytes p) fds),
     env_cmsg_base = 16, env_drm = quiet_drm, env_drm_second = quiet_drm\<rparr>"

abbreviation host :: host_env where "host \<equiv> delivering (Pong 0) []"

lemma receive_delivering:
  assumes "encode_android_parts m = Inr (opc, ob, payload, kinds)"
    and "length fds = length kinds" and "\<forall>fd \<in> set fds. 0 \<le> fd"
  shows "receive_android_into (env_cmsg_base (delivering m fds)) (env_recvmsg (delivering m fds))
    MAX_PACKET_BYTES = Inr \<lparr>rcv_message = m, rcv_descriptors = zip kinds fds\<rparr>"
proof -
  from assms(1) obtain p where p: "encode_android m = Inr p" and kinds: "pkt_descriptors p = kinds"
    using android.finish_parts [OF assms(1)] by (auto simp: android.encode_Inr_iff)
  have "receive_android_into 16 (env_recvmsg (delivering m fds)) MAX_PACKET_BYTES =
      Inr \<lparr>rcv_message = m, rcv_descriptors = zip (pkt_descriptors p) fds\<rparr>"
    by (rule android_socket.delivery) (use assms(2,3) p kinds in
        \<open>simp_all add: delivering_def MAX_PACKET_BYTES_def\<close>)
  then show ?thesis
    using kinds by (simp add: delivering_def)
qed

lemma receive_delivering_action:
  assumes "encode_android_parts m = Inr (opc, ob, payload, kinds)"
    and "length fds = length kinds" and "\<forall>fd \<in> set fds. 0 \<le> fd" and "ep_ready e \<or> is_client_hello m"
  shows "receive_action (delivering m fds) e = handle_android (delivering m fds) m (zip kinds fds) e"
  using receive_delivering [OF assms(1-3)] assms(4) by (auto simp: receive_action_def op_bind_def)

lemma delivering_drm [simp]:
  "env_drm (delivering m fds) = quiet_drm" "env_drm_second (delivering m fds) = quiet_drm"
  by (simp_all add: delivering_def)

lemma send_delivering:
  assumes "encode_denial_parts m = Inr x" and "length fds = length (denial_descriptors m)"
  shows "ep_send (delivering am afds) m fds e = (Inr (), e\<lparr>ep_sent := ep_sent e @ [(m, fds)]\<rparr>)"
proof -
  have "is_ok (encode_denial m)"
    using assms(1) denial.encode_ok_iff [of m] by (simp add: denial_parts_of_def split: prod.splits)
  then obtain p where p: "encode_denial m = Inr p"
    by (auto simp: is_ok_iff)
  then have "pkt_descriptors p = denial_descriptors m"
    by (auto simp: denial.encode_Inr_iff denial_parts_of_iff finish_packet_Inr_iff)
  then have "send_denial_with_descriptors (\<lambda>packet _. Inr (length packet)) m fds = Inr ()"
    using p assms(2) by (simp add: denial_socket.send_ok_iff)
  then show ?thesis
    by (simp add: ep_send_def delivering_def)
qed

definition example_package :: rust_string where
  "example_package = [0x61, 0x2E, 0x62]"

definition example_setup :: "endpoint_call list" where
  "example_setup = [
     CallReceive (delivering (ClientHello 1 1 REQUIRED_V1) []),
     CallReceive (delivering (CreateTask 3 9 example_package) []),
     CallReceive (delivering (BindTimelines 3) [50, 50]),
     CallFormatFeedback host 3 1 [example_format],
     CallConfigure host 3 7 64 32 1 1 TransformNormal 60000,
     CallReceive (delivering (AckConfigure 3 7) []),
     CallRegisterTarget host 3 7 (example_buffer 5) [20]]"


definition example_task :: task_endpoint where
  "example_task = \<lparr>te_task = None, te_display = 9,
     te_state = \<lparr>ts_object = 3, ts_timelines_bound = True, ts_feedback_generation = 1,
       ts_feedback = {|example_format|}, ts_configure_value = Some (7, 64, 32),
       ts_acknowledged_serial = Some 7, ts_buffers = fmupd 5 (example_buffer 5) fmempty,
       ts_in_flight = fmempty, ts_busy_buffers = {||}, ts_last_acquire_point = 0,
       ts_last_release_point = 0\<rparr>,
     te_timelines = Some \<lparr>tt_acquire = new_timeline 1, tt_release = new_timeline 1\<rparr>,
     te_pending = fmempty, te_presentation_frames = {||}, te_retiring = False\<rparr>"

definition example_endpoint :: endpoint where
  "example_endpoint = \<lparr>ep_ready = True, ep_activation_requests = False, ep_direct_input = False,
     ep_lazy_render_targets = False, ep_scene_presentation = False, ep_host_clock = False,
     ep_tasks = fmupd 3 example_task fmempty,
     ep_sent = [(server_hello ep_new, []), (FormatFeedback 3 1 [example_format], []),
       (Configure 3 7 64 32 1 1 TransformNormal 60000, []),
       (RegisterRenderTarget 3 7 (example_buffer 5), [20])]\<rparr>"

text \<open>Whatever was negotiated, the answer to the handshake passes the codec's checks.\<close>

lemma required_capabilities_kept: "(REQUIRED_V1 OR x) AND REQUIRED_V1 = REQUIRED_V1"
  by (auto simp: bit_eq_iff bit_simps)

lemma server_hello_valid: "\<exists>x. encode_denial_parts (server_hello e) = Inr x"
proof -
  have "PROTOCOL_MAJOR = PROTOCOL_MAJOR" and "\<not> PROTOCOL_MINOR < (if c1 then PROTOCOL_MINOR
      else if c2 then 8 else if c3 then 7 else 6)" for c1 c2 c3
    by (simp_all add: PROTOCOL_MINOR_def)
  moreover have "\<not> MAX_DAMAGE_RECTS < unat (word_of_nat MAX_DAMAGE_RECTS :: u32)"
    "(word_of_nat MAX_DAMAGE_RECTS :: u32) \<noteq> 0" "MAX_TASK_OBJECTS \<noteq> 0" "MAX_BUFFERS_PER_TASK \<noteq> 0"
    by (simp_all add: MAX_DAMAGE_RECTS_def MAX_TASK_OBJECTS_def MAX_BUFFERS_PER_TASK_def)
  ultimately show ?thesis
    by (simp only: server_hello_def encode_denial_parts.simps encode_server_hello_def
        validate_server_hello_def required_capabilities_kept less_irrefl simp_thms if_False
        bind_result_simps) blast
qed

lemma example_hello:
  "ep_step ep_new (CallReceive (delivering (ClientHello 1 1 REQUIRED_V1) [])) =
     ep_new\<lparr>ep_ready := True, ep_sent := [(server_hello ep_new, [])]\<rparr>"
proof -
  have "negotiated ep_new REQUIRED_V1 = ep_new"
    by (simp add: negotiated_def ep_new_def)
  moreover obtain x where "encode_denial_parts (server_hello ep_new) = Inr x"
    using server_hello_valid by blast
  moreover have "encode_android_parts (ClientHello 1 1 REQUIRED_V1) =
      Inr (OP_CLIENT_HELLO, 0, w_u16 1 @ w_u16 1 @ w_u64 REQUIRED_V1, [])"
    by (simp add: encode_client_hello_def)
  ultimately show ?thesis
    using receive_delivering_action [of "ClientHello 1 1 REQUIRED_V1" _ _ _ "[]" "[]"]
      send_delivering [of "server_hello ep_new" x "[]"]
    by (simp add: client_hello_def op_bind_def PROTOCOL_MAJOR_def server_hello_def ep_new_def)
qed

lemmas example_message_defs = encode_create_task_def object_parts_def example_package_def
  valid_package_def is_ascii_alphanumeric_def w_string_def valid_object_def nonzero_def
  encode_present_def encode_format_feedback_def object_payload_def check_modifier_def
  encode_configure_def encode_register_render_target_def encode_buffer_def

lemmas example_endpoint_defs = create_task_def bind_timelines_def send_format_feedback_def
  send_configure_def register_render_target_def op_bind_def on_task_state_def set_task_def ts_new_def
  denial_timelines_import_def import_timeline_def drm_call_def quiet_drm_def

lemma example_buffer_facts [simp]:
  "modifier example_format = 2" "buffer_validate (example_buffer n) = Inr ()"
  "buf_id (example_buffer n) = n" "buf_format (example_buffer n) = example_format"
  "buf_width (example_buffer n) = 64" "buf_height (example_buffer n) = 32"
  "length (buf_planes (example_buffer n)) = 1"
  by (simp_all add: example_format_def example_buffer_def buffer_validate_def)

lemma example_encodings:
  "encode_android_parts (CreateTask 3 9 example_package) =
     Inr (OP_CREATE_TASK, 3, w_u64 9 @ string_bytes example_package, [])"
  "encode_android_parts (BindTimelines 3) =
     Inr (OP_BIND_TIMELINES, 3, [], [AcquireTimeline, ReleaseTimeline])"
  "encode_android_parts (AckConfigure 3 7) = Inr (OP_ACK_CONFIGURE, 3, w_u32 7, [])"
  "\<exists>x. encode_denial_parts (FormatFeedback 3 1 [example_format]) = Inr x"
  "\<exists>x. encode_denial_parts (Configure 3 7 64 32 1 1 TransformNormal 60000) = Inr x"
  "\<exists>x. encode_denial_parts (RegisterRenderTarget 3 7 (example_buffer 5)) = Inr x"
  by (simp_all add: example_message_defs validate_configure_def proto_consts)

definition example_greeted_endpoint :: endpoint where
  "example_greeted_endpoint = ep_new\<lparr>ep_ready := True, ep_sent := [(server_hello ep_new, [])]\<rparr>"

definition example_configured_endpoint :: endpoint where
  "example_configured_endpoint = (set_task example_greeted_endpoint 3 (example_task
     \<lparr>te_state := (te_state example_task)\<lparr>ts_acknowledged_serial := None, ts_buffers := fmempty\<rparr>\<rparr>))
     \<lparr>ep_sent := take 3 (ep_sent example_endpoint)\<rparr>"

lemma example_configuring:
  "run_ops ep_step example_greeted_endpoint [
     CallReceive (delivering (CreateTask 3 9 example_package) []),
     CallReceive (delivering (BindTimelines 3) [50, 50]),
     CallFormatFeedback host 3 1 [example_format],
     CallConfigure host 3 7 64 32 1 1 TransformNormal 60000] = example_configured_endpoint"
proof -
  let ?e1 = example_greeted_endpoint
  have ready: "ep_ready ?e1" "ep_tasks ?e1 = fmempty" "ep_sent ?e1 = [(server_hello ep_new, [])]"
    by (simp_all add: example_greeted_endpoint_def ep_new_def)
  let ?te2 = "\<lparr>te_task = None, te_display = 9, te_state = fresh_state 3, te_timelines = None,
    te_pending = fmempty, te_presentation_frames = {||}, te_retiring = False\<rparr>"
  let ?e2 = "set_task ?e1 3 ?te2"
  have s2: "ep_step ?e1 (CallReceive (delivering (CreateTask 3 9 example_package) [])) = ?e2"
    by (simp add: receive_delivering_action [OF example_encodings(1)] ready create_task_def ts_new_def
        valid_object_def proto_consts)
  let ?te3 = "?te2\<lparr>te_state := (fresh_state 3)\<lparr>ts_timelines_bound := True\<rparr>,
    te_timelines := Some \<lparr>tt_acquire = new_timeline 1, tt_release = new_timeline 1\<rparr>\<rparr>"
  let ?e3 = "set_task ?e1 3 ?te3"
  have s3: "ep_step ?e2 (CallReceive (delivering (BindTimelines 3) [50, 50])) = ?e3"
    by (simp add: receive_delivering_action [OF example_encodings(2)] ready example_endpoint_defs
        ts_bind_timelines_def fresh_state_def)
  obtain x y where enc: "encode_denial_parts (FormatFeedback 3 1 [example_format]) = Inr x"
    "encode_denial_parts (Configure 3 7 64 32 1 1 TransformNormal 60000) = Inr y"
    using example_encodings(4,5) by blast
  note sends = enc [THEN send_delivering]
  let ?te4 = "?te3\<lparr>te_state := (te_state ?te3)\<lparr>ts_feedback_generation := 1,
    ts_feedback := {|example_format|}\<rparr>\<rparr>"
  let ?sent4 = "[(server_hello ep_new, []), (FormatFeedback 3 1 [example_format], [])]"
  let ?e4 = "(set_task ?e1 3 ?te4)\<lparr>ep_sent := ?sent4\<rparr>"
  have s4: "ep_step ?e3 (CallFormatFeedback host 3 1 [example_format]) = ?e4"
    by (simp add: example_endpoint_defs sends ready ts_replace_feedback_def fresh_state_def
        fcard_finsert_if fcard_fempty proto_consts)
  have s5: "ep_step ?e4 (CallConfigure host 3 7 64 32 1 1 TransformNormal 60000) = example_configured_endpoint"
    by (simp add: example_endpoint_defs sends ready ts_configure_def validate_configure_def fresh_state_def
        example_configured_endpoint_def example_task_def example_endpoint_def)
  show ?thesis unfolding run_ops.simps s2 s3 s4 s5 ..
qed

lemma example_registering:
  "run_ops ep_step example_configured_endpoint [
     CallReceive (delivering (AckConfigure 3 7) []),
     CallRegisterTarget host 3 7 (example_buffer 5) [20]] = example_endpoint"
proof -
  obtain z where "encode_denial_parts (RegisterRenderTarget 3 7 (example_buffer 5)) = Inr z"
    using example_encodings(6) by blast
  note sends = send_delivering [OF this]
  show ?thesis
    by (simp add: receive_delivering_action [OF example_encodings(3)] example_endpoint_defs sends
        ts_acknowledge_configure_def ts_register_buffer_def example_configured_endpoint_def
        example_greeted_endpoint_def example_endpoint_def example_task_def ep_new_def fmlen_def fcard_fempty
        proto_consts)
qed

lemma example_connection: "run_ops ep_step ep_new example_setup = example_endpoint"
  using example_hello example_configuring example_registering
  by (simp add: example_setup_def example_greeted_endpoint_def)

subsection \<open>Reachable states\<close>

text \<open>An endpoint before its handshake, with any choice of the optional features.\<close>

definition ep_configured :: "bool \<Rightarrow> bool \<Rightarrow> bool \<Rightarrow> bool \<Rightarrow> bool \<Rightarrow> endpoint" where
  "ep_configured activation input lazy scene clock =
     ep_new\<lparr>ep_activation_requests := activation, ep_direct_input := input,
       ep_lazy_render_targets := lazy, ep_scene_presentation := scene, ep_host_clock := clock\<rparr>"

definition reachable_endpoint :: "endpoint \<Rightarrow> bool" where
  "reachable_endpoint e \<longleftrightarrow>
     (\<exists>a i l sc c calls. e = run_ops ep_step (ep_configured a i l sc c) calls)"

lemma ep_inv_configured: "ep_inv (ep_configured a i l sc c)"
  using ep_inv_new by (simp add: ep_inv_def ep_configured_def)

lemma reachable_inv: "reachable_endpoint e \<Longrightarrow> ep_inv e"
  unfolding reachable_endpoint_def using endpoint_frames.inv_run [OF ep_inv_configured] by blast

lemma reachable_step: "reachable_endpoint e \<Longrightarrow> reachable_endpoint (ep_step e c)"
  unfolding reachable_endpoint_def by (metis run_ops_append run_ops.simps)

lemma example_reachable: "reachable_endpoint example_endpoint"
proof -
  have "ep_configured False False False False False = ep_new"
    by (simp add: ep_configured_def ep_new_def)
  then show ?thesis
    unfolding reachable_endpoint_def by (metis example_connection)
qed

text \<open>The example connection after one present, and after its release.\<close>

definition example_accepted :: accepted_wire_frame where
  "example_accepted = \<lparr>awf_object = 3, awf_frame = 1, awf_buffer = 5, awf_acquire_point = 10,
     awf_release_point = 20, awf_damage = []\<rparr>"

definition example_busy_task :: task_endpoint where
  "example_busy_task = example_task\<lparr>te_state := (te_state example_task)\<lparr>ts_last_acquire_point := 10,
       ts_last_release_point := 20, ts_busy_buffers := {|5|},
       ts_in_flight := fmupd 1 \<lparr>pw_buffer = 5, pw_release_point = 20\<rparr> fmempty\<rparr>,
     te_timelines := Some \<lparr>tt_acquire = (new_timeline 1)\<lparr>tl_transfer := Some 1,
       tl_last_exported_point := 10\<rparr>, tt_release = new_timeline 1\<rparr>,
     te_pending := fmupd 1 example_accepted fmempty\<rparr>"

lemma example_present_encodes:
  "f \<noteq> 0 \<Longrightarrow> acq \<noteq> 0 \<Longrightarrow> rel \<noteq> 0 \<Longrightarrow>
   \<exists>p. encode_android_parts (Present 3 f 5 7 acq rel []) = Inr (OP_PRESENT, 3, p, [])"
  by (simp add: example_message_defs)

lemma example_receive_present:
  assumes "f \<noteq> 0" "acq \<noteq> 0" "rel \<noteq> 0" "ep_ready e"
  shows "receive_action (delivering (Present 3 f 5 7 acq rel []) []) e =
    ep_present (delivering (Present 3 f 5 7 acq rel []) []) 3 f 5 7 acq rel [] e"
  using example_present_encodes [OF assms(1-3)] assms(4)
    receive_delivering_action [of "Present 3 f 5 7 acq rel []" OP_PRESENT 3 _ "[]" "[]"]
  by auto

lemma example_ready: "ep_ready example_endpoint"
  by (simp add: example_endpoint_def)

lemmas example_present_defs = ep_present_def on_task_state_def ts_present_def present_check_def
  ts_require_object_def require_newer_point_def submit_accepted_def denial_export_acquire_fence_def
  on_acquire_def export_materialized_def require_newer_def transfer_handle_def drm_call_def
  quiet_drm_def new_timeline_def example_task_def

lemma example_present_run:
  "ep_present (delivering m fds) 3 1 5 7 10 20 [] example_endpoint =
     (Inr (ActPresent example_accepted 50), set_task example_endpoint 3 example_busy_task)"
  by (simp add: example_present_defs example_endpoint_def example_busy_task_def example_accepted_def
      set_task_def proto_consts)

definition example_busy_endpoint :: endpoint where
  "example_busy_endpoint = set_task example_endpoint 3 example_busy_task"

lemma example_present_step:
  "ep_step example_endpoint (CallReceive (delivering (Present 3 1 5 7 10 20 []) [])) =
     example_busy_endpoint"
  by (simp add: example_receive_present example_present_run example_ready example_busy_endpoint_def)

lemma example_busy_reachable: "reachable_endpoint example_busy_endpoint"
  using reachable_step [OF example_reachable] unfolding example_present_step [symmetric] .

lemma example_busy_hits:
  "fmlookup (ep_tasks example_busy_endpoint) 3 = Some example_busy_task"
  "fmlookup (te_pending example_busy_task) 1 = Some example_accepted"
  by (simp_all add: example_busy_endpoint_def example_busy_task_def)

definition example_freed_task :: task_endpoint where
  "example_freed_task = example_busy_task\<lparr>te_state := (te_state example_busy_task)
     \<lparr>ts_in_flight := fmempty, ts_busy_buffers := {||}\<rparr>, te_pending := fmempty\<rparr>"

definition example_freed_endpoint :: endpoint where
  "example_freed_endpoint = (set_task example_endpoint 3 example_freed_task)
     \<lparr>ep_sent := ep_sent example_endpoint @ [(BufferReleased 3 1 5 20, [])]\<rparr>"

lemma example_release_run:
  "finish_release host 3 1 example_busy_endpoint = (Inr (), example_freed_endpoint)"
proof -
  have "ts_release (te_state example_busy_task) 1 5 20 =
      (Inr (BufferReleased 3 1 5 20), te_state example_freed_task)"
    by (simp add: ts_release_def pending_check_def drop_frame_def example_busy_task_def
        example_freed_task_def example_task_def fmdrop_fmupd_same)
  moreover obtain x where "encode_denial_parts (BufferReleased 3 1 5 20) = Inr x"
    by (simp add: encode_buffer_released_def example_message_defs)
  ultimately show ?thesis
    using example_busy_hits send_delivering [of "BufferReleased 3 1 5 20" x "[]"]
    by (simp add: finish_release_def example_accepted_def example_busy_endpoint_def
        example_freed_endpoint_def example_freed_task_def example_busy_task_def example_task_def
        set_task_def fmdrop_fmupd_same)
qed

lemma example_second_present:
  "is_ok (fst (ep_present (delivering m fds) 3 2 5 7 11 21 [] example_freed_endpoint))"
  "is_ok (fst (ts_present (te_state example_freed_task) 3 2 5 7 11 21 []))"
  by (simp_all add: example_present_defs example_endpoint_def example_busy_task_def set_task_def
      example_freed_endpoint_def example_freed_task_def proto_consts)

lemma example_trace:
  "trace_ops ep_step (ep_events 3) example_endpoint
     [CallReceive (delivering (Present 3 1 5 7 10 20 []) []), CallFinishRelease host 3 1,
      CallReceive (delivering (Present 3 2 5 7 11 21 []) [])]
   = [] @ Reserve 1 5 # [Retire 1 5] @ Reserve 2 5 # []"
proof -
  have t1: "ep_events 3 example_endpoint (CallReceive (delivering (Present 3 1 5 7 10 20 []) []))
      = [Reserve 1 5]"
  proof -
    obtain p where "encode_android_parts (Present 3 1 5 7 10 20 []) = Inr (OP_PRESENT, 3, p, [])"
      using example_present_encodes [of 1 10 20] by auto
    moreover have "is_ok (fst (ts_present (te_state example_task) 3 1 5 7 10 20 []))"
      by (simp add: example_present_defs proto_consts)
    moreover have "fmlookup (ep_tasks example_endpoint) 3 = Some example_task"
      by (simp add: example_endpoint_def)
    ultimately show ?thesis
      using receive_delivering [of "Present 3 1 5 7 10 20 []" OP_PRESENT 3 p "[]" "[]"]
      by (auto simp: present_events_def example_present_run example_ready is_ok_iff)
  qed
  have t2: "ep_events 3 example_busy_endpoint (CallFinishRelease host 3 1) = [Retire 1 5]"
    using example_busy_hits by (simp add: release_events_def example_accepted_def)
  have s2: "ep_step example_busy_endpoint (CallFinishRelease host 3 1) = example_freed_endpoint"
    by (simp add: example_release_run)
  have t3: "ep_events 3 example_freed_endpoint (CallReceive (delivering (Present 3 2 5 7 11 21 []) []))
      = [Reserve 2 5]"
  proof -
    obtain p where "encode_android_parts (Present 3 2 5 7 11 21 []) = Inr (OP_PRESENT, 3, p, [])"
      using example_present_encodes [of 2 11 21] by auto
    moreover have "fmlookup (ep_tasks example_freed_endpoint) 3 = Some example_freed_task"
      "ep_ready example_freed_endpoint"
      by (simp_all add: example_freed_endpoint_def example_endpoint_def)
    ultimately show ?thesis
      using receive_delivering [of "Present 3 2 5 7 11 21 []" OP_PRESENT 3 p "[]" "[]"]
        example_second_present
      by (auto simp: present_events_def is_ok_iff)
  qed
  show ?thesis
    unfolding trace_ops.simps t1 example_present_step t2 s2 t3 by simp
qed

subsection \<open>Frames and buffers\<close>

text \<open>
  C3. Release before reuse over the whole connection: for every task object, whatever records arrive,
  whatever the host calls and however the kernel behaves, if a buffer is taken by a present of frame
  \<open>f\<close> and later by a present of frame \<open>g\<close>, then frame \<open>f\<close> was given back in between.  Destroying the
  task and creating a new one under the same object does not lose a frame either.
\<close>

theorem endpoint_release_before_reuse:
  assumes "reachable_endpoint e"
    and "trace_ops ep_step (ep_events ob) e calls = es1 @ Reserve f b # es2 @ Reserve g b # es3"
  shows "Retire f b \<in> set es2"
  using endpoint_frames.release_before_reuse [OF reachable_inv [OF assms(1)] assms(2)] .

theorem endpoint_release_before_reuse_witness:
  "\<exists>es. trace_ops ep_step (ep_events 3) example_endpoint
     [CallReceive (delivering (Present 3 1 5 7 10 20 []) []), CallFinishRelease host 3 1,
      CallReceive (delivering (Present 3 2 5 7 11 21 []) [])]
     = [] @ Reserve 1 5 # es @ Reserve 2 5 # [] \<and> Retire 1 5 \<in> set es"
  using endpoint_release_before_reuse [OF example_reachable example_trace] example_trace by blast

text \<open>
  C12. The invariant of the connection holds in every reachable state: per task, the frames the
  endpoint remembers are exactly the frames in flight with their buffers and release points,
  timelines are there exactly when bound and never ahead of the points the state consumed, a task
  marked for retirement still has a frame in flight, at most 64 presentation callbacks are tracked;
  across tasks, displays and bound Android tasks are unique, there are at most 4096 tasks, and none
  before the handshake.
\<close>

theorem endpoint_invariant:
  "ep_inv (run_ops ep_step (ep_configured activation input lazy scene clock) calls)"
  using endpoint_frames.inv_run [OF ep_inv_configured] .

text \<open>
  C21. Completing a frame never fails in the task state: \<open>finish_release\<close> of a remembered frame drops
  it from the task, answers with exactly its \<open>BufferReleased\<close> unless the task is retiring (then nothing
  is sent), and removes a retiring task with its last frame.
\<close>

theorem finish_release_outcome:
  assumes "reachable_endpoint e" and "fmlookup (ep_tasks e) ob = Some te"
    and "fmlookup (te_pending te) f = Some a" and "finish_release env ob f e = (r, e')"
  shows "ep_tasks e' =
      (if te_retiring te \<and> fmdrop f (ts_in_flight (te_state te)) = fmempty
       then fmdrop ob (ep_tasks e)
       else fmupd ob (te\<lparr>te_state := drop_frame (te_state te) f (awf_buffer a),
         te_pending := fmdrop f (te_pending te)\<rparr>) (ep_tasks e)) \<and>
    (if te_retiring te then r = Inr () \<and> ep_sent e' = ep_sent e
     else (r = Inr () \<and>
         ep_sent e' = ep_sent e @ [(BufferReleased ob f (awf_buffer a) (awf_release_point a), [])]) \<or>
       (\<exists>x. r = Inl (EpIpc x) \<and> ep_sent e' = ep_sent e))"
proof -
  have te: "te_inv ob te"
    using reachable_inv [OF assms(1)] assms(2) by (rule ep_inv_te)
  have "if te_retiring te then r = Inr () \<and> ep_sent e' = ep_sent e
      else (r = Inr () \<and>
          ep_sent e' = ep_sent e @ [(BufferReleased ob f (awf_buffer a) (awf_release_point a), [])]) \<or>
        (\<exists>x. r = Inl (EpIpc x) \<and> ep_sent e' = ep_sent e)"
    using assms(2-4) pending_release(1) [OF te assms(3)]
    by (auto simp: finish_release_def Let_def ep_send_def split: if_splits sum.splits)
  with finish_release_tasks(1) [OF te assms(2,3), of env] assms(4) show ?thesis by simp
qed

theorem finish_release_outcome_witness:
  "ep_tasks example_freed_endpoint = fmupd 3 example_freed_task (ep_tasks example_busy_endpoint)
   \<and> ep_sent example_freed_endpoint = ep_sent example_busy_endpoint @ [(BufferReleased 3 1 5 20, [])]"
  using finish_release_outcome [OF example_busy_reachable example_busy_hits example_release_run]
  by (simp add: example_busy_task_def example_freed_task_def example_task_def example_accepted_def
      drop_frame_def fmdrop_fmupd_same)

text \<open>
  Destroying a task succeeds also while the host still owns frames: the object is removed at once
  when nothing is in flight, and is otherwise kept, marked as retiring, until \<open>finish_release\<close> of its
  last frame.
\<close>

theorem destroy_task_outcome:
  assumes "fmlookup (ep_tasks e) ob = Some te" and "destroy_task ob e = (r, e')"
  shows "r = Inr (ActDestroyTask ob) \<and>
    fmlookup (ep_tasks e') ob =
      (if ts_in_flight (te_state te) = fmempty then None else Some (te\<lparr>te_retiring := True\<rparr>))"
  using assms by (auto simp: destroy_task_def Let_def)

text \<open>
  C11. A failed announcement of a render target leaves no trace: when \<open>register_render_target\<close> or
  \<open>unregister_render_target\<close> fails for whatever reason, the state check or the socket, the endpoint is
  exactly the one it was; the rollback of the registration can itself never fail.
\<close>

theorem render_target_rollback:
  assumes "reachable_endpoint e"
  shows "(case register_render_target env ob serial b planes e of
      (Inl err, e') \<Rightarrow> e' = e | (Inr _, e') \<Rightarrow> True) \<and>
    (case unregister_render_target env ob k e of
      (Inl err, e') \<Rightarrow> e' = e \<and> (\<forall>te. fmlookup (ep_tasks e) ob = Some te \<longrightarrow>
        is_ok (fst (ts_unregister_buffer (te_state te) k)) \<longrightarrow> (\<exists>x. err = EpIpc x))
    | (Inr _, e') \<Rightarrow> True)"
  using register_render_target_failure [OF reachable_inv [OF assms]]
    unregister_render_target_failure [OF reachable_inv [OF assms]]
  by (auto split: prod.split sum.split)

definition refusing :: host_env where
  "refusing = host\<lparr>env_sendmsg := (\<lambda>_ _. Inl 32)\<rparr>"

lemma send_refused: "\<exists>err. ep_send refusing m fds e = (Inl (EpIpc err), e)"
  by (auto simp: ep_send_def refusing_def send_denial_with_descriptors_def send_record_def
      bind_result_def split: sum.splits)

theorem render_target_rollback_witness:
  "\<exists>err. unregister_render_target refusing 3 5 example_endpoint = (Inl err, example_endpoint)"
proof -
  obtain r e' where eq: "unregister_render_target refusing 3 5 example_endpoint = (r, e')" by fastforce
  have "\<not> is_ok r"
    using send_refused eq
    by (auto simp: unregister_render_target_def op_bind_def on_task_state_def example_endpoint_def
        example_task_def ts_unregister_buffer_def set_task_def is_ok_iff split: sum.splits prod.splits)
      (metis Inl_Inr_False fst_conv)+
  with render_target_rollback [OF example_reachable, of refusing 3 0 "example_buffer 0" "[]" 5] eq
  show ?thesis by (auto simp: is_ok_iff split: sum.splits)
qed

subsection \<open>Handshake\<close>

text \<open>
  Nothing happens before the handshake: until \<open>ClientHello\<close> has been answered, every received
  record either completes the handshake or is an error that leaves the endpoint closed, and no task is
  created, changed or destroyed by it.
\<close>

theorem handshake_first:
  assumes "\<not> ep_ready e" and "receive_action env e = (r, e')"
  shows "(case r of Inr act \<Rightarrow> act = ActClientReady \<and> ep_ready e' | Inl err \<Rightarrow> \<not> ep_ready e') \<and>
    ep_tasks e' = ep_tasks e"
proof -
  have hello: "(case r of Inr act \<Rightarrow> act = ActClientReady \<and> ep_ready e' | Inl err \<Rightarrow> \<not> ep_ready e') \<and>
      ep_tasks e' = ep_tasks e"
    if "handle_android env m ds e = (r, e')" "is_client_hello m" for m ds
    using that assms(1)
    by (cases m) (auto simp: client_hello_def Let_def op_bind_def ep_send_def negotiated_def
        split: if_splits sum.splits)
  show ?thesis
  proof (cases "receive_android_into (env_cmsg_base env) (env_recvmsg env) MAX_PACKET_BYTES")
    case (Inl err)
    then show ?thesis
      using assms by (auto simp: receive_action_def op_bind_def)
  next
    case (Inr rcv)
    then show ?thesis
      using assms hello by (cases "is_client_hello (rcv_message rcv)")
        (auto simp: receive_action_def op_bind_def)
  qed
qed

lemma single_bit_offered:
  assumes "(caps :: u64) AND push_bit n 1 \<noteq> 0"
  shows "push_bit n 1 AND NOT caps = 0"
proof -
  have "bit caps n"
  proof (rule ccontr)
    assume "\<not> bit caps n"
    then have "caps AND push_bit n 1 = 0"
      by (intro bit_word_eqI) (auto simp: bit_simps)
    with assms show False by simp
  qed
  then show ?thesis
    by (intro bit_word_eqI) (auto simp: bit_simps)
qed

lemma offered_bits:
  "caps AND TASK_ACTIVATION \<noteq> 0 \<Longrightarrow> TASK_ACTIVATION AND NOT caps = 0"
  "caps AND DIRECT_INPUT \<noteq> 0 \<Longrightarrow> DIRECT_INPUT AND NOT caps = 0"
  "caps AND LAZY_RENDER_TARGETS \<noteq> 0 \<Longrightarrow> LAZY_RENDER_TARGETS AND NOT caps = 0"
  "caps AND SCENE_PRESENTATION \<noteq> 0 \<Longrightarrow> SCENE_PRESENTATION AND NOT caps = 0"
  "caps AND HOST_CLOCK \<noteq> 0 \<Longrightarrow> HOST_CLOCK AND NOT caps = 0"
  unfolding TASK_ACTIVATION_def DIRECT_INPUT_def LAZY_RENDER_TARGETS_def SCENE_PRESENTATION_def
    HOST_CLOCK_def by (rule single_bit_offered, assumption)+

lemma required_offered: "caps AND REQUIRED_V1 = REQUIRED_V1 \<Longrightarrow> REQUIRED_V1 AND NOT caps = 0"
  by (auto simp: bit_eq_iff bit_simps)

lemma or_offered: "(x OR y) AND NOT (caps :: u64) = 0 \<longleftrightarrow> x AND NOT caps = 0 \<and> y AND NOT caps = 0"
  by (auto simp: bit_eq_iff bit_simps)

text \<open>
  Negotiation is sound: the handshake succeeds only for a client that speaks major version 1 and
  offers every required capability; an optional feature is on afterwards exactly when the host opted
  in and the client offered it; and the \<open>ServerHello\<close> that was sent names the protocol's limits, every
  required capability and no capability the client did not offer.
\<close>

theorem negotiation_sound:
  assumes "client_hello env lo hi caps e = (Inr act, e')"
  shows "act = ActClientReady \<and> \<not> ep_ready e \<and> ep_ready e' \<and> lo \<le> 1 \<and> 1 \<le> hi \<and>
    caps AND REQUIRED_V1 = REQUIRED_V1 \<and>
    (ep_activation_requests e' \<longleftrightarrow> ep_activation_requests e \<and> caps AND TASK_ACTIVATION \<noteq> 0) \<and>
    (ep_direct_input e' \<longleftrightarrow> ep_direct_input e \<and> caps AND DIRECT_INPUT \<noteq> 0) \<and>
    (ep_lazy_render_targets e' \<longleftrightarrow> ep_lazy_render_targets e \<and> caps AND LAZY_RENDER_TARGETS \<noteq> 0) \<and>
    (ep_scene_presentation e' \<longleftrightarrow> ep_scene_presentation e \<and> caps AND SCENE_PRESENTATION \<noteq> 0) \<and>
    (ep_host_clock e' \<longleftrightarrow> ep_host_clock e \<and> caps AND HOST_CLOCK \<noteq> 0) \<and>
    (\<exists>minor sent. ep_sent e' = ep_sent e @ [(ServerHello 1 minor sent 4096 256 256, [])] \<and>
       minor \<le> 9 \<and> sent AND REQUIRED_V1 = REQUIRED_V1 \<and> sent AND NOT caps = 0)"
proof -
  let ?n = "negotiated e caps"
  have ok: "\<not> ep_ready e" "\<not> PROTOCOL_MAJOR < lo" "\<not> hi < PROTOCOL_MAJOR"
    and caps: "caps AND REQUIRED_V1 = REQUIRED_V1" and act: "act = ActClientReady"
    and e': "e' = ?n\<lparr>ep_ready := True, ep_sent := ep_sent e @ [(server_hello ?n, [])]\<rparr>"
    using assms by (auto simp: client_hello_def Let_def op_bind_def ep_send_def negotiated_def
        split: if_splits sum.splits)
  have flags: "(if ep_activation_requests ?n then TASK_ACTIVATION else 0) AND NOT caps = 0"
    "(if ep_direct_input ?n then DIRECT_INPUT else 0) AND NOT caps = 0"
    "(if ep_scene_presentation ?n then SCENE_PRESENTATION else 0) AND NOT caps = 0"
    "(if ep_host_clock ?n then HOST_CLOCK else 0) AND NOT caps = 0"
    "(if ep_lazy_render_targets ?n then LAZY_RENDER_TARGETS else 0) AND NOT caps = 0"
    by (simp_all add: negotiated_def offered_bits)
  have "\<exists>minor sent. server_hello ?n = ServerHello 1 minor sent 4096 256 256 \<and> minor \<le> 9 \<and>
      sent AND REQUIRED_V1 = REQUIRED_V1 \<and> sent AND NOT caps = 0"
    unfolding server_hello_def PROTOCOL_MAJOR_def MAX_TASK_OBJECTS_def MAX_BUFFERS_PER_TASK_def
      MAX_DAMAGE_RECTS_def
    by (intro exI conjI, simp, simp add: PROTOCOL_MINOR_def, rule required_capabilities_kept)
      (simp only: or_offered flags required_offered [OF caps] simp_thms)
  moreover have "lo \<le> 1" "1 \<le> hi"
    using ok by (simp_all only: PROTOCOL_MAJOR_def not_less)
  ultimately show ?thesis
    using ok(1) caps act by (simp add: e' negotiated_def)
qed

subsection \<open>Presents\<close>

lemma drm_call_error:
  "drm_call operation outcome = Inl err \<Longrightarrow> \<exists>errno. err = Drm operation errno"
  by (auto simp: drm_call_def map_err_Inl_iff)

lemma transfer_handle_error:
  "transfer_handle k t = (Inl err, t') \<Longrightarrow> \<exists>operation errno. err = Drm operation errno"
  by (auto simp: transfer_handle_def dest: drm_call_error split: option.splits sum.splits)

lemma export_error:
  assumes "export_materialized k t p = (Inl err, t')" and "tl_last_exported_point t < p"
  shows "\<exists>operation errno. err = Drm operation errno"
proof -
  have "require_newer (tl_last_exported_point t) p = Inr ()"
    using assms(2) by (simp add: require_newer_Inr_iff)
  with assms(1) show ?thesis
    by (auto simp: export_materialized_def dest: drm_call_error transfer_handle_error
        split: sum.splits prod.splits)
qed

lemma signal_error:
  assumes "tl_signal k t p = (Inl err, t')" and "tl_latest_fence t < p"
  shows "\<exists>operation errno. err = Drm operation errno"
proof -
  have "require_newer (max (tl_last_attached_point t) (tl_last_signalled_point t)) p = Inr ()"
    using assms(2) by (simp add: require_newer_Inr_iff tl_latest_fence_def)
  with assms(1) show ?thesis
    by (auto simp: tl_signal_def dest: drm_call_error split: sum.splits)
qed

lemma task_timelines_errors:
  assumes "timelines_behind tt s" and "ts_last_acquire_point s < acq" and "ts_last_release_point s < rel"
  shows "denial_export_acquire_fence k tt acq = (Inl err, tt') \<Longrightarrow> \<exists>operation errno. err = Drm operation errno"
    and "denial_export_acquire_fence k tt acq = (r, tt1) \<Longrightarrow>
      denial_signal_release k tt1 rel = (Inl err, tt') \<Longrightarrow> \<exists>operation errno. err = Drm operation errno"
proof -
  have a: "tl_last_exported_point (tt_acquire tt) < acq" and r: "tl_latest_fence (tt_release tt) < rel"
    using assms by (auto simp: timelines_behind_def)
  show "\<exists>operation errno. err = Drm operation errno"
    if "denial_export_acquire_fence k tt acq = (Inl err, tt')"
    using that a by (auto simp: denial_export_acquire_fence_def on_acquire_def
        dest: export_error split: prod.splits)
  show "\<exists>operation errno. err = Drm operation errno"
    if "denial_export_acquire_fence k tt acq = (r, tt1)" "denial_signal_release k tt1 rel = (Inl err, tt')"
    using that r by (auto simp: denial_export_acquire_fence_def denial_signal_release_def on_acquire_def
        on_release_def dest: signal_error split: prod.splits)
qed

text \<open>
  The protocol state protects the timelines: in every reachable state, a present that passes the
  task state's checks never trips the order checks of the syncobj layer.  If exporting the acquire
  fence or signalling the release point fails, the kernel failed.
\<close>

theorem present_sync_errors_are_kernel_errors:
  assumes "reachable_endpoint e"
    and "ep_present env ob f b serial acq rel ds e = (Inl (EpSync err), e')"
  shows "\<exists>operation errno. err = Drm operation errno"
proof (cases "fmlookup (ep_tasks e) ob")
  case None
  then show ?thesis using assms(2) by (simp add: ep_present_def)
next
  case (Some te)
  let ?s = "te_state te"
  have te: "te_inv ob te"
    using reachable_inv [OF assms(1)] Some by (rule ep_inv_te)
  have behind: "\<exists>tt. te_timelines te = Some tt \<and> timelines_behind tt ?s" if "ts_timelines_bound ?s"
    using te that by (auto simp: te_inv_def)
  obtain r0 s' where pres: "ts_present ?s ob f b serial acq rel ds = (r0, s')" by fastforce
  show ?thesis
  proof (cases r0)
    case (Inr a)
    then have check: "present_check ?s ob f b serial acq rel ds = Inr ()"
      and a: "awf_object a = ob" "awf_acquire_point a = acq" "awf_frame a = f" "awf_buffer a = b"
        "awf_release_point a = rel"
      using ts_present_Inr [of ?s ob f b serial acq rel ds a s'] pres by auto
    then obtain tt where tt: "te_timelines te = Some tt" "timelines_behind tt ?s"
      using behind by (auto simp: present_check_iff)
    obtain r1 tt1 where ex: "denial_export_acquire_fence (env_drm env) tt acq = (r1, tt1)" by fastforce
    have "r1 = Inl err"
      using assms(2) Some pres Inr tt(1) ex a
      by (cases r1; auto simp: ep_present_def on_task_state_def submit_accepted_def op_bind_def
          map_err_Inl_iff split: sum.splits prod.splits)
    with ex task_timelines_errors(1) [OF tt(2)] check show ?thesis
      by (auto simp: present_check_iff)
  next
    case (Inl x)
    then have "s' = ?s" using pres ts_present_Inl by blast
    with Inl have at: "on_task_state ob (\<lambda>s. ts_present s ob f b serial acq rel ds) e = (Inl (EpState x), e)"
      using Some pres set_task_same [OF Some] by (simp add: on_task_state_def)
    then have disc: "discard_superseded env ob f b serial acq rel e = (Inl (EpSync err), e')"
      using assms(2) by (auto simp: ep_present_def split: task_state_error.splits)
    obtain r1 s1 where d: "ts_discard_superseded_present ?s ob f b serial acq rel = (r1, s1)" by fastforce
    then obtain m where r1: "r1 = Inr m"
      using disc Some by (cases r1) (auto simp: discard_superseded_def on_task_state_def op_bind_def)
    then have "discard_check ?s ob f b serial acq rel = Inr ()"
      using ts_discard_Inr d by blast
    then have newer: "ts_last_acquire_point ?s < acq" "ts_last_release_point ?s < rel"
      and bound: "ts_timelines_bound ?s"
      by (auto simp: discard_check_iff)
    obtain tt where tt: "te_timelines te = Some tt" "timelines_behind tt ?s"
      using behind [OF bound] by blast
    obtain r2 tt1 where ex: "denial_export_acquire_fence (env_drm env) tt acq = (r2, tt1)" by fastforce
    obtain r3 tt2 where sg: "denial_signal_release (env_drm env) tt1 rel = (r3, tt2)" by fastforce
    have "r2 = Inl err \<or> r3 = Inl err"
      using disc Some d r1 tt(1) ex sg
      by (auto simp: discard_superseded_def on_task_state_def on_timelines_def op_bind_def ep_send_def
          map_err_Inl_iff split: sum.splits prod.splits)
    with ex sg task_timelines_errors [OF tt(2) newer] show ?thesis by blast
  qed
qed

definition failing_drm :: host_env where
  "failing_drm = host\<lparr>env_drm := quiet_drm\<lparr>k_timeline_transfer := (\<lambda>_ _ _ _. Inl 22)\<rparr>\<rparr>"

text \<open>
  C16. Only current content reaches the compositor.  When a received present leads to a \<open>Present\<close>
  action, the action carries exactly the frame, buffer, points and damage that were received; it names
  the latest configure, that configure was acknowledged, the buffer is registered with the configured
  size and a format of the current feedback, it is not in use, the frame is not in flight, both points
  are newer than all before and the damage lies inside the window.  The frame is then in flight with
  this buffer.  With any other outcome nothing enters the frames in flight and nothing leaves them.
\<close>

theorem present_action_is_current:
  assumes "reachable_endpoint e" and "fmlookup (ep_tasks e) ob = Some te"
    and "ep_present env ob f b serial acq rel ds e = (r, e')"
  shows "case r of
      Inr (ActPresent a fence) \<Rightarrow>
        a = \<lparr>awf_object = ob, awf_frame = f, awf_buffer = b, awf_acquire_point = acq,
             awf_release_point = rel, awf_damage = ds\<rparr> \<and>
        (\<exists>w h m. ts_configure_value (te_state te) = Some (serial, w, h) \<and>
          ts_acknowledged_serial (te_state te) = Some serial \<and>
          fmlookup (ts_buffers (te_state te)) b = Some m \<and> buf_width m = w \<and> buf_height m = h \<and>
          buf_format m |\<in>| ts_feedback (te_state te) \<and>
          b |\<notin>| ts_busy_buffers (te_state te) \<and> fmlookup (ep_ledger ob e) f = None \<and>
          ts_last_acquire_point (te_state te) < acq \<and> ts_last_release_point (te_state te) < rel \<and>
          (\<forall>d \<in> set ds. \<not> damage_outside w h d)) \<and>
        ep_ledger ob e' = fmupd f b (ep_ledger ob e)
    | _ \<Rightarrow> ep_ledger ob e' = ep_ledger ob e"
proof -
  have te: "te_inv ob te"
    using reachable_inv [OF assms(1)] assms(2) by (rule ep_inv_te)
  have ledger: "ep_ledger ob e' = ts_ledger (te_state te')" if "fmlookup (ep_tasks e') ob = Some te'" for te'
    using that by (simp add: ep_ledger_def)
  have before: "ep_ledger ob e = ts_ledger (te_state te)"
    using assms(2) by (simp add: ep_ledger_def)
  show ?thesis
  proof (cases rule: ep_present_outcome [OF te assms(2), of env f b serial acq rel ds,
        case_names refused submitted rolled_back discarded])
    case (submitted fence a s' tt')
    then have out: "r = Inr (ActPresent a fence)" and hit: "fmlookup (ep_tasks e') ob =
        Some (te\<lparr>te_state := s', te_timelines := Some tt', te_pending := fmupd f a (te_pending te)\<rparr>)"
      using assms(3) by auto
    show ?thesis
      using ts_present_Inr [OF submitted(2)] unfolding out before ledger [OF hit]
      by (auto simp: present_check_iff ts_ledger_def fmlookup_dom_iff fmmap_fmupd)
  next
    case (rolled_back err a s' tt')
    then have "r = Inl (EpSync err)" and hit: "fmlookup (ep_tasks e') ob =
        Some (te\<lparr>te_state := drop_frame s' f b, te_timelines := Some tt'\<rparr>)"
      using assms(3) by auto
    then show ?thesis unfolding before ledger [OF hit] using rolled_back(4) by (simp add: ts_ledger_def)
  next
    case (discarded x y r' e1 s' tt')
    then have "fmlookup (ep_tasks e') ob = Some (te\<lparr>te_state := s', te_timelines := Some tt'\<rparr>)"
      using assms(3) by simp
    note hit = this
    have same: "ep_ledger ob e' = ep_ledger ob e"
      unfolding before ledger [OF hit] using discarded(7) by (simp add: ts_ledger_def)
    have "r \<noteq> Inr (ActPresent a fence)" for a fence
      using assms(3) discarded(1) assms(2)
      by (auto simp: ep_present_def on_task_state_def discard_superseded_def op_bind_def op_return_def
          split: sum.splits prod.splits)
    then show ?thesis using same by (auto split: sum.split endpoint_action.split)
  qed (use assms(3) in simp_all)
qed

theorem present_action_is_current_witness:
  "\<exists>w h m. ep_present host 3 1 5 7 10 20 [] example_endpoint =
       (Inr (ActPresent example_accepted 50), example_busy_endpoint) \<and>
     ts_configure_value (te_state example_task) = Some (7, w, h) \<and>
     ts_acknowledged_serial (te_state example_task) = Some 7 \<and>
     fmlookup (ts_buffers (te_state example_task)) 5 = Some m \<and> buf_width m = w \<and> buf_height m = h \<and>
     ep_ledger 3 example_endpoint = fmempty \<and> ep_ledger 3 example_busy_endpoint = fmupd 1 5 fmempty"
proof -
  have hit: "fmlookup (ep_tasks example_endpoint) 3 = Some example_task"
    by (simp add: example_endpoint_def)
  show ?thesis
    using present_action_is_current [OF example_reachable hit example_present_run]
      example_present_run hit
    by (auto simp: example_busy_endpoint_def ep_ledger_def ts_ledger_def example_task_def)
qed

subsection \<open>Tasks are isolated\<close>

text \<open>An operation that leaves every task but one alone.\<close>

definition touches_only :: "task_object_id \<Rightarrow> 'a ep_op \<Rightarrow> bool" where
  "touches_only ob m \<longleftrightarrow>
     (\<forall>e o1. o1 \<noteq> ob \<longrightarrow> fmlookup (ep_tasks (snd (m e))) o1 = fmlookup (ep_tasks e) o1)"

lemma touches_only_bind:
  "touches_only ob m \<Longrightarrow> (\<And>x. touches_only ob (k x)) \<Longrightarrow> touches_only ob (op_bind m k)"
proof -
  assume m: "touches_only ob m" and k: "\<And>x. touches_only ob (k x)"
  have "fmlookup (ep_tasks (snd (op_bind m k e))) o1 = fmlookup (ep_tasks e) o1" if "o1 \<noteq> ob" for e o1
  proof (cases "m e")
    case (Pair r e1)
    then have "fmlookup (ep_tasks e1) o1 = fmlookup (ep_tasks e) o1"
      using m that by (metis touches_only_def snd_conv)
    with Pair k that show ?thesis
      by (cases r) (simp_all add: touches_only_def)
  qed
  then show ?thesis by (simp add: touches_only_def)
qed

lemma touches_onlyD:
  "touches_only ob m \<Longrightarrow> o1 \<noteq> ob \<Longrightarrow> fmlookup (ep_tasks (snd (m e))) o1 = fmlookup (ep_tasks e) o1"
  by (simp add: touches_only_def)

lemma touches_only_basic [simp]:
  "touches_only ob (op_return x)" "touches_only ob (op_lift r)" "touches_only ob (task_of o2)"
  "touches_only ob (require_flag flag)" "touches_only ob (ep_send env m fds)"
  "touches_only ob (on_task_state ob f)" "touches_only ob (on_timelines ob g)"
  by (auto simp: touches_only_def task_of_def require_flag_def on_task_state_def on_timelines_def
      split: option.splits prod.splits)

lemma touches_only_table [simp]:
  "touches_only ob (client_hello env lo hi caps)" "touches_only ob (create_task ob d package)"
  "touches_only ob (bind_task ob t)" "touches_only ob (destroy_task ob)"
  "touches_only ob (bind_timelines env ob ds)"
  subgoal
    by (auto simp: touches_only_def client_hello_def Let_def snd_op_bind ep_send_def negotiated_def
        split: sum.splits)
  subgoal by (auto simp: touches_only_def create_task_def split: sum.splits)
  subgoal by (auto simp: touches_only_def bind_task_def split: option.splits)
  subgoal by (auto simp: touches_only_def destroy_task_def Let_def split: option.splits)
  subgoal
  proof -
    have "touches_only ob (\<lambda>e. case fmlookup (ep_tasks e) ob of None \<Rightarrow> (Inl (UnknownObject ob), e)
        | Some te \<Rightarrow> (Inr (ActTimelinesBound ob), set_task e ob (te\<lparr>te_timelines := Some tt\<rparr>)))" for tt
      by (auto simp: touches_only_def split: option.splits)
    then show ?thesis
      unfolding bind_timelines_def by (auto intro!: touches_only_bind split: prod.splits)
  qed
  done

lemma touches_only_submit: "touches_only (awf_object a) (submit_accepted env a)"
proof -
  let ?ob = "awf_object a"
  have cancel: "touches_only ?ob (op_bind
      (on_task_state ?ob (\<lambda>s. ts_cancel_unsubmitted s (awf_frame a) (awf_buffer a) (awf_release_point a)))
      (\<lambda>_. op_lift (Inl (EpSync x)) :: endpoint_action ep_op))" for x
    by (intro touches_only_bind) simp_all
  show ?thesis
    unfolding touches_only_def submit_accepted_def Let_def
    by (auto simp: touches_onlyD [OF cancel] split: option.split prod.split sum.split)
qed

lemma ep_present_snd:
  assumes "on_task_state ob (\<lambda>s. ts_present s ob f b serial acq rel ds) e = (r, e1)"
  shows "case r of Inr a \<Rightarrow> ep_present env ob f b serial acq rel ds e = submit_accepted env a e1
    | Inl err \<Rightarrow> snd (ep_present env ob f b serial acq rel ds e)
        \<in> {e1, snd (discard_superseded env ob f b serial acq rel e1)}"
proof (cases r)
  case (Inl err)
  then show ?thesis
    using assms
    by (cases err; simp add: ep_present_def) (simp split: task_state_error.split)
qed (use assms in \<open>simp add: ep_present_def\<close>)

lemma touches_only_present [simp]: "touches_only ob (ep_present env ob f b serial acq rel ds)"
  unfolding touches_only_def
proof (intro allI impI)
  fix e o1
  assume ne: "o1 \<noteq> ob"
  let ?op = "on_task_state ob (\<lambda>s. ts_present s ob f b serial acq rel ds)"
  have disc: "touches_only ob (discard_superseded env ob f b serial acq rel)"
    unfolding discard_superseded_def by (intro touches_only_bind) simp_all
  obtain r e1 where at: "?op e = (r, e1)" by fastforce
  have same: "fmlookup (ep_tasks e1) o1 = fmlookup (ep_tasks e) o1"
    using touches_onlyD [of ob ?op o1 e] ne at by simp
  have ob: "awf_object a = ob" if "r = Inr a" for a
    using at that by (auto simp: on_task_state_def map_err_Inr_iff dest!: ts_present_Inr
        split: option.splits prod.splits)
  show "fmlookup (ep_tasks (snd (ep_present env ob f b serial acq rel ds e))) o1 = fmlookup (ep_tasks e) o1"
  proof (cases r)
    case (Inl err)
    then show ?thesis
      using ep_present_snd [OF at, of env] same touches_onlyD [OF disc ne, of e1] by auto
  next
    case (Inr a)
    then show ?thesis
      using ep_present_snd [OF at, of env] same ob touches_onlyD [OF touches_only_submit, of o1 a env e1] ne
      by simp
  qed
qed

fun message_object :: "android_message \<Rightarrow> task_object_id" where
  "message_object (RequestRenderTargets ob _) = ob"
| "message_object (BindInputRoute ob _ _) = ob"
| "message_object (CreateTask ob _ _) = ob"
| "message_object (BindTask ob _) = ob"
| "message_object (DestroyTask ob) = ob"
| "message_object (BindTimelines ob) = ob"
| "message_object (AckConfigure ob _) = ob"
| "message_object (RegisterBuffer ob _) = ob"
| "message_object (UnregisterBuffer ob _) = ob"
| "message_object (Present ob _ _ _ _ _ _) = ob"
| "message_object (BindLayerStream ob) = ob"
| "message_object (SetContentState ob _) = ob"
| "message_object (SetFrameRate ob _) = ob"
| "message_object (RequestActivation ob) = ob"
| "message_object (BindInputChannel _ _) = 0"
| "message_object (ClientHello _ _ _) = 0"
| "message_object (Pong _) = 0"

text \<open>
  C22. Tasks are isolated: handling one record changes at most the task whose object the record names;
  every other task, with its frames, buffers and timelines, is exactly as before, also when the record
  is rejected half-way.
\<close>

theorem task_isolation:
  assumes "ob \<noteq> message_object m"
  shows "fmlookup (ep_tasks (snd (handle_android env m ds e))) ob = fmlookup (ep_tasks e) ob"
proof -
  have "touches_only (message_object m) (handle_android env m ds)"
    by (cases m) (auto simp: register_buffer_def bind_input_channel_def bind_input_route_def
        request_activation_def intro!: touches_only_bind split: list.splits)
  with assms show ?thesis
    unfolding touches_only_def by blast
qed

theorem task_isolation_witness:
  "fmlookup (ep_tasks (snd (handle_android host (DestroyTask 4) [] example_busy_endpoint))) 3
     = Some example_busy_task"
  using task_isolation [of 3 "DestroyTask 4"] example_busy_hits(1) by simp

text \<open>
  \<open>send_configure\<close> records the configure before the codec sees the message: a configure whose scale
  has a zero part passes the state's check, which tests a fixed scale of one, replaces the task's
  configure and withdraws its acknowledgement, and is then refused by the codec, so nothing is sent.
\<close>

theorem configure_recorded_without_send:
  assumes "fmlookup (ep_tasks e) ob = Some te" and "validate_configure serial w h 1 1 refresh = Inr ()"
    and "n = 0 \<or> d = 0" and "send_configure env ob serial w h n d tr refresh e = (r, e')"
  shows "r = Inl (EpIpc (IpcWire (Limit ''configure''))) \<and> ep_sent e' = ep_sent e \<and>
    (\<exists>te'. fmlookup (ep_tasks e') ob = Some te' \<and>
       ts_configure_value (te_state te') = Some (serial, w, h) \<and>
       (map_option fst (ts_configure_value (te_state te)) \<noteq> Some serial \<longrightarrow>
        ts_acknowledged_serial (te_state te') = None))"
proof -
  have "encode_denial (Configure ob serial w h n d tr refresh) = Inl (Limit ''configure'')"
    using assms(3) by (auto simp: encode_denial_def encode_configure_def validate_configure_def)
  then show ?thesis
    using assms(1,2,4) by (auto simp: send_configure_def op_bind_def on_task_state_def ts_configure_def
        Let_def ep_send_def send_denial_with_descriptors_def split: sum.splits)
qed

text \<open>
  Only the authorised peer gets an endpoint: \<open>accept\<close> yields a connection exactly when the
  kernel-reported user and group are the expected ones and the process is too, or the configured
  process is the development wildcard zero; the connection then starts without a handshake.
\<close>

theorem only_expected_peer_connects:
  "listener_accept expected accepted credentials = Inr e \<longleftrightarrow>
     (\<exists>actual. accepted = Inr () \<and> credentials = Inr actual \<and> e = ep_new \<and>
        peer_uid actual = exp_uid expected \<and> peer_gid actual = exp_gid expected \<and>
        (exp_pid expected = 0 \<or> peer_pid actual = exp_pid expected))"
  by (auto simp: listener_accept_def peer_accepts_def bind_result_def map_err_def
      split: sum.splits if_splits)

end
