(* ===== verification/Composer.thy ===== *)
theory Composer
  imports Transport "HOL-Library.Option_ord"
begin

section \<open>The Composer of one task display\<close>

text \<open>
  \<open>struct Composer\<close> of \<open>graphics/droidloom-composer/src/lib.rs\<close>: the display that SurfaceFlinger sees
  for one Android task, with its layers, the validate/accept/present handshake of HWC3, power and
  vertical sync, on top of the producer-side \<open>PresentationState\<close>.  Proved: the invariant of the
  display, that a frame is only presented after validation of exactly the current layers (all of them
  composed by the client and none protected), that vertical-sync samples move forward in time with the
  exact period, and that the Composer refines the frame ledger.
\<close>

subsection \<open>Data\<close>

type_synonym display_id = u64
type_synonym layer_id = u64
type_synonym task_id = u64

datatype composition = ClientComposition | DeviceComposition | SolidColor | Cursor | Sideband

record layer_state =
  ly_id :: layer_id
  ly_requested_composition :: composition
  ly_z :: i32
  ly_protected_content :: bool

record composition_change =
  cc_layer :: layer_id
  cc_composition :: composition

record validation_result =
  vr_composition_changes :: "composition_change list"

record client_target =
  ct_buffer :: buffer_metadata
  ct_damage :: "damage list"
  ct_has_acquire_fence :: bool

record present_result =
  pr_frame :: accepted_frame
  pr_requires_present_fence :: bool

datatype power_mode = PowerOff | PowerOn | PowerDoze | PowerDozeSuspend

record vsync_sample =
  vs_display :: display_id
  vs_timestamp_nanos :: u64
  vs_period_nanos :: u64

datatype composer_error =
    ComposerUnknownDisplay display_id display_id
  | DuplicateLayer layer_id
  | UnknownLayer layer_id
  | NotValidated
  | ChangesNotAccepted
  | MissingClientTarget
  | DisplayOff
  | UnsupportedPowerMode power_mode
  | MissingRefreshRate
  | ProtectedLayer layer_id
  | ComposerTransport transport_error

record composer =
  co_display :: display_id
  co_layers :: "(layer_id, layer_state) fmap"
  co_generation :: u64
  co_validated_generation :: "u64 option"
  co_changes_accepted :: bool
  co_client_target :: "client_target option"
  co_transport :: presentation_state
  co_power_mode :: power_mode
  co_vsync_enabled :: bool
  co_refresh_millihz :: u32
  co_last_presentation_nanos :: "u64 option"

type_synonym 'a composer_op = "(composer_error, composer, 'a) op"

subsection \<open>Operations\<close>

definition co_new :: "display_id \<Rightarrow> composer" where
  "co_new display = \<lparr>co_display = display, co_layers = fmempty, co_generation = 0,
     co_validated_generation = None, co_changes_accepted = False, co_client_target = None,
     co_transport = ps_default, co_power_mode = PowerOff, co_vsync_enabled = False,
     co_refresh_millihz = 0, co_last_presentation_nanos = None\<rparr>"

definition co_invalidate :: "composer \<Rightarrow> composer" where
  "co_invalidate c = c\<lparr>co_generation := saturating_add (co_generation c) 1,
     co_validated_generation := None, co_changes_accepted := False\<rparr>"

definition co_require_display :: "display_id \<Rightarrow> unit composer_op" where
  "co_require_display display = (\<lambda>c.
     (if display = co_display c then Inr ()
      else Inl (ComposerUnknownDisplay (co_display c) display), c))"

definition co_require_current_validation :: "display_id \<Rightarrow> unit composer_op" where
  "co_require_current_validation display =
     op_bind (co_require_display display) (\<lambda>_ c.
     (if co_validated_generation c = Some (co_generation c) then Inr () else Inl NotValidated, c))"

text \<open>\<open>self.transport.f(..)?\<close>\<close>

definition on_transport :: "(transport_error, presentation_state, 'a) op \<Rightarrow> 'a composer_op" where
  "on_transport = op_on co_transport (\<lambda>t c. c\<lparr>co_transport := t\<rparr>) ComposerTransport"

definition co_replace_feedback :: "composer \<Rightarrow> format_modifier list \<Rightarrow> composer" where
  "co_replace_feedback c formats =
     c\<lparr>co_transport := ps_replace_feedback (co_transport c) formats\<rparr>"

definition co_configure :: "composer \<Rightarrow> configure \<Rightarrow> composer" where
  "co_configure c configure =
     c\<lparr>co_refresh_millihz := cfg_refresh_millihz configure,
       co_transport := ps_configure (co_transport c) configure\<rparr>"

definition co_latest_configure :: "composer \<Rightarrow> configure option" where
  "co_latest_configure c = ps_latest_configure (co_transport c)"

definition co_set_power_mode :: "display_id \<Rightarrow> power_mode \<Rightarrow> unit composer_op" where
  "co_set_power_mode display mode =
     op_bind (co_require_display display) (\<lambda>_ c.
     case mode of
       PowerOff \<Rightarrow> (Inr (), c\<lparr>co_power_mode := mode, co_vsync_enabled := False\<rparr>)
     | PowerOn \<Rightarrow> (Inr (), c\<lparr>co_power_mode := mode\<rparr>)
     | _ \<Rightarrow> (Inl (UnsupportedPowerMode mode), c))"

definition co_set_vsync_enabled :: "display_id \<Rightarrow> bool \<Rightarrow> unit composer_op" where
  "co_set_vsync_enabled display enabled =
     op_bind (co_require_display display) (\<lambda>_ c.
     if enabled \<and> co_power_mode c \<noteq> PowerOn then (Inl DisplayOff, c)
     else (Inr (), c\<lparr>co_vsync_enabled := enabled\<rparr>))"

definition co_presentation_sample :: "u64 \<Rightarrow> vsync_sample option composer_op" where
  "co_presentation_sample timestamp_nanos = (\<lambda>c.
     if (case co_last_presentation_nanos c of
           None \<Rightarrow> False | Some previous \<Rightarrow> timestamp_nanos \<le> previous) then (Inr None, c)
     else let c1 = c\<lparr>co_last_presentation_nanos := Some timestamp_nanos\<rparr> in
     if co_power_mode c1 \<noteq> PowerOn \<or> \<not> co_vsync_enabled c1 then (Inr None, c1)
     else if co_refresh_millihz c1 = 0 then (Inl MissingRefreshRate, c1)
     else (Inr (Some \<lparr>vs_display = co_display c1, vs_timestamp_nanos = timestamp_nanos,
       vs_period_nanos = 1000000000000 div ucast (co_refresh_millihz c1)\<rparr>), c1))"

definition co_acknowledge_configure :: "u32 \<Rightarrow> unit composer_op" where
  "co_acknowledge_configure serial = on_transport (\<lambda>t. ps_acknowledge t serial)"

definition co_create_layer :: "display_id \<Rightarrow> layer_state \<Rightarrow> unit composer_op" where
  "co_create_layer display layer =
     op_bind (co_require_display display) (\<lambda>_ c.
     if ly_id layer |\<in>| fmdom (co_layers c) then (Inl (DuplicateLayer (ly_id layer)), c)
     else (Inr (), co_invalidate (c\<lparr>co_layers := fmupd (ly_id layer) layer (co_layers c)\<rparr>)))"

definition co_update_layer :: "display_id \<Rightarrow> layer_state \<Rightarrow> unit composer_op" where
  "co_update_layer display layer =
     op_bind (co_require_display display) (\<lambda>_ c.
     case fmlookup (co_layers c) (ly_id layer) of
       None \<Rightarrow> (Inl (UnknownLayer (ly_id layer)), c)
     | Some existing \<Rightarrow>
         if existing \<noteq> layer
         then (Inr (), co_invalidate (c\<lparr>co_layers := fmupd (ly_id layer) layer (co_layers c)\<rparr>))
         else (Inr (), c))"

definition co_layer_state :: "display_id \<Rightarrow> layer_id \<Rightarrow> layer_state composer_op" where
  "co_layer_state display layer =
     op_bind (co_require_display display) (\<lambda>_ c.
     (ok_or (UnknownLayer layer) (fmlookup (co_layers c) layer), c))"

definition co_destroy_layer :: "display_id \<Rightarrow> layer_id \<Rightarrow> unit composer_op" where
  "co_destroy_layer display layer =
     op_bind (co_require_display display) (\<lambda>_ c.
     if layer |\<notin>| fmdom (co_layers c) then (Inl (UnknownLayer layer), c)
     else (Inr (), co_invalidate (c\<lparr>co_layers := fmdrop layer (co_layers c)\<rparr>)))"

definition co_validate_display :: "display_id \<Rightarrow> validation_result composer_op" where
  "co_validate_display display =
     op_bind (co_require_display display) (\<lambda>_ c.
     case find ly_protected_content (fmvalues (co_layers c)) of
       Some layer \<Rightarrow> (Inl (ProtectedLayer (ly_id layer)), c)
     | None \<Rightarrow>
         let composition_changes =
           map (\<lambda>layer. \<lparr>cc_layer = ly_id layer, cc_composition = ClientComposition\<rparr>)
             (filter (\<lambda>layer. ly_requested_composition layer \<noteq> ClientComposition)
               (fmvalues (co_layers c)))
         in (Inr \<lparr>vr_composition_changes = composition_changes\<rparr>,
             c\<lparr>co_validated_generation := Some (co_generation c),
               co_changes_accepted := (composition_changes = [])\<rparr>))"

definition co_accept_display_changes :: "display_id \<Rightarrow> unit composer_op" where
  "co_accept_display_changes display =
     op_bind (co_require_current_validation display) (\<lambda>_ c.
     if co_power_mode c \<noteq> PowerOn then (Inl DisplayOff, c)
     else (Inr (), c\<lparr>co_layers :=
         fmmap (\<lambda>layer. layer\<lparr>ly_requested_composition := ClientComposition\<rparr>) (co_layers c),
       co_changes_accepted := True\<rparr>))"

definition co_set_client_target :: "display_id \<Rightarrow> client_target \<Rightarrow> unit composer_op" where
  "co_set_client_target display target =
     op_bind (co_require_display display) (\<lambda>_ c. (Inr (), c\<lparr>co_client_target := Some target\<rparr>))"

text \<open>The target is taken before it is submitted, so a rejected submission consumes it.\<close>

definition co_present_display :: "display_id \<Rightarrow> present_result composer_op" where
  "co_present_display display =
     op_bind (co_require_current_validation display) (\<lambda>_ c.
     if \<not> co_changes_accepted c then (Inl ChangesNotAccepted, c)
     else case co_client_target c of
       None \<Rightarrow> (Inl MissingClientTarget, c)
     | Some target \<Rightarrow>
         op_bind (on_transport (\<lambda>t.
           ps_submit t (ct_buffer target) (ct_damage target) (ct_has_acquire_fence target)))
         (\<lambda>frame c1. (Inr \<lparr>pr_frame = frame, pr_requires_present_fence = True\<rparr>,
            c1\<lparr>co_validated_generation := None, co_changes_accepted := False\<rparr>))
         (c\<lparr>co_client_target := None\<rparr>))"

definition co_present_display_direct :: "display_id \<Rightarrow> unit composer_op" where
  "co_present_display_direct display =
     op_bind (co_require_current_validation display) (\<lambda>_ c.
     if \<not> co_changes_accepted c then (Inl ChangesNotAccepted, c)
     else if co_power_mode c \<noteq> PowerOn then (Inl DisplayOff, c)
     else (Inr (), c\<lparr>co_validated_generation := None, co_changes_accepted := False\<rparr>))"

definition co_submit_rendered_target :: "display_id \<Rightarrow> client_target \<Rightarrow> accepted_frame composer_op" where
  "co_submit_rendered_target display target =
     op_bind (co_require_display display) (\<lambda>_ c.
     if co_power_mode c \<noteq> PowerOn then (Inl DisplayOff, c)
     else on_transport (\<lambda>t.
       ps_submit t (ct_buffer target) (ct_damage target) (ct_has_acquire_fence target)) c)"

definition co_release_presented_target :: "frame_id \<Rightarrow> bool \<Rightarrow> released_frame composer_op" where
  "co_release_presented_target frame has_release_fence =
     on_transport (\<lambda>t. ps_release t frame has_release_fence)"

definition co_cancel_unsubmitted_target :: "frame_id \<Rightarrow> buffer_id composer_op" where
  "co_cancel_unsubmitted_target frame = on_transport (\<lambda>t. ps_cancel_unsubmitted t frame)"

definition co_in_flight_count :: "composer \<Rightarrow> nat" where
  "co_in_flight_count c = ps_in_flight_count (co_transport c)"

definition co_in_flight_buffer :: "composer \<Rightarrow> frame_id \<Rightarrow> buffer_id option" where
  "co_in_flight_buffer c frame = ps_in_flight_buffer (co_transport c) frame"

subsection \<open>Invariant\<close>

definition layers_ready :: "(layer_id, layer_state) fmap \<Rightarrow> bool" where
  "layers_ready m \<longleftrightarrow> (\<forall>k l. fmlookup m k = Some l \<longrightarrow>
     ly_requested_composition l = ClientComposition \<and> \<not> ly_protected_content l)"

definition layers_unprotected :: "(layer_id, layer_state) fmap \<Rightarrow> bool" where
  "layers_unprotected m \<longleftrightarrow>
     (\<forall>k l. fmlookup m k = Some l \<longrightarrow> \<not> ly_protected_content l)"

text \<open>
  Layers are filed under their own identity; a validation that is remembered is one of the current
  generation and of unprotected layers; accepted changes mean that every layer is composed by the
  client; vertical sync is on only while the display is.
\<close>

definition layers_filed :: "(layer_id, layer_state) fmap \<Rightarrow> bool" where
  "layers_filed m \<longleftrightarrow> (\<forall>k l. fmlookup m k = Some l \<longrightarrow> ly_id l = k)"

definition co_display_inv :: "composer \<Rightarrow> bool" where
  "co_display_inv c \<longleftrightarrow> layers_filed (co_layers c) \<and>
     (co_validated_generation c \<noteq> None \<longrightarrow>
        co_validated_generation c = Some (co_generation c) \<and> layers_unprotected (co_layers c)) \<and>
     (co_changes_accepted c \<longrightarrow> co_validated_generation c \<noteq> None \<and> layers_ready (co_layers c)) \<and>
     (co_vsync_enabled c \<longrightarrow> co_power_mode c = PowerOn)"

definition co_inv :: "composer \<Rightarrow> bool" where
  "co_inv c \<longleftrightarrow> ps_inv (co_transport c) \<and> co_display_inv c"

lemma co_inv_new: "co_inv (co_new display)"
  by (simp add: co_inv_def co_display_inv_def co_new_def ps_inv_default layers_filed_def)

lemma find_protected_None:
  "find ly_protected_content (fmvalues m) = None \<longleftrightarrow> layers_unprotected m"
  by (auto simp: find_None_iff set_fmvalues layers_unprotected_def)

lemma no_changes_ready:
  "layers_unprotected m \<Longrightarrow>
   filter (\<lambda>l. ly_requested_composition l \<noteq> ClientComposition) (fmvalues m) = [] \<Longrightarrow> layers_ready m"
  by (auto simp: filter_empty_conv set_fmvalues layers_unprotected_def layers_ready_def)

lemma layers_filed_simps [simp]:
  "layers_filed fmempty" "layers_filed m \<Longrightarrow> layers_filed (fmupd (ly_id l) l m)"
  "layers_filed m \<Longrightarrow> layers_filed (fmdrop k m)"
  "layers_filed m \<Longrightarrow> layers_filed (fmmap (\<lambda>l. l\<lparr>ly_requested_composition := x\<rparr>) m)"
  by (auto simp: layers_filed_def)

lemma layers_accepted [simp]:
  "layers_unprotected m \<Longrightarrow>
   layers_ready (fmmap (\<lambda>l. l\<lparr>ly_requested_composition := ClientComposition\<rparr>) m)"
  "layers_unprotected m \<Longrightarrow>
   layers_unprotected (fmmap (\<lambda>l. l\<lparr>ly_requested_composition := x\<rparr>) m)"
  by (auto simp: layers_ready_def layers_unprotected_def)

text \<open>The guards of an operation and its use of the transport, as rewrite rules.\<close>

lemma require_display_bind:
  "op_bind (co_require_display d) k c =
     (if d = co_display c then k () c else (Inl (ComposerUnknownDisplay (co_display c) d), c))"
  by (simp add: co_require_display_def op_bind_def)

lemma require_current_validation_bind:
  "op_bind (co_require_current_validation d) k c =
     (if d \<noteq> co_display c then (Inl (ComposerUnknownDisplay (co_display c) d), c)
      else if co_validated_generation c \<noteq> Some (co_generation c) then (Inl NotValidated, c)
      else k () c)"
  by (simp add: co_require_current_validation_def co_require_display_def op_bind_def)

lemma on_transport_apply:
  "on_transport m c = (map_err ComposerTransport (fst (m (co_transport c))),
     c\<lparr>co_transport := snd (m (co_transport c))\<rparr>)"
  by (simp add: on_transport_def op_on_apply)

lemma on_transport_bind:
  "op_bind (on_transport m) k c =
     (case m (co_transport c) of
        (Inl e, t) \<Rightarrow> (Inl (ComposerTransport e), c\<lparr>co_transport := t\<rparr>)
      | (Inr x, t) \<Rightarrow> k x (c\<lparr>co_transport := t\<rparr>))"
  by (auto simp: on_transport_def op_on_def op_bind_def split: prod.splits sum.splits)

lemmas composer_op_simps =
  require_display_bind require_current_validation_bind on_transport_apply on_transport_bind

datatype composer_call =
    CoReplaceFeedback "format_modifier list"
  | CoConfigure configure
  | CoSetPowerMode display_id power_mode
  | CoSetVsync display_id bool
  | CoPresentationSample u64
  | CoAcknowledge u32
  | CoCreateLayer display_id layer_state
  | CoUpdateLayer display_id layer_state
  | CoDestroyLayer display_id layer_id
  | CoValidate display_id
  | CoAccept display_id
  | CoSetClientTarget display_id client_target
  | CoPresent display_id
  | CoPresentDirect display_id
  | CoSubmit display_id client_target
  | CoRelease frame_id bool
  | CoCancel frame_id

fun co_step :: "composer \<Rightarrow> composer_call \<Rightarrow> composer" where
  "co_step c (CoReplaceFeedback formats) = co_replace_feedback c formats"
| "co_step c (CoConfigure configure) = co_configure c configure"
| "co_step c (CoSetPowerMode d mode) = snd (co_set_power_mode d mode c)"
| "co_step c (CoSetVsync d enabled) = snd (co_set_vsync_enabled d enabled c)"
| "co_step c (CoPresentationSample t) = snd (co_presentation_sample t c)"
| "co_step c (CoAcknowledge serial) = snd (co_acknowledge_configure serial c)"
| "co_step c (CoCreateLayer d layer) = snd (co_create_layer d layer c)"
| "co_step c (CoUpdateLayer d layer) = snd (co_update_layer d layer c)"
| "co_step c (CoDestroyLayer d layer) = snd (co_destroy_layer d layer c)"
| "co_step c (CoValidate d) = snd (co_validate_display d c)"
| "co_step c (CoAccept d) = snd (co_accept_display_changes d c)"
| "co_step c (CoSetClientTarget d target) = snd (co_set_client_target d target c)"
| "co_step c (CoPresent d) = snd (co_present_display d c)"
| "co_step c (CoPresentDirect d) = snd (co_present_display_direct d c)"
| "co_step c (CoSubmit d target) = snd (co_submit_rendered_target d target c)"
| "co_step c (CoRelease f fence) = snd (co_release_presented_target f fence c)"
| "co_step c (CoCancel f) = snd (co_cancel_unsubmitted_target f c)"

text \<open>The operations of \<open>PresentationState\<close> that a call performs.\<close>

definition submit_op :: "client_target \<Rightarrow> presentation_op" where
  "submit_op t = PsSubmit (ct_buffer t) (ct_damage t) (ct_has_acquire_fence t)"

fun co_transport_ops :: "composer \<Rightarrow> composer_call \<Rightarrow> presentation_op list" where
  "co_transport_ops c (CoReplaceFeedback formats) = [PsReplaceFeedback formats]"
| "co_transport_ops c (CoConfigure configure) = [PsConfigure configure]"
| "co_transport_ops c (CoAcknowledge serial) = [PsAcknowledge serial]"
| "co_transport_ops c (CoPresent d) =
     (if d = co_display c \<and> co_validated_generation c = Some (co_generation c) \<and> co_changes_accepted c
      then (case co_client_target c of None \<Rightarrow> [] | Some t \<Rightarrow> [submit_op t]) else [])"
| "co_transport_ops c (CoSubmit d target) =
     (if d = co_display c \<and> co_power_mode c = PowerOn then [submit_op target] else [])"
| "co_transport_ops c (CoRelease f fence) = [PsRelease f fence]"
| "co_transport_ops c (CoCancel f) = [PsCancelUnsubmitted f]"
| "co_transport_ops c _ = []"

lemma co_step_transport:
  "co_transport (co_step c call) = run_ops ps_step (co_transport c) (co_transport_ops c call)"
  by (cases call)
    (auto simp: composer_op_simps submit_op_def co_replace_feedback_def co_configure_def
      co_set_power_mode_def co_set_vsync_enabled_def co_presentation_sample_def
      co_acknowledge_configure_def co_create_layer_def co_update_layer_def co_destroy_layer_def
      co_validate_display_def co_accept_display_changes_def co_set_client_target_def
      co_present_display_def co_present_display_direct_def co_submit_rendered_target_def
      co_release_presented_target_def co_cancel_unsubmitted_target_def co_invalidate_def Let_def
      split: power_mode.splits option.splits sum.splits prod.splits)


lemma co_display_inv_invalidate:
  "layers_filed m \<Longrightarrow> co_display_inv c \<Longrightarrow> co_display_inv (co_invalidate (c\<lparr>co_layers := m\<rparr>))"
  by (simp add: co_display_inv_def co_invalidate_def)

lemma co_display_inv_transport [simp]:
  "co_display_inv (c\<lparr>co_transport := t\<rparr>) = co_display_inv c"
  by (simp add: co_display_inv_def)

lemma co_display_inv_validate:
  "co_display_inv c \<Longrightarrow> co_display_inv (snd (co_validate_display d c))"
  using no_changes_ready [of "co_layers c"]
  by (auto simp: co_validate_display_def composer_op_simps co_display_inv_def Let_def
      find_protected_None split: option.split)

lemma co_display_inv_layer_ops:
  assumes "co_display_inv c"
  shows "co_display_inv (snd (co_create_layer d l c))" "co_display_inv (snd (co_update_layer d l c))"
    "co_display_inv (snd (co_destroy_layer d k c))"
proof -
  have "layers_filed (co_layers c)"
    using assms by (simp add: co_display_inv_def)
  then show "co_display_inv (snd (co_create_layer d l c))"
    "co_display_inv (snd (co_update_layer d l c))" "co_display_inv (snd (co_destroy_layer d k c))"
    using assms
    by (auto simp: co_create_layer_def co_update_layer_def co_destroy_layer_def composer_op_simps
        intro!: co_display_inv_invalidate split: option.split)
qed

lemma co_display_inv_presented:
  "co_display_inv c \<Longrightarrow>
   co_display_inv (c\<lparr>co_validated_generation := None, co_changes_accepted := False\<rparr>)"
  "co_display_inv c \<Longrightarrow> co_display_inv (c\<lparr>co_client_target := t\<rparr>)"
  by (simp_all add: co_display_inv_def)

lemma co_display_inv_accept:
  "co_display_inv c \<Longrightarrow> co_display_inv (snd (co_accept_display_changes d c))"
  by (simp add: co_accept_display_changes_def composer_op_simps)
    (unfold co_display_inv_def, intro impI conjI, simp_all)

lemma co_display_inv_present_direct:
  "co_display_inv c \<Longrightarrow> co_display_inv (snd (co_present_display_direct d c))"
  by (simp add: co_present_display_direct_def composer_op_simps co_display_inv_presented)

lemma co_display_inv_present:
  "co_display_inv c \<Longrightarrow> co_display_inv (snd (co_present_display d c))"
  by (auto simp: co_present_display_def composer_op_simps co_display_inv_presented
      split: option.split prod.split sum.split)

lemma co_display_inv_power:
  "co_display_inv c \<Longrightarrow> co_display_inv (snd (co_set_power_mode d mode c))"
  "co_display_inv c \<Longrightarrow> co_display_inv (snd (co_set_vsync_enabled d enabled c))"
  "co_display_inv c \<Longrightarrow> co_display_inv (snd (co_presentation_sample t c))"
  by (auto simp: co_set_power_mode_def co_set_vsync_enabled_def co_presentation_sample_def Let_def
      composer_op_simps co_display_inv_def split: power_mode.split option.split)

lemma co_display_inv_transport_ops:
  "co_display_inv c \<Longrightarrow> co_display_inv (co_replace_feedback c formats)"
  "co_display_inv c \<Longrightarrow> co_display_inv (co_configure c configure)"
  "co_display_inv c \<Longrightarrow> co_display_inv (snd (on_transport m c))"
  "co_display_inv c \<Longrightarrow> co_display_inv (snd (co_set_client_target d target c))"
  "co_display_inv c \<Longrightarrow> co_display_inv (snd (co_submit_rendered_target d target c))"
  by (auto simp: co_replace_feedback_def co_configure_def co_set_client_target_def
      co_submit_rendered_target_def composer_op_simps co_display_inv_def)

lemma co_display_inv_step: "co_display_inv c \<Longrightarrow> co_display_inv (co_step c call)"
  by (cases call)
    (simp_all add: co_display_inv_validate co_display_inv_layer_ops co_display_inv_present
      co_display_inv_accept co_display_inv_present_direct
      co_display_inv_power co_display_inv_transport_ops co_acknowledge_configure_def
      co_release_presented_target_def co_cancel_unsubmitted_target_def)

lemma co_inv_step: "co_inv c \<Longrightarrow> co_inv (co_step c call)"
  by (simp add: co_inv_def co_step_transport pres.inv_run co_display_inv_step)

subsection \<open>The Composer refines the ledger\<close>

definition co_ledger :: "composer \<Rightarrow> (frame_id, buffer_id) fmap" where
  "co_ledger c = ps_in_flight (co_transport c)"

definition co_events :: "composer \<Rightarrow> composer_call \<Rightarrow> (frame_id, buffer_id) ledger_event list" where
  "co_events c call = trace_ops ps_step ps_events (co_transport c) (co_transport_ops c call)"

interpretation composer: frame_owner co_ledger co_inv co_step co_events
proof
  fix c call
  assume inv: "co_inv c"
  then show "exclusive (co_ledger c)"
    by (simp add: co_inv_def co_ledger_def ps_inv_exclusive)
  show "co_inv (co_step c call)"
    using inv by (rule co_inv_step)
  show "ledger_run (co_ledger c) (co_events c call) = Some (co_ledger (co_step c call))"
    using inv pres.run_refines by (simp add: co_inv_def co_ledger_def co_events_def co_step_transport)
qed


subsection \<open>Vertical-sync samples\<close>

fun co_samples :: "composer \<Rightarrow> composer_call \<Rightarrow> u64 option list" where
  "co_samples c (CoPresentationSample t) =
     (case fst (co_presentation_sample t c) of
        Inr (Some v) \<Rightarrow> [Some (vs_timestamp_nanos v)] | _ \<Rightarrow> [])"
| "co_samples c _ = []"

lemma last_presentation_step:
  "co_last_presentation_nanos (co_step c call) =
     (case call of
        CoPresentationSample t \<Rightarrow> max (co_last_presentation_nanos c) (Some t)
      | _ \<Rightarrow> co_last_presentation_nanos c)"
  by (cases call)
    (auto simp: composer_op_simps co_replace_feedback_def co_configure_def
      co_set_power_mode_def co_set_vsync_enabled_def co_presentation_sample_def
      co_acknowledge_configure_def co_create_layer_def co_update_layer_def co_destroy_layer_def
      co_validate_display_def co_accept_display_changes_def co_set_client_target_def
      co_present_display_def co_present_display_direct_def co_submit_rendered_target_def
      co_release_presented_target_def co_cancel_unsubmitted_target_def co_invalidate_def Let_def
      max_def split: power_mode.splits option.splits sum.splits prod.splits)

interpretation vsync: point_source co_last_presentation_nanos co_step co_samples
proof
  fix c call
  show "sorted_wrt (<) (co_last_presentation_nanos c # co_samples c call)"
    by (cases call) (auto simp: co_presentation_sample_def Let_def not_le
        split: option.splits sum.splits if_splits)
  show "last (co_last_presentation_nanos c # co_samples c call)
      \<le> co_last_presentation_nanos (co_step c call)"
    unfolding last_presentation_step
    by (cases call) (auto simp: co_presentation_sample_def Let_def max_def
        split: option.splits sum.splits if_splits)
qed

subsection \<open>Properties\<close>

text \<open>
  Vertical sync never goes backwards: over any sequence of calls on a display, the timestamps of
  the samples handed to Android are strictly increasing, although every task surface reports its own
  presentations.  Each sample carries the exact period: the whole number of nanoseconds of one refresh
  at the configured rate.
\<close>

theorem vsync_samples_increase:
  "sorted_wrt (<) (trace_ops co_step co_samples (co_new display) calls) \<and>
   (case fst (co_presentation_sample t c) of
      Inr (Some v) \<Rightarrow> unat (vs_period_nanos v) = 10 ^ 12 div unat (co_refresh_millihz c) \<and>
        co_refresh_millihz c \<noteq> 0 \<and> co_vsync_enabled c
    | _ \<Rightarrow> True)"
proof
  show "sorted_wrt (<) (trace_ops co_step co_samples (co_new display) calls)"
    using vsync.points_sorted [of "co_new display" calls] by simp
  have "unat (1000000000000 div ucast r :: u64) = 10 ^ 12 div unat r" for r :: u32
    using unsigned_less [where 'a = nat, of r] by (simp add: unat_div_distrib unsigned_ucast_eq take_bit_nat_eq_self)
  then show "case fst (co_presentation_sample t c) of
      Inr (Some v) \<Rightarrow> unat (vs_period_nanos v) = 10 ^ 12 div unat (co_refresh_millihz c) \<and>
        co_refresh_millihz c \<noteq> 0 \<and> co_vsync_enabled c
    | _ \<Rightarrow> True"
    by (auto simp: co_presentation_sample_def Let_def split: option.splits)
qed

lemma co_display_step: "co_display (co_step c call) = co_display c"
  by (cases call)
    (auto simp: composer_op_simps co_replace_feedback_def co_configure_def
      co_set_power_mode_def co_set_vsync_enabled_def co_presentation_sample_def
      co_acknowledge_configure_def co_create_layer_def co_update_layer_def co_destroy_layer_def
      co_validate_display_def co_accept_display_changes_def co_set_client_target_def
      co_present_display_def co_present_display_direct_def co_submit_rendered_target_def
      co_release_presented_target_def co_cancel_unsubmitted_target_def co_invalidate_def Let_def
      split: power_mode.splits option.splits sum.splits prod.splits)

lemma co_display_run: "co_display (run_ops co_step c calls) = co_display c"
  by (induction calls arbitrary: c) (simp_all add: co_display_step)

text \<open>
  A validation that counts was made by the last step, or it counted before and the step kept the layers
  or only accepted the changes.
\<close>

definition current_validation :: "composer \<Rightarrow> bool" where
  "current_validation c \<longleftrightarrow> co_validated_generation c = Some (co_generation c)"

definition as_client :: "(layer_id, layer_state) fmap \<Rightarrow> (layer_id, layer_state) fmap" where
  "as_client m = fmmap (\<lambda>l. l\<lparr>ly_requested_composition := ClientComposition\<rparr>) m"

lemma as_client_idem [simp]: "as_client (as_client m) = as_client m"
  by (rule fmap_ext) (simp add: as_client_def option.map_comp comp_def)

lemma as_client_ready: "layers_ready m \<Longrightarrow> as_client m = m"
proof (rule fmap_ext)
  fix k
  assume "layers_ready m"
  then show "fmlookup (as_client m) k = fmlookup m k"
    by (cases "fmlookup m k") (auto simp: as_client_def layers_ready_def)
qed

lemma validation_step:
  assumes "current_validation (co_step c call)"
  shows "(\<exists>changes. call = CoValidate (co_display c) \<and> fst (co_validate_display (co_display c) c) = Inr changes
      \<and> co_layers (co_step c call) = co_layers c) \<or>
    current_validation c \<and> co_layers (co_step c call) \<in> {co_layers c, as_client (co_layers c)}"
  using assms
  by (cases call)
    (auto simp: composer_op_simps co_replace_feedback_def co_configure_def current_validation_def as_client_def
      co_set_power_mode_def co_set_vsync_enabled_def co_presentation_sample_def
      co_acknowledge_configure_def co_create_layer_def co_update_layer_def co_destroy_layer_def
      co_validate_display_def co_accept_display_changes_def co_set_client_target_def
      co_present_display_def co_present_display_direct_def co_submit_rendered_target_def
      co_release_presented_target_def co_cancel_unsubmitted_target_def co_invalidate_def Let_def
      split: power_mode.splits option.splits sum.splits prod.splits if_splits)

lemma validation_kept:
  "current_validation (run_ops co_step c calls) \<Longrightarrow> (\<And>d. CoValidate d \<notin> set calls) \<Longrightarrow> current_validation c"
  by (induction calls arbitrary: c) (use validation_step in auto)

text \<open>The layers that a validation saw, as they were or as the client composes them.\<close>

definition unchanged_since :: "composer \<Rightarrow> composer_call list \<Rightarrow> bool" where
  "unchanged_since v calls \<longleftrightarrow> (\<forall>n \<le> length calls.
     co_layers (run_ops co_step v (take n calls)) \<in> {co_layers v, as_client (co_layers v)})"

lemma unchanged_append:
  "unchanged_since v calls \<Longrightarrow> co_layers (run_ops co_step v (calls @ [call])) \<in>
     {co_layers (run_ops co_step v calls), as_client (co_layers (run_ops co_step v calls))} \<Longrightarrow>
   unchanged_since v (calls @ [call])"
proof -
  assume u: "unchanged_since v calls" and new: "co_layers (run_ops co_step v (calls @ [call])) \<in>
     {co_layers (run_ops co_step v calls), as_client (co_layers (run_ops co_step v calls))}"
  have "co_layers (run_ops co_step v calls) \<in> {co_layers v, as_client (co_layers v)}"
    using u unfolding unchanged_since_def by (metis order_refl take_all_iff)
  with new have "co_layers (run_ops co_step v (calls @ [call])) \<in> {co_layers v, as_client (co_layers v)}" by auto
  with u show ?thesis unfolding unchanged_since_def
    by (auto simp: le_Suc_eq)
qed

lemma validated_once:
  "current_validation (run_ops co_step c calls) \<Longrightarrow> \<not> current_validation c \<Longrightarrow>
   \<exists>before after changes. calls = before @ CoValidate (co_display (run_ops co_step c before)) # after \<and>
     fst (co_validate_display (co_display (run_ops co_step c before)) (run_ops co_step c before)) = Inr changes \<and>
     unchanged_since (run_ops co_step c before) (CoValidate (co_display (run_ops co_step c before)) # after)"
proof (induction calls rule: rev_induct)
  case (snoc call calls)
  let ?c = "run_ops co_step c calls"
  have "current_validation (co_step ?c call)" using snoc.prems(1) by (simp add: run_ops_append)
  from validation_step [OF this] show ?case
  proof (elim disjE conjE exE)
    fix changes
    assume now: "call = CoValidate (co_display ?c)" "fst (co_validate_display (co_display ?c) ?c) = Inr changes"
      "co_layers (co_step ?c call) = co_layers ?c"
    then have "unchanged_since ?c [CoValidate (co_display ?c)]"
      by (auto simp: unchanged_since_def le_Suc_eq)
    with now show ?case by (intro exI [of _ calls] exI [of _ "[]"] exI [of _ changes]) simp
  next
    assume kept: "current_validation ?c" "co_layers (co_step ?c call) \<in> {co_layers ?c, as_client (co_layers ?c)}"
    then obtain before after changes where split: "calls = before @ CoValidate (co_display (run_ops co_step c before)) # after"
      "fst (co_validate_display (co_display (run_ops co_step c before)) (run_ops co_step c before)) = Inr changes"
      "unchanged_since (run_ops co_step c before) (CoValidate (co_display (run_ops co_step c before)) # after)"
      using snoc.IH snoc.prems(2) by blast
    have "unchanged_since (run_ops co_step c before)
        ((CoValidate (co_display (run_ops co_step c before)) # after) @ [call])"
      using split(3) kept(2) by (intro unchanged_append) (simp_all add: split(1) run_ops_append)
    with split(1,2) show ?case by (intro exI [of _ before] exI [of _ "after @ [call]"] exI [of _ changes]) simp
  qed
qed simp

text \<open>
  C31. What is presented was validated: in every state a display can reach, presenting (through the
  client target or directly) succeeds only after a successful validation of this display since which no
  layer was created, changed or destroyed: at every moment from that validation on, the layers are those
  that it saw, at most with their composition switched to the client's; at the time of the present
  they all are composed by the client and none is protected.  Afterwards every further present is
  refused, whatever is called in between, until the display is validated again.
\<close>

theorem presented_layers_validated:
  assumes "c = run_ops co_step (co_new display) calls"
    and "fst (co_present_display d c) = Inr r \<and> c' = snd (co_present_display d c) \<or>
      fst (co_present_display_direct d c) = Inr () \<and> c' = snd (co_present_display_direct d c)"
  shows "(\<exists>before after v changes. calls = before @ CoValidate d # after \<and>
      v = run_ops co_step (co_new display) before \<and> fst (co_validate_display d v) = Inr changes \<and>
      unchanged_since v (CoValidate d # after) \<and> co_layers c = as_client (co_layers v)) \<and>
    (\<forall>k l. fmlookup (co_layers c) k = Some l \<longrightarrow>
       ly_requested_composition l = ClientComposition \<and> \<not> ly_protected_content l) \<and>
    (\<forall>later. (\<forall>k. CoValidate k \<notin> set later) \<longrightarrow>
       fst (co_present_display d (run_ops co_step c' later)) = Inl NotValidated \<and>
       fst (co_present_display_direct d (run_ops co_step c' later)) = Inl NotValidated)"
proof -
  have inv: "co_inv c"
    unfolding assms(1) by (rule composer.inv_run [OF co_inv_new])
  have ok: "d = co_display c" "current_validation c" "co_changes_accepted c" "\<not> current_validation c'"
    "co_display c' = co_display c"
    using assms(2)
    by (auto simp: co_present_display_def co_present_display_direct_def composer_op_simps current_validation_def
        split: if_splits option.splits prod.splits sum.splits)
  have ready: "layers_ready (co_layers c)"
    using inv ok by (simp add: co_inv_def co_display_inv_def current_validation_def)
  have "\<not> current_validation (co_new display)" by (simp add: current_validation_def co_new_def)
  from validated_once [OF ok(2) [unfolded assms(1)] this]
  obtain before after changes where split: "calls = before @ CoValidate d # after"
    "fst (co_validate_display d (run_ops co_step (co_new display) before)) = Inr changes"
    "unchanged_since (run_ops co_step (co_new display) before) (CoValidate d # after)"
    using ok(1) by (auto simp: assms(1) co_display_run)
  let ?v = "run_ops co_step (co_new display) before"
  have "co_layers c \<in> {co_layers ?v, as_client (co_layers ?v)}"
    using split(3) unfolding unchanged_since_def
    by (auto simp: assms(1) split(1) run_ops_append dest!: spec [of _ "Suc (length after)"])
  then have "co_layers c = as_client (co_layers ?v)" using as_client_ready [OF ready] by auto
  moreover have "fst (co_present_display d (run_ops co_step c' later)) = Inl NotValidated \<and>
      fst (co_present_display_direct d (run_ops co_step c' later)) = Inl NotValidated"
    if "\<forall>k. CoValidate k \<notin> set later" for later
    using validation_kept [of c' later] that ok co_display_run [of c' later]
    by (auto simp: co_present_display_def co_present_display_direct_def composer_op_simps current_validation_def)
  ultimately show ?thesis using split ready unfolding layers_ready_def by blast
qed

definition example_layer :: layer_state where
  "example_layer = \<lparr>ly_id = 1, ly_requested_composition = DeviceComposition, ly_z = 0,
     ly_protected_content = False\<rparr>"

lemma example_display:
  "run_ops co_step (co_new 7) [CoSetPowerMode 7 PowerOn, CoCreateLayer 7 example_layer, CoValidate 7,
     CoAccept 7] =
   (co_new 7)\<lparr>co_layers :=
       fmupd 1 (example_layer\<lparr>ly_requested_composition := ClientComposition\<rparr>) fmempty,
     co_generation := 1, co_validated_generation := Some 1, co_changes_accepted := True,
     co_power_mode := PowerOn\<rparr>"
proof -
  let ?c1 = "(co_new 7)\<lparr>co_power_mode := PowerOn\<rparr>"
  let ?c2 = "?c1\<lparr>co_layers := fmupd 1 example_layer fmempty, co_generation := 1\<rparr>"
  let ?c3 = "?c2\<lparr>co_validated_generation := Some 1\<rparr>"
  have "co_step (co_new 7) (CoSetPowerMode 7 PowerOn) = ?c1"
    by (simp add: co_set_power_mode_def composer_op_simps) (simp add: co_new_def)
  moreover have "co_step ?c1 (CoCreateLayer 7 example_layer) = ?c2"
    by (simp add: co_create_layer_def composer_op_simps co_new_def co_invalidate_def
        saturating_add_def checked_add_def example_layer_def)
  moreover have "fmvalues (fmupd (1 :: u64) x fmempty) = [x]" for x :: layer_state
    by (simp add: fmvalues_def sorted_list_of_fmap_def sorted_list_of_fset.rep_eq)
  then have "co_step ?c2 (CoValidate 7) = ?c3"
    by (simp add: co_validate_display_def composer_op_simps co_new_def example_layer_def)
  moreover have "co_step ?c3 (CoAccept 7) = ?c3\<lparr>co_layers :=
      fmupd 1 (example_layer\<lparr>ly_requested_composition := ClientComposition\<rparr>) fmempty,
      co_changes_accepted := True\<rparr>"
    by (simp add: co_accept_display_changes_def composer_op_simps co_new_def fmmap_fmupd)
  ultimately show ?thesis
    by (simp only: run_ops.simps) (simp add: co_new_def)
qed

definition example_calls :: "composer_call list" where
  "example_calls = [CoSetPowerMode 7 PowerOn, CoCreateLayer 7 example_layer, CoValidate 7, CoAccept 7]"

theorem presented_layers_validated_witness:
  "let c = run_ops co_step (co_new 7) example_calls; c' = snd (co_present_display_direct 7 c)
   in fst (co_present_display_direct 7 c) = Inr () \<and> co_layers c \<noteq> fmempty \<and>
      (\<exists>before after. example_calls = before @ CoValidate 7 # after \<and>
        co_layers c = as_client (co_layers (run_ops co_step (co_new 7) before))) \<and>
      fst (co_present_display_direct 7 (run_ops co_step c' [CoSetVsync 7 True, CoPresentDirect 7])) = Inl NotValidated"
proof -
  let ?c = "run_ops co_step (co_new 7) example_calls" and ?later = "[CoSetVsync 7 True, CoPresentDirect 7]"
  have ok: "fst (co_present_display_direct 7 ?c) = Inr ()" "co_layers ?c \<noteq> fmempty"
    unfolding example_calls_def example_display
    by (simp_all add: co_present_display_direct_def composer_op_simps co_new_def)
  let ?c1 = "snd (co_present_display_direct 7 ?c)"
  have "fst (co_present_display_direct 7 ?c) = Inr () \<and> ?c1 = ?c1" using ok(1) by simp
  note facts = presented_layers_validated [OF refl disjI2, OF this]
  have "fst (co_present_display_direct 7 (run_ops co_step ?c1 ?later)) = Inl NotValidated"
    by (rule facts [THEN conjunct2, THEN conjunct2, rule_format, THEN conjunct2]) simp
  moreover from facts [THEN conjunct1] have "\<exists>before after. example_calls = before @ CoValidate 7 # after \<and>
      co_layers ?c = as_client (co_layers (run_ops co_step (co_new 7) before))"
    by (elim exE conjE) (intro exI conjI, assumption, simp only:)
  ultimately show ?thesis using ok unfolding Let_def by (intro conjI)
qed

end
