(* ===== verification/Task_Windows.thy ===== *)
theory Task_Windows
  imports Composer Protocol_Messages
begin

section \<open>The windows of a cell\<close>

text \<open>
  \<open>TaskWindowSet\<close> of \<open>graphics/droidloom-composer/src/lib.rs\<close>: one native window per Android task.
  A window is reserved for a display before the activity starts and bound to the real task identity
  afterwards; two maps, by display and by task, have to stay in step.  Proved: the invariant of the two
  maps, that \<open>create\<close> is atomic with its exact acceptance condition, and that a window leaves only
  without buffers in flight.
\<close>

record reserved_task_window_spec =
  rs_display :: display_id
  rs_package :: rust_string

record task_window_spec =
  wsp_task :: task_id
  wsp_display :: display_id
  wsp_package :: rust_string

datatype task_window_error =
    WindowLimit
  | InvalidTask
  | InvalidDisplay
  | DuplicateTask task_id
  | DuplicateDisplay display_id
  | UnknownTask task_id
  | UnknownDisplay display_id
  | UnboundDisplay display_id
  | DisplayAlreadyBound display_id
  | InvalidPackage
  | BuffersInFlight task_id nat
  | DisplayBuffersInFlight display_id nat

record task_window =
  win_reservation :: reserved_task_window_spec
  win_spec :: "task_window_spec option"
  win_composer :: composer

record task_window_set =
  tw_windows :: "(display_id, task_window) fmap"
  tw_tasks :: "(task_id, display_id) fmap"

type_synonym 'a window_op = "(task_window_error, task_window_set, 'a) op"

definition MAX_TASK_WINDOWS :: nat where [proto_consts]: "MAX_TASK_WINDOWS = 4096"

definition composer_valid_package :: "rust_string \<Rightarrow> bool" where
  "composer_valid_package package =
     (package \<noteq> [] \<and> length package \<le> 255 \<and>
      (\<forall>part \<in> set (split_on 0x2E package).
         part \<noteq> [] \<and> (\<forall>byte \<in> set part. is_ascii_alphanumeric byte \<or> byte = 0x5F)))"

definition reservation_validate :: "reserved_task_window_spec \<Rightarrow> (task_window_error, unit) result" where
  "reservation_validate r =
     (if rs_display r = 0 then Inl InvalidDisplay
      else if \<not> composer_valid_package (rs_package r) then Inl InvalidPackage
      else Inr ())"

definition spec_validate :: "task_window_spec \<Rightarrow> (task_window_error, unit) result" where
  "spec_validate s =
     (if wsp_task s = 0 then Inl InvalidTask
      else reservation_validate \<lparr>rs_display = wsp_display s, rs_package = wsp_package s\<rparr>)"

definition tw_empty :: task_window_set where
  "tw_empty = \<lparr>tw_windows = fmempty, tw_tasks = fmempty\<rparr>"

definition tw_reserve :: "reserved_task_window_spec \<Rightarrow> unit window_op" where
  "tw_reserve reservation = (\<lambda>w.
     if MAX_TASK_WINDOWS \<le> fmlen (tw_windows w) then (Inl WindowLimit, w)
     else op_bind (op_lift (reservation_validate reservation)) (\<lambda>_ w.
       if rs_display reservation |\<in>| fmdom (tw_windows w)
       then (Inl (DuplicateDisplay (rs_display reservation)), w)
       else (Inr (), w\<lparr>tw_windows := fmupd (rs_display reservation)
         \<lparr>win_reservation = reservation, win_spec = None,
          win_composer = co_new (rs_display reservation)\<rparr> (tw_windows w)\<rparr>)) w)"

definition tw_bind_task :: "display_id \<Rightarrow> task_id \<Rightarrow> task_window_spec window_op" where
  "tw_bind_task display task = (\<lambda>w.
     if task = 0 then (Inl InvalidTask, w)
     else if task |\<in>| fmdom (tw_tasks w) then (Inl (DuplicateTask task), w)
     else case fmlookup (tw_windows w) display of
       None \<Rightarrow> (Inl (UnknownDisplay display), w)
     | Some window \<Rightarrow>
         case win_spec window of
           Some spec \<Rightarrow> (if wsp_task spec = task then Inr spec else Inl (DisplayAlreadyBound display), w)
         | None \<Rightarrow>
             let spec = \<lparr>wsp_task = task, wsp_display = display,
                         wsp_package = rs_package (win_reservation window)\<rparr>
             in (Inr spec,
                 w\<lparr>tw_windows := fmupd display (window\<lparr>win_spec := Some spec\<rparr>) (tw_windows w),
                   tw_tasks := fmupd task display (tw_tasks w)\<rparr>))"

definition tw_create :: "task_window_spec \<Rightarrow> unit window_op" where
  "tw_create spec =
     op_bind (op_lift (spec_validate spec)) (\<lambda>_.
     op_bind (tw_reserve \<lparr>rs_display = wsp_display spec, rs_package = wsp_package spec\<rparr>) (\<lambda>_ w.
     case tw_bind_task (wsp_display spec) (wsp_task spec) w of
       (Inl error, w1) \<Rightarrow>
         (Inl error, w1\<lparr>tw_windows := fmdrop (wsp_display spec) (tw_windows w1)\<rparr>)
     | (Inr _, w1) \<Rightarrow> (Inr (), w1)))"

text \<open>\<open>self.composer_for_display_mut(display)?.f(..)\<close> and \<open>self.composer_mut(task)?.f(..)\<close>\<close>

definition tw_on_display :: "display_id \<Rightarrow> (composer \<Rightarrow> 'a \<times> composer) \<Rightarrow> 'a window_op" where
  "tw_on_display display f = (\<lambda>w.
     case fmlookup (tw_windows w) display of
       None \<Rightarrow> (Inl (UnknownDisplay display), w)
     | Some window \<Rightarrow>
         case f (win_composer window) of
           (r, c) \<Rightarrow> (Inr r, w\<lparr>tw_windows :=
             fmupd display (window\<lparr>win_composer := c\<rparr>) (tw_windows w)\<rparr>))"

definition tw_on_task :: "task_id \<Rightarrow> (composer \<Rightarrow> 'a \<times> composer) \<Rightarrow> 'a window_op" where
  "tw_on_task task f = (\<lambda>w.
     case fmlookup (tw_tasks w) task of
       None \<Rightarrow> (Inl (UnknownTask task), w)
     | Some display \<Rightarrow>
         case tw_on_display display f w of
           (Inl _, w1) \<Rightarrow> (Inl (UnknownTask task), w1)
         | (Inr r, w1) \<Rightarrow> (Inr r, w1))"

definition tw_composer_for_display :: "task_window_set \<Rightarrow> display_id \<Rightarrow> (task_window_error, composer) result"
  where
  "tw_composer_for_display w display =
     ok_or (UnknownDisplay display) (map_option win_composer (fmlookup (tw_windows w) display))"

definition tw_task_for_display :: "task_window_set \<Rightarrow> display_id \<Rightarrow> (task_window_error, task_id) result"
  where
  "tw_task_for_display w display =
     bind_result (ok_or (UnknownDisplay display) (fmlookup (tw_windows w) display)) (\<lambda>window.
     ok_or (UnboundDisplay display) (map_option wsp_task (win_spec window)))"

definition tw_reservation_for_display ::
  "task_window_set \<Rightarrow> display_id \<Rightarrow> (task_window_error, reserved_task_window_spec) result" where
  "tw_reservation_for_display w display =
     ok_or (UnknownDisplay display) (map_option win_reservation (fmlookup (tw_windows w) display))"

definition tw_specs :: "task_window_set \<Rightarrow> task_window_spec list" where
  "tw_specs w = List.map_filter win_spec (fmvalues (tw_windows w))"

definition tw_get :: "task_window_set \<Rightarrow> task_id \<Rightarrow> (task_window_error, task_window_spec) result" where
  "tw_get w task =
     bind_result (ok_or (UnknownTask task) (fmlookup (tw_tasks w) task)) (\<lambda>display.
     ok_or (UnknownTask task) (Option.bind (fmlookup (tw_windows w) display) win_spec))"

definition tw_remove_display :: "display_id \<Rightarrow> task_window_spec option window_op" where
  "tw_remove_display display = (\<lambda>w.
     case fmlookup (tw_windows w) display of
       None \<Rightarrow> (Inl (UnknownDisplay display), w)
     | Some window \<Rightarrow>
         let buffers = co_in_flight_count (win_composer window) in
         if buffers \<noteq> 0 then (Inl (DisplayBuffersInFlight display buffers), w)
         else
           let w1 = w\<lparr>tw_windows := fmdrop display (tw_windows w)\<rparr>;
               w2 = (case win_spec window of
                       None \<Rightarrow> w1 | Some spec \<Rightarrow> w1\<lparr>tw_tasks := fmdrop (wsp_task spec) (tw_tasks w1)\<rparr>)
           in (Inr (win_spec window), w2))"

definition tw_remove :: "task_id \<Rightarrow> task_window_spec window_op" where
  "tw_remove task = (\<lambda>w.
     case fmlookup (tw_tasks w) task of
       None \<Rightarrow> (Inl (UnknownTask task), w)
     | Some display \<Rightarrow>
         case fmlookup (tw_windows w) display of
           None \<Rightarrow> (Inl (UnknownTask task), w)
         | Some window \<Rightarrow>
             let buffers = co_in_flight_count (win_composer window) in
             if buffers \<noteq> 0 then (Inl (BuffersInFlight task buffers), w)
             else op_bind (tw_remove_display display) (\<lambda>spec.
               op_lift (ok_or (UnknownTask task) spec)) w)"

definition tw_len :: "task_window_set \<Rightarrow> nat" where
  "tw_len w = fmlen (tw_windows w)"

subsection \<open>Invariant\<close>

text \<open>A window is filed under its display, and its task entry points back to it.\<close>

definition window_ok :: "(task_id, display_id) fmap \<Rightarrow> display_id \<Rightarrow> task_window \<Rightarrow> bool" where
  "window_ok tasks d win \<longleftrightarrow>
     rs_display (win_reservation win) = d \<and> reservation_validate (win_reservation win) = Inr () \<and>
     co_display (win_composer win) = d \<and> co_inv (win_composer win) \<and>
     (\<forall>s. win_spec win = Some s \<longrightarrow> spec_validate s = Inr () \<and> wsp_display s = d \<and>
        wsp_package s = rs_package (win_reservation win) \<and> fmlookup tasks (wsp_task s) = Some d)"

definition tw_inv :: "task_window_set \<Rightarrow> bool" where
  "tw_inv w \<longleftrightarrow>
     (\<forall>d win. fmlookup (tw_windows w) d = Some win \<longrightarrow> window_ok (tw_tasks w) d win) \<and>
     (\<forall>t d. fmlookup (tw_tasks w) t = Some d \<longrightarrow>
        (\<exists>win s. fmlookup (tw_windows w) d = Some win \<and> win_spec win = Some s \<and> wsp_task s = t)) \<and>
     fmlen (tw_windows w) \<le> MAX_TASK_WINDOWS"


lemma tw_inv_empty: "tw_inv tw_empty"
  by (simp add: tw_inv_def tw_empty_def)

lemma tw_inv_windowD: "tw_inv w \<Longrightarrow> fmlookup (tw_windows w) d = Some win \<Longrightarrow> window_ok (tw_tasks w) d win"
  by (simp add: tw_inv_def)

lemma tw_inv_taskD:
  "tw_inv w \<Longrightarrow> fmlookup (tw_tasks w) t = Some d \<Longrightarrow>
   \<exists>win s. fmlookup (tw_windows w) d = Some win \<and> win_spec win = Some s \<and> wsp_task s = t"
  by (simp add: tw_inv_def)

lemma tw_reserve_cases:
  assumes "tw_reserve r w = (x, w')"
  obtains (error) e where "x = Inl e" "w' = w"
  | (reserved) "x = Inr ()" "fmlen (tw_windows w) < MAX_TASK_WINDOWS" "reservation_validate r = Inr ()"
      "fmlookup (tw_windows w) (rs_display r) = None"
      "w' = w\<lparr>tw_windows := fmupd (rs_display r) \<lparr>win_reservation = r, win_spec = None,
        win_composer = co_new (rs_display r)\<rparr> (tw_windows w)\<rparr>"
proof (cases "reservation_validate r")
  case (Inl e)
  with assms have "(x = Inl WindowLimit \<or> x = Inl e) \<and> w' = w"
    by (auto simp: tw_reserve_def split: if_splits)
  with that(1) show ?thesis by blast
next
  case (Inr u)
  with assms that show ?thesis
    by (auto simp: tw_reserve_def fmlookup_None_iff not_le split: if_splits)
qed

lemma tw_bind_task_cases:
  assumes "tw_bind_task d t w = (x, w')"
  obtains (error) e where "x = Inl e" "w' = w"
  | (repeated) win s where "x = Inr s" "w' = w" "fmlookup (tw_tasks w) t = None"
      "fmlookup (tw_windows w) d = Some win" "win_spec win = Some s" "wsp_task s = t"
  | (bound) win s where "x = Inr s" "t \<noteq> 0" "fmlookup (tw_tasks w) t = None"
      "fmlookup (tw_windows w) d = Some win" "win_spec win = None"
      "s = \<lparr>wsp_task = t, wsp_display = d, wsp_package = rs_package (win_reservation win)\<rparr>"
      "w' = w\<lparr>tw_windows := fmupd d (win\<lparr>win_spec := Some s\<rparr>) (tw_windows w),
        tw_tasks := fmupd t d (tw_tasks w)\<rparr>"
  using assms
  by (auto simp: tw_bind_task_def Let_def fmlookup_None_iff split: if_splits option.splits)

text \<open>The branch that answers a repeated bind of the same task is never taken.\<close>

lemma tw_bind_not_repeated:
  "tw_inv w \<Longrightarrow> fmlookup (tw_windows w) d = Some win \<Longrightarrow> win_spec win = Some s \<Longrightarrow>
   fmlookup (tw_tasks w) (wsp_task s) \<noteq> None"
  by (auto dest!: tw_inv_windowD simp: window_ok_def)

lemma tw_remove_display_cases:
  assumes "tw_remove_display d w = (x, w')"
  obtains (error) e where "x = Inl e" "w' = w"
  | (removed) win where "x = Inr (win_spec win)" "fmlookup (tw_windows w) d = Some win"
      "ps_in_flight (co_transport (win_composer win)) = fmempty"
      "w' = \<lparr>tw_windows = fmdrop d (tw_windows w), tw_tasks =
        (case win_spec win of None \<Rightarrow> tw_tasks w | Some s \<Rightarrow> fmdrop (wsp_task s) (tw_tasks w))\<rparr>"
proof (cases "fmlookup (tw_windows w) d")
  case None
  with assms have "x = Inl (UnknownDisplay d)" "w' = w" by (simp_all add: tw_remove_display_def)
  then show ?thesis by (rule that(1))
next
  case (Some win)
  show ?thesis
  proof (cases "ps_in_flight (co_transport (win_composer win)) = fmempty")
    case True
    then have "x = Inr (win_spec win)" "w' = \<lparr>tw_windows = fmdrop d (tw_windows w), tw_tasks =
        (case win_spec win of None \<Rightarrow> tw_tasks w | Some s \<Rightarrow> fmdrop (wsp_task s) (tw_tasks w))\<rparr>"
      using assms Some by (auto simp: tw_remove_display_def co_in_flight_count_def
          ps_in_flight_count_def Let_def split: option.split)
    with Some True that(2) show ?thesis by blast
  next
    case False
    then have "x = Inl (DisplayBuffersInFlight d (co_in_flight_count (win_composer win)))" "w' = w"
      using assms Some by (auto simp: tw_remove_display_def co_in_flight_count_def
          ps_in_flight_count_def fmlen_0_iff Let_def split: if_splits)
    then show ?thesis by (rule that(1))
  qed
qed

lemma tw_inv_reserve: "tw_inv w \<Longrightarrow> tw_inv (snd (tw_reserve r w))"
proof (cases "tw_reserve r w")
  case (Pair x w')
  assume inv: "tw_inv w"
  from Pair show ?thesis
  proof (cases rule: tw_reserve_cases)
    case reserved
    have "fmlookup (tw_tasks w) t \<noteq> Some (rs_display r)" for t
      using tw_inv_taskD [OF inv, of t "rs_display r"] reserved(4) by auto
    then show ?thesis
      using inv reserved co_inv_new [of "rs_display r"] fmlookup_None_iff [of "tw_windows w"]
      unfolding Pair snd_conv tw_inv_def
      by (auto simp: window_ok_def co_new_def fmlen_upd)
  qed (use inv Pair in simp)
qed

lemma tw_inv_bind_task: "tw_inv w \<Longrightarrow> tw_inv (snd (tw_bind_task d t w))"
proof (cases "tw_bind_task d t w")
  case (Pair x w')
  assume inv: "tw_inv w"
  from Pair show ?thesis
  proof (cases rule: tw_bind_task_cases)
    case (bound win s)
    have "window_ok (tw_tasks w) d win"
      using inv bound(4) by (rule tw_inv_windowD)
    then have "window_ok (fmupd t d (tw_tasks w)) d (win\<lparr>win_spec := Some s\<rparr>)"
      using bound(2,6) by (auto simp: window_ok_def spec_validate_def reservation_validate_def
          split: if_splits)
    moreover have "window_ok (fmupd t d (tw_tasks w)) d' win'"
      if "fmlookup (tw_windows w) d' = Some win'" for d' win'
      using tw_inv_windowD [OF inv that] bound(3) by (auto simp: window_ok_def)
    moreover have "\<exists>win' s'. fmlookup (fmupd d (win\<lparr>win_spec := Some s\<rparr>) (tw_windows w)) d' = Some win' \<and>
        win_spec win' = Some s' \<and> wsp_task s' = t'"
      if "fmlookup (tw_tasks w) t' = Some d'" for t' d'
      using tw_inv_taskD [OF inv that] bound(4,5) by auto
    ultimately show ?thesis
      using inv bound(4,6,7) fmlookup_Some_dom [OF bound(4)]
      unfolding Pair snd_conv tw_inv_def by (auto simp: fmlen_upd)
  qed (use inv Pair in simp_all)
qed


lemma tw_inv_remove_display: "tw_inv w \<Longrightarrow> tw_inv (snd (tw_remove_display d w))"
proof (cases "tw_remove_display d w")
  case (Pair x w')
  assume inv: "tw_inv w"
  from Pair show ?thesis
  proof (cases rule: tw_remove_display_cases)
    case (removed win)
    have ok: "window_ok (tw_tasks w) d win"
      using inv removed(2) by (rule tw_inv_windowD)
    have others: "window_ok (tw_tasks w') d' win'"
      if "fmlookup (tw_windows w) d' = Some win'" "d' \<noteq> d" for d' win'
      using tw_inv_windowD [OF inv that(1)] that(2) ok removed(4)
      by (auto simp: window_ok_def split: option.splits)
    have entry: "\<exists>win' s'. fmlookup (tw_windows w') d' = Some win' \<and> win_spec win' = Some s' \<and> wsp_task s' = t'"
      if "fmlookup (tw_tasks w') t' = Some d'" for t' d'
    proof -
      have t': "fmlookup (tw_tasks w) t' = Some d'" "\<forall>s. win_spec win = Some s \<longrightarrow> wsp_task s \<noteq> t'"
        using that removed(4) by (auto split: option.splits if_splits)
      from tw_inv_taskD [OF inv t'(1)] t'(2) show ?thesis
        using removed(2,4) by auto
    qed
    show ?thesis
      using inv removed(2,4) others entry fmlookup_Some_dom [OF removed(2)]
      unfolding Pair snd_conv tw_inv_def by (auto simp: fmlen_drop)
  qed (use inv Pair in simp)
qed

lemma tw_create_cases:
  assumes "tw_create s w = (x, w')"
  obtains (error) e where "x = Inl e" "w' = w"
  | (created) "x = Inr ()" "spec_validate s = Inr ()" "fmlen (tw_windows w) < MAX_TASK_WINDOWS"
      "fmlookup (tw_windows w) (wsp_display s) = None" "fmlookup (tw_tasks w) (wsp_task s) = None"
      "w' = snd (tw_bind_task (wsp_display s) (wsp_task s) (snd (tw_reserve
        \<lparr>rs_display = wsp_display s, rs_package = wsp_package s\<rparr> w)))"
proof (cases "spec_validate s")
  case (Inl e)
  with assms have "x = Inl e" "w' = w" by (simp_all add: tw_create_def)
  then show ?thesis by (rule that(1))
next
  case (Inr u)
  let ?r = "\<lparr>rs_display = wsp_display s, rs_package = wsp_package s\<rparr>"
  obtain x1 w1 where res: "tw_reserve ?r w = (x1, w1)" by fastforce
  then show ?thesis
  proof (cases rule: tw_reserve_cases)
    case (error e)
    with assms Inr res have "x = Inl e" "w' = w" by (simp_all add: tw_create_def)
    then show ?thesis by (rule that(1))
  next
    case reserved
    obtain x2 w2 where bnd: "tw_bind_task (wsp_display s) (wsp_task s) w1 = (x2, w2)" by fastforce
    then show ?thesis
    proof (cases rule: tw_bind_task_cases)
      case (error e)
      then have "x = Inl e" and "w' = w"
        using assms Inr res reserved bnd by (simp_all add: tw_create_def fmdrop_fmupd_fresh)
      then show ?thesis by (rule that(1))
    next
      case (repeated win y)
      then show ?thesis using reserved by auto
    next
      case (bound win y)
      with assms Inr res reserved bnd that(2) show ?thesis by (simp add: tw_create_def)
    qed
  qed
qed

lemma tw_remove_eq:
  assumes "tw_inv w"
  shows "tw_remove t w =
    (case fmlookup (tw_tasks w) t of
       None \<Rightarrow> (Inl (UnknownTask t), w)
     | Some d \<Rightarrow> (case fmlookup (tw_windows w) d of
         None \<Rightarrow> (Inl (UnknownTask t), w)
       | Some win \<Rightarrow> (case win_spec win of
           None \<Rightarrow> (Inl (UnknownTask t), w)
         | Some s \<Rightarrow>
             if ps_in_flight (co_transport (win_composer win)) = fmempty
             then (Inr s, \<lparr>tw_windows = fmdrop d (tw_windows w), tw_tasks = fmdrop t (tw_tasks w)\<rparr>)
             else (Inl (BuffersInFlight t (co_in_flight_count (win_composer win))), w))))"
proof (cases "fmlookup (tw_tasks w) t")
  case None
  then show ?thesis by (simp add: tw_remove_def)
next
  case (Some d)
  from tw_inv_taskD [OF assms Some] obtain win s where
    "fmlookup (tw_windows w) d = Some win" "win_spec win = Some s" "wsp_task s = t" by blast
  with Some show ?thesis
    by (cases w) (auto simp: tw_remove_def tw_remove_display_def co_in_flight_count_def op_bind_def
        op_lift_def ps_in_flight_count_def fmlen_0_iff Let_def)
qed


subsection \<open>Sequences of operations\<close>

datatype window_call =
    TwCreate task_window_spec
  | TwReserve reserved_task_window_spec
  | TwBind display_id task_id
  | TwRemove task_id
  | TwRemoveDisplay display_id
  | TwComposer display_id composer_call

fun tw_step :: "task_window_set \<Rightarrow> window_call \<Rightarrow> task_window_set" where
  "tw_step w (TwCreate s) = snd (tw_create s w)"
| "tw_step w (TwReserve r) = snd (tw_reserve r w)"
| "tw_step w (TwBind d t) = snd (tw_bind_task d t w)"
| "tw_step w (TwRemove t) = snd (tw_remove t w)"
| "tw_step w (TwRemoveDisplay d) = snd (tw_remove_display d w)"
| "tw_step w (TwComposer d call) = snd (tw_on_display d (\<lambda>c. ((), co_step c call)) w)"

text \<open>Whatever keeps a Composer's invariant and display keeps the invariant of the set.\<close>

lemma tw_inv_on_display:
  assumes "tw_inv w"
    and "\<And>c. co_inv c \<Longrightarrow> co_inv (snd (f c)) \<and> co_display (snd (f c)) = co_display c"
  shows "tw_inv (snd (tw_on_display d f w))"
proof (cases "fmlookup (tw_windows w) d")
  case None
  then show ?thesis using assms(1) by (simp add: tw_on_display_def)
next
  case (Some win)
  have ok: "window_ok (tw_tasks w) d win"
    using assms(1) Some by (rule tw_inv_windowD)
  then have "window_ok (tw_tasks w) d (win\<lparr>win_composer := snd (f (win_composer win))\<rparr>)"
    using assms(2) by (auto simp: window_ok_def)
  moreover have "\<exists>win' s'. fmlookup (fmupd d (win\<lparr>win_composer := c\<rparr>) (tw_windows w)) d' = Some win' \<and>
      win_spec win' = Some s' \<and> wsp_task s' = t'" if "fmlookup (tw_tasks w) t' = Some d'" for t' d' c
    using tw_inv_taskD [OF assms(1) that] Some by auto
  ultimately show ?thesis
    using assms(1) Some fmlookup_Some_dom [OF Some]
    unfolding tw_on_display_def tw_inv_def
    by (auto simp: fmlen_upd split: prod.split)
qed

lemma tw_inv_step: "tw_inv w \<Longrightarrow> tw_inv (tw_step w call)"
proof (cases call)
  case (TwCreate s)
  assume inv: "tw_inv w"
  obtain x w' where eq: "tw_create s w = (x, w')" by fastforce
  then show ?thesis
  proof (cases rule: tw_create_cases)
    case created
    then show ?thesis
      using eq TwCreate by (simp add: tw_inv_bind_task tw_inv_reserve inv)
  qed (use inv eq TwCreate in simp)
next
  case (TwRemove t)
  assume inv: "tw_inv w"
  have "snd (tw_remove t w) = w \<or> (\<exists>d. snd (tw_remove t w) = snd (tw_remove_display d w))"
    by (auto simp: tw_remove_def snd_op_bind op_lift_def Let_def
        split: option.split sum.split prod.split) (metis snd_conv)+
  with inv show ?thesis
    unfolding TwRemove tw_step.simps using tw_inv_remove_display by metis
qed (auto simp: tw_inv_reserve tw_inv_bind_task tw_inv_remove_display co_inv_step co_display_step
      intro!: tw_inv_on_display)

lemma tw_inv_run: "tw_inv w \<Longrightarrow> tw_inv (run_ops tw_step w calls)"
  by (induction calls arbitrary: w) (auto intro: tw_inv_step)

subsection \<open>Properties\<close>

text \<open>
  The two maps of the window set stay in step over every sequence of operations, including all
  Composer calls on its displays: every window is filed under its display, with a valid reservation
  and a Composer in its invariant; a bound window and its task entry point at each other; and there
  are at most 4096 windows.
\<close>

theorem task_windows_invariant: "tw_inv (run_ops tw_step tw_empty calls)"
  using tw_inv_run [OF tw_inv_empty] .

text \<open>
  \<open>create\<close> is atomic: it succeeds exactly for a non-zero task and display and a valid package,
  when there is room and neither the display nor the task has a window; then the task resolves to this
  window.  In every other case the window set is exactly as before, also when the display was already
  reserved by the time the task turns out to be taken.
\<close>

theorem create_window_atomic:
  "(is_ok (fst (tw_create s w)) \<longleftrightarrow>
     wsp_task s \<noteq> 0 \<and> wsp_display s \<noteq> 0 \<and> composer_valid_package (wsp_package s) \<and>
     fmlen (tw_windows w) < 4096 \<and> fmlookup (tw_windows w) (wsp_display s) = None \<and>
     fmlookup (tw_tasks w) (wsp_task s) = None) \<and>
   (if is_ok (fst (tw_create s w)) then tw_get (snd (tw_create s w)) (wsp_task s) = Inr s
    else snd (tw_create s w) = w)"
proof -
  have valid: "spec_validate s = Inr () \<longleftrightarrow>
      wsp_task s \<noteq> 0 \<and> wsp_display s \<noteq> 0 \<and> composer_valid_package (wsp_package s)"
    by (simp add: spec_validate_def reservation_validate_def)
  let ?r = "\<lparr>rs_display = wsp_display s, rs_package = wsp_package s\<rparr>"
  obtain x w' where eq: "tw_create s w = (x, w')" by fastforce
  then show ?thesis
  proof (cases rule: tw_create_cases)
    case (error e)
    have "tw_create s w = (Inr (), snd (tw_create s w))"
      if "spec_validate s = Inr ()" "fmlen (tw_windows w) < 4096"
        "fmlookup (tw_windows w) (wsp_display s) = None" "fmlookup (tw_tasks w) (wsp_task s) = None"
      using that by (auto simp: tw_create_def tw_reserve_def tw_bind_task_def op_bind_def op_lift_def
          MAX_TASK_WINDOWS_def Let_def spec_validate_def fmlookup_None_iff split: if_splits)
    with error eq valid show ?thesis by auto
  next
    case created
    have "\<lparr>wsp_task = wsp_task s, wsp_display = wsp_display s, wsp_package = wsp_package s\<rparr> = s"
      by simp
    with created have w': "w' = w\<lparr>tw_windows := fmupd (wsp_display s) \<lparr>win_reservation = ?r,
        win_spec = Some s, win_composer = co_new (wsp_display s)\<rparr> (tw_windows w),
        tw_tasks := fmupd (wsp_task s) (wsp_display s) (tw_tasks w)\<rparr>"
      using valid by (simp add: tw_reserve_def tw_bind_task_def op_bind_def op_lift_def Let_def
          reservation_validate_def fmlookup_None_iff)
    have "tw_get w' (wsp_task s) = Inr s"
      by (simp add: w' tw_get_def)
    with created(1-5) eq valid show ?thesis
      by (simp add: MAX_TASK_WINDOWS_def)
  qed
qed

text \<open>
  A window leaves only when it is idle: in every reachable window set, \<open>remove\<close> of a task succeeds
  exactly when the task has a window whose Composer has no frame in flight, and then removes that
  window and that task entry and nothing else; the internal \<open>UnknownTask\<close> answers after the lookup are
  never given.
\<close>

theorem remove_window_outcome:
  assumes "w = run_ops tw_step tw_empty calls"
  shows "case fmlookup (tw_tasks w) t of
      None \<Rightarrow> tw_remove t w = (Inl (UnknownTask t), w)
    | Some d \<Rightarrow> (\<exists>s c. tw_get w t = Inr s \<and> tw_composer_for_display w d = Inr c \<and> tw_remove t w =
        (if co_in_flight_count c = 0
         then (Inr s, \<lparr>tw_windows = fmdrop d (tw_windows w), tw_tasks = fmdrop t (tw_tasks w)\<rparr>)
         else (Inl (BuffersInFlight t (co_in_flight_count c)), w)))"
proof -
  have inv: "tw_inv w"
    unfolding assms by (rule tw_inv_run [OF tw_inv_empty])
  show ?thesis
  proof (cases "fmlookup (tw_tasks w) t")
    case None
    then show ?thesis by (simp add: tw_remove_eq [OF inv])
  next
    case (Some d)
    from tw_inv_taskD [OF inv Some] obtain win s where
      "fmlookup (tw_windows w) d = Some win" "win_spec win = Some s" by blast
    with Some show ?thesis
      by (simp add: tw_remove_eq [OF inv] tw_get_def tw_composer_for_display_def
          co_in_flight_count_def ps_in_flight_count_def fmlen_0_iff)
  qed
qed

definition example_spec :: task_window_spec where
  "example_spec = \<lparr>wsp_task = 3, wsp_display = 9, wsp_package = [0x61]\<rparr>"

end
