(* ===== verification/Composer_Session.thy ===== *)
theory Composer_Session
  imports Task_Windows
begin

section \<open>Command batches of a Composer client\<close>

text \<open>
  \<open>graphics/droidloom-composer/src/hwc3.rs\<close>: the \<open>Session\<close> of one Composer client executes bounded
  batches of display commands against the window set, command by command, and answers with result
  payloads and the frozen HWC3 error codes.  A command works on one display; its results are appended
  to a shared list even when a later part of the same command fails.  Proved: a batch acts on each
  display as a sequence of Composer operations and on no display it does not name, the invariant of
  the session, and that layer identities are fresh over the whole life of a session.
\<close>

subsection \<open>Data\<close>

definition MAX_DISPLAY_COMMANDS :: nat where [proto_consts]: "MAX_DISPLAY_COMMANDS = 4096"
definition MAX_LAYER_COMMANDS :: nat where [proto_consts]: "MAX_LAYER_COMMANDS = 4096"
definition HWC_MAX_DAMAGE_RECTS :: nat where [proto_consts]: "HWC_MAX_DAMAGE_RECTS = 256"
definition MAX_BUFFER_SLOTS :: u32 where [proto_consts]: "MAX_BUFFER_SLOTS = 4096"

datatype hwc_error =
  BadConfig | BadDisplay | BadLayer | BadParameter | NoResources | HwcNotValidated | Unsupported

fun hwc_error_code :: "hwc_error \<Rightarrow> int" where
  "hwc_error_code BadConfig = 1"
| "hwc_error_code BadDisplay = 2"
| "hwc_error_code BadLayer = 3"
| "hwc_error_code BadParameter = 4"
| "hwc_error_code NoResources = 6"
| "hwc_error_code HwcNotValidated = 7"
| "hwc_error_code Unsupported = 8"

record layer_patch =
  lp_layer :: layer_id
  lp_composition :: "composition option"
  lp_z :: "i32 option"
  lp_protected_content :: "bool option"
  lp_has_sideband_stream :: bool

record display_command =
  dc_display :: display_id
  dc_layers :: "layer_patch list"
  dc_client_target :: "client_target option"
  dc_validate_display :: bool
  dc_accept_display_changes :: bool
  dc_present_display :: bool
  dc_present_or_validate_display :: bool

datatype present_or_validate_result = PresentedNow | ValidatedNow

datatype command_result =
    CommandError u32 hwc_error
  | ChangedCompositionTypes display_id "composition_change list"
  | PresentResult display_id accepted_frame bool
  | PresentDirect display_id
  | PresentOrValidate display_id present_or_validate_result

record session =
  se_windows :: task_window_set
  se_next_layer :: u64

definition se_default :: session where
  "se_default = \<lparr>se_windows = tw_empty, se_next_layer = 0\<rparr>"

subsection \<open>Error codes\<close>

fun map_task_error :: "task_window_error \<Rightarrow> hwc_error" where
  "map_task_error (UnknownDisplay _) = BadDisplay"
| "map_task_error (UnknownTask _) = BadDisplay"
| "map_task_error WindowLimit = NoResources"
| "map_task_error (BuffersInFlight _ _) = NoResources"
| "map_task_error (DisplayBuffersInFlight _ _) = NoResources"
| "map_task_error InvalidTask = BadParameter"
| "map_task_error InvalidDisplay = BadParameter"
| "map_task_error (DuplicateTask _) = BadParameter"
| "map_task_error (DuplicateDisplay _) = BadParameter"
| "map_task_error (UnboundDisplay _) = BadParameter"
| "map_task_error (DisplayAlreadyBound _) = BadParameter"
| "map_task_error InvalidPackage = BadParameter"

fun map_composer_error :: "composer_error \<Rightarrow> hwc_error" where
  "map_composer_error (ComposerUnknownDisplay _ _) = BadDisplay"
| "map_composer_error (DuplicateLayer _) = BadLayer"
| "map_composer_error (UnknownLayer _) = BadLayer"
| "map_composer_error NotValidated = HwcNotValidated"
| "map_composer_error ChangesNotAccepted = HwcNotValidated"
| "map_composer_error (UnsupportedPowerMode _) = Unsupported"
| "map_composer_error (ProtectedLayer _) = Unsupported"
| "map_composer_error (ComposerTransport (TransportBufferInFlight _)) = NoResources"
| "map_composer_error (ComposerTransport FrameIdExhausted) = NoResources"
| "map_composer_error _ = BadParameter"

subsection \<open>Operations on one display\<close>

text \<open>\<open>self.windows.composer_for_display_mut(display).map_err(..)?.f(..).map_err(..)\<close>\<close>

definition se_on_display ::
  "display_id \<Rightarrow> 'a composer_op \<Rightarrow> (hwc_error, session, 'a) op" where
  "se_on_display display f = (\<lambda>se.
     case tw_on_display display f (se_windows se) of
       (Inl e, w) \<Rightarrow> (Inl (map_task_error e), se\<lparr>se_windows := w\<rparr>)
     | (Inr r, w) \<Rightarrow> (map_err map_composer_error r, se\<lparr>se_windows := w\<rparr>))"

definition se_create_task_window :: "task_window_spec \<Rightarrow> (task_window_error, session, unit) op" where
  "se_create_task_window spec =
     op_on se_windows (\<lambda>w se. se\<lparr>se_windows := w\<rparr>) id (tw_create spec)"

definition se_create_layer :: "display_id \<Rightarrow> u32 \<Rightarrow> (hwc_error, session, layer_id) op" where
  "se_create_layer display buffer_slot_count = (\<lambda>se.
     if buffer_slot_count = 0 \<or> MAX_BUFFER_SLOTS < buffer_slot_count then (Inl BadParameter, se)
     else case checked_add (se_next_layer se) 1 of
       None \<Rightarrow> (Inl NoResources, se)
     | Some next \<Rightarrow>
         op_bind (se_on_display display (co_create_layer display
           \<lparr>ly_id = next, ly_requested_composition = ClientComposition, ly_z = 0,
            ly_protected_content = False\<rparr>))
         (\<lambda>_ se1. (Inr next, se1\<lparr>se_next_layer := next\<rparr>)) se)"

definition se_destroy_layer :: "display_id \<Rightarrow> layer_id \<Rightarrow> (hwc_error, session, unit) op" where
  "se_destroy_layer display layer = se_on_display display (co_destroy_layer display layer)"

definition se_set_power_mode :: "display_id \<Rightarrow> power_mode \<Rightarrow> (hwc_error, session, unit) op" where
  "se_set_power_mode display mode = se_on_display display (co_set_power_mode display mode)"

definition se_set_vsync_enabled :: "display_id \<Rightarrow> bool \<Rightarrow> (hwc_error, session, unit) op" where
  "se_set_vsync_enabled display enabled = se_on_display display (co_set_vsync_enabled display enabled)"

definition se_release_presented_target ::
  "display_id \<Rightarrow> frame_id \<Rightarrow> bool \<Rightarrow> (hwc_error, session, released_frame) op" where
  "se_release_presented_target display frame has_release_fence =
     se_on_display display (co_release_presented_target frame has_release_fence)"

subsection \<open>One command\<close>

text \<open>The state of a running command: the display's Composer and the results so far.\<close>

type_synonym 'a command_op = "(hwc_error, composer \<times> command_result list, 'a) op"

definition cmd_composer :: "'a composer_op \<Rightarrow> 'a command_op" where
  "cmd_composer f = (\<lambda>(c, results). case f c of (r, c1) \<Rightarrow> (map_err map_composer_error r, (c1, results)))"

definition cmd_push :: "command_result \<Rightarrow> unit command_op" where
  "cmd_push x = (\<lambda>(c, results). (Inr (), (c, results @ [x])))"

definition push_changes :: "display_id \<Rightarrow> composition_change list \<Rightarrow> unit command_op" where
  "push_changes display layers =
     (if layers \<noteq> [] then cmd_push (ChangedCompositionTypes display layers) else op_return ())"

definition patched :: "layer_patch \<Rightarrow> layer_state \<Rightarrow> layer_state" where
  "patched patch state =
     (let s1 = (case lp_composition patch of None \<Rightarrow> state
                | Some composition \<Rightarrow> state\<lparr>ly_requested_composition := composition\<rparr>);
          s2 = (case lp_z patch of None \<Rightarrow> s1 | Some z \<Rightarrow> s1\<lparr>ly_z := z\<rparr>)
      in case lp_protected_content patch of None \<Rightarrow> s2
         | Some protected \<Rightarrow> s2\<lparr>ly_protected_content := protected\<rparr>)"

fun apply_patches :: "display_id \<Rightarrow> layer_patch list \<Rightarrow> unit command_op" where
  "apply_patches display [] = op_return ()"
| "apply_patches display (patch # patches) =
     op_bind (op_lift (reject_if (lp_has_sideband_stream patch) Unsupported)) (\<lambda>_.
     op_bind (cmd_composer (co_layer_state display (lp_layer patch))) (\<lambda>state.
     op_bind (cmd_composer (co_update_layer display (patched patch state))) (\<lambda>_.
     apply_patches display patches)))"

definition validate_step :: "display_id \<Rightarrow> unit command_op" where
  "validate_step display =
     op_bind (cmd_composer (co_validate_display display)) (\<lambda>validation.
     push_changes display (vr_composition_changes validation))"

definition present_or_validate :: "display_id \<Rightarrow> unit command_op" where
  "present_or_validate display = (\<lambda>(c, results).
     case co_present_display_direct display c of
       (Inr _, c1) \<Rightarrow>
         op_bind (cmd_push (PresentDirect display)) (\<lambda>_.
         cmd_push (PresentOrValidate display PresentedNow)) (c1, results)
     | (Inl NotValidated, c1) \<Rightarrow>
         op_bind (validate_step display) (\<lambda>_.
         cmd_push (PresentOrValidate display ValidatedNow)) (c1, results)
     | (Inl error, c1) \<Rightarrow> (Inl (map_composer_error error), (c1, results)))"

definition command_body :: "display_command \<Rightarrow> unit command_op" where
  "command_body command =
     (let display = dc_display command in
      op_bind (apply_patches display (dc_layers command)) (\<lambda>_.
      op_bind (case dc_client_target command of None \<Rightarrow> op_return ()
        | Some target \<Rightarrow> cmd_composer (co_set_client_target display target)) (\<lambda>_.
      if dc_present_or_validate_display command then present_or_validate display
      else
        op_bind (if dc_validate_display command then validate_step display else op_return ()) (\<lambda>_.
        op_bind (if dc_accept_display_changes command
          then cmd_composer (co_accept_display_changes display) else op_return ()) (\<lambda>_.
        if dc_present_display command
        then op_bind (cmd_composer (co_present_display_direct display)) (\<lambda>_.
          cmd_push (PresentDirect display))
        else op_return ())))))"

definition command_rejected :: "display_command \<Rightarrow> bool" where
  "command_rejected command =
     (MAX_LAYER_COMMANDS < length (dc_layers command) \<or>
      (case dc_client_target command of None \<Rightarrow> False
       | Some target \<Rightarrow> HWC_MAX_DAMAGE_RECTS < length (ct_damage target)) \<or>
      (dc_present_or_validate_display command \<and>
        (dc_validate_display command \<or> dc_accept_display_changes command \<or> dc_present_display command)))"

definition execute_one ::
  "display_command \<Rightarrow> session \<times> command_result list \<Rightarrow>
     (hwc_error, unit) result \<times> session \<times> command_result list" where
  "execute_one command = (\<lambda>(se, results).
     if command_rejected command then (Inl BadParameter, (se, results))
     else case fmlookup (tw_windows (se_windows se)) (dc_display command) of
       None \<Rightarrow> (Inl (map_task_error (UnknownDisplay (dc_display command))), (se, results))
     | Some window \<Rightarrow>
         case command_body command (win_composer window, results) of
           (r, (c, results1)) \<Rightarrow>
             (r, (se\<lparr>se_windows := (se_windows se)\<lparr>tw_windows := fmupd (dc_display command)
                 (window\<lparr>win_composer := c\<rparr>) (tw_windows (se_windows se))\<rparr>\<rparr>, results1)))"

text \<open>The loop over the batch; \<open>index\<close> is the position of the next command.\<close>

fun execute_from ::
  "nat \<Rightarrow> display_command list \<Rightarrow> session \<times> command_result list \<Rightarrow> session \<times> command_result list"
where
  "execute_from index [] state = state"
| "execute_from index (command # commands) state =
     (case execute_one command state of
        (Inr _, state1) \<Rightarrow> execute_from (Suc index) commands state1
      | (Inl code, (se, results)) \<Rightarrow>
          execute_from (Suc index) commands
            (se, results @ [CommandError (if index < 2 ^ 32 then word_of_nat index else - 1) code]))"

definition execute_commands :: "display_command list \<Rightarrow> session \<Rightarrow> command_result list \<times> session" where
  "execute_commands commands se =
     (if MAX_DISPLAY_COMMANDS < length commands
      then ([CommandError (word_of_nat MAX_DISPLAY_COMMANDS) BadParameter], se)
      else case execute_from 0 commands (se, []) of (se1, results) \<Rightarrow> (results, se1))"


subsection \<open>A command is a sequence of Composer operations\<close>

fun creates_layer :: "composer_call \<Rightarrow> bool" where
  "creates_layer (CoCreateLayer d l) = True"
| "creates_layer _ = False"

text \<open>The operations a command performs on the Composer of its display.\<close>

fun batch_call :: "composer_call \<Rightarrow> bool" where
  "batch_call (CoUpdateLayer d l) = True"
| "batch_call (CoValidate d) = True"
| "batch_call (CoAccept d) = True"
| "batch_call (CoSetClientTarget d t) = True"
| "batch_call (CoPresentDirect d) = True"
| "batch_call _ = False"

lemma batch_call_no_layer: "batch_call call \<Longrightarrow> \<not> creates_layer call"
  by (cases call) auto

text \<open>\<open>c'\<close> is reached from \<open>c\<close> by Composer operations that satisfy \<open>P\<close>.\<close>

definition composer_steps :: "(composer_call \<Rightarrow> bool) \<Rightarrow> composer \<Rightarrow> composer \<Rightarrow> bool" where
  "composer_steps P c c' \<longleftrightarrow> (\<exists>calls. list_all P calls \<and> c' = run_ops co_step c calls)"

lemma composer_steps_refl [simp, intro]: "composer_steps P c c"
  unfolding composer_steps_def by (rule exI [of _ "[]"]) simp

lemma composer_steps_trans:
  "composer_steps P c c1 \<Longrightarrow> composer_steps P c1 c2 \<Longrightarrow> composer_steps P c c2"
  unfolding composer_steps_def
  by (elim exE conjE, rule_tac x = "calls @ callsa" in exI) (auto simp: run_ops_append)

lemma composer_steps_step: "P call \<Longrightarrow> composer_steps P c (co_step c call)"
  unfolding composer_steps_def by (rule exI [of _ "[call]"]) simp

lemma composer_step_ops [simp, intro]:
  "P (CoUpdateLayer d l) \<Longrightarrow> composer_steps P c (snd (co_update_layer d l c))"
  "P (CoValidate d) \<Longrightarrow> composer_steps P c (snd (co_validate_display d c))"
  "P (CoAccept d) \<Longrightarrow> composer_steps P c (snd (co_accept_display_changes d c))"
  "P (CoSetClientTarget d t) \<Longrightarrow> composer_steps P c (snd (co_set_client_target d t c))"
  "P (CoPresentDirect d) \<Longrightarrow> composer_steps P c (snd (co_present_display_direct d c))"
  "P (CoDestroyLayer d k) \<Longrightarrow> composer_steps P c (snd (co_destroy_layer d k c))"
  "P (CoSetPowerMode d m) \<Longrightarrow> composer_steps P c (snd (co_set_power_mode d m c))"
  "P (CoSetVsync d b) \<Longrightarrow> composer_steps P c (snd (co_set_vsync_enabled d b c))"
  "P (CoRelease f b) \<Longrightarrow> composer_steps P c (snd (co_release_presented_target f b c))"
  "composer_steps P c (snd (co_layer_state d k c))"
  using composer_steps_step [of P "CoUpdateLayer d l" c] composer_steps_step [of P "CoValidate d" c]
    composer_steps_step [of P "CoAccept d" c] composer_steps_step [of P "CoSetClientTarget d t" c]
    composer_steps_step [of P "CoPresentDirect d" c] composer_steps_step [of P "CoDestroyLayer d k" c]
    composer_steps_step [of P "CoSetPowerMode d m" c] composer_steps_step [of P "CoSetVsync d b" c]
    composer_steps_step [of P "CoRelease f b" c]
  by (simp_all add: co_layer_state_def require_display_bind)

text \<open>A command operation that only acts through such steps.\<close>

definition command_steps :: "'a command_op \<Rightarrow> bool" where
  "command_steps m \<longleftrightarrow> (\<forall>c rs. composer_steps batch_call c (fst (snd (m (c, rs)))))"

lemma command_steps_bind:
  assumes "command_steps m" and "\<And>x. command_steps (k x)"
  shows "command_steps (op_bind m k)"
  unfolding command_steps_def
proof (intro allI)
  fix c rs
  obtain r c1 rs1 where m: "m (c, rs) = (r, (c1, rs1))" by (cases "m (c, rs)") auto
  then have "composer_steps batch_call c c1"
    using assms(1) unfolding command_steps_def by (metis fst_conv snd_conv)
  then show "composer_steps batch_call c (fst (snd (op_bind m k (c, rs))))"
    using m assms(2) unfolding command_steps_def snd_op_bind
    by (auto split: sum.split intro: composer_steps_trans)
qed

lemma command_steps_basic [simp, intro]:
  "command_steps (op_return x)" "command_steps (op_lift r)" "command_steps (cmd_push y)"
  "command_steps (push_changes d ls)" "command_steps (Pair r)"
  by (simp_all add: command_steps_def op_return_def op_lift_def cmd_push_def push_changes_def)

lemma command_steps_composer:
  "(\<And>c. composer_steps batch_call c (snd (f c))) \<Longrightarrow> command_steps (cmd_composer f)"
  by (auto simp: command_steps_def cmd_composer_def split: prod.split) (metis snd_conv)

lemma command_steps_patches: "command_steps (apply_patches d patches)"
  by (induction patches) (auto intro!: command_steps_bind command_steps_composer)

lemma command_steps_validate: "command_steps (validate_step d)"
  unfolding validate_step_def by (intro command_steps_bind command_steps_composer) auto

lemma command_steps_present_or_validate: "command_steps (present_or_validate d)"
  unfolding command_steps_def
proof (intro allI)
  fix c rs
  obtain r c1 where p: "co_present_display_direct d c = (r, c1)" by fastforce
  then have c1: "composer_steps batch_call c c1"
    using composer_step_ops(5) [of batch_call d c] by simp
  have "composer_steps batch_call c1 (fst (snd (op_bind (validate_step d)
      (\<lambda>_. cmd_push (PresentOrValidate d ValidatedNow)) (c1, rs))))"
    using command_steps_bind [OF command_steps_validate [of d]
        command_steps_basic(3) [of "PresentOrValidate d ValidatedNow"]]
    unfolding command_steps_def by blast
  with c1 have "composer_steps batch_call c (fst (snd (op_bind (validate_step d)
      (\<lambda>_. cmd_push (PresentOrValidate d ValidatedNow)) (c1, rs))))"
    by (rule composer_steps_trans)
  with c1 p show "composer_steps batch_call c (fst (snd (present_or_validate d (c, rs))))"
    by (cases r) (auto simp: present_or_validate_def cmd_push_def op_bind_def
        split: composer_error.split)
qed

lemma command_steps_body: "command_steps (command_body command)"
  unfolding command_body_def Let_def
  by (intro command_steps_bind command_steps_patches)
    (auto split: option.split
      intro!: command_steps_bind command_steps_composer command_steps_validate
        command_steps_present_or_validate)


lemma co_layers_step:
  "\<not> creates_layer call \<Longrightarrow> fmdom (co_layers (co_step c call)) |\<subseteq>| fmdom (co_layers c)"
  by (cases call)
    (auto simp: composer_op_simps co_replace_feedback_def co_configure_def
      co_set_power_mode_def co_set_vsync_enabled_def co_presentation_sample_def
      co_acknowledge_configure_def co_update_layer_def co_destroy_layer_def
      co_validate_display_def co_accept_display_changes_def co_set_client_target_def
      co_present_display_def co_present_display_direct_def co_submit_rendered_target_def
      co_release_presented_target_def co_cancel_unsubmitted_target_def co_invalidate_def Let_def
      split: power_mode.splits option.splits sum.splits prod.splits if_splits dest: fmdomI)

lemma composer_steps_keep:
  assumes "composer_steps P c c'"
  shows "co_inv c \<Longrightarrow> co_inv c'" and "co_display c' = co_display c"
    and "(\<And>call. P call \<Longrightarrow> \<not> creates_layer call) \<Longrightarrow> fmdom (co_layers c') |\<subseteq>| fmdom (co_layers c)"
proof -
  obtain calls where calls: "list_all P calls" "c' = run_ops co_step c calls"
    using assms unfolding composer_steps_def by blast
  show "co_inv c \<Longrightarrow> co_inv c'"
    unfolding calls(2) by (rule composer.inv_run)
  show "co_display c' = co_display c"
    unfolding calls(2) by (induction calls arbitrary: c) (simp_all add: co_display_step)
  show "fmdom (co_layers c') |\<subseteq>| fmdom (co_layers c)" if "\<And>call. P call \<Longrightarrow> \<not> creates_layer call"
    using calls(1) unfolding calls(2)
  proof (induction calls arbitrary: c)
    case (Cons call calls)
    then show ?case
      using co_layers_step [of call c] that by fastforce
  qed simp
qed

text \<open>\<open>w'\<close> differs from \<open>w\<close> by Composer operations that satisfy \<open>P\<close>, on the displays of \<open>D\<close> only.\<close>

definition window_act :: "(composer_call \<Rightarrow> bool) \<Rightarrow> display_id set \<Rightarrow> display_id \<Rightarrow> task_window \<Rightarrow> task_window \<Rightarrow> bool" where
  "window_act P D d win win' \<longleftrightarrow>
     (\<exists>c'. win' = win\<lparr>win_composer := c'\<rparr> \<and> composer_steps P (win_composer win) c') \<and>
     (d \<notin> D \<longrightarrow> win' = win)"

definition windows_act :: "(composer_call \<Rightarrow> bool) \<Rightarrow> display_id set \<Rightarrow> task_window_set \<Rightarrow> task_window_set \<Rightarrow> bool" where
  "windows_act P D w w' \<longleftrightarrow> tw_tasks w' = tw_tasks w \<and>
     (\<forall>d. rel_option (window_act P D d) (fmlookup (tw_windows w) d) (fmlookup (tw_windows w') d))"

lemma window_act_refl [simp]: "window_act P D d win win"
  unfolding window_act_def by (auto intro!: exI [of _ "win_composer win"])

lemma window_act_trans:
  "window_act P D d x y \<Longrightarrow> window_act P E d y z \<Longrightarrow> window_act P (D \<union> E) d x z"
  unfolding window_act_def by auto (metis composer_steps_trans)+

lemma windows_act_refl [simp]: "windows_act P D w w"
  by (simp add: windows_act_def option.rel_refl)

lemma windows_act_trans:
  assumes "windows_act P D w w1" and "windows_act P E w1 w2"
  shows "windows_act P (D \<union> E) w w2"
proof -
  have "rel_option (window_act P (D \<union> E) d) (fmlookup (tw_windows w) d) (fmlookup (tw_windows w2) d)" for d
  proof -
    have a: "rel_option (window_act P D d) (fmlookup (tw_windows w) d) (fmlookup (tw_windows w1) d)"
      and b: "rel_option (window_act P E d) (fmlookup (tw_windows w1) d) (fmlookup (tw_windows w2) d)"
      using assms unfolding windows_act_def by blast+
    show ?thesis
    proof (cases "fmlookup (tw_windows w1) d")
      case None
      with a b show ?thesis by simp
    next
      case (Some y)
      with a b obtain x z where "fmlookup (tw_windows w) d = Some x" "window_act P D d x y"
        "fmlookup (tw_windows w2) d = Some z" "window_act P E d y z"
        by (auto simp: option_rel_Some1 option_rel_Some2)
      then show ?thesis by (auto intro: window_act_trans)
    qed
  qed
  with assms show ?thesis by (simp add: windows_act_def)
qed

lemma windows_act_on_display:
  assumes "\<And>c. composer_steps P c (snd (f c))"
  shows "windows_act P {d} w (snd (tw_on_display d f w))"
proof (cases "fmlookup (tw_windows w) d")
  case None
  then show ?thesis by (simp add: tw_on_display_def)
next
  case (Some win)
  have "window_act P {d} d win (win\<lparr>win_composer := snd (f (win_composer win))\<rparr>)"
    using assms unfolding window_act_def by blast
  with Some show ?thesis
    by (auto simp: tw_on_display_def windows_act_def option.rel_refl split: prod.split)
qed

lemma execute_one_windows:
  "se_windows (fst (snd (execute_one command (se, rs)))) =
     (if command_rejected command then se_windows se
      else snd (tw_on_display (dc_display command)
        (\<lambda>c. ((), fst (snd (command_body command (c, rs))))) (se_windows se)))"
  by (auto simp: execute_one_def tw_on_display_def split: option.split prod.split)

lemma execute_one_act:
  "windows_act batch_call {dc_display command} (se_windows se)
     (se_windows (fst (snd (execute_one command (se, rs)))))"
  "se_next_layer (fst (snd (execute_one command (se, rs)))) = se_next_layer se"
  unfolding execute_one_windows
  using command_steps_body [of command]
  by (auto simp: command_steps_def execute_one_def intro!: windows_act_on_display
      split: option.split prod.split)

lemma execute_from_act:
  "windows_act batch_call (dc_display ` set commands) (se_windows se)
     (se_windows (fst (execute_from index commands (se, rs)))) \<and>
   se_next_layer (fst (execute_from index commands (se, rs))) = se_next_layer se"
proof (induction commands arbitrary: index se rs)
  case (Cons command commands)
  obtain r se1 rs1 where one: "execute_one command (se, rs) = (r, (se1, rs1))"
    by (cases "execute_one command (se, rs)") auto
  have act: "windows_act batch_call {dc_display command} (se_windows se) (se_windows se1)"
    "se_next_layer se1 = se_next_layer se"
    using execute_one_act [of command se rs] one by simp_all
  obtain rs2 where "execute_from index (command # commands) (se, rs) =
      execute_from (Suc index) commands (se1, rs2)"
    using one by (cases r) auto
  with act windows_act_trans [OF act(1)] Cons.IH [of se1 "Suc index" rs2] show ?case
    using insert_is_Un [of "dc_display command" "dc_display ` set commands"] by auto
qed simp


subsection \<open>Invariant of a session\<close>

definition layers_below :: "u64 \<Rightarrow> task_window_set \<Rightarrow> bool" where
  "layers_below n w \<longleftrightarrow> (\<forall>d win k. fmlookup (tw_windows w) d = Some win \<longrightarrow>
     k |\<in>| fmdom (co_layers (win_composer win)) \<longrightarrow> k \<le> n)"

definition se_inv :: "session \<Rightarrow> bool" where
  "se_inv se \<longleftrightarrow> tw_inv (se_windows se) \<and> layers_below (se_next_layer se) (se_windows se)"

lemma windows_act_lookup:
  assumes "windows_act P D w w'" and "fmlookup (tw_windows w') d = Some win'"
  obtains win c' where "fmlookup (tw_windows w) d = Some win" "win' = win\<lparr>win_composer := c'\<rparr>"
    "composer_steps P (win_composer win) c'"
proof -
  have "rel_option (window_act P D d) (fmlookup (tw_windows w) d) (Some win')"
    using assms unfolding windows_act_def by metis
  then obtain win where "fmlookup (tw_windows w) d = Some win" "window_act P D d win win'"
    by (auto simp: option_rel_Some2)
  then show ?thesis
    using that unfolding window_act_def by blast
qed

lemma windows_act_lookup_back:
  assumes "windows_act P D w w'" and "fmlookup (tw_windows w) d = Some win"
  shows "\<exists>c'. fmlookup (tw_windows w') d = Some (win\<lparr>win_composer := c'\<rparr>)"
proof -
  have "rel_option (window_act P D d) (Some win) (fmlookup (tw_windows w') d)"
    using assms unfolding windows_act_def by metis
  then show ?thesis
    by (auto simp: option_rel_Some1 window_act_def)
qed

lemma windows_act_dom:
  assumes "windows_act P D w w'"
  shows "fmdom (tw_windows w') = fmdom (tw_windows w)"
proof (rule fset_eqI)
  fix d
  show "d |\<in>| fmdom (tw_windows w') \<longleftrightarrow> d |\<in>| fmdom (tw_windows w)"
    unfolding fmlookup_dom_iff
    by (blast elim: windows_act_lookup [OF assms] dest: windows_act_lookup_back [OF assms])
qed

lemma tw_inv_act:
  assumes act: "windows_act P D w w'" and inv: "tw_inv w"
  shows "tw_inv w'"
proof -
  have tasks: "tw_tasks w' = tw_tasks w"
    using act by (simp add: windows_act_def)
  have "window_ok (tw_tasks w') d win'" if lk: "fmlookup (tw_windows w') d = Some win'" for d win'
  proof -
    obtain win c' where win: "fmlookup (tw_windows w) d = Some win" "win' = win\<lparr>win_composer := c'\<rparr>"
      "composer_steps P (win_composer win) c'"
      by (rule windows_act_lookup [OF act lk])
    then show ?thesis
      using tw_inv_windowD [OF inv win(1)] composer_steps_keep [OF win(3)] tasks
      by (simp add: window_ok_def)
  qed
  moreover have "\<exists>win s. fmlookup (tw_windows w') d = Some win \<and> win_spec win = Some s \<and> wsp_task s = t"
    if "fmlookup (tw_tasks w') t = Some d" for t d
    using tw_inv_taskD [OF inv, of t d] that windows_act_lookup_back [OF act] tasks by fastforce
  ultimately show ?thesis
    using inv windows_act_dom [OF act] unfolding tw_inv_def fmlen_def by auto
qed

lemma layers_below_act:
  assumes act: "windows_act P D w w'" and P: "\<And>call. P call \<Longrightarrow> \<not> creates_layer call"
    and below: "layers_below n w"
  shows "layers_below n w'"
  unfolding layers_below_def
proof (intro allI impI)
  fix d win' k
  assume "fmlookup (tw_windows w') d = Some win'" and k: "k |\<in>| fmdom (co_layers (win_composer win'))"
  then obtain win c' where "fmlookup (tw_windows w) d = Some win" "win' = win\<lparr>win_composer := c'\<rparr>"
    "composer_steps P (win_composer win) c'"
    by (blast elim: windows_act_lookup [OF act])
  with k below composer_steps_keep(3) [OF _ P] show "k \<le> n"
    unfolding layers_below_def by fastforce
qed

lemma se_inv_act:
  "windows_act P D (se_windows se) w' \<Longrightarrow> (\<And>call. P call \<Longrightarrow> \<not> creates_layer call) \<Longrightarrow> se_inv se \<Longrightarrow> se_inv (se\<lparr>se_windows := w'\<rparr>)"
  by (auto simp: se_inv_def intro: tw_inv_act layers_below_act)


datatype session_call =
    SeCreateWindow task_window_spec
  | SeCreateLayer display_id u32
  | SeDestroyLayer display_id layer_id
  | SeSetPowerMode display_id power_mode
  | SeSetVsync display_id bool
  | SeExecute "display_command list"
  | SeRelease display_id frame_id bool
  | SeHost window_call \<comment> \<open>lifecycle and host events, through \<open>windows_mut\<close>\<close>

text \<open>Layers are created through the session only; host events never create one.\<close>

fun session_call_ok :: "session_call \<Rightarrow> bool" where
  "session_call_ok (SeHost (TwComposer d call)) = (\<not> creates_layer call)"
| "session_call_ok _ = True"

fun se_step :: "session \<Rightarrow> session_call \<Rightarrow> session" where
  "se_step se (SeCreateWindow spec) = snd (se_create_task_window spec se)"
| "se_step se (SeCreateLayer d slots) = snd (se_create_layer d slots se)"
| "se_step se (SeDestroyLayer d k) = snd (se_destroy_layer d k se)"
| "se_step se (SeSetPowerMode d mode) = snd (se_set_power_mode d mode se)"
| "se_step se (SeSetVsync d enabled) = snd (se_set_vsync_enabled d enabled se)"
| "se_step se (SeExecute commands) = snd (execute_commands commands se)"
| "se_step se (SeRelease d f fence) = snd (se_release_presented_target d f fence se)"
| "se_step se (SeHost call) = se\<lparr>se_windows := tw_step (se_windows se) call\<rparr>"

lemma snd_se_on_display:
  "snd (se_on_display d f se) = se\<lparr>se_windows := snd (tw_on_display d f (se_windows se))\<rparr>"
  by (auto simp: se_on_display_def split: prod.split sum.split)

lemma se_on_display_known:
  "fmlookup (tw_windows (se_windows se)) d = Some win \<Longrightarrow>
   se_on_display d f se = (map_err map_composer_error (fst (f (win_composer win))),
     se\<lparr>se_windows := (se_windows se)\<lparr>tw_windows :=
       fmupd d (win\<lparr>win_composer := snd (f (win_composer win))\<rparr>) (tw_windows (se_windows se))\<rparr>\<rparr>)"
  by (simp add: se_on_display_def tw_on_display_def split: prod.split)

lemma se_inv_on_display:
  "(\<And>c. composer_steps (\<lambda>call. \<not> creates_layer call) c (snd (f c))) \<Longrightarrow> se_inv se \<Longrightarrow>
   se_inv (snd (se_on_display d f se))"
  unfolding snd_se_on_display by (rule se_inv_act [OF windows_act_on_display])

lemma se_inv_execute: "se_inv se \<Longrightarrow> se_inv (snd (execute_commands commands se))"
proof -
  assume inv: "se_inv se"
  obtain se1 rs1 where ex: "execute_from 0 commands (se, []) = (se1, rs1)" by fastforce
  then have "windows_act batch_call (dc_display ` set commands) (se_windows se) (se_windows se1)"
    "se_next_layer se1 = se_next_layer se"
    using execute_from_act [of commands se 0 "[]"] by simp_all
  with inv have "se_inv se1"
    by (auto simp: se_inv_def intro: tw_inv_act layers_below_act dest: batch_call_no_layer)
  with inv ex show ?thesis by (simp add: execute_commands_def)
qed

text \<open>A new layer gets an identity above all others.\<close>

lemma next_layer_fresh:
  "layers_below n w \<Longrightarrow> checked_add n 1 = Some next \<Longrightarrow> fmlookup (tw_windows w) d = Some win \<Longrightarrow>
   next |\<notin>| fmdom (co_layers (win_composer win)) \<and> n < next"
  unfolding layers_below_def checked_add_Some_iff word_less_nat_alt word_le_nat_alt by fastforce

lemma layers_below_mono: "layers_below n w \<Longrightarrow> n \<le> n' \<Longrightarrow> layers_below n' w"
  unfolding layers_below_def by (meson order.trans)

lemma layers_below_window:
  "layers_below n w \<Longrightarrow> (\<And>k. k |\<in>| fmdom (co_layers (win_composer win)) \<Longrightarrow> k \<le> n) \<Longrightarrow>
   layers_below n (w\<lparr>tw_windows := fmupd d win (tw_windows w)\<rparr>)"
  by (auto simp: layers_below_def)

lemma se_create_layer_cases:
  assumes "se_inv se" and "se_create_layer d slots se = (r, se')"
  obtains (error) e where "r = Inl e" "se' = se"
      "slots = 0 \<or> 4096 < slots \<or> se_next_layer se = - 1 \<or> fmlookup (tw_windows (se_windows se)) d = None"
  | (created) n win where "r = Inr n" "checked_add (se_next_layer se) 1 = Some n"
      "slots \<noteq> 0" "slots \<le> 4096" "fmlookup (tw_windows (se_windows se)) d = Some win"
      "se' = \<lparr>se_windows = (se_windows se)\<lparr>tw_windows := fmupd d (win\<lparr>win_composer :=
          co_step (win_composer win) (CoCreateLayer d \<lparr>ly_id = n,
            ly_requested_composition = ClientComposition, ly_z = 0, ly_protected_content = False\<rparr>)\<rparr>)
          (tw_windows (se_windows se))\<rparr>, se_next_layer = n\<rparr>"
      "fmdom (co_layers (win_composer win)) |\<subseteq>| fmdom (co_layers (co_step (win_composer win)
        (CoCreateLayer d \<lparr>ly_id = n,
          ly_requested_composition = ClientComposition, ly_z = 0, ly_protected_content = False\<rparr>)))"
proof (cases "slots = 0 \<or> 4096 < slots")
  case True
  then show ?thesis
    using assms(2) that(1) by (auto simp: se_create_layer_def MAX_BUFFER_SLOTS_def)
next
  case slots: False
  show ?thesis
  proof (cases "checked_add (se_next_layer se) 1")
    case None
    then have "se_next_layer se = - 1"
      using unsigned_less [where 'a = nat, of "se_next_layer se"]
      by (simp add: checked_add_None_iff word_unat_eq_iff unsigned_minus_1_eq_mask mask_eq_exp_minus_1)
    with None slots show ?thesis
      using assms(2) that(1) by (auto simp: se_create_layer_def MAX_BUFFER_SLOTS_def)
  next
    case (Some n)
    show ?thesis
    proof (cases "fmlookup (tw_windows (se_windows se)) d")
      case None
      with Some slots show ?thesis
        using assms(2) that(1) by (auto simp: se_create_layer_def MAX_BUFFER_SLOTS_def se_on_display_def
            tw_on_display_def op_bind_def)
    next
      case win: (Some win)
      have "co_display (win_composer win) = d"
        using assms(1) win by (auto simp: se_inv_def window_ok_def dest: tw_inv_windowD)
      moreover have "n |\<notin>| fmdom (co_layers (win_composer win))"
        using assms(1) next_layer_fresh [OF _ Some win] by (simp add: se_inv_def)
      moreover define layer where "layer = \<lparr>ly_id = n, ly_requested_composition = ClientComposition,
        ly_z = 0, ly_protected_content = False\<rparr>"
      ultimately have co: "co_create_layer d layer (win_composer win) =
          (Inr (), co_invalidate ((win_composer win)\<lparr>co_layers :=
             fmupd n layer (co_layers (win_composer win))\<rparr>))"
        by (simp add: co_create_layer_def require_display_bind)
      have "se_create_layer d slots se = (Inr n, \<lparr>se_windows = (se_windows se)\<lparr>tw_windows :=
          fmupd d (win\<lparr>win_composer := co_step (win_composer win) (CoCreateLayer d layer)\<rparr>)
          (tw_windows (se_windows se))\<rparr>, se_next_layer = n\<rparr>)"
        using Some slots by (simp add: se_create_layer_def MAX_BUFFER_SLOTS_def
            se_on_display_known [OF win] co flip: layer_def)
      moreover have "fmdom (co_layers (win_composer win)) |\<subseteq>|
          fmdom (co_layers (co_step (win_composer win) (CoCreateLayer d layer)))"
        by (auto simp: co co_invalidate_def)
      ultimately show ?thesis
        using assms(2) Some win slots that(2) [of n win] by (simp add: layer_def not_less)
    qed
  qed
qed


lemma layers_below_reserve: "layers_below n w \<Longrightarrow> layers_below n (snd (tw_reserve r w))"
proof (cases "tw_reserve r w")
  case (Pair x w')
  assume below: "layers_below n w"
  from Pair show ?thesis
    by (cases rule: tw_reserve_cases)
      (use below Pair in \<open>auto simp: co_new_def intro!: layers_below_window\<close>)
qed

lemma layers_below_bind: "layers_below n w \<Longrightarrow> layers_below n (snd (tw_bind_task d t w))"
  by (auto simp: layers_below_def tw_bind_task_def Let_def split: option.splits)

lemma layers_below_create: "layers_below n w \<Longrightarrow> layers_below n (snd (tw_create spec w))"
proof (cases "tw_create spec w")
  case (Pair x w')
  assume below: "layers_below n w"
  from Pair show ?thesis
    by (cases rule: tw_create_cases)
      (use below Pair in \<open>auto intro: layers_below_reserve layers_below_bind\<close>)
qed

lemma layers_below_host:
  assumes "layers_below n w" and "session_call_ok (SeHost call)"
  shows "layers_below n (tw_step w call)"
proof (cases call)
  case (TwCreate spec)
  then show ?thesis using assms(1) by (simp add: layers_below_create)
next
  case (TwReserve r)
  then show ?thesis using assms(1) by (simp add: layers_below_reserve)
next
  case (TwBind d t)
  then show ?thesis using assms(1) by (simp add: layers_below_bind)
next
  case (TwRemove t)
  then show ?thesis
    using assms(1) by (auto simp: layers_below_def tw_remove_def tw_remove_display_def op_bind_def
        op_lift_def Let_def split: option.splits if_splits)
next
  case (TwRemoveDisplay d)
  then show ?thesis
    using assms(1) by (auto simp: layers_below_def tw_remove_display_def Let_def
        split: option.splits if_splits)
next
  case (TwComposer d c)
  have "windows_act (\<lambda>call. \<not> creates_layer call) {d} w
      (snd (tw_on_display d (\<lambda>k. ((), co_step k c)) w))"
    using assms(2) TwComposer by (intro windows_act_on_display) (simp add: composer_steps_step)
  then show ?thesis
    using assms(1) by (simp add: TwComposer layers_below_act)
qed

lemma se_inv_create_layer: "se_inv se \<Longrightarrow> se_inv (snd (se_create_layer d slots se))"
proof (cases "se_create_layer d slots se")
  case (Pair r se')
  assume inv: "se_inv se"
  from inv Pair show ?thesis
  proof (cases rule: se_create_layer_cases)
    case (created n win)
    let ?call = "CoCreateLayer d \<lparr>ly_id = n, ly_requested_composition = ClientComposition, ly_z = 0,
      ly_protected_content = False\<rparr>"
    have "tw_inv (tw_step (se_windows se) (TwComposer d ?call))"
      using inv by (auto simp: se_inv_def intro: tw_inv_step simp del: tw_step.simps)
    then have "tw_inv (se_windows se')"
      using created by (simp add: tw_on_display_def)
    moreover have "layers_below n (se_windows se')"
    proof -
      have less: "se_next_layer se < n"
        using next_layer_fresh [OF _ created(2,5)] inv by (simp add: se_inv_def)
      then have "layers_below n (se_windows se)"
        using inv layers_below_mono by (auto simp: se_inv_def)
      moreover have "k \<le> n" if "k |\<in>| fmdom (co_layers (co_step (win_composer win) ?call))" for k
        using that calculation created(5)
        by (auto simp: co_create_layer_def require_display_bind co_invalidate_def layers_below_def
            split: if_splits)
      ultimately show ?thesis
        using created(6) by (auto intro!: layers_below_window)
    qed
    ultimately show ?thesis
      using created(6) Pair by (simp add: se_inv_def)
  qed (use inv Pair in simp)
qed

lemma se_inv_default: "se_inv se_default"
  using tw_inv_empty by (simp add: se_inv_def se_default_def layers_below_def tw_empty_def)

lemma se_inv_step: "se_inv se \<Longrightarrow> session_call_ok call \<Longrightarrow> se_inv (se_step se call)"
proof (cases call)
  case (SeCreateWindow spec)
  assume "se_inv se"
  then show ?thesis
    using tw_inv_step [of "se_windows se" "TwCreate spec"]
      layers_below_host [of _ "se_windows se" "TwCreate spec"]
    by (simp add: SeCreateWindow se_inv_def se_create_task_window_def op_on_apply)
next
  case (SeHost wc)
  assume "se_inv se" "session_call_ok call"
  then show ?thesis
    using tw_inv_step [of "se_windows se" wc] layers_below_host [of _ "se_windows se" wc]
    by (simp add: SeHost se_inv_def)
qed (auto simp: se_inv_create_layer se_inv_execute se_destroy_layer_def se_set_power_mode_def
      se_set_vsync_enabled_def se_release_presented_target_def intro!: se_inv_on_display)

lemma se_inv_run:
  "se_inv se \<Longrightarrow> \<forall>call \<in> set calls. session_call_ok call \<Longrightarrow> se_inv (run_ops se_step se calls)"
  by (induction calls arbitrary: se) (auto intro: se_inv_step)


subsection \<open>Layer identities\<close>

text \<open>The layer identities an operation hands out, and the session as a source of them.\<close>

fun layer_ids :: "session \<Rightarrow> session_call \<Rightarrow> layer_id list" where
  "layer_ids se (SeCreateLayer d slots) =
     (case fst (se_create_layer d slots se) of Inl e \<Rightarrow> [] | Inr n \<Rightarrow> [n])"
| "layer_ids se _ = []"

lemma next_layer_on_display [simp]: "se_next_layer (snd (se_on_display d f se)) = se_next_layer se"
  by (simp add: snd_se_on_display)

lemma next_layer_execute [simp]: "se_next_layer (snd (execute_commands commands se)) = se_next_layer se"
  using execute_from_act [of commands se 0 "[]"]
  by (auto simp: execute_commands_def split: prod.split)

lemma create_layer_next:
  "case fst (se_create_layer d slots se) of
     Inl e \<Rightarrow> se_next_layer (snd (se_create_layer d slots se)) = se_next_layer se
   | Inr n \<Rightarrow> se_next_layer se < n \<and> se_next_layer (snd (se_create_layer d slots se)) = n"
proof (cases "checked_add (se_next_layer se) 1")
  case None
  then show ?thesis by (simp add: se_create_layer_def)
next
  case (Some n)
  then have less: "se_next_layer se < n"
    by (auto simp only: checked_add_Some_iff word_less_nat_alt unsigned_1)
  define layer where "layer = \<lparr>ly_id = n, ly_requested_composition = ClientComposition, ly_z = 0,
    ly_protected_content = False\<rparr>"
  obtain r se1 where op: "se_on_display d (co_create_layer d layer) se = (r, se1)" by fastforce
  then have "se_next_layer se1 = se_next_layer se"
    using next_layer_on_display [of d "co_create_layer d layer" se] by simp
  with less Some op show ?thesis
    by (cases r) (simp_all add: se_create_layer_def flip: layer_def)
qed

lemma layer_source_step:
  "sorted_wrt (<) (se_next_layer se # layer_ids se call) \<and>
   last (se_next_layer se # layer_ids se call) \<le> se_next_layer (se_step se call)"
proof (cases call)
  case (SeCreateLayer d slots)
  then show ?thesis
    using create_layer_next [of d slots se] by (auto split: sum.splits)
qed (simp_all add: se_create_task_window_def op_on_apply se_destroy_layer_def se_set_power_mode_def
      se_set_vsync_enabled_def se_release_presented_target_def)

interpretation layer_source: point_source se_next_layer se_step layer_ids
  by unfold_locales (use layer_source_step in blast)+

subsection \<open>Properties\<close>

text \<open>
  C32. A batch is a composition of Composer operations: whatever a client puts into it, executing it
  creates and removes no window, no task binding and no layer identity; each display's window keeps
  its reservation and its task, its Composer is the result of a sequence of layer updates, validations,
  acceptances, client targets and direct presents (so no frame is submitted or released), and for a
  display that no command names that sequence is empty.
\<close>

theorem batch_refines_composer:
  "let se' = snd (execute_commands commands se) in
     tw_tasks (se_windows se') = tw_tasks (se_windows se) \<and> se_next_layer se' = se_next_layer se \<and>
     fmdom (tw_windows (se_windows se')) = fmdom (tw_windows (se_windows se)) \<and>
     (\<forall>d. case fmlookup (tw_windows (se_windows se)) d of
        None \<Rightarrow> fmlookup (tw_windows (se_windows se')) d = None
      | Some win \<Rightarrow> \<exists>calls. list_all batch_call calls \<and>
          (calls = [] \<or> d \<in> dc_display ` set commands) \<and>
          fmlookup (tw_windows (se_windows se')) d =
            Some (win\<lparr>win_composer := run_ops co_step (win_composer win) calls\<rparr>))"
proof -
  let ?se' = "snd (execute_commands commands se)"
  have act: "windows_act batch_call (dc_display ` set commands) (se_windows se) (se_windows ?se')"
    using execute_from_act [of commands se 0 "[]"]
    by (auto simp: execute_commands_def split: prod.split)
  have "case fmlookup (tw_windows (se_windows se)) d of
        None \<Rightarrow> fmlookup (tw_windows (se_windows ?se')) d = None
      | Some win \<Rightarrow> \<exists>calls. list_all batch_call calls \<and>
          (calls = [] \<or> d \<in> dc_display ` set commands) \<and>
          fmlookup (tw_windows (se_windows ?se')) d =
            Some (win\<lparr>win_composer := run_ops co_step (win_composer win) calls\<rparr>)" for d
  proof -
    have rel: "rel_option (window_act batch_call (dc_display ` set commands) d)
        (fmlookup (tw_windows (se_windows se)) d) (fmlookup (tw_windows (se_windows ?se')) d)"
      using act unfolding windows_act_def by blast
    show ?thesis
    proof (cases "fmlookup (tw_windows (se_windows se)) d")
      case (Some win)
      with rel obtain win' where lk: "fmlookup (tw_windows (se_windows ?se')) d = Some win'"
        and wa: "window_act batch_call (dc_display ` set commands) d win win'"
        by (auto simp: option_rel_Some1)
      from wa obtain calls where calls: "list_all batch_call calls"
        "win' = win\<lparr>win_composer := run_ops co_step (win_composer win) calls\<rparr>"
        unfolding window_act_def composer_steps_def by blast
      show ?thesis
      proof (cases "d \<in> dc_display ` set commands")
        case True
        with Some lk calls show ?thesis by auto
      next
        case False
        with wa have "win' = win" by (simp add: window_act_def)
        with Some lk show ?thesis by (auto intro!: exI [of _ "[]"])
      qed
    qed (use rel in simp)
  qed
  moreover have "tw_tasks (se_windows ?se') = tw_tasks (se_windows se)"
    using act by (simp add: windows_act_def)
  ultimately show ?thesis
    using windows_act_dom [OF act] unfolding Let_def next_layer_execute by blast
qed

text \<open>
  Layer identities are never reused: over any sequence of operations of a session (batches,
  destroyed layers and removed windows included) the identities that \<open>create_layer\<close> hands out are
  strictly increasing, and in a session that started empty a request for a layer fails only when its
  slot count is out of range, its display unknown or the 64-bit counter exhausted; in that case it
  changes nothing.
\<close>

theorem layer_ids_never_reused:
  assumes "list_all session_call_ok calls"
  shows "sorted_wrt (<) (trace_ops se_step layer_ids se_default calls) \<and>
    (let se = run_ops se_step se_default calls in
      is_ok (fst (se_create_layer d slots se)) =
        (slots \<noteq> 0 \<and> slots \<le> 4096 \<and> se_next_layer se \<noteq> - 1 \<and>
          d |\<in>| fmdom (tw_windows (se_windows se))) \<and>
      (is_ok (fst (se_create_layer d slots se)) \<or> snd (se_create_layer d slots se) = se))"
proof -
  define se where "se = run_ops se_step se_default calls"
  have inv: "se_inv se"
    using assms se_inv_run [OF se_inv_default, of calls] by (simp add: se_def list_all_iff)
  obtain r se' where c: "se_create_layer d slots se = (r, se')" by fastforce
  from inv c have "is_ok r = (slots \<noteq> 0 \<and> slots \<le> 4096 \<and> se_next_layer se \<noteq> - 1 \<and>
      d |\<in>| fmdom (tw_windows (se_windows se))) \<and> (is_ok r \<or> se' = se)"
  proof (cases rule: se_create_layer_cases)
    case (created n win)
    then have "se_next_layer se \<noteq> - 1" by (auto simp: checked_add_Some_iff)
    with created show ?thesis by (auto intro: fmdomI)
  qed (auto simp: fmlookup_None_iff)
  with c show ?thesis
    using layer_source.points_sorted [of se_default calls]
    unfolding Let_def se_def [symmetric] by auto
qed

end
