(* ===== verification/Composer_Bridge.thy ===== *)
theory Composer_Bridge
  imports Composer_Session
begin

section \<open>The bridge between a Composer display and its host task\<close>

text \<open>
  \<open>graphics/droidloom-composer/src/denial.rs\<close>: \<open>DenialTaskBinding\<close> ties the Composer display of one
  Android task to one task object of the host protocol.  It builds the messages of the Android side,
  allocates the timeline points of each frame, remembers which release it waits for, and applies the
  host's events to the Composer; \<open>RenderTargetDemand\<close> keeps requests for render targets to one per
  configure.  Proved: points are consumed in order and never again, a release retires its frame exactly
  once on both records and every other event leaves the frames alone (\<open>apply_event_cases\<close>), and there
  is at most one request for render targets per configure.
\<close>

subsection \<open>Requests for render targets\<close>

record render_target_demand =
  dm_serial :: "u32 option"
  dm_requested :: "u32 option"

definition dm_default :: render_target_demand where
  "dm_default = \<lparr>dm_serial = None, dm_requested = None\<rparr>"

definition dm_configure :: "u32 \<Rightarrow> render_target_demand \<Rightarrow> render_target_demand" where
  "dm_configure serial d =
     (if dm_serial d \<noteq> Some serial then d\<lparr>dm_serial := Some serial, dm_requested := None\<rparr> else d)"

definition dm_request :: "render_target_demand \<Rightarrow> bool \<Rightarrow> bool \<Rightarrow> u32 option" where
  "dm_request d enabled has_pool =
     (case dm_serial d of
        None \<Rightarrow> None
      | Some serial \<Rightarrow>
          if enabled \<and> \<not> has_pool \<and> dm_requested d \<noteq> Some serial then Some serial else None)"

definition dm_sent :: "u32 \<Rightarrow> render_target_demand \<Rightarrow> render_target_demand" where
  "dm_sent serial d = (if dm_serial d = Some serial then d\<lparr>dm_requested := Some serial\<rparr> else d)"

subsection \<open>The binding\<close>

record denial_task_binding =
  bd_object :: task_object_id
  bd_task :: "task_id option"
  bd_display :: display_id
  bd_package :: rust_string
  bd_acknowledged_configure :: "u32 option"
  bd_next_timeline_point :: u64
  bd_pending_release_points :: "(frame_id, u64) fmap"
  bd_destroy_requested :: bool

record prepared_present =
  pp_message :: android_message
  pp_acquire_point :: u64
  pp_release_point :: u64

datatype applied_denial_event =
    AppliedFormatFeedback u32
  | AppliedConfigure u32 u32 u32 u32 u32 transform u32
  | AppliedInsets u32 u32 u32 u32
  | AppliedVisibility visibility bool
  | AppliedClose
  | AppliedBufferReleased released_frame
  | AppliedPresented "vsync_sample option"
  | AppliedInput u64 u64 input_event

datatype denial_bridge_error =
    BridgeWrongObject task_object_id task_object_id
  | UnexpectedMessage
  | BridgeReleaseMismatch
  | TimelineExhausted
  | BridgeTask task_window_error
  | BridgeComposer composer_error

type_synonym 'a binding_op = "(denial_bridge_error, denial_task_binding, 'a) op"
type_synonym 'a bridge_op = "(denial_bridge_error, denial_task_binding \<times> session, 'a) op"

definition bd_new ::
  "task_object_id \<Rightarrow> reserved_task_window_spec \<Rightarrow> (denial_bridge_error, denial_task_binding) result" where
  "bd_new object reservation =
     (if object = 0 then Inl UnexpectedMessage
      else Inr \<lparr>bd_object = object, bd_task = None, bd_display = rs_display reservation,
        bd_package = rs_package reservation, bd_acknowledged_configure = None,
        bd_next_timeline_point = 0, bd_pending_release_points = fmempty,
        bd_destroy_requested = False\<rparr>)"

definition bd_request_destroy ::
  "(android_message \<Rightarrow> ('e, unit) result) \<Rightarrow> ('e, denial_task_binding, unit) op" where
  "bd_request_destroy send = (\<lambda>b.
     if \<not> bd_destroy_requested b
     then case send (DestroyTask (bd_object b)) of
            Inl e \<Rightarrow> (Inl e, b)
          | Inr _ \<Rightarrow> (Inr (), b\<lparr>bd_destroy_requested := True\<rparr>)
     else (Inr (), b))"

definition bd_create_task_message :: "denial_task_binding \<Rightarrow> android_message" where
  "bd_create_task_message b = CreateTask (bd_object b) (bd_display b) (bd_package b)"

definition bd_bind_task_message ::
  "denial_task_binding \<Rightarrow> task_id \<Rightarrow> (denial_bridge_error, android_message) result" where
  "bd_bind_task_message b task =
     (if task = 0 \<or> bd_task b \<noteq> None then Inl UnexpectedMessage
      else Inr (BindTask (bd_object b) task))"

definition bd_mark_task_bound :: "task_id \<Rightarrow> unit binding_op" where
  "bd_mark_task_bound task = (\<lambda>b.
     if task = 0 \<or> bd_task b \<noteq> None then (Inl UnexpectedMessage, b)
     else (Inr (), b\<lparr>bd_task := Some task\<rparr>))"

definition bd_bind_timelines_message :: "denial_task_binding \<Rightarrow> android_message" where
  "bd_bind_timelines_message b = BindTimelines (bd_object b)"

definition bd_register_buffer_message :: "denial_task_binding \<Rightarrow> accepted_frame \<Rightarrow> android_message" where
  "bd_register_buffer_message b frame = RegisterBuffer (bd_object b) (af_buffer frame)"

text \<open>\<open>session.windows_mut().composer_for_display_mut(self.display)?.f(..)?\<close>\<close>

definition bridge_composer :: "'a composer_op \<Rightarrow> 'a bridge_op" where
  "bridge_composer f = (\<lambda>(b, se).
     case tw_on_display (bd_display b) f (se_windows se) of
       (Inl e, w) \<Rightarrow> (Inl (BridgeTask e), (b, se\<lparr>se_windows := w\<rparr>))
     | (Inr r, w) \<Rightarrow> (map_err BridgeComposer r, (b, se\<lparr>se_windows := w\<rparr>)))"

definition bd_acknowledge_configure :: "u32 \<Rightarrow> android_message bridge_op" where
  "bd_acknowledge_configure serial =
     op_bind (bridge_composer (co_acknowledge_configure serial)) (\<lambda>_ (b, se).
       (Inr (AckConfigure (bd_object b) serial), (b\<lparr>bd_acknowledged_configure := Some serial\<rparr>, se)))"

definition bd_prepare_present :: "display_id \<Rightarrow> accepted_frame \<Rightarrow> prepared_present binding_op" where
  "bd_prepare_present display frame = (\<lambda>b.
     if bd_destroy_requested b \<or> display \<noteq> bd_display b then (Inl UnexpectedMessage, b)
     else case bd_acknowledged_configure b of
       None \<Rightarrow> (Inl UnexpectedMessage, b)
     | Some configure_serial \<Rightarrow>
     case checked_add (bd_next_timeline_point b) 1 of
       None \<Rightarrow> (Inl TimelineExhausted, b)
     | Some point \<Rightarrow>
         if af_frame_id frame |\<in>| fmdom (bd_pending_release_points b) then (Inl UnexpectedMessage, b)
         else (Inr \<lparr>pp_message = Present (bd_object b) (af_frame_id frame) (buf_id (af_buffer frame))
                   configure_serial point point (af_damage frame),
                 pp_acquire_point = point, pp_release_point = point\<rparr>,
               b\<lparr>bd_next_timeline_point := point, bd_pending_release_points :=
                   fmupd (af_frame_id frame) point (bd_pending_release_points b)\<rparr>))"

definition bd_cancel_unsubmitted_present :: "frame_id \<Rightarrow> u64 \<Rightarrow> unit binding_op" where
  "bd_cancel_unsubmitted_present frame release_point = (\<lambda>b.
     if fmlookup (bd_pending_release_points b) frame \<noteq> Some release_point
     then (Inl BridgeReleaseMismatch, b)
     else (Inr (), b\<lparr>bd_pending_release_points := fmdrop frame (bd_pending_release_points b)\<rparr>))"

fun message_object :: "denial_message \<Rightarrow> task_object_id option" where
  "message_object (FormatFeedback object _ _) = Some object"
| "message_object (RegisterRenderTarget object _ _) = Some object"
| "message_object (UnregisterRenderTarget object _) = Some object"
| "message_object (Configure object _ _ _ _ _ _ _) = Some object"
| "message_object (Insets object _ _ _ _) = Some object"
| "message_object (Visibility object _ _) = Some object"
| "message_object (Close object) = Some object"
| "message_object (BufferReleased object _ _ _) = Some object"
| "message_object (Presented object _ _ _ _ _) = Some object"
| "message_object (ScenePresented object _ _ _ _) = Some object"
| "message_object (Input object _ _ _) = Some object"
| "message_object (ErrorMessage object _ _ _) = object"
| "message_object (ServerHello _ _ _ _ _ _) = None"
| "message_object (RequestInputChannel _) = None"
| "message_object (DisplayPower _) = None"
| "message_object (Ping _) = None"
| "message_object (FrameGrant _ _ _) = None"

text \<open>The release arm: both records have to name the frame, with its point and its buffer.\<close>

definition apply_release :: "frame_id \<Rightarrow> buffer_id \<Rightarrow> u64 \<Rightarrow> applied_denial_event bridge_op" where
  "apply_release frame buffer release_point = (\<lambda>(b, se).
     if fmlookup (bd_pending_release_points b) frame \<noteq> Some release_point
     then (Inl BridgeReleaseMismatch, (b, se))
     else case tw_composer_for_display (se_windows se) (bd_display b) of
       Inl e \<Rightarrow> (Inl (BridgeTask e), (b, se))
     | Inr composer \<Rightarrow>
         if co_in_flight_buffer composer frame \<noteq> Some buffer then (Inl BridgeReleaseMismatch, (b, se))
         else op_bind (bridge_composer (co_release_presented_target frame True)) (\<lambda>released (b, se).
           (Inr (AppliedBufferReleased released),
            (b\<lparr>bd_pending_release_points := fmdrop frame (bd_pending_release_points b)\<rparr>, se))) (b, se))"

fun apply_message :: "denial_message \<Rightarrow> applied_denial_event bridge_op" where
  "apply_message (FormatFeedback _ generation formats) =
     op_bind (bridge_composer (\<lambda>c. (Inr (), co_replace_feedback c formats))) (\<lambda>_.
     op_return (AppliedFormatFeedback generation))"
| "apply_message (Configure _ serial width height scale_numerator scale_denominator transform refresh) =
     op_bind (bridge_composer (\<lambda>c. (Inr (), co_configure c \<lparr>cfg_serial = serial, cfg_width = width,
       cfg_height = height, cfg_refresh_millihz = refresh\<rparr>))) (\<lambda>_ (b, se).
     (Inr (AppliedConfigure serial width height scale_numerator scale_denominator transform refresh),
      (b\<lparr>bd_acknowledged_configure := None\<rparr>, se)))"
| "apply_message (Insets _ l t r bo) = op_return (AppliedInsets l t r bo)"
| "apply_message (Visibility _ visibility focused) = op_return (AppliedVisibility visibility focused)"
| "apply_message (Close _) = op_return AppliedClose"
| "apply_message (BufferReleased _ frame buffer release_point) = apply_release frame buffer release_point"
| "apply_message (Presented _ _ timestamp_nanos _ _ _) =
     op_bind (bridge_composer (co_presentation_sample timestamp_nanos)) (\<lambda>sample.
     op_return (AppliedPresented sample))"
| "apply_message (ScenePresented _ _ timestamp_nanos _ _) =
     op_bind (bridge_composer (co_presentation_sample timestamp_nanos)) (\<lambda>sample.
     op_return (AppliedPresented sample))"
| "apply_message (Input _ serial timestamp_nanos event) =
     op_return (AppliedInput serial timestamp_nanos event)"
| "apply_message _ = op_lift (Inl UnexpectedMessage)"

definition bd_apply_event :: "denial_message \<Rightarrow> applied_denial_event bridge_op" where
  "bd_apply_event message = (\<lambda>(b, se).
     case message_object message of
       None \<Rightarrow> (Inl UnexpectedMessage, (b, se))
     | Some object \<Rightarrow>
         if object \<noteq> bd_object b then (Inl (BridgeWrongObject (bd_object b) object), (b, se))
         else apply_message message (b, se))"

subsection \<open>The frames of a session\<close>

text \<open>The ledger of one display, empty when it has no window, and the calls that touch it.\<close>

definition display_frames :: "task_window_set \<Rightarrow> display_id \<Rightarrow> (frame_id, buffer_id) fmap" where
  "display_frames w d =
     (case fmlookup (tw_windows w) d of None \<Rightarrow> fmempty | Some win \<Rightarrow> co_ledger (win_composer win))"

fun frame_call :: "composer_call \<Rightarrow> bool" where
  "frame_call (CoPresent d) = True"
| "frame_call (CoSubmit d t) = True"
| "frame_call (CoRelease f b) = True"
| "frame_call (CoCancel f) = True"
| "frame_call _ = False"

lemma co_ledger_step: "\<not> frame_call call \<Longrightarrow> co_ledger (co_step c call) = co_ledger c"
  unfolding co_ledger_def co_step_transport
  by (cases call)
    (auto simp: ps_replace_feedback_def ps_configure_def ps_acknowledge_def split: option.split)

lemma composer_steps_ledger:
  assumes "composer_steps P c c'" and "\<And>call. P call \<Longrightarrow> \<not> frame_call call"
  shows "co_ledger c' = co_ledger c"
proof -
  obtain calls where calls: "list_all P calls" "c' = run_ops co_step c calls"
    using assms(1) unfolding composer_steps_def by blast
  show ?thesis
    using calls(1) assms(2) unfolding calls(2)
    by (induction calls arbitrary: c) (auto simp: co_ledger_step)
qed

lemma display_frames_act:
  assumes "windows_act P D w w'" and "\<And>call. P call \<Longrightarrow> \<not> frame_call call"
  shows "display_frames w' d = display_frames w d"
proof -
  have rel: "rel_option (window_act P D d) (fmlookup (tw_windows w) d) (fmlookup (tw_windows w') d)"
    using assms(1) by (simp add: windows_act_def)
  then show ?thesis
    using composer_steps_ledger [OF _ assms(2)]
    by (cases "fmlookup (tw_windows w) d")
      (auto simp: display_frames_def option_rel_Some1 window_act_def)
qed

lemma display_frames_on_display:
  "display_frames (snd (tw_on_display d f w)) d' =
     (if d' = d \<and> d |\<in>| fmdom (tw_windows w)
      then co_ledger (snd (f (win_composer (the (fmlookup (tw_windows w) d))))) else display_frames w d')"
  by (auto simp: tw_on_display_def display_frames_def fmlookup_dom_iff split: option.split prod.split)

text \<open>Session operations other than a release keep every ledger; a removed window had none.\<close>

fun session_frame_call :: "session_call \<Rightarrow> bool" where
  "session_frame_call (SeRelease d f b) = True"
| "session_frame_call (SeHost (TwComposer d call)) = frame_call call"
| "session_frame_call _ = False"

lemma display_frames_reserve: "display_frames (snd (tw_reserve r w)) d = display_frames w d"
proof (cases "tw_reserve r w")
  case (Pair x w')
  from Pair show ?thesis
    by (cases rule: tw_reserve_cases)
      (use Pair in \<open>auto simp: display_frames_def co_ledger_def co_new_def ps_default_def\<close>)
qed

lemma display_frames_bind_task: "display_frames (snd (tw_bind_task d1 t w)) d = display_frames w d"
  by (auto simp: display_frames_def tw_bind_task_def Let_def split: option.split)

lemma display_frames_create: "display_frames (snd (tw_create s w)) d = display_frames w d"
proof (cases "tw_create s w")
  case (Pair x w')
  from Pair show ?thesis
    by (cases rule: tw_create_cases)
      (use Pair in \<open>auto simp: display_frames_reserve display_frames_bind_task\<close>)
qed

lemma display_frames_remove_display:
  "display_frames (snd (tw_remove_display d1 w)) d = display_frames w d"
proof (cases "tw_remove_display d1 w")
  case (Pair x w')
  from Pair show ?thesis
    by (cases rule: tw_remove_display_cases)
      (use Pair in \<open>auto simp: display_frames_def co_ledger_def\<close>)
qed

lemma display_frames_remove: "display_frames (snd (tw_remove t w)) d = display_frames w d"
  using display_frames_remove_display [of _ w d]
  by (auto simp: tw_remove_def snd_op_bind op_lift_def Let_def
      split: option.split sum.split prod.split) (metis snd_conv)+

lemmas display_frames_windows = display_frames_reserve display_frames_bind_task display_frames_create
  display_frames_remove_display display_frames_remove

lemma se_create_layer_windows:
  "se_windows (snd (se_create_layer d slots se)) = se_windows se \<or>
   (\<exists>l. se_windows (snd (se_create_layer d slots se)) =
      snd (tw_on_display d (co_create_layer d l) (se_windows se)))"
proof (cases "checked_add (se_next_layer se) 1")
  case (Some n)
  define l where "l = \<lparr>ly_id = n, ly_requested_composition = ClientComposition, ly_z = 0,
    ly_protected_content = False\<rparr>"
  obtain r se1 where op: "se_on_display d (co_create_layer d l) se = (r, se1)" by fastforce
  then have "se_windows se1 = snd (tw_on_display d (co_create_layer d l) (se_windows se))"
    using snd_se_on_display [of d "co_create_layer d l" se] by simp
  with Some op show ?thesis
    by (cases r) (auto simp: se_create_layer_def simp flip: l_def)
qed (simp add: se_create_layer_def)

lemma display_frames_session:
  assumes "\<not> session_frame_call call"
  shows "display_frames (se_windows (se_step se call)) d = display_frames (se_windows se) d"
proof -
  have quiet: "display_frames (snd (tw_on_display d1 f w)) d = display_frames w d"
    if "\<And>c. composer_steps (\<lambda>call. \<not> frame_call call) c (snd (f c))" for d1 w
      and f :: "composer \<Rightarrow> 'a \<times> composer"
    by (rule display_frames_act [OF windows_act_on_display [OF that]]) simp
  show ?thesis
  proof (cases call)
    case (SeCreateLayer d1 slots)
    have "display_frames (se_windows (snd (se_create_layer d1 slots se))) d = display_frames (se_windows se) d"
      using se_create_layer_windows [of d1 slots se] composer_steps_step [of _ "CoCreateLayer d1 l" for l]
      by (auto intro!: quiet)
    with SeCreateLayer show ?thesis by simp
  next
    case (SeExecute commands)
    have "windows_act batch_call (dc_display ` set commands) (se_windows se)
        (se_windows (snd (execute_commands commands se)))"
      using execute_from_act [of commands se 0 "[]"]
      by (auto simp: execute_commands_def split: prod.split)
    then have "display_frames (se_windows (snd (execute_commands commands se))) d
        = display_frames (se_windows se) d"
      by (rule display_frames_act) (auto elim: batch_call.elims)
    with SeExecute show ?thesis by simp
  next
    case (SeHost wc)
    with assms show ?thesis
      by (cases wc) (auto simp: display_frames_windows co_ledger_step intro!: quiet composer_steps_step)
  qed (use assms in \<open>auto simp: se_create_task_window_def op_on_apply display_frames_windows
      se_destroy_layer_def se_set_power_mode_def se_set_vsync_enabled_def snd_se_on_display
      intro!: quiet\<close>)
qed

subsection \<open>Events and frames\<close>

lemma bridge_composer_eq:
  "bridge_composer f (b, se) =
     (case fmlookup (tw_windows (se_windows se)) (bd_display b) of
        None \<Rightarrow> (Inl (BridgeTask (UnknownDisplay (bd_display b))), (b, se))
      | Some win \<Rightarrow> (map_err BridgeComposer (fst (f (win_composer win))),
          (b, se\<lparr>se_windows := snd (tw_on_display (bd_display b) f (se_windows se))\<rparr>)))"
  by (auto simp: bridge_composer_def tw_on_display_def split: option.split prod.split)

lemma display_frames_bridge:
  assumes "\<And>c. composer_steps (\<lambda>call. \<not> frame_call call) c (snd (f c))"
  shows "display_frames (se_windows (snd (snd (bridge_composer f (b, se))))) d = display_frames (se_windows se) d"
    and "fst (snd (bridge_composer f (b, se))) = b"
  using display_frames_act [OF windows_act_on_display [OF assms, of "bd_display b" "se_windows se"], of d]
  by (auto simp: bridge_composer_eq split: option.split)

lemma composer_event_steps:
  "composer_steps (\<lambda>call. \<not> frame_call call) c (co_replace_feedback c formats)"
  "composer_steps (\<lambda>call. \<not> frame_call call) c (co_configure c cfg)"
  "composer_steps (\<lambda>call. \<not> frame_call call) c (snd (co_presentation_sample t c))"
  "composer_steps (\<lambda>call. \<not> frame_call call) c (snd (co_acknowledge_configure serial c))"
  using composer_steps_step [of "\<lambda>call. \<not> frame_call call" "CoReplaceFeedback formats" c]
    composer_steps_step [of "\<lambda>call. \<not> frame_call call" "CoConfigure cfg" c]
    composer_steps_step [of "\<lambda>call. \<not> frame_call call" "CoPresentationSample t" c]
    composer_steps_step [of "\<lambda>call. \<not> frame_call call" "CoAcknowledge serial" c]
  by simp_all

text \<open>What an event leaves alone, on every branch: the identity of the binding and its point counter.\<close>

definition binding_same :: "denial_task_binding \<Rightarrow> denial_task_binding \<Rightarrow> bool" where
  "binding_same b b' \<longleftrightarrow> bd_object b' = bd_object b \<and> bd_display b' = bd_display b \<and>
     bd_task b' = bd_task b \<and> bd_package b' = bd_package b \<and>
     bd_next_timeline_point b' = bd_next_timeline_point b \<and>
     bd_destroy_requested b' = bd_destroy_requested b"

definition quiet_result ::
  "denial_task_binding \<times> session \<Rightarrow> denial_task_binding \<times> session \<Rightarrow> bool" where
  "quiet_result s s' \<longleftrightarrow> binding_same (fst s) (fst s') \<and>
     bd_pending_release_points (fst s') = bd_pending_release_points (fst s) \<and>
     (\<forall>d. display_frames (se_windows (snd s')) d = display_frames (se_windows (snd s)) d) \<and>
     (tw_inv (se_windows (snd s)) \<longrightarrow> tw_inv (se_windows (snd s')))"

lemma quiet_refl [simp]: "quiet_result s s"
  by (simp add: quiet_result_def binding_same_def)

lemma quiet_bridge_composer:
  "(\<And>c. composer_steps (\<lambda>call. \<not> frame_call call) c (snd (f c))) \<Longrightarrow> quiet_result s (snd (bridge_composer f s))"
  using display_frames_bridge [of f "fst s" "snd s"]
    tw_inv_act [OF windows_act_on_display [of _ f "bd_display (fst s)" "se_windows (snd s)"]]
  by (cases s) (auto simp: quiet_result_def binding_same_def bridge_composer_eq split: option.split)

lemma quiet_trans: "quiet_result s s1 \<Longrightarrow> quiet_result s1 s2 \<Longrightarrow> quiet_result s s2"
  by (simp add: quiet_result_def binding_same_def)

lemma quiet_bind:
  assumes "quiet_result s (snd (m s))" and "\<And>x s1. quiet_result s1 (snd (k x s1))"
  shows "quiet_result s (snd (op_bind m k s))"
  using assms unfolding snd_op_bind
  by (auto split: prod.split sum.split) (metis quiet_trans snd_conv)+

lemma quiet_acknowledged [simp]: "quiet_result (b, se) (b\<lparr>bd_acknowledged_configure := x\<rparr>, se)"
  by (simp add: quiet_result_def binding_same_def)

lemma quiet_apply_message:
  assumes "\<And>ob f bu p. m \<noteq> BufferReleased ob f bu p"
  shows "quiet_result s (snd (apply_message m s))"
  using assms
  by (cases m) (auto intro!: quiet_bind quiet_bridge_composer
      simp: composer_event_steps op_return_def op_lift_def split: prod.split)

lemma apply_release_eq:
  "apply_release f bu p (b, se) =
     (if fmlookup (bd_pending_release_points b) f \<noteq> Some p then (Inl BridgeReleaseMismatch, (b, se))
      else case fmlookup (tw_windows (se_windows se)) (bd_display b) of
        None \<Rightarrow> (Inl (BridgeTask (UnknownDisplay (bd_display b))), (b, se))
      | Some win \<Rightarrow>
          if fmlookup (co_ledger (win_composer win)) f \<noteq> Some bu then (Inl BridgeReleaseMismatch, (b, se))
          else (Inr (AppliedBufferReleased \<lparr>rf_frame_id = f, rf_buffer_id = bu, rf_has_release_fence = True\<rparr>),
                (b\<lparr>bd_pending_release_points := fmdrop f (bd_pending_release_points b)\<rparr>,
                 se\<lparr>se_windows := snd (tw_on_display (bd_display b) (co_release_presented_target f True)
                   (se_windows se))\<rparr>)))"
  by (auto simp: apply_release_def tw_composer_for_display_def co_in_flight_buffer_def ps_in_flight_buffer_def
      co_ledger_def bridge_composer_eq co_release_presented_target_def on_transport_apply ps_release_def
      op_bind_def split: option.split)

lemma co_ledger_release:
  "co_ledger (snd (co_release_presented_target f True c)) = fmdrop f (co_ledger c)"
  by (auto simp: co_release_presented_target_def on_transport_apply ps_release_def co_ledger_def
      fmlookup_None_iff fmdrop_idle split: option.split)

lemma apply_event_cases:
  assumes "bd_apply_event m (b, se) = (r, (b', se'))"
  obtains (quiet) "quiet_result (b, se) (b', se')"
      "\<And>ob f bu p. m = BufferReleased ob f bu p \<Longrightarrow> \<not> is_ok r"
  | (released) f bu p where "m = BufferReleased (bd_object b) f bu p"
      "r = Inr (AppliedBufferReleased \<lparr>rf_frame_id = f, rf_buffer_id = bu, rf_has_release_fence = True\<rparr>)"
      "fmlookup (bd_pending_release_points b) f = Some p"
      "fmlookup (display_frames (se_windows se) (bd_display b)) f = Some bu"
      "b' = b\<lparr>bd_pending_release_points := fmdrop f (bd_pending_release_points b)\<rparr>"
      "se' = se\<lparr>se_windows := snd (tw_on_display (bd_display b) (co_release_presented_target f True)
        (se_windows se))\<rparr>"
      "tw_inv (se_windows se) \<Longrightarrow> tw_inv (se_windows se')"
      "\<And>d. display_frames (se_windows se') d =
        (if d = bd_display b then fmdrop f (display_frames (se_windows se) d)
         else display_frames (se_windows se) d)"
proof (cases "\<exists>ob f bu p. m = BufferReleased ob f bu p")
  case False
  then have "quiet_result (b, se) (snd (bd_apply_event m (b, se)))"
    using quiet_apply_message [of m "(b, se)"] by (auto simp: bd_apply_event_def split: option.split)
  with assms False show ?thesis by (intro quiet) auto
next
  case True
  then obtain ob f bu p where m: "m = BufferReleased ob f bu p" by blast
  show ?thesis
  proof (cases "ob = bd_object b \<and> fmlookup (bd_pending_release_points b) f = Some p \<and>
      fmlookup (display_frames (se_windows se) (bd_display b)) f = Some bu")
    case True
    then obtain win where win: "fmlookup (tw_windows (se_windows se)) (bd_display b) = Some win"
      "fmlookup (co_ledger (win_composer win)) f = Some bu"
      by (auto simp: display_frames_def split: option.splits)
    with assms True m have "r = Inr (AppliedBufferReleased \<lparr>rf_frame_id = f, rf_buffer_id = bu,
        rf_has_release_fence = True\<rparr>)"
      "b' = b\<lparr>bd_pending_release_points := fmdrop f (bd_pending_release_points b)\<rparr>"
      "se' = se\<lparr>se_windows := snd (tw_on_display (bd_display b) (co_release_presented_target f True)
        (se_windows se))\<rparr>"
      by (auto simp: bd_apply_event_def apply_release_eq)
    moreover from this have "tw_inv (se_windows se) \<Longrightarrow> tw_inv (se_windows se')"
      using tw_inv_act [OF windows_act_on_display [OF composer_step_ops(9)]] by simp
    moreover from calculation win have "display_frames (se_windows se') d =
        (if d = bd_display b then fmdrop f (display_frames (se_windows se) d)
         else display_frames (se_windows se) d)" for d
      using win(1) by (auto simp: display_frames_on_display co_ledger_release fmdomI)
        (simp add: display_frames_def)
    ultimately show ?thesis
      using True m by (intro released) auto
  next
    case False
    then have "(r, (b', se')) = (r, (b, se)) \<and> \<not> is_ok r"
      using assms m unfolding bd_apply_event_def
      by (auto simp: apply_release_eq display_frames_def split: if_splits option.splits)
    then show ?thesis by (intro quiet) auto
  qed
qed

subsection \<open>Runs of a binding\<close>

text \<open>Everything that happens to a binding and the session it presents from, in any order.\<close>

datatype bridge_call =
    BrRequestDestroy "(unit, unit) result"
  | BrMarkBound task_id
  | BrAcknowledge u32
  | BrPrepare display_id accepted_frame
  | BrCancel frame_id u64
  | BrEvent denial_message
  | BrSession session_call

fun br_step :: "denial_task_binding \<times> session \<Rightarrow> bridge_call \<Rightarrow> denial_task_binding \<times> session" where
  "br_step (b, se) (BrRequestDestroy answer) = (snd (bd_request_destroy (\<lambda>_. answer) b), se)"
| "br_step (b, se) (BrMarkBound task) = (snd (bd_mark_task_bound task b), se)"
| "br_step (b, se) (BrAcknowledge serial) = snd (bd_acknowledge_configure serial (b, se))"
| "br_step (b, se) (BrPrepare d frame) = (snd (bd_prepare_present d frame b), se)"
| "br_step (b, se) (BrCancel f p) = (snd (bd_cancel_unsubmitted_present f p b), se)"
| "br_step (b, se) (BrEvent m) = snd (bd_apply_event m (b, se))"
| "br_step (b, se) (BrSession call) = (b, se_step se call)"

text \<open>The present messages of a run, and the two points that such a message carries.\<close>

fun br_presents :: "denial_task_binding \<times> session \<Rightarrow> bridge_call \<Rightarrow> android_message list" where
  "br_presents (b, se) (BrPrepare d frame) =
     (case fst (bd_prepare_present d frame b) of Inl e \<Rightarrow> [] | Inr p \<Rightarrow> [pp_message p])"
| "br_presents s call = []"

fun present_points :: "android_message \<Rightarrow> (u64 \<times> u64) list" where
  "present_points (Present _ _ _ _ acquire release _) = [(acquire, release)]"
| "present_points _ = []"

definition br_points :: "denial_task_binding \<times> session \<Rightarrow> bridge_call \<Rightarrow> u64 list" where
  "br_points s call = map fst (concat (map present_points (br_presents s call)))"

lemma prepare_present_cases:
  assumes "bd_prepare_present d frame b = (r, b')"
  obtains (refused) e where "r = Inl e" "b' = b"
  | (prepared) serial p where "\<not> bd_destroy_requested b" "d = bd_display b"
      "bd_acknowledged_configure b = Some serial" "checked_add (bd_next_timeline_point b) 1 = Some p"
      "af_frame_id frame |\<notin>| fmdom (bd_pending_release_points b)"
      "r = Inr \<lparr>pp_message = Present (bd_object b) (af_frame_id frame) (buf_id (af_buffer frame))
         serial p p (af_damage frame), pp_acquire_point = p, pp_release_point = p\<rparr>"
      "b' = b\<lparr>bd_next_timeline_point := p, bd_pending_release_points :=
         fmupd (af_frame_id frame) p (bd_pending_release_points b)\<rparr>"
proof -
  consider "r = Inl UnexpectedMessage \<and> b' = b" | "r = Inl TimelineExhausted \<and> b' = b"
    | serial p where "\<not> bd_destroy_requested b" "d = bd_display b"
      "bd_acknowledged_configure b = Some serial" "checked_add (bd_next_timeline_point b) 1 = Some p"
      "af_frame_id frame |\<notin>| fmdom (bd_pending_release_points b)"
    using assms unfolding bd_prepare_present_def by (auto split: if_split_asm option.split_asm)
  then show ?thesis
  proof cases
    case (3 serial p)
    with assms show ?thesis by (intro prepared) (auto simp: bd_prepare_present_def)
  qed (use refused in blast)+
qed

lemma next_point_event: "bd_next_timeline_point (fst (snd (bd_apply_event m (b, se)))) = bd_next_timeline_point b"
proof (cases "bd_apply_event m (b, se)")
  case (fields r b' se')
  from fields show ?thesis
    by (cases rule: apply_event_cases)
      (use fields in \<open>auto simp: quiet_result_def binding_same_def\<close>)
qed

lemma next_point_acknowledge:
  "bd_next_timeline_point (fst (snd (bd_acknowledge_configure serial (b, se)))) = bd_next_timeline_point b"
  by (auto simp: bd_acknowledge_configure_def snd_op_bind bridge_composer_eq split: option.split sum.split)

lemma next_point_step:
  "sorted_wrt (<) (bd_next_timeline_point (fst s) # br_points s call) \<and>
   last (bd_next_timeline_point (fst s) # br_points s call) \<le> bd_next_timeline_point (fst (br_step s call))"
proof (cases s)
  case (Pair b se)
  show ?thesis
  proof (cases call)
    case (BrPrepare d frame)
    obtain r b' where op: "bd_prepare_present d frame b = (r, b')" by fastforce
    then show ?thesis
      by (cases rule: prepare_present_cases)
        (use op Pair BrPrepare in \<open>auto simp: br_points_def checked_add_Some_iff word_less_nat_alt\<close>)
  qed (auto simp: Pair br_points_def bd_request_destroy_def bd_mark_task_bound_def
      bd_cancel_unsubmitted_present_def next_point_event next_point_acknowledge split: sum.split)
qed

interpretation binding_points: point_source "\<lambda>s. bd_next_timeline_point (fst s)" br_step br_points
  by unfold_locales (use next_point_step in blast)+

lemma br_points_concat:
  "trace_ops br_step br_points s calls =
     map fst (concat (map present_points (trace_ops br_step br_presents s calls)))"
  by (induction calls arbitrary: s) (simp_all add: br_points_def)

lemma br_presents_equal_points:
  "list_all (\<lambda>(a, r). a = r) (concat (map present_points (trace_ops br_step br_presents s calls)))"
proof (induction calls arbitrary: s)
  case (Cons call calls)
  have "list_all (\<lambda>(a, r). a = r) (concat (map present_points (br_presents s call)))"
  proof (cases "(s, call)" rule: br_presents.cases)
    case (1 b se d frame)
    obtain r b' where op: "bd_prepare_present d frame b = (r, b')" by fastforce
    then show ?thesis
      by (cases rule: prepare_present_cases) (use op 1 in auto)
  qed auto
  with Cons show ?case by simp
qed simp

subsection \<open>Properties\<close>

text \<open>
  C36.  Timeline points of a binding.  Over every run of a binding -- presents prepared and cancelled,
  events of the host, anything that the Composer session does in between -- the messages it prepares
  carry strictly increasing acquire points, starting above the binding's counter, and each message has
  the same release point: no point is used twice, also not after a cancelled present.
\<close>

theorem bridge_points_increase:
  "let points = concat (map present_points (trace_ops br_step br_presents (b, se) calls))
   in sorted_wrt (<) (bd_next_timeline_point b # map fst points) \<and> list_all (\<lambda>(a, r). a = r) points"
  using binding_points.points_sorted [of "(b, se)" calls]
  by (simp add: br_points_concat br_presents_equal_points Let_def)

text \<open>
  A release retires its frame once, on both records.  A release of the host is accepted exactly
  when it names the binding's object, a frame that the binding waits for, with that frame's release
  point, and the buffer under which the Composer has the frame in flight.  Then exactly that frame
  leaves both records; otherwise nothing leaves either of them.  The frames of other displays stay.
\<close>

theorem release_retires_both_records:
  "case bd_apply_event (BufferReleased ob f bu p) (b, se) of (r, (b', se')) \<Rightarrow>
     let ok = (ob = bd_object b \<and> fmlookup (bd_pending_release_points b) f = Some p \<and>
       fmlookup (display_frames (se_windows se) (bd_display b)) f = Some bu)
     in is_ok r = ok \<and>
        bd_pending_release_points b' =
          (if ok then fmdrop f (bd_pending_release_points b) else bd_pending_release_points b) \<and>
        display_frames (se_windows se') d =
          (if ok \<and> d = bd_display b then fmdrop f (display_frames (se_windows se) d)
           else display_frames (se_windows se) d)"
proof -
  obtain r b' se' where op: "bd_apply_event (BufferReleased ob f bu p) (b, se) = (r, (b', se'))"
    by (metis prod.exhaust)
  then show ?thesis
  proof (cases rule: apply_event_cases)
    case quiet
    have "\<not> (ob = bd_object b \<and> fmlookup (bd_pending_release_points b) f = Some p \<and>
       fmlookup (display_frames (se_windows se) (bd_display b)) f = Some bu)"
      using quiet(2) op
      by (auto simp: bd_apply_event_def apply_release_eq display_frames_def split: option.splits)
    with quiet op show ?thesis by (auto simp: quiet_result_def Let_def)
  qed (use op in \<open>auto simp: Let_def\<close>)
qed

text \<open>
  Requests for render targets: a run of configures and render attempts asks at most once for every
  configure, also when the pool stays empty for many attempts.
\<close>

datatype demand_call = DmConfigure u32 | DmAttempt bool bool

fun dm_requests :: "render_target_demand \<Rightarrow> demand_call \<Rightarrow> u32 list" where
  "dm_requests d (DmConfigure serial) = []"
| "dm_requests d (DmAttempt enabled has_pool) =
     (case dm_request d enabled has_pool of None \<Rightarrow> [] | Some serial \<Rightarrow> [serial])"

fun dm_step :: "render_target_demand \<Rightarrow> demand_call \<Rightarrow> render_target_demand" where
  "dm_step d (DmConfigure serial) = dm_configure serial d"
| "dm_step d (DmAttempt enabled has_pool) =
     (case dm_request d enabled has_pool of None \<Rightarrow> d | Some serial \<Rightarrow> dm_sent serial d)"

definition demand_open :: "render_target_demand \<Rightarrow> nat" where
  "demand_open d = (if dm_serial d = None \<or> dm_requested d = dm_serial d then 0 else 1)"

lemma demand_requests_bounded:
  "length (trace_ops dm_step dm_requests d calls)
     \<le> demand_open d + length (filter (\<lambda>call. \<exists>serial. call = DmConfigure serial) calls)"
proof (induction calls arbitrary: d)
  case (Cons call calls)
  have "length (dm_requests d call) + demand_open (dm_step d call)
      \<le> demand_open d + (if \<exists>serial. call = DmConfigure serial then 1 else 0)"
    by (cases call) (auto simp: dm_configure_def dm_request_def dm_sent_def demand_open_def split: option.split)
  with Cons [of "dm_step d call"] show ?case by auto
qed simp

end
