(* ===== verification/Presentation_Sink.thy ===== *)
theory Presentation_Sink
  imports Composer_Bridge Ipc_Socket
begin

section \<open>The presentation sink of the Android side\<close>

text \<open>
  \<open>DenialPresentationSink\<close> of \<open>graphics/droidloom-composer-aidl/src/denial.rs\<close>: one channel per task
  display, with the binding of the protocol, the timelines, the render targets that the host lent and
  the frames that occupy them.  It is the code between SurfaceFlinger and the socket: targets are
  reserved, rendered into and submitted, the host's releases make them reusable, and a revoked target
  is dropped when nobody uses it any more.  The socket and the render node are the argument \<open>sink_env\<close>;
  \<open>sk_sent\<close> records the messages the socket accepted.  Mutex poisoning, the GLES composition of the
  superseded \<open>submit_frame\<close> path and frame tracing are left out.
\<close>

subsection \<open>Data\<close>

record imported_render_target =
  irt_metadata :: buffer_metadata
  irt_configure_serial :: u32
  irt_plane_fds :: "owned_fd list"

record host_render_target =
  ht_configure_serial :: u32
  ht_metadata :: buffer_metadata
  ht_plane_fds :: "owned_fd list"
  ht_reserved :: bool
  ht_busy :: bool
  ht_revoked :: bool

record task_channel =
  ch_binding :: denial_task_binding
  ch_timelines :: task_timelines
  ch_render_targets :: "(buffer_id, host_render_target) fmap"
  ch_frame_targets :: "(frame_id, buffer_id) fmap"
  ch_content_opaque :: "bool option"
  ch_present_fence :: "owned_fd option"
  ch_headless_completion :: "(task_timelines \<times> u64) option"
  ch_display_extent :: "(u32 \<times> u32) option"
  ch_target_demand :: render_target_demand

datatype sink_error =
    SinkDuplicateDisplay display_id
  | SinkDuplicateObject task_object_id
  | SinkUnknownDisplay display_id
  | SinkUnknownObject task_object_id
  | ConnectionMessage
  | BufferMetadataMismatch buffer_id
  | PlaneDescriptorMismatch
  | DuplicateRenderTarget buffer_id
  | UnknownRenderTarget buffer_id
  | NoRenderTarget display_id
  | SinkBridge denial_bridge_error
  | SinkIpc ipc_error
  | SinkSyncobj syncobj_error
  | SinkGraphics
  | SinkComposer composer_error

fun sink_error_code :: "sink_error \<Rightarrow> hwc_error" where
  "sink_error_code (SinkUnknownDisplay _) = BadDisplay"
| "sink_error_code (BufferMetadataMismatch _) = BadParameter"
| "sink_error_code PlaneDescriptorMismatch = BadParameter"
| "sink_error_code (DuplicateRenderTarget _) = BadParameter"
| "sink_error_code (UnknownRenderTarget _) = BadParameter"
| "sink_error_code (SinkBridge _) = BadParameter"
| "sink_error_code _ = NoResources"

record sink =
  sk_tasks :: "(display_id, task_channel) fmap"
  sk_activation_requests :: bool
  sk_lazy_render_targets :: bool
  sk_sent :: "(android_message \<times> owned_fd list) list"

text \<open>The kernel during one operation; the second value of the render node is for the later ioctls.\<close>

record sink_env =
  sv_sendmsg :: sendmsg_fn
  sv_drm :: drm_kernel
  sv_drm_second :: drm_kernel
  sv_try_clone :: "owned_fd list \<Rightarrow> owned_fd list option"

type_synonym 'a sink_op = "(sink_error, sink, 'a) op"
type_synonym 'a frame_op = "(sink_error, sink \<times> session, 'a) op"

definition sk_new :: sink where
  "sk_new = \<lparr>sk_tasks = fmempty, sk_activation_requests = False, sk_lazy_render_targets = False,
     sk_sent = []\<rparr>"

definition sk_with_activation_requests :: "bool \<Rightarrow> sink \<Rightarrow> sink" where
  "sk_with_activation_requests enabled s = s\<lparr>sk_activation_requests := enabled\<rparr>"

definition sk_with_lazy_render_targets :: "bool \<Rightarrow> sink \<Rightarrow> sink" where
  "sk_with_lazy_render_targets enabled s = s\<lparr>sk_lazy_render_targets := enabled\<rparr>"

subsection \<open>Access to channels and to the socket\<close>

definition set_channel :: "display_id \<Rightarrow> task_channel \<Rightarrow> sink \<Rightarrow> sink" where
  "set_channel display ch s = s\<lparr>sk_tasks := fmupd display ch (sk_tasks s)\<rparr>"

definition sk_channel :: "display_id \<Rightarrow> sink_error \<Rightarrow> task_channel sink_op" where
  "sk_channel display e = (\<lambda>s. (ok_or e (fmlookup (sk_tasks s) display), s))"

text \<open>\<open>tasks.values_mut().find(|task| task.binding.object() == object)\<close>, with the key it is found at.\<close>

definition channel_of_object :: "task_object_id \<Rightarrow> sink \<Rightarrow> (display_id \<times> task_channel) option" where
  "channel_of_object object s =
     find (\<lambda>(d, ch). bd_object (ch_binding ch) = object) (sorted_list_of_fmap (sk_tasks s))"

definition sk_send :: "sink_env \<Rightarrow> android_message \<Rightarrow> owned_fd list \<Rightarrow> unit sink_op" where
  "sk_send env message fds = (\<lambda>s.
     case send_android (sv_sendmsg env) message fds of
       Inl e \<Rightarrow> (Inl (SinkIpc e), s)
     | Inr _ \<Rightarrow> (Inr (), s\<lparr>sk_sent := sk_sent s @ [(message, fds)]\<rparr>))"

text \<open>An update of one channel that keeps the rest of the sink.\<close>

definition upd_channel :: "display_id \<Rightarrow> (task_channel \<Rightarrow> task_channel) \<Rightarrow> unit sink_op" where
  "upd_channel display f = (\<lambda>s.
     (Inr (), case fmlookup (sk_tasks s) display of None \<Rightarrow> s | Some ch \<Rightarrow> set_channel display (f ch) s))"

subsection \<open>Tasks\<close>

definition sk_request_activation :: "sink_env \<Rightarrow> display_id \<Rightarrow> unit sink_op" where
  "sk_request_activation env display = (\<lambda>s.
     if sk_activation_requests s
     then op_bind (sk_channel display (SinkUnknownDisplay display)) (\<lambda>ch.
       sk_send env (RequestActivation (bd_object (ch_binding ch))) []) s
     else (Inr (), s))"

definition fresh_channel :: "denial_task_binding \<Rightarrow> task_timelines \<Rightarrow> task_channel" where
  "fresh_channel binding timelines = \<lparr>ch_binding = binding, ch_timelines = timelines,
     ch_render_targets = fmempty, ch_frame_targets = fmempty, ch_content_opaque = None,
     ch_present_fence = None, ch_headless_completion = None, ch_display_extent = None,
     ch_target_demand = dm_default\<rparr>"

definition sk_register_task ::
  "sink_env \<Rightarrow> task_object_id \<Rightarrow> reserved_task_window_spec \<Rightarrow> unit sink_op" where
  "sk_register_task env object reservation = (\<lambda>s.
     if rs_display reservation |\<in>| fmdom (sk_tasks s)
     then (Inl (SinkDuplicateDisplay (rs_display reservation)), s)
     else if channel_of_object object s \<noteq> None then (Inl (SinkDuplicateObject object), s)
     else
       op_bind (op_lift (map_err SinkBridge (bd_new object reservation))) (\<lambda>binding.
       op_bind (op_lift (map_err SinkSyncobj
         (android_timelines_create (sv_drm env) (sv_drm_second env)))) (\<lambda>timelines.
       op_bind (op_lift (map_err SinkSyncobj
         (android_export_descriptors (sv_drm env) (sv_drm_second env) timelines))) (\<lambda>(acquire, release).
       op_bind (sk_send env (bd_create_task_message binding) []) (\<lambda>_ s1.
         case sk_send env (bd_bind_timelines_message binding) [acquire, release] s1 of
           (Inl e, s2) \<Rightarrow> (Inl e, snd (sk_send env (DestroyTask object) [] s2))
         | (Inr _, s2) \<Rightarrow>
             (Inr (), set_channel (rs_display reservation) (fresh_channel binding timelines) s2))))) s)"

definition sk_bind_task :: "sink_env \<Rightarrow> display_id \<Rightarrow> task_id \<Rightarrow> unit sink_op" where
  "sk_bind_task env display task = (\<lambda>s.
     if \<not> fmpred (\<lambda>d ch. d = display \<or> bd_task (ch_binding ch) \<noteq> Some task) (sk_tasks s)
     then (Inl (SinkBridge UnexpectedMessage), s)
     else op_bind (sk_channel display (SinkUnknownDisplay display)) (\<lambda>ch.
       if bd_task (ch_binding ch) = Some task then op_return ()
       else
         op_bind (op_lift (map_err SinkBridge (bd_bind_task_message (ch_binding ch) task))) (\<lambda>message.
         op_bind (sk_send env message []) (\<lambda>_ s1.
           case bd_mark_task_bound task (ch_binding ch) of
             (r, b) \<Rightarrow> (map_err SinkBridge r, set_channel display (ch\<lparr>ch_binding := b\<rparr>) s1)))) s)"

definition sk_request_task_removal :: "sink_env \<Rightarrow> display_id \<Rightarrow> unit sink_op" where
  "sk_request_task_removal env display =
     op_bind (sk_channel display (SinkUnknownDisplay display)) (\<lambda>ch s.
       if bd_destroy_requested (ch_binding ch) then (Inr (), s)
       else case bd_request_destroy (\<lambda>m. fst (sk_send env m [] s)) (ch_binding ch) of
         (r, b) \<Rightarrow> (r, set_channel display (ch\<lparr>ch_binding := b\<rparr>)
           (snd (sk_send env (DestroyTask (bd_object (ch_binding ch))) [] s))))"

definition sk_unregister_task :: "display_id \<Rightarrow> unit sink_op" where
  "sk_unregister_task display = (\<lambda>s.
     case fmlookup (sk_tasks s) display of
       Some ch \<Rightarrow>
         if \<not> bd_destroy_requested (ch_binding ch) then (Inl (SinkBridge UnexpectedMessage), s)
         else (Inr (), s\<lparr>sk_tasks := fmdrop display (sk_tasks s)\<rparr>)
     | None \<Rightarrow> (Inr (), s\<lparr>sk_tasks := fmdrop display (sk_tasks s)\<rparr>))"

definition sk_display_for_object :: "sink \<Rightarrow> task_object_id \<Rightarrow> (sink_error, display_id) result" where
  "sk_display_for_object s object =
     ok_or (SinkUnknownObject object) (map_option fst (channel_of_object object s))"

definition sk_bind_layer_stream :: "sink_env \<Rightarrow> display_id \<Rightarrow> owned_fd list \<Rightarrow> unit sink_op" where
  "sk_bind_layer_stream env display sockets =
     op_bind (sk_channel display (SinkUnknownDisplay display)) (\<lambda>ch.
       if bd_destroy_requested (ch_binding ch) then op_lift (Inl (SinkBridge UnexpectedMessage))
       else sk_send env (BindLayerStream (bd_object (ch_binding ch))) sockets)"

subsection \<open>Render targets\<close>

definition sk_ensure_render_targets :: "sink_env \<Rightarrow> display_id \<Rightarrow> task_channel \<Rightarrow> unit sink_op" where
  "sk_ensure_render_targets env display ch = (\<lambda>s.
     case dm_serial (ch_target_demand ch) of
       None \<Rightarrow> (Inr (), s)
     | Some serial \<Rightarrow>
         let has_pool = \<not> fmpred (\<lambda>_ t. ht_revoked t \<or> ht_configure_serial t \<noteq> serial)
               (ch_render_targets ch) in
         case dm_request (ch_target_demand ch) (sk_lazy_render_targets s) has_pool of
           None \<Rightarrow> (Inr (), s)
         | Some serial \<Rightarrow>
             op_bind (sk_send env (RequestRenderTargets (bd_object (ch_binding ch)) serial) []) (\<lambda>_.
             upd_channel display (\<lambda>ch. ch\<lparr>ch_target_demand := dm_sent serial (ch_target_demand ch)\<rparr>)) s)"

text \<open>The idle target of the newest pool, first in the order of the identifiers.\<close>

definition idle_target :: "u32 \<Rightarrow> task_channel \<Rightarrow> (buffer_id \<times> host_render_target) option" where
  "idle_target serial ch =
     find (\<lambda>(k, t). ht_configure_serial t = serial \<and> \<not> ht_reserved t \<and> \<not> ht_busy t \<and> \<not> ht_revoked t)
       (sorted_list_of_fmap (ch_render_targets ch))"

definition set_target :: "buffer_id \<Rightarrow> host_render_target \<Rightarrow> task_channel \<Rightarrow> task_channel" where
  "set_target buffer t ch = ch\<lparr>ch_render_targets := fmupd buffer t (ch_render_targets ch)\<rparr>"

definition drop_target :: "buffer_id \<Rightarrow> task_channel \<Rightarrow> task_channel" where
  "drop_target buffer ch = ch\<lparr>ch_render_targets := fmdrop buffer (ch_render_targets ch)\<rparr>"

definition imported_target :: "host_render_target \<Rightarrow> owned_fd list \<Rightarrow> imported_render_target" where
  "imported_target t fds = \<lparr>irt_metadata = ht_metadata t, irt_configure_serial = ht_configure_serial t,
     irt_plane_fds = fds\<rparr>"

definition sk_acquire_surfaceflinger_target ::
  "sink_env \<Rightarrow> display_id \<Rightarrow> imported_render_target sink_op" where
  "sk_acquire_surfaceflinger_target env display =
     op_bind (sk_channel display (SinkUnknownDisplay display)) (\<lambda>ch.
     if bd_destroy_requested (ch_binding ch) then op_lift (Inl (NoRenderTarget display))
     else
       op_bind (sk_ensure_render_targets env display ch) (\<lambda>_.
       op_bind (op_lift (ok_or (NoRenderTarget display) (dm_serial (ch_target_demand ch)))) (\<lambda>serial.
       op_bind (op_lift (ok_or (NoRenderTarget display) (idle_target serial ch))) (\<lambda>(k, t).
       op_bind (op_lift (ok_or SinkGraphics (sv_try_clone env (ht_plane_fds t)))) (\<lambda>fds.
       op_bind (upd_channel display (set_target k (t\<lparr>ht_reserved := True\<rparr>))) (\<lambda>_.
       op_return (imported_target t fds)))))))"

text \<open>The same operation behind the trait of the older composition path, with HWC3 error codes.\<close>

definition sk_acquire_target ::
  "sink_env \<Rightarrow> display_id \<Rightarrow> (hwc_error, sink, imported_render_target) op" where
  "sk_acquire_target env display = (\<lambda>s.
     case fmlookup (sk_tasks s) display of
       None \<Rightarrow> (Inl BadDisplay, s)
     | Some ch \<Rightarrow>
         if bd_destroy_requested (ch_binding ch) then (Inl NoResources, s)
         else case sk_ensure_render_targets env display ch s of
           (Inl e, s1) \<Rightarrow> (Inl (sink_error_code e), s1)
         | (Inr _, s1) \<Rightarrow>
         case dm_serial (ch_target_demand ch) of
           None \<Rightarrow> (Inl NoResources, s1)
         | Some serial \<Rightarrow>
         case idle_target serial ch of
           None \<Rightarrow> (Inl NoResources, s1)
         | Some (k, t) \<Rightarrow>
         case sv_try_clone env (ht_plane_fds t) of
           None \<Rightarrow> (Inl NoResources, s1)
         | Some fds \<Rightarrow>
             (Inr (imported_target t fds),
              snd (upd_channel display (set_target k (t\<lparr>ht_reserved := True\<rparr>)) s1)))"

definition sk_cancel_reserved_target :: "display_id \<Rightarrow> buffer_id \<Rightarrow> sink \<Rightarrow> sink" where
  "sk_cancel_reserved_target display buffer s =
     (case fmlookup (sk_tasks s) display of
        None \<Rightarrow> s
      | Some ch \<Rightarrow>
          case fmlookup (ch_render_targets ch) buffer of
            None \<Rightarrow> s
          | Some t \<Rightarrow>
              let t1 = (if \<not> ht_busy t then t\<lparr>ht_reserved := False\<rparr> else t);
                  remove = \<not> ht_busy t1 \<and> \<not> ht_reserved t1 \<and> ht_revoked t1
              in set_channel display (if remove then drop_target buffer ch else set_target buffer t1 ch) s)"

fun sink_plane_descriptors :: "attached_descriptor list \<Rightarrow> (sink_error, owned_fd list) result" where
  "sink_plane_descriptors [] = Inr []"
| "sink_plane_descriptors ((kind, fd) # rest) =
     (if kind = DmabufPlane then bind_result (sink_plane_descriptors rest) (\<lambda>fds. Inr (fd # fds))
      else Inl PlaneDescriptorMismatch)"

definition sk_register_render_target ::
  "task_object_id \<Rightarrow> u32 \<Rightarrow> buffer_metadata \<Rightarrow> attached_descriptor list \<Rightarrow> unit sink_op" where
  "sk_register_render_target object configure_serial buffer descriptors =
     op_bind (op_lift (sink_plane_descriptors descriptors)) (\<lambda>planes.
     op_bind (op_lift (reject_if (length planes \<noteq> length (buf_planes buffer)) PlaneDescriptorMismatch)) (\<lambda>_ s.
     case channel_of_object object s of
       None \<Rightarrow> (Inl (SinkUnknownObject object), s)
     | Some (display, ch) \<Rightarrow>
         if buf_id buffer |\<in>| fmdom (ch_render_targets ch)
         then (Inl (DuplicateRenderTarget (buf_id buffer)), s)
         else (Inr (), set_channel display (set_target (buf_id buffer)
           \<lparr>ht_configure_serial = configure_serial, ht_metadata = buffer, ht_plane_fds = planes,
            ht_reserved = False, ht_busy = False, ht_revoked = False\<rparr> ch) s)))"

definition sk_unregister_render_target :: "task_object_id \<Rightarrow> buffer_id \<Rightarrow> unit sink_op" where
  "sk_unregister_render_target object buffer = (\<lambda>s.
     case channel_of_object object s of
       None \<Rightarrow> (Inl (SinkUnknownObject object), s)
     | Some (display, ch) \<Rightarrow>
         case fmlookup (ch_render_targets ch) buffer of
           None \<Rightarrow> (Inl (UnknownRenderTarget buffer), s)
         | Some t \<Rightarrow>
             (Inr (), set_channel display
                (if ht_reserved t \<or> ht_busy t then set_target buffer (t\<lparr>ht_revoked := True\<rparr>) ch
                 else drop_target buffer ch) s))"

subsection \<open>Events of the host\<close>

type_synonym 'a channel_op = "(sink_error, task_channel, 'a) op"

definition pin_display_extent ::
  "(u32 \<times> u32) option \<Rightarrow> u32 \<Rightarrow> u32 \<Rightarrow> (sink_error, (u32 \<times> u32) option) result" where
  "pin_display_extent extent width height =
     (if width = 0 \<or> height = 0 then Inl SinkGraphics
      else Inr (case extent of None \<Rightarrow> Some (width, height) | Some x \<Rightarrow> Some x))"

fun channel_configured :: "applied_denial_event \<Rightarrow> unit channel_op" where
  "channel_configured (AppliedConfigure serial width height _ _ _ _) = (\<lambda>ch.
     case pin_display_extent (ch_display_extent ch) width height of
       Inl e \<Rightarrow> (Inl e, ch)
     | Inr extent \<Rightarrow> (Inr (), ch\<lparr>ch_display_extent := extent,
         ch_target_demand := dm_configure serial (ch_target_demand ch)\<rparr>))"
| "channel_configured _ = op_return ()"

fun channel_released :: "denial_message \<Rightarrow> unit channel_op" where
  "channel_released (BufferReleased _ frame buffer _) = (\<lambda>ch.
     case fmlookup (ch_frame_targets ch) frame of
       None \<Rightarrow> (Inl (UnknownRenderTarget buffer), ch)
     | Some tracked \<Rightarrow>
         let ch1 = ch\<lparr>ch_frame_targets := fmdrop frame (ch_frame_targets ch)\<rparr> in
         if tracked \<noteq> buffer then (Inl (BufferMetadataMismatch buffer), ch1)
         else case fmlookup (ch_render_targets ch1) buffer of
           None \<Rightarrow> (Inl (UnknownRenderTarget buffer), ch1)
         | Some t \<Rightarrow> (Inr (), if ht_revoked t then drop_target buffer ch1
             else set_target buffer (t\<lparr>ht_busy := False\<rparr>) ch1))"
| "channel_released _ = op_return ()"

definition sk_apply_task_event :: "denial_message \<Rightarrow> applied_denial_event frame_op" where
  "sk_apply_task_event message = (\<lambda>(s, se).
     case message_object message of
       None \<Rightarrow> (Inl ConnectionMessage, (s, se))
     | Some object \<Rightarrow>
     case channel_of_object object s of
       None \<Rightarrow> (Inl (SinkUnknownObject object), (s, se))
     | Some (display, ch) \<Rightarrow>
     case bd_apply_event message (ch_binding ch, se) of
       (Inl e, (b, se1)) \<Rightarrow> (Inl (SinkBridge e), (set_channel display (ch\<lparr>ch_binding := b\<rparr>) s, se1))
     | (Inr event, (b, se1)) \<Rightarrow>
         case op_bind (channel_configured event) (\<lambda>_.
           op_bind (channel_released message) (\<lambda>_. op_return event)) (ch\<lparr>ch_binding := b\<rparr>) of
           (r, ch1) \<Rightarrow> (r, (set_channel display ch1 s, se1)))"

definition sk_acknowledge_configure :: "sink_env \<Rightarrow> display_id \<Rightarrow> u32 \<Rightarrow> unit frame_op" where
  "sk_acknowledge_configure env display serial = (\<lambda>(s, se).
     case fmlookup (sk_tasks s) display of
       None \<Rightarrow> (Inl (SinkUnknownDisplay display), (s, se))
     | Some ch \<Rightarrow>
     case bd_acknowledge_configure serial (ch_binding ch, se) of
       (Inl e, (b, se1)) \<Rightarrow> (Inl (SinkBridge e), (set_channel display (ch\<lparr>ch_binding := b\<rparr>) s, se1))
     | (Inr message, (b, se1)) \<Rightarrow>
         case sk_send env message [] (set_channel display (ch\<lparr>ch_binding := b\<rparr>) s) of
           (r, s1) \<Rightarrow> (r, (s1, se1)))"

subsection \<open>Frames\<close>

definition announce_opacity :: "sink_env \<Rightarrow> display_id \<Rightarrow> bool \<Rightarrow> task_channel \<Rightarrow> unit sink_op" where
  "announce_opacity env display opaque ch =
     (if ch_content_opaque ch \<noteq> Some opaque
      then op_bind (sk_send env (SetContentState (bd_object (ch_binding ch))
          (if opaque then CONTENT_OPAQUE else 0)) []) (\<lambda>_.
        upd_channel display (\<lambda>ch. ch\<lparr>ch_content_opaque := Some opaque\<rparr>))
      else op_return ())"

text \<open>The target of a sent frame belongs to the host now.\<close>

definition occupy_target :: "accepted_frame \<Rightarrow> owned_fd \<Rightarrow> task_channel \<Rightarrow> task_channel" where
  "occupy_target frame present_fence ch =
     (let buffer = buf_id (af_buffer frame);
          ch1 = (case fmlookup (ch_render_targets ch) buffer of
                   None \<Rightarrow> ch
                 | Some t \<Rightarrow> set_target buffer (t\<lparr>ht_reserved := False, ht_busy := True\<rparr>) ch)
      in ch1\<lparr>ch_frame_targets := fmupd (af_frame_id frame) buffer (ch_frame_targets ch1),
             ch_present_fence := Some present_fence\<rparr>)"

definition present_frame ::
  "sink_env \<Rightarrow> display_id \<Rightarrow> accepted_frame \<Rightarrow> owned_fd option \<Rightarrow> task_channel \<Rightarrow> unit sink_op" where
  "present_frame env display frame acquire_fence ch = (\<lambda>s.
     case bd_prepare_present display frame (ch_binding ch) of
       (Inl e, b) \<Rightarrow> (Inl (SinkBridge e), set_channel display (ch\<lparr>ch_binding := b\<rparr>) s)
     | (Inr prepared, b) \<Rightarrow>
     let point = pp_acquire_point prepared;
         cancelled = snd (bd_cancel_unsubmitted_present (af_frame_id frame) (pp_release_point prepared) b) in
     case (case acquire_fence of
             Some fd \<Rightarrow> android_import_acquire_fence (sv_drm env) (ch_timelines ch) point fd
           | None \<Rightarrow> android_signal_acquire (sv_drm env) (ch_timelines ch) point) of
       (Inl e, tl1) \<Rightarrow>
         (Inl (SinkSyncobj e), set_channel display (ch\<lparr>ch_binding := cancelled, ch_timelines := tl1\<rparr>) s)
     | (Inr _, tl1) \<Rightarrow>
     case android_export_acquire_fence (sv_drm_second env) tl1 point of
       (Inl e, tl2) \<Rightarrow>
         (Inl (SinkSyncobj e), set_channel display (ch\<lparr>ch_binding := cancelled, ch_timelines := tl2\<rparr>) s)
     | (Inr present_fence, tl2) \<Rightarrow>
     case sk_send env (pp_message prepared) [] s of
       (Inl e, s1) \<Rightarrow>
         (Inl e, set_channel display (ch\<lparr>ch_binding := cancelled, ch_timelines := tl2\<rparr>) s1)
     | (Inr _, s1) \<Rightarrow>
         (Inr (), set_channel display
            (occupy_target frame present_fence (ch\<lparr>ch_binding := b, ch_timelines := tl2\<rparr>)) s1))"

definition sk_send_surfaceflinger_frame ::
  "sink_env \<Rightarrow> display_id \<Rightarrow> accepted_frame \<Rightarrow> imported_render_target \<Rightarrow> owned_fd option \<Rightarrow> bool
     \<Rightarrow> unit sink_op" where
  "sk_send_surfaceflinger_frame env display frame target acquire_fence opaque =
     (let buffer = buf_id (af_buffer frame) in
      op_bind (op_lift (reject_if (irt_metadata target \<noteq> af_buffer frame \<or> \<not> af_requires_acquire_fence frame)
        (BufferMetadataMismatch (buf_id (irt_metadata target))))) (\<lambda>_.
      op_bind (sk_channel display (SinkUnknownDisplay display)) (\<lambda>ch.
      op_bind (op_lift (reject_if (bd_destroy_requested (ch_binding ch)) (SinkBridge UnexpectedMessage))) (\<lambda>_.
      op_bind (op_lift (ok_or (UnknownRenderTarget buffer) (fmlookup (ch_render_targets ch) buffer))) (\<lambda>t.
      op_bind (op_lift (reject_if (\<not> ht_reserved t \<or> ht_busy t \<or> ht_revoked t \<or> ht_metadata t \<noteq> af_buffer frame)
        (BufferMetadataMismatch buffer))) (\<lambda>_.
      op_bind (announce_opacity env display opaque ch) (\<lambda>_.
      op_bind (sk_channel display (SinkUnknownDisplay display)) (\<lambda>ch1.
      present_frame env display frame acquire_fence ch1))))))))"

definition submitted_damage :: "imported_render_target \<Rightarrow> damage option \<Rightarrow> damage list" where
  "submitted_damage target damage =
     (let d = (case damage of Some d \<Rightarrow> d
               | None \<Rightarrow> \<lparr>dmg_x = 0, dmg_y = 0, dmg_width = buf_width (irt_metadata target),
                   dmg_height = buf_height (irt_metadata target)\<rparr>)
      in if dmg_width d = 0 \<and> dmg_height d = 0 then [] else [d])"

definition sk_submit_surfaceflinger_target ::
  "sink_env \<Rightarrow> display_id \<Rightarrow> imported_render_target \<Rightarrow> owned_fd option \<Rightarrow> bool \<Rightarrow> damage option
     \<Rightarrow> frame_id frame_op" where
  "sk_submit_surfaceflinger_target env display target acquire_fence opaque damage = (\<lambda>(s, se).
     let buffer = buf_id (irt_metadata target) in
     case tw_on_display display (co_submit_rendered_target display
         \<lparr>ct_buffer = irt_metadata target, ct_damage = submitted_damage target damage,
          ct_has_acquire_fence = True\<rparr>) (se_windows se) of
       (Inl _, w) \<Rightarrow> (Inl SinkGraphics, (s, se\<lparr>se_windows := w\<rparr>))
     | (Inr (Inl e), w) \<Rightarrow>
         (Inl (SinkComposer e), (sk_cancel_reserved_target display buffer s, se\<lparr>se_windows := w\<rparr>))
     | (Inr (Inr frame), w) \<Rightarrow>
     case sk_send_surfaceflinger_frame env display frame target acquire_fence opaque s of
       (Inr _, s1) \<Rightarrow> (Inr (af_frame_id frame), (s1, se\<lparr>se_windows := w\<rparr>))
     | (Inl e, s1) \<Rightarrow>
         (Inl e, (sk_cancel_reserved_target display buffer s1,
           se\<lparr>se_windows := snd (tw_on_display display
             (co_cancel_unsubmitted_target (af_frame_id frame)) w)\<rparr>)))"

definition headless_fence :: "sink_env \<Rightarrow> owned_fd channel_op" where
  "headless_fence env = (\<lambda>ch.
     case (case ch_headless_completion ch of
             None \<Rightarrow> map_err (\<lambda>_. SinkGraphics)
               (bind_result (android_timelines_create (sv_drm env) (sv_drm_second env))
                 (\<lambda>tm. Inr (tm, 0)))
           | Some c \<Rightarrow> Inr c) of
       Inl e \<Rightarrow> (Inl e, ch)
     | Inr (tm, point) \<Rightarrow>
     let ch0 = ch\<lparr>ch_headless_completion := Some (tm, point)\<rparr> in
     case checked_add point 1 of
       None \<Rightarrow> (Inl SinkGraphics, ch0)
     | Some n \<Rightarrow>
     case android_signal_acquire (sv_drm env) tm n of
       (Inl e, tl1) \<Rightarrow> (Inl SinkGraphics, ch\<lparr>ch_headless_completion := Some (tl1, point)\<rparr>)
     | (Inr _, tl1) \<Rightarrow>
     case android_export_acquire_fence (sv_drm_second env) tl1 n of
       (Inl e, tl2) \<Rightarrow> (Inl SinkGraphics, ch\<lparr>ch_headless_completion := Some (tl2, n)\<rparr>)
     | (Inr fence, tl2) \<Rightarrow> (Inr fence, ch\<lparr>ch_headless_completion := Some (tl2, n)\<rparr>))"

definition sk_complete_headless_frame ::
  "sink_env \<Rightarrow> display_id \<Rightarrow> owned_fd option \<Rightarrow> unit sink_op" where
  "sk_complete_headless_frame env display ready =
     op_bind (sk_channel display (NoRenderTarget display)) (\<lambda>ch s.
     if bd_destroy_requested (ch_binding ch) then (Inl (NoRenderTarget display), s)
     else case (case ready of Some fd \<Rightarrow> (Inr fd, ch) | None \<Rightarrow> headless_fence env ch) of
       (Inl e, ch1) \<Rightarrow> (Inl e, set_channel display ch1 s)
     | (Inr fence, ch1) \<Rightarrow>
         (Inr (), set_channel display (ch1\<lparr>ch_present_fence := Some fence\<rparr>) s))"

definition sk_take_direct_present_fence :: "display_id \<Rightarrow> (hwc_error, sink, owned_fd) op" where
  "sk_take_direct_present_fence display = (\<lambda>s.
     case fmlookup (sk_tasks s) display of
       None \<Rightarrow> (Inl BadDisplay, s)
     | Some ch \<Rightarrow>
         (ok_or NoResources (ch_present_fence ch),
          set_channel display (ch\<lparr>ch_present_fence := None\<rparr>) s))"

end
