(* ===== verification/Sink_Invariant.thy ===== *)
theory Sink_Invariant
  imports Presentation_Sink
begin

section \<open>Ownership of render targets on the Android side\<close>

text \<open>
  The invariant of \<open>DenialPresentationSink\<close> together with the Composer session it presents from, kept
  by every operation of either: a target is busy exactly while a frame occupies it, frames that wait for
  a release are the frames that occupy targets, each under the same buffer as in the Composer's ledger,
  and a revoked target stays only while somebody uses it.  From it: a release that the bridge accepts
  always finds its target, and a submission that fails gives everything back.
\<close>

subsection \<open>The invariant\<close>

text \<open>Targets against the frames that occupy them.\<close>

definition target_ok :: "(frame_id, buffer_id) fmap \<Rightarrow> buffer_id \<Rightarrow> host_render_target \<Rightarrow> bool" where
  "target_ok frames b t \<longleftrightarrow> buf_id (ht_metadata t) = b \<and> \<not> (ht_reserved t \<and> ht_busy t) \<and>
     (ht_revoked t \<longrightarrow> ht_reserved t \<or> ht_busy t) \<and> (ht_busy t \<longleftrightarrow> b |\<in>| fmran frames)"

definition targets_ok :: "(frame_id, buffer_id) fmap \<Rightarrow> (buffer_id, host_render_target) fmap \<Rightarrow> bool" where
  "targets_ok frames targets \<longleftrightarrow> exclusive frames \<and> fmran frames |\<subseteq>| fmdom targets \<and>
     fmpred (target_ok frames) targets"

text \<open>A channel against the ledger of its display.\<close>

definition channel_ok :: "display_id \<Rightarrow> (frame_id, buffer_id) fmap \<Rightarrow> task_channel \<Rightarrow> bool" where
  "channel_ok d ledger ch \<longleftrightarrow> bd_display (ch_binding ch) = d \<and>
     fmdom (bd_pending_release_points (ch_binding ch)) = fmdom (ch_frame_targets ch) \<and>
     targets_ok (ch_frame_targets ch) (ch_render_targets ch) \<and> ch_frame_targets ch \<subseteq>\<^sub>f ledger"

text \<open>Two channels that claim the same task object or the same Android task.\<close>

definition same_owner :: "task_channel \<Rightarrow> task_channel \<Rightarrow> bool" where
  "same_owner ch ch' \<longleftrightarrow> bd_object (ch_binding ch) = bd_object (ch_binding ch') \<or>
     bd_task (ch_binding ch) = bd_task (ch_binding ch') \<and> bd_task (ch_binding ch) \<noteq> None"

definition channels_distinct :: "(display_id, task_channel) fmap \<Rightarrow> bool" where
  "channels_distinct tasks \<longleftrightarrow> (\<forall>d d' ch ch'. fmlookup tasks d = Some ch \<longrightarrow>
     fmlookup tasks d' = Some ch' \<longrightarrow> same_owner ch ch' \<longrightarrow> d = d')"

definition sk_inv :: "sink \<times> session \<Rightarrow> bool" where
  "sk_inv st \<longleftrightarrow> tw_inv (se_windows (snd st)) \<and> channels_distinct (sk_tasks (fst st)) \<and>
     fmpred (\<lambda>d. channel_ok d (display_frames (se_windows (snd st)) d)) (sk_tasks (fst st))"

text \<open>The part of a channel that the invariant speaks about.\<close>

type_synonym ownership = "task_object_id \<times> task_id option \<times> display_id \<times> (frame_id, u64) fmap \<times>
  (frame_id, buffer_id) fmap \<times> (buffer_id, host_render_target) fmap"

definition channel_core :: "task_channel \<Rightarrow> ownership" where
  "channel_core ch = (bd_object (ch_binding ch), bd_task (ch_binding ch), bd_display (ch_binding ch),
     bd_pending_release_points (ch_binding ch), ch_frame_targets ch, ch_render_targets ch)"

definition sink_core :: "sink \<Rightarrow> (display_id, ownership) fmap" where
  "sink_core s = fmmap channel_core (sk_tasks s)"

lemma channel_ok_core: "channel_core ch' = channel_core ch \<Longrightarrow> channel_ok d L ch' = channel_ok d L ch"
  by (simp add: channel_core_def channel_ok_def)

lemma sink_core_lookup:
  assumes "sink_core s' = sink_core s" and "fmlookup (sk_tasks s') d = Some ch'"
  obtains ch where "fmlookup (sk_tasks s) d = Some ch" "channel_core ch' = channel_core ch"
proof -
  have "map_option channel_core (fmlookup (sk_tasks s') d) = map_option channel_core (fmlookup (sk_tasks s) d)"
    using assms(1) by (metis fmlookup_map sink_core_def)
  with assms(2) that show ?thesis by (cases "fmlookup (sk_tasks s) d") simp_all
qed

lemma sk_inv_core:
  assumes inv: "sk_inv (s, se)" and core: "sink_core s' = sink_core s" and tw: "tw_inv (se_windows se')"
    and frames: "\<And>d. display_frames (se_windows se') d = display_frames (se_windows se) d"
  shows "sk_inv (s', se')"
proof -
  have "channels_distinct (sk_tasks s')"
    unfolding channels_distinct_def
  proof (intro allI impI)
    fix d d' ch ch'
    assume ch: "fmlookup (sk_tasks s') d = Some ch" and ch': "fmlookup (sk_tasks s') d' = Some ch'"
      and same: "same_owner ch ch'"
    obtain c where c: "fmlookup (sk_tasks s) d = Some c" "channel_core ch = channel_core c"
      using core ch by (rule sink_core_lookup)
    obtain c' where c': "fmlookup (sk_tasks s) d' = Some c'" "channel_core ch' = channel_core c'"
      using core ch' by (rule sink_core_lookup)
    have "same_owner c c'"
      using same c(2) c'(2) by (simp add: same_owner_def channel_core_def)
    then show "d = d'"
      using inv c(1) c'(1) unfolding sk_inv_def channels_distinct_def fst_conv by blast
  qed
  moreover have "fmpred (\<lambda>d. channel_ok d (display_frames (se_windows se') d)) (sk_tasks s')"
  proof (rule fmpredI)
    fix d ch'
    assume "fmlookup (sk_tasks s') d = Some ch'"
    then obtain ch where ch: "fmlookup (sk_tasks s) d = Some ch" "channel_core ch' = channel_core ch"
      by (rule sink_core_lookup [OF core])
    then have "channel_ok d (display_frames (se_windows se) d) ch"
      using inv by (auto simp: sk_inv_def dest: fmpredD)
    then show "channel_ok d (display_frames (se_windows se') d) ch'"
      unfolding frames channel_ok_core [OF ch(2)] .
  qed
  ultimately show ?thesis using tw by (simp add: sk_inv_def)
qed

lemma sk_inv_channel:
  assumes "sk_inv (s, se)" and "fmlookup (sk_tasks s) d = Some ch"
  shows "channel_ok d (display_frames (se_windows se) d) ch"
  using assms by (auto simp: sk_inv_def dest: fmpredD)

text \<open>Replacing one channel, possibly together with the ledger of its display.\<close>

lemma sk_inv_set_channel:
  assumes inv: "sk_inv (s, se)" and ch: "fmlookup (sk_tasks s) d = Some ch"
    and tasks: "sk_tasks s1 = sk_tasks s" and tw: "tw_inv (se_windows se')"
    and ids: "bd_object (ch_binding ch') = bd_object (ch_binding ch)"
      "bd_task (ch_binding ch') = bd_task (ch_binding ch)"
    and ok: "channel_ok d (display_frames (se_windows se') d) ch'"
    and frames: "\<And>d'. d' \<noteq> d \<Longrightarrow> display_frames (se_windows se') d' = display_frames (se_windows se) d'"
  shows "sk_inv (set_channel d ch' s1, se')"
proof -
  have old: "same_owner c c' \<Longrightarrow> a = a'"
    if "fmlookup (sk_tasks s) a = Some c" "fmlookup (sk_tasks s) a' = Some c'" for a a' c c'
    using inv that unfolding sk_inv_def channels_distinct_def fst_conv by blast
  have "same_owner ch' c = same_owner ch c" "same_owner c ch' = same_owner c ch" for c
    using ids by (simp_all add: same_owner_def)
  then have "channels_distinct (fmupd d ch' (sk_tasks s))"
    using old ch by (auto simp: channels_distinct_def)
  moreover have "fmpred (\<lambda>d. channel_ok d (display_frames (se_windows se') d)) (fmupd d ch' (sk_tasks s))"
    using sk_inv_channel [OF inv] ok frames by (auto simp: fmpred_iff)
  ultimately show ?thesis
    using tasks tw by (simp add: sk_inv_def set_channel_def)
qed

lemma set_sorted_list_of_fmap: "(k, v) \<in> set (sorted_list_of_fmap m) \<longleftrightarrow> fmlookup m k = Some v"
  by (auto simp: sorted_list_of_fmap_def fmlookup_dom_iff image_iff)

lemma channel_of_object_Some:
  assumes "channel_of_object object s = Some (d, ch)"
  shows "fmlookup (sk_tasks s) d = Some ch" and "bd_object (ch_binding ch) = object"
proof -
  have "(d, ch) \<in> set (sorted_list_of_fmap (sk_tasks s)) \<and> bd_object (ch_binding ch) = object"
    using assms unfolding channel_of_object_def by (auto simp: find_Some_iff in_set_conv_nth)
  then show "fmlookup (sk_tasks s) d = Some ch" and "bd_object (ch_binding ch) = object"
    by (simp_all add: set_sorted_list_of_fmap)
qed

lemma channel_of_object_None:
  "channel_of_object object s = None \<longleftrightarrow>
     (\<forall>d ch. fmlookup (sk_tasks s) d = Some ch \<longrightarrow> bd_object (ch_binding ch) \<noteq> object)"
  by (auto simp: channel_of_object_def find_None_iff set_sorted_list_of_fmap)

subsection \<open>Targets\<close>

lemma target_okD:
  assumes "targets_ok F T" and "fmlookup T b = Some t"
  shows "target_ok F b t"
  using assms by (auto simp: targets_ok_def dest: fmpredD)

lemma targets_ok_set:
  assumes "targets_ok F T" and "target_ok F b t"
  shows "targets_ok F (fmupd b t T)"
  using assms unfolding targets_ok_def by (auto simp: fmpred_iff)

lemma targets_ok_drop:
  assumes "targets_ok F T" and "b |\<notin>| fmran F"
  shows "targets_ok F (fmdrop b T)"
  using assms unfolding targets_ok_def by (auto simp: fmpred_iff)

lemma targets_ok_occupy:
  assumes ok: "targets_ok F T" and t: "fmlookup T b = Some t" "ht_reserved t" and f: "f |\<notin>| fmdom F"
  shows "targets_ok (fmupd f b F) (fmupd b (t\<lparr>ht_reserved := False, ht_busy := True\<rparr>) T)"
proof -
  have free: "b |\<notin>| fmran F"
    using target_okD [OF ok t(1)] t(2) by (auto simp: target_ok_def)
  then show ?thesis
    using ok t f unfolding targets_ok_def
    by (auto simp: fmpred_iff target_ok_def exclusive_reserve fmran_reserve fmdomI)
qed

lemma targets_ok_release:
  assumes ok: "targets_ok F T" and f: "fmlookup F f = Some b"
  obtains t where "fmlookup T b = Some t" "ht_busy t" "\<not> ht_reserved t"
    "targets_ok (fmdrop f F) (if ht_revoked t then fmdrop b T else fmupd b (t\<lparr>ht_busy := False\<rparr>) T)"
proof -
  have ran: "fmran (fmdrop f F) = fmran F |-| {|b|}" and ex: "exclusive F"
    using ok f fmran_retire [of F f b] unfolding targets_ok_def by blast+
  have "b |\<in>| fmran F" using f by (rule fmranI)
  then have "b |\<in>| fmdom T"
    using ok unfolding targets_ok_def by (meson fsubsetD)
  then obtain t where t: "fmlookup T b = Some t"
    by (auto simp: fmlookup_dom_iff)
  have tok: "target_ok F b t" using target_okD [OF ok t] .
  have "target_ok (fmdrop f F) b' t'" if "b' \<noteq> b" "fmlookup T b' = Some t'" for b' t'
    using target_okD [OF ok that(2)] that(1) unfolding target_ok_def ran by auto
  moreover have "target_ok (fmdrop f F) b (t\<lparr>ht_busy := False\<rparr>)" if "\<not> ht_revoked t"
    using tok that unfolding target_ok_def ran by auto
  ultimately have "targets_ok (fmdrop f F)
      (if ht_revoked t then fmdrop b T else fmupd b (t\<lparr>ht_busy := False\<rparr>) T)"
    using ok unfolding targets_ok_def ran by (auto simp: fmpred_iff exclusive_retire split: if_split_asm)
  with tok t \<open>b |\<in>| fmran F\<close> that [of t] show ?thesis by (auto simp: target_ok_def)
qed

subsection \<open>Operations that leave ownership alone\<close>

lemma sink_core_set:
  assumes "fmlookup (sk_tasks s) d = Some ch" and "channel_core ch' = channel_core ch"
    and "sk_tasks s1 = sk_tasks s"
  shows "sink_core (set_channel d ch' s1) = sink_core s"
  using assms unfolding sink_core_def set_channel_def by (intro fmap_ext) auto

lemma sk_send_tasks [simp]: "sk_tasks (snd (sk_send env m fds s)) = sk_tasks s"
  by (auto simp: sk_send_def split: sum.split)

lemma sk_send_result:
  assumes "sk_send env m fds s = (r, s1)"
  shows "sk_tasks s1 = sk_tasks s"
  using sk_send_tasks [of env m fds s] assms by simp

lemma sk_channel_bind:
  "op_bind (sk_channel d e) k s =
     (case fmlookup (sk_tasks s) d of None \<Rightarrow> (Inl e, s) | Some ch \<Rightarrow> k ch s)"
  by (simp add: sk_channel_def op_bind_def split: option.split)

lemma op_lift_bind:
  "op_bind (op_lift r) k s = (case r of Inl e \<Rightarrow> (Inl e, s) | Inr x \<Rightarrow> k x s)"
  by (simp add: op_bind_def op_lift_def)

lemma op_bind_known:
  "m s = (r, s1) \<Longrightarrow> op_bind m k s = (case r of Inl e \<Rightarrow> (Inl e, s1) | Inr x \<Rightarrow> k x s1)"
  by (simp add: op_bind_def split: sum.split)

lemma sink_core_upd:
  assumes "fmlookup (sk_tasks s) d = Some ch" and "channel_core (f ch) = channel_core ch"
  shows "sink_core (snd (upd_channel d f s)) = sink_core s"
  using assms by (simp add: upd_channel_def sink_core_set)

lemma core_request_activation: "sink_core (snd (sk_request_activation env d s)) = sink_core s"
  by (simp add: sk_request_activation_def sk_channel_bind sink_core_def split: option.split)

lemma core_bind_layer_stream: "sink_core (snd (sk_bind_layer_stream env d fds s)) = sink_core s"
  by (simp add: sk_bind_layer_stream_def sk_channel_bind sink_core_def split: option.split)

lemma core_take_present_fence: "sink_core (snd (sk_take_direct_present_fence d s)) = sink_core s"
  by (auto simp: sk_take_direct_present_fence_def channel_core_def intro!: sink_core_set
      split: option.split)

lemma headless_fence_core: "headless_fence env ch = (r, ch') \<Longrightarrow> channel_core ch' = channel_core ch"
  by (auto simp: headless_fence_def channel_core_def Let_def
      split: option.split_asm sum.split_asm prod.split_asm)

lemma core_complete_headless: "sink_core (snd (sk_complete_headless_frame env d ready s)) = sink_core s"
proof (cases "fmlookup (sk_tasks s) d")
  case (Some ch)
  obtain r ch1 where fence: "(case ready of Some fd \<Rightarrow> (Inr fd, ch) | None \<Rightarrow> headless_fence env ch) = (r, ch1)"
    by fastforce
  then have "channel_core ch1 = channel_core ch"
    by (auto simp: headless_fence_core split: option.split_asm)
  moreover have "channel_core (ch1\<lparr>ch_present_fence := x\<rparr>) = channel_core ch1" for x
    by (simp add: channel_core_def)
  ultimately show ?thesis
    using Some fence by (cases r) (auto simp: sk_complete_headless_frame_def sk_channel_bind
      intro!: sink_core_set)
qed (simp add: sk_complete_headless_frame_def sk_channel_bind)

lemma core_request_destroy:
  "bd_request_destroy send (ch_binding ch) = (r, b) \<Longrightarrow> channel_core (ch\<lparr>ch_binding := b\<rparr>) = channel_core ch"
  by (auto simp: bd_request_destroy_def channel_core_def split: sum.split_asm if_split_asm)

lemma core_request_removal: "sink_core (snd (sk_request_task_removal env d s)) = sink_core s"
  by (auto simp: sk_request_task_removal_def sk_channel_bind core_request_destroy intro!: sink_core_set
      split: option.split prod.split)

lemma core_ensure_targets:
  assumes "fmlookup (sk_tasks s) d = Some ch"
  shows "sink_core (snd (sk_ensure_render_targets env d ch s)) = sink_core s"
proof -
  have "sink_core (snd (upd_channel d (\<lambda>ch. ch\<lparr>ch_target_demand := g ch\<rparr>) s1)) = sink_core s"
    if "sk_tasks s1 = sk_tasks s" for s1 g
    using sink_core_upd [of s1 d ch "\<lambda>ch. ch\<lparr>ch_target_demand := g ch\<rparr>"] assms that
    by (simp add: channel_core_def sink_core_def)
  then show ?thesis
    by (auto simp: sk_ensure_render_targets_def snd_op_bind Let_def dest: sk_send_result
        split: option.split prod.split sum.split) (simp_all add: sink_core_def sk_send_result)
qed

subsection \<open>Tasks and targets\<close>

lemma sk_inv_tasks_same: "sk_inv (s, se) \<Longrightarrow> sk_tasks s' = sk_tasks s \<Longrightarrow> sk_inv (s', se)"
  by (simp add: sk_inv_def)

lemma channel_ok_fresh:
  "bd_new object reservation = Inr b \<Longrightarrow> rs_display reservation = d \<Longrightarrow> channel_ok d L (fresh_channel b tl1)"
  by (auto simp: bd_new_def fresh_channel_def channel_ok_def targets_ok_def fmsubset_alt_def fmpred_iff
      split: if_split_asm)

lemma sk_register_cases:
  assumes "sk_register_task env object reservation s = (r, s')"
  obtains (same) "sk_tasks s' = sk_tasks s" "\<not> is_ok r"
  | (registered) b tl1 where "bd_new object reservation = Inr b" "r = Inr ()"
      "rs_display reservation |\<notin>| fmdom (sk_tasks s)" "channel_of_object object s = None"
      "sk_tasks s' = fmupd (rs_display reservation) (fresh_channel b tl1) (sk_tasks s)"
proof -
  show ?thesis
  proof (cases "rs_display reservation |\<in>| fmdom (sk_tasks s) \<or> channel_of_object object s \<noteq> None")
    case True
    with assms show ?thesis by (intro same) (auto simp: sk_register_task_def split: if_split_asm)
  next
    case False
    then have new: "rs_display reservation |\<notin>| fmdom (sk_tasks s)" "channel_of_object object s = None"
      by (metis False)+
    with assms show ?thesis
      unfolding sk_register_task_def
      by (auto simp: op_bind_def op_lift_def set_channel_def map_err_Inr_iff
          split: sum.split_asm prod.split_asm dest!: sk_send_result
          intro: same registered [OF _ _ new])
  qed
qed

lemma sk_inv_register:
  assumes inv: "sk_inv (s, se)"
  shows "sk_inv (snd (sk_register_task env object reservation s), se)"
proof (cases "sk_register_task env object reservation s")
  case (Pair r s')
  from Pair show ?thesis
  proof (cases rule: sk_register_cases)
    case same
    with inv Pair show ?thesis by (auto intro: sk_inv_tasks_same)
  next
    case (registered b tl1)
    let ?d = "rs_display reservation" and ?ch = "fresh_channel b tl1"
    have ids: "bd_object b = object" "bd_task b = None"
      using registered(1) by (auto simp: bd_new_def split: if_split_asm)
    have fresh: "\<not> same_owner c ?ch" "\<not> same_owner ?ch c" if "fmlookup (sk_tasks s) d = Some c" for d c
      using registered(4) ids that
      by (auto simp: channel_of_object_None same_owner_def fresh_channel_def) metis+
    have "channels_distinct (fmupd ?d ?ch (sk_tasks s))"
      using inv fresh unfolding sk_inv_def channels_distinct_def by auto
    moreover have "channel_ok ?d L ?ch" for L
      using registered(1) refl by (rule channel_ok_fresh)
    ultimately show ?thesis
      using inv Pair registered(5) by (auto simp: sk_inv_def fmpred_iff)
  qed
qed

lemma sk_inv_unregister: "sk_inv (s, se) \<Longrightarrow> sk_inv (snd (sk_unregister_task d s), se)"
  by (auto simp: sk_unregister_task_def sk_inv_def channels_distinct_def fmpred_iff split: option.split)

lemma sk_bind_cases:
  assumes "sk_bind_task env d t s = (r, s')"
  obtains (same) "sk_tasks s' = sk_tasks s"
  | (bound) ch where "fmlookup (sk_tasks s) d = Some ch"
      "fmpred (\<lambda>d' ch'. d' = d \<or> bd_task (ch_binding ch') \<noteq> Some t) (sk_tasks s)"
      "sk_tasks s' = fmupd d (ch\<lparr>ch_binding := (ch_binding ch)\<lparr>bd_task := Some t\<rparr>\<rparr>) (sk_tasks s)"
proof (cases "fmlookup (sk_tasks s) d")
  case None
  with assms same show ?thesis
    by (auto simp: sk_bind_task_def sk_channel_bind split: if_split_asm)
next
  case (Some ch)
  show ?thesis
  proof (cases "fmpred (\<lambda>d' ch'. d' = d \<or> bd_task (ch_binding ch') \<noteq> Some t) (sk_tasks s) \<and>
      t \<noteq> 0 \<and> bd_task (ch_binding ch) = None")
    case True
    then have "op_bind (sk_send env (BindTask (bd_object (ch_binding ch)) t) []) (\<lambda>_ s1. (Inr (),
        set_channel d (ch\<lparr>ch_binding := (ch_binding ch)\<lparr>bd_task := Some t\<rparr>\<rparr>) s1)) s = (r, s')"
      using assms Some by (simp add: sk_bind_task_def sk_channel_bind op_bind_def [of "op_lift x" for x]
          bd_bind_task_message_def bd_mark_task_bound_def)
    with True Some show ?thesis
      by (auto simp: op_bind_def set_channel_def split: prod.split_asm sum.split_asm
          dest!: sk_send_result intro: same bound)
  next
    case False
    with assms Some have "s' = s"
      by (auto simp: sk_bind_task_def sk_channel_bind op_bind_def [of "op_lift x" for x]
          bd_bind_task_message_def split: if_split_asm)
    with same show ?thesis by simp
  qed
qed

lemma sk_inv_bind:
  assumes inv: "sk_inv (s, se)"
  shows "sk_inv (snd (sk_bind_task env d t s), se)"
proof (cases "sk_bind_task env d t s")
  case (Pair r s')
  from Pair show ?thesis
  proof (cases rule: sk_bind_cases)
    case same
    with inv Pair show ?thesis by (auto intro: sk_inv_tasks_same)
  next
    case (bound ch)
    let ?ch = "ch\<lparr>ch_binding := (ch_binding ch)\<lparr>bd_task := Some t\<rparr>\<rparr>"
    have "same_owner ?ch c \<Longrightarrow> d' = d" "same_owner c ?ch \<Longrightarrow> d' = d"
      if c: "fmlookup (sk_tasks s) d' = Some c" for d' c
    proof -
      have "bd_task (ch_binding c) = Some t \<Longrightarrow> d' = d"
        using bound(2) c by (auto simp: fmpred_iff)
      moreover have "bd_object (ch_binding c) = bd_object (ch_binding ch) \<Longrightarrow> d' = d"
        using inv c bound(1) unfolding sk_inv_def channels_distinct_def same_owner_def by auto
      ultimately show "same_owner ?ch c \<Longrightarrow> d' = d" "same_owner c ?ch \<Longrightarrow> d' = d"
        by (auto simp: same_owner_def)
    qed
    then have "channels_distinct (fmupd d ?ch (sk_tasks s))"
      using inv unfolding sk_inv_def channels_distinct_def by auto
    moreover have "channel_ok d L ?ch = channel_ok d L ch" for L
      by (simp add: channel_ok_def)
    ultimately show ?thesis
      using inv bound(1,3) Pair unfolding sk_inv_def by (auto simp: fmpred_iff)
  qed
qed

lemma channel_ok_set_target:
  "channel_ok d L ch \<Longrightarrow> target_ok (ch_frame_targets ch) k t \<Longrightarrow> channel_ok d L (set_target k t ch)"
  by (simp add: channel_ok_def set_target_def targets_ok_set)

lemma channel_ok_drop_target:
  "channel_ok d L ch \<Longrightarrow> k |\<notin>| fmran (ch_frame_targets ch) \<Longrightarrow> channel_ok d L (drop_target k ch)"
  by (simp add: channel_ok_def drop_target_def targets_ok_drop)

lemma channel_ok_target:
  "channel_ok d L ch \<Longrightarrow> fmlookup (ch_render_targets ch) k = Some t \<Longrightarrow> target_ok (ch_frame_targets ch) k t"
  unfolding channel_ok_def by (blast dest: target_okD)

lemma target_binding [simp]:
  "ch_binding (set_target k t ch) = ch_binding ch" "ch_binding (drop_target k ch) = ch_binding ch"
  by (simp_all add: set_target_def drop_target_def)

lemma sk_inv_set_target:
  assumes "sk_inv (s, se)" and "fmlookup (sk_tasks s) d = Some ch"
    and "target_ok (ch_frame_targets ch) k t"
  shows "sk_inv (set_channel d (set_target k t ch) s, se)"
  using assms channel_ok_set_target [OF sk_inv_channel [OF assms(1,2)] assms(3)]
  by (intro sk_inv_set_channel [OF assms(1,2)]) (auto simp: sk_inv_def)

lemma sk_inv_drop_target:
  assumes "sk_inv (s, se)" and "fmlookup (sk_tasks s) d = Some ch"
    and "k |\<notin>| fmran (ch_frame_targets ch)"
  shows "sk_inv (set_channel d (drop_target k ch) s, se)"
  using assms channel_ok_drop_target [OF sk_inv_channel [OF assms(1,2)] assms(3)]
  by (intro sk_inv_set_channel [OF assms(1,2)]) (auto simp: sk_inv_def)

lemma sk_inv_target:
  assumes "sk_inv (s, se)" and "fmlookup (sk_tasks s) d = Some ch"
    and "fmlookup (ch_render_targets ch) k = Some t"
  shows "target_ok (ch_frame_targets ch) k t"
  using channel_ok_target [OF sk_inv_channel [OF assms(1,2)] assms(3)] .

lemma idle_target_Some:
  assumes "idle_target serial ch = Some (k, t)"
  shows "fmlookup (ch_render_targets ch) k = Some t" and "ht_configure_serial t = serial"
    and "\<not> ht_reserved t" and "\<not> ht_busy t" and "\<not> ht_revoked t"
proof -
  have "(k, t) \<in> set (sorted_list_of_fmap (ch_render_targets ch)) \<and> ht_configure_serial t = serial \<and>
      \<not> ht_reserved t \<and> \<not> ht_busy t \<and> \<not> ht_revoked t"
    using assms unfolding idle_target_def by (auto simp: find_Some_iff in_set_conv_nth)
  then show "fmlookup (ch_render_targets ch) k = Some t" and "ht_configure_serial t = serial"
    and "\<not> ht_reserved t" and "\<not> ht_busy t" and "\<not> ht_revoked t"
    by (simp_all add: set_sorted_list_of_fmap)
qed

lemma sk_acquire_cases:
  assumes "sk_acquire_surfaceflinger_target env d s = (r, s')"
  obtains (failed) e where "r = Inl e" "sink_core s' = sink_core s"
  | (reserved) ch ch1 s1 serial k t fds where "fmlookup (sk_tasks s) d = Some ch"
      "\<not> bd_destroy_requested (ch_binding ch)"
      "sink_core s1 = sink_core s" "fmlookup (sk_tasks s1) d = Some ch1" "channel_core ch1 = channel_core ch"
      "dm_serial (ch_target_demand ch) = Some serial" "idle_target serial ch = Some (k, t)"
      "r = Inr (imported_target t fds)" "s' = set_channel d (set_target k (t\<lparr>ht_reserved := True\<rparr>) ch1) s1"
proof (cases "fmlookup (sk_tasks s) d")
  case None
  with assms failed show ?thesis by (auto simp: sk_acquire_surfaceflinger_target_def sk_channel_bind)
next
  case (Some ch)
  obtain r1 s1 where ens: "sk_ensure_render_targets env d ch s = (r1, s1)" by fastforce
  with core_ensure_targets [OF Some, of env] have core: "sink_core s1 = sink_core s" by simp
  obtain ch1 where ch1: "fmlookup (sk_tasks s1) d = Some ch1" "channel_core ch = channel_core ch1"
    using core [symmetric] Some by (rule sink_core_lookup)
  show ?thesis
  proof (cases "bd_destroy_requested (ch_binding ch)")
    case True
    with assms Some failed show ?thesis
      by (auto simp: sk_acquire_surfaceflinger_target_def sk_channel_bind)
  next
    case False
    have eq: "sk_acquire_surfaceflinger_target env d s =
      (case r1 of Inl e \<Rightarrow> (Inl e, s1) | Inr _ \<Rightarrow>
       case dm_serial (ch_target_demand ch) of None \<Rightarrow> (Inl (NoRenderTarget d), s1) | Some serial \<Rightarrow>
       case idle_target serial ch of None \<Rightarrow> (Inl (NoRenderTarget d), s1) | Some (k, t) \<Rightarrow>
       case sv_try_clone env (ht_plane_fds t) of None \<Rightarrow> (Inl SinkGraphics, s1) | Some fds \<Rightarrow>
         (Inr (imported_target t fds), set_channel d (set_target k (t\<lparr>ht_reserved := True\<rparr>) ch1) s1))"
      using Some False ens ch1
      by (auto simp: sk_acquire_surfaceflinger_target_def sk_channel_bind
          op_bind_known [of "sk_ensure_render_targets env d ch" s, OF ens]
          op_lift_bind op_bind_def [of "upd_channel d g" for d g] upd_channel_def op_return_def
          split: sum.split option.split)
    with assms show ?thesis
      using failed core reserved [OF Some False core ch1(1) ch1(2) [symmetric]]
      by (auto split: sum.split_asm option.split_asm prod.split_asm)
  qed
qed

lemma sk_inv_same_core: "sk_inv (s, se) \<Longrightarrow> sink_core s' = sink_core s \<Longrightarrow> sk_inv (s', se)"
  by (rule sk_inv_core) (auto simp: sk_inv_def)

lemma sk_inv_acquire:
  assumes inv: "sk_inv (s, se)"
  shows "sk_inv (snd (sk_acquire_surfaceflinger_target env d s), se)"
proof (cases "sk_acquire_surfaceflinger_target env d s")
  case (Pair r s')
  from Pair show ?thesis
  proof (cases rule: sk_acquire_cases)
    case (reserved ch ch1 s1 serial k t fds)
    have inv1: "sk_inv (s1, se)" using inv reserved(3) by (rule sk_inv_same_core)
    have t: "fmlookup (ch_render_targets ch1) k = Some t" "\<not> ht_reserved t" "\<not> ht_busy t" "\<not> ht_revoked t"
      using idle_target_Some [OF reserved(7)] reserved(5) by (simp_all add: channel_core_def)
    have "target_ok (ch_frame_targets ch1) k (t\<lparr>ht_reserved := True\<rparr>)"
      using sk_inv_target [OF inv1 reserved(4) t(1)] t by (simp add: target_ok_def)
    with sk_inv_set_target [OF inv1 reserved(4)] Pair reserved show ?thesis by simp
  qed (use Pair sk_inv_same_core [OF inv] in simp)
qed

lemma sink_core_set_channel: "sink_core (set_channel d c s) = fmupd d (channel_core c) (sink_core s)"
  by (rule fmap_ext) (simp add: sink_core_def set_channel_def)

lemma cancel_core:
  assumes "sink_core s' = sink_core s"
  shows "sink_core (sk_cancel_reserved_target d k s') = sink_core (sk_cancel_reserved_target d k s)"
proof (cases "fmlookup (sk_tasks s') d")
  case None
  then have "fmlookup (sk_tasks s) d = None"
    using arg_cong [OF assms, of "\<lambda>m. fmlookup m d"] by (simp add: sink_core_def)
  with None assms show ?thesis by (simp add: sk_cancel_reserved_target_def)
next
  case (Some ch')
  obtain ch where ch: "fmlookup (sk_tasks s) d = Some ch" "channel_core ch' = channel_core ch"
    using assms Some by (rule sink_core_lookup)
  have targets: "ch_render_targets ch' = ch_render_targets ch"
    "channel_core (set_target k t ch') = channel_core (set_target k t ch)"
    "channel_core (drop_target k ch') = channel_core (drop_target k ch)" for t
    using ch(2) by (simp_all add: channel_core_def set_target_def drop_target_def)
  show ?thesis
    unfolding sk_cancel_reserved_target_def Some ch(1) option.case targets(1)
    by (cases "fmlookup (ch_render_targets ch) k")
      (simp_all only: assms option.case Let_def sink_core_set_channel targets(2,3) if_distrib [of channel_core])
qed

lemma sk_inv_cancel:
  assumes inv: "sk_inv (s, se)"
  shows "sk_inv (sk_cancel_reserved_target d k s, se)"
proof (cases "fmlookup (sk_tasks s) d")
  case (Some ch)
  show ?thesis
  proof (cases "fmlookup (ch_render_targets ch) k")
    case t: (Some t)
    have ok: "target_ok (ch_frame_targets ch) k t" using inv Some t by (rule sk_inv_target)
    show ?thesis
      using sk_inv_set_target [OF inv Some, of k] sk_inv_drop_target [OF inv Some, of k] ok Some t
      by (auto simp: sk_cancel_reserved_target_def Let_def target_ok_def)
  qed (use inv Some in \<open>simp add: sk_cancel_reserved_target_def\<close>)
qed (use inv in \<open>simp add: sk_cancel_reserved_target_def\<close>)

lemma sk_inv_register_target:
  assumes inv: "sk_inv (s, se)"
  shows "sk_inv (snd (sk_register_render_target object serial buffer ds s), se)"
proof (cases "channel_of_object object s")
  case None
  with inv show ?thesis
    by (simp add: sk_register_render_target_def op_lift_bind split: sum.split)
next
  case (Some dch)
  then obtain d ch where dch: "channel_of_object object s = Some (d, ch)" by (cases dch) auto
  then have ch: "fmlookup (sk_tasks s) d = Some ch" by (rule channel_of_object_Some)
  have new: "target_ok (ch_frame_targets ch) (buf_id buffer) t"
    if "buf_id buffer |\<notin>| fmdom (ch_render_targets ch)"
      "t = \<lparr>ht_configure_serial = serial, ht_metadata = buffer, ht_plane_fds = planes,
        ht_reserved = False, ht_busy = False, ht_revoked = False\<rparr>" for t planes
  proof -
    have "buf_id buffer |\<notin>| fmran (ch_frame_targets ch)"
      using sk_inv_channel [OF inv ch] that(1) unfolding channel_ok_def targets_ok_def by (meson fsubsetD)
    with that show ?thesis by (simp add: target_ok_def)
  qed
  with inv dch show ?thesis
    by (auto simp: sk_register_render_target_def op_lift_bind split: sum.split
        intro: sk_inv_set_target [OF inv ch])
qed

lemma sk_inv_unregister_target:
  assumes inv: "sk_inv (s, se)"
  shows "sk_inv (snd (sk_unregister_render_target object k s), se)"
proof (cases "channel_of_object object s")
  case (Some dch)
  then obtain d ch where dch: "channel_of_object object s = Some (d, ch)" by (cases dch) auto
  then have ch: "fmlookup (sk_tasks s) d = Some ch" by (rule channel_of_object_Some)
  show ?thesis
  proof (cases "fmlookup (ch_render_targets ch) k")
    case (Some t)
    have ok: "target_ok (ch_frame_targets ch) k t" using inv ch Some by (rule sk_inv_target)
    show ?thesis
      using sk_inv_set_target [OF inv ch, of k "t\<lparr>ht_revoked := True\<rparr>"] sk_inv_drop_target [OF inv ch, of k]
        ok dch Some
      by (auto simp: sk_unregister_render_target_def target_ok_def)
  qed (use inv dch in \<open>simp add: sk_unregister_render_target_def\<close>)
qed (use inv in \<open>simp add: sk_unregister_render_target_def\<close>)

subsection \<open>Events of the host\<close>

lemma channel_configured_core:
  "channel_configured event ch = (r, ch') \<Longrightarrow> channel_core ch' = channel_core ch"
  by (cases event) (auto simp: channel_core_def op_return_def split: sum.split_asm)

lemma channel_released_other:
  "(\<And>ob f bu p. m \<noteq> BufferReleased ob f bu p) \<Longrightarrow> channel_released m ch = (Inr (), ch)"
  by (cases m) (auto simp: op_return_def)

lemma binding_same_core:
  "quiet_result (ch_binding ch, se) (b, se') \<Longrightarrow> channel_core (ch\<lparr>ch_binding := b\<rparr>) = channel_core ch"
  by (simp add: quiet_result_def binding_same_def channel_core_def)

text \<open>
  What an event does: anything but an accepted release leaves ownership alone, and an accepted release
  finds its frame and its target, whatever the order of events was.
\<close>

lemma sk_event_cases:
  assumes inv: "sk_inv (s, se)" and op: "sk_apply_task_event m (s, se) = (r, (s', se'))"
  obtains (quiet) "sink_core s' = sink_core s" "tw_inv (se_windows se')"
      "\<And>d. display_frames (se_windows se') d = display_frames (se_windows se) d"
      "\<And>ob f bu p. m = BufferReleased ob f bu p \<Longrightarrow>
         r = Inl (SinkUnknownObject ob) \<or> (\<exists>e. r = Inl (SinkBridge e))"
  | (released) d ch f bu p t where "m = BufferReleased (bd_object (ch_binding ch)) f bu p"
      "fmlookup (sk_tasks s) d = Some ch" "fmlookup (bd_pending_release_points (ch_binding ch)) f = Some p"
      "fmlookup (ch_frame_targets ch) f = Some bu" "fmlookup (ch_render_targets ch) bu = Some t"
      "ht_busy t" "\<not> ht_reserved t"
      "r = Inr (AppliedBufferReleased \<lparr>rf_frame_id = f, rf_buffer_id = bu, rf_has_release_fence = True\<rparr>)"
      "s' = set_channel d (ch\<lparr>
         ch_binding := (ch_binding ch)\<lparr>bd_pending_release_points :=
           fmdrop f (bd_pending_release_points (ch_binding ch))\<rparr>,
         ch_frame_targets := fmdrop f (ch_frame_targets ch),
         ch_render_targets := (if ht_revoked t then fmdrop bu (ch_render_targets ch)
           else fmupd bu (t\<lparr>ht_busy := False\<rparr>) (ch_render_targets ch))\<rparr>) s"
      "targets_ok (fmdrop f (ch_frame_targets ch)) (if ht_revoked t then fmdrop bu (ch_render_targets ch)
           else fmupd bu (t\<lparr>ht_busy := False\<rparr>) (ch_render_targets ch))"
      "tw_inv (se_windows se')"
      "\<And>d'. display_frames (se_windows se') d' = (if d' = d then fmdrop f (display_frames (se_windows se) d)
         else display_frames (se_windows se) d')"
proof (cases "message_object m")
  case None
  with op have "r = Inl ConnectionMessage" "s' = s" "se' = se" by (simp_all add: sk_apply_task_event_def)
  with inv None show ?thesis by (intro quiet) (auto simp: sk_inv_def)
next
  case (Some ob)
  show ?thesis
  proof (cases "channel_of_object ob s")
    case None
    with op Some have "r = Inl (SinkUnknownObject ob)" "s' = s" "se' = se"
      by (simp_all add: sk_apply_task_event_def)
    with inv Some show ?thesis by (intro quiet) (auto simp: sk_inv_def)
  next
    case ch0: (Some dch)
    then obtain d ch where dch: "channel_of_object ob s = Some (d, ch)" by (cases dch) auto
    note ch = channel_of_object_Some [OF dch]
    have tw: "tw_inv (se_windows se)" using inv by (simp add: sk_inv_def)
    have ok: "channel_ok d (display_frames (se_windows se) d) ch" using inv ch(1) by (rule sk_inv_channel)
    obtain rb b1 se1 where ev: "bd_apply_event m (ch_binding ch, se) = (rb, (b1, se1))"
      by (metis prod.exhaust)
    from ev show ?thesis
    proof (cases rule: apply_event_cases)
      case q: quiet
      have core: "channel_core (ch\<lparr>ch_binding := b1\<rparr>) = channel_core ch"
        using q(1) by (rule binding_same_core)
      have frames: "tw_inv (se_windows se1)"
        "display_frames (se_windows se1) d' = display_frames (se_windows se) d'" for d'
        using q(1) tw by (simp_all add: quiet_result_def)
      show ?thesis
      proof (cases rb)
        case (Inl e)
        with op Some dch ev have "r = Inl (SinkBridge e)" "se' = se1"
          "s' = set_channel d (ch\<lparr>ch_binding := b1\<rparr>) s" by (simp_all add: sk_apply_task_event_def)
        with frames core sink_core_set [OF ch(1)] show ?thesis by (intro quiet) auto
      next
        case (Inr event)
        with q(2) have rel: "m \<noteq> BufferReleased ob' f bu p" for ob' f bu p by auto
        obtain rc ch2 where conf: "channel_configured event (ch\<lparr>ch_binding := b1\<rparr>) = (rc, ch2)" by fastforce
        with core have "channel_core ch2 = channel_core ch" using channel_configured_core by metis
        moreover have "s' = set_channel d ch2 s" "se' = se1"
          using op Some dch ev Inr conf channel_released_other [OF rel]
          by (auto simp: sk_apply_task_event_def op_bind_def op_return_def split: sum.split_asm)
        ultimately have "sink_core s' = sink_core s" "se' = se1"
          using sink_core_set [OF ch(1)] by simp_all
        with frames show ?thesis by (intro quiet) (simp_all add: rel)
      qed
    next
      case rel: (released f bu p)
      have d: "bd_display (ch_binding ch) = d" and pend: "f |\<in>| fmdom (ch_frame_targets ch)"
        using ok fmdomI [OF rel(3)] by (simp_all add: channel_ok_def)
      then obtain b0 where b0: "fmlookup (ch_frame_targets ch) f = Some b0"
        by (auto simp: fmlookup_dom_iff)
      then have "fmlookup (display_frames (se_windows se) d) f = Some b0"
        using ok by (auto simp: channel_ok_def fmsubset_alt_def fmpred_iff)
      with rel(4) d b0 have frame: "fmlookup (ch_frame_targets ch) f = Some bu" by simp
      obtain t where t: "fmlookup (ch_render_targets ch) bu = Some t" "ht_busy t" "\<not> ht_reserved t"
        "targets_ok (fmdrop f (ch_frame_targets ch)) (if ht_revoked t then fmdrop bu (ch_render_targets ch)
           else fmupd bu (t\<lparr>ht_busy := False\<rparr>) (ch_render_targets ch))"
        using ok frame by (auto simp: channel_ok_def elim: targets_ok_release)
      have event: "rb = Inr (AppliedBufferReleased \<lparr>rf_frame_id = f, rf_buffer_id = bu,
          rf_has_release_fence = True\<rparr>)" using rel(2) .
      have "r = rb'" "se' = se1" "s' = set_channel d (ch\<lparr>
         ch_binding := b1, ch_frame_targets := fmdrop f (ch_frame_targets ch),
         ch_render_targets := (if ht_revoked t then fmdrop bu (ch_render_targets ch)
           else fmupd bu (t\<lparr>ht_busy := False\<rparr>) (ch_render_targets ch))\<rparr>) s"
        if "rb' = Inr (AppliedBufferReleased \<lparr>rf_frame_id = f, rf_buffer_id = bu,
          rf_has_release_fence = True\<rparr>)" for rb'
        using op Some dch ev t(1) frame that unfolding sk_apply_task_event_def rel(1) event
        by (auto simp: op_bind_def op_return_def drop_target_def set_target_def Let_def)
      from this [OF refl] show ?thesis
        by (intro released [OF rel(1) ch(1) rel(3) frame t(1-3) _ _ t(4)])
          (use rel(5,7,8) d tw in simp_all)
    qed
  qed
qed

lemma sk_inv_event:
  assumes inv: "sk_inv (s, se)"
  shows "sk_inv (snd (sk_apply_task_event m (s, se)))"
proof -
  obtain r s' se' where op: "sk_apply_task_event m (s, se) = (r, (s', se'))" by (metis prod.exhaust)
  from inv op show ?thesis
  proof (cases rule: sk_event_cases)
    case quiet
    with inv op show ?thesis by (simp add: sk_inv_core)
  next
    case (released d ch f bu p t)
    have ok: "channel_ok d (display_frames (se_windows se) d) ch"
      using inv released(2) by (rule sk_inv_channel)
    then have "channel_ok d (fmdrop f (display_frames (se_windows se) d)) (ch\<lparr>
         ch_binding := (ch_binding ch)\<lparr>bd_pending_release_points :=
           fmdrop f (bd_pending_release_points (ch_binding ch))\<rparr>,
         ch_frame_targets := fmdrop f (ch_frame_targets ch),
         ch_render_targets := (if ht_revoked t then fmdrop bu (ch_render_targets ch)
           else fmupd bu (t\<lparr>ht_busy := False\<rparr>) (ch_render_targets ch))\<rparr>)"
      using released(10) by (auto simp: channel_ok_def fmsubset_alt_def fmpred_iff)
    then have "sk_inv (s', se')"
      unfolding released(9)
      by (intro sk_inv_set_channel [OF inv released(2)]) (use released(11,12) in auto)
    with op show ?thesis by simp
  qed
qed

lemma sk_inv_acknowledge:
  assumes inv: "sk_inv (s, se)"
  shows "sk_inv (snd (sk_acknowledge_configure env d serial (s, se)))"
proof (cases "fmlookup (sk_tasks s) d")
  case (Some ch)
  obtain r b se1 where op: "bd_acknowledge_configure serial (ch_binding ch, se) = (r, (b, se1))"
    by (metis prod.exhaust)
  have "quiet_result (ch_binding ch, se) (snd (bd_acknowledge_configure serial (ch_binding ch, se)))"
    unfolding bd_acknowledge_configure_def
    by (rule quiet_bind) (auto intro!: quiet_bridge_composer simp: composer_event_steps split: prod.split)
  then have q: "quiet_result (ch_binding ch, se) (b, se1)" using op by simp
  have core: "sink_core (set_channel d (ch\<lparr>ch_binding := b\<rparr>) s1) = sink_core s" if "sk_tasks s1 = sk_tasks s" for s1
    using sink_core_set [OF Some binding_same_core [OF q] that] .
  have inv1: "sk_inv (s1, se1)" if "sink_core s1 = sink_core s" for s1
    by (rule sk_inv_core [OF inv that]) (use q inv in \<open>auto simp: quiet_result_def sk_inv_def\<close>)
  have "sink_core (snd (sk_send env m [] (set_channel d (ch\<lparr>ch_binding := b\<rparr>) s))) = sink_core s" for m
    using core [OF refl] by (simp add: sink_core_def)
  with Some op inv1 core [OF refl] show ?thesis
    by (auto simp: sk_acknowledge_configure_def split: sum.split prod.split) (metis snd_conv)
qed (use inv in \<open>simp add: sk_acknowledge_configure_def\<close>)

subsection \<open>The log of sent messages\<close>

text \<open>The frames of one object that a stretch of the log presents, with buffer and release point.\<close>

type_synonym flight = "frame_id \<times> buffer_id \<times> u64"

fun message_flights :: "task_object_id \<Rightarrow> android_message \<Rightarrow> flight list" where
  "message_flights ob (Present ob' f b _ _ p _) = (if ob' = ob then [(f, b, p)] else [])"
| "message_flights ob _ = []"

definition presents :: "task_object_id \<Rightarrow> (android_message \<times> owned_fd list) list \<Rightarrow> flight list" where
  "presents ob log = concat (map (message_flights ob \<circ> fst) log)"

definition sk_logs :: "sink \<Rightarrow> sink \<Rightarrow> (task_object_id \<Rightarrow> flight list) \<Rightarrow> bool" where
  "sk_logs s s' fl \<longleftrightarrow> (\<exists>new. sk_sent s' = sk_sent s @ new \<and> (\<forall>ob. presents ob new = fl ob))"

abbreviation sk_quiet :: "sink \<Rightarrow> sink \<Rightarrow> bool" where
  "sk_quiet s s' \<equiv> sk_logs s s' (\<lambda>_. [])"

lemma presents_append: "presents ob (xs @ ys) = presents ob xs @ presents ob ys"
  by (simp add: presents_def)

lemma sk_logs_same [simp, intro]: "sk_sent s' = sk_sent s \<Longrightarrow> sk_quiet s s'"
  by (auto simp: sk_logs_def presents_def)

lemma sk_logs_trans: "sk_quiet s s1 \<Longrightarrow> sk_logs s1 s2 fl \<Longrightarrow> sk_logs s s2 fl"
  unfolding sk_logs_def by (auto simp: presents_append)

lemma sk_logs_sent_cong: "sk_logs s s1 fl \<Longrightarrow> sk_sent s2 = sk_sent s1 \<Longrightarrow> sk_logs s s2 fl"
  by (simp add: sk_logs_def)

lemma sk_logs_send: "sk_send env m fds s = (Inr u, s') \<Longrightarrow> sk_logs s s' (\<lambda>ob. message_flights ob m)"
  by (auto simp: sk_send_def sk_logs_def presents_def split: sum.split_asm)

lemma sk_quiet_send:
  "(\<And>ob. message_flights ob m = []) \<Longrightarrow> sk_send env m fds s = (r, s') \<Longrightarrow> sk_quiet s s'"
  by (auto simp: sk_send_def sk_logs_def presents_def split: sum.split_asm)

lemma sk_quiet_op_send: "(\<And>ob. message_flights ob m = []) \<Longrightarrow> sk_quiet s (snd (sk_send env m fds s))"
  by (rule sk_quiet_send [OF _ surjective_pairing])

lemma sk_quiet_bind:
  assumes "sk_quiet s (snd (m s))" and "\<And>x s1. sk_quiet s1 (snd (k x s1))"
  shows "sk_quiet s (snd (op_bind m k s))"
proof (cases "m s")
  case (Pair r s1)
  then show ?thesis
    using assms(1) sk_logs_trans [OF _ assms(2), of s s1] by (cases r) simp_all
qed

lemma sk_send_failed: "sk_send env m fds s = (Inl e, s') \<Longrightarrow> s' = s"
  by (auto simp: sk_send_def split: sum.split_asm)

lemma sk_sent_set [simp]:
  "sk_sent (set_channel d ch s) = sk_sent s" "sk_sent (sk_cancel_reserved_target d k s) = sk_sent s"
  "sk_sent (snd (upd_channel d f s)) = sk_sent s"
  by (auto simp: set_channel_def sk_cancel_reserved_target_def upd_channel_def Let_def split: option.split)

subsection \<open>Submission\<close>

lemma co_submit_cases:
  assumes "co_inv c" and "co_submit_rendered_target d target c = (r, c')"
  obtains (error) e where "r = Inl e" "co_ledger c' = co_ledger c"
  | (accepted) frame where "r = Inr frame" "af_buffer frame = ct_buffer target"
      "af_damage frame = ct_damage target" "af_requires_acquire_fence frame"
      "af_frame_id frame |\<notin>| fmdom (co_ledger c)"
      "co_ledger c' = fmupd (af_frame_id frame) (buf_id (ct_buffer target)) (co_ledger c)"
proof (cases "d = co_display c \<and> co_power_mode c = PowerOn")
  case False
  with assms error show ?thesis
    by (auto simp: co_submit_rendered_target_def require_display_bind op_lift_bind composer_op_simps
        split: if_split_asm)
next
  case True
  obtain rp t' where ps: "ps_submit (co_transport c) (ct_buffer target) (ct_damage target)
      (ct_has_acquire_fence target) = (rp, t')" by fastforce
  have inv: "ps_inv (co_transport c)" using assms(1) by (simp add: co_inv_def)
  have res: "r = map_err ComposerTransport rp" "co_transport c' = t'"
    using assms(2) True ps
    by (auto simp: co_submit_rendered_target_def require_display_bind op_lift_bind composer_op_simps)
  from ps show ?thesis
  proof (cases rule: ps_submit_cases)
    case (error e)
    with res that(1) show ?thesis by (simp add: co_ledger_def)
  next
    case (accepted cfg f)
    with res next_frame_fresh(1) [OF inv accepted(12)] that(2) show ?thesis
      by (simp add: co_ledger_def)
  qed
qed

lemma co_ledger_cancel:
  "co_ledger (snd (co_cancel_unsubmitted_target f c)) = fmdrop f (co_ledger c)"
  by (auto simp: co_cancel_unsubmitted_target_def on_transport_apply ps_cancel_unsubmitted_def co_ledger_def
      fmlookup_None_iff fmdrop_idle split: option.split)

text \<open>
  Presenting a frame: either nothing changes hands, with the points of a prepared frame forgotten
  again, or the target of the frame goes from reserved to busy.
\<close>

definition frame_sent_core :: "accepted_frame \<Rightarrow> u64 \<Rightarrow> host_render_target \<Rightarrow> task_channel \<Rightarrow> ownership" where
  "frame_sent_core frame p t ch = (bd_object (ch_binding ch), bd_task (ch_binding ch), bd_display (ch_binding ch),
     fmupd (af_frame_id frame) p (bd_pending_release_points (ch_binding ch)),
     fmupd (af_frame_id frame) (buf_id (af_buffer frame)) (ch_frame_targets ch),
     fmupd (buf_id (af_buffer frame)) (t\<lparr>ht_reserved := False, ht_busy := True\<rparr>) (ch_render_targets ch))"

lemma present_frame_cases:
  assumes op: "present_frame env d frame fence ch s = (r, s')" and ch: "fmlookup (sk_tasks s) d = Some ch"
    and t: "fmlookup (ch_render_targets ch) (buf_id (af_buffer frame)) = Some t"
  obtains (failed) e where "r = Inl e" "sink_core s' = sink_core s" "sk_quiet s s'"
  | (sent) ch' s1 p where "r = Inr ()" "af_frame_id frame |\<notin>| fmdom (bd_pending_release_points (ch_binding ch))"
      "sk_tasks s1 = sk_tasks s" "s' = set_channel d ch' s1" "channel_core ch' = frame_sent_core frame p t ch"
      "sk_logs s s' (\<lambda>ob. if ob = bd_object (ch_binding ch)
        then [(af_frame_id frame, buf_id (af_buffer frame), p)] else [])"
proof (cases "bd_prepare_present d frame (ch_binding ch)")
  case (Pair rp b)
  have core: "sink_core (set_channel d ch' s1) = sink_core s"
    if "sk_tasks s1 = sk_tasks s" "channel_core ch' = channel_core ch" for s1 ch'
    using sink_core_set [OF ch] that by blast
  from Pair show ?thesis
  proof (cases rule: prepare_present_cases)
    case (refused e)
    with Pair op have "r = Inl (SinkBridge e)" "s' = set_channel d (ch\<lparr>ch_binding := ch_binding ch\<rparr>) s"
      by (simp_all add: present_frame_def)
    with core [OF refl] failed show ?thesis by simp
  next
    case (prepared serial p)
    let ?reset = "ch_binding ch\<lparr>bd_next_timeline_point := p\<rparr>"
    have cancelled: "snd (bd_cancel_unsubmitted_present (af_frame_id frame) p b) = ?reset"
      using prepared by (simp add: bd_cancel_unsubmitted_present_def fmdrop_fmupd_fresh fmlookup_None_iff)
    have reverted: "channel_core (ch\<lparr>ch_binding := ?reset, ch_timelines := tls\<rparr>) = channel_core ch" for tls
      by (simp add: channel_core_def)
    have occupied: "channel_core (occupy_target frame pf (ch\<lparr>ch_binding := b, ch_timelines := tls\<rparr>)) =
        frame_sent_core frame p t ch" for pf tls
      using t prepared by (simp add: occupy_target_def set_target_def channel_core_def frame_sent_core_def Let_def)
    have log: "sk_logs s s' (\<lambda>ob. if ob = bd_object (ch_binding ch)
        then [(af_frame_id frame, buf_id (af_buffer frame), p)] else [])"
      if "sk_send env (Present (bd_object (ch_binding ch)) (af_frame_id frame) (buf_id (af_buffer frame))
        serial p p (af_damage frame)) [] s = (Inr u, s1)" "sk_sent s' = sk_sent s1" for u s1 s'
      using sk_logs_sent_cong [OF sk_logs_send [OF that(1)] that(2)]
      by (simp add: eq_commute [of _ "bd_object (ch_binding ch)"])
    show ?thesis
      using op Pair prepared(6) cancelled reverted occupied core failed sent [OF _ prepared(5)] log
      unfolding present_frame_def
      by (auto simp: Let_def dest: sk_send_result sk_send_failed split: prod.split_asm sum.split_asm)
  qed
qed

lemma core_announce_opacity:
  assumes "fmlookup (sk_tasks s) d = Some ch"
  shows "sink_core (snd (announce_opacity env d opaque ch s)) = sink_core s"
proof -
  have "sink_core (snd (upd_channel d (\<lambda>ch. ch\<lparr>ch_content_opaque := x\<rparr>) s1)) = sink_core s"
    if "sk_tasks s1 = sk_tasks s" for s1 x
    using sink_core_upd [of s1 d ch "\<lambda>ch. ch\<lparr>ch_content_opaque := x\<rparr>"] assms that
    by (simp add: channel_core_def sink_core_def)
  then show ?thesis
    by (auto simp: announce_opacity_def snd_op_bind op_return_def dest: sk_send_result
        split: prod.split sum.split) (simp_all add: sink_core_def sk_send_result)
qed

lemma quiet_announce_opacity: "sk_quiet s (snd (announce_opacity env d opaque ch s))"
  by (auto simp: announce_opacity_def op_return_def intro!: sk_quiet_bind sk_quiet_op_send)

lemma send_frame_cases:
  assumes op: "sk_send_surfaceflinger_frame env d frame target fence opaque s = (r, s')"
  obtains (failed) e where "r = Inl e" "sink_core s' = sink_core s" "sk_quiet s s'"
  | (sent) ch ch' s1 t p where "r = Inr ()" "fmlookup (sk_tasks s) d = Some ch"
      "fmlookup (ch_render_targets ch) (buf_id (af_buffer frame)) = Some t" "ht_reserved t"
      "\<not> ht_busy t" "\<not> ht_revoked t" "ht_metadata t = af_buffer frame"
      "af_frame_id frame |\<notin>| fmdom (bd_pending_release_points (ch_binding ch))"
      "sink_core s1 = sink_core s" "s' = set_channel d ch' s1" "channel_core ch' = frame_sent_core frame p t ch"
      "sk_logs s s' (\<lambda>ob. if ob = bd_object (ch_binding ch)
        then [(af_frame_id frame, buf_id (af_buffer frame), p)] else [])"
proof (cases "fmlookup (sk_tasks s) d")
  case None
  with op failed show ?thesis
    by (auto simp: sk_send_surfaceflinger_frame_def op_lift_bind sk_channel_bind Let_def reject_if_def
        split: if_split_asm)
next
  case (Some ch)
  show ?thesis
  proof (cases "irt_metadata target = af_buffer frame \<and> af_requires_acquire_fence frame \<and>
      \<not> bd_destroy_requested (ch_binding ch) \<and>
      (\<exists>t. fmlookup (ch_render_targets ch) (buf_id (af_buffer frame)) = Some t \<and> ht_reserved t \<and>
        \<not> ht_busy t \<and> \<not> ht_revoked t \<and> ht_metadata t = af_buffer frame)")
    case False
    with op Some failed show ?thesis
      by (auto simp: sk_send_surfaceflinger_frame_def op_lift_bind sk_channel_bind Let_def reject_if_def
          ok_or_def split: if_split_asm option.split_asm)
  next
    case True
    then obtain t where t: "fmlookup (ch_render_targets ch) (buf_id (af_buffer frame)) = Some t"
      "ht_reserved t" "\<not> ht_busy t" "\<not> ht_revoked t" "ht_metadata t = af_buffer frame" by blast
    obtain ra s1 where ann: "announce_opacity env d opaque ch s = (ra, s1)" by fastforce
    with core_announce_opacity [OF Some, of env opaque] have core: "sink_core s1 = sink_core s" by simp
    obtain ch1 where ch1: "fmlookup (sk_tasks s1) d = Some ch1" "channel_core ch = channel_core ch1"
      using core [symmetric] Some by (rule sink_core_lookup)
    have quiet: "sk_quiet s s1" using quiet_announce_opacity [of s env d opaque ch] ann by simp
    have bind: "op_bind (announce_opacity env d opaque ch) k s =
        (case ra of Inl e \<Rightarrow> (Inl e, s1) | Inr x \<Rightarrow> k x s1)" for k :: "unit \<Rightarrow> unit sink_op"
      using ann by (rule op_bind_known)
    have eq: "(case ra of Inl e \<Rightarrow> (Inl e, s1) | Inr x \<Rightarrow> present_frame env d frame fence ch1 s1) = (r, s')"
      using op True t Some ch1(1)
      by (cases ra) (auto simp: sk_send_surfaceflinger_frame_def op_lift_bind sk_channel_bind bind Let_def)
    show ?thesis
    proof (cases ra)
      case (Inl e)
      with eq core quiet failed [of e] show ?thesis by auto
    next
      case (Inr u)
      have same: "ch_render_targets ch1 = ch_render_targets ch"
        "fmdom (bd_pending_release_points (ch_binding ch1)) = fmdom (bd_pending_release_points (ch_binding ch))"
        "\<And>p. frame_sent_core frame p t ch1 = frame_sent_core frame p t ch"
        using ch1(2) by (simp_all add: channel_core_def frame_sent_core_def)
      have pf: "present_frame env d frame fence ch1 s1 = (r, s')" using eq Inr by simp
      have t1: "fmlookup (ch_render_targets ch1) (buf_id (af_buffer frame)) = Some t"
        using t(1) same(1) by simp
      from pf ch1(1) t1 show ?thesis
      proof (cases rule: present_frame_cases)
        case (failed e)
        with core that(1) sk_logs_trans [OF quiet] show ?thesis by simp
      next
        case (sent ch' s2 p)
        have "bd_object (ch_binding ch1) = bd_object (ch_binding ch)"
          using ch1(2) by (simp add: channel_core_def)
        with sk_logs_trans [OF quiet sent(6)] have log: "sk_logs s s' (\<lambda>ob. if ob = bd_object (ch_binding ch)
          then [(af_frame_id frame, buf_id (af_buffer frame), p)] else [])" by simp
        from sent(3) core have "sink_core s2 = sink_core s" by (simp add: sink_core_def)
        with sent same log that(2) [OF _ Some t] show ?thesis by simp
      qed
    qed
  qed
qed

text \<open>
  Submitting a target: a failure leaves frames and ledgers as they were and gives up the reservation;
  success enters one fresh frame in every record and makes the target busy.
\<close>

lemma submit_cases:
  assumes tw: "tw_inv (se_windows se)"
    and op: "sk_submit_surfaceflinger_target env d target fence opaque damage (s, se) = (r, (s', se'))"
  obtains (failed) e s1 where "r = Inl e" "sink_core s1 = sink_core s" "tw_inv (se_windows se')"
      "s' = (if d |\<in>| fmdom (tw_windows (se_windows se))
         then sk_cancel_reserved_target d (buf_id (irt_metadata target)) s1 else s1)" "sk_quiet s s'"
      "\<And>d'. display_frames (se_windows se') d' = display_frames (se_windows se) d'"
  | (submitted) ch ch' s1 t frame p where "r = Inr (af_frame_id frame)" "fmlookup (sk_tasks s) d = Some ch"
      "af_buffer frame = irt_metadata target"
      "fmlookup (ch_render_targets ch) (buf_id (af_buffer frame)) = Some t" "ht_reserved t"
      "af_frame_id frame |\<notin>| fmdom (bd_pending_release_points (ch_binding ch))"
      "af_frame_id frame |\<notin>| fmdom (display_frames (se_windows se) d)"
      "sink_core s1 = sink_core s" "s' = set_channel d ch' s1" "channel_core ch' = frame_sent_core frame p t ch"
      "tw_inv (se_windows se')"
      "\<And>d'. display_frames (se_windows se') d' =
        (if d' = d then fmupd (af_frame_id frame) (buf_id (af_buffer frame)) (display_frames (se_windows se) d)
         else display_frames (se_windows se) d')"
      "sk_logs s s' (\<lambda>ob. if ob = bd_object (ch_binding ch)
        then [(af_frame_id frame, buf_id (af_buffer frame), p)] else [])"
proof -
  define ct where "ct = \<lparr>ct_buffer = irt_metadata target, ct_damage = submitted_damage target damage,
    ct_has_acquire_fence = True\<rparr>"
  define w where "w = snd (tw_on_display d (co_submit_rendered_target d ct) (se_windows se))"
  let ?w2 = "\<lambda>f. snd (tw_on_display d (co_cancel_unsubmitted_target f) w)"
  have steps: "composer_steps (\<lambda>_. True) c (snd (co_submit_rendered_target d ct c))"
    "composer_steps (\<lambda>_. True) c (snd (co_cancel_unsubmitted_target f c))" for c f
    using composer_steps_step [of "\<lambda>_. True" "CoSubmit d ct" c]
      composer_steps_step [of "\<lambda>_. True" "CoCancel f" c] by simp_all
  have tw1: "tw_inv w"
    unfolding w_def using tw_inv_act [OF windows_act_on_display [OF steps(1)] tw] .
  have tw2: "tw_inv (?w2 f)" for f
    using tw_inv_act [OF windows_act_on_display [OF steps(2)] tw1] .
  show ?thesis
  proof (cases "fmlookup (tw_windows (se_windows se)) d")
    case None
    with op have "r = Inl SinkGraphics" "s' = s" "se' = se"
      by (simp_all add: sk_submit_surfaceflinger_target_def tw_on_display_def)
    with None tw failed [of SinkGraphics s] show ?thesis by (simp add: fmlookup_None_iff)
  next
    case (Some win)
    have dom: "d |\<in>| fmdom (tw_windows (se_windows se))" using Some by (rule fmdomI)
    have inv: "co_inv (win_composer win)"
      using tw_inv_windowD [OF tw Some] by (simp add: window_ok_def)
    obtain rc c' where co: "co_submit_rendered_target d ct (win_composer win) = (rc, c')" by fastforce
    have on: "tw_on_display d (co_submit_rendered_target d ct) (se_windows se) = (Inr rc, w)"
      using Some co by (simp add: w_def tw_on_display_def)
    have frames: "display_frames w d' = (if d' = d then co_ledger c' else display_frames (se_windows se) d')" for d'
      using Some co dom by (simp add: w_def display_frames_on_display)
    have ledger: "display_frames (se_windows se) d = co_ledger (win_composer win)"
      using Some by (simp add: display_frames_def)
    from inv co show ?thesis
    proof (cases rule: co_submit_cases)
      case (error e)
      with op on have "r = Inl (SinkComposer e)" "se' = se\<lparr>se_windows := w\<rparr>"
        "s' = sk_cancel_reserved_target d (buf_id (irt_metadata target)) s"
        by (simp_all add: sk_submit_surfaceflinger_target_def Let_def flip: ct_def)
      with error frames ledger tw1 dom failed [of _ s] show ?thesis by simp
    next
      case (accepted frame)
      let ?f = "af_frame_id frame"
      obtain rs s1 where snd: "sk_send_surfaceflinger_frame env d frame target fence opaque s = (rs, s1)"
        by fastforce
      have buf: "af_buffer frame = irt_metadata target" using accepted(2) by (simp add: ct_def)
      from snd show ?thesis
      proof (cases rule: send_frame_cases)
        case (failed e)
        have "display_frames (?w2 ?f) d' = display_frames (se_windows se) d'" for d'
        proof -
          have "d |\<in>| fmdom (tw_windows w)" using dom Some co by (simp add: w_def tw_on_display_def)
          moreover have "co_ledger (win_composer (the (fmlookup (tw_windows w) d))) = co_ledger c'"
            using Some co by (simp add: w_def tw_on_display_def)
          ultimately show ?thesis
            using accepted(5,6) ledger frames
            by (simp add: display_frames_on_display co_ledger_cancel fmdrop_fmupd_fresh fmlookup_None_iff)
        qed
        moreover have "r = Inl e" "se' = se\<lparr>se_windows := ?w2 ?f\<rparr>"
          "s' = sk_cancel_reserved_target d (buf_id (irt_metadata target)) s1"
          using op on accepted(1) snd failed(1)
          by (simp_all add: sk_submit_surfaceflinger_target_def Let_def flip: ct_def)
        ultimately show ?thesis
          using that(1) [OF _ failed(2)] tw2 dom sk_logs_sent_cong [OF failed(3)] by simp
      next
        case (sent ch ch' s2 t p)
        have "r = Inr ?f" "se' = se\<lparr>se_windows := w\<rparr>" "s' = s1"
          using op on accepted(1) snd sent(1)
          by (simp_all add: sk_submit_surfaceflinger_target_def Let_def flip: ct_def)
        moreover have "co_ledger c' = fmupd ?f (buf_id (af_buffer frame)) (co_ledger (win_composer win))"
          using accepted(6) buf by (simp add: ct_def)
        ultimately show ?thesis
          using that(2) [OF _ sent(2) buf sent(3,4,8) _ sent(9)] sent(10-12) accepted(5) frames ledger tw1
          by simp
      qed
    qed
  qed
qed

lemma sk_inv_submit:
  assumes inv: "sk_inv (s, se)"
  shows "sk_inv (snd (sk_submit_surfaceflinger_target env d target fence opaque damage (s, se)))"
proof -
  have tw: "tw_inv (se_windows se)" using inv by (simp add: sk_inv_def)
  obtain r s' se' where op: "sk_submit_surfaceflinger_target env d target fence opaque damage (s, se) = (r, (s', se'))"
    by (metis prod.exhaust)
  from tw op show ?thesis
  proof (cases rule: submit_cases)
    case (failed e s1)
    have "sk_inv (s1, se')" using inv failed(2,3,6) by (rule sk_inv_core)
    with failed(4) op show ?thesis by (simp add: sk_inv_cancel)
  next
    case (submitted ch ch' s1 t frame p)
    have ok: "channel_ok d (display_frames (se_windows se) d) ch"
      using inv submitted(2) by (rule sk_inv_channel)
    obtain ch1 where ch1: "fmlookup (sk_tasks s1) d = Some ch1" "channel_core ch = channel_core ch1"
      using submitted(8) [symmetric] submitted(2) by (rule sink_core_lookup)
    have fresh: "af_frame_id frame |\<notin>| fmdom (ch_frame_targets ch)"
      using ok submitted(6) by (simp add: channel_ok_def)
    have "channel_ok d (display_frames (se_windows se') d) ch'"
      using ok submitted(10,12) targets_ok_occupy [OF _ submitted(4,5) fresh]
      by (auto simp: channel_ok_def channel_core_def frame_sent_core_def fmsubset_alt_def fmpred_iff)
    moreover have "sk_inv (s1, se)" using inv submitted(8) by (rule sk_inv_same_core)
    ultimately have "sk_inv (s', se')"
      unfolding submitted(9) using ch1 submitted(10,11,12)
      by (intro sk_inv_set_channel [OF _ ch1(1)]) (auto simp: channel_core_def frame_sent_core_def)
    with op show ?thesis by simp
  qed
qed

subsection \<open>Runs\<close>

datatype sink_call =
    SkRequestActivation sink_env display_id
  | SkRegister sink_env task_object_id reserved_task_window_spec
  | SkBind sink_env display_id task_id
  | SkRequestRemoval sink_env display_id
  | SkUnregister display_id
  | SkBindLayerStream sink_env display_id "owned_fd list"
  | SkAcquire sink_env display_id
  | SkCancel display_id buffer_id
  | SkRegisterTarget task_object_id u32 buffer_metadata "attached_descriptor list"
  | SkUnregisterTarget task_object_id buffer_id
  | SkEvent denial_message
  | SkAcknowledge sink_env display_id u32
  | SkSubmit sink_env display_id imported_render_target "owned_fd option" bool "damage option"
  | SkHeadless sink_env display_id "owned_fd option"
  | SkTakeFence display_id
  | SkSession session_call

fun sk_step :: "sink \<times> session \<Rightarrow> sink_call \<Rightarrow> sink \<times> session" where
  "sk_step (s, se) (SkRequestActivation env d) = (snd (sk_request_activation env d s), se)"
| "sk_step (s, se) (SkRegister env object reservation) = (snd (sk_register_task env object reservation s), se)"
| "sk_step (s, se) (SkBind env d t) = (snd (sk_bind_task env d t s), se)"
| "sk_step (s, se) (SkRequestRemoval env d) = (snd (sk_request_task_removal env d s), se)"
| "sk_step (s, se) (SkUnregister d) = (snd (sk_unregister_task d s), se)"
| "sk_step (s, se) (SkBindLayerStream env d fds) = (snd (sk_bind_layer_stream env d fds s), se)"
| "sk_step (s, se) (SkAcquire env d) = (snd (sk_acquire_surfaceflinger_target env d s), se)"
| "sk_step (s, se) (SkCancel d b) = (sk_cancel_reserved_target d b s, se)"
| "sk_step (s, se) (SkRegisterTarget ob serial buffer ds) =
     (snd (sk_register_render_target ob serial buffer ds s), se)"
| "sk_step (s, se) (SkUnregisterTarget ob b) = (snd (sk_unregister_render_target ob b s), se)"
| "sk_step (s, se) (SkEvent m) = snd (sk_apply_task_event m (s, se))"
| "sk_step (s, se) (SkAcknowledge env d serial) = snd (sk_acknowledge_configure env d serial (s, se))"
| "sk_step (s, se) (SkSubmit env d target fence opaque damage) =
     snd (sk_submit_surfaceflinger_target env d target fence opaque damage (s, se))"
| "sk_step (s, se) (SkHeadless env d ready) = (snd (sk_complete_headless_frame env d ready s), se)"
| "sk_step (s, se) (SkTakeFence d) = (snd (sk_take_direct_present_fence d s), se)"
| "sk_step (s, se) (SkSession call) = (s, se_step se call)"

text \<open>The sink is the only part that presents and releases frames of the session.\<close>

fun sink_call_ok :: "sink_call \<Rightarrow> bool" where
  "sink_call_ok (SkSession call) = (\<not> session_frame_call call)"
| "sink_call_ok _ = True"

lemma tw_inv_session:
  assumes "tw_inv (se_windows se)"
  shows "tw_inv (se_windows (se_step se call))"
proof -
  have on: "tw_inv (snd (tw_on_display d f (se_windows se)))"
    if "\<And>c. composer_steps (\<lambda>_. True) c (snd (f c))" for d and f :: "composer \<Rightarrow> 'a \<times> composer"
    using tw_inv_act [OF windows_act_on_display [OF that] assms] .
  show ?thesis
  proof (cases call)
    case (SeCreateWindow spec)
    then show ?thesis
      using tw_inv_step [OF assms, of "TwCreate spec"] by (simp add: se_create_task_window_def op_on_apply)
  next
    case (SeCreateLayer d slots)
    have "tw_inv (snd (tw_on_display d (co_create_layer d l) (se_windows se)))" for l
      using composer_steps_step [of "\<lambda>_. True" "CoCreateLayer d l"] by (intro on) simp
    with SeCreateLayer assms se_create_layer_windows [of d slots se] show ?thesis by auto
  next
    case (SeExecute commands)
    then show ?thesis
      using assms tw_inv_act [OF execute_from_act [of commands se 0 "[]", THEN conjunct1] assms]
      by (auto simp: execute_commands_def split: prod.split)
  next
    case (SeHost wc)
    then show ?thesis using tw_inv_step [OF assms, of wc] by simp
  qed (auto simp: se_destroy_layer_def se_set_power_mode_def se_set_vsync_enabled_def
      se_release_presented_target_def snd_se_on_display intro!: on)
qed

lemma sk_inv_session:
  assumes inv: "sk_inv (s, se)" and "\<not> session_frame_call call"
  shows "sk_inv (s, se_step se call)"
  using sk_inv_core [OF inv refl tw_inv_session display_frames_session [OF assms(2)]] inv
  by (simp add: sk_inv_def)

lemmas sk_inv_steps = sk_inv_register sk_inv_bind sk_inv_unregister sk_inv_acquire sk_inv_cancel
  sk_inv_register_target sk_inv_unregister_target sk_inv_event sk_inv_acknowledge sk_inv_submit
  sk_inv_session

lemmas sink_core_steps = core_request_activation core_bind_layer_stream core_take_present_fence
  core_complete_headless core_request_removal

lemma sk_inv_step: "sk_inv st \<Longrightarrow> sink_call_ok call \<Longrightarrow> sk_inv (sk_step st call)"
  by (cases st; cases call) (simp_all add: sk_inv_steps sk_inv_same_core sink_core_steps)

lemma sk_inv_new: "sk_inv (sk_new, se_default)"
  using se_inv_default by (simp add: sk_inv_def sk_new_def channels_distinct_def se_inv_def)

lemma sk_inv_run: "sk_inv st \<Longrightarrow> list_all sink_call_ok calls \<Longrightarrow> sk_inv (run_ops sk_step st calls)"
  by (induction calls arbitrary: st) (simp_all add: sk_inv_step)

text \<open>Only a submission that succeeds presents a frame.\<close>

lemma sk_quiet_pure [simp]:
  "sk_quiet s (snd (op_lift r s))" "sk_quiet s (snd (op_return x s))" "sk_quiet s (snd (sk_channel d e s))"
  by (simp_all add: op_lift_def op_return_def sk_channel_def)

lemma sk_quiet_sends:
  "sk_quiet s (snd (sk_request_activation env d s))"
  "sk_quiet s (snd (sk_bind_layer_stream env d fds s))"
  "sk_quiet s (snd (sk_ensure_render_targets env d ch s))"
  unfolding sk_request_activation_def sk_bind_layer_stream_def sk_ensure_render_targets_def Let_def
  by (auto intro!: sk_quiet_bind sk_quiet_op_send split: option.split)

lemma sk_quiet_register: "sk_quiet s (snd (sk_register_task env ob reservation s))"
proof -
  have undo: "sk_quiet s1 (snd (case sk_send env (BindTimelines o1) fds s1 of
      (Inl e, s2) \<Rightarrow> (Inl e, snd (sk_send env (DestroyTask o2) [] s2))
    | (Inr _, s2) \<Rightarrow> (Inr (), set_channel d ch s2)))" for s1 d ch fds o1 o2
    using sk_quiet_op_send [of "BindTimelines o1" s1 env fds] sk_quiet_op_send [of "DestroyTask o2" _ env "[]"]
    by (auto split: prod.split sum.split intro: sk_logs_trans sk_logs_sent_cong)
  show ?thesis
    unfolding sk_register_task_def bd_create_task_message_def bd_bind_timelines_message_def
    by (auto intro!: sk_quiet_bind sk_quiet_op_send undo simp del: split_paired_All split: prod.split)
qed

lemma sk_quiet_acquire: "sk_quiet s (snd (sk_acquire_surfaceflinger_target env d s))"
  unfolding sk_acquire_surfaceflinger_target_def
  by (auto intro!: sk_quiet_bind sk_quiet_sends split: prod.split)

lemma sk_quiet_bind_task: "sk_quiet s (snd (sk_bind_task env d t s))"
proof -
  have "sk_quiet s1 (snd (case bd_mark_task_bound t b of (r, b') \<Rightarrow>
      (map_err SinkBridge r, set_channel d (f b') s1)))" for s1 b f
    by (simp split: prod.split)
  then show ?thesis
    unfolding sk_bind_task_def bd_bind_task_message_def
    by (auto simp: op_lift_bind intro!: sk_quiet_bind sk_quiet_op_send)
qed

lemma sk_quiet_local:
  "sk_quiet s (snd (sk_unregister_task d s))"
  "sk_quiet s (snd (sk_take_direct_present_fence d s))"
  "sk_quiet s (snd (sk_unregister_render_target ob k s))"
  "sk_quiet s (snd (sk_register_render_target ob serial buffer ds s))"
  "sk_quiet s (snd (sk_complete_headless_frame env d ready s))"
  "sk_quiet s (fst (snd (sk_apply_task_event m (s, se))))"
  unfolding sk_unregister_task_def sk_take_direct_present_fence_def sk_unregister_render_target_def
    sk_register_render_target_def sk_complete_headless_frame_def sk_apply_task_event_def
  by (auto simp: op_lift_bind sk_channel_bind split: option.split prod.split sum.split)

lemma sk_quiet_requests:
  "sk_quiet s (snd (sk_request_task_removal env d s))"
  "sk_quiet s (fst (snd (sk_acknowledge_configure env d serial (s, se))))"
proof -
  have "sk_quiet s (set_channel d ch (snd (sk_send env (DestroyTask ob) [] s)))" for ob ch
    by (rule sk_logs_sent_cong [OF sk_quiet_op_send]) simp_all
  then show "sk_quiet s (snd (sk_request_task_removal env d s))"
    unfolding sk_request_task_removal_def
    by (auto simp: sk_channel_bind split: option.split prod.split)
  have ack: "message_flights ob m = []"
    if "bd_acknowledge_configure serial st = (Inr m, st')" for ob m st st'
    using that by (auto simp: bd_acknowledge_configure_def op_bind_def split: prod.split_asm sum.split_asm)
  have "sk_quiet s s2" if "bd_acknowledge_configure serial st = (Inr m, st')"
      "sk_send env m [] (set_channel d ch s) = (r, s2)" for m st st' ch r s2
  proof -
    have "sk_quiet (set_channel d ch s) s2"
      using ack [OF that(1)] that(2) by (rule sk_quiet_send)
    then show ?thesis by (rule sk_logs_trans [rotated]) simp
  qed
  then show "sk_quiet s (fst (snd (sk_acknowledge_configure env d serial (s, se))))"
    unfolding sk_acknowledge_configure_def
    by (auto split: option.split prod.split sum.split)
qed

end
