(* ===== verification/Endpoint_Flow.thy ===== *)
theory Endpoint_Flow
  imports Endpoint_Invariant "HOL-Library.Multiset"
begin

section \<open>Frames through the endpoint\<close>

text \<open>
  The frames of one task object as they pass through the host's endpoint: a present brings a frame with
  its buffer and its release point, the endpoint holds it in flight, and a \<open>BufferReleased\<close> hands exactly
  this triple back.  Counted as multisets, nothing that the endpoint does makes a frame out of nothing or
  returns one twice: what it sends back and what it holds afterwards is within what it held before,
  plus the frame of the present it received.
\<close>

subsection \<open>Flights\<close>

definition ep_flights :: "task_object_id \<Rightarrow> endpoint \<Rightarrow> (frame_id \<times> buffer_id \<times> u64) set" where
  "ep_flights ob e =
     (case fmlookup (ep_tasks e) ob of
        None \<Rightarrow> {}
      | Some te \<Rightarrow> {(f, pw_buffer w, pw_release_point w) | f w.
          fmlookup (ts_in_flight (te_state te)) f = Some w})"

fun released_flights :: "task_object_id \<Rightarrow> denial_message \<Rightarrow> (frame_id \<times> buffer_id \<times> u64) list" where
  "released_flights ob (BufferReleased ob' f b p) = (if ob' = ob then [(f, b, p)] else [])"
| "released_flights ob _ = []"

definition releases ::
  "task_object_id \<Rightarrow> (denial_message \<times> owned_fd list) list \<Rightarrow> (frame_id \<times> buffer_id \<times> u64) list" where
  "releases ob log = concat (map (released_flights ob \<circ> fst) log)"

lemma releases_simps [simp]:
  "releases ob [] = []" "releases ob (xs @ ys) = releases ob xs @ releases ob ys"
  "releases ob [(m, fds)] = released_flights ob m"
  by (simp_all add: releases_def)

lemma finite_flights [simp]: "finite (ep_flights ob e)"
proof -
  have "finite {(f, pw_buffer w, pw_release_point w) | f w. fmlookup m f = Some w}"
    for m :: "(frame_id, pending_wire_frame) fmap"
  proof -
    have "{(f, pw_buffer w, pw_release_point w) | f w. fmlookup m f = Some w} \<subseteq>
        (\<lambda>f. (f, pw_buffer (the (fmlookup m f)), pw_release_point (the (fmlookup m f)))) ` fset (fmdom m)"
      by (force simp: image_iff fmdomI)
    then show ?thesis by (rule finite_subset) simp
  qed
  then show ?thesis by (simp add: ep_flights_def split: option.split)
qed

text \<open>A step of the endpoint that sends back or keeps at most what it had, plus \<open>extra\<close>.\<close>

definition ep_moves ::
  "endpoint \<Rightarrow> endpoint \<Rightarrow> (task_object_id \<Rightarrow> (frame_id \<times> buffer_id \<times> u64) multiset) \<Rightarrow> bool" where
  "ep_moves e e' extra \<longleftrightarrow> (\<exists>new. ep_sent e' = ep_sent e @ new \<and>
     (\<forall>ob. mset (releases ob new) + mset_set (ep_flights ob e') \<subseteq># mset_set (ep_flights ob e) + extra ob))"

abbreviation ep_settles :: "endpoint \<Rightarrow> endpoint \<Rightarrow> bool" where
  "ep_settles e e' \<equiv> ep_moves e e' (\<lambda>_. {#})"

lemma ep_moves_still:
  assumes "ep_sent e' = ep_sent e @ new" and "\<And>ob. releases ob new = []"
    and "\<And>ob. ep_flights ob e' = ep_flights ob e"
  shows "ep_settles e e'"
  unfolding ep_moves_def using assms by (intro exI [of _ new]) simp

lemma ep_moves_trans:
  assumes "ep_settles e e1" and "ep_settles e1 e2"
  shows "ep_settles e e2"
proof -
  from assms obtain n1 n2 where n1: "ep_sent e1 = ep_sent e @ n1"
      "\<And>ob. mset (releases ob n1) + mset_set (ep_flights ob e1) \<subseteq># mset_set (ep_flights ob e)"
    and n2: "ep_sent e2 = ep_sent e1 @ n2"
      "\<And>ob. mset (releases ob n2) + mset_set (ep_flights ob e2) \<subseteq># mset_set (ep_flights ob e1)"
    unfolding ep_moves_def by auto
  have "mset (releases ob (n1 @ n2)) + mset_set (ep_flights ob e2) \<subseteq># mset_set (ep_flights ob e)" for ob
  proof -
    have "mset (releases ob n1) + (mset (releases ob n2) + mset_set (ep_flights ob e2)) \<subseteq>#
        mset (releases ob n1) + mset_set (ep_flights ob e1)"
      using n2(2) by (rule subset_mset.add_left_mono)
    also note n1(2)
    finally show ?thesis by (simp add: add.assoc)
  qed
  then show ?thesis
    unfolding ep_moves_def using n1(1) n2(1) by (intro exI [of _ "n1 @ n2"]) simp
qed

definition settles :: "'a ep_op \<Rightarrow> bool" where
  "settles m \<longleftrightarrow> keeps_inv m \<and> (\<forall>e. ep_inv e \<longrightarrow> ep_settles e (snd (m e)))"

lemma settlesD: "settles m \<Longrightarrow> ep_inv e \<Longrightarrow> ep_settles e (snd (m e))"
  by (simp add: settles_def)

lemma settles_bind:
  assumes "settles m" and "\<And>x. settles (k x)"
  shows "settles (op_bind m k)"
proof -
  have "keeps_inv (op_bind m k)" using assms by (simp add: settles_def keeps_inv_bind)
  moreover have "ep_settles e (snd (op_bind m k e))" if inv: "ep_inv e" for e
  proof (cases "m e")
    case (Pair r e1)
    with assms(1) inv have "ep_settles e e1" "ep_inv e1"
      by (metis settles_def snd_conv, metis settles_def keeps_invD snd_conv)
    with Pair assms(2) show ?thesis
      by (cases r) (auto simp: settles_def intro: ep_moves_trans)
  qed
  ultimately show ?thesis by (simp add: settles_def)
qed

text \<open>The ingredients of the operations.\<close>

lemma ep_flights_cong: "ep_tasks e' = ep_tasks e \<Longrightarrow> ep_flights ob e' = ep_flights ob e"
  by (simp add: ep_flights_def)

lemma ep_settles_refl [simp]: "ep_settles e e"
  by (rule ep_moves_still [of _ _ "[]"]) simp_all

lemma ep_settles_tasks:
  assumes "ep_sent e' = ep_sent e" and "\<And>ob. ep_flights ob e' = ep_flights ob e"
  shows "ep_settles e e'"
  using assms by (intro ep_moves_still [of _ _ "[]"]) simp_all

lemma settles_pure [simp]:
  "settles (op_return x)" "settles (op_lift r)" "settles (task_of ob)" "settles (require_flag flag)"
  using keeps_inv_pure by (auto simp: settles_def task_of_def require_flag_def)

lemma ep_settles_send:
  assumes "\<And>ob. released_flights ob m = []"
  shows "ep_settles e (snd (ep_send env m fds e))"
  unfolding ep_send_def using assms
  by (auto intro!: ep_moves_still [of _ _ "[(m, fds)]"] ep_flights_cong split: sum.split)

lemma settles_send:
  assumes "\<And>ob. released_flights ob m = []"
  shows "settles (ep_send env m fds)"
  using ep_settles_send [OF assms] by (simp add: settles_def)

lemma ep_flights_set_task:
  assumes "fmlookup (ep_tasks e) ob = Some te"
    and "ts_in_flight (te_state te') = ts_in_flight (te_state te)"
  shows "ep_flights o1 (set_task e ob te') = ep_flights o1 e"
  using assms by (auto simp: ep_flights_def)

lemma settles_on_task_state:
  assumes "\<And>s. ts_in_flight (snd (f s)) = ts_in_flight s" and "keeps_inv (on_task_state ob f)"
  shows "settles (on_task_state ob f)"
proof -
  have "ep_settles e (snd (on_task_state ob f e))" for e
  proof (cases "fmlookup (ep_tasks e) ob")
    case (Some te)
    have "ep_settles e (set_task e ob (te\<lparr>te_state := snd (f (te_state te))\<rparr>))"
      using ep_flights_set_task [OF Some] assms(1) by (intro ep_settles_tasks) simp_all
    moreover have "snd (on_task_state ob f e) = set_task e ob (te\<lparr>te_state := snd (f (te_state te))\<rparr>)"
      using Some by (simp add: on_task_state_def split: prod.split)
    ultimately show ?thesis by simp
  qed simp
  with assms(2) show ?thesis by (simp add: settles_def)
qed

lemma settles_task_steps [simp]:
  "settles (on_task_state ob (\<lambda>s. ts_replace_feedback s gen fs))"
  "settles (on_task_state ob (\<lambda>s. ts_configure s serial w h r))"
  "settles (on_task_state ob (\<lambda>s. ts_acknowledge_configure s serial))"
  "settles (on_task_state ob (\<lambda>s. ts_register_buffer s b))"
  "settles (on_task_state ob (\<lambda>s. ts_unregister_buffer s k))"
  using ts_quiet_steps by (auto intro!: settles_on_task_state simp: ts_quiet_def)

subsection \<open>Operations\<close>

text \<open>An update of one live task that keeps what it has in flight, and the log.\<close>

lemma ep_settles_set_task:
  "fmlookup (ep_tasks e) ob = Some te \<Longrightarrow> ts_in_flight (te_state te') = ts_in_flight (te_state te) \<Longrightarrow>
   ep_settles e (set_task e ob te')"
  by (intro ep_settles_tasks ep_flights_set_task) simp_all

lemma ep_settles_create: "ep_settles e (snd (create_task ob d package e))"
proof (rule ep_settles_tasks)
  show "ep_sent (snd (create_task ob d package e)) = ep_sent e"
    by (auto simp: create_task_def split: sum.split)
  show "ep_flights o1 (snd (create_task ob d package e)) = ep_flights o1 e" for o1
    unfolding create_task_def
    by (auto simp: ep_flights_def fmlookup_None_iff ts_new_def bind_result_def valid_object_def
        fresh_state_def fmdom_notD split: sum.splits if_splits)
qed

lemma ep_settles_flags:
  "ep_settles e (negotiated e caps)" "ep_settles e (e\<lparr>ep_ready := True\<rparr>)"
  by (auto intro!: ep_settles_tasks ep_flights_cong simp: negotiated_def)

lemma settles_hello: "settles (client_hello env lo hi caps)"
proof -
  have "ep_settles e (snd (client_hello env lo hi caps e))" for e
  proof -
    let ?e1 = "negotiated e caps"
    obtain r e2 where send: "ep_send env (server_hello ?e1) [] ?e1 = (r, e2)" by fastforce
    have "ep_settles ?e1 e2"
      using ep_settles_send [of "server_hello ?e1" ?e1 env "[]"] send by (simp add: server_hello_def)
    with ep_settles_flags(1) have e2: "ep_settles e e2" by (rule ep_moves_trans)
    then have "ep_settles e (e2\<lparr>ep_ready := True\<rparr>)" by (rule ep_moves_trans [OF _ ep_settles_flags(2)])
    with e2 send show ?thesis
      by (cases r) (auto simp: client_hello_def Let_def)
  qed
  with keeps_inv_client_hello show ?thesis by (simp add: settles_def)
qed

lemma settles_bind_task: "settles (bind_task ob t)"
proof -
  have "ep_settles e (snd (bind_task ob t e))" for e
    by (auto simp: bind_task_def intro!: ep_settles_set_task split: option.split)
  with keeps_inv_bind_task show ?thesis by (simp add: settles_def)
qed

lemma settles_destroy: "settles (destroy_task ob)"
proof -
  have "ep_settles e (snd (destroy_task ob e))" for e
  proof (rule ep_settles_tasks)
    show "ep_sent (snd (destroy_task ob e)) = ep_sent e"
      by (auto simp: destroy_task_def Let_def split: option.split)
    show "ep_flights o1 (snd (destroy_task ob e)) = ep_flights o1 e" for o1
      by (auto simp: destroy_task_def Let_def ep_flights_def split: option.split)
  qed
  with keeps_inv_destroy_task show ?thesis by (simp add: settles_def)
qed

lemma settles_bind_timelines: "settles (bind_timelines env ob ds)"
proof -
  have last: "ep_settles e (snd (case fmlookup (ep_tasks e) ob of
      None \<Rightarrow> (Inl (UnknownObject ob), e)
    | Some te \<Rightarrow> (Inr (ActTimelinesBound ob), set_task e ob (te\<lparr>te_timelines := Some tt\<rparr>))))" for e tt
    by (auto intro: ep_settles_set_task split: option.split)
  have bound: "ep_settles e (snd (on_task_state ob ts_bind_timelines e))" for e
    by (cases "fmlookup (ep_tasks e) ob")
      (auto simp: on_task_state_def ts_bind_timelines_def intro!: ep_settles_set_task)
  have "ep_settles e (snd (bind_timelines env ob ds e))" for e
    unfolding bind_timelines_def
    by (auto simp: op_lift_def op_bind_def split: sum.split prod.split)
      (metis bound last ep_moves_trans snd_conv)+
  with keeps_inv_bind_timelines show ?thesis by (simp add: settles_def)
qed

lemma settles_register_target: "settles (register_render_target env ob serial b planes)"
proof -
  have "ep_settles e (snd (register_render_target env ob serial b planes e))" if inv: "ep_inv e" for e
  proof -
    obtain r1 e1 where reg: "on_task_state ob (\<lambda>s. ts_register_buffer s b) e = (r1, e1)" by fastforce
    with settlesD [OF settles_task_steps(4) inv, of ob b] have e1: "ep_settles e e1" by simp
    obtain r2 e2 where send: "ep_send env (RegisterRenderTarget ob serial b) planes e1 = (r2, e2)" by fastforce
    have "ep_settles e1 e2"
      using ep_settles_send [of "RegisterRenderTarget ob serial b" e1 env planes] send by simp
    with e1 have e2: "ep_settles e e2" by (rule ep_moves_trans)
    have "ts_in_flight (snd (ts_unregister_buffer s k)) = ts_in_flight s" for s k
      using ts_quiet_steps(5) [of s k] by (simp add: ts_quiet_def)
    then have undo: "ep_settles e (set_task e2 ob (te\<lparr>te_state := snd (ts_unregister_buffer (te_state te) k)\<rparr>))"
      if "fmlookup (ep_tasks e2) ob = Some te" for te k
      using ep_moves_trans [OF e2 ep_settles_set_task [OF that]] by simp
    show ?thesis
      using reg send e1 e2 undo
      by (cases r1; cases r2) (auto simp: register_render_target_def op_bind_def split: option.split)
  qed
  with keeps_inv_register_render_target show ?thesis by (simp add: settles_def)
qed

lemma settles_unregister_target: "settles (unregister_render_target env ob k)"
proof -
  have "ep_settles e (snd (unregister_render_target env ob k e))" if inv: "ep_inv e" for e
  proof -
    obtain r1 e1 where reg: "on_task_state ob (\<lambda>s. ts_unregister_buffer s k) e = (r1, e1)" by fastforce
    with settlesD [OF settles_task_steps(5) inv, of ob k] have e1: "ep_settles e e1" by simp
    have inv1: "ep_inv e1"
      using keeps_invD [OF keeps_inv_task_steps(5) inv, of ob k] reg by simp
    obtain r2 e2 where send: "ep_send env (UnregisterRenderTarget ob k) [] e1 = (r2, e2)" by fastforce
    have "ep_settles e1 e2"
      using ep_settles_send [of "UnregisterRenderTarget ob k" e1 env "[]"] send by simp
    with e1 have e2: "ep_settles e e2" by (rule ep_moves_trans)
    have "ep_inv e2" using ep_inv_send [of env "UnregisterRenderTarget ob k" "[]" e1] send inv1 by simp
    then have undo: "ep_settles e (snd (op_bind (on_task_state ob (\<lambda>s. ts_register_buffer s m))
        (\<lambda>_. op_lift (Inl err) :: unit ep_op) e2))" for m err
      by (intro ep_moves_trans [OF e2] settlesD [OF settles_bind]) simp_all
    show ?thesis
      using reg send e1 e2 undo
      by (cases r1; cases r2) (auto simp: unregister_render_target_def op_bind_def [of "on_task_state ob (\<lambda>s. ts_unregister_buffer s k)"])
  qed
  with keeps_inv_unregister_render_target show ?thesis by (simp add: settles_def)
qed

text \<open>A release hands the triple back that was in flight, or drops it when nobody listens any more.\<close>

lemma ep_flights_hit:
  "fmlookup (ep_tasks e) ob = Some te \<Longrightarrow> ep_flights ob e = {(f, pw_buffer w, pw_release_point w) | f w.
      fmlookup (ts_in_flight (te_state te)) f = Some w}"
  by (simp add: ep_flights_def)

lemma finish_release_sent:
  assumes "te_inv ob te" and "fmlookup (ep_tasks e) ob = Some te" and "fmlookup (te_pending te) f = Some a"
  shows "ep_sent (snd (finish_release env ob f e)) = ep_sent e \<or>
    \<not> te_retiring te \<and> ep_sent (snd (finish_release env ob f e)) =
      ep_sent e @ [(BufferReleased ob f (awf_buffer a) (awf_release_point a), [])]"
  using assms pending_release(1) [OF assms(1,3)]
  by (auto simp: finish_release_def Let_def ep_send_def split: sum.split)

lemma settles_finish_release: "settles (finish_release env ob f)"
proof -
  have "ep_settles e (snd (finish_release env ob f e))" if inv: "ep_inv e" for e
  proof (cases "\<exists>te a. fmlookup (ep_tasks e) ob = Some te \<and> fmlookup (te_pending te) f = Some a")
    case False
    then have "snd (finish_release env ob f e) = e"
      by (auto simp: finish_release_def split: option.split)
    then show ?thesis by simp
  next
    case True
    then obtain te a where hit: "fmlookup (ep_tasks e) ob = Some te" "fmlookup (te_pending te) f = Some a"
      by blast
    have te: "te_inv ob te" using inv hit(1) by (rule ep_inv_te)
    let ?e' = "snd (finish_release env ob f e)" and ?x = "(f, awf_buffer a, awf_release_point a)"
    have other: "ep_flights o1 ?e' = ep_flights o1 e" if "o1 \<noteq> ob" for o1
      using that by (simp add: ep_flights_def finish_release_tasks [OF te hit])
    have mem: "?x \<in> ep_flights ob e"
      using pending_release(2) [OF te hit(2)] hit(1) by (force simp: ep_flights_def wire_tuple_def)
    have sub: "ep_flights ob ?e' \<subseteq> ep_flights ob e - {?x}"
      unfolding ep_flights_def finish_release_tasks [OF te hit] using hit(1)
      by (auto simp: drop_frame_def split: if_splits)
    then have "mset_set (insert ?x (ep_flights ob ?e')) \<subseteq># mset_set (ep_flights ob e)"
      using mem by (intro subset_imp_msubset_mset_set) auto
    moreover have "?x \<notin> ep_flights ob ?e'" using sub by blast
    ultimately have sum: "{#?x#} + mset_set (ep_flights ob ?e') \<subseteq># mset_set (ep_flights ob e)" by simp
    have le: "mset_set (ep_flights ob ?e') \<subseteq># mset_set (ep_flights ob e)"
      using sum by (rule subset_mset.order_trans [rotated]) simp
    from finish_release_sent [OF te hit, of env] show ?thesis
    proof (elim disjE conjE)
      assume "ep_sent ?e' = ep_sent e"
      moreover have "mset_set (ep_flights o1 ?e') \<subseteq># mset_set (ep_flights o1 e)" for o1
        using le other by (cases "o1 = ob") simp_all
      ultimately show ?thesis unfolding ep_moves_def by (intro exI [of _ "[]"]) simp
    next
      assume "ep_sent ?e' = ep_sent e @ [(BufferReleased ob f (awf_buffer a) (awf_release_point a), [])]"
      then show ?thesis unfolding ep_moves_def using sum other
        by (intro exI [of _ "[(BufferReleased ob f (awf_buffer a) (awf_release_point a), [])]"]) auto
    qed
  qed
  with keeps_inv_finish_release show ?thesis by (simp add: settles_def)
qed

lemma mset_set_insert_le:
  assumes "A' \<subseteq> insert x A" and "finite A"
  shows "mset_set A' \<subseteq># mset_set A + {#x#}"
proof -
  have "mset_set A' \<subseteq># mset_set (insert x A)"
    using assms by (intro subset_imp_msubset_mset_set) auto
  also have "mset_set (insert x A) \<subseteq># mset_set A + {#x#}"
    using assms(2) by (cases "x \<in> A") (simp_all add: insert_absorb)
  finally show ?thesis .
qed

text \<open>A present adds its triple: in flight, or already on the way back.\<close>

lemma discard_sent:
  assumes "fmlookup (ep_tasks e) ob = Some te" and "ts_object (te_state te) = ob"
  shows "ep_sent (snd (discard_superseded env ob f b serial acq rel e)) = ep_sent e \<or>
    ep_sent (snd (discard_superseded env ob f b serial acq rel e)) = ep_sent e @ [(BufferReleased ob f b rel, [])]"
proof -
  let ?op = "\<lambda>s. ts_discard_superseded_present s ob f b serial acq rel"
  obtain r s' where disc: "?op (te_state te) = (r, s')" by fastforce
  have timeline: "ep_sent (snd (on_timelines ob g e1)) = ep_sent e1" for e1
      and g :: "task_timelines \<Rightarrow> (syncobj_error, 'x) result \<times> task_timelines"
    by (auto simp: on_timelines_def split: option.split prod.split)
  have answer: "ep_sent (snd (op_bind (ep_send env m []) (\<lambda>_. op_return x) e1)) \<in>
      {ep_sent e1, ep_sent e1 @ [(m, [])]}" for m e1 and x :: endpoint_action
    by (auto simp: ep_send_def op_bind_def op_return_def split: sum.split)
  have rest: "ep_sent (snd (op_bind (on_timelines ob g) (\<lambda>_. k) e1)) \<in> {ep_sent e1, ep_sent e1 @ [(m, [])]}"
    if "\<And>e2. ep_sent (snd (k e2)) \<in> {ep_sent e2, ep_sent e2 @ [(m, [])]}"
    for e1 m and g :: "task_timelines \<Rightarrow> (syncobj_error, 'x) result \<times> task_timelines"
      and k :: "endpoint_action ep_op"
    using timeline [of g e1] that [of "snd (on_timelines ob g e1)"]
    by (auto simp: snd_op_bind split: prod.split sum.split)
  show ?thesis
  proof (cases r)
    case (Inl err)
    with disc assms show ?thesis by (simp add: discard_superseded_def on_task_state_def op_bind_def)
  next
    case (Inr m)
    with disc assms(2) have m: "m = BufferReleased ob f b rel" using ts_discard_Inr by blast
    define e1 where "e1 = set_task e ob (te\<lparr>te_state := s'\<rparr>)"
    have "snd (discard_superseded env ob f b serial acq rel e) = snd (op_bind
        (on_timelines ob (\<lambda>tt. denial_export_acquire_fence (env_drm env) tt acq)) (\<lambda>_.
        op_bind (on_timelines ob (\<lambda>tt. denial_signal_release (env_drm env) tt rel)) (\<lambda>_.
        op_bind (ep_send env m []) (\<lambda>_. op_return (ActSupersededPresentDiscarded ob f)))) e1)"
      using disc assms(1) Inr
      by (simp add: discard_superseded_def on_task_state_def op_bind_def [of "on_task_state ob ?op"] e1_def)
    moreover have "\<dots> \<in> {x. ep_sent x \<in> {ep_sent e1, ep_sent e1 @ [(m, [])]}}"
      unfolding mem_Collect_eq by (intro rest answer)
    ultimately show ?thesis by (simp add: m e1_def)
  qed
qed

lemma present_moves:
  assumes inv: "ep_inv e"
  shows "ep_moves e (snd (ep_present env ob f b serial acq rel ds e)) (\<lambda>o1. if o1 = ob then {#(f, b, rel)#} else {#})"
proof (cases "fmlookup (ep_tasks e) ob")
  case None
  then have "snd (ep_present env ob f b serial acq rel ds e) = e" by (simp add: ep_present_def)
  then show ?thesis unfolding ep_moves_def by (intro exI [of _ "[]"]) simp
next
  case (Some te)
  have te: "te_inv ob te" using inv Some by (rule ep_inv_te)
  let ?x = "(f, b, rel)" and ?e' = "snd (ep_present env ob f b serial acq rel ds e)"
  have same: ?thesis if "ep_sent ?e' = ep_sent e" "\<And>o1. ep_flights o1 ?e' = ep_flights o1 e"
    using that unfolding ep_moves_def by (intro exI [of _ "[]"]) simp
  from te Some show ?thesis
  proof (cases rule: ep_present_outcome [where env = env and f = f and b = b and serial = serial
        and acq = acq and rel = rel and ds = ds])
    case (refused err)
    then show ?thesis by (intro same) simp_all
  next
    case (submitted fence a s' tt')
    have s': "ts_in_flight s' = fmupd f \<lparr>pw_buffer = b, pw_release_point = rel\<rparr> (ts_in_flight (te_state te))"
      using ts_present_Inr [OF submitted(2)] by simp
    have "ep_flights ob ?e' \<subseteq> insert ?x (ep_flights ob e)"
      using submitted(1) Some by (auto simp: ep_flights_def s' split: if_splits)
    then have "mset_set (ep_flights ob ?e') \<subseteq># mset_set (ep_flights ob e) + {#?x#}"
      by (intro mset_set_insert_le) simp_all
    moreover have "ep_flights o1 ?e' = ep_flights o1 e" if "o1 \<noteq> ob" for o1
      using that submitted(1) by (simp add: ep_flights_def)
    ultimately show ?thesis
      using submitted(1) unfolding ep_moves_def by (intro exI [of _ "[]"]) auto
  next
    case (rolled_back err a s' tt')
    then show ?thesis
      using ep_flights_set_task [OF Some] by (intro same) simp_all
  next
    case (discarded x y r e' s' tt')
    have flights: "ep_flights o1 ?e' = ep_flights o1 e" for o1
      using discarded(2,4,7) Some by (auto simp: ep_flights_def)
    have "?e' = snd (discard_superseded env ob f b serial acq rel e)"
    proof -
      obtain r0 s0 where p: "ts_present (te_state te) ob f b serial acq rel ds = (r0, s0)" by fastforce
      with discarded(1) have "r0 = Inl (StaleConfigure x y)" "s0 = te_state te"
        using ts_present_Inl by (simp, metis fst_conv)
      with p Some set_task_same [OF Some] show ?thesis
        by (simp add: ep_present_def on_task_state_def)
    qed
    with discard_sent [OF Some] te have "ep_sent ?e' = ep_sent e \<or>
        ep_sent ?e' = ep_sent e @ [(BufferReleased ob f b rel, [])]" by (simp add: te_inv_def)
    then show ?thesis
    proof
      assume "ep_sent ?e' = ep_sent e @ [(BufferReleased ob f b rel, [])]"
      then show ?thesis unfolding ep_moves_def
        by (intro exI [of _ "[(BufferReleased ob f b rel, [])]"]) (simp add: flights)
    qed (simp add: same flights)
  qed
qed

subsection \<open>Every step\<close>

lemma settles_simple:
  "settles (materialize_release ob f)" "settles (register_buffer ob b ds)"
  "settles (bind_input_channel gn wr ds)" "settles (bind_input_route ob di inc)"
  "settles (request_activation ob)" "settles (request_input_channel env g)"
  "settles (send_format_feedback env ob gen fs)" "settles (send_configure env ob serial w h n d tr r)"
  "settles (send_visibility env ob v fo)" "settles (send_display_power env po)" "settles (send_close env ob)"
  "settles (send_input env ob sn ts ev)" "settles (send_fatal env obo code opc text)"
  unfolding materialize_release_def register_buffer_def bind_input_channel_def bind_input_route_def
    request_activation_def request_input_channel_def send_format_feedback_def send_configure_def
    send_visibility_def send_display_power_def send_close_def send_input_def send_fatal_def
  by (auto intro!: settles_bind settles_send split: list.split)

lemma settles_feedback:
  "settles (track_presentation ob f)" "settles (send_presented env ob f t p q fl)"
  "settles (send_scene_presented env ob sc t p q)" "settles (send_frame_grant env l t p)"
proof -
  have "ep_settles e (snd (track_presentation ob f e))" for e
    by (auto simp: track_presentation_def intro: ep_settles_set_task split: option.split)
  with keeps_inv_track show "settles (track_presentation ob f)" by (simp add: settles_def)
  have "ep_settles e (snd (ep_send env (Presented ob f t p q fl) [] (set_task e ob te')))"
    if "fmlookup (ep_tasks e) ob = Some te" "te_state te' = te_state te" for e te te'
    using ep_moves_trans [OF ep_settles_set_task [OF that(1), of te'] ep_settles_send] that(2) by simp
  then have "ep_settles e (snd (send_presented env ob f t p q fl e))" for e
    by (auto simp: send_presented_def Let_def intro: ep_settles_set_task split: option.split)
  with keeps_inv_send_presented show "settles (send_presented env ob f t p q fl)" by (simp add: settles_def)
  have "settles (op_bind (task_of ob) (\<lambda>te. if te_retiring te then op_return ()
      else ep_send env (ScenePresented ob sc t p q) []))"
    by (auto intro!: settles_bind settles_send)
  then have "ep_settles e (snd (send_scene_presented env ob sc t p q e))" if "ep_inv e" for e
    using that by (simp add: send_scene_presented_def settlesD)
  with keeps_inv_scene show "settles (send_scene_presented env ob sc t p q)" by (simp add: settles_def)
  have "ep_settles e (snd (send_frame_grant env l t p e))" for e
    by (simp add: send_frame_grant_def ep_settles_send)
  with keeps_inv_grant show "settles (send_frame_grant env l t p)" by (simp add: settles_def)
qed

lemma ep_settles_forget: "ep_settles e (forget_presentation ob f e)"
  by (auto simp: forget_presentation_def intro: ep_settles_set_task split: option.split)

lemma settles_discard_frame: "settles (discard_frame env ob f)"
  unfolding discard_frame_def by (intro settles_bind settles_simple settles_finish_release)

text \<open>What a message brings in.\<close>

fun arriving :: "task_object_id \<Rightarrow> android_message \<Rightarrow> (frame_id \<times> buffer_id \<times> u64) multiset" where
  "arriving ob (Present ob' f b _ _ p _) = (if ob' = ob then {#(f, b, p)#} else {#})"
| "arriving ob _ = {#}"

lemma handle_moves:
  assumes inv: "ep_inv e"
  shows "ep_moves e (snd (handle_android env m ds e)) (\<lambda>ob. arriving ob m)"
proof (cases "is_present m")
  case True
  then obtain ob f b serial acq rel rects where m: "m = Present ob f b serial acq rel rects"
    by (cases m) auto
  have "(\<lambda>o1. arriving o1 m) = (\<lambda>o1. if o1 = ob then {#(f, b, rel)#} else {#})"
    by (auto simp: m)
  then show ?thesis using present_moves [OF inv] by (simp add: m)
next
  case False
  then have "(\<lambda>o1. arriving o1 m) = (\<lambda>o1. {#})" by (cases m) auto
  moreover have "ep_settles e (snd (handle_android env m ds e))"
    using False inv
    by (cases m) (auto simp: ep_settles_create intro!: settlesD [OF settles_bind] settles_bind settlesD [OF settles_hello]
      settlesD [OF settles_bind_task] settlesD [OF settles_destroy] settlesD [OF settles_bind_timelines]
      settlesD [OF settles_simple(2)] settlesD [OF settles_simple(3)] settlesD [OF settles_simple(4)]
      settlesD [OF settles_simple(5)])
  ultimately show ?thesis by simp
qed

fun is_receive :: "endpoint_call \<Rightarrow> bool" where
  "is_receive (CallReceive env) = True"
| "is_receive _ = False"

lemma step_settles: "ep_inv e \<Longrightarrow> \<not> is_receive c \<Longrightarrow> ep_settles e (ep_step e c)"
  by (cases c) (simp_all add: settlesD settles_simple settles_feedback settles_discard_frame
      settles_finish_release settles_register_target settles_unregister_target ep_settles_forget)

end
