(* ===== verification/Connection.thy ===== *)
theory Connection
  imports Sink_Invariant Endpoint_Flow
begin

section \<open>Both ends of the connection\<close>

text \<open>
  The Android side and the host as one system: the presentation sink with its Composer session, the
  host's endpoint, and the two ordered streams between them.  Android calls, calls of the host, records
  that arrive at the host and records that the event pump of \<open>droidloom-composer-service/src/main.rs\<close>
  takes from the socket interleave in any order.  Shown: every release of the host answers one present,
  no frame comes back twice, and a release that reaches the event pump while its task is registered is
  always accepted, by the bridge, the Composer and the render target cache, so it never ends the pump.
\<close>

subsection \<open>The event pump\<close>

text \<open>
  One turn of \<open>event_loop\<close>; an error ends the loop and with it the service.  The coordinator's view of
  an object (\<open>retired\<close>, \<open>removing\<close>) is an argument, and what the coordinator, the lifecycle and the
  input handoff do with an applied event is outside the model.
\<close>

datatype pump_error =
    PumpDenialError
  | PumpRepeatedHello
  | PumpLegacyInput
  | PumpNoObject
  | PumpSink sink_error

definition pump_task_message ::
  "sink_env \<Rightarrow> denial_message \<Rightarrow> (pump_error, sink \<times> session, unit) op" where
  "pump_task_message env message = (\<lambda>(s, se).
     case message_object message of
       None \<Rightarrow> (Inl PumpNoObject, (s, se))
     | Some object \<Rightarrow>
     case sk_display_for_object s object of
       Inl e \<Rightarrow> (Inl (PumpSink e), (s, se))
     | Inr display \<Rightarrow>
     case sk_apply_task_event message (s, se) of
       (Inl e, st) \<Rightarrow> (Inl (PumpSink e), st)
     | (Inr (AppliedConfigure serial _ _ _ _ _ _), st) \<Rightarrow>
         (case sk_acknowledge_configure env display serial st of (r, st1) \<Rightarrow> (map_err PumpSink r, st1))
     | (Inr (AppliedInput _ _ _), st) \<Rightarrow> (Inl PumpLegacyInput, st)
     | (Inr _, st) \<Rightarrow> (Inr (), st))"

fun is_release :: "denial_message \<Rightarrow> bool" where
  "is_release (BufferReleased _ _ _ _) = True"
| "is_release _ = False"

definition skipped :: "(task_object_id \<Rightarrow> bool) \<Rightarrow> (task_object_id \<Rightarrow> bool) \<Rightarrow> denial_message \<Rightarrow> bool" where
  "skipped retired removing message =
     (case message_object message of
        None \<Rightarrow> False
      | Some object \<Rightarrow> retired object \<or> removing object \<and> \<not> is_release message)"

fun pump_message ::
  "sink_env \<Rightarrow> (task_object_id \<Rightarrow> bool) \<Rightarrow> (task_object_id \<Rightarrow> bool) \<Rightarrow> attached_descriptor list
     \<Rightarrow> denial_message \<Rightarrow> (pump_error, sink \<times> session, unit) op" where
  "pump_message env retired removing ds (RequestInputChannel generation) = op_return ()"
| "pump_message env retired removing ds (Ping cookie) = (\<lambda>(s, se).
     case sk_send env (Pong cookie) [] s of (r, s1) \<Rightarrow> (map_err PumpSink r, (s1, se)))"
| "pump_message env retired removing ds (FrameGrant latch target period) = op_return ()"
| "pump_message env retired removing ds (ErrorMessage ob code opcode text) = op_lift (Inl PumpDenialError)"
| "pump_message env retired removing ds (ServerHello a b c d e f) = op_lift (Inl PumpRepeatedHello)"
| "pump_message env retired removing ds (DisplayPower on) = op_lift (Inl PumpLegacyInput)"
| "pump_message env retired removing ds (Input ob serial t ev) = op_lift (Inl PumpLegacyInput)"
| "pump_message env retired removing ds (RegisterRenderTarget ob serial buffer) = (\<lambda>(s, se).
     if retired ob \<or> removing ob then (Inr (), (s, se))
     else case sk_register_render_target ob serial buffer ds s of (r, s1) \<Rightarrow> (map_err PumpSink r, (s1, se)))"
| "pump_message env retired removing ds (UnregisterRenderTarget ob buffer) = (\<lambda>(s, se).
     if retired ob \<or> removing ob then (Inr (), (s, se))
     else case sk_unregister_render_target ob buffer s of (r, s1) \<Rightarrow> (map_err PumpSink r, (s1, se)))"
| "pump_message env retired removing ds (ScenePresented ob sc t p q) = op_return ()"
| "pump_message env retired removing ds message =
     (if skipped retired removing message then op_return () else pump_task_message env message)"

subsection \<open>What the sink waits for\<close>

text \<open>A channel as the connection sees it: its object, and the frames that it waits for.\<close>

type_synonym track = "task_object_id \<times> (frame_id, u64) fmap \<times> (frame_id, buffer_id) fmap"

definition track :: "task_channel \<Rightarrow> track" where
  "track ch = (bd_object (ch_binding ch), bd_pending_release_points (ch_binding ch), ch_frame_targets ch)"

definition sink_tracks :: "sink \<Rightarrow> (display_id, track) fmap" where
  "sink_tracks s = fmmap track (sk_tasks s)"

definition awaited :: "(frame_id, u64) fmap \<Rightarrow> (frame_id, buffer_id) fmap \<Rightarrow> flight set" where
  "awaited pend targets = {(f, b, p). fmlookup targets f = Some b \<and> fmlookup pend f = Some p}"

lemma finite_awaited [simp]: "finite (awaited pend targets)"
proof -
  have "awaited pend targets \<subseteq>
      (\<lambda>f. (f, the (fmlookup targets f), the (fmlookup pend f))) ` fset (fmdom targets)"
    by (force simp: awaited_def image_iff fmdomI)
  then show ?thesis by (rule finite_subset) simp
qed

lemma awaited_empty [simp]: "awaited pend fmempty = {}"
  by (simp add: awaited_def)

lemma awaited_insert:
  "f |\<notin>| fmdom targets \<Longrightarrow> awaited (fmupd f p pend) (fmupd f b targets) = insert (f, b, p) (awaited pend targets)"
  by (auto simp: awaited_def fmdomI split: if_splits)

lemma awaited_drop: "awaited (fmdrop f pend) (fmdrop f targets) = {x \<in> awaited pend targets. fst x \<noteq> f}"
  by (auto simp: awaited_def split: if_splits)

lemma awaited_unique: "x \<in> awaited pend targets \<Longrightarrow> y \<in> awaited pend targets \<Longrightarrow> fst x = fst y \<Longrightarrow> x = y"
  by (auto simp: awaited_def)

lemma sink_tracks_lookup:
  "fmlookup (sink_tracks s) d = Some (ob, pend, targets) \<longleftrightarrow>
     (\<exists>ch. fmlookup (sk_tasks s) d = Some ch \<and> bd_object (ch_binding ch) = ob \<and>
       bd_pending_release_points (ch_binding ch) = pend \<and> ch_frame_targets ch = targets)"
  by (auto simp: sink_tracks_def track_def)

lemma sink_tracks_core: "sink_core s' = sink_core s \<Longrightarrow> sink_tracks s' = sink_tracks s"
proof -
  have "sink_tracks s = fmmap (\<lambda>(ob, t, d, pend, ft, rt). (ob, pend, ft)) (sink_core s)" for s
  proof (rule fmap_ext)
    show "fmlookup (sink_tracks s) d =
        fmlookup (fmmap (\<lambda>(ob, t, d, pend, ft, rt). (ob, pend, ft)) (sink_core s)) d" for d
      by (cases "fmlookup (sk_tasks s) d") (simp_all add: sink_tracks_def sink_core_def track_def channel_core_def)
  qed
  then show "sink_core s' = sink_core s \<Longrightarrow> sink_tracks s' = sink_tracks s" by simp
qed

lemma sink_tracks_set:
  "sink_tracks (set_channel d ch s) = fmupd d (track ch) (sink_tracks s)"
  by (rule fmap_ext) (simp add: sink_tracks_def set_channel_def)

lemma sink_tracks_set_same:
  "fmlookup (sk_tasks s) d = Some ch \<Longrightarrow> track ch' = track ch \<Longrightarrow> sink_tracks (set_channel d ch' s) = sink_tracks s"
  by (rule fmap_ext) (auto simp: sink_tracks_def set_channel_def)

lemma track_targets [simp]:
  "track (set_target k t ch) = track ch" "track (drop_target k ch) = track ch"
  by (simp_all add: track_def set_target_def drop_target_def)

lemma tracks_targets:
  "sink_tracks (sk_cancel_reserved_target d k s) = sink_tracks s"
  "sink_tracks (snd (sk_register_render_target ob serial buffer ds s)) = sink_tracks s"
  "sink_tracks (snd (sk_unregister_render_target ob k s)) = sink_tracks s"
  unfolding sk_cancel_reserved_target_def sk_register_render_target_def sk_unregister_render_target_def Let_def
  by (auto simp: op_lift_bind sink_tracks_set_same dest: channel_of_object_Some(1)
      split: option.split prod.split sum.split)

lemma tracks_acquire: "sink_tracks (snd (sk_acquire_surfaceflinger_target env d s)) = sink_tracks s"
proof (cases "sk_acquire_surfaceflinger_target env d s")
  case (Pair r s')
  from Pair show ?thesis
  proof (cases rule: sk_acquire_cases)
    case (reserved ch ch1 s1 serial k t fds)
    have "sink_tracks s' = sink_tracks s1"
      unfolding reserved(9) by (rule sink_tracks_set_same [OF reserved(4)]) simp
    then show ?thesis using Pair sink_tracks_core [OF reserved(3)] by simp
  next
    case (failed e)
    then show ?thesis using Pair sink_tracks_core [OF failed(2)] by simp
  qed
qed

lemma tracks_bind: "sink_tracks (snd (sk_bind_task env d t s)) = sink_tracks s"
proof (cases "sk_bind_task env d t s")
  case (Pair r s')
  from Pair show ?thesis
  proof (cases rule: sk_bind_cases)
    case (bound ch)
    have "sink_tracks s' = fmupd d (track ch) (sink_tracks s)"
      unfolding sink_tracks_def bound(3) by (rule fmap_ext) (simp add: track_def)
    also have "\<dots> = sink_tracks s"
      using bound(1) by (intro fmap_ext) (auto simp: sink_tracks_def)
    finally show ?thesis using Pair by simp
  qed (use Pair in \<open>simp add: sink_tracks_def\<close>)
qed

text \<open>The calls of the Android side other than host events, by what they do to the channels and the log.\<close>

fun host_driven :: "sink_call \<Rightarrow> bool" where
  "host_driven (SkEvent m) = True"
| "host_driven (SkRegisterTarget ob serial buffer ds) = True"
| "host_driven (SkUnregisterTarget ob b) = True"
| "host_driven _ = False"

lemmas sk_quiet_steps = sk_quiet_sends sk_quiet_register sk_quiet_acquire sk_quiet_bind_task sk_quiet_local
  sk_quiet_requests

lemma tracks_acknowledge: "sink_tracks (fst (snd (sk_acknowledge_configure env d serial (s, se)))) = sink_tracks s"
proof (cases "fmlookup (sk_tasks s) d")
  case (Some ch)
  obtain r b se1 where op: "bd_acknowledge_configure serial (ch_binding ch, se) = (r, (b, se1))"
    by (metis prod.exhaust)
  then have "bd_object b = bd_object (ch_binding ch)"
    "bd_pending_release_points b = bd_pending_release_points (ch_binding ch)"
    by (auto simp: bd_acknowledge_configure_def bridge_composer_eq op_bind_def
        split: option.split_asm sum.split_asm)
  then have "sink_tracks (set_channel d (ch\<lparr>ch_binding := b\<rparr>) s) = sink_tracks s"
    using Some by (intro sink_tracks_set_same) (simp_all add: track_def)
  moreover have "sink_tracks (snd (sk_send env m [] s1)) = sink_tracks s1" for m s1
    by (simp add: sink_tracks_def)
  ultimately show ?thesis
    using Some op by (auto simp: sk_acknowledge_configure_def split: sum.split prod.split) (metis snd_conv)
qed (simp add: sk_acknowledge_configure_def)

lemma sk_effect:
  assumes inv: "sk_inv (s, se)" and call: "\<not> host_driven call" and step: "sk_step (s, se) call = (s', se')"
  obtains (same) "sink_tracks s' = sink_tracks s" "sk_quiet s s'"
  | (registered) env d ob reservation where "call = SkRegister env ob reservation"
      "sink_tracks s' = fmupd d (ob, fmempty, fmempty) (sink_tracks s)" "sk_quiet s s'"
  | (dropped) d where "sink_tracks s' = fmdrop d (sink_tracks s)" "sk_quiet s s'"
  | (submitted) d ob pend targets f b p where "fmlookup (sink_tracks s) d = Some (ob, pend, targets)"
      "f |\<notin>| fmdom targets" "sink_tracks s' = fmupd d (ob, fmupd f p pend, fmupd f b targets) (sink_tracks s)"
      "sk_logs s s' (\<lambda>o1. if o1 = ob then [(f, b, p)] else [])"
proof (cases call)
  case (SkRegister env ob reservation)
  obtain r s1 where op: "sk_register_task env ob reservation s = (r, s1)" by fastforce
  with step SkRegister have s1: "s' = s1" by simp
  have quiet: "sk_quiet s s'" using sk_quiet_register [of s env ob reservation] op s1 by simp
  from op show ?thesis
  proof (cases rule: sk_register_cases)
    case r: same
    with s1 quiet same show ?thesis by (simp add: sink_tracks_def)
  next
    case r: (registered b tl1)
    have "track (fresh_channel b tl1) = (ob, fmempty, fmempty)"
      using r(1) by (auto simp: bd_new_def track_def fresh_channel_def split: if_split_asm)
    then have "sink_tracks s' = fmupd (rs_display reservation) (ob, fmempty, fmempty) (sink_tracks s)"
      using r(5) s1 by (intro fmap_ext) (simp add: sink_tracks_def)
    with SkRegister quiet registered show ?thesis by blast
  qed
next
  case (SkUnregister d)
  have "sk_tasks s' = sk_tasks s \<or> sk_tasks s' = fmdrop d (sk_tasks s)"
    using step SkUnregister by (auto simp: sk_unregister_task_def split: option.split_asm if_split_asm)
  moreover have "sk_quiet s s'" using sk_quiet_local(1) [of s d] step SkUnregister by auto
  ultimately show ?thesis
    using same dropped [of d] by (auto simp: sink_tracks_def)
next
  case (SkSubmit env d target fence opaque damage)
  have tw: "tw_inv (se_windows se)" using inv by (simp add: sk_inv_def)
  obtain r where op: "sk_submit_surfaceflinger_target env d target fence opaque damage (s, se) = (r, (s', se'))"
    using step SkSubmit by (metis prod.exhaust_sel sk_step.simps(13))
  from tw op show ?thesis
  proof (cases rule: submit_cases)
    case (failed e s1)
    then have "sink_tracks s' = sink_tracks s"
      using sink_tracks_core [OF failed(2)] tracks_targets(1) by simp
    with failed(5) same show ?thesis by blast
  next
    case (submitted ch ch' s1 t frame p)
    have ok: "channel_ok d (display_frames (se_windows se) d) ch"
      using inv submitted(2) by (rule sk_inv_channel)
    have "track ch' = (bd_object (ch_binding ch), fmupd (af_frame_id frame) p (bd_pending_release_points (ch_binding ch)),
        fmupd (af_frame_id frame) (buf_id (af_buffer frame)) (ch_frame_targets ch))"
      using submitted(10) by (simp add: track_def channel_core_def frame_sent_core_def)
    then have "sink_tracks s' = fmupd d (bd_object (ch_binding ch),
        fmupd (af_frame_id frame) p (bd_pending_release_points (ch_binding ch)),
        fmupd (af_frame_id frame) (buf_id (af_buffer frame)) (ch_frame_targets ch)) (sink_tracks s)"
      unfolding submitted(9) sink_tracks_set using sink_tracks_core [OF submitted(8)] by simp
    moreover have "fmlookup (sink_tracks s) d = Some (track ch)"
      using submitted(2) by (simp add: sink_tracks_def)
    moreover have "af_frame_id frame |\<notin>| fmdom (ch_frame_targets ch)"
      using ok submitted(6) by (simp add: channel_ok_def)
    ultimately show ?thesis
      using that(4) submitted(13) by (simp add: track_def)
  qed
next
  case (SkSession c)
  then show ?thesis using step same by auto
next
  case (SkAcknowledge env d serial)
  then have "s' = fst (snd (sk_acknowledge_configure env d serial (s, se)))" using step by simp
  then show ?thesis using same tracks_acknowledge sk_quiet_requests(2) by simp
qed (use step call same sk_quiet_steps sink_tracks_core [OF core_request_activation]
    sink_tracks_core [OF core_bind_layer_stream] sink_tracks_core [OF core_take_present_fence]
    sink_tracks_core [OF core_complete_headless] sink_tracks_core [OF core_request_removal]
    tracks_acquire tracks_bind tracks_targets(1) in \<open>auto\<close>)

text \<open>A turn of the event pump either leaves the channels alone or retires the frame it names.\<close>

lemma pump_task_effect:
  assumes inv: "sk_inv (s, se)" and op: "pump_task_message env m (s, se) = (r, (s', se'))"
  obtains (same) "sink_tracks s' = sink_tracks s" "sk_quiet s s'"
      "\<And>ob f b p. m = BufferReleased ob f b p \<Longrightarrow> r \<noteq> Inr ()"
  | (released) d ob pend targets f b p where "m = BufferReleased ob f b p" "r = Inr ()"
      "fmlookup (sink_tracks s) d = Some (ob, pend, targets)" "(f, b, p) \<in> awaited pend targets"
      "sink_tracks s' = fmupd d (ob, fmdrop f pend, fmdrop f targets) (sink_tracks s)" "sk_quiet s s'"
proof (cases "\<exists>ob display. message_object m = Some ob \<and> sk_display_for_object s ob = Inr display")
  case False
  then have "s' = s \<and> (\<exists>e. r = Inl e)"
    using op by (auto simp: pump_task_message_def split: option.split_asm sum.split_asm)
  with same show ?thesis by auto
next
  case True
  then obtain ob display where known: "message_object m = Some ob" "sk_display_for_object s ob = Inr display"
    by blast
  obtain ra s1 se1 where ev: "sk_apply_task_event m (s, se) = (ra, (s1, se1))" by (metis prod.exhaust)
  have quiet1: "sk_quiet s s1" using sk_quiet_local(6) [of s m se] ev by simp
  from inv ev show ?thesis
  proof (cases rule: sk_event_cases)
    case quiet
    have tracks1: "sink_tracks s1 = sink_tracks s" using quiet(1) by (rule sink_tracks_core)
    have err: "r \<noteq> Inr ()" if "m = BufferReleased o1 f b p" for o1 f b p
      using quiet(4) [OF that] known ev op by (auto simp: pump_task_message_def)
    show ?thesis
    proof (cases "\<exists>serial w h x y z v. ra = Inr (AppliedConfigure serial w h x y z v)")
      case True
      then obtain serial w h x y z v where conf: "ra = Inr (AppliedConfigure serial w h x y z v)" by blast
      have "s' = fst (snd (sk_acknowledge_configure env display serial (s1, se1)))"
        using known ev op conf by (auto simp: pump_task_message_def split: prod.split_asm)
      then show ?thesis
        using same tracks1 tracks_acknowledge err sk_logs_trans [OF quiet1 sk_quiet_requests(2)] by simp
    next
      case False
      then have "s' = s1"
        using known ev op
        by (auto simp: pump_task_message_def split: sum.split_asm applied_denial_event.split_asm)
      with same tracks1 quiet1 err show ?thesis by simp
    qed
  next
    case (released d ch f bu p t)
    have "r = Inr ()" "s' = s1"
      using known ev op released(8) by (simp_all add: pump_task_message_def)
    moreover have "fmlookup (sink_tracks s) d = Some (track ch)"
      using released(2) by (simp add: sink_tracks_def)
    moreover have "(f, bu, p) \<in> awaited (bd_pending_release_points (ch_binding ch)) (ch_frame_targets ch)"
      using released(3,4) by (simp add: awaited_def)
    ultimately show ?thesis
      using that(2) [OF released(1)] quiet1 released(9) by (simp add: track_def sink_tracks_set)
  qed
qed

lemma pump_effect:
  assumes inv: "sk_inv (s, se)" and op: "pump_message env retired removing ds m (s, se) = (r, (s', se'))"
  obtains (same) "sink_tracks s' = sink_tracks s" "sk_quiet s s'"
      "\<And>ob f b p. m = BufferReleased ob f b p \<Longrightarrow> retired ob \<or> r \<noteq> Inr ()"
  | (released) d ob pend targets f b p where "m = BufferReleased ob f b p" "r = Inr ()"
      "fmlookup (sink_tracks s) d = Some (ob, pend, targets)" "(f, b, p) \<in> awaited pend targets"
      "sink_tracks s' = fmupd d (ob, fmdrop f pend, fmdrop f targets) (sink_tracks s)" "sk_quiet s s'"
proof (cases "pump_message env retired removing ds m (s, se) = pump_task_message env m (s, se)")
  case True
  with op have "pump_task_message env m (s, se) = (r, (s', se'))" by simp
  with inv show ?thesis by (cases rule: pump_task_effect) (use that in blast)+
next
  case False
  have pong: "sk_quiet s (snd (sk_send env (Pong cookie) [] s))" for cookie
    by (rule sk_quiet_op_send) simp
  have "sink_tracks s' = sink_tracks s \<and> sk_quiet s s' \<and>
      (\<forall>ob f b p. m = BufferReleased ob f b p \<longrightarrow> retired ob)"
  proof (cases m)
    case (Ping cookie)
    then show ?thesis
      using op pong [of cookie] by (auto simp: sink_tracks_def dest: sk_send_result split: prod.split_asm)
  next
    case (RegisterRenderTarget ob serial buffer)
    then show ?thesis
      using op tracks_targets(2) [of ob serial buffer ds s] sk_quiet_local(4) [of s ob serial buffer ds]
      by (auto split: prod.split_asm if_split_asm)
  next
    case (UnregisterRenderTarget ob k)
    then show ?thesis
      using op tracks_targets(3) [of ob k s] sk_quiet_local(3) [of s ob k]
      by (auto split: prod.split_asm if_split_asm)
  qed (use op False in \<open>auto simp: op_return_def op_lift_def skipped_def split: if_split_asm\<close>)
  with same show ?thesis by blast
qed

lemma sk_inv_pump:
  assumes inv: "sk_inv (s, se)"
  shows "sk_inv (snd (pump_message env retired removing ds m (s, se)))"
proof -
  have tasks: "sk_inv (snd (sk_send env m' fds s), se)" for m' fds
    using inv by (rule sk_inv_tasks_same) simp
  have ack: "sk_inv st'" if "sk_inv st" "sk_acknowledge_configure env d serial st = (r, st')" for d serial st r st'
    using that sk_inv_acknowledge [of "fst st" "snd st" env d serial] by simp
  have task: "sk_inv (snd (pump_task_message env m (s, se)))" for m
  proof -
    obtain ra st where ev: "sk_apply_task_event m (s, se) = (ra, st)" by (metis surj_pair)
    have "sk_inv st" using sk_inv_event [OF inv, of m] ev by simp
    with inv ev show ?thesis
      by (auto simp: pump_task_message_def dest: ack
          split: option.split sum.split applied_denial_event.split prod.split)
  qed
  show ?thesis
    using inv task tasks sk_inv_register_target [OF inv] sk_inv_unregister_target [OF inv]
    by (cases m) (auto simp: op_return_def op_lift_def split: prod.split, (metis snd_conv)+)
qed

subsection \<open>The connection\<close>

text \<open>
  The two logs are the streams; each side has read a prefix of the other's log.  \<open>cn_used\<close> remembers the
  objects that were ever registered: the reservation registry never hands an object out twice.
\<close>

record connection =
  cn_sink :: sink
  cn_session :: session
  cn_endpoint :: endpoint
  cn_host_read :: nat
  cn_android_read :: nat
  cn_used :: "task_object_id set"

fun fresh_object :: "task_object_id set \<Rightarrow> sink_call \<Rightarrow> bool" where
  "fresh_object used (SkRegister env ob reservation) = (ob \<notin> used)"
| "fresh_object used _ = True"

fun use_object :: "sink_call \<Rightarrow> task_object_id set \<Rightarrow> task_object_id set" where
  "use_object (SkRegister env ob reservation) used = insert ob used"
| "use_object _ used = used"

inductive cn_step :: "connection \<Rightarrow> connection \<Rightarrow> bool" where
  cn_android: "sink_call_ok call \<Longrightarrow> \<not> host_driven call \<Longrightarrow> fresh_object (cn_used c) call \<Longrightarrow>
    sk_step (cn_sink c, cn_session c) call = (s', se') \<Longrightarrow>
    cn_step c (c\<lparr>cn_sink := s', cn_session := se', cn_used := use_object call (cn_used c)\<rparr>)"
| cn_host_receive: "cn_host_read c < length (sk_sent (cn_sink c)) \<Longrightarrow>
    receive_android_into (env_cmsg_base env) (env_recvmsg env) MAX_PACKET_BYTES = Inr r \<Longrightarrow>
    rcv_message r = fst (sk_sent (cn_sink c) ! cn_host_read c) \<Longrightarrow>
    cn_step c (c\<lparr>cn_endpoint := snd (receive_action env (cn_endpoint c)), cn_host_read := Suc (cn_host_read c)\<rparr>)"
| cn_host_call: "\<not> is_receive call \<Longrightarrow>
    cn_step c (c\<lparr>cn_endpoint := ep_step (cn_endpoint c) call\<rparr>)"
| cn_pump: "cn_android_read c < length (ep_sent (cn_endpoint c)) \<Longrightarrow>
    pump_message env retired removing ds (fst (ep_sent (cn_endpoint c) ! cn_android_read c))
      (cn_sink c, cn_session c) = (r, (s', se')) \<Longrightarrow>
    cn_step c (c\<lparr>cn_sink := s', cn_session := se', cn_android_read := Suc (cn_android_read c)\<rparr>)"

text \<open>A connection whose handshake is done: the host has no task and Android has read its answer.\<close>

definition cn_initial :: "connection \<Rightarrow> bool" where
  "cn_initial c \<longleftrightarrow> ep_inv (cn_endpoint c) \<and> ep_tasks (cn_endpoint c) = fmempty \<and>
     (\<forall>ob. releases ob (ep_sent (cn_endpoint c)) = []) \<and> cn_android_read c = length (ep_sent (cn_endpoint c)) \<and>
     sk_tasks (cn_sink c) = fmempty \<and> sk_sent (cn_sink c) = [] \<and> cn_session c = se_default \<and>
     cn_host_read c = 0 \<and> cn_used c = {}"

definition cn_reachable :: "connection \<Rightarrow> bool" where
  "cn_reachable c \<longleftrightarrow> (\<exists>c0. cn_initial c0 \<and> cn_step\<^sup>*\<^sup>* c0 c)"

subsection \<open>Where the frames are\<close>

definition to_host :: "connection \<Rightarrow> task_object_id \<Rightarrow> flight multiset" where
  "to_host c ob = mset (presents ob (drop (cn_host_read c) (sk_sent (cn_sink c))))"

definition at_host :: "connection \<Rightarrow> task_object_id \<Rightarrow> flight multiset" where
  "at_host c ob = mset_set (ep_flights ob (cn_endpoint c))"

definition to_android :: "connection \<Rightarrow> task_object_id \<Rightarrow> flight multiset" where
  "to_android c ob = mset (releases ob (drop (cn_android_read c) (ep_sent (cn_endpoint c))))"

definition outstanding :: "connection \<Rightarrow> task_object_id \<Rightarrow> flight multiset" where
  "outstanding c ob = to_host c ob + at_host c ob + to_android c ob"

lemma presents_drop:
  "n < length log \<Longrightarrow> presents ob (drop n log) = message_flights ob (fst (log ! n)) @ presents ob (drop (Suc n) log)"
  by (simp add: presents_def flip: Cons_nth_drop_Suc)

lemma releases_drop:
  "n < length log \<Longrightarrow> releases ob (drop n log) = released_flights ob (fst (log ! n)) @ releases ob (drop (Suc n) log)"
  by (simp add: releases_def flip: Cons_nth_drop_Suc)

lemma message_flights_arriving: "mset (message_flights ob m) = arriving ob m"
  by (cases m) auto

text \<open>A step of the endpoint keeps what is at the host or on the way back within what was, plus what arrived.\<close>

lemma host_moves:
  assumes "ep_moves e e' extra" and "n \<le> length (ep_sent e)"
  shows "mset_set (ep_flights ob e') + mset (releases ob (drop n (ep_sent e'))) \<subseteq>#
    mset_set (ep_flights ob e) + mset (releases ob (drop n (ep_sent e))) + extra ob"
    and "n \<le> length (ep_sent e')"
proof -
  from assms(1) obtain new where new: "ep_sent e' = ep_sent e @ new"
    "mset (releases ob new) + mset_set (ep_flights ob e') \<subseteq># mset_set (ep_flights ob e) + extra ob"
    unfolding ep_moves_def by blast
  show "n \<le> length (ep_sent e')" using assms(2) new(1) by simp
  have "mset (releases ob (drop n (ep_sent e))) + (mset (releases ob new) + mset_set (ep_flights ob e')) \<subseteq>#
      mset (releases ob (drop n (ep_sent e))) + (mset_set (ep_flights ob e) + extra ob)"
    using new(2) by (rule subset_mset.add_left_mono)
  then show "mset_set (ep_flights ob e') + mset (releases ob (drop n (ep_sent e'))) \<subseteq>#
    mset_set (ep_flights ob e) + mset (releases ob (drop n (ep_sent e))) + extra ob"
    using assms(2) new(1) by (simp add: ac_simps)
qed

text \<open>
  The invariant: both ends are well-formed, an object that was never registered has no frame anywhere,
  and every frame of a registered object that is on the way or at the host is one the sink waits for,
  each only once.
\<close>

definition cn_inv :: "connection \<Rightarrow> bool" where
  "cn_inv c \<longleftrightarrow> sk_inv (cn_sink c, cn_session c) \<and> ep_inv (cn_endpoint c) \<and>
     cn_host_read c \<le> length (sk_sent (cn_sink c)) \<and> cn_android_read c \<le> length (ep_sent (cn_endpoint c)) \<and>
     (\<forall>ob. ob \<notin> cn_used c \<longrightarrow> outstanding c ob = {#}) \<and>
     (\<forall>d ob pend targets. fmlookup (sink_tracks (cn_sink c)) d = Some (ob, pend, targets) \<longrightarrow>
        ob \<in> cn_used c \<and> outstanding c ob \<subseteq># mset_set (awaited pend targets))"

lemma cn_inv_initial: "cn_initial c \<Longrightarrow> cn_inv c"
  using sk_inv_new
  by (auto simp: cn_initial_def cn_inv_def outstanding_def to_host_def at_host_def to_android_def
      ep_flights_def presents_def sink_tracks_def sk_inv_def channels_distinct_def)

lemma cn_inv_shrink:
  assumes inv: "cn_inv c" and sk: "sk_inv (cn_sink c', cn_session c')" and ep: "ep_inv (cn_endpoint c')"
    and bounds: "cn_host_read c' \<le> length (sk_sent (cn_sink c'))" "cn_android_read c' \<le> length (ep_sent (cn_endpoint c'))"
    and used: "cn_used c \<subseteq> cn_used c'"
    and tracks: "\<And>d t. fmlookup (sink_tracks (cn_sink c')) d = Some t \<Longrightarrow> fmlookup (sink_tracks (cn_sink c)) d = Some t"
    and less: "\<And>ob. outstanding c' ob \<subseteq># outstanding c ob"
  shows "cn_inv c'"
proof -
  have "outstanding c' ob = {#}" if "ob \<notin> cn_used c'" for ob
    using inv less [of ob] that used by (auto simp: cn_inv_def)
  moreover have "ob \<in> cn_used c' \<and> outstanding c' ob \<subseteq># mset_set (awaited pend targets)"
    if "fmlookup (sink_tracks (cn_sink c')) d = Some (ob, pend, targets)" for d ob pend targets
    using inv tracks [OF that] less [of ob] used unfolding cn_inv_def by (meson subset_mset.order_trans subsetD)
  ultimately show ?thesis
    using sk ep bounds by (auto simp: cn_inv_def)
qed

lemma track_objects_distinct:
  assumes "sk_inv (s, se)" and "fmlookup (sink_tracks s) d = Some (ob, pend, targets)"
    and "fmlookup (sink_tracks s) d' = Some (ob, pend', targets')"
  shows "d' = d"
  using assms unfolding sk_inv_def channels_distinct_def sink_tracks_lookup same_owner_def by auto

lemma receive_moves:
  assumes "ep_inv e"
    and "receive_android_into (env_cmsg_base env) (env_recvmsg env) MAX_PACKET_BYTES = Inr r"
  shows "ep_moves e (snd (receive_action env e)) (\<lambda>ob. arriving ob (rcv_message r))"
proof -
  have "ep_moves e e extra" for extra
    unfolding ep_moves_def by (intro exI [of _ "[]"]) simp
  then show ?thesis
    using handle_moves [OF assms(1)] assms(2) by (simp add: receive_action_def op_lift_def op_bind_def)
qed

lemma sk_logs_drop:
  assumes "sk_logs s s' fl" and "n \<le> length (sk_sent s)"
  shows "presents ob (drop n (sk_sent s')) = presents ob (drop n (sk_sent s)) @ fl ob"
    and "n \<le> length (sk_sent s')"
  using assms by (auto simp: sk_logs_def presents_append)

lemma cn_inv_android:
  assumes inv: "cn_inv c" and ok: "sink_call_ok call" "\<not> host_driven call" "fresh_object (cn_used c) call"
    and step: "sk_step (cn_sink c, cn_session c) call = (s', se')"
  shows "cn_inv (c\<lparr>cn_sink := s', cn_session := se', cn_used := use_object call (cn_used c)\<rparr>)" (is "cn_inv ?c")
proof -
  note cn = inv [unfolded cn_inv_def]
  have sk0: "sk_inv (cn_sink c, cn_session c)" and n: "cn_host_read c \<le> length (sk_sent (cn_sink c))" using cn by auto
  have sk: "sk_inv (s', se')" using sk_inv_step [OF sk0 ok(1)] step by simp
  have used: "cn_used c \<subseteq> use_object call (cn_used c)" by (cases call) auto
  have host: "outstanding ?c ob = outstanding c ob + mset (fl ob)" "cn_host_read c \<le> length (sk_sent s')"
    if "sk_logs (cn_sink c) s' fl" for fl ob
    using sk_logs_drop [OF that n]
    by (simp_all add: outstanding_def to_host_def at_host_def to_android_def ac_simps)
  have shrink: "cn_inv ?c" if "sk_quiet (cn_sink c) s'"
    "\<And>d t. fmlookup (sink_tracks s') d = Some t \<Longrightarrow> fmlookup (sink_tracks (cn_sink c)) d = Some t"
    by (rule cn_inv_shrink [OF inv]) (use sk cn host [OF that(1)] used that(2) in auto)
  from sk0 ok(2) step show ?thesis
  proof (cases rule: sk_effect)
    case same
    then show ?thesis by (intro shrink) simp_all
  next
    case (dropped d)
    then show ?thesis by (intro shrink) (auto split: if_split_asm)
  next
    case (registered env d ob reservation)
    have out: "outstanding ?c o1 = outstanding c o1" for o1 using host(1) [OF registered(3)] by simp
    have "outstanding c ob = {#}" using cn ok(3) registered(1) by auto
    then have "\<forall>d' o1 pend targets. fmlookup (sink_tracks s') d' = Some (o1, pend, targets) \<longrightarrow>
        o1 \<in> insert ob (cn_used c) \<and> outstanding c o1 \<subseteq># mset_set (awaited pend targets)"
      using cn unfolding registered(2) by (auto split: if_split_asm)
    moreover have "\<forall>o1. o1 \<notin> insert ob (cn_used c) \<longrightarrow> outstanding c o1 = {#}"
      using cn by blast
    ultimately show ?thesis
      using sk cn host(2) [OF registered(3)] out [unfolded registered(1), simplified]
      unfolding cn_inv_def registered(1) by simp
  next
    case (submitted d ob pend targets f b p)
    have out: "outstanding ?c o1 = outstanding c o1 + mset (if o1 = ob then [(f, b, p)] else [])" for o1
      using host(1) [OF submitted(4)] by simp
    have hit: "ob \<in> cn_used c" "outstanding c ob \<subseteq># mset_set (awaited pend targets)"
      using cn submitted(1) by auto
    have "(f, b, p) \<notin> awaited pend targets"
      using submitted(2) by (auto simp: awaited_def fmdomI)
    then have new: "outstanding c ob + {#(f, b, p)#} \<subseteq># mset_set (awaited (fmupd f p pend) (fmupd f b targets))"
      using hit(2) submitted(2) by (simp add: awaited_insert)
    have other: "o1 \<noteq> ob" if "fmlookup (sink_tracks (cn_sink c)) d' = Some (o1, pe, ta)" "d' \<noteq> d" for d' o1 pe ta
      using track_objects_distinct [OF sk0 submitted(1)] that by blast
    have "\<forall>d' o1 pe ta. fmlookup (sink_tracks s') d' = Some (o1, pe, ta) \<longrightarrow>
        o1 \<in> cn_used c \<and> outstanding ?c o1 \<subseteq># mset_set (awaited pe ta)"
    proof (intro allI impI)
      fix d' o1 pe ta
      assume l: "fmlookup (sink_tracks s') d' = Some (o1, pe, ta)"
      show "o1 \<in> cn_used c \<and> outstanding ?c o1 \<subseteq># mset_set (awaited pe ta)"
      proof (cases "d' = d")
        case True
        with l new hit(1) show ?thesis unfolding submitted(3) out by auto
      next
        case False
        with l have "fmlookup (sink_tracks (cn_sink c)) d' = Some (o1, pe, ta)" by (simp add: submitted(3))
        with other [OF this False] cn show ?thesis unfolding out by auto
      qed
    qed
    moreover have "\<forall>o1. o1 \<notin> use_object call (cn_used c) \<longrightarrow> outstanding ?c o1 = {#}"
      using cn hit(1) used unfolding out by auto
    ultimately show ?thesis
      using sk cn host(2) [OF submitted(4)] used unfolding cn_inv_def by auto
  qed
qed

lemma cn_inv_pump:
  assumes inv: "cn_inv c" and n: "cn_android_read c < length (ep_sent (cn_endpoint c))"
    and pump: "pump_message env retired removing ds (fst (ep_sent (cn_endpoint c) ! cn_android_read c))
      (cn_sink c, cn_session c) = (r, (s', se'))"
  shows "cn_inv (c\<lparr>cn_sink := s', cn_session := se', cn_android_read := Suc (cn_android_read c)\<rparr>)" (is "cn_inv ?c")
proof -
  let ?m = "fst (ep_sent (cn_endpoint c) ! cn_android_read c)"
  note cn = inv [unfolded cn_inv_def]
  have sk0: "sk_inv (cn_sink c, cn_session c)" and h: "cn_host_read c \<le> length (sk_sent (cn_sink c))" using cn by auto
  have sk: "sk_inv (s', se')" using sk_inv_pump [OF sk0, of env retired removing ds ?m] pump by simp
  have out: "outstanding c ob = outstanding ?c ob + mset (released_flights ob ?m)"
    "cn_host_read c \<le> length (sk_sent s')" if "sk_quiet (cn_sink c) s'" for ob
    using sk_logs_drop [OF that h] releases_drop [OF n, of ob]
    by (simp_all add: outstanding_def to_host_def at_host_def to_android_def ac_simps)
  from sk0 pump show ?thesis
  proof (cases rule: pump_effect)
    case same
    show ?thesis
      by (rule cn_inv_shrink [OF inv]) (use sk cn n same(1) out [OF same(2)] in auto)
  next
    case (released d ob pend targets f b p)
    let ?x = "(f, b, p)"
    note out = out [OF released(6)]
    have hit: "ob \<in> cn_used c" "outstanding c ob \<subseteq># mset_set (awaited pend targets)"
      using cn released(3) by auto
    have "awaited (fmdrop f pend) (fmdrop f targets) = awaited pend targets - {?x}"
      unfolding awaited_drop using released(4) awaited_unique by fastforce
    then have new: "outstanding ?c ob \<subseteq># mset_set (awaited (fmdrop f pend) (fmdrop f targets))"
      using hit(2) released(1,4) out(1) [of ob] by (simp add: mset_set_Diff insert_subset_eq_iff)
    have "\<forall>d' o1 pe ta. fmlookup (sink_tracks s') d' = Some (o1, pe, ta) \<longrightarrow>
        o1 \<in> cn_used c \<and> outstanding ?c o1 \<subseteq># mset_set (awaited pe ta)"
    proof (intro allI impI)
      fix d' o1 pe ta
      assume l: "fmlookup (sink_tracks s') d' = Some (o1, pe, ta)"
      show "o1 \<in> cn_used c \<and> outstanding ?c o1 \<subseteq># mset_set (awaited pe ta)"
      proof (cases "d' = d")
        case True
        with l new hit(1) show ?thesis unfolding released(5) by auto
      next
        case False
        with l have "fmlookup (sink_tracks (cn_sink c)) d' = Some (o1, pe, ta)" by (simp add: released(5))
        then have "o1 \<in> cn_used c" "outstanding c o1 \<subseteq># mset_set (awaited pe ta)" using cn by auto
        moreover have "outstanding ?c o1 \<subseteq># outstanding c o1" using out(1) [of o1] by simp
        ultimately show ?thesis by (meson subset_mset.order_trans)
      qed
    qed
    moreover have "\<forall>o1. o1 \<notin> cn_used c \<longrightarrow> outstanding ?c o1 = {#}"
      using cn out(1) by (metis union_eq_empty)
    ultimately show ?thesis
      using sk cn n out(2) unfolding cn_inv_def by auto
  qed
qed

lemma cn_inv_step: "cn_step c c' \<Longrightarrow> cn_inv c \<Longrightarrow> cn_inv c'"
proof (induction rule: cn_step.induct)
  case (cn_android call c s' se')
  then show ?case by (intro cn_inv_android)
next
  case (cn_host_receive c env r)
  let ?e = "cn_endpoint c" and ?m = "fst (sk_sent (cn_sink c) ! cn_host_read c)"
  have ep: "ep_inv ?e" and n: "cn_android_read c \<le> length (ep_sent ?e)"
    using cn_host_receive.prems by (auto simp: cn_inv_def)
  have moves: "ep_moves ?e (snd (receive_action env ?e)) (\<lambda>ob. arriving ob ?m)"
    using receive_moves [OF ep cn_host_receive.hyps(2)] cn_host_receive.hyps(3) by simp
  show ?case
  proof (rule cn_inv_shrink [OF cn_host_receive.prems])
    show "outstanding (c\<lparr>cn_endpoint := snd (receive_action env ?e), cn_host_read := Suc (cn_host_read c)\<rparr>) ob
        \<subseteq># outstanding c ob" for ob
      using host_moves(1) [OF moves n, of ob] presents_drop [OF cn_host_receive.hyps(1), of ob]
      by (simp add: outstanding_def to_host_def at_host_def to_android_def message_flights_arriving ac_simps)
  qed (use cn_host_receive ep host_moves(2) [OF moves n] keeps_invD [OF keeps_inv_receive] in \<open>auto simp: cn_inv_def\<close>)
next
  case (cn_host_call call c)
  let ?e = "cn_endpoint c"
  have ep: "ep_inv ?e" and n: "cn_android_read c \<le> length (ep_sent ?e)"
    using cn_host_call.prems by (auto simp: cn_inv_def)
  have moves: "ep_settles ?e (ep_step ?e call)" using ep cn_host_call.hyps by (rule step_settles)
  show ?case
  proof (rule cn_inv_shrink [OF cn_host_call.prems])
    show "outstanding (c\<lparr>cn_endpoint := ep_step ?e call\<rparr>) ob \<subseteq># outstanding c ob" for ob
      using host_moves(1) [OF moves n, of ob]
      by (simp add: outstanding_def to_host_def at_host_def to_android_def ac_simps)
  qed (use cn_host_call ep host_moves(2) [OF moves n] ep_inv_step in \<open>auto simp: cn_inv_def\<close>)
next
  case (cn_pump c env retired removing ds r s' se')
  then show ?case by (intro cn_inv_pump)
qed

lemma cn_inv_reachable: "cn_reachable c \<Longrightarrow> cn_inv c"
proof -
  have "cn_step\<^sup>*\<^sup>* c0 c \<Longrightarrow> cn_inv c0 \<Longrightarrow> cn_inv c" for c0
    by (induction rule: rtranclp_induct) (auto intro: cn_inv_step)
  then show "cn_reachable c \<Longrightarrow> cn_inv c"
    unfolding cn_reachable_def using cn_inv_initial by blast
qed

end
