(* ===== verification/Sink_Properties.thy ===== *)
theory Sink_Properties
  imports Sink_Invariant
begin

section \<open>Properties of the presentation sink\<close>

text \<open>
  What \<open>DenialPresentationSink\<close> promises to SurfaceFlinger and to the host, at a concrete sink with one
  task whose only frame occupies its only render target.
\<close>

subsection \<open>A concrete sink\<close>

definition sink_kernel :: drm_kernel where
  "sink_kernel = \<lparr>k_create_syncobj = (\<lambda>_. Inr 1), k_fd_to_syncobj = (\<lambda>_ _. Inr 1),
     k_syncobj_to_fd = (\<lambda>_ _. Inr 50), k_import_sync_file = (\<lambda>_ _. Inr ()),
     k_timeline_transfer = (\<lambda>_ _ _ _. Inr ()), k_timeline_signal = (\<lambda>_ _. Inr ()),
     k_timeline_wait = (\<lambda>_ _ _ _ _ _. Inr ()), k_timeline_query = (\<lambda>_ _. Inr 0),
     k_eventfd = (\<lambda>_ _ _ _. Inr ())\<rparr>"

definition sink_host :: sink_env where
  "sink_host = \<lparr>sv_sendmsg = (\<lambda>packet _. Inr (length packet)), sv_drm = sink_kernel,
     sv_drm_second = sink_kernel, sv_try_clone = Some\<rparr>"

definition one_buffer :: buffer_metadata where
  "one_buffer = \<lparr>buf_id = 7, buf_width = 1, buf_height = 1, buf_format = \<lparr>fourcc = 1, modifier = 0\<rparr>,
     buf_planes = []\<rparr>"

definition one_target :: "bool \<Rightarrow> host_render_target" where
  "one_target busy = \<lparr>ht_configure_serial = 1, ht_metadata = one_buffer, ht_plane_fds = [],
     ht_reserved = (\<not> busy), ht_busy = busy, ht_revoked = False\<rparr>"

definition one_channel :: "bool \<Rightarrow> task_channel" where
  "one_channel busy = (fresh_channel \<lparr>bd_object = 5, bd_task = None, bd_display = 9, bd_package = [0x61],
       bd_acknowledged_configure = Some 1, bd_next_timeline_point = 1,
       bd_pending_release_points = (if busy then fmupd 1 1 fmempty else fmempty),
       bd_destroy_requested = False\<rparr>
       \<lparr>tt_acquire = new_timeline 1, tt_release = new_timeline 2\<rparr>)
     \<lparr>ch_render_targets := fmupd 7 (one_target busy) fmempty,
      ch_frame_targets := (if busy then fmupd 1 7 fmempty else fmempty)\<rparr>"

definition one_sink :: "bool \<Rightarrow> sink" where
  "one_sink busy = sk_new\<lparr>sk_tasks := fmupd 9 (one_channel busy) fmempty\<rparr>"

definition one_window :: "bool \<Rightarrow> task_window" where
  "one_window busy = \<lparr>win_reservation = \<lparr>rs_display = 9, rs_package = [0x61]\<rparr>, win_spec = None,
     win_composer = (co_new 9)\<lparr>co_transport := (if busy
       then ps_default\<lparr>ps_next_frame_id := 1, ps_busy_buffers := {|7|}, ps_in_flight := fmupd 1 7 fmempty\<rparr>
       else ps_default)\<rparr>\<rparr>"

definition one_session :: "bool \<Rightarrow> session" where
  "one_session busy = se_default\<lparr>se_windows := \<lparr>tw_windows = fmupd 9 (one_window busy) fmempty, tw_tasks = fmempty\<rparr>\<rparr>"

lemma one_ledger: "display_frames (se_windows (one_session busy)) 9 = (if busy then fmupd 1 7 fmempty else fmempty)"
  by (simp add: display_frames_def one_session_def one_window_def co_ledger_def ps_default_def)

lemma fmran_single: "fmran (fmupd k v fmempty) = {|v|}"
  by (auto simp: fmlookup_ran_iff split: if_split_asm)

lemma one_windows_inv: "tw_inv (se_windows (one_session busy))"
  by (auto simp: tw_inv_def one_session_def one_window_def window_ok_def reservation_validate_def
      composer_valid_package_def is_ascii_alphanumeric_def co_inv_def co_display_inv_def co_new_def
      layers_filed_def ps_inv_def ps_default_def fmran_single exclusive_def fmlen_upd MAX_TASK_WINDOWS_def
      split: if_split_asm)

lemma one_sink_inv: "sk_inv (one_sink busy, one_session busy)"
  using one_windows_inv [of busy]
  by (auto simp: sk_inv_def one_sink_def channels_distinct_def one_ledger one_channel_def fresh_channel_def
      channel_ok_def targets_ok_def target_ok_def one_target_def one_buffer_def exclusive_def fmran_single
      fmpred_iff fmsubset_alt_def sk_new_def split: if_split_asm)

subsection \<open>Properties\<close>

text \<open>
  C13.  Ownership of render targets.  Whatever order SurfaceFlinger's requests, lifecycle calls, events of
  the host and command batches take, and whatever the socket and the render node answer: a target is busy
  exactly while one frame occupies it and never also reserved, the frames that a binding waits for are the
  frames that occupy targets, each in flight in the Composer under the same buffer, a revoked target is
  kept only while it is in use, and no object and no Android task belongs to two displays.
\<close>

theorem sink_invariant:
  assumes "list_all sink_call_ok calls"
  shows "sk_inv (run_ops sk_step
    (sk_with_lazy_render_targets lazy (sk_with_activation_requests activation sk_new), se_default) calls)"
proof -
  have "sk_inv (sk_with_lazy_render_targets lazy (sk_with_activation_requests activation sk_new), se_default)"
    using sk_inv_new by (rule sk_inv_tasks_same)
      (simp add: sk_with_lazy_render_targets_def sk_with_activation_requests_def)
  then show ?thesis using assms by (rule sk_inv_run)
qed

definition sink_example_calls :: "sink_call list" where
  "sink_example_calls = [SkSession (SeHost (TwReserve \<lparr>rs_display = 9, rs_package = [0x61]\<rparr>)),
     SkRegister sink_host 5 \<lparr>rs_display = 9, rs_package = [0x61]\<rparr>,
     SkRegisterTarget 5 1 one_buffer [], SkAcquire sink_host 9, SkCancel 9 7]"

theorem sink_invariant_witness:
  "sk_inv (run_ops sk_step
     (sk_with_lazy_render_targets True (sk_with_activation_requests True sk_new), se_default) sink_example_calls)"
  by (rule sink_invariant) (simp add: sink_example_calls_def)

text \<open>
  C17.  An accepted release finds its target.  In every sink that satisfies the invariant, a release of the
  host is refused because nobody owns the object or because the bridge refuses it, or it is applied: the
  frame is known, its target is the busy target of that buffer, and the target is idle afterwards, or
  gone if the host had revoked it.  The errors for a frame without target or with another buffer, which
  would end the event pump, do not occur.
\<close>

theorem release_finds_target:
  assumes "sk_inv (s, se)" and "sk_apply_task_event (BufferReleased ob f b p) (s, se) = (r, (s', se'))"
  shows "r = Inl (SinkUnknownObject ob) \<or> (\<exists>e. r = Inl (SinkBridge e)) \<or>
    (\<exists>d ch ch' t. r = Inr (AppliedBufferReleased \<lparr>rf_frame_id = f, rf_buffer_id = b, rf_has_release_fence = True\<rparr>) \<and>
       fmlookup (sk_tasks s) d = Some ch \<and> bd_object (ch_binding ch) = ob \<and>
       fmlookup (ch_render_targets ch) b = Some t \<and> ht_busy t \<and>
       fmlookup (sk_tasks s') d = Some ch' \<and> fmlookup (ch_render_targets ch') b =
         (if ht_revoked t then None else Some (t\<lparr>ht_busy := False\<rparr>)))"
  using assms
proof (cases rule: sk_event_cases)
  case quiet
  then show ?thesis by blast
next
  case (released d ch f1 b1 p1 t)
  then have "f1 = f" "b1 = b" "ob = bd_object (ch_binding ch)" by simp_all
  with released show ?thesis
    by (intro disjI2 exI [of _ d] exI [of _ ch] exI [of _ "the (fmlookup (sk_tasks s') d)"] exI [of _ t])
      (simp add: set_channel_def)
qed

lemma one_release:
  "sk_apply_task_event (BufferReleased 5 1 7 1) (one_sink True, one_session True) =
     (Inr (AppliedBufferReleased \<lparr>rf_frame_id = 1, rf_buffer_id = 7, rf_has_release_fence = True\<rparr>),
      snd (sk_apply_task_event (BufferReleased 5 1 7 1) (one_sink True, one_session True)))"
proof -
  have ch: "channel_of_object 5 (one_sink True) = Some (9, one_channel True)"
    by (simp add: channel_of_object_def one_sink_def sorted_list_of_fmap_def sorted_list_of_fset.rep_eq
        one_channel_def fresh_channel_def)
  have "fst (sk_apply_task_event (BufferReleased 5 1 7 1) (one_sink True, one_session True)) =
    Inr (AppliedBufferReleased \<lparr>rf_frame_id = 1, rf_buffer_id = 7, rf_has_release_fence = True\<rparr>)"
    using ch by (simp add: sk_apply_task_event_def bd_apply_event_def apply_release_eq one_session_def
        one_window_def co_ledger_def one_channel_def fresh_channel_def op_bind_def op_return_def Let_def)
  then show ?thesis by (metis prod.collapse)
qed

theorem release_finds_target_witness:
  "\<exists>ch'. fmlookup (sk_tasks (fst (snd (sk_apply_task_event (BufferReleased 5 1 7 1)
       (one_sink True, one_session True))))) 9 = Some ch' \<and>
     fmlookup (ch_render_targets ch') 7 = Some ((one_target True)\<lparr>ht_busy := False\<rparr>)"
  using release_finds_target [OF one_sink_inv [of True], of 5 1 7 1
      "fst (sk_apply_task_event (BufferReleased 5 1 7 1) (one_sink True, one_session True))"
      "fst (snd (sk_apply_task_event (BufferReleased 5 1 7 1) (one_sink True, one_session True)))"
      "snd (snd (sk_apply_task_event (BufferReleased 5 1 7 1) (one_sink True, one_session True)))"]
    arg_cong [OF one_release, of fst]
  by (auto simp: one_sink_def one_channel_def one_target_def split: if_split_asm)

text \<open>
  C18.  A failed submission is a cancellation.  If SurfaceFlinger's frame cannot be presented -- the Composer
  rejects it, the task is being removed, a fence cannot be imported or exported, or the socket refuses a
  record -- then the ledgers of all displays are as before and the channels are as if the reservation of
  the target had been cancelled: no frame and no awaited release is left behind.
\<close>

theorem failed_submit_cancels:
  assumes "sk_inv (s, se)" and "d |\<in>| fmdom (tw_windows (se_windows se))"
    and "sk_submit_surfaceflinger_target env d target fence opaque damage (s, se) = (Inl e, (s', se'))"
  shows "sink_core s' = sink_core (sk_cancel_reserved_target d (buf_id (irt_metadata target)) s) \<and>
    display_frames (se_windows se') d' = display_frames (se_windows se) d'"
proof -
  have "tw_inv (se_windows se)" using assms(1) by (simp add: sk_inv_def)
  from this assms(3) show ?thesis
  proof (cases rule: submit_cases)
    case (failed e1 s1)
    then show ?thesis using assms(2) cancel_core [OF failed(2)] by simp
  qed simp
qed

definition refused_submit :: "(sink_error, frame_id) result \<times> sink \<times> session" where
  "refused_submit = sk_submit_surfaceflinger_target sink_host 9 (imported_target (one_target False) []) None True None
     (one_sink False, one_session False)"

lemma refused_submit_display_off: "fst refused_submit = Inl (SinkComposer DisplayOff)"
  by (simp add: refused_submit_def sk_submit_surfaceflinger_target_def one_session_def one_window_def
      tw_on_display_def co_submit_rendered_target_def co_require_display_def co_new_def op_bind_def Let_def)

theorem failed_submit_cancels_witness:
  "\<exists>s' se'. refused_submit = (Inl (SinkComposer DisplayOff), s', se') \<and>
     sink_core s' = sink_core (sk_cancel_reserved_target 9 7 (one_sink False)) \<and>
     display_frames (se_windows se') 9 = fmempty"
proof -
  obtain s' se' where r: "refused_submit = (Inl (SinkComposer DisplayOff), s', se')"
    using refused_submit_display_off by (metis prod.collapse)
  have dom: "9 |\<in>| fmdom (tw_windows (se_windows (one_session False)))" by (simp add: one_session_def)
  show ?thesis
    using failed_submit_cancels [OF one_sink_inv dom r [unfolded refused_submit_def], of 9] r
    by (intro exI [of _ s'] exI [of _ se']) (simp add: one_ledger imported_target_def one_target_def one_buffer_def)
qed

text \<open>
  Two ways to a target.  The trait of the older composition path and SurfaceFlinger's own entry point
  reserve the same target of the same display in the same state, with the same demand sent to the host;
  they differ only in that the older path turns each error into its HWC3 code.
\<close>

theorem acquire_paths_agree:
  "sk_acquire_target env d s =
     (case sk_acquire_surfaceflinger_target env d s of (r, s') \<Rightarrow> (map_err sink_error_code r, s'))"
  by (auto simp: sk_acquire_target_def sk_acquire_surfaceflinger_target_def op_bind_def op_lift_def
      sk_channel_def upd_channel_def op_return_def split: option.split sum.split prod.split)

end
