(* ===== verification/Connection_Example.thy ===== *)
theory Connection_Example
  imports Connection Sink_Properties Endpoint_Properties
begin

section \<open>A frame on its way through the connection\<close>

text \<open>
  A complete run of both ends: a window is reserved and switched on, the task is registered, the host
  announces formats, configures the window and hands over a render target, SurfaceFlinger acquires and
  submits it, the host reads the present and gives the frame back.  Every record passes the packet codec.
\<close>

subsection \<open>The Android side\<close>

lemma send_sink_host:
  assumes "encode_android_parts m = Inr (opc, ob, payload, kinds)" and "length fds = length kinds"
  shows "sk_send sink_host m fds s = (Inr (), s\<lparr>sk_sent := sk_sent s @ [(m, fds)]\<rparr>)"
proof -
  obtain p where p: "encode_android m = Inr p" "pkt_descriptors p = kinds"
    using android.finish_parts [OF assms(1)] assms(1) by (auto simp: android.encode_Inr_iff)
  then have "send_android (\<lambda>packet _. Inr (length packet)) m fds = Inr ()"
    using assms(2) by (simp add: android_socket.send_ok_iff)
  then show ?thesis by (simp add: sk_send_def sink_host_def)
qed

lemma sink_host_simps [simp]:
  "sv_drm sink_host = sink_kernel" "sv_drm_second sink_host = sink_kernel" "sv_try_clone sink_host = Some"
  by (simp_all add: sink_host_def)

lemma no_channel: "sk_tasks s = fmempty \<Longrightarrow> channel_of_object ob s = None"
  by (simp add: channel_of_object_def sorted_list_of_fmap_def sorted_list_of_fset.rep_eq)

definition run_reservation :: reserved_task_window_spec where
  "run_reservation = \<lparr>rs_display = 9, rs_package = example_package\<rparr>"

definition run_session :: "composer \<Rightarrow> session" where
  "run_session c = se_default\<lparr>se_windows := \<lparr>tw_windows = fmupd 9 \<lparr>win_reservation = run_reservation,
     win_spec = None, win_composer = c\<rparr> fmempty, tw_tasks = fmempty\<rparr>\<rparr>"

definition run_sink :: "task_channel \<Rightarrow> (android_message \<times> owned_fd list) list \<Rightarrow> sink" where
  "run_sink ch log = sk_new\<lparr>sk_tasks := fmupd 9 ch fmempty, sk_sent := log\<rparr>"

lemma run_session_display [simp]:
  "tw_on_display 9 f (se_windows (run_session c)) = (case f c of (r, c') \<Rightarrow> (Inr r, se_windows (run_session c')))"
  "(run_session c)\<lparr>se_windows := se_windows (run_session c')\<rparr> = run_session c'"
  by (simp_all add: tw_on_display_def run_session_def split: prod.split)

lemma run_sink_simps [simp]:
  "bd_object (ch_binding ch) = 3 \<Longrightarrow> channel_of_object 3 (run_sink ch log) = Some (9, ch)"
  "fmlookup (sk_tasks (run_sink ch log)) 9 = Some ch"
  "set_channel 9 ch' (run_sink ch log) = run_sink ch' log"
  "(run_sink ch log)\<lparr>sk_sent := log'\<rparr> = run_sink ch log'"
  "sk_sent (run_sink ch log) = log" "\<not> sk_lazy_render_targets (run_sink ch log)"
  by (simp_all add: channel_of_object_def run_sink_def sk_new_def sorted_list_of_fmap_def
      sorted_list_of_fset.rep_eq set_channel_def)

definition run_composer :: composer where
  "run_composer = (co_new 9)\<lparr>co_power_mode := PowerOn\<rparr>"

definition run_channel :: task_channel where
  "run_channel = fresh_channel \<lparr>bd_object = 3, bd_task = None, bd_display = 9, bd_package = example_package,
     bd_acknowledged_configure = None, bd_next_timeline_point = 0, bd_pending_release_points = fmempty,
     bd_destroy_requested = False\<rparr> \<lparr>tt_acquire = new_timeline 1, tt_release = new_timeline 1\<rparr>"

definition run_log :: "(android_message \<times> owned_fd list) list" where
  "run_log = [(CreateTask 3 9 example_package, []), (BindTimelines 3, [50, 50]), (AckConfigure 3 7, []),
     (SetContentState 3 CONTENT_OPAQUE, []), (Present 3 1 5 7 1 1 [], [])]"

lemma run_reserve:
  "se_step (se_step se_default (SeHost (TwReserve run_reservation))) (SeSetPowerMode 9 PowerOn) =
     run_session run_composer"
  by (simp add: tw_reserve_def run_reservation_def run_session_def run_composer_def se_default_def tw_empty_def
      op_bind_def op_lift_def op_return_def reservation_validate_def composer_valid_package_def
      example_package_def is_ascii_alphanumeric_def Let_def co_new_def se_set_power_mode_def se_on_display_def
      tw_on_display_def co_set_power_mode_def co_require_display_def fmlen_def fcard_fempty MAX_TASK_WINDOWS_def)

lemma run_register:
  "sk_step (sk_new, se) (SkRegister sink_host 3 run_reservation) = (run_sink run_channel (take 2 run_log), se)"
  using send_sink_host [OF example_encodings(1)] send_sink_host [OF example_encodings(2)]
  by (simp add: sk_register_task_def run_reservation_def sk_new_def bd_new_def no_channel op_bind_def
      op_lift_def bd_create_task_message_def bd_bind_timelines_message_def android_timelines_create_def
      android_export_descriptors_def create_timeline_def export_opaque_def drm_call_def sink_kernel_def
      run_sink_def run_channel_def set_channel_def run_log_def)

definition run_composer_formats :: composer where
  "run_composer_formats = co_replace_feedback run_composer [example_format]"

abbreviation pumped :: "attached_descriptor list \<Rightarrow> denial_message \<Rightarrow> (pump_error, sink \<times> session, unit) op" where
  "pumped \<equiv> pump_message sink_host (\<lambda>_. False) (\<lambda>_. False)"

lemmas pump_defs = skipped_def pump_task_message_def sk_display_for_object_def run_channel_def fresh_channel_def
  sk_apply_task_event_def bd_apply_event_def bridge_composer_def op_bind_def op_lift_def op_return_def

lemma run_formats:
  "pumped [] (FormatFeedback 3 1 [example_format]) (run_sink run_channel log, run_session run_composer) =
     (Inr (), run_sink run_channel log, run_session run_composer_formats)"
  by (simp add: pump_defs run_composer_formats_def)

definition run_composer_ready :: composer where
  "run_composer_ready = snd (co_acknowledge_configure 7 (co_configure run_composer_formats
     \<lparr>cfg_serial = 7, cfg_width = 64, cfg_height = 32, cfg_refresh_millihz = 60000\<rparr>))"

definition run_channel_ready :: task_channel where
  "run_channel_ready = run_channel\<lparr>ch_binding := (ch_binding run_channel)\<lparr>bd_acknowledged_configure := Some 7\<rparr>,
     ch_display_extent := Some (64, 32), ch_target_demand := \<lparr>dm_serial = Some 7, dm_requested = None\<rparr>\<rparr>"

lemmas run_composer_defs = run_composer_ready_def run_composer_formats_def run_composer_def
  co_acknowledge_configure_def co_configure_def on_transport_def ps_acknowledge_def ps_configure_def Let_def
  op_on_def co_replace_feedback_def co_new_def

lemma run_configure:
  "pumped [] (Configure 3 7 64 32 1 1 TransformNormal 60000)
     (run_sink run_channel (take 2 run_log), run_session run_composer_formats) =
   (Inr (), run_sink run_channel_ready (take 3 run_log), run_session run_composer_ready)"
  using send_sink_host [OF example_encodings(3)]
  by (simp add: pump_defs sk_acknowledge_configure_def bd_acknowledge_configure_def run_log_def
      run_channel_ready_def run_composer_defs pin_display_extent_def dm_configure_def dm_default_def)

definition run_target :: host_render_target where
  "run_target = \<lparr>ht_configure_serial = 7, ht_metadata = example_buffer 5, ht_plane_fds = [20],
     ht_reserved = False, ht_busy = False, ht_revoked = False\<rparr>"

lemma run_handover:
  "pumped [(DmabufPlane, 20)] (RegisterRenderTarget 3 7 (example_buffer 5)) (run_sink run_channel_ready log, se) =
     (Inr (), run_sink (set_target 5 run_target run_channel_ready) log, se)"
  by (simp add: sk_register_render_target_def op_bind_def op_lift_def run_channel_ready_def run_channel_def
      fresh_channel_def run_target_def)

lemma run_acquire:
  "sk_acquire_surfaceflinger_target sink_host 9 (run_sink (set_target 5 run_target run_channel_ready) log) =
     (Inr (imported_target run_target [20]),
      run_sink (set_target 5 (run_target\<lparr>ht_reserved := True\<rparr>) run_channel_ready) log)"
  by (simp add: sk_acquire_surfaceflinger_target_def sk_channel_def op_bind_def op_lift_def op_return_def
      run_channel_ready_def run_channel_def fresh_channel_def set_target_def sk_ensure_render_targets_def
      dm_request_def idle_target_def sorted_list_of_fmap_def sorted_list_of_fset.rep_eq run_target_def
      upd_channel_def)

lemma run_opaque_encodes:
  "encode_android_parts (SetContentState 3 CONTENT_OPAQUE) = Inr (OP_SET_CONTENT_STATE, 3, w_u32 CONTENT_OPAQUE, [])"
  by (simp add: example_message_defs known_bits_def CONTENT_OPAQUE_def CONTENT_KNOWN_def CONTENT_SECURE_def CONTENT_HDR_def)

abbreviation no_damage :: damage where
  "no_damage \<equiv> \<lparr>dmg_x = 0, dmg_y = 0, dmg_width = 0, dmg_height = 0\<rparr>"

lemma run_present_encodes: "\<exists>p. encode_android_parts (Present 3 1 5 7 1 1 []) = Inr (OP_PRESENT, 3, p, [])"
  by (rule example_present_encodes) simp_all

lemma run_submit:
  "\<exists>ch c. sk_submit_surfaceflinger_target sink_host 9 (imported_target run_target [20]) None True (Some no_damage)
     (run_sink (set_target 5 (run_target\<lparr>ht_reserved := True\<rparr>) run_channel_ready) (take 3 run_log),
      run_session run_composer_ready) = (Inr 1, run_sink ch run_log, run_session c)"
proof -
  obtain p where p: "encode_android_parts (Present 3 1 5 7 1 1 []) = Inr (OP_PRESENT, 3, p, [])"
    using run_present_encodes ..
  show ?thesis
    using send_sink_host [OF run_opaque_encodes] send_sink_host [OF p]
    by (simp add: sk_submit_surfaceflinger_target_def imported_target_def run_target_def
        co_submit_rendered_target_def run_composer_defs co_require_display_def op_bind_def op_lift_def op_return_def
        ps_default_def ps_replace_feedback_def ps_submit_def submitted_damage_def checked_add_def
        sk_send_surfaceflinger_frame_def sk_channel_def run_channel_ready_def run_channel_def fresh_channel_def
        set_target_def announce_opacity_def upd_channel_def run_log_def present_frame_def bd_prepare_present_def
        android_signal_acquire_def android_export_acquire_fence_def on_acquire_def tl_signal_def
        export_materialized_def require_newer_def new_timeline_def drm_call_def sink_kernel_def
        transfer_handle_def) blast
qed

subsection \<open>The host\<close>

definition run_busy_task :: task_endpoint where
  "run_busy_task = example_task\<lparr>te_state := (te_state example_task)\<lparr>ts_last_acquire_point := 1,
       ts_last_release_point := 1, ts_busy_buffers := {|5|},
       ts_in_flight := fmupd 1 \<lparr>pw_buffer = 5, pw_release_point = 1\<rparr> fmempty\<rparr>,
     te_timelines := Some \<lparr>tt_acquire = (new_timeline 1)\<lparr>tl_transfer := Some 1,
       tl_last_exported_point := 1\<rparr>, tt_release = new_timeline 1\<rparr>,
     te_pending := fmupd 1 \<lparr>awf_object = 3, awf_frame = 1, awf_buffer = 5, awf_acquire_point = 1,
       awf_release_point = 1, awf_damage = []\<rparr> fmempty\<rparr>"

lemma run_present:
  "ep_step example_endpoint (CallReceive (delivering (Present 3 1 5 7 1 1 []) [])) =
     set_task example_endpoint 3 run_busy_task"
  by (simp add: example_receive_present example_ready example_present_defs example_endpoint_def
      run_busy_task_def set_task_def proto_consts)

lemma run_opaque:
  "ep_step example_endpoint (CallReceive (delivering (SetContentState 3 CONTENT_OPAQUE) [])) = example_endpoint"
  by (simp add: receive_delivering_action [OF run_opaque_encodes] example_ready op_bind_def task_of_def
      op_return_def split: sum.split)

lemma run_release:
  "\<exists>te. ep_step (set_task example_endpoint 3 run_busy_task) (CallFinishRelease host 3 1) =
     (set_task example_endpoint 3 te)\<lparr>ep_sent := ep_sent example_endpoint @ [(BufferReleased 3 1 5 1, [])]\<rparr>"
proof -
  have "ts_release (te_state run_busy_task) 1 5 1 = (Inr (BufferReleased 3 1 5 1), drop_frame (te_state run_busy_task) 1 5)"
    by (simp add: ts_release_def pending_check_def run_busy_task_def example_task_def)
  moreover obtain x where "encode_denial_parts (BufferReleased 3 1 5 1) = Inr x"
    by (simp add: encode_buffer_released_def example_message_defs)
  ultimately show ?thesis
    using send_delivering [of "BufferReleased 3 1 5 1" x "[]"]
    by (auto simp: finish_release_def run_busy_task_def example_task_def set_task_def)
qed

subsection \<open>Both together\<close>

abbreviation joined :: "sink \<Rightarrow> session \<Rightarrow> endpoint \<Rightarrow> nat \<Rightarrow> nat \<Rightarrow> task_object_id set \<Rightarrow> connection" where
  "joined s se e h a used \<equiv> \<lparr>cn_sink = s, cn_session = se, cn_endpoint = e, cn_host_read = h, cn_android_read = a,
     cn_used = used\<rparr>"

lemma joined_android:
  assumes "sk_step (s, se) call = (s', se')" and "sink_call_ok call" "\<not> host_driven call" "fresh_object used call"
  shows "cn_step (joined s se e h a used) (joined s' se' e h a (use_object call used))"
  using cn_android [of call "joined s se e h a used"] assms by simp

lemma joined_receive:
  assumes "encode_android_parts m = Inr (opc, ob, payload, kinds)" and "length fds = length kinds"
    and "\<forall>fd \<in> set fds. 0 \<le> fd" and "h < length (sk_sent s)" and "sk_sent s ! h = (m, fds)"
  shows "cn_step (joined s se e h a used) (joined s se (ep_step e (CallReceive (delivering m fds))) (Suc h) a used)"
  using cn_host_receive [of "joined s se e h a used" "delivering m fds"] receive_delivering [OF assms(1-3)] assms(4,5)
  by simp

lemma joined_host:
  "\<not> is_receive call \<Longrightarrow> cn_step (joined s se e h a used) (joined s se (ep_step e call) h a used)"
  using cn_host_call [of call "joined s se e h a used"] by simp

lemma joined_pump:
  assumes "pumped ds (fst (ep_sent e ! a)) (s, se) = (Inr (), (s', se'))" and "a < length (ep_sent e)"
  shows "cn_step (joined s se e h a used) (joined s' se' e h (Suc a) used)"
  using cn_pump [of "joined s se e h a used" sink_host] assms by simp

definition run_start :: connection where
  "run_start = joined sk_new se_default example_greeted_endpoint 0 1 {}"

lemma run_start_initial: "cn_initial run_start"
proof -
  have "ep_step ep_new (CallReceive (delivering (ClientHello 1 1 REQUIRED_V1) [])) = example_greeted_endpoint"
    using example_hello by (simp add: example_greeted_endpoint_def)
  then have "ep_inv example_greeted_endpoint" using ep_inv_new endpoint_frames.inv_step by metis
  then show ?thesis
    by (simp add: cn_initial_def run_start_def example_greeted_endpoint_def ep_new_def sk_new_def server_hello_def)
qed

lemma run_configured:
  "cn_step\<^sup>*\<^sup>* run_start (joined (run_sink run_channel (take 2 run_log)) (run_session run_composer)
     example_configured_endpoint 2 1 {3})"
proof -
  let ?s = "run_sink run_channel (take 2 run_log)" and ?se = "run_session run_composer"
  let ?r = "se_step se_default (SeHost (TwReserve run_reservation))" and ?e = example_greeted_endpoint
  have "cn_step run_start (joined sk_new ?r ?e 0 1 {})"
    using joined_android [of sk_new se_default "SkSession (SeHost (TwReserve run_reservation))"]
    by (simp add: run_start_def)
  moreover have "cn_step \<dots> (joined sk_new ?se ?e 0 1 {})"
    using joined_android [of sk_new ?r "SkSession (SeSetPowerMode 9 PowerOn)"] run_reserve by simp
  moreover have "cn_step \<dots> (joined ?s ?se ?e 0 1 {3})"
    using joined_android [OF run_register] by simp
  moreover let ?e2 = "ep_step ?e (CallReceive (delivering (CreateTask 3 9 example_package) []))"
  have "cn_step (joined ?s ?se ?e 0 1 {3}) (joined ?s ?se ?e2 (Suc 0) 1 {3})"
    by (rule joined_receive [OF example_encodings(1)]) (simp_all add: run_log_def)
  moreover let ?e3 = "ep_step ?e2 (CallReceive (delivering (BindTimelines 3) [50, 50]))"
  have "cn_step (joined ?s ?se ?e2 (Suc 0) 1 {3}) (joined ?s ?se ?e3 (Suc (Suc 0)) 1 {3})"
    by (rule joined_receive [OF example_encodings(2)]) (simp_all add: run_log_def)
  moreover let ?e4 = "ep_step ?e3 (CallFormatFeedback host 3 1 [example_format])"
  have "cn_step (joined ?s ?se ?e3 (Suc (Suc 0)) 1 {3}) (joined ?s ?se ?e4 (Suc (Suc 0)) 1 {3})"
    by (rule joined_host) simp
  moreover have "ep_step ?e4 (CallConfigure host 3 7 64 32 1 1 TransformNormal 60000) = example_configured_endpoint"
    using example_configuring by simp
  then have "cn_step (joined ?s ?se ?e4 (Suc (Suc 0)) 1 {3}) (joined ?s ?se example_configured_endpoint 2 1 {3})"
    using joined_host [of "CallConfigure host 3 7 64 32 1 1 TransformNormal 60000" ?s ?se ?e4 "Suc (Suc 0)" 1 "{3}"]
    by (simp add: numeral_2_eq_2 del: ep_step.simps)
  ultimately show ?thesis by (meson converse_rtranclp_into_rtranclp rtranclp.rtrancl_refl)
qed

lemma run_handed:
  "cn_step\<^sup>*\<^sup>* run_start (joined (run_sink (set_target 5 run_target run_channel_ready) (take 3 run_log))
     (run_session run_composer_ready) example_endpoint 3 4 {3})"
proof -
  let ?s2 = "run_sink run_channel (take 2 run_log)" and ?e1 = example_configured_endpoint
  let ?s3 = "run_sink run_channel_ready (take 3 run_log)" and ?se = "run_session run_composer_ready"
  let ?e2 = "ep_step ?e1 (CallReceive (delivering (AckConfigure 3 7) []))"
  have log: "fst (ep_sent ?e1 ! 1) = FormatFeedback 3 1 [example_format]"
    "fst (ep_sent ?e1 ! Suc 1) = Configure 3 7 64 32 1 1 TransformNormal 60000" "length (ep_sent ?e1) = 3"
    "fst (ep_sent example_endpoint ! 3) = RegisterRenderTarget 3 7 (example_buffer 5)"
    "length (ep_sent example_endpoint) = 4"
    by (simp_all add: example_configured_endpoint_def example_endpoint_def)
  have registered: "ep_step ?e2 (CallRegisterTarget host 3 7 (example_buffer 5) [20]) = example_endpoint"
    using example_registering by simp
  note run_configured
  also have "cn_step (joined ?s2 (run_session run_composer) ?e1 2 1 {3})
      (joined ?s2 (run_session run_composer_formats) ?e1 2 (Suc 1) {3})"
    by (rule joined_pump [where ds = "[]"]) (simp_all only: log run_formats)
  also have "cn_step \<dots> (joined ?s3 ?se ?e1 2 3 {3})"
    using joined_pump [of "[]" ?e1 "Suc 1" ?s2 "run_session run_composer_formats" ?s3 ?se 2 "{3}"] log run_configure
    by (simp add: numeral_3_eq_3)
  also have "cn_step \<dots> (joined ?s3 ?se ?e2 3 3 {3})"
    using joined_receive [OF example_encodings(3), of "[]" 2 ?s3 ?se ?e1 3 "{3}"]
    by (simp add: run_log_def del: ep_step.simps)
  also have "cn_step \<dots> (joined ?s3 ?se example_endpoint 3 3 {3})"
    using joined_host [of "CallRegisterTarget host 3 7 (example_buffer 5) [20]" ?s3 ?se ?e2 3 3 "{3}"]
    by (simp only: registered is_receive.simps simp_thms)
  also have "cn_step \<dots> (joined (run_sink (set_target 5 run_target run_channel_ready) (take 3 run_log)) ?se
      example_endpoint 3 4 {3})"
    using joined_pump [of "[(DmabufPlane, 20)]" example_endpoint 3, OF _ _, of ?s3 ?se] log run_handover by simp
  finally show ?thesis .
qed

lemma run_released:
  "\<exists>ch c te. cn_step\<^sup>*\<^sup>* run_start (joined (run_sink ch run_log) (run_session c) ((set_task example_endpoint 3 te)
     \<lparr>ep_sent := ep_sent example_endpoint @ [(BufferReleased 3 1 5 1, [])]\<rparr>) 5 4 {3})"
proof -
  let ?s4 = "run_sink (set_target 5 run_target run_channel_ready) (take 3 run_log)"
  let ?s5 = "run_sink (set_target 5 (run_target\<lparr>ht_reserved := True\<rparr>) run_channel_ready) (take 3 run_log)"
  let ?se = "run_session run_composer_ready" and ?e = example_endpoint
  let ?submit = "SkSubmit sink_host 9 (imported_target run_target [20]) None True (Some no_damage)"
  obtain ch c where "sk_step (?s5, ?se) ?submit = (run_sink ch run_log, run_session c)"
    using run_submit by auto
  note submit = joined_android [OF this, of "{3}" ?e 3 4]
  let ?s6 = "run_sink ch run_log" and ?se6 = "run_session c" and ?busy = "set_task ?e 3 run_busy_task"
  obtain te where "ep_step ?busy (CallFinishRelease host 3 1) =
      (set_task ?e 3 te)\<lparr>ep_sent := ep_sent ?e @ [(BufferReleased 3 1 5 1, [])]\<rparr>" (is "_ = ?freed")
    using run_release by blast
  note release = joined_host [of "CallFinishRelease host 3 1" ?s6 ?se6 ?busy 5 4 "{3}", unfolded this]
  obtain p where present: "encode_android_parts (Present 3 1 5 7 1 1 []) = Inr (OP_PRESENT, 3, p, [])"
    using run_present_encodes ..
  note run_handed
  also have "cn_step (joined ?s4 ?se ?e 3 4 {3}) (joined ?s5 ?se ?e 3 4 {3})"
    using joined_android [of ?s4 ?se "SkAcquire sink_host 9" ?s5 ?se "{3}" ?e 3 4] run_acquire by simp
  also have "cn_step \<dots> (joined ?s6 ?se6 ?e 3 4 {3})" using submit by simp
  also have "cn_step \<dots> (joined ?s6 ?se6 ?e 4 4 {3})"
    using joined_receive [OF run_opaque_encodes, of "[]" 3 ?s6 ?se6 ?e 4 "{3}"]
    by (simp add: run_log_def run_opaque del: ep_step.simps)
  also have "cn_step \<dots> (joined ?s6 ?se6 ?busy 5 4 {3})"
    using joined_receive [OF present, of "[]" 4 ?s6 ?se6 ?e 4 "{3}"]
    by (simp add: run_log_def run_present del: ep_step.simps)
  also have "cn_step \<dots> (joined ?s6 ?se6 ?freed 5 4 {3})" using release by simp
  finally show ?thesis by blast
qed

end
