(* ===== verification/Connection_Properties.thy ===== *)
theory Connection_Properties
  imports Connection_Example
begin

section \<open>Properties of the connection\<close>

text \<open>
  What both ends together guarantee, and one thing that they do not: a frame whose release the host
  swallows, because the task is already being destroyed there, keeps the display in the Composer for ever.
\<close>

subsection \<open>Releases that the sink accepts\<close>

lemma channel_of_owner:
  assumes "sk_inv (s, se)" and "fmlookup (sk_tasks s) d = Some ch"
  shows "channel_of_object (bd_object (ch_binding ch)) s = Some (d, ch)"
proof (cases "channel_of_object (bd_object (ch_binding ch)) s")
  case None
  with assms(2) show ?thesis by (auto simp: channel_of_object_None)
next
  case (Some dch)
  then obtain d' ch' where dch: "dch = (d', ch')" by (cases dch) auto
  note ch' = channel_of_object_Some [OF Some [unfolded dch]]
  have "d = d'"
    using assms ch' unfolding sk_inv_def channels_distinct_def same_owner_def by fastforce
  with ch' assms(2) dch Some show ?thesis by simp
qed

lemma awaited_release_accepted:
  assumes inv: "sk_inv (s, se)" and ch: "fmlookup (sk_tasks s) d = Some ch"
    and aw: "(f, b, p) \<in> awaited (bd_pending_release_points (ch_binding ch)) (ch_frame_targets ch)"
  shows "fst (sk_apply_task_event (BufferReleased (bd_object (ch_binding ch)) f b p) (s, se)) =
    Inr (AppliedBufferReleased \<lparr>rf_frame_id = f, rf_buffer_id = b, rf_has_release_fence = True\<rparr>)"
proof -
  have ok: "channel_ok d (display_frames (se_windows se) d) ch" using inv ch by (rule sk_inv_channel)
  have tracked: "fmlookup (ch_frame_targets ch) f = Some b" "fmlookup (bd_pending_release_points (ch_binding ch)) f = Some p"
    using aw by (simp_all add: awaited_def)
  have ledger: "fmlookup (display_frames (se_windows se) d) f = Some b"
    using ok tracked(1) by (simp add: channel_ok_def fmsubset_alt_def fmpred_iff)
  then obtain win where win: "fmlookup (tw_windows (se_windows se)) d = Some win"
    "fmlookup (co_ledger (win_composer win)) f = Some b"
    by (auto simp: display_frames_def split: option.split_asm)
  have "b |\<in>| fmran (ch_frame_targets ch)" using tracked(1) by (rule fmranI)
  then obtain t where "fmlookup (ch_render_targets ch) b = Some t"
    using ok unfolding channel_ok_def targets_ok_def by (meson fmdomE fsubsetD)
  with channel_of_owner [OF inv ch] tracked win ok show ?thesis
    by (simp add: sk_apply_task_event_def bd_apply_event_def apply_release_eq channel_ok_def op_bind_def
        op_return_def Let_def)
qed

lemma pump_release:
  "\<not> retired ob \<Longrightarrow> pump_message env retired removing ds (BufferReleased ob f b p) = pump_task_message env (BufferReleased ob f b p)"
  by (simp add: skipped_def)

lemma pump_accepts_awaited:
  assumes inv: "sk_inv (s, se)" and ch: "fmlookup (sk_tasks s) d = Some ch"
    and aw: "(f, b, p) \<in> awaited (bd_pending_release_points (ch_binding ch)) (ch_frame_targets ch)"
  shows "fst (pump_task_message env (BufferReleased (bd_object (ch_binding ch)) f b p) (s, se)) = Inr ()"
  using awaited_release_accepted [OF assms] channel_of_owner [OF inv ch]
  by (auto simp: pump_task_message_def sk_display_for_object_def split: prod.split sum.split_asm)

lemma coming_release_awaited:
  assumes inv: "cn_inv c" and n: "cn_android_read c < length (ep_sent (cn_endpoint c))"
    and m: "fst (ep_sent (cn_endpoint c) ! cn_android_read c) = BufferReleased (bd_object (ch_binding ch)) f b p"
    and ch: "fmlookup (sk_tasks (cn_sink c)) d = Some ch"
  shows "(f, b, p) \<in> awaited (bd_pending_release_points (ch_binding ch)) (ch_frame_targets ch)"
proof -
  have "(f, b, p) \<in># to_android c (bd_object (ch_binding ch))"
    using releases_drop [OF n, of "bd_object (ch_binding ch)"] m by (simp add: to_android_def)
  then have "(f, b, p) \<in># outstanding c (bd_object (ch_binding ch))" by (simp add: outstanding_def)
  moreover have "fmlookup (sink_tracks (cn_sink c)) d = Some (bd_object (ch_binding ch),
      bd_pending_release_points (ch_binding ch), ch_frame_targets ch)"
    using ch by (simp add: sink_tracks_lookup)
  then have "outstanding c (bd_object (ch_binding ch)) \<subseteq>#
      mset_set (awaited (bd_pending_release_points (ch_binding ch)) (ch_frame_targets ch))"
    using inv unfolding cn_inv_def by blast
  ultimately show ?thesis by (auto dest: mset_subset_eqD)
qed

subsection \<open>Frames that were lost\<close>

text \<open>A frame of an object is lost when no record and no task of the host holds it any more.\<close>

definition lost :: "flight \<Rightarrow> task_object_id \<Rightarrow> connection \<Rightarrow> bool" where
  "lost x ob c \<longleftrightarrow> ob \<in> cn_used c \<and> x \<notin># outstanding c ob \<and>
     (\<forall>d pend targets. fmlookup (sink_tracks (cn_sink c)) d = Some (ob, pend, targets) \<longrightarrow> x \<in> awaited pend targets)"

lemma outstanding_android:
  assumes "cn_inv c" and "sk_logs (cn_sink c) s' fl"
  shows "outstanding (c\<lparr>cn_sink := s', cn_session := se', cn_used := u\<rparr>) ob = outstanding c ob + mset (fl ob)"
  using sk_logs_drop [OF assms(2)] assms(1)
  by (simp add: outstanding_def to_host_def at_host_def to_android_def cn_inv_def ac_simps)

lemma outstanding_host:
  assumes "cn_inv c" and "ep_moves (cn_endpoint c) e' extra"
    and "presents ob (drop (cn_host_read c) (sk_sent (cn_sink c))) = fl @ presents ob (drop h (sk_sent (cn_sink c)))"
    and "mset fl = extra ob"
  shows "outstanding (c\<lparr>cn_endpoint := e', cn_host_read := h\<rparr>) ob \<subseteq># outstanding c ob"
proof -
  have "cn_android_read c \<le> length (ep_sent (cn_endpoint c))" using assms(1) by (simp add: cn_inv_def)
  from host_moves(1) [OF assms(2) this, of ob] assms(3,4) show ?thesis
    by (simp add: outstanding_def to_host_def at_host_def to_android_def ac_simps)
qed

lemma lost_shrink:
  assumes "lost x ob c" and "cn_used c \<subseteq> cn_used c'" and "outstanding c' ob \<subseteq># outstanding c ob"
    and "\<And>d t. fmlookup (sink_tracks (cn_sink c')) d = Some t \<Longrightarrow> fmlookup (sink_tracks (cn_sink c)) d = Some t"
  shows "lost x ob c'"
  using assms unfolding lost_def by (meson mset_subset_eqD subsetD)

lemma lost_android:
  assumes inv: "cn_inv c" and lost: "lost x ob c" and call: "\<not> host_driven call" "fresh_object (cn_used c) call"
    and step: "sk_step (cn_sink c, cn_session c) call = (s', se')"
  shows "lost x ob (c\<lparr>cn_sink := s', cn_session := se', cn_used := use_object call (cn_used c)\<rparr>)" (is "lost x ob ?c")
proof -
  have used: "cn_used c \<subseteq> use_object call (cn_used c)" by (cases call) auto
  have sk: "sk_inv (cn_sink c, cn_session c)" using inv by (simp add: cn_inv_def)
  note out = outstanding_android [OF inv]
  from sk call(1) step show ?thesis
  proof (cases rule: sk_effect)
    case same
    then show ?thesis by (intro lost_shrink [OF lost]) (use used out in auto)
  next
    case (dropped d)
    then show ?thesis by (intro lost_shrink [OF lost]) (use used out in \<open>auto split: if_split_asm\<close>)
  next
    case (registered env d o1 reservation)
    then have "o1 \<noteq> ob" using lost call(2) by (auto simp: lost_def)
    with registered show ?thesis
      using lost out [OF registered(3)] used by (auto simp: lost_def split: if_split_asm)
  next
    case (submitted d o1 pend targets f b p)
    show ?thesis
    proof (cases "o1 = ob")
      case True
      then have "x \<in> awaited pend targets" using lost submitted(1) by (auto simp: lost_def)
      then have "x \<noteq> (f, b, p)" "x \<in> awaited (fmupd f p pend) (fmupd f b targets)"
        using submitted(2) by (auto simp: awaited_insert awaited_def fmdomI)
      with True show ?thesis
        using lost out [OF submitted(4)] used unfolding lost_def by (auto simp: submitted(3) split: if_split_asm)
    next
      case False
      with submitted show ?thesis
        using lost out [OF submitted(4)] used by (auto simp: lost_def split: if_split_asm)
    qed
  qed
qed

lemma lost_pump:
  assumes inv: "cn_inv c" and lost: "lost x ob c" and n: "cn_android_read c < length (ep_sent (cn_endpoint c))"
    and pump: "pump_message env retired removing ds (fst (ep_sent (cn_endpoint c) ! cn_android_read c))
      (cn_sink c, cn_session c) = (r, (s', se'))"
  shows "lost x ob (c\<lparr>cn_sink := s', cn_session := se', cn_android_read := Suc (cn_android_read c)\<rparr>)" (is "lost x ob ?c")
proof -
  have sk: "sk_inv (cn_sink c, cn_session c)" using inv by (simp add: cn_inv_def)
  have out: "outstanding c o1 = outstanding ?c o1 + mset (released_flights o1 (fst (ep_sent (cn_endpoint c) ! cn_android_read c)))"
    if "sk_quiet (cn_sink c) s'" for o1
    using sk_logs_drop [OF that] releases_drop [OF n, of o1] inv
    by (simp add: outstanding_def to_host_def at_host_def to_android_def cn_inv_def ac_simps)
  from sk pump show ?thesis
  proof (cases rule: pump_effect)
    case same
    then show ?thesis by (intro lost_shrink [OF lost]) (simp_all add: out [OF same(2)])
  next
    case (released d o1 pend targets f b p)
    have keep: "x \<in> awaited (fmdrop f pend) (fmdrop f targets)" if "o1 = ob"
    proof -
      have "x \<in> awaited pend targets" "x \<noteq> (f, b, p)"
        using lost released(1,3) that out [OF released(6), of ob] by (auto simp: lost_def)
      moreover from this have "fst x \<noteq> f" using awaited_unique [OF _ released(4)] by fastforce
      ultimately show ?thesis by (simp add: awaited_drop)
    qed
    have "x \<notin># outstanding ?c ob" using lost out [OF released(6), of ob] by (simp add: lost_def)
    with lost keep show ?thesis
      unfolding lost_def by (simp add: released(5))
  qed
qed

lemma lost_step: "cn_step c c' \<Longrightarrow> cn_inv c \<Longrightarrow> lost x ob c \<Longrightarrow> lost x ob c'"
proof (induction rule: cn_step.induct)
  case (cn_android call c s' se')
  then show ?case by (intro lost_android)
next
  case (cn_host_receive c env r)
  let ?m = "fst (sk_sent (cn_sink c) ! cn_host_read c)"
  have ep: "ep_inv (cn_endpoint c)" using cn_host_receive.prems by (simp add: cn_inv_def)
  have "ep_moves (cn_endpoint c) (snd (receive_action env (cn_endpoint c))) (\<lambda>ob. arriving ob ?m)"
    using receive_moves [OF ep cn_host_receive.hyps(2)] cn_host_receive.hyps(3) by simp
  from outstanding_host [OF cn_host_receive.prems(1) this presents_drop [OF cn_host_receive.hyps(1)]
      message_flights_arriving]
  show ?case using cn_host_receive.prems by (intro lost_shrink [OF cn_host_receive.prems(2)]) simp_all
next
  case (cn_host_call call c)
  have "ep_settles (cn_endpoint c) (ep_step (cn_endpoint c) call)"
    using cn_host_call by (intro step_settles) (simp_all add: cn_inv_def)
  from outstanding_host [OF cn_host_call.prems(1) this, of _ "[]" "cn_host_read c"]
  show ?case by (intro lost_shrink [OF cn_host_call.prems(2)]) simp_all
next
  case (cn_pump c env retired removing ds r s' se')
  then show ?case by (intro lost_pump)
qed

lemma lost_steps:
  assumes "cn_step\<^sup>*\<^sup>* c c'" and "cn_inv c" and "lost x ob c"
  shows "cn_inv c' \<and> lost x ob c'"
  using assms by (induction rule: rtranclp_induct) (auto intro: cn_inv_step lost_step)

subsection \<open>Presents and releases over a whole history\<close>

definition conserved :: "connection \<Rightarrow> bool" where
  "conserved c \<longleftrightarrow> (\<forall>ob. mset (releases ob (ep_sent (cn_endpoint c))) + at_host c ob + to_host c ob \<subseteq>#
     mset (presents ob (sk_sent (cn_sink c))))"

lemma conserved_initial: "cn_initial c \<Longrightarrow> conserved c"
  by (simp add: cn_initial_def conserved_def at_host_def to_host_def ep_flights_def presents_def)

lemma conserved_logs:
  assumes "cn_inv c" and "conserved c" and "sk_logs (cn_sink c) (cn_sink c') fl"
    and "cn_endpoint c' = cn_endpoint c" and "cn_host_read c' = cn_host_read c"
  shows "conserved c'"
proof -
  have "presents ob (sk_sent (cn_sink c')) = presents ob (sk_sent (cn_sink c)) @ fl ob"
    "presents ob (drop (cn_host_read c) (sk_sent (cn_sink c'))) =
       presents ob (drop (cn_host_read c) (sk_sent (cn_sink c))) @ fl ob" for ob
    using sk_logs_drop(1) [OF assms(3), of 0 ob] sk_logs_drop(1) [OF assms(3), of "cn_host_read c" ob] assms(1)
    by (simp_all add: cn_inv_def)
  with assms(2,4,5) show ?thesis
    by (simp add: conserved_def at_host_def to_host_def add.assoc [symmetric])
qed

lemma conserved_host:
  assumes "conserved c" and "ep_moves (cn_endpoint c) e' extra"
    and "\<And>ob. presents ob (drop (cn_host_read c) (sk_sent (cn_sink c))) = fl ob @ presents ob (drop h (sk_sent (cn_sink c)))"
    and "\<And>ob. mset (fl ob) = extra ob"
  shows "conserved (c\<lparr>cn_endpoint := e', cn_host_read := h\<rparr>)"
proof -
  have "mset (releases ob (ep_sent e')) + mset_set (ep_flights ob e') \<subseteq>#
      mset_set (ep_flights ob (cn_endpoint c)) + mset (releases ob (ep_sent (cn_endpoint c))) + extra ob" for ob
    using host_moves(1) [OF assms(2), of 0 ob] by (simp add: ac_simps)
  then have "mset (releases ob (ep_sent e')) + mset_set (ep_flights ob e') + mset (presents ob (drop h (sk_sent (cn_sink c)))) \<subseteq>#
      mset_set (ep_flights ob (cn_endpoint c)) + mset (releases ob (ep_sent (cn_endpoint c))) + extra ob +
      mset (presents ob (drop h (sk_sent (cn_sink c))))" for ob
    by (rule subset_mset.add_right_mono)
  moreover have "mset_set (ep_flights ob (cn_endpoint c)) + mset (releases ob (ep_sent (cn_endpoint c))) + extra ob +
      mset (presents ob (drop h (sk_sent (cn_sink c)))) \<subseteq># mset (presents ob (sk_sent (cn_sink c)))" for ob
    using assms(1) [unfolded conserved_def, rule_format, of ob] assms(3) [of ob] assms(4) [of ob]
    by (simp add: at_host_def to_host_def ac_simps)
  ultimately have "mset (releases ob (ep_sent e')) + mset_set (ep_flights ob e') +
      mset (presents ob (drop h (sk_sent (cn_sink c)))) \<subseteq># mset (presents ob (sk_sent (cn_sink c)))" for ob
    by (rule subset_mset.order_trans)
  then show ?thesis by (simp add: conserved_def at_host_def to_host_def)
qed

lemma conserved_step: "cn_step c c' \<Longrightarrow> cn_inv c \<Longrightarrow> conserved c \<Longrightarrow> conserved c'"
proof (induction rule: cn_step.induct)
  case (cn_android call c s' se')
  have sk: "sk_inv (cn_sink c, cn_session c)" using cn_android.prems by (simp add: cn_inv_def)
  from sk cn_android.hyps(2,4) obtain fl where "sk_logs (cn_sink c) s' fl"
    by (cases rule: sk_effect) blast+
  then show ?case by (intro conserved_logs [OF cn_android.prems]) simp_all
next
  case (cn_host_receive c env r)
  have ep: "ep_inv (cn_endpoint c)" using cn_host_receive.prems by (simp add: cn_inv_def)
  have "ep_moves (cn_endpoint c) (snd (receive_action env (cn_endpoint c)))
      (\<lambda>ob. arriving ob (fst (sk_sent (cn_sink c) ! cn_host_read c)))"
    using receive_moves [OF ep cn_host_receive.hyps(2)] cn_host_receive.hyps(3) by simp
  from conserved_host [OF cn_host_receive.prems(2) this presents_drop [OF cn_host_receive.hyps(1)] message_flights_arriving]
  show ?case .
next
  case (cn_host_call call c)
  have "ep_settles (cn_endpoint c) (ep_step (cn_endpoint c) call)"
    using cn_host_call by (intro step_settles) (simp_all add: cn_inv_def)
  from conserved_host [OF cn_host_call.prems(2) this, where fl = "\<lambda>_. []" and h = "cn_host_read c"]
  show ?case by simp
next
  case (cn_pump c env retired removing ds r s' se')
  have sk: "sk_inv (cn_sink c, cn_session c)" using cn_pump.prems by (simp add: cn_inv_def)
  from sk cn_pump.hyps(2) have "sk_quiet (cn_sink c) s'" by (cases rule: pump_effect) blast+
  then show ?case by (intro conserved_logs [OF cn_pump.prems]) simp_all
qed

subsection \<open>Properties\<close>

text \<open>
  C1.  Both ends agree about every frame.  Whatever Android, SurfaceFlinger, the host and the event pump do,
  in any order and with any answer of the sockets and render nodes: both ends keep their own invariants, and
  every frame of a registered task that is on the way to the host, at the host or on the way back is a frame
  that the sink waits for, with the same buffer and the same release point, and it is in only one of the
  three places.
\<close>

theorem connection_invariant:
  assumes "cn_initial c0" and "cn_step\<^sup>*\<^sup>* c0 c"
  shows "cn_inv c"
  using assms cn_inv_reachable unfolding cn_reachable_def by blast

theorem connection_invariant_witness:
  "\<exists>ch c te. cn_inv (joined (run_sink ch run_log) (run_session c) ((set_task example_endpoint 3 te)
     \<lparr>ep_sent := ep_sent example_endpoint @ [(BufferReleased 3 1 5 1, [])]\<rparr>) 5 4 {3})"
  using run_released connection_invariant [OF run_start_initial] by blast

text \<open>
  C2.  A release is never refused.  When the event pump takes a release of a registered, not yet retired task
  from the socket, the bridge, the Composer and the render target cache all accept it, also while the task
  is being removed: the turn succeeds, the display is the task's, and exactly that frame leaves the records.
  An error there would end the service.
\<close>

theorem release_always_accepted:
  assumes "cn_inv c" and "cn_android_read c < length (ep_sent (cn_endpoint c))"
    and "fst (ep_sent (cn_endpoint c) ! cn_android_read c) = BufferReleased (bd_object (ch_binding ch)) f b p"
    and "fmlookup (sk_tasks (cn_sink c)) d = Some ch" and "\<not> retired (bd_object (ch_binding ch))"
  shows "\<exists>s' se' ch'. pump_message env retired removing ds (fst (ep_sent (cn_endpoint c) ! cn_android_read c))
      (cn_sink c, cn_session c) = (Inr (), (s', se')) \<and>
    fmlookup (ch_frame_targets ch) f = Some b \<and> fmlookup (sk_tasks s') d = Some ch' \<and>
    ch_frame_targets ch' = fmdrop f (ch_frame_targets ch) \<and>
    bd_pending_release_points (ch_binding ch') = fmdrop f (bd_pending_release_points (ch_binding ch))"
proof -
  have sk: "sk_inv (cn_sink c, cn_session c)" using assms(1) by (simp add: cn_inv_def)
  have aw: "(f, b, p) \<in> awaited (bd_pending_release_points (ch_binding ch)) (ch_frame_targets ch)"
    using assms(1-4) by (rule coming_release_awaited)
  obtain s' se' where pump: "pump_message env retired removing ds
      (fst (ep_sent (cn_endpoint c) ! cn_android_read c)) (cn_sink c, cn_session c) = (Inr (), (s', se'))"
    using pump_accepts_awaited [OF sk assms(4) aw, of env] pump_release [where retired = retired, OF assms(5)] unfolding assms(3)
    by (metis prod.collapse)
  from sk pump show ?thesis
  proof (cases rule: pump_effect)
    case same
    with assms(3,5) show ?thesis by simp
  next
    case (released d1 ob pend targets f1 b1 p1)
    have frame: "f1 = f" "ob = bd_object (ch_binding ch)" using released(1) assms(3) by simp_all
    have own: "fmlookup (sink_tracks (cn_sink c)) d = Some (ob, bd_pending_release_points (ch_binding ch), ch_frame_targets ch)"
      using assms(4) frame(2) by (simp add: sink_tracks_lookup)
    have d1: "d1 = d" using track_objects_distinct [OF sk own released(3)] .
    then have "fmlookup (sink_tracks s') d = Some (ob, fmdrop f (bd_pending_release_points (ch_binding ch)),
        fmdrop f (ch_frame_targets ch))"
      using released(3,5) own frame(1) by simp
    with pump aw show ?thesis by (auto simp: sink_tracks_lookup awaited_def)
  qed
qed

definition returning :: "(denial_message \<times> owned_fd list) list \<Rightarrow> connection" where
  "returning log = \<lparr>cn_sink = one_sink True, cn_session = one_session True,
     cn_endpoint = ep_new\<lparr>ep_sent := log\<rparr>, cn_host_read = 0, cn_android_read = 0, cn_used = {5}\<rparr>"

lemma one_track: "sink_tracks (one_sink True) = fmupd 9 (5, fmupd 1 1 fmempty, fmupd 1 7 fmempty) fmempty"
  by (rule fmap_ext) (simp add: sink_tracks_def one_sink_def track_def one_channel_def fresh_channel_def)

lemma one_awaited: "awaited (fmupd 1 1 fmempty) (fmupd 1 7 fmempty) = {(1, 7, 1)}"
  by (auto simp: awaited_def split: if_split_asm)

lemma returning_inv:
  assumes "log = [] \<or> log = [(BufferReleased 5 1 7 1, [])]"
  shows "cn_inv (returning log)"
proof -
  have "outstanding (returning log) ob = (if log = [] then {#} else if ob = 5 then {#(1, 7, 1)#} else {#})" for ob
    using assms by (auto simp: outstanding_def to_host_def at_host_def to_android_def returning_def
        ep_flights_def ep_new_def presents_def one_sink_def sk_new_def)
  then show ?thesis
    using one_sink_inv [of True] ep_inv_new
    by (auto simp: cn_inv_def one_track one_awaited returning_def ep_inv_def ep_new_def split: if_split_asm)
qed

theorem release_always_accepted_witness:
  "\<exists>s' se'. pump_message sink_host (\<lambda>_. False) (\<lambda>_. True) [] (BufferReleased 5 1 7 1)
     (one_sink True, one_session True) = (Inr (), (s', se'))"
  using release_always_accepted [of "returning [(BufferReleased 5 1 7 1, [])]" "one_channel True" 1 7 1 9
      "\<lambda>_. False" sink_host "\<lambda>_. True" "[]"] returning_inv
  by (auto simp: returning_def one_sink_def one_channel_def fresh_channel_def)

text \<open>
  C5.  A lost release blocks the removal.  If the sink waits for a frame that is neither on the way nor at
  the host -- as happens when the host consumes the releases of a task that it is already destroying -- then
  the task never recovers: for as long as its channel exists, whatever happens, the frame stays in the
  Composer's ledger, the binding keeps waiting for its release point, and removing the display is refused
  because of buffers in flight.
\<close>

theorem lost_release_blocks_removal:
  assumes "cn_inv c" and "fmlookup (sk_tasks (cn_sink c)) d = Some ch"
    and "fmlookup (ch_frame_targets ch) f = Some b" and "fmlookup (bd_pending_release_points (ch_binding ch)) f = Some p"
    and "(f, b, p) \<notin># outstanding c (bd_object (ch_binding ch))"
    and "cn_step\<^sup>*\<^sup>* c c'" and "fmlookup (sk_tasks (cn_sink c')) d' = Some ch'"
    and "bd_object (ch_binding ch') = bd_object (ch_binding ch)"
  shows "fmlookup (bd_pending_release_points (ch_binding ch')) f = Some p \<and>
    fmlookup (display_frames (se_windows (cn_session c')) d') f = Some b \<and>
    (\<exists>n. fst (tw_remove_display d' (se_windows (cn_session c'))) = Inl (DisplayBuffersInFlight d' n))"
proof -
  let ?ob = "bd_object (ch_binding ch)"
  have sk: "sk_inv (cn_sink c, cn_session c)" using assms(1) by (simp add: cn_inv_def)
  have own: "fmlookup (sink_tracks (cn_sink c)) d = Some (?ob, bd_pending_release_points (ch_binding ch), ch_frame_targets ch)"
    using assms(2) by (simp add: sink_tracks_lookup)
  have "lost (f, b, p) ?ob c"
    unfolding lost_def
  proof (intro conjI allI impI)
    show "?ob \<in> cn_used c" using assms(1) own unfolding cn_inv_def by blast
    show "(f, b, p) \<notin># outstanding c ?ob" by fact
    show "(f, b, p) \<in> awaited pend targets"
      if "fmlookup (sink_tracks (cn_sink c)) d1 = Some (?ob, pend, targets)" for d1 pend targets
      using track_objects_distinct [OF sk own that] own that assms(3,4) by (simp add: awaited_def)
  qed
  with lost_steps [OF assms(6,1)] have later: "cn_inv c'" "lost (f, b, p) ?ob c'" by blast+
  have aw: "fmlookup (ch_frame_targets ch') f = Some b" "fmlookup (bd_pending_release_points (ch_binding ch')) f = Some p"
    using later(2) assms(7,8) unfolding lost_def by (auto simp: sink_tracks_lookup awaited_def)
  have "channel_ok d' (display_frames (se_windows (cn_session c')) d') ch'"
    using later(1) assms(7) by (intro sk_inv_channel) (simp_all add: cn_inv_def)
  then have ledger: "fmlookup (display_frames (se_windows (cn_session c')) d') f = Some b"
    using aw(1) by (simp add: channel_ok_def fmsubset_alt_def fmpred_iff)
  then obtain win where win: "fmlookup (tw_windows (se_windows (cn_session c'))) d' = Some win"
    "fmlookup (co_ledger (win_composer win)) f = Some b"
    by (auto simp: display_frames_def split: option.split_asm)
  then have "co_ledger (win_composer win) \<noteq> fmempty" by (metis fmempty_lookup option.distinct(1))
  then show ?thesis
    using aw ledger win(1)
    by (auto simp: tw_remove_display_def co_in_flight_count_def ps_in_flight_count_def fmlen_0_iff co_ledger_def Let_def)
qed

theorem lost_release_blocks_removal_witness:
  "\<exists>n. fst (tw_remove_display 9 (se_windows (one_session True))) = Inl (DisplayBuffersInFlight 9 n)"
proof -
  have "(1, 7, 1) \<notin># outstanding (returning []) 5"
    by (simp add: outstanding_def to_host_def at_host_def to_android_def returning_def ep_flights_def ep_new_def
        presents_def one_sink_def sk_new_def)
  then show ?thesis
    using lost_release_blocks_removal [of "returning []" 9 "one_channel True" 1 7 1 "returning []" 9 "one_channel True"]
      returning_inv
    by (auto simp: returning_def one_sink_def one_channel_def fresh_channel_def)
qed

text \<open>
  C4.  Nothing is returned twice.  In every history of the connection, the releases that the host has sent for
  an object, together with the frames it still holds and the presents that it has not read, answer
  different presents that Android has sent for this object, each with its buffer and its release point.
\<close>

theorem releases_answer_presents:
  assumes "cn_initial c0" and "cn_step\<^sup>*\<^sup>* c0 c"
  shows "mset (releases ob (ep_sent (cn_endpoint c))) + at_host c ob + to_host c ob \<subseteq>#
    mset (presents ob (sk_sent (cn_sink c)))"
proof -
  have "conserved c"
    using assms(2)
  proof (induction rule: rtranclp_induct)
    case base
    then show ?case using assms(1) by (rule conserved_initial)
  next
    case (step c c')
    with assms(1) have "cn_inv c" using cn_inv_reachable unfolding cn_reachable_def by blast
    with step show ?case by (blast intro: conserved_step)
  qed
  then show ?thesis by (simp add: conserved_def)
qed

theorem releases_answer_presents_witness:
  "\<exists>c. cn_step\<^sup>*\<^sup>* run_start c \<and> releases 3 (ep_sent (cn_endpoint c)) = [(1, 5, 1)] \<and>
     presents 3 (sk_sent (cn_sink c)) = [(1, 5, 1)] \<and>
     mset (releases 3 (ep_sent (cn_endpoint c))) + at_host c 3 + to_host c 3 \<subseteq># mset (presents 3 (sk_sent (cn_sink c)))"
proof -
  obtain ch c te where run: "cn_step\<^sup>*\<^sup>* run_start (joined (run_sink ch run_log) (run_session c) ((set_task example_endpoint 3 te)
      \<lparr>ep_sent := ep_sent example_endpoint @ [(BufferReleased 3 1 5 1, [])]\<rparr>) 5 4 {3})" (is "cn_step\<^sup>*\<^sup>* run_start ?c")
    using run_released by blast
  have "releases 3 (ep_sent (cn_endpoint ?c)) = [(1, 5, 1)]" "presents 3 (sk_sent (cn_sink ?c)) = [(1, 5, 1)]"
    by (simp_all add: releases_def presents_def example_endpoint_def run_log_def server_hello_def)
  with run releases_answer_presents [OF run_start_initial run, of 3] show ?thesis by (intro exI [of _ ?c] conjI)
qed

end
