(* ===== verification/Task_Registry.thy ===== *)
theory Task_Registry
  imports Task_Windows
begin

section \<open>Task reservations\<close>

text \<open>
  \<open>TaskControlRegistry\<close> of \<open>graphics/droidloom-composer/src/task_control.rs\<close>: display and protocol
  object identities are reserved before an activity starts, staged, connected, bound to the real task
  and finally removed.  Proved: the invariant that ties the two maps and the phases together, that
  identities are never handed out twice, that a registration only moves forward through its phases
  and leaves the table from the first or the last one, and that every registration can be removed.
\<close>

subsection \<open>Data\<close>

definition MAX_EXTERNAL_ID :: u64 where "MAX_EXTERNAL_ID = 0x7FFFFFFFFFFFFFFF"

datatype task_registration_phase =
  PhaseReserved | PhaseStaged | PhaseConnected | PhaseBound | PhaseRemoving

record task_registration =
  rg_object :: task_object_id
  rg_reservation :: reserved_task_window_spec
  rg_task :: "task_id option"
  rg_android_display :: "u32 option"
  rg_phase :: task_registration_phase

datatype task_control_error =
    RegistryTaskLimit
  | RegistryDuplicateTask task_id
  | RegistryUnknownObject task_object_id
  | RegistryUnknownTask task_id
  | InvalidPhase task_object_id task_registration_phase task_registration_phase
  | IdentifierExhausted
  | InvalidSpec task_window_error

record task_registry =
  tr_registrations :: "(task_object_id, task_registration) fmap"
  tr_tasks :: "(task_id, task_object_id) fmap"
  tr_next_display :: "u64 option"
  tr_next_object :: "u64 option"

type_synonym 'a registry_op = "(task_control_error, task_registry, 'a) op"

subsection \<open>Operations\<close>

definition rg_bound_spec :: "task_registration \<Rightarrow> task_window_spec option" where
  "rg_bound_spec r = map_option (\<lambda>task. \<lparr>wsp_task = task,
     wsp_display = rs_display (rg_reservation r), wsp_package = rs_package (rg_reservation r)\<rparr>) (rg_task r)"

definition next_external_id :: "u64 \<Rightarrow> u64 option" where
  "next_external_id current =
     (case checked_add current 1 of
        Some n \<Rightarrow> if n \<le> MAX_EXTERNAL_ID then Some n else None
      | None \<Rightarrow> None)"

definition tr_default :: task_registry where
  "tr_default = \<lparr>tr_registrations = fmempty, tr_tasks = fmempty, tr_next_display = Some 1,
     tr_next_object = Some 1\<rparr>"

definition tr_with_first_ids :: "u64 \<Rightarrow> u64 \<Rightarrow> (task_control_error, task_registry) result" where
  "tr_with_first_ids first_display first_object =
     (if \<not> (1 \<le> first_display \<and> first_display \<le> MAX_EXTERNAL_ID) \<or>
         \<not> (1 \<le> first_object \<and> first_object \<le> MAX_EXTERNAL_ID)
      then Inl IdentifierExhausted
      else Inr \<lparr>tr_registrations = fmempty, tr_tasks = fmempty, tr_next_display = Some first_display,
        tr_next_object = Some first_object\<rparr>)"

definition tr_reserve :: "rust_string \<Rightarrow> task_registration registry_op" where
  "tr_reserve package = (\<lambda>s.
     if MAX_TASK_WINDOWS \<le> fmlen (tr_registrations s) then (Inl RegistryTaskLimit, s)
     else case tr_next_display s of
       None \<Rightarrow> (Inl IdentifierExhausted, s)
     | Some display \<Rightarrow>
     case tr_next_object s of
       None \<Rightarrow> (Inl IdentifierExhausted, s)
     | Some object \<Rightarrow>
         let registration = \<lparr>rg_object = object,
               rg_reservation = \<lparr>rs_display = display, rs_package = package\<rparr>, rg_task = None,
               rg_android_display = None, rg_phase = PhaseReserved\<rparr> in
         case reservation_validate (rg_reservation registration) of
           Inl e \<Rightarrow> (Inl (InvalidSpec e), s)
         | Inr _ \<Rightarrow> (Inr registration,
             s\<lparr>tr_next_display := next_external_id display, tr_next_object := next_external_id object,
               tr_registrations := fmupd object registration (tr_registrations s)\<rparr>))"

definition tr_transition ::
  "task_object_id \<Rightarrow> task_registration_phase \<Rightarrow> task_registration_phase \<Rightarrow> unit registry_op" where
  "tr_transition object expected requested = (\<lambda>s.
     case fmlookup (tr_registrations s) object of
       None \<Rightarrow> (Inl (RegistryUnknownObject object), s)
     | Some registration \<Rightarrow>
         if rg_phase registration \<noteq> expected
         then (Inl (InvalidPhase object (rg_phase registration) requested), s)
         else (Inr (), s\<lparr>tr_registrations :=
           fmupd object (registration\<lparr>rg_phase := requested\<rparr>) (tr_registrations s)\<rparr>))"

definition tr_mark_staged :: "task_object_id \<Rightarrow> unit registry_op" where
  "tr_mark_staged object = tr_transition object PhaseReserved PhaseStaged"

definition tr_mark_connected :: "task_object_id \<Rightarrow> unit registry_op" where
  "tr_mark_connected object = tr_transition object PhaseStaged PhaseConnected"

definition tr_bind_task :: "task_object_id \<Rightarrow> task_id \<Rightarrow> u32 \<Rightarrow> task_window_spec registry_op" where
  "tr_bind_task object task android_display = (\<lambda>s.
     if task = 0 then (Inl (InvalidSpec InvalidTask), s)
     else if task |\<in>| fmdom (tr_tasks s) then (Inl (RegistryDuplicateTask task), s)
     else case fmlookup (tr_registrations s) object of
       None \<Rightarrow> (Inl (RegistryUnknownObject object), s)
     | Some registration \<Rightarrow>
         if rg_phase registration \<noteq> PhaseConnected
         then (Inl (InvalidPhase object (rg_phase registration) PhaseBound), s)
         else (Inr \<lparr>wsp_task = task, wsp_display = rs_display (rg_reservation registration),
                 wsp_package = rs_package (rg_reservation registration)\<rparr>,
               s\<lparr>tr_registrations := fmupd object (registration\<lparr>rg_task := Some task,
                   rg_android_display := Some android_display, rg_phase := PhaseBound\<rparr>)
                   (tr_registrations s),
                 tr_tasks := fmupd task object (tr_tasks s)\<rparr>))"

definition tr_begin_removal :: "task_object_id \<Rightarrow> unit registry_op" where
  "tr_begin_removal object = (\<lambda>s.
     case fmlookup (tr_registrations s) object of
       None \<Rightarrow> (Inl (RegistryUnknownObject object), s)
     | Some registration \<Rightarrow>
         if rg_phase registration \<notin> {PhaseStaged, PhaseConnected, PhaseBound}
         then (Inl (InvalidPhase object (rg_phase registration) PhaseRemoving), s)
         else (Inr (), s\<lparr>tr_registrations :=
           fmupd object (registration\<lparr>rg_phase := PhaseRemoving\<rparr>) (tr_registrations s)\<rparr>))"

definition tr_get :: "task_registry \<Rightarrow> task_object_id \<Rightarrow> (task_control_error, task_registration) result" where
  "tr_get s object = ok_or (RegistryUnknownObject object) (fmlookup (tr_registrations s) object)"

definition tr_remove_in_phase ::
  "task_object_id \<Rightarrow> task_registration_phase \<Rightarrow> task_registration registry_op" where
  "tr_remove_in_phase object expected = (\<lambda>s.
     case tr_get s object of
       Inl e \<Rightarrow> (Inl e, s)
     | Inr registration \<Rightarrow>
         if rg_phase registration \<noteq> expected
         then (Inl (InvalidPhase object (rg_phase registration) expected), s)
         else
           let s1 = s\<lparr>tr_registrations := fmdrop object (tr_registrations s)\<rparr> in
           (Inr registration,
            case rg_task registration of
              None \<Rightarrow> s1 | Some task \<Rightarrow> s1\<lparr>tr_tasks := fmdrop task (tr_tasks s1)\<rparr>))"

definition tr_cancel_reservation :: "task_object_id \<Rightarrow> task_registration registry_op" where
  "tr_cancel_reservation object = tr_remove_in_phase object PhaseReserved"

definition tr_finish_removal :: "task_object_id \<Rightarrow> task_registration registry_op" where
  "tr_finish_removal object = tr_remove_in_phase object PhaseRemoving"

definition tr_for_task :: "task_registry \<Rightarrow> task_id \<Rightarrow> (task_control_error, task_registration) result" where
  "tr_for_task s task =
     bind_result (ok_or (RegistryUnknownTask task) (fmlookup (tr_tasks s) task)) (tr_get s)"

definition tr_for_display ::
  "task_registry \<Rightarrow> display_id \<Rightarrow> (task_control_error, task_registration) result" where
  "tr_for_display s display =
     ok_or (InvalidSpec (UnknownDisplay display))
       (find (\<lambda>r. rs_display (rg_reservation r) = display) (fmvalues (tr_registrations s)))"

datatype registry_call =
    TrReserve rust_string
  | TrStaged task_object_id
  | TrConnected task_object_id
  | TrBind task_object_id task_id u32
  | TrBeginRemoval task_object_id
  | TrCancel task_object_id
  | TrFinish task_object_id

fun tr_step :: "task_registry \<Rightarrow> registry_call \<Rightarrow> task_registry" where
  "tr_step s (TrReserve package) = snd (tr_reserve package s)"
| "tr_step s (TrStaged object) = snd (tr_mark_staged object s)"
| "tr_step s (TrConnected object) = snd (tr_mark_connected object s)"
| "tr_step s (TrBind object task d) = snd (tr_bind_task object task d s)"
| "tr_step s (TrBeginRemoval object) = snd (tr_begin_removal object s)"
| "tr_step s (TrCancel object) = snd (tr_cancel_reservation object s)"
| "tr_step s (TrFinish object) = snd (tr_finish_removal object s)"

subsection \<open>The life of a registration\<close>

text \<open>The specification: the edges between phases, and what one step may do to one object.\<close>

inductive phase_edge :: "task_registration_phase \<Rightarrow> task_registration_phase \<Rightarrow> bool" where
  stage: "phase_edge PhaseReserved PhaseStaged"
| connect: "phase_edge PhaseStaged PhaseConnected"
| bind: "phase_edge PhaseConnected PhaseBound"
| remove: "p \<noteq> PhaseReserved \<Longrightarrow> p \<noteq> PhaseRemoving \<Longrightarrow> phase_edge p PhaseRemoving"

code_pred phase_edge .

inductive_simps phase_edge_iff: "phase_edge p q"

fun phase_rank :: "task_registration_phase \<Rightarrow> nat" where
  "phase_rank PhaseReserved = 0"
| "phase_rank PhaseStaged = 1"
| "phase_rank PhaseConnected = 2"
| "phase_rank PhaseBound = 3"
| "phase_rank PhaseRemoving = 4"

lemma phase_edge_rank: "phase_edge p q \<Longrightarrow> phase_rank p < phase_rank q"
  by (cases p; cases q) (auto simp: phase_edge_iff)

text \<open>A registration is fresh, kept, moved along one edge, or taken out at one of its two ends.\<close>

definition life_step :: "task_registration option \<Rightarrow> task_registration option \<Rightarrow> bool" where
  "life_step before after =
     (case (before, after) of
        (None, None) \<Rightarrow> True
      | (None, Some r) \<Rightarrow> rg_phase r = PhaseReserved
      | (Some r, None) \<Rightarrow> rg_phase r = PhaseReserved \<or> rg_phase r = PhaseRemoving
      | (Some r, Some r') \<Rightarrow> r' = r \<or>
          phase_edge (rg_phase r) (rg_phase r') \<and> rg_object r' = rg_object r \<and>
          rg_reservation r' = rg_reservation r \<and> (rg_task r = None \<or> rg_task r' = rg_task r))"

lemma life_step_simps [simp]:
  "life_step x x" "life_step None (Some r) = (rg_phase r = PhaseReserved)"
  "life_step (Some r) None = (rg_phase r = PhaseReserved \<or> rg_phase r = PhaseRemoving)"
  by (auto simp: life_step_def split: option.split)

lemma tr_reserve_cases:
  assumes "tr_reserve package s = (x, s')"
  obtains (error) e where "x = Inl e" "s' = s"
  | (reserved) d o' r where "x = Inr r" "fmlen (tr_registrations s) < MAX_TASK_WINDOWS"
      "tr_next_display s = Some d" "tr_next_object s = Some o'"
      "r = \<lparr>rg_object = o', rg_reservation = \<lparr>rs_display = d, rs_package = package\<rparr>, rg_task = None,
        rg_android_display = None, rg_phase = PhaseReserved\<rparr>"
      "reservation_validate (rg_reservation r) = Inr ()"
      "s' = s\<lparr>tr_next_display := next_external_id d, tr_next_object := next_external_id o',
        tr_registrations := fmupd o' r (tr_registrations s)\<rparr>"
  using assms
  by (auto simp: tr_reserve_def Let_def not_le split: if_splits option.splits sum.splits)

subsection \<open>Invariant\<close>

definition registration_ok :: "(task_id, task_object_id) fmap \<Rightarrow> task_object_id \<Rightarrow> task_registration \<Rightarrow> bool"
  where
  "registration_ok tasks object r \<longleftrightarrow>
     rg_object r = object \<and> reservation_validate (rg_reservation r) = Inr () \<and>
     (rg_phase r \<in> {PhaseReserved, PhaseStaged, PhaseConnected} \<longrightarrow> rg_task r = None) \<and>
     (rg_phase r = PhaseBound \<longrightarrow> rg_task r \<noteq> None) \<and>
     (rg_task r = None \<longleftrightarrow> rg_android_display r = None) \<and>
     (\<forall>t. rg_task r = Some t \<longrightarrow> t \<noteq> 0 \<and> fmlookup tasks t = Some object)"

text \<open>An identity that was handed out: below the next one, and positive as a signed integer.\<close>

definition id_used :: "u64 option \<Rightarrow> u64 \<Rightarrow> bool" where
  "id_used m x \<longleftrightarrow> 1 \<le> x \<and> x \<le> MAX_EXTERNAL_ID \<and> (\<forall>n. m = Some n \<longrightarrow> x < n)"

definition id_next_ok :: "u64 option \<Rightarrow> bool" where
  "id_next_ok m \<longleftrightarrow> (\<forall>n. m = Some n \<longrightarrow> 1 \<le> n \<and> n \<le> MAX_EXTERNAL_ID)"

definition ids_ok :: "task_registry \<Rightarrow> bool" where
  "ids_ok s \<longleftrightarrow> id_next_ok (tr_next_display s) \<and> id_next_ok (tr_next_object s) \<and>
     (\<forall>o' r. fmlookup (tr_registrations s) o' = Some r \<longrightarrow>
        id_used (tr_next_object s) o' \<and> id_used (tr_next_display s) (rs_display (rg_reservation r))) \<and>
     (\<forall>o1 o2 r1 r2. fmlookup (tr_registrations s) o1 = Some r1 \<longrightarrow>
        fmlookup (tr_registrations s) o2 = Some r2 \<longrightarrow>
        rs_display (rg_reservation r1) = rs_display (rg_reservation r2) \<longrightarrow> o1 = o2)"

definition table_ok :: "task_registry \<Rightarrow> bool" where
  "table_ok s \<longleftrightarrow>
     (\<forall>o' r. fmlookup (tr_registrations s) o' = Some r \<longrightarrow> registration_ok (tr_tasks s) o' r) \<and>
     (\<forall>t o'. fmlookup (tr_tasks s) t = Some o' \<longrightarrow>
        (\<exists>r. fmlookup (tr_registrations s) o' = Some r \<and> rg_task r = Some t)) \<and>
     fmlen (tr_registrations s) \<le> MAX_TASK_WINDOWS"

definition tr_inv :: "task_registry \<Rightarrow> bool" where
  "tr_inv s \<longleftrightarrow> ids_ok s \<and> table_ok s"

lemma next_external_id_cases:
  "next_external_id n = None \<or> (next_external_id n = Some (n + 1) \<and> n < n + 1 \<and> n + 1 \<le> MAX_EXTERNAL_ID)"
  by (auto simp: next_external_id_def checked_add_Some_iff word_less_nat_alt split: option.splits if_splits)

lemma id_used_next:
  "id_next_ok (Some n) \<Longrightarrow> id_used (next_external_id n) n"
  "id_used (Some n) x \<Longrightarrow> id_used (next_external_id n) x"
  "id_next_ok (Some n) \<Longrightarrow> id_next_ok (next_external_id n)"
  using next_external_id_cases [of n]
  by (auto simp: id_used_def id_next_ok_def intro: order.trans less_trans less_imp_le)

lemma id_used_fresh: "id_used (Some n) x \<Longrightarrow> x \<noteq> n"
  by (auto simp: id_used_def)

lemma tr_inv_default: "tr_with_first_ids d o' = Inr s \<Longrightarrow> tr_inv s"
  by (auto simp: tr_with_first_ids_def tr_inv_def ids_ok_def table_ok_def id_next_ok_def split: if_splits)

lemma tr_default_first_ids: "tr_with_first_ids 1 1 = Inr tr_default"
  by (simp add: tr_with_first_ids_def tr_default_def MAX_EXTERNAL_ID_def)

lemma ids_ok_fresh:
  assumes "ids_ok s" and "tr_next_object s = Some o'"
  shows "fmlookup (tr_registrations s) o' = None"
proof (rule ccontr)
  assume "fmlookup (tr_registrations s) o' \<noteq> None"
  then obtain r where "fmlookup (tr_registrations s) o' = Some r" by auto
  with assms have "id_used (Some o') o'" unfolding ids_ok_def by metis
  then show False by (simp add: id_used_def)
qed

lemma ids_ok_insert:
  assumes ids: "ids_ok s" and nd: "tr_next_display s = Some d" and no: "tr_next_object s = Some o'"
    and r: "rs_display (rg_reservation r) = d"
  shows "ids_ok (s\<lparr>tr_next_display := next_external_id d, tr_next_object := next_external_id o',
    tr_registrations := fmupd o' r (tr_registrations s)\<rparr>)"
proof -
  have used: "id_used (Some o') o1" "id_used (Some d) (rs_display (rg_reservation q))"
    if "fmlookup (tr_registrations s) o1 = Some q" for o1 q
    using ids that unfolding ids_ok_def nd no by blast+
  have next_ok: "id_next_ok (Some d)" "id_next_ok (Some o')"
    using ids unfolding ids_ok_def nd no by blast+
  have other: "rs_display (rg_reservation q) \<noteq> d" if "fmlookup (tr_registrations s) o1 = Some q" for o1 q
    using used(2) [OF that] by (rule id_used_fresh)
  have "o1 = o2" if "fmlookup (fmupd o' r (tr_registrations s)) o1 = Some r1"
    "fmlookup (fmupd o' r (tr_registrations s)) o2 = Some r2"
    "rs_display (rg_reservation r1) = rs_display (rg_reservation r2)" for o1 o2 r1 r2
  proof (cases "o1 = o' \<or> o2 = o'")
    case True
    with that r other show ?thesis by (metis fmupd_lookup option.inject)
  next
    case False
    then have "fmlookup (tr_registrations s) o1 = Some r1" "fmlookup (tr_registrations s) o2 = Some r2"
      using that(1,2) by auto
    with that(3) ids show ?thesis unfolding ids_ok_def by blast
  qed
  moreover have "id_used (next_external_id o') o1 \<and>
      id_used (next_external_id d) (rs_display (rg_reservation q))"
    if "fmlookup (fmupd o' r (tr_registrations s)) o1 = Some q" for o1 q
    using that used [of o1 q] r next_ok by (cases "o1 = o'") (auto simp: id_used_next)
  ultimately show ?thesis
    using id_used_next(3) [OF next_ok(1)] id_used_next(3) [OF next_ok(2)]
    by (simp add: ids_ok_def del: fmupd_lookup)
qed

lemma table_ok_insert:
  "table_ok s \<Longrightarrow> fmlookup (tr_registrations s) o' = None \<Longrightarrow> registration_ok (tr_tasks s) o' r \<Longrightarrow>
   fmlen (tr_registrations s) < MAX_TASK_WINDOWS \<Longrightarrow>
   table_ok (s\<lparr>tr_next_display := x, tr_next_object := y,
     tr_registrations := fmupd o' r (tr_registrations s)\<rparr>)"
  by (auto simp: table_ok_def fmlen_upd fmlookup_dom_iff) (metis option.distinct(1))+

lemma tr_inv_reserve: "tr_inv s \<Longrightarrow> tr_inv (snd (tr_reserve package s))"
proof (cases "tr_reserve package s")
  case (Pair x s')
  assume inv: "tr_inv s"
  from Pair show ?thesis
  proof (cases rule: tr_reserve_cases)
    case (reserved d o' r)
    have "ids_ok s'"
      using inv reserved(3-5) unfolding reserved(7) by (intro ids_ok_insert) (auto simp: tr_inv_def)
    moreover have "registration_ok (tr_tasks s) o' r"
      using reserved(5,6) by (simp add: registration_ok_def)
    then have "table_ok s'"
      using inv reserved(2) ids_ok_fresh [OF _ reserved(4)] unfolding reserved(7)
      by (intro table_ok_insert) (auto simp: tr_inv_def)
    ultimately show ?thesis
      using Pair by (simp add: tr_inv_def)
  qed (use inv Pair in simp)
qed

text \<open>Rewriting an entry and keeping its reservation keeps the identities.\<close>

lemma ids_ok_upd:
  "ids_ok s \<Longrightarrow> fmlookup (tr_registrations s) o' = Some r \<Longrightarrow> rg_reservation r' = rg_reservation r \<Longrightarrow>
   tr_registrations s' = fmupd o' r' (tr_registrations s) \<Longrightarrow>
   tr_next_display s' = tr_next_display s \<Longrightarrow> tr_next_object s' = tr_next_object s \<Longrightarrow> ids_ok s'"
  unfolding ids_ok_def by (auto split: if_splits)

lemma ids_ok_phase:
  "ids_ok s \<Longrightarrow> fmlookup (tr_registrations s) o' = Some r \<Longrightarrow>
   ids_ok (s\<lparr>tr_registrations := fmupd o' (r\<lparr>rg_phase := p\<rparr>) (tr_registrations s)\<rparr>)"
  by (rule ids_ok_upd) simp_all

lemma ids_ok_drop:
  "ids_ok s \<Longrightarrow> tr_registrations s' = fmdrop o' (tr_registrations s) \<Longrightarrow>
   tr_next_display s' = tr_next_display s \<Longrightarrow> tr_next_object s' = tr_next_object s \<Longrightarrow> ids_ok s'"
  unfolding ids_ok_def by (auto split: if_splits)

text \<open>Rewriting an entry: the entry itself, the others, and the task map have to agree again.\<close>

lemma table_ok_upd:
  assumes "table_ok s" and hit: "fmlookup (tr_registrations s) o' = Some r"
    and regs: "tr_registrations s' = fmupd o' r' (tr_registrations s)"
    and entry: "registration_ok (tr_tasks s') o' r'"
    and others: "\<And>o2 r2. o2 \<noteq> o' \<Longrightarrow> registration_ok (tr_tasks s) o2 r2 \<Longrightarrow> registration_ok (tr_tasks s') o2 r2"
    and tasks: "\<And>t o2. fmlookup (tr_tasks s') t = Some o2 \<Longrightarrow>
      o2 = o' \<and> rg_task r' = Some t \<or>
      fmlookup (tr_tasks s) t = Some o2 \<and> (o2 = o' \<longrightarrow> rg_task r' = rg_task r)"
  shows "table_ok s'"
proof -
  have "registration_ok (tr_tasks s') o2 r2" if "fmlookup (tr_registrations s') o2 = Some r2" for o2 r2
    using that assms(1) entry others regs by (auto simp: table_ok_def split: if_splits)
  moreover have "\<exists>q. fmlookup (tr_registrations s') o2 = Some q \<and> rg_task q = Some t"
    if "fmlookup (tr_tasks s') t = Some o2" for t o2
  proof (cases "o2 = o' \<and> rg_task r' = Some t")
    case False
    with tasks [OF that] have old: "fmlookup (tr_tasks s) t = Some o2"
      and same: "o2 = o' \<longrightarrow> rg_task r' = rg_task r" by auto
    from old assms(1) obtain q where "fmlookup (tr_registrations s) o2 = Some q" "rg_task q = Some t"
      unfolding table_ok_def by blast
    with same hit show ?thesis by (auto simp: regs)
  qed (simp add: regs)
  ultimately show ?thesis
    using assms(1) hit by (auto simp: table_ok_def regs fmlen_upd fmdomI)
qed

lemma table_ok_phase:
  assumes "table_ok s" and hit: "fmlookup (tr_registrations s) o' = Some r"
    and "rg_phase r \<noteq> PhaseRemoving" and "p \<noteq> PhaseBound"
    and "p = PhaseRemoving \<or> rg_phase r \<noteq> PhaseBound"
  shows "table_ok (s\<lparr>tr_registrations := fmupd o' (r\<lparr>rg_phase := p\<rparr>) (tr_registrations s)\<rparr>)"
proof -
  have "registration_ok (tr_tasks s) o' r"
    using assms(1,2) by (simp add: table_ok_def)
  then have "registration_ok (tr_tasks s) o' (r\<lparr>rg_phase := p\<rparr>)"
    using assms(3-5) by (cases "rg_phase r") (auto simp: registration_ok_def)
  then show ?thesis
    by (intro table_ok_upd [OF assms(1) hit]) auto
qed

lemma table_ok_bind:
  assumes "table_ok s" and hit: "fmlookup (tr_registrations s) o' = Some r"
    and "rg_phase r = PhaseConnected" and "t \<noteq> 0" and fresh: "fmlookup (tr_tasks s) t = None"
  shows "table_ok (s\<lparr>tr_registrations := fmupd o' (r\<lparr>rg_task := Some t, rg_android_display := Some d,
      rg_phase := PhaseBound\<rparr>) (tr_registrations s), tr_tasks := fmupd t o' (tr_tasks s)\<rparr>)"
proof -
  have ok: "registration_ok (tr_tasks s) o' r"
    using assms(1,2) by (simp add: table_ok_def)
  then have "rg_task r = None"
    using assms(3) by (simp add: registration_ok_def)
  then have "o2 \<noteq> o'" if "fmlookup (tr_tasks s) t' = Some o2" for t' o2
    using assms(1) hit that unfolding table_ok_def by (metis option.distinct(1) option.inject)
  note used = this
  show ?thesis
  proof (rule table_ok_upd [OF assms(1) hit])
    fix o2 r2
    assume "o2 \<noteq> o'" "registration_ok (tr_tasks s) o2 r2"
    then show "registration_ok (tr_tasks (s\<lparr>tr_registrations := fmupd o' (r\<lparr>rg_task := Some t,
        rg_android_display := Some d, rg_phase := PhaseBound\<rparr>) (tr_registrations s),
        tr_tasks := fmupd t o' (tr_tasks s)\<rparr>)) o2 r2"
      using fresh by (auto simp: registration_ok_def)
  qed (use ok assms(4) used in \<open>auto simp: registration_ok_def split: if_splits\<close>)
qed

lemma table_ok_remove:
  assumes "table_ok s" and "fmlookup (tr_registrations s) o' = Some r"
  shows "table_ok (s\<lparr>tr_registrations := fmdrop o' (tr_registrations s), tr_tasks :=
      (case rg_task r of None \<Rightarrow> tr_tasks s | Some t \<Rightarrow> fmdrop t (tr_tasks s))\<rparr>)"
proof -
  have ok: "registration_ok (tr_tasks s) o2 r2" if "fmlookup (tr_registrations s) o2 = Some r2" for o2 r2
    using assms(1) that by (simp add: table_ok_def)
  have entry: "\<exists>r. fmlookup (tr_registrations s) o2 = Some r \<and> rg_task r = Some t"
    if "fmlookup (tr_tasks s) t = Some o2" for t o2
    using assms(1) that by (simp add: table_ok_def)
  show ?thesis
  proof (cases "rg_task r")
    case None
    have "o2 \<noteq> o'" if "fmlookup (tr_tasks s) t = Some o2" for t o2
      using entry [OF that] assms(2) None by auto
    then show ?thesis
      using assms(1) None unfolding table_ok_def by (auto simp: fmlen_drop)
  next
    case (Some t)
    have "registration_ok (fmdrop t (tr_tasks s)) o2 r2"
      if "fmlookup (tr_registrations s) o2 = Some r2" "o2 \<noteq> o'" for o2 r2
      using ok [OF that(1)] ok [OF assms(2)] Some that(2) by (auto simp: registration_ok_def)
    moreover have "o2 \<noteq> o'" if "fmlookup (tr_tasks s) t' = Some o2" "t' \<noteq> t" for t' o2
      using entry [OF that(1)] assms(2) Some that(2) by auto
    ultimately show ?thesis
      using assms(1) Some unfolding table_ok_def by (auto simp: fmlen_drop)
  qed
qed

lemma tr_inv_transition:
  "tr_inv s \<Longrightarrow> p \<notin> {PhaseBound, PhaseRemoving} \<Longrightarrow> q \<noteq> PhaseBound \<Longrightarrow> tr_inv (snd (tr_transition o' p q s))"
  by (auto simp: tr_inv_def tr_transition_def table_ok_phase ids_ok_phase split: option.split)

lemma tr_inv_bind_task: "tr_inv s \<Longrightarrow> tr_inv (snd (tr_bind_task o' t d s))"
proof (cases "fmlookup (tr_registrations s) o'")
  case (Some r)
  assume inv: "tr_inv s"
  show ?thesis
  proof (cases "t = 0 \<or> t |\<in>| fmdom (tr_tasks s) \<or> rg_phase r \<noteq> PhaseConnected")
    case True
    with inv Some show ?thesis by (auto simp: tr_bind_task_def)
  next
    case False
    then have "snd (tr_bind_task o' t d s) = s\<lparr>tr_registrations := fmupd o' (r\<lparr>rg_task := Some t,
        rg_android_display := Some d, rg_phase := PhaseBound\<rparr>) (tr_registrations s),
        tr_tasks := fmupd t o' (tr_tasks s)\<rparr>" (is "_ = ?s'")
      using Some by (simp add: tr_bind_task_def)
    moreover have "table_ok ?s'"
      using inv Some False by (intro table_ok_bind) (auto simp: tr_inv_def fmlookup_None_iff)
    moreover have "ids_ok ?s'"
      using inv Some by (rule_tac ids_ok_upd [of s o' r]) (auto simp: tr_inv_def)
    ultimately show ?thesis by (simp add: tr_inv_def)
  qed
qed (auto simp: tr_bind_task_def)

lemma tr_inv_begin_removal: "tr_inv s \<Longrightarrow> tr_inv (snd (tr_begin_removal o' s))"
  by (auto simp: tr_inv_def tr_begin_removal_def table_ok_phase ids_ok_phase split: option.split)

lemma tr_remove_in_phase_eq:
  "tr_remove_in_phase o' p s =
     (case fmlookup (tr_registrations s) o' of
        None \<Rightarrow> (Inl (RegistryUnknownObject o'), s)
      | Some r \<Rightarrow> if rg_phase r \<noteq> p then (Inl (InvalidPhase o' (rg_phase r) p), s)
          else (Inr r, s\<lparr>tr_registrations := fmdrop o' (tr_registrations s), tr_tasks :=
            (case rg_task r of None \<Rightarrow> tr_tasks s | Some t \<Rightarrow> fmdrop t (tr_tasks s))\<rparr>))"
  by (auto simp: tr_remove_in_phase_def tr_get_def Let_def split: option.split)

lemmas registry_op_defs = tr_mark_staged_def tr_mark_connected_def tr_transition_def tr_bind_task_def
  tr_begin_removal_def tr_cancel_reservation_def tr_finish_removal_def tr_remove_in_phase_eq

lemma tr_inv_remove: "tr_inv s \<Longrightarrow> tr_inv (snd (tr_remove_in_phase o' p s))"
proof (cases "fmlookup (tr_registrations s) o'")
  case (Some r)
  assume inv: "tr_inv s"
  let ?s' = "s\<lparr>tr_registrations := fmdrop o' (tr_registrations s), tr_tasks :=
      (case rg_task r of None \<Rightarrow> tr_tasks s | Some t \<Rightarrow> fmdrop t (tr_tasks s))\<rparr>"
  have "table_ok ?s'"
    using inv Some by (intro table_ok_remove) (auto simp: tr_inv_def)
  moreover have "ids_ok ?s'"
    using inv by (rule_tac ids_ok_drop [of s]) (auto simp: tr_inv_def)
  ultimately show ?thesis
    using Some inv by (simp add: tr_remove_in_phase_eq tr_inv_def)
qed (simp add: tr_remove_in_phase_eq)

lemma tr_inv_step: "tr_inv s \<Longrightarrow> tr_inv (tr_step s call)"
  by (cases call)
    (simp_all add: tr_inv_reserve tr_inv_bind_task tr_inv_begin_removal tr_inv_transition tr_inv_remove
      tr_mark_staged_def tr_mark_connected_def tr_cancel_reservation_def tr_finish_removal_def)

lemma tr_inv_run: "tr_inv s \<Longrightarrow> tr_inv (run_ops tr_step s calls)"
  by (induction calls arbitrary: s) (auto intro: tr_inv_step)

subsection \<open>Identities\<close>

text \<open>The high-water mark of an identity space, and the identities an operation hands out.\<close>

definition id_mark :: "u64 option \<Rightarrow> int" where
  "id_mark m = (case m of None \<Rightarrow> 2 ^ 64 | Some n \<Rightarrow> uint n - 1)"

fun object_ids :: "task_registry \<Rightarrow> registry_call \<Rightarrow> int list" where
  "object_ids s (TrReserve package) =
     (case fst (tr_reserve package s) of Inl e \<Rightarrow> [] | Inr r \<Rightarrow> [uint (rg_object r)])"
| "object_ids s _ = []"

fun display_ids :: "task_registry \<Rightarrow> registry_call \<Rightarrow> int list" where
  "display_ids s (TrReserve package) =
     (case fst (tr_reserve package s) of Inl e \<Rightarrow> []
      | Inr r \<Rightarrow> [uint (rs_display (rg_reservation r))])"
| "display_ids s _ = []"

lemma id_mark_next: "uint n \<le> id_mark (next_external_id n)"
  using next_external_id_cases [of n] uint_lt2p [of n]
  by (auto simp: id_mark_def word_less_def)

lemma id_steps:
  "sorted_wrt (<) (id_mark (tr_next_object s) # object_ids s call) \<and>
   last (id_mark (tr_next_object s) # object_ids s call) \<le> id_mark (tr_next_object (tr_step s call))"
  "sorted_wrt (<) (id_mark (tr_next_display s) # display_ids s call) \<and>
   last (id_mark (tr_next_display s) # display_ids s call) \<le> id_mark (tr_next_display (tr_step s call))"
proof -
  have "(sorted_wrt (<) (id_mark (tr_next_object s) # object_ids s call) \<and>
      last (id_mark (tr_next_object s) # object_ids s call) \<le> id_mark (tr_next_object (tr_step s call))) \<and>
    sorted_wrt (<) (id_mark (tr_next_display s) # display_ids s call) \<and>
      last (id_mark (tr_next_display s) # display_ids s call) \<le> id_mark (tr_next_display (tr_step s call))"
  proof (cases call)
    case (TrReserve package)
    obtain x s' where eq: "tr_reserve package s = (x, s')" by fastforce
    then show ?thesis
      by (cases rule: tr_reserve_cases)
        (use eq TrReserve in \<open>simp_all add: id_mark_next\<close>, simp_all add: id_mark_def)
  qed (auto simp: registry_op_defs split: option.split)
  then show "sorted_wrt (<) (id_mark (tr_next_object s) # object_ids s call) \<and>
      last (id_mark (tr_next_object s) # object_ids s call) \<le> id_mark (tr_next_object (tr_step s call))"
    and "sorted_wrt (<) (id_mark (tr_next_display s) # display_ids s call) \<and>
      last (id_mark (tr_next_display s) # display_ids s call) \<le> id_mark (tr_next_display (tr_step s call))"
    by blast+
qed

interpretation object_source: point_source "\<lambda>s. id_mark (tr_next_object s)" tr_step object_ids
  by unfold_locales (use id_steps(1) in blast)+

interpretation display_source: point_source "\<lambda>s. id_mark (tr_next_display s)" tr_step display_ids
  by unfold_locales (use id_steps(2) in blast)+

subsection \<open>Phases\<close>

lemma life_step_edge:
  "phase_edge (rg_phase r) (rg_phase r') \<Longrightarrow> rg_object r' = rg_object r \<Longrightarrow>
   rg_reservation r' = rg_reservation r \<Longrightarrow> rg_task r = None \<or> rg_task r' = rg_task r \<Longrightarrow>
   life_step (Some r) (Some r')"
  by (simp add: life_step_def)

lemma life_step_step:
  assumes "tr_inv s"
  shows "life_step (fmlookup (tr_registrations s) o') (fmlookup (tr_registrations (tr_step s call)) o')"
proof (cases call)
  case (TrReserve package)
  obtain x s' where eq: "tr_reserve package s = (x, s')" by fastforce
  then show ?thesis
  proof (cases rule: tr_reserve_cases)
    case (reserved d o1 r)
    have "fmlookup (tr_registrations s) o1 = None"
      using assms reserved(4) by (auto simp: tr_inv_def intro: ids_ok_fresh)
    with reserved(5,7) eq TrReserve show ?thesis by auto
  qed (use eq TrReserve in simp)
next
  case (TrBind o1 t d)
  have "rg_task r = None" if "fmlookup (tr_registrations s) o' = Some r" "rg_phase r = PhaseConnected" for r
    using assms that by (auto simp: tr_inv_def table_ok_def registration_ok_def)
  with TrBind show ?thesis
    by (auto simp: tr_bind_task_def phase_edge_iff intro!: life_step_edge split: option.split)
qed (auto simp: registry_op_defs phase_edge_iff intro!: life_step_edge split: option.split)

text \<open>The number of phase changes of one object over a run.\<close>

definition phase_moved :: "task_object_id \<Rightarrow> task_registry \<Rightarrow> task_registry \<Rightarrow> bool" where
  "phase_moved object s s' =
     (case (fmlookup (tr_registrations s) object, fmlookup (tr_registrations s') object) of
        (Some r, Some r') \<Rightarrow> rg_phase r \<noteq> rg_phase r' | _ \<Rightarrow> False)"

fun phase_moves :: "task_object_id \<Rightarrow> task_registry \<Rightarrow> registry_call list \<Rightarrow> nat" where
  "phase_moves object s [] = 0"
| "phase_moves object s (call # calls) =
     (if phase_moved object s (tr_step s call) then 1 else 0) + phase_moves object (tr_step s call) calls"

text \<open>An object whose identity was handed out and that is gone stays gone.\<close>

definition id_gone :: "task_object_id \<Rightarrow> task_registry \<Rightarrow> bool" where
  "id_gone object s \<longleftrightarrow> uint object \<le> id_mark (tr_next_object s)"

definition phase_potential :: "task_object_id \<Rightarrow> task_registry \<Rightarrow> nat" where
  "phase_potential object s =
     (case fmlookup (tr_registrations s) object of
        Some r \<Rightarrow> phase_rank (rg_phase r) | None \<Rightarrow> if id_gone object s then 4 else 0)"

lemma phase_rank_le: "phase_rank p \<le> 4"
  by (cases p) auto

lemma phase_potential_le: "phase_potential object s \<le> 4"
  by (simp add: phase_potential_def phase_rank_le split: option.split)

lemma id_gone_mono: "id_gone object s \<Longrightarrow> id_gone object (tr_step s call)"
  using object_source.latest_mono [of s call] by (simp add: id_gone_def)

lemma registered_gone:
  assumes "tr_inv s" and "fmlookup (tr_registrations s) object = Some r"
  shows "id_gone object s"
proof -
  have "id_used (tr_next_object s) object"
    using assms by (auto simp: tr_inv_def ids_ok_def)
  then show ?thesis
    using uint_lt2p [of object]
    by (auto simp: id_used_def id_gone_def id_mark_def word_less_def split: option.split)
qed

lemma no_return:
  assumes "tr_inv s" and "fmlookup (tr_registrations s) object = None" and "id_gone object s"
  shows "fmlookup (tr_registrations (tr_step s call)) object = None"
proof (cases call)
  case (TrReserve package)
  obtain x s' where eq: "tr_reserve package s = (x, s')" by fastforce
  then show ?thesis
  proof (cases rule: tr_reserve_cases)
    case (reserved d o1 r)
    then have "o1 \<noteq> object"
      using assms(3) by (auto simp: id_gone_def id_mark_def)
    with reserved(7) eq TrReserve assms(2) show ?thesis by simp
  qed (use eq TrReserve assms(2) in simp)
qed (use assms(2) in \<open>auto simp: registry_op_defs split: option.split\<close>)

lemma phase_potential_step:
  assumes "tr_inv s"
  shows "phase_potential object s + (if phase_moved object s (tr_step s call) then 1 else 0)
    \<le> phase_potential object (tr_step s call)"
proof (cases "fmlookup (tr_registrations s) object")
  case None
  then show ?thesis
    using no_return [OF assms None, of call] id_gone_mono [of object s call]
    by (auto simp: phase_potential_def phase_moved_def)
next
  case (Some r)
  then have "id_gone object (tr_step s call)"
    using id_gone_mono registered_gone [OF assms] by blast
  then show ?thesis
    using life_step_step [OF assms, of object call] Some phase_rank_le [of "rg_phase r"]
    by (cases "fmlookup (tr_registrations (tr_step s call)) object")
      (auto simp: phase_potential_def phase_moved_def life_step_def dest: phase_edge_rank)
qed

lemma phase_moves_bound:
  "tr_inv s \<Longrightarrow> phase_potential object s + phase_moves object s calls \<le> 4"
proof (induction calls arbitrary: s)
  case (Cons call calls)
  have "phase_potential object (tr_step s call) + phase_moves object (tr_step s call) calls \<le> 4"
    using Cons.prems by (intro Cons.IH tr_inv_step)
  with phase_potential_step [OF Cons.prems, of object call] show ?case by simp
qed (simp add: phase_potential_le)

subsection \<open>Properties\<close>

text \<open>
  C34. The reservation table stays consistent over every sequence of operations, from any first
  identities that \<open>with_first_ids\<close> accepts: each registration is filed under its object with a valid
  reservation, has a task exactly from binding on (a removal keeps what it had), the task map and the
  bound registrations point at each other, displays are unique, every identity in use is positive as
  a signed 64-bit integer and older than the next one, and there are at most 4096 registrations.
\<close>

theorem registry_invariant:
  "case tr_with_first_ids d object of
     Inl e \<Rightarrow> d = 0 \<or> object = 0 \<or> 0x7FFFFFFFFFFFFFFF < d \<or> 0x7FFFFFFFFFFFFFFF < object
   | Inr s \<Rightarrow> tr_inv (run_ops tr_step s calls)"
proof (cases "tr_with_first_ids d object")
  case (Inl e)
  have pos: "1 \<le> x \<longleftrightarrow> x \<noteq> 0" for x :: u64
    by (simp add: word_le_nat_alt unat_gt_0 Suc_le_eq)
  from Inl show ?thesis
    by (simp add: tr_with_first_ids_def MAX_EXTERNAL_ID_def pos not_le split: if_splits) blast
next
  case (Inr s)
  then show ?thesis
    using tr_inv_run [OF tr_inv_default] by simp
qed

text \<open>
  C33. Display and object identities are never reused: whatever sequence of reservations, cancellations
  and removals runs, from whatever state, the identities that \<open>reserve\<close> hands out are strictly
  increasing, for displays and for objects alike.
\<close>

theorem registry_ids_never_reused:
  "sorted_wrt (<) (trace_ops tr_step object_ids s calls) \<and>
   sorted_wrt (<) (trace_ops tr_step display_ids s calls)"
  using object_source.points_sorted [of s calls] display_source.points_sorted [of s calls] by simp

text \<open>
  C35. A registration only moves forward and its life ends: in every reachable registry one operation
  creates an object as reserved, keeps it, moves it along one edge of reserved, staged, connected, bound and
  removing without changing its identities or its task, or takes it out while it is reserved or removing;
  and over any continuation an object changes its phase at most four times, however often it is named.
\<close>

theorem registration_lifecycle:
  assumes "tr_with_first_ids d o1 = Inr s0" and "s = run_ops tr_step s0 calls"
  shows "life_step (fmlookup (tr_registrations s) object) (fmlookup (tr_registrations (tr_step s call)) object) \<and>
    phase_moves object s later \<le> 4"
proof -
  have inv: "tr_inv s"
    unfolding assms(2) using assms(1) by (rule tr_inv_run [OF tr_inv_default])
  show ?thesis
    using life_step_step [OF inv, of object call] phase_moves_bound [OF inv, of object later] by simp
qed

theorem registration_lifecycle_witness:
  "phase_moves 1 (run_ops tr_step tr_default [TrReserve [0x61]]) [TrStaged 1, TrConnected 1, TrStaged 1] \<le> 4 \<and>
   tr_with_first_ids 1 1 = Inr tr_default"
  using registration_lifecycle [OF tr_default_first_ids refl, of "[TrReserve [0x61]]" 1 "TrStaged 1"
      "[TrStaged 1, TrConnected 1, TrStaged 1]"] tr_default_first_ids by simp

definition removal_calls :: "task_registration_phase \<Rightarrow> task_object_id \<Rightarrow> registry_call list" where
  "removal_calls p object =
     (if p = PhaseReserved then [TrCancel object]
      else if p = PhaseRemoving then [TrFinish object]
      else [TrBeginRemoval object, TrFinish object])"

text \<open>
  No registration is stuck: in every registry a live object can be taken out, by one
  cancellation while it is reserved, by completing the removal while it is removing, and by a removal
  begun and finished in every other phase; the sequence removes that object and its task entry and
  leaves all other registrations as they were.
\<close>

theorem registration_removable:
  assumes "fmlookup (tr_registrations s) object = Some r"
  shows "run_ops tr_step s (removal_calls (rg_phase r) object) =
    s\<lparr>tr_registrations := fmdrop object (tr_registrations s), tr_tasks :=
      (case rg_task r of None \<Rightarrow> tr_tasks s | Some t \<Rightarrow> fmdrop t (tr_tasks s))\<rparr>"
proof -
  have drop: "fmdrop object (fmupd object x m) = fmdrop object m" for x :: task_registration and m
    by (rule fmap_ext) auto
  show ?thesis
    using assms by (cases "rg_phase r")
      (simp_all add: removal_calls_def registry_op_defs drop split: option.split)
qed

lemma example_reservation:
  "tr_reserve [0x61] tr_default = (Inr \<lparr>rg_object = 1,
     rg_reservation = \<lparr>rs_display = 1, rs_package = [0x61]\<rparr>, rg_task = None, rg_android_display = None,
     rg_phase = PhaseReserved\<rparr>,
   \<lparr>tr_registrations = fmupd 1 \<lparr>rg_object = 1, rg_reservation = \<lparr>rs_display = 1, rs_package = [0x61]\<rparr>,
     rg_task = None, rg_android_display = None, rg_phase = PhaseReserved\<rparr> fmempty, tr_tasks = fmempty,
     tr_next_display = Some 2, tr_next_object = Some 2\<rparr>)"
  by (simp add: tr_reserve_def tr_default_def MAX_TASK_WINDOWS_def reservation_validate_def
      composer_valid_package_def is_ascii_alphanumeric_def next_external_id_def checked_add_def
      MAX_EXTERNAL_ID_def Let_def)

end
