(* ===== verification/Command_Queue.thy ===== *)
theory Command_Queue
  imports Frame_Ledger
begin

section \<open>Commands of the host for Android tasks\<close>

text \<open>
  The backlog of \<open>graphics/droidloom-task-control/src/commands.rs\<close>: focus, resize and close requests of
  the host, coalesced per task and delivered to the Android framework one at a time, each until its
  serial is acknowledged.  Shown: the backlog is bounded, a command leaves it only because it was
  acknowledged, discarded or overridden by a newer command of its kind -- a close never is --, a refused
  command changes nothing, and acknowledged deliveries empty the backlog.  An \<open>Instant\<close> is a natural
  number of nanoseconds; that adding the debounce time to it does not overflow is assumed by the model.
\<close>

subsection \<open>Data\<close>

datatype codec_error =
    CodecTruncated
  | CodecInvalidMagic
  | CodecUnsupportedMajor u16
  | CodecUnknownOpcode u16
  | CodecInvalidHeader
  | CodecInvalidValue string
  | CodecInvalidUtf8

datatype task_action = TaskFocus | TaskResize u32 u32 | TaskClose

record task_command =
  cmd_object :: u64
  cmd_task :: u64
  cmd_incarnation :: u64
  cmd_android_display :: u32
  cmd_action :: task_action

type_synonym instant = nat

record pending_command =
  pc_serial :: u64
  pc_command :: task_command
  pc_ready :: instant

record command_queue =
  cq_pending :: "(u64, pending_command) fmap"
  cq_closed :: "u64 fset"
  cq_resized :: "u64 fset"
  cq_next :: u64

definition MAX_PENDING :: nat where "MAX_PENDING = 256"
definition RESIZE_DEBOUNCE :: nat where "RESIZE_DEBOUNCE = 80000000"
definition I64_MAX :: u64 where "I64_MAX = 0x7FFFFFFFFFFFFFFF"
definition I32_MAX :: u64 where "I32_MAX = 0x7FFFFFFF"

subsection \<open>Operations\<close>

fun is_resize :: "task_action \<Rightarrow> bool" where
  "is_resize (TaskResize w h) = True"
| "is_resize _ = False"

definition command_validate :: "task_command \<Rightarrow> (codec_error, unit) result" where
  "command_validate c =
     bind_result (reject_if (cmd_incarnation c = 0 \<or> I64_MAX < cmd_incarnation c \<or> cmd_object c = 0 \<or>
       I64_MAX < cmd_object c \<or> cmd_task c = 0 \<or> I32_MAX < cmd_task c \<or> cmd_android_display c \<noteq> 0)
       (CodecInvalidValue ''task command identity'')) (\<lambda>_.
     case cmd_action c of
       TaskResize w h \<Rightarrow> reject_if (w = 0 \<or> h = 0 \<or> 16384 < w \<or> 16384 < h)
         (CodecInvalidValue ''task command bounds'')
     | _ \<Rightarrow> Inr ())"

definition cq_default :: command_queue where
  "cq_default = \<lparr>cq_pending = fmempty, cq_closed = {||}, cq_resized = {||}, cq_next = 0\<rparr>"

text \<open>The closure of \<open>retain\<close>: whether a pending entry survives a new command.\<close>

definition survives :: "task_command \<Rightarrow> pending_command \<Rightarrow> bool" where
  "survives c entry =
     (case cmd_action c of
        TaskClose \<Rightarrow> cmd_object (pc_command entry) \<noteq> cmd_object c
      | TaskFocus \<Rightarrow> cmd_action (pc_command entry) \<noteq> TaskFocus
      | TaskResize w h \<Rightarrow> \<not> (cmd_object (pc_command entry) = cmd_object c \<and>
          is_resize (cmd_action (pc_command entry))))"

definition retain :: "('v \<Rightarrow> bool) \<Rightarrow> ('k, 'v) fmap \<Rightarrow> ('k, 'v) fmap" where
  "retain P m = fmfilter (\<lambda>k. case fmlookup m k of None \<Rightarrow> False | Some v \<Rightarrow> P v) m"

definition next_serial :: "u64 \<Rightarrow> u64 option" where
  "next_serial n = (case checked_add n 1 of
     None \<Rightarrow> None | Some serial \<Rightarrow> if serial \<le> I64_MAX then Some serial else None)"

definition cq_push :: "task_command \<Rightarrow> instant \<Rightarrow> (codec_error, command_queue, unit) op" where
  "cq_push c now = (\<lambda>q.
     case command_validate c of
       Inl e \<Rightarrow> (Inl e, q)
     | Inr _ \<Rightarrow>
     if cmd_object c |\<in>| cq_closed q then (Inr (), q)
     else case next_serial (cq_next q) of
       None \<Rightarrow> (Inl (CodecInvalidValue ''task command serial''), q)
     | Some serial \<Rightarrow>
         let q1 = q\<lparr>cq_pending := retain (survives c) (cq_pending q)\<rparr> in
         if MAX_PENDING \<le> fmlen (cq_pending q1) then (Inl (CodecInvalidValue ''task command backlog''), q1)
         else
           let delay = (if is_resize (cmd_action c) \<and> cmd_object c |\<in>| cq_resized q1
                        then RESIZE_DEBOUNCE else 0)
           in (Inr (), q1\<lparr>cq_next := serial,
                 cq_closed := (if cmd_action c = TaskClose then finsert (cmd_object c) (cq_closed q1)
                   else cq_closed q1),
                 cq_resized := (if is_resize (cmd_action c) then finsert (cmd_object c) (cq_resized q1)
                   else cq_resized q1),
                 cq_pending := fmupd serial \<lparr>pc_serial = serial, pc_command = c, pc_ready = now + delay\<rparr>
                   (cq_pending q1)\<rparr>))"

definition cq_ready :: "command_queue \<Rightarrow> instant \<Rightarrow> pending_command option" where
  "cq_ready q now = find (\<lambda>entry. pc_ready entry \<le> now) (fmvalues (cq_pending q))"

definition cq_deadline :: "command_queue \<Rightarrow> instant option" where
  "cq_deadline q = (case map pc_ready (fmvalues (cq_pending q)) of
     [] \<Rightarrow> None | t # ts \<Rightarrow> Some (foldl min t ts))"

definition cq_acknowledge :: "u64 \<Rightarrow> command_queue \<Rightarrow> command_queue" where
  "cq_acknowledge serial q = q\<lparr>cq_pending := fmdrop serial (cq_pending q)\<rparr>"

definition cq_discard :: "u64 \<Rightarrow> command_queue \<Rightarrow> command_queue" where
  "cq_discard object q = q\<lparr>
     cq_pending := retain (\<lambda>entry. cmd_object (pc_command entry) \<noteq> object) (cq_pending q),
     cq_closed := cq_closed q |-| {|object|}, cq_resized := cq_resized q |-| {|object|}\<rparr>"

datatype queue_call = CqPush task_command instant | CqAcknowledge u64 | CqDiscard u64

fun cq_step :: "command_queue \<Rightarrow> queue_call \<Rightarrow> command_queue" where
  "cq_step q (CqPush c now) = snd (cq_push c now q)"
| "cq_step q (CqAcknowledge serial) = cq_acknowledge serial q"
| "cq_step q (CqDiscard object) = cq_discard object q"

subsection \<open>Invariant\<close>

text \<open>
  The map is keyed by serials that were handed out, the backlog is bounded, at most one focus and at most
  one resize per object wait, and a close is the only command that waits for a closed object.
\<close>

definition entry_ok :: "command_queue \<Rightarrow> u64 \<Rightarrow> pending_command \<Rightarrow> bool" where
  "entry_ok q k entry \<longleftrightarrow> pc_serial entry = k \<and> k \<le> cq_next q \<and>
     command_validate (pc_command entry) = Inr () \<and>
     (cmd_object (pc_command entry) |\<in>| cq_closed q \<longleftrightarrow> cmd_action (pc_command entry) = TaskClose) \<and>
     (is_resize (cmd_action (pc_command entry)) \<longrightarrow> cmd_object (pc_command entry) |\<in>| cq_resized q)"

text \<open>Two commands of which a queue keeps only the newer.\<close>

definition same_slot :: "task_command \<Rightarrow> task_command \<Rightarrow> bool" where
  "same_slot c d \<longleftrightarrow> cmd_action c = TaskFocus \<and> cmd_action d = TaskFocus \<or>
     cmd_object c = cmd_object d \<and> (is_resize (cmd_action c) \<and> is_resize (cmd_action d) \<or>
       cmd_action c = TaskClose \<and> cmd_action d = TaskClose)"

definition slots_distinct :: "(u64, pending_command) fmap \<Rightarrow> bool" where
  "slots_distinct m \<longleftrightarrow> (\<forall>j k e f. fmlookup m j = Some e \<longrightarrow> fmlookup m k = Some f \<longrightarrow>
     same_slot (pc_command e) (pc_command f) \<longrightarrow> j = k)"

definition cq_inv :: "command_queue \<Rightarrow> bool" where
  "cq_inv q \<longleftrightarrow> fmlen (cq_pending q) \<le> MAX_PENDING \<and> slots_distinct (cq_pending q) \<and>
     (\<forall>k entry. fmlookup (cq_pending q) k = Some entry \<longrightarrow> entry_ok q k entry)"

lemma fmlookup_retain:
  "fmlookup (retain P m) k = (case fmlookup m k of None \<Rightarrow> None | Some v \<Rightarrow> if P v then Some v else None)"
  by (simp add: retain_def split: option.split)

lemma retain_Some [simp]: "fmlookup (retain P m) k = Some v \<longleftrightarrow> fmlookup m k = Some v \<and> P v"
  by (auto simp: fmlookup_retain split: option.split)

lemma fmlen_retain: "fmlen (retain P m) \<le> fmlen m"
  unfolding fmlen_def by (rule fcard_mono) (auto simp: retain_def)

lemma retain_strict:
  assumes "fmlookup m k = Some v" and "\<not> P v"
  shows "fmlen (retain P m) < fmlen m"
proof -
  have "fmdom (retain P m) |\<subseteq>| fmdom m" by (auto simp: retain_def)
  moreover have "k |\<in>| fmdom m" "k |\<notin>| fmdom (retain P m)" using assms by (auto simp: retain_def fmdomI)
  ultimately have "fmdom (retain P m) |\<subset>| fmdom m" by blast
  then show ?thesis unfolding fmlen_def by (rule pfsubset_fcard_mono)
qed

lemma retain_all: "(\<And>k v. fmlookup m k = Some v \<Longrightarrow> P v) \<Longrightarrow> retain P m = m"
  by (rule fmap_ext) (auto simp: fmlookup_retain split: option.split)

lemma next_serial_Some:
  assumes "next_serial n = Some serial"
  shows "n < serial"
  using assms unfolding next_serial_def
  by (auto simp: checked_add_Some_iff word_less_nat_alt split: option.split_asm if_split_asm)

text \<open>What a push does: nothing, or it takes the next serial and drops what it overrides.\<close>

lemma push_cases:
  assumes inv: "cq_inv q" and push: "cq_push c now q = (r, q')"
  obtains (refused) e where "r = Inl e" "q' = q"
  | (ignored) "r = Inr ()" "q' = q" "cmd_object c |\<in>| cq_closed q"
  | (queued) serial t where "r = Inr ()" "command_validate c = Inr ()" "cmd_object c |\<notin>| cq_closed q"
      "cq_next q < serial" "cq_next q' = serial" "fmlen (retain (survives c) (cq_pending q)) < MAX_PENDING"
      "cq_pending q' = fmupd serial \<lparr>pc_serial = serial, pc_command = c, pc_ready = t\<rparr>
         (retain (survives c) (cq_pending q))"
      "cq_closed q' = (if cmd_action c = TaskClose then finsert (cmd_object c) (cq_closed q) else cq_closed q)"
      "cq_resized q' = (if is_resize (cmd_action c) then finsert (cmd_object c) (cq_resized q) else cq_resized q)"
proof (cases "command_validate c = Inr () \<and> cmd_object c |\<notin>| cq_closed q \<and> next_serial (cq_next q) \<noteq> None")
  case False
  show ?thesis
  proof (cases "command_validate c")
    case (Inl e)
    with push show ?thesis by (intro refused [of e]) (simp_all add: cq_push_def)
  next
    case (Inr u)
    with False push refused ignored show ?thesis
      by (auto simp: cq_push_def split: option.split_asm if_split_asm)
  qed
next
  case True
  then obtain serial where ok: "command_validate c = Inr ()" "cmd_object c |\<notin>| cq_closed q"
    "next_serial (cq_next q) = Some serial" by auto
  show ?thesis
  proof (cases "MAX_PENDING \<le> fmlen (retain (survives c) (cq_pending q))")
    case True
    have "survives c entry" if "fmlookup (cq_pending q) k = Some entry" for k entry
    proof (rule ccontr)
      assume "\<not> survives c entry"
      with that have "fmlen (retain (survives c) (cq_pending q)) < fmlen (cq_pending q)" by (rule retain_strict)
      with True inv show False by (simp add: cq_inv_def)
    qed
    then have "retain (survives c) (cq_pending q) = cq_pending q" by (rule retain_all)
    with push ok True show ?thesis
      by (intro refused [of "CodecInvalidValue ''task command backlog''"]) (auto simp: cq_push_def Let_def)
  next
    case False
    with push ok next_serial_Some [OF ok(3)] queued show ?thesis
      by (auto simp: cq_push_def Let_def)
  qed
qed

lemma survives_slot:
  "survives c entry \<Longrightarrow> same_slot c (pc_command entry) \<Longrightarrow> cmd_action c = TaskClose \<Longrightarrow> False"
  "survives c entry \<Longrightarrow> cmd_action c \<noteq> TaskClose \<Longrightarrow> \<not> same_slot c (pc_command entry)"
  by (cases "cmd_action c"; auto simp: survives_def same_slot_def)+

lemma same_slot_sym: "same_slot c d \<longleftrightarrow> same_slot d c"
  by (auto simp: same_slot_def)

lemma slots_retain: "slots_distinct m \<Longrightarrow> slots_distinct (retain P m)"
  unfolding slots_distinct_def by (auto; blast)

lemma slots_upd:
  assumes "slots_distinct m" and "\<And>k f. fmlookup m k = Some f \<Longrightarrow> \<not> same_slot (pc_command e) (pc_command f)"
  shows "slots_distinct (fmupd n e m)"
  unfolding slots_distinct_def
proof (intro allI impI)
  fix j k x y
  assume xy: "fmlookup (fmupd n e m) j = Some x" "fmlookup (fmupd n e m) k = Some y"
    and slot: "same_slot (pc_command x) (pc_command y)"
  from slot have slot': "same_slot (pc_command y) (pc_command x)" by (simp add: same_slot_sym)
  show "j = k"
    using xy slot slot' assms(2) [of k y] assms(2) [of j x] assms(1) unfolding slots_distinct_def
    by (cases "j = n"; cases "k = n") auto
qed

lemma cq_inv_push:
  assumes inv: "cq_inv q"
  shows "cq_inv (snd (cq_push c now q))"
proof (cases "cq_push c now q")
  case (Pair r q')
  from inv Pair show ?thesis
  proof (cases rule: push_cases)
    case (queued serial t)
    let ?old = "retain (survives c) (cq_pending q)"
    have keys: "k < serial" if "fmlookup ?old k = Some e" for k e
    proof -
      have "entry_ok q k e" using that inv by (simp add: cq_inv_def)
      with queued(4) show ?thesis by (auto simp: entry_ok_def)
    qed
    then have fresh: "serial |\<notin>| fmdom ?old" by (auto simp: fmlookup_dom_iff)
    have "entry_ok q' k e" if "fmlookup (cq_pending q') k = Some e" for k e
    proof (cases "k = serial")
      case True
      with that queued(7) have e: "e = \<lparr>pc_serial = serial, pc_command = c, pc_ready = t\<rparr>" by simp
      show ?thesis
        using True queued(2,3) unfolding entry_ok_def e queued(5,8,9) by (cases "cmd_action c") simp_all
    next
      case False
      with that queued(7) have old: "fmlookup (cq_pending q) k = Some e" "survives c e" by auto
      then have ok: "entry_ok q k e" using inv by (simp add: cq_inv_def)
      have "k \<le> serial" using ok queued(4) by (auto simp: entry_ok_def)
      with ok old(2) show ?thesis
        unfolding entry_ok_def queued(5,8,9) by (cases "cmd_action c") (auto simp: survives_def)
    qed
    moreover have "slots_distinct (cq_pending q')"
    proof -
      have "\<not> same_slot c (pc_command e)" if "fmlookup ?old k = Some e" for k e
        using that survives_slot by auto
      moreover have "slots_distinct ?old" using inv by (auto simp: cq_inv_def intro: slots_retain)
      ultimately show ?thesis unfolding queued(7) by (intro slots_upd) auto
    qed
    moreover have "fmlen (cq_pending q') \<le> MAX_PENDING"
      using queued(6,7) fresh by (simp add: fmlen_upd)
    ultimately show ?thesis using Pair by (simp add: cq_inv_def)
  qed (use inv Pair in simp_all)
qed

lemma cq_inv_shrink:
  assumes inv: "cq_inv q" and sub: "\<And>k e. fmlookup (cq_pending q') k = Some e \<Longrightarrow> fmlookup (cq_pending q) k = Some e"
    and ok: "\<And>k e. fmlookup (cq_pending q') k = Some e \<Longrightarrow> entry_ok q k e \<Longrightarrow> entry_ok q' k e"
  shows "cq_inv q'"
proof -
  have "fmdom (cq_pending q') |\<subseteq>| fmdom (cq_pending q)" using sub by (auto simp: fmlookup_dom_iff)
  then have "fmlen (cq_pending q') \<le> fmlen (cq_pending q)" unfolding fmlen_def by (rule fcard_mono)
  with inv sub ok show ?thesis unfolding cq_inv_def slots_distinct_def by (meson order.trans)
qed

lemma cq_inv_step: "cq_inv q \<Longrightarrow> cq_inv (cq_step q call)"
proof (cases call)
  case (CqAcknowledge serial)
  then show "cq_inv q \<Longrightarrow> ?thesis"
    by (auto intro!: cq_inv_shrink [of q] simp: cq_acknowledge_def entry_ok_def split: if_split_asm)
next
  case (CqDiscard object)
  then show "cq_inv q \<Longrightarrow> ?thesis"
    by (auto intro!: cq_inv_shrink [of q] simp: cq_discard_def entry_ok_def)
qed (simp add: cq_inv_push)

lemma cq_inv_default: "cq_inv cq_default"
  by (simp add: cq_inv_def cq_default_def slots_distinct_def)

lemma cq_inv_run: "cq_inv q \<Longrightarrow> cq_inv (run_ops cq_step q calls)"
  by (induction calls arbitrary: q) (simp_all add: cq_inv_step)

subsection \<open>Commands that stay\<close>

text \<open>What takes a pending command out of the queue.\<close>

fun retires :: "u64 \<Rightarrow> task_command \<Rightarrow> queue_call \<Rightarrow> bool" where
  "retires n c (CqAcknowledge m) = (m = n)"
| "retires n c (CqDiscard object) = (object = cmd_object c)"
| "retires n c (CqPush d now) = (cmd_action c \<noteq> TaskClose \<and>
     (same_slot c d \<or> cmd_action d = TaskClose \<and> cmd_object d = cmd_object c))"

lemma step_keeps:
  assumes inv: "cq_inv q" and entry: "fmlookup (cq_pending q) n = Some e"
    and keep: "\<not> retires n (pc_command e) call"
  shows "fmlookup (cq_pending (cq_step q call)) n = Some e"
proof (cases call)
  case (CqPush d now)
  obtain r q' where push: "cq_push d now q = (r, q')" by fastforce
  have ok: "entry_ok q n e" using inv entry by (simp add: cq_inv_def)
  from inv push have "fmlookup (cq_pending q') n = Some e"
  proof (cases rule: push_cases)
    case (queued serial t)
    have "survives d e"
      using ok keep queued(3) CqPush
      by (cases "cmd_action d") (auto simp: survives_def same_slot_def entry_ok_def)
    moreover have "n \<noteq> serial" using ok queued(4) by (auto simp: entry_ok_def)
    ultimately show ?thesis using entry queued(7) by simp
  qed (use entry in simp_all)
  with push CqPush show ?thesis by simp
qed (use entry keep in \<open>auto simp: cq_acknowledge_def cq_discard_def\<close>)

lemma run_keeps:
  assumes "cq_inv q" and "fmlookup (cq_pending q) n = Some e"
    and "list_all (\<lambda>call. \<not> retires n (pc_command e) call) calls"
  shows "fmlookup (cq_pending (run_ops cq_step q calls)) n = Some e"
  using assms by (induction calls arbitrary: q) (simp_all add: step_keeps cq_inv_step)

subsection \<open>Delivery\<close>

text \<open>The sender: deliver the first ready command, and take the acknowledgement of its serial.\<close>

definition deliver :: "instant \<Rightarrow> command_queue \<Rightarrow> command_queue" where
  "deliver now q = (case cq_ready q now of None \<Rightarrow> q | Some entry \<Rightarrow> cq_acknowledge (pc_serial entry) q)"

lemma ready_pending:
  assumes "cq_inv q" and "cq_ready q now = Some e"
  shows "fmlookup (cq_pending q) (pc_serial e) = Some e" "pc_ready e \<le> now"
proof -
  have "e \<in> set (fmvalues (cq_pending q)) \<and> pc_ready e \<le> now"
    using assms(2) by (auto simp: cq_ready_def find_Some_iff in_set_conv_nth)
  with assms(1) show "fmlookup (cq_pending q) (pc_serial e) = Some e" "pc_ready e \<le> now"
    by (auto simp: set_fmvalues cq_inv_def entry_ok_def)
qed

lemma ready_None: "cq_ready q now = None \<longleftrightarrow> (\<forall>k e. fmlookup (cq_pending q) k = Some e \<longrightarrow> now < pc_ready e)"
  by (auto simp: cq_ready_def find_None_iff set_fmvalues not_le)

lemma foldl_min: "foldl min t ts = Min (set (t # ts))" for t :: nat
proof -
  have "foldl min t ts = fold min ts t" by (simp add: foldl_conv_fold min.commute)
  then show ?thesis by (simp add: Min.set_eq_fold [symmetric])
qed

lemma deadline_ready:
  "cq_deadline q = None \<longleftrightarrow> cq_pending q = fmempty"
  "cq_deadline q = Some t \<Longrightarrow> cq_ready q now = None \<longleftrightarrow> now < t"
proof -
  have none: "fmvalues (cq_pending q) = [] \<longleftrightarrow> cq_pending q = fmempty"
    using set_fmvalues [of _ "cq_pending q"] by (metis empty_iff fmap_ext fmempty_lookup list.set(1) not_Some_eq fmvalues_empty)
  then show "cq_deadline q = None \<longleftrightarrow> cq_pending q = fmempty"
    by (auto simp: cq_deadline_def split: list.split)
  show "cq_ready q now = None \<longleftrightarrow> now < t" if "cq_deadline q = Some t"
  proof -
    let ?ts = "set (map pc_ready (fmvalues (cq_pending q)))"
    have "t = Min ?ts" "?ts \<noteq> {}"
      using that by (auto simp: cq_deadline_def foldl_min split: list.split_asm)
    then have "now < t \<longleftrightarrow> (\<forall>x\<in>?ts. now < x)" by simp
    then show ?thesis by (auto simp: cq_ready_def find_None_iff not_le)
  qed
qed

lemma deliver_some:
  assumes inv: "cq_inv q" and due: "\<And>k e. fmlookup (cq_pending q) k = Some e \<Longrightarrow> pc_ready e \<le> now"
    and ne: "cq_pending q \<noteq> fmempty"
  shows "fmlen (cq_pending q) = Suc (fmlen (cq_pending (deliver now q)))"
    and "\<And>k e. fmlookup (cq_pending (deliver now q)) k = Some e \<Longrightarrow> fmlookup (cq_pending q) k = Some e"
proof -
  obtain e where e: "cq_ready q now = Some e"
  proof (cases "cq_ready q now")
    case None
    obtain k v where "fmlookup (cq_pending q) k = Some v"
      using ne by (metis fmap_ext fmempty_lookup not_Some_eq)
    with None due [of k v] have False unfolding ready_None by (meson leD)
    then show ?thesis ..
  qed (rule that)
  have k: "pc_serial e |\<in>| fmdom (cq_pending q)" using ready_pending(1) [OF inv e] by (rule fmdomI)
  then have "0 < fmlen (cq_pending q)" by (simp add: fmlen_def) (metis fcard_0_eq fempty_iff gr0I)
  with e k show "fmlen (cq_pending q) = Suc (fmlen (cq_pending (deliver now q)))"
    by (simp add: deliver_def cq_acknowledge_def fmlen_drop)
  show "fmlookup (cq_pending (deliver now q)) k = Some e \<Longrightarrow> fmlookup (cq_pending q) k = Some e" for k e
    using \<open>cq_ready q now = Some _\<close> by (auto simp: deliver_def cq_acknowledge_def split: if_split_asm)
qed

lemma deliver_inv: "cq_inv q \<Longrightarrow> cq_inv (deliver now q)"
  unfolding deliver_def using cq_inv_step [of q "CqAcknowledge s" for s] by (auto split: option.split)

lemma deliver_all:
  assumes "cq_inv q" and "\<And>k e. fmlookup (cq_pending q) k = Some e \<Longrightarrow> pc_ready e \<le> now"
  shows "cq_pending ((deliver now ^^ fmlen (cq_pending q)) q) = fmempty"
  using assms
proof (induction "fmlen (cq_pending q)" arbitrary: q)
  case 0
  then have "cq_pending q = fmempty" by (simp add: fmlen_0_iff)
  with 0 show ?case by simp
next
  case (Suc n)
  then have ne: "cq_pending q \<noteq> fmempty" by (metis fmlen_0_iff nat.distinct(1))
  have n: "n = fmlen (cq_pending (deliver now q))"
    using deliver_some(1) [OF Suc.prems ne] Suc.hyps(2) by simp
  have "cq_pending ((deliver now ^^ n) (deliver now q)) = fmempty"
    unfolding n using deliver_some(2) [OF Suc.prems ne]
    by (intro Suc.hyps(1) [OF n deliver_inv [OF Suc.prems(1)]] Suc.prems(2))
  then show ?case unfolding Suc.hyps(2) [symmetric] by (simp add: funpow_Suc_right del: funpow.simps)
qed

subsection \<open>Properties\<close>

definition example_command :: "task_action \<Rightarrow> task_command" where
  "example_command action = \<lparr>cmd_object = 3, cmd_task = 7, cmd_incarnation = 1, cmd_android_display = 0,
     cmd_action = action\<rparr>"

text \<open>
  C37.  No command is lost.  A command that the queue has taken stays in it, under its serial, until the
  framework acknowledges that serial, its object is discarded, or a newer command of the host overrides
  it: a newer resize of the same task, a newer focus, or a close of its task.  A close is overridden by
  nothing.
\<close>

theorem command_stays_until_retired:
  assumes "cq_push c now (run_ops cq_step cq_default before) = (Inr (), q)"
    and "cmd_object c |\<notin>| cq_closed (run_ops cq_step cq_default before)"
    and "list_all (\<lambda>call. \<not> retires (cq_next q) c call) after"
  shows "\<exists>t. fmlookup (cq_pending (run_ops cq_step q after)) (cq_next q) =
    Some \<lparr>pc_serial = cq_next q, pc_command = c, pc_ready = t\<rparr>"
proof -
  have inv: "cq_inv (run_ops cq_step cq_default before)" using cq_inv_default by (rule cq_inv_run)
  have inv': "cq_inv q" using cq_inv_push [OF inv, of c now] assms(1) by simp
  from inv assms(1) obtain t where
    "fmlookup (cq_pending q) (cq_next q) = Some \<lparr>pc_serial = cq_next q, pc_command = c, pc_ready = t\<rparr>"
    by (cases rule: push_cases) (use assms(2) in auto)
  with run_keeps [OF inv' this] assms(3) show ?thesis by auto
qed

theorem command_stays_until_retired_witness:
  "\<exists>t. fmlookup (cq_pending (run_ops cq_step (snd (cq_push (example_command TaskClose) 0 cq_default))
     [CqPush (example_command (TaskResize 5 5)) 1, CqPush (example_command TaskClose) 2, CqAcknowledge 9])) 1 =
     Some \<lparr>pc_serial = 1, pc_command = example_command TaskClose, pc_ready = t\<rparr>"
proof -
  have push: "cq_push (example_command TaskClose) 0 (run_ops cq_step cq_default []) =
      (Inr (), snd (cq_push (example_command TaskClose) 0 cq_default))"
    and one: "cq_next (snd (cq_push (example_command TaskClose) 0 cq_default)) = 1"
    by (simp_all add: cq_push_def cq_default_def example_command_def command_validate_def next_serial_def
        checked_add_def I64_MAX_def I32_MAX_def retain_def MAX_PENDING_def)
  show ?thesis
    using command_stays_until_retired [OF push, of
        "[CqPush (example_command (TaskResize 5 5)) 1, CqPush (example_command TaskClose) 2, CqAcknowledge 9]"]
    unfolding one by (simp add: example_command_def cq_default_def)
qed

text \<open>
  A refused command changes nothing: when the command is malformed, the serials are exhausted or the
  backlog is full, the queue is exactly as before.  In particular the entries that the command would
  have overridden are still there, although they are dropped before the backlog is checked.
\<close>

theorem refused_command_changes_nothing:
  assumes "cq_push c now (run_ops cq_step cq_default calls) = (Inl e, q)"
  shows "q = run_ops cq_step cq_default calls"
  using cq_inv_run [OF cq_inv_default] assms by (cases rule: push_cases) auto

text \<open>
  C38.  The backlog drains.  Once the ready times of all pending commands have passed, delivering the first
  ready command and taking its acknowledgement, as often as there are commands, leaves no command behind.
\<close>

theorem deliveries_empty_the_queue:
  assumes "\<And>k entry. fmlookup (cq_pending (run_ops cq_step cq_default calls)) k = Some entry \<Longrightarrow> pc_ready entry \<le> now"
  shows "cq_pending ((deliver now ^^ fmlen (cq_pending (run_ops cq_step cq_default calls)))
    (run_ops cq_step cq_default calls)) = fmempty"
  using cq_inv_run [OF cq_inv_default] assms by (rule deliver_all)

theorem deliveries_empty_the_queue_witness:
  "cq_pending ((deliver 0 ^^ fmlen (cq_pending (run_ops cq_step cq_default [CqPush (example_command TaskFocus) 0])))
     (run_ops cq_step cq_default [CqPush (example_command TaskFocus) 0])) = fmempty"
  by (rule deliveries_empty_the_queue)
    (auto simp: cq_push_def cq_default_def example_command_def command_validate_def next_serial_def
      checked_add_def I64_MAX_def I32_MAX_def retain_def MAX_PENDING_def Let_def split: if_split_asm)

end
