(* ===== verification/Surface_Protocol.thy ===== *)
theory Surface_Protocol
  imports Prelude
begin

section \<open>Records between SurfaceFlinger and Composer\<close>

text \<open>
  The private protocol of \<open>graphics/droidloom-surface-bridge/src/lib.rs\<close>: fixed-size requests of
  SurfaceFlinger with at most one descriptor, and the answers of Composer, which carry the planes of a
  render target.  Fields are read at fixed offsets of the payload.  Shown: an accepted request satisfies
  the contract of its kind, and the header of an answer gives back its opcode, payload and descriptors.
\<close>

subsection \<open>Data\<close>

record sf_plane =
  sp_offset :: u32
  sp_stride :: u32

record damage_rect =
  dr_x :: u32
  dr_y :: u32
  dr_width :: u32
  dr_height :: u32

datatype sf_request =
    SfCompleteHeadless u64
  | SfHello u64
  | SfAcquire u64
  | SfPresent u64 u64 bool "damage_rect option"
  | SfOpenLayers u64
  | SfCancel u64 u64
  | SfRetire u64

datatype sf_response =
    SfHelloReply u64 u32 u32
  | SfTarget u64 u64 u32 u32 u32 u32 u64 "sf_plane list"
  | SfLayerStream
  | SfAck
  | SfError i32

datatype sf_error = SfHeader | SfLength | SfOpcode | SfDescriptors | SfField

definition SF_MAGIC :: "u8 list" where "SF_MAGIC = [0x44, 0x4C, 0x53, 0x46]"
definition SF_VERSION :: u16 where "SF_VERSION = 4"
definition SF_HEADER_BYTES :: nat where "SF_HEADER_BYTES = 16"
definition SF_MAX_PLANES :: nat where "SF_MAX_PLANES = 4"
definition SF_MAX_RECORD_BYTES :: nat where "SF_MAX_RECORD_BYTES = 128"

definition SF_CLIENT_HELLO :: u16 where "SF_CLIENT_HELLO = 1"
definition SF_SERVER_HELLO :: u16 where "SF_SERVER_HELLO = 2"
definition SF_ACQUIRE :: u16 where "SF_ACQUIRE = 3"
definition SF_TARGET :: u16 where "SF_TARGET = 4"
definition SF_PRESENT :: u16 where "SF_PRESENT = 5"
definition SF_CANCEL :: u16 where "SF_CANCEL = 6"
definition SF_ACK :: u16 where "SF_ACK = 7"
definition SF_ERROR :: u16 where "SF_ERROR = 8"
definition SF_RETIRE :: u16 where "SF_RETIRE = 9"
definition SF_PRESENT_WITH_CONTENT :: u16 where "SF_PRESENT_WITH_CONTENT = 10"
definition SF_PRESENT_WITH_DAMAGE :: u16 where "SF_PRESENT_WITH_DAMAGE = 11"
definition SF_OPEN_LAYERS :: u16 where "SF_OPEN_LAYERS = 12"
definition SF_LAYER_STREAM :: u16 where "SF_LAYER_STREAM = 13"
definition SF_COMPLETE_HEADLESS :: u16 where "SF_COMPLETE_HEADLESS = 14"

lemmas sf_opcodes = SF_CLIENT_HELLO_def SF_SERVER_HELLO_def SF_ACQUIRE_def SF_TARGET_def SF_PRESENT_def
  SF_CANCEL_def SF_ACK_def SF_ERROR_def SF_RETIRE_def SF_PRESENT_WITH_CONTENT_def SF_PRESENT_WITH_DAMAGE_def
  SF_OPEN_LAYERS_def SF_LAYER_STREAM_def SF_COMPLETE_HEADLESS_def

lemmas sf_consts = SF_MAGIC_def SF_VERSION_def SF_HEADER_BYTES_def SF_MAX_PLANES_def SF_MAX_RECORD_BYTES_def

subsection \<open>Fields at an offset\<close>

definition read_le :: "nat \<Rightarrow> u8 list \<Rightarrow> nat \<Rightarrow> (sf_error, 'a::len word) result" where
  "read_le k bytes offset =
     (if offset + k \<le> length bytes then Inr (from_le_bytes (take k (drop offset bytes))) else Inl SfLength)"

definition read_u16 :: "u8 list \<Rightarrow> nat \<Rightarrow> (sf_error, u16) result" where "read_u16 = read_le 2"
definition read_u32 :: "u8 list \<Rightarrow> nat \<Rightarrow> (sf_error, u32) result" where "read_u32 = read_le 4"
definition read_u64 :: "u8 list \<Rightarrow> nat \<Rightarrow> (sf_error, u64) result" where "read_u64 = read_le 8"

definition push_u32 :: "u32 \<Rightarrow> u8 list" where "push_u32 v = to_le_bytes 4 v"
definition push_u64 :: "u64 \<Rightarrow> u8 list" where "push_u64 v = to_le_bytes 8 v"

definition sf_nonzero :: "u64 \<Rightarrow> (sf_error, u64) result" where
  "sf_nonzero v = (if v \<noteq> 0 then Inr v else Inl SfField)"

subsection \<open>Headers\<close>

definition sf_decode_header :: "u8 list \<Rightarrow> (sf_error, u16 \<times> u8 list \<times> nat) result" where
  "sf_decode_header bytes =
     (if length bytes < SF_HEADER_BYTES \<or> SF_MAX_RECORD_BYTES < length bytes \<or> take 4 bytes \<noteq> SF_MAGIC
      then Inl SfHeader
      else
        bind_result (read_u16 bytes 4) (\<lambda>version.
        if version \<noteq> SF_VERSION then Inl SfHeader
        else
        bind_result (read_u16 bytes 6) (\<lambda>opcode.
        bind_result (read_u32 bytes 8) (\<lambda>payload_len.
        if SF_HEADER_BYTES + unat payload_len \<noteq> length bytes then Inl SfLength
        else
        bind_result (read_u32 bytes 12) (\<lambda>descriptors.
        if SF_MAX_PLANES < unat descriptors then Inl SfDescriptors
        else Inr (opcode, drop SF_HEADER_BYTES bytes, unat descriptors))))))"

definition sf_encode :: "u16 \<Rightarrow> u8 list \<Rightarrow> nat \<Rightarrow> (sf_error, u8 list) result" where
  "sf_encode opcode payload descriptors =
     (if SF_MAX_RECORD_BYTES < SF_HEADER_BYTES + length payload then Inl SfLength
      else if 2 ^ 32 \<le> descriptors then Inl SfDescriptors
      else Inr (SF_MAGIC @ to_le_bytes 2 SF_VERSION @ to_le_bytes 2 opcode @
        push_u32 (word_of_nat (length payload)) @ push_u32 (word_of_nat descriptors) @ payload))"

subsection \<open>Requests\<close>

definition sf_present_with_content :: "u8 list \<Rightarrow> (sf_error, sf_request) result" where
  "sf_present_with_content p =
     bind_result (read_u32 p 16) (\<lambda>flags.
     bind_result (read_u32 p 20) (\<lambda>reserved.
     if and flags (not 1) \<noteq> 0 \<or> reserved \<noteq> 0 then Inl SfField
     else
     bind_result (read_u64 p 0) (\<lambda>display.
     bind_result (read_u64 p 8) (\<lambda>raw.
     bind_result (sf_nonzero raw) (\<lambda>buffer.
     Inr (SfPresent display buffer (and flags 1 \<noteq> 0) None))))))"

definition sf_present_with_damage :: "u8 list \<Rightarrow> (sf_error, sf_request) result" where
  "sf_present_with_damage p =
     bind_result (read_u32 p 16) (\<lambda>flags.
     bind_result (read_u32 p 24) (\<lambda>x.
     bind_result (read_u32 p 28) (\<lambda>y.
     bind_result (read_u32 p 32) (\<lambda>width.
     bind_result (read_u32 p 36) (\<lambda>height.
     bind_result (read_u32 p 20) (\<lambda>reserved.
     if and flags (not 1) \<noteq> 0 \<or> reserved \<noteq> 0 \<or> (width = 0) \<noteq> (height = 0) \<or>
        checked_add x width = None \<or> checked_add y height = None
     then Inl SfField
     else
     bind_result (read_u64 p 0) (\<lambda>display.
     bind_result (read_u64 p 8) (\<lambda>raw.
     bind_result (sf_nonzero raw) (\<lambda>buffer.
     Inr (SfPresent display buffer (and flags 1 \<noteq> 0)
       (Some \<lparr>dr_x = x, dr_y = y, dr_width = width, dr_height = height\<rparr>)))))))))))"

definition sf_display_request :: "(u64 \<Rightarrow> sf_request) \<Rightarrow> u8 list \<Rightarrow> (sf_error, sf_request) result" where
  "sf_display_request f p = bind_result (read_u64 p 0) (\<lambda>display. Inr (f display))"

definition sf_buffer_request :: "(u64 \<Rightarrow> u64 \<Rightarrow> sf_request) \<Rightarrow> u8 list \<Rightarrow> (sf_error, sf_request) result" where
  "sf_buffer_request f p =
     bind_result (read_u64 p 0) (\<lambda>display.
     bind_result (read_u64 p 8) (\<lambda>raw.
     bind_result (sf_nonzero raw) (\<lambda>buffer. Inr (f display buffer))))"

definition sf_decode_body :: "u16 \<Rightarrow> u8 list \<Rightarrow> nat \<Rightarrow> (sf_error, sf_request) result" where
  "sf_decode_body opcode p n =
     (if opcode = SF_COMPLETE_HEADLESS \<and> length p = 8 \<and> n \<le> 1 then sf_display_request SfCompleteHeadless p
      else if opcode = SF_CLIENT_HELLO \<and> length p = 8 \<and> n = 0 then sf_display_request SfHello p
      else if opcode = SF_ACQUIRE \<and> length p = 8 \<and> n = 0 then sf_display_request SfAcquire p
      else if opcode = SF_PRESENT \<and> length p = 16 \<and> n \<le> 1
        then sf_buffer_request (\<lambda>display buffer. SfPresent display buffer False None) p
      else if opcode = SF_PRESENT_WITH_CONTENT \<and> length p = 24 \<and> n \<le> 1 then sf_present_with_content p
      else if opcode = SF_PRESENT_WITH_DAMAGE \<and> length p = 40 \<and> n \<le> 1 then sf_present_with_damage p
      else if opcode = SF_OPEN_LAYERS \<and> length p = 8 \<and> n = 0 then sf_display_request SfOpenLayers p
      else if opcode = SF_CANCEL \<and> length p = 16 \<and> n = 0 then sf_buffer_request SfCancel p
      else if opcode = SF_RETIRE \<and> length p = 8 \<and> n = 0 then sf_display_request SfRetire p
      else if opcode \<in> {SF_CLIENT_HELLO, SF_ACQUIRE, SF_PRESENT, SF_PRESENT_WITH_CONTENT,
          SF_PRESENT_WITH_DAMAGE, SF_COMPLETE_HEADLESS, SF_CANCEL, SF_RETIRE} then Inl SfLength
      else Inl SfOpcode)"

definition sf_decode_request :: "u8 list \<Rightarrow> nat \<Rightarrow> (sf_error, sf_request) result" where
  "sf_decode_request bytes descriptors =
     bind_result (sf_decode_header bytes) (\<lambda>(opcode, payload, advertised).
     if advertised \<noteq> descriptors then Inl SfDescriptors else sf_decode_body opcode payload descriptors)"

subsection \<open>Responses\<close>

definition plane_words :: "(sf_plane \<Rightarrow> u32) \<Rightarrow> sf_plane list \<Rightarrow> u8 list" where
  "plane_words f planes = concat (map (\<lambda>i. push_u32 (if i < length planes then f (planes ! i) else 0))
     [0..<SF_MAX_PLANES])"

fun sf_response_parts :: "sf_response \<Rightarrow> nat \<Rightarrow> (sf_error, u16 \<times> u8 list) result" where
  "sf_response_parts (SfHelloReply display width height) n =
     (if width \<noteq> 0 \<and> height \<noteq> 0 \<and> n = 0
      then Inr (SF_SERVER_HELLO, push_u64 display @ push_u32 width @ push_u32 height)
      else Inl SfDescriptors)"
| "sf_response_parts (SfTarget display buffer serial width height fcc layout planes) n =
     (if buffer \<noteq> 0 \<and> serial \<noteq> 0 \<and> width \<noteq> 0 \<and> height \<noteq> 0 \<and> fcc \<noteq> 0 \<and> planes \<noteq> [] \<and>
         length planes \<le> SF_MAX_PLANES \<and> n = length planes \<and> (\<forall>plane \<in> set planes. sp_stride plane \<noteq> 0)
      then Inr (SF_TARGET, push_u64 display @ push_u64 buffer @ push_u32 serial @ push_u32 width @
        push_u32 height @ push_u32 fcc @ push_u64 layout @ push_u32 (word_of_nat (length planes)) @ push_u32 0 @
        plane_words sp_offset planes @ plane_words sp_stride planes)
      else Inl SfDescriptors)"
| "sf_response_parts SfLayerStream n = (if n = 2 then Inr (SF_LAYER_STREAM, []) else Inl SfDescriptors)"
| "sf_response_parts SfAck n = (if n = 0 then Inr (SF_ACK, []) else Inl SfDescriptors)"
| "sf_response_parts (SfError code) n =
     (if n = 0 then Inr (SF_ERROR, to_le_bytes 4 code) else Inl SfDescriptors)"

definition sf_encode_response :: "sf_response \<Rightarrow> nat \<Rightarrow> (sf_error, u8 list) result" where
  "sf_encode_response response n =
     bind_result (sf_response_parts response n) (\<lambda>(opcode, payload). sf_encode opcode payload n)"

subsection \<open>Reading what was written\<close>

lemma read_le_Inr [result_simps]:
  "read_le k bytes offset = Inr v \<longleftrightarrow> offset + k \<le> length bytes \<and> v = from_le_bytes (take k (drop offset bytes))"
  by (auto simp: read_le_def)

lemma read_le_prefix:
  assumes "length pre = offset" and "LENGTH('a) = 8 * k"
  shows "read_le k (pre @ to_le_bytes k (v :: 'a::len word) @ rest) offset = Inr v"
  using assms by (simp add: read_le_def from_le_to_le)

lemma to_le_inj:
  assumes "LENGTH('a) = 8 * k"
  shows "to_le_bytes k (v :: 'a::len word) = to_le_bytes k w \<longleftrightarrow> v = w"
  using from_le_to_le [OF assms, of v] from_le_to_le [OF assms, of w] by metis

lemma push_inj [simp]: "push_u32 a = push_u32 b \<longleftrightarrow> a = b" "push_u64 c = push_u64 d \<longleftrightarrow> c = d"
  by (simp_all add: push_u32_def push_u64_def to_le_inj)

lemma length_push [simp]: "length (push_u32 a) = 4" "length (push_u64 b) = 8"
  by (simp_all add: push_u32_def push_u64_def)

lemma push_append_inj [simp]:
  "push_u32 a @ xs = push_u32 b @ ys \<longleftrightarrow> a = b \<and> xs = ys"
  "push_u64 c @ xs = push_u64 d @ ys \<longleftrightarrow> c = d \<and> xs = ys"
  by (simp_all add: append_eq_append_conv)

lemma header_of_record:
  assumes "sf_encode opcode payload n = Inr bytes" and "n \<le> SF_MAX_PLANES"
  shows "sf_decode_header bytes = Inr (opcode, payload, n)"
proof -
  have small: "length payload \<le> 112" and bytes: "bytes = SF_MAGIC @ to_le_bytes 2 SF_VERSION @ to_le_bytes 2 opcode @
      to_le_bytes 4 (word_of_nat (length payload) :: u32) @ to_le_bytes 4 (word_of_nat n :: u32) @ payload"
    using assms by (auto simp: sf_encode_def sf_consts push_u32_def split: if_split_asm)
  have "read_u16 bytes 4 = Inr SF_VERSION"
    unfolding read_u16_def bytes by (rule read_le_prefix) (simp_all add: SF_MAGIC_def)
  moreover have "read_u16 bytes 6 = Inr opcode"
    unfolding read_u16_def bytes append_assoc [symmetric, of SF_MAGIC] by (subst append_assoc [symmetric], subst append_assoc, rule read_le_prefix) (simp_all add: SF_MAGIC_def)
  moreover have "read_u32 bytes 8 = Inr (word_of_nat (length payload))"
    using read_le_prefix [of "SF_MAGIC @ to_le_bytes 2 SF_VERSION @ to_le_bytes 2 opcode" 8 4
      "word_of_nat (length payload) :: u32" "to_le_bytes 4 (word_of_nat n :: u32) @ payload"]
    by (simp add: read_u32_def bytes SF_MAGIC_def)
  moreover have "read_u32 bytes 12 = Inr (word_of_nat n)"
    using read_le_prefix [of "SF_MAGIC @ to_le_bytes 2 SF_VERSION @ to_le_bytes 2 opcode @
      to_le_bytes 4 (word_of_nat (length payload) :: u32)" 12 4 "word_of_nat n :: u32" payload]
    by (simp add: read_u32_def bytes SF_MAGIC_def)
  moreover have "unat (word_of_nat (length payload) :: u32) = length payload" "unat (word_of_nat n :: u32) = n"
    using small assms(2) by (simp_all add: unat_of_nat SF_MAX_PLANES_def)
  ultimately show ?thesis
    using small assms(2) by (simp add: sf_decode_header_def sf_consts bytes)
qed

lemma length_plane_words: "length (plane_words f ps) = 16"
  by (simp add: plane_words_def SF_MAX_PLANES_def length_concat comp_def sum_list_triv)

lemma plane_words_inj:
  assumes "plane_words f ps = plane_words f qs" and "length ps = length qs" and "length ps \<le> SF_MAX_PLANES"
  shows "map f ps = map f qs"
proof -
  let ?w = "\<lambda>ps i. (if i < length ps then f (ps ! i) else 0 :: u32)"
  have "map (\<lambda>i. push_u32 (?w ps i)) [0..<SF_MAX_PLANES] = map (\<lambda>i. push_u32 (?w qs i)) [0..<SF_MAX_PLANES]"
    using assms(1) unfolding plane_words_def by (simp add: SF_MAX_PLANES_def upt_rec numeral_eq_Suc)
  then have "f (ps ! i) = f (qs ! i)" if "i < length ps" for i
    using that assms(2,3) by (force dest: bspec [of _ _ i])
  then show ?thesis using assms(2) by (simp add: list_eq_iff_nth_eq)
qed

lemma parts_descriptors: "sf_response_parts r n = Inr parts \<Longrightarrow> n \<le> SF_MAX_PLANES"
  by (cases r) (auto simp: SF_MAX_PLANES_def split: if_split_asm)

lemma planes_eq: "map sp_offset ps = map sp_offset qs \<Longrightarrow> map sp_stride ps = map sp_stride qs \<Longrightarrow> ps = (qs :: sf_plane list)"
  by (auto simp: list_eq_iff_nth_eq intro!: nth_equalityI)

lemma target_parts:
  assumes "sf_response_parts (SfTarget d b s w h f m ps) n = Inr (opcode, payload)"
  shows "opcode = SF_TARGET" "length ps = n" "n \<le> SF_MAX_PLANES"
    "payload = push_u64 d @ push_u64 b @ push_u32 s @ push_u32 w @ push_u32 h @ push_u32 f @ push_u64 m @
      push_u32 (word_of_nat n) @ push_u32 0 @ plane_words sp_offset ps @ plane_words sp_stride ps"
proof -
  let ?c = "b \<noteq> 0 \<and> s \<noteq> 0 \<and> w \<noteq> 0 \<and> h \<noteq> 0 \<and> f \<noteq> 0 \<and> ps \<noteq> [] \<and> length ps \<le> SF_MAX_PLANES \<and>
    n = length ps \<and> (\<forall>plane \<in> set ps. sp_stride plane \<noteq> 0)"
  have c: ?c
  proof (rule ccontr)
    assume "\<not> ?c"
    then have "sf_response_parts (SfTarget d b s w h f m ps) n = Inl SfDescriptors"
      unfolding sf_response_parts.simps by (rule if_not_P)
    with assms show False by (simp only: sum.distinct)
  qed
  then show "length ps = n" "n \<le> SF_MAX_PLANES" by simp_all
  from assms have "Inr (opcode, payload) = (Inr (SF_TARGET, push_u64 d @ push_u64 b @ push_u32 s @ push_u32 w @
      push_u32 h @ push_u32 f @ push_u64 m @ push_u32 (word_of_nat (length ps)) @ push_u32 0 @
      plane_words sp_offset ps @ plane_words sp_stride ps) :: (sf_error, u16 \<times> u8 list) result)"
    unfolding sf_response_parts.simps if_P [OF c] by (rule sym)
  then show "opcode = SF_TARGET" "payload = push_u64 d @ push_u64 b @ push_u32 s @ push_u32 w @ push_u32 h @
      push_u32 f @ push_u64 m @ push_u32 (word_of_nat n) @ push_u32 0 @
      plane_words sp_offset ps @ plane_words sp_stride ps"
    using c by (simp_all only: sum.inject prod.inject)
qed

lemma parts_target:
  assumes "sf_response_parts (SfTarget d b s w h f m ps) n = Inr (opcode, payload)"
    and "sf_response_parts (SfTarget d' b' s' w' h' f' m' ps') n = Inr (opcode, payload)"
  shows "SfTarget d b s w h f m ps = SfTarget d' b' s' w' h' f' m' ps'"
proof -
  note n = target_parts(2) [OF assms(1)] target_parts(2) [OF assms(2)] target_parts(3) [OF assms(1)]
  have "push_u64 d @ push_u64 b @ push_u32 s @ push_u32 w @ push_u32 h @ push_u32 f @ push_u64 m @
      push_u32 (word_of_nat n) @ push_u32 0 @ plane_words sp_offset ps @ plane_words sp_stride ps =
    push_u64 d' @ push_u64 b' @ push_u32 s' @ push_u32 w' @ push_u32 h' @ push_u32 f' @ push_u64 m' @
      push_u32 (word_of_nat n) @ push_u32 0 @ plane_words sp_offset ps' @ plane_words sp_stride ps'"
    using target_parts(4) [OF assms(1)] target_parts(4) [OF assms(2)] by (rule subst)
  then have fields: "d = d' \<and> b = b' \<and> s = s' \<and> w = w' \<and> h = h' \<and> f = f' \<and> m = m'"
    and words: "plane_words sp_offset ps @ plane_words sp_stride ps = plane_words sp_offset ps' @ plane_words sp_stride ps'"
    by (simp_all only: push_append_inj)
  from words length_plane_words have "plane_words sp_offset ps = plane_words sp_offset ps'" "plane_words sp_stride ps = plane_words sp_stride ps'"
    using append_eq_append_conv by (metis, metis)
  then have "ps = ps'" using n by (intro planes_eq plane_words_inj) simp_all
  with fields show ?thesis by simp
qed

lemma parts_inj:
  assumes "sf_response_parts r n = Inr (opcode, payload)" and "sf_response_parts r' n = Inr (opcode, payload)"
  shows "r = r'"
proof (cases r)
  case (SfTarget d b s w h f m ps)
  have op: "opcode = SF_TARGET" using assms(1) unfolding SfTarget by (rule target_parts(1))
  have "\<exists>d b s w h f m ps. r' = SfTarget d b s w h f m ps"
    using assms(2) op by (cases r') (simp_all add: sf_opcodes split: if_split_asm)
  with assms SfTarget show ?thesis using parts_target by blast
next
  case (SfHelloReply d w h)
  with assms show ?thesis by (cases r') (simp_all add: sf_opcodes split: if_split_asm, auto)
next
  case (SfError code)
  with assms show ?thesis
    using to_le_inj [where 'a = 32 and k = 4] by (cases r') (simp_all add: sf_opcodes split: if_split_asm, auto)
qed (use assms in \<open>cases r'; simp add: sf_opcodes split: if_split_asm\<close>)+

subsection \<open>Properties\<close>

text \<open>The contract of a request, by its kind, with the number of descriptors that come with it.\<close>

fun sf_request_ok :: "sf_request \<Rightarrow> nat \<Rightarrow> bool" where
  "sf_request_ok (SfCompleteHeadless display) n = (n \<le> 1)"
| "sf_request_ok (SfPresent display buffer opaque damage) n = (n \<le> 1 \<and> buffer \<noteq> 0 \<and>
     (case damage of None \<Rightarrow> True | Some r \<Rightarrow> (dr_width r = 0 \<longleftrightarrow> dr_height r = 0) \<and>
        unat (dr_x r) + unat (dr_width r) < 2 ^ 32 \<and> unat (dr_y r) + unat (dr_height r) < 2 ^ 32))"
| "sf_request_ok (SfCancel display buffer) n = (n = 0 \<and> buffer \<noteq> 0)"
| "sf_request_ok _ n = (n = 0)"

lemma sf_body_ok: "sf_decode_body opcode p n = Inr r \<Longrightarrow> sf_request_ok r n"
  by (auto simp: sf_decode_body_def sf_display_request_def sf_buffer_request_def sf_present_with_content_def
      sf_present_with_damage_def sf_nonzero_def checked_add_def result_simps split: if_split_asm)

text \<open>
  C39.  Accepted requests satisfy the contract.  Whatever bytes and descriptors SurfaceFlinger's socket
  delivers: a request that is accepted comes in a record of 16 to 128 bytes with the current version, it
  has as many descriptors as its kind allows, it names a buffer where it needs one, and a damage
  rectangle is empty in both directions or none and does not wrap around.
\<close>

theorem sf_requests_satisfy_contract:
  assumes "sf_decode_request bytes n = Inr r"
  shows "sf_request_ok r n \<and> SF_HEADER_BYTES \<le> length bytes \<and> length bytes \<le> SF_MAX_RECORD_BYTES \<and>
    read_u16 bytes 4 = Inr SF_VERSION"
  using assms sf_body_ok
  by (auto simp: sf_decode_request_def sf_decode_header_def result_simps split: if_split_asm)

definition acquire_bytes :: "u8 list" where
  "acquire_bytes = [0x44, 0x4C, 0x53, 0x46, 4, 0, 3, 0, 8, 0, 0, 0, 0, 0, 0, 0, 9, 0, 0, 0, 0, 0, 0, 0]"

theorem sf_requests_satisfy_contract_witness:
  "sf_decode_request acquire_bytes 0 = Inr (SfAcquire 9) \<and> sf_request_ok (SfAcquire 9) 0"
proof -
  have "sf_decode_request acquire_bytes 0 = Inr (SfAcquire 9)"
    by (simp add: sf_decode_request_def sf_decode_header_def acquire_bytes_def sf_consts read_u16_def read_u32_def
        read_u64_def read_le_def from_le_bytes_def sf_decode_body_def sf_opcodes sf_display_request_def)
  with sf_requests_satisfy_contract [OF this] show ?thesis by simp
qed

text \<open>
  Answers are unambiguous.  The record that Composer sends for an answer has at most 128 bytes, its
  header parses back to the opcode, the payload and the number of descriptors, and no other answer, with
  any number of descriptors, is encoded as the same record.
\<close>

theorem sf_answers_unambiguous:
  assumes "sf_encode_response r n = Inr bytes"
  shows "length bytes \<le> SF_MAX_RECORD_BYTES \<and>
    (\<exists>opcode payload. sf_response_parts r n = Inr (opcode, payload) \<and>
       sf_decode_header bytes = Inr (opcode, payload, n)) \<and>
    (\<forall>r' n'. sf_encode_response r' n' = Inr bytes \<longrightarrow> r' = r \<and> n' = n)"
proof -
  have enc: "\<exists>opcode payload. sf_response_parts q k = Inr (opcode, payload) \<and> sf_encode opcode payload k = Inr bytes"
    if "sf_encode_response q k = Inr bytes" for q k
    using that by (cases "sf_response_parts q k") (auto simp: sf_encode_response_def)
  have parts: "\<exists>opcode payload. sf_response_parts q k = Inr (opcode, payload) \<and>
      sf_decode_header bytes = Inr (opcode, payload, k)" if "sf_encode_response q k = Inr bytes" for q k
    using enc [OF that] header_of_record [of _ _ k bytes] parts_descriptors [of q k] by blast
  obtain opcode payload where r: "sf_response_parts r n = Inr (opcode, payload)" "sf_encode opcode payload n = Inr bytes"
      "sf_decode_header bytes = Inr (opcode, payload, n)"
    using enc [OF assms] parts [OF assms] by auto
  have "length bytes \<le> SF_MAX_RECORD_BYTES"
    using r(2) by (auto simp: sf_encode_def sf_consts split: if_split_asm)
  moreover have "r' = r \<and> n' = n" if "sf_encode_response r' n' = Inr bytes" for r' n'
    using parts [OF that] r(1,3) parts_inj [of r' n opcode payload r] by auto
  ultimately show ?thesis using parts [OF assms] by blast
qed

end
