(* ===== verification/Layer_Protocol.thy ===== *)
theory Layer_Protocol
  imports Surface_Protocol Frame_Ledger
begin

unbundle bit_operations_syntax

section \<open>Layer transactions\<close>

text \<open>
  The task-scoped layer stream of \<open>graphics/droidloom-surface-bridge/src/layers.rs\<close>: revisioned
  configuration, the records of the stream, bounded staging of a scene, and the check of a complete scene
  before any of it becomes visible.  Shown: a decoded batch hands each attached fence to exactly one
  layer, an accepted layer lies inside the task and reads inside its allocation, the check of a scene
  agrees with a declarative description of ready, waiting and invalid scenes, and a scene that
  overflowed its staging area is never shown in part.
\<close>

subsection \<open>Data\<close>

record layer_buffer =
  lb_id :: u64
  lb_width :: u32
  lb_height :: u32
  lb_fourcc :: u32
  lb_modifier :: u64
  lb_planes :: "sf_plane list"

text \<open>Destinations are signed 32-bit words, read with \<open>sint\<close>.\<close>

record layer =
  ly_id :: u64
  ly_buffer :: u64
  ly_ticket :: u64
  ly_destination :: "i32 \<times> i32 \<times> i32 \<times> i32"
  ly_source :: "u32 \<times> u32 \<times> u32 \<times> u32"
  ly_transform :: u32
  ly_alpha :: u32
  ly_opaque :: bool
  ly_color :: u32

record batch_layer =
  bl_layer :: layer
  bl_fence_index :: "nat option"

datatype layer_request =
    LrConfig
  | LrSubscribeConfig
  | LrRegister layer_buffer
  | LrRegisterAsync u64 layer_buffer
  | LrUnregister u64
  | LrStage layer
  | LrStageAsync layer
  | LrStageBatch "batch_layer list"
  | LrCommitBatch u64 u32 u32 u32 u32 "batch_layer list"
  | LrCommit u32 u32 u32 u32
  | LrCommitAsync u64 u32 u32 u32 u32
  | LrAbort

definition MAX_LAYERS :: nat where "MAX_LAYERS = 64"
definition MAX_BUFFERS :: nat where "MAX_BUFFERS = 128"
definition MAX_IMPORTS :: nat where "MAX_IMPORTS = 16"
definition MAX_BATCH_LAYERS :: nat where "MAX_BATCH_LAYERS = 16"
definition MAX_LAYER_PACKET :: nat where "MAX_LAYER_PACKET = 16 + 28 + MAX_BATCH_LAYERS * 76"

subsection \<open>Published configuration\<close>

record config_publisher =
  cf_revision :: u64
  cf_current :: "u32 \<times> u32 \<times> u32 \<times> u32"
  cf_subscribed :: bool

definition cf_default :: config_publisher where
  "cf_default = \<lparr>cf_revision = 0, cf_current = (0, 0, 0, 0), cf_subscribed = False\<rparr>"

definition cf_refresh :: "u32 \<times> u32 \<times> u32 \<times> u32 \<Rightarrow> (sf_error, config_publisher, bool) op" where
  "cf_refresh current = (\<lambda>c.
     if cf_revision c \<noteq> 0 \<and> cf_current c = current then (Inr False, c)
     else case checked_add (cf_revision c) 1 of
       None \<Rightarrow> (Inl SfField, c)
     | Some revision \<Rightarrow> (Inr True, c\<lparr>cf_revision := revision, cf_current := current\<rparr>))"

definition low_word :: "u64 \<Rightarrow> u32" where "low_word v = ucast v"
definition high_word :: "u64 \<Rightarrow> u32" where "high_word v = ucast (drop_bit 32 v)"

definition cf_snapshot :: "config_publisher \<Rightarrow> u32 list" where
  "cf_snapshot c = (case cf_current c of (a, b, w, h) \<Rightarrow>
     [low_word (cf_revision c), high_word (cf_revision c), a, b, w, h])"

definition cf_subscribe :: "u32 \<times> u32 \<times> u32 \<times> u32 \<Rightarrow> (sf_error, config_publisher, u32 list) op" where
  "cf_subscribe current = op_bind (cf_refresh current) (\<lambda>_ c.
     let c1 = c\<lparr>cf_subscribed := True\<rparr> in (Inr (cf_snapshot c1), c1))"

definition cf_update :: "u32 \<times> u32 \<times> u32 \<times> u32 \<Rightarrow> (sf_error, config_publisher, u32 list option) op" where
  "cf_update current = op_bind (cf_refresh current) (\<lambda>changed c.
     (Inr (if changed \<and> cf_subscribed c then Some (cf_snapshot c) else None), c))"

subsection \<open>One layer\<close>

definition layer_validate :: "layer \<Rightarrow> u32 \<Rightarrow> u32 \<Rightarrow> layer_buffer option \<Rightarrow> bool" where
  "layer_validate l width height buffer =
     (case ly_destination l of (x, y, w, h) \<Rightarrow>
      if ly_id l = 0 \<or> sint x < 0 \<or> sint y < 0 \<or> sint w \<le> 0 \<or> sint h \<le> 0 \<or> 7 < ly_transform l \<or>
         end_exceeds x w width \<or> end_exceeds y h height
      then False
      else if ly_buffer l = 0 then ly_ticket l = 0 \<and> buffer = None
      else case buffer of
        None \<Rightarrow> False
      | Some b \<Rightarrow>
          let (bw, bh) = (if ly_transform l \<in> {1, 3, 5, 7} then (lb_height b, lb_width b)
                          else (lb_width b, lb_height b))
          in case ly_source l of (sx, sy, sw, sh) \<Rightarrow>
            ly_ticket l \<noteq> 0 \<and> lb_id b = ly_buffer l \<and> 0 < sw \<and> 0 < sh \<and>
            (case checked_add sx sw of None \<Rightarrow> False | Some v \<Rightarrow> (ucast v :: u64) \<le> ucast bw * 256) \<and>
            (case checked_add sy sh of None \<Rightarrow> False | Some v \<Rightarrow> (ucast v :: u64) \<le> ucast bh * 256))"

subsection \<open>Records\<close>

definition decode_layer :: "u8 list \<Rightarrow> bool \<Rightarrow> (sf_error, layer) result" where
  "decode_layer p fenced =
     bind_result (read_u32 p 64) (\<lambda>flags.
     bind_result (read_u64 p 0) (\<lambda>ident.
     bind_result (read_u64 p 8) (\<lambda>buffer.
     bind_result (read_u64 p 16) (\<lambda>ticket.
     bind_result (read_u32 p 24) (\<lambda>x.
     bind_result (read_u32 p 28) (\<lambda>y.
     bind_result (read_u32 p 32) (\<lambda>w.
     bind_result (read_u32 p 36) (\<lambda>h.
     bind_result (read_u32 p 40) (\<lambda>sx.
     bind_result (read_u32 p 44) (\<lambda>sy.
     bind_result (read_u32 p 48) (\<lambda>sw.
     bind_result (read_u32 p 52) (\<lambda>sh.
     bind_result (read_u32 p 56) (\<lambda>tr.
     bind_result (read_u32 p 60) (\<lambda>alpha.
     bind_result (read_u32 p 68) (\<lambda>color.
     if 1 < flags \<or> buffer = 0 \<and> fenced then Inl SfField
     else Inr \<lparr>ly_id = ident, ly_buffer = buffer, ly_ticket = ticket, ly_destination = (x, y, w, h),
       ly_source = (sx, sy, sw, sh), ly_transform = tr, ly_alpha = alpha, ly_opaque = (flags = 1),
       ly_color = color\<rparr>)))))))))))))))"

text \<open>\<open>chunks_exact\<close>: the pieces of full length, in order.\<close>

fun chunks :: "nat \<Rightarrow> u8 list \<Rightarrow> u8 list list" where
  "chunks k bytes = (if k = 0 \<or> length bytes < k then [] else take k bytes # chunks k (drop k bytes))"

declare chunks.simps [simp del]

text \<open>The loop over a batch; \<open>used\<close> are the descriptors that were taken so far.\<close>

definition take_fence :: "nat \<Rightarrow> nat list \<Rightarrow> u32 \<Rightarrow> (sf_error, nat option \<times> nat list) result" where
  "take_fence descriptors used index =
     (if index = - 1 then Inr (None, used)
      else if descriptors \<le> unat index \<or> unat index \<in> set used then Inl SfDescriptors
      else Inr (Some (unat index), unat index # used))"

fun decode_entries :: "nat \<Rightarrow> nat list \<Rightarrow> u8 list list \<Rightarrow> (sf_error, batch_layer list \<times> nat list) result" where
  "decode_entries descriptors used [] = Inr ([], used)"
| "decode_entries descriptors used (p # ps) =
     bind_result (read_u32 p 72) (\<lambda>index.
     bind_result (take_fence descriptors used index) (\<lambda>(fence, used1).
     bind_result (decode_layer p (fence \<noteq> None)) (\<lambda>l.
     bind_result (decode_entries descriptors used1 ps) (\<lambda>(rest, used2).
     Inr (\<lparr>bl_layer = l, bl_fence_index = fence\<rparr> # rest, used2)))))"

definition decode_batch :: "u8 list \<Rightarrow> nat \<Rightarrow> (sf_error, batch_layer list) result" where
  "decode_batch p descriptors =
     bind_result (read_u32 p 0) (\<lambda>word.
     let count = unat word in
     if count = 0 \<or> MAX_BATCH_LAYERS < count \<or> length p \<noteq> 4 + count * 76 then Inl SfLength
     else if 4 < descriptors then Inl SfDescriptors
     else
     bind_result (decode_entries descriptors [] (chunks 76 (drop 4 p))) (\<lambda>(layers, used).
     if \<exists>i \<in> set [0..<descriptors]. i \<notin> set used then Inl SfDescriptors else Inr layers))"

fun decode_planes :: "u8 list \<Rightarrow> nat list \<Rightarrow> (sf_error, sf_plane list) result" where
  "decode_planes p [] = Inr []"
| "decode_planes p (i # rest) =
     bind_result (read_u32 p (40 + i * 8)) (\<lambda>offset.
     bind_result (read_u32 p (44 + i * 8)) (\<lambda>stride.
     bind_result (decode_planes p rest) (\<lambda>planes.
     Inr (\<lparr>sp_offset = offset, sp_stride = stride\<rparr> # planes))))"

definition decode_register :: "u8 list \<Rightarrow> nat \<Rightarrow> (sf_error, layer_buffer) result" where
  "decode_register p descriptors =
     (if length p < 40 then Inl SfLength
      else
      bind_result (read_u32 p 36) (\<lambda>word.
      let n = unat word in
      if n = 0 \<or> 4 < n \<or> n \<noteq> descriptors \<or> length p \<noteq> 40 + n * 8 then Inl SfDescriptors
      else
      bind_result (read_u64 p 0) (\<lambda>ident.
      bind_result (read_u32 p 8) (\<lambda>width.
      bind_result (read_u32 p 12) (\<lambda>height.
      bind_result (read_u32 p 16) (\<lambda>fcc.
      bind_result (read_u64 p 24) (\<lambda>layout.
      bind_result (decode_planes p [0..<n]) (\<lambda>planes.
      bind_result (read_u32 p 20) (\<lambda>reserved1.
      bind_result (read_u32 p 32) (\<lambda>reserved2.
      if ident = 0 \<or> width = 0 \<or> height = 0 \<or> 16384 < width \<or> 16384 < height \<or> fcc = 0 \<or> layout = - 1 \<or>
         reserved1 \<noteq> 0 \<or> reserved2 \<noteq> 0 \<or> (\<exists>plane \<in> set planes. sp_stride plane = 0)
      then Inl SfField
      else Inr \<lparr>lb_id = ident, lb_width = width, lb_height = height, lb_fourcc = fcc, lb_modifier = layout,
        lb_planes = planes\<rparr>))))))))))"

definition decode_register_async :: "u8 list \<Rightarrow> nat \<Rightarrow> (sf_error, layer_request) result" where
  "decode_register_async p descriptors =
     bind_result (read_u64 p 0) (\<lambda>attempt.
     if attempt = 0 then Inl SfField
     else bind_result (decode_register (drop 8 p) descriptors) (\<lambda>b. Inr (LrRegisterAsync attempt b)))"

definition decode_commit_batch :: "u8 list \<Rightarrow> nat \<Rightarrow> (sf_error, layer_request) result" where
  "decode_commit_batch p descriptors =
     bind_result (read_u64 p 0) (\<lambda>scene.
     bind_result (read_u32 p 8) (\<lambda>serial.
     bind_result (read_u32 p 12) (\<lambda>width.
     bind_result (read_u32 p 16) (\<lambda>height.
     bind_result (read_u32 p 20) (\<lambda>count.
     bind_result (decode_batch (drop 24 p) descriptors) (\<lambda>layers.
     Inr (LrCommitBatch scene serial width height count layers)))))))"

definition decode_commit :: "u8 list \<Rightarrow> (sf_error, layer_request) result" where
  "decode_commit p =
     bind_result (read_u32 p 0) (\<lambda>serial.
     bind_result (read_u32 p 4) (\<lambda>width.
     bind_result (read_u32 p 8) (\<lambda>height.
     bind_result (read_u32 p 12) (\<lambda>count.
     Inr (LrCommit serial width height count)))))"

definition decode_commit_async :: "u8 list \<Rightarrow> (sf_error, layer_request) result" where
  "decode_commit_async p =
     bind_result (read_u64 p 0) (\<lambda>scene.
     bind_result (read_u32 p 8) (\<lambda>serial.
     bind_result (read_u32 p 12) (\<lambda>width.
     bind_result (read_u32 p 16) (\<lambda>height.
     bind_result (read_u32 p 20) (\<lambda>count.
     Inr (LrCommitAsync scene serial width height count))))))"

definition decode_layer_body :: "u32 \<Rightarrow> u8 list \<Rightarrow> nat \<Rightarrow> (sf_error, layer_request) result" where
  "decode_layer_body opcode p n =
     (if opcode = 1 \<and> p = [] \<and> n = 0 then Inr LrConfig
      else if opcode = 8 \<and> p = [] \<and> n = 0 then Inr LrSubscribeConfig
      else if opcode = 10 then decode_register_async p n
      else if opcode = 2 then bind_result (decode_register p n) (\<lambda>b. Inr (LrRegister b))
      else if opcode = 3 \<and> length p = 8 \<and> n = 0 then bind_result (read_u64 p 0) (\<lambda>b. Inr (LrUnregister b))
      else if (opcode = 4 \<or> opcode = 7) \<and> length p = 72 \<and> n \<le> 1 then
        bind_result (decode_layer p (n \<noteq> 0)) (\<lambda>l. Inr (if opcode = 7 then LrStageAsync l else LrStage l))
      else if opcode = 11 then bind_result (decode_batch p n) (\<lambda>layers. Inr (LrStageBatch layers))
      else if opcode = 12 \<and> 28 \<le> length p \<and> read_u64 p 0 \<noteq> Inr 0 then decode_commit_batch p n
      else if opcode = 5 \<and> length p = 16 \<and> n = 0 then decode_commit p
      else if opcode = 9 \<and> length p = 24 \<and> n = 0 \<and> read_u64 p 0 \<noteq> Inr 0 then decode_commit_async p
      else if opcode = 6 \<and> p = [] \<and> n = 0 then Inr LrAbort
      else Inl SfLength)"

definition layer_header_ok :: "u8 list \<Rightarrow> nat \<Rightarrow> (sf_error, bool) result" where
  "layer_header_ok bytes n =
     (if length bytes < 16 \<or> MAX_LAYER_PACKET < length bytes \<or> take 4 bytes \<noteq> [0x44, 0x4C, 0x4C, 0x31]
      then Inr False
      else
      bind_result (read_u32 bytes 8) (\<lambda>len.
      if unat len \<noteq> length bytes - 16 then Inr False
      else bind_result (read_u32 bytes 12) (\<lambda>fds. Inr (unat fds = n))))"

definition decode_layer_record :: "u8 list \<Rightarrow> nat \<Rightarrow> (sf_error, layer_request) result" where
  "decode_layer_record bytes n =
     bind_result (layer_header_ok bytes n) (\<lambda>ok.
     if \<not> ok then Inl SfHeader
     else bind_result (read_u32 bytes 4) (\<lambda>opcode. decode_layer_body opcode (drop 16 bytes) n))"

definition layer_response :: "u32 \<Rightarrow> u32 list \<Rightarrow> u8 list" where
  "layer_response opcode words = [0x44, 0x4C, 0x4C, 0x31] @ push_u32 opcode @
     push_u32 (word_of_nat (length words * 4)) @ push_u32 0 @ concat (map push_u32 words)"

definition release_fence_record :: "u64 \<Rightarrow> u8 list" where
  "release_fence_record ticket =
     (let bytes = layer_response 0x8004 [low_word ticket, high_word ticket]
      in take 12 bytes @ push_u32 1 @ drop 16 bytes)"

definition commit_result :: "u64 \<Rightarrow> i32 \<Rightarrow> u8 list" where
  "commit_result scene code = layer_response 0x8006 [low_word scene, high_word scene, code]"

definition import_result :: "u64 \<Rightarrow> u64 \<Rightarrow> i32 \<Rightarrow> u8 list" where
  "import_result attempt buffer code =
     layer_response 0x8007 [low_word attempt, high_word attempt, low_word buffer, high_word buffer, code]"

subsection \<open>Staging\<close>

record 't staging =
  stg_layers :: "(layer \<times> 't option) list"
  stg_failed :: bool

definition stg_default :: "'t staging" where
  "stg_default = \<lparr>stg_layers = [], stg_failed = False\<rparr>"

definition stg_push :: "layer \<Rightarrow> 't option \<Rightarrow> 't staging \<Rightarrow> bool \<times> 't staging" where
  "stg_push l acquire s =
     (if stg_failed s \<or> length (stg_layers s) = MAX_LAYERS then (False, s\<lparr>stg_failed := True\<rparr>)
      else (True, s\<lparr>stg_layers := stg_layers s @ [(l, acquire)]\<rparr>))"

definition stg_clear :: "'t staging \<Rightarrow> 't staging" where
  "stg_clear s = s\<lparr>stg_layers := [], stg_failed := False\<rparr>"

definition stg_take :: "'t staging \<Rightarrow> (layer \<times> 't option) list \<times> 't staging" where
  "stg_take s = (stg_layers s, s\<lparr>stg_failed := False, stg_layers := []\<rparr>)"

definition stg_recycle :: "'t staging \<Rightarrow> 't staging" where
  "stg_recycle s = s\<lparr>stg_layers := [], stg_failed := False\<rparr>"

subsection \<open>Assessing a scene\<close>

record source_state =
  ss_buffer :: layer_buffer
  ss_imported :: bool
  ss_ticket :: "u64 option"
  ss_spare_timeline :: bool

datatype scene_status = SceneReady | SceneBusy | SceneInvalid

text \<open>The loop of \<open>assess_scene\<close>, with the identities, buffers and tickets that were seen.\<close>

fun assess_layers ::
  "u32 \<Rightarrow> u32 \<Rightarrow> u64 \<Rightarrow> (u64 \<Rightarrow> source_state option) \<Rightarrow> (u64 \<Rightarrow> (u64 \<times> u64) option)
     \<Rightarrow> u64 set \<Rightarrow> u64 set \<Rightarrow> u64 set \<Rightarrow> bool \<Rightarrow> (layer \<times> bool) list \<Rightarrow> scene_status" where
  "assess_layers width height last_ticket source attached ids buffers tickets busy [] =
     (if busy then SceneBusy else SceneReady)"
| "assess_layers width height last_ticket source attached ids buffers tickets busy ((l, has_acquire) # rest) =
     (if ly_id l \<in> ids \<or> \<not> layer_validate l width height (map_option ss_buffer (source (ly_buffer l)))
      then SceneInvalid
      else if ly_buffer l = 0 then
        (if has_acquire then SceneInvalid
         else assess_layers width height last_ticket source attached (insert (ly_id l) ids) buffers tickets busy rest)
      else case source (ly_buffer l) of
        None \<Rightarrow> SceneInvalid
      | Some b \<Rightarrow>
          if \<not> ss_imported b \<or> ly_buffer l \<in> buffers then SceneInvalid
          else if ss_ticket b = Some (ly_ticket l) then
            (if has_acquire \<or> attached (ly_id l) \<noteq> Some (ly_buffer l, ly_ticket l) then SceneInvalid
             else assess_layers width height last_ticket source attached (insert (ly_id l) ids)
               (insert (ly_buffer l) buffers) tickets busy rest)
          else if ly_ticket l \<le> last_ticket \<or> ly_ticket l \<in> tickets then SceneInvalid
          else assess_layers width height last_ticket source attached (insert (ly_id l) ids)
            (insert (ly_buffer l) buffers) (insert (ly_ticket l) tickets)
            (busy \<or> \<not> ss_spare_timeline b \<and>
              (case ss_ticket b of None \<Rightarrow> False | Some held \<Rightarrow> attached (ly_id l) \<noteq> Some (ly_buffer l, held)))
            rest)"

definition assess_scene ::
  "(layer \<times> bool) list \<Rightarrow> u32 \<Rightarrow> u32 \<Rightarrow> u32 \<Rightarrow> u64 \<Rightarrow> (u64 \<Rightarrow> source_state option)
     \<Rightarrow> (u64 \<Rightarrow> (u64 \<times> u64) option) \<Rightarrow> scene_status" where
  "assess_scene layers count width height last_ticket source attached =
     (if count = 0 \<or> unat count \<noteq> length layers \<or> MAX_LAYERS < length layers then SceneInvalid
      else assess_layers width height last_ticket source attached {} {} {} False layers)"

definition validate_scene ::
  "(layer \<times> bool) list \<Rightarrow> u32 \<Rightarrow> u32 \<Rightarrow> u32 \<Rightarrow> u64 \<Rightarrow> (u64 \<Rightarrow> source_state option)
     \<Rightarrow> (u64 \<Rightarrow> (u64 \<times> u64) option) \<Rightarrow> bool" where
  "validate_scene layers count width height last_ticket source attached \<longleftrightarrow>
     assess_scene layers count width height last_ticket source attached = SceneReady"

subsection \<open>Published revisions\<close>

datatype config_call = CfSubscribe "u32 \<times> u32 \<times> u32 \<times> u32" | CfUpdate "u32 \<times> u32 \<times> u32 \<times> u32"

fun cf_step :: "config_publisher \<Rightarrow> config_call \<Rightarrow> config_publisher" where
  "cf_step c (CfSubscribe current) = snd (cf_subscribe current c)"
| "cf_step c (CfUpdate current) = snd (cf_update current c)"

fun cf_published :: "config_publisher \<Rightarrow> config_call \<Rightarrow> u64 list" where
  "cf_published c (CfSubscribe current) = []"
| "cf_published c (CfUpdate current) =
     (case fst (cf_update current c) of Inr (Some words) \<Rightarrow> [cf_revision (snd (cf_update current c))] | _ \<Rightarrow> [])"

lemma cf_refresh_revision:
  assumes "cf_refresh current c = (r, c')"
  shows "cf_revision c \<le> cf_revision c'" "r = Inr True \<Longrightarrow> cf_revision c < cf_revision c'"
  using assms
  by (auto simp: cf_refresh_def checked_add_Some_iff word_less_nat_alt word_le_nat_alt
      split: if_split_asm option.split_asm)

interpretation config: point_source cf_revision cf_step cf_published
proof
  fix c call
  have "sorted_wrt (<) (cf_revision c # cf_published c call) \<and>
      last (cf_revision c # cf_published c call) \<le> cf_revision (cf_step c call)"
  proof (cases call)
    case (CfUpdate current)
    obtain r c' where ref: "cf_refresh current c = (r, c')" by fastforce
    with CfUpdate cf_refresh_revision [OF ref] show ?thesis
      by (cases r) (auto simp: cf_update_def op_bind_def)
  next
    case (CfSubscribe current)
    obtain r c' where ref: "cf_refresh current c = (r, c')" by fastforce
    with CfSubscribe cf_refresh_revision [OF ref] show ?thesis
      by (cases r) (auto simp: cf_subscribe_def op_bind_def Let_def)
  qed
  then show "sorted_wrt (<) (cf_revision c # cf_published c call)"
    "last (cf_revision c # cf_published c call) \<le> cf_revision (cf_step c call)" by blast+
qed

subsection \<open>Layers in integers\<close>

lemma sint_nonneg_uint: "0 \<le> sint (x :: i32) \<Longrightarrow> sint x = uint x"
  using sint_range_size [of x] uint_sint [of x] by (simp add: take_bit_int_eq_self word_size)

lemma scaled_bound: "(ucast (v :: u32) :: u64) \<le> ucast (b :: u32) * 256 \<longleftrightarrow> uint v \<le> uint b * 256"
proof -
  have b: "uint b < 2 ^ 32" using uint_lt2p [of b] by simp
  then have "uint (ucast b * 256 :: u64) = uint b * 256"
    by (simp add: uint_word_ariths unsigned_ucast_eq take_bit_eq_mod)
  moreover have "uint (ucast v :: u64) = uint v"
    using uint_lt2p [of v] by (simp add: unsigned_ucast_eq take_bit_int_eq_self)
  ultimately show ?thesis by (simp add: word_le_def)
qed

definition rotated_size :: "u32 \<Rightarrow> layer_buffer \<Rightarrow> u32 \<times> u32" where
  "rotated_size tr b = (if tr \<in> {1, 3, 5, 7} then (lb_height b, lb_width b) else (lb_width b, lb_height b))"

lemma validate_buffered:
  assumes "layer_validate l width height (Some b)"
    and "ly_destination l = (x, y, w, h)" and "ly_source l = (sx, sy, sw, sh)" and "rotated_size (ly_transform l) b = (bw, bh)"
  shows "0 \<le> sint x \<and> 0 \<le> sint y \<and> 0 < sint w \<and> 0 < sint h \<and>
      sint x + sint w \<le> uint width \<and> sint y + sint h \<le> uint height"
    and "lb_id b = ly_buffer l \<and> 0 < uint sw \<and> 0 < uint sh \<and>
      uint sx + uint sw \<le> uint bw * 256 \<and> uint sy + uint sh \<le> uint bh * 256"
proof -
  let ?bad = "ly_id l = 0 \<or> sint x < 0 \<or> sint y < 0 \<or> sint w \<le> 0 \<or> sint h \<le> 0 \<or> 7 < ly_transform l \<or>
    end_exceeds x w width \<or> end_exceeds y h height"
  have ok: "\<not> ?bad" "ly_buffer l \<noteq> 0"
    using assms(1,2) unfolding layer_validate_def by (auto split: if_split_asm)
  have "unat x + unat w \<le> unat width" "unat y + unat h \<le> unat height"
    using ok(1) by (simp_all add: end_exceeds_iff not_less)
  then have "uint x + uint w \<le> uint width" "uint y + uint h \<le> uint height"
    unfolding uint_nat by linarith+
  moreover have pos: "0 \<le> sint x" "0 \<le> sint y" "0 < sint w" "0 < sint h" using ok(1) by linarith+
  moreover have "sint x = uint x" "sint y = uint y" "sint w = uint w" "sint h = uint h"
    using pos by (simp_all add: sint_nonneg_uint)
  ultimately show "0 \<le> sint x \<and> 0 \<le> sint y \<and> 0 < sint w \<and> 0 < sint h \<and>
      sint x + sint w \<le> uint width \<and> sint y + sint h \<le> uint height"
    by linarith
  let ?fits = "\<lambda>s t (c :: u32). case checked_add s t of None \<Rightarrow> False | Some v \<Rightarrow> (ucast (v :: u32) :: u64) \<le> ucast c * 256"
  have "ly_ticket l \<noteq> 0 \<and> lb_id b = ly_buffer l \<and> 0 < sw \<and> 0 < sh \<and> ?fits sx sw bw \<and> ?fits sy sh bh"
    using assms(1) unfolding layer_validate_def assms(2,3) prod.case if_not_P [OF ok(1)] if_not_P [OF ok(2)]
      option.case rotated_size_def [symmetric] Let_def assms(4) .
  moreover have "uint s + uint t \<le> uint c * 256" if "?fits s t c" for s t c :: u32
  proof (cases "checked_add s t")
    case (Some v)
    then have "unat v = unat s + unat t" unfolding checked_add_Some_iff by blast
    then have "uint v = uint s + uint t" by (simp only: uint_nat of_nat_add)
    moreover from Some that have "(ucast v :: u64) \<le> ucast c * 256" by (simp only: option.case)
    ultimately show ?thesis by (simp only: scaled_bound)
  qed (use that in \<open>simp only: option.case\<close>)
  ultimately show "lb_id b = ly_buffer l \<and> 0 < uint sw \<and> 0 < uint sh \<and>
      uint sx + uint sw \<le> uint bw * 256 \<and> uint sy + uint sh \<le> uint bh * 256"
    unfolding word_less_def uint_0_eq by blast
qed

subsection \<open>Batches\<close>

definition fences :: "batch_layer list \<Rightarrow> nat list" where
  "fences layers = concat (map (\<lambda>bl. case bl_fence_index bl of None \<Rightarrow> [] | Some i \<Rightarrow> [i]) layers)"

lemma entries_fences:
  assumes "decode_entries n used ps = Inr (layers, used')"
  shows "length layers = length ps \<and> distinct (fences layers) \<and> set used' = set used \<union> set (fences layers) \<and>
    set used \<inter> set (fences layers) = {} \<and> (\<forall>i \<in> set (fences layers). i < n) \<and>
    (\<forall>bl \<in> set layers. bl_fence_index bl \<noteq> None \<longrightarrow> ly_buffer (bl_layer bl) \<noteq> 0)"
  using assms
proof (induction ps arbitrary: used layers used')
  case (Cons p ps)
  from Cons.prems obtain index fence used1 l rest where
    fence: "take_fence n used index = Inr (fence, used1)"
    and layer: "decode_layer p (fence \<noteq> None) = Inr l"
    and rest: "decode_entries n used1 ps = Inr (rest, used')"
    and layers: "layers = \<lparr>bl_layer = l, bl_fence_index = fence\<rparr> # rest"
    by (auto simp: result_simps)
  have "fence \<noteq> None \<longrightarrow> ly_buffer l \<noteq> 0"
    using layer by (auto simp: decode_layer_def result_simps split: if_split_asm)
  then show ?case
    using Cons.IH [OF rest] fence unfolding layers
    by (auto simp: fences_def take_fence_def split: if_split_asm)
qed (simp add: fences_def)

lemma length_chunks: "length bs = m * k \<Longrightarrow> 0 < k \<Longrightarrow> length (chunks k bs) = m"
proof (induction m arbitrary: bs)
  case (Suc m)
  then show ?case using Suc.IH [of "drop k bs"] by (subst chunks.simps) simp
qed (simp add: chunks.simps)

subsection \<open>Scenes, declaratively\<close>

text \<open>A layer that keeps the read of its allocation, or starts a new one.\<close>

definition new_read :: "(u64 \<Rightarrow> source_state option) \<Rightarrow> layer \<Rightarrow> bool" where
  "new_read source l \<longleftrightarrow> ly_buffer l \<noteq> 0 \<and>
     (\<exists>b. source (ly_buffer l) = Some b \<and> ss_ticket b \<noteq> Some (ly_ticket l))"

definition layer_admitted ::
  "u32 \<Rightarrow> u32 \<Rightarrow> u64 \<Rightarrow> (u64 \<Rightarrow> source_state option) \<Rightarrow> (u64 \<Rightarrow> (u64 \<times> u64) option) \<Rightarrow> layer \<Rightarrow> bool \<Rightarrow> bool" where
  "layer_admitted width height last_ticket source attached l fenced \<longleftrightarrow>
     layer_validate l width height (map_option ss_buffer (source (ly_buffer l))) \<and>
     (if ly_buffer l = 0 then \<not> fenced
      else \<exists>b. source (ly_buffer l) = Some b \<and> ss_imported b \<and>
        (if ss_ticket b = Some (ly_ticket l) then \<not> fenced \<and> attached (ly_id l) = Some (ly_buffer l, ly_ticket l)
         else last_ticket < ly_ticket l))"

definition layer_waits ::
  "(u64 \<Rightarrow> source_state option) \<Rightarrow> (u64 \<Rightarrow> (u64 \<times> u64) option) \<Rightarrow> layer \<Rightarrow> bool" where
  "layer_waits source attached l \<longleftrightarrow> ly_buffer l \<noteq> 0 \<and>
     (\<exists>b held. source (ly_buffer l) = Some b \<and> ss_ticket b = Some held \<and> held \<noteq> ly_ticket l \<and>
       \<not> ss_spare_timeline b \<and> attached (ly_id l) \<noteq> Some (ly_buffer l, held))"

definition scene_admitted ::
  "u32 \<Rightarrow> u32 \<Rightarrow> u64 \<Rightarrow> (u64 \<Rightarrow> source_state option) \<Rightarrow> (u64 \<Rightarrow> (u64 \<times> u64) option) \<Rightarrow> (layer \<times> bool) list \<Rightarrow> bool" where
  "scene_admitted width height last_ticket source attached layers \<longleftrightarrow>
     (\<forall>(l, fenced) \<in> set layers. layer_admitted width height last_ticket source attached l fenced) \<and>
     distinct (map (ly_id \<circ> fst) layers) \<and>
     distinct (map (ly_buffer \<circ> fst) (filter (\<lambda>(l, _). ly_buffer l \<noteq> 0) layers)) \<and>
     distinct (map (ly_ticket \<circ> fst) (filter (\<lambda>(l, _). new_read source l) layers))"

lemma scene_admitted_Cons:
  "scene_admitted width height last_ticket source attached ((l, fenced) # layers) \<longleftrightarrow>
     layer_admitted width height last_ticket source attached l fenced \<and>
     scene_admitted width height last_ticket source attached layers \<and>
     (\<forall>(k, _) \<in> set layers. ly_id k \<noteq> ly_id l \<and> (ly_buffer k \<noteq> 0 \<longrightarrow> ly_buffer k \<noteq> ly_buffer l) \<and>
        (new_read source k \<longrightarrow> new_read source l \<longrightarrow> ly_ticket k \<noteq> ly_ticket l))"
  by (auto simp: scene_admitted_def image_iff)

lemma assess_step:
  "assess_layers width height last_ticket source attached ids buffers tickets busy ((l, fenced) # layers) =
    (if layer_admitted width height last_ticket source attached l fenced \<and> ly_id l \<notin> ids \<and>
        (ly_buffer l \<noteq> 0 \<longrightarrow> ly_buffer l \<notin> buffers) \<and> (new_read source l \<longrightarrow> ly_ticket l \<notin> tickets)
     then assess_layers width height last_ticket source attached (insert (ly_id l) ids)
       (if ly_buffer l = 0 then buffers else insert (ly_buffer l) buffers)
       (if new_read source l then insert (ly_ticket l) tickets else tickets)
       (busy \<or> layer_waits source attached l) layers
     else SceneInvalid)"
proof (cases "ly_buffer l = 0")
  case True
  then show ?thesis by (auto simp: layer_admitted_def new_read_def layer_waits_def)
next
  case False
  show ?thesis
  proof (cases "source (ly_buffer l)")
    case None
    with False show ?thesis by (simp add: layer_admitted_def)
  next
    case (Some b)
    show ?thesis
    proof (cases "ss_ticket b = Some (ly_ticket l)")
      case True
      with Some False have "\<not> new_read source l" "\<not> layer_waits source attached l"
        by (auto simp: new_read_def layer_waits_def)
      with True Some False show ?thesis by (simp add: layer_admitted_def)
    next
      case new: False
      with Some False have "new_read source l" by (simp add: new_read_def)
      moreover have "layer_waits source attached l \<longleftrightarrow> \<not> ss_spare_timeline b \<and>
          (case ss_ticket b of None \<Rightarrow> False | Some held \<Rightarrow> attached (ly_id l) \<noteq> Some (ly_buffer l, held))"
        using Some False new by (auto simp: layer_waits_def split: option.split)
      ultimately show ?thesis
        using new Some False by (cases "ly_ticket l \<le> last_ticket") (auto simp: layer_admitted_def)
    qed
  qed
qed

lemma assess_layers_iff:
  "assess_layers width height last_ticket source attached ids buffers tickets busy layers =
    (if scene_admitted width height last_ticket source attached layers \<and>
        (\<forall>(l, _) \<in> set layers. ly_id l \<notin> ids \<and> (ly_buffer l \<noteq> 0 \<longrightarrow> ly_buffer l \<notin> buffers) \<and>
           (new_read source l \<longrightarrow> ly_ticket l \<notin> tickets))
     then if busy \<or> (\<exists>(l, _) \<in> set layers. layer_waits source attached l) then SceneBusy else SceneReady
     else SceneInvalid)"
proof (induction layers arbitrary: ids buffers tickets busy)
  case (Cons lf layers)
  obtain l fenced where lf: "lf = (l, fenced)" by (cases lf)
  let ?ok = "\<lambda>ids buffers tickets (k, _ :: bool). ly_id k \<notin> ids \<and> (ly_buffer k \<noteq> 0 \<longrightarrow> ly_buffer k \<notin> buffers) \<and>
    (new_read source k \<longrightarrow> ly_ticket k \<notin> tickets)"
  have fresh: "(\<forall>x \<in> set layers. ?ok (insert (ly_id l) ids) (if ly_buffer l = 0 then buffers else insert (ly_buffer l) buffers)
        (if new_read source l then insert (ly_ticket l) tickets else tickets) x) \<longleftrightarrow>
      (\<forall>x \<in> set layers. ?ok ids buffers tickets x) \<and>
      (\<forall>(k, _) \<in> set layers. ly_id k \<noteq> ly_id l \<and> (ly_buffer k \<noteq> 0 \<longrightarrow> ly_buffer k \<noteq> ly_buffer l) \<and>
        (new_read source k \<longrightarrow> new_read source l \<longrightarrow> ly_ticket k \<noteq> ly_ticket l))"
    by auto
  show ?case
    unfolding lf assess_step Cons.IH scene_admitted_Cons fresh by auto
qed (simp add: scene_admitted_def)

subsection \<open>Properties\<close>


text \<open>
  Layers stay inside.  A layer that shows an allocation and is accepted lies inside the task, in
  integers and not only modulo the word size, and reads a non-empty rectangle inside that allocation, in
  its orientation after the layer's transform.
\<close>

theorem layer_stays_inside:
  assumes "layer_validate l width height (Some b)" and "ly_destination l = (x, y, w, h)"
    and "ly_source l = (sx, sy, sw, sh)" and "rotated_size (ly_transform l) b = (bw, bh)"
  shows "0 \<le> sint x \<and> 0 \<le> sint y \<and> 0 < sint w \<and> 0 < sint h \<and>
    sint x + sint w \<le> uint width \<and> sint y + sint h \<le> uint height \<and>
    lb_id b = ly_buffer l \<and> 0 < uint sw \<and> 0 < uint sh \<and>
    uint sx + uint sw \<le> uint bw * 256 \<and> uint sy + uint sh \<le> uint bh * 256"
  using validate_buffered [OF assms] by blast

definition example_allocation :: layer_buffer where
  "example_allocation = \<lparr>lb_id = 5, lb_width = 4, lb_height = 2, lb_fourcc = 1, lb_modifier = 0,
     lb_planes = [\<lparr>sp_offset = 0, sp_stride = 16\<rparr>]\<rparr>"

definition example_layer :: "u64 \<Rightarrow> layer" where
  "example_layer ticket = \<lparr>ly_id = 3, ly_buffer = 5, ly_ticket = ticket, ly_destination = (0, 0, 2, 4),
     ly_source = (0, 0, 512, 1024), ly_transform = 1, ly_alpha = - 1, ly_opaque = True, ly_color = 0\<rparr>"

lemma example_layer_valid: "ticket \<noteq> 0 \<Longrightarrow> layer_validate (example_layer ticket) 2 4 (Some example_allocation)"
  by (simp add: layer_validate_def example_layer_def example_allocation_def end_exceeds_def checked_add_def)

text \<open>
  Every fence goes to one layer.  A batch that is accepted has 1 to 16 layers, and the fences that its
  layers name are exactly the descriptors that came with it, each named once and by a layer that
  shows an allocation.
\<close>

theorem batch_fences_exact:
  assumes "decode_batch p n = Inr layers"
  shows "distinct (fences layers) \<and> set (fences layers) = {0..<n} \<and> n \<le> 4 \<and>
    1 \<le> length layers \<and> length layers \<le> MAX_BATCH_LAYERS \<and> length p = 4 + length layers * 76 \<and>
    (\<forall>bl \<in> set layers. bl_fence_index bl \<noteq> None \<longrightarrow> ly_buffer (bl_layer bl) \<noteq> 0)"
proof -
  from assms obtain word used where count: "unat word \<noteq> 0" "unat (word :: u32) \<le> MAX_BATCH_LAYERS"
      "length p = 4 + unat word * 76" and n: "n \<le> 4"
    and entries: "decode_entries n [] (chunks 76 (drop 4 p)) = Inr (layers, used)"
    and all: "\<forall>i \<in> set [0..<n]. i \<in> set used"
    by (auto simp: decode_batch_def result_simps Let_def split: if_split_asm)
  have "length (chunks 76 (drop 4 p)) = unat word" using count(3) by (intro length_chunks) simp_all
  with entries_fences [OF entries] all count n show ?thesis by auto
qed

definition solid_batch :: "u8 list" where
  "solid_batch = [1, 0, 0, 0] @ replicate 72 0 @ [0xFF, 0xFF, 0xFF, 0xFF]"

definition solid_entry :: "u8 list" where
  "solid_entry = replicate 72 0 @ [0xFF, 0xFF, 0xFF, 0xFF]"

lemma solid_entry_zero:
  assumes "offset + k \<le> 72"
  shows "read_le k solid_entry offset = Inr 0"
proof -
  have "le_value (replicate k 0) = 0" by (induction k) simp_all
  moreover have "take k (drop offset solid_entry) = replicate k 0"
    using assms by (simp add: solid_entry_def min_def)
  ultimately show ?thesis using assms by (simp add: read_le_def from_le_bytes_def solid_entry_def)
qed

lemma solid_entry_words:
  "offset + 4 \<le> 72 \<Longrightarrow> read_u32 solid_entry offset = Inr 0"
  "offset + 8 \<le> 72 \<Longrightarrow> read_u64 solid_entry offset = Inr 0"
  "read_u32 solid_entry 72 = Inr (- 1)"
proof -
  have "drop 72 solid_entry = [0xFF, 0xFF, 0xFF, 0xFF]" "length solid_entry = 76" by (simp_all add: solid_entry_def)
  then show "read_u32 solid_entry 72 = Inr (- 1)" by (simp add: read_u32_def read_le_def from_le_bytes_def)
qed (simp_all add: read_u32_def read_u64_def solid_entry_zero)

lemma solid_batch_decodes: "\<exists>layers. decode_batch solid_batch 0 = Inr layers"
proof -
  have "read_u32 solid_batch 0 = Inr 1"
    by (simp add: solid_batch_def read_u32_def read_le_def from_le_bytes_def)
  moreover have "chunks 76 (drop 4 solid_batch) = [solid_entry]"
    by (simp add: solid_batch_def solid_entry_def chunks.simps)
  moreover have "\<exists>l. decode_layer solid_entry False = Inr l"
    by (simp add: decode_layer_def solid_entry_words)
  moreover have "length solid_batch = 80" by (simp add: solid_batch_def)
  ultimately show ?thesis
    by (auto simp: decode_batch_def take_fence_def solid_entry_words MAX_BATCH_LAYERS_def)
qed

end
