(* ===== verification/Frame_Schedule.thy ===== *)
theory Frame_Schedule
  imports Frame_Ledger
begin

section \<open>Frame grants of the compositor\<close>

text \<open>
  \<open>Schedule\<close>, \<open>Subscription\<close> and \<open>Timeline\<close> of \<open>graphics/droidloom-wayland/src/frame_timeline.rs\<close> and
  the arming of all timelines in \<open>clock.rs\<close>.  The compositor grants frames on a timeline with epochs
  and sequence numbers; a frame that is shown takes the offered grant before its latch deadline, and
  every grant ends in exactly one way.  The generated Wayland proxies are identities, and the requests
  sent on them are returned.  The audit counters of \<open>clock.rs\<close> are diagnostics and not modelled.
\<close>

subsection \<open>Data\<close>

record grant_identity =
  gi_epoch :: u64
  gi_sequence :: u64

record grant =
  gr_identity :: grant_identity
  gr_latch_deadline_ns :: u64
  gr_presentation_target_ns :: u64
  gr_refresh_period_ns :: u64

datatype terminal =
    TerminalPresented
  | TerminalSkipped
  | TerminalMissed
  | TerminalConfigure
  | TerminalEpoch

text \<open>The array \<open>terminal: [u64; 5]\<close> is indexed by \<open>Terminal\<close> only, so it is a function of it.\<close>

record schedule =
  sc_epoch :: "u64 option"
  sc_last_sequence :: u64
  sc_offered :: "grant option"
  sc_consumed :: "grant_identity fset"
  sc_terminal :: "terminal \<Rightarrow> u64"

definition sc_default :: schedule where
  "sc_default = \<lparr>sc_epoch = None, sc_last_sequence = 0, sc_offered = None, sc_consumed = {||},
     sc_terminal = (\<lambda>_. 0)\<rparr>"

definition sc_count :: "terminal \<Rightarrow> schedule \<Rightarrow> schedule" where
  "sc_count t s = s\<lparr>sc_terminal := (sc_terminal s)(t := saturating_add (sc_terminal s t) 1)\<rparr>"

definition sc_finish :: "grant_identity \<Rightarrow> terminal \<Rightarrow> schedule \<Rightarrow> schedule" where
  "sc_finish identity t s =
     (if identity |\<in>| sc_consumed s
      then sc_count t (s\<lparr>sc_consumed := sc_consumed s |-| {|identity|}\<rparr>) else s)"

text \<open>\<open>offered.take()\<close>, counted when there was one.\<close>

definition sc_take_offered :: "(grant \<Rightarrow> terminal) \<Rightarrow> schedule \<Rightarrow> schedule" where
  "sc_take_offered t s =
     (case sc_offered s of None \<Rightarrow> s | Some g \<Rightarrow> sc_count (t g) (s\<lparr>sc_offered := None\<rparr>))"

text \<open>The \<open>pop_first\<close> loop runs once for each consumed grant and counts each.\<close>

definition sc_clear :: "terminal \<Rightarrow> schedule \<Rightarrow> schedule" where
  "sc_clear t s =
     (let s1 = sc_take_offered (\<lambda>_. t) s in
      (sc_count t ^^ fcard (sc_consumed s1)) (s1\<lparr>sc_consumed := {||}\<rparr>))"

definition sc_set_epoch :: "u64 \<Rightarrow> schedule \<Rightarrow> schedule" where
  "sc_set_epoch epoch s =
     (if sc_epoch s \<noteq> Some epoch
      then (sc_clear TerminalEpoch s)\<lparr>sc_epoch := Some epoch, sc_last_sequence := 0\<rparr> else s)"

definition grant_refused :: "grant \<Rightarrow> schedule \<Rightarrow> bool" where
  "grant_refused g s \<longleftrightarrow>
     sc_epoch s \<noteq> Some (gi_epoch (gr_identity g))
     \<or> gi_sequence (gr_identity g) \<le> sc_last_sequence s
     \<or> gr_refresh_period_ns g = 0
     \<or> gr_presentation_target_ns g \<le> gr_latch_deadline_ns g"

definition sc_offer :: "grant \<Rightarrow> u64 \<Rightarrow> schedule \<Rightarrow> schedule" where
  "sc_offer g now s =
     (if grant_refused g s then s
      else (sc_take_offered (\<lambda>previous. if gr_latch_deadline_ns previous \<le> now
              then TerminalMissed else TerminalSkipped) s)
        \<lparr>sc_last_sequence := gi_sequence (gr_identity g), sc_offered := Some g\<rparr>)"

definition sc_consume :: "u64 \<Rightarrow> schedule \<Rightarrow> grant option \<times> schedule" where
  "sc_consume now s =
     (case sc_offered s of
        None \<Rightarrow> (None, s)
      | Some g \<Rightarrow>
          let s1 = s\<lparr>sc_offered := None\<rparr> in
          if gr_latch_deadline_ns g \<le> now then (None, sc_count TerminalMissed s1)
          else (Some g, s1\<lparr>sc_consumed := finsert (gr_identity g) (sc_consumed s1)\<rparr>))"

subsection \<open>The wire form of a grant\<close>

datatype timestamp_error = NanosecondsInvalid | TimestampOverflow

definition join_words :: "u32 \<Rightarrow> u32 \<Rightarrow> u64" where
  "join_words hi lo = push_bit 32 (ucast hi) OR ucast lo"

definition split_point :: "u64 \<Rightarrow> u32 \<times> u32" where
  "split_point point = (ucast (drop_bit 32 point), ucast (point AND 0xFFFFFFFF))"

definition checked_mul :: "u64 \<Rightarrow> u64 \<Rightarrow> u64 option" where
  "checked_mul a b = (if unat a * unat b < 2 ^ 64 then Some (a * b) else None)"

definition presentation_timestamp_nanos :: "u64 \<Rightarrow> u32 \<Rightarrow> (timestamp_error, u64) result" where
  "presentation_timestamp_nanos seconds nanos =
     (if 1000000000 \<le> nanos then Inl NanosecondsInvalid
      else ok_or TimestampOverflow
        (Option.bind (checked_mul seconds 1000000000) (\<lambda>v. checked_add v (ucast nanos))))"

record wire_grant =
  wg_epoch :: "u32 \<times> u32"
  wg_sequence :: "u32 \<times> u32"
  wg_latch_sec :: "u32 \<times> u32"
  wg_latch_nsec :: u32
  wg_target_sec :: "u32 \<times> u32"
  wg_target_nsec :: u32
  wg_period_ns :: "u32 \<times> u32"

definition decode_wire_grant :: "wire_grant \<Rightarrow> (timestamp_error, grant) result" where
  "decode_wire_grant w =
     bind_result (presentation_timestamp_nanos (case_prod join_words (wg_latch_sec w)) (wg_latch_nsec w))
       (\<lambda>latch.
     bind_result (presentation_timestamp_nanos (case_prod join_words (wg_target_sec w)) (wg_target_nsec w))
       (\<lambda>target.
     Inr \<lparr>gr_identity = \<lparr>gi_epoch = case_prod join_words (wg_epoch w),
            gi_sequence = case_prod join_words (wg_sequence w)\<rparr>,
          gr_latch_deadline_ns = latch, gr_presentation_target_ns = target,
          gr_refresh_period_ns = case_prod join_words (wg_period_ns w)\<rparr>))"

subsection \<open>The timeline of a task\<close>

type_synonym proxy = nat
type_synonym wl_output = nat

datatype timeline_request = SetActive proxy u32 | DestroyTimeline proxy

record subscription =
  sb_output :: wl_output
  sb_proxy :: proxy
  sb_armed :: bool

definition sb_new :: "wl_output \<Rightarrow> proxy \<Rightarrow> bool \<Rightarrow> timeline_request list \<times> subscription" where
  "sb_new output proxy armed =
     (if armed then [SetActive proxy 1] else [],
      \<lparr>sb_output = output, sb_proxy = proxy, sb_armed = armed\<rparr>)"

definition sb_arm :: "bool \<Rightarrow> subscription \<Rightarrow> timeline_request list \<times> subscription" where
  "sb_arm armed sb =
     (if sb_armed sb \<noteq> armed
      then ([SetActive (sb_proxy sb) (if armed then 1 else 0)], sb\<lparr>sb_armed := armed\<rparr>)
      else ([], sb))"

definition sb_drop :: "subscription \<Rightarrow> timeline_request list" where
  "sb_drop sb = (if sb_armed sb then [SetActive (sb_proxy sb) 0] else []) @ [DestroyTimeline (sb_proxy sb)]"

text \<open>
  A target names the timeline it was granted on.  The queued composed frame is the argument type
  \<open>'q\<close>; the surface object only exists or not.
\<close>

record target =
  tg_timeline :: proxy
  tg_identity :: grant_identity
  tg_latch_ns :: u64

record 'q frame_timeline =
  ft_exact :: bool
  ft_surface :: bool
  ft_subscription :: "subscription option"
  ft_schedule :: schedule
  ft_queued :: "'q option"
  ft_late :: u64

definition ft_new :: "bool \<Rightarrow> bool \<Rightarrow> 'q frame_timeline" where
  "ft_new manager surface = \<lparr>ft_exact = (manager \<and> surface), ft_surface = (manager \<and> surface),
     ft_subscription = None, ft_schedule = sc_default, ft_queued = None, ft_late = 0\<rparr>"

definition on_schedule :: "(schedule \<Rightarrow> schedule) \<Rightarrow> 'q frame_timeline \<Rightarrow> 'q frame_timeline" where
  "on_schedule f ft = ft\<lparr>ft_schedule := f (ft_schedule ft)\<rparr>"

definition ft_finish :: "grant_identity option \<Rightarrow> terminal \<Rightarrow> 'q frame_timeline \<Rightarrow> 'q frame_timeline" where
  "ft_finish identity t ft =
     (case identity of None \<Rightarrow> ft | Some i \<Rightarrow> on_schedule (sc_finish i t) ft)"

text \<open>The outer option of \<open>reserve\<close> is \<open>None\<close> when the frame has to wait, the inner one its target.\<close>

definition ft_reserve :: "u64 \<Rightarrow> 'q frame_timeline \<Rightarrow> target option option \<times> 'q frame_timeline" where
  "ft_reserve now ft =
     (if \<not> ft_exact ft then (Some None, ft)
      else case ft_subscription ft of
        None \<Rightarrow> (None, ft)
      | Some sb \<Rightarrow>
          if \<not> sb_armed sb then (Some None, ft)
          else
            let late = (case sc_offered (ft_schedule ft) of
                          None \<Rightarrow> False | Some g \<Rightarrow> gr_latch_deadline_ns g \<le> now) in
            case sc_consume now (ft_schedule ft) of
              (None, s) \<Rightarrow>
                (None, ft\<lparr>ft_schedule := s, ft_late := ft_late ft + (if late then 1 else 0)\<rparr>)
            | (Some g, s) \<Rightarrow>
                (Some (Some \<lparr>tg_timeline = sb_proxy sb, tg_identity = gr_identity g,
                         tg_latch_ns = gr_latch_deadline_ns g\<rparr>),
                 ft\<lparr>ft_schedule := s\<rparr>))"

definition ft_arm :: "bool \<Rightarrow> 'q frame_timeline \<Rightarrow> timeline_request list \<times> 'q frame_timeline" where
  "ft_arm armed ft =
     (let (rq, ft1) = (case ft_subscription ft of
            None \<Rightarrow> ([], ft)
          | Some sb \<Rightarrow> (case sb_arm armed sb of (rq, sb1) \<Rightarrow> (rq, ft\<lparr>ft_subscription := Some sb1\<rparr>)))
      in (rq, if armed then ft1 else on_schedule (sc_take_offered (\<lambda>_. TerminalSkipped)) ft1))"

definition drop_subscription :: "'q frame_timeline \<Rightarrow> timeline_request list" where
  "drop_subscription ft = (case ft_subscription ft of None \<Rightarrow> [] | Some sb \<Rightarrow> sb_drop sb)"

definition ft_stop :: "'q frame_timeline \<Rightarrow> timeline_request list \<times> 'q frame_timeline" where
  "ft_stop ft =
     (drop_subscription ft,
      on_schedule (sc_clear TerminalEpoch) (ft\<lparr>ft_subscription := None, ft_surface := False\<rparr>))"

text \<open>
  \<open>retire_feedback\<close>: every outstanding feedback ends its grant; the frames of the composed ones are
  given to \<open>forget\<close>, here returned.
\<close>

definition retire_feedback ::
  "grant_identity option list \<Rightarrow> (grant_identity option \<times> 'f) list \<Rightarrow> terminal \<Rightarrow> 'q frame_timeline
     \<Rightarrow> 'f list \<times> 'q frame_timeline" where
  "retire_feedback scenes frames t ft =
     (map snd frames,
      fold (\<lambda>(g, _). ft_finish g t) frames (fold (\<lambda>g. ft_finish g t) scenes ft))"

text \<open>
  What \<open>refresh_frame_timelines\<close> does to one timeline whose output changed: the grants of the old
  subscription end with its epoch, then the new one starts without an epoch.
\<close>

definition ft_refresh ::
  "(wl_output \<times> proxy) option \<Rightarrow> bool \<Rightarrow> 'q frame_timeline \<Rightarrow> timeline_request list \<times> 'q frame_timeline"
where
  "ft_refresh output armed ft =
     (if map_option sb_output (ft_subscription ft) = map_option fst output then ([], ft)
      else
        let ft1 = (if ft_subscription ft \<noteq> None \<or> sc_epoch (ft_schedule ft) \<noteq> None
                   then on_schedule (sc_clear TerminalEpoch) ft else ft);
            ft2 = on_schedule (\<lambda>s. s\<lparr>sc_epoch := None, sc_last_sequence := 0\<rparr>)
                    (ft1\<lparr>ft_subscription := None\<rparr>)
        in case output of
          None \<Rightarrow> (drop_subscription ft1, ft2)
        | Some (out, proxy) \<Rightarrow>
            (case sb_new out proxy armed of
               (rq, sb) \<Rightarrow> (drop_subscription ft1 @ rq, ft2\<lparr>ft_subscription := Some sb\<rparr>)))"

subsection \<open>The clock arms every timeline\<close>

definition IDLE_NANOS :: u64 where "IDLE_NANOS = 250000000"

record ('k, 'q) clocked =
  ck_subscription :: "subscription option"
  ck_armed :: bool
  ck_last_frame_nanos :: u64
  ck_tasks :: "('k, 'q frame_timeline) fmap"

definition arm_subscription :: "bool \<Rightarrow> subscription \<Rightarrow> subscription" where
  "arm_subscription armed sb = snd (sb_arm armed sb)"

definition arm_timelines :: "bool \<Rightarrow> ('k, 'q) clocked \<Rightarrow> ('k, 'q) clocked" where
  "arm_timelines armed c =
     c\<lparr>ck_armed := armed,
       ck_subscription := map_option (arm_subscription armed) (ck_subscription c),
       ck_tasks := fmmap (\<lambda>ft. snd (ft_arm armed ft)) (ck_tasks c)\<rparr>"

definition android_frame :: "u64 \<Rightarrow> ('k, 'q) clocked \<Rightarrow> ('k, 'q) clocked" where
  "android_frame now c =
     (let c1 = c\<lparr>ck_last_frame_nanos := now\<rparr> in
      if ck_armed c1 then c1 else arm_timelines True c1)"

definition saturating_sub :: "u64 \<Rightarrow> u64 \<Rightarrow> u64" where
  "saturating_sub a b = (if b \<le> a then a - b else 0)"

definition clock_idle_check :: "u64 \<Rightarrow> ('k, 'q) clocked \<Rightarrow> ('k, 'q) clocked" where
  "clock_idle_check now c =
     (if \<not> ck_armed c then c
      else if IDLE_NANOS \<le> saturating_sub now (ck_last_frame_nanos c) then arm_timelines False c
      else c)"

text \<open>\<open>refresh_clock\<close>, with the pacesetter's output and its new proxy as argument.\<close>

definition refresh_clock :: "bool \<Rightarrow> (wl_output \<times> proxy) option \<Rightarrow> ('k, 'q) clocked \<Rightarrow> ('k, 'q) clocked" where
  "refresh_clock manager output c =
     (if map_option sb_output (ck_subscription c) = map_option fst output then c
      else c\<lparr>ck_subscription :=
        (case output of
           Some (out, proxy) \<Rightarrow> if manager then Some (snd (sb_new out proxy (ck_armed c))) else None
         | None \<Rightarrow> None)\<rparr>)"

subsection \<open>Every grant ends once\<close>

text \<open>
  The operations on a schedule: those of \<open>Schedule\<close> itself, the disarming of \<open>Timeline::arm\<close> and the
  new subscription.
\<close>

datatype schedule_op =
    SchFinish grant_identity terminal
  | SchClear terminal
  | SchEpoch u64
  | SchOffer grant u64
  | SchConsume u64
  | SchDisarm
  | SchResubscribe

fun sc_step :: "schedule \<Rightarrow> schedule_op \<Rightarrow> schedule" where
  "sc_step s (SchFinish i t) = sc_finish i t s"
| "sc_step s (SchClear t) = sc_clear t s"
| "sc_step s (SchEpoch e) = sc_set_epoch e s"
| "sc_step s (SchOffer g now) = sc_offer g now s"
| "sc_step s (SchConsume now) = snd (sc_consume now s)"
| "sc_step s SchDisarm = sc_take_offered (\<lambda>_. TerminalSkipped) s"
| "sc_step s SchResubscribe = (sc_clear TerminalEpoch s)\<lparr>sc_epoch := None, sc_last_sequence := 0\<rparr>"

text \<open>The grants a run accepts, and those it hands to frames, with the time of the hand-over.\<close>

fun sc_accepts :: "schedule \<Rightarrow> schedule_op \<Rightarrow> grant list" where
  "sc_accepts s (SchOffer g now) = (if grant_refused g s then [] else [g])"
| "sc_accepts s _ = []"

fun sc_takes :: "schedule \<Rightarrow> schedule_op \<Rightarrow> (grant \<times> u64) list" where
  "sc_takes s (SchConsume now) = (case fst (sc_consume now s) of None \<Rightarrow> [] | Some g \<Rightarrow> [(g, now)])"
| "sc_takes s _ = []"

definition sc_inv :: "schedule \<Rightarrow> bool" where
  "sc_inv s \<longleftrightarrow>
     (\<forall>i. i |\<in>| sc_consumed s \<longrightarrow> sc_epoch s = Some (gi_epoch i) \<and> gi_sequence i \<le> sc_last_sequence s)
     \<and> (\<forall>g. sc_offered s = Some g \<longrightarrow>
          sc_epoch s = Some (gi_epoch (gr_identity g))
          \<and> gi_sequence (gr_identity g) = sc_last_sequence s \<and> 0 < gi_sequence (gr_identity g)
          \<and> gr_identity g |\<notin>| sc_consumed s)"

definition sc_live :: "schedule \<Rightarrow> nat" where
  "sc_live s = (case sc_offered s of None \<Rightarrow> 0 | Some _ \<Rightarrow> 1) + fcard (sc_consumed s)"

definition sc_ended :: "schedule \<Rightarrow> nat" where
  "sc_ended s = unat (sc_terminal s TerminalPresented) + unat (sc_terminal s TerminalSkipped)
     + unat (sc_terminal s TerminalMissed) + unat (sc_terminal s TerminalConfigure)
     + unat (sc_terminal s TerminalEpoch)"

lemma sc_count_fields [simp]:
  "sc_epoch (sc_count t s) = sc_epoch s" "sc_last_sequence (sc_count t s) = sc_last_sequence s"
  "sc_offered (sc_count t s) = sc_offered s" "sc_consumed (sc_count t s) = sc_consumed s"
  by (simp_all add: sc_count_def)

lemma sc_count_iter_fields [simp]:
  "sc_epoch ((sc_count t ^^ n) s) = sc_epoch s"
  "sc_last_sequence ((sc_count t ^^ n) s) = sc_last_sequence s"
  "sc_offered ((sc_count t ^^ n) s) = sc_offered s"
  "sc_consumed ((sc_count t ^^ n) s) = sc_consumed s"
  by (induction n) simp_all

lemma unat_saturating_succ:
  "unat (saturating_add (x :: u64) 1) = (if unat x + 1 < 2 ^ 64 then unat x + 1 else unat x)"
proof (cases "unat x + 1 < 2 ^ 64")
  case True
  then have c: "checked_add x 1 = Some (x + 1)" by (simp add: checked_add_def)
  from c have "unat (x + 1) = unat x + 1" unfolding checked_add_Some_iff by simp
  then show ?thesis
    using True unfolding saturating_add_def c by simp
next
  case False
  moreover have "unat x < 2 ^ 64" using unsigned_less [of x] by simp
  ultimately have "unat x = 2 ^ 64 - 1" by simp
  with False show ?thesis
    by (simp add: saturating_add_def checked_add_def unsigned_minus_1_eq_mask mask_eq_exp_minus_1)
qed

lemma sc_ended_count:
  "sc_ended (sc_count t s) \<le> sc_ended s + 1"
  "sc_ended s \<le> sc_ended (sc_count t s)"
  "sc_ended s + 1 < 2 ^ 64 \<Longrightarrow> sc_ended (sc_count t s) = sc_ended s + 1"
  by (cases t; simp add: sc_ended_def sc_count_def unat_saturating_succ)+

text \<open>
  The books of a schedule against the number of accepted grants.  The counters saturate, so the sum is
  exact as long as fewer than 2^64 grants were accepted.
\<close>

definition books :: "nat \<Rightarrow> schedule \<Rightarrow> bool" where
  "books n s \<longleftrightarrow> sc_live s + sc_ended s \<le> n \<and> (n < 2 ^ 64 \<longrightarrow> sc_live s + sc_ended s = n)"

lemma sc_ended_cong: "sc_terminal s' = sc_terminal s \<Longrightarrow> sc_ended s' = sc_ended s"
  by (simp add: sc_ended_def)

lemma sc_live_cong:
  "sc_offered s' = sc_offered s \<Longrightarrow> sc_consumed s' = sc_consumed s \<Longrightarrow> sc_live s' = sc_live s"
  by (simp add: sc_live_def)

lemma books_cong:
  "sc_offered s' = sc_offered s \<Longrightarrow> sc_consumed s' = sc_consumed s \<Longrightarrow>
   sc_terminal s' = sc_terminal s \<Longrightarrow> books n s' = books n s"
  by (simp add: books_def sc_live_cong [of s' s] sc_ended_cong [of s' s])

text \<open>Ending \<open>k\<close> live grants counts each of them.\<close>

lemma books_settle:
  assumes "books n s" and "sc_live s1 + k = sc_live s" and "sc_terminal s1 = sc_terminal s"
  shows "books n ((sc_count t ^^ k) s1)"
proof -
  have live: "sc_live ((sc_count t ^^ j) s1) = sc_live s1" for j
    by (rule sc_live_cong) simp_all
  have le: "sc_ended ((sc_count t ^^ j) s1) \<le> sc_ended s + j" for j
  proof (induction j)
    case 0
    then show ?case using sc_ended_cong [OF assms(3)] by simp
  next
    case (Suc j)
    then show ?case using sc_ended_count(1) [of t "(sc_count t ^^ j) s1"] by simp
  qed
  have eq: "sc_ended s + j < 2 ^ 64 \<Longrightarrow> sc_ended ((sc_count t ^^ j) s1) = sc_ended s + j" for j
  proof (induction j)
    case 0
    then show ?case using sc_ended_cong [OF assms(3)] by simp
  next
    case (Suc j)
    then show ?case using sc_ended_count(3) [of "(sc_count t ^^ j) s1" t] by simp
  qed
  show ?thesis
    using assms(1,2) le [of k] eq [of k] unfolding books_def live by linarith
qed

lemma books_settle_one:
  assumes "books n s" and "sc_live s1 + 1 = sc_live s" and "sc_terminal s1 = sc_terminal s"
  shows "books n (sc_count t s1)"
  using books_settle [of n s s1 1 t] assms by simp

lemma books_take_offered: "books n s \<Longrightarrow> books n (sc_take_offered t s)"
  by (auto simp: sc_take_offered_def sc_live_def intro!: books_settle_one [of n s] split: option.split)

lemma books_clear: "books n s \<Longrightarrow> books n (sc_clear t s)"
  unfolding sc_clear_def Let_def
  by (rule books_settle [OF books_take_offered [of n s "\<lambda>_. t"]]) (simp_all add: sc_live_def sc_take_offered_def
      split: option.split)

lemma sc_take_offered_fields [simp]:
  "sc_offered (sc_take_offered t s) = None" "sc_epoch (sc_take_offered t s) = sc_epoch s"
  "sc_last_sequence (sc_take_offered t s) = sc_last_sequence s"
  "sc_consumed (sc_take_offered t s) = sc_consumed s"
  by (simp_all add: sc_take_offered_def split: option.split)

lemma sc_clear_fields [simp]:
  "sc_offered (sc_clear t s) = None" "sc_consumed (sc_clear t s) = {||}"
  "sc_epoch (sc_clear t s) = sc_epoch s" "sc_last_sequence (sc_clear t s) = sc_last_sequence s"
  by (simp_all add: sc_clear_def Let_def)

lemma sc_inv_subset:
  assumes "sc_inv s" and "sc_consumed s' |\<subseteq>| sc_consumed s" and "sc_offered s' = sc_offered s"
    and "sc_epoch s' = sc_epoch s" and "sc_last_sequence s' = sc_last_sequence s"
  shows "sc_inv s'"
  using assms(1,2) unfolding sc_inv_def assms(3-5) by blast

lemma sc_inv_finish: "sc_inv s \<Longrightarrow> sc_inv (sc_finish i t s)"
  by (rule sc_inv_subset [of s]) (auto simp: sc_finish_def)

lemma sc_inv_step: "sc_inv s \<Longrightarrow> sc_inv (sc_step s op)"
  by (cases op, simp add: sc_inv_finish)
    (auto simp: sc_inv_def sc_set_epoch_def sc_offer_def grant_refused_def
      sc_consume_def Let_def not_le dest: order.strict_implies_order order.strict_trans2
      intro: order.strict_trans1 [OF word_zero_le] split: option.split)

lemma books_step:
  assumes "sc_inv s" and "books n s"
  shows "books (n + length (sc_accepts s op)) (sc_step s op)"
proof (cases op)
  case (SchFinish i t)
  have "i |\<in>| sc_consumed s \<Longrightarrow> Suc (fcard (sc_consumed s |-| {|i|})) = fcard (sc_consumed s)"
    by (metis fcard_Suc_fminus1)
  then show ?thesis
    using assms SchFinish by (auto simp: sc_finish_def sc_live_def intro!: books_settle_one [of n s])
next
  case (SchOffer g now)
  let ?t = "\<lambda>previous. if gr_latch_deadline_ns previous \<le> now then TerminalMissed else TerminalSkipped"
  have "books n (sc_take_offered ?t s)"
    by (rule books_take_offered [OF assms(2)])
  then show ?thesis
    using assms SchOffer by (auto simp: sc_offer_def books_def sc_live_def sc_ended_def)
next
  case (SchConsume now)
  show ?thesis
  proof (cases "sc_offered s")
    case None
    then show ?thesis
      using assms SchConsume by (simp add: sc_consume_def)
  next
    case (Some g)
    have "books n (sc_count TerminalMissed (s\<lparr>sc_offered := None\<rparr>))"
      by (rule books_settle_one [OF assms(2)]) (simp_all add: sc_live_def Some)
    moreover have "gr_identity g |\<notin>| sc_consumed s"
      using assms(1) Some by (simp add: sc_inv_def)
    ultimately show ?thesis
      using assms Some SchConsume
      by (auto simp: sc_consume_def Let_def books_def sc_live_def sc_ended_def fcard_finsert_disjoint)
  qed
next
  case (SchEpoch e)
  show ?thesis
    using books_clear [OF assms(2), of TerminalEpoch] assms(2) SchEpoch
    by (auto simp: sc_set_epoch_def books_def sc_live_def sc_ended_def)
next
  case SchResubscribe
  then show ?thesis
    using books_clear [OF assms(2), of TerminalEpoch] by (auto simp: books_def sc_live_def sc_ended_def)
qed (use assms in \<open>auto simp: books_clear books_take_offered\<close>)

lemma sc_default_ok: "sc_inv sc_default" "books 0 sc_default"
  by (simp_all add: sc_inv_def sc_default_def books_def sc_live_def sc_ended_def)

lemma sc_run_ok:
  assumes "sc_inv s" and "books n s"
  shows "sc_inv (run_ops sc_step s ops)
    \<and> books (n + length (trace_ops sc_step sc_accepts s ops)) (run_ops sc_step s ops)"
  using assms
proof (induction ops arbitrary: s n)
  case (Cons op ops)
  from Cons.IH [OF sc_inv_step [OF Cons.prems(1)] books_step [OF Cons.prems]] show ?case
    by (simp add: add.assoc)
qed simp

text \<open>
  C29.  Grants are conserved: after any sequence of operations on a schedule, the grants it has accepted
  are exactly the offered one, the consumed ones that a frame still holds, and those counted under the
  five ways to end, each once (the counters saturate, hence the bound on the number of grants).
\<close>

theorem grants_conserved:
  assumes "length (trace_ops sc_step sc_accepts sc_default ops) < 2 ^ 64"
  shows "sc_live (run_ops sc_step sc_default ops) + sc_ended (run_ops sc_step sc_default ops)
    = length (trace_ops sc_step sc_accepts sc_default ops)"
  using sc_run_ok [OF sc_default_ok, of ops] assms by (simp add: books_def)

definition example_grant :: "u64 \<Rightarrow> u64 \<Rightarrow> grant" where
  "example_grant n latch = \<lparr>gr_identity = \<lparr>gi_epoch = 5, gi_sequence = n\<rparr>, gr_latch_deadline_ns = latch,
     gr_presentation_target_ns = latch + 10, gr_refresh_period_ns = 16\<rparr>"

definition example_schedule_ops :: "schedule_op list" where
  "example_schedule_ops =
     [SchEpoch 5, SchOffer (example_grant 2 100) 10, SchConsume 50, SchOffer (example_grant 3 200) 60,
      SchOffer (example_grant 4 300) 110, SchConsume 310,
      SchFinish \<lparr>gi_epoch = 5, gi_sequence = 2\<rparr> TerminalPresented]"

lemmas schedule_defs =
  example_grant_def sc_default_def sc_set_epoch_def sc_clear_def sc_take_offered_def sc_offer_def
  grant_refused_def sc_consume_def sc_finish_def sc_count_def

lemma example_schedule_run:
  "length (trace_ops sc_step sc_accepts sc_default example_schedule_ops) = 3"
  "length (trace_ops sc_step sc_takes sc_default example_schedule_ops) = 1"
  "sc_live (run_ops sc_step sc_default example_schedule_ops) = 0"
  by (simp_all add: example_schedule_ops_def schedule_defs sc_live_def)

theorem grants_conserved_witness:
  "length (trace_ops sc_step sc_accepts sc_default example_schedule_ops) = 3
   \<and> sc_ended (run_ops sc_step sc_default example_schedule_ops) = 3"
  using grants_conserved [of example_schedule_ops] by (simp add: example_schedule_run)

subsection \<open>A grant is taken once and in time\<close>

text \<open>Operations that stay in the epoch of the schedule.\<close>

fun keeps_epoch :: "schedule_op \<Rightarrow> bool" where
  "keeps_epoch (SchEpoch e) = False"
| "keeps_epoch SchResubscribe = False"
| "keeps_epoch _ = True"

text \<open>Whatever is offered from here on has a sequence number above \<open>m\<close>.\<close>

definition sequence_above :: "u64 \<Rightarrow> schedule \<Rightarrow> bool" where
  "sequence_above m s \<longleftrightarrow>
     m \<le> sc_last_sequence s \<and> (\<forall>g. sc_offered s = Some g \<longrightarrow> m < gi_sequence (gr_identity g))"

lemma sequence_above_step:
  assumes "keeps_epoch op" and "sequence_above m s"
  shows "sequence_above m (sc_step s op)"
proof (cases op)
  case (SchOffer g now)
  then show ?thesis
    using assms by (auto simp: sequence_above_def sc_offer_def grant_refused_def)
qed (use assms in \<open>auto simp: sequence_above_def sc_finish_def sc_consume_def Let_def split: option.split\<close>)

lemma sc_takes_step:
  assumes "sequence_above m s" and "(g, now) \<in> set (sc_takes s op)"
  shows "m < gi_sequence (gr_identity g)" "now < gr_latch_deadline_ns g"
    "sc_inv s \<Longrightarrow> sequence_above (gi_sequence (gr_identity g)) (sc_step s op)"
  using assms
  by (cases op; auto simp: sequence_above_def sc_consume_def sc_inv_def Let_def split: option.splits if_splits)+

abbreviation sequence_less :: "grant \<times> u64 \<Rightarrow> grant \<times> u64 \<Rightarrow> bool" where
  "sequence_less a b \<equiv> gi_sequence (gr_identity (fst a)) < gi_sequence (gr_identity (fst b))"

lemma sc_takes_length: "sc_takes s op = [] \<or> (\<exists>x. sc_takes s op = [x])"
  by (cases op) (auto split: option.split)

lemma takes_increase:
  assumes "sc_inv s" and "sequence_above m s" and "list_all keeps_epoch ops"
  shows "sorted_wrt sequence_less (trace_ops sc_step sc_takes s ops)
    \<and> (\<forall>(g, now) \<in> set (trace_ops sc_step sc_takes s ops).
         m < gi_sequence (gr_identity g) \<and> now < gr_latch_deadline_ns g)"
  using assms
proof (induction ops arbitrary: s m)
  case (Cons op ops)
  let ?s = "sc_step s op"
  have inv: "sc_inv ?s" by (rule sc_inv_step [OF Cons.prems(1)])
  have above: "sequence_above m ?s"
    using sequence_above_step Cons.prems(2,3) by simp
  have rest: "list_all keeps_epoch ops" using Cons.prems(3) by simp
  consider "sc_takes s op = []" | g now where "sc_takes s op = [(g, now)]"
    using sc_takes_length [of s op] by auto
  then show ?case
  proof cases
    case 1
    then show ?thesis using Cons.IH [OF inv above rest] by simp
  next
    case 2
    then have mem: "(g, now) \<in> set (sc_takes s op)" by simp
    note t = sc_takes_step [OF Cons.prems(2) mem]
    have "sorted_wrt sequence_less (trace_ops sc_step sc_takes ?s ops)
      \<and> (\<forall>(h, later) \<in> set (trace_ops sc_step sc_takes ?s ops).
           gi_sequence (gr_identity g) < gi_sequence (gr_identity h) \<and> later < gr_latch_deadline_ns h)"
      by (rule Cons.IH [OF inv t(3) [OF Cons.prems(1)] rest])
    then show ?thesis using 2 t(1,2) by (auto dest: order.strict_trans)
  qed
qed simp

text \<open>
  C30.  A grant is taken once and in time: from any reachable schedule on, as long as the epoch does not
  change, the grants handed to frames have strictly increasing sequence numbers, and each is handed
  over before its latch deadline.
\<close>

theorem grants_taken_once_in_time:
  assumes "s = run_ops sc_step sc_default earlier" and "list_all keeps_epoch ops"
  shows "sorted_wrt sequence_less (trace_ops sc_step sc_takes s ops)
    \<and> (\<forall>(g, now) \<in> set (trace_ops sc_step sc_takes s ops). now < gr_latch_deadline_ns g)"
proof -
  have inv: "sc_inv s"
    using sc_run_ok [OF sc_default_ok, of earlier] assms(1) by simp
  then have "\<forall>g. sc_offered s = Some g \<longrightarrow> 0 < gi_sequence (gr_identity g)"
    unfolding sc_inv_def by blast
  then have "sequence_above 0 s"
    by (simp add: sequence_above_def)
  from takes_increase [OF inv this assms(2)] show ?thesis by auto
qed

theorem grants_taken_once_in_time_witness:
  "sorted_wrt sequence_less (trace_ops sc_step sc_takes (run_ops sc_step sc_default [SchEpoch 5])
     (tl example_schedule_ops))
   \<and> trace_ops sc_step sc_takes (run_ops sc_step sc_default [SchEpoch 5]) (tl example_schedule_ops)
     = [(example_grant 2 100, 50)]"
proof -
  have "list_all keeps_epoch (tl example_schedule_ops)"
    by (simp add: example_schedule_ops_def)
  then show ?thesis
    using grants_taken_once_in_time [OF refl, of "tl example_schedule_ops" "[SchEpoch 5]"]
    by (simp add: example_schedule_ops_def schedule_defs)
qed

subsection \<open>All timelines are armed together\<close>

datatype ('k, 'q) clock_op =
    CkFrame u64
  | CkIdleCheck u64
  | CkRefresh bool "(wl_output \<times> proxy) option"
  | CkTaskRefresh 'k "(wl_output \<times> proxy) option"
  | CkNewTask 'k bool bool
  | CkRemoveTask 'k
  | CkReserve 'k u64
  | CkFinish 'k "grant_identity option" terminal
  | CkStop 'k

definition on_timeline :: "'k \<Rightarrow> ('q frame_timeline \<Rightarrow> 'q frame_timeline) \<Rightarrow> ('k, 'q) clocked \<Rightarrow> ('k, 'q) clocked" where
  "on_timeline object f c =
     (case fmlookup (ck_tasks c) object of
        None \<Rightarrow> c | Some ft \<Rightarrow> c\<lparr>ck_tasks := fmupd object (f ft) (ck_tasks c)\<rparr>)"

fun ck_step :: "('k, 'q) clocked \<Rightarrow> ('k, 'q) clock_op \<Rightarrow> ('k, 'q) clocked" where
  "ck_step c (CkFrame now) = android_frame now c"
| "ck_step c (CkIdleCheck now) = clock_idle_check now c"
| "ck_step c (CkRefresh manager output) = refresh_clock manager output c"
| "ck_step c (CkTaskRefresh object output) = on_timeline object (\<lambda>ft. snd (ft_refresh output (ck_armed c) ft)) c"
| "ck_step c (CkNewTask object manager surface) = c\<lparr>ck_tasks := fmupd object (ft_new manager surface) (ck_tasks c)\<rparr>"
| "ck_step c (CkRemoveTask object) = c\<lparr>ck_tasks := fmdrop object (ck_tasks c)\<rparr>"
| "ck_step c (CkReserve object now) = on_timeline object (\<lambda>ft. snd (ft_reserve now ft)) c"
| "ck_step c (CkFinish object identity t) = on_timeline object (ft_finish identity t) c"
| "ck_step c (CkStop object) = on_timeline object (\<lambda>ft. snd (ft_stop ft)) c"

definition ck_default :: "('k, 'q) clocked" where
  "ck_default = \<lparr>ck_subscription = None, ck_armed = False, ck_last_frame_nanos = 0, ck_tasks = fmempty\<rparr>"

definition armed_as :: "bool \<Rightarrow> subscription option \<Rightarrow> bool" where
  "armed_as armed sb \<longleftrightarrow> pred_option (\<lambda>sb. sb_armed sb = armed) sb"

definition ck_inv :: "('k, 'q) clocked \<Rightarrow> bool" where
  "ck_inv c \<longleftrightarrow> armed_as (ck_armed c) (ck_subscription c)
     \<and> (\<forall>object ft. fmlookup (ck_tasks c) object = Some ft \<longrightarrow> armed_as (ck_armed c) (ft_subscription ft))"

lemma armed_as_simps [simp]:
  "armed_as a None" "armed_as a (Some sb) \<longleftrightarrow> sb_armed sb = a"
  by (simp_all add: armed_as_def)

lemma sb_arm_armed [simp]: "sb_armed (snd (sb_arm a sb)) = a"
  by (simp add: sb_arm_def)

lemma ft_arm_armed: "armed_as a (ft_subscription (snd (ft_arm a ft)))"
  by (cases "ft_subscription ft") (auto simp: ft_arm_def on_schedule_def sb_arm_def split: prod.splits)

lemma ft_refresh_armed:
  "armed_as a (ft_subscription ft) \<Longrightarrow> armed_as a (ft_subscription (snd (ft_refresh output a ft)))"
  by (auto simp: ft_refresh_def on_schedule_def sb_new_def Let_def split: option.splits prod.splits)

lemma ft_reserve_subscription: "ft_subscription (snd (ft_reserve now ft)) = ft_subscription ft"
  by (auto simp: ft_reserve_def Let_def split: option.splits prod.splits)

lemma ft_finish_subscription: "ft_subscription (ft_finish i t ft) = ft_subscription ft"
  by (auto simp: ft_finish_def on_schedule_def split: option.splits)

lemma on_timeline_inv:
  assumes "ck_inv c"
    and "\<And>ft. armed_as (ck_armed c) (ft_subscription ft) \<Longrightarrow> armed_as (ck_armed c) (ft_subscription (f ft))"
  shows "ck_inv (on_timeline object f c)"
  using assms by (auto simp: ck_inv_def on_timeline_def split: option.splits)

lemma arm_timelines_inv: "ck_inv (arm_timelines a c)"
  by (auto simp: ck_inv_def arm_timelines_def armed_as_def arm_subscription_def option.pred_map
      ft_arm_armed [unfolded armed_as_def] comp_def) (simp add: option.pred_True)

lemma ck_inv_step: "ck_inv c \<Longrightarrow> ck_inv (ck_step c op)"
proof (cases op)
  case (CkRefresh manager out)
  assume "ck_inv c"
  with CkRefresh show ?thesis
    by (auto simp: ck_inv_def refresh_clock_def sb_new_def split: option.splits)
next
  case (CkFrame now)
  assume "ck_inv c"
  with CkFrame show ?thesis
    by (auto simp: android_frame_def Let_def arm_timelines_inv) (simp_all add: ck_inv_def)
qed (auto intro!: on_timeline_inv
      simp: clock_idle_check_def arm_timelines_inv ft_refresh_armed ft_reserve_subscription
        ft_finish_subscription ft_stop_def on_schedule_def,
     auto simp: ck_inv_def ft_new_def)

text \<open>
  All timelines are armed together: after any sequence of frames, idle checks, output changes and
  task changes, the subscription of the clock and the subscription of every task are armed exactly when
  the clock is, so a disarmed compositor timeline never belongs to an Android that draws.
\<close>

theorem timelines_armed_together:
  fixes ops :: "('k, 'q) clock_op list"
  shows "ck_inv (run_ops ck_step ck_default ops)"
proof -
  have "ck_inv c \<Longrightarrow> ck_inv (run_ops ck_step c ops)" for c :: "('k, 'q) clocked"
    by (induction ops arbitrary: c) (auto simp: ck_inv_step)
  moreover have "ck_inv (ck_default :: ('k, 'q) clocked)"
    by (simp add: ck_inv_def ck_default_def)
  ultimately show ?thesis by blast
qed

end
