(* ===== verification/Layer_Stream.thy ===== *)
theory Layer_Stream
  imports Endpoint Layer_Protocol Frame_Schedule "HOL-Library.Multiset" "HOL-Library.Signed_Division"
begin

section \<open>Direct layers on Wayland subsurfaces\<close>

text \<open>
  The \<open>Stream\<close> of \<open>graphics/droidloom-wayland/src/layers.rs\<close> with \<open>imports.rs\<close>, \<open>fence_wakeup.rs\<close> and
  the \<open>BufferSync\<close> of \<open>main.rs\<close>: the allocations SurfaceFlinger registered, the reads of them that the
  compositor has not finished, the subsurfaces that show them and the transaction that replaces one
  scene by the next.  A read is bound to a point of one lane (a syncobj timeline) of its allocation; its
  ticket is answered when that point is signalled.  Wayland objects are identities, the requests on
  them are recorded in \<open>st_wl\<close>, what is sent on the two sockets in \<open>st_events\<close> and \<open>st_replies\<close>.  A
  panic of the code (\<open>expect\<close>, \<open>unwrap\<close>, \<open>assert!\<close>, an index out of range) is the error \<open>PePanic\<close>.  Not
  modelled: stall reports and timing spans, which only write log lines.
\<close>

subsection \<open>Errors and system interfaces\<close>

type_synonym wl_id = nat

datatype presenter_error =
    PeIo os_error
  | PeToolkitGlobal
  | PeEndpoint endpoint_error
  | PeIpc ipc_error
  | PeListener listener_error
  | PeSyncobj syncobj_error
  | PeUnknownTask task_object_id
  | PeUnknownBuffer task_object_id buffer_id
  | PeGbm
  | PeDmabufV4Required
  | PeNoRenderFormat
  | PeConfiguration string
  | PePanic string

text \<open>The two sockets of a stream, and what the kernel and the Wayland libraries answer per layer.\<close>

record stream_io =
  io_events :: "u8 list \<Rightarrow> (ipc_error, unit) result"
  io_requests :: "u8 list \<Rightarrow> (ipc_error, unit) result"

record view_env =
  ve_drm :: drm_kernel
  ve_proxy :: wl_id
  ve_eventfd :: "(os_error, owned_fd) result"
  ve_wakeup_eventfd :: "(os_error, owned_fd) result"
  ve_drain :: "(os_error, unit) result"
  ve_surface :: wl_id
  ve_region :: bool
  ve_opaque_region :: bool
  ve_feedback :: "wl_id option"
  ve_pixel :: "(os_error, wl_id) result"
  ve_manager :: bool

subsection \<open>Vectors\<close>

definition swap_remove :: "nat \<Rightarrow> 'a list \<Rightarrow> 'a list" where
  "swap_remove i xs = butlast (xs[i := last xs])"

fun position :: "('a \<Rightarrow> bool) \<Rightarrow> 'a list \<Rightarrow> nat option" where
  "position P [] = None"
| "position P (x # xs) = (if P x then Some 0 else map_option Suc (position P xs))"

subsection \<open>Pending imports\<close>

record import_pending =
  ip_buffer :: u64
  ip_attempt :: "u64 option"
  ip_params :: wl_id

definition im_full :: "import_pending list \<Rightarrow> bool" where
  "im_full p = (MAX_IMPORTS \<le> length p)"

definition im_blocked :: "import_pending list \<Rightarrow> bool" where
  "im_blocked p = list_ex (\<lambda>x. ip_attempt x = None) p"

definition im_contains :: "u64 \<Rightarrow> import_pending list \<Rightarrow> bool" where
  "im_contains buffer p = list_ex (\<lambda>x. ip_buffer x = buffer) p"

definition im_insert :: "import_pending \<Rightarrow> import_pending list \<Rightarrow> bool \<times> import_pending list" where
  "im_insert x p =
     (if im_full p \<or> im_blocked p \<or> im_contains (ip_buffer x) p then (False, p) else (True, p @ [x]))"

definition im_finish :: "wl_id \<Rightarrow> import_pending list \<Rightarrow> import_pending option \<times> import_pending list" where
  "im_finish params p =
     (case position (\<lambda>x. ip_params x = params) p of
        None \<Rightarrow> (None, p) | Some i \<Rightarrow> (Some (p ! i), swap_remove i p))"

subsection \<open>Lanes\<close>

record buffer_sync =
  bs_timeline :: timeline
  bs_proxy :: wl_id
  bs_next_point :: u64
  bs_release_wakeup :: "owned_fd option"

record fence_wakeup =
  fw_event :: "owned_fd option"
  fw_unsupported :: bool

record lane =
  ln_sync :: buffer_sync
  ln_availability_wakeup :: fence_wakeup

definition unsupported_errno :: "os_error \<Rightarrow> bool" where
  "unsupported_errno e = (e \<in> {25, 95, 22})" \<comment> \<open>ENOTTY, EOPNOTSUPP, EINVAL\<close>

definition arm_release_wakeup :: "drm_kernel \<Rightarrow> u64 \<Rightarrow> (presenter_error, buffer_sync, unit) op" where
  "arm_release_wakeup k point = (\<lambda>bs.
     case bs_release_wakeup bs of
       None \<Rightarrow> (Inr (), bs)
     | Some event \<Rightarrow>
         case wayland_notify_when_signalled k (bs_timeline bs) point event of
           Inr _ \<Rightarrow> (Inr (), bs)
         | Inl (Drm operation source) \<Rightarrow>
             if unsupported_errno source then (Inr (), bs\<lparr>bs_release_wakeup := None\<rparr>)
             else (Inl (PeSyncobj (Drm operation source)), bs)
         | Inl e \<Rightarrow> (Inl (PeSyncobj e), bs))"

text \<open>
  \<open>FenceWakeup::arm\<close>: the eventfd is created once, drained before each registration (\<open>ve_drain\<close> is the
  first result that is not an interrupted read, with \<open>EAGAIN\<close> as success) and given up when the kernel
  does not support the registration.
\<close>

definition fw_register :: "view_env \<Rightarrow> timeline \<Rightarrow> u64 \<Rightarrow> owned_fd \<Rightarrow> (syncobj_error, fence_wakeup, unit) op" where
  "fw_register env t point event = (\<lambda>fw.
     case ve_drain env of
       Inl e \<Rightarrow> (Inl (Drm ''drain fence availability eventfd'' e), fw)
     | Inr _ \<Rightarrow>
         case wayland_notify_when_available (ve_drm env) t point event of
           Inr _ \<Rightarrow> (Inr (), fw)
         | Inl (Drm operation source) \<Rightarrow>
             if unsupported_errno source then (Inr (), fw\<lparr>fw_unsupported := True, fw_event := None\<rparr>)
             else (Inl (Drm operation source), fw)
         | Inl e \<Rightarrow> (Inl e, fw))"

definition fw_arm :: "view_env \<Rightarrow> timeline \<Rightarrow> u64 \<Rightarrow> (syncobj_error, fence_wakeup, unit) op" where
  "fw_arm env t point = (\<lambda>fw.
     if fw_unsupported fw then (Inr (), fw)
     else case fw_event fw of
       Some event \<Rightarrow> fw_register env t point event fw
     | None \<Rightarrow>
         (case ve_wakeup_eventfd env of
            Inl e \<Rightarrow> (Inl (Drm ''create fence availability eventfd'' e), fw)
          | Inr event \<Rightarrow> fw_register env t point event (fw\<lparr>fw_event := Some event\<rparr>)))"

definition new_lane :: "view_env \<Rightarrow> (presenter_error, lane) result" where
  "new_lane env =
     bind_result (map_err PeSyncobj (wayland_create (ve_drm env))) (\<lambda>t.
     bind_result (map_err PeSyncobj (wayland_export_descriptor (ve_drm env) t)) (\<lambda>_.
     bind_result (map_err PeIo (ve_eventfd env)) (\<lambda>event.
     Inr \<lparr>ln_sync = \<lparr>bs_timeline = t, bs_proxy = ve_proxy env, bs_next_point = 0,
            bs_release_wakeup = Some event\<rparr>,
          ln_availability_wakeup = \<lparr>fw_event = None, fw_unsupported = False\<rparr>\<rparr>)))"

subsection \<open>Allocations and reads\<close>

record layer_source =
  sr_metadata :: layer_buffer
  sr_buffer :: "wl_id option"
  sr_lanes :: "lane list"
  sr_ticket :: "u64 option"

record layer_read =
  lrd_buffer :: u64
  lrd_lane :: nat
  lrd_ticket :: u64
  lrd_point :: u64
  lrd_fence_sent :: bool

definition MAX_LANES :: nat where "MAX_LANES = 4"

definition lane_used :: "u64 \<Rightarrow> layer_read list \<Rightarrow> nat \<Rightarrow> bool" where
  "lane_used ident reads lane = list_ex (\<lambda>r. lrd_buffer r = ident \<and> lrd_lane r = lane) reads"

definition free_lane :: "layer_source \<Rightarrow> u64 \<Rightarrow> layer_read list \<Rightarrow> nat option" where
  "free_lane src ident reads = find (\<lambda>lane. \<not> lane_used ident reads lane) [0..<length (sr_lanes src)]"

definition spare_timeline :: "layer_source \<Rightarrow> u64 \<Rightarrow> layer_read list \<Rightarrow> bool" where
  "spare_timeline src ident reads =
     (length (sr_lanes src) < MAX_LANES \<or> free_lane src ident reads \<noteq> None)"

subsection \<open>Views\<close>

datatype content = ContentBuffer u64 u64 | ContentSolid u32

definition content_new :: "layer \<Rightarrow> content" where
  "content_new l =
     (if ly_buffer l = 0 then ContentSolid (ly_color l) else ContentBuffer (ly_buffer l) (ly_ticket l))"

record geometry =
  ge_above :: "u64 option"
  ge_destination :: "i32 \<times> i32 \<times> i32 \<times> i32"
  ge_source :: "u32 \<times> u32 \<times> u32 \<times> u32"
  ge_transform :: u32
  ge_alpha :: u32
  ge_opaque :: bool

text \<open>
  The \<open>i64\<close> arithmetic of \<open>edge\<close> cannot overflow for 32-bit arguments; the code divides by a physical
  size that the scene check has found positive.
\<close>

definition geometry_edge :: "i32 \<Rightarrow> u32 \<Rightarrow> u32 \<Rightarrow> i32" where
  "geometry_edge v logical physical =
     word_of_int ((sint v * uint logical + uint physical sdiv 2) sdiv uint physical)"

definition at_least_one :: "i32 \<Rightarrow> i32" where
  "at_least_one v = (if sint v < 1 then 1 else v)"

definition geometry_new :: "layer \<Rightarrow> u64 option \<Rightarrow> u32 \<times> u32 \<Rightarrow> u32 \<times> u32 \<Rightarrow> geometry" where
  "geometry_new l beneath logical physical =
     (case ly_destination l of (x, y, w, h) \<Rightarrow>
      let dx = geometry_edge x (fst logical) (fst physical);
          dy = geometry_edge y (snd logical) (snd physical) in
      \<lparr>ge_above = beneath,
       ge_destination = (dx, dy,
         at_least_one (geometry_edge (x + w) (fst logical) (fst physical) - dx),
         at_least_one (geometry_edge (y + h) (snd logical) (snd physical) - dy)),
       ge_source = (if ly_buffer l = 0 then (0, 0, 256, 256) else ly_source l),
       ge_transform = ly_transform l,
       ge_alpha = ly_alpha l,
       ge_opaque = (ly_opaque l \<and> ly_alpha l = - 1)\<rparr>)"

record view =
  vw_surface :: wl_id
  vw_timeline :: bool
  vw_sync :: bool
  vw_content :: "content option"
  vw_solid :: "(u32 \<times> wl_id) option"
  vw_geometry :: "geometry option"

definition view_source :: "view \<Rightarrow> (u64 \<times> u64) option" where
  "view_source v =
     (case vw_content v of Some (ContentBuffer ident ticket) \<Rightarrow> Some (ident, ticket) | _ \<Rightarrow> None)"

text \<open>The requests of the code on its surfaces, each with the surface it is sent on.\<close>

datatype surface_request =
    WlPlaceAbove wl_id wl_id
  | WlPosition wl_id i32 i32
  | WlDestination wl_id i32 i32
  | WlMultiplier wl_id u32
  | WlOpaqueRegion wl_id "(i32 \<times> i32) option"
  | WlTransform wl_id u32
  | WlSource wl_id u32 u32 u32 u32
  | WlTarget wl_id grant_identity
  | WlAcquirePoint wl_id wl_id u64
  | WlReleasePoint wl_id wl_id u64
  | WlAttach wl_id "wl_id option"
  | WlDamage wl_id
  | WlCommit wl_id
  | WlDestroySync wl_id
  | WlFeedback wl_id wl_id
  | WlDestroyBuffer wl_id
  | WlUnsetSource wl_id
  | WlSourceSize wl_id u32 u32
  | WlDestroyToplevel wl_id

definition view_hide :: "view \<Rightarrow> surface_request list \<times> view" where
  "view_hide v =
     (if vw_content v \<noteq> None
      then ([WlAttach (vw_surface v) None, WlCommit (vw_surface v)], v\<lparr>vw_content := None\<rparr>)
      else ([], v))"

subsection \<open>The stream\<close>

record pending_commit =
  pc_scene :: "u64 option"
  pc_serial :: u32
  pc_width :: u32
  pc_height :: u32
  pc_count :: u32

datatype layer_event =
    EvReleaseFence u64 owned_fd
  | EvCompleted u64
  | EvCommitResult u64 i32
  | EvImportResult u64 u64 i32
  | EvConfig "u32 list"

datatype layer_reply = RpAck i32 | RpConfig "u32 list" | RpSubscribed "u32 list"

fun event_bytes :: "layer_event \<Rightarrow> u8 list" where
  "event_bytes (EvReleaseFence ticket fence) = release_fence_record ticket"
| "event_bytes (EvCompleted ticket) = layer_response 0x8003 [low_word ticket, high_word ticket]"
| "event_bytes (EvCommitResult scene code) = commit_result scene code"
| "event_bytes (EvImportResult attempt buffer code) = import_result attempt buffer code"
| "event_bytes (EvConfig words) = layer_response 0x8005 words"

fun reply_bytes :: "layer_reply \<Rightarrow> u8 list" where
  "reply_bytes (RpAck code) = layer_response 0x8001 [code]"
| "reply_bytes (RpConfig words) = layer_response 0x8002 words"
| "reply_bytes (RpSubscribed words) = layer_response 0x8005 words"

record layer_stream =
  st_buffers :: "(u64, layer_source) fmap"
  st_staged :: "owned_fd staging"
  st_waiting :: "pending_commit option"
  st_views :: "(u64, view) fmap"
  st_spare_views :: "view list"
  st_reads :: "layer_read list"
  st_imports :: "import_pending list"
  st_root :: "((u32 \<times> u32) \<times> wl_id) option"
  st_root_logical_size :: "(u32 \<times> u32) option"
  st_active :: bool
  st_connected :: bool
  st_last_ticket :: u64
  st_last_scene :: u64
  st_last_import :: u64
  st_configuration :: config_publisher
  st_events :: "layer_event list"
  st_replies :: "layer_reply list"
  st_wl :: "surface_request list"

type_synonym 'a st_op = "(presenter_error, layer_stream, 'a) op"

definition st_new :: layer_stream where
  "st_new = \<lparr>st_buffers = fmempty, st_staged = stg_default, st_waiting = None, st_views = fmempty,
     st_spare_views = [], st_reads = [], st_imports = [], st_root = None, st_root_logical_size = None,
     st_active = False, st_connected = True, st_last_ticket = 0, st_last_scene = 0,
     st_last_import = 0, st_configuration = cf_default, st_events = [], st_replies = [], st_wl = []\<rparr>"

definition send_event :: "stream_io \<Rightarrow> layer_event \<Rightarrow> unit st_op" where
  "send_event io ev = (\<lambda>s.
     case io_events io (event_bytes ev) of
       Inl e \<Rightarrow> (Inl (PeIpc e), s)
     | Inr _ \<Rightarrow> (Inr (), s\<lparr>st_events := st_events s @ [ev]\<rparr>))"

definition send_reply :: "stream_io \<Rightarrow> layer_reply \<Rightarrow> unit st_op" where
  "send_reply io rp = (\<lambda>s.
     case io_requests io (reply_bytes rp) of
       Inl e \<Rightarrow> (Inl (PeIpc e), s)
     | Inr _ \<Rightarrow> (Inr (), s\<lparr>st_replies := st_replies s @ [rp]\<rparr>))"

definition st_ack :: "stream_io \<Rightarrow> i32 \<Rightarrow> unit st_op" where
  "st_ack io code = send_reply io (RpAck code)"

definition wl :: "surface_request list \<Rightarrow> layer_stream \<Rightarrow> layer_stream" where
  "wl requests s = s\<lparr>st_wl := st_wl s @ requests\<rparr>"

text \<open>The answer to a commit: on the event socket for an asynchronous scene, else an acknowledgement.\<close>

definition answer_commit :: "stream_io \<Rightarrow> u64 option \<Rightarrow> i32 \<Rightarrow> unit st_op" where
  "answer_commit io scene code =
     (case scene of Some ident \<Rightarrow> send_event io (EvCommitResult ident code) | None \<Rightarrow> st_ack io code)"

definition abort_timeline_wait :: "stream_io \<Rightarrow> unit st_op" where
  "abort_timeline_wait io = (\<lambda>s.
     case st_waiting s of
       None \<Rightarrow> (Inr (), s)
     | Some commit \<Rightarrow>
         answer_commit io (pc_scene commit) (- 11)
           (s\<lparr>st_waiting := None, st_staged := stg_clear (st_staged s)\<rparr>))"

definition st_park :: "pending_commit \<Rightarrow> layer_stream \<Rightarrow> layer_stream" where
  "st_park commit s = s\<lparr>st_waiting := Some commit\<rparr>"

definition st_busy :: "layer_stream \<Rightarrow> bool" where
  "st_busy s = (st_reads s \<noteq> [])"

text \<open>The views are visited in the order of their identities.\<close>

definition st_hide :: "layer_stream \<Rightarrow> bool \<times> layer_stream" where
  "st_hide s =
     (if \<not> st_active s then (False, s)
      else (True,
        (wl (concat (map (\<lambda>ident. case fmlookup (st_views s) ident of
                None \<Rightarrow> [] | Some v \<Rightarrow> fst (view_hide v)) (sorted_list_of_fset (fmdom (st_views s)))))
           s)\<lparr>st_views := fmmap (\<lambda>v. snd (view_hide v)) (st_views s), st_active := False\<rparr>))"

text \<open>The descriptors are moved once; decoding has found the fence indices unique and exhaustive.\<close>

fun stage_entries :: "owned_fd option list \<Rightarrow> batch_layer list \<Rightarrow> owned_fd staging \<Rightarrow> owned_fd staging" where
  "stage_entries descriptors [] staged = staged"
| "stage_entries descriptors (entry # rest) staged =
     (case bl_fence_index entry of
        None \<Rightarrow> stage_entries descriptors rest (snd (stg_push (bl_layer entry) None staged))
      | Some i \<Rightarrow> stage_entries (descriptors[i := None]) rest
          (snd (stg_push (bl_layer entry) (descriptors ! i) staged)))"

definition stage_batch :: "batch_layer list \<Rightarrow> owned_fd list \<Rightarrow> layer_stream \<Rightarrow> layer_stream" where
  "stage_batch layers fds s =
     s\<lparr>st_staged := stage_entries (take 4 (map Some fds @ replicate 4 None)) layers (st_staged s)\<rparr>"

subsection \<open>Releasing reads\<close>

definition put_source :: "u64 \<Rightarrow> layer_source \<Rightarrow> layer_stream \<Rightarrow> layer_stream" where
  "put_source ident src s = s\<lparr>st_buffers := fmupd ident src (st_buffers s)\<rparr>"

definition lane_at :: "layer_stream \<Rightarrow> u64 \<Rightarrow> nat \<Rightarrow> (layer_source \<times> lane) option" where
  "lane_at s ident i =
     (case fmlookup (st_buffers s) ident of
        None \<Rightarrow> None
      | Some src \<Rightarrow> if i < length (sr_lanes src) then Some (src, sr_lanes src ! i) else None)"

definition put_lane :: "layer_source \<Rightarrow> nat \<Rightarrow> lane \<Rightarrow> layer_source" where
  "put_lane src i ln = src\<lparr>sr_lanes := (sr_lanes src)[i := ln]\<rparr>"

definition lane_timeline :: "lane \<Rightarrow> timeline" where
  "lane_timeline ln = bs_timeline (ln_sync ln)"

definition set_timeline :: "timeline \<Rightarrow> lane \<Rightarrow> lane" where
  "set_timeline t ln = ln\<lparr>ln_sync := (ln_sync ln)\<lparr>bs_timeline := t\<rparr>\<rparr>"

text \<open>
  The loop that gives one exported fence to every read that shares the point: the events sent and the
  reads marked, up to the first send that fails.
\<close>

fun mark_fences ::
  "stream_io \<Rightarrow> (layer_read \<Rightarrow> bool) \<Rightarrow> owned_fd \<Rightarrow> layer_read list
     \<Rightarrow> (presenter_error, unit) result \<times> layer_read list \<times> layer_event list" where
  "mark_fences io shares fence [] = (Inr (), [], [])"
| "mark_fences io shares fence (r # rs) =
     (if shares r then
        (case io_events io (event_bytes (EvReleaseFence (lrd_ticket r) fence)) of
           Inl e \<Rightarrow> (Inl (PeIpc e), r # rs, [])
         | Inr _ \<Rightarrow>
             (case mark_fences io shares fence rs of
                (res, rs1, evs) \<Rightarrow>
                  (res, r\<lparr>lrd_fence_sent := True\<rparr> # rs1, EvReleaseFence (lrd_ticket r) fence # evs)))
      else (case mark_fences io shares fence rs of (res, rs1, evs) \<Rightarrow> (res, r # rs1, evs)))"

definition shares_point :: "layer_read \<Rightarrow> layer_read \<Rightarrow> bool" where
  "shares_point read r \<longleftrightarrow> lrd_buffer r = lrd_buffer read \<and> lrd_lane r = lrd_lane read
     \<and> lrd_point r = lrd_point read \<and> \<not> lrd_fence_sent r"

definition export_fence ::
  "stream_io \<Rightarrow> drm_kernel \<Rightarrow> layer_read \<Rightarrow> layer_source \<Rightarrow> lane \<Rightarrow> unit st_op" where
  "export_fence io k read src ln = (\<lambda>s.
     case wayland_try_export_release_fence k (lane_timeline ln) (lrd_point read) of
       (outcome, t1) \<Rightarrow>
         let s1 = put_source (lrd_buffer read) (put_lane src (lrd_lane read) (set_timeline t1 ln)) s in
         case outcome of
           Inl e \<Rightarrow> (Inl (PeSyncobj e), s1)
         | Inr None \<Rightarrow> (Inr (), s1)
         | Inr (Some fence) \<Rightarrow>
             (case mark_fences io (shares_point read) fence (st_reads s1) of
                (res, reads, evs) \<Rightarrow> (res, s1\<lparr>st_reads := reads, st_events := st_events s1 @ evs\<rparr>)))"

text \<open>A disconnected peer gets its completion too, if it can still be sent.\<close>

definition send_completed :: "stream_io \<Rightarrow> u64 \<Rightarrow> unit st_op" where
  "send_completed io ticket = (\<lambda>s.
     if st_connected s then send_event io (EvCompleted ticket) s
     else (Inr (), snd (send_event io (EvCompleted ticket) s)))"

definition drop_read :: "nat \<Rightarrow> layer_read \<Rightarrow> layer_source \<Rightarrow> layer_stream \<Rightarrow> layer_stream" where
  "drop_read index read src s =
     (put_source (lrd_buffer read)
        (if sr_ticket src = Some (lrd_ticket read) then src\<lparr>sr_ticket := None\<rparr> else src) s)
     \<lparr>st_reads := swap_remove index (st_reads s)\<rparr>"

text \<open>One turn of the loop: whether the read was removed.\<close>

definition release_read :: "stream_io \<Rightarrow> drm_kernel \<Rightarrow> nat \<Rightarrow> bool st_op" where
  "release_read io k index = (\<lambda>s.
     let read = st_reads s ! index in
     case lane_at s (lrd_buffer read) (lrd_lane read) of
       None \<Rightarrow> (Inl (PePanic ''read owns source''), s)
     | Some (src, ln) \<Rightarrow>
         op_bind (if st_connected s \<and> \<not> lrd_fence_sent read then export_fence io k read src ln
                  else op_return ())
           (\<lambda>_ s1.
              case lane_at s1 (lrd_buffer read) (lrd_lane read) of
                None \<Rightarrow> (Inl (PePanic ''read owns source''), s1)
              | Some (src1, ln1) \<Rightarrow>
                  case wayland_signalled_point k (lane_timeline ln1) of
                    Inl e \<Rightarrow> (Inl (PeSyncobj e), s1)
                  | Inr signalled \<Rightarrow>
                      if signalled < lrd_point read then (Inr False, s1)
                      else op_bind (send_completed io (lrd_ticket read))
                        (\<lambda>_ s2. (Inr True, drop_read index read src1 s2)) s1) s)"

lemma length_swap_remove [simp]: "length (swap_remove i xs) = length xs - 1"
  by (simp add: swap_remove_def)

lemma length_mark_fences:
  "mark_fences io P fence rs = (res, rs1, evs) \<Longrightarrow> length rs1 = length rs"
  by (induction rs arbitrary: res rs1 evs) (auto split: if_splits sum.splits prod.splits)

lemma export_fence_length: "length (st_reads (snd (export_fence io k read src ln s))) = length (st_reads s)"
  by (auto simp: export_fence_def put_source_def Let_def dest: length_mark_fences
      split: prod.splits sum.splits option.splits)

lemma send_event_reads [simp]: "st_reads (snd (send_event io ev s)) = st_reads s"
  by (simp add: send_event_def split: sum.split)

lemma send_completed_reads [simp]: "st_reads (snd (send_completed io ticket s)) = st_reads s"
  by (simp add: send_completed_def)

lemma release_read_length:
  assumes "release_read io k index s = (Inr b, s1)"
  shows "length (st_reads s1) = (if b then length (st_reads s) - 1 else length (st_reads s))"
proof -
  have e: "length (st_reads s') = length (st_reads s)"
    if "export_fence io k r src ln s = (q, s')" for r src ln q s'
    using export_fence_length [of io k r src ln s] that by simp
  have c: "st_reads s'' = st_reads s'" if "send_completed io t s' = (q, s'')" for t q s' s''
    using send_completed_reads [of io t s'] that by simp
  show ?thesis
    using assms
    by (auto simp: release_read_def Let_def op_bind_def op_return_def drop_read_def put_source_def
        dest!: e c split: option.splits prod.splits sum.splits if_splits)
qed

function release_from ::
  "stream_io \<Rightarrow> (nat \<Rightarrow> drm_kernel) \<Rightarrow> nat \<Rightarrow> nat \<Rightarrow> layer_stream
     \<Rightarrow> (presenter_error, unit) result \<times> layer_stream" where
  "release_from io k n index s =
     (if index < length (st_reads s) then
        (case release_read io (k n) index s of
           (Inl e, s1) \<Rightarrow> (Inl e, s1)
         | (Inr True, s1) \<Rightarrow> release_from io k (Suc n) index s1
         | (Inr False, s1) \<Rightarrow> release_from io k (Suc n) (Suc index) s1)
      else (Inr (), s))"
  by pat_completeness auto
termination
  by (relation "measure (\<lambda>(io, k, n, index, s). length (st_reads s) - index)")
    (auto dest!: release_read_length [OF sym])

declare release_from.simps [simp del]

definition stream_release :: "stream_io \<Rightarrow> (nat \<Rightarrow> drm_kernel) \<Rightarrow> unit st_op" where
  "stream_release io k = (\<lambda>s. release_from io k 0 0 s)"

subsection \<open>Showing a scene\<close>

record scene_feedback =
  fb_proxy :: wl_id
  fb_scene :: u64
  fb_configure_serial :: u32
  fb_grant :: "grant_identity option"

text \<open>What the layers of one transaction share.\<close>

record scene_context =
  cx_logical :: "u32 \<times> u32"
  cx_physical :: "u32 \<times> u32"
  cx_root :: wl_id
  cx_feedback_layer :: "u64 option"
  cx_target :: "grant_identity option"
  cx_scene :: "u64 option"
  cx_configure_serial :: u32
  cx_alpha :: bool \<comment> \<open>the compositor has the alpha modifier\<close>

text \<open>The view a layer is applied to, the stream and the feedback list of the task.\<close>

record layer_txn =
  tx_view :: view
  tx_stream :: layer_stream
  tx_feedback :: "scene_feedback list"

type_synonym 'a tx_op = "(presenter_error, layer_txn, 'a) op"

definition tx_wl :: "surface_request list \<Rightarrow> layer_txn \<Rightarrow> layer_txn" where
  "tx_wl requests x = x\<lparr>tx_stream := wl requests (tx_stream x)\<rparr>"

definition tx_on_stream :: "'a st_op \<Rightarrow> 'a tx_op" where
  "tx_on_stream f = op_on tx_stream (\<lambda>s x. x\<lparr>tx_stream := s\<rparr>) (\<lambda>e. e) f"

text \<open>A loop whose first error ends it.\<close>

fun op_each :: "('a \<Rightarrow> ('e, 's, unit) op) \<Rightarrow> 'a list \<Rightarrow> ('e, 's, unit) op" where
  "op_each f [] = op_return ()"
| "op_each f (x # xs) = op_bind (f x) (\<lambda>_. op_each f xs)"

definition recycle_one :: "u64 \<Rightarrow> unit st_op" where
  "recycle_one ident = (\<lambda>s.
     case fmlookup (st_views s) ident of
       None \<Rightarrow> (Inl (PePanic ''removed view exists''), s)
     | Some v \<Rightarrow>
         (case view_hide v of (requests, v1) \<Rightarrow>
            (Inr (), wl requests (s\<lparr>st_views := fmdrop ident (st_views s),
              st_spare_views := st_spare_views s @ [v1\<lparr>vw_geometry := None\<rparr>]\<rparr>))))"

definition recycle_views :: "u64 set \<Rightarrow> unit st_op" where
  "recycle_views ids = (\<lambda>s.
     op_each recycle_one (filter (\<lambda>ident. ident \<notin> ids) (sorted_list_of_fset (fmdom (st_views s)))) s)"

definition put_view :: "u64 \<Rightarrow> view \<Rightarrow> layer_stream \<Rightarrow> layer_stream" where
  "put_view ident v s = s\<lparr>st_views := fmupd ident v (st_views s)\<rparr>"

text \<open>A new view: its subsurface is synchronised and takes no input; those two requests are fixed.\<close>

definition new_view :: "view_env \<Rightarrow> view" where
  "new_view env = \<lparr>vw_surface = ve_surface env, vw_timeline = ve_manager env, vw_sync = False,
     vw_content = None, vw_solid = None, vw_geometry = None\<rparr>"

definition view_for_layer :: "view_env \<Rightarrow> bool \<Rightarrow> u64 \<Rightarrow> view st_op" where
  "view_for_layer env alpha ident = (\<lambda>s.
     case fmlookup (st_views s) ident of
       Some v \<Rightarrow> (Inr v, s)
     | None \<Rightarrow>
         if st_spare_views s \<noteq> [] then
           let v = last (st_spare_views s) in
           (Inr v, put_view ident v (s\<lparr>st_spare_views := butlast (st_spare_views s)\<rparr>))
         else if \<not> alpha then (Inl (PePanic ''unwrap''), s)
         else if \<not> ve_region env then (Inl PeToolkitGlobal, s)
         else (Inr (new_view env), put_view ident (new_view env) s))"

definition apply_geometry :: "view_env \<Rightarrow> wl_id \<Rightarrow> geometry \<Rightarrow> unit tx_op" where
  "apply_geometry env previous g = (\<lambda>x.
     let surface = vw_surface (tx_view x) in
     case ge_destination g of (dx, dy, dw, dh) \<Rightarrow>
     case ge_source g of (sx, sy, sw, sh) \<Rightarrow>
     let x1 = tx_wl [WlPlaceAbove surface previous, WlPosition surface dx dy,
                WlDestination surface dw dh, WlMultiplier surface (ge_alpha g)] x in
     if ge_opaque g \<and> \<not> ve_opaque_region env then (Inl PeToolkitGlobal, x1)
     else
       let x2 = tx_wl [WlOpaqueRegion surface (if ge_opaque g then Some (dw, dh) else None)] x1 in
       if 7 < ge_transform g then (Inl (PeConfiguration ''layer transform''), x2)
       else (Inr (), tx_wl [WlTransform surface (ge_transform g), WlSource surface sx sy sw sh] x2))"

text \<open>A solid layer shows a buffer of one pixel, made again only when the colour changes.\<close>

definition apply_solid :: "view_env \<Rightarrow> u32 \<Rightarrow> unit tx_op" where
  "apply_solid env color = (\<lambda>x.
     let v = tx_view x; surface = vw_surface v;
         x1 = (if vw_sync v then tx_wl [WlDestroySync surface] (x\<lparr>tx_view := v\<lparr>vw_sync := False\<rparr>\<rparr>) else x)
     in
       case vw_solid v of
         Some (old, buffer) \<Rightarrow>
           if old = color then (Inr (), tx_wl [WlAttach surface (Some buffer)] x1)
           else (case ve_pixel env of
                   Inl e \<Rightarrow> (Inl (PeIo e), x1)
                 | Inr fresh \<Rightarrow> (Inr (), tx_wl [WlDestroyBuffer buffer, WlAttach surface (Some fresh)]
                     (x1\<lparr>tx_view := (tx_view x1)\<lparr>vw_solid := Some (color, fresh)\<rparr>\<rparr>)))
       | None \<Rightarrow>
           (case ve_pixel env of
              Inl e \<Rightarrow> (Inl (PeIo e), x1)
            | Inr fresh \<Rightarrow> (Inr (), tx_wl [WlAttach surface (Some fresh)]
                (x1\<lparr>tx_view := (tx_view x1)\<lparr>vw_solid := Some (color, fresh)\<rparr>\<rparr>))))"

definition acquire_lane :: "view_env \<Rightarrow> u64 \<Rightarrow> layer_read list \<Rightarrow> (presenter_error, layer_source, nat) op" where
  "acquire_lane env ident reads = (\<lambda>src.
     case free_lane src ident reads of
       Some i \<Rightarrow> (Inr i, src)
     | None \<Rightarrow>
         case new_lane env of
           Inl e \<Rightarrow> (Inl e, src)
         | Inr ln \<Rightarrow> (Inr (length (sr_lanes src)), src\<lparr>sr_lanes := sr_lanes src @ [ln]\<rparr>))"

definition arm_lane :: "view_env \<Rightarrow> u64 \<Rightarrow> (presenter_error, lane, unit) op" where
  "arm_lane env point =
     op_bind (op_on ln_sync (\<lambda>bs ln. ln\<lparr>ln_sync := bs\<rparr>) (\<lambda>e. e) (arm_release_wakeup (ve_drm env) point))
       (\<lambda>_ ln. op_on ln_availability_wakeup (\<lambda>fw ln. ln\<lparr>ln_availability_wakeup := fw\<rparr>) PeSyncobj
          (fw_arm env (lane_timeline ln) point) ln)"

text \<open>The points of a new read on a lane: the acquire point, then the release point.\<close>

definition start_on_lane :: "view_env \<Rightarrow> owned_fd option \<Rightarrow> (presenter_error, lane, u64 \<times> u64) op" where
  "start_on_lane env acquire = (\<lambda>ln.
     case checked_add (bs_next_point (ln_sync ln)) 1 of
       None \<Rightarrow> (Inl (PeConfiguration ''layer timeline exhausted''), ln)
     | Some acquire_point \<Rightarrow>
         case checked_add acquire_point 1 of
           None \<Rightarrow> (Inl (PeConfiguration ''layer timeline exhausted''), ln)
         | Some release \<Rightarrow>
             case (case acquire of
                     Some fd \<Rightarrow> wayland_import_acquire_fence (ve_drm env) (lane_timeline ln) acquire_point fd
                   | None \<Rightarrow> wayland_signal_acquire (ve_drm env) (lane_timeline ln) acquire_point) of
               (Inl e, t1) \<Rightarrow> (Inl (PeSyncobj e), set_timeline t1 ln)
             | (Inr _, t1) \<Rightarrow>
                 let ln1 = set_timeline t1 ln;
                     ln2 = ln1\<lparr>ln_sync := (ln_sync ln1)\<lparr>bs_next_point := release\<rparr>\<rparr>
                 in op_bind (arm_lane env release) (\<lambda>_. op_return (acquire_point, release)) ln2)"

definition add_read :: "layer_read \<Rightarrow> layer_stream \<Rightarrow> layer_stream" where
  "add_read read s =
     s\<lparr>st_last_ticket := max (st_last_ticket s) (lrd_ticket read), st_reads := st_reads s @ [read]\<rparr>"

definition start_read :: "view_env \<Rightarrow> layer \<Rightarrow> owned_fd option \<Rightarrow> unit tx_op" where
  "start_read env l acquire = (\<lambda>x.
     let s = tx_stream x; surface = vw_surface (tx_view x) in
     case fmlookup (st_buffers s) (ly_buffer l) of
       None \<Rightarrow> (Inl (PePanic ''unwrap''), x)
     | Some src \<Rightarrow>
         case acquire_lane env (ly_buffer l) (st_reads s) src of
           (Inl e, src1) \<Rightarrow> (Inl e, x\<lparr>tx_stream := put_source (ly_buffer l) src1 s\<rparr>)
         | (Inr i, src1) \<Rightarrow>
             case start_on_lane env acquire (sr_lanes src1 ! i) of
               (outcome, ln) \<Rightarrow>
                 let src2 = put_lane src1 i ln in
                 case outcome of
                   Inl e \<Rightarrow> (Inl e, x\<lparr>tx_stream := put_source (ly_buffer l) src2 s\<rparr>)
                 | Inr (acquire_point, release) \<Rightarrow>
                     (Inr (), tx_wl [WlAcquirePoint surface (bs_proxy (ln_sync ln)) acquire_point,
                                WlReleasePoint surface (bs_proxy (ln_sync ln)) release,
                                WlAttach surface (sr_buffer src2)]
                        (x\<lparr>tx_view := (tx_view x)\<lparr>vw_sync := True\<rparr>,
                           tx_stream := add_read \<lparr>lrd_buffer = ly_buffer l, lrd_lane = i,
                               lrd_ticket = ly_ticket l, lrd_point = release, lrd_fence_sent = False\<rparr>
                             (put_source (ly_buffer l) (src2\<lparr>sr_ticket := Some (ly_ticket l)\<rparr>) s)\<rparr>)))"

definition relabel_read :: "layer \<Rightarrow> u64 \<Rightarrow> unit tx_op" where
  "relabel_read l held = (\<lambda>x.
     let s = tx_stream x in
     case fmlookup (st_buffers s) (ly_buffer l) of
       None \<Rightarrow> (Inl (PePanic ''unwrap''), x)
     | Some src \<Rightarrow>
         case find (\<lambda>r. lrd_buffer r = ly_buffer l \<and> lrd_ticket r = held) (st_reads s) of
           None \<Rightarrow> (Inl (PeConfiguration ''relabelled layer read is not outstanding''), x)
         | Some r \<Rightarrow>
             (Inr (), x\<lparr>tx_stream := add_read (r\<lparr>lrd_ticket := ly_ticket l\<rparr>)
                (put_source (ly_buffer l) (src\<lparr>sr_ticket := Some (ly_ticket l)\<rparr>) s)\<rparr>))"

definition held_ticket :: "layer \<Rightarrow> layer_stream \<Rightarrow> u64 option" where
  "held_ticket l s =
     (case Option.bind (fmlookup (st_buffers s) (ly_buffer l)) sr_ticket of
        Some held \<Rightarrow> if held \<noteq> ly_ticket l then Some held else None
      | None \<Rightarrow> None)"

definition relabels :: "layer \<Rightarrow> view \<Rightarrow> layer_stream \<Rightarrow> u64 option" where
  "relabels l v s =
     (case held_ticket l s of
        Some held \<Rightarrow> if view_source v = Some (ly_buffer l, held) then Some held else None
      | None \<Rightarrow> None)"

definition is_new_read :: "layer \<Rightarrow> view \<Rightarrow> layer_stream \<Rightarrow> bool" where
  "is_new_read l v s \<longleftrightarrow> ly_buffer l \<noteq> 0 \<and> relabels l v s = None
     \<and> (case fmlookup (st_buffers s) (ly_buffer l) of
          None \<Rightarrow> False | Some src \<Rightarrow> sr_ticket src \<noteq> Some (ly_ticket l))"

definition apply_content :: "view_env \<Rightarrow> layer \<Rightarrow> owned_fd option \<Rightarrow> bool \<Rightarrow> u64 option \<Rightarrow> unit tx_op" where
  "apply_content env l acquire fresh_read relabel =
     (if ly_buffer l = 0 then apply_solid env (ly_color l)
      else if fresh_read then start_read env l acquire
      else case relabel of
        Some held \<Rightarrow> relabel_read l held
      | None \<Rightarrow> (\<lambda>x. if ly_buffer l |\<in>| fmdom (st_buffers (tx_stream x)) then (Inr (), x)
                    else (Inl (PePanic ''unwrap''), x)))"

definition request_feedback :: "view_env \<Rightarrow> scene_context \<Rightarrow> layer \<Rightarrow> unit tx_op" where
  "request_feedback env cx l = (\<lambda>x.
     if cx_feedback_layer cx = Some (ly_id l) then
       (case ve_feedback env of
          None \<Rightarrow> (Inl PeToolkitGlobal, x)
        | Some proxy \<Rightarrow>
            (Inr (), tx_wl [WlFeedback (vw_surface (tx_view x)) proxy]
               (x\<lparr>tx_feedback := tx_feedback x @ [\<lparr>fb_proxy = proxy,
                  fb_scene = (case cx_scene cx of None \<Rightarrow> 0 | Some n \<Rightarrow> n),
                  fb_configure_serial = cx_configure_serial cx, fb_grant = cx_target cx\<rparr>]\<rparr>)))
     else (Inr (), x))"

text \<open>The closure that \<open>commit_layers\<close> passes to \<open>View::update\<close>.\<close>

definition apply_layer ::
  "view_env \<Rightarrow> scene_context \<Rightarrow> wl_id \<Rightarrow> layer \<Rightarrow> owned_fd option \<Rightarrow> geometry \<Rightarrow> bool \<Rightarrow> unit tx_op" where
  "apply_layer env cx previous l acquire g geometry_changed =
     op_bind (request_feedback env cx l) (\<lambda>_ x.
     let relabel = relabels l (tx_view x) (tx_stream x);
         fresh_read = is_new_read l (tx_view x) (tx_stream x);
         x1 = (case cx_target cx of
                 Some grant \<Rightarrow> if (ly_buffer l = 0 \<or> fresh_read) \<and> vw_timeline (tx_view x)
                   then tx_wl [WlTarget (vw_surface (tx_view x)) grant] x else x
               | None \<Rightarrow> x)
     in op_bind (if geometry_changed then apply_geometry env previous g else op_return ())
          (\<lambda>_. apply_content env l acquire fresh_read relabel) x1)"

definition update_view ::
  "view_env \<Rightarrow> scene_context \<Rightarrow> wl_id \<Rightarrow> layer \<Rightarrow> owned_fd option \<Rightarrow> geometry \<Rightarrow> unit tx_op" where
  "update_view env cx previous l acquire g = (\<lambda>x.
     let geometry_changed = (vw_geometry (tx_view x) \<noteq> Some g) in
     if \<not> geometry_changed \<and> vw_content (tx_view x) = Some (content_new l) then (Inr (), x)
     else op_bind (apply_layer env cx previous l acquire g geometry_changed) (\<lambda>_ x1.
       let surface = vw_surface (tx_view x1) in
       (Inr (), tx_wl [WlDamage surface, WlCommit surface]
          (x1\<lparr>tx_view := (tx_view x1)\<lparr>vw_geometry := Some g, vw_content := Some (content_new l)\<rparr>\<rparr>))) x)"

text \<open>One layer: its view is found or made, changed in place, and becomes the one below the next.\<close>

definition show_layer ::
  "view_env \<Rightarrow> scene_context \<Rightarrow> wl_id \<Rightarrow> u64 option \<Rightarrow> layer \<times> owned_fd option
     \<Rightarrow> (presenter_error, layer_stream \<times> scene_feedback list, wl_id) op" where
  "show_layer env cx previous previous_id staged = (\<lambda>(s, fb).
     case staged of (l, acquire) \<Rightarrow>
     case view_for_layer env (cx_alpha cx) (ly_id l) s of
       (Inl e, s1) \<Rightarrow> (Inl e, (s1, fb))
     | (Inr v, s1) \<Rightarrow>
         case update_view env cx previous l acquire
             (geometry_new l previous_id (cx_logical cx) (cx_physical cx))
             \<lparr>tx_view = v, tx_stream = s1, tx_feedback = fb\<rparr> of
           (outcome, x) \<Rightarrow>
             let s2 = put_view (ly_id l) (tx_view x) (tx_stream x) in
             (case outcome of
                Inl e \<Rightarrow> (Inl e, (s2, tx_feedback x))
              | Inr _ \<Rightarrow> (Inr (vw_surface (tx_view x)), (s2, tx_feedback x))))"

fun show_layers ::
  "(nat \<Rightarrow> view_env) \<Rightarrow> scene_context \<Rightarrow> nat \<Rightarrow> wl_id \<Rightarrow> u64 option \<Rightarrow> (layer \<times> owned_fd option) list
     \<Rightarrow> (presenter_error, layer_stream \<times> scene_feedback list, unit) op" where
  "show_layers env cx n previous previous_id [] = op_return ()"
| "show_layers env cx n previous previous_id (staged # rest) =
     op_bind (show_layer (env n) cx previous previous_id staged) (\<lambda>surface.
     show_layers env cx (Suc n) surface (Some (ly_id (fst staged))) rest)"

end
