(* ===== verification/Window_Policy.thy ===== *)
theory Window_Policy
  imports Prelude "HOL-Library.List_Lexorder"
begin

section \<open>Initial geometry of windows\<close>

text \<open>
  \<open>runtime/droidloom-window-policy/src/lib.rs\<close>: the launch preferences a user sets per application, the
  sizes remembered from earlier sessions, and the size of a window whose first configure leaves it to
  the client.  Reading and writing the JSON documents goes through \<open>serde_json\<close> and the file system:
  what \<open>read_document\<close> and \<open>write_document\<close> answer is an argument.
\<close>

definition WP_SCHEMA :: u32 where "WP_SCHEMA = 1"
definition MAX_APPLICATIONS :: nat where "MAX_APPLICATIONS = 4096"
definition WP_MAX_DIMENSION :: u32 where "WP_MAX_DIMENSION = 16384"

datatype session_mode = Desktop | Mobile

datatype wp_error =
    WpMissingHome
  | WpNotPersistent
  | WpInvalid string
  | WpIo string
  | WpJson

definition session_mode_from_str :: "string \<Rightarrow> (wp_error, session_mode) result" where
  "session_mode_from_str v =
     (if v = ''desktop'' then Inr Desktop else if v = ''mobile'' then Inr Mobile
      else Inl (WpInvalid ''mode must be desktop or mobile''))"

definition session_mode_as_str :: "session_mode \<Rightarrow> string" where
  "session_mode_as_str m = (case m of Desktop \<Rightarrow> ''desktop'' | Mobile \<Rightarrow> ''mobile'')"

record logical_size =
  lg_width :: u32
  lg_height :: u32

definition PORTABLE_WINDOWED_DEFAULT :: logical_size where
  "PORTABLE_WINDOWED_DEFAULT = \<lparr>lg_width = 480, lg_height = 800\<rparr>"

definition size_validate :: "logical_size \<Rightarrow> (wp_error, unit) result" where
  "size_validate s = reject_if (lg_width s = 0 \<or> lg_height s = 0
       \<or> WP_MAX_DIMENSION < lg_width s \<or> WP_MAX_DIMENSION < lg_height s)
     (WpInvalid ''window size is out of range'')"

definition logical_size_new :: "u32 \<Rightarrow> u32 \<Rightarrow> (wp_error, logical_size) result" where
  "logical_size_new width height =
     (let v = \<lparr>lg_width = width, lg_height = height\<rparr> in
      bind_result (size_validate v) (\<lambda>_. Inr v))"

definition clamped_to :: "logical_size option \<Rightarrow> logical_size \<Rightarrow> logical_size" where
  "clamped_to bounds s =
     (case bounds of
        None \<Rightarrow> s
      | Some b \<Rightarrow> \<lparr>lg_width = min (lg_width s) (lg_width b), lg_height = min (lg_height s) (lg_height b)\<rparr>)"

datatype launch_mode = FitOutput | Windowed

record window_preference =
  pref_mode :: launch_mode
  pref_size :: "logical_size option"

definition fit_output :: window_preference where
  "fit_output = \<lparr>pref_mode = FitOutput, pref_size = None\<rparr>"

definition windowed :: "logical_size \<Rightarrow> window_preference" where
  "windowed s = \<lparr>pref_mode = Windowed, pref_size = Some s\<rparr>"

definition pref_validate :: "window_preference \<Rightarrow> (wp_error, unit) result" where
  "pref_validate p =
     (case (pref_mode p, pref_size p) of
        (FitOutput, None) \<Rightarrow> Inr ()
      | (Windowed, Some s) \<Rightarrow> size_validate s
      | (FitOutput, Some _) \<Rightarrow> Inl (WpInvalid ''fit_output preference must not contain a fixed size'')
      | (Windowed, None) \<Rightarrow> Inl (WpInvalid ''windowed preference requires a fixed size''))"

definition pref_default :: window_preference where
  "pref_default = windowed PORTABLE_WINDOWED_DEFAULT"

record policy_document =
  pd_schema :: u32
  pd_default :: window_preference
  pd_applications :: "(rust_string, window_preference) fmap"

record state_document =
  sd_schema :: u32
  sd_applications :: "(rust_string, logical_size) fmap"

definition pd_new :: policy_document where
  "pd_new = \<lparr>pd_schema = WP_SCHEMA, pd_default = pref_default, pd_applications = fmempty\<rparr>"

definition sd_new :: state_document where
  "sd_new = \<lparr>sd_schema = WP_SCHEMA, sd_applications = fmempty\<rparr>"

definition validate_schema :: "u32 \<Rightarrow> (wp_error, unit) result" where
  "validate_schema schema = reject_if (schema \<noteq> WP_SCHEMA) (WpInvalid ''unsupported schema'')"

definition DOT :: u8 where "DOT = 46"
definition UNDERSCORE :: u8 where "UNDERSCORE = 95"

text \<open>\<open>split('.')\<close> yields one piece more than there are dots.\<close>

definition validate_package :: "rust_string \<Rightarrow> (wp_error, unit) result" where
  "validate_package package =
     reject_if (\<not> (package \<noteq> [] \<and> length package \<le> 255
         \<and> 2 \<le> length (filter (\<lambda>b. b = DOT) package) + 1
         \<and> list_all (\<lambda>b. is_ascii_alphanumeric b \<or> b = DOT \<or> b = UNDERSCORE) package))
       (WpInvalid ''invalid Android package'')"

fun validate_entries :: "('v \<Rightarrow> (wp_error, unit) result) \<Rightarrow> (rust_string \<times> 'v) list \<Rightarrow> (wp_error, unit) result" where
  "validate_entries f [] = Inr ()"
| "validate_entries f ((package, v) # rest) =
     bind_result (validate_package package) (\<lambda>_. bind_result (f v) (\<lambda>_. validate_entries f rest))"

definition fm_entries :: "(rust_string, 'v) fmap \<Rightarrow> (rust_string \<times> 'v) list" where
  "fm_entries m = map (\<lambda>k. (k, the (fmlookup m k))) (sorted_list_of_fset (fmdom m))"

definition validate_map ::
  "(rust_string, 'v) fmap \<Rightarrow> ('v \<Rightarrow> (wp_error, unit) result) \<Rightarrow> (wp_error, unit) result" where
  "validate_map m f =
     bind_result (reject_if (MAX_APPLICATIONS < fmlen m) (WpInvalid ''document exceeds the application limit''))
       (\<lambda>_. validate_entries f (fm_entries m))"

definition pd_validate :: "policy_document \<Rightarrow> (wp_error, unit) result" where
  "pd_validate d =
     bind_result (validate_schema (pd_schema d)) (\<lambda>_.
     bind_result (pref_validate (pd_default d)) (\<lambda>_. validate_map (pd_applications d) pref_validate))"

definition sd_validate :: "state_document \<Rightarrow> (wp_error, unit) result" where
  "sd_validate d =
     bind_result (validate_schema (sd_schema d)) (\<lambda>_. validate_map (sd_applications d) size_validate)"

subsection \<open>The store\<close>

text \<open>\<open>wp_persistent\<close>: the store has its two paths.\<close>

record window_policy =
  wp_persistent :: bool
  wp_policy :: policy_document
  wp_state :: state_document
  wp_mode :: session_mode

definition unwrap_or :: "'a \<Rightarrow> 'a option \<Rightarrow> 'a" where
  "unwrap_or d m = (case m of None \<Rightarrow> d | Some x \<Rightarrow> x)"

definition wp_load ::
  "(wp_error, policy_document option) result \<Rightarrow> (wp_error, state_document option) result
     \<Rightarrow> (wp_error, window_policy) result" where
  "wp_load configuration state =
     bind_result configuration (\<lambda>c. bind_result state (\<lambda>s.
     let policy = unwrap_or pd_new c; stored = unwrap_or sd_new s in
     bind_result (pd_validate policy) (\<lambda>_. bind_result (sd_validate stored) (\<lambda>_.
     Inr \<lparr>wp_persistent = True, wp_policy = policy, wp_state = stored, wp_mode = Desktop\<rparr>))))"

definition wp_ephemeral :: window_policy where
  "wp_ephemeral = \<lparr>wp_persistent = False, wp_policy = pd_new, wp_state = sd_new, wp_mode = Desktop\<rparr>"

definition with_session_mode :: "session_mode \<Rightarrow> window_policy \<Rightarrow> window_policy" where
  "with_session_mode m w = w\<lparr>wp_mode := m\<rparr>"

definition reload_policy ::
  "(wp_error, policy_document option) result \<Rightarrow> (wp_error, window_policy, unit) op" where
  "reload_policy configuration = (\<lambda>w.
     if \<not> wp_persistent w then (Inr (), w)
     else case bind_result configuration (\<lambda>c.
            let policy = unwrap_or pd_new c in bind_result (pd_validate policy) (\<lambda>_. Inr policy)) of
       Inl e \<Rightarrow> (Inl e, w)
     | Inr policy \<Rightarrow> (Inr (), w\<lparr>wp_policy := policy\<rparr>))"

definition valid_size :: "logical_size \<Rightarrow> bool" where
  "valid_size s \<longleftrightarrow> is_ok (size_validate s)"

definition only_valid :: "logical_size option \<Rightarrow> logical_size option" where
  "only_valid m = (case m of Some s \<Rightarrow> if valid_size s then Some s else None | None \<Rightarrow> None)"

definition or_else :: "'a option \<Rightarrow> 'a option \<Rightarrow> 'a option" where
  "or_else a b = (case a of Some x \<Rightarrow> Some x | None \<Rightarrow> b)"

definition resolve_preference ::
  "window_preference \<Rightarrow> logical_size option \<Rightarrow> logical_size option \<Rightarrow> logical_size" where
  "resolve_preference p bounds out =
     (case pref_mode p of
        FitOutput \<Rightarrow> unwrap_or PORTABLE_WINDOWED_DEFAULT (or_else bounds (only_valid out))
      | Windowed \<Rightarrow> clamped_to bounds (unwrap_or PORTABLE_WINDOWED_DEFAULT (pref_size p)))"

definition initial_bounds :: "logical_size option \<Rightarrow> logical_size option \<Rightarrow> logical_size option" where
  "initial_bounds suggested out = or_else (only_valid suggested) (only_valid out)"

definition initial_base ::
  "window_policy \<Rightarrow> rust_string \<Rightarrow> logical_size option \<Rightarrow> logical_size option \<Rightarrow> logical_size" where
  "initial_base w package bounds out =
     (let dflt = (if wp_mode w = Mobile then fit_output else pd_default (wp_policy w)) in
      case fmlookup (pd_applications (wp_policy w)) package of
        Some p \<Rightarrow> resolve_preference p bounds out
      | None \<Rightarrow>
          (case pref_mode dflt of
             FitOutput \<Rightarrow> resolve_preference dflt bounds out
           | Windowed \<Rightarrow>
               (case fmlookup (sd_applications (wp_state w)) package of
                  None \<Rightarrow> resolve_preference dflt bounds out
                | Some remembered \<Rightarrow> clamped_to bounds remembered)))"

definition resolve_initial ::
  "window_policy \<Rightarrow> rust_string \<Rightarrow> u32 option \<Rightarrow> u32 option \<Rightarrow> logical_size option \<Rightarrow> logical_size option
     \<Rightarrow> logical_size" where
  "resolve_initial w package cw ch suggested out =
     (let bounds = initial_bounds suggested out; base = initial_base w package bounds out in
      clamped_to bounds \<lparr>lg_width = unwrap_or (lg_width base) cw, lg_height = unwrap_or (lg_height base) ch\<rparr>)"

text \<open>\<open>wp_remember\<close> answers whether the size was stored; the store changes only after the document was written.\<close>

definition wp_remember ::
  "(state_document \<Rightarrow> (wp_error, unit) result) \<Rightarrow> rust_string \<Rightarrow> logical_size
     \<Rightarrow> (wp_error, window_policy, bool) op" where
  "wp_remember save package s = (\<lambda>w.
     case bind_result (validate_package package) (\<lambda>_. size_validate s) of
       Inl e \<Rightarrow> (Inl e, w)
     | Inr _ \<Rightarrow>
         let apps = sd_applications (wp_state w) in
         if wp_mode w = Mobile \<or> fmlookup apps package = Some s then (Inr False, w)
         else if package |\<notin>| fmdom apps \<and> MAX_APPLICATIONS \<le> fmlen apps
         then (Inl (WpInvalid ''window-size state exceeds the application limit''), w)
         else
           let updated = (wp_state w)\<lparr>sd_applications := fmupd package s apps\<rparr> in
           case (if wp_persistent w then save updated else Inr ()) of
             Inl e \<Rightarrow> (Inl e, w)
           | Inr _ \<Rightarrow> (Inr True, w\<lparr>wp_state := updated\<rparr>))"

definition with_preference ::
  "rust_string option \<Rightarrow> window_preference \<Rightarrow> policy_document \<Rightarrow> (wp_error, policy_document) result" where
  "with_preference package p d =
     (case package of
        None \<Rightarrow> Inr (d\<lparr>pd_default := p\<rparr>)
      | Some k \<Rightarrow>
          bind_result (validate_package k) (\<lambda>_.
          bind_result (reject_if (k |\<notin>| fmdom (pd_applications d) \<and> MAX_APPLICATIONS \<le> fmlen (pd_applications d))
            (WpInvalid ''window policy exceeds the application limit''))
          (\<lambda>_. Inr (d\<lparr>pd_applications := fmupd k p (pd_applications d)\<rparr>))))"

definition set_preference ::
  "(policy_document \<Rightarrow> (wp_error, unit) result) \<Rightarrow> rust_string option \<Rightarrow> window_preference
     \<Rightarrow> (wp_error, window_policy, unit) op" where
  "set_preference save package p = (\<lambda>w.
     case bind_result (pref_validate p) (\<lambda>_.
          bind_result (reject_if (\<not> wp_persistent w) WpNotPersistent) (\<lambda>_.
          bind_result (with_preference package p (wp_policy w)) (\<lambda>updated.
          bind_result (save updated) (\<lambda>_. Inr updated)))) of
       Inl e \<Rightarrow> (Inl e, w)
     | Inr updated \<Rightarrow> (Inr (), w\<lparr>wp_policy := updated\<rparr>))"

subsection \<open>What is stored is valid\<close>

lemma validate_entries_ok:
  "validate_entries f xs = Inr () \<longleftrightarrow> (\<forall>(k, v) \<in> set xs. validate_package k = Inr () \<and> f v = Inr ())"
  by (induction f xs rule: validate_entries.induct) (auto simp: bind_result_Inr_iff)

lemma fm_entries_set: "(k, v) \<in> set (fm_entries m) \<longleftrightarrow> fmlookup m k = Some v"
  by (auto simp: fm_entries_def image_iff fmlookup_dom_iff)

lemma reject_if_ok: "reject_if c e = Inr () \<longleftrightarrow> \<not> c"
  by (simp add: reject_if_def)

lemma validate_map_ok:
  "validate_map m f = Inr () \<longleftrightarrow>
     fmlen m \<le> MAX_APPLICATIONS
     \<and> (\<forall>k v. fmlookup m k = Some v \<longrightarrow> validate_package k = Inr () \<and> f v = Inr ())"
  by (auto simp: validate_map_def bind_result_Inr_iff reject_if_ok validate_entries_ok fm_entries_set)

lemma fmlen_upd_le:
  "fmlen (fmupd k v m) \<le> (if k |\<in>| fmdom m then fmlen m else Suc (fmlen m))"
  by (auto simp: fmlen_def finsert_absorb fcard_finsert_if)

lemma validate_map_upd:
  assumes "validate_map m f = Inr ()" and "validate_package k = Inr ()" and "f v = Inr ()"
    and "k |\<in>| fmdom m \<or> fmlen m < MAX_APPLICATIONS"
  shows "validate_map (fmupd k v m) f = Inr ()"
  using assms fmlen_upd_le [of k v m] by (auto simp: validate_map_ok split: if_splits)

definition wp_valid :: "window_policy \<Rightarrow> bool" where
  "wp_valid w \<longleftrightarrow> pd_validate (wp_policy w) = Inr () \<and> sd_validate (wp_state w) = Inr ()"

lemma pd_new_valid [simp]: "pd_validate pd_new = Inr ()" and sd_new_valid [simp]: "sd_validate sd_new = Inr ()"
  by (simp_all add: pd_validate_def sd_validate_def pd_new_def sd_new_def validate_schema_def reject_if_def
      pref_default_def windowed_def pref_validate_def PORTABLE_WINDOWED_DEFAULT_def size_validate_def
      WP_MAX_DIMENSION_def validate_map_ok)

lemma wp_remember_cases:
  assumes "wp_remember save package s w = (r, w')"
  obtains (same) "w' = w"
  | (stored) updated where "w' = w\<lparr>wp_state := updated\<rparr>"
      "updated = (wp_state w)\<lparr>sd_applications := fmupd package s (sd_applications (wp_state w))\<rparr>"
      "validate_package package = Inr ()" "size_validate s = Inr ()"
      "package |\<in>| fmdom (sd_applications (wp_state w)) \<or> fmlen (sd_applications (wp_state w)) < MAX_APPLICATIONS"
      "wp_persistent w \<Longrightarrow> save updated = Inr ()"
  using assms
  by (auto simp: wp_remember_def Let_def bind_result_Inr_iff split: sum.splits if_splits)

lemma set_preference_cases:
  assumes "set_preference save package p w = (r, w')"
  obtains (same) "w' = w"
  | (stored) updated where "w' = w\<lparr>wp_policy := updated\<rparr>" "pref_validate p = Inr ()"
      "with_preference package p (wp_policy w) = Inr updated" "save updated = Inr ()"
  using assms by (auto simp: set_preference_def bind_result_Inr_iff split: sum.splits)

lemma with_preference_valid:
  assumes "pd_validate d = Inr ()" and "pref_validate p = Inr ()" and "with_preference package p d = Inr d'"
  shows "pd_validate d' = Inr ()"
  using assms validate_map_upd [of "pd_applications d" pref_validate "the package" p]
  by (auto simp: with_preference_def pd_validate_def bind_result_Inr_iff reject_if_ok not_le split: option.splits)

text \<open>Everything a program does with a store after loading it.\<close>

datatype policy_call =
    PcReload "(wp_error, policy_document option) result"
  | PcMode session_mode
  | PcRemember "state_document \<Rightarrow> (wp_error, unit) result" rust_string logical_size
  | PcPreference "policy_document \<Rightarrow> (wp_error, unit) result" "rust_string option" window_preference

fun pc_step :: "policy_call \<Rightarrow> window_policy \<Rightarrow> window_policy" where
  "pc_step (PcReload c) w = snd (reload_policy c w)"
| "pc_step (PcMode m) w = with_session_mode m w"
| "pc_step (PcRemember save package s) w = snd (wp_remember save package s w)"
| "pc_step (PcPreference save package p) w = snd (set_preference save package p w)"

lemma pc_step_valid:
  assumes valid: "wp_valid w"
  shows "wp_valid (pc_step c w)"
proof (cases c)
  case (PcReload config)
  then show ?thesis
    using valid by (auto simp: wp_valid_def reload_policy_def Let_def bind_result_Inr_iff split: sum.split)
next
  case (PcMode m)
  then show ?thesis using valid by (simp add: wp_valid_def with_session_mode_def)
next
  case (PcRemember save package s)
  show ?thesis
  proof (cases "wp_remember save package s w")
    case (Pair r w')
    then show ?thesis
    proof (cases rule: wp_remember_cases)
      case same
      then show ?thesis using valid PcRemember Pair by simp
    next
      case (stored updated)
      have "sd_validate updated = Inr ()"
        using valid stored(2-5) validate_map_upd [of "sd_applications (wp_state w)" size_validate package s]
        by (auto simp: wp_valid_def sd_validate_def bind_result_Inr_iff)
      then show ?thesis using valid stored(1) PcRemember Pair by (simp add: wp_valid_def)
    qed
  qed
next
  case (PcPreference save package p)
  show ?thesis
  proof (cases "set_preference save package p w")
    case (Pair r w')
    then show ?thesis
    proof (cases rule: set_preference_cases)
      case same
      then show ?thesis using valid PcPreference Pair by simp
    next
      case (stored updated)
      then show ?thesis
        using valid PcPreference Pair with_preference_valid [OF _ stored(2,3)] by (simp add: wp_valid_def)
    qed
  qed
qed

lemma loaded_valid: "wp_load configuration state = Inr w \<Longrightarrow> wp_valid w"
  by (auto simp: wp_load_def Let_def bind_result_Inr_iff wp_valid_def)

text \<open>
  C27.  Every store a program can reach is valid: whatever is loaded, reloaded, remembered or set, and
  whatever the file system answers, the policy and the remembered sizes keep their schema, their
  application limit, their package names and their size limits.  A document that such a store has
  written is therefore one that the next start accepts.
\<close>

theorem policy_store_invariant:
  assumes "wp_load configuration state = Inr w \<or> w = wp_ephemeral"
  shows "let w' = fold pc_step calls w in
    wp_valid w' \<and> is_ok (wp_load (Inr (Some (wp_policy w'))) (Inr (Some (wp_state w'))))"
proof -
  have "wp_valid w"
    using assms loaded_valid by (auto simp: wp_ephemeral_def wp_valid_def)
  then have "wp_valid (fold pc_step calls w)"
    by (induction calls arbitrary: w) (simp_all add: pc_step_valid)
  then show ?thesis
    by (simp add: Let_def wp_load_def unwrap_or_def wp_valid_def is_ok_def)
qed

definition example_package :: rust_string where
  "example_package = map (\<lambda>c. word_of_nat (of_char c)) ''org.app''"

definition example_policy_calls :: "policy_call list" where
  "example_policy_calls =
     [PcRemember (\<lambda>_. Inr ()) example_package \<lparr>lg_width = 1024, lg_height = 768\<rparr>,
      PcMode Mobile, PcReload (Inl WpJson)]"

theorem policy_store_invariant_witness:
  "wp_ephemeral = wp_ephemeral
   \<and> wp_valid (fold pc_step example_policy_calls wp_ephemeral)
   \<and> fmlookup (sd_applications (wp_state (fold pc_step example_policy_calls wp_ephemeral))) example_package
       = Some \<lparr>lg_width = 1024, lg_height = 768\<rparr>"
proof -
  have "wp_valid (fold pc_step example_policy_calls wp_ephemeral)"
    using policy_store_invariant [of "Inl WpJson" "Inl WpJson" wp_ephemeral example_policy_calls]
    by (simp add: Let_def)
  then show ?thesis
    by (simp add: example_policy_calls_def wp_remember_def wp_ephemeral_def sd_new_def with_session_mode_def
        reload_policy_def example_package_def validate_package_def size_validate_def reject_if_def DOT_def
        UNDERSCORE_def is_ascii_alphanumeric_def WP_MAX_DIMENSION_def MAX_APPLICATIONS_def Let_def)
qed

subsection \<open>The first size of a window\<close>

definition axis_in :: "u32 \<Rightarrow> u32 \<Rightarrow> bool" where
  "axis_in v limit \<longleftrightarrow> v \<noteq> 0 \<and> v \<le> limit"

lemma valid_size_axes:
  "valid_size s \<longleftrightarrow> axis_in (lg_width s) WP_MAX_DIMENSION \<and> axis_in (lg_height s) WP_MAX_DIMENSION"
  by (auto simp: valid_size_def size_validate_def reject_if_def is_ok_def axis_in_def not_less)

lemma size_validate_valid: "size_validate s = Inr () \<longleftrightarrow> valid_size s"
  by (auto simp: valid_size_def size_validate_def reject_if_def is_ok_def)

lemma axis_in_min: "axis_in a m \<Longrightarrow> axis_in b m \<Longrightarrow> axis_in (min a b) m"
  by (auto simp: axis_in_def min_def)

lemma clamped_valid:
  "valid_size s \<Longrightarrow> (\<forall>b. bounds = Some b \<longrightarrow> valid_size b) \<Longrightarrow> valid_size (clamped_to bounds s)"
  by (auto simp: clamped_to_def valid_size_axes intro: axis_in_min split: option.split)

lemma bounds_valid: "initial_bounds suggested out = Some b \<Longrightarrow> valid_size b"
  by (auto simp: initial_bounds_def or_else_def only_valid_def split: option.splits if_splits)

lemma portable_valid [simp]: "valid_size PORTABLE_WINDOWED_DEFAULT"
  by (simp add: valid_size_axes axis_in_def PORTABLE_WINDOWED_DEFAULT_def WP_MAX_DIMENSION_def)

lemma resolve_valid:
  assumes "pref_validate p = Inr ()" and "\<forall>b. bounds = Some b \<longrightarrow> valid_size b"
  shows "valid_size (resolve_preference p bounds out)"
  using assms
  by (auto simp: resolve_preference_def pref_validate_def unwrap_or_def or_else_def only_valid_def
      size_validate_valid intro!: clamped_valid split: launch_mode.splits option.splits)

lemma base_valid:
  assumes "wp_valid w" and "\<forall>b. bounds = Some b \<longrightarrow> valid_size b"
  shows "valid_size (initial_base w package bounds out)"
proof -
  from assms(1) have default_ok: "pref_validate (pd_default (wp_policy w)) = Inr ()"
    and app_ok: "fmlookup (pd_applications (wp_policy w)) package = Some p \<Longrightarrow> pref_validate p = Inr ()"
    and size_ok: "fmlookup (sd_applications (wp_state w)) package = Some s \<Longrightarrow> valid_size s" for p s
    by (auto simp: wp_valid_def pd_validate_def sd_validate_def bind_result_Inr_iff validate_map_ok size_validate_valid)
  have fit: "pref_validate fit_output = Inr ()" by (simp add: pref_validate_def fit_output_def)
  show ?thesis
    using resolve_valid [OF default_ok assms(2)] resolve_valid [OF fit assms(2)] app_ok size_ok
      resolve_valid [OF app_ok assms(2)] clamped_valid [OF size_ok assms(2)]
    by (auto simp: initial_base_def Let_def split: option.split launch_mode.split)
qed

definition chosen_axis :: "u32 option \<Rightarrow> u32 \<Rightarrow> u32 option \<Rightarrow> bool" where
  "chosen_axis requested v limit \<longleftrightarrow>
     v \<noteq> 0 \<and> (\<forall>m. limit = Some m \<longrightarrow> v \<le> m) \<and>
     (\<forall>r. requested = Some r \<longrightarrow> v = (case limit of None \<Rightarrow> r | Some m \<Rightarrow> min r m)) \<and>
     (v \<le> WP_MAX_DIMENSION \<or> limit = None \<and> requested = Some v)"

text \<open>
  C28.  The first size of a window: with a valid store and compositor axes that are not zero, neither
  axis of the resolved size is zero.  Each axis lies within the bounds that apply (the compositor's
  suggestion, else the output, as long as they are valid), an axis the compositor fixed is the
  requested value cut to these bounds, and each axis is at most the protocol's largest dimension,
  except one that the compositor itself fixed at a larger value while no bounds apply.
\<close>

theorem initial_size_in_bounds:
  assumes "wp_valid w" and "cw \<noteq> Some 0" and "ch \<noteq> Some 0"
  shows "let b = initial_bounds suggested out; size = resolve_initial w package cw ch suggested out in
    chosen_axis cw (lg_width size) (map_option lg_width b)
    \<and> chosen_axis ch (lg_height size) (map_option lg_height b)"
proof -
  let ?b = "initial_bounds suggested out"
  let ?base = "initial_base w package ?b out" and ?size = "resolve_initial w package cw ch suggested out"
  have bounds: "\<forall>b. ?b = Some b \<longrightarrow> valid_size b" using bounds_valid by blast
  have base: "valid_size ?base" by (rule base_valid [OF assms(1) bounds])
  then have nz: "lg_width ?base \<noteq> 0" "lg_height ?base \<noteq> 0" by (simp_all add: valid_size_axes axis_in_def)
  have axis: "lg_width ?base \<le> WP_MAX_DIMENSION" "lg_height ?base \<le> WP_MAX_DIMENSION"
    using base by (simp_all add: valid_size_axes axis_in_def)
  have "chosen_axis cw (lg_width ?size) (map_option lg_width ?b)"
    "chosen_axis ch (lg_height ?size) (map_option lg_height ?b)"
    using nz axis assms(2,3) bounds
    by (cases ?b; cases cw; cases ch;
        auto simp: resolve_initial_def Let_def chosen_axis_def clamped_to_def unwrap_or_def valid_size_axes
          axis_in_def min_def)+
  then show ?thesis unfolding Let_def by blast
qed

theorem initial_size_in_bounds_witness:
  "wp_valid wp_ephemeral
   \<and> resolve_initial wp_ephemeral example_package (Some 600) None (Some \<lparr>lg_width = 500, lg_height = 900\<rparr>) None
       = \<lparr>lg_width = 500, lg_height = 800\<rparr>
   \<and> chosen_axis (Some 600) 500 (Some 500) \<and> chosen_axis None 800 (Some 900)
   \<and> chosen_axis (Some 600) (lg_width (resolve_initial wp_ephemeral example_package (Some 600) None None None)) None
   \<and> chosen_axis None (lg_height (resolve_initial wp_ephemeral example_package (Some 600) None None None)) None"
proof -
  have valid: "wp_valid wp_ephemeral" by (simp add: wp_valid_def wp_ephemeral_def)
  let ?b = "Some \<lparr>lg_width = 500, lg_height = 900\<rparr>"
  have bounds: "initial_bounds ?b None = ?b"
    by (simp add: initial_bounds_def or_else_def only_valid_def valid_size_axes axis_in_def WP_MAX_DIMENSION_def)
  have size: "resolve_initial wp_ephemeral example_package (Some 600) None ?b None = \<lparr>lg_width = 500, lg_height = 800\<rparr>"
    unfolding resolve_initial_def Let_def bounds
    by (simp add: initial_base_def wp_ephemeral_def pd_new_def sd_new_def pref_default_def windowed_def
        resolve_preference_def unwrap_or_def clamped_to_def PORTABLE_WINDOWED_DEFAULT_def min_def)
  show ?thesis
    using initial_size_in_bounds [OF valid, of "Some 600" None ?b None example_package] size bounds valid
      initial_size_in_bounds [OF valid, of "Some 600" None None None example_package]
    by (simp add: Let_def initial_bounds_def or_else_def only_valid_def)
qed

end
