(* ===== verification/Presenter.thy ===== *)
theory Presenter
  imports Layer_Stream Window_Policy
begin

unbundle bit_operations_syntax

section \<open>The Wayland presenter\<close>

text \<open>
  \<open>App\<close> and \<open>TaskWindow\<close> of \<open>graphics/droidloom-wayland/src/main.rs\<close> with \<open>resize.rs\<close> and the parts of
  \<open>frame_timeline.rs\<close> that belong to \<open>App\<close>: the host's windows, the render targets and Android buffers
  they show, the composed frames that wait for a grant or for their release, and what becomes of them
  when the window is resized, closed or destroyed.  The presenter owns the endpoint of the connection
  and settles every accepted frame with it.  Wayland objects are identities; the requests on the root
  surface of a window are recorded in \<open>win_wl\<close>.  Not modelled: frame traces and audits, which write log
  lines, and the readiness marks of \<open>task_work\<close>, which select when an operation runs.
\<close>

subsection \<open>Geometry waiting to be applied\<close>

record resize_configure =
  rc_width :: u32
  rc_height :: u32
  rc_scale_120 :: u32
  rc_remember :: bool

definition changes_geometry :: "resize_configure \<Rightarrow> (u32 \<times> u32) option \<Rightarrow> u32 \<Rightarrow> bool" where
  "changes_geometry c applied scale_120 \<longleftrightarrow>
     applied \<noteq> Some (rc_width c, rc_height c) \<or> scale_120 \<noteq> rc_scale_120 c"

record resize_pending =
  rp_size :: "(u32 \<times> u32) option"
  rp_scale_120 :: u32
  rp_remember :: bool

definition rp_new :: "u32 \<Rightarrow> resize_pending" where
  "rp_new scale_120 = \<lparr>rp_size = None, rp_scale_120 = scale_120, rp_remember = False\<rparr>"

definition rp_logical_size :: "resize_pending \<Rightarrow> (u32 \<times> u32) option \<Rightarrow> (u32 \<times> u32) option" where
  "rp_logical_size p applied = (case rp_size p of Some wh \<Rightarrow> Some wh | None \<Rightarrow> applied)"

definition rp_configure :: "u32 \<times> u32 \<Rightarrow> bool \<Rightarrow> resize_pending \<Rightarrow> resize_pending" where
  "rp_configure wh remember p = p\<lparr>rp_size := Some wh, rp_remember := remember\<rparr>"

definition rp_preferred_scale :: "u32 \<Rightarrow> (u32 \<times> u32) option \<Rightarrow> resize_pending \<Rightarrow> bool \<times> resize_pending" where
  "rp_preferred_scale scale_120 applied p =
     (if rp_scale_120 p = scale_120 then (False, p)
      else
        let p1 = p\<lparr>rp_scale_120 := scale_120\<rparr>;
            p2 = p1\<lparr>rp_size := rp_logical_size p1 applied\<rparr>
        in (rp_size p2 \<noteq> None, p2))"

definition rp_take :: "resize_pending \<Rightarrow> resize_configure option \<times> resize_pending" where
  "rp_take p =
     (case rp_size p of
        None \<Rightarrow> (None, p)
      | Some (width, height) \<Rightarrow>
          (Some \<lparr>rc_width = width, rc_height = height, rc_scale_120 = rp_scale_120 p,
             rc_remember = rp_remember p\<rparr>,
           p\<lparr>rp_size := None, rp_remember := False\<rparr>))"

definition rp_cancel :: "resize_pending \<Rightarrow> resize_pending" where
  "rp_cancel p = p\<lparr>rp_size := None, rp_remember := False\<rparr>"

definition FRACTIONAL_SCALE_DENOMINATOR :: u32 where "FRACTIONAL_SCALE_DENOMINATOR = 120"
definition MAX_BUFFER_DIMENSION :: u32 where "MAX_BUFFER_DIMENSION = 16384"

text \<open>The product of two 32-bit values and the rounding term fit in \<open>u64\<close>, so \<open>nat\<close> is exact.\<close>

definition scale_dimension :: "u32 \<Rightarrow> u32 \<Rightarrow> (presenter_error, u32) result" where
  "scale_dimension logical scale_120 =
     (if scale_120 = 0 then Inl (PeConfiguration ''fractional scale numerator is zero'')
      else
        let scaled = (unat logical * unat scale_120 + unat FRACTIONAL_SCALE_DENOMINATOR div 2)
                       div unat FRACTIONAL_SCALE_DENOMINATOR
        in if 2 ^ 32 \<le> scaled then Inl (PeConfiguration ''scaled window dimension overflowed'')
           else if MAX_BUFFER_DIMENSION < max (word_of_nat scaled) 1
           then Inl (PeConfiguration ''scaled window dimension exceeds protocol limit'')
           else Inr (max (word_of_nat scaled) 1))"

definition presentation_refresh_period :: "u32 \<Rightarrow> u32 \<Rightarrow> (presenter_error, u64) result" where
  "presentation_refresh_period presented advertised_millihz =
     (if presented \<noteq> 0 then Inr (ucast presented)
      else if advertised_millihz = 0
      then Inl (PeConfiguration ''presentation feedback omitted refresh period'')
      else Inr (1000000000000 div ucast advertised_millihz))"

subsection \<open>Windows\<close>

record present_target =
  pt_metadata :: buffer_metadata
  pt_planes :: "owned_fd list"
  pt_wayland :: "wl_id option"
  pt_sync :: "buffer_sync option"
  pt_host_owned :: bool
  pt_retired :: bool
  pt_busy :: bool

record pending_frame =
  pf_frame :: frame_id
  pf_buffer :: buffer_id
  pf_release_point :: u64

record frame_feedback =
  ff_proxy :: wl_id
  ff_frame :: frame_id
  ff_buffer :: buffer_id
  ff_grant :: "grant_identity option"

type_synonym queued_frame = "accepted_wire_frame \<times> owned_fd"

record presenter_window =
  win_timeline :: "queued_frame frame_timeline"
  win_layers :: "layer_stream option"
  win_package :: rust_string
  win_surface :: "wl_id option"
  win_viewport :: bool
  win_sync_surface :: bool
  win_logical_size :: "(u32 \<times> u32) option"
  win_buffer_size :: "u32 \<times> u32"
  win_applied_scale_120 :: u32
  win_resize :: resize_pending
  win_configure_serial :: u32
  win_refresh_millihz :: u32
  win_entered_outputs :: "wl_output list"
  win_presentation_output :: "wl_output option"
  win_targets :: "(buffer_id, present_target) fmap"
  win_pending :: "pending_frame list"
  win_presentation_feedback :: "frame_feedback list"
  win_scene_feedback :: "scene_feedback list"
  win_content_opaque :: bool
  win_applied_opaque :: "bool option"
  win_composed_root :: bool
  win_unmap_requested :: bool
  win_closing :: bool
  win_wl :: "surface_request list"

definition BOOTSTRAP_PACKAGE :: rust_string where
  "BOOTSTRAP_PACKAGE = map (\<lambda>c. word_of_nat (of_char c)) ''android.droidloom.bootstrap''"

definition win_headless :: "presenter_window \<Rightarrow> bool" where
  "win_headless w \<longleftrightarrow> win_package w = BOOTSTRAP_PACKAGE"

definition accepts_present :: "presenter_window \<Rightarrow> bool" where
  "accepts_present w \<longleftrightarrow>
     \<not> win_headless w \<and> win_surface w \<noteq> None \<and> \<not> win_unmap_requested w \<and> \<not> win_closing w"

definition win_new :: "rust_string \<Rightarrow> wl_id option \<Rightarrow> bool \<Rightarrow> presenter_window" where
  "win_new package surface manager =
     \<lparr>win_timeline = ft_new manager (surface \<noteq> None), win_layers = None, win_package = package,
      win_surface = surface, win_viewport = (surface \<noteq> None), win_sync_surface = (surface \<noteq> None),
      win_logical_size = None, win_buffer_size = (0, 0),
      win_applied_scale_120 = FRACTIONAL_SCALE_DENOMINATOR,
      win_resize = rp_new FRACTIONAL_SCALE_DENOMINATOR, win_configure_serial = 0,
      win_refresh_millihz = 60000, win_entered_outputs = [], win_presentation_output = None, win_targets = fmempty, win_pending = [],
      win_presentation_feedback = [], win_scene_feedback = [], win_content_opaque = False,
      win_applied_opaque = None, win_composed_root = False, win_unmap_requested = False,
      win_closing = False, win_wl = []\<rparr>"

record app =
  ap_tasks :: "(task_object_id, presenter_window) fmap"
  ap_endpoint :: "endpoint option"
  ap_clock_armed :: bool
  ap_last_frame_nanos :: u64
  ap_clock_subscription :: "subscription option"
  ap_presentation_clock :: "u32 option"
  ap_policy :: window_policy
  ap_manager :: bool
  ap_alpha :: bool
  ap_formats :: "(u32 \<times> u64) list option"
  ap_next_buffer_id :: u64
  ap_fatal :: "presenter_error option"

text \<open>What GBM allocates, and what the system answers during one operation of the presenter.\<close>

record gbm_allocation =
  ga_modifier :: u64
  ga_planes :: "(u32 \<times> u32 \<times> owned_fd option) list" \<comment> \<open>offset, stride, exported descriptor\<close>

record app_env =
  ae_host :: host_env
  ae_io :: stream_io
  ae_view :: view_env
  ae_params :: bool \<comment> \<open>\<open>create_params\<close> of the DMA-BUF global succeeds\<close>
  ae_buffer :: wl_id
  ae_region :: bool
  ae_feedback :: "wl_id option"
  ae_now :: "(os_error, u64) result"
  ae_canvas :: "(u32 \<times> u32) option" \<comment> \<open>\<open>host_canvas_size\<close> of the current outputs\<close>
  ae_refresh :: "wl_output \<Rightarrow> u32 option"
  ae_sockets :: "(ipc_error, unit) result" \<comment> \<open>preparing the two sockets of a layer stream\<close>
  ae_policy_file :: "(wp_error, policy_document option) result"
  ae_save_sizes :: "state_document \<Rightarrow> (wp_error, unit) result"
  ae_gbm :: "buffer_id \<Rightarrow> u32 \<Rightarrow> u32 \<Rightarrow> u32 \<Rightarrow> gbm_allocation option"

type_synonym 'a ap_op = "(presenter_error, app, 'a) op"
type_synonym 'a win_op = "(presenter_error, presenter_window, 'a) op"

definition put_win :: "task_object_id \<Rightarrow> presenter_window \<Rightarrow> app \<Rightarrow> app" where
  "put_win object w a = a\<lparr>ap_tasks := fmupd object w (ap_tasks a)\<rparr>"

text \<open>\<open>self.tasks.get_mut(&object).ok_or(UnknownTask(object))?\<close>, then an operation on the window.\<close>

definition on_win :: "task_object_id \<Rightarrow> 'a win_op \<Rightarrow> 'a ap_op" where
  "on_win object f = (\<lambda>a.
     case fmlookup (ap_tasks a) object of
       None \<Rightarrow> (Inl (PeUnknownTask object), a)
     | Some w \<Rightarrow> (case f w of (r, w1) \<Rightarrow> (r, put_win object w1 a)))"

text \<open>
  \<open>self.tasks.get_mut(&object)\<close> with \<open>unwrap\<close> or \<open>expect\<close>, or the index \<open>self.tasks[&object]\<close>: the code relies on
  the task being there.
\<close>

definition the_win :: "string \<Rightarrow> task_object_id \<Rightarrow> 'a win_op \<Rightarrow> 'a ap_op" where
  "the_win message object f = (\<lambda>a.
     case fmlookup (ap_tasks a) object of
       None \<Rightarrow> (Inl (PePanic message), a)
     | Some w \<Rightarrow> (case f w of (r, w1) \<Rightarrow> (r, put_win object w1 a)))"

text \<open>\<open>self.endpoint.as_mut().ok_or(PresenterError::Configuration(absent))?\<close>, then an operation on the endpoint.\<close>

definition with_endpoint :: "string \<Rightarrow> 'a ep_op \<Rightarrow> 'a ap_op" where
  "with_endpoint absent f = (\<lambda>a.
     case ap_endpoint a of
       None \<Rightarrow> (Inl (PeConfiguration absent), a)
     | Some e \<Rightarrow> (case f e of (r, e1) \<Rightarrow> (map_err PeEndpoint r, a\<lparr>ap_endpoint := Some e1\<rparr>)))"

definition on_endpoint :: "'a ep_op \<Rightarrow> 'a ap_op" where
  "on_endpoint = with_endpoint ''endpoint disappeared''"

definition win_request :: "surface_request list \<Rightarrow> presenter_window \<Rightarrow> presenter_window" where
  "win_request requests w = w\<lparr>win_wl := win_wl w @ requests\<rparr>"

subsection \<open>Ending feedback and waiting work\<close>

definition win_retire_feedback :: "terminal \<Rightarrow> presenter_window \<Rightarrow> frame_id list \<times> presenter_window" where
  "win_retire_feedback t w =
     (case retire_feedback (map fb_grant (win_scene_feedback w))
         (map (\<lambda>f. (ff_grant f, ff_frame f)) (win_presentation_feedback w)) t (win_timeline w) of
        (frames, ft) \<Rightarrow>
          (frames, w\<lparr>win_timeline := ft, win_scene_feedback := [], win_presentation_feedback := []\<rparr>))"

definition app_retire_feedback :: "task_object_id \<Rightarrow> terminal \<Rightarrow> app \<Rightarrow> app" where
  "app_retire_feedback object t a =
     (case fmlookup (ap_tasks a) object of
        None \<Rightarrow> a
      | Some w \<Rightarrow>
          (case win_retire_feedback t w of
             (frames, w1) \<Rightarrow>
               (put_win object w1 a)\<lparr>ap_endpoint :=
                  map_option (fold (forget_presentation object) frames) (ap_endpoint a)\<rparr>))"

text \<open>\<open>if let Some(stream) = task.layers.as_mut() { stream.abort_timeline_wait()? }\<close>\<close>

definition win_abort_wait :: "stream_io \<Rightarrow> unit win_op" where
  "win_abort_wait io = (\<lambda>w.
     case win_layers w of
       None \<Rightarrow> (Inr (), w)
     | Some s \<Rightarrow> (case abort_timeline_wait io s of (r, s1) \<Rightarrow> (r, w\<lparr>win_layers := Some s1\<rparr>)))"

definition take_queued :: "queued_frame option win_op" where
  "take_queued = (\<lambda>w. (Inr (ft_queued (win_timeline w)), w\<lparr>win_timeline := (win_timeline w)\<lparr>ft_queued := None\<rparr>\<rparr>))"

definition abort_timeline_work :: "app_env \<Rightarrow> task_object_id \<Rightarrow> terminal \<Rightarrow> unit ap_op" where
  "abort_timeline_work env object t = (\<lambda>a.
     let a1 = app_retire_feedback object t a in
     if object |\<notin>| fmdom (ap_tasks a1) then (Inr (), a1)
     else
       op_bind (on_win object (\<lambda>w. (Inr (), w\<lparr>win_timeline := on_schedule (sc_clear t) (win_timeline w)\<rparr>)))
         (\<lambda>_. op_bind (on_win object take_queued) (\<lambda>queued.
         op_bind (\<lambda>a2. case queued of
             Some (frame, _) \<Rightarrow>
               if ap_endpoint a2 = None then (Inr (), a2)
               else on_endpoint (discard_frame (ae_host env) object (awf_frame frame)) a2
           | None \<Rightarrow> (Inr (), a2)) (\<lambda>_.
         on_win object (win_abort_wait (ae_io env))))) a1)"

subsection \<open>Presenting a composed frame\<close>

definition create_wayland_buffer :: "app_env \<Rightarrow> buffer_metadata \<Rightarrow> owned_fd list \<Rightarrow> (presenter_error, wl_id) result" where
  "create_wayland_buffer env metadata planes =
     (if length planes \<noteq> length (buf_planes metadata)
      then Inl (PeConfiguration ''DMA-BUF plane count mismatch'')
      else if \<not> ae_params env then Inl PeToolkitGlobal
      else if 2 ^ 31 \<le> unat (buf_width metadata) then Inl (PeConfiguration ''buffer width exceeds Wayland'')
      else if 2 ^ 31 \<le> unat (buf_height metadata) then Inl (PeConfiguration ''buffer height exceeds Wayland'')
      else Inr (ae_buffer env))"

text \<open>
  A buffer is imported into the compositor when it is first attached: the buffer and its timeline are made,
  then the target is looked up again to keep them.
\<close>

definition find_target :: "task_object_id \<Rightarrow> buffer_id \<Rightarrow> app \<Rightarrow> present_target option" where
  "find_target object buffer a =
     Option.bind (fmlookup (ap_tasks a) object) (\<lambda>w. fmlookup (win_targets w) buffer)"

definition imported_buffer :: "app_env \<Rightarrow> present_target \<Rightarrow> (presenter_error, wl_id \<times> timeline) result" where
  "imported_buffer env t =
     bind_result (create_wayland_buffer env (pt_metadata t) (pt_planes t)) (\<lambda>buffer.
     bind_result (map_err PeSyncobj (wayland_create (ve_drm (ae_view env)))) (\<lambda>line.
     bind_result (map_err PeSyncobj (wayland_export_descriptor (ve_drm (ae_view env)) line)) (\<lambda>_.
     Inr (buffer, line))))"

definition keep_import :: "app_env \<Rightarrow> wl_id \<times> timeline \<Rightarrow> (presenter_error, present_target, unit) op" where
  "keep_import env imported = (\<lambda>t.
     let t1 = t\<lparr>pt_wayland := Some (fst imported)\<rparr> in
     case ve_eventfd (ae_view env) of
       Inl e \<Rightarrow> (Inl (PeIo e), t1)
     | Inr event \<Rightarrow>
         (Inr (), t1\<lparr>pt_sync := Some \<lparr>bs_timeline = snd imported, bs_proxy = ve_proxy (ae_view env),
            bs_next_point = 0, bs_release_wakeup = Some event\<rparr>\<rparr>))"

definition the_target :: "string \<Rightarrow> buffer_id \<Rightarrow> (presenter_error, present_target, 'a) op \<Rightarrow> 'a win_op" where
  "the_target message buffer f = (\<lambda>w.
     case fmlookup (win_targets w) buffer of
       None \<Rightarrow> (Inl (PePanic message), w)
     | Some t \<Rightarrow> (case f t of (r, t1) \<Rightarrow> (r, w\<lparr>win_targets := fmupd buffer t1 (win_targets w)\<rparr>)))"

definition import_target :: "app_env \<Rightarrow> task_object_id \<Rightarrow> buffer_id \<Rightarrow> unit ap_op" where
  "import_target env object buffer = (\<lambda>a.
     case find_target object buffer a of
       None \<Rightarrow> (Inl (PeUnknownBuffer object buffer), a)
     | Some t \<Rightarrow>
         if pt_wayland t \<noteq> None then (Inr (), a)
         else case imported_buffer env t of
           Inl e \<Rightarrow> (Inl e, a)
         | Inr imported \<Rightarrow>
             the_win ''target was just checked'' object
               (the_target ''target was just checked'' buffer (keep_import env imported)) a)"

definition on_target :: "task_object_id \<Rightarrow> buffer_id \<Rightarrow> (presenter_error, present_target, 'a) op \<Rightarrow> 'a win_op" where
  "on_target object buffer f = (\<lambda>w.
     case fmlookup (win_targets w) buffer of
       None \<Rightarrow> (Inl (PeUnknownBuffer object buffer), w)
     | Some t \<Rightarrow> (case f t of (r, t1) \<Rightarrow> (r, w\<lparr>win_targets := fmupd buffer t1 (win_targets w)\<rparr>)))"

definition apply_opaque :: "app_env \<Rightarrow> wl_id \<Rightarrow> unit win_op" where
  "apply_opaque env surface = (\<lambda>w.
     if win_applied_opaque w = Some (win_content_opaque w) then (Inr (), w)
     else if win_content_opaque w then
       (case win_logical_size w of
          None \<Rightarrow> (Inl (PeConfiguration ''opaque target has no logical size''), w)
        | Some (width, height) \<Rightarrow>
            if \<not> ae_region env then (Inl PeToolkitGlobal, w)
            else if 2 ^ 31 \<le> unat width then (Inl (PeConfiguration ''opaque width exceeds Wayland''), w)
            else if 2 ^ 31 \<le> unat height then (Inl (PeConfiguration ''opaque height exceeds Wayland''), w)
            else (Inr (), (win_request [WlOpaqueRegion surface (Some (width, height))] w)
              \<lparr>win_applied_opaque := Some True\<rparr>))
     else (Inr (), (win_request [WlOpaqueRegion surface None] w)\<lparr>win_applied_opaque := Some False\<rparr>))"

definition hide_layers :: "wl_id \<Rightarrow> bool win_op" where
  "hide_layers surface = (\<lambda>w.
     case win_layers w of
       None \<Rightarrow> (Inr False, w)
     | Some s \<Rightarrow>
         (case st_hide s of (hidden, s1) \<Rightarrow>
            (Inr hidden, win_request (if hidden \<and> win_viewport w then [WlUnsetSource surface] else [])
               (w\<lparr>win_layers := Some s1\<rparr>))))"

text \<open>
  The points of the frame on the timeline of its buffer: \<open>next_point\<close> is advanced before the acquire
  fence is imported.
\<close>

definition submit_points :: "app_env \<Rightarrow> owned_fd \<Rightarrow> (presenter_error, present_target, u64 \<times> u64 \<times> wl_id) op" where
  "submit_points env fence = (\<lambda>t.
     if pt_busy t \<or> pt_retired t then (Inl (PeConfiguration ''presented buffer is unavailable''), t)
     else case pt_sync t of
       None \<Rightarrow> (Inl (PeConfiguration ''buffer timeline is absent''), t)
     | Some bs \<Rightarrow>
         case checked_add (bs_next_point bs) 1 of
           None \<Rightarrow> (Inl (PeConfiguration ''Wayland sync point exhausted''), t)
         | Some acquire_point \<Rightarrow>
             case checked_add acquire_point 1 of
               None \<Rightarrow> (Inl (PeConfiguration ''Wayland sync point exhausted''), t)
             | Some release_point \<Rightarrow>
                 let bs1 = bs\<lparr>bs_next_point := release_point\<rparr> in
                 case wayland_import_acquire_fence (ve_drm (ae_view env)) (bs_timeline bs1) acquire_point fence of
                   (Inl e, line) \<Rightarrow> (Inl (PeSyncobj e), t\<lparr>pt_sync := Some (bs1\<lparr>bs_timeline := line\<rparr>)\<rparr>)
                 | (Inr _, line) \<Rightarrow>
                     (case arm_release_wakeup (ve_drm (ae_view env)) release_point (bs1\<lparr>bs_timeline := line\<rparr>) of
                        (Inl e, bs2) \<Rightarrow> (Inl e, t\<lparr>pt_sync := Some bs2\<rparr>)
                      | (Inr _, bs2) \<Rightarrow>
                          (Inr (acquire_point, release_point, bs_proxy bs2), t\<lparr>pt_sync := Some bs2\<rparr>)))"

text \<open>The last steps: attach, damage, commit, and the frame is pending until its release point.\<close>

definition commit_frame ::
  "accepted_wire_frame \<Rightarrow> u64 \<Rightarrow> wl_id option \<Rightarrow> target option \<Rightarrow> bool \<Rightarrow> wl_id \<Rightarrow> unit win_op" where
  "commit_frame frame release_point feedback grant hidden surface = (\<lambda>w.
     case fmlookup (win_targets w) (awf_buffer frame) of
       None \<Rightarrow> (Inl (PeUnknownBuffer (awf_object frame) (awf_buffer frame)), w)
     | Some t \<Rightarrow>
         (Inr (), (win_request ([WlAttach surface (pt_wayland t)]
             @ (if hidden then [WlDamage surface] else [])
             @ map (\<lambda>_. WlDamage surface) (awf_damage frame)
             @ (case grant of Some g \<Rightarrow> if ft_surface (win_timeline w)
                  then [WlTarget surface (tg_identity g)] else [] | None \<Rightarrow> [])
             @ [WlCommit surface]) w)
           \<lparr>win_composed_root := True,
            win_targets := fmupd (awf_buffer frame) (t\<lparr>pt_busy := True\<rparr>) (win_targets w),
            win_pending := win_pending w @ [\<lparr>pf_frame = awf_frame frame, pf_buffer = awf_buffer frame,
              pf_release_point = release_point\<rparr>],
            win_presentation_feedback := win_presentation_feedback w @
              (case feedback of None \<Rightarrow> [] | Some proxy \<Rightarrow>
                 [\<lparr>ff_proxy = proxy, ff_frame = awf_frame frame, ff_buffer = awf_buffer frame,
                   ff_grant = map_option tg_identity grant\<rparr>])\<rparr>))"

definition track_feedback :: "app_env \<Rightarrow> accepted_wire_frame \<Rightarrow> wl_id option ap_op" where
  "track_feedback env frame =
     op_bind (on_endpoint (track_presentation (awf_object frame) (awf_frame frame))) (\<lambda>tracked a.
     if \<not> tracked then (Inr None, a)
     else case ae_feedback env of None \<Rightarrow> (Inl PeToolkitGlobal, a) | Some proxy \<Rightarrow> (Inr (Some proxy), a))"

definition attach_frame :: "app_env \<Rightarrow> accepted_wire_frame \<Rightarrow> owned_fd \<Rightarrow> target option \<Rightarrow> wl_id \<Rightarrow> unit ap_op" where
  "attach_frame env frame fence grant surface =
     (let object = awf_object frame in
      op_bind (on_win object (apply_opaque env surface)) (\<lambda>_.
      op_bind (on_win object (hide_layers surface)) (\<lambda>hidden.
      op_bind (on_win object (on_target object (awf_buffer frame) (submit_points env fence)))
        (\<lambda>(acquire_point, release_point, proxy).
      op_bind (on_win object (\<lambda>w. (Inr (), win_request [WlAcquirePoint surface proxy acquire_point,
          WlReleasePoint surface proxy release_point] (w\<lparr>win_sync_surface := True\<rparr>)))) (\<lambda>_.
      op_bind (track_feedback env frame) (\<lambda>feedback.
      on_win object (commit_frame frame release_point feedback grant hidden surface)))))))"

text \<open>The toplevel is looked up after the import; it was there when the frame was accepted.\<close>

definition show_frame :: "app_env \<Rightarrow> accepted_wire_frame \<Rightarrow> owned_fd \<Rightarrow> target option \<Rightarrow> unit ap_op" where
  "show_frame env frame fence grant =
     op_bind (import_target env (awf_object frame) (awf_buffer frame)) (\<lambda>_ a.
     case fmlookup (ap_tasks a) (awf_object frame) of
       None \<Rightarrow> (Inl (PeUnknownTask (awf_object frame)), a)
     | Some w \<Rightarrow>
         (case win_surface w of
            None \<Rightarrow> (Inl (PePanic ''accepts_present guaranteed a mapped window''), a)
          | Some surface \<Rightarrow> attach_frame env frame fence grant surface a))"

definition app_present :: "app_env \<Rightarrow> accepted_wire_frame \<Rightarrow> owned_fd \<Rightarrow> target option \<Rightarrow> unit ap_op" where
  "app_present env frame fence grant = (\<lambda>a.
     case fmlookup (ap_tasks a) (awf_object frame) of
       None \<Rightarrow> (Inl (PeUnknownTask (awf_object frame)), a)
     | Some w \<Rightarrow>
         if \<not> accepts_present w
         then on_endpoint (discard_frame (ae_host env) (awf_object frame) (awf_frame frame)) a
         else show_frame env frame fence grant a)"

definition replace_queued :: "queued_frame \<Rightarrow> queued_frame option win_op" where
  "replace_queued q = (\<lambda>w. (Inr (ft_queued (win_timeline w)),
     w\<lparr>win_timeline := (win_timeline w)\<lparr>ft_queued := Some q\<rparr>\<rparr>))"

definition discard_previous :: "app_env \<Rightarrow> task_object_id \<Rightarrow> queued_frame option \<Rightarrow> unit ap_op" where
  "discard_previous env object previous =
     (case previous of
        None \<Rightarrow> op_return ()
      | Some (frame, _) \<Rightarrow> on_endpoint (discard_frame (ae_host env) object (awf_frame frame)))"

definition queue_present :: "app_env \<Rightarrow> accepted_wire_frame \<Rightarrow> owned_fd \<Rightarrow> unit ap_op" where
  "queue_present env frame fence = (\<lambda>a.
     case fmlookup (ap_tasks a) (awf_object frame) of
       None \<Rightarrow> (Inl (PeUnknownTask (awf_object frame)), a)
     | Some w \<Rightarrow>
         if \<not> ft_exact (win_timeline w) \<or> \<not> accepts_present w then app_present env frame fence None a
         else
           op_bind (on_win (awf_object frame) (win_abort_wait (ae_io env))) (\<lambda>_.
           op_bind (on_win (awf_object frame) (replace_queued (frame, fence)))
             (discard_previous env (awf_object frame))) a)"

text \<open>An Android frame is shown: every timeline is armed if the clock was idle.\<close>

definition app_arm_timelines :: "bool \<Rightarrow> app \<Rightarrow> app" where
  "app_arm_timelines armed a =
     a\<lparr>ap_clock_armed := armed,
       ap_clock_subscription := map_option (arm_subscription armed) (ap_clock_subscription a),
       ap_tasks := fmmap (\<lambda>w. w\<lparr>win_timeline := snd (ft_arm armed (win_timeline w))\<rparr>) (ap_tasks a)\<rparr>"

definition app_android_frame :: "u64 \<Rightarrow> app \<Rightarrow> app" where
  "app_android_frame now a =
     (let a1 = a\<lparr>ap_last_frame_nanos := now\<rparr> in
      if ap_clock_armed a1 then a1 else app_arm_timelines True a1)"

definition reserve_grant :: "u64 \<Rightarrow> target option option win_op" where
  "reserve_grant now = (\<lambda>w. case ft_reserve now (win_timeline w) of
     (r, ft) \<Rightarrow> (Inr r, w\<lparr>win_timeline := ft\<rparr>))"

text \<open>\<open>flush_timeline_frames\<close> for one task: the queued frame takes a grant, or waits.\<close>

definition flush_frame :: "app_env \<Rightarrow> task_object_id \<Rightarrow> unit ap_op" where
  "flush_frame env object = (\<lambda>a.
     case fmlookup (ap_tasks a) object of
       None \<Rightarrow> (Inr (), a)
     | Some w \<Rightarrow>
         if ft_queued (win_timeline w) = None \<or> 64 \<le> length (win_presentation_feedback w)
         then (Inr (), a)
         else
           op_bind (op_lift (map_err PeIo (ae_now env))) (\<lambda>now.
           op_bind (on_win object (reserve_grant now)) (\<lambda>reserved.
           case reserved of
             None \<Rightarrow> op_return ()
           | Some grant \<Rightarrow>
               op_bind (on_win object take_queued) (\<lambda>queued.
               case queued of
                 None \<Rightarrow> op_lift (Inl (PePanic ''unwrap''))
               | Some (frame, fence) \<Rightarrow>
                   (\<lambda>a1. app_present env frame fence grant (app_android_frame now a1))))) a)"

end
