(* ===== verification/Presenter_Windows.thy ===== *)
theory Presenter_Windows
  imports Presenter
begin

unbundle bit_operations_syntax

section \<open>The windows of the presenter over time\<close>

text \<open>
  The rest of \<open>App\<close> in \<open>graphics/droidloom-wayland/src/main.rs\<close>: refresh rates, render-target pools,
  resizing, the release of frames the compositor has finished with, closing and removing windows, the
  presentation feedback and the actions the endpoint asks for.  Where the code works through the tasks
  that \<open>task_work\<close> has selected, the operation takes their list.
\<close>

definition task_objects :: "app \<Rightarrow> task_object_id list" where
  "task_objects a = sorted_list_of_fset (fmdom (ap_tasks a))"

subsection \<open>Refresh rates\<close>

definition select_surface_output ::
  "wl_output list \<Rightarrow> wl_output option \<Rightarrow> (wl_output \<Rightarrow> u32 option) \<Rightarrow> wl_output option" where
  "select_surface_output entered presented refresh =
     (case presented of
        Some out \<Rightarrow> if out \<in> set entered \<and> refresh out \<noteq> None then Some out
          else find (\<lambda>o1. refresh o1 \<noteq> None) (rev entered)
      | None \<Rightarrow> find (\<lambda>o1. refresh o1 \<noteq> None) (rev entered))"

definition select_surface_refresh ::
  "wl_output list \<Rightarrow> wl_output option \<Rightarrow> (wl_output \<Rightarrow> u32 option) \<Rightarrow> u32" where
  "select_surface_refresh entered presented refresh =
     (case Option.bind (select_surface_output entered presented refresh) refresh of
        Some rate \<Rightarrow> rate | None \<Rightarrow> 60000)"

definition window_refresh :: "app_env \<Rightarrow> presenter_window \<Rightarrow> u32" where
  "window_refresh env w =
     select_surface_refresh (win_entered_outputs w) (win_presentation_output w) (ae_refresh env)"

text \<open>The bootstrap display follows the fastest live task.\<close>

definition task_refresh_millihz :: "app_env \<Rightarrow> app \<Rightarrow> task_object_id \<Rightarrow> u32" where
  "task_refresh_millihz env a object =
     (case fmlookup (ap_tasks a) object of
        None \<Rightarrow> 60000
      | Some w \<Rightarrow>
          if win_headless w then
            (let rates = [window_refresh env x. i \<leftarrow> task_objects a,
                            x \<leftarrow> (case fmlookup (ap_tasks a) i of None \<Rightarrow> [] | Some x \<Rightarrow> [x]),
                            \<not> win_headless x \<and> \<not> win_closing x \<and> win_entered_outputs x \<noteq> []]
             in if rates = [] then 60000 else Max (set rates))
          else window_refresh env w)"

definition refresh_one :: "app_env \<Rightarrow> task_object_id \<Rightarrow> bool ap_op" where
  "refresh_one env object = (\<lambda>a.
     let refresh = task_refresh_millihz env a object in
     case fmlookup (ap_tasks a) object of
       None \<Rightarrow> (Inl (PeUnknownTask object), a)
     | Some w \<Rightarrow>
         if win_configure_serial w = 0 \<or> win_refresh_millihz w = refresh then (Inr False, a)
         else op_bind (on_endpoint (send_configure (ae_host env) object (win_configure_serial w)
               (fst (win_buffer_size w)) (snd (win_buffer_size w)) (win_applied_scale_120 w)
               FRACTIONAL_SCALE_DENOMINATOR TransformNormal refresh))
             (\<lambda>_. op_bind (on_win object (\<lambda>x. (Inr (), x\<lparr>win_refresh_millihz := refresh\<rparr>)))
             (\<lambda>_. op_return (\<not> win_headless w))) a)"

definition update_task_refresh :: "app_env \<Rightarrow> task_object_id \<Rightarrow> unit ap_op" where
  "update_task_refresh env object =
     op_bind (refresh_one env object) (\<lambda>changed a.
     if \<not> changed then (Inr (), a)
     else case find (\<lambda>i. case fmlookup (ap_tasks a) i of None \<Rightarrow> False | Some w \<Rightarrow> win_headless w)
             (task_objects a) of
       None \<Rightarrow> (Inr (), a)
     | Some bootstrap \<Rightarrow> op_bind (refresh_one env bootstrap) (\<lambda>_. op_return ()) a)"

definition update_output_refreshes :: "app_env \<Rightarrow> unit ap_op" where
  "update_output_refreshes env = (\<lambda>a. op_each (update_task_refresh env) (task_objects a) a)"

subsection \<open>Render targets\<close>

definition TARGET_POOL_LENGTH :: nat where "TARGET_POOL_LENGTH = 3"

definition allocate_buffer_id :: "buffer_id ap_op" where
  "allocate_buffer_id = (\<lambda>a.
     case checked_add (ap_next_buffer_id a) 1 of
       None \<Rightarrow> (Inl (PeConfiguration ''buffer identity exhausted''), a)
     | Some ident \<Rightarrow> (Inr ident, a\<lparr>ap_next_buffer_id := ident\<rparr>))"

definition ARGB8888 :: u32 where "ARGB8888 = 0x34325241"
definition XRGB8888 :: u32 where "XRGB8888 = 0x34325258"

text \<open>Only the linear modifier 0 is taken, so sorting and removing duplicates leaves one entry.\<close>

definition selected_format :: "app \<Rightarrow> (presenter_error, u32) result" where
  "selected_format a =
     (case ap_formats a of
        None \<Rightarrow> Inl PeDmabufV4Required
      | Some formats \<Rightarrow>
          if (ARGB8888, 0) \<in> set formats then Inr ARGB8888
          else if (XRGB8888, 0) \<in> set formats then Inr XRGB8888
          else Inl PeNoRenderFormat)"

definition published_formats :: "app \<Rightarrow> (presenter_error, format_modifier list) result" where
  "published_formats a =
     bind_result (selected_format a) (\<lambda>code. Inr [\<lparr>fourcc = code, modifier = 0\<rparr>])"

definition allocate_target :: "app_env \<Rightarrow> buffer_id \<Rightarrow> u32 \<Rightarrow> u32 \<Rightarrow> app \<Rightarrow> (presenter_error, present_target) result" where
  "allocate_target env ident width height a =
     bind_result (selected_format a) (\<lambda>code.
     case ae_gbm env ident width height code of
       None \<Rightarrow> Inl PeGbm
     | Some allocation \<Rightarrow>
         let planes = ga_planes allocation in
         if length planes < 1 \<or> 4 < length planes \<or> list_ex (\<lambda>(_, _, fd). fd = None) planes then Inl PeGbm
         else Inr \<lparr>pt_metadata = \<lparr>buf_id = ident, buf_width = width, buf_height = height,
                buf_format = \<lparr>fourcc = code, modifier = ga_modifier allocation\<rparr>,
                buf_planes = map (\<lambda>(i, offset, stride, _).
                   \<lparr>pl_index = word_of_nat i, pl_offset = offset, pl_stride = stride\<rparr>)
                   (enumerate 0 planes)\<rparr>,
              pt_planes = map (\<lambda>(_, _, fd). the fd) planes, pt_wayland = None, pt_sync = None,
              pt_host_owned = True, pt_retired = False, pt_busy = False\<rparr>)"

fun allocate_pool :: "app_env \<Rightarrow> nat \<Rightarrow> u32 \<Rightarrow> u32 \<Rightarrow> present_target list ap_op" where
  "allocate_pool env 0 width height = op_return []"
| "allocate_pool env (Suc n) width height =
     op_bind allocate_buffer_id (\<lambda>ident a.
     case allocate_target env ident width height a of
       Inl e \<Rightarrow> (Inl e, a)
     | Inr t \<Rightarrow> op_bind (allocate_pool env n width height) (\<lambda>ts. op_return (t # ts)) a)"

text \<open>
  A failed registration takes back those already made and ignores further errors; the endpoint is unwrapped
  there, since the registration has just used it.
\<close>

definition withdraw_target :: "app_env \<Rightarrow> task_object_id \<Rightarrow> present_target \<Rightarrow> unit ap_op" where
  "withdraw_target env object t = (\<lambda>a.
     case ap_endpoint a of
       None \<Rightarrow> (Inl (PePanic ''unwrap''), a)
     | Some e \<Rightarrow> (Inr (), a\<lparr>ap_endpoint := Some (snd (unregister_render_target (ae_host env) object
         (buf_id (pt_metadata t)) e))\<rparr>))"

fun publish_targets :: "app_env \<Rightarrow> task_object_id \<Rightarrow> u32 \<Rightarrow> present_target list \<Rightarrow> present_target list \<Rightarrow> unit ap_op" where
  "publish_targets env object serial published [] = op_return ()"
| "publish_targets env object serial published (t # ts) = (\<lambda>a.
     if ap_endpoint a = None then (Inl (PeConfiguration ''endpoint disappeared''), a)
     else case on_endpoint (register_render_target (ae_host env) object serial (pt_metadata t) (pt_planes t)) a of
       (Inr _, a1) \<Rightarrow> publish_targets env object serial (published @ [t]) ts a1
     | (Inl err, a1) \<Rightarrow>
         op_bind (op_each (withdraw_target env object) published) (\<lambda>_. op_lift (Inl err)) a1)"

definition ensure_render_targets :: "app_env \<Rightarrow> task_object_id \<Rightarrow> u32 \<Rightarrow> unit ap_op" where
  "ensure_render_targets env object serial = (\<lambda>a.
     case fmlookup (ap_tasks a) object of
       None \<Rightarrow> (Inl (PeUnknownTask object), a)
     | Some w \<Rightarrow>
         if (\<not> win_headless w \<and> \<not> accepts_present w) \<or> win_closing w \<or> win_unmap_requested w
           \<or> win_configure_serial w \<noteq> serial
           \<or> \<not> fmpred (\<lambda>_ t. \<not> (pt_host_owned t \<and> \<not> pt_retired t)) (win_targets w)
         then (Inr (), a)
         else
           op_bind (allocate_pool env TARGET_POOL_LENGTH (fst (win_buffer_size w)) (snd (win_buffer_size w)))
             (\<lambda>targets. op_bind (publish_targets env object serial [] targets) (\<lambda>_.
             the_win ''unwrap'' object (\<lambda>x. (Inr (), x\<lparr>win_targets :=
                fold (\<lambda>t m. fmupd (buf_id (pt_metadata t)) t m) targets (win_targets x)\<rparr>)))) a)"

definition discard_target :: "buffer_id \<Rightarrow> presenter_window \<Rightarrow> presenter_window" where
  "discard_target buffer w =
     (case fmlookup (win_targets w) buffer of
        None \<Rightarrow> w
      | Some t \<Rightarrow> win_request (case pt_wayland t of None \<Rightarrow> [] | Some b \<Rightarrow> [WlDestroyBuffer b])
          (w\<lparr>win_targets := fmdrop buffer (win_targets w)\<rparr>))"

definition remove_target :: "task_object_id \<Rightarrow> buffer_id \<Rightarrow> app \<Rightarrow> app" where
  "remove_target object buffer a =
     (case fmlookup (ap_tasks a) object of None \<Rightarrow> a | Some w \<Rightarrow> put_win object (discard_target buffer w) a)"

definition unregister_target :: "app_env \<Rightarrow> task_object_id \<Rightarrow> buffer_id \<Rightarrow> unit ap_op" where
  "unregister_target env object buffer =
     op_bind (on_endpoint (unregister_render_target (ae_host env) object buffer))
       (\<lambda>_ a. (Inr (), remove_target object buffer a))"

definition retire_host_targets :: "app_env \<Rightarrow> task_object_id \<Rightarrow> unit ap_op" where
  "retire_host_targets env object = (\<lambda>a.
     case fmlookup (ap_tasks a) object of
       None \<Rightarrow> (Inl (PeUnknownTask object), a)
     | Some w \<Rightarrow>
         let idle = filter (\<lambda>i. case fmlookup (win_targets w) i of
                      None \<Rightarrow> False | Some t \<Rightarrow> pt_host_owned t \<and> \<not> pt_busy t)
                    (sorted_list_of_fset (fmdom (win_targets w)));
             w1 = w\<lparr>win_targets := fmmap (\<lambda>t. if pt_host_owned t then t\<lparr>pt_retired := True\<rparr> else t)
                      (win_targets w)\<rparr>
         in op_each (unregister_target env object) idle (put_win object w1 a))"

definition register_android_buffer :: "task_object_id \<Rightarrow> buffer_metadata \<Rightarrow> owned_fd list \<Rightarrow> unit win_op" where
  "register_android_buffer object metadata planes = (\<lambda>w.
     if buf_id metadata |\<in>| fmdom (win_targets w)
     then (Inl (PeConfiguration ''duplicate local buffer identity''), w)
     else (Inr (), w\<lparr>win_targets := fmupd (buf_id metadata)
        \<lparr>pt_metadata = metadata, pt_planes = planes, pt_wayland = None, pt_sync = None,
         pt_host_owned = False, pt_retired = False, pt_busy = False\<rparr> (win_targets w)\<rparr>))"

definition unregister_android_buffer :: "task_object_id \<Rightarrow> buffer_id \<Rightarrow> unit win_op" where
  "unregister_android_buffer object buffer = (\<lambda>w.
     if buffer |\<notin>| fmdom (win_targets w) then (Inl (PeUnknownBuffer object buffer), w)
     else (Inr (), discard_target buffer w))"

subsection \<open>Resizing\<close>

definition apply_size :: "u32 \<times> u32 \<Rightarrow> u32 \<Rightarrow> u32 \<times> u32 \<Rightarrow> u32 \<Rightarrow> u32 \<Rightarrow> unit win_op" where
  "apply_size logical scale_120 physical serial refresh = (\<lambda>w.
     let w1 = w\<lparr>win_logical_size := Some logical, win_applied_scale_120 := scale_120,
                win_applied_opaque := None, win_buffer_size := physical,
                win_configure_serial := serial, win_refresh_millihz := refresh\<rparr>
     in if \<not> win_viewport w then (Inr (), w1)
        else if 2 ^ 31 \<le> unat (fst logical) then (Inl (PeConfiguration ''logical width exceeds Wayland''), w1)
        else if 2 ^ 31 \<le> unat (snd logical) then (Inl (PeConfiguration ''logical height exceeds Wayland''), w1)
        else (Inr (), win_request (case win_surface w1 of None \<Rightarrow> []
               | Some surface \<Rightarrow> [WlDestination surface (fst logical) (snd logical)]) w1))"

definition needs_configure :: "resize_configure \<Rightarrow> u32 \<times> u32 \<Rightarrow> presenter_window \<Rightarrow> bool" where
  "needs_configure c physical w \<longleftrightarrow> win_configure_serial w = 0
     \<or> changes_geometry c (win_logical_size w) (win_applied_scale_120 w)
     \<or> win_buffer_size w \<noteq> physical"

definition next_configure_serial :: "task_object_id \<Rightarrow> u32 ap_op" where
  "next_configure_serial object = (\<lambda>a.
     (ok_or (PeConfiguration ''configure serial exhausted'')
        (Option.bind (fmlookup (ap_tasks a) object) (\<lambda>w. checked_add (win_configure_serial w) 1)), a))"

definition publish_configure :: "app_env \<Rightarrow> task_object_id \<Rightarrow> resize_configure \<Rightarrow> u32 \<times> u32 \<Rightarrow> u32 ap_op" where
  "publish_configure env object c physical =
     op_bind (next_configure_serial object) (\<lambda>serial a.
     let refresh = task_refresh_millihz env a object in
     op_bind (on_win object (apply_size (rc_width c, rc_height c) (rc_scale_120 c) physical serial refresh))
       (\<lambda>_. op_bind (on_endpoint (send_configure (ae_host env) object serial (fst physical) (snd physical)
          (rc_scale_120 c) FRACTIONAL_SCALE_DENOMINATOR TransformNormal refresh))
       (\<lambda>_. op_return serial)) a)"

definition configure_task :: "app_env \<Rightarrow> task_object_id \<Rightarrow> resize_configure \<Rightarrow> unit ap_op" where
  "configure_task env object c = (\<lambda>a.
     case (scale_dimension (rc_width c) (rc_scale_120 c), scale_dimension (rc_height c) (rc_scale_120 c)) of
       (Inl e, _) \<Rightarrow> (Inl e, a)
     | (_, Inl e) \<Rightarrow> (Inl e, a)
     | (Inr width, Inr height) \<Rightarrow>
         case fmlookup (ap_tasks a) object of
           None \<Rightarrow> (Inl (PeUnknownTask object), a)
         | Some w \<Rightarrow>
             if \<not> needs_configure c (width, height) w then (Inr (), a)
             else
               op_bind (abort_timeline_work env object TerminalConfigure) (\<lambda>_.
               op_bind (retire_host_targets env object) (\<lambda>_.
               op_bind (publish_configure env object c (width, height)) (\<lambda>serial.
               op_bind (\<lambda>a1. if (case ap_endpoint a1 of None \<Rightarrow> False | Some e \<Rightarrow> ep_lazy_render_targets e)
                   then (Inr (), a1) else ensure_render_targets env object serial a1) (\<lambda>_.
               update_output_refreshes env)))) a)"

text \<open>A size the user left a window at is remembered; a failure to store it is only logged.\<close>

definition remember_size :: "app_env \<Rightarrow> task_object_id \<Rightarrow> resize_configure \<Rightarrow> unit ap_op" where
  "remember_size env object c = (\<lambda>a.
     if \<not> rc_remember c then (Inr (), a)
     else case fmlookup (ap_tasks a) object of
       None \<Rightarrow> (Inl (PePanic ''configured task exists''), a)
     | Some w \<Rightarrow>
         (Inr (), a\<lparr>ap_policy := snd (wp_remember (ae_save_sizes env) (win_package w)
            \<lparr>lg_width = rc_width c, lg_height = rc_height c\<rparr> (ap_policy a))\<rparr>))"

definition apply_pending_resize :: "app_env \<Rightarrow> task_object_id \<Rightarrow> unit ap_op" where
  "apply_pending_resize env object = (\<lambda>a.
     case fmlookup (ap_tasks a) object of
       None \<Rightarrow> (Inr (), a)
     | Some w \<Rightarrow>
         case rp_take (win_resize w) of
           (None, _) \<Rightarrow> (Inr (), a)
         | (Some c, p) \<Rightarrow>
             let a1 = put_win object (w\<lparr>win_resize := p\<rparr>) a in
             if \<not> accepts_present w then (Inr (), a1)
             else op_bind (configure_task env object c) (\<lambda>_. remember_size env object c) a1)"

subsection \<open>Frames the compositor has finished with\<close>

text \<open>
  The scan of the pending frames of one window: those whose release point is signalled are taken out, in
  order, the others stay; an error ends the scan where it is.
\<close>

fun collect_ready ::
  "drm_kernel \<Rightarrow> (buffer_id, present_target) fmap \<Rightarrow> pending_frame list
     \<Rightarrow> (presenter_error, pending_frame list) result \<times> pending_frame list" where
  "collect_ready k targets [] = (Inr [], [])"
| "collect_ready k targets (p # ps) =
     (case Option.bind (fmlookup targets (pf_buffer p)) pt_sync of
        None \<Rightarrow> (Inl (PeConfiguration ''pending buffer timeline is absent''), p # ps)
      | Some bs \<Rightarrow>
          case wayland_signalled_point k (bs_timeline bs) of
            Inl e \<Rightarrow> (Inl (PeSyncobj e), p # ps)
          | Inr signalled \<Rightarrow>
              (case collect_ready k targets ps of (outcome, kept) \<Rightarrow>
                 if signalled < pf_release_point p then (outcome, p # kept)
                 else (bind_result outcome (\<lambda>ready. Inr (p # ready)), kept)))"

definition collect_object :: "app_env \<Rightarrow> task_object_id \<Rightarrow> (task_object_id \<times> pending_frame) list ap_op" where
  "collect_object env object = (\<lambda>a.
     case fmlookup (ap_tasks a) object of
       None \<Rightarrow> (Inr [], a)
     | Some w \<Rightarrow>
         (case collect_ready (ve_drm (ae_view env)) (win_targets w) (win_pending w) of
            (outcome, kept) \<Rightarrow>
              (bind_result outcome (\<lambda>ready. Inr (map (Pair object) ready)),
               put_win object (w\<lparr>win_pending := kept\<rparr>) a)))"

fun collect_objects :: "app_env \<Rightarrow> task_object_id list \<Rightarrow> (task_object_id \<times> pending_frame) list ap_op" where
  "collect_objects env [] = op_return []"
| "collect_objects env (object # rest) =
     op_bind (collect_object env object) (\<lambda>ready.
     op_bind (collect_objects env rest) (\<lambda>more_ready. op_return (ready @ more_ready)))"

definition free_target :: "task_object_id \<Rightarrow> buffer_id \<Rightarrow> (bool \<times> bool) win_op" where
  "free_target object buffer =
     op_bind (on_target object buffer (\<lambda>t. (Inr (pt_retired t \<and> pt_host_owned t), t\<lparr>pt_busy := False\<rparr>)))
       (\<lambda>retired w. (Inr (retired, win_closing w), w))"

definition settle_frame :: "app_env \<Rightarrow> task_object_id \<times> pending_frame \<Rightarrow> unit ap_op" where
  "settle_frame env = (\<lambda>(object, p).
     op_bind (on_endpoint (finish_release (ae_host env) object (pf_frame p))) (\<lambda>_.
     op_bind (on_win object (free_target object (pf_buffer p))) (\<lambda>(retired, closing).
     if retired \<and> \<not> closing then unregister_target env object (pf_buffer p) else op_return ())))"

definition win_finished :: "presenter_window \<Rightarrow> bool" where
  "win_finished w \<longleftrightarrow> win_closing w \<and> win_pending w = []
     \<and> (case win_layers w of None \<Rightarrow> True | Some s \<Rightarrow> \<not> st_busy s)"

definition app_fail :: "presenter_error \<Rightarrow> app \<Rightarrow> app" where
  "app_fail e a = a\<lparr>ap_fatal := Some e\<rparr>"

definition or_fail :: "unit ap_op \<Rightarrow> app \<Rightarrow> app" where
  "or_fail f a = (case f a of (Inl e, a1) \<Rightarrow> app_fail e a1 | (Inr _, a1) \<Rightarrow> a1)"

definition remove_task :: "app_env \<Rightarrow> task_object_id \<Rightarrow> app \<Rightarrow> app" where
  "remove_task env object a =
     (let a1 = app_retire_feedback object TerminalEpoch a;
          a2 = a1\<lparr>ap_tasks := fmdrop object (ap_tasks a1)\<rparr>
      in if ap_endpoint a2 = None then a2 else or_fail (update_output_refreshes env) a2)"

definition remove_if_finished :: "app_env \<Rightarrow> task_object_id \<Rightarrow> app \<Rightarrow> app" where
  "remove_if_finished env object a =
     (case fmlookup (ap_tasks a) object of
        None \<Rightarrow> a | Some w \<Rightarrow> if win_finished w then remove_task env object a else a)"

definition release_ready_frames :: "app_env \<Rightarrow> task_object_id list \<Rightarrow> task_object_id list \<Rightarrow> unit ap_op" where
  "release_ready_frames env objects cleanup =
     op_bind (collect_objects env objects) (\<lambda>ready.
     op_bind (op_each (settle_frame env) ready) (\<lambda>_ a.
     (Inr (), fold (remove_if_finished env) cleanup a)))"

subsection \<open>Closing\<close>

definition destroy_window :: "wl_id \<Rightarrow> presenter_window \<Rightarrow> presenter_window" where
  "destroy_window surface w =
     (let w1 = win_request [WlAttach surface None, WlCommit surface] w;
          w2 = w1\<lparr>win_timeline := snd (ft_stop (win_timeline w1)),
                  win_layers := map_option (\<lambda>s. snd (st_hide s)) (win_layers w1)\<rparr>
      in (win_request ((if win_sync_surface w2 then [WlDestroySync surface] else []) @ [WlDestroyToplevel surface]) w2)
           \<lparr>win_viewport := False, win_sync_surface := False, win_surface := None,
            win_unmap_requested := False\<rparr>)"

definition unmap_task_window :: "app_env \<Rightarrow> task_object_id \<Rightarrow> unit ap_op" where
  "unmap_task_window env object =
     op_bind (abort_timeline_work env object TerminalConfigure) (\<lambda>_.
     on_win object (\<lambda>w.
       let w1 = w\<lparr>win_resize := rp_cancel (win_resize w)\<rparr> in
       case win_surface w1 of None \<Rightarrow> (Inr (), w1) | Some surface \<Rightarrow> (Inr (), destroy_window surface w1)))"

definition unmap_requested_task :: "app_env \<Rightarrow> task_object_id \<Rightarrow> unit ap_op" where
  "unmap_requested_task env object = (\<lambda>a.
     if object |\<notin>| fmdom (ap_tasks a) then (Inr (), a)
     else op_bind (unmap_task_window env object) (\<lambda>_ a1. (Inr (), remove_if_finished env object a1)) a)"

definition win_destroy :: "unit win_op" where
  "win_destroy = (\<lambda>w. (Inr (), w\<lparr>win_closing := True, win_unmap_requested := True\<rparr>))"

definition request_close :: "app_env \<Rightarrow> task_object_id \<Rightarrow> app \<Rightarrow> app" where
  "request_close env object a =
     (case ap_endpoint a of
        None \<Rightarrow> a
      | Some _ \<Rightarrow>
          case on_endpoint (send_close (ae_host env) object) a of
            (Inl e, a1) \<Rightarrow> app_fail e a1
          | (Inr _, a1) \<Rightarrow>
              (case fmlookup (ap_tasks a1) object of
                 None \<Rightarrow> a1 | Some w \<Rightarrow> put_win object (w\<lparr>win_unmap_requested := True\<rparr>) a1))"

subsection \<open>Outputs and scales\<close>

definition task_for_surface :: "wl_id \<Rightarrow> app \<Rightarrow> task_object_id option" where
  "task_for_surface surface a =
     find (\<lambda>i. case fmlookup (ap_tasks a) i of None \<Rightarrow> False | Some w \<Rightarrow> win_surface w = Some surface)
       (task_objects a)"

definition surface_enter :: "app_env \<Rightarrow> wl_id \<Rightarrow> wl_output \<Rightarrow> app \<Rightarrow> app" where
  "surface_enter env surface out a =
     (case task_for_surface surface a of
        None \<Rightarrow> a
      | Some object \<Rightarrow>
          or_fail (op_bind (the_win ''surface has a task'' object (\<lambda>w. (Inr (), if out \<in> set (win_entered_outputs w) then w
                else w\<lparr>win_entered_outputs := win_entered_outputs w @ [out]\<rparr>)))
            (\<lambda>_. update_task_refresh env object)) a)"

definition leave_output :: "wl_output \<Rightarrow> presenter_window \<Rightarrow> presenter_window" where
  "leave_output out w =
     w\<lparr>win_entered_outputs := filter (\<lambda>x. x \<noteq> out) (win_entered_outputs w),
       win_presentation_output := (if win_presentation_output w = Some out then None
         else win_presentation_output w)\<rparr>"

definition surface_leave :: "app_env \<Rightarrow> wl_id \<Rightarrow> wl_output \<Rightarrow> app \<Rightarrow> app" where
  "surface_leave env surface out a =
     (case task_for_surface surface a of
        None \<Rightarrow> a
      | Some object \<Rightarrow>
          or_fail (op_bind (the_win ''surface has a task'' object (\<lambda>w. (Inr (), leave_output out w)))
            (\<lambda>_. update_task_refresh env object)) a)"

definition preferred_scale :: "task_object_id \<Rightarrow> u32 \<Rightarrow> app \<Rightarrow> app" where
  "preferred_scale object scale a =
     (if scale = 0 then app_fail (PeConfiguration ''compositor advertised a zero fractional scale'') a
      else case fmlookup (ap_tasks a) object of
        None \<Rightarrow> a
      | Some w \<Rightarrow>
          if accepts_present w
          then put_win object (w\<lparr>win_resize :=
                 snd (rp_preferred_scale scale (win_logical_size w) (win_resize w))\<rparr>) a
          else a)"

subsection \<open>Presentation feedback\<close>

definition discarded_scene :: "nat \<Rightarrow> terminal \<Rightarrow> presenter_window \<Rightarrow> presenter_window" where
  "discarded_scene index t w =
     w\<lparr>win_timeline := ft_finish (fb_grant (win_scene_feedback w ! index)) t (win_timeline w),
       win_scene_feedback := swap_remove index (win_scene_feedback w)\<rparr>"

definition scene_position :: "wl_id \<Rightarrow> app \<Rightarrow> (task_object_id \<times> nat) option" where
  "scene_position feedback a =
     Option.bind (find (\<lambda>i. case fmlookup (ap_tasks a) i of
           None \<Rightarrow> False | Some w \<Rightarrow> list_ex (\<lambda>f. fb_proxy f = feedback) (win_scene_feedback w)) (task_objects a))
       (\<lambda>i. Option.bind (fmlookup (ap_tasks a) i) (\<lambda>w.
          map_option (Pair i) (position (\<lambda>f. fb_proxy f = feedback) (win_scene_feedback w))))"

definition feedback_discarded :: "wl_id \<Rightarrow> wl_id \<Rightarrow> app \<Rightarrow> app" where
  "feedback_discarded feedback surface a =
     (case scene_position feedback a of
        Some (object, index) \<Rightarrow>
          (case fmlookup (ap_tasks a) object of
             None \<Rightarrow> app_fail (PePanic ''unwrap'') a
           | Some w \<Rightarrow> put_win object (discarded_scene index TerminalMissed w) a)
      | None \<Rightarrow>
          case task_for_surface surface a of
            None \<Rightarrow> a
          | Some object \<Rightarrow>
              case fmlookup (ap_tasks a) object of
                None \<Rightarrow> a
              | Some w \<Rightarrow>
                  case position (\<lambda>f. ff_proxy f = feedback) (win_presentation_feedback w) of
                    None \<Rightarrow> a
                  | Some index \<Rightarrow>
                      let f = win_presentation_feedback w ! index in
                      (put_win object (w\<lparr>win_timeline := ft_finish (ff_grant f) TerminalMissed (win_timeline w),
                          win_presentation_feedback := swap_remove index (win_presentation_feedback w)\<rparr>) a)
                      \<lparr>ap_endpoint := map_option (forget_presentation object (ff_frame f)) (ap_endpoint a)\<rparr>)"

record present_time =
  tm_clock :: u32
  tm_sec :: u64
  tm_nsec :: u32
  tm_refresh :: u32
  tm_sequence :: u64
  tm_zero_copy :: bool

definition CLOCK_MONOTONIC :: u32 where "CLOCK_MONOTONIC = 1"

definition timestamp_of :: "present_time \<Rightarrow> (presenter_error, u64) result" where
  "timestamp_of time =
     map_err (\<lambda>e. PeConfiguration (case e of
         NanosecondsInvalid \<Rightarrow> ''presentation timestamp nanoseconds are invalid''
       | TimestampOverflow \<Rightarrow> ''presentation timestamp overflowed nanoseconds''))
       (presentation_timestamp_nanos (tm_sec time) (tm_nsec time))"

text \<open>Feedback of a direct scene: late feedback only ends its grant.\<close>

definition scene_output :: "wl_output list \<Rightarrow> presenter_window \<Rightarrow> wl_output option" where
  "scene_output outputs w =
     (case find (\<lambda>x. x \<in> set (win_entered_outputs w)) outputs of
        Some x \<Rightarrow> Some x
      | None \<Rightarrow> if outputs = [] \<and> length (win_entered_outputs w) = 1
                then Some (win_entered_outputs w ! 0) else None)"

definition report_scene :: "app_env \<Rightarrow> task_object_id \<Rightarrow> u64 \<Rightarrow> present_time \<Rightarrow> bool \<Rightarrow> unit ap_op" where
  "report_scene env object scene time changed =
     op_bind (if changed then update_task_refresh env object else op_return ()) (\<lambda>_.
     op_bind (the_win ''no entry found for key'' object
         (\<lambda>w. (presentation_refresh_period (tm_refresh time) (win_refresh_millihz w), w)))
       (\<lambda>refresh. op_bind (op_lift (timestamp_of time)) (\<lambda>timestamp.
     if scene = 0 then op_return ()
     else with_endpoint ''endpoint is absent'' (send_scene_presented (ae_host env) object scene timestamp refresh (tm_sequence time)))))"

definition scene_presented ::
  "app_env \<Rightarrow> task_object_id \<Rightarrow> nat \<Rightarrow> wl_output list \<Rightarrow> present_time \<Rightarrow> presenter_window \<Rightarrow> app \<Rightarrow> app" where
  "scene_presented env object index outputs time w a =
     (let observed = win_scene_feedback w ! index; out = scene_output outputs w in
      if \<not> accepts_present w \<or> fb_configure_serial observed \<noteq> win_configure_serial w
        \<or> out = None \<or> tm_clock time \<noteq> CLOCK_MONOTONIC
      then put_win object (discarded_scene index TerminalConfigure w) a
      else
        or_fail (report_scene env object (fb_scene observed) time (win_presentation_output w \<noteq> out))
          (put_win object ((discarded_scene index TerminalPresented w)\<lparr>win_presentation_output := out\<rparr>) a))"

definition complete_feedback :: "wl_id \<Rightarrow> (frame_id \<times> u32) win_op" where
  "complete_feedback feedback = (\<lambda>w.
     case position (\<lambda>f. ff_proxy f = feedback) (win_presentation_feedback w) of
       None \<Rightarrow> (Inl (PeConfiguration ''presentation feedback has no submitted frame''), w)
     | Some index \<Rightarrow>
         let f = win_presentation_feedback w ! index in
         (Inr (ff_frame f, win_refresh_millihz w),
          w\<lparr>win_timeline := ft_finish (ff_grant f) TerminalPresented (win_timeline w),
            win_presentation_feedback := swap_remove index (win_presentation_feedback w)\<rparr>))"

definition report_frame :: "app_env \<Rightarrow> task_object_id \<Rightarrow> wl_id \<Rightarrow> present_time \<Rightarrow> unit ap_op" where
  "report_frame env object feedback time =
     op_bind (op_lift (reject_if (tm_clock time \<noteq> CLOCK_MONOTONIC)
       (PeConfiguration ''presentation clock is not CLOCK_MONOTONIC''))) (\<lambda>_.
     op_bind (on_win object (complete_feedback feedback)) (\<lambda>(frame, advertised).
     op_bind (op_lift (timestamp_of time)) (\<lambda>timestamp.
     op_bind (the_win ''task was just checked'' object (\<lambda>w. (Inr (), w))) (\<lambda>_.
     op_bind (op_lift (presentation_refresh_period (tm_refresh time) advertised)) (\<lambda>refresh.
     with_endpoint ''endpoint is absent'' (send_presented (ae_host env) object frame timestamp refresh (tm_sequence time)
       (if tm_zero_copy time then FLAG_DISPLAYED OR FLAG_DIRECT_SCANOUT
        else FLAG_DISPLAYED OR FLAG_COMPOSITED)))))))"

definition presented_output :: "app_env \<Rightarrow> task_object_id \<Rightarrow> wl_output list \<Rightarrow> unit ap_op" where
  "presented_output env object outputs = (\<lambda>a.
     case fmlookup (ap_tasks a) object of
       None \<Rightarrow> (Inl (PePanic ''surface has a task''), a)
     | Some w \<Rightarrow>
         case find (\<lambda>x. x \<in> set (win_entered_outputs w)) outputs of
           None \<Rightarrow> (Inr (), a)
         | Some out \<Rightarrow>
             if win_presentation_output w = Some out then (Inr (), a)
             else update_task_refresh env object (put_win object (w\<lparr>win_presentation_output := Some out\<rparr>) a))"

definition feedback_presented ::
  "app_env \<Rightarrow> wl_id \<Rightarrow> wl_id \<Rightarrow> wl_output list \<Rightarrow> present_time \<Rightarrow> app \<Rightarrow> app" where
  "feedback_presented env feedback surface outputs time a =
     (case scene_position feedback a of
        Some (object, index) \<Rightarrow>
          (case fmlookup (ap_tasks a) object of
             None \<Rightarrow> app_fail (PePanic ''unwrap'') a
           | Some w \<Rightarrow> scene_presented env object index outputs time w a)
      | None \<Rightarrow>
          case task_for_surface surface a of
            None \<Rightarrow> a
          | Some object \<Rightarrow>
              case fmlookup (ap_tasks a) object of
                None \<Rightarrow> app_fail (PePanic ''surface has a task'') a
              | Some w \<Rightarrow>
                  if \<not> list_ex (\<lambda>f. ff_proxy f = feedback) (win_presentation_feedback w) then a
                  else or_fail (op_bind (presented_output env object outputs)
                         (\<lambda>_. report_frame env object feedback time)) a)"

subsection \<open>Actions of the endpoint\<close>

definition app_create_task :: "app_env \<Rightarrow> task_object_id \<Rightarrow> rust_string \<Rightarrow> unit ap_op" where
  "app_create_task env object package = (\<lambda>a.
     let headless = (package = BOOTSTRAP_PACKAGE);
         policy = (if headless then ap_policy a else snd (reload_policy (ae_policy_file env) (ap_policy a)));
         a1 = put_win object (win_new package (if headless then None else Some (ve_surface (ae_view env)))
                (ap_manager a)) (a\<lparr>ap_policy := policy\<rparr>)
     in case published_formats a1 of
          Inl e \<Rightarrow> (Inl e, a1)
        | Inr formats \<Rightarrow>
            op_bind (on_endpoint (send_format_feedback (ae_host env) object 1 formats)) (\<lambda>_ a2.
            if \<not> headless then (Inr (), a2)
            else case ae_canvas env of
              None \<Rightarrow> (Inl (PeConfiguration ''Wayland output has no current pixel mode''), a2)
            | Some (width, height) \<Rightarrow>
                configure_task env object \<lparr>rc_width = width, rc_height = height,
                  rc_scale_120 = FRACTIONAL_SCALE_DENOMINATOR, rc_remember = False\<rparr> a2) a1)"

definition bind_layers :: "app_env \<Rightarrow> owned_fd list \<Rightarrow> unit win_op" where
  "bind_layers env sockets = (\<lambda>w.
     if win_layers w \<noteq> None \<or> length sockets \<noteq> 2 \<or> win_headless w
     then (Inl (PeConfiguration ''invalid layer stream binding''), w)
     else case ae_sockets env of
       Inl e \<Rightarrow> (Inl (PeIpc e), w)
     | Inr _ \<Rightarrow> (Inr (), w\<lparr>win_layers := Some st_new\<rparr>))"

text \<open>
  \<open>process_action\<close>.  Input channels, input routes and activation requests change the input and
  activation components only; here they leave the presenter as it is, as do the actions the code
  ignores.
\<close>

fun process_action ::
  "app_env \<Rightarrow> endpoint_action \<Rightarrow> unit ap_op" where
  "process_action env (ActRequestRenderTargets object serial) = ensure_render_targets env object serial"
| "process_action env (ActBindLayerStream object sockets) = on_win object (bind_layers env sockets)"
| "process_action env (ActSetContentState object flags) =
     on_win object (\<lambda>w. (Inr (), w\<lparr>win_content_opaque := (flags AND CONTENT_OPAQUE \<noteq> 0)\<rparr>))"
| "process_action env (ActCreateTask object display package) =
     app_create_task env object package"
| "process_action env (ActDestroyTask object) = on_win object win_destroy"
| "process_action env (ActRegisterBuffer object buffer planes) =
     on_win object (register_android_buffer object buffer planes)"
| "process_action env (ActUnregisterBuffer object buffer) =
     on_win object (unregister_android_buffer object buffer)"
| "process_action env (ActPresent frame fence) = queue_present env frame fence"
| "process_action env _ = op_return ()"

definition disconnect_endpoint :: "app_env \<Rightarrow> app \<Rightarrow> app" where
  "disconnect_endpoint env a =
     fold (remove_task env) (task_objects a) (a\<lparr>ap_endpoint := None\<rparr>)"

definition endpoint_would_block :: "endpoint_error \<Rightarrow> bool" where
  "endpoint_would_block e = (e = EpIpc (IpcIo 11))" \<comment> \<open>EAGAIN\<close>

text \<open>One turn of \<open>drain_endpoint\<close>: whether the loop goes on.\<close>

definition drain_endpoint_once :: "app_env \<Rightarrow> bool ap_op" where
  "drain_endpoint_once env = (\<lambda>a.
     case ap_endpoint a of
       None \<Rightarrow> (Inr False, a)
     | Some e \<Rightarrow>
         case receive_action (ae_host env) e of
           (Inl err, e1) \<Rightarrow>
             let a1 = a\<lparr>ap_endpoint := Some e1\<rparr> in
             (Inr False, if endpoint_would_block err then a1 else disconnect_endpoint env a1)
         | (Inr action, e1) \<Rightarrow>
             op_bind (process_action env action) (\<lambda>_. op_return True)
               (a\<lparr>ap_endpoint := Some e1\<rparr>))"

end
