(* ===== verification/Layer_Scenes.thy ===== *)
theory Layer_Scenes
  imports Presenter_Windows
begin

section \<open>Scenes of direct layers\<close>

text \<open>
  The \<open>App\<close> half of \<open>graphics/droidloom-wayland/src/layers.rs\<close>: the requests of SurfaceFlinger's layer
  stream, the admission of a scene, its commit on the window, the compositor's import answers and the
  retry of a waiting scene when reads are released.  As in the code, a request is handled with the
  stream taken out of its window and put back afterwards, so the operations work on the presenter and
  the stream side by side.  The barrier of \<open>drain_layers\<close>, which drains the other socket first, is the
  order in which operations are called and not part of one of them.
\<close>

subsection \<open>The backing of the root surface\<close>

function euclid :: "u32 \<Rightarrow> u32 \<Rightarrow> u32" where
  "euclid a b = (if b = 0 then a else euclid b (a mod b))"
  by pat_completeness auto
termination
proof (relation "measure (\<lambda>(a, b). unat b)")
  fix a b :: u32
  assume "b \<noteq> 0"
  then have "0 < unat b" by (simp add: unat_gt_0)
  then show "((b, a mod b), (a, b)) \<in> measure (\<lambda>(a, b). unat b)"
    by (simp add: unat_mod)
qed simp

declare euclid.simps [simp del]

definition carrier_size :: "u32 \<Rightarrow> u32 \<Rightarrow> (presenter_error, u32 \<times> u32) result" where
  "carrier_size width height =
     (if width = 0 \<or> height = 0 then Inl (PeConfiguration ''empty layer task size'')
      else let a = euclid width height in Inr (width div a, height div a))"

definition covers_task :: "u32 \<Rightarrow> u32 \<Rightarrow> layer \<Rightarrow> bool" where
  "covers_task width height l \<longleftrightarrow> ly_opaque l \<and> ly_alpha l = - 1
     \<and> (ly_buffer l \<noteq> 0 \<or> drop_bit 24 (ly_color l) = 0xff) \<and> ly_destination l = (0, 0, width, height)"

definition covered_by_opaque_layer :: "layer list \<Rightarrow> u32 \<Rightarrow> u32 \<Rightarrow> bool" where
  "covered_by_opaque_layer layers width height \<longleftrightarrow>
     unat width < 2 ^ 31 \<and> unat height < 2 ^ 31 \<and> width \<noteq> 0 \<and> height \<noteq> 0
     \<and> list_ex (covers_task width height) layers"

text \<open>What the system answers while a scene is shown.\<close>

record scene_env =
  sn_app :: app_env
  sn_views :: "nat \<Rightarrow> view_env"
  sn_carrier :: "(os_error, wl_id) result"
  sn_root_region :: bool

definition carrier :: "scene_env \<Rightarrow> u32 \<times> u32 \<Rightarrow> (presenter_error, wl_id) result" where
  "carrier env wh =
     (if unat (fst wh) * 4 * unat (snd wh) < 2 ^ 31 then map_err PeIo (sn_carrier env)
      else Inl (PeConfiguration ''layer root buffer too large''))"

definition root_changed :: "u32 \<times> u32 \<Rightarrow> layer_stream \<Rightarrow> bool" where
  "root_changed wh s = (case st_root s of None \<Rightarrow> True | Some (old, _) \<Rightarrow> old \<noteq> wh)"

text \<open>The backing: none when the composed image stays, else its size and whether to attach it.\<close>

definition prepare_backing :: "scene_env \<Rightarrow> bool \<Rightarrow> bool \<Rightarrow> u32 \<times> u32 \<Rightarrow> ((u32 \<times> u32) \<times> bool) option st_op" where
  "prepare_backing env preserve composed logical = (\<lambda>s.
     if preserve then (Inr None, s)
     else case carrier_size (fst logical) (snd logical) of
       Inl e \<Rightarrow> (Inl e, s)
     | Inr wh \<Rightarrow>
         if \<not> root_changed wh s then (Inr (Some (wh, \<not> st_active s \<or> composed)), s)
         else case carrier env wh of
           Inl e \<Rightarrow> (Inl e, s)
         | Inr buffer \<Rightarrow>
             (Inr (Some (wh, True)),
              wl (case st_root s of None \<Rightarrow> [] | Some (_, old) \<Rightarrow> [WlDestroyBuffer old])
                (s\<lparr>st_root := Some (wh, buffer)\<rparr>)))"

subsection \<open>Committing a scene\<close>

definition MAX_SCENE_FEEDBACK :: nat where "MAX_SCENE_FEEDBACK = 8"

definition shows_new_content :: "layer_stream \<Rightarrow> layer \<Rightarrow> bool" where
  "shows_new_content s l \<longleftrightarrow> ly_alpha l \<noteq> 0
     \<and> (case fmlookup (st_views s) (ly_id l) of
          None \<Rightarrow> True | Some v \<Rightarrow> vw_content v \<noteq> Some (content_new l))"

definition choose_feedback ::
  "app \<Rightarrow> presenter_window \<Rightarrow> u64 option \<Rightarrow> target option \<Rightarrow> (layer \<times> owned_fd option) list \<Rightarrow> layer_stream \<Rightarrow> u64 option" where
  "choose_feedback a w scene grant staged s =
     (if grant \<noteq> None \<or> (scene \<noteq> None \<and> length (win_scene_feedback w) < MAX_SCENE_FEEDBACK
          \<and> (case ap_endpoint a of None \<Rightarrow> False | Some e \<Rightarrow> ep_scene_presentation e))
      then map_option ly_id (find (shows_new_content s) (rev (map fst staged)))
      else None)"

definition attaches :: "((u32 \<times> u32) \<times> bool) option \<Rightarrow> bool" where
  "attaches backing = (case backing of None \<Rightarrow> False | Some (_, attach) \<Rightarrow> attach)"

text \<open>Everything after the layers: the root surface, its backing, its feedback and its commit.\<close>

definition finish_root ::
  "scene_env \<Rightarrow> wl_id \<Rightarrow> u32 \<times> u32 \<Rightarrow> u64 option \<Rightarrow> target option \<Rightarrow> u64 option
     \<Rightarrow> ((u32 \<times> u32) \<times> bool) option
     \<Rightarrow> (presenter_error, presenter_window \<times> layer_stream, unit) op" where
  "finish_root env root logical scene grant feedback backing = (\<lambda>(w, s).
     let resized = (\<not> st_active s \<or> attaches backing \<or> st_root_logical_size s \<noteq> Some logical) in
     if resized \<and> \<not> sn_root_region env then (Inl PeToolkitGlobal, (w, s))
     else if resized \<and> \<not> win_viewport w then (Inl (PePanic ''unwrap''), (w, s))
     else
       let w1 = (if resized then win_request [WlOpaqueRegion root (Some logical), WlTransform root 0,
                    WlDestination root (fst logical) (snd logical)] w else w);
           s1 = (if resized then s\<lparr>st_root_logical_size := Some logical\<rparr> else s);
           w2 = (if attaches backing
                 then (win_request ((if win_sync_surface w1 then [WlDestroySync root] else [])
                         @ (case backing of None \<Rightarrow> [] | Some ((bw, bh), _) \<Rightarrow> [WlSourceSize root bw bh])
                         @ [WlAttach root (map_option snd (st_root s1)), WlDamage root]
                         @ (case grant of Some g \<Rightarrow> if ft_surface (win_timeline w1)
                              then [WlTarget root (tg_identity g)] else [] | None \<Rightarrow> [])) w1)
                      \<lparr>win_sync_surface := False, win_composed_root := False\<rparr>
                 else w1)
       in case (case grant of
                  None \<Rightarrow> Inr w2
                | Some g \<Rightarrow>
                    if feedback \<noteq> None then Inr w2
                    else if attaches backing then
                      (case ae_feedback (sn_app env) of
                         None \<Rightarrow> Inl PeToolkitGlobal
                       | Some proxy \<Rightarrow> Inr (w2\<lparr>win_scene_feedback := win_scene_feedback w2 @
                           [\<lparr>fb_proxy = proxy, fb_scene = (case scene of None \<Rightarrow> 0 | Some n \<Rightarrow> n),
                             fb_configure_serial = win_configure_serial w2,
                             fb_grant = Some (tg_identity g)\<rparr>]\<rparr>))
                    else Inr (w2\<lparr>win_timeline :=
                      ft_finish (Some (tg_identity g)) TerminalSkipped (win_timeline w2)\<rparr>)) of
            Inl e \<Rightarrow> (Inl e, (w2, s1))
          | Inr w3 \<Rightarrow>
              (Inr (), ((win_request [WlCommit root] w3)\<lparr>win_applied_opaque := Some True\<rparr>,
                 s1\<lparr>st_active := True\<rparr>)))"

text \<open>The window while its stream is out; every exit leaves the changes made so far.\<close>

definition commit_window ::
  "scene_env \<Rightarrow> app \<Rightarrow> u32 \<times> u32 \<Rightarrow> u64 option \<Rightarrow> target option
     \<Rightarrow> (presenter_error, presenter_window \<times> layer_stream, unit) op" where
  "commit_window env a physical scene grant = (\<lambda>(w, s).
     case win_surface w of
       None \<Rightarrow> (Inl (PePanic ''unwrap''), (w, s))
     | Some root \<Rightarrow>
         case win_logical_size w of
           None \<Rightarrow> (Inl (PeConfiguration ''layer task has no logical size''), (w, s))
         | Some logical \<Rightarrow>
             let preserve = (win_composed_root w \<and>
                   covered_by_opaque_layer (map fst (stg_layers (st_staged s))) (fst physical) (snd physical))
             in case prepare_backing env preserve (win_composed_root w) logical s of
               (Inl e, s1) \<Rightarrow> (Inl e, (w, s1))
             | (Inr backing, s1) \<Rightarrow>
                 case stg_take (st_staged s1) of
                   (staged, emptied) \<Rightarrow>
                     let feedback = choose_feedback a w scene grant staged s1 in
                     case recycle_views (set (map (ly_id \<circ> fst) staged)) (s1\<lparr>st_staged := emptied\<rparr>) of
                       (Inl e, s2) \<Rightarrow> (Inl e, (w, s2))
                     | (Inr _, s2) \<Rightarrow>
                     let cx = \<lparr>cx_logical = logical, cx_physical = physical, cx_root = root,
                               cx_feedback_layer = feedback, cx_target = map_option tg_identity grant,
                               cx_scene = scene, cx_configure_serial = win_configure_serial w,
                               cx_alpha = ap_alpha a\<rparr>
                     in case show_layers (sn_views env) cx 0 root None staged (s2, win_scene_feedback w) of
                          (Inl e, (s3, fb)) \<Rightarrow> (Inl e, (w\<lparr>win_scene_feedback := fb\<rparr>, s3))
                        | (Inr _, (s3, fb)) \<Rightarrow>
                            finish_root env root logical scene grant feedback backing
                              (w\<lparr>win_scene_feedback := fb\<rparr>, s3\<lparr>st_staged := stg_recycle (st_staged s3)\<rparr>))"

type_synonym 'a sc_op = "(presenter_error, app \<times> layer_stream, 'a) op"

definition sc_stream :: "'a st_op \<Rightarrow> 'a sc_op" where
  "sc_stream f = op_on snd (\<lambda>s (a, _). (a, s)) (\<lambda>e. e) f"

definition sc_app :: "'a ap_op \<Rightarrow> 'a sc_op" where
  "sc_app f = op_on fst (\<lambda>a (_, s). (a, s)) (\<lambda>e. e) f"

definition commit_layers ::
  "scene_env \<Rightarrow> task_object_id \<Rightarrow> u32 \<times> u32 \<Rightarrow> u64 option \<Rightarrow> target option \<Rightarrow> unit sc_op" where
  "commit_layers env object physical scene grant = (\<lambda>(a, s).
     case fmlookup (ap_tasks a) object of
       None \<Rightarrow> (Inl (PePanic ''unwrap''), (a, s))
     | Some w \<Rightarrow>
         (case commit_window env a physical scene grant (w, s) of
            (outcome, (w1, s1)) \<Rightarrow> (outcome, (put_win object w1 a, s1))))"

subsection \<open>Admitting a scene\<close>

text \<open>
  Logical sizes are at most \<open>MAX_BUFFER_DIMENSION\<close> divided by the scale, so the \<open>i64\<close> products do not
  overflow; a remainder is zero under Rust's sign convention exactly when it is under \<open>mod\<close>.
\<close>

definition exact_edge :: "int \<Rightarrow> u32 \<Rightarrow> u32 \<Rightarrow> bool" where
  "exact_edge edge logical physical \<longleftrightarrow>
     0 < physical \<and> (edge * uint logical) mod uint physical = 0"

definition exact_layer :: "(u32 \<times> u32) option \<Rightarrow> u32 \<Rightarrow> u32 \<Rightarrow> layer \<Rightarrow> bool" where
  "exact_layer logical width height l =
     (case logical of
        None \<Rightarrow> False
      | Some (lw, lh) \<Rightarrow>
          case ly_destination l of (x, y, w, h) \<Rightarrow>
            exact_edge (sint x) lw width \<and> exact_edge (sint y) lh height
            \<and> exact_edge (sint x + sint w) lw width \<and> exact_edge (sint y + sint h) lh height)"

definition stream_source :: "layer_stream \<Rightarrow> u64 \<Rightarrow> source_state option" where
  "stream_source s ident =
     map_option (\<lambda>b. \<lparr>ss_buffer = sr_metadata b, ss_imported = (sr_buffer b \<noteq> None),
        ss_ticket = sr_ticket b, ss_spare_timeline = spare_timeline b ident (st_reads s)\<rparr>)
       (fmlookup (st_buffers s) ident)"

definition stream_attached :: "layer_stream \<Rightarrow> u64 \<Rightarrow> (u64 \<times> u64) option" where
  "stream_attached s ident = Option.bind (fmlookup (st_views s) ident) view_source"

definition scene_status_of :: "app \<Rightarrow> presenter_window \<Rightarrow> layer_stream \<Rightarrow> pending_commit \<Rightarrow> scene_status" where
  "scene_status_of a w s c =
     (if \<not> stg_failed (st_staged s) \<and> ap_alpha a \<and> accepts_present w
        \<and> win_configure_serial w = pc_serial c \<and> win_buffer_size w = (pc_width c, pc_height c)
        \<and> list_all (exact_layer (win_logical_size w) (pc_width c) (pc_height c))
            (map fst (stg_layers (st_staged s)))
      then assess_scene (map (\<lambda>(l, fd). (l, fd \<noteq> None)) (stg_layers (st_staged s)))
             (pc_count c) (pc_width c) (pc_height c) (st_last_ticket s) (stream_source s) (stream_attached s)
      else SceneInvalid)"

definition clear_staged :: "layer_stream \<Rightarrow> layer_stream" where
  "clear_staged s = s\<lparr>st_staged := stg_clear (st_staged s)\<rparr>"

definition submit_ready :: "scene_env \<Rightarrow> task_object_id \<Rightarrow> pending_commit \<Rightarrow> unit sc_op" where
  "submit_ready env object c =
     op_bind (sc_app (on_win object take_queued)) (\<lambda>queued.
     op_bind (sc_app (discard_previous (sn_app env) object queued)) (\<lambda>_ (a, s).
     case fmlookup (ap_tasks a) object of
       None \<Rightarrow> (Inl (PePanic ''unwrap''), (a, s))
     | Some w \<Rightarrow>
         if ft_exact (win_timeline w) \<and> MAX_SCENE_FEEDBACK \<le> length (win_scene_feedback w)
         then (Inr (), (a, st_park c s))
         else
           op_bind (op_lift (map_err PeIo (ae_now (sn_app env)))) (\<lambda>now.
           op_bind (sc_app (on_win object (reserve_grant now))) (\<lambda>reserved.
           case reserved of
             None \<Rightarrow> (\<lambda>(a1, s1). (Inr (), (a1, st_park c s1)))
           | Some grant \<Rightarrow>
               op_bind (\<lambda>(a1, s1). (Inr (), (app_android_frame now a1, s1))) (\<lambda>_.
               op_bind (commit_layers env object (pc_width c, pc_height c) (pc_scene c) grant) (\<lambda>_.
               sc_stream (answer_commit (ae_io (sn_app env)) (pc_scene c) 0))))) (a, s)))"

definition submit_layer_scene :: "scene_env \<Rightarrow> task_object_id \<Rightarrow> pending_commit \<Rightarrow> unit sc_op" where
  "submit_layer_scene env object c = (\<lambda>(a, s).
     case fmlookup (ap_tasks a) object of
       None \<Rightarrow> (Inl (PePanic ''no entry found for key''), (a, s))
     | Some w \<Rightarrow>
         let status = scene_status_of a w s c in
         if status = SceneBusy \<and> pc_scene c \<noteq> None then (Inr (), (a, st_park c s))
         else if status \<noteq> SceneReady
         then sc_stream (answer_commit (ae_io (sn_app env)) (pc_scene c) (- 95)) (a, clear_staged s)
         else submit_ready env object c (a, s))"

subsection \<open>Requests\<close>

definition CONFIG_EVENTS :: u32 where "CONFIG_EVENTS = 8"
definition SUPPORTED :: u32 where "SUPPORTED = 127" \<comment> \<open>3 with the stage, config, commit, import and batch bits\<close>

definition layer_config :: "app \<Rightarrow> task_object_id \<Rightarrow> (u32 \<times> u32 \<times> u32 \<times> u32) option" where
  "layer_config a object =
     map_option (\<lambda>w. (if ap_alpha a \<and> accepts_present w then SUPPORTED else CONFIG_EVENTS,
        win_configure_serial w, fst (win_buffer_size w), snd (win_buffer_size w)))
       (fmlookup (ap_tasks a) object)"

definition config_words :: "u32 \<times> u32 \<times> u32 \<times> u32 \<Rightarrow> u32 list" where
  "config_words = (\<lambda>(a, b, c, d). [a, b, c, d])"

definition on_config :: "(sf_error, config_publisher, 'a) op \<Rightarrow> 'a st_op" where
  "on_config f = op_on st_configuration (\<lambda>c s. s\<lparr>st_configuration := c\<rparr>)
     (\<lambda>_. PeConfiguration ''layer configuration revision exhausted'') f"

definition require_config :: "task_object_id \<Rightarrow> (u32 \<times> u32 \<times> u32 \<times> u32) sc_op" where
  "require_config object = (\<lambda>(a, s). (ok_or (PeUnknownTask object) (layer_config a object), (a, s)))"

definition answer_import :: "stream_io \<Rightarrow> u64 option \<Rightarrow> u64 \<Rightarrow> i32 \<Rightarrow> unit st_op" where
  "answer_import io attempt ident code =
     (case attempt of Some n \<Rightarrow> send_event io (EvImportResult n ident code) | None \<Rightarrow> st_ack io code)"

text \<open>
  A registration that is refused is answered at once; an accepted one when the compositor confirms the
  import.  \<open>sn_views env 0\<close> answers for the new lane, \<open>ae_buffer\<close> is the new parameter object.
\<close>

definition layer_register :: "scene_env \<Rightarrow> u64 option \<Rightarrow> layer_buffer \<Rightarrow> unit sc_op" where
  "layer_register env attempt b = (\<lambda>(a, s).
     let formats = (case ap_formats a of None \<Rightarrow> [] | Some fs \<Rightarrow> fs) in
     if (lb_fourcc b, lb_modifier b) \<notin> set formats \<or> MAX_BUFFERS \<le> fmlen (st_buffers s)
       \<or> lb_id b |\<in>| fmdom (st_buffers s) \<or> im_full (st_imports s)
     then sc_stream (answer_import (ae_io (sn_app env)) attempt (lb_id b) (- 95)) (a, s)
     else if \<not> ae_params (sn_app env) then (Inl PeToolkitGlobal, (a, s))
     else case new_lane (sn_views env 0) of
       Inl e \<Rightarrow> (Inl e, (a, s))
     | Inr ln \<Rightarrow>
         let s1 = put_source (lb_id b)
                    \<lparr>sr_metadata = b, sr_buffer = None, sr_lanes = [ln], sr_ticket = None\<rparr> s
         in case im_insert \<lparr>ip_buffer = lb_id b, ip_attempt = attempt,
                  ip_params = ae_buffer (sn_app env)\<rparr> (st_imports s1) of
              (False, _) \<Rightarrow> (Inl (PePanic ''assertion failed''), (a, s1))
            | (True, imports) \<Rightarrow> (Inr (), (a, s1\<lparr>st_imports := imports\<rparr>)))"

definition layer_unregister :: "stream_io \<Rightarrow> u64 \<Rightarrow> unit st_op" where
  "layer_unregister io ident = (\<lambda>s.
     if im_contains ident (st_imports s) \<or> ident |\<notin>| fmdom (st_buffers s)
       \<or> list_ex (\<lambda>r. lrd_buffer r = ident) (st_reads s)
     then st_ack io (- 16) s
     else
       let requests = (case Option.bind (fmlookup (st_buffers s) ident) sr_buffer of
                         None \<Rightarrow> [] | Some b \<Rightarrow> [WlDestroyBuffer b])
       in st_ack io 0 (wl requests (s\<lparr>st_buffers := fmdrop ident (st_buffers s)\<rparr>)))"

definition layer_stage :: "layer \<Rightarrow> owned_fd list \<Rightarrow> layer_stream \<Rightarrow> bool \<times> layer_stream" where
  "layer_stage l fds s =
     (case stg_push l (case fds of [] \<Rightarrow> None | fd # _ \<Rightarrow> Some fd) (st_staged s) of
        (accepted, staged) \<Rightarrow> (accepted, s\<lparr>st_staged := staged\<rparr>))"

definition layer_abort :: "stream_io \<Rightarrow> unit st_op" where
  "layer_abort io = (\<lambda>s.
     op_bind (\<lambda>s1. case Option.bind (st_waiting s) pc_scene of
         Some scene \<Rightarrow> send_event io (EvCommitResult scene (- 95)) s1
       | None \<Rightarrow> (Inr (), s1))
       (\<lambda>_. st_ack io 0) ((clear_staged s)\<lparr>st_waiting := None\<rparr>))"

fun waits_allowed :: "layer_request \<Rightarrow> bool" where
  "waits_allowed LrConfig = True"
| "waits_allowed LrSubscribeConfig = True"
| "waits_allowed LrAbort = True"
| "waits_allowed _ = False"

fun request_scene :: "layer_request \<Rightarrow> u64 option" where
  "request_scene (LrCommitAsync scene serial width height n) = Some scene"
| "request_scene (LrCommitBatch scene serial width height n layers) = Some scene"
| "request_scene _ = None"

fun request_attempt :: "layer_request \<Rightarrow> u64 option" where
  "request_attempt (LrRegisterAsync attempt b) = Some attempt"
| "request_attempt _ = None"

text \<open>The checks before the request is handled, and the identities they record.\<close>

definition layer_guard :: "layer_request \<Rightarrow> unit st_op" where
  "layer_guard request = (\<lambda>s.
     if st_waiting s \<noteq> None \<and> \<not> waits_allowed request
     then (Inl (PeConfiguration ''layer scene already waiting''), s)
     else if (case request_scene request of None \<Rightarrow> False | Some n \<Rightarrow> n \<le> st_last_scene s)
     then (Inl (PeConfiguration ''layer scene identity reused''), s)
     else
       let s1 = (case request_scene request of None \<Rightarrow> s | Some n \<Rightarrow> s\<lparr>st_last_scene := n\<rparr>) in
       if (case request_attempt request of None \<Rightarrow> False | Some n \<Rightarrow> n \<le> st_last_import s1)
       then (Inl (PeConfiguration ''layer import identity reused''), s1)
       else (Inr (), case request_attempt request of None \<Rightarrow> s1 | Some n \<Rightarrow> s1\<lparr>st_last_import := n\<rparr>))"

fun layer_handle :: "scene_env \<Rightarrow> task_object_id \<Rightarrow> owned_fd list \<Rightarrow> layer_request \<Rightarrow> unit sc_op" where
  "layer_handle env object fds (LrStageBatch layers) = (\<lambda>(a, s). (Inr (), (a, stage_batch layers fds s)))"
| "layer_handle env object fds (LrCommitBatch scene serial width height n layers) = (\<lambda>(a, s).
     submit_layer_scene env object \<lparr>pc_scene = Some scene, pc_serial = serial, pc_width = width,
       pc_height = height, pc_count = n\<rparr> (a, stage_batch layers fds s))"
| "layer_handle env object fds LrSubscribeConfig =
     op_bind (require_config object) (\<lambda>config.
     op_bind (sc_stream (on_config (cf_subscribe config))) (\<lambda>words.
     sc_stream (send_reply (ae_io (sn_app env)) (RpSubscribed words))))"
| "layer_handle env object fds LrConfig =
     op_bind (require_config object) (\<lambda>config.
     sc_stream (send_reply (ae_io (sn_app env)) (RpConfig (config_words config))))"
| "layer_handle env object fds (LrRegister b) = layer_register env None b"
| "layer_handle env object fds (LrRegisterAsync attempt b) = layer_register env (Some attempt) b"
| "layer_handle env object fds (LrUnregister ident) = sc_stream (layer_unregister (ae_io (sn_app env)) ident)"
| "layer_handle env object fds (LrStage l) = (\<lambda>(a, s).
     case layer_stage l fds s of (accepted, s1) \<Rightarrow>
       sc_stream (st_ack (ae_io (sn_app env)) (if accepted then 0 else - 7)) (a, s1))"
| "layer_handle env object fds (LrStageAsync l) = (\<lambda>(a, s). (Inr (), (a, snd (layer_stage l fds s))))"
| "layer_handle env object fds LrAbort = sc_stream (layer_abort (ae_io (sn_app env)))"
| "layer_handle env object fds (LrCommit serial width height n) =
     submit_layer_scene env object \<lparr>pc_scene = None, pc_serial = serial, pc_width = width,
       pc_height = height, pc_count = n\<rparr>"
| "layer_handle env object fds (LrCommitAsync scene serial width height n) =
     submit_layer_scene env object \<lparr>pc_scene = Some scene, pc_serial = serial, pc_width = width,
       pc_height = height, pc_count = n\<rparr>"

definition layer_request_op :: "scene_env \<Rightarrow> task_object_id \<Rightarrow> layer_request \<Rightarrow> owned_fd list \<Rightarrow> unit sc_op" where
  "layer_request_op env object request fds =
     op_bind (sc_stream (layer_guard request)) (\<lambda>_. layer_handle env object fds request)"

text \<open>The turn of \<open>drain_layers\<close> for a task with signalled reads: release them, then retry the scene.\<close>

definition release_and_retry :: "scene_env \<Rightarrow> (nat \<Rightarrow> drm_kernel) \<Rightarrow> task_object_id \<Rightarrow> unit sc_op" where
  "release_and_retry env k object =
     op_bind (sc_stream (stream_release (ae_io (sn_app env)) k)) (\<lambda>_ (a, s).
     case st_waiting s of
       None \<Rightarrow> (Inr (), (a, s))
     | Some c \<Rightarrow> submit_layer_scene env object c (a, s\<lparr>st_waiting := None\<rparr>))"

text \<open>The peer closed its request socket: the scene in preparation is dropped and the views hidden.\<close>

definition layer_disconnect :: "layer_stream \<Rightarrow> layer_stream" where
  "layer_disconnect s =
     snd (st_hide ((clear_staged s)\<lparr>st_connected := False, st_waiting := None\<rparr>))"

definition publish_layer_config :: "scene_env \<Rightarrow> task_object_id \<Rightarrow> unit sc_op" where
  "publish_layer_config env object = (\<lambda>(a, s).
     case layer_config a object of
       None \<Rightarrow> (Inr (), (a, s))
     | Some config \<Rightarrow>
         if \<not> st_connected s then (Inr (), (a, s))
         else op_bind (sc_stream (on_config (cf_update config))) (\<lambda>words.
           case words of
             None \<Rightarrow> op_return ()
           | Some ws \<Rightarrow> sc_stream (send_event (ae_io (sn_app env)) (EvConfig ws))) (a, s))"

text \<open>The compositor's answer to an import, for the stream that waits for it.\<close>

definition import_finished :: "stream_io \<Rightarrow> wl_id \<Rightarrow> wl_id option \<Rightarrow> bool st_op" where
  "import_finished io params buffer = (\<lambda>s.
     case im_finish params (st_imports s) of
       (None, _) \<Rightarrow> (Inr False, s)
     | (Some pending, imports) \<Rightarrow>
         let ident = ip_buffer pending; s1 = s\<lparr>st_imports := imports\<rparr> in
         case buffer of
           None \<Rightarrow>
             let s2 = s1\<lparr>st_buffers := fmdrop ident (st_buffers s1)\<rparr> in
             op_bind (if st_connected s2 then answer_import io (ip_attempt pending) ident (- 95) else op_return ())
               (\<lambda>_. op_return True) s2
         | Some b \<Rightarrow>
             (case fmlookup (st_buffers s1) ident of
                None \<Rightarrow> (Inl (PePanic ''unwrap''), s1)
              | Some src \<Rightarrow>
                  op_bind (if st_connected s1 then answer_import io (ip_attempt pending) ident 0 else op_return ())
                    (\<lambda>_. op_return True) (put_source ident (src\<lparr>sr_buffer := Some b\<rparr>) s1)))"

end
