(* ===== verification/Layer_Invariant.thy ===== *)
theory Layer_Invariant
  imports Layer_Scenes
begin

section \<open>Reads, tickets and imports of a layer stream\<close>

text \<open>
  What holds between the allocations, the outstanding reads, the tickets and the imports of a layer
  stream, and that every operation keeps it, on every path.  A read always has its imported allocation
  and its lane, and its point is the last one of that lane, so no two reads with different points share
  a lane; the ticket of an allocation belongs to an outstanding read; tickets are never used twice, and
  none is answered while its read is outstanding; an import in progress belongs to a registered
  allocation that is not imported yet.
\<close>

named_theorems stream_frame \<open>what a step leaves alone\<close>

subsection \<open>Lists\<close>

lemma mset_swap_remove:
  assumes "i < length xs"
  shows "mset xs = add_mset (xs ! i) (mset (swap_remove i xs))"
proof (cases xs rule: rev_cases)
  case Nil
  then show ?thesis using assms by simp
next
  case (snoc ys z)
  show ?thesis
  proof (cases "i = length ys")
    case True
    then show ?thesis using snoc by (simp add: swap_remove_def)
  next
    case False
    then have i: "i < length ys" using assms snoc by simp
    then have "swap_remove i xs = ys[i := z]"
      using snoc by (simp add: swap_remove_def list_update_append)
    moreover have "add_mset (ys ! i) (mset (ys[i := z])) = add_mset z (mset ys)"
      using i by (simp add: mset_update)
    ultimately show ?thesis
      using snoc i by (simp add: nth_append)
  qed
qed

lemma set_swap_remove:
  assumes "i < length xs"
  shows "set (swap_remove i xs) \<subseteq> set xs" "x \<in> set xs \<Longrightarrow> x \<noteq> xs ! i \<Longrightarrow> x \<in> set (swap_remove i xs)"
proof -
  have "set_mset (mset xs) = insert (xs ! i) (set_mset (mset (swap_remove i xs)))"
    unfolding mset_swap_remove [OF assms] by simp
  then have "set xs = insert (xs ! i) (set (swap_remove i xs))" by simp
  then show "set (swap_remove i xs) \<subseteq> set xs"
    and "x \<in> set xs \<Longrightarrow> x \<noteq> xs ! i \<Longrightarrow> x \<in> set (swap_remove i xs)" by auto
qed

lemma mset_map_swap_remove:
  "i < length xs \<Longrightarrow> mset (map f xs) = add_mset (f (xs ! i)) (mset (map f (swap_remove i xs)))"
  using arg_cong [OF mset_swap_remove, of i xs "image_mset f"] by simp

lemma position_Some:
  "position P xs = Some i \<Longrightarrow> i < length xs \<and> P (xs ! i)"
  by (induction xs arbitrary: i) (auto split: if_splits simp: nth_Cons')

lemma find_lane_Some:
  "free_lane src ident reads = Some i \<Longrightarrow> i < length (sr_lanes src) \<and> \<not> lane_used ident reads i"
  by (auto simp: free_lane_def find_Some_iff)

subsection \<open>The invariant\<close>

definition lane_ok :: "lane \<Rightarrow> bool" where
  "lane_ok ln \<longleftrightarrow>
     tl_last_attached_point (lane_timeline ln) \<le> bs_next_point (ln_sync ln)
     \<and> tl_last_signalled_point (lane_timeline ln) \<le> bs_next_point (ln_sync ln)
     \<and> tl_last_exported_point (lane_timeline ln) \<le> bs_next_point (ln_sync ln)"

definition read_ok :: "(u64, layer_source) fmap \<Rightarrow> layer_read \<Rightarrow> bool" where
  "read_ok buffers r \<longleftrightarrow>
     (\<exists>src. fmlookup buffers (lrd_buffer r) = Some src \<and> sr_buffer src \<noteq> None
        \<and> lrd_lane r < length (sr_lanes src)
        \<and> lrd_point r = bs_next_point (ln_sync (sr_lanes src ! lrd_lane r)))"

definition source_ok :: "layer_read list \<Rightarrow> u64 \<Rightarrow> layer_source \<Rightarrow> bool" where
  "source_ok reads ident src \<longleftrightarrow>
     list_all lane_ok (sr_lanes src)
     \<and> (\<forall>t. sr_ticket src = Some t \<longrightarrow> (\<exists>r \<in> set reads. lrd_buffer r = ident \<and> lrd_ticket r = t))"

fun completed :: "layer_event list \<Rightarrow> u64 list" where
  "completed [] = []"
| "completed (EvCompleted t # evs) = t # completed evs"
| "completed (_ # evs) = completed evs"

definition tickets :: "layer_stream \<Rightarrow> u64 list" where
  "tickets s = map lrd_ticket (st_reads s) @ completed (st_events s)"

definition tickets_ok :: "layer_stream \<Rightarrow> bool" where
  "tickets_ok s \<longleftrightarrow> distinct (tickets s) \<and> (\<forall>t \<in> set (tickets s). t \<le> st_last_ticket s)"

definition imports_ok :: "layer_stream \<Rightarrow> bool" where
  "imports_ok s \<longleftrightarrow> distinct (map ip_buffer (st_imports s))
     \<and> (\<forall>p \<in> set (st_imports s). \<exists>src. fmlookup (st_buffers s) (ip_buffer p) = Some src \<and> sr_buffer src = None)
     \<and> length (st_imports s) \<le> MAX_IMPORTS \<and> fmlen (st_buffers s) \<le> MAX_BUFFERS"

definition st_inv :: "layer_stream \<Rightarrow> bool" where
  "st_inv s \<longleftrightarrow>
     (\<forall>r \<in> set (st_reads s). read_ok (st_buffers s) r)
     \<and> (\<forall>ident src. fmlookup (st_buffers s) ident = Some src \<longrightarrow> source_ok (st_reads s) ident src)
     \<and> tickets_ok s \<and> imports_ok s"

lemma completed_append [simp]: "completed (xs @ ys) = completed xs @ completed ys"
  by (induction xs rule: completed.induct) auto

text \<open>The part of a stream the invariant is about.\<close>

definition same_core :: "layer_stream \<Rightarrow> layer_stream \<Rightarrow> bool" where
  "same_core s s' \<longleftrightarrow> st_buffers s' = st_buffers s \<and> st_reads s' = st_reads s
     \<and> st_imports s' = st_imports s \<and> st_last_ticket s' = st_last_ticket s
     \<and> completed (st_events s') = completed (st_events s)"

lemma same_core_refl [simp]: "same_core s s"
  by (simp add: same_core_def)

lemma same_core_trans: "same_core s s1 \<Longrightarrow> same_core s1 s2 \<Longrightarrow> same_core s s2"
  by (simp add: same_core_def)

lemma st_inv_core: "same_core s s' \<Longrightarrow> st_inv s' \<longleftrightarrow> st_inv s"
  by (simp add: same_core_def st_inv_def tickets_ok_def tickets_def imports_ok_def)

lemma st_inv_new: "st_inv st_new"
  by (simp add: st_inv_def st_new_def tickets_ok_def tickets_def imports_ok_def MAX_BUFFERS_def)

lemma st_invD:
  assumes "st_inv s"
  shows "r \<in> set (st_reads s) \<Longrightarrow> read_ok (st_buffers s) r"
    and "fmlookup (st_buffers s) ident = Some src \<Longrightarrow> source_ok (st_reads s) ident src"
    and "tickets_ok s" and "imports_ok s"
  using assms by (simp_all add: st_inv_def)

text \<open>Steps that leave the core alone.\<close>

lemma core_steps [simp]:
  "same_core s (wl rq s)" "same_core s (clear_staged s)" "same_core s (st_park c s)"
  "same_core s (put_view i v s)" "same_core s (stage_batch layers fds s)"
  "same_core s (s\<lparr>st_staged := g\<rparr>)" "same_core s (s\<lparr>st_waiting := c'\<rparr>)"
  "same_core s (s\<lparr>st_spare_views := sv\<rparr>)" "same_core s (s\<lparr>st_views := vs\<rparr>)"
  "same_core s (s\<lparr>st_root := rt\<rparr>)" "same_core s (s\<lparr>st_root_logical_size := ls\<rparr>)"
  "same_core s (s\<lparr>st_active := b\<rparr>)" "same_core s (s\<lparr>st_connected := b\<rparr>)"
  "same_core s (s\<lparr>st_last_scene := n\<rparr>)" "same_core s (s\<lparr>st_last_import := n\<rparr>)"
  "same_core s (s\<lparr>st_configuration := cf\<rparr>)" "same_core s (s\<lparr>st_replies := rp\<rparr>)"
  "same_core s (snd (st_hide s))" "same_core s (layer_disconnect s)"
  by (simp_all add: same_core_def wl_def clear_staged_def st_park_def put_view_def stage_batch_def
      st_hide_def layer_disconnect_def)

fun is_completion :: "layer_event \<Rightarrow> bool" where
  "is_completion (EvCompleted t) = True"
| "is_completion _ = False"

lemma completed_no_completion: "\<not> is_completion ev \<Longrightarrow> completed [ev] = []"
  by (cases ev) auto

lemma core_send_event [simp]: "\<not> is_completion ev \<Longrightarrow> same_core s (snd (send_event io ev s))"
  by (auto simp: send_event_def same_core_def completed_no_completion split: sum.split)

lemma core_send_reply [simp]: "same_core s (snd (send_reply io rp s))"
  by (auto simp: send_reply_def same_core_def split: sum.split)

lemma core_answers [simp]:
  "same_core s (snd (st_ack io code s))" "same_core s (snd (answer_commit io scene code s))"
  "same_core s (snd (answer_import io attempt ident code s))"
  by (auto simp: st_ack_def answer_commit_def answer_import_def split: option.split)

lemma core_abort_wait [simp]: "same_core s (snd (abort_timeline_wait io s))"
proof (cases "st_waiting s")
  case (Some c)
  have "same_core s (s\<lparr>st_waiting := None, st_staged := stg_clear (st_staged s)\<rparr>)"
    by (simp add: same_core_def)
  from same_core_trans [OF this core_answers(2)] show ?thesis
    by (simp add: abort_timeline_wait_def Some)
qed (simp add: abort_timeline_wait_def)

text \<open>
  Errors that only a broken bookkeeping could cause: a panic, or a relabelled read that is not there.
\<close>

fun internal_error :: "presenter_error \<Rightarrow> bool" where
  "internal_error (PePanic m) = True"
| "internal_error (PeConfiguration t) = (t = ''relabelled layer read is not outstanding'')"
| "internal_error _ = False"

definition no_panic :: "(presenter_error, 'a) result \<Rightarrow> bool" where
  "no_panic r \<longleftrightarrow> (case r of Inl e \<Rightarrow> \<not> internal_error e | Inr _ \<Rightarrow> True)"

lemma no_panic_simps [simp]: "no_panic (Inr x)" "no_panic (Inl e) \<longleftrightarrow> \<not> internal_error e"
  by (simp_all add: no_panic_def)

lemma no_panic_map_err: "(\<And>e. \<not> internal_error (f e)) \<Longrightarrow> no_panic (map_err f r)"
  by (cases r) simp_all

lemma no_panic_err [simp]:
  "no_panic (map_err PeSyncobj r1)" "no_panic (map_err PeIo r2)" "no_panic (map_err PeEndpoint r3)"
  by (simp_all add: no_panic_map_err)

lemma no_panic_bind [intro]:
  "no_panic (fst (m s)) \<Longrightarrow> (\<And>x s1. m s = (Inr x, s1) \<Longrightarrow> no_panic (fst (k x s1))) \<Longrightarrow> no_panic (fst (op_bind m k s))"
  by (cases "m s") (auto simp: op_bind_def split: sum.split)

subsection \<open>Changing one allocation\<close>

definition next_point_of :: "layer_source \<Rightarrow> nat \<Rightarrow> u64" where
  "next_point_of src i = bs_next_point (ln_sync (sr_lanes src ! i))"

text \<open>An allocation with lanes added or advanced where no read is.\<close>

definition source_grows :: "layer_read list \<Rightarrow> u64 \<Rightarrow> layer_source \<Rightarrow> layer_source \<Rightarrow> bool" where
  "source_grows reads ident src src' \<longleftrightarrow>
     sr_buffer src' = sr_buffer src \<and> sr_ticket src' = sr_ticket src
     \<and> list_all lane_ok (sr_lanes src') \<and> length (sr_lanes src) \<le> length (sr_lanes src')
     \<and> (\<forall>i < length (sr_lanes src). lane_used ident reads i \<longrightarrow> next_point_of src' i = next_point_of src i)"

lemma lane_usedI: "r \<in> set reads \<Longrightarrow> lane_used (lrd_buffer r) reads (lrd_lane r)"
  by (auto simp: lane_used_def list_ex_iff)

lemma read_ok_grows:
  assumes "read_ok buffers r" and "fmlookup buffers ident = Some src"
    and "source_grows reads ident src src'" and "r \<in> set reads"
  shows "read_ok (fmupd ident src' buffers) r"
proof (cases "lrd_buffer r = ident")
  case True
  have "lane_used ident reads (lrd_lane r)"
    using lane_usedI [OF assms(4)] True by simp
  with assms(1-3) True show ?thesis
    by (auto simp: read_ok_def source_grows_def next_point_of_def)
next
  case False
  with assms(1) show ?thesis by (simp add: read_ok_def)
qed

lemma fmlen_upd_dom: "fmlookup m k = Some v \<Longrightarrow> fmlen (fmupd k v' m) = fmlen m"
  by (simp add: fmlen_def fmdomI finsert_absorb)

lemma imports_ok_put:
  assumes "imports_ok s" and "fmlookup (st_buffers s) ident = Some src" and "sr_buffer src' = sr_buffer src"
  shows "imports_ok (put_source ident src' s)"
  using assms by (auto simp: imports_ok_def put_source_def fmlen_upd_dom)

lemma st_inv_grows:
  assumes inv: "st_inv s" and hit: "fmlookup (st_buffers s) ident = Some src"
    and grows: "source_grows (st_reads s) ident src src'"
  shows "st_inv (put_source ident src' s)"
proof -
  have "source_ok (st_reads s) ident src'"
    using st_invD(2) [OF inv hit] grows by (simp add: source_ok_def source_grows_def)
  moreover have "read_ok (fmupd ident src' (st_buffers s)) r" if "r \<in> set (st_reads s)" for r
    by (rule read_ok_grows [OF st_invD(1) [OF inv that] hit grows that])
  moreover have "imports_ok (put_source ident src' s)"
    using imports_ok_put [OF st_invD(4) [OF inv] hit] grows by (simp add: source_grows_def)
  ultimately show ?thesis
    using inv by (auto simp: st_inv_def put_source_def tickets_ok_def tickets_def)
qed

lemma source_grows_put_lane:
  assumes "source_ok reads ident src" and "i < length (sr_lanes src)" and "lane_ok ln"
    and "lane_used ident reads i \<Longrightarrow> bs_next_point (ln_sync ln) = next_point_of src i"
  shows "source_grows reads ident src (put_lane src i ln)"
  using assms
  by (auto simp: source_grows_def put_lane_def next_point_of_def source_ok_def list_all_length nth_list_update)

subsection \<open>Releasing reads\<close>

definition tl_points :: "timeline \<Rightarrow> u64 \<times> u64 \<times> u64" where
  "tl_points t = (tl_last_attached_point t, tl_last_signalled_point t, tl_last_exported_point t)"

lemma transfer_handle_points: "tl_points (snd (transfer_handle k t)) = tl_points t"
  by (auto simp: transfer_handle_def tl_points_def split: sum.split option.split)

lemma export_points:
  "tl_points (snd (export_materialized k t point)) \<in>
     {tl_points t, (tl_last_attached_point t, tl_last_signalled_point t, point)}"
proof (cases "require_newer (tl_last_exported_point t) point")
  case (Inr u)
  obtain r t1 where h: "transfer_handle k t = (r, t1)" by (cases "transfer_handle k t")
  have "tl_points t1 = tl_points t" using transfer_handle_points [of k t] h by simp
  then show ?thesis
    using Inr h by (auto simp: export_materialized_def tl_points_def split: sum.split)
qed (simp add: export_materialized_def)

lemma try_export_snd:
  "snd (wayland_try_export_release_fence k t point) = snd (wait_available_and_export k t point NO_WAIT)"
  by (auto simp: wayland_try_export_release_fence_def split: prod.split sum.split syncobj_error.split)

lemma export_marks:
  assumes "wayland_try_export_release_fence k t point = (outcome, t1)"
  shows "tl_last_attached_point t1 = tl_last_attached_point t"
    and "tl_last_signalled_point t1 = tl_last_signalled_point t"
    and "tl_last_exported_point t1 = tl_last_exported_point t \<or> tl_last_exported_point t1 = point"
proof -
  have "t1 = snd (wait_available_and_export k t point NO_WAIT)"
    using try_export_snd [of k t point] assms by simp
  then have "t1 = t \<or> t1 = snd (export_materialized k t point)"
    by (auto simp: wait_available_and_export_def split: sum.splits)
  then have "tl_points t1 \<in> {tl_points t, (tl_last_attached_point t, tl_last_signalled_point t, point)}"
    using export_points [of k t point] by auto
  then show "tl_last_attached_point t1 = tl_last_attached_point t"
    and "tl_last_signalled_point t1 = tl_last_signalled_point t"
    and "tl_last_exported_point t1 = tl_last_exported_point t \<or> tl_last_exported_point t1 = point"
    by (auto simp: tl_points_def)
qed

lemma lane_ok_export:
  assumes "lane_ok ln" and "wayland_try_export_release_fence k (lane_timeline ln) point = (outcome, t1)"
    and "point = bs_next_point (ln_sync ln)"
  shows "lane_ok (set_timeline t1 ln)"
  using assms(1,3) export_marks [OF assms(2)] by (auto simp: lane_ok_def set_timeline_def lane_timeline_def)

text \<open>The identity of a read: all but whether its fence was sent.\<close>

definition read_key :: "layer_read \<Rightarrow> u64 \<times> nat \<times> u64 \<times> u64" where
  "read_key r = (lrd_buffer r, lrd_lane r, lrd_ticket r, lrd_point r)"

lemma mark_fences_keys:
  "mark_fences io P fence rs = (res, rs1, evs) \<Longrightarrow>
   map read_key rs1 = map read_key rs \<and> completed evs = []"
  by (induction rs arbitrary: res rs1 evs)
    (auto simp: read_key_def split: if_splits sum.splits prod.splits)

lemma read_key_simps:
  "read_key r1 = read_key r \<longleftrightarrow> lrd_buffer r1 = lrd_buffer r \<and> lrd_lane r1 = lrd_lane r
     \<and> lrd_ticket r1 = lrd_ticket r \<and> lrd_point r1 = lrd_point r"
  by (simp add: read_key_def)

lemma key_partner:
  assumes "map read_key xs = map read_key ys" and "r \<in> set ys"
  obtains r1 where "r1 \<in> set xs" "read_key r1 = read_key r"
proof -
  have "read_key r \<in> set (map read_key xs)"
    unfolding assms(1) using assms(2) by simp
  then show ?thesis using that by auto
qed

lemma st_inv_keys:
  assumes keys: "map read_key (st_reads s') = map read_key (st_reads s)"
    and same: "st_buffers s' = st_buffers s" "st_imports s' = st_imports s"
      "st_last_ticket s' = st_last_ticket s" "completed (st_events s') = completed (st_events s)"
    and inv: "st_inv s"
  shows "st_inv s'"
proof -
  have "map lrd_ticket xs = map (fst \<circ> snd \<circ> snd) (map read_key xs)" for xs
    by (simp add: read_key_def)
  then have ts: "map lrd_ticket (st_reads s') = map lrd_ticket (st_reads s)"
    using keys by metis
  have reads: "read_ok (st_buffers s') r" if mem: "r \<in> set (st_reads s')" for r
  proof -
    obtain r1 where "r1 \<in> set (st_reads s)" and "read_key r1 = read_key r"
      using key_partner [OF keys [symmetric] mem] .
    then show ?thesis
      using st_invD(1) [OF inv, of r1] same(1) by (simp add: read_ok_def read_key_simps)
  qed
  have sources: "source_ok (st_reads s') ident src" if hit: "fmlookup (st_buffers s') ident = Some src" for ident src
  proof -
    have old: "source_ok (st_reads s) ident src" using st_invD(2) [OF inv] hit same(1) by simp
    have "\<exists>r \<in> set (st_reads s'). lrd_buffer r = ident \<and> lrd_ticket r = t" if ticket: "sr_ticket src = Some t" for t
    proof -
      obtain r where r: "r \<in> set (st_reads s)" "lrd_buffer r = ident" "lrd_ticket r = t"
        using old ticket by (auto simp: source_ok_def)
      obtain r1 where "r1 \<in> set (st_reads s')" "read_key r1 = read_key r"
        using key_partner [OF keys r(1)] .
      then show ?thesis using r(2,3) by (auto simp: read_key_simps)
    qed
    with old show ?thesis by (simp add: source_ok_def)
  qed
  show ?thesis
    using inv reads sources unfolding st_inv_def tickets_ok_def tickets_def imports_ok_def ts same by simp
qed

lemma lane_at_Some:
  "lane_at s ident i = Some (src, ln) \<longleftrightarrow>
     fmlookup (st_buffers s) ident = Some src \<and> i < length (sr_lanes src) \<and> ln = sr_lanes src ! i"
  by (auto simp: lane_at_def split: option.splits)

lemma export_fence_inv:
  assumes inv: "st_inv s" and read: "read \<in> set (st_reads s)"
    and at: "lane_at s (lrd_buffer read) (lrd_lane read) = Some (src, ln)"
  shows "st_inv (snd (export_fence io k read src ln s))"
    and "map read_key (st_reads (snd (export_fence io k read src ln s))) = map read_key (st_reads s)"
proof -
  obtain outcome t1 where ex: "wayland_try_export_release_fence k (lane_timeline ln) (lrd_point read) = (outcome, t1)"
    by (cases "wayland_try_export_release_fence k (lane_timeline ln) (lrd_point read)")
  from at have hit: "fmlookup (st_buffers s) (lrd_buffer read) = Some src"
    and i: "lrd_lane read < length (sr_lanes src)" and ln: "ln = sr_lanes src ! lrd_lane read"
    by (simp_all add: lane_at_Some)
  have src: "source_ok (st_reads s) (lrd_buffer read) src" by (rule st_invD(2) [OF inv hit])
  have point: "lrd_point read = bs_next_point (ln_sync ln)"
    using st_invD(1) [OF inv read] hit ln by (simp add: read_ok_def)
  have ok: "lane_ok ln" using src i ln by (simp add: source_ok_def list_all_length)
  let ?s1 = "put_source (lrd_buffer read) (put_lane src (lrd_lane read) (set_timeline t1 ln)) s"
  have s1: "st_inv ?s1"
    by (intro st_inv_grows [OF inv hit] source_grows_put_lane [OF src i] lane_ok_export [OF ok ex point])
      (simp add: set_timeline_def next_point_of_def ln)
  have "st_inv (snd (export_fence io k read src ln s))
      \<and> map read_key (st_reads (snd (export_fence io k read src ln s))) = map read_key (st_reads s)"
  proof (cases "\<exists>fence. outcome = Inr (Some fence)")
    case False
    then show ?thesis
      using s1 by (auto simp: export_fence_def ex Let_def put_source_def split: sum.splits option.splits)
  next
    case True
    then obtain fence where fence: "outcome = Inr (Some fence)" by blast
    obtain res reads evs where m: "mark_fences io (shares_point read) fence (st_reads ?s1) = (res, reads, evs)"
      by (cases "mark_fences io (shares_point read) fence (st_reads ?s1)") auto
    have keys: "map read_key reads = map read_key (st_reads ?s1)" "completed evs = []"
      using mark_fences_keys [OF m] by simp_all
    have "st_inv (?s1\<lparr>st_reads := reads, st_events := st_events ?s1 @ evs\<rparr>)"
      by (rule st_inv_keys [OF _ _ _ _ _ s1]) (simp_all add: keys)
    then show ?thesis
      using keys(1) m by (simp add: export_fence_def ex Let_def fence put_source_def)
  qed
  then show "st_inv (snd (export_fence io k read src ln s))"
    and "map read_key (st_reads (snd (export_fence io k read src ln s))) = map read_key (st_reads s)"
    by simp_all
qed

lemma tickets_ok_mset:
  assumes "tickets_ok s" and "mset (tickets s') \<subseteq># mset (tickets s)" and "st_last_ticket s \<le> st_last_ticket s'"
  shows "tickets_ok s'"
proof -
  obtain rest where "mset (tickets s) = mset (tickets s' @ rest)"
    using assms(2) by (metis ex_mset mset_append subset_mset.le_iff_add)
  then have "distinct (tickets s' @ rest)"
    using assms(1) by (metis mset_eq_imp_distinct_iff tickets_ok_def)
  then have "distinct (tickets s')" by simp
  moreover have "set (tickets s') \<subseteq> set (tickets s)"
    using set_mset_mono [OF assms(2)] by simp
  ultimately show ?thesis
    using assms(1,3) by (auto simp: tickets_ok_def intro: order.trans)
qed

lemma complete_inv:
  assumes inv: "st_inv s" and i: "i < length (st_reads s)"
    and key: "read_key (st_reads s ! i) = read_key read"
    and hit: "fmlookup (st_buffers s) (lrd_buffer read) = Some src"
    and evs: "completed evs = completed (st_events s) \<or> completed evs = completed (st_events s) @ [lrd_ticket read]"
  shows "st_inv (drop_read i read src (s\<lparr>st_events := evs\<rparr>))" (is "st_inv ?s'")
proof -
  let ?t = "lrd_ticket read" and ?b = "lrd_buffer read"
  let ?src = "if sr_ticket src = Some ?t then src\<lparr>sr_ticket := None\<rparr> else src"
  have at: "lrd_ticket (st_reads s ! i) = ?t" "lrd_buffer (st_reads s ! i) = ?b"
    using key by (simp_all add: read_key_simps)
  have buffers: "st_buffers ?s' = fmupd ?b ?src (st_buffers s)"
    and reads: "st_reads ?s' = swap_remove i (st_reads s)"
    by (simp_all add: drop_read_def put_source_def)
  have "read_ok (st_buffers ?s') r" if "r \<in> set (st_reads ?s')" for r
    using st_invD(1) [OF inv, of r] that set_swap_remove(1) [OF i] hit
    by (auto simp: reads buffers read_ok_def)
  moreover have "source_ok (st_reads ?s') ident x" if x: "fmlookup (st_buffers ?s') ident = Some x" for ident x
  proof -
    obtain y where y: "fmlookup (st_buffers s) ident = Some y" "sr_lanes x = sr_lanes y"
      and tick: "sr_ticket x = Some u \<Longrightarrow> sr_ticket y = Some u \<and> \<not> (ident = ?b \<and> u = ?t)" for u
      using x hit by (cases "ident = ?b") (auto simp: buffers split: if_splits)
    have "\<exists>r \<in> set (st_reads ?s'). lrd_buffer r = ident \<and> lrd_ticket r = u" if "sr_ticket x = Some u" for u
      using st_invD(2) [OF inv y(1)] tick [OF that] at set_swap_remove(2) [OF i]
      unfolding source_ok_def reads by metis
    then show ?thesis
      using st_invD(2) [OF inv y(1)] y(2) by (simp add: source_ok_def)
  qed
  moreover have "tickets_ok ?s'"
  proof (rule tickets_ok_mset [OF st_invD(3) [OF inv]])
    show "mset (tickets ?s') \<subseteq># mset (tickets s)"
      using evs mset_map_swap_remove [OF i, of lrd_ticket] at(1)
      by (auto simp: tickets_def reads) (simp_all add: drop_read_def put_source_def)
  qed (simp add: drop_read_def put_source_def)
  moreover have "imports_ok ?s'"
  proof -
    have "imports_ok (put_source ?b ?src s)"
      by (rule imports_ok_put [OF st_invD(4) [OF inv] hit]) simp
    then show ?thesis by (simp add: imports_ok_def drop_read_def put_source_def)
  qed
  ultimately show ?thesis by (simp add: st_inv_def)
qed

lemma send_completed_effect:
  "\<exists>evs. snd (send_completed io t s) = s\<lparr>st_events := evs\<rparr>
     \<and> (completed evs = completed (st_events s) \<or> completed evs = completed (st_events s) @ [t])"
  by (auto simp: send_completed_def send_event_def split: sum.split intro: exI [of _ "st_events s"])

lemma send_completed_fails: "send_completed io t s = (Inl e, s1) \<Longrightarrow> s1 = s"
  by (auto simp: send_completed_def send_event_def split: sum.splits if_splits)

lemma read_has_lane:
  assumes "st_inv s" and "i < length (st_reads s)" and "read_key (st_reads s ! i) = read_key read"
  obtains src ln where "lane_at s (lrd_buffer read) (lrd_lane read) = Some (src, ln)"
  using st_invD(1) [OF assms(1), of "st_reads s ! i"] assms(2,3) that
  by (auto simp: read_ok_def lane_at_Some read_key_simps)

lemma keys_nth: "map read_key xs = map read_key ys \<Longrightarrow> i < length ys \<Longrightarrow> read_key (xs ! i) = read_key (ys ! i)"
  by (metis map_eq_imp_length_eq nth_map)

lemma mark_fences_no_panic: "mark_fences io P fence rs = (Inl e, rs1, evs) \<Longrightarrow> \<not> internal_error e"
  by (induction rs arbitrary: rs1 evs) (auto split: if_splits sum.splits prod.splits)

lemma send_completed_no_panic: "send_completed io t s = (Inl e, s1) \<Longrightarrow> \<not> internal_error e"
  by (auto simp: send_completed_def send_event_def split: sum.splits if_splits)

lemma release_read_inv:
  assumes inv: "st_inv s" and i: "i < length (st_reads s)"
  shows "st_inv (snd (release_read io k i s)) \<and> no_panic (fst (release_read io k i s))"
proof -
  let ?read = "st_reads s ! i"
  obtain src ln where at: "lane_at s (lrd_buffer ?read) (lrd_lane ?read) = Some (src, ln)"
    using read_has_lane [OF inv i refl] .
  let ?m = "if st_connected s \<and> \<not> lrd_fence_sent ?read then export_fence io k ?read src ln else op_return ()"
  obtain r s1 where m: "?m s = (r, s1)" by (cases "?m s")
  have inv1: "st_inv s1" and keys: "map read_key (st_reads s1) = map read_key (st_reads s)"
    using m export_fence_inv [OF inv nth_mem [OF i] at, of io k] inv by (auto simp: op_return_def split: if_splits)
  have i1: "i < length (st_reads s1)" using i map_eq_imp_length_eq [OF keys] by simp
  have key: "read_key (st_reads s1 ! i) = read_key ?read" by (rule keys_nth [OF keys i])
  obtain src1 ln1 where at1: "lane_at s1 (lrd_buffer ?read) (lrd_lane ?read) = Some (src1, ln1)"
    using read_has_lane [OF inv1 i1 key] .
  have hit: "fmlookup (st_buffers s1) (lrd_buffer ?read) = Some src1"
    using at1 by (simp add: lane_at_Some)
  have np: "no_panic r"
    using m by (auto simp: op_return_def export_fence_def Let_def no_panic_def split: if_splits prod.splits sum.splits option.splits
        dest: mark_fences_no_panic)
  have whole: "release_read io k i s = (case r of Inl e \<Rightarrow> (Inl e, s1) | Inr _ \<Rightarrow>
      (case wayland_signalled_point k (lane_timeline ln1) of
         Inl e \<Rightarrow> (Inl (PeSyncobj e), s1)
       | Inr signalled \<Rightarrow>
           if signalled < lrd_point ?read then (Inr False, s1)
           else op_bind (send_completed io (lrd_ticket ?read)) (\<lambda>_ s2. (Inr True, drop_read i ?read src1 s2)) s1))"
    using m at1 by (cases r) (simp_all add: release_read_def Let_def at op_bind_def)
  obtain evs where evs: "snd (send_completed io (lrd_ticket ?read) s1) = s1\<lparr>st_events := evs\<rparr>"
      "completed evs = completed (st_events s1) \<or> completed evs = completed (st_events s1) @ [lrd_ticket ?read]"
    using send_completed_effect by blast
  have fin: "st_inv (drop_read i ?read src1 (s1\<lparr>st_events := evs\<rparr>))"
    by (rule complete_inv [OF inv1 i1 key hit evs(2)])
  obtain c s2 where c: "send_completed io (lrd_ticket ?read) s1 = (c, s2)"
    by (cases "send_completed io (lrd_ticket ?read) s1")
  show ?thesis
    using np inv1 fin evs(1) c send_completed_fails [of io "lrd_ticket ?read" s1]
      send_completed_no_panic [of io "lrd_ticket ?read" s1]
    by (auto simp: whole op_bind_def split: sum.splits)
qed

lemma checked_add_ge: "checked_add a b = Some c \<Longrightarrow> a \<le> (c :: 'a::len word)"
proof -
  assume "checked_add a b = Some c"
  then have "unat c = unat a + unat b" unfolding checked_add_Some_iff by blast
  then show ?thesis unfolding word_le_nat_alt by linarith
qed

lemma release_from_inv:
  "st_inv s \<Longrightarrow> st_inv (snd (release_from io k n index s)) \<and> no_panic (fst (release_from io k n index s))"
proof (induction io k n index s rule: release_from.induct)
  case (1 io k n index s)
  show ?case
  proof (cases "index < length (st_reads s)")
    case False
    then show ?thesis using "1.prems" by (simp add: release_from.simps)
  next
    case True
    obtain r s1 where step: "release_read io (k n) index s = (r, s1)"
      by (cases "release_read io (k n) index s")
    have inv: "st_inv s1" and np: "no_panic r"
      using release_read_inv [OF "1.prems" True, of io "k n"] step by auto
    show ?thesis
    proof (cases r)
      case (Inl e)
      then show ?thesis using True step inv np by (simp add: release_from.simps [of io k n index s])
    next
      case (Inr b)
      then show ?thesis
        using True step "1.IH"(1) [OF True step [symmetric, unfolded Inr] refl _ inv]
          "1.IH"(2) [OF True step [symmetric, unfolded Inr] refl _ inv]
        by (cases b) (simp_all add: release_from.simps [of io k n index s])
    qed
  qed
qed

subsection \<open>Starting a read\<close>

lemma attach_points:
  "tl_points (snd (attach_sync_file k t point fd)) =
     (if is_ok (fst (attach_sync_file k t point fd))
      then (point, tl_last_signalled_point t, tl_last_exported_point t) else tl_points t)"
proof (cases "require_newer (max (tl_last_attached_point t) (tl_last_signalled_point t)) point")
  case (Inr u)
  obtain h t2 where h: "transfer_handle k t = (h, t2)" by (cases "transfer_handle k t")
  have t2: "tl_points t2 = tl_points t" using transfer_handle_points [of k t] h by simp
  show ?thesis
  proof (cases h)
    case (Inl e)
    then show ?thesis using Inr h t2 by (simp add: attach_sync_file_def)
  next
    case temp: (Inr temporary)
    show ?thesis
      using Inr h t2 temp
      by (cases "import_sync_file_into k temporary fd";
          cases "drm_call ''transfer sync_file into timeline point'' (k_timeline_transfer k temporary (tl_handle t2) 0 point)")
        (simp_all add: attach_sync_file_def tl_points_def)
  qed
qed (simp add: attach_sync_file_def)

lemma signal_points:
  "tl_points (snd (tl_signal k t point)) =
     (if is_ok (fst (tl_signal k t point))
      then (tl_last_attached_point t, point, tl_last_exported_point t) else tl_points t)"
  by (cases "require_newer (max (tl_last_attached_point t) (tl_last_signalled_point t)) point";
      cases "drm_call ''signal timeline point'' (k_timeline_signal k (tl_handle t) point)")
    (simp_all add: tl_signal_def tl_points_def)

text \<open>Arming wakeups changes neither the timeline nor the points of a lane.\<close>

lemma arm_release_wakeup_frame:
  "bs_timeline (snd (arm_release_wakeup k point bs)) = bs_timeline bs"
  "bs_next_point (snd (arm_release_wakeup k point bs)) = bs_next_point bs"
  by (auto simp: arm_release_wakeup_def split: option.split sum.split syncobj_error.split)

lemma arm_lane_frame:
  assumes "arm_lane env point ln = (r, ln1)"
  shows "lane_timeline ln1 = lane_timeline ln" "bs_next_point (ln_sync ln1) = bs_next_point (ln_sync ln)"
  using assms arm_release_wakeup_frame [of "ve_drm env" point "ln_sync ln"]
  by (auto simp: arm_lane_def op_bind_def op_on_apply lane_timeline_def split: prod.splits sum.splits)

lemma arm_lane_no_panic: "no_panic (fst (arm_lane env point ln))"
  by (auto simp: arm_lane_def op_bind_def op_on_apply arm_release_wakeup_def
      split: prod.splits sum.splits option.splits syncobj_error.splits if_splits)

lemma lane_ok_points:
  assumes "lane_ok ln" and "lane_timeline ln1 = lane_timeline ln" and "bs_next_point (ln_sync ln1) = bs_next_point (ln_sync ln)"
  shows "lane_ok ln1"
  using assms by (simp add: lane_ok_def)

lemma start_on_lane_ok:
  assumes ok: "lane_ok ln" and start: "start_on_lane env acquire ln = (r, ln1)"
  shows "lane_ok ln1" and "no_panic r"
    and "r = Inr (acquire_point, release) \<Longrightarrow> bs_next_point (ln_sync ln1) = release"
proof -
  let ?next = "bs_next_point (ln_sync ln)"
  have "lane_ok ln1 \<and> no_panic r \<and> (\<forall>acquire_point release.
      r = Inr (acquire_point, release) \<longrightarrow> bs_next_point (ln_sync ln1) = release)"
  proof (cases "Option.bind (checked_add ?next 1) (\<lambda>a. checked_add a 1) = None")
    case True
    then show ?thesis
      using ok start by (auto simp: start_on_lane_def split: option.splits)
  next
    case False
    then obtain acq rel where acq: "checked_add ?next 1 = Some acq" and rel: "checked_add acq 1 = Some rel"
      by (auto simp: bind_eq_None_conv)
    have le: "?next \<le> acq" "acq \<le> rel"
      using checked_add_ge [OF acq] checked_add_ge [OF rel] by simp_all
    obtain q t1 where imp: "(case acquire of
          Some fd \<Rightarrow> wayland_import_acquire_fence (ve_drm env) (lane_timeline ln) acq fd
        | None \<Rightarrow> wayland_signal_acquire (ve_drm env) (lane_timeline ln) acq) = (q, t1)"
      by (meson surj_pair)
    let ?t = "lane_timeline ln"
    have "tl_points t1 \<in> (if is_ok q then
        {(acq, tl_last_signalled_point ?t, tl_last_exported_point ?t), (tl_last_attached_point ?t, acq, tl_last_exported_point ?t)}
        else {tl_points ?t})"
      using imp attach_points [of "ve_drm env" ?t acq "the acquire"] signal_points [of "ve_drm env" ?t acq]
      by (cases acquire) (simp_all add: wayland_import_acquire_fence_def wayland_signal_acquire_def)
    note t1 = this [unfolded tl_points_def]
    show ?thesis
    proof (cases q)
      case (Inl e)
      then have "lane_ok (set_timeline t1 ln)"
        using ok t1 by (auto simp: lane_ok_def set_timeline_def lane_timeline_def)
      then show ?thesis
        using start acq rel imp Inl by (auto simp: start_on_lane_def)
    next
      case (Inr u)
      let ?ln2 = "(set_timeline t1 ln)\<lparr>ln_sync := (ln_sync (set_timeline t1 ln))\<lparr>bs_next_point := rel\<rparr>\<rparr>"
      have ok2: "lane_ok ?ln2"
        using ok t1 Inr le by (auto simp: lane_ok_def set_timeline_def lane_timeline_def)
      obtain p ln3 where arm: "arm_lane env rel ?ln2 = (p, ln3)" by (cases "arm_lane env rel ?ln2")
      note frame = arm_lane_frame [OF arm]
      have "no_panic p" using arm_lane_no_panic [of env rel ?ln2] arm by simp
      moreover have "lane_ok ln3" by (rule lane_ok_points [OF ok2 frame])
      moreover have "bs_next_point (ln_sync ln3) = rel" using frame(2) by simp
      ultimately show ?thesis
        using start acq rel imp Inr arm
        by (cases p) (auto simp: start_on_lane_def Let_def op_bind_def op_return_def)
    qed
  qed
  then show "lane_ok ln1" and "no_panic r"
    and "r = Inr (acquire_point, release) \<Longrightarrow> bs_next_point (ln_sync ln1) = release" by blast+
qed

lemma new_lane_ok:
  assumes "new_lane env = r"
  shows "no_panic r" and "r = Inr ln \<Longrightarrow> lane_ok ln"
  using assms
  by (auto simp: new_lane_def wayland_create_def create_timeline_def new_timeline_def lane_ok_def lane_timeline_def
      no_panic_def bind_result_def map_err_def split: sum.splits)

text \<open>The lane of a new read carries no other read, and the allocation only grows.\<close>

lemma acquire_lane_ok:
  assumes src: "source_ok reads ident src" and reads: "\<forall>r \<in> set reads. read_ok buffers r"
    and hit: "fmlookup buffers ident = Some src"
    and step: "acquire_lane env ident reads src = (r, src1)"
  shows "source_grows reads ident src src1" and "no_panic r"
    and "r = Inr i \<Longrightarrow> i < length (sr_lanes src1) \<and> \<not> lane_used ident reads i"
proof -
  have small: "\<not> lane_used ident reads (length (sr_lanes src))"
    using reads hit by (auto simp: lane_used_def list_ex_iff read_ok_def)
  have lanes: "list_all lane_ok (sr_lanes src)" using src by (simp add: source_ok_def)
  have "source_grows reads ident src src1 \<and> no_panic r
      \<and> (\<forall>i. r = Inr i \<longrightarrow> i < length (sr_lanes src1) \<and> \<not> lane_used ident reads i)"
  proof (cases "free_lane src ident reads")
    case (Some i)
    then show ?thesis
      using step lanes find_lane_Some [OF Some] by (auto simp: acquire_lane_def source_grows_def)
  next
    case None
    then show ?thesis
      using step lanes small new_lane_ok(1) [of env, OF refl] new_lane_ok(2) [of env, OF refl]
      by (cases "new_lane env") (auto simp: acquire_lane_def source_grows_def next_point_of_def nth_append)
  qed
  then show "source_grows reads ident src src1" and "no_panic r"
    and "r = Inr i \<Longrightarrow> i < length (sr_lanes src1) \<and> \<not> lane_used ident reads i" by blast+
qed

lemma source_grows_trans:
  assumes "source_grows reads ident src src1" and "source_grows reads ident src1 src2"
  shows "source_grows reads ident src src2"
  using assms by (auto simp: source_grows_def)

lemma source_ok_grows: "source_ok reads ident src \<Longrightarrow> source_grows reads ident src src1 \<Longrightarrow> source_ok reads ident src1"
  by (simp add: source_ok_def source_grows_def)

text \<open>Adding a read: a fresh ticket, on an allocation that has grown and takes the ticket over.\<close>

lemma st_inv_add_read:
  assumes inv: "st_inv s" and hit: "fmlookup (st_buffers s) (lrd_buffer r) = Some src"
    and grows: "source_grows (st_reads s) (lrd_buffer r) src src1"
    and imported: "sr_buffer src \<noteq> None" and fresh: "lrd_ticket r \<notin> set (tickets s)"
    and lane: "lrd_lane r < length (sr_lanes src1)" "lrd_point r = next_point_of src1 (lrd_lane r)"
  shows "st_inv (add_read r (put_source (lrd_buffer r) (src1\<lparr>sr_ticket := Some (lrd_ticket r)\<rparr>) s))" (is "st_inv ?s'")
proof -
  let ?b = "lrd_buffer r" and ?src = "src1\<lparr>sr_ticket := Some (lrd_ticket r)\<rparr>"
  have grown: "st_inv (put_source ?b src1 s)" by (rule st_inv_grows [OF inv hit grows])
  have buffers: "st_buffers ?s' = fmupd ?b ?src (st_buffers s)" and reads: "st_reads ?s' = st_reads s @ [r]"
    by (simp_all add: add_read_def put_source_def)
  have "read_ok (st_buffers ?s') x" if "x \<in> set (st_reads ?s')" for x
  proof (cases "x = r")
    case True
    then show ?thesis
      using grows imported lane by (auto simp: buffers read_ok_def source_grows_def next_point_of_def)
  next
    case False
    then have "read_ok (fmupd ?b src1 (st_buffers s)) x"
      using that reads st_invD(1) [OF grown, of x] by (simp add: put_source_def)
    then show ?thesis by (auto simp: buffers read_ok_def split: if_splits)
  qed
  moreover have "source_ok (st_reads ?s') ident x" if x: "fmlookup (st_buffers ?s') ident = Some x" for ident x
  proof (cases "ident = ?b")
    case True
    then show ?thesis
      using x grows by (auto simp: buffers reads source_ok_def source_grows_def)
  next
    case False
    then show ?thesis
      using x st_invD(2) [OF inv, of ident x] by (auto simp: buffers reads source_ok_def)
  qed
  moreover have "tickets_ok ?s'"
    using st_invD(3) [OF inv] fresh
    by (auto simp: tickets_ok_def tickets_def add_read_def put_source_def max.coboundedI1)
  moreover have "imports_ok ?s'"
  proof -
    have "imports_ok (put_source ?b ?src s)"
      by (rule imports_ok_put [OF st_invD(4) [OF inv] hit]) (use grows in \<open>simp add: source_grows_def\<close>)
    then show ?thesis by (simp add: imports_ok_def add_read_def put_source_def)
  qed
  ultimately show ?thesis by (simp add: st_inv_def)
qed

subsection \<open>Showing a layer\<close>

definition starts :: "layer_stream \<Rightarrow> layer \<Rightarrow> bool" where
  "starts s l \<longleftrightarrow> ly_buffer l \<noteq> 0 \<and>
     (\<exists>src. fmlookup (st_buffers s) (ly_buffer l) = Some src \<and> sr_ticket src \<noteq> Some (ly_ticket l))"

text \<open>What the scene check guarantees of a layer when its turn comes.\<close>

definition layer_ready :: "layer_stream \<Rightarrow> layer \<Rightarrow> bool" where
  "layer_ready s l \<longleftrightarrow> ly_buffer l = 0 \<or>
     (\<exists>src. fmlookup (st_buffers s) (ly_buffer l) = Some src \<and> sr_buffer src \<noteq> None
        \<and> (starts s l \<longrightarrow> ly_ticket l \<notin> set (tickets s)))"

text \<open>What showing it may change: its own allocation, and its ticket is used if it starts a read.\<close>

definition layer_step :: "layer \<Rightarrow> layer_stream \<Rightarrow> layer_stream \<Rightarrow> bool" where
  "layer_step l s s' \<longleftrightarrow> st_inv s'
     \<and> (\<forall>ident. ident \<noteq> ly_buffer l \<longrightarrow> fmlookup (st_buffers s') ident = fmlookup (st_buffers s) ident)
     \<and> set (tickets s') \<subseteq> set (tickets s) \<union> (if starts s l then {ly_ticket l} else {})"

lemma tickets_core: "same_core s s' \<Longrightarrow> tickets s' = tickets s"
  by (simp add: same_core_def tickets_def)

lemma layer_step_core: "st_inv s \<Longrightarrow> same_core s s' \<Longrightarrow> layer_step l s s'"
  by (auto simp: layer_step_def st_inv_core tickets_core) (simp_all add: same_core_def)

lemma starts_core: "same_core s s' \<Longrightarrow> starts s' l = starts s l"
  by (simp add: same_core_def starts_def)

lemma layer_ready_core: "same_core s s' \<Longrightarrow> layer_ready s' l = layer_ready s l"
  using starts_core [of s s' l] tickets_core [of s s'] by (simp add: layer_ready_def) (simp add: same_core_def)

lemma layer_step_trans_core:
  assumes "same_core s s1" and "layer_step l s1 s2" and "same_core s2 s3"
  shows "layer_step l s s3"
  using assms(2) starts_core [OF assms(1), of l] tickets_core [OF assms(1)] tickets_core [OF assms(3)]
    st_inv_core [OF assms(3)] assms(1,3)
  unfolding layer_step_def same_core_def by auto

lemma start_read_step:
  assumes inv: "st_inv s" and ready: "layer_ready s l" and new: "starts s l"
    and s: "s = tx_stream x"
  shows "layer_step l s (tx_stream (snd (start_read env l acquire x))) \<and> no_panic (fst (start_read env l acquire x))"
proof -
  let ?b = "ly_buffer l"
  obtain src where hit: "fmlookup (st_buffers s) ?b = Some src" and imported: "sr_buffer src \<noteq> None"
    and fresh: "ly_ticket l \<notin> set (tickets s)"
    using ready new by (auto simp: layer_ready_def starts_def)
  have src: "source_ok (st_reads s) ?b src" by (rule st_invD(2) [OF inv hit])
  have reads: "\<forall>r \<in> set (st_reads s). read_ok (st_buffers s) r" using st_invD(1) [OF inv] by blast
  obtain r src1 where acq: "acquire_lane env ?b (st_reads s) src = (r, src1)"
    by (cases "acquire_lane env ?b (st_reads s) src")
  note al = acquire_lane_ok [OF src reads hit acq]
  have put: "layer_step l s (put_source ?b src' s)" if "source_grows (st_reads s) ?b src src'" for src'
    using st_inv_grows [OF inv hit that] by (auto simp: layer_step_def put_source_def tickets_def)
  show ?thesis
  proof (cases r)
    case (Inl e)
    then show ?thesis
      using put [OF al(1)] al(2) hit acq by (simp add: start_read_def Let_def s [symmetric])
  next
    case (Inr i)
    note free = al(3) [OF Inr]
    have ok1: "source_ok (st_reads s) ?b src1" by (rule source_ok_grows [OF src al(1)])
    then have lane: "lane_ok (sr_lanes src1 ! i)" using free by (simp add: source_ok_def list_all_length)
    obtain q ln where start: "start_on_lane env acquire (sr_lanes src1 ! i) = (q, ln)"
      by (cases "start_on_lane env acquire (sr_lanes src1 ! i)")
    note sl = start_on_lane_ok [OF lane start]
    have grows2: "source_grows (st_reads s) ?b src1 (put_lane src1 i ln)"
      by (rule source_grows_put_lane [OF ok1]) (use free sl(1) in auto)
    note grows = source_grows_trans [OF al(1) grows2]
    show ?thesis
    proof (cases q)
      case qe: (Inl e)
      then show ?thesis
        using put [OF grows] sl(2) hit acq Inr start by (simp add: start_read_def Let_def s [symmetric])
    next
      case qr: (Inr points)
      obtain ap rp where points: "points = (ap, rp)" by (cases points)
      let ?r = "\<lparr>lrd_buffer = ?b, lrd_lane = i, lrd_ticket = ly_ticket l, lrd_point = rp, lrd_fence_sent = False\<rparr>"
      let ?s1 = "add_read ?r (put_source ?b ((put_lane src1 i ln)\<lparr>sr_ticket := Some (ly_ticket l)\<rparr>) s)"
      have "st_inv ?s1"
        using st_inv_add_read [of s ?r src "put_lane src1 i ln"] inv hit grows imported fresh free
          sl(3) [of ap rp] qr points
        by (simp add: put_lane_def next_point_of_def)
      then have step: "layer_step l s ?s1"
        using new by (auto simp: layer_step_def add_read_def put_source_def tickets_def)
      show ?thesis
        using layer_step_trans_core [OF same_core_refl step core_steps(1)] hit acq Inr start qr points
        by (simp add: start_read_def Let_def s [symmetric] tx_wl_def)
    qed
  qed
qed

lemma relabel_read_step:
  assumes inv: "st_inv s" and ready: "layer_ready s l" and held: "relabels l v s = Some held"
    and s: "s = tx_stream x" and nz: "ly_buffer l \<noteq> 0"
  shows "layer_step l s (tx_stream (snd (relabel_read l held x))) \<and> no_panic (fst (relabel_read l held x))"
proof -
  let ?b = "ly_buffer l"
  from held obtain src where hit: "fmlookup (st_buffers s) ?b = Some src" and old: "sr_ticket src = Some held"
    and differs: "held \<noteq> ly_ticket l"
    by (auto simp: relabels_def held_ticket_def split: option.splits if_splits Option.bind_splits)
  then have new: "starts s l" using nz by (simp add: starts_def)
  then have imported: "sr_buffer src \<noteq> None" and fresh: "ly_ticket l \<notin> set (tickets s)"
    using ready hit nz by (auto simp: layer_ready_def)
  have src: "source_ok (st_reads s) ?b src" by (rule st_invD(2) [OF inv hit])
  then have ex: "\<exists>r \<in> set (st_reads s). lrd_buffer r = ?b \<and> lrd_ticket r = held"
    using old by (simp add: source_ok_def)
  let ?P = "\<lambda>r. lrd_buffer r = ?b \<and> lrd_ticket r = held"
  obtain r where found: "find ?P (st_reads s) = Some r"
    using ex by (cases "find ?P (st_reads s)") (auto simp: find_None_iff)
  then have r: "r \<in> set (st_reads s)" "lrd_buffer r = ?b" by (auto simp: find_Some_iff)
  let ?r = "r\<lparr>lrd_ticket := ly_ticket l\<rparr>"
  let ?s1 = "add_read ?r (put_source ?b (src\<lparr>sr_ticket := Some (ly_ticket l)\<rparr>) s)"
  have "source_grows (st_reads s) ?b src src" using src by (simp add: source_grows_def source_ok_def)
  then have "st_inv ?s1"
    using st_inv_add_read [of s ?r src src] inv hit imported fresh r st_invD(1) [OF inv r(1)]
    by (auto simp: read_ok_def next_point_of_def)
  then have "layer_step l s ?s1"
    using new by (auto simp: layer_step_def add_read_def put_source_def tickets_def)
  then show ?thesis
    using hit found by (simp add: relabel_read_def Let_def s [symmetric])
qed

definition tx_core :: "layer_txn \<Rightarrow> layer_txn \<Rightarrow> bool" where
  "tx_core x x' \<longleftrightarrow> same_core (tx_stream x) (tx_stream x')"

lemma tx_core_wl [simp]: "tx_core x (tx_wl rq x)"
  by (simp add: tx_core_def tx_wl_def)

lemma same_core_wl [simp]: "same_core s (wl rq s') \<longleftrightarrow> same_core s s'"
  by (simp add: same_core_def wl_def)

lemma request_feedback_core:
  "tx_core x (snd (request_feedback env cx l x))" "tx_view (snd (request_feedback env cx l x)) = tx_view x"
  "no_panic (fst (request_feedback env cx l x))"
  by (auto simp: request_feedback_def tx_core_def tx_wl_def split: option.split)

lemma apply_geometry_core:
  "tx_core x (snd (apply_geometry env previous g x))" "no_panic (fst (apply_geometry env previous g x))"
  by (auto simp: apply_geometry_def tx_core_def tx_wl_def Let_def split: prod.split)

lemma apply_solid_core: "tx_core x (snd (apply_solid env color x))" "no_panic (fst (apply_solid env color x))"
  by (auto simp: apply_solid_def tx_core_def tx_wl_def Let_def split: option.split sum.split)

lemma is_new_read_starts: "is_new_read l v s \<Longrightarrow> starts s l"
  by (auto simp: is_new_read_def starts_def split: option.splits)

lemma relabels_core: "same_core s s' \<Longrightarrow> relabels l v s' = relabels l v s \<and> is_new_read l v s' = is_new_read l v s"
  by (simp add: same_core_def relabels_def held_ticket_def is_new_read_def)

lemma apply_content_step:
  assumes inv: "st_inv s" and ready: "layer_ready s l" and s: "s = tx_stream x"
  shows "layer_step l s (tx_stream (snd (apply_content env l acquire (is_new_read l v s) (relabels l v s) x)))
    \<and> no_panic (fst (apply_content env l acquire (is_new_read l v s) (relabels l v s) x))"
proof (cases "ly_buffer l = 0")
  case True
  then show ?thesis
    using apply_solid_core [where x = x and env = env and color = "ly_color l"] layer_step_core [OF inv]
    by (simp add: apply_content_def tx_core_def s)
next
  case nz: False
  show ?thesis
  proof (cases "is_new_read l v s")
    case True
    then show ?thesis
      using nz start_read_step [OF inv ready is_new_read_starts [OF True] s] by (simp add: apply_content_def)
  next
    case False
    show ?thesis
    proof (cases "relabels l v s")
      case (Some held)
      then show ?thesis
        using nz False relabel_read_step [OF inv ready Some s nz] by (simp add: apply_content_def)
    next
      case None
      have "ly_buffer l |\<in>| fmdom (st_buffers s)"
        using ready nz by (auto simp: layer_ready_def intro: fmdomI)
      then show ?thesis
        using nz False None layer_step_core [OF inv same_core_refl] s by (simp add: apply_content_def)
    qed
  qed
qed

lemma tx_core_trans: "tx_core x y \<Longrightarrow> tx_core y z \<Longrightarrow> tx_core x z"
  by (auto simp: tx_core_def intro: same_core_trans)

lemma apply_layer_step:
  assumes inv: "st_inv (tx_stream x)" and ready: "layer_ready (tx_stream x) l"
  shows "layer_step l (tx_stream x) (tx_stream (snd (apply_layer env cx previous l acquire g changed x)))
    \<and> no_panic (fst (apply_layer env cx previous l acquire g changed x))"
proof -
  obtain r x1 where fb: "request_feedback env cx l x = (r, x1)" by (cases "request_feedback env cx l x")
  have core1: "tx_core x x1" and np1: "no_panic r"
    using request_feedback_core [where x = x and env = env and cx = cx and l = l] fb by simp_all
  let ?x2 = "case cx_target cx of
      Some grant \<Rightarrow> if (ly_buffer l = 0 \<or> is_new_read l (tx_view x1) (tx_stream x1)) \<and> vw_timeline (tx_view x1)
        then tx_wl [WlTarget (vw_surface (tx_view x1)) grant] x1 else x1
    | None \<Rightarrow> x1"
  have core2: "tx_core x ?x2"
    using core1 tx_core_trans by (auto simp: tx_core_def tx_wl_def split: option.split)
  let ?g = "if changed then apply_geometry env previous g else op_return ()"
  obtain q x3 where geo: "?g ?x2 = (q, x3)" by (cases "?g ?x2")
  have "tx_core ?x2 x3" and np3: "no_panic q"
    using geo apply_geometry_core [where x = ?x2 and env = env and previous = previous and g = g] by (auto simp: op_return_def tx_core_def split: if_splits)
  then have core3: "tx_core x x3" using core2 tx_core_trans by blast
  have c1: "same_core (tx_stream x) (tx_stream x1)" and c3: "same_core (tx_stream x) (tx_stream x3)"
    using core1 core3 by (simp_all add: tx_core_def)
  have inv3: "st_inv (tx_stream x3)" using inv st_inv_core [OF c3] by simp
  have ready3: "layer_ready (tx_stream x3) l" using ready layer_ready_core [OF c3] by simp
  have same: "relabels l (tx_view x1) (tx_stream x1) = relabels l (tx_view x1) (tx_stream x3)"
    "is_new_read l (tx_view x1) (tx_stream x1) = is_new_read l (tx_view x1) (tx_stream x3)"
    using relabels_core [OF c1, of l "tx_view x1"] relabels_core [OF c3, of l "tx_view x1"] by simp_all
  note content = apply_content_step [OF inv3 ready3 refl, of env acquire "tx_view x1"]
  show ?thesis
  proof (cases r)
    case (Inl e)
    then show ?thesis
      using fb np1 layer_step_core [OF inv c1] by (simp add: apply_layer_def op_bind_def)
  next
    case (Inr u)
    have whole: "apply_layer env cx previous l acquire g changed x = (case q of Inl e \<Rightarrow> (Inl e, x3)
        | Inr _ \<Rightarrow> apply_content env l acquire (is_new_read l (tx_view x1) (tx_stream x3))
            (relabels l (tx_view x1) (tx_stream x3)) x3)"
      using fb Inr geo by (cases q) (simp_all add: apply_layer_def op_bind_def Let_def same)
    show ?thesis
      using content layer_step_trans_core [OF c3 _ same_core_refl] layer_step_core [OF inv c3] np3
      unfolding whole by (cases q) auto
  qed
qed

lemma update_view_step:
  assumes inv: "st_inv (tx_stream x)" and ready: "layer_ready (tx_stream x) l"
  shows "layer_step l (tx_stream x) (tx_stream (snd (update_view env cx previous l acquire g x)))
    \<and> no_panic (fst (update_view env cx previous l acquire g x))"
proof (cases "vw_geometry (tx_view x) = Some g \<and> vw_content (tx_view x) = Some (content_new l)")
  case True
  then show ?thesis using layer_step_core [OF inv same_core_refl] by (simp add: update_view_def)
next
  case False
  let ?changed = "vw_geometry (tx_view x) \<noteq> Some g"
  obtain r x1 where ap: "apply_layer env cx previous l acquire g ?changed x = (r, x1)"
    by (cases "apply_layer env cx previous l acquire g ?changed x")
  have step: "layer_step l (tx_stream x) (tx_stream x1)" and np: "no_panic r"
    using apply_layer_step [OF inv ready, of env cx previous acquire g ?changed] ap by simp_all
  show ?thesis
    using False ap np step layer_step_trans_core [OF same_core_refl step, of "wl rq (tx_stream x1)" for rq]
    by (cases r) (auto simp: update_view_def Let_def op_bind_def tx_wl_def)
qed

lemma view_for_layer_core:
  "same_core s (snd (view_for_layer env alpha ident s))" "alpha \<Longrightarrow> no_panic (fst (view_for_layer env alpha ident s))"
  by (auto simp: view_for_layer_def Let_def put_view_def same_core_def split: option.split)

lemma show_layer_step:
  assumes inv: "st_inv s" and ready: "layer_ready s l" and alpha: "cx_alpha cx"
    and out: "show_layer env cx previous pid (l, acquire) (s, fb) = (r, (s', fb'))"
  shows "layer_step l s s' \<and> no_panic r"
proof -
  obtain q s1 where vf: "view_for_layer env (cx_alpha cx) (ly_id l) s = (q, s1)"
    by (cases "view_for_layer env (cx_alpha cx) (ly_id l) s")
  have c1: "same_core s s1" and np: "no_panic q"
    using view_for_layer_core [where s = s and env = env and ident = "ly_id l" and alpha = "cx_alpha cx"] alpha vf
    by simp_all
  show ?thesis
  proof (cases q)
    case (Inl e)
    then show ?thesis using out vf np layer_step_core [OF inv c1] by (auto simp: show_layer_def)
  next
    case (Inr v)
    let ?x = "\<lparr>tx_view = v, tx_stream = s1, tx_feedback = fb\<rparr>"
    let ?g = "geometry_new l pid (cx_logical cx) (cx_physical cx)"
    obtain p x where up: "update_view env cx previous l acquire ?g ?x = (p, x)"
      by (cases "update_view env cx previous l acquire ?g ?x")
    have inv1: "st_inv (tx_stream ?x)" using inv st_inv_core [OF c1] by simp
    have "layer_ready (tx_stream ?x) l" using ready layer_ready_core [OF c1] by simp
    from update_view_step [OF inv1 this, of env cx previous acquire ?g]
    have step: "layer_step l s1 (tx_stream x)" and np1: "no_panic p" using up by simp_all
    have "layer_step l s (put_view (ly_id l) (tx_view x) (tx_stream x))"
      by (rule layer_step_trans_core [OF c1 step core_steps(4)])
    then show ?thesis
      using out vf Inr up np1 by (cases p) (auto simp: show_layer_def Let_def)
  qed
qed

text \<open>The layers still to be shown, and that showing one leaves the others ready.\<close>

fun scene_todo :: "layer_stream \<Rightarrow> (layer \<times> owned_fd option) list \<Rightarrow> bool" where
  "scene_todo s [] = True"
| "scene_todo s ((l, _) # rest) \<longleftrightarrow> layer_ready s l
     \<and> (\<forall>(k, _) \<in> set rest. (ly_buffer k \<noteq> 0 \<longrightarrow> ly_buffer k \<noteq> ly_buffer l)
          \<and> (starts s k \<longrightarrow> starts s l \<longrightarrow> ly_ticket k \<noteq> ly_ticket l))
     \<and> scene_todo s rest"

lemma layer_step_others:
  assumes "layer_step l s s'" and "ly_buffer k \<noteq> 0 \<longrightarrow> ly_buffer k \<noteq> ly_buffer l"
  shows "starts s' k = starts s k"
    and "layer_ready s k \<Longrightarrow> (starts s k \<longrightarrow> starts s l \<longrightarrow> ly_ticket k \<noteq> ly_ticket l) \<Longrightarrow> layer_ready s' k"
proof -
  show st: "starts s' k = starts s k"
    using assms by (auto simp: starts_def layer_step_def)
  show "layer_ready s' k" if "layer_ready s k" "starts s k \<longrightarrow> starts s l \<longrightarrow> ly_ticket k \<noteq> ly_ticket l"
    using assms that st by (auto simp: layer_ready_def layer_step_def split: if_splits)
qed

lemma scene_todo_step:
  assumes step: "layer_step l s s'"
  shows "scene_todo s rest \<Longrightarrow>
    (\<forall>(k, _) \<in> set rest. (ly_buffer k \<noteq> 0 \<longrightarrow> ly_buffer k \<noteq> ly_buffer l)
       \<and> (starts s k \<longrightarrow> starts s l \<longrightarrow> ly_ticket k \<noteq> ly_ticket l)) \<Longrightarrow> scene_todo s' rest"
proof (induction rest)
  case (Cons x rest)
  obtain k fd where x: "x = (k, fd)" by (cases x)
  have "starts s' j = starts s j" if "(j, fd') \<in> set rest" for j fd'
    using layer_step_others(1) [OF step] Cons.prems(2) that by fastforce
  moreover have "layer_ready s' k" "starts s' k = starts s k"
    using layer_step_others [OF step, of k] Cons.prems x by simp_all
  ultimately show ?case
    using Cons x by fastforce
qed simp

lemma show_layers_inv:
  assumes alpha: "cx_alpha cx" and "st_inv s" and "scene_todo s staged"
    and "show_layers env cx n previous pid staged (s, fb) = (r, (s', fb'))"
  shows "st_inv s' \<and> no_panic r"
  using assms(2-)
proof (induction staged arbitrary: s fb n previous pid)
  case Nil
  then show ?case by (simp add: op_return_def) auto
next
  case (Cons x rest)
  obtain l acquire where x: "x = (l, acquire)" by (cases x)
  obtain q s1 fb1 where one: "show_layer (env n) cx previous pid (l, acquire) (s, fb) = (q, (s1, fb1))"
    by (cases "show_layer (env n) cx previous pid (l, acquire) (s, fb)") auto
  have step: "layer_step l s s1" and np: "no_panic q"
    using show_layer_step [OF Cons.prems(1) _ alpha one] Cons.prems(2) x by simp_all
  then have inv1: "st_inv s1" by (simp add: layer_step_def)
  have todo: "scene_todo s1 rest"
    using scene_todo_step [OF step] Cons.prems(2) x by simp
  show ?case
  proof (cases q)
    case (Inl e)
    then show ?thesis using Cons.prems(3) one x inv1 np by (auto simp: op_bind_def)
  next
    case (Inr surface)
    then show ?thesis
      using Cons.IH [OF inv1 todo] Cons.prems(3) one x by (simp add: op_bind_def)
  qed
qed

end
