(* ===== verification/Layer_Properties.thy ===== *)
theory Layer_Properties
  imports Layer_Invariant
begin

section \<open>A layer stream over its lifetime\<close>

text \<open>
  Every operation on a layer stream keeps the invariant of \<open>Layer_Invariant\<close>: the requests of
  SurfaceFlinger, the release of reads with the retry of a waiting scene, import answers of the
  compositor, hiding, aborted waits, published configurations and the loss of the peer.
\<close>

subsection \<open>From the scene check to the layers\<close>

lemma recycle_one_core:
  assumes "ident |\<in>| fmdom (st_views s)" and "recycle_one ident s = (r, s1)"
  shows "r = Inr () \<and> same_core s s1 \<and> fmdom (st_views s1) = fmdom (st_views s) |-| {|ident|}"
  using assms by (auto simp: recycle_one_def view_hide_def same_core_def wl_def fmlookup_dom_iff split: if_splits)

lemma recycle_each_core:
  "distinct xs \<Longrightarrow> set xs \<subseteq> fset (fmdom (st_views s)) \<Longrightarrow> op_each recycle_one xs s = (r, s1) \<Longrightarrow>
   r = Inr () \<and> same_core s s1"
proof (induction xs arbitrary: s)
  case (Cons x xs)
  obtain q s2 where one: "recycle_one x s = (q, s2)" by (cases "recycle_one x s")
  have "x |\<in>| fmdom (st_views s)" using Cons.prems(2) by simp
  note step = recycle_one_core [OF this one]
  have "set xs \<subseteq> fset (fmdom (st_views s2))" using Cons.prems(1,2) step by auto
  with Cons.IH [of s2] Cons.prems(1,3) one step show ?case
    by (auto simp: op_bind_def intro: same_core_trans)
qed (simp add: op_return_def)

lemma recycle_views_core: "recycle_views ids s = (r, s1) \<Longrightarrow> r = Inr () \<and> same_core s s1"
  unfolding recycle_views_def
  by (rule recycle_each_core) (auto simp: sorted_list_of_fset.rep_eq)

lemma scene_todo_core:
  assumes "same_core s s'"
  shows "scene_todo s' staged = scene_todo s staged"
  using layer_ready_core [OF assms] starts_core [OF assms]
  by (induction staged) auto

lemma new_read_starts: "new_read (stream_source s) l \<longleftrightarrow> starts s l"
  by (auto simp: new_read_def starts_def stream_source_def)

lemma admitted_ready:
  assumes "st_inv s"
    and "layer_admitted width height (st_last_ticket s) (stream_source s) attached l fenced"
  shows "layer_ready s l"
proof (cases "ly_buffer l = 0")
  case False
  then obtain src where hit: "fmlookup (st_buffers s) (ly_buffer l) = Some src" "sr_buffer src \<noteq> None"
    and newer: "sr_ticket src \<noteq> Some (ly_ticket l) \<Longrightarrow> st_last_ticket s < ly_ticket l"
    using assms(2) by (auto simp: layer_admitted_def stream_source_def split: if_splits)
  have "ly_ticket l \<notin> set (tickets s)" if "starts s l"
    using newer that hit(1) st_invD(3) [OF assms(1)]
    by (auto simp: tickets_ok_def starts_def not_le [symmetric])
  then show ?thesis using hit by (auto simp: layer_ready_def)
qed (simp add: layer_ready_def)

lemma admitted_todo:
  assumes inv: "st_inv s"
  shows "scene_admitted width height (st_last_ticket s) (stream_source s) attached (map (\<lambda>(l, fd). (l, fd \<noteq> None)) staged)
    \<Longrightarrow> scene_todo s staged"
proof (induction staged)
  case (Cons x rest)
  obtain l fd where x: "x = (l, fd)" by (cases x)
  from Cons.prems have adm: "layer_admitted width height (st_last_ticket s) (stream_source s) attached l (fd \<noteq> None)"
    and rest: "scene_admitted width height (st_last_ticket s) (stream_source s) attached
      (map (\<lambda>(l, fd). (l, fd \<noteq> None)) rest)"
    and apart: "\<forall>(k, _) \<in> set rest. (ly_buffer k \<noteq> 0 \<longrightarrow> ly_buffer k \<noteq> ly_buffer l)
      \<and> (starts s k \<longrightarrow> starts s l \<longrightarrow> ly_ticket k \<noteq> ly_ticket l)"
    by (auto simp: x scene_admitted_Cons new_read_starts)
  show ?case
    using admitted_ready [OF inv adm] Cons.IH [OF rest] apart by (simp add: x)
qed simp

lemma scene_ready_todo:
  assumes inv: "st_inv s" and ready: "scene_status_of a w s c = SceneReady"
  shows "scene_todo s (stg_layers (st_staged s))" and "accepts_present w" and "win_logical_size w \<noteq> None"
proof -
  let ?layers = "map (\<lambda>(l, fd). (l, fd \<noteq> None)) (stg_layers (st_staged s))"
  from ready have ok: "accepts_present w"
      "list_all (exact_layer (win_logical_size w) (pc_width c) (pc_height c)) (map fst (stg_layers (st_staged s)))"
    and assess: "assess_scene ?layers (pc_count c) (pc_width c) (pc_height c) (st_last_ticket s)
      (stream_source s) (stream_attached s) = SceneReady"
    by (auto simp: scene_status_of_def split: if_splits)
  from assess have count: "pc_count c \<noteq> 0" "unat (pc_count c) = length ?layers"
    by (auto simp: assess_scene_def split: if_splits)
  show "accepts_present w" by (rule ok(1))
  have "scene_admitted (pc_width c) (pc_height c) (st_last_ticket s) (stream_source s) (stream_attached s) ?layers"
    using assess by (auto simp: assess_scene_def assess_layers_iff split: if_splits)
  from admitted_todo [OF inv this] show "scene_todo s (stg_layers (st_staged s))" .
  have "stg_layers (st_staged s) \<noteq> []" using count by (auto simp: unat_eq_0)
  then obtain x xs where "stg_layers (st_staged s) = x # xs" by (cases "stg_layers (st_staged s)") auto
  then show "win_logical_size w \<noteq> None" using ok(2) by (cases "win_logical_size w") (simp_all add: exact_layer_def)
qed

subsection \<open>Committing and submitting\<close>

lemma prepare_backing_core:
  "same_core s (snd (prepare_backing env preserve composed logical s))"
  "no_panic (fst (prepare_backing env preserve composed logical s))"
proof -
  have "carrier_size x y = Inl e \<Longrightarrow> \<not> internal_error e" "carrier env wh = Inl e \<Longrightarrow> \<not> internal_error e" for x y wh e
    by (auto simp: carrier_size_def Let_def carrier_def map_err_Inl_iff split: if_splits)
  then show "no_panic (fst (prepare_backing env preserve composed logical s))"
    by (auto simp: prepare_backing_def split: sum.split option.split prod.split)
  show "same_core s (snd (prepare_backing env preserve composed logical s))"
    by (auto simp: prepare_backing_def wl_def same_core_def split: sum.split option.split)
qed

lemma finish_root_core:
  assumes "finish_root env root logical scene grant feedback backing (w, s) = (r, (w1, s1))"
  shows "same_core s s1" and "win_viewport w \<Longrightarrow> no_panic r"
  using assms by (auto simp: finish_root_def Let_def same_core_def split: if_splits option.splits sum.splits)

lemma commit_window_inv:
  assumes inv: "st_inv s" and todo: "scene_todo s (stg_layers (st_staged s))"
    and out: "commit_window env a physical scene grant (w, s) = (r, (w1, s1))"
    and alpha: "ap_alpha a"
  shows "st_inv s1" and "win_surface w \<noteq> None \<Longrightarrow> win_viewport w \<Longrightarrow> no_panic r"
proof -
  have "st_inv s1 \<and> (win_surface w \<noteq> None \<longrightarrow> win_viewport w \<longrightarrow> no_panic r)"
  proof (cases "win_surface w = None \<or> win_logical_size w = None")
    case True
    then show ?thesis
      using out inv by (cases "win_surface w"; cases "win_logical_size w") (auto simp: commit_window_def)
  next
    case False
    then obtain root logical where root: "win_surface w = Some root" and logical: "win_logical_size w = Some logical"
      by auto
    let ?p = "win_composed_root w \<and>
      covered_by_opaque_layer (map fst (stg_layers (st_staged s))) (fst physical) (snd physical)"
    obtain q s2 where bk: "prepare_backing env ?p (win_composed_root w) logical s = (q, s2)"
      by (cases "prepare_backing env ?p (win_composed_root w) logical s")
    have c2: "same_core s s2" and np2: "no_panic q"
      using prepare_backing_core [where env = env and preserve = ?p and composed = "win_composed_root w"
          and logical = logical and s = s] bk by simp_all
    have staged: "st_staged s2 = st_staged s"
      using bk by (auto simp: prepare_backing_def wl_def split: if_splits sum.splits)
    show ?thesis
    proof (cases q)
      case (Inl e)
      then show ?thesis
        using out root logical bk np2 inv st_inv_core [OF c2] by (auto simp: commit_window_def Let_def)
    next
      case (Inr backing)
      obtain layers emptied where take: "stg_take (st_staged s2) = (layers, emptied)"
        by (cases "stg_take (st_staged s2)")
      then have layers: "layers = stg_layers (st_staged s)" using staged by (simp add: stg_take_def)
      obtain u0 s3 where rec0: "recycle_views (set (map (ly_id \<circ> fst) layers)) (s2\<lparr>st_staged := emptied\<rparr>) = (u0, s3)"
        by (cases "recycle_views (set (map (ly_id \<circ> fst) layers)) (s2\<lparr>st_staged := emptied\<rparr>)")
      note recycled = recycle_views_core [OF this]
      have rec: "recycle_views (set (map (ly_id \<circ> fst) layers)) (s2\<lparr>st_staged := emptied\<rparr>) = (Inr (), s3)"
        using rec0 recycled by simp
      have c3: "same_core s s3"
        using same_core_trans [OF same_core_trans [OF c2 core_steps(6)]] recycled by blast
      have inv3: "st_inv s3" using inv st_inv_core [OF c3] by simp
      have todo3: "scene_todo s3 layers" using todo scene_todo_core [OF c3] layers by simp
      let ?fb = "choose_feedback a w scene grant layers s2"
      let ?cx = "\<lparr>cx_logical = logical, cx_physical = physical, cx_root = root, cx_feedback_layer = ?fb,
        cx_target = map_option tg_identity grant, cx_scene = scene, cx_configure_serial = win_configure_serial w,
        cx_alpha = ap_alpha a\<rparr>"
      obtain p s4 fb where shown: "show_layers (sn_views env) ?cx 0 root None layers (s3, win_scene_feedback w) = (p, (s4, fb))"
        by (cases "show_layers (sn_views env) ?cx 0 root None layers (s3, win_scene_feedback w)") auto
      have inv4: "st_inv s4" and np4: "no_panic p"
        using show_layers_inv [OF _ inv3 todo3 shown] alpha by simp_all
      have c5: "same_core s4 (s4\<lparr>st_staged := stg_recycle (st_staged s4)\<rparr>)" by simp
      show ?thesis
      proof (cases p)
        case pe: (Inl e)
        then show ?thesis
          using out root logical bk Inr take rec shown inv4 np4 by (auto simp: commit_window_def Let_def)
      next
        case pr: (Inr u)
        have fin: "finish_root env root logical scene grant ?fb backing
            (w\<lparr>win_scene_feedback := fb\<rparr>, s4\<lparr>st_staged := stg_recycle (st_staged s4)\<rparr>) = (r, (w1, s1))"
          using out root logical bk Inr take rec shown pr by (simp add: commit_window_def Let_def)
        show ?thesis
          using finish_root_core [OF fin] inv4 st_inv_core [OF same_core_trans [OF c5 finish_root_core(1) [OF fin]]]
          by simp
      qed
    qed
  qed
  then show "st_inv s1" and "win_surface w \<noteq> None \<Longrightarrow> win_viewport w \<Longrightarrow> no_panic r" by blast+
qed

subsection \<open>Requests on the stream alone\<close>

text \<open>An operation that keeps a property of its state on every path and never breaks the bookkeeping.\<close>

definition sound :: "('s \<Rightarrow> bool) \<Rightarrow> (presenter_error, 's, 'a) op \<Rightarrow> bool" where
  "sound P f \<longleftrightarrow> (\<forall>s. P s \<longrightarrow> P (snd (f s)) \<and> no_panic (fst (f s)))"

named_theorems sound_rules \<open>operations that keep the presenter in order\<close>

lemma soundI: "(\<And>s. P s \<Longrightarrow> P (snd (f s)) \<and> no_panic (fst (f s))) \<Longrightarrow> sound P f"
  by (simp add: sound_def)

lemma soundD: "sound P f \<Longrightarrow> P s \<Longrightarrow> f s = (r, s1) \<Longrightarrow> P s1 \<and> no_panic r"
  unfolding sound_def by (metis fst_conv snd_conv)

lemma sound_bind [sound_rules]: "sound P f \<Longrightarrow> (\<And>x. sound P (g x)) \<Longrightarrow> sound P (op_bind f g)"
  by (auto simp: sound_def op_bind_def split: prod.split sum.split)

lemma sound_return [sound_rules]: "sound P (op_return x)"
  by (simp add: sound_def)

lemma sound_lift [sound_rules]: "no_panic r \<Longrightarrow> sound P (op_lift r)"
  by (simp add: sound_def)

lemma sound_each [sound_rules]: "(\<And>x. sound P (f x)) \<Longrightarrow> sound P (op_each f xs)"
  by (induction xs) (auto intro: sound_rules)

lemma sound_st_core:
  "(\<And>s. same_core s (snd (f s))) \<Longrightarrow> (\<And>s. no_panic (fst (f s))) \<Longrightarrow> sound st_inv f"
  using st_inv_core by (auto simp: sound_def)

lemma send_no_panic [simp]:
  "no_panic (fst (send_event io ev s))" "no_panic (fst (send_reply io rp s))"
  by (auto simp: send_event_def send_reply_def split: sum.split)

lemma answers_no_panic [simp]:
  "no_panic (fst (st_ack io code s))" "no_panic (fst (answer_commit io scene code s))"
  "no_panic (fst (answer_import io attempt ident code s))"
  by (auto simp: st_ack_def answer_commit_def answer_import_def split: option.split)

lemma abort_wait_no_panic [simp]: "no_panic (fst (abort_timeline_wait io s))"
  by (auto simp: abort_timeline_wait_def split: option.split)

lemma sound_answers [sound_rules]:
  "sound st_inv (st_ack io code)" "sound st_inv (answer_commit io scene code)"
  "sound st_inv (answer_import io attempt ident code)" "sound st_inv (send_reply io rp)"
  "sound st_inv (abort_timeline_wait io)"
  by (rule sound_st_core; simp)+

lemma sound_send_event [sound_rules]: "\<not> is_completion ev \<Longrightarrow> sound st_inv (send_event io ev)"
  by (rule sound_st_core) simp_all

lemma sound_on_config [sound_rules]: "sound st_inv (on_config f)"
proof (rule sound_st_core)
  show "same_core s (snd (on_config f s))" for s by (simp add: on_config_def op_on_apply)
  show "no_panic (fst (on_config f s))" for s
    by (auto simp: on_config_def op_on_apply intro: no_panic_map_err)
qed

lemma sound_layer_guard [sound_rules]: "sound st_inv (layer_guard request)"
  by (rule sound_st_core) (auto simp: layer_guard_def Let_def same_core_def split: option.split)

lemma sound_stream_release [sound_rules]: "sound st_inv (stream_release io k)"
  by (simp add: sound_def stream_release_def release_from_inv)

lemma sound_layer_abort [sound_rules]: "sound st_inv (layer_abort io)"
proof (rule sound_st_core)
  fix s :: layer_stream
  let ?s = "(clear_staged s)\<lparr>st_waiting := None\<rparr>"
  have c: "same_core s ?s" by (rule same_core_trans [OF core_steps(2) core_steps(7)])
  have split: "layer_abort io s = (case Option.bind (st_waiting s) pc_scene of
      None \<Rightarrow> st_ack io 0 ?s
    | Some scene \<Rightarrow> op_bind (send_event io (EvCommitResult scene (- 95))) (\<lambda>_. st_ack io 0) ?s)"
    by (auto simp: layer_abort_def op_bind_def split: option.split)
  show "no_panic (fst (layer_abort io s))"
    unfolding split by (auto split: option.split)
  have "same_core ?s (snd (op_bind (send_event io (EvCommitResult scene (- 95))) (\<lambda>_. st_ack io 0) ?s))" for scene
  proof (cases "send_event io (EvCommitResult scene (- 95)) ?s")
    case (Pair r s1)
    have "same_core ?s s1"
      using core_send_event [of "EvCommitResult scene (- 95)" ?s io] Pair by simp
    then show ?thesis
      using Pair same_core_trans [OF _ core_answers(1)] by (cases r) (simp_all add: op_bind_def)
  qed
  then show "same_core s (snd (layer_abort io s))"
    unfolding split using same_core_trans [OF c] by (simp split: option.split)
qed

subsection \<open>Allocations come and go\<close>

lemma fmlen_fresh: "k |\<notin>| fmdom m \<Longrightarrow> fmlen (fmupd k v m) = Suc (fmlen m)"
  by (simp add: fmlen_def fcard_finsert_disjoint)

lemma fmlen_drop_le: "fmlen (fmdrop k m) \<le> fmlen m"
  unfolding fmlen_def by (auto intro!: fcard_mono)

lemma imports_swap_remove:
  assumes "distinct (map ip_buffer p)" and "i < length p"
  shows "distinct (map ip_buffer (swap_remove i p))"
    and "ip_buffer (p ! i) \<notin> ip_buffer ` set (swap_remove i p)"
    and "set (swap_remove i p) \<subseteq> set p" and "length (swap_remove i p) \<le> length p"
proof -
  have "mset (map ip_buffer p) = mset (ip_buffer (p ! i) # map ip_buffer (swap_remove i p))"
    using mset_map_swap_remove [OF assms(2), of ip_buffer] by simp
  then have "distinct (ip_buffer (p ! i) # map ip_buffer (swap_remove i p))"
    using assms(1) mset_eq_imp_distinct_iff by blast
  then show "distinct (map ip_buffer (swap_remove i p))" "ip_buffer (p ! i) \<notin> ip_buffer ` set (swap_remove i p)"
    by simp_all
  show "set (swap_remove i p) \<subseteq> set p" by (rule set_swap_remove(1) [OF assms(2)])
  show "length (swap_remove i p) \<le> length p" by (simp add: swap_remove_def)
qed

lemma source_ok_no_reads:
  "source_ok reads ident src \<Longrightarrow> (\<forall>r \<in> set reads. lrd_buffer r \<noteq> ident) \<Longrightarrow> sr_ticket src = None"
  by (cases "sr_ticket src") (auto simp: source_ok_def)

lemma pending_has_no_reads:
  assumes "st_inv s" and "p \<in> set (st_imports s)" and "r \<in> set (st_reads s)"
  shows "lrd_buffer r \<noteq> ip_buffer p"
  using st_invD(1) [OF assms(1,3)] st_invD(4) [OF assms(1)] assms(2) by (auto simp: read_ok_def imports_ok_def)

lemma st_inv_drop:
  assumes inv: "st_inv s" and free: "\<forall>r \<in> set (st_reads s). lrd_buffer r \<noteq> ident"
    and left: "set imports \<subseteq> set (st_imports s)" "distinct (map ip_buffer imports)"
      "length imports \<le> length (st_imports s)" "ident \<notin> ip_buffer ` set imports"
  shows "st_inv (s\<lparr>st_imports := imports, st_buffers := fmdrop ident (st_buffers s)\<rparr>)"
proof -
  have "read_ok (fmdrop ident (st_buffers s)) r" if "r \<in> set (st_reads s)" for r
    using st_invD(1) [OF inv that] free that by (auto simp: read_ok_def)
  moreover have "imports_ok (s\<lparr>st_imports := imports, st_buffers := fmdrop ident (st_buffers s)\<rparr>)"
    using st_invD(4) [OF inv] left fmlen_drop_le [of ident "st_buffers s"] by (fastforce simp: imports_ok_def)
  ultimately show ?thesis
    using inv by (auto simp: st_inv_def tickets_ok_def tickets_def)
qed

lemma st_inv_imported:
  assumes inv: "st_inv s" and i: "i < length (st_imports s)" and p: "p = st_imports s ! i"
    and hit: "fmlookup (st_buffers s) (ip_buffer p) = Some src"
  shows "st_inv (put_source (ip_buffer p) (src\<lparr>sr_buffer := Some b\<rparr>) (s\<lparr>st_imports := swap_remove i (st_imports s)\<rparr>))"
proof -
  let ?b = "ip_buffer p" and ?src = "src\<lparr>sr_buffer := Some b\<rparr>"
  have mem: "p \<in> set (st_imports s)" using i p by simp
  have "distinct (map ip_buffer (st_imports s))" using st_invD(4) [OF inv] by (simp add: imports_ok_def)
  note rest = imports_swap_remove [OF this i]
  have "read_ok (fmupd ?b ?src (st_buffers s)) r" if "r \<in> set (st_reads s)" for r
    using st_invD(1) [OF inv that] pending_has_no_reads [OF inv mem that] by (auto simp: read_ok_def)
  moreover have "source_ok (st_reads s) ?b ?src"
    using st_invD(2) [OF inv hit] by (simp add: source_ok_def)
  moreover have "imports_ok (put_source ?b ?src (s\<lparr>st_imports := swap_remove i (st_imports s)\<rparr>))"
    using st_invD(4) [OF inv] rest p hit
    by (fastforce simp: imports_ok_def put_source_def fmlen_upd_dom)
  ultimately show ?thesis
    using inv by (auto simp: st_inv_def put_source_def tickets_ok_def tickets_def)
qed

lemma st_inv_registered:
  assumes inv: "st_inv s" and fresh: "ident |\<notin>| fmdom (st_buffers s)" and room: "fmlen (st_buffers s) < MAX_BUFFERS"
    and slot: "\<not> im_full (st_imports s)" and p: "ip_buffer p = ident"
    and src: "sr_buffer src = None" "sr_ticket src = None" "list_all lane_ok (sr_lanes src)"
  shows "st_inv ((put_source ident src s)\<lparr>st_imports := st_imports s @ [p]\<rparr>)"
    and "\<not> im_contains ident (st_imports s)"
proof -
  have none: "fmlookup (st_buffers s) ident = None" using fresh by (simp add: fmdom_notD)
  have away: "ip_buffer q \<noteq> ident" if "q \<in> set (st_imports s)" for q
    using st_invD(4) [OF inv] that none by (auto simp: imports_ok_def)
  then show "\<not> im_contains ident (st_imports s)" by (auto simp: im_contains_def list_ex_iff)
  have "read_ok (fmupd ident src (st_buffers s)) r" if "r \<in> set (st_reads s)" for r
    using st_invD(1) [OF inv that] none by (auto simp: read_ok_def)
  moreover have "source_ok (st_reads s) ident src" using src by (simp add: source_ok_def)
  moreover have "imports_ok ((put_source ident src s)\<lparr>st_imports := st_imports s @ [p]\<rparr>)"
    using st_invD(4) [OF inv] away p src(1) room slot
    by (auto simp: imports_ok_def put_source_def fmlen_fresh [OF fresh] im_full_def dest: away)
  ultimately show "st_inv ((put_source ident src s)\<lparr>st_imports := st_imports s @ [p]\<rparr>)"
    using inv by (auto simp: st_inv_def put_source_def tickets_ok_def tickets_def)
qed

lemma sound_layer_unregister [sound_rules]: "sound st_inv (layer_unregister io ident)"
proof (rule soundI)
  fix s :: layer_stream
  assume inv: "st_inv s"
  let ?s = "s\<lparr>st_buffers := fmdrop ident (st_buffers s)\<rparr>"
  show "st_inv (snd (layer_unregister io ident s)) \<and> no_panic (fst (layer_unregister io ident s))"
  proof (cases "im_contains ident (st_imports s) \<or> ident |\<notin>| fmdom (st_buffers s)
      \<or> list_ex (\<lambda>r. lrd_buffer r = ident) (st_reads s)")
    case True
    then show ?thesis
      using inv sound_answers(1) [of io "- 16"] by (auto simp: layer_unregister_def sound_def)
  next
    case False
    then have "st_inv (s\<lparr>st_imports := st_imports s, st_buffers := fmdrop ident (st_buffers s)\<rparr>)"
      using st_invD(4) [OF inv]
      by (intro st_inv_drop [OF inv]) (auto simp: list_ex_iff im_contains_def imports_ok_def)
    then have "st_inv ?s" by simp
    then have "st_inv (snd (st_ack io 0 (wl rq ?s)))" for rq
      using st_inv_core [OF same_core_trans [OF core_steps(1) core_answers(1)]] by blast
    then show ?thesis using False by (auto simp: layer_unregister_def Let_def)
  qed
qed

lemma answer_then:
  "st_inv s \<Longrightarrow> st_inv (snd (op_bind (answer_import io attempt ident code) (\<lambda>_. op_return x) s))"
  "st_inv s \<Longrightarrow> no_panic (fst (op_bind (answer_import io attempt ident code) (\<lambda>_. op_return x) s))"
  using sound_bind [OF sound_answers(3) [of io attempt ident code] sound_return [of st_inv x]]
  by (simp_all add: sound_def)

lemma sound_import_finished [sound_rules]: "sound st_inv (import_finished io params buffer)"
proof (rule soundI)
  fix s :: layer_stream
  assume inv: "st_inv s"
  show "st_inv (snd (import_finished io params buffer s)) \<and> no_panic (fst (import_finished io params buffer s))"
  proof (cases "position (\<lambda>x. ip_params x = params) (st_imports s)")
    case None
    then show ?thesis using inv by (simp add: import_finished_def im_finish_def)
  next
    case (Some i)
    let ?p = "st_imports s ! i" and ?rest = "swap_remove i (st_imports s)"
    have i: "i < length (st_imports s)" using position_Some [OF Some] by simp
    have mem: "?p \<in> set (st_imports s)" using i by simp
    have ok: "imports_ok s" by (rule st_invD(4) [OF inv])
    note rest = imports_swap_remove [OF _ i]
    show ?thesis
    proof (cases buffer)
      case none: None
      have "st_inv (s\<lparr>st_imports := ?rest, st_buffers := fmdrop (ip_buffer ?p) (st_buffers s)\<rparr>)"
        using ok pending_has_no_reads [OF inv mem]
        by (intro st_inv_drop [OF inv] rest) (auto simp: imports_ok_def rest)
      then show ?thesis
        using Some none
        by (simp add: import_finished_def im_finish_def Let_def answer_then)
    next
      case (Some b)
      obtain src where hit: "fmlookup (st_buffers s) (ip_buffer ?p) = Some src"
        using ok mem by (auto simp: imports_ok_def)
      have "st_inv (put_source (ip_buffer ?p) (src\<lparr>sr_buffer := Some b\<rparr>) (s\<lparr>st_imports := ?rest\<rparr>))"
        by (rule st_inv_imported [OF inv i refl hit])
      then show ?thesis
        using \<open>position (\<lambda>x. ip_params x = params) (st_imports s) = Some i\<close> Some hit
        by (simp add: import_finished_def im_finish_def Let_def answer_then)
    qed
  qed
qed

end
