(* ===== verification/Presenter_Events.thy ===== *)
theory Presenter_Events
  imports Layer_Scenes
begin

section \<open>Events of the presenter\<close>

text \<open>
  What drives \<open>App\<close> in \<open>graphics/droidloom-wayland/src/\<close>: outputs that come, change and go
  (\<open>main.rs\<close>), the frame timelines and the clock (\<open>frame_timeline.rs\<close>, \<open>clock.rs\<close>), new connections,
  the draining of the endpoint and of the layer streams (\<open>layers.rs\<close>), and the calls the main loop makes
  of all of them.  A loop that ends when a socket would block takes the answers it gets until then as a
  list.
\<close>

subsection \<open>Outputs\<close>

record output_mode =
  om_width :: i32
  om_height :: i32
  om_refresh_rate :: i32
  om_current :: bool
  om_preferred :: bool

record output_info =
  oi_modes :: "output_mode list"
  oi_transform :: nat \<comment> \<open>0 to 7: normal, 90, 180, 270, flipped, flipped 90, 180, 270\<close>
  oi_logical_size :: "(i32 \<times> i32) option"
  oi_scale_factor :: i32

definition try_u32 :: "i32 \<Rightarrow> u32 option" where
  "try_u32 v = (if 0 \<le> sint v then Some v else None)"

definition output_refresh_millihz :: "output_info option \<Rightarrow> u32 option" where
  "output_refresh_millihz info =
     Option.bind info (\<lambda>i.
     Option.bind (find (\<lambda>m. om_current m \<and> 0 < sint (om_refresh_rate m)) (oi_modes i)) (\<lambda>m.
     try_u32 (om_refresh_rate m)))"

definition nonzero_u32 :: "i32 \<Rightarrow> u32 option" where
  "nonzero_u32 v = Option.bind (try_u32 v) (\<lambda>u. if u = 0 then None else Some u)"

definition sideways :: "nat \<Rightarrow> bool" where
  "sideways transform \<longleftrightarrow> transform \<in> {1, 3, 5, 7}"

definition oriented_output_size :: "i32 \<Rightarrow> i32 \<Rightarrow> nat \<Rightarrow> (u32 \<times> u32) option" where
  "oriented_output_size w h transform =
     Option.bind (nonzero_u32 w) (\<lambda>width. Option.bind (nonzero_u32 h) (\<lambda>height.
     let (a, b) = (if sideways transform then (height, width) else (width, height)) in
     if a \<le> MAX_BUFFER_DIMENSION \<and> b \<le> MAX_BUFFER_DIMENSION then Some (a, b) else None))"

definition shown_mode :: "output_info \<Rightarrow> output_mode option" where
  "shown_mode i =
     (case find om_current (oi_modes i) of Some m \<Rightarrow> Some m | None \<Rightarrow> find om_preferred (oi_modes i))"

definition mode_size :: "output_info \<Rightarrow> (u32 \<times> u32) option" where
  "mode_size i = Option.bind (shown_mode i) (\<lambda>m. oriented_output_size (om_width m) (om_height m) (oi_transform i))"

text \<open>\<open>Iterator::max_by_key\<close>: the last of the largest.\<close>

fun max_by_key :: "('a \<Rightarrow> nat) \<Rightarrow> 'a list \<Rightarrow> 'a option" where
  "max_by_key f [] = None"
| "max_by_key f (x # xs) =
     (case max_by_key f xs of None \<Rightarrow> Some x | Some y \<Rightarrow> if f y < f x then Some x else Some y)"

definition host_canvas_size :: "output_info list \<Rightarrow> (u32 \<times> u32) option" where
  "host_canvas_size infos = max_by_key (\<lambda>(w, h). unat w * unat h) (List.map_filter mode_size infos)"

definition div_ceil :: "u32 \<Rightarrow> u32 \<Rightarrow> u32" where
  "div_ceil a b = word_of_nat ((unat a + unat b - 1) div unat b)"

definition logical_output_size :: "output_info \<Rightarrow> logical_size option" where
  "logical_output_size i =
     (case Option.bind (oi_logical_size i) (\<lambda>(w, h).
        Option.bind (try_u32 w) (\<lambda>width. Option.bind (try_u32 h) (\<lambda>height.
        only_valid (Some \<lparr>lg_width = width, lg_height = height\<rparr>)))) of
        Some s \<Rightarrow> Some s
      | None \<Rightarrow> Option.bind (mode_size i) (\<lambda>(width, height).
          let scale = (if sint (oi_scale_factor i) < 1 then 1 else oi_scale_factor i) in
          only_valid (Some \<lparr>lg_width = div_ceil width scale, lg_height = div_ceil height scale\<rparr>)))"

definition host_logical_canvas_size :: "output_info list \<Rightarrow> logical_size option" where
  "host_logical_canvas_size infos =
     max_by_key (\<lambda>s. unat (lg_width s) * unat (lg_height s)) (List.map_filter logical_output_size infos)"

text \<open>The environment of an operation while the compositor announces these outputs.\<close>

definition with_outputs :: "(wl_output \<times> output_info) list \<Rightarrow> app_env \<Rightarrow> app_env" where
  "with_outputs outs env =
     env\<lparr>ae_canvas := host_canvas_size (map snd outs),
         ae_refresh := (\<lambda>o1. output_refresh_millihz (map_of outs o1))\<rparr>"

definition reconfigure_bootstrap :: "app_env \<Rightarrow> unit ap_op" where
  "reconfigure_bootstrap env = (\<lambda>a.
     case find (\<lambda>i. case fmlookup (ap_tasks a) i of None \<Rightarrow> False | Some w \<Rightarrow> win_headless w) (task_objects a) of
       None \<Rightarrow> (Inr (), a)
     | Some object \<Rightarrow>
         (case ae_canvas env of
            None \<Rightarrow> (Inr (), a)
          | Some (width, height) \<Rightarrow>
              configure_task env object \<lparr>rc_width = width, rc_height = height,
                rc_scale_120 = FRACTIONAL_SCALE_DENOMINATOR, rc_remember = False\<rparr> a))"

text \<open>\<open>new_output\<close> and \<open>update_output\<close>; \<open>output_destroyed\<close> first forgets the output in every window.\<close>

definition output_updated :: "app_env \<Rightarrow> app \<Rightarrow> app" where
  "output_updated env a = or_fail (op_bind (reconfigure_bootstrap env) (\<lambda>_. update_output_refreshes env)) a"

definition output_destroyed :: "app_env \<Rightarrow> wl_output \<Rightarrow> app \<Rightarrow> app" where
  "output_destroyed env out a =
     output_updated env (a\<lparr>ap_tasks := fmmap (leave_output out) (ap_tasks a)\<rparr>)"

subsection \<open>Configures of the compositor\<close>

record window_configure =
  wc_width :: "u32 option" \<comment> \<open>\<open>NonZeroU32\<close>\<close>
  wc_height :: "u32 option"
  wc_bounds :: "(u32 \<times> u32) option"
  wc_settled :: bool \<comment> \<open>neither resizing nor maximized nor fullscreen\<close>

definition configured_size ::
  "window_policy \<Rightarrow> logical_size option \<Rightarrow> window_configure \<Rightarrow> presenter_window \<Rightarrow> logical_size" where
  "configured_size policy canvas c w =
     (case rp_logical_size (win_resize w) (win_logical_size w) of
        Some (pw, ph) \<Rightarrow> \<lparr>lg_width = unwrap_or pw (wc_width c), lg_height = unwrap_or ph (wc_height c)\<rparr>
      | None \<Rightarrow> resolve_initial policy (win_package w) (wc_width c) (wc_height c)
          (Option.bind (wc_bounds c) (\<lambda>(bw, bh). only_valid (Some \<lparr>lg_width = bw, lg_height = bh\<rparr>))) canvas)"

definition window_configured :: "logical_size option \<Rightarrow> wl_id \<Rightarrow> window_configure \<Rightarrow> app \<Rightarrow> app" where
  "window_configured canvas surface c a =
     (case task_for_surface surface a of
        None \<Rightarrow> a
      | Some object \<Rightarrow>
          (case fmlookup (ap_tasks a) object of
             None \<Rightarrow> app_fail (PePanic ''surface has a task'') a
           | Some w \<Rightarrow>
               if \<not> accepts_present w then a
               else
                 let size = configured_size (ap_policy a) canvas c w;
                     remember = (rp_logical_size (win_resize w) (win_logical_size w) \<noteq> None \<and> wc_settled c)
                 in or_fail (the_win ''surface has a task'' object (\<lambda>x. (Inr (), x\<lparr>win_resize :=
                      rp_configure (lg_width size, lg_height size) remember (win_resize x)\<rparr>))) a))"

subsection \<open>Frame timelines and the clock\<close>

definition pacesetter_output :: "app_env \<Rightarrow> app \<Rightarrow> wl_output option" where
  "pacesetter_output env a =
     max_by_key (\<lambda>o1. case ae_refresh env o1 of None \<Rightarrow> 0 | Some r \<Rightarrow> Suc (unat r))
       (List.map_filter (\<lambda>i. Option.bind (fmlookup (ap_tasks a) i) (\<lambda>w.
          if win_headless w \<or> win_closing w then None
          else select_surface_output (win_entered_outputs w) (win_presentation_output w) (ae_refresh env)))
        (task_objects a))"

definition app_refresh_clock :: "app_env \<Rightarrow> proxy \<Rightarrow> app \<Rightarrow> app" where
  "app_refresh_clock env proxy a =
     (let host_clock = (case ap_endpoint a of None \<Rightarrow> False | Some e \<Rightarrow> ep_host_clock e);
          out = (if host_clock then pacesetter_output env a else None)
      in if map_option sb_output (ap_clock_subscription a) = out then a
         else a\<lparr>ap_clock_subscription :=
           (case out of
              Some o1 \<Rightarrow> if ap_manager a then Some (snd (sb_new o1 proxy (ap_clock_armed a))) else None
            | None \<Rightarrow> None)\<rparr>)"

definition timeline_output :: "wl_output list \<Rightarrow> presenter_window \<Rightarrow> wl_output option" where
  "timeline_output outputs w =
     (case win_presentation_output w of
        Some o1 \<Rightarrow> if o1 \<in> set outputs then Some o1
          else (case find (\<lambda>x. x \<in> set outputs) (win_entered_outputs w) of
                  Some x \<Rightarrow> Some x | None \<Rightarrow> (case outputs of [] \<Rightarrow> None | x # _ \<Rightarrow> Some x))
      | None \<Rightarrow> (case find (\<lambda>x. x \<in> set outputs) (win_entered_outputs w) of
                  Some x \<Rightarrow> Some x | None \<Rightarrow> (case outputs of [] \<Rightarrow> None | x # _ \<Rightarrow> Some x)))"

definition resubscribe :: "bool \<Rightarrow> bool \<Rightarrow> wl_output option \<Rightarrow> proxy \<Rightarrow> presenter_window \<Rightarrow> presenter_window" where
  "resubscribe manager armed out proxy w =
     w\<lparr>win_timeline := on_schedule (\<lambda>s. s\<lparr>sc_epoch := None, sc_last_sequence := 0\<rparr>)
         ((win_timeline w)\<lparr>ft_subscription :=
            (case out of
               Some o1 \<Rightarrow> if manager then Some (snd (sb_new o1 proxy armed)) else None
             | None \<Rightarrow> None)\<rparr>)\<rparr>"

definition refresh_timeline :: "app_env \<Rightarrow> wl_output list \<Rightarrow> (task_object_id \<Rightarrow> proxy) \<Rightarrow> task_object_id \<Rightarrow> unit ap_op" where
  "refresh_timeline env outputs proxies object = (\<lambda>a.
     case fmlookup (ap_tasks a) object of
       None \<Rightarrow> (Inl (PePanic ''no entry found for key''), a)
     | Some w \<Rightarrow>
         let out = timeline_output outputs w; ft = win_timeline w in
         if \<not> ft_exact ft \<or> \<not> accepts_present w \<or> map_option sb_output (ft_subscription ft) = out
         then (Inr (), a)
         else
           op_bind (if ft_subscription ft \<noteq> None \<or> sc_epoch (ft_schedule ft) \<noteq> None
               then abort_timeline_work env object TerminalEpoch else op_return ())
             (\<lambda>_ a1. case fmlookup (ap_tasks a1) object of
                None \<Rightarrow> (Inl (PePanic ''unwrap''), a1)
              | Some w1 \<Rightarrow>
                  (Inr (), put_win object
                     (resubscribe (ap_manager a1) (ap_clock_armed a1) out (proxies object) w1) a1)) a)"

definition refresh_frame_timelines ::
  "app_env \<Rightarrow> wl_output list \<Rightarrow> (task_object_id \<Rightarrow> proxy) \<Rightarrow> proxy \<Rightarrow> unit ap_op" where
  "refresh_frame_timelines env outputs proxies clock = (\<lambda>a.
     if ap_manager a \<and> ap_presentation_clock a \<noteq> Some CLOCK_MONOTONIC
     then (if ap_presentation_clock a = None then (Inr (), a)
           else (Inl (PeConfiguration ''exact frame timeline requires CLOCK_MONOTONIC presentation clock''), a))
     else op_bind (op_each (refresh_timeline env outputs proxies) (task_objects a))
            (\<lambda>_ a1. (Inr (), app_refresh_clock env clock a1)) a)"

definition app_clock_idle_check :: "u64 \<Rightarrow> app \<Rightarrow> app" where
  "app_clock_idle_check now a =
     (if ap_clock_armed a \<and> IDLE_NANOS \<le> saturating_sub now (ap_last_frame_nanos a)
      then app_arm_timelines False a else a)"

datatype timeline_event = TeEpoch u32 u32 | TeGrant wire_grant

definition received_grant :: "app_env \<Rightarrow> wire_grant \<Rightarrow> grant ap_op" where
  "received_grant env g =
     op_lift (map_err (\<lambda>e. PeConfiguration (case e of
         NanosecondsInvalid \<Rightarrow> ''presentation timestamp nanoseconds are invalid''
       | TimestampOverflow \<Rightarrow> ''presentation timestamp overflowed nanoseconds'')) (decode_wire_grant g))"

fun timeline_change :: "app_env \<Rightarrow> task_object_id \<Rightarrow> u64 option \<Rightarrow> timeline_event \<Rightarrow> unit ap_op" where
  "timeline_change env object old (TeEpoch hi lo) =
     (let epoch = join_words hi lo in
      op_bind (if old \<noteq> None \<and> old \<noteq> Some epoch then abort_timeline_work env object TerminalEpoch else op_return ())
        (\<lambda>_. the_win ''unwrap'' object (\<lambda>w. (Inr (), w\<lparr>win_timeline := on_schedule (sc_set_epoch epoch) (win_timeline w)\<rparr>))))"
| "timeline_change env object old (TeGrant g) =
     op_bind (received_grant env g) (\<lambda>grant.
     op_bind (op_lift (map_err PeIo (ae_now env))) (\<lambda>now.
     op_bind (the_win ''unwrap'' object
         (\<lambda>w. (Inr (), w\<lparr>win_timeline := on_schedule (sc_offer grant now) (win_timeline w)\<rparr>)))
       (\<lambda>_ a. (Inr (), app_clock_idle_check now a))))"

definition timeline_event :: "app_env \<Rightarrow> proxy \<Rightarrow> task_object_id \<Rightarrow> timeline_event \<Rightarrow> app \<Rightarrow> app" where
  "timeline_event env proxy object ev a =
     (case fmlookup (ap_tasks a) object of
        None \<Rightarrow> a
      | Some w \<Rightarrow>
          if map_option sb_proxy (ft_subscription (win_timeline w)) \<noteq> Some proxy then a
          else or_fail (timeline_change env object (sc_epoch (ft_schedule (win_timeline w))) ev) a)"

text \<open>The clock's own subscription forwards its grants; one the Composer cannot take now is dropped.\<close>

definition forward_grant :: "app_env \<Rightarrow> grant \<Rightarrow> unit ap_op" where
  "forward_grant env g = (\<lambda>a.
     case ap_endpoint a of
       None \<Rightarrow> (Inr (), a)
     | Some e \<Rightarrow>
         (case send_frame_grant (ae_host env) (gr_latch_deadline_ns g) (gr_presentation_target_ns g)
                 (gr_refresh_period_ns g) e of
            (Inl err, e1) \<Rightarrow> (if endpoint_would_block err then Inr () else Inl (PeEndpoint err), a\<lparr>ap_endpoint := Some e1\<rparr>)
          | (Inr _, e1) \<Rightarrow> (Inr (), a\<lparr>ap_endpoint := Some e1\<rparr>)))"

definition clock_event :: "app_env \<Rightarrow> proxy \<Rightarrow> timeline_event \<Rightarrow> app \<Rightarrow> app" where
  "clock_event env proxy ev a =
     (case ev of
        TeEpoch _ _ \<Rightarrow> a
      | TeGrant g \<Rightarrow>
          if map_option sb_proxy (ap_clock_subscription a) \<noteq> Some proxy then a
          else or_fail (op_bind (received_grant env g) (\<lambda>grant.
                 op_bind (forward_grant env grant) (\<lambda>_.
                 op_bind (op_lift (map_err PeIo (ae_now env)))
                   (\<lambda>now a1. (Inr (), app_clock_idle_check now a1))))) a)"

definition stop_timeline :: "app_env \<Rightarrow> task_object_id \<Rightarrow> app \<Rightarrow> app" where
  "stop_timeline env object a =
     (case fmlookup (ap_tasks a) object of
        None \<Rightarrow> app_fail (PePanic ''no entry found for key'') a
      | Some w \<Rightarrow>
          if \<not> ft_exact (win_timeline w) then a
          else
            let a1 = or_fail (abort_timeline_work env object TerminalEpoch) a in
            case fmlookup (ap_tasks a1) object of
              None \<Rightarrow> app_fail (PePanic ''unwrap'') a1
            | Some w1 \<Rightarrow> put_win object (w1\<lparr>win_timeline := snd (ft_stop (win_timeline w1))\<rparr>) a1)"

definition manager_removed :: "app_env \<Rightarrow> app \<Rightarrow> app" where
  "manager_removed env a =
     (if \<not> ap_manager a then a
      else fold (stop_timeline env) (task_objects a) (a\<lparr>ap_manager := False\<rparr>))"

subsection \<open>Connections\<close>

definition accept_endpoint :: "bool \<Rightarrow> (listener_error, endpoint) result \<Rightarrow> (ipc_error, unit) result \<Rightarrow> unit ap_op" where
  "accept_endpoint activation accepted nonblocking = (\<lambda>a.
     if ap_endpoint a \<noteq> None then (Inr (), a)
     else case accepted of
       Inl (ListenerIpc (IpcIo e)) \<Rightarrow> if e = 11 then (Inr (), a) else (Inl (PeListener (ListenerIpc (IpcIo e))), a)
     | Inl (UnexpectedPeer expected peer) \<Rightarrow> (Inr (), a)
     | Inl e \<Rightarrow> (Inl (PeListener e), a)
     | Inr e \<Rightarrow>
         (case Option.bind (if activation then with_activation_requests e else Some e) (\<lambda>e1.
               Option.bind (with_direct_input e1) with_lazy_render_targets) of
            None \<Rightarrow> (Inl (PePanic ''endpoint is ready''), a)
          | Some e2 \<Rightarrow>
              let e3 = with_scene_presentation e2;
                  e4 = (if ap_manager a \<and> ap_presentation_clock a = Some CLOCK_MONOTONIC
                        then with_host_clock e3 else e3)
              in case nonblocking of
                   Inl err \<Rightarrow> (Inl (PeIpc err), a)
                 | Inr _ \<Rightarrow> (Inr (), a\<lparr>ap_endpoint := Some e4\<rparr>)))"

text \<open>\<open>drain_endpoint\<close>: one environment for each record received, the last for the answer that ends the loop.\<close>

fun drain_endpoint :: "app_env list \<Rightarrow> unit ap_op" where
  "drain_endpoint [] = op_return ()"
| "drain_endpoint (env # envs) =
     op_bind (drain_endpoint_once env) (\<lambda>again. if again then drain_endpoint envs else op_return ())"

subsection \<open>Layer streams\<close>

definition put_stream :: "task_object_id \<Rightarrow> layer_stream \<Rightarrow> app \<Rightarrow> (presenter_error, unit) result \<Rightarrow> (presenter_error, unit) result \<times> app" where
  "put_stream object s a outcome =
     (case fmlookup (ap_tasks a) object of
        None \<Rightarrow> (Inl (PePanic ''unwrap''), a)
      | Some w \<Rightarrow> (outcome, put_win object (w\<lparr>win_layers := Some s\<rparr>) a))"

text \<open>The stream is taken out of its window, handed to the operation and put back with its outcome.\<close>

definition with_stream :: "task_object_id \<Rightarrow> unit sc_op \<Rightarrow> unit ap_op" where
  "with_stream object f = (\<lambda>a.
     case fmlookup (ap_tasks a) object of
       None \<Rightarrow> (Inr (), a)
     | Some w \<Rightarrow>
         (case win_layers w of
            None \<Rightarrow> (Inr (), a)
          | Some s \<Rightarrow>
              (case f (put_win object (w\<lparr>win_layers := None\<rparr>) a, s) of
                 (outcome, (a1, s1)) \<Rightarrow> put_stream object s1 a1 outcome)))"

text \<open>A failed release drops the stream: the error leaves the function before the stream is put back.\<close>

definition drain_releases :: "scene_env \<Rightarrow> (nat \<Rightarrow> drm_kernel) \<Rightarrow> task_object_id \<Rightarrow> unit ap_op" where
  "drain_releases env k object = (\<lambda>a.
     case fmlookup (ap_tasks a) object of
       None \<Rightarrow> (Inr (), a)
     | Some w \<Rightarrow>
         (case win_layers w of
            None \<Rightarrow> (Inr (), a)
          | Some s \<Rightarrow>
              let a1 = put_win object (w\<lparr>win_layers := None\<rparr>) a in
              case stream_release (ae_io (sn_app env)) k s of
                (Inl e, s1) \<Rightarrow> (Inl e, a1)
              | (Inr _, s1) \<Rightarrow>
                  (case (case st_waiting s1 of
                           None \<Rightarrow> (Inr (), (a1, s1))
                         | Some c \<Rightarrow> submit_layer_scene env object c (a1, s1\<lparr>st_waiting := None\<rparr>)) of
                     (outcome, (a2, s2)) \<Rightarrow> put_stream object s2 a2 outcome)))"

fun is_barrier :: "layer_request \<Rightarrow> bool" where
  "is_barrier (LrCommit serial width height n) = True"
| "is_barrier (LrCommitAsync scene serial width height n) = True"
| "is_barrier (LrCommitBatch scene serial width height n layers) = True"
| "is_barrier LrConfig = True"
| "is_barrier LrSubscribeConfig = True"
| "is_barrier _ = False"

text \<open>What the request socket of a stream answers: nothing now, the peer is gone, or a record.\<close>

datatype layer_input = LiBlocked | LiClosed | LiError ipc_error | LiInvalid | LiRequest layer_request "owned_fd list"

definition close_stream :: "presenter_window \<Rightarrow> layer_stream \<Rightarrow> presenter_window" where
  "close_stream w s =
     win_request (case win_surface w of None \<Rightarrow> [] | Some surface \<Rightarrow> [WlCommit surface])
       (w\<lparr>win_layers := Some (layer_disconnect s)\<rparr>)"

text \<open>One turn of the request loop of \<open>drain_layers\<close>: the composer's socket is drained before a barrier.\<close>

definition layer_turn :: "scene_env \<Rightarrow> app_env list \<Rightarrow> task_object_id \<Rightarrow> layer_input \<Rightarrow> unit ap_op" where
  "layer_turn env envs object inp = (\<lambda>a.
     case fmlookup (ap_tasks a) object of
       None \<Rightarrow> (Inr (), a)
     | Some w \<Rightarrow>
         (case win_layers w of
            None \<Rightarrow> (Inr (), a)
          | Some s \<Rightarrow>
              if \<not> st_connected s \<or> im_blocked (st_imports s) then (Inr (), a)
              else case inp of
                LiBlocked \<Rightarrow> (Inr (), a)
              | LiClosed \<Rightarrow> (Inr (), put_win object (close_stream w s) a)
              | LiError e \<Rightarrow> (Inl (PeIpc e), a)
              | LiInvalid \<Rightarrow> (Inl (PeConfiguration ''invalid layer stream record''), a)
              | LiRequest request fds \<Rightarrow>
                  op_bind (if is_barrier request then drain_endpoint envs else op_return ())
                    (\<lambda>_. with_stream object (layer_request_op env object request fds)) a))"

definition publish_config_turn :: "scene_env \<Rightarrow> task_object_id \<Rightarrow> unit ap_op" where
  "publish_config_turn env object = (\<lambda>a.
     case fmlookup (ap_tasks a) object of
       None \<Rightarrow> (Inr (), a)
     | Some w \<Rightarrow>
         (case win_layers w of
            None \<Rightarrow> (Inr (), a)
          | Some s \<Rightarrow>
              (case publish_layer_config env object (a, s) of
                 (outcome, (_, s1)) \<Rightarrow> (outcome, put_win object (w\<lparr>win_layers := Some s1\<rparr>) a))))"

text \<open>\<open>layer_imported\<close>: the first stream that waits for these parameters takes the answer.\<close>

fun layer_imported :: "stream_io \<Rightarrow> wl_id \<Rightarrow> wl_id option \<Rightarrow> task_object_id list \<Rightarrow> app \<Rightarrow> app" where
  "layer_imported io params buffer [] a = a"
| "layer_imported io params buffer (object # rest) a =
     (case fmlookup (ap_tasks a) object of
        None \<Rightarrow> layer_imported io params buffer rest a
      | Some w \<Rightarrow>
          (case win_layers w of
             None \<Rightarrow> layer_imported io params buffer rest a
           | Some s \<Rightarrow>
               (case import_finished io params buffer s of
                  (Inr False, s1) \<Rightarrow> layer_imported io params buffer rest a
                | (Inr True, s1) \<Rightarrow> put_win object (w\<lparr>win_layers := Some s1\<rparr>) a
                | (Inl e, s1) \<Rightarrow> app_fail e (put_win object (w\<lparr>win_layers := Some s1\<rparr>) a))))"

subsection \<open>The calls of the main loop\<close>

text \<open>
  Everything that changes the presenter: the operations the loop calls in turn and the callbacks of a
  Wayland dispatch.  A call with an error ends the loop; \<open>pa_run\<close> is the state after a run and the
  outcome of its last call.
\<close>

datatype presenter_call =
    PaUnmap app_env task_object_id
  | PaResize app_env task_object_id
  | PaAccept bool expected_peer "(ipc_error, unit) result" "(ipc_error, peer_credentials) result" "(ipc_error, unit) result"
  | PaDrain "app_env list"
  | PaTimelines app_env "wl_output list" "task_object_id \<Rightarrow> proxy" proxy
  | PaFlush app_env task_object_id
  | PaReleases scene_env "nat \<Rightarrow> drm_kernel" task_object_id
  | PaLayer scene_env "app_env list" task_object_id layer_input
  | PaPublish scene_env task_object_id
  | PaFrames app_env "task_object_id list" "task_object_id list"
  | PaImported stream_io wl_id "wl_id option"
  | PaConfigured "logical_size option" wl_id window_configure
  | PaClose app_env task_object_id
  | PaEnter app_env wl_id wl_output
  | PaLeave app_env wl_id wl_output
  | PaScale task_object_id u32
  | PaOutput app_env
  | PaOutputGone app_env wl_output
  | PaPresented app_env wl_id wl_id "wl_output list" present_time
  | PaDiscarded wl_id wl_id
  | PaTimelineEvent app_env proxy task_object_id timeline_event
  | PaClockEvent app_env proxy timeline_event
  | PaManagerGone app_env
  | PaClock u32
  | PaFormats "(u32 \<times> u64) list"

definition ap_lift :: "(app \<Rightarrow> app) \<Rightarrow> unit ap_op" where
  "ap_lift f = (\<lambda>a. (Inr (), f a))"

fun pa_step :: "presenter_call \<Rightarrow> unit ap_op" where
  "pa_step (PaUnmap env object) = unmap_requested_task env object"
| "pa_step (PaResize env object) = apply_pending_resize env object"
| "pa_step (PaAccept activation expected accepted credentials nonblocking) =
     accept_endpoint activation (listener_accept expected accepted credentials) nonblocking"
| "pa_step (PaDrain envs) = drain_endpoint envs"
| "pa_step (PaTimelines env outputs proxies clock) = refresh_frame_timelines env outputs proxies clock"
| "pa_step (PaFlush env object) = flush_frame env object"
| "pa_step (PaReleases env k object) = drain_releases env k object"
| "pa_step (PaLayer env envs object inp) = layer_turn env envs object inp"
| "pa_step (PaPublish env object) = publish_config_turn env object"
| "pa_step (PaFrames env objects cleanup) = release_ready_frames env objects cleanup"
| "pa_step (PaImported io params buffer) = ap_lift (\<lambda>a. layer_imported io params buffer (task_objects a) a)"
| "pa_step (PaConfigured canvas surface c) = ap_lift (window_configured canvas surface c)"
| "pa_step (PaClose env object) = ap_lift (request_close env object)"
| "pa_step (PaEnter env surface out) = ap_lift (surface_enter env surface out)"
| "pa_step (PaLeave env surface out) = ap_lift (surface_leave env surface out)"
| "pa_step (PaScale object scale) = ap_lift (preferred_scale object scale)"
| "pa_step (PaOutput env) = ap_lift (output_updated env)"
| "pa_step (PaOutputGone env out) = ap_lift (output_destroyed env out)"
| "pa_step (PaPresented env feedback surface outputs time) = ap_lift (feedback_presented env feedback surface outputs time)"
| "pa_step (PaDiscarded feedback surface) = ap_lift (feedback_discarded feedback surface)"
| "pa_step (PaTimelineEvent env proxy object ev) = ap_lift (timeline_event env proxy object ev)"
| "pa_step (PaClockEvent env proxy ev) = ap_lift (clock_event env proxy ev)"
| "pa_step (PaManagerGone env) = ap_lift (manager_removed env)"
| "pa_step (PaClock clock) = ap_lift (\<lambda>a. a\<lparr>ap_presentation_clock := Some clock\<rparr>)"
| "pa_step (PaFormats formats) = ap_lift (\<lambda>a. a\<lparr>ap_formats := Some formats\<rparr>)"

definition pa_run :: "presenter_call list \<Rightarrow> unit ap_op" where
  "pa_run = op_each pa_step"

definition app_new :: "bool \<Rightarrow> bool \<Rightarrow> window_policy \<Rightarrow> app" where
  "app_new manager alpha policy =
     \<lparr>ap_tasks = fmempty, ap_endpoint = None, ap_clock_armed = False, ap_last_frame_nanos = 0,
      ap_clock_subscription = None, ap_presentation_clock = None, ap_policy = policy,
      ap_manager = manager, ap_alpha = alpha, ap_formats = None, ap_next_buffer_id = 0, ap_fatal = None\<rparr>"

end
