(* ===== verification/Presenter_Safety.thy ===== *)
theory Presenter_Safety
  imports Layer_Properties Presenter_Events
begin

section \<open>The bookkeeping of the presenter holds\<close>

text \<open>
  Over every sequence of calls of the main loop and of compositor callbacks, each window keeps the
  invariant of its layer stream and a window with a toplevel keeps its viewport.  Therefore the lookups
  in which the code relies on its own bookkeeping, those modelled by the error \<open>PePanic\<close>, find their
  entry, whatever the kernel, the sockets and the peers answer.  The windows that a piece of code takes
  for granted are named by the first argument of \<open>app_in\<close>, those whose toplevel it takes for granted by
  the second.
\<close>

definition win_ok :: "presenter_window \<Rightarrow> bool" where
  "win_ok w \<longleftrightarrow> (\<forall>s. win_layers w = Some s \<longrightarrow> st_inv s) \<and> (win_surface w \<noteq> None \<longrightarrow> win_viewport w)"

definition app_ok :: "app \<Rightarrow> bool" where
  "app_ok a \<longleftrightarrow> fmpred (\<lambda>_. win_ok) (ap_tasks a) \<and> (\<forall>e. ap_fatal a = Some e \<longrightarrow> \<not> internal_error e)"

text \<open>A good presenter in which these windows exist, and these have a toplevel.\<close>

definition app_in :: "task_object_id fset \<Rightarrow> task_object_id fset \<Rightarrow> app \<Rightarrow> bool" where
  "app_in D S a \<longleftrightarrow> app_ok a \<and> D |\<subseteq>| fmdom (ap_tasks a)
     \<and> (\<forall>i. i |\<in>| S \<longrightarrow> (\<exists>w. fmlookup (ap_tasks a) i = Some w \<and> win_surface w \<noteq> None))"

definition keeps :: "('s \<Rightarrow> bool) \<Rightarrow> ('s \<Rightarrow> 's) \<Rightarrow> bool" where
  "keeps P f \<longleftrightarrow> (\<forall>s. P s \<longrightarrow> P (f s))"

definition win_sound :: "'a win_op \<Rightarrow> bool" where
  "win_sound f \<longleftrightarrow> (\<forall>w. win_ok w \<longrightarrow>
     win_ok (snd (f w)) \<and> no_panic (fst (f w)) \<and> win_surface (snd (f w)) = win_surface w)"

named_theorems win_rules \<open>operations on a window that keep it in order\<close>

lemma app_in_empty [simp]: "app_in {||} {||} a \<longleftrightarrow> app_ok a"
  by (simp add: app_in_def)

lemma app_okD: "app_ok a \<Longrightarrow> fmlookup (ap_tasks a) i = Some w \<Longrightarrow> win_ok w"
  by (auto simp: app_ok_def intro: fmpredD)

lemma app_in_ok: "app_in D S a \<Longrightarrow> app_ok a"
  by (simp add: app_in_def)

lemma app_in_put:
  assumes "app_in D S a" and "fmlookup (ap_tasks a) i = Some w" and "win_ok w'"
    and "win_surface w' = None \<longrightarrow> i |\<notin>| S"
  shows "app_in D S (put_win i w' a)"
  using assms by (auto simp: app_in_def app_ok_def put_win_def intro!: fmpred_upd)

lemma app_in_fields [simp]:
  "app_in D S (a\<lparr>ap_endpoint := e\<rparr>) = app_in D S a"
  "app_in D S (a\<lparr>ap_next_buffer_id := n\<rparr>) = app_in D S a"
  "app_in D S (a\<lparr>ap_policy := p\<rparr>) = app_in D S a"
  "app_in D S (a\<lparr>ap_clock_armed := c\<rparr>) = app_in D S a"
  "app_in D S (a\<lparr>ap_clock_subscription := cs\<rparr>) = app_in D S a"
  "app_in D S (a\<lparr>ap_presentation_clock := pc\<rparr>) = app_in D S a"
  "app_in D S (a\<lparr>ap_last_frame_nanos := t\<rparr>) = app_in D S a"
  "app_in D S (a\<lparr>ap_manager := m\<rparr>) = app_in D S a"
  "app_in D S (a\<lparr>ap_formats := f\<rparr>) = app_in D S a"
  by (simp_all add: app_in_def app_ok_def)

lemma app_in_fail: "app_in D S a \<Longrightarrow> \<not> internal_error e \<Longrightarrow> app_in D S (app_fail e a)"
  by (auto simp: app_in_def app_ok_def app_fail_def)

lemma app_in_map:
  assumes "app_in D S a" and "\<And>w. win_ok w \<Longrightarrow> win_ok (f w) \<and> win_surface (f w) = win_surface w"
  shows "app_in D S (a\<lparr>ap_tasks := fmmap f (ap_tasks a)\<rparr>)"
proof -
  have "win_ok (f w)" if "fmlookup (ap_tasks a) i = Some w" for i w
    using assms(2) app_okD [OF app_in_ok [OF assms(1)] that] by simp
  then have "fmpred (\<lambda>_. win_ok) (fmmap f (ap_tasks a))"
    by (auto intro!: fmpredI)
  moreover have "win_surface (f w) = win_surface w" if "fmlookup (ap_tasks a) i = Some w" for i w
    using assms(2) app_okD [OF app_in_ok [OF assms(1)] that] by simp
  ultimately show ?thesis
    using assms(1) by (fastforce simp: app_in_def app_ok_def)
qed

lemma app_in_weaken: "app_in D S a \<Longrightarrow> D' |\<subseteq>| D \<Longrightarrow> S' |\<subseteq>| S \<Longrightarrow> app_in D' S' a"
  by (auto simp: app_in_def)

lemma app_in_add: "app_in D S a \<Longrightarrow> fmlookup (ap_tasks a) i = Some w \<Longrightarrow> app_in (finsert i D) S a"
  by (auto simp: app_in_def fmdomI)

lemma app_in_dom: "app_in D S a \<Longrightarrow> i |\<in>| D \<Longrightarrow> \<exists>w. fmlookup (ap_tasks a) i = Some w"
  by (auto simp: app_in_def fmlookup_dom_iff)

lemma app_in_member: "app_in D S a \<Longrightarrow> i |\<in>| fmdom (ap_tasks a) \<Longrightarrow> app_in (finsert i D) S a"
  by (auto simp: app_in_def)

subsection \<open>Rules\<close>

lemma win_sound_apply:
  "win_sound f \<Longrightarrow> win_ok w \<Longrightarrow> f w = (r, w') \<Longrightarrow> win_ok w' \<and> no_panic r \<and> win_surface w' = win_surface w"
  unfolding win_sound_def by (metis fst_conv snd_conv)

lemma sound_on_win [sound_rules]:
  assumes "win_sound f"
  shows "sound (app_in D S) (on_win i f)"
proof (rule soundI)
  fix a
  assume a: "app_in D S a"
  show "app_in D S (snd (on_win i f a)) \<and> no_panic (fst (on_win i f a))"
  proof (cases "fmlookup (ap_tasks a) i")
    case None
    then show ?thesis using a by (simp add: on_win_def)
  next
    case (Some w)
    obtain r w' where out: "f w = (r, w')" by (cases "f w")
    have w: "win_ok w'" "no_panic r" "win_surface w' = win_surface w"
      using win_sound_apply [OF assms app_okD [OF app_in_ok [OF a] Some] out] by simp_all
    have "win_surface w' = None \<longrightarrow> i |\<notin>| S" using a Some w(3) by (auto simp: app_in_def)
    then show ?thesis
      using app_in_put [OF a Some w(1)] Some out w(2) by (simp add: on_win_def)
  qed
qed

text \<open>A window that the code takes for granted has to be among those that are known to exist.\<close>

lemma sound_the_win [sound_rules]:
  assumes "win_sound f" and "i |\<in>| D"
  shows "sound (app_in D S) (the_win m i f)"
proof (rule soundI)
  fix a
  assume a: "app_in D S a"
  then have "the_win m i f a = on_win i f a" using app_in_dom [OF a assms(2)] by (auto simp: the_win_def on_win_def)
  then show "app_in D S (snd (the_win m i f a)) \<and> no_panic (fst (the_win m i f a))"
    using sound_on_win [OF assms(1), of D S i] a by (simp add: sound_def)
qed

lemma sound_with_endpoint [sound_rules]:
  "\<not> internal_error (PeConfiguration m) \<Longrightarrow> sound (app_in D S) (with_endpoint m f)"
  by (rule soundI) (auto simp: with_endpoint_def split: option.split prod.split)

lemma sound_on_endpoint [sound_rules]: "sound (app_in D S) (on_endpoint f)"
  by (simp add: on_endpoint_def sound_with_endpoint)

lemma sound_if [sound_rules]: "sound P f \<Longrightarrow> sound P g \<Longrightarrow> sound P (if c then f else g)"
  by simp

lemma sound_guard: "(\<And>s. P s \<Longrightarrow> sound P (f s)) \<Longrightarrow> sound P (\<lambda>s. f s s)"
  by (simp add: sound_def)

lemma sound_state: "(\<And>s. P s \<Longrightarrow> f s = (r s, g s) \<and> P (g s) \<and> no_panic (r s)) \<Longrightarrow> sound P f"
  by (simp add: sound_def)

lemma keepsD: "keeps P f \<Longrightarrow> P s \<Longrightarrow> P (f s)"
  by (simp add: keeps_def)

lemma keeps_fold: "(\<And>x. keeps P (f x)) \<Longrightarrow> keeps P (fold f xs)"
  by (induction xs) (auto simp: keeps_def)

lemma sound_ap_lift [sound_rules]: "keeps P f \<Longrightarrow> sound P (ap_lift f)"
  by (simp add: sound_def keeps_def ap_lift_def)

lemma or_fail_in: "sound (app_in D S) f \<Longrightarrow> app_in D S a \<Longrightarrow> app_in D S (or_fail f a)"
  using soundD [of "app_in D S" f a "fst (f a)" "snd (f a)"]
  by (cases "f a"; cases "fst (f a)") (auto simp: or_fail_def intro: app_in_fail)

lemma keeps_or_fail: "sound (app_in D S) f \<Longrightarrow> keeps (app_in D S) (or_fail f)"
  by (simp add: keeps_def or_fail_in)

subsection \<open>Windows\<close>

lemma win_soundI:
  "(\<And>w. win_layers (snd (f w)) = win_layers w \<and> win_surface (snd (f w)) = win_surface w
     \<and> win_viewport (snd (f w)) = win_viewport w) \<Longrightarrow> (\<And>w. no_panic (fst (f w))) \<Longrightarrow> win_sound f"
  by (auto simp: win_sound_def win_ok_def)

lemma win_layers_ok: "win_ok w \<Longrightarrow> st_inv s \<Longrightarrow> win_ok (w\<lparr>win_layers := Some s\<rparr>)"
  by (simp add: win_ok_def)

lemma win_ok_request [simp]: "win_ok (win_request rq w) = win_ok w"
  by (simp add: win_ok_def win_request_def)

lemma win_request_fields [simp]:
  "win_layers (win_request rq w) = win_layers w" "win_surface (win_request rq w) = win_surface w"
  "win_viewport (win_request rq w) = win_viewport w"
  by (simp_all add: win_request_def)

lemma timestamps_no_panic [simp]:
  "no_panic (timestamp_of time)" "no_panic (presentation_refresh_period p r)"
  by (auto simp: timestamp_of_def presentation_refresh_period_def intro!: no_panic_map_err split: timestamp_error.splits)

lemma no_panic_reject [simp]: "no_panic (reject_if c e) \<longleftrightarrow> \<not> c \<or> \<not> internal_error e"
  by (simp add: reject_if_def)

lemma win_abort_wait_sound [win_rules]: "win_sound (win_abort_wait io)"
  unfolding win_sound_def
proof (intro allI impI)
  fix w
  assume ok: "win_ok w"
  show "win_ok (snd (win_abort_wait io w)) \<and> no_panic (fst (win_abort_wait io w))
    \<and> win_surface (snd (win_abort_wait io w)) = win_surface w"
  proof (cases "win_layers w")
    case (Some s)
    obtain r s1 where out: "abort_timeline_wait io s = (r, s1)" by (cases "abort_timeline_wait io s")
    have "st_inv s" using ok Some by (simp add: win_ok_def)
    then have "st_inv s1 \<and> no_panic r" using soundD [OF sound_answers(5) _ out] by simp
    then show ?thesis using ok Some out by (simp add: win_abort_wait_def win_layers_ok)
  qed (simp add: win_abort_wait_def ok)
qed

lemma hide_layers_sound [win_rules]: "win_sound (hide_layers surface)"
  unfolding win_sound_def
proof (intro allI impI)
  fix w
  assume ok: "win_ok w"
  show "win_ok (snd (hide_layers surface w)) \<and> no_panic (fst (hide_layers surface w))
    \<and> win_surface (snd (hide_layers surface w)) = win_surface w"
  proof (cases "win_layers w")
    case (Some s)
    obtain hidden s1 where out: "st_hide s = (hidden, s1)" by (cases "st_hide s")
    have "st_inv s" using ok Some by (simp add: win_ok_def)
    then have "st_inv s1" using st_inv_core [OF core_steps(18), of s] out by simp
    then show ?thesis using ok Some out by (simp add: hide_layers_def win_layers_ok)
  qed (simp add: hide_layers_def ok)
qed

lemma on_target_sound: "(\<And>t. no_panic (fst (f t))) \<Longrightarrow> win_sound (on_target object buffer f)"
proof (rule win_soundI)
  fix w
  assume f: "\<And>t. no_panic (fst (f t))"
  show "no_panic (fst (on_target object buffer f w))"
    using f by (auto simp: on_target_def split: option.split prod.split) (metis fst_conv)
qed (auto simp: on_target_def split: option.split prod.split)

lemma create_buffer_no_panic [simp]: "no_panic (create_wayland_buffer env metadata planes)"
  by (simp add: create_wayland_buffer_def)

lemma imported_no_panic [simp]: "no_panic (imported_buffer env t)"
  using create_buffer_no_panic [of env "pt_metadata t" "pt_planes t"]
  by (cases "create_wayland_buffer env (pt_metadata t) (pt_planes t)")
    (auto simp: imported_buffer_def no_panic_def bind_result_Inl_iff map_err_Inl_iff split: sum.splits)

lemma submit_points_no_panic: "no_panic (fst (submit_points env fence t))"
proof -
  have "\<not> internal_error e" if "arm_release_wakeup k p bs = (Inl e, bs1)" for k p bs bs1 e
    using that by (auto simp: arm_release_wakeup_def split: option.splits sum.splits syncobj_error.splits if_splits)
  then show ?thesis
    by (auto simp: submit_points_def Let_def split: option.split sum.split prod.split)
qed

lemma window_ops_sound [win_rules]:
  "win_sound take_queued" "win_sound (replace_queued q)" "win_sound (reserve_grant now)"
  "win_sound (apply_opaque env surface)" "win_sound (commit_frame frame point feedback grant hidden surface)"
  "win_sound (complete_feedback proxy)" "win_sound (register_android_buffer object metadata planes)"
  "win_sound (unregister_android_buffer object buffer)" "win_sound win_destroy"
  "win_sound (apply_size logical scale physical serial refresh)"
  by (rule win_soundI; auto simp: take_queued_def replace_queued_def reserve_grant_def apply_opaque_def
      commit_frame_def complete_feedback_def register_android_buffer_def unregister_android_buffer_def
      win_destroy_def apply_size_def discard_target_def Let_def split: option.split prod.split)+

lemma target_ops_sound [win_rules]: "win_sound (on_target object buffer (submit_points env fence))"
  by (rule on_target_sound, rule submit_points_no_panic)

lemma win_sound_bind [win_rules]: "win_sound f \<Longrightarrow> (\<And>x. win_sound (g x)) \<Longrightarrow> win_sound (op_bind f g)"
  by (auto simp: win_sound_def op_bind_def split: prod.split sum.split)

lemma free_target_sound [win_rules]: "win_sound (free_target object buffer)"
  unfolding free_target_def
  by (intro win_sound_bind on_target_sound win_soundI) auto

lemma bind_layers_sound [win_rules]: "win_sound (bind_layers env sockets)"
  by (auto simp: win_sound_def bind_layers_def win_ok_def st_inv_new split: sum.split)

subsection \<open>Presenting\<close>

lemma soundA: "sound P f \<Longrightarrow> P a \<Longrightarrow> P (snd (f a)) \<and> no_panic (fst (f a))"
  by (simp add: sound_def)

lemma app_in_window:
  assumes "app_in D S a" and "fmlookup (ap_tasks a) i = Some w"
  shows "win_ok w" and "win_surface w = None \<longrightarrow> i |\<notin>| S"
  using assms app_okD [OF app_in_ok] by (auto simp: app_in_def)

text \<open>A window replaced by one with the same stream, toplevel and viewport.\<close>

lemma app_in_same:
  assumes "app_in D S a" and "fmlookup (ap_tasks a) i = Some w"
    and "win_layers w' = win_layers w" "win_surface w' = win_surface w" "win_viewport w' = win_viewport w"
  shows "app_in D S (put_win i w' a)"
  using app_in_put [OF assms(1,2), of w'] app_in_window [OF assms(1,2)] assms(3-5) by (simp add: win_ok_def)

lemma win_retire_fields:
  assumes "win_retire_feedback t w = (frames, w1)"
  shows "win_layers w1 = win_layers w" "win_surface w1 = win_surface w" "win_viewport w1 = win_viewport w"
  using assms by (auto simp: win_retire_feedback_def split: prod.splits)

lemma retire_feedback_in: "app_in D S a \<Longrightarrow> app_in D S (app_retire_feedback i t a)"
  by (auto simp: app_retire_feedback_def win_retire_fields split: option.split prod.split intro: app_in_same)

lemma retire_feedback_dom: "fmdom (ap_tasks (app_retire_feedback i t a)) = fmdom (ap_tasks a)"
  by (auto simp: app_retire_feedback_def put_win_def fmdomI finsert_absorb split: option.split prod.split)

lemma sound_discard [sound_rules]: "sound (app_in D S) (discard_previous env i previous)"
  by (auto simp: discard_previous_def split: option.split intro: sound_rules)

lemma sound_abort [sound_rules]: "sound (app_in D S) (abort_timeline_work env i t)"
proof (rule soundI)
  fix a
  assume a: "app_in D S a"
  let ?clear = "on_win i (\<lambda>w. (Inr (), w\<lparr>win_timeline := on_schedule (sc_clear t) (win_timeline w)\<rparr>)) :: unit ap_op"
  let ?discard = "\<lambda>queued. \<lambda>a2. case queued of
      Some (frame, _) \<Rightarrow> if ap_endpoint a2 = None then (Inr (), a2)
        else on_endpoint (discard_frame (ae_host env) i (awf_frame frame)) a2
    | None \<Rightarrow> (Inr (), a2)"
  have "sound (app_in D S) (?discard queued)" for queued :: "queued_frame option"
    by (auto intro!: soundI simp: soundA [OF sound_on_endpoint] split: option.split prod.split)
  then have "sound (app_in D S) (op_bind ?clear (\<lambda>_. op_bind (on_win i take_queued) (\<lambda>queued.
      op_bind (?discard queued) (\<lambda>_. on_win i (win_abort_wait (ae_io env))))))"
    by (intro sound_rules win_rules win_soundI) auto
  from soundA [OF this retire_feedback_in [OF a]]
  show "app_in D S (snd (abort_timeline_work env i t a)) \<and> no_panic (fst (abort_timeline_work env i t a))"
    using retire_feedback_in [OF a] by (simp add: abort_timeline_work_def Let_def)
qed

lemma sound_track_feedback [sound_rules]: "sound (app_in D S) (track_feedback env frame)"
  unfolding track_feedback_def
  by (intro sound_rules) (auto intro!: soundI split: option.split)

lemma sound_attach_frame [sound_rules]: "sound (app_in D S) (attach_frame env frame fence grant surface)"
  unfolding attach_frame_def Let_def
  by (intro sound_rules win_rules win_soundI; (clarsimp split: prod.split)?; (intro sound_rules win_rules win_soundI)?)
    auto

lemma sound_import [sound_rules]: "sound (app_in D S) (import_target env i b)"
proof (rule soundI)
  fix a
  assume a: "app_in D S a"
  show "app_in D S (snd (import_target env i b a)) \<and> no_panic (fst (import_target env i b a))"
  proof (cases "find_target i b a")
    case None
    then show ?thesis using a by (simp add: import_target_def)
  next
    case (Some t)
    then obtain w where hit: "fmlookup (ap_tasks a) i = Some w" and t: "fmlookup (win_targets w) b = Some t"
      by (auto simp: find_target_def bind_eq_Some_conv)
    have "app_in D S (put_win i (w\<lparr>win_targets := m\<rparr>) a)" for m by (rule app_in_same [OF a hit]) simp_all
    then show ?thesis
      using a Some hit t imported_no_panic [of env t]
      by (cases "imported_buffer env t")
        (auto simp: import_target_def the_win_def the_target_def keep_import_def Let_def split: sum.split prod.split)
  qed
qed

lemma sound_show_frame: "sound (app_in D (finsert (awf_object frame) S)) (show_frame env frame fence grant)"
  unfolding show_frame_def
proof (intro sound_bind sound_import soundI)
  fix u a
  assume a: "app_in D (finsert (awf_object frame) S) a"
  then obtain w surface where "fmlookup (ap_tasks a) (awf_object frame) = Some w" "win_surface w = Some surface"
    by (auto simp: app_in_def)
  then show "app_in D (finsert (awf_object frame) S) (snd (case fmlookup (ap_tasks a) (awf_object frame) of
      None \<Rightarrow> (Inl (PeUnknownTask (awf_object frame)), a)
    | Some w \<Rightarrow> (case win_surface w of
          None \<Rightarrow> (Inl (PePanic ''accepts_present guaranteed a mapped window''), a)
        | Some surface \<Rightarrow> attach_frame env frame fence grant surface a)))
    \<and> no_panic (fst (case fmlookup (ap_tasks a) (awf_object frame) of
      None \<Rightarrow> (Inl (PeUnknownTask (awf_object frame)), a)
    | Some w \<Rightarrow> (case win_surface w of
          None \<Rightarrow> (Inl (PePanic ''accepts_present guaranteed a mapped window''), a)
        | Some surface \<Rightarrow> attach_frame env frame fence grant surface a)))"
    using soundA [OF sound_attach_frame a] by simp
qed

lemma sound_present [sound_rules]: "sound (app_in D S) (app_present env frame fence grant)"
proof (rule soundI)
  fix a
  assume a: "app_in D S a"
  let ?i = "awf_object frame"
  have "app_in D S (snd (show_frame env frame fence grant a)) \<and> no_panic (fst (show_frame env frame fence grant a))"
    if "fmlookup (ap_tasks a) ?i = Some w" "accepts_present w" for w
  proof -
    have "app_in D (finsert ?i S) a" using a that by (auto simp: app_in_def accepts_present_def)
    from soundA [OF sound_show_frame this] show ?thesis
      using app_in_weaken [of D "finsert ?i S" _ D S] by blast
  qed
  then show "app_in D S (snd (app_present env frame fence grant a)) \<and> no_panic (fst (app_present env frame fence grant a))"
    using a soundA [OF sound_on_endpoint a] by (auto simp: app_present_def split: option.split)
qed

lemma sound_queue_present [sound_rules]: "sound (app_in D S) (queue_present env frame fence)"
proof (rule soundI)
  fix a
  assume a: "app_in D S a"
  have "sound (app_in D S) (op_bind (on_win (awf_object frame) (win_abort_wait (ae_io env))) (\<lambda>_.
      op_bind (on_win (awf_object frame) (replace_queued (frame, fence))) (discard_previous env (awf_object frame))))"
    by (intro sound_rules win_rules)
  from soundA [OF this a] soundA [OF sound_present a]
  show "app_in D S (snd (queue_present env frame fence a)) \<and> no_panic (fst (queue_present env frame fence a))"
    using a by (auto simp: queue_present_def split: option.split)
qed

lemma arm_in: "app_in D S a \<Longrightarrow> app_in D S (app_arm_timelines armed a)"
  using app_in_map [of D S a "\<lambda>w. w\<lparr>win_timeline := snd (ft_arm armed (win_timeline w))\<rparr>"]
  by (simp add: app_arm_timelines_def win_ok_def app_in_def app_ok_def)

lemma android_frame_in: "app_in D S a \<Longrightarrow> app_in D S (app_android_frame now a)"
  by (simp add: app_android_frame_def Let_def arm_in)

lemma reserve_queued:
  "reserve_grant now w = (r, w1) \<Longrightarrow> ft_queued (win_timeline w1) = ft_queued (win_timeline w)"
  by (auto simp: reserve_grant_def ft_reserve_def Let_def split: prod.splits if_splits option.splits)

lemma sound_flush [sound_rules]: "sound (app_in D S) (flush_frame env i)"
proof (rule soundI)
  fix a
  assume a: "app_in D S a"
  show "app_in D S (snd (flush_frame env i a)) \<and> no_panic (fst (flush_frame env i a))"
  proof (cases "fmlookup (ap_tasks a) i")
    case None
    then show ?thesis using a by (simp add: flush_frame_def)
  next
    case (Some w)
    show ?thesis
    proof (cases "ft_queued (win_timeline w)")
      case None
      then show ?thesis using a Some by (simp add: flush_frame_def)
    next
      case queued: (Some q)
      obtain frame fence where q: "q = (frame, fence)" by (cases q)
      show ?thesis
      proof (cases "ae_now env")
        case (Inl e)
        then show ?thesis using a Some queued by (simp add: flush_frame_def op_bind_def)
      next
        case (Inr now)
        obtain r w1 where res: "reserve_grant now w = (r, w1)" by (cases "reserve_grant now w")
        have a1: "app_in D S (put_win i w1 a)" and np: "no_panic r"
          using soundA [OF sound_on_win [OF window_ops_sound(3)] a, of i now] Some res
          by (simp_all add: on_win_def)
        have still: "ft_queued (win_timeline w1) = Some q" using reserve_queued [OF res] queued by simp
        let ?w2 = "w1\<lparr>win_timeline := (win_timeline w1)\<lparr>ft_queued := None\<rparr>\<rparr>"
        have hit: "fmlookup (ap_tasks (put_win i w1 a)) i = Some w1" by (simp add: put_win_def)
        have a2: "app_in D S (put_win i ?w2 (put_win i w1 a))"
          by (rule app_in_same [OF a1 hit]) simp_all
        note shown = soundA [OF sound_present android_frame_in [OF a2, of now], of env frame fence]
        show ?thesis
          using a a1 np Some queued Inr res still q shown
          by (cases r) (auto simp: flush_frame_def op_bind_def on_win_def take_queued_def put_win_def
              split: option.split sum.split)
      qed
    qed
  qed
qed

subsection \<open>Windows over time\<close>

lemma sound_lookup:
  assumes "\<And>w. sound (app_in D S) (f w)" and "no_panic r"
  shows "sound (app_in D S) (\<lambda>a. case fmlookup (ap_tasks a) i of None \<Rightarrow> (r, a) | Some w \<Rightarrow> f w a)"
  using assms by (auto simp: sound_def split: option.split)

lemma sound_here [sound_rules]: "no_panic r \<Longrightarrow> sound P (\<lambda>a. (r, a))"
  by (simp add: sound_def)

lemma sound_ite [sound_rules]: "sound P f \<Longrightarrow> sound P g \<Longrightarrow> sound P (\<lambda>a. if c a then f a else g a)"
  by (simp add: sound_def)

lemma sound_refresh_one [sound_rules]: "sound (app_in D S) (refresh_one env i)"
proof -
  have step: "sound (app_in D S) (op_bind (on_endpoint f) (\<lambda>_. op_bind (on_win i (\<lambda>x. (Inr (), x\<lparr>win_refresh_millihz := rf\<rparr>)))
      (\<lambda>_. op_return b)))" for f :: "unit ep_op" and rf b
    by (intro sound_rules win_soundI) auto
  show ?thesis
    by (rule soundI) (auto simp: refresh_one_def Let_def soundA [OF step] split: option.split)
qed

lemma sound_update_refresh [sound_rules]: "sound (app_in D S) (update_task_refresh env i)"
proof -
  have step: "sound (app_in D S) (op_bind (refresh_one env j) (\<lambda>_. op_return ()))" for j
    by (intro sound_rules)
  have "sound (app_in D S) (\<lambda>a. if \<not> changed then (Inr (), a)
      else case find (\<lambda>i. case fmlookup (ap_tasks a) i of None \<Rightarrow> False | Some w \<Rightarrow> win_headless w) (task_objects a) of
        None \<Rightarrow> (Inr (), a) | Some b \<Rightarrow> op_bind (refresh_one env b) (\<lambda>_. op_return ()) a)" for changed
    by (rule soundI) (auto simp: soundA [OF step] split: option.split)
  then show ?thesis
    unfolding update_task_refresh_def by (rule sound_bind [OF sound_refresh_one])
qed

lemma sound_update_outputs [sound_rules]: "sound (app_in D S) (update_output_refreshes env)"
  unfolding update_output_refreshes_def by (rule sound_guard) (intro sound_rules)

lemma selected_format_no_panic [simp]: "no_panic (selected_format a)"
  by (auto simp: selected_format_def split: option.split)

lemma published_formats_no_panic [simp]: "no_panic (published_formats a)"
  using selected_format_no_panic [of a] by (cases "selected_format a") (simp_all add: published_formats_def)

lemma allocate_target_no_panic [simp]: "no_panic (allocate_target env ident width height a)"
  using selected_format_no_panic [of a]
  by (cases "selected_format a") (auto simp: allocate_target_def Let_def split: option.split)

lemma sound_allocate_id [sound_rules]: "sound (app_in D S) allocate_buffer_id"
  by (rule soundI) (auto simp: allocate_buffer_id_def split: option.split)

lemma sound_result: "(\<And>a. no_panic (r a)) \<Longrightarrow> (\<And>x. sound P (f x)) \<Longrightarrow>
    sound P (\<lambda>a. case r a of Inl e \<Rightarrow> (Inl e, a) | Inr x \<Rightarrow> f x a)"
  by (auto simp: sound_def split: sum.split) (metis no_panic_simps(2))

lemma sound_allocate_pool [sound_rules]: "sound (app_in D S) (allocate_pool env n width height)"
proof (induction n)
  case (Suc n)
  then show ?case
    unfolding allocate_pool.simps by (intro sound_rules sound_result allocate_target_no_panic)
qed (simp add: sound_def)

lemma withdraw_ok:
  "app_in D S a \<Longrightarrow> ap_endpoint a \<noteq> None \<Longrightarrow>
   app_in D S (snd (op_each (withdraw_target env i) ts a)) \<and> fst (op_each (withdraw_target env i) ts a) = Inr ()"
proof (induction ts arbitrary: a)
  case (Cons t ts)
  then obtain e where e: "ap_endpoint a = Some e" by auto
  let ?a = "a\<lparr>ap_endpoint := Some (snd (unregister_render_target (ae_host env) i (buf_id (pt_metadata t)) e))\<rparr>"
  have "withdraw_target env i t a = (Inr (), ?a)" using e by (simp add: withdraw_target_def)
  with Cons.IH [of ?a] Cons.prems(1) show ?case by (simp add: op_bind_def)
qed simp

lemma sound_publish_targets [sound_rules]: "sound (app_in D S) (publish_targets env i serial published ts)"
proof (induction ts arbitrary: published)
  case (Cons t ts)
  show ?case
  proof (rule soundI)
    fix a
    assume a: "app_in D S a"
    let ?reg = "on_endpoint (register_render_target (ae_host env) i serial (pt_metadata t) (pt_planes t))"
    obtain r a1 where reg: "?reg a = (r, a1)" by (cases "?reg a")
    have a1: "app_in D S a1" "no_panic r" using soundA [OF sound_on_endpoint a] reg by (metis fst_conv snd_conv)+
    have "ap_endpoint a1 \<noteq> None" if "ap_endpoint a \<noteq> None"
      using reg that by (auto simp: on_endpoint_def with_endpoint_def split: option.splits prod.splits)
    note undo = withdraw_ok [OF a1(1) this, of env i published]
    show "app_in D S (snd (publish_targets env i serial published (t # ts) a))
        \<and> no_panic (fst (publish_targets env i serial published (t # ts) a))"
      using a a1 reg undo soundA [OF Cons.IH a1(1)]
      by (cases r; cases "op_each (withdraw_target env i) published a1") (auto simp: op_bind_def)
  qed
qed (simp add: sound_def)

lemma sound_ensure_targets [sound_rules]: "sound (app_in D S) (ensure_render_targets env i serial)"
proof (rule soundI)
  fix a
  assume a: "app_in D S a"
  have "sound (app_in (finsert i D) S) (op_bind (allocate_pool env n width height) (\<lambda>targets.
      op_bind (publish_targets env i serial [] targets) (\<lambda>_. the_win ''unwrap'' i (\<lambda>x. (Inr (), x\<lparr>win_targets :=
        fold (\<lambda>t m. fmupd (buf_id (pt_metadata t)) t m) targets (win_targets x)\<rparr>)))))" for n width height
    by (intro sound_rules win_soundI) simp_all
  note step = soundA [OF this app_in_add [OF a]]
  have weaker: "app_in D S b" if "app_in (finsert i D) S b" for b
    using app_in_weaken [OF that] by blast
  show "app_in D S (snd (ensure_render_targets env i serial a)) \<and> no_panic (fst (ensure_render_targets env i serial a))"
  proof (cases "fmlookup (ap_tasks a) i")
    case None
    then show ?thesis using a by (simp add: ensure_render_targets_def)
  next
    case (Some w)
    show ?thesis using a step [OF Some] weaker by (simp add: ensure_render_targets_def Some)
  qed
qed

lemma discard_target_fields [simp]:
  "win_layers (discard_target b w) = win_layers w" "win_surface (discard_target b w) = win_surface w"
  "win_viewport (discard_target b w) = win_viewport w"
  by (auto simp: discard_target_def split: option.split)

lemma remove_target_in: "app_in D S a \<Longrightarrow> app_in D S (remove_target i b a)"
  by (auto simp: remove_target_def split: option.split intro: app_in_same)

lemma sound_unregister_target [sound_rules]: "sound (app_in D S) (unregister_target env i b)"
  unfolding unregister_target_def
  by (intro sound_rules) (auto intro!: soundI remove_target_in)

lemma sound_retire_targets [sound_rules]: "sound (app_in D S) (retire_host_targets env i)"
proof (rule soundI)
  fix a
  assume a: "app_in D S a"
  have each: "sound (app_in D S) (op_each (unregister_target env i) xs)" for xs
    by (intro sound_rules)
  show "app_in D S (snd (retire_host_targets env i a)) \<and> no_panic (fst (retire_host_targets env i a))"
    using a by (auto simp: retire_host_targets_def Let_def soundA [OF each] app_in_same split: option.split)
qed

lemma sound_publish_configure [sound_rules]: "sound (app_in D S) (publish_configure env i c physical)"
proof -
  have serial: "sound (app_in D S) (next_configure_serial i)"
    by (rule soundI) (auto simp: next_configure_serial_def ok_or_def split: option.split)
  have "sound (app_in D S) (\<lambda>a. let refresh = task_refresh_millihz env a i in
     op_bind (on_win i (apply_size (rc_width c, rc_height c) (rc_scale_120 c) physical n refresh))
       (\<lambda>_. op_bind (on_endpoint (send_configure (ae_host env) i n (fst physical) (snd physical)
          (rc_scale_120 c) FRACTIONAL_SCALE_DENOMINATOR TransformNormal refresh))
       (\<lambda>_. op_return n)) a)" for n
    unfolding Let_def by (rule sound_guard) (intro sound_rules win_rules)
  then show ?thesis unfolding publish_configure_def by (intro sound_rules serial)
qed

lemma scale_no_panic: "scale_dimension l s = Inl e \<Longrightarrow> \<not> internal_error e"
  by (auto simp: scale_dimension_def Let_def split: if_splits)

lemma sound_configure [sound_rules]: "sound (app_in D S) (configure_task env i c)"
proof -
  have "sound (app_in D S) (op_bind (abort_timeline_work env i TerminalConfigure) (\<lambda>_.
      op_bind (retire_host_targets env i) (\<lambda>_.
      op_bind (publish_configure env i c wh) (\<lambda>serial.
      op_bind (\<lambda>a1. if (case ap_endpoint a1 of None \<Rightarrow> False | Some e \<Rightarrow> ep_lazy_render_targets e)
          then (Inr (), a1) else ensure_render_targets env i serial a1) (\<lambda>_.
      update_output_refreshes env)))))" for wh
    by (intro sound_rules) simp
  note step = soundA [OF this]
  show ?thesis
    by (rule soundI) (auto simp: configure_task_def step scale_no_panic split: sum.split option.split)
qed

lemma configured_dom:
  "i |\<in>| fmdom (ap_tasks a) \<Longrightarrow> app_ok a \<Longrightarrow> app_in {|i|} {||} a"
  by (simp add: app_in_def)

lemma remember_size_in:
  assumes "app_in (finsert i D) S a"
  shows "app_in (finsert i D) S (snd (remember_size env i c a)) \<and> no_panic (fst (remember_size env i c a))"
  using assms app_in_dom [OF assms, of i] by (auto simp: remember_size_def)

lemma sound_resize [sound_rules]: "sound (app_in D S) (apply_pending_resize env i)"
proof (rule soundI)
  fix a
  assume a: "app_in D S a"
  show "app_in D S (snd (apply_pending_resize env i a)) \<and> no_panic (fst (apply_pending_resize env i a))"
  proof (cases "fmlookup (ap_tasks a) i")
    case None
    then show ?thesis using a by (simp add: apply_pending_resize_def)
  next
    case (Some w)
    obtain r p where take: "rp_take (win_resize w) = (r, p)" by (cases "rp_take (win_resize w)")
    let ?a = "put_win i (w\<lparr>win_resize := p\<rparr>) a"
    have a1: "app_in (finsert i D) S ?a"
      by (rule app_in_same [OF app_in_add [OF a Some] Some]) simp_all
    have "sound (app_in (finsert i D) S) (op_bind (configure_task env i c) (\<lambda>_. remember_size env i c))" for c
      by (intro sound_rules soundI remember_size_in)
    from soundA [OF this a1] show ?thesis
      using a app_in_weaken [OF a1, of D S] app_in_weaken [of "finsert i D" S _ D S] Some take
      by (auto simp: apply_pending_resize_def Let_def split: option.split)
  qed
qed

subsection \<open>Frames the compositor returns\<close>

lemma collect_ready_no_panic:
  "collect_ready k targets ps = (Inl e, kept) \<Longrightarrow> \<not> internal_error e"
  by (induction k targets ps arbitrary: kept rule: collect_ready.induct)
    (auto split: option.splits sum.splits if_splits prod.splits simp: bind_result_Inl_iff)

lemma sound_collect [sound_rules]: "sound (app_in D S) (collect_object env i)"
proof (rule soundI)
  fix a
  assume a: "app_in D S a"
  show "app_in D S (snd (collect_object env i a)) \<and> no_panic (fst (collect_object env i a))"
  proof (cases "fmlookup (ap_tasks a) i")
    case (Some w)
    obtain r kept where out: "collect_ready (ve_drm (ae_view env)) (win_targets w) (win_pending w) = (r, kept)"
      by (cases "collect_ready (ve_drm (ae_view env)) (win_targets w) (win_pending w)")
    have "app_in D S (put_win i (w\<lparr>win_pending := kept\<rparr>) a)" by (rule app_in_same [OF a Some]) simp_all
    then show ?thesis
      using Some out collect_ready_no_panic by (cases r) (auto simp: collect_object_def)
  qed (simp add: collect_object_def a)
qed

lemma sound_collect_all [sound_rules]: "sound (app_in D S) (collect_objects env is)"
  by (induction "is") (auto intro: sound_rules)

lemma sound_settle [sound_rules]: "sound (app_in D S) (settle_frame env p)"
proof -
  obtain i f where p: "p = (i, f)" by (cases p)
  have "sound (app_in D S) (case x of (retired, closing) \<Rightarrow>
      if retired \<and> \<not> closing then unregister_target env i (pf_buffer f) else op_return ())" for x
    by (cases x) (auto intro: sound_rules)
  then show ?thesis
    unfolding settle_frame_def p by (auto intro!: sound_bind sound_on_endpoint sound_on_win win_rules)
qed

lemma remove_ok: "app_ok a \<Longrightarrow> app_ok (remove_task env i a)"
proof -
  assume "app_ok a"
  then have "app_ok (app_retire_feedback i TerminalEpoch a)"
    using retire_feedback_in [of "{||}" "{||}"] by simp
  then have "app_in {||} {||} ((app_retire_feedback i TerminalEpoch a)\<lparr>ap_tasks := fmdrop i (ap_tasks (app_retire_feedback i TerminalEpoch a))\<rparr>)"
    by (auto simp: app_ok_def intro: fmpred_drop)
  then show ?thesis
    using or_fail_in [OF sound_update_outputs, of "{||}" "{||}"] by (auto simp: remove_task_def Let_def)
qed

lemma remove_finished_ok: "app_ok a \<Longrightarrow> app_ok (remove_if_finished env i a)"
  by (auto simp: remove_if_finished_def remove_ok split: option.split)

lemma sound_frames: "sound app_ok (release_ready_frames env objects cleanup)"
proof -
  have "keeps app_ok (fold (remove_if_finished env) xs)" for xs
    by (rule keeps_fold) (simp add: keeps_def remove_finished_ok)
  then have fin: "sound app_ok (\<lambda>a. (Inr (), fold (remove_if_finished env) xs a))" for xs
    by (simp add: sound_def keeps_def)
  have eq: "app_in {||} {||} = app_ok" by (rule ext) simp
  show ?thesis
    unfolding release_ready_frames_def
    using sound_collect_all [of "{||}" "{||}"] sound_each [OF sound_settle [of "{||}" "{||}"]]
    by (auto simp: eq intro!: sound_bind fin)
qed

subsection \<open>Closing\<close>

lemma destroy_window_ok: "win_ok w \<Longrightarrow> win_ok (destroy_window surface w)"
proof -
  assume "win_ok w"
  then have "st_inv (snd (st_hide s))" if "win_layers w = Some s" for s
    using that st_inv_core [OF core_steps(18), of s] by (simp add: win_ok_def)
  then show ?thesis by (auto simp: destroy_window_def Let_def win_ok_def)
qed

lemma sound_unmap_window: "sound (app_in D {||}) (unmap_task_window env i)"
proof -
  have "sound (app_in D {||}) (on_win i (\<lambda>w. let w1 = w\<lparr>win_resize := rp_cancel (win_resize w)\<rparr> in
      case win_surface w1 of None \<Rightarrow> (Inr (), w1) | Some surface \<Rightarrow> (Inr (), destroy_window surface w1)))"
  proof (rule soundI)
    fix a
    assume a: "app_in D {||} a"
    have "win_ok w \<Longrightarrow> win_ok (w\<lparr>win_resize := rp_cancel (win_resize w)\<rparr>)" for w by (simp add: win_ok_def)
    then show "app_in D {||} (snd (on_win i (\<lambda>w. let w1 = w\<lparr>win_resize := rp_cancel (win_resize w)\<rparr> in
        case win_surface w1 of None \<Rightarrow> (Inr (), w1) | Some surface \<Rightarrow> (Inr (), destroy_window surface w1)) a))
      \<and> no_panic (fst (on_win i (\<lambda>w. let w1 = w\<lparr>win_resize := rp_cancel (win_resize w)\<rparr> in
        case win_surface w1 of None \<Rightarrow> (Inr (), w1) | Some surface \<Rightarrow> (Inr (), destroy_window surface w1)) a))"
      using a app_in_window [OF a]
      by (auto simp: on_win_def Let_def split: option.split intro!: app_in_put [OF a] destroy_window_ok)
  qed
  then show ?thesis
    unfolding unmap_task_window_def by (rule sound_bind [OF sound_abort])
qed

lemma sound_unmap: "sound app_ok (unmap_requested_task env i)"
proof -
  have "sound (app_in {||} {||}) (op_bind (unmap_task_window env i) (\<lambda>_ a1. (Inr (), remove_if_finished env i a1)))"
    by (rule sound_bind [OF sound_unmap_window]) (simp add: sound_def remove_finished_ok)
  note step = soundA [OF this]
  show ?thesis by (rule soundI) (use step in \<open>auto simp: unmap_requested_task_def\<close>)
qed

lemma request_close_in: "app_in D S a \<Longrightarrow> app_in D S (request_close env i a)"
proof -
  assume a: "app_in D S a"
  obtain r a1 where out: "on_endpoint (send_close (ae_host env) i) a = (r, a1)"
    by (cases "on_endpoint (send_close (ae_host env) i) a")
  have "app_in D S a1" "no_panic r" using soundD [OF sound_on_endpoint a out] by simp_all
  then show ?thesis
    using a out by (cases r) (auto simp: request_close_def intro: app_in_fail app_in_same split: option.split)
qed

subsection \<open>Callbacks of the compositor\<close>

lemma find_objects: "find P (task_objects a) = Some i \<Longrightarrow> i |\<in>| fmdom (ap_tasks a)"
  by (auto simp: find_Some_iff task_objects_def) (metis nth_mem sorted_list_of_fset_simps(1))

text \<open>The task of a surface and the task of a scene are tasks of the presenter.\<close>

lemma surface_task: "task_for_surface surface a = Some i \<Longrightarrow> i |\<in>| fmdom (ap_tasks a)"
  unfolding task_for_surface_def by (rule find_objects)

lemma scene_task: "scene_position feedback a = Some (i, n) \<Longrightarrow> i |\<in>| fmdom (ap_tasks a)"
  by (auto simp: scene_position_def bind_eq_Some_conv dest: find_objects)

text \<open>A call that takes a window for granted, made with a window that exists.\<close>

lemma or_fail_member:
  assumes "app_in D S a" and "i |\<in>| fmdom (ap_tasks a)" and "sound (app_in (finsert i D) S) f"
  shows "app_in D S (or_fail f a)"
  using app_in_weaken [OF or_fail_in [OF assms(3) app_in_member [OF assms(1,2)]]] by blast

lemma on_win_update: "sound (app_in D S) (on_win i (\<lambda>w. (Inr (), f w)) :: unit ap_op)"
  if "\<And>w. win_layers (f w) = win_layers w \<and> win_surface (f w) = win_surface w \<and> win_viewport (f w) = win_viewport w"
  using that by (intro sound_on_win win_soundI) simp_all

lemma the_win_update: "sound (app_in D S) (the_win m i (\<lambda>w. (Inr (), f w)) :: unit ap_op)"
  if "\<And>w. win_layers (f w) = win_layers w \<and> win_surface (f w) = win_surface w \<and> win_viewport (f w) = win_viewport w"
    and "i |\<in>| D"
  using that by (intro sound_the_win win_soundI) simp_all

lemma enter_in: "app_in D S a \<Longrightarrow> app_in D S (surface_enter env surface out a)"
  by (auto simp: surface_enter_def split: option.split if_splits
      intro!: or_fail_member surface_task sound_bind sound_update_refresh the_win_update)

lemma leave_in: "app_in D S a \<Longrightarrow> app_in D S (surface_leave env surface out a)"
  by (auto simp: surface_leave_def leave_output_def split: option.split
      intro!: or_fail_member surface_task sound_bind sound_update_refresh the_win_update)

lemma scale_in: "app_in D S a \<Longrightarrow> app_in D S (preferred_scale i scale a)"
  by (auto simp: preferred_scale_def split: option.split intro: app_in_fail app_in_same)

lemma configured_in:
  assumes a: "app_in D S a"
  shows "app_in D S (window_configured canvas surface c a)"
proof (cases "task_for_surface surface a")
  case (Some i)
  note i = surface_task [OF this]
  have "app_in D S (or_fail (the_win m i (\<lambda>x. (Inr (), x\<lparr>win_resize := f x\<rparr>))) a)" for m f
    by (rule or_fail_member [OF a i], rule the_win_update) simp_all
  then show ?thesis
    using a i by (auto simp: window_configured_def Some Let_def fmlookup_dom_iff)
qed (simp add: window_configured_def a)

lemma discarded_scene_fields [simp]:
  "win_layers (discarded_scene n t w) = win_layers w" "win_surface (discarded_scene n t w) = win_surface w"
  "win_viewport (discarded_scene n t w) = win_viewport w"
  by (simp_all add: discarded_scene_def)

lemma discarded_in:
  assumes a: "app_in D S a"
  shows "app_in D S (feedback_discarded feedback surface a)"
proof (cases "scene_position feedback a")
  case None
  then show ?thesis
    using a by (auto simp: feedback_discarded_def Let_def split: option.split intro: app_in_same)
next
  case (Some x)
  obtain i n where x: "x = (i, n)" by (cases x)
  then obtain w where hit: "fmlookup (ap_tasks a) i = Some w"
    using scene_task [of feedback a i n] Some by (auto simp: fmlookup_dom_iff)
  have "app_in D S (put_win i (discarded_scene n TerminalMissed w) a)"
    by (rule app_in_same [OF a hit]) simp_all
  then show ?thesis using Some x hit by (simp add: feedback_discarded_def)
qed

lemma sound_report_scene: "i |\<in>| D \<Longrightarrow> sound (app_in D S) (report_scene env i scene time changed)"
proof -
  assume "i |\<in>| D"
  moreover have "win_sound (\<lambda>w. (presentation_refresh_period p (win_refresh_millihz w), w))" for p
    by (rule win_soundI) simp_all
  ultimately show ?thesis
    unfolding report_scene_def by (intro sound_rules) simp_all
qed

lemma sound_report_frame: "i |\<in>| D \<Longrightarrow> sound (app_in D S) (report_frame env i feedback time)"
proof -
  assume i: "i |\<in>| D"
  have "sound (app_in D S) (the_win m i (\<lambda>w. (Inr (), w)) :: unit ap_op)" for m
    using the_win_update [of "\<lambda>w. w", OF _ i] by simp
  then have "sound (app_in D S) (case x of (frame, advertised) \<Rightarrow>
      op_bind (op_lift (timestamp_of time)) (\<lambda>timestamp.
      op_bind (the_win ''task was just checked'' i (\<lambda>w. (Inr (), w))) (\<lambda>_ :: unit.
      op_bind (op_lift (presentation_refresh_period (tm_refresh time) advertised)) (\<lambda>refresh.
      with_endpoint ''endpoint is absent'' (send_presented (ae_host env) i frame timestamp refresh (tm_sequence time)
        (if tm_zero_copy time then FLAG_DISPLAYED OR FLAG_DIRECT_SCANOUT else FLAG_DISPLAYED OR FLAG_COMPOSITED))))))" for x
    by (cases x) (simp only: prod.case, intro sound_bind sound_lift sound_with_endpoint; simp)
  then show ?thesis
    unfolding report_frame_def by (intro sound_bind sound_lift sound_on_win win_rules) simp_all
qed

lemma sound_presented_output:
  assumes a: "app_in D S a" and hit: "fmlookup (ap_tasks a) i = Some w"
  shows "app_in D S (snd (presented_output env i outputs a)) \<and> no_panic (fst (presented_output env i outputs a))"
proof -
  have "app_in D S (put_win i (w\<lparr>win_presentation_output := Some out\<rparr>) a)" for out
    by (rule app_in_same [OF a hit]) simp_all
  from soundA [OF sound_update_refresh this] show ?thesis
    using a hit by (auto simp: presented_output_def split: option.split)
qed

lemma scene_presented_in:
  assumes a: "app_in D S a" and hit: "fmlookup (ap_tasks a) i = Some w"
  shows "app_in D S (scene_presented env i index outputs time w a)"
proof -
  have "app_in D S (put_win i (discarded_scene index t w) a)" for t
    by (rule app_in_same [OF a hit]) simp_all
  moreover have "app_in D S (put_win i ((discarded_scene index t w)\<lparr>win_presentation_output := out\<rparr>) a)" for t out
    by (rule app_in_same [OF a hit]) simp_all
  ultimately show ?thesis
    by (auto simp: scene_presented_def Let_def put_win_def intro!: or_fail_member sound_report_scene)
qed

lemma presented_in:
  assumes a: "app_in D S a"
  shows "app_in D S (feedback_presented env feedback surface outputs time a)"
proof -
  have frame: "app_in D S (or_fail (op_bind (presented_output env i outputs) (\<lambda>_. report_frame env i feedback time)) a)"
    if "fmlookup (ap_tasks a) i = Some w" for i w
  proof -
    obtain r a1 where out: "presented_output env i outputs a = (r, a1)" by (cases "presented_output env i outputs a")
    have a1: "app_in (finsert i D) S a1" "no_panic r"
      using sound_presented_output [OF app_in_add [OF a that] that, of env outputs] out by simp_all
    have "app_in (finsert i D) S (or_fail (op_bind (presented_output env i outputs) (\<lambda>_. report_frame env i feedback time)) a)"
      using out a1 or_fail_in [OF sound_report_frame a1(1), of i env feedback time] app_in_fail
      by (cases r) (auto simp: or_fail_def op_bind_def)
    then show ?thesis by (rule app_in_weaken) auto
  qed
  have scene: "\<exists>w. fmlookup (ap_tasks a) i = Some w" if "scene_position feedback a = Some (i, n)" for i n
    using scene_task [OF that] by (simp add: fmlookup_dom_iff)
  have task: "\<exists>w. fmlookup (ap_tasks a) i = Some w" if "task_for_surface surface a = Some i" for i
    using surface_task [OF that] by (simp add: fmlookup_dom_iff)
  show ?thesis
  proof (cases "scene_position feedback a")
    case None
    then show ?thesis
      using a task frame by (auto simp: feedback_presented_def split: option.split)
  next
    case (Some x)
    obtain i n where x: "x = (i, n)" by (cases x)
    then obtain w where "fmlookup (ap_tasks a) i = Some w" using scene Some by blast
    then show ?thesis using Some x scene_presented_in [OF a] by (simp add: feedback_presented_def)
  qed
qed

lemma sound_reconfigure [sound_rules]: "sound (app_in D S) (reconfigure_bootstrap env)"
  by (rule soundI) (auto simp: reconfigure_bootstrap_def soundA [OF sound_configure] split: option.split prod.split)

lemma output_in: "app_in D S a \<Longrightarrow> app_in D S (output_updated env a)"
  by (auto simp: output_updated_def intro!: or_fail_in sound_rules)

lemma output_gone_in: "app_in D S a \<Longrightarrow> app_in D S (output_destroyed env out a)"
  unfolding output_destroyed_def by (intro output_in app_in_map) (simp_all add: leave_output_def win_ok_def)

subsection \<open>Timelines\<close>

lemma refresh_clock_in: "app_in D S a \<Longrightarrow> app_in D S (app_refresh_clock env proxy a)"
  by (simp add: app_refresh_clock_def Let_def)

lemma idle_check_in: "app_in D S a \<Longrightarrow> app_in D S (app_clock_idle_check now a)"
  by (simp add: app_clock_idle_check_def arm_in)

lemma resubscribe_fields [simp]:
  "win_layers (resubscribe m armed out proxy w) = win_layers w"
  "win_surface (resubscribe m armed out proxy w) = win_surface w"
  "win_viewport (resubscribe m armed out proxy w) = win_viewport w"
  by (simp_all add: resubscribe_def)

lemma resubscribed_in:
  assumes "app_in (finsert i D) S a"
  shows "app_in (finsert i D) S (snd (case fmlookup (ap_tasks a) i of
      None \<Rightarrow> (Inl (PePanic ''unwrap''), a)
    | Some w1 \<Rightarrow> (Inr (), put_win i (resubscribe (ap_manager a) (ap_clock_armed a) out (proxies i) w1) a)))
    \<and> no_panic (fst (case fmlookup (ap_tasks a) i of
      None \<Rightarrow> (Inl (PePanic ''unwrap''), a)
    | Some w1 \<Rightarrow> (Inr (), put_win i (resubscribe (ap_manager a) (ap_clock_armed a) out (proxies i) w1) a)))"
  using app_in_dom [OF assms, of i] app_in_same [OF assms] by auto

lemma sound_refresh_timeline: "i |\<in>| D \<Longrightarrow> sound (app_in D S) (refresh_timeline env outputs proxies i)"
proof -
  assume "i |\<in>| D"
  then have D: "D = finsert i D" by auto
  have "sound (app_in (finsert i D) S) (op_bind (if c then abort_timeline_work env i TerminalEpoch else op_return ())
      (\<lambda>_ a1. case fmlookup (ap_tasks a1) i of
          None \<Rightarrow> (Inl (PePanic ''unwrap''), a1)
        | Some w1 \<Rightarrow> (Inr (), put_win i (resubscribe (ap_manager a1) (ap_clock_armed a1) out (proxies i) w1) a1)))" for c out
    by (intro sound_rules soundI resubscribed_in)
  note step = soundA [OF this]
  have "sound (app_in (finsert i D) S) (refresh_timeline env outputs proxies i)"
  proof (rule soundI)
    fix a
    assume a: "app_in (finsert i D) S a"
    obtain w where "fmlookup (ap_tasks a) i = Some w" using app_in_dom [OF a, of i] by auto
    then show "app_in (finsert i D) S (snd (refresh_timeline env outputs proxies i a))
        \<and> no_panic (fst (refresh_timeline env outputs proxies i a))"
      using a step [OF a] by (auto simp: refresh_timeline_def Let_def)
  qed
  then show ?thesis using D by simp
qed

lemma sound_each_in: "(\<And>x. x \<in> set xs \<Longrightarrow> sound P (f x)) \<Longrightarrow> sound P (op_each f xs)"
  by (induction xs) (auto intro: sound_rules)

lemma sound_refresh_timelines [sound_rules]: "sound (app_in {||} S) (refresh_frame_timelines env outputs proxies clock)"
proof (rule soundI)
  fix a
  assume a: "app_in {||} S a"
  let ?D = "fmdom (ap_tasks a)"
  have aD: "app_in ?D S a" using a by (simp add: app_in_def)
  have "sound (app_in ?D S) (op_bind (op_each (refresh_timeline env outputs proxies) (task_objects a))
      (\<lambda>_ a1. (Inr (), app_refresh_clock env clock a1)))"
    by (intro sound_bind sound_each_in sound_refresh_timeline soundI)
      (simp_all add: task_objects_def refresh_clock_in)
  from soundA [OF this aD] show "app_in {||} S (snd (refresh_frame_timelines env outputs proxies clock a))
      \<and> no_panic (fst (refresh_frame_timelines env outputs proxies clock a))"
    using a app_in_weaken [of ?D S _ "{||}" S] by (auto simp: refresh_frame_timelines_def)
qed

lemma sound_received_grant [sound_rules]: "sound P (received_grant env g)"
  unfolding received_grant_def
  by (rule sound_lift) (auto intro!: no_panic_map_err split: timestamp_error.splits)

lemma sound_idle [sound_rules]: "sound (app_in D S) (\<lambda>a. (Inr (), app_clock_idle_check now a))"
  by (simp add: sound_def idle_check_in)

lemma sound_timeline_change: "i |\<in>| D \<Longrightarrow> sound (app_in D S) (timeline_change env i old ev)"
  by (cases ev) (auto simp: Let_def intro!: sound_rules the_win_update)

lemma timeline_event_in: "app_in D S a \<Longrightarrow> app_in D S (timeline_event env proxy i ev a)"
  by (auto simp: timeline_event_def fmdomI split: option.split intro!: or_fail_member sound_timeline_change)

lemma sound_forward [sound_rules]: "sound (app_in D S) (forward_grant env g)"
  by (rule soundI) (auto simp: forward_grant_def split: option.split prod.split sum.split)

lemma clock_event_in: "app_in D S a \<Longrightarrow> app_in D S (clock_event env proxy ev a)"
  by (auto simp: clock_event_def split: timeline_event.split intro!: or_fail_in sound_rules)

lemma stop_timeline_in:
  assumes a: "app_in D S a" and i: "i |\<in>| D"
  shows "app_in D S (stop_timeline env i a)"
proof -
  obtain w where Some: "fmlookup (ap_tasks a) i = Some w" using app_in_dom [OF a i] by auto
  let ?a = "or_fail (abort_timeline_work env i TerminalEpoch) a"
  have a1: "app_in D S ?a" by (rule or_fail_in [OF sound_abort a])
  then obtain w1 where hit: "fmlookup (ap_tasks ?a) i = Some w1" using app_in_dom [OF a1 i] by auto
  have "app_in D S (put_win i (w1\<lparr>win_timeline := snd (ft_stop (win_timeline w1))\<rparr>) ?a)"
    by (rule app_in_same [OF a1 hit]) simp_all
  then show ?thesis using a Some hit by (simp add: stop_timeline_def Let_def)
qed

lemma stop_timelines_in: "set is \<subseteq> fset D \<Longrightarrow> app_in D S a \<Longrightarrow> app_in D S (fold (stop_timeline env) is a)"
  by (induction "is" arbitrary: a) (simp_all add: stop_timeline_in)

lemma manager_removed_in:
  assumes a: "app_in D S a"
  shows "app_in D S (manager_removed env a)"
proof -
  let ?D = "fmdom (ap_tasks a)"
  have "app_in ?D S (a\<lparr>ap_manager := False\<rparr>)" using a by (simp add: app_in_def app_ok_def)
  then have "app_in ?D S (fold (stop_timeline env) (task_objects a) (a\<lparr>ap_manager := False\<rparr>))"
    by (rule stop_timelines_in [rotated]) (simp add: task_objects_def)
  moreover have "D |\<subseteq>| ?D" using a by (simp add: app_in_def)
  ultimately show ?thesis using a app_in_weaken [of ?D S _ D S] by (simp add: manager_removed_def)
qed

subsection \<open>The endpoint\<close>

lemma win_new_ok [simp]: "win_ok (win_new package surface manager)"
  by (simp add: win_ok_def win_new_def)

lemma app_in_new: "app_in D {||} a \<Longrightarrow> app_in D {||} (put_win i (win_new package surface manager) a)"
  by (auto simp: app_in_def app_ok_def put_win_def intro: fmpred_upd)

lemma sound_create [sound_rules]: "sound (app_in D {||}) (app_create_task env i package)"
proof (rule soundI)
  fix a
  assume a: "app_in D {||} a"
  let ?headless = "package = BOOTSTRAP_PACKAGE"
  let ?a = "put_win i (win_new package (if ?headless then None else Some (ve_surface (ae_view env))) (ap_manager a))
    (a\<lparr>ap_policy := (if ?headless then ap_policy a else snd (reload_policy (ae_policy_file env) (ap_policy a)))\<rparr>)"
  have a1: "app_in D {||} ?a" using a by (simp add: app_in_new)
  have "sound (app_in D {||}) (op_bind (on_endpoint (send_format_feedback (ae_host env) i 1 formats)) (\<lambda>_ a2.
      if \<not> ?headless then (Inr (), a2)
      else case ae_canvas env of
        None \<Rightarrow> (Inl (PeConfiguration ''Wayland output has no current pixel mode''), a2)
      | Some (width, height) \<Rightarrow>
          configure_task env i \<lparr>rc_width = width, rc_height = height,
            rc_scale_120 = FRACTIONAL_SCALE_DENOMINATOR, rc_remember = False\<rparr> a2))" for formats
    by (intro sound_rules soundI) (auto simp: soundA [OF sound_configure] split: option.split)
  from soundA [OF this a1] show "app_in D {||} (snd (app_create_task env i package a))
      \<and> no_panic (fst (app_create_task env i package a))"
    using a1 published_formats_no_panic [of ?a]
    by (cases "published_formats ?a") (simp_all add: app_create_task_def Let_def)
qed

lemma sound_action [sound_rules]: "sound (app_in D {||}) (process_action env action)"
  by (cases action) (auto intro!: sound_rules win_rules on_win_update)

lemma disconnect_ok: "app_ok a \<Longrightarrow> app_ok (disconnect_endpoint env a)"
proof -
  assume "app_ok a"
  then have "app_ok (a\<lparr>ap_endpoint := None\<rparr>)" by (simp add: app_ok_def)
  then show ?thesis
    using keeps_fold [of app_ok "remove_task env" "task_objects a"]
    by (simp add: disconnect_endpoint_def keeps_def remove_ok)
qed

lemma sound_drain_once: "sound app_ok (drain_endpoint_once env)"
proof (rule soundI)
  fix a
  assume a: "app_ok a"
  have act: "sound app_ok (op_bind (process_action env action) (\<lambda>_. op_return True))" for action
    using sound_action [of "{||}"] by (intro sound_bind sound_return) (simp add: sound_def)
  have set: "app_ok (a\<lparr>ap_endpoint := e\<rparr>)" for e using a by (simp add: app_ok_def)
  show "app_ok (snd (drain_endpoint_once env a)) \<and> no_panic (fst (drain_endpoint_once env a))"
    using a set disconnect_ok [OF set] soundA [OF act set]
    by (auto simp: drain_endpoint_once_def Let_def split: option.split prod.split sum.split)
qed

lemma sound_drain: "sound app_ok (drain_endpoint envs)"
proof (induction envs)
  case (Cons env envs)
  then show ?case
    unfolding drain_endpoint.simps by (intro sound_bind sound_drain_once sound_if sound_return)
qed (simp add: sound_def)

lemma sound_accept: "sound (app_in D S) (accept_endpoint activation (listener_accept expected accepted credentials) nb)"
proof (rule soundI)
  fix a
  assume a: "app_in D S a"
  have "e = ep_new" if "listener_accept expected accepted credentials = Inr e" for e
    using that by (auto simp: listener_accept_def bind_result_Inr_iff split: if_splits)
  then show "app_in D S (snd (accept_endpoint activation (listener_accept expected accepted credentials) nb a))
      \<and> no_panic (fst (accept_endpoint activation (listener_accept expected accepted credentials) nb a))"
    using a
    by (auto simp: accept_endpoint_def Let_def with_activation_requests_def with_direct_input_def
        with_lazy_render_targets_def ep_new_def split: sum.split listener_error.split ipc_error.split)
qed

end
