(* ===== verification/Stream_Safety.thy ===== *)
theory Stream_Safety
  imports Presenter_Safety
begin

section \<open>Layer streams of a running presenter\<close>

text \<open>
  The operations that take a stream out of its window, work on it and on the presenter, and put it back
  (\<open>graphics/droidloom-wayland/src/layers.rs\<close>), and what every run of the presenter keeps.
\<close>


definition scene_ok :: "task_object_id fset \<Rightarrow> task_object_id fset \<Rightarrow> app \<times> layer_stream \<Rightarrow> bool" where
  "scene_ok D S x \<longleftrightarrow> app_in D S (fst x) \<and> st_inv (snd x)"

lemma sound_sc_stream [sound_rules]: "sound st_inv f \<Longrightarrow> sound (scene_ok D S) (sc_stream f)"
  by (auto simp: sound_def scene_ok_def sc_stream_def op_on_apply map_err_def split: sum.split)

lemma sound_sc_app [sound_rules]: "sound (app_in D S) f \<Longrightarrow> sound (scene_ok D S) (sc_app f)"
  by (auto simp: sound_def scene_ok_def sc_app_def op_on_apply map_err_def split: sum.split)

lemma finish_root_frame:
  "finish_root env root logical scene grant feedback backing (w, s) = (r, (w1, s1)) \<Longrightarrow>
   win_layers w1 = win_layers w \<and> win_surface w1 = win_surface w \<and> win_viewport w1 = win_viewport w"
  by (auto simp: finish_root_def Let_def split: if_splits option.splits sum.splits)

lemma commit_window_frame:
  assumes "commit_window env a physical scene grant (w, s) = (r, (w1, s1))"
  shows "win_layers w1 = win_layers w \<and> win_surface w1 = win_surface w \<and> win_viewport w1 = win_viewport w"
  using assms
  by (auto simp: commit_window_def Let_def split: option.splits prod.splits sum.splits dest!: finish_root_frame)

lemma commit_layers_ok:
  assumes x: "scene_ok {|i|} {|i|} (a, s)" and todo: "scene_todo s (stg_layers (st_staged s))"
    and alpha: "ap_alpha a"
  shows "scene_ok {|i|} {||} (snd (commit_layers env i physical scene grant (a, s)))
    \<and> no_panic (fst (commit_layers env i physical scene grant (a, s)))"
proof -
  have a: "app_in {|i|} {|i|} a" and inv: "st_inv s" using x by (simp_all add: scene_ok_def)
  then obtain w where hit: "fmlookup (ap_tasks a) i = Some w" and shown: "win_surface w \<noteq> None"
    by (auto simp: app_in_def)
  have ok: "win_ok w" by (rule app_in_window(1) [OF a hit])
  then have viewport: "win_viewport w" using shown by (simp add: win_ok_def)
  obtain r w1 s1 where out: "commit_window env a physical scene grant (w, s) = (r, (w1, s1))"
    by (cases "commit_window env a physical scene grant (w, s)") auto
  note inv1 = commit_window_inv [OF inv todo out alpha]
  have w1: "win_layers w1 = win_layers w" "win_surface w1 = win_surface w" "win_viewport w1 = win_viewport w"
    using commit_window_frame [OF out] by simp_all
  have "app_in {|i|} {||} (put_win i w1 a)"
    using app_in_weaken [OF app_in_same [OF a hit w1]] by blast
  then show ?thesis
    using hit out inv1 shown viewport by (simp add: commit_layers_def scene_ok_def)
qed

text \<open>
  From an admitted scene to its commit: the stream keeps its scene, and the presenter the alpha modifier,
  while the window is prepared.
\<close>

definition scene_due :: "task_object_id \<Rightarrow> app \<times> layer_stream \<Rightarrow> bool" where
  "scene_due i x \<longleftrightarrow> scene_ok {|i|} {|i|} x \<and> scene_todo (snd x) (stg_layers (st_staged (snd x))) \<and> ap_alpha (fst x)"

definition keeps_alpha :: "'a ap_op \<Rightarrow> bool" where
  "keeps_alpha f \<longleftrightarrow> (\<forall>a. ap_alpha (snd (f a)) = ap_alpha a)"

lemma keeps_alpha_rules:
  "keeps_alpha (on_win i g)" "keeps_alpha (discard_previous env i q)"
  by (auto simp: keeps_alpha_def on_win_def put_win_def discard_previous_def on_endpoint_def with_endpoint_def
      op_return_def split: option.split prod.split)

lemma android_frame_alpha [simp]: "ap_alpha (app_android_frame now a) = ap_alpha a"
  by (simp add: app_android_frame_def app_arm_timelines_def Let_def)

lemma sc_app_due:
  "sound (app_in {|i|} {|i|}) f \<Longrightarrow> keeps_alpha f \<Longrightarrow> sound (scene_due i) (sc_app f)"
  by (auto simp: sound_def scene_due_def scene_ok_def sc_app_def op_on_apply map_err_def keeps_alpha_def split: sum.split)

lemma due_ok: "scene_due i x \<Longrightarrow> scene_ok {|i|} {||} x"
  using app_in_weaken [of "{|i|}" "{|i|}" "fst x" "{|i|}" "{||}"] by (auto simp: scene_due_def scene_ok_def)

lemma op_bind_ok:
  assumes "P (snd (f x)) \<and> no_panic (fst (f x))"
    and "\<And>y s. f x = (Inr y, s) \<Longrightarrow> Q (snd (g y s)) \<and> no_panic (fst (g y s))" and "\<And>s. P s \<Longrightarrow> Q s"
  shows "Q (snd (op_bind f g x)) \<and> no_panic (fst (op_bind f g x))"
  using assms by (cases "f x"; cases "fst (f x)") (auto simp: op_bind_def)

lemma park_ok: "scene_due i (a, s) \<Longrightarrow> scene_ok {|i|} {||} (a, st_park c s)"
  using due_ok [of i "(a, s)"] st_inv_core [OF core_steps(3)] by (auto simp: scene_ok_def)

lemma shown_scene:
  assumes due: "scene_due i (a, s)"
  shows "scene_ok {|i|} {||} (snd (op_bind (commit_layers env i physical scene grant)
        (\<lambda>_. sc_stream (answer_commit io scene 0)) (a, s)))
    \<and> no_panic (fst (op_bind (commit_layers env i physical scene grant) (\<lambda>_. sc_stream (answer_commit io scene 0)) (a, s)))"
proof (rule op_bind_ok [where P = "scene_ok {|i|} {||}"])
  show first: "scene_ok {|i|} {||} (snd (commit_layers env i physical scene grant (a, s)))
      \<and> no_panic (fst (commit_layers env i physical scene grant (a, s)))"
    using commit_layers_ok due by (simp add: scene_due_def)
  show "scene_ok {|i|} {||} (snd (sc_stream (answer_commit io scene 0) x))
      \<and> no_panic (fst (sc_stream (answer_commit io scene 0) x))"
    if "commit_layers env i physical scene grant (a, s) = (Inr u, x)" for u x
    using first that by (intro soundA [OF sound_sc_stream [OF sound_answers(2)]]) simp
qed

lemma granted_scene:
  assumes due: "scene_due i (a, s)"
  shows "scene_ok {|i|} {||} (snd (op_bind (sc_app (on_win i (reserve_grant now))) (\<lambda>reserved. case reserved of
          None \<Rightarrow> (\<lambda>(a1, s1). (Inr (), (a1, st_park c s1)))
        | Some grant \<Rightarrow> op_bind (\<lambda>(a1, s1). (Inr (), (app_android_frame now a1, s1))) (\<lambda>_.
            op_bind (commit_layers env i physical scene grant) (\<lambda>_. sc_stream (answer_commit io scene 0)))) (a, s)))
    \<and> no_panic (fst (op_bind (sc_app (on_win i (reserve_grant now))) (\<lambda>reserved. case reserved of
          None \<Rightarrow> (\<lambda>(a1, s1). (Inr (), (a1, st_park c s1)))
        | Some grant \<Rightarrow> op_bind (\<lambda>(a1, s1). (Inr (), (app_android_frame now a1, s1))) (\<lambda>_.
            op_bind (commit_layers env i physical scene grant) (\<lambda>_. sc_stream (answer_commit io scene 0)))) (a, s)))"
proof (rule op_bind_ok [where P = "scene_due i"])
  show first: "scene_due i (snd (sc_app (on_win i (reserve_grant now)) (a, s)))
      \<and> no_panic (fst (sc_app (on_win i (reserve_grant now)) (a, s)))"
    by (rule soundA [OF sc_app_due [OF sound_on_win [OF window_ops_sound(3)] keeps_alpha_rules(1)] due])
  show "scene_ok {|i|} {||} x" if "scene_due i x" for x by (rule due_ok [OF that])
  fix reserved x
  assume "sc_app (on_win i (reserve_grant now)) (a, s) = (Inr reserved, x)"
  then obtain a1 s1 where x: "x = (a1, s1)" and due1: "scene_due i (a1, s1)"
    using first by (cases x) simp
  have due2: "scene_due i (app_android_frame now a1, s1)"
    using due1 android_frame_in by (simp add: scene_due_def scene_ok_def)
  show "scene_ok {|i|} {||} (snd ((case reserved of None \<Rightarrow> (\<lambda>(a1, s1). (Inr (), (a1, st_park c s1)))
        | Some grant \<Rightarrow> op_bind (\<lambda>(a1, s1). (Inr (), (app_android_frame now a1, s1))) (\<lambda>_.
            op_bind (commit_layers env i physical scene grant) (\<lambda>_. sc_stream (answer_commit io scene 0)))) x))
    \<and> no_panic (fst ((case reserved of None \<Rightarrow> (\<lambda>(a1, s1). (Inr (), (a1, st_park c s1)))
        | Some grant \<Rightarrow> op_bind (\<lambda>(a1, s1). (Inr (), (app_android_frame now a1, s1))) (\<lambda>_.
            op_bind (commit_layers env i physical scene grant) (\<lambda>_. sc_stream (answer_commit io scene 0)))) x))"
    using x park_ok [OF due1] shown_scene [OF due2] by (cases reserved) simp_all
qed

lemma submit_ready_ok:
  assumes due: "scene_due i (a, s)"
  shows "scene_ok {|i|} {||} (snd (submit_ready env i c (a, s))) \<and> no_panic (fst (submit_ready env i c (a, s)))"
proof -
  let ?rest = "\<lambda>_ (a, s). case fmlookup (ap_tasks a) i of
       None \<Rightarrow> (Inl (PePanic ''unwrap''), (a, s))
     | Some w \<Rightarrow>
         if ft_exact (win_timeline w) \<and> MAX_SCENE_FEEDBACK \<le> length (win_scene_feedback w)
         then (Inr (), (a, st_park c s))
         else
           op_bind (op_lift (map_err PeIo (ae_now (sn_app env)))) (\<lambda>now.
           op_bind (sc_app (on_win i (reserve_grant now))) (\<lambda>reserved.
           case reserved of
             None \<Rightarrow> (\<lambda>(a1, s1). (Inr (), (a1, st_park c s1)))
           | Some grant \<Rightarrow>
               op_bind (\<lambda>(a1, s1). (Inr (), (app_android_frame now a1, s1))) (\<lambda>_.
               op_bind (commit_layers env i (pc_width c, pc_height c) (pc_scene c) grant) (\<lambda>_.
               sc_stream (answer_commit (ae_io (sn_app env)) (pc_scene c) 0))))) (a, s)"
  have tail: "scene_ok {|i|} {||} (snd (?rest () x)) \<and> no_panic (fst (?rest () x))" if "scene_due i x" for x
  proof -
    obtain a1 s1 where x: "x = (a1, s1)" by (cases x)
    have d: "scene_due i (a1, s1)" using that x by simp
    then have "app_in {|i|} {|i|} a1" by (simp add: scene_due_def scene_ok_def)
    then obtain w where "fmlookup (ap_tasks a1) i = Some w" using app_in_dom by fastforce
    then show ?thesis
      using x park_ok [OF d, of c] granted_scene [OF d] due_ok [OF d]
      by (cases "ae_now (sn_app env)") simp_all
  qed
  have "sound (scene_due i) (op_bind (sc_app (on_win i take_queued)) (\<lambda>queued.
      sc_app (discard_previous (sn_app env) i queued)))"
    by (intro sound_bind sc_app_due keeps_alpha_rules sound_rules win_rules)
  note pre = soundA [OF this due]
  have eq: "submit_ready env i c = op_bind (op_bind (sc_app (on_win i take_queued)) (\<lambda>queued.
      sc_app (discard_previous (sn_app env) i queued))) ?rest"
    unfolding submit_ready_def by (rule ext) (auto simp: op_bind_def split: prod.split sum.split)
  show ?thesis
    unfolding eq
  proof (rule op_bind_ok [where P = "scene_due i"])
    show "scene_due i (snd (op_bind (sc_app (on_win i take_queued)) (\<lambda>queued.
        sc_app (discard_previous (sn_app env) i queued)) (a, s)))
      \<and> no_panic (fst (op_bind (sc_app (on_win i take_queued)) (\<lambda>queued.
        sc_app (discard_previous (sn_app env) i queued)) (a, s)))" by (rule pre)
    fix u x
    assume out: "op_bind (sc_app (on_win i take_queued)) (\<lambda>queued.
      sc_app (discard_previous (sn_app env) i queued)) (a, s) = (Inr u, x)"
    have "scene_due i x" using pre unfolding out by simp
    from tail [OF this] show "scene_ok {|i|} {||} (snd (?rest u x)) \<and> no_panic (fst (?rest u x))" .
  qed (rule due_ok)
qed

lemma submit_scene_ok:
  assumes x: "scene_ok {|i|} {||} (a, s)"
  shows "scene_ok {|i|} {||} (snd (submit_layer_scene env i c (a, s)))
    \<and> no_panic (fst (submit_layer_scene env i c (a, s)))"
proof -
  have a: "app_in {|i|} {||} a" and inv: "st_inv s" using x by (simp_all add: scene_ok_def)
  obtain w where hit: "fmlookup (ap_tasks a) i = Some w" using app_in_dom [OF a] by auto
  have park: "scene_ok {|i|} {||} (a, st_park c s)" and clear: "scene_ok {|i|} {||} (a, clear_staged s)"
    using a inv st_inv_core [OF core_steps(3)] st_inv_core [OF core_steps(2)] by (auto simp: scene_ok_def)
  show ?thesis
  proof (cases "scene_status_of a w s c = SceneReady")
    case True
    have "win_surface w \<noteq> None"
      using scene_ready_todo(2) [OF inv True] by (simp add: accepts_present_def)
    then have "app_in {|i|} {|i|} a" using a hit by (auto simp: app_in_def)
    moreover have "ap_alpha a" using True by (simp add: scene_status_of_def split: if_splits)
    ultimately have "scene_due i (a, s)"
      using scene_ready_todo(1) [OF inv True] inv by (simp add: scene_due_def scene_ok_def)
    from submit_ready_ok [OF this] show ?thesis
      using hit True by (simp add: submit_layer_scene_def Let_def)
  next
    case False
    note refuse = soundA [OF sound_sc_stream [OF sound_answers(2)] clear, of "ae_io (sn_app env)" "pc_scene c" "- 95"]
    show ?thesis
      using hit False park refuse by (auto simp: submit_layer_scene_def Let_def)
  qed
qed

fun is_register :: "layer_request \<Rightarrow> bool" where
  "is_register (LrRegister b) = True"
| "is_register (LrRegisterAsync attempt b) = True"
| "is_register _ = False"

lemma new_lane_no_panic: "new_lane env = Inl e \<Longrightarrow> \<not> internal_error e"
  using new_lane_ok(1) [of env, OF refl] by simp

lemma register_ok:
  assumes x: "scene_ok D S (a, s)" and free: "\<not> im_blocked (st_imports s)"
  shows "scene_ok D S (snd (layer_register env attempt b (a, s))) \<and> no_panic (fst (layer_register env attempt b (a, s)))"
proof -
  have a: "app_in D S a" and inv: "st_inv s" using x by (simp_all add: scene_ok_def)
  let ?refused = "(lb_fourcc b, lb_modifier b) \<notin> set (case ap_formats a of None \<Rightarrow> [] | Some fs \<Rightarrow> fs)
    \<or> MAX_BUFFERS \<le> fmlen (st_buffers s) \<or> lb_id b |\<in>| fmdom (st_buffers s) \<or> im_full (st_imports s)"
  note refuse = soundA [OF sound_sc_stream [OF sound_answers(3)] x]
  show ?thesis
  proof (cases ?refused)
    case True
    then show ?thesis using refuse by (auto simp: layer_register_def Let_def)
  next
    case False
    show ?thesis
    proof (cases "new_lane (sn_views env 0)")
      case (Inl e)
      then show ?thesis
        using False x new_lane_no_panic [OF Inl] by (auto simp: layer_register_def Let_def)
    next
      case (Inr ln)
      let ?src = "\<lparr>sr_metadata = b, sr_buffer = None, sr_lanes = [ln], sr_ticket = None\<rparr>"
      let ?p = "\<lparr>ip_buffer = lb_id b, ip_attempt = attempt, ip_params = ae_buffer (sn_app env)\<rparr>"
      have lane: "lane_ok ln" by (rule new_lane_ok(2) [OF Inr refl])
      have reg: "st_inv ((put_source (lb_id b) ?src s)\<lparr>st_imports := st_imports s @ [?p]\<rparr>)"
        "\<not> im_contains (lb_id b) (st_imports s)"
        using st_inv_registered [OF inv, where ident = "lb_id b" and src = ?src and p = ?p] False lane by simp_all
      have "im_insert ?p (st_imports (put_source (lb_id b) ?src s)) = (True, st_imports s @ [?p])"
        using False free reg(2) by (simp add: im_insert_def put_source_def)
      then show ?thesis
        using False Inr x reg(1) a by (auto simp: layer_register_def Let_def scene_ok_def)
    qed
  qed
qed


lemma layer_stage_core: "layer_stage l fds s = (accepted, s1) \<Longrightarrow> same_core s s1"
  by (auto simp: layer_stage_def same_core_def split: prod.splits)

lemma sound_require_config [sound_rules]: "sound (scene_ok D S) (require_config i)"
  by (rule soundI) (auto simp: require_config_def ok_or_def split: option.split)

lemma layer_handle_ok:
  assumes x: "scene_ok {|i|} {||} (a, s)" and free: "is_register request \<longrightarrow> \<not> im_blocked (st_imports s)"
  shows "scene_ok {|i|} {||} (snd (layer_handle env i fds request (a, s)))
    \<and> no_panic (fst (layer_handle env i fds request (a, s)))"
proof -
  have core: "scene_ok {|i|} {||} (a, s1)" if "same_core s s1" for s1
    using x st_inv_core [OF that] by (simp add: scene_ok_def)
  have stream: "scene_ok {|i|} {||} (snd (sc_stream f (a, s1))) \<and> no_panic (fst (sc_stream f (a, s1)))"
    if "sound st_inv f" "same_core s s1" for f :: "unit st_op" and s1
    by (rule soundA [OF sound_sc_stream [OF that(1)] core [OF that(2)]])
  show ?thesis
  proof (cases request)
    case (LrStage l)
    obtain accepted s1 where out: "layer_stage l fds s = (accepted, s1)" by (cases "layer_stage l fds s")
    then show ?thesis
      using LrStage stream [OF sound_answers(1) layer_stage_core [OF out]] by simp
  next
    case (LrStageAsync l)
    obtain accepted s1 where out: "layer_stage l fds s = (accepted, s1)" by (cases "layer_stage l fds s")
    then show ?thesis
      using LrStageAsync core [OF layer_stage_core [OF out]] by simp
  next
    case LrSubscribeConfig
    have "sound (scene_ok {|i|} {||}) (layer_handle env i fds LrSubscribeConfig)"
      unfolding layer_handle.simps
      by (intro sound_bind sound_require_config sound_sc_stream sound_on_config sound_answers)
    from soundA [OF this x] show ?thesis unfolding LrSubscribeConfig .
  next
    case LrConfig
    have "sound (scene_ok {|i|} {||}) (layer_handle env i fds LrConfig)"
      unfolding layer_handle.simps
      by (intro sound_bind sound_require_config sound_sc_stream sound_on_config sound_answers)
    from soundA [OF this x] show ?thesis unfolding LrConfig .
  next
    case (LrRegister b)
    then show ?thesis using register_ok [OF x] free by simp
  next
    case (LrRegisterAsync attempt b)
    then show ?thesis using register_ok [OF x] free by simp
  next
    case (LrUnregister ident)
    show ?thesis unfolding LrUnregister layer_handle.simps by (rule stream [OF sound_layer_unregister same_core_refl])
  next
    case LrAbort
    show ?thesis unfolding LrAbort layer_handle.simps by (rule stream [OF sound_layer_abort same_core_refl])
  next
    case (LrStageBatch layers)
    show ?thesis unfolding LrStageBatch layer_handle.simps using core [OF core_steps(5)] by simp
  next
    case (LrCommitBatch scene serial width height n layers)
    show ?thesis unfolding LrCommitBatch layer_handle.simps prod.case
      by (rule submit_scene_ok [OF core [OF core_steps(5)]])
  next
    case (LrCommit serial width height n)
    show ?thesis unfolding LrCommit layer_handle.simps by (rule submit_scene_ok [OF x])
  next
    case (LrCommitAsync scene serial width height n)
    show ?thesis unfolding LrCommitAsync layer_handle.simps by (rule submit_scene_ok [OF x])
  qed
qed

lemma layer_guard_imports: "st_imports (snd (layer_guard request s)) = st_imports s"
  by (auto simp: layer_guard_def Let_def split: option.split)

lemma layer_request_ok:
  assumes x: "scene_ok {|i|} {||} (a, s)" and free: "is_register request \<longrightarrow> \<not> im_blocked (st_imports s)"
  shows "scene_ok {|i|} {||} (snd (layer_request_op env i request fds (a, s)))
    \<and> no_panic (fst (layer_request_op env i request fds (a, s)))"
  unfolding layer_request_op_def
proof (rule op_bind_ok [where P = "scene_ok {|i|} {||}"])
  show first: "scene_ok {|i|} {||} (snd (sc_stream (layer_guard request) (a, s)))
      \<and> no_panic (fst (sc_stream (layer_guard request) (a, s)))"
    by (rule soundA [OF sound_sc_stream [OF sound_layer_guard] x])
  fix u x1
  assume out: "sc_stream (layer_guard request) (a, s) = (Inr u, x1)"
  obtain a1 s1 where x1: "x1 = (a1, s1)" by (cases x1)
  have "st_imports s1 = st_imports s"
    using out x1 layer_guard_imports [of request s] by (auto simp: sc_stream_def op_on_apply)
  then show "scene_ok {|i|} {||} (snd (layer_handle env i fds request x1))
      \<and> no_panic (fst (layer_handle env i fds request x1))"
    using layer_handle_ok [of i a1 s1] first free unfolding out x1 by simp
qed

subsection \<open>Streams in and out of their windows\<close>

lemma take_stream:
  assumes a: "app_ok a" and hit: "fmlookup (ap_tasks a) i = Some w" and s: "win_layers w = Some s"
  shows "scene_ok {|i|} {||} (put_win i (w\<lparr>win_layers := None\<rparr>) a, s)"
proof -
  have ok: "win_ok w" by (rule app_okD [OF a hit])
  have "app_in {|i|} {||} a" using a hit by (auto simp: app_in_def fmdomI)
  then have "app_in {|i|} {||} (put_win i (w\<lparr>win_layers := None\<rparr>) a)"
    using ok by (intro app_in_put [OF _ hit]) (auto simp: win_ok_def)
  then show ?thesis using ok s by (simp add: scene_ok_def win_ok_def)
qed

lemma put_stream_ok:
  assumes "scene_ok {|i|} {||} (a, s)" and "no_panic r"
  shows "app_ok (snd (put_stream i s a r)) \<and> no_panic (fst (put_stream i s a r))"
proof -
  have a: "app_in {|i|} {||} a" and inv: "st_inv s" using assms(1) by (simp_all add: scene_ok_def)
  obtain w where hit: "fmlookup (ap_tasks a) i = Some w" using app_in_dom [OF a] by auto
  have "win_ok w" by (rule app_in_window(1) [OF a hit])
  then have "app_in {|i|} {||} (put_win i (w\<lparr>win_layers := Some s\<rparr>) a)"
    by (intro app_in_put [OF a hit] win_layers_ok inv) simp_all
  then show ?thesis using hit assms(2) app_in_ok by (simp add: put_stream_def)
qed

lemma with_stream_ok:
  assumes a: "app_ok a"
    and f: "\<And>w s a1. fmlookup (ap_tasks a) i = Some w \<Longrightarrow> win_layers w = Some s \<Longrightarrow> scene_ok {|i|} {||} (a1, s) \<Longrightarrow>
      scene_ok {|i|} {||} (snd (f (a1, s))) \<and> no_panic (fst (f (a1, s)))"
  shows "app_ok (snd (with_stream i f a)) \<and> no_panic (fst (with_stream i f a))"
proof (cases "fmlookup (ap_tasks a) i")
  case hit: (Some w)
  show ?thesis
  proof (cases "win_layers w")
    case s: (Some s)
    let ?a = "put_win i (w\<lparr>win_layers := None\<rparr>) a"
    obtain r a1 s1 where out: "f (?a, s) = (r, (a1, s1))" by (cases "f (?a, s)") auto
    have "scene_ok {|i|} {||} (a1, s1)" "no_panic r"
      using f [OF hit s take_stream [OF a hit s]] unfolding out by simp_all
    then show ?thesis using put_stream_ok hit s out by (simp add: with_stream_def)
  qed (simp add: with_stream_def hit a)
qed (simp add: with_stream_def a)

lemma sound_releases: "sound app_ok (drain_releases env k i)"
proof (rule soundI)
  fix a
  assume a: "app_ok a"
  show "app_ok (snd (drain_releases env k i a)) \<and> no_panic (fst (drain_releases env k i a))"
  proof (cases "fmlookup (ap_tasks a) i")
    case hit: (Some w)
    show ?thesis
    proof (cases "win_layers w")
      case s: (Some s)
      let ?a = "put_win i (w\<lparr>win_layers := None\<rparr>) a"
      have x: "scene_ok {|i|} {||} (?a, s)" by (rule take_stream [OF a hit s])
      obtain r s1 where out: "stream_release (ae_io (sn_app env)) k s = (r, s1)"
        by (cases "stream_release (ae_io (sn_app env)) k s")
      have inv: "st_inv s1" and np: "no_panic r"
        using soundD [OF sound_stream_release _ out] x by (simp_all add: scene_ok_def)
      have core: "same_core s1 (s1\<lparr>st_waiting := None\<rparr>)" by (rule core_steps(7))
      have x1: "scene_ok {|i|} {||} (?a, s1)" "scene_ok {|i|} {||} (?a, s1\<lparr>st_waiting := None\<rparr>)"
        using x inv st_inv_core [OF core] by (auto simp: scene_ok_def)
      show ?thesis
      proof (cases r)
        case (Inl e)
        have "app_ok ?a" using x app_in_ok by (auto simp: scene_ok_def)
        then show ?thesis using Inl hit s out np by (simp add: drain_releases_def Let_def)
      next
        case (Inr u)
        show ?thesis
        proof (cases "st_waiting s1")
          case None
          then show ?thesis
            using hit s out Inr put_stream_ok [OF x1(1)] by (simp add: drain_releases_def Let_def)
        next
          case (Some c)
          obtain r2 a2 s2 where sub: "submit_layer_scene env i c (?a, s1\<lparr>st_waiting := None\<rparr>) = (r2, (a2, s2))"
            by (cases "submit_layer_scene env i c (?a, s1\<lparr>st_waiting := None\<rparr>)") auto
          have "scene_ok {|i|} {||} (a2, s2)" "no_panic r2"
            using submit_scene_ok [OF x1(2), of env c] unfolding sub by simp_all
          then show ?thesis
            using hit s out Inr Some sub put_stream_ok by (simp add: drain_releases_def Let_def)
        qed
      qed
    qed (simp add: drain_releases_def hit a)
  qed (simp add: drain_releases_def a)
qed

lemma sound_turn: "sound app_ok (layer_turn env envs i inp)"
proof (rule soundI)
  fix a
  assume a: "app_ok a"
  show "app_ok (snd (layer_turn env envs i inp a)) \<and> no_panic (fst (layer_turn env envs i inp a))"
  proof (cases "fmlookup (ap_tasks a) i")
    case hit: (Some w)
    show ?thesis
    proof (cases "win_layers w")
      case s: (Some s)
      have ok: "win_ok w" and inv: "st_inv s" using app_okD [OF a hit] s by (simp_all add: win_ok_def)
      have "win_ok (close_stream w s)"
        using ok inv by (simp add: close_stream_def win_layers_ok st_inv_core [OF core_steps(19)])
      then have closed: "app_ok (put_win i (close_stream w s) a)"
        using app_in_put [of "{||}" "{||}"] a hit by simp
      have req: "app_ok (snd (with_stream i (layer_request_op env i request fds) a1))
          \<and> no_panic (fst (with_stream i (layer_request_op env i request fds) a1))"
        if "app_ok a1" "is_register request \<longrightarrow> a1 = a" "\<not> im_blocked (st_imports s)" for request fds a1
        using that hit s by (intro with_stream_ok layer_request_ok) auto
      have barrier: "is_barrier request \<Longrightarrow> \<not> is_register request" for request by (cases request) simp_all
      have "app_ok (snd (op_bind (drain_endpoint envs) (\<lambda>_. with_stream i (layer_request_op env i request fds)) a))
          \<and> no_panic (fst (op_bind (drain_endpoint envs) (\<lambda>_. with_stream i (layer_request_op env i request fds)) a))"
        if "is_barrier request" "\<not> im_blocked (st_imports s)" for request fds
      proof (rule op_bind_ok [where P = app_ok])
        show first: "app_ok (snd (drain_endpoint envs a)) \<and> no_panic (fst (drain_endpoint envs a))"
          by (rule soundA [OF sound_drain a])
        show "app_ok (snd (with_stream i (layer_request_op env i request fds) a1))
            \<and> no_panic (fst (with_stream i (layer_request_op env i request fds) a1))"
          if "drain_endpoint envs a = (Inr u, a1)" for u a1
          using req [of a1 request fds] first that barrier \<open>is_barrier request\<close> \<open>\<not> im_blocked (st_imports s)\<close> by simp
      qed
      then show ?thesis
        using hit s a closed req [OF a] by (cases inp) (simp_all add: layer_turn_def)
    qed (simp add: layer_turn_def hit a)
  qed (simp add: layer_turn_def a)
qed

lemma sound_publish_layer_config: "sound (scene_ok D S) (publish_layer_config env i)"
proof (rule soundI)
  fix x :: "app \<times> layer_stream"
  assume x: "scene_ok D S x"
  let ?tell = "\<lambda>config. op_bind (sc_stream (on_config (cf_update config))) (\<lambda>words.
      case words of None \<Rightarrow> op_return () | Some ws \<Rightarrow> sc_stream (send_event (ae_io (sn_app env)) (EvConfig ws)))"
  have "sound (scene_ok D S) (case words of None \<Rightarrow> op_return ()
      | Some ws \<Rightarrow> sc_stream (send_event (ae_io (sn_app env)) (EvConfig ws)))" for words
    by (cases words) (auto intro!: sound_return sound_sc_stream sound_send_event)
  then have "sound (scene_ok D S) (?tell config)" for config
    by (intro sound_bind sound_sc_stream sound_on_config)
  from soundA [OF this x]
  show "scene_ok D S (snd (publish_layer_config env i x)) \<and> no_panic (fst (publish_layer_config env i x))"
    using x by (cases x) (auto simp: publish_layer_config_def split: option.split)
qed

lemma sound_publish: "sound app_ok (publish_config_turn env i)"
proof (rule soundI)
  fix a
  assume a: "app_ok a"
  show "app_ok (snd (publish_config_turn env i a)) \<and> no_panic (fst (publish_config_turn env i a))"
  proof (cases "fmlookup (ap_tasks a) i")
    case hit: (Some w)
    show ?thesis
    proof (cases "win_layers w")
      case s: (Some s)
      have ok: "win_ok w" and inv: "st_inv s" using app_okD [OF a hit] s by (simp_all add: win_ok_def)
      obtain r a1 s1 where out: "publish_layer_config env i (a, s) = (r, (a1, s1))"
        by (cases "publish_layer_config env i (a, s)") auto
      have "scene_ok {||} {||} (a, s)" using a inv by (simp add: scene_ok_def)
      from soundD [OF sound_publish_layer_config this out] have "st_inv s1" "no_panic r" by (simp_all add: scene_ok_def)
      then have "app_in {||} {||} (put_win i (w\<lparr>win_layers := Some s1\<rparr>) a)"
        using a ok by (intro app_in_put [OF _ hit] win_layers_ok) simp_all
      then show ?thesis using hit s out \<open>no_panic r\<close> by (simp add: publish_config_turn_def)
    qed (simp add: publish_config_turn_def hit a)
  qed (simp add: publish_config_turn_def a)
qed

lemma imported_ok: "app_ok a \<Longrightarrow> app_ok (layer_imported io params buffer objects a)"
proof (induction objects)
  case (Cons i objects)
  show ?case
  proof (cases "fmlookup (ap_tasks a) i")
    case hit: (Some w)
    show ?thesis
    proof (cases "win_layers w")
      case s: (Some s)
      have ok: "win_ok w" and inv: "st_inv s" using app_okD [OF Cons.prems hit] s by (simp_all add: win_ok_def)
      obtain r s1 where out: "import_finished io params buffer s = (r, s1)" by (cases "import_finished io params buffer s")
      have "st_inv s1" "no_panic r" using soundD [OF sound_import_finished inv out] by simp_all
      then have put: "app_in {||} {||} (put_win i (w\<lparr>win_layers := Some s1\<rparr>) a)"
        using Cons.prems ok by (intro app_in_put [OF _ hit] win_layers_ok) simp_all
      show ?thesis
        using Cons hit s out put app_in_fail [OF put] \<open>no_panic r\<close> by (cases r) (simp_all split: bool.split)
    qed (simp add: Cons hit)
  qed (simp add: Cons)
qed simp

subsection \<open>Runs\<close>

lemma keeps_ap: "(\<And>a. app_ok a \<Longrightarrow> app_ok (f a)) \<Longrightarrow> sound app_ok (ap_lift f)"
  by (simp add: sound_def ap_lift_def)

lemmas app_steps =
  request_close_in enter_in leave_in scale_in configured_in discarded_in presented_in output_in output_gone_in
  timeline_event_in clock_event_in manager_removed_in

lemmas app_ok_steps = app_steps [where D = "{||}" and S = "{||}", simplified]

lemma sound_none: "sound (app_in {||} {||}) f \<Longrightarrow> sound app_ok f"
  by (simp add: sound_def)

lemmas loop_steps =
  sound_unmap sound_drain sound_frames sound_releases sound_turn sound_publish
  sound_none [OF sound_resize] sound_none [OF sound_accept] sound_none [OF sound_refresh_timelines]
  sound_none [OF sound_flush]

lemma pa_step_sound: "sound app_ok (pa_step c)"
proof (cases c)
  case (PaClock clock)
  then show ?thesis by (auto intro!: keeps_ap simp: app_ok_def)
next
  case (PaFormats formats)
  then show ?thesis by (auto intro!: keeps_ap simp: app_ok_def)
qed (simp_all add: keeps_ap imported_ok app_ok_steps loop_steps)

lemma pa_run_sound: "sound app_ok (pa_run calls)"
  unfolding pa_run_def by (rule sound_each [OF pa_step_sound])

lemma app_new_ok: "app_ok (app_new manager alpha policy)"
  by (simp add: app_new_def app_ok_def)

definition on_streams :: "(layer_stream \<Rightarrow> bool) \<Rightarrow> app \<Rightarrow> bool" where
  "on_streams P a \<longleftrightarrow> fmpred (\<lambda>_ w. case win_layers w of None \<Rightarrow> True | Some s \<Rightarrow> P s) (ap_tasks a)"

lemma on_streamsI: "app_ok a \<Longrightarrow> (\<And>s. st_inv s \<Longrightarrow> P s) \<Longrightarrow> on_streams P a"
  by (auto simp: on_streams_def app_ok_def win_ok_def intro!: fmpredI dest: fmpredD split: option.split)

lemma run_ok: "app_ok (snd (pa_run calls (app_new manager alpha policy)))"
  using soundA [OF pa_run_sound app_new_ok] by simp

text \<open>
  C6.  The presenter never fails on its own bookkeeping: whatever the sockets, the kernel, the
  compositor and the peers answer, over any sequence of calls of the main loop and of callbacks, every
  lookup that the modelled code takes with \<open>unwrap\<close>, \<open>expect\<close> or an index of the task map finds its entry:
  the task of a surface, of a scene, of a timeline event and of a stream, also after an abort or a
  refresh in between, the target of a frame, the endpoint while published targets are undone, the
  source and the lane of a read, a removed view, the toplevel, its viewport and the alpha modifier of an
  admitted scene, the queued frame; and the import asserted to be new is new.  This holds in the call
  that ends the run and in a callback that records its error.  A value looked at twice within one
  function and the report on a stalled stream are outside the statement.
\<close>

theorem presenter_never_panics:
  "let (r, a) = pa_run calls (app_new manager alpha policy)
   in no_panic r \<and> no_panic (case ap_fatal a of None \<Rightarrow> Inr () | Some e \<Rightarrow> Inl e)"
proof -
  obtain r a where out: "pa_run calls (app_new manager alpha policy) = (r, a)" by (cases "pa_run calls (app_new manager alpha policy)")
  have "app_ok a \<and> no_panic r" by (rule soundD [OF pa_run_sound app_new_ok out])
  then show ?thesis using out by (simp add: app_ok_def split: option.split)
qed

text \<open>
  C8.  In every layer stream of a running presenter each outstanding read still has its imported
  allocation and the lane it reads through, and its release point is the last one of that lane; the
  points last attached, signalled and exported on every lane never pass its counter; an import in progress belongs
  to a registered allocation that is not imported yet; and at most 128 allocations and 16 imports exist.
\<close>

theorem layer_reads_backed:
  "on_streams (\<lambda>s. list_all (read_ok (st_buffers s)) (st_reads s)
      \<and> fmpred (\<lambda>_ src. list_all lane_ok (sr_lanes src)) (st_buffers s)
      \<and> distinct (map ip_buffer (st_imports s))
      \<and> list_all (\<lambda>p. map_option sr_buffer (fmlookup (st_buffers s) (ip_buffer p)) = Some None) (st_imports s)
      \<and> fmlen (st_buffers s) \<le> MAX_BUFFERS \<and> length (st_imports s) \<le> MAX_IMPORTS)
     (snd (pa_run calls (app_new manager alpha policy)))"
proof (rule on_streamsI [OF run_ok])
  fix s
  assume inv: "st_inv s"
  have "fmpred (\<lambda>_ src. list_all lane_ok (sr_lanes src)) (st_buffers s)"
    using st_invD(2) [OF inv] by (auto simp: source_ok_def intro!: fmpredI)
  then show "list_all (read_ok (st_buffers s)) (st_reads s)
      \<and> fmpred (\<lambda>_ src. list_all lane_ok (sr_lanes src)) (st_buffers s)
      \<and> distinct (map ip_buffer (st_imports s))
      \<and> list_all (\<lambda>p. map_option sr_buffer (fmlookup (st_buffers s) (ip_buffer p)) = Some None) (st_imports s)
      \<and> fmlen (st_buffers s) \<le> MAX_BUFFERS \<and> length (st_imports s) \<le> MAX_IMPORTS"
    using st_invD(1,4) [OF inv] by (auto simp: list_all_iff imports_ok_def)
qed

text \<open>
  C7.  A ticket of a layer stream is answered at most once, and never while a read still carries it:
  over any run of the presenter the completions sent on a stream are distinct, no outstanding read has a
  completed ticket or shares one with another read, and none is past the last ticket given out.
\<close>

theorem layer_tickets_answered_once:
  "on_streams (\<lambda>s. distinct (completed (st_events s)) \<and> distinct (map lrd_ticket (st_reads s))
      \<and> set (map lrd_ticket (st_reads s)) \<inter> set (completed (st_events s)) = {}
      \<and> list_all (\<lambda>t. t \<le> st_last_ticket s) (completed (st_events s) @ map lrd_ticket (st_reads s)))
     (snd (pa_run calls (app_new manager alpha policy)))"
proof (rule on_streamsI [OF run_ok])
  fix s
  assume "st_inv s"
  then have "tickets_ok s" by (rule st_invD(3))
  then show "distinct (completed (st_events s)) \<and> distinct (map lrd_ticket (st_reads s))
      \<and> set (map lrd_ticket (st_reads s)) \<inter> set (completed (st_events s)) = {}
      \<and> list_all (\<lambda>t. t \<le> st_last_ticket s) (completed (st_events s) @ map lrd_ticket (st_reads s))"
    by (simp add: tickets_ok_def tickets_def list_all_iff ball_Un)
qed

end
