(* ===== verification/Power_Hints.thy ===== *)
theory Power_Hints
  imports Prelude
begin

section \<open>Performance hints as utilization floors\<close>

text \<open>
  \<open>android/power/droidloom-power/src/lib.rs\<close>: Android's hint sessions name threads and report how long
  their work took; the \<open>Controller\<close> turns the reports into \<open>sched_util_min\<close> floors of those threads.
  The \<open>Actuator\<close>, which makes the system calls, is the argument \<open>power_env\<close>: what the kernel answers to
  the n-th attempt to set a floor, and the driver threads it finds.  \<open>ct_log\<close> records every attempt with
  its answer; the source has no such field.  An \<open>Instant\<close> is a number of nanoseconds.  The text
  dump for diagnostics is not modelled.  Shown: after every call the kernel's floor of every thread is
  what the sessions ask for, unless the last attempt to set it failed, and all floors stay within the
  bounds of the policy.
\<close>

subsection \<open>Policy\<close>

type_synonym i64 = "64 word" \<comment> \<open>read with \<open>sint\<close>\<close>
type_synonym thread_id = i32

definition UTIL_MAX :: u32 where "UTIL_MAX = 1024"
definition MIN_RAISE :: u32 where "MIN_RAISE = 16"
definition MAX_RAISE :: u32 where "MAX_RAISE = 256"
definition DECAY :: u32 where "DECAY = 4"
definition HINT_STEP :: u32 where "HINT_STEP = 128"
definition QUANTUM :: u32 where "QUANTUM = 16"
definition STALE_PERIODS :: int where "STALE_PERIODS = 10"
definition MIN_STALE :: int where "MIN_STALE = 100000000"
definition MAX_STALE :: int where "MAX_STALE = 2000000000"
definition RESCAN :: int where "RESCAN = 1000000000"
definition INTERACTION_HOLD :: int where "INTERACTION_HOLD = 1500000000"

record power_policy =
  pp_baseline :: u32
  pp_interaction :: u32
  pp_ceiling :: u32

text \<open>The tiers in order of first appearance, each with its number of CPUs, then sorted.\<close>

fun add_tier :: "u32 \<Rightarrow> (u32 \<times> nat) list \<Rightarrow> (u32 \<times> nat) list" where
  "add_tier capacity [] = [(capacity, 1)]"
| "add_tier capacity ((c, n) # tiers) =
     (if c = capacity then (c, n + 1) # tiers else (c, n) # add_tier capacity tiers)"

definition tiers_of :: "u32 list \<Rightarrow> (u32 \<times> nat) list" where
  "tiers_of capacities =
     sort_key fst (fold (\<lambda>c. add_tier (min c UTIL_MAX)) (filter (\<lambda>c. 0 < c) capacities) [])"

definition wide_tier :: "(u32 \<times> nat) list \<Rightarrow> u32" where
  "wide_tier tiers =
     (case find (\<lambda>t. 2 \<le> snd t) (rev tiers) of
        Some t \<Rightarrow> fst t
      | None \<Rightarrow> (if tiers = [] then UTIL_MAX else fst (List.last tiers)))"

definition policy_from_tiers :: "(u32 \<times> nat) list \<Rightarrow> power_policy" where
  "policy_from_tiers tiers =
     (let cap = wide_tier tiers * 4 div 5;
          baseline = (case tiers of
            (little, _) # _ # _ \<Rightarrow> if little < cap then min (little + UTIL_MAX div 16) cap else cap div 2
          | _ \<Rightarrow> cap div 2)
      in \<lparr>pp_baseline = baseline, pp_interaction = (baseline + cap) div 2, pp_ceiling = cap\<rparr>)"

definition policy_from_capacities :: "u32 list \<Rightarrow> power_policy" where
  "policy_from_capacities capacities = policy_from_tiers (tiers_of capacities)"

subsection \<open>Sessions\<close>

record work_report =
  wk_total_ns :: i64
  wk_cpu_ns :: i64

datatype load_hint = LoadUp | LoadDown | LoadReset | LoadResume | LoadSpike

datatype apply_result = ApplyOk | ApplyGone | ApplyOther int

record power_env =
  act_apply :: "nat \<Rightarrow> thread_id \<Rightarrow> u32 \<Rightarrow> apply_result"
  act_drivers :: "i32 \<Rightarrow> thread_id list"

record hint_session =
  hs_tgid :: i32
  hs_uid :: i32
  hs_tag :: i32
  hs_tids :: "thread_id list"
  hs_drivers :: "thread_id list"
  hs_target_ns :: i64
  hs_floor :: u32
  hs_active_until :: "int option"
  hs_scanned_at :: "int option"
  hs_spike :: bool
  hs_paused :: bool
  hs_efficient :: bool

definition hs_threads :: "hint_session \<Rightarrow> thread_id list" where
  "hs_threads s = hs_tids s @ hs_drivers s"

definition hs_contains :: "thread_id \<Rightarrow> hint_session \<Rightarrow> bool" where
  "hs_contains tid s \<longleftrightarrow> tid \<in> set (hs_tids s) \<or> tid \<in> set (hs_drivers s)"

text \<open>\<open>saturating_mul\<close> of at most ten periods of a 63-bit count of nanoseconds does not saturate.\<close>

definition hs_activate :: "int \<Rightarrow> hint_session \<Rightarrow> hint_session" where
  "hs_activate now s =
     (let period = max 0 (sint (hs_target_ns s));
          stale = min MAX_STALE (max MIN_STALE (period * STALE_PERIODS))
      in s\<lparr>hs_active_until := Some (now + stale)\<rparr>)"

definition hs_demand :: "u32 \<Rightarrow> hint_session \<Rightarrow> u32" where
  "hs_demand cap s =
     (if hs_paused s \<or> hs_efficient s \<or> hs_active_until s = None then 0
      else if hs_spike s then cap
      else min (hs_floor s) cap)"

definition unique_tids :: "thread_id list \<Rightarrow> thread_id list" where
  "unique_tids tids = remdups_adj (sort_key sint (filter (\<lambda>t. 0 < sint t) tids))"

definition adjust :: "u32 \<Rightarrow> work_report \<Rightarrow> i64 \<Rightarrow> u32 \<Rightarrow> u32" where
  "adjust fl work target_ns cap =
     (let spent = sint (if 0 < sint (wk_cpu_ns work) then wk_cpu_ns work else wk_total_ns work);
          target = sint target_ns
      in if spent \<le> 0 \<or> target \<le> 0 then fl
         else if target < spent then
           let raise = (spent - target) * uint UTIL_MAX div (2 * target);
               clamped = max (uint MIN_RAISE) (min (uint MAX_RAISE) raise)
           in min (fl + word_of_int clamped) cap
         else if spent * 10 < target * 7 then (if DECAY \<le> fl then fl - DECAY else 0)
         else fl)"

subsection \<open>The controller\<close>

record controller =
  ct_policy :: power_policy
  ct_sessions :: "(u64, hint_session) fmap"
  ct_applied :: "(thread_id, u32) fmap"
  ct_next_id :: u64
  ct_low_power :: bool
  ct_interacting_until :: "int option"
  ct_warned :: bool
  ct_log :: "(thread_id \<times> u32 \<times> apply_result) list"

definition ct_new :: "power_policy \<Rightarrow> controller" where
  "ct_new policy =
     \<lparr>ct_policy = policy, ct_sessions = fmempty, ct_applied = fmempty, ct_next_id = 1, ct_low_power = False,
      ct_interacting_until = None, ct_warned = False, ct_log = []\<rparr>"

definition ct_held :: "int \<Rightarrow> controller \<Rightarrow> u32" where
  "ct_held now c =
     (case ct_interacting_until c of
        Some t \<Rightarrow> if now < t then pp_interaction (ct_policy c) else 0
      | None \<Rightarrow> 0)"

definition ct_ceiling :: "controller \<Rightarrow> u32" where
  "ct_ceiling c = (if ct_low_power c then pp_baseline (ct_policy c) else pp_ceiling (ct_policy c))"

definition session_list :: "controller \<Rightarrow> hint_session list" where
  "session_list c = map (\<lambda>k. the (fmlookup (ct_sessions c) k)) (sorted_list_of_fset (fmdom (ct_sessions c)))"

definition forget_thread :: "thread_id \<Rightarrow> hint_session \<Rightarrow> hint_session" where
  "forget_thread tid s =
     s\<lparr>hs_tids := filter (\<lambda>t. t \<noteq> tid) (hs_tids s), hs_drivers := filter (\<lambda>t. t \<noteq> tid) (hs_drivers s)\<rparr>"

definition ct_forget :: "thread_id \<Rightarrow> controller \<Rightarrow> controller" where
  "ct_forget tid c =
     c\<lparr>ct_applied := fmdrop tid (ct_applied c), ct_sessions := fmmap (forget_thread tid) (ct_sessions c)\<rparr>"

definition thread_demand :: "controller \<Rightarrow> thread_id \<Rightarrow> u32" where
  "thread_demand c tid = fold max (map (hs_demand (ct_ceiling c)) (filter (hs_contains tid) (session_list c))) 0"

definition round_up :: "u32 \<Rightarrow> u32" where
  "round_up demand = word_of_nat ((unat demand + unat QUANTUM - 1) div unat QUANTUM) * QUANTUM"

definition wanted_floor :: "controller \<Rightarrow> thread_id \<Rightarrow> u32" where
  "wanted_floor c tid =
     (let demand = thread_demand c tid in if demand = 0 then 0 else min (round_up demand) (ct_ceiling c))"

definition applied_floor :: "controller \<Rightarrow> thread_id \<Rightarrow> u32" where
  "applied_floor c tid = (case fmlookup (ct_applied c) tid of None \<Rightarrow> 0 | Some f \<Rightarrow> f)"

definition sync_thread :: "power_env \<Rightarrow> thread_id \<Rightarrow> controller \<Rightarrow> controller" where
  "sync_thread env tid c =
     (let fl = wanted_floor c tid in
      if fl = applied_floor c tid then c
      else
        let answer = act_apply env (length (ct_log c)) tid fl;
            c1 = c\<lparr>ct_log := ct_log c @ [(tid, fl, answer)]\<rparr>
        in case answer of
             ApplyOk \<Rightarrow> c1\<lparr>ct_applied := (if fl = 0 then fmdrop tid (ct_applied c1)
                                        else fmupd tid fl (ct_applied c1))\<rparr>
           | ApplyGone \<Rightarrow> ct_forget tid c1
           | ApplyOther _ \<Rightarrow> c1\<lparr>ct_warned := True\<rparr>)"

definition ct_sync :: "power_env \<Rightarrow> thread_id list \<Rightarrow> controller \<Rightarrow> controller" where
  "ct_sync env tids c = fold (sync_thread env) (remdups_adj (sort_key sint tids)) c"

definition sync_session :: "power_env \<Rightarrow> u64 \<Rightarrow> controller \<Rightarrow> controller" where
  "sync_session env i c =
     (case fmlookup (ct_sessions c) i of None \<Rightarrow> c | Some s \<Rightarrow> ct_sync env (hs_threads s) c)"

definition sync_all :: "power_env \<Rightarrow> controller \<Rightarrow> controller" where
  "sync_all env c =
     ct_sync env (concat (map hs_threads (session_list c)) @ sorted_list_of_fset (fmdom (ct_applied c))) c"

definition put_session :: "u64 \<Rightarrow> hint_session \<Rightarrow> controller \<Rightarrow> controller" where
  "put_session i s c = c\<lparr>ct_sessions := fmupd i s (ct_sessions c)\<rparr>"

definition ct_rescan :: "power_env \<Rightarrow> u64 \<Rightarrow> int \<Rightarrow> controller \<Rightarrow> controller" where
  "ct_rescan env i now c =
     (case fmlookup (ct_sessions c) i of
        None \<Rightarrow> c
      | Some s \<Rightarrow>
          let drivers = filter (\<lambda>t. t \<notin> set (hs_tids s)) (unique_tids (act_drivers env (hs_tgid s)));
              removed = filter (\<lambda>t. t \<notin> set drivers) (hs_drivers s)
          in ct_sync env removed (put_session i (s\<lparr>hs_drivers := drivers, hs_scanned_at := Some now\<rparr>) c))"

subsection \<open>Calls\<close>

definition ct_create :: "power_env \<Rightarrow> i32 \<Rightarrow> i32 \<Rightarrow> i32 \<Rightarrow> thread_id list \<Rightarrow> i64 \<Rightarrow> int \<Rightarrow> controller \<Rightarrow> u64 \<times> controller" where
  "ct_create env tgid uid tag tids target_ns now c =
     (let i = ct_next_id c;
          s = hs_activate now
            \<lparr>hs_tgid = tgid, hs_uid = uid, hs_tag = tag, hs_tids = unique_tids tids, hs_drivers = [],
             hs_target_ns = target_ns, hs_floor = max (pp_baseline (ct_policy c)) (ct_held now c),
             hs_active_until = None, hs_scanned_at = None, hs_spike = False, hs_paused = False,
             hs_efficient = False\<rparr>;
          c1 = put_session i s (c\<lparr>ct_next_id := i + 1\<rparr>)
      in (i, sync_session env i (ct_rescan env i now c1)))"

definition ct_close :: "power_env \<Rightarrow> u64 \<Rightarrow> controller \<Rightarrow> controller" where
  "ct_close env i c =
     (case fmlookup (ct_sessions c) i of
        None \<Rightarrow> c
      | Some s \<Rightarrow> ct_sync env (hs_threads s) (c\<lparr>ct_sessions := fmdrop i (ct_sessions c)\<rparr>))"

definition ct_set_target :: "u64 \<Rightarrow> i64 \<Rightarrow> controller \<Rightarrow> controller" where
  "ct_set_target i target_ns c =
     (case fmlookup (ct_sessions c) i of
        None \<Rightarrow> c
      | Some s \<Rightarrow> if 0 < sint target_ns then put_session i (s\<lparr>hs_target_ns := target_ns\<rparr>) c else c)"

definition learn :: "work_report list \<Rightarrow> u32 \<Rightarrow> u32 \<Rightarrow> hint_session \<Rightarrow> hint_session" where
  "learn work cap held s =
     (if hs_spike s then s\<lparr>hs_spike := False\<rparr>
      else s\<lparr>hs_floor := max (fold (\<lambda>w f. adjust f w (hs_target_ns s) cap) work (hs_floor s)) held\<rparr>)"

definition ct_report :: "power_env \<Rightarrow> u64 \<Rightarrow> work_report list \<Rightarrow> int \<Rightarrow> controller \<Rightarrow> controller" where
  "ct_report env i work now c =
     (case fmlookup (ct_sessions c) i of
        None \<Rightarrow> c
      | Some s \<Rightarrow>
          let cap = pp_ceiling (ct_policy c);
              s1 = hs_activate now (learn work cap (ct_held now c) s);
              c1 = put_session i s1 c;
              rescan = (0 < hs_demand cap s1 \<and>
                (case hs_scanned_at s1 of None \<Rightarrow> True | Some at \<Rightarrow> RESCAN \<le> max 0 (now - at)))
          in sync_session env i (if rescan then ct_rescan env i now c1 else c1))"

definition apply_hint :: "power_policy \<Rightarrow> u32 \<Rightarrow> load_hint \<Rightarrow> hint_session \<Rightarrow> hint_session" where
  "apply_hint policy held hint s =
     (case hint of
        LoadUp \<Rightarrow> s\<lparr>hs_floor := min (max (hs_floor s) (pp_baseline policy) + HINT_STEP) (pp_ceiling policy)\<rparr>
      | LoadDown \<Rightarrow> s\<lparr>hs_floor := max (if HINT_STEP \<le> hs_floor s then hs_floor s - HINT_STEP else 0) held\<rparr>
      | LoadReset \<Rightarrow> s\<lparr>hs_floor := max (hs_floor s) (pp_baseline policy)\<rparr>
      | LoadResume \<Rightarrow> s
      | LoadSpike \<Rightarrow> s\<lparr>hs_spike := True\<rparr>)"

definition ct_hint :: "power_env \<Rightarrow> u64 \<Rightarrow> load_hint \<Rightarrow> int \<Rightarrow> controller \<Rightarrow> controller" where
  "ct_hint env i hint now c =
     (case fmlookup (ct_sessions c) i of
        None \<Rightarrow> c
      | Some s \<Rightarrow>
          let s1 = apply_hint (ct_policy c) (ct_held now c) hint s;
              c1 = put_session i (if hint \<noteq> LoadDown then hs_activate now s1 else s1) c
          in sync_session env i (if hint = LoadReset \<or> hint = LoadResume then ct_rescan env i now c1 else c1))"

definition ct_pause :: "power_env \<Rightarrow> u64 \<Rightarrow> controller \<Rightarrow> controller" where
  "ct_pause env i c =
     (case fmlookup (ct_sessions c) i of
        None \<Rightarrow> c
      | Some s \<Rightarrow> sync_session env i (put_session i (s\<lparr>hs_paused := True\<rparr>) c))"

definition ct_resume :: "power_env \<Rightarrow> u64 \<Rightarrow> int \<Rightarrow> controller \<Rightarrow> controller" where
  "ct_resume env i now c =
     (case fmlookup (ct_sessions c) i of
        None \<Rightarrow> c
      | Some s \<Rightarrow> sync_session env i (put_session i (hs_activate now (s\<lparr>hs_paused := False\<rparr>)) c))"

definition set_threads :: "power_env \<Rightarrow> u64 \<Rightarrow> thread_id list \<Rightarrow> int \<Rightarrow> controller \<Rightarrow> controller" where
  "set_threads env i tids now c =
     (case fmlookup (ct_sessions c) i of
        None \<Rightarrow> c
      | Some s \<Rightarrow>
          let c1 = ct_rescan env i now (put_session i (s\<lparr>hs_tids := unique_tids tids\<rparr>) c);
              present = (case fmlookup (ct_sessions c1) i of None \<Rightarrow> [] | Some s1 \<Rightarrow> hs_threads s1)
          in ct_sync env (hs_threads s @ present) c1)"

definition set_efficient :: "power_env \<Rightarrow> u64 \<Rightarrow> bool \<Rightarrow> controller \<Rightarrow> controller" where
  "set_efficient env i efficient c =
     (case fmlookup (ct_sessions c) i of
        None \<Rightarrow> c
      | Some s \<Rightarrow> sync_session env i (put_session i (s\<lparr>hs_efficient := efficient\<rparr>) c))"

definition seed_session :: "u32 \<Rightarrow> int \<Rightarrow> hint_session \<Rightarrow> hint_session" where
  "seed_session interaction now s =
     (if hs_paused s \<or> hs_efficient s then s
      else hs_activate now (s\<lparr>hs_floor := max (hs_floor s) interaction\<rparr>))"

definition ct_interaction :: "power_env \<Rightarrow> int \<Rightarrow> controller \<Rightarrow> controller" where
  "ct_interaction env now c =
     sync_all env (c\<lparr>ct_interacting_until := Some (now + INTERACTION_HOLD),
       ct_sessions := fmmap (seed_session (pp_interaction (ct_policy c)) now) (ct_sessions c)\<rparr>)"

definition set_low_power :: "power_env \<Rightarrow> bool \<Rightarrow> controller \<Rightarrow> controller" where
  "set_low_power env enabled c =
     (if ct_low_power c \<noteq> enabled then sync_all env (c\<lparr>ct_low_power := enabled\<rparr>) else c)"

definition expires :: "int \<Rightarrow> hint_session \<Rightarrow> bool" where
  "expires now s \<longleftrightarrow> (case hs_active_until s of None \<Rightarrow> False | Some t \<Rightarrow> t \<le> now)"

definition expire_session :: "int \<Rightarrow> hint_session \<Rightarrow> hint_session" where
  "expire_session now s = (if expires now s then s\<lparr>hs_active_until := None, hs_spike := False\<rparr> else s)"

definition next_deadline :: "controller \<Rightarrow> int option" where
  "next_deadline c =
     (case List.map_filter hs_active_until (filter (\<lambda>s. 0 < hs_demand (ct_ceiling c) s) (session_list c)) of
        [] \<Rightarrow> None
      | t # ts \<Rightarrow> Some (fold min ts t))"

definition ct_expire :: "power_env \<Rightarrow> int \<Rightarrow> controller \<Rightarrow> int option \<times> controller" where
  "ct_expire env now c =
     (let expired = concat (map hs_threads (filter (expires now) (session_list c)));
          c1 = ct_sync env expired (c\<lparr>ct_sessions := fmmap (expire_session now) (ct_sessions c)\<rparr>)
      in (next_deadline c1, c1))"

datatype power_call =
    PcCreate power_env i32 i32 i32 "thread_id list" i64 int
  | PcClose power_env u64
  | PcTarget u64 i64
  | PcReport power_env u64 "work_report list" int
  | PcHint power_env u64 load_hint int
  | PcPause power_env u64
  | PcResume power_env u64 int
  | PcThreads power_env u64 "thread_id list" int
  | PcEfficient power_env u64 bool
  | PcInteraction power_env int
  | PcLowPower power_env bool
  | PcExpire power_env int

fun power_step :: "power_call \<Rightarrow> controller \<Rightarrow> controller" where
  "power_step (PcCreate env tgid uid tag tids target_ns now) c = snd (ct_create env tgid uid tag tids target_ns now c)"
| "power_step (PcClose env i) c = ct_close env i c"
| "power_step (PcTarget i target_ns) c = ct_set_target i target_ns c"
| "power_step (PcReport env i work now) c = ct_report env i work now c"
| "power_step (PcHint env i hint now) c = ct_hint env i hint now c"
| "power_step (PcPause env i) c = ct_pause env i c"
| "power_step (PcResume env i now) c = ct_resume env i now c"
| "power_step (PcThreads env i tids now) c = set_threads env i tids now c"
| "power_step (PcEfficient env i efficient) c = set_efficient env i efficient c"
| "power_step (PcInteraction env now) c = ct_interaction env now c"
| "power_step (PcLowPower env enabled) c = set_low_power env enabled c"
| "power_step (PcExpire env now) c = snd (ct_expire env now c)"

subsection \<open>What the kernel holds\<close>

text \<open>
  The floors that the answered attempts leave behind: a thread that is gone has none, a failed attempt
  changes nothing.  An attempt that failed for another reason than a dead thread stays on record until
  the next attempt for the same thread.
\<close>

fun kernel_step :: "thread_id \<times> u32 \<times> apply_result \<Rightarrow> (thread_id \<Rightarrow> u32) \<Rightarrow> thread_id \<Rightarrow> u32" where
  "kernel_step (tid, f, ApplyOk) m = m(tid := f)"
| "kernel_step (tid, f, ApplyGone) m = m(tid := 0)"
| "kernel_step (tid, f, ApplyOther e) m = m"

definition kernel_floors :: "(thread_id \<times> u32 \<times> apply_result) list \<Rightarrow> thread_id \<Rightarrow> u32" where
  "kernel_floors attempts = fold kernel_step attempts (\<lambda>_. 0)"

fun failed_step :: "thread_id \<times> u32 \<times> apply_result \<Rightarrow> (thread_id \<Rightarrow> bool) \<Rightarrow> thread_id \<Rightarrow> bool" where
  "failed_step (tid, f, ApplyOther e) m = m(tid := True)"
| "failed_step (tid, f, _) m = m(tid := False)"

definition attempt_failed :: "(thread_id \<times> u32 \<times> apply_result) list \<Rightarrow> thread_id \<Rightarrow> bool" where
  "attempt_failed attempts = fold failed_step attempts (\<lambda>_. False)"

lemma log_snoc [simp]:
  "kernel_floors (xs @ [x]) = kernel_step x (kernel_floors xs)"
  "attempt_failed (xs @ [x]) = failed_step x (attempt_failed xs)"
  by (simp_all add: kernel_floors_def attempt_failed_def)

text \<open>The books of the controller agree with the kernel; a thread is settled when it has what it should have.\<close>

definition books_agree :: "controller \<Rightarrow> bool" where
  "books_agree c \<longleftrightarrow> kernel_floors (ct_log c) = applied_floor c"

definition settled :: "controller \<Rightarrow> thread_id \<Rightarrow> bool" where
  "settled c t \<longleftrightarrow> applied_floor c t = wanted_floor c t \<or> attempt_failed (ct_log c) t"

definition settled_but :: "thread_id set \<Rightarrow> controller \<Rightarrow> bool" where
  "settled_but T c \<longleftrightarrow> (\<forall>t. t \<notin> T \<longrightarrow> settled c t)"

subsection \<open>Demands\<close>

definition demands :: "controller \<Rightarrow> thread_id \<Rightarrow> u32 set" where
  "demands c t = {hs_demand (ct_ceiling c) s | i s. fmlookup (ct_sessions c) i = Some s \<and> hs_contains t s}"

lemma fold_max_Max: "fold max xs (x :: 'a :: linorder) = Max (insert x (set xs))"
proof -
  have "fold max xs x = Max (set (x # xs))" by (simp only: Max.set_eq_fold)
  then show ?thesis by simp
qed

lemma set_session_list: "set (session_list c) = {s. \<exists>i. fmlookup (ct_sessions c) i = Some s}"
proof -
  have "set (session_list c) = (\<lambda>k. the (fmlookup (ct_sessions c) k)) ` fset (fmdom (ct_sessions c))"
    by (simp add: session_list_def)
  also have "\<dots> = {s. \<exists>i. fmlookup (ct_sessions c) i = Some s}"
  proof (intro set_eqI iffI)
    fix s
    assume "s \<in> {s. \<exists>i. fmlookup (ct_sessions c) i = Some s}"
    then obtain i where "fmlookup (ct_sessions c) i = Some s" by blast
    then show "s \<in> (\<lambda>k. the (fmlookup (ct_sessions c) k)) ` fset (fmdom (ct_sessions c))"
      by (intro image_eqI [where x = i]) (auto intro: fmdomI)
  qed (auto simp: fmlookup_dom_iff)
  finally show ?thesis .
qed

lemma thread_demand_eq: "thread_demand c t = Max (insert 0 (demands c t))"
proof -
  have "set (map (hs_demand (ct_ceiling c)) (filter (hs_contains t) (session_list c))) = demands c t"
    by (auto simp: demands_def set_session_list)
  then show ?thesis by (simp add: thread_demand_def fold_max_Max)
qed

lemma wanted_floor_cong: "demands c1 t = demands c2 t \<Longrightarrow> ct_ceiling c1 = ct_ceiling c2 \<Longrightarrow> wanted_floor c1 t = wanted_floor c2 t"
  by (simp add: wanted_floor_def thread_demand_eq Let_def)

lemma wanted_floor_none: "demands c t = {} \<Longrightarrow> wanted_floor c t = 0"
  by (simp add: wanted_floor_def thread_demand_eq)

lemma contains_threads: "hs_contains t s \<longleftrightarrow> t \<in> set (hs_threads s)"
  by (auto simp: hs_contains_def hs_threads_def)

subsection \<open>Synchronizing threads\<close>

lemma forget_fields [simp]:
  "hs_demand cap (forget_thread tid s) = hs_demand cap s"
  "hs_contains t (forget_thread tid s) \<longleftrightarrow> t \<noteq> tid \<and> hs_contains t s"
  "hs_floor (forget_thread tid s) = hs_floor s"
  by (auto simp: forget_thread_def hs_demand_def hs_contains_def)

lemma demands_log [simp]:
  "demands (c\<lparr>ct_log := l\<rparr>) t = demands c t" "demands (c\<lparr>ct_applied := m\<rparr>) t = demands c t"
  "demands (c\<lparr>ct_warned := w\<rparr>) t = demands c t"
  by (auto simp: demands_def ct_ceiling_def)

lemma ceiling_log [simp]:
  "ct_ceiling (c\<lparr>ct_log := l\<rparr>) = ct_ceiling c" "ct_ceiling (c\<lparr>ct_applied := m\<rparr>) = ct_ceiling c"
  "ct_ceiling (c\<lparr>ct_warned := w\<rparr>) = ct_ceiling c" "ct_ceiling (ct_forget tid c) = ct_ceiling c"
  "ct_ceiling (put_session i s c) = ct_ceiling c"
  by (simp_all add: ct_ceiling_def ct_forget_def put_session_def)

lemma forget_parts [simp]:
  "ct_sessions (ct_forget tid c) = fmmap (forget_thread tid) (ct_sessions c)" "ct_log (ct_forget tid c) = ct_log c"
  by (simp_all add: ct_forget_def)

lemma forget_demands: "demands (ct_forget tid c) t = (if t = tid then {} else demands c t)"
  by (auto simp: demands_def) (blast, metis forget_fields(1,2))

lemma wanted_log [simp]:
  "wanted_floor (c\<lparr>ct_log := l\<rparr>) t = wanted_floor c t" "wanted_floor (c\<lparr>ct_applied := m\<rparr>) t = wanted_floor c t"
  "wanted_floor (c\<lparr>ct_warned := w\<rparr>) t = wanted_floor c t"
  by (rule wanted_floor_cong; simp)+

lemma wanted_forget: "wanted_floor (ct_forget tid c) t = (if t = tid then 0 else wanted_floor c t)"
  by (auto simp: wanted_floor_none forget_demands intro: wanted_floor_cong)

lemma applied_fields [simp]:
  "applied_floor (c\<lparr>ct_log := l\<rparr>) = applied_floor c" "applied_floor (c\<lparr>ct_warned := w\<rparr>) = applied_floor c"
  "applied_floor (put_session i s c) = applied_floor c"
  "applied_floor (c\<lparr>ct_sessions := m\<rparr>) = applied_floor c"
  by (auto simp: applied_floor_def put_session_def fun_eq_iff)

lemma applied_changes [simp]:
  "applied_floor (c\<lparr>ct_applied := fmdrop tid m\<rparr>) t = (if t = tid then 0 else applied_floor (c\<lparr>ct_applied := m\<rparr>) t)"
  "applied_floor (c\<lparr>ct_applied := fmupd tid f m\<rparr>) t = (if t = tid then f else applied_floor (c\<lparr>ct_applied := m\<rparr>) t)"
  "applied_floor (ct_forget tid c) t = (if t = tid then 0 else applied_floor c t)"
  by (auto simp: applied_floor_def ct_forget_def)

text \<open>One thread: it is settled afterwards, the others are as before, and the books still agree.\<close>

lemma sync_thread_cases:
  obtains "wanted_floor c tid = applied_floor c tid" "sync_thread env tid c = c"
  | answer c1 where "c1 = c\<lparr>ct_log := ct_log c @ [(tid, wanted_floor c tid, answer)]\<rparr>"
      "sync_thread env tid c =
        (case answer of
           ApplyOk \<Rightarrow> c1\<lparr>ct_applied := (if wanted_floor c tid = 0 then fmdrop tid (ct_applied c)
                                       else fmupd tid (wanted_floor c tid) (ct_applied c))\<rparr>
         | ApplyGone \<Rightarrow> ct_forget tid c1
         | ApplyOther e \<Rightarrow> c1\<lparr>ct_warned := True\<rparr>)"
proof (cases "wanted_floor c tid = applied_floor c tid")
  case True
  then show ?thesis using that(1) by (simp add: sync_thread_def)
next
  case False
  show ?thesis
    by (rule that(2) [OF refl, where answer = "act_apply env (length (ct_log c)) tid (wanted_floor c tid)"])
      (use False in \<open>simp add: sync_thread_def Let_def split: apply_result.split\<close>)
qed

lemma sync_thread_settled: "t = tid \<or> settled c t \<Longrightarrow> settled (sync_thread env tid c) t"
proof (cases rule: sync_thread_cases [of c tid env])
  case (2 answer c1)
  assume "t = tid \<or> settled c t"
  then show ?thesis
    using 2 by (cases answer) (auto simp: settled_def wanted_forget applied_floor_def [of c])
qed (auto simp: settled_def)

lemma sync_thread_books: "books_agree c \<Longrightarrow> books_agree (sync_thread env tid c)"
proof (cases rule: sync_thread_cases [of c tid env])
  case (2 answer c1)
  assume "books_agree c"
  then have "kernel_floors (ct_log c) t = applied_floor c t" for t by (simp add: books_agree_def)
  then show ?thesis
    using 2 by (cases answer) (auto simp: books_agree_def fun_eq_iff applied_floor_def [of c] ct_forget_def)
qed simp


lemma sync_thread_frame [simp]:
  "ct_policy (sync_thread env tid c) = ct_policy c" "ct_low_power (sync_thread env tid c) = ct_low_power c"
  "ct_next_id (sync_thread env tid c) = ct_next_id c"
  "ct_interacting_until (sync_thread env tid c) = ct_interacting_until c"
  "fmdom (ct_sessions (sync_thread env tid c)) = fmdom (ct_sessions c)"
  by (cases rule: sync_thread_cases [of c tid env]; cases "act_apply env (length (ct_log c)) tid (wanted_floor c tid)";
      auto simp: ct_forget_def split: apply_result.split)+

text \<open>A session keeps everything but threads that turned out to be gone.\<close>

definition less_threads :: "thread_id set \<Rightarrow> hint_session \<Rightarrow> hint_session \<Rightarrow> bool" where
  "less_threads T s s1 \<longleftrightarrow> set (hs_threads s) - T \<subseteq> set (hs_threads s1) \<and> set (hs_threads s1) \<subseteq> set (hs_threads s)
     \<and> s1\<lparr>hs_tids := hs_tids s, hs_drivers := hs_drivers s\<rparr> = s"

lemma less_threads_refl: "less_threads T s s"
  by (simp add: less_threads_def)

lemma less_threads_forget: "less_threads {tid} s (forget_thread tid s)"
  by (auto simp: less_threads_def forget_thread_def hs_threads_def)

lemma less_threads_trans: "less_threads T s s1 \<Longrightarrow> less_threads U s1 s2 \<Longrightarrow> less_threads (T \<union> U) s s2"
  unfolding less_threads_def by (cases s; cases s1; cases s2) (auto simp: hs_threads_def)

lemma less_threads_mono: "less_threads T s s1 \<Longrightarrow> T \<subseteq> U \<Longrightarrow> less_threads U s s1"
  by (auto simp: less_threads_def)

lemma sync_thread_session:
  "rel_option (less_threads {tid}) (fmlookup (ct_sessions c) i) (fmlookup (ct_sessions (sync_thread env tid c)) i)"
proof (cases rule: sync_thread_cases [of c tid env])
  case 1
  then show ?thesis by (cases "fmlookup (ct_sessions c) i") (simp_all add: less_threads_refl)
next
  case (2 answer c1)
  then show ?thesis
    by (cases answer; cases "fmlookup (ct_sessions c) i") (simp_all add: less_threads_refl less_threads_forget)
qed

lemma sync_list:
  fixes c :: controller
  shows "t \<in> set tids \<or> settled c t \<Longrightarrow> settled (fold (sync_thread env) tids c) t"
    and "books_agree c \<Longrightarrow> books_agree (fold (sync_thread env) tids c)"
    and "ct_policy (fold (sync_thread env) tids c) = ct_policy c"
    and "ct_low_power (fold (sync_thread env) tids c) = ct_low_power c"
    and "ct_next_id (fold (sync_thread env) tids c) = ct_next_id c"
    and "ct_interacting_until (fold (sync_thread env) tids c) = ct_interacting_until c"
    and "fmdom (ct_sessions (fold (sync_thread env) tids c)) = fmdom (ct_sessions c)"
    and "rel_option (less_threads (set tids)) (fmlookup (ct_sessions c) i)
           (fmlookup (ct_sessions (fold (sync_thread env) tids c)) i)"
proof (induction tids arbitrary: c)
  case (Cons tid tids)
  {
    case 1
    then show ?case using Cons.IH(1) sync_thread_settled by auto
  next
    case 2
    then show ?case using Cons.IH(2) sync_thread_books by simp
  next
    case 8
    have "rel_option (less_threads {tid}) (fmlookup (ct_sessions c) i)
        (fmlookup (ct_sessions (sync_thread env tid c)) i)" by (rule sync_thread_session)
    moreover have "rel_option (less_threads (set tids)) (fmlookup (ct_sessions (sync_thread env tid c)) i)
        (fmlookup (ct_sessions (fold (sync_thread env) tids (sync_thread env tid c))) i)" by (rule Cons.IH(8))
    ultimately show ?case
      using less_threads_trans [of "{tid}" _ _ "set tids"] by (auto elim!: option.rel_cases)
  }
qed (auto intro!: option.rel_refl simp: less_threads_refl)

lemma ct_sync_frame [simp]:
  "ct_policy (ct_sync env tids c) = ct_policy c" "ct_low_power (ct_sync env tids c) = ct_low_power c"
  "ct_next_id (ct_sync env tids c) = ct_next_id c"
  "ct_interacting_until (ct_sync env tids c) = ct_interacting_until c"
  "fmdom (ct_sessions (ct_sync env tids c)) = fmdom (ct_sessions c)"
  by (simp_all add: ct_sync_def sync_list)

lemma ct_sync_books: "books_agree c \<Longrightarrow> books_agree (ct_sync env tids c)"
  by (simp add: ct_sync_def sync_list)

lemma ct_sync_settles: "settled_but T c \<Longrightarrow> settled_but (T - set tids) (ct_sync env tids c)"
  by (auto simp: settled_but_def ct_sync_def intro: sync_list(1))

lemma ct_sync_session:
  "rel_option (less_threads (set tids)) (fmlookup (ct_sessions c) i) (fmlookup (ct_sessions (ct_sync env tids c)) i)"
  using sync_list(8) [of "remdups_adj (sort_key sint tids)" c i env] by (simp add: ct_sync_def)


subsection \<open>Calls\<close>

definition session_demand :: "u32 \<Rightarrow> thread_id \<Rightarrow> hint_session \<Rightarrow> u32 option" where
  "session_demand cap t s = (if hs_contains t s then Some (hs_demand cap s) else None)"

lemma demands_cong:
  assumes "ct_ceiling c1 = ct_ceiling c"
    and same: "\<And>j. Option.bind (fmlookup (ct_sessions c1) j) (session_demand (ct_ceiling c) t)
      = Option.bind (fmlookup (ct_sessions c) j) (session_demand (ct_ceiling c) t)"
  shows "demands c1 t = demands c t"
proof -
  have "demands x t = {d. \<exists>j. Option.bind (fmlookup (ct_sessions x) j) (session_demand (ct_ceiling x) t) = Some d}" for x
    by (auto simp: demands_def session_demand_def bind_eq_Some_conv split: if_splits)
  then show ?thesis by (simp only: assms)
qed

lemma demands_elsewhere:
  assumes "\<And>j s. t \<in> set (hs_threads s) \<Longrightarrow>
    (fmlookup (ct_sessions c1) j = Some s) = (fmlookup (ct_sessions c) j = Some s)"
    and "ct_ceiling c1 = ct_ceiling c"
  shows "demands c1 t = demands c t"
  using assms(1) unfolding demands_def contains_threads assms(2) by blast

lemma put_frame [simp]:
  "ct_policy (put_session i s c) = ct_policy c" "ct_low_power (put_session i s c) = ct_low_power c"
  "ct_next_id (put_session i s c) = ct_next_id c"
  "ct_interacting_until (put_session i s c) = ct_interacting_until c"
  "ct_sessions (put_session i s c) = fmupd i s (ct_sessions c)" "ct_log (put_session i s c) = ct_log c"
  by (simp_all add: put_session_def)

lemma put_settles:
  assumes "settled_but T c" and "\<And>s. fmlookup (ct_sessions c) i = Some s \<Longrightarrow> set (hs_threads s) \<subseteq> T"
    and "set (hs_threads s1) \<subseteq> T"
  shows "settled_but T (put_session i s1 c)"
proof -
  have "wanted_floor (put_session i s1 c) t = wanted_floor c t" if "t \<notin> T" for t
    using assms(2,3) that by (intro wanted_floor_cong demands_elsewhere) (auto split: if_splits)
  then show ?thesis
    using assms(1) by (simp add: settled_but_def settled_def)
qed

lemma put_books [simp]: "books_agree (put_session i s c) = books_agree c"
  by (simp add: books_agree_def)

lemma settled_mono: "settled_but T c \<Longrightarrow> T \<subseteq> U \<Longrightarrow> settled_but U c"
  by (auto simp: settled_but_def)

text \<open>The threads that may be unsettled belong to the session at hand (or to \<open>T\<close>).\<close>

definition session_due :: "thread_id set \<Rightarrow> u64 \<Rightarrow> controller \<Rightarrow> bool" where
  "session_due T i c \<longleftrightarrow> (\<exists>s. fmlookup (ct_sessions c) i = Some s \<and> settled_but (T \<union> set (hs_threads s)) c)"

lemma put_due:
  assumes "settled_but {} c" and "fmlookup (ct_sessions c) i = Some s"
  shows "session_due (set (hs_threads s)) i (put_session i s1 c)"
  using assms by (auto simp: session_due_def intro!: put_settles intro: settled_mono)

lemma put_same_due:
  assumes "settled_but {} c" and "fmlookup (ct_sessions c) i = Some s" and "hs_threads s1 = hs_threads s"
  shows "session_due {} i (put_session i s1 c)"
  using put_due [OF assms(1,2), of s1] assms(3) by (simp add: session_due_def)

lemma put_new_due: "settled_but {} c \<Longrightarrow> fmlookup (ct_sessions c) i = None \<Longrightarrow> session_due {} i (put_session i s1 c)"
  by (auto simp: session_due_def intro!: put_settles intro: settled_mono)

lemma rescan_due:
  assumes "session_due T i c"
  shows "session_due T i (ct_rescan env i now c)"
proof -
  obtain s where hit: "fmlookup (ct_sessions c) i = Some s" and due: "settled_but (T \<union> set (hs_threads s)) c"
    using assms by (auto simp: session_due_def)
  define drivers where "drivers = filter (\<lambda>t. t \<notin> set (hs_tids s)) (unique_tids (act_drivers env (hs_tgid s)))"
  define removed where "removed = filter (\<lambda>t. t \<notin> set drivers) (hs_drivers s)"
  define s1 where "s1 = s\<lparr>hs_drivers := drivers, hs_scanned_at := Some now\<rparr>"
  let ?c = "put_session i s1 c"
  have eq: "ct_rescan env i now c = ct_sync env removed ?c"
    by (simp add: ct_rescan_def hit Let_def drivers_def removed_def s1_def)
  have "settled_but (T \<union> set (hs_threads s) \<union> set (hs_threads s1)) ?c"
    using due hit by (intro put_settles) (auto intro: settled_mono)
  note all = ct_sync_settles [OF this, of removed env]
  obtain s2 where hit2: "fmlookup (ct_sessions (ct_sync env removed ?c)) i = Some s2"
      and less: "less_threads (set removed) s1 s2"
    using ct_sync_session [of removed ?c i env] by (auto elim: option.rel_cases)
  have "T \<union> set (hs_threads s) \<union> set (hs_threads s1) - set removed \<subseteq> T \<union> set (hs_threads s2)"
    using less by (auto simp: less_threads_def removed_def s1_def hs_threads_def)
  then show ?thesis using settled_mono [OF all] hit2 by (auto simp: session_due_def eq)
qed

lemma session_settles:
  assumes "session_due {} i c"
  shows "settled_but {} (sync_session env i c)"
proof -
  obtain s where hit: "fmlookup (ct_sessions c) i = Some s" and due: "settled_but (set (hs_threads s)) c"
    using assms by (auto simp: session_due_def)
  show ?thesis using ct_sync_settles [OF due, of "hs_threads s" env] hit by (simp add: sync_session_def)
qed

lemma threads_kept [simp]:
  "hs_threads (hs_activate now s) = hs_threads s" "hs_threads (learn work cap held s) = hs_threads s"
  "hs_threads (apply_hint policy held hint s) = hs_threads s" "hs_threads (seed_session f now s) = hs_threads s"
  "hs_threads (expire_session now s) = hs_threads s"
  by (auto simp: hs_activate_def learn_def apply_hint_def seed_session_def expire_session_def hs_threads_def Let_def
      split: load_hint.split)

lemma sync_covers: "settled_but T c \<Longrightarrow> T \<subseteq> set tids \<Longrightarrow> settled_but {} (ct_sync env tids c)"
  using ct_sync_settles [of T c tids env] by (metis Diff_eq_empty_iff)

lemma create_settles:
  assumes "settled_but {} c" and "fmlookup (ct_sessions c) (ct_next_id c) = None"
  shows "settled_but {} (snd (ct_create env tgid uid tag tids target_ns now c))"
proof -
  have "settled_but {} (c\<lparr>ct_next_id := ct_next_id c + 1\<rparr>)"
    using assms(1) wanted_floor_cong [of "c\<lparr>ct_next_id := ct_next_id c + 1\<rparr>" _ c]
    by (simp add: settled_but_def settled_def applied_floor_def demands_def ct_ceiling_def)
  then show ?thesis
    using assms(2) by (auto simp: ct_create_def Let_def intro!: session_settles rescan_due put_new_due)
qed

lemma close_settles:
  assumes "settled_but {} c"
  shows "settled_but {} (ct_close env i c)"
proof (cases "fmlookup (ct_sessions c) i")
  case (Some s)
  let ?c = "c\<lparr>ct_sessions := fmdrop i (ct_sessions c)\<rparr>"
  have "wanted_floor ?c t = wanted_floor c t" if "t \<notin> set (hs_threads s)" for t
    using that Some by (intro wanted_floor_cong demands_elsewhere) (auto simp: ct_ceiling_def split: if_splits)
  then have "settled_but (set (hs_threads s)) ?c"
    using assms by (simp add: settled_but_def settled_def)
  then show ?thesis using Some sync_covers by (simp add: ct_close_def)
qed (simp add: ct_close_def assms)

lemma target_settles:
  assumes "settled_but {} c"
  shows "settled_but {} (ct_set_target i target_ns c)"
proof (cases "fmlookup (ct_sessions c) i")
  case (Some s)
  have "demands (put_session i (s\<lparr>hs_target_ns := target_ns\<rparr>) c) t = demands c t" for t
  proof -
    have "session_demand cap t (s\<lparr>hs_target_ns := target_ns\<rparr>) = session_demand cap t s" for cap
      by (simp add: session_demand_def hs_demand_def hs_contains_def)
    then show ?thesis by (intro demands_cong) (auto simp: Some)
  qed
  then have "settled_but {} (put_session i (s\<lparr>hs_target_ns := target_ns\<rparr>) c)"
    using assms wanted_floor_cong [of "put_session i (s\<lparr>hs_target_ns := target_ns\<rparr>) c" _ c]
    by (simp add: settled_but_def settled_def)
  then show ?thesis using Some assms by (simp add: ct_set_target_def)
qed (simp add: ct_set_target_def assms)

lemma report_settles: "settled_but {} c \<Longrightarrow> settled_but {} (ct_report env i work now c)"
  by (auto simp: ct_report_def Let_def split: option.split intro!: session_settles rescan_due put_same_due)

lemma hint_settles: "settled_but {} c \<Longrightarrow> settled_but {} (ct_hint env i hint now c)"
  by (auto simp: ct_hint_def Let_def split: option.split intro!: session_settles rescan_due put_same_due)

lemma flag_settles:
  assumes "settled_but {} c"
  shows "settled_but {} (ct_pause env i c)" and "settled_but {} (ct_resume env i now c)"
    and "settled_but {} (set_efficient env i efficient c)"
  using assms
  by (auto simp: ct_pause_def ct_resume_def set_efficient_def split: option.split intro!: session_settles put_same_due)
    (simp_all add: hs_threads_def)

lemma threads_settles:
  assumes "settled_but {} c"
  shows "settled_but {} (set_threads env i tids now c)"
proof (cases "fmlookup (ct_sessions c) i")
  case (Some s)
  let ?c = "ct_rescan env i now (put_session i (s\<lparr>hs_tids := unique_tids tids\<rparr>) c)"
  have "session_due (set (hs_threads s)) i ?c" by (rule rescan_due [OF put_due [OF assms Some]])
  then obtain s1 where "fmlookup (ct_sessions ?c) i = Some s1" "settled_but (set (hs_threads s) \<union> set (hs_threads s1)) ?c"
    by (auto simp: session_due_def)
  then show ?thesis using Some sync_covers by (simp add: set_threads_def Let_def)
qed (simp add: set_threads_def assms)

lemma applied_known: "applied_floor c t \<noteq> 0 \<Longrightarrow> t \<in> set (sorted_list_of_fset (fmdom (ct_applied c)))"
  by (auto simp: applied_floor_def fmdomI split: option.splits)

lemma sync_all_settles: "settled_but {} (sync_all env c)"
proof -
  let ?tids = "concat (map hs_threads (session_list c)) @ sorted_list_of_fset (fmdom (ct_applied c))"
  have "settled c t" if "t \<notin> set ?tids" for t
  proof -
    have "demands c t = {}" using that by (auto simp: demands_def contains_threads set_session_list)
    then show ?thesis using that applied_known [of c t] by (auto simp: settled_def wanted_floor_none)
  qed
  then have "settled_but (set ?tids) c" by (simp add: settled_but_def)
  then show ?thesis unfolding sync_all_def by (rule sync_covers) simp
qed

lemma expire_settles:
  assumes "settled_but {} c"
  shows "settled_but {} (snd (ct_expire env now c))"
proof -
  let ?c = "c\<lparr>ct_sessions := fmmap (expire_session now) (ct_sessions c)\<rparr>"
  let ?tids = "concat (map hs_threads (filter (expires now) (session_list c)))"
  have "demands ?c t = demands c t" if "t \<notin> set ?tids" for t
  proof -
    have same: "expire_session now s = s" if "fmlookup (ct_sessions c) j = Some s" "hs_contains t s" for j s
      using that \<open>t \<notin> set ?tids\<close> by (auto simp: expire_session_def set_session_list contains_threads)
    have "session_demand cap t (expire_session now s) = session_demand cap t s"
      if "fmlookup (ct_sessions c) j = Some s" for cap j s
      using same [OF that] by (auto simp: session_demand_def contains_threads)
    then show ?thesis
      by (intro demands_cong) (auto simp: ct_ceiling_def map_option_case split: option.split)
  qed
  then have "wanted_floor ?c t = wanted_floor c t" if "t \<notin> set ?tids" for t
    using that by (intro wanted_floor_cong) (simp_all add: ct_ceiling_def)
  then have "settled_but (set ?tids) ?c"
    using assms by (simp add: settled_but_def settled_def)
  then show ?thesis by (simp add: ct_expire_def Let_def sync_covers)
qed


subsection \<open>Bounds\<close>

definition policy_ok :: "power_policy \<Rightarrow> bool" where
  "policy_ok p \<longleftrightarrow> pp_baseline p \<le> pp_interaction p \<and> pp_interaction p \<le> pp_ceiling p \<and> pp_ceiling p \<le> 819"

lemma small_sum:
  fixes a b :: u32
  assumes "unat a + unat b < 2 ^ 32"
  shows "unat (a + b) = unat a + unat b"
  using assms by (simp add: unat_word_ariths)

lemma small_product:
  fixes a b :: u32
  assumes "unat a * unat b < 2 ^ 32"
  shows "unat (a * b) = unat a * unat b"
  using assms by (simp add: unat_word_ariths)

lemma tiers_small: "\<forall>t \<in> set (tiers_of capacities). fst t \<le> UTIL_MAX"
proof -
  have add: "\<forall>t \<in> set (add_tier c tiers). fst t \<le> UTIL_MAX"
    if "\<forall>t \<in> set tiers. fst t \<le> UTIL_MAX" "c \<le> UTIL_MAX" for c tiers
    using that by (induction c tiers rule: add_tier.induct) auto
  have "\<forall>t \<in> set (fold (\<lambda>c. add_tier (min c UTIL_MAX)) xs tiers). fst t \<le> UTIL_MAX"
    if "\<forall>t \<in> set tiers. fst t \<le> UTIL_MAX" for xs tiers
    using that
  proof (induction xs arbitrary: tiers)
    case (Cons c xs)
    show ?case using Cons.IH [OF add [OF Cons.prems min.cobounded2]] by simp
  qed simp
  from this [of "[]" "filter (\<lambda>c. 0 < c) capacities"] show ?thesis by (simp add: tiers_of_def)
qed

lemma wide_small: "\<forall>t \<in> set tiers. fst t \<le> UTIL_MAX \<Longrightarrow> wide_tier tiers \<le> UTIL_MAX"
proof (cases "find (\<lambda>t. 2 \<le> snd t) (rev tiers)")
  case (Some t)
  then have "t \<in> set tiers" by (metis find_Some_iff nth_mem set_rev)
  then show "\<forall>t \<in> set tiers. fst t \<le> UTIL_MAX \<Longrightarrow> ?thesis" using Some by (simp add: wide_tier_def)
qed (simp add: wide_tier_def)

lemma policy_bounds_word:
  fixes w l :: u32
  assumes "w \<le> 1024" and "base = min l (w * 4 div 5) \<or> base = w * 4 div 5 div 2"
  shows "base \<le> (base + w * 4 div 5) div 2" and "(base + w * 4 div 5) div 2 \<le> w * 4 div 5" and "w * 4 div 5 \<le> 819"
proof -
  have w: "unat w \<le> 1024" using assms(1) by (simp add: word_le_nat_alt)
  then have cap: "unat (w * 4 div 5) = unat w * 4 div 5"
    by (simp add: unat_div small_product)
  have small: "unat (w * 4 div 5) \<le> 819" using w unfolding cap by simp
  have le: "unat base \<le> unat (w * 4 div 5)"
    using assms(2) by (auto simp: unat_div min_def word_le_nat_alt)
  have mid: "unat ((base + w * 4 div 5) div 2) = (unat base + unat (w * 4 div 5)) div 2"
    using le small by (simp add: unat_div small_sum)
  show "base \<le> (base + w * 4 div 5) div 2" and "(base + w * 4 div 5) div 2 \<le> w * 4 div 5" and "w * 4 div 5 \<le> 819"
    using le small unfolding word_le_nat_alt mid by simp_all
qed

lemma policy_from_ok: "policy_ok (policy_from_capacities capacities)"
proof -
  let ?tiers = "tiers_of capacities" and ?cap = "wide_tier (tiers_of capacities) * 4 div 5"
  define base where "base = pp_baseline (policy_from_capacities capacities)"
  have w: "wide_tier ?tiers \<le> 1024" using wide_small [OF tiers_small, of capacities] by (simp add: UTIL_MAX_def)
  have "(\<exists>l. base = min l ?cap) \<or> base = ?cap div 2"
    by (auto simp: base_def policy_from_capacities_def policy_from_tiers_def Let_def split: list.split)
  then obtain l where base: "base = min l ?cap \<or> base = ?cap div 2" by blast
  show ?thesis
    using policy_bounds_word [OF w base]
    by (simp add: policy_ok_def policy_from_capacities_def policy_from_tiers_def Let_def base_def)
qed


definition floors_ok :: "controller \<Rightarrow> bool" where
  "floors_ok c \<longleftrightarrow> books_agree c \<and> policy_ok (ct_policy c)
     \<and> fmpred (\<lambda>_ s. hs_floor s \<le> pp_ceiling (ct_policy c)) (ct_sessions c)
     \<and> (\<forall>t. applied_floor c t \<le> pp_ceiling (ct_policy c))"

lemma ceiling_le: "policy_ok (ct_policy c) \<Longrightarrow> ct_ceiling c \<le> pp_ceiling (ct_policy c)"
  by (auto simp: ct_ceiling_def policy_ok_def)

lemma wanted_le: "policy_ok (ct_policy c) \<Longrightarrow> wanted_floor c t \<le> pp_ceiling (ct_policy c)"
  using ceiling_le [of c] by (auto simp: wanted_floor_def Let_def min_le_iff_disj)

lemma sync_thread_floors:
  assumes "floors_ok c"
  shows "floors_ok (sync_thread env tid c)"
proof -
  have le: "wanted_floor c tid \<le> pp_ceiling (ct_policy c)"
    using wanted_le assms by (simp add: floors_ok_def)
  have "applied_floor (sync_thread env tid c) t \<le> pp_ceiling (ct_policy c)" for t
  proof (cases rule: sync_thread_cases [of c tid env])
    case (2 answer c1)
    then show ?thesis
      using assms le by (cases answer) (auto simp: floors_ok_def applied_floor_def [of c])
  qed (use assms in \<open>simp add: floors_ok_def\<close>)
  moreover have "fmpred (\<lambda>_ s. hs_floor s \<le> pp_ceiling (ct_policy c)) (ct_sessions (sync_thread env tid c))"
  proof (rule fmpredI)
    fix i s1
    assume hit: "fmlookup (ct_sessions (sync_thread env tid c)) i = Some s1"
    then obtain s where "fmlookup (ct_sessions c) i = Some s" "less_threads {tid} s s1"
      using sync_thread_session [of tid c i env] by (auto elim: option.rel_cases)
    then show "hs_floor s1 \<le> pp_ceiling (ct_policy c)"
      using assms by (cases s; cases s1) (auto simp: floors_ok_def less_threads_def dest!: fmpredD)
  qed
  ultimately show ?thesis
    using assms sync_thread_books by (simp add: floors_ok_def)
qed

lemma ct_sync_floors: "floors_ok c \<Longrightarrow> floors_ok (ct_sync env tids c)"
proof -
  have "floors_ok c \<Longrightarrow> floors_ok (fold (sync_thread env) xs c)" for xs
    by (induction xs arbitrary: c) (simp_all add: sync_thread_floors)
  then show "floors_ok c \<Longrightarrow> floors_ok (ct_sync env tids c)" by (simp add: ct_sync_def)
qed

lemma put_floors: "floors_ok c \<Longrightarrow> hs_floor s \<le> pp_ceiling (ct_policy c) \<Longrightarrow> floors_ok (put_session i s c)"
  by (auto simp: floors_ok_def)

lemma session_floor: "floors_ok c \<Longrightarrow> fmlookup (ct_sessions c) i = Some s \<Longrightarrow> hs_floor s \<le> pp_ceiling (ct_policy c)"
  by (auto simp: floors_ok_def dest: fmpredD)

lemma rescan_floors: "floors_ok c \<Longrightarrow> floors_ok (ct_rescan env i now c)"
  by (auto simp: ct_rescan_def Let_def split: option.split intro!: ct_sync_floors put_floors intro: session_floor)

lemma sync_session_floors: "floors_ok c \<Longrightarrow> floors_ok (sync_session env i c)"
  by (auto simp: sync_session_def split: option.split intro: ct_sync_floors)

lemma held_le: "policy_ok (ct_policy c) \<Longrightarrow> ct_held now c \<le> pp_ceiling (ct_policy c)"
  by (auto simp: ct_held_def policy_ok_def split: option.split)

lemma lowered_le:
  fixes f :: u32
  assumes "f \<le> cap"
  shows "(if d \<le> f then f - d else 0) \<le> cap"
proof (cases "d \<le> f")
  case True
  then have "f - d \<le> f" by (simp add: word_sub_le)
  then show ?thesis using True assms by simp
qed simp

lemma adjust_le: "f \<le> cap \<Longrightarrow> adjust f work target_ns cap \<le> cap"
  using lowered_le [of f cap DECAY] by (simp add: adjust_def Let_def)

lemma learn_le: "hs_floor s \<le> cap \<Longrightarrow> held \<le> cap \<Longrightarrow> hs_floor (learn work cap held s) \<le> cap"
proof -
  assume s: "hs_floor s \<le> cap" and held: "held \<le> cap"
  have "fold (\<lambda>w f. adjust f w target_ns cap) work f \<le> cap" if "f \<le> cap" for f target_ns
    using that by (induction work arbitrary: f) (simp_all add: adjust_le)
  then show ?thesis using s held by (simp add: learn_def)
qed

lemma apply_hint_le:
  "policy_ok p \<Longrightarrow> hs_floor s \<le> pp_ceiling p \<Longrightarrow> held \<le> pp_ceiling p \<Longrightarrow>
   hs_floor (apply_hint p held hint s) \<le> pp_ceiling p"
  using lowered_le [of "hs_floor s" "pp_ceiling p" HINT_STEP]
  by (cases hint) (auto simp: apply_hint_def policy_ok_def)

lemma activate_floor [simp]: "hs_floor (hs_activate now s) = hs_floor s"
  by (simp add: hs_activate_def Let_def)

lemma map_floors:
  assumes "floors_ok c" and "\<And>s. hs_floor s \<le> pp_ceiling (ct_policy c) \<Longrightarrow> hs_floor (f s) \<le> pp_ceiling (ct_policy c)"
  shows "floors_ok (c\<lparr>ct_sessions := fmmap f (ct_sessions c)\<rparr>)"
  using assms by (fastforce simp: floors_ok_def books_agree_def intro!: fmpredI dest: fmpredD)

lemma floors_fields [simp]:
  "floors_ok (c\<lparr>ct_next_id := n\<rparr>) = floors_ok c" "floors_ok (c\<lparr>ct_interacting_until := t\<rparr>) = floors_ok c"
  "floors_ok (c\<lparr>ct_low_power := l\<rparr>) = floors_ok c"
  by (simp_all add: floors_ok_def books_agree_def applied_floor_def fun_eq_iff)

lemma power_step_floors:
  assumes "floors_ok c"
  shows "floors_ok (power_step call c)"
proof -
  have ok: "policy_ok (ct_policy c)" using assms by (simp add: floors_ok_def)
  then have base: "pp_baseline (ct_policy c) \<le> pp_ceiling (ct_policy c)"
    "pp_interaction (ct_policy c) \<le> pp_ceiling (ct_policy c)" by (auto simp: policy_ok_def)
  note rules = sync_session_floors rescan_floors ct_sync_floors put_floors
  note le = session_floor [OF assms] held_le [OF ok] learn_le apply_hint_le [OF ok] base
  show ?thesis
  proof (cases call)
    case (PcCreate env tgid uid tag tids target_ns now)
    then show ?thesis using assms le by (auto simp: ct_create_def Let_def intro!: rules)
  next
    case (PcClose env i)
    have "floors_ok (c\<lparr>ct_sessions := fmdrop i (ct_sessions c)\<rparr>)"
      using assms by (auto simp: floors_ok_def books_agree_def intro!: fmpredI dest: fmpredD split: if_splits)
    then show ?thesis using PcClose assms by (auto simp: ct_close_def split: option.split intro: rules)
  next
    case (PcTarget i target_ns)
    then show ?thesis using assms le by (auto simp: ct_set_target_def split: option.split intro!: rules)
  next
    case (PcReport env i work now)
    then show ?thesis using assms le by (auto simp: ct_report_def Let_def split: option.split intro!: rules)
  next
    case (PcHint env i hint now)
    then show ?thesis using assms le by (auto simp: ct_hint_def Let_def split: option.split intro!: rules)
  next
    case (PcPause env i)
    then show ?thesis using assms le by (auto simp: ct_pause_def split: option.split intro!: rules)
  next
    case (PcResume env i now)
    then show ?thesis using assms le by (auto simp: ct_resume_def split: option.split intro!: rules)
  next
    case (PcThreads env i tids now)
    then show ?thesis using assms le by (auto simp: set_threads_def Let_def split: option.split intro!: rules)
  next
    case (PcEfficient env i efficient)
    then show ?thesis using assms le by (auto simp: set_efficient_def split: option.split intro!: rules)
  next
    case (PcInteraction env now)
    let ?c = "c\<lparr>ct_interacting_until := Some (now + INTERACTION_HOLD)\<rparr>"
    have "floors_ok (?c\<lparr>ct_sessions := fmmap (seed_session (pp_interaction (ct_policy c)) now) (ct_sessions ?c)\<rparr>)"
      using assms le by (intro map_floors) (auto simp: seed_session_def)
    then show ?thesis using PcInteraction by (simp add: ct_interaction_def sync_all_def ct_sync_floors)
  next
    case (PcLowPower env enabled)
    then show ?thesis using assms by (simp add: set_low_power_def sync_all_def ct_sync_floors)
  next
    case (PcExpire env now)
    have "floors_ok (c\<lparr>ct_sessions := fmmap (expire_session now) (ct_sessions c)\<rparr>)"
      using assms by (intro map_floors) (auto simp: expire_session_def)
    then show ?thesis using PcExpire by (simp add: ct_expire_def Let_def ct_sync_floors)
  qed
qed


subsection \<open>Runs\<close>

lemma rescan_frame [simp]:
  "ct_policy (ct_rescan env i now c) = ct_policy c" "ct_next_id (ct_rescan env i now c) = ct_next_id c"
  "ct_interacting_until (ct_rescan env i now c) = ct_interacting_until c"
  "fmdom (ct_sessions (ct_rescan env i now c)) = fmdom (ct_sessions c)"
  by (auto simp: ct_rescan_def Let_def fmdomI split: option.split)

lemma sync_session_frame [simp]:
  "ct_policy (sync_session env i c) = ct_policy c" "ct_next_id (sync_session env i c) = ct_next_id c"
  "ct_interacting_until (sync_session env i c) = ct_interacting_until c"
  "fmdom (ct_sessions (sync_session env i c)) = fmdom (ct_sessions c)"
  by (simp_all add: sync_session_def split: option.split)

definition ids_below :: "controller \<Rightarrow> bool" where
  "ids_below c \<longleftrightarrow> (\<forall>i. i |\<in>| fmdom (ct_sessions c) \<longrightarrow> i < ct_next_id c)"

lemma power_step_ids:
  assumes "ids_below c" and "unat (ct_next_id c) < 2 ^ 64 - 1"
  shows "ids_below (power_step call c) \<and> unat (ct_next_id (power_step call c)) \<le> unat (ct_next_id c) + 1"
proof -
  have next_id: "unat (ct_next_id c + 1) = unat (ct_next_id c) + 1"
    using assms(2) by (simp add: unat_word_ariths)
  then have grows: "i < ct_next_id c \<Longrightarrow> i < ct_next_id c + 1" "ct_next_id c < ct_next_id c + 1" for i
    by (simp_all add: word_less_nat_alt)
  show ?thesis
    using assms(1) next_id grows
    by (cases call)
      (auto simp: ids_below_def ct_create_def ct_close_def ct_set_target_def ct_report_def ct_hint_def ct_pause_def
        ct_resume_def set_threads_def set_efficient_def ct_interaction_def set_low_power_def ct_expire_def
        sync_all_def Let_def fmdomI split: option.split if_splits)
qed

lemma power_step_settles:
  assumes "settled_but {} c" and "ids_below c"
  shows "settled_but {} (power_step call c)"
proof -
  have "fmlookup (ct_sessions c) (ct_next_id c) = None"
    using assms(2) by (metis ids_below_def fmdom_notD less_irrefl)
  then show ?thesis
    using assms(1)
    by (cases call) (simp_all add: create_settles close_settles target_settles report_settles hint_settles flag_settles
        threads_settles ct_interaction_def sync_all_settles set_low_power_def expire_settles)
qed


definition power_run :: "u32 list \<Rightarrow> power_call list \<Rightarrow> controller" where
  "power_run capacities calls = fold power_step calls (ct_new (policy_from_capacities capacities))"

lemma new_ok: "floors_ok (ct_new (policy_from_capacities capacities))"
  by (simp add: floors_ok_def ct_new_def books_agree_def kernel_floors_def applied_floor_def fun_eq_iff policy_from_ok)

lemma new_settled: "settled_but {} (ct_new p)" "ids_below (ct_new p)"
proof -
  have "demands (ct_new p) t = {}" for t by (simp add: demands_def ct_new_def)
  then show "settled_but {} (ct_new p)"
    by (simp add: settled_but_def settled_def wanted_floor_none) (simp add: ct_new_def applied_floor_def)
qed (simp add: ids_below_def ct_new_def)

lemma power_run_floors: "floors_ok (power_run capacities calls)"
proof -
  have "floors_ok c \<Longrightarrow> floors_ok (fold power_step calls c)" for c
    by (induction calls arbitrary: c) (simp_all add: power_step_floors)
  then show ?thesis by (simp add: power_run_def new_ok)
qed

lemma power_run_settled:
  assumes "length calls < 2 ^ 64 - 2"
  shows "settled_but {} (power_run capacities calls)"
proof -
  have "settled_but {} (fold power_step calls c)"
    if "settled_but {} c" "ids_below c" "unat (ct_next_id c) + length calls < 2 ^ 64 - 1" for c
    using that
  proof (induction calls arbitrary: c)
    case (Cons call calls)
    have "unat (ct_next_id c) < 2 ^ 64 - 1" using Cons.prems(3) by simp
    note ids = power_step_ids [OF Cons.prems(2) this, of call]
    show ?case
      using Cons.IH [OF power_step_settles [OF Cons.prems(1,2)]] ids Cons.prems(3) by simp
  qed simp
  from this [OF new_settled] show ?thesis
    using assms by (simp add: power_run_def ct_new_def)
qed

lemma round_up_bounds:
  assumes "unat d \<le> 819"
  shows "unat d \<le> unat (round_up d)" and "unat (round_up d) < unat d + 16"
proof -
  have q: "(unat d + 15) div 16 < 2 ^ 32" using assms by simp
  have "unat (round_up d) = (unat d + 15) div 16 * 16"
    using assms q by (simp add: round_up_def QUANTUM_def unat_word_ariths unat_of_nat take_bit_nat_eq_self)
  then show "unat d \<le> unat (round_up d)" and "unat (round_up d) < unat d + 16" by simp_all
qed

lemma demand_le: "hs_demand cap s \<le> cap"
  by (simp add: hs_demand_def)

lemma finite_demands: "finite (demands c t)"
proof -
  have "demands c t \<subseteq> hs_demand (ct_ceiling c) ` set (session_list c)"
    by (auto simp: demands_def set_session_list)
  then show ?thesis by (rule finite_subset) simp
qed

lemma wanted_floor_spec:
  assumes "ct_ceiling c \<le> 819"
  shows "wanted_floor c t \<le> ct_ceiling c"
    and "d \<in> demands c t \<Longrightarrow> d \<le> wanted_floor c t"
    and "wanted_floor c t \<noteq> 0 \<Longrightarrow> \<exists>d \<in> demands c t. unat (wanted_floor c t) < unat d + 16"
proof -
  let ?m = "Max (insert 0 (demands c t))"
  have fin: "finite (insert 0 (demands c t))" using finite_demands by simp
  have cap: "?m \<le> ct_ceiling c"
    using fin by (subst Max_le_iff) (auto simp: demands_def demand_le)
  then have m: "unat ?m \<le> 819" using assms by (simp add: word_le_nat_alt)
  note round = round_up_bounds [OF m]
  have w: "wanted_floor c t = (if ?m = 0 then 0 else min (round_up ?m) (ct_ceiling c))"
    by (simp add: wanted_floor_def thread_demand_eq Let_def)
  show "wanted_floor c t \<le> ct_ceiling c" by (simp add: w)
  have top: "?m \<le> wanted_floor c t"
    using round(1) cap by (auto simp: w word_le_nat_alt min_def)
  show "d \<le> wanted_floor c t" if "d \<in> demands c t"
    using Max_ge [OF fin, of d] that top by simp
  show "\<exists>d \<in> demands c t. unat (wanted_floor c t) < unat d + 16" if "wanted_floor c t \<noteq> 0"
  proof
    have "?m \<noteq> 0" using that by (auto simp: w)
    then show "?m \<in> demands c t" using Max_in [OF fin] by auto
    have "unat (wanted_floor c t) \<le> unat (round_up ?m)"
      using \<open>?m \<noteq> 0\<close> by (simp add: w min_def word_le_nat_alt)
    then show "unat (wanted_floor c t) < unat ?m + 16" using round(2) by simp
  qed
qed


subsection \<open>What the kernel is told\<close>

text \<open>
  C26.  The floors follow the sessions.  After any sequence of calls, whatever the kernel answers, each
  thread for which the last attempt did not fail has a floor of at most the ceiling in force that covers
  the demand of every session it belongs to and lies less than one quantum of 16 above one of those
  demands; a thread no session asks for has none.  The bound on the calls keeps the 64-bit session
  identities from wrapping around.
\<close>

theorem floors_follow_sessions:
  assumes "length calls < 2 ^ 64 - 2"
  shows "let c = power_run capacities calls; f = kernel_floors (ct_log c) t in
    attempt_failed (ct_log c) t \<or> f \<le> ct_ceiling c
      \<and> (\<forall>i s. fmlookup (ct_sessions c) i = Some s \<and> hs_contains t s \<longrightarrow> hs_demand (ct_ceiling c) s \<le> f)
      \<and> (f \<noteq> 0 \<longrightarrow> (\<exists>i s. fmlookup (ct_sessions c) i = Some s \<and> hs_contains t s
            \<and> unat f < unat (hs_demand (ct_ceiling c) s) + 16))"
proof -
  define c where "c = power_run capacities calls"
  have ok: "floors_ok c" and settled: "settled c t"
    using power_run_floors power_run_settled [OF assms] by (auto simp: c_def settled_but_def)
  have cap: "ct_ceiling c \<le> 819"
    using ok ceiling_le [of c] by (auto simp: floors_ok_def policy_ok_def)
  note spec = wanted_floor_spec [OF cap, where t = t]
  show ?thesis
  proof (cases "attempt_failed (ct_log c) t")
    case False
    then have f: "kernel_floors (ct_log c) t = wanted_floor c t"
      using ok settled by (simp add: floors_ok_def books_agree_def settled_def)
    have "hs_demand (ct_ceiling c) s \<le> wanted_floor c t"
      if "fmlookup (ct_sessions c) i = Some s" "hs_contains t s" for i s
      using that by (intro spec(2)) (auto simp: demands_def)
    moreover have "\<exists>i s. fmlookup (ct_sessions c) i = Some s \<and> hs_contains t s
        \<and> unat (wanted_floor c t) < unat (hs_demand (ct_ceiling c) s) + 16" if "wanted_floor c t \<noteq> 0"
      using spec(3) [OF that] by (auto simp: demands_def)
    ultimately show ?thesis
      unfolding Let_def c_def [symmetric] f using spec(1) by blast
  qed (simp add: c_def)
qed


definition example_power_env :: power_env where
  "example_power_env = \<lparr>act_apply = (\<lambda>n tid f. if tid = 9 then ApplyGone else ApplyOk), act_drivers = (\<lambda>tgid. [8, 30])\<rparr>"

definition example_power_calls :: "power_call list" where
  "example_power_calls =
     [PcCreate example_power_env 100 1000 1 [9, 7, 8] 5833333 0,
      PcReport example_power_env 1 [\<lparr>wk_total_ns = 8000000, wk_cpu_ns = 0\<rparr>] 6000000]"

lemma example_floor:
  "kernel_floors (ct_log (power_run [364, 364, 364, 829, 829, 829, 829, 1024] example_power_calls)) 7 = 624"
  "\<not> attempt_failed (ct_log (power_run [364, 364, 364, 829, 829, 829, 829, 1024] example_power_calls)) 7"
  by code_simp+

theorem floors_follow_sessions_witness:
  "let c = power_run [364, 364, 364, 829, 829, 829, 829, 1024] example_power_calls in
    kernel_floors (ct_log c) 7 = 624 \<and> 624 \<le> ct_ceiling c
    \<and> (\<exists>i s. fmlookup (ct_sessions c) i = Some s \<and> hs_contains 7 s
        \<and> 624 < unat (hs_demand (ct_ceiling c) s) + 16)"
proof -
  have "length example_power_calls < 2 ^ 64 - 2" by (simp add: example_power_calls_def)
  from floors_follow_sessions [OF this, of "[364, 364, 364, 829, 829, 829, 829, 1024]" 7] show ?thesis
    using example_floor by (simp add: Let_def)
qed

text \<open>No floor leaves the bounds of the policy, and no floor arithmetic wraps around within them.\<close>

lemma floors_within_policy:
  "let c = power_run capacities calls in
     kernel_floors (ct_log c) t \<le> pp_ceiling (ct_policy c) \<and> pp_ceiling (ct_policy c) \<le> 819
     \<and> pp_baseline (ct_policy c) \<le> pp_interaction (ct_policy c)
     \<and> pp_interaction (ct_policy c) \<le> pp_ceiling (ct_policy c)"
  using power_run_floors [of capacities calls] by (simp add: Let_def floors_ok_def policy_ok_def books_agree_def)

lemma adjust_over_target:
  assumes "0 < sint target_ns" and "sint target_ns < sint (wk_cpu_ns work)" and "f \<le> cap" and "cap \<le> 819"
  shows "f \<le> adjust f work target_ns cap" and "adjust f work target_ns cap = cap \<or> f + 16 \<le> adjust f work target_ns cap"
proof -
  define r where "r = max 16 (min 256 ((sint (wk_cpu_ns work) - sint target_ns) * 1024 div (2 * sint target_ns)))"
  have r: "16 \<le> r" "r \<le> 256" by (simp_all add: r_def)
  have small: "unat f \<le> 819" using assms(3,4) by (simp add: word_le_nat_alt)
  have word: "unat (word_of_int r :: u32) = nat r"
    using r by (simp add: unsigned_of_int take_bit_int_eq_self)
  have sum: "unat (f + word_of_int r) = unat f + nat r" "unat (f + 16) = unat f + 16"
    using r small word by (simp_all add: small_sum)
  have eq: "adjust f work target_ns cap = min (f + word_of_int r) cap"
    using assms(1,2) by (simp add: adjust_def Let_def r_def UTIL_MAX_def MIN_RAISE_def MAX_RAISE_def)
  show "f \<le> adjust f work target_ns cap"
    using assms(3) r sum by (simp add: eq word_le_nat_alt)
  show "adjust f work target_ns cap = cap \<or> f + 16 \<le> adjust f work target_ns cap"
    using r sum by (auto simp: eq min_def word_le_nat_alt)
qed

end
