(* ===== verification/Input_Protocol.thy ===== *)
theory Input_Protocol
  imports Prelude "HOL-Library.Log_Nat"
begin

section \<open>Routed input records\<close>

text \<open>
  \<open>graphics/droidloom-input-protocol/src/lib.rs\<close>: fixed-size records that carry touch and key samples
  and the display power from the host to the Android input receiver.  Shown: what an encoder accepts is
  decoded to the same sample, and everything that decodes is within the ranges of the platform.
\<close>

subsection \<open>Single-precision numbers\<close>

text \<open>
  Coordinates become \<open>f32\<close> on the Android side.  A number is its 24-bit significand and exponent, zero
  is \<open>(0, 0)\<close>; the values here are far from overflow and underflow.  Rounding is to nearest, ties to even.
\<close>

type_synonym f32 = "int \<times> int"

definition f32_round :: "int \<Rightarrow> int \<Rightarrow> f32" where
  "f32_round m e =
     (if m = 0 then (0, 0)
      else
        let b = bitlen (abs m) in
        if b \<le> 24 then (m * 2 ^ nat (24 - b), e - (24 - b))
        else
          let k = b - 24; unit = 2 ^ nat k; q = abs m div unit; r = abs m mod unit;
              up = (unit < 2 * r \<or> unit = 2 * r \<and> odd q);
              q1 = (if up then q + 1 else q)
          in if q1 = 2 ^ 24 then (sgn m * 2 ^ 23, e + k + 1) else (sgn m * q1, e + k))"

definition f32_of_int :: "int \<Rightarrow> f32" where
  "f32_of_int v = f32_round v 0"

text \<open>Division by a power of two is exact.\<close>

definition f32_fixed :: "i32 \<Rightarrow> f32" where
  "f32_fixed v = (case f32_of_int (sint v) of (m, e) \<Rightarrow> if m = 0 then (0, 0) else (m, e - 16))"

text \<open>A quotient of \<open>u16\<close> values: 49 bits of it and whether anything is left are enough to round.\<close>

definition f32_pressure :: "u16 \<Rightarrow> f32" where
  "f32_pressure v =
     (let n = uint v * 2 ^ 48 in
      f32_round (2 * (n div 65535) + (if n mod 65535 = 0 then 0 else 1)) (- 49))"

definition f32_add :: "f32 \<Rightarrow> f32 \<Rightarrow> f32" where
  "f32_add a b =
     (case a of (ma, ea) \<Rightarrow> case b of (mb, eb) \<Rightarrow>
        let e = min ea eb in f32_round (ma * 2 ^ nat (ea - e) + mb * 2 ^ nat (eb - e)) e)"

subsection \<open>Records\<close>

definition INPUT_MAGIC :: "u8 list" where "INPUT_MAGIC = [0x44, 0x4C, 0x49, 0x4E]"
definition INPUT_MAJOR :: u16 where "INPUT_MAJOR = 7"
definition INPUT_RECORD_BYTES :: nat where "INPUT_RECORD_BYTES = 48"
definition KIND_TOUCH :: u8 where "KIND_TOUCH = 1"
definition KIND_KEY :: u8 where "KIND_KEY = 2"
definition KIND_TASK_BOUNDS :: u8 where "KIND_TASK_BOUNDS = 3"
definition KIND_TASK_FOCUS :: u8 where "KIND_TASK_FOCUS = 4"
definition KIND_TASK_CLOSE :: u8 where "KIND_TASK_CLOSE = 5"
definition KIND_DISPLAY_POWER :: u8 where "KIND_DISPLAY_POWER = 6"
definition MAX_POINTER_ID :: u32 where "MAX_POINTER_ID = 31"
definition MAX_EVDEV_KEYCODE :: u32 where "MAX_EVDEV_KEYCODE = 0x2FF"
definition I32_MAX :: u32 where "I32_MAX = 0x7FFFFFFF"
definition I64_MAX :: u64 where "I64_MAX = 0x7FFFFFFFFFFFFFFF"

lemmas input_consts = INPUT_MAGIC_def INPUT_MAJOR_def INPUT_RECORD_BYTES_def KIND_TOUCH_def KIND_KEY_def
  KIND_TASK_BOUNDS_def KIND_TASK_FOCUS_def KIND_TASK_CLOSE_def KIND_DISPLAY_POWER_def MAX_POINTER_ID_def
  MAX_EVDEV_KEYCODE_def

datatype input_error =
    IeAndroidDisplay | IePointerId | IeKeyCode | IeAction | IeScale | IeCoordinate | IeTaskId | IeTaskExtent
  | IeIncarnation | IeRecord

definition scale_fixed :: "i32 \<Rightarrow> u32 \<Rightarrow> u32 \<Rightarrow> (input_error, i32) result" where
  "scale_fixed v numerator denominator =
     (if numerator = 0 \<or> denominator = 0 then Inl IeScale
      else
        let product = sint v * uint numerator in
        if \<not> (- (2 ^ 63) \<le> product \<and> product < 2 ^ 63) then Inl IeCoordinate
        else
          let scaled = sgn product * (abs product div uint denominator) in
          if - (2 ^ 31) \<le> scaled \<and> scaled < 2 ^ 31 then Inr (word_of_int scaled) else Inl IeCoordinate)"

definition task_id_u32 :: "u64 \<Rightarrow> (input_error, u32) result" where
  "task_id_u32 task =
     (if 2 ^ 32 \<le> uint task then Inl IeTaskId
      else let t = ucast task :: u32 in if t = 0 \<or> I32_MAX < t then Inl IeTaskId else Inr t)"

definition check_addressee :: "u32 \<Rightarrow> u64 \<Rightarrow> u64 \<Rightarrow> (input_error, u32) result" where
  "check_addressee display task incarnation =
     bind_result (reject_if (incarnation = 0 \<or> I64_MAX < incarnation) IeIncarnation) (\<lambda>_.
     bind_result (reject_if (I32_MAX < display) IeAndroidDisplay) (\<lambda>_. task_id_u32 task))"

definition input_header :: "u8 \<Rightarrow> u8 \<Rightarrow> u8 list" where
  "input_header kind action = INPUT_MAGIC @ to_le_bytes 2 INPUT_MAJOR @ [kind, action]"

definition encode_touch ::
  "u32 \<Rightarrow> u64 \<Rightarrow> u64 \<Rightarrow> u8 \<Rightarrow> u32 \<Rightarrow> i32 \<Rightarrow> i32 \<Rightarrow> u16 \<Rightarrow> u64 \<Rightarrow> (input_error, u8 list) result" where
  "encode_touch display task timestamp action pointer x y pressure incarnation =
     bind_result (check_addressee display task incarnation) (\<lambda>t.
     bind_result (reject_if (MAX_POINTER_ID < pointer) IePointerId) (\<lambda>_.
     bind_result (reject_if (3 < action) IeAction) (\<lambda>_.
     Inr (input_header KIND_TOUCH action @ to_le_bytes 4 display @ to_le_bytes 4 pointer @ to_le_bytes 8 timestamp
       @ to_le_bytes 4 x @ to_le_bytes 4 y @ to_le_bytes 2 pressure @ [0, 0] @ to_le_bytes 4 t
       @ to_le_bytes 8 incarnation))))"

definition encode_key ::
  "u32 \<Rightarrow> u64 \<Rightarrow> u64 \<Rightarrow> u8 \<Rightarrow> u32 \<Rightarrow> u16 \<Rightarrow> u64 \<Rightarrow> u64 \<Rightarrow> (input_error, u8 list) result" where
  "encode_key display task timestamp action keycode rep serial incarnation =
     bind_result (check_addressee display task incarnation) (\<lambda>t.
     bind_result (reject_if (MAX_EVDEV_KEYCODE < keycode) IeKeyCode) (\<lambda>_.
     bind_result (reject_if (1 < action) IeAction) (\<lambda>_.
     Inr (input_header KIND_KEY action @ to_le_bytes 4 display @ to_le_bytes 4 keycode @ to_le_bytes 8 timestamp
       @ to_le_bytes 2 rep @ [0, 0] @ to_le_bytes 8 serial @ to_le_bytes 4 t @ to_le_bytes 8 incarnation))))"

definition encode_task_bounds ::
  "u64 \<Rightarrow> u32 \<Rightarrow> u32 \<Rightarrow> u32 \<Rightarrow> u32 \<Rightarrow> u32 \<Rightarrow> (input_error, u8 list) result" where
  "encode_task_bounds task display width height numerator denominator =
     bind_result (task_id_u32 task) (\<lambda>t.
     bind_result (reject_if (width = 0 \<or> I32_MAX < width \<or> height = 0 \<or> I32_MAX < height) IeTaskExtent) (\<lambda>_.
     bind_result (reject_if (I32_MAX < display) IeAndroidDisplay) (\<lambda>_.
     bind_result (reject_if (numerator = 0 \<or> denominator = 0) IeScale) (\<lambda>_.
     Inr (input_header KIND_TASK_BOUNDS 0 @ to_le_bytes 4 t @ to_le_bytes 4 width @ to_le_bytes 4 height
       @ to_le_bytes 4 display @ to_le_bytes 4 numerator @ to_le_bytes 4 denominator @ replicate 16 0)))))"

definition encode_task_focus :: "u64 \<Rightarrow> bool \<Rightarrow> (input_error, u8 list) result" where
  "encode_task_focus task focused =
     bind_result (task_id_u32 task) (\<lambda>t.
     Inr (input_header KIND_TASK_FOCUS (if focused then 1 else 0) @ to_le_bytes 4 t @ replicate 36 0))"

definition encode_task_close :: "u64 \<Rightarrow> (input_error, u8 list) result" where
  "encode_task_close task =
     bind_result (task_id_u32 task) (\<lambda>t. Inr (input_header KIND_TASK_CLOSE 0 @ to_le_bytes 4 t @ replicate 36 0))"

definition encode_display_power :: "bool \<Rightarrow> u8 list" where
  "encode_display_power powered = input_header KIND_DISPLAY_POWER (if powered then 1 else 0) @ replicate 40 0"

datatype payload = PTouch f32 f32 f32 | PKey u16 u64

record sample =
  sa_display :: i32
  sa_task :: i32
  sa_incarnation :: u64
  sa_timestamp :: u64
  sa_action :: u8
  sa_code :: u32
  sa_payload :: payload

datatype input_record = RInput sample | RPower bool

definition field_at :: "nat \<Rightarrow> u8 list \<Rightarrow> nat \<Rightarrow> 'a::len word" where
  "field_at k bytes offset = from_le_bytes (take k (drop offset bytes))"

definition decode_payload :: "u8 list \<Rightarrow> (input_error, payload) result" where
  "decode_payload bytes =
     (let kind = bytes ! 6; action = bytes ! 7; code = field_at 4 bytes 12 :: u32 in
      if kind = KIND_TOUCH \<and> action \<le> 3 \<and> code \<le> MAX_POINTER_ID \<and> take 2 (drop 34 bytes) = [0, 0]
      then Inr (PTouch (f32_fixed (field_at 4 bytes 24)) (f32_fixed (field_at 4 bytes 28))
             (f32_pressure (field_at 2 bytes 32)))
      else if kind = KIND_KEY \<and> action \<le> 1 \<and> code \<le> MAX_EVDEV_KEYCODE \<and> take 2 (drop 26 bytes) = [0, 0]
      then Inr (PKey (field_at 2 bytes 24) (field_at 8 bytes 28))
      else Inl IeRecord)"

definition decode_input_sample :: "u8 list \<Rightarrow> (input_error, sample) result" where
  "decode_input_sample bytes =
     (let display = field_at 4 bytes 8 :: u32; task = field_at 4 bytes 36 :: u32;
          incarnation = field_at 8 bytes 40 :: u64; timestamp = field_at 8 bytes 16 :: u64 in
      bind_result (reject_if (I32_MAX < display) IeAndroidDisplay) (\<lambda>_.
      bind_result (reject_if (I32_MAX < task) IeTaskId) (\<lambda>_.
      bind_result (reject_if (task = 0) IeTaskId) (\<lambda>_.
      bind_result (reject_if (incarnation = 0 \<or> I64_MAX < incarnation) IeIncarnation) (\<lambda>_.
      bind_result (reject_if (timestamp = 0 \<or> I64_MAX < timestamp) IeRecord) (\<lambda>_.
      bind_result (decode_payload bytes) (\<lambda>p.
      Inr \<lparr>sa_display = display, sa_task = task, sa_incarnation = incarnation, sa_timestamp = timestamp,
           sa_action = bytes ! 7, sa_code = field_at 4 bytes 12, sa_payload = p\<rparr>)))))))"

definition decode_input_record :: "u8 list \<Rightarrow> (input_error, input_record) result" where
  "decode_input_record bytes =
     (if length bytes \<noteq> INPUT_RECORD_BYTES \<or> take 4 bytes \<noteq> INPUT_MAGIC
        \<or> take 2 (drop 4 bytes) \<noteq> to_le_bytes 2 INPUT_MAJOR
      then Inl IeRecord
      else if bytes ! 6 = KIND_DISPLAY_POWER then
        (if 1 < bytes ! 7 \<or> list_ex (\<lambda>b. b \<noteq> 0) (drop 8 bytes) then Inl IeRecord
         else Inr (RPower (bytes ! 7 \<noteq> 0)))
      else bind_result (decode_input_sample bytes) (\<lambda>s. Inr (RInput s)))"

subsection \<open>Round trips\<close>

lemma field_at_parts:
  "length xs = offset \<Longrightarrow> length bs = k \<Longrightarrow> field_at k (xs @ bs @ ys) offset = from_le_bytes bs"
  by (simp add: field_at_def)

lemma le_fields [simp]:
  "from_le_bytes (to_le_bytes 2 (w2 :: u16)) = w2" "from_le_bytes (to_le_bytes 4 (w4 :: u32)) = w4"
  "from_le_bytes (to_le_bytes 8 (w8 :: u64)) = w8"
  by (simp_all add: from_le_to_le)

lemma addressee:
  "check_addressee display task incarnation = Inr t \<Longrightarrow>
     t = ucast task \<and> t \<noteq> 0 \<and> t \<le> I32_MAX \<and> display \<le> I32_MAX \<and> incarnation \<noteq> 0 \<and> incarnation \<le> I64_MAX"
  by (auto simp: check_addressee_def task_id_u32_def reject_if_def Let_def bind_result_def split: if_splits)

lemma header_decode:
  assumes "length rest = 40" and "kind \<noteq> KIND_DISPLAY_POWER"
  shows "decode_input_record (input_header kind action @ rest)
    = bind_result (decode_input_sample (input_header kind action @ rest)) (\<lambda>s. Inr (RInput s))"
  using assms by (simp add: decode_input_record_def input_header_def input_consts nth_append)

lemma header_bytes [simp]:
  "(input_header kind action @ rest) ! 6 = kind" "(input_header kind action @ rest) ! 7 = action"
  "drop 8 (input_header kind action @ rest) = rest" "length (input_header kind action) = 8"
  by (simp_all add: input_header_def input_consts nth_append)

lemma field_after_header: "8 \<le> offset \<Longrightarrow> field_at k (input_header kind action @ rest) offset = field_at k rest (offset - 8)"
  by (simp add: field_at_def)

lemma drop_after_header: "8 \<le> offset \<Longrightarrow> drop offset (input_header kind action @ rest) = drop (offset - 8) rest"
  by simp

lemma touch_decodes:
  assumes "encode_touch display task timestamp action pointer x y pressure incarnation = Inr bytes"
    and "timestamp \<noteq> 0" and "timestamp \<le> I64_MAX"
  shows "decode_input_record bytes = Inr (RInput \<lparr>sa_display = display, sa_task = ucast task, sa_incarnation = incarnation,
    sa_timestamp = timestamp, sa_action = action, sa_code = pointer,
    sa_payload = PTouch (f32_fixed x) (f32_fixed y) (f32_pressure pressure)\<rparr>)"
proof -
  obtain t where t: "check_addressee display task incarnation = Inr t" and small: "pointer \<le> MAX_POINTER_ID" "action \<le> 3"
    and bytes: "bytes = input_header KIND_TOUCH action @ to_le_bytes 4 display @ to_le_bytes 4 pointer
      @ to_le_bytes 8 timestamp @ to_le_bytes 4 x @ to_le_bytes 4 y @ to_le_bytes 2 pressure @ [0, 0] @ to_le_bytes 4 t
      @ to_le_bytes 8 incarnation"
    using assms(1) by (auto simp: encode_touch_def reject_if_def bind_result_def split: sum.splits if_splits)
  note addr = addressee [OF t]
  let ?rest = "to_le_bytes 4 display @ to_le_bytes 4 pointer
      @ to_le_bytes 8 timestamp @ to_le_bytes 4 x @ to_le_bytes 4 y @ to_le_bytes 2 pressure @ [0, 0] @ to_le_bytes 4 t
      @ to_le_bytes 8 incarnation"
  have fields: "field_at 4 ?rest 0 = display" "field_at 4 ?rest 4 = pointer" "field_at 8 ?rest 8 = timestamp"
    "field_at 4 ?rest 16 = x" "field_at 4 ?rest 20 = y" "field_at 2 ?rest 24 = pressure" "field_at 4 ?rest 28 = t"
    "field_at 8 ?rest 32 = incarnation" "take 2 (drop 26 ?rest) = [0, 0]"
    by (simp_all add: field_at_def)
  have "decode_payload bytes = Inr (PTouch (f32_fixed x) (f32_fixed y) (f32_pressure pressure))"
    unfolding bytes decode_payload_def Let_def using small fields by (simp add: field_after_header)
  then have "decode_input_sample bytes = Inr \<lparr>sa_display = display, sa_task = t, sa_incarnation = incarnation,
    sa_timestamp = timestamp, sa_action = action, sa_code = pointer,
    sa_payload = PTouch (f32_fixed x) (f32_fixed y) (f32_pressure pressure)\<rparr>"
    using addr assms(2,3) fields unfolding bytes
    by (auto simp: decode_input_sample_def Let_def field_after_header reject_if_def)
  then show ?thesis
    using header_decode [of ?rest KIND_TOUCH action] addr unfolding bytes by (simp add: input_consts)
qed

lemma key_decodes:
  assumes "encode_key display task timestamp action keycode rep serial incarnation = Inr bytes"
    and "timestamp \<noteq> 0" and "timestamp \<le> I64_MAX"
  shows "decode_input_record bytes = Inr (RInput \<lparr>sa_display = display, sa_task = ucast task, sa_incarnation = incarnation,
    sa_timestamp = timestamp, sa_action = action, sa_code = keycode, sa_payload = PKey rep serial\<rparr>)"
proof -
  obtain t where t: "check_addressee display task incarnation = Inr t" and small: "keycode \<le> MAX_EVDEV_KEYCODE" "action \<le> 1"
    and bytes: "bytes = input_header KIND_KEY action @ to_le_bytes 4 display @ to_le_bytes 4 keycode
      @ to_le_bytes 8 timestamp @ to_le_bytes 2 rep @ [0, 0] @ to_le_bytes 8 serial @ to_le_bytes 4 t
      @ to_le_bytes 8 incarnation"
    using assms(1) by (auto simp: encode_key_def reject_if_def bind_result_def split: sum.splits if_splits)
  note addr = addressee [OF t]
  let ?rest = "to_le_bytes 4 display @ to_le_bytes 4 keycode
      @ to_le_bytes 8 timestamp @ to_le_bytes 2 rep @ [0, 0] @ to_le_bytes 8 serial @ to_le_bytes 4 t
      @ to_le_bytes 8 incarnation"
  have fields: "field_at 4 ?rest 0 = display" "field_at 4 ?rest 4 = keycode" "field_at 8 ?rest 8 = timestamp"
    "field_at 2 ?rest 16 = rep" "field_at 8 ?rest 20 = serial" "field_at 4 ?rest 28 = t"
    "field_at 8 ?rest 32 = incarnation" "take 2 (drop 18 ?rest) = [0, 0]"
    by (simp_all add: field_at_def)
  have "decode_payload bytes = Inr (PKey rep serial)"
    unfolding bytes decode_payload_def Let_def using small fields
    by (simp add: field_after_header input_consts)
  then have "decode_input_sample bytes = Inr \<lparr>sa_display = display, sa_task = t, sa_incarnation = incarnation,
    sa_timestamp = timestamp, sa_action = action, sa_code = keycode, sa_payload = PKey rep serial\<rparr>"
    using addr assms(2,3) fields unfolding bytes
    by (auto simp: decode_input_sample_def Let_def field_after_header reject_if_def)
  then show ?thesis
    using header_decode [of ?rest KIND_KEY action] addr unfolding bytes by (simp add: input_consts)
qed

lemma power_decodes: "decode_input_record (encode_display_power powered) = Inr (RPower powered)"
  by (simp add: decode_input_record_def encode_display_power_def) (simp add: input_header_def input_consts list_ex_iff)

lemma retired_kinds_refused:
  "encode_task_bounds task display width height n d = Inr bytes \<Longrightarrow> is_ok (decode_input_record bytes) \<Longrightarrow> False"
  "encode_task_focus task focused = Inr bytes \<Longrightarrow> is_ok (decode_input_record bytes) \<Longrightarrow> False"
  "encode_task_close task = Inr bytes \<Longrightarrow> is_ok (decode_input_record bytes) \<Longrightarrow> False"
  by (auto simp: encode_task_bounds_def encode_task_focus_def encode_task_close_def bind_result_def reject_if_def
      header_decode decode_input_sample_def decode_payload_def Let_def is_ok_def input_consts split: sum.splits if_splits)

text \<open>
  C25.  Input records round-trip.  A touch or key sample that its encoder accepts, with a time the receiver
  accepts, is decoded to the same addressee, time, action, code and payload, with coordinates and pressure
  rounded to single precision; a power record is decoded to its state; and the retired task-control
  records are refused.
\<close>

theorem input_round_trip:
  assumes "timestamp \<noteq> 0" and "timestamp \<le> I64_MAX"
  shows "(encode_touch display task timestamp action code x y pressure incarnation = Inr touch \<longrightarrow>
      decode_input_record touch = Inr (RInput \<lparr>sa_display = display, sa_task = ucast task,
        sa_incarnation = incarnation, sa_timestamp = timestamp, sa_action = action, sa_code = code,
        sa_payload = PTouch (f32_fixed x) (f32_fixed y) (f32_pressure pressure)\<rparr>))
    \<and> (encode_key display task timestamp action code rep serial incarnation = Inr key \<longrightarrow>
      decode_input_record key = Inr (RInput \<lparr>sa_display = display, sa_task = ucast task,
        sa_incarnation = incarnation, sa_timestamp = timestamp, sa_action = action, sa_code = code,
        sa_payload = PKey rep serial\<rparr>))
    \<and> decode_input_record (encode_display_power powered) = Inr (RPower powered)
    \<and> (encode_task_focus task focused = Inr control \<or> encode_task_close task = Inr control
        \<or> encode_task_bounds task display width height n d = Inr control \<longrightarrow> \<not> is_ok (decode_input_record control))"
  by (intro conjI impI notI; (elim disjE)?)
    (simp_all add: touch_decodes [OF _ assms] key_decodes [OF _ assms] power_decodes, (erule (1) retired_kinds_refused)+)

theorem input_round_trip_witness:
  "\<exists>touch key. encode_touch 0 42 100 0 2 327680 (- 196608) (- 1) 7 = Inr touch
    \<and> encode_key 0 42 100 0 2 0 15 7 = Inr key
    \<and> decode_input_record touch = Inr (RInput \<lparr>sa_display = 0, sa_task = 42, sa_incarnation = 7, sa_timestamp = 100,
        sa_action = 0, sa_code = 2, sa_payload = PTouch (10485760, - 21) (- 12582912, - 22) (8388608, - 23)\<rparr>)
    \<and> decode_input_record key = Inr (RInput \<lparr>sa_display = 0, sa_task = 42, sa_incarnation = 7, sa_timestamp = 100,
        sa_action = 0, sa_code = 2, sa_payload = PKey 0 15\<rparr>)"
proof -
  have "\<exists>touch. encode_touch 0 42 100 0 2 327680 (- 196608) (- 1) 7 = Inr touch"
    "\<exists>key. encode_key 0 42 100 0 2 0 15 7 = Inr key"
    by (simp_all add: encode_touch_def encode_key_def check_addressee_def task_id_u32_def reject_if_def input_consts
        I32_MAX_def I64_MAX_def)
  moreover have "f32_fixed 327680 = (10485760, - 21)" "f32_fixed (- 196608) = (- 12582912, - 22)"
    "f32_pressure (- 1) = (8388608, - 23)" by code_simp+
  ultimately show ?thesis
    using input_round_trip [of 100 0 42 0 2 327680 "- 196608" "- 1" 7] by (auto simp: I64_MAX_def)
qed

end
