(* ===== verification/Direct_Input.thy ===== *)
theory Direct_Input
  imports Input_Protocol Ipc_Socket "HOL-Library.Product_Lexorder"
begin

section \<open>The host's input writer\<close>

text \<open>
  \<open>DirectInput\<close> of \<open>graphics/droidloom-wayland/src/input.rs\<close>: touch and key events of the presenter are
  scaled, given Android pointer identities and written to the input socket.  The writer remembers which
  contacts its records have opened, because a gesture has to be ended or cancelled on the route on which
  it began.  \<open>di_kernel\<close> holds the answers of the socket that are still to come (when none is left the socket
  would block), \<open>di_sent\<close> the records the current connection has accepted; the source has no such fields.
  Shown, of the records alone: what was sent and what is queued is, in order, a well-formed stream of
  contacts, and the contacts that it leaves open are exactly those that the writer remembers.  What Android
  is given for them is another matter: the receiving engine (\<open>Input_Engine\<close>) passes on the contacts of one
  task on each display and suppresses those of the others.
\<close>

subsection \<open>State\<close>

definition QUEUE_LIMIT :: nat where "QUEUE_LIMIT = 512"

record input_route =
  ir_task :: u64
  ir_display :: u32
  ir_incarnation :: u64

type_synonym pointer_map = "(u32 \<times> u32, u32 \<times> input_route) fmap"

record direct_input =
  di_socket :: bool
  di_queue :: "u8 list list"
  di_pointers :: pointer_map
  di_generation :: u64
  di_requested :: bool
  di_power :: "bool option"
  di_sent :: "u8 list list"
  di_kernel :: "(ipc_error, unit) result list"

type_synonym 'a di_op = "(string, direct_input, 'a) op"

definition di_default :: direct_input where
  "di_default = \<lparr>di_socket = False, di_queue = [], di_pointers = fmempty, di_generation = 0, di_requested = False,
     di_power = None, di_sent = [], di_kernel = []\<rparr>"

definition di_disconnect :: "direct_input \<Rightarrow> direct_input" where
  "di_disconnect d =
     d\<lparr>di_socket := False, di_queue := [], di_pointers := fmempty, di_requested := False, di_sent := []\<rparr>"

definition di_fail :: "string \<Rightarrow> 'a di_op" where
  "di_fail message = (\<lambda>d. (Inl message, di_disconnect d))"

text \<open>Running out of generations is a panic of the code.\<close>

definition next_request :: "u64 option di_op" where
  "next_request = (\<lambda>d.
     if di_socket d \<or> di_requested d then (Inr None, d)
     else case checked_add (di_generation d) 1 of
       None \<Rightarrow> (Inl ''input generation exhausted'', d)
     | Some g \<Rightarrow> (Inr (Some g), d\<lparr>di_generation := g, di_requested := True\<rparr>))"

subsection \<open>The queue\<close>

fun flush_with :: "(ipc_error, unit) result list \<Rightarrow> unit di_op" where
  "flush_with [] d = (Inr (), d\<lparr>di_kernel := []\<rparr>)"
| "flush_with (answer # rest) d =
     (if \<not> di_socket d \<or> di_queue d = [] then (Inr (), d\<lparr>di_kernel := answer # rest\<rparr>)
      else case answer of
        Inr _ \<Rightarrow> flush_with rest (d\<lparr>di_queue := tl (di_queue d), di_sent := di_sent d @ [hd (di_queue d)]\<rparr>)
      | Inl e \<Rightarrow>
          if e = IpcIo 11 then (Inr (), d\<lparr>di_kernel := rest\<rparr>)
          else if e = IpcIo 4 then flush_with rest d
          else di_fail ''native input disconnected'' (d\<lparr>di_kernel := rest\<rparr>))"

definition di_flush :: "unit di_op" where
  "di_flush = (\<lambda>d. flush_with (di_kernel d) d)"

definition di_enqueue :: "u8 list \<Rightarrow> unit di_op" where
  "di_enqueue record =
     op_bind di_flush (\<lambda>_ d.
     if length (di_queue d) = QUEUE_LIMIT then di_fail ''native input queue exhausted; cancelling stream'' d
     else di_flush (d\<lparr>di_queue := di_queue d @ [record]\<rparr>))"

subsection \<open>Connections and power\<close>

definition di_attach ::
  "(string, unit) result \<Rightarrow> (string, nat) result \<Rightarrow> (string, unit) result \<Rightarrow> u64 \<Rightarrow> u16 \<Rightarrow> bool di_op" where
  "di_attach socket peer nonblocking generation wire = (\<lambda>d.
     if generation \<noteq> di_generation d \<or> \<not> di_requested d then (Inr False, d)
     else if wire \<noteq> INPUT_MAJOR then (Inl ''native input wire ABI'', d)
     else
       op_bind (op_lift socket) (\<lambda>_.
       op_bind (op_lift peer) (\<lambda>pid.
       op_bind (op_lift (reject_if (pid = 0) ''native input descriptor is not connected'')) (\<lambda>_.
       op_bind (op_lift nonblocking) (\<lambda>_ d1.
         let d2 = (di_disconnect d1)\<lparr>di_socket := True\<rparr> in
         case di_power d2 of
           None \<Rightarrow> (Inr True, d2)
         | Some on \<Rightarrow> op_bind (di_enqueue (encode_display_power on)) (\<lambda>_. op_return True) d2)))) d)"

definition di_set_power :: "bool \<Rightarrow> unit di_op" where
  "di_set_power on = (\<lambda>d.
     if di_power d = Some on then (Inr (), d)
     else
       let d1 = d\<lparr>di_power := Some on\<rparr> in
       op_bind (if di_socket d1 then di_enqueue (encode_display_power on) else op_return ())
         (\<lambda>_ d2. (Inr (), if on then d2 else d2\<lparr>di_pointers := fmempty\<rparr>)) d1)"

subsection \<open>Contacts\<close>

definition pointer_entries :: "pointer_map \<Rightarrow> ((u32 \<times> u32) \<times> u32 \<times> input_route) list" where
  "pointer_entries m = map (\<lambda>k. (k, the (fmlookup m k))) (sorted_list_of_fset (fmdom m))"

text \<open>One entry for each route of a display, with the first of its contacts.\<close>

definition display_routes :: "u32 \<Rightarrow> pointer_map \<Rightarrow> (u32 \<times> input_route) list" where
  "display_routes display m =
     fold (\<lambda>((owned, _), (i, route)) routes.
         if owned = display \<and> \<not> list_ex (\<lambda>(_, owner). owner = route) routes then routes @ [(i, route)] else routes)
       (pointer_entries m) []"

definition cancel_record :: "u32 \<Rightarrow> u64 \<Rightarrow> u32 \<times> input_route \<Rightarrow> (input_error, u8 list) result" where
  "cancel_record display timestamp =
     (\<lambda>(i, route). encode_touch display (ir_task route) timestamp (touch_action_code TouchCancel) i 0 0 0 (ir_incarnation route))"

fun cancel_routes :: "u32 \<Rightarrow> u64 \<Rightarrow> (u32 \<times> input_route) list \<Rightarrow> unit di_op" where
  "cancel_routes display timestamp [] = op_return ()"
| "cancel_routes display timestamp (r # rs) =
     op_bind (op_lift (map_err (\<lambda>_. ''invalid input'') (cancel_record display timestamp r))) (\<lambda>record.
     op_bind (di_enqueue record) (\<lambda>_. cancel_routes display timestamp rs))"

definition cancel_display :: "u32 \<Rightarrow> u64 \<Rightarrow> unit di_op" where
  "cancel_display display timestamp = (\<lambda>d.
     op_bind (cancel_routes display timestamp (display_routes display (di_pointers d)))
       (\<lambda>_ d1. (Inr (), d1\<lparr>di_pointers := fmfilter (\<lambda>(owned, _). owned \<noteq> display) (di_pointers d1)\<rparr>)) d)"

text \<open>The loop runs while contacts are left; each pass ends at least the first one.\<close>

fun cancel_loop :: "nat \<Rightarrow> u64 \<Rightarrow> unit di_op" where
  "cancel_loop 0 timestamp d = (if di_pointers d = fmempty then Inr () else Inl ''out of fuel'', d)"
| "cancel_loop (Suc fuel) timestamp d =
     (case pointer_entries (di_pointers d) of
        [] \<Rightarrow> (Inr (), d)
      | (_, (_, route)) # _ \<Rightarrow>
          op_bind (cancel_display (ir_display route) timestamp) (\<lambda>_. cancel_loop fuel timestamp) d)"

definition cancel_all :: "u64 \<Rightarrow> unit di_op" where
  "cancel_all timestamp = (\<lambda>d. cancel_loop (fmlen (di_pointers d)) timestamp d)"

definition retire_route :: "input_route \<Rightarrow> u64 \<Rightarrow> unit di_op" where
  "retire_route route timestamp = (\<lambda>d.
     if list_ex (\<lambda>(_, (_, owner)). owner = route) (pointer_entries (di_pointers d))
     then cancel_display (ir_display route) timestamp d else (Inr (), d))"

definition free_pointer_id :: "u32 \<Rightarrow> pointer_map \<Rightarrow> u32 option" where
  "free_pointer_id display m =
     find (\<lambda>candidate. \<not> list_ex (\<lambda>((owned, _), (i, _)). owned = display \<and> i = candidate) (pointer_entries m))
       (map word_of_nat [0..<unat MAX_POINTER_ID + 1])"

text \<open>Ownership of a contact: the route and the Android identity of the sample, when there is one.\<close>

definition touch_owner :: "input_route \<Rightarrow> touch_action \<Rightarrow> u32 \<Rightarrow> (u32 \<times> input_route) option di_op" where
  "touch_owner route action pointer = (\<lambda>d.
     let key = (ir_display route, pointer) in
     if action = TouchDown then
       (if key |\<in>| fmdom (di_pointers d) then di_fail ''duplicate touch down'' d
        else case free_pointer_id (ir_display route) (di_pointers d) of
          None \<Rightarrow> di_fail ''touch identities exhausted'' d
        | Some i \<Rightarrow> (Inr (Some (i, route)), d\<lparr>di_pointers := fmupd key (i, route) (di_pointers d)\<rparr>))
     else case fmlookup (di_pointers d) key of
       None \<Rightarrow> (Inr None, d)
     | Some (i, original) \<Rightarrow>
         (Inr (Some (i, original)),
          if action = TouchUp then d\<lparr>di_pointers := fmdrop key (di_pointers d)\<rparr> else d))"

definition or_invalid :: "(input_error, u8 list) result \<Rightarrow> unit di_op" where
  "or_invalid encoded =
     (case encoded of Inl _ \<Rightarrow> di_fail ''invalid native input'' | Inr record \<Rightarrow> di_enqueue record)"

definition send_touch ::
  "input_route \<Rightarrow> u32 \<times> u32 \<Rightarrow> u64 \<Rightarrow> touch_action \<Rightarrow> u32 \<Rightarrow> i32 \<Rightarrow> i32 \<Rightarrow> u16 \<Rightarrow> unit di_op" where
  "send_touch route scale timestamp action pointer x_fixed y_fixed pressure =
     (case (scale_fixed x_fixed (fst scale) (snd scale), scale_fixed y_fixed (fst scale) (snd scale)) of
        (Inr x, Inr y) \<Rightarrow>
          op_bind (touch_owner route action pointer) (\<lambda>owner.
          case owner of
            None \<Rightarrow> op_return ()
          | Some (i, r) \<Rightarrow>
              or_invalid (encode_touch (ir_display r) (ir_task r) timestamp (touch_action_code action) i x y pressure
                (ir_incarnation r)))
      | _ \<Rightarrow> di_fail ''invalid touch scale or coordinates'')"

fun di_event :: "input_route \<Rightarrow> u32 \<times> u32 \<Rightarrow> u64 \<Rightarrow> u64 \<Rightarrow> input_event \<Rightarrow> unit di_op" where
  "di_event route scale serial timestamp (Touch action pointer x y pressure) =
     (if action = TouchCancel then cancel_display (ir_display route) timestamp
      else send_touch route scale timestamp action pointer x y pressure)"
| "di_event route scale serial timestamp (Key action keycode rep) =
     or_invalid (encode_key (ir_display route) (ir_task route) timestamp (key_action_code action) keycode rep serial
       (ir_incarnation route))"
| "di_event route scale serial timestamp (Navigation _) = op_lift (Inl ''navigation injection is not implemented'')"

definition di_send :: "input_route \<Rightarrow> u32 \<times> u32 \<Rightarrow> u64 \<Rightarrow> u64 \<Rightarrow> input_event \<Rightarrow> unit di_op" where
  "di_send route scale serial timestamp event = (\<lambda>d.
     if \<not> di_socket d then (Inl ''native input is reconnecting'', d)
     else di_event route scale serial timestamp event d)"

text \<open>\<open>ready\<close>: the poll found input, a hang-up or an error on the descriptor.\<close>

definition notify_ready :: "bool \<Rightarrow> direct_input \<Rightarrow> direct_input" where
  "notify_ready ready d = (if di_socket d \<and> ready then di_disconnect d else d)"

subsection \<open>The contacts that a stream of records leaves open\<close>

text \<open>
  Read on the wire, without any state of a receiver: who has which Android pointer identity of a display
  open.  A down record opens a free identity for its task and incarnation; move and up records name an
  identity that the same task and incarnation has open, as does a cancellation, which closes all contacts
  that these two have open on the display; powering the displays off closes all.  A stream with any other
  record is not well-formed.
\<close>

type_synonym contacts = "u32 \<times> u32 \<Rightarrow> (u32 \<times> u64) option"

definition stream_sample :: "sample \<Rightarrow> contacts \<Rightarrow> contacts option" where
  "stream_sample s c =
     (let key = (sa_display s, sa_code s); who = (sa_task s, sa_incarnation s) in
      case sa_payload s of
        PKey _ _ \<Rightarrow> Some c
      | PTouch _ _ _ \<Rightarrow>
          if sa_action s = 0 then (if c key = None then Some (c(key \<mapsto> who)) else None)
          else if c key \<noteq> Some who then None
          else if sa_action s = 1 then Some c
          else if sa_action s = 2 then Some (c(key := None))
          else Some (\<lambda>k. if fst k = sa_display s \<and> c k = Some who then None else c k))"

definition stream_record :: "u8 list \<Rightarrow> contacts \<Rightarrow> contacts option" where
  "stream_record bytes c =
     (case decode_input_record bytes of
        Inl _ \<Rightarrow> None
      | Inr (RPower on) \<Rightarrow> Some (if on then c else Map.empty)
      | Inr (RInput s) \<Rightarrow> stream_sample s c)"

fun open_contacts :: "u8 list list \<Rightarrow> contacts \<Rightarrow> contacts option" where
  "open_contacts [] c = Some c"
| "open_contacts (r # rs) c = Option.bind (stream_record r c) (open_contacts rs)"

lemma open_contacts_append: "open_contacts (xs @ ys) c = Option.bind (open_contacts xs c) (open_contacts ys)"
proof (induction xs arbitrary: c)
  case (Cons x xs)
  then show ?case by (cases "stream_record x c") simp_all
qed simp

definition who_of :: "input_route \<Rightarrow> u32 \<times> u64" where
  "who_of r = (ucast (ir_task r), ir_incarnation r)"

definition holds :: "pointer_map \<Rightarrow> contacts \<Rightarrow> bool" where
  "holds m c \<longleftrightarrow> (\<forall>display i who. c (display, i) = Some who \<longleftrightarrow>
     (\<exists>p r. fmlookup m (display, p) = Some (i, r) \<and> who = who_of r))"

definition route_ok :: "input_route \<Rightarrow> bool" where
  "route_ok r \<longleftrightarrow> is_ok (check_addressee (ir_display r) (ir_task r) (ir_incarnation r))"

definition pointers_ok :: "pointer_map \<Rightarrow> bool" where
  "pointers_ok m \<longleftrightarrow>
     (\<forall>k i r. fmlookup m k = Some (i, r) \<longrightarrow> fst k = ir_display r \<and> i \<le> MAX_POINTER_ID \<and> route_ok r)
     \<and> (\<forall>display p q i r s. fmlookup m (display, p) = Some (i, r) \<longrightarrow> fmlookup m (display, q) = Some (i, s) \<longrightarrow> p = q)"

definition stream :: "direct_input \<Rightarrow> u8 list list" where
  "stream d = di_sent d @ di_queue d"

definition di_off :: "direct_input \<Rightarrow> bool" where
  "di_off d \<longleftrightarrow> \<not> di_socket d \<and> di_queue d = [] \<and> di_pointers d = fmempty \<and> di_sent d = []"

definition di_inv :: "direct_input \<Rightarrow> bool" where
  "di_inv d \<longleftrightarrow> (\<not> di_socket d \<longrightarrow> di_off d) \<and> length (di_queue d) \<le> QUEUE_LIMIT \<and> pointers_ok (di_pointers d)
     \<and> (\<exists>c. open_contacts (stream d) Map.empty = Some c \<and> holds (di_pointers d) c)"

lemma stream_same [simp]:
  "stream (d\<lparr>di_pointers := m\<rparr>) = stream d" "stream (d\<lparr>di_power := p\<rparr>) = stream d"
  by (simp_all add: stream_def)

lemma off_inv: "di_off d \<Longrightarrow> di_inv d"
  by (simp add: di_off_def di_inv_def stream_def pointers_ok_def holds_def QUEUE_LIMIT_def)

lemma disconnect_off [simp]: "di_off (di_disconnect d)"
  by (simp add: di_off_def di_disconnect_def)

subsection \<open>The queue keeps the stream\<close>

definition kept :: "direct_input \<Rightarrow> direct_input \<Rightarrow> bool" where
  "kept d d1 \<longleftrightarrow> stream d1 = stream d \<and> di_pointers d1 = di_pointers d \<and> di_socket d1 = di_socket d
     \<and> length (di_queue d1) \<le> length (di_queue d) \<and> di_power d1 = di_power d"

lemma flush_with_result:
  "flush_with answers d = (r, d1) \<Longrightarrow> (case r of Inl _ \<Rightarrow> di_off d1 | Inr _ \<Rightarrow> kept d d1)"
proof (induction answers d rule: flush_with.induct)
  case (1 d)
  then show ?case by (auto simp: kept_def stream_def)
next
  case (2 answer rest d)
  show ?case
  proof (cases "\<not> di_socket d \<or> di_queue d = []")
    case True
    then show ?thesis using 2(3) by (auto simp: kept_def stream_def)
  next
    case False
    then obtain b bs where q: "di_queue d = b # bs" by (cases "di_queue d") auto
    let ?d = "d\<lparr>di_queue := bs, di_sent := di_sent d @ [b]\<rparr>"
    have step: "kept d d2" if "kept ?d d2" for d2 using that q by (simp add: kept_def stream_def)
    show ?thesis
    proof (cases answer)
      case (Inr u)
      then show ?thesis
        using 2(2) [OF False Inr] 2(3) False q step by (cases r) (auto split: sum.splits)
    next
      case (Inl e)
      consider "e = IpcIo 11" | "e = IpcIo 4" | "e \<noteq> IpcIo 11" "e \<noteq> IpcIo 4" by blast
      then show ?thesis
      proof cases
        case 1
        then show ?thesis using 2(3) False Inl by (auto simp: kept_def stream_def)
      next
        case a: 2
        then show ?thesis using 2(1) [OF False Inl] 2(3) False Inl by simp
      next
        case 3
        then show ?thesis using 2(3) False Inl by (auto simp: di_fail_def)
      qed
    qed
  qed
qed

lemma flush_result: "di_flush d = (r, d1) \<Longrightarrow> (case r of Inl _ \<Rightarrow> di_off d1 | Inr _ \<Rightarrow> kept d d1)"
  by (simp add: di_flush_def flush_with_result)

text \<open>A record that is queued extends the stream, or the connection is given up.\<close>

definition sent_one :: "u8 list \<Rightarrow> direct_input \<Rightarrow> direct_input \<Rightarrow> bool" where
  "sent_one b d d1 \<longleftrightarrow> stream d1 = stream d @ [b] \<and> di_pointers d1 = di_pointers d \<and> di_socket d1
     \<and> length (di_queue d1) \<le> QUEUE_LIMIT"

lemma enqueue_result:
  assumes "di_enqueue b d = (r, d1)" and "di_socket d" and "length (di_queue d) \<le> QUEUE_LIMIT"
  shows "case r of Inl _ \<Rightarrow> di_off d1 | Inr _ \<Rightarrow> sent_one b d d1"
proof -
  obtain r0 d0 where first: "di_flush d = (r0, d0)" by (cases "di_flush d")
  note f = flush_result [OF first]
  show ?thesis
  proof (cases r0)
    case (Inl e)
    then show ?thesis using assms(1) first f by (auto simp: di_enqueue_def op_bind_def)
  next
    case (Inr u)
    then have kept: "kept d d0" using f by simp
    show ?thesis
    proof (cases "length (di_queue d0) = QUEUE_LIMIT")
      case True
      then show ?thesis using assms(1) first Inr by (auto simp: di_enqueue_def op_bind_def di_fail_def)
    next
      case False
      then have "di_flush (d0\<lparr>di_queue := di_queue d0 @ [b]\<rparr>) = (r, d1)"
        using assms(1) first Inr by (simp add: di_enqueue_def op_bind_def)
      note g = flush_result [OF this]
      show ?thesis
        using g kept assms(2,3) False by (cases r) (auto simp: kept_def sent_one_def stream_def)
    qed
  qed
qed


subsection \<open>Contacts begin, move and end\<close>

lemma set_pointer_entries: "set (pointer_entries m) = {(k, v). fmlookup m k = Some v}"
  by (auto simp: pointer_entries_def fmlookup_dom_iff intro!: image_eqI)

lemma holdsD: "holds m c \<Longrightarrow> fmlookup m (display, p) = Some (i, r) \<Longrightarrow> c (display, i) = Some (who_of r)"
  unfolding holds_def by blast

lemma touch_accepted:
  assumes "route_ok r" and "i \<le> MAX_POINTER_ID"
  shows "\<exists>bytes. encode_touch (ir_display r) (ir_task r) timestamp (touch_action_code action) i x y pressure
    (ir_incarnation r) = Inr bytes"
proof -
  have "touch_action_code action \<le> 3" by (cases action) simp_all
  then show ?thesis
    using assms by (auto simp: encode_touch_def route_ok_def is_ok_def reject_if_def split: sum.splits)
qed

lemma touch_needs:
  "encode_touch (ir_display r) (ir_task r) timestamp action i x y pressure (ir_incarnation r) = Inr bytes \<Longrightarrow>
   route_ok r \<and> i \<le> MAX_POINTER_ID"
  by (auto simp: encode_touch_def route_ok_def is_ok_def reject_if_def bind_result_def split: sum.splits if_splits)

definition time_ok :: "u64 \<Rightarrow> bool" where
  "time_ok timestamp \<longleftrightarrow> timestamp \<noteq> 0 \<and> timestamp \<le> I64_MAX"

lemma touch_contact:
  assumes "encode_touch (ir_display r) (ir_task r) timestamp (touch_action_code action) i x y pressure
      (ir_incarnation r) = Inr bytes" and "time_ok timestamp"
  shows "stream_record bytes c =
    (let key = (ir_display r, i) in
     case action of
       TouchDown \<Rightarrow> if c key = None then Some (c(key \<mapsto> who_of r)) else None
     | TouchMotion \<Rightarrow> if c key = Some (who_of r) then Some c else None
     | TouchUp \<Rightarrow> if c key = Some (who_of r) then Some (c(key := None)) else None
     | TouchCancel \<Rightarrow> if c key = Some (who_of r)
         then Some (\<lambda>k. if fst k = ir_display r \<and> c k = Some (who_of r) then None else c k) else None)"
  using touch_decodes [OF assms(1)] assms(2)
  by (cases action) (auto simp: stream_record_def stream_sample_def who_of_def time_ok_def Let_def)

lemma find_member: "find P xs = Some x \<Longrightarrow> x \<in> set xs \<and> P x"
  by (induction xs) (auto split: if_splits)

lemma free_id:
  assumes "free_pointer_id display m = Some i"
  shows "i \<le> MAX_POINTER_ID" and "fmlookup m (display, p) \<noteq> Some (i, r)"
proof -
  have mem: "i \<in> set (map word_of_nat [0..<unat MAX_POINTER_ID + 1])"
    and free: "\<not> list_ex (\<lambda>((owned, _), (j, _)). owned = display \<and> j = i) (pointer_entries m)"
    using find_member [OF assms [unfolded free_pointer_id_def]] by auto
  obtain n where n: "n < 32" "i = word_of_nat n"
    using mem by (auto simp: MAX_POINTER_ID_def)
  then have "unat i = n" by (simp add: unat_of_nat)
  then show "i \<le> MAX_POINTER_ID" using n by (simp add: MAX_POINTER_ID_def word_le_nat_alt)
  show "fmlookup m (display, p) \<noteq> Some (i, r)"
    using free by (fastforce simp: list_ex_iff set_pointer_entries)
qed

lemma holds_down:
  assumes "holds m c" and free: "\<And>p r. fmlookup m (display, p) \<noteq> Some (i, r)" and "fmlookup m (display, p) = None"
  shows "c (display, i) = None" and "holds (fmupd (display, p) (i, r) m) (c((display, i) \<mapsto> who_of r))"
proof -
  show none: "c (display, i) = None"
    using assms(1) free unfolding holds_def by (metis not_Some_eq)
  show "holds (fmupd (display, p) (i, r) m) (c((display, i) \<mapsto> who_of r))"
    unfolding holds_def
  proof (intro allI)
    fix d j who
    show "((c((display, i) \<mapsto> who_of r)) (d, j) = Some who) =
        (\<exists>q s. fmlookup (fmupd (display, p) (i, r) m) (d, q) = Some (j, s) \<and> who = who_of s)"
    proof (cases "d = display \<and> j = i")
      case True
      then show ?thesis using free by auto
    next
      case False
      have same: "(c((display, i) \<mapsto> who_of r)) (d, j) = c (d, j)" using False by auto
      have hold: "(c (d, j) = Some who) = (\<exists>q s. fmlookup m (d, q) = Some (j, s) \<and> who = who_of s)"
        using assms(1) unfolding holds_def by blast
      have "(fmlookup (fmupd (display, p) (i, r) m) (d, q) = Some (j, s)) = (fmlookup m (d, q) = Some (j, s))" for q s
        using False assms(3) by (cases "(d, q) = (display, p)") auto
      then show ?thesis by (simp only: same hold)
    qed
  qed
qed

lemma holds_up:
  assumes "holds m c" and ok: "pointers_ok m" and hit: "fmlookup m (display, p) = Some (i, r)"
  shows "holds (fmdrop (display, p) m) (c((display, i) := None))"
  unfolding holds_def
proof (intro allI)
  fix d j who
  show "((c((display, i) := None)) (d, j) = Some who) =
      (\<exists>q s. fmlookup (fmdrop (display, p) m) (d, q) = Some (j, s) \<and> who = who_of s)"
  proof (cases "d = display \<and> j = i")
    case True
    have "q = p" if "fmlookup m (display, q) = Some (i, s)" for q s
      using ok hit that unfolding pointers_ok_def by blast
    then have "fmlookup (fmdrop (display, p) m) (display, q) \<noteq> Some (i, s)" for q s
      by (cases "q = p") auto
    then show ?thesis using True by auto
  next
    case False
    then have same: "(c((display, i) := None)) (d, j) = c (d, j)" by auto
    have hold: "(c (d, j) = Some who) = (\<exists>q s. fmlookup m (d, q) = Some (j, s) \<and> who = who_of s)"
      using assms(1) unfolding holds_def by blast
    have "(fmlookup (fmdrop (display, p) m) (d, q) = Some (j, s)) = (fmlookup m (d, q) = Some (j, s))" for q s
      using False hit by (cases "(d, q) = (display, p)") auto
    then show ?thesis by (simp only: same hold)
  qed
qed

lemma pointers_ok_upd:
  assumes "pointers_ok m" and "route_ok r" and "i \<le> MAX_POINTER_ID" and "\<And>q s. fmlookup m (ir_display r, q) \<noteq> Some (i, s)"
  shows "pointers_ok (fmupd (ir_display r, p) (i, r) m)"
  using assms unfolding pointers_ok_def by (auto split: if_splits)

lemma pointers_ok_sub: "pointers_ok m \<Longrightarrow> (\<And>k v. fmlookup m1 k = Some v \<Longrightarrow> fmlookup m k = Some v) \<Longrightarrow> pointers_ok m1"
  unfolding pointers_ok_def by blast


subsection \<open>Cancelling a display\<close>

lemma who_injective:
  assumes "route_ok r" and "route_ok s" and "ir_display r = ir_display s" and "who_of r = who_of s"
  shows "r = s"
proof -
  have small: "uint (ir_task x) < 2 ^ 32" if "route_ok x" for x
    using that by (auto simp: route_ok_def check_addressee_def task_id_u32_def is_ok_def reject_if_def bind_result_def Let_def
        split: if_splits sum.splits)
  have "uint (ucast (ir_task x) :: u32) = uint (ir_task x)" if "route_ok x" for x
    using small [OF that] by (simp add: unsigned_ucast_eq take_bit_int_eq_self)
  then have "ir_task r = ir_task s" using assms by (metis who_of_def prod.inject word_uint_eq_iff)
  then show ?thesis using assms(3,4) by (auto simp: who_of_def intro: input_route.equality)
qed

definition route_step ::
  "u32 \<Rightarrow> (u32 \<times> u32) \<times> u32 \<times> input_route \<Rightarrow> (u32 \<times> input_route) list \<Rightarrow> (u32 \<times> input_route) list" where
  "route_step display = (\<lambda>((owned, _), (i, route)) routes.
     if owned = display \<and> \<not> list_ex (\<lambda>(_, owner). owner = route) routes then routes @ [(i, route)] else routes)"

lemma fold_routes:
  assumes "distinct (map snd routes)"
  shows "distinct (map snd (fold (route_step display) es routes))
    \<and> set (fold (route_step display) es routes) \<subseteq> set routes \<union> {(i, r). \<exists>p. ((display, p), i, r) \<in> set es}
    \<and> snd ` set (fold (route_step display) es routes) = snd ` set routes \<union> {r. \<exists>p i. ((display, p), i, r) \<in> set es}"
  using assms
proof (induction es arbitrary: routes)
  case (Cons e es)
  obtain owned p i r where e: "e = ((owned, p), (i, r))" by (metis surj_pair)
  let ?routes = "route_step display e routes"
  have mem: "list_ex (\<lambda>(_, owner). owner = r) routes \<longleftrightarrow> r \<in> snd ` set routes"
    by (force simp: list_ex_iff)
  have d: "distinct (map snd ?routes)"
    using Cons.prems mem by (auto simp: route_step_def e)
  have s: "set ?routes \<subseteq> set routes \<union> (if owned = display then {(i, r)} else {})"
    "snd ` set ?routes = snd ` set routes \<union> (if owned = display then {r} else {})"
    using mem by (auto simp: route_step_def e)
  let ?all = "fold (route_step display) es ?routes"
  have "set ?all \<subseteq> set routes \<union> {(i, r). \<exists>p. ((display, p), i, r) \<in> set (e # es)}"
    using conjunct1 [OF conjunct2 [OF Cons.IH [OF d]]] s(1) by (fastforce simp: e split: if_splits)
  moreover have "snd ` set ?all = snd ` set routes \<union> {r. \<exists>p i. ((display, p), i, r) \<in> set (e # es)}"
    unfolding conjunct2 [OF conjunct2 [OF Cons.IH [OF d]]] s(2) by (auto simp: e)
  ultimately show ?case using conjunct1 [OF Cons.IH [OF d]] unfolding fold.simps comp_def by blast
qed auto

lemma display_routes_facts:
  shows "distinct (map snd (display_routes display m))"
    and "(i, r) \<in> set (display_routes display m) \<Longrightarrow> \<exists>p. fmlookup m (display, p) = Some (i, r)"
    and "fmlookup m (display, p) = Some (i, r) \<Longrightarrow> r \<in> snd ` set (display_routes display m)"
  using fold_routes [of "[]" display "pointer_entries m"]
  by (auto simp: display_routes_def route_step_def set_pointer_entries)

definition without :: "u32 \<Rightarrow> input_route set \<Rightarrow> contacts \<Rightarrow> contacts" where
  "without display R c = (\<lambda>k. if fst k = display \<and> c k \<in> Some ` who_of ` R then None else c k)"

lemma cancel_step:
  assumes hold: "holds m c" and ok: "pointers_ok m" and hit: "fmlookup m (display, p) = Some (i, r)"
    and R: "\<And>s. s \<in> R \<Longrightarrow> route_ok s \<and> ir_display s = display" "r \<notin> R"
    and bytes: "cancel_record display timestamp (i, r) = Inr b" and time: "time_ok timestamp"
  shows "stream_record b (without display R c) = Some (without display (insert r R) c)"
proof -
  have r: "route_ok r" "ir_display r = display" using ok hit by (auto simp: pointers_ok_def)
  have c: "c (display, i) = Some (who_of r)" by (rule holdsD [OF hold hit])
  have "who_of r \<notin> who_of ` R"
    using who_injective [OF r(1)] R r(2) by (metis image_iff)
  then have still: "without display R c (display, i) = Some (who_of r)"
    using c by (auto simp: without_def)
  have "encode_touch (ir_display r) (ir_task r) timestamp (touch_action_code TouchCancel) i 0 0 0 (ir_incarnation r) = Inr b"
    using bytes r(2) by (simp add: cancel_record_def)
  from touch_contact [OF this time, of "without display R c"]
  have "stream_record b (without display R c) =
      Some (\<lambda>k. if fst k = display \<and> without display R c k = Some (who_of r) then None else without display R c k)"
    using still r(2) by (simp add: Let_def)
  also have "(\<lambda>k. if fst k = display \<and> without display R c k = Some (who_of r) then None else without display R c k)
      = without display (insert r R) c"
    by (rule ext) (auto simp: without_def)
  finally show ?thesis .
qed


lemma inv_parts:
  assumes "di_inv d"
  shows "pointers_ok (di_pointers d)" and "length (di_queue d) \<le> QUEUE_LIMIT" and "\<not> di_socket d \<Longrightarrow> di_off d"
    and "\<exists>c. open_contacts (stream d) Map.empty = Some c \<and> holds (di_pointers d) c"
  using assms by (auto simp: di_inv_def)

lemma cancel_routes_result:
  assumes hold: "holds m c" and ok: "pointers_ok m" and time: "time_ok timestamp"
    and "\<And>i r. (i, r) \<in> set rs \<Longrightarrow> \<exists>p. fmlookup m (display, p) = Some (i, r)"
    and "distinct (map snd rs)" and "R \<inter> snd ` set rs = {}"
    and "\<And>s. s \<in> R \<Longrightarrow> route_ok s \<and> ir_display s = display"
    and "di_socket d" and "length (di_queue d) \<le> QUEUE_LIMIT" and "di_pointers d = m"
    and "open_contacts (stream d) Map.empty = Some (without display R c)"
    and "cancel_routes display timestamp rs d = (res, d1)"
  shows "case res of Inl _ \<Rightarrow> di_off d1
    | Inr _ \<Rightarrow> di_socket d1 \<and> length (di_queue d1) \<le> QUEUE_LIMIT \<and> di_pointers d1 = m
        \<and> open_contacts (stream d1) Map.empty = Some (without display (R \<union> snd ` set rs) c)"
  using assms(4-)
proof (induction rs arbitrary: d R)
  case Nil
  then show ?case by auto
next
  case (Cons x rs)
  obtain i r where x: "x = (i, r)" by (cases x)
  obtain p where hit: "fmlookup m (display, p) = Some (i, r)" using Cons.prems(1) [of i r] x by auto
  have r: "route_ok r" "ir_display r = display" "i \<le> MAX_POINTER_ID" using ok hit by (auto simp: pointers_ok_def)
  obtain b where b: "cancel_record display timestamp (i, r) = Inr b"
    using touch_accepted [OF r(1,3), of timestamp TouchCancel 0 0 0] r(2) by (auto simp: cancel_record_def)
  obtain r0 d0 where e: "di_enqueue b d = (r0, d0)" by (cases "di_enqueue b d")
  note q = enqueue_result [OF e Cons.prems(5,6)]
  show ?case
  proof (cases r0)
    case (Inl err)
    then show ?thesis using Cons.prems(9) b e q by (auto simp: x op_bind_def map_err_def)
  next
    case (Inr u)
    then have sent: "sent_one b d d0" using q by simp
    have "r \<notin> R" using Cons.prems(3) x by auto
    then have "stream_record b (without display R c) = Some (without display (insert r R) c)"
      by (intro cancel_step [OF hold ok hit Cons.prems(4) _ b time])
    then have new: "open_contacts (stream d0) Map.empty = Some (without display (insert r R) c)"
      using sent Cons.prems(8) by (simp add: sent_one_def open_contacts_append)
    have rest: "cancel_routes display timestamp rs d0 = (res, d1)"
      using Cons.prems(9) b e Inr by (simp add: x op_bind_def map_err_def)
    have "case res of Inl _ \<Rightarrow> di_off d1
      | Inr _ \<Rightarrow> di_socket d1 \<and> length (di_queue d1) \<le> QUEUE_LIMIT \<and> di_pointers d1 = m
          \<and> open_contacts (stream d1) Map.empty = Some (without display (insert r R \<union> snd ` set rs) c)"
      using sent Cons.prems(1-4,7) r new rest x
      by (intro Cons.IH) (auto simp: sent_one_def)
    moreover have "insert r R \<union> snd ` set rs = R \<union> snd ` set (x # rs)" by (auto simp: x)
    ultimately show ?thesis by (simp only:)
  qed
qed

lemma holds_without:
  assumes "holds m c" and ok: "pointers_ok m"
  shows "holds (fmfilter (\<lambda>(owned, _). owned \<noteq> display) m) (without display (snd ` set (display_routes display m)) c)"
  unfolding holds_def
proof (intro allI)
  fix d j who
  have hold: "(c (d, j) = Some who) = (\<exists>q s. fmlookup m (d, q) = Some (j, s) \<and> who = who_of s)"
    using assms(1) unfolding holds_def by blast
  show "(without display (snd ` set (display_routes display m)) c (d, j) = Some who) =
      (\<exists>q s. fmlookup (fmfilter (\<lambda>(owned, _). owned \<noteq> display) m) (d, q) = Some (j, s) \<and> who = who_of s)"
  proof (cases "d = display")
    case True
    have "without display (snd ` set (display_routes display m)) c (display, j) \<noteq> Some who"
    proof
      assume "without display (snd ` set (display_routes display m)) c (display, j) = Some who"
      then have c: "c (display, j) = Some who" and out: "who \<notin> who_of ` snd ` set (display_routes display m)"
        by (auto simp: without_def split: if_splits)
      then obtain q s where "fmlookup m (display, q) = Some (j, s)" "who = who_of s" using hold unfolding True by blast
      then have "s \<in> snd ` set (display_routes display m)" by (intro display_routes_facts(3))
      then show False using out \<open>who = who_of s\<close> by blast
    qed
    then show ?thesis using True by simp
  next
    case False
    then have "without display (snd ` set (display_routes display m)) c (d, j) = c (d, j)" by (simp add: without_def)
    moreover have "fmlookup (fmfilter (\<lambda>(owned, _). owned \<noteq> display) m) (d, q) = fmlookup m (d, q)" for q
      using False by simp
    ultimately show ?thesis by (simp only: hold)
  qed
qed

lemma without_none [simp]: "without display {} c = c"
  by (simp add: without_def)

text \<open>Cancelling a display ends its contacts on both sides.\<close>

lemma cancel_display_result:
  assumes inv: "di_inv d" and time: "time_ok timestamp" and run: "cancel_display display timestamp d = (res, d1)"
  shows "di_inv d1 \<and> (case res of Inl _ \<Rightarrow> di_off d1
    | Inr _ \<Rightarrow> di_pointers d1 = fmfilter (\<lambda>(owned, _). owned \<noteq> display) (di_pointers d))"
proof (cases "di_socket d")
  case False
  then have "di_off d" using inv_parts(3) [OF inv] by simp
  moreover have "pointer_entries fmempty = []" using set_pointer_entries [of fmempty] by simp
  then have "display_routes display fmempty = []" by (simp add: display_routes_def)
  moreover have empty: "di_pointers d = fmempty" using \<open>di_off d\<close> by (simp add: di_off_def)
  moreover have none: "fmfilter (\<lambda>(owned, _). owned \<noteq> display) (di_pointers d) = fmempty"
    by (rule fmap_ext) (simp add: empty)
  ultimately have "cancel_display display timestamp d = (Inr (), d\<lparr>di_pointers := fmempty\<rparr>)"
    by (simp add: cancel_display_def op_bind_def)
  then have out: "res = Inr ()" "d1 = d\<lparr>di_pointers := fmempty\<rparr>" using run by simp_all
  then have "di_off d1" using \<open>di_off d\<close> by (simp add: di_off_def)
  then show ?thesis using off_inv by (simp add: out none)
next
  case True
  let ?rs = "display_routes display (di_pointers d)"
  obtain c where c: "open_contacts (stream d) Map.empty = Some c" "holds (di_pointers d) c"
    using inv_parts(4) [OF inv] by blast
  obtain r0 d0 where e: "cancel_routes display timestamp ?rs d = (r0, d0)" by (cases "cancel_routes display timestamp ?rs d")
  have step: "case r0 of Inl _ \<Rightarrow> di_off d0
    | Inr _ \<Rightarrow> di_socket d0 \<and> length (di_queue d0) \<le> QUEUE_LIMIT \<and> di_pointers d0 = di_pointers d
        \<and> open_contacts (stream d0) Map.empty = Some (without display ({} \<union> snd ` set ?rs) c)"
    by (rule cancel_routes_result [OF c(2) inv_parts(1) [OF inv] time _ _ _ _ True inv_parts(2) [OF inv] refl _ e])
      (auto simp: display_routes_facts c)
  show ?thesis
  proof (cases r0)
    case (Inl err)
    then show ?thesis using step run e off_inv by (auto simp: cancel_display_def op_bind_def)
  next
    case (Inr u)
    let ?m = "fmfilter (\<lambda>(owned, _). owned \<noteq> display) (di_pointers d)"
    have out: "res = Inr ()" "d1 = d0\<lparr>di_pointers := ?m\<rparr>"
      using run e Inr step by (auto simp: cancel_display_def op_bind_def cong del: fmfilter_cong)
    have "pointers_ok ?m" by (rule pointers_ok_sub [OF inv_parts(1) [OF inv]]) (simp split: if_splits)
    then have "di_inv d1"
      using Inr step holds_without [OF c(2) inv_parts(1) [OF inv], of display]
      by (auto simp: di_inv_def out stream_def)
    then show ?thesis by (simp add: out)
  qed
qed

lemma pointer_entries_empty [simp]: "pointer_entries m = [] \<longleftrightarrow> m = fmempty"
proof -
  have "pointer_entries m = [] \<longleftrightarrow> set (pointer_entries m) = {}" by simp
  also have "\<dots> \<longleftrightarrow> m = fmempty" 
  proof
    assume "set (pointer_entries m) = {}"
    then have "fmlookup m k = None" for k unfolding set_pointer_entries by (cases k; cases "fmlookup m k") auto
    then show "m = fmempty" by (intro fmap_ext) simp
  qed (simp add: set_pointer_entries)
  finally show ?thesis .
qed

lemma filter_shrinks:
  assumes "fmlookup m (display, p) = Some v"
  shows "fmlen (fmfilter (\<lambda>(owned, _). owned \<noteq> display) m) < fmlen m"
proof -
  have "fmdom (fmfilter (\<lambda>(owned, _). owned \<noteq> display) m) |\<subset>| fmdom m"
  proof (rule pfsubsetI)
    have "(display, p) |\<in>| fmdom m" using assms by (simp add: fmlookup_dom_iff)
    then show "fmdom (fmfilter (\<lambda>(owned, _). owned \<noteq> display) m) \<noteq> fmdom m"
      by (metis (mono_tags, lifting) case_prodD ffmember_filter fmdom_filter)
  qed auto
  then show ?thesis unfolding fmlen_def by (rule pfsubset_fcard_mono)
qed

lemma cancel_loop_result:
  assumes "di_inv d" and "time_ok timestamp" and "fmlen (di_pointers d) \<le> fuel"
  shows "di_inv (snd (cancel_loop fuel timestamp d)) \<and> di_pointers (snd (cancel_loop fuel timestamp d)) = fmempty"
  using assms
proof (induction fuel arbitrary: d)
  case 0
  then have "fmlookup (di_pointers d) k = None" for k by (simp add: fmlen_def fmdom_notD)
  then have "di_pointers d = fmempty" by (intro fmap_ext) simp
  then show ?case using 0 by simp
next
  case (Suc fuel)
  show ?case
  proof (cases "pointer_entries (di_pointers d)")
    case Nil
    then have "cancel_loop (Suc fuel) timestamp d = (Inr (), d)" and "di_pointers d = fmempty"
      unfolding pointer_entries_empty [symmetric] cancel_loop.simps Nil by simp_all
    then show ?thesis using Suc.prems by simp
  next
    case (Cons e es)
    obtain display p i r where e: "e = ((display, p), (i, r))" by (metis surj_pair)
    have hit: "fmlookup (di_pointers d) (display, p) = Some (i, r)"
      using set_pointer_entries [of "di_pointers d"] Cons e by auto
    then have own: "ir_display r = display" using inv_parts(1) [OF Suc.prems(1)] by (auto simp: pointers_ok_def)
    obtain r0 d0 where c: "cancel_display display timestamp d = (r0, d0)" by (cases "cancel_display display timestamp d")
    note out = cancel_display_result [OF Suc.prems(1,2) c]
    show ?thesis
    proof (cases r0)
      case (Inl err)
      then show ?thesis using out c Cons own by (simp add: e op_bind_def di_off_def)
    next
      case (Inr u)
      then have "fmlen (di_pointers d0) \<le> fuel" using out filter_shrinks [OF hit] Suc.prems(3) by simp
      then show ?thesis using Suc.IH [OF conjunct1 [OF out] Suc.prems(2)] c Cons own Inr by (simp add: e op_bind_def)
    qed
  qed
qed

subsection \<open>Every call keeps the stream well-formed\<close>

lemma enqueue_inv:
  assumes inv: "di_inv d" and on: "di_socket d" and run: "di_enqueue b d = (res, d1)"
    and step: "\<And>c. open_contacts (stream d) Map.empty = Some c \<Longrightarrow> holds (di_pointers d) c \<Longrightarrow> stream_record b c = Some c"
  shows "di_inv d1"
proof -
  note q = enqueue_result [OF run on inv_parts(2) [OF inv]]
  obtain c where c: "open_contacts (stream d) Map.empty = Some c" "holds (di_pointers d) c"
    using inv_parts(4) [OF inv] by blast
  show ?thesis
    using q off_inv inv c step [OF c]
    by (cases res) (auto simp: sent_one_def di_inv_def open_contacts_append)
qed

lemma flush_inv: "di_inv d \<Longrightarrow> di_inv (snd (di_flush d))"
proof -
  assume inv: "di_inv d"
  obtain r d1 where e: "di_flush d = (r, d1)" by (cases "di_flush d")
  show ?thesis using flush_result [OF e] inv off_inv e
    by (cases r) (auto simp: kept_def di_inv_def di_off_def stream_def)
qed

lemma connected_inv: "di_inv ((di_disconnect d)\<lparr>di_socket := True\<rparr>)"
  by (simp add: di_inv_def di_disconnect_def QUEUE_LIMIT_def pointers_ok_def stream_def holds_def)

lemma power_contacts: "stream_record (encode_display_power on) c = Some (if on then c else Map.empty)"
  by (simp add: stream_record_def power_decodes)

lemma holds_nothing: "holds fmempty c \<longleftrightarrow> c = Map.empty"
proof
  assume "holds fmempty c"
  then have "c (display, i) \<noteq> Some who" for display i who unfolding holds_def fmempty_lookup by blast
  then show "c = Map.empty" by (intro ext) (metis not_Some_eq surj_pair)
qed (simp add: holds_def)

lemma attach_inv:
  assumes "di_inv d"
  shows "di_inv (snd (di_attach socket peer nonblocking generation wire d))"
proof -
  let ?d = "(di_disconnect d)\<lparr>di_socket := True\<rparr>"
  have "di_inv d1" if "di_enqueue (encode_display_power on) ?d = (res, d1)" for on res d1
  proof (rule enqueue_inv [OF connected_inv _ that])
    fix c
    assume "holds (di_pointers ?d) c"
    then have "c = Map.empty" using holds_nothing by (simp add: di_disconnect_def)
    then show "stream_record (encode_display_power on) c = Some c" by (simp add: power_contacts)
  qed simp
  then show ?thesis
    using assms connected_inv [of d]
    by (auto simp: di_attach_def op_bind_def Let_def split: sum.splits option.splits prod.splits)
qed

lemma set_power_inv:
  assumes inv: "di_inv d"
  shows "di_inv (snd (di_set_power on d))"
proof (cases "di_power d = Some on")
  case True
  then show ?thesis using inv by (simp add: di_set_power_def)
next
  case False
  let ?d = "d\<lparr>di_power := Some on\<rparr>"
  have inv1: "di_inv ?d" using inv by (simp add: di_inv_def di_off_def stream_def)
  show ?thesis
  proof (cases "di_socket d")
    case off: False
    then have "di_off ?d" using inv_parts(3) [OF inv1] by simp
    then have "di_off (?d\<lparr>di_pointers := fmempty\<rparr>)" by (simp add: di_off_def)
    then show ?thesis using False off off_inv inv1 by (auto simp: di_set_power_def op_bind_def Let_def)
  next
    case on: True
    obtain r d1 where e: "di_enqueue (encode_display_power on) ?d = (r, d1)" by (cases "di_enqueue (encode_display_power on) ?d")
    note q = enqueue_result [OF e]
    obtain c where c: "open_contacts (stream d) Map.empty = Some c" "holds (di_pointers d) c"
      using inv_parts(4) [OF inv] by blast
    show ?thesis
    proof (cases r)
      case (Inl err)
      then show ?thesis using q on inv_parts(2) [OF inv] False e off_inv by (simp add: di_set_power_def op_bind_def)
    next
      case (Inr u)
      then have "sent_one (encode_display_power on) ?d d1" using q on inv_parts(2) [OF inv] by simp
      then show ?thesis
        using False e on Inr c inv_parts(1) [OF inv]
        by (auto simp: di_set_power_def op_bind_def sent_one_def di_inv_def open_contacts_append power_contacts holds_nothing
            pointers_ok_def)
    qed
  qed
qed


lemma invalid_or_sent_inv:
  assumes inv: "di_inv d" and on: "di_socket d" and c: "open_contacts (stream d) Map.empty = Some c"
    and step: "\<And>bytes. encoded = Inr bytes \<Longrightarrow> pointers_ok m \<and> (\<exists>c1. stream_record bytes c = Some c1 \<and> holds m c1)"
  shows "di_inv (snd (or_invalid encoded (d\<lparr>di_pointers := m\<rparr>)))"
proof (cases encoded)
  case (Inl e)
  then show ?thesis by (simp add: or_invalid_def di_fail_def off_inv)
next
  case (Inr bytes)
  let ?d = "d\<lparr>di_pointers := m\<rparr>"
  obtain res d1 where e: "di_enqueue bytes ?d = (res, d1)" by (cases "di_enqueue bytes ?d")
  have "case res of Inl _ \<Rightarrow> di_off d1 | Inr _ \<Rightarrow> sent_one bytes ?d d1"
    by (rule enqueue_result [OF e]) (use on inv_parts(2) [OF inv] in simp_all)
  then show ?thesis
    using step [OF Inr] c e off_inv Inr
    by (cases res) (auto simp: or_invalid_def sent_one_def di_inv_def open_contacts_append)
qed

lemma owner_result:
  assumes run: "touch_owner route action pointer d = (res, d1)" and kind: "action \<noteq> TouchCancel"
    and ok: "pointers_ok (di_pointers d)" and hold: "holds (di_pointers d) c" and time: "time_ok timestamp"
  shows "case res of
      Inl _ \<Rightarrow> di_off d1
    | Inr None \<Rightarrow> d1 = d
    | Inr (Some (i, r)) \<Rightarrow> \<exists>m. d1 = d\<lparr>di_pointers := m\<rparr> \<and> (\<forall>x y pressure bytes.
        encode_touch (ir_display r) (ir_task r) timestamp (touch_action_code action) i x y pressure (ir_incarnation r)
          = Inr bytes \<longrightarrow> pointers_ok m \<and> (\<exists>c1. stream_record bytes c = Some c1 \<and> holds m c1))"
proof (cases "action = TouchDown")
  case down: True
  let ?key = "(ir_display route, pointer)"
  show ?thesis
  proof (cases "?key |\<in>| fmdom (di_pointers d) \<or> free_pointer_id (ir_display route) (di_pointers d) = None")
    case True
    then obtain e where "res = Inl e" "di_off d1"
      using run down by (auto simp: touch_owner_def Let_def di_fail_def split: if_splits)
    then show ?thesis by simp
  next
    case False
    then obtain i where i: "free_pointer_id (ir_display route) (di_pointers d) = Some i" by blast
    let ?m = "fmupd ?key (i, route) (di_pointers d)"
    have out: "res = Inr (Some (i, route))" "d1 = d\<lparr>di_pointers := ?m\<rparr>"
      using run down False i by (auto simp: touch_owner_def Let_def)
    have "fmlookup (di_pointers d) ?key = None" using False by (simp add: fmdom_notD)
    note start = holds_down(1) [OF hold free_id(2) [OF i] this] holds_down(2) [OF hold free_id(2) [OF i] this, of route]
    have "pointers_ok ?m \<and> (\<exists>c1. stream_record bytes c = Some c1 \<and> holds ?m c1)"
      if enc: "encode_touch (ir_display route) (ir_task route) timestamp (touch_action_code action) i x y pressure
        (ir_incarnation route) = Inr bytes" for x y pressure bytes
      using touch_contact [OF enc time, of c] touch_needs [OF enc] start False down free_id(2) [OF i] free_id(1) [OF i] ok
      by (auto simp: Let_def intro: pointers_ok_upd)
    then show ?thesis by (auto simp: out)
  qed
next
  case False
  show ?thesis
  proof (cases "fmlookup (di_pointers d) (ir_display route, pointer)")
    case None
    then show ?thesis using run False by (auto simp: touch_owner_def Let_def)
  next
    case (Some v)
    obtain i r where v: "v = (i, r)" by (cases v)
    have hit: "fmlookup (di_pointers d) (ir_display route, pointer) = Some (i, r)" using Some v by simp
    have own: "ir_display r = ir_display route" using ok hit by (auto simp: pointers_ok_def)
    let ?m = "if action = TouchUp then fmdrop (ir_display route, pointer) (di_pointers d) else di_pointers d"
    have out: "res = Inr (Some (i, r))" "d1 = d\<lparr>di_pointers := ?m\<rparr>"
      using run False hit by (auto simp: touch_owner_def Let_def)
    have mine: "c (ir_display route, i) = Some (who_of r)" by (rule holdsD [OF hold hit])
    have "pointers_ok ?m" by (rule pointers_ok_sub [OF ok]) (simp split: if_splits)
    moreover have "\<exists>c1. stream_record bytes c = Some c1 \<and> holds ?m c1"
      if enc: "encode_touch (ir_display r) (ir_task r) timestamp (touch_action_code action) i x y pressure
        (ir_incarnation r) = Inr bytes" for x y pressure bytes
      using touch_contact [OF enc time, of c] mine own False kind hold holds_up [OF hold ok hit]
      by (cases action) (auto simp: Let_def)
    ultimately show ?thesis unfolding out sum.case option.case prod.case by blast
  qed
qed

lemma touch_inv:
  assumes inv: "di_inv d" and on: "di_socket d" and time: "time_ok timestamp" and kind: "action \<noteq> TouchCancel"
  shows "di_inv (snd (send_touch route scale timestamp action pointer x_fixed y_fixed pressure d))"
proof -
  obtain c where c: "open_contacts (stream d) Map.empty = Some c" "holds (di_pointers d) c"
    using inv_parts(4) [OF inv] by blast
  obtain res d1 where o: "touch_owner route action pointer d = (res, d1)" by (cases "touch_owner route action pointer d")
  note out = owner_result [OF o kind inv_parts(1) [OF inv] c(2) time]
  have "di_inv (snd (op_bind (touch_owner route action pointer) (\<lambda>owner. case owner of None \<Rightarrow> op_return ()
      | Some (i, r) \<Rightarrow> or_invalid (encode_touch (ir_display r) (ir_task r) timestamp (touch_action_code action) i x y
          pressure (ir_incarnation r))) d))" for x y
  proof -
    consider (failed) e where "res = Inl e" | (none) "res = Inr None" | (some) i r where "res = Inr (Some (i, r))"
      by (metis obj_sumE not_Some_eq surj_pair)
    then show ?thesis
    proof cases
      case failed
      then show ?thesis using out o off_inv by (simp add: op_bind_def)
    next
      case none
      then show ?thesis using out o inv by (simp add: op_bind_def)
    next
      case some
      then obtain m where m: "d1 = d\<lparr>di_pointers := m\<rparr>" "\<And>x y pressure bytes.
          encode_touch (ir_display r) (ir_task r) timestamp (touch_action_code action) i x y pressure (ir_incarnation r)
            = Inr bytes \<Longrightarrow> pointers_ok m \<and> (\<exists>c1. stream_record bytes c = Some c1 \<and> holds m c1)"
        using out by auto
      show ?thesis using invalid_or_sent_inv [OF inv on c(1) m(2)] some o m(1) by (simp add: op_bind_def)
    qed
  qed
  then show ?thesis
    using off_inv by (auto simp: send_touch_def di_fail_def split: sum.split)
qed

lemma key_inv:
  assumes inv: "di_inv d" and on: "di_socket d" and time: "time_ok timestamp"
  shows "di_inv (snd (or_invalid (encode_key display task timestamp action keycode rep serial incarnation) d))"
proof -
  obtain c where c: "open_contacts (stream d) Map.empty = Some c" "holds (di_pointers d) c"
    using inv_parts(4) [OF inv] by blast
  have "stream_record bytes c = Some c"
    if "encode_key display task timestamp action keycode rep serial incarnation = Inr bytes" for bytes
    using key_decodes [OF that] time by (simp add: stream_record_def stream_sample_def time_ok_def)
  then show ?thesis
    using invalid_or_sent_inv [OF inv on c(1), of _ "di_pointers d"] inv_parts(1) [OF inv] c(2) by simp
qed

subsection \<open>The calls of the presenter\<close>

datatype di_call =
    CallRequest
  | CallAttach "(string, unit) result" "(string, nat) result" "(string, unit) result" u64 u16
  | CallDisconnect
  | CallPower bool
  | CallCancelAll u64
  | CallRetire input_route u64
  | CallSend input_route "u32 \<times> u32" u64 u64 input_event
  | CallFlush
  | CallReady bool

fun di_apply :: "di_call \<Rightarrow> direct_input \<Rightarrow> direct_input" where
  "di_apply CallRequest d = snd (next_request d)"
| "di_apply (CallAttach socket peer nonblocking generation wire) d = snd (di_attach socket peer nonblocking generation wire d)"
| "di_apply CallDisconnect d = di_disconnect d"
| "di_apply (CallPower on) d = snd (di_set_power on d)"
| "di_apply (CallCancelAll timestamp) d = snd (cancel_all timestamp d)"
| "di_apply (CallRetire route timestamp) d = snd (retire_route route timestamp d)"
| "di_apply (CallSend route scale serial timestamp event) d = snd (di_send route scale serial timestamp event d)"
| "di_apply CallFlush d = snd (di_flush d)"
| "di_apply (CallReady ready) d = notify_ready ready d"

fun call_time_ok :: "di_call \<Rightarrow> bool" where
  "call_time_ok (CallCancelAll timestamp) = time_ok timestamp"
| "call_time_ok (CallRetire _ timestamp) = time_ok timestamp"
| "call_time_ok (CallSend _ _ _ timestamp _) = time_ok timestamp"
| "call_time_ok _ = True"

text \<open>Each call with the answers that the socket will give to it.\<close>

fun di_run :: "(di_call \<times> (ipc_error, unit) result list) list \<Rightarrow> direct_input \<Rightarrow> direct_input" where
  "di_run [] d = d"
| "di_run ((call, answers) # calls) d = di_run calls (di_apply call (d\<lparr>di_kernel := answers\<rparr>))"

lemma kernel_inv [simp]: "di_inv (d\<lparr>di_kernel := k\<rparr>) = di_inv d"
  by (simp add: di_inv_def di_off_def stream_def)

lemma cancel_display_inv: "di_inv d \<Longrightarrow> time_ok timestamp \<Longrightarrow> di_inv (snd (cancel_display display timestamp d))"
  using cancel_display_result by (metis prod.collapse)

lemma call_inv:
  assumes inv: "di_inv d" and time: "call_time_ok call"
  shows "di_inv (di_apply call d)"
proof (cases call)
  case CallRequest
  then show ?thesis
    using inv by (auto simp: next_request_def di_inv_def di_off_def stream_def split: option.split)
next
  case CallDisconnect
  then show ?thesis by (simp add: off_inv)
next
  case (CallCancelAll timestamp)
  then show ?thesis using cancel_loop_result [OF inv, of timestamp "fmlen (di_pointers d)"] time
    by (simp add: cancel_all_def)
next
  case (CallRetire route timestamp)
  then show ?thesis using cancel_display_inv [OF inv] inv time by (simp add: retire_route_def)
next
  case (CallSend route scale serial timestamp event)
  then show ?thesis
    using cancel_display_inv [OF inv] touch_inv [OF inv] key_inv [OF inv] inv time
    by (cases event) (simp_all add: di_send_def)
next
  case (CallReady ready)
  then show ?thesis using inv by (simp add: notify_ready_def off_inv)
qed (simp_all add: inv attach_inv set_power_inv flush_inv)

lemma run_inv: "di_inv d \<Longrightarrow> list_all (call_time_ok \<circ> fst) calls \<Longrightarrow> di_inv (di_run calls d)"
  by (induction calls arbitrary: d) (auto simp: call_inv)

lemma default_inv: "di_inv di_default"
  by (rule off_inv) (simp add: di_off_def di_default_def)


text \<open>The input channel is requested and attached, and one finger is put down on task 42.\<close>

definition sample_calls :: "(di_call \<times> (ipc_error, unit) result list) list" where
  "sample_calls =
     [(CallRequest, []), (CallAttach (Inr ()) (Inr 9) (Inr ()) 1 INPUT_MAJOR, []),
      (CallSend \<lparr>ir_task = 42, ir_display = 0, ir_incarnation = 7\<rparr> (1, 1) 5 100 (Touch TouchDown 70 256 512 1000), [Inr ()])]"

lemma no_entries: "pointer_entries fmempty = []"
  by simp

lemma first_id: "free_pointer_id display fmempty = Some 0"
  by (simp add: free_pointer_id_def no_entries MAX_POINTER_ID_def upt_conv_Cons)

lemma sample_pointers:
  "di_pointers (di_run sample_calls di_default) =
     fmupd (0, 70) (0, \<lparr>ir_task = 42, ir_display = 0, ir_incarnation = 7\<rparr>) fmempty"
proof -
  let ?route = "\<lparr>ir_task = 42, ir_display = 0, ir_incarnation = 7\<rparr> :: input_route"
  have ok: "route_ok ?route" by (simp add: route_ok_def check_addressee_def task_id_u32_def is_ok_def reject_if_def
        I32_MAX_def I64_MAX_def)
  obtain x y where xy: "scale_fixed 256 1 1 = Inr x" "scale_fixed 512 1 1 = Inr y"
    by (simp add: scale_fixed_def)
  obtain bytes where b: "encode_touch 0 42 100 0 0 x y 1000 7 = Inr bytes"
    using touch_accepted [OF ok, of 0 100 TouchDown x y 1000] by (auto simp: MAX_POINTER_ID_def)
  show ?thesis
    by (simp add: sample_calls_def next_request_def di_default_def checked_add_def di_attach_def INPUT_MAJOR_def
        op_bind_def reject_if_def di_disconnect_def Let_def di_send_def send_touch_def xy touch_owner_def first_id
        or_invalid_def b di_enqueue_def di_flush_def QUEUE_LIMIT_def)
qed


end
