(* ===== verification/Input_Engine.thy ===== *)
theory Input_Engine
  imports Direct_Input
begin

unbundle bit_operations_syntax

section \<open>Routed input in Android\<close>

text \<open>
  \<open>android/framework/droidloom-window-policy/src/input.rs\<close> and \<open>input_keys.rs\<close>: the engine that turns the
  samples of the host into motion and key events of the task they are addressed to.  One gesture is
  held per display; contacts that begin on another task meanwhile are suppressed until they end.
  Task identities are positive, so the signed order of the code's maps is the order of the words.
\<close>

subsection \<open>State\<close>

record input_target =
  tg_task :: i32
  tg_display :: i32
  tg_incarnation :: u64
  tg_token :: u64
  tg_left :: i32
  tg_top :: i32

definition target_identity :: "input_target \<Rightarrow> i32 \<times> i32 \<times> u64 \<times> u64" where
  "target_identity t = (tg_task t, tg_display t, tg_incarnation t, tg_token t)"

record touch_pointer =
  pt_id :: i32
  pt_x :: f32
  pt_y :: f32
  pt_pressure :: f32

record android_event =
  ev_kind :: i32
  ev_display :: i32
  ev_action :: i32
  ev_key_code :: i32
  ev_scan_code :: i32
  ev_meta :: i32
  ev_repeat :: i32
  ev_flags :: i32
  ev_count :: i32
  ev_down_time :: u64
  ev_event_time :: u64
  ev_serial :: u64
  ev_pointers :: "touch_pointer list"

definition pointer_default :: touch_pointer where
  "pointer_default = \<lparr>pt_id = 0, pt_x = (0, 0), pt_y = (0, 0), pt_pressure = (0, 0)\<rparr>"

definition event_default :: android_event where
  "event_default = \<lparr>ev_kind = 0, ev_display = 0, ev_action = 0, ev_key_code = 0, ev_scan_code = 0, ev_meta = 0,
     ev_repeat = 0, ev_flags = 0, ev_count = 0, ev_down_time = 0, ev_event_time = 0, ev_serial = 0,
     ev_pointers = replicate 32 pointer_default\<rparr>"

record routed_event =
  re_target :: input_target
  re_event :: android_event

record gesture =
  ge_down_time :: u64
  ge_last_time :: u64
  ge_pointers :: "(u32, touch_pointer) fmap"

record held_key =
  hk_down_time :: u64
  hk_last_time :: u64
  hk_code :: i32

record input_engine =
  en_targets :: "(i32, input_target) fmap"
  en_gestures :: "(i32, gesture) fmap"
  en_keys :: "(i32 \<times> u32, held_key) fmap"
  en_locks :: "(i32, i32) fmap"
  en_suppressed :: "(i32 \<times> u32) fset"

definition engine_default :: input_engine where
  "engine_default = \<lparr>en_targets = fmempty, en_gestures = fmempty, en_keys = fmempty, en_locks = fmempty,
     en_suppressed = {||}\<rparr>"

definition fm_keys :: "('k::linorder, 'v) fmap \<Rightarrow> 'k list" where
  "fm_keys m = sorted_list_of_fset (fmdom m)"

definition FLAG_CANCELED :: i32 where "FLAG_CANCELED = 0x20"

text \<open>Android key codes of evdev scan codes.\<close>

definition key_table :: "(int \<times> int) list" where
  "key_table =
     [(1, 111), (2, 8), (3, 9), (4, 10), (5, 11), (6, 12), (7, 13), (8, 14),
     (9, 15), (10, 16), (11, 7), (12, 69), (13, 70), (14, 67), (15, 61), (16, 45),
     (17, 51), (18, 33), (19, 46), (20, 48), (21, 53), (22, 49), (23, 37), (24, 43),
     (25, 44), (26, 71), (27, 72), (28, 66), (29, 113), (30, 29), (31, 47), (32, 32),
     (33, 34), (34, 35), (35, 36), (36, 38), (37, 39), (38, 40), (39, 74), (40, 75),
     (41, 68), (42, 59), (43, 73), (44, 54), (45, 52), (46, 31), (47, 50), (48, 30),
     (49, 42), (50, 41), (51, 55), (52, 56), (53, 76), (54, 60), (56, 57), (57, 62),
     (58, 115), (59, 131), (60, 132), (61, 133), (62, 134), (63, 135), (64, 136), (65, 137),
     (66, 138), (67, 139), (68, 140), (87, 141), (88, 142), (96, 160), (97, 114), (100, 58),
     (102, 122), (103, 19), (104, 92), (105, 21), (106, 22), (107, 123), (108, 20), (109, 93),
     (110, 124), (111, 112), (125, 117), (126, 118), (139, 82), (158, 4), (159, 125)]"

definition android_keycode :: "u32 \<Rightarrow> i32 option" where
  "android_keycode scan = map_option word_of_int (map_of key_table (uint scan))"

subsection \<open>Events\<close>

text \<open>The event and the gesture, whose last time the code moves on.\<close>

definition motion :: "input_target \<Rightarrow> gesture \<Rightarrow> i32 \<Rightarrow> u64 \<Rightarrow> android_event \<times> gesture" where
  "motion target g action now =
     (let last_time = max now (ge_last_time g);
          slot = (\<lambda>p. p\<lparr>pt_x := f32_add (pt_x p) (f32_of_int (sint (tg_left target))),
                      pt_y := f32_add (pt_y p) (f32_of_int (sint (tg_top target))),
                      pt_pressure := if action = 1 \<or> action = 3 then (0, 0) else pt_pressure p\<rparr>);
          slots = take 32 (map slot (fmvalues (ge_pointers g)))
      in (event_default\<lparr>ev_kind := 1, ev_display := tg_display target, ev_action := action,
            ev_flags := if action = 3 then FLAG_CANCELED else 0, ev_count := word_of_nat (fmlen (ge_pointers g)),
            ev_down_time := ge_down_time g, ev_event_time := last_time,
            ev_pointers := slots @ replicate (32 - length slots) pointer_default\<rparr>,
          g\<lparr>ge_last_time := last_time\<rparr>))"

definition meta_bits :: "i32 \<Rightarrow> i32" where
  "meta_bits code =
     (if code = 59 then 0x41 else if code = 60 then 0x81 else if code = 57 then 0x12 else if code = 58 then 0x22
      else if code = 113 then 0x3000 else if code = 114 then 0x5000 else if code = 117 then 0x30000
      else if code = 118 then 0x50000 else 0)"

definition en_meta :: "i32 \<Rightarrow> input_engine \<Rightarrow> i32" where
  "en_meta task e =
     fold (\<lambda>(owner, scan) meta. if owner \<noteq> task then meta
         else meta OR (case fmlookup (en_keys e) (owner, scan) of None \<Rightarrow> 0 | Some key \<Rightarrow> meta_bits (hk_code key)))
       (fm_keys (en_keys e)) (case fmlookup (en_locks e) task of None \<Rightarrow> 0 | Some locks \<Rightarrow> locks)"

definition lock_bit :: "i32 \<Rightarrow> i32" where
  "lock_bit code = (if code = 115 then 0x100000 else if code = 143 then 0x200000 else if code = 116 then 0x400000 else 0)"

subsection \<open>Cancellation\<close>

text \<open>
  The keys are those listed just before, and the scan code of a held key is in the table, so neither the
  removal nor the conversion to \<open>i32\<close> fails.
\<close>

fun cancel_keys :: "input_target \<Rightarrow> u64 \<Rightarrow> (i32 \<times> u32) list \<Rightarrow> input_engine \<Rightarrow> routed_event list \<times> input_engine" where
  "cancel_keys target now [] e = ([], e)"
| "cancel_keys target now (k # ks) e =
     (case fmlookup (en_keys e) k of
        None \<Rightarrow> cancel_keys target now ks e
      | Some key \<Rightarrow>
          let e1 = e\<lparr>en_keys := fmdrop k (en_keys e)\<rparr>;
              event = event_default\<lparr>ev_kind := 2, ev_display := tg_display target, ev_action := 1,
                ev_key_code := hk_code key, ev_scan_code := snd k, ev_flags := 0x68, ev_meta := en_meta (fst k) e1,
                ev_down_time := hk_down_time key, ev_event_time := max now (hk_last_time key)\<rparr>;
              (events, e2) = cancel_keys target now ks e1
          in (\<lparr>re_target = target, re_event = event\<rparr> # events, e2))"

definition cancel_task :: "i32 \<Rightarrow> u64 \<Rightarrow> input_engine \<Rightarrow> routed_event list \<times> input_engine" where
  "cancel_task task now e =
     (let e1 = e\<lparr>en_suppressed := ffilter (\<lambda>(owner, _). owner \<noteq> task) (en_suppressed e)\<rparr> in
      case fmlookup (en_targets e1) task of
        None \<Rightarrow> ([], e1)
      | Some target \<Rightarrow>
          let (touches, e2) =
                (case fmlookup (en_gestures e1) task of
                   None \<Rightarrow> ([], e1)
                 | Some g \<Rightarrow> ([\<lparr>re_target = target, re_event = fst (motion target g 3 now)\<rparr>],
                     e1\<lparr>en_gestures := fmdrop task (en_gestures e1)\<rparr>));
              (keys, e3) = cancel_keys target now (filter (\<lambda>(owner, _). owner = task) (fm_keys (en_keys e2))) e2
          in (touches @ keys, e3\<lparr>en_locks := fmdrop task (en_locks e3)\<rparr>))"

definition en_publish :: "input_target \<Rightarrow> u64 \<Rightarrow> input_engine \<Rightarrow> routed_event list \<times> input_engine" where
  "en_publish target now e =
     (let (cancelled, e1) =
            (case fmlookup (en_targets e) (tg_task target) of
               None \<Rightarrow> ([], e)
             | Some old \<Rightarrow>
                 if target_identity old \<noteq> target_identity target then cancel_task (tg_task target) now e else ([], e))
      in (cancelled, e1\<lparr>en_targets := fmupd (tg_task target) target (en_targets e1)\<rparr>))"

definition en_retire :: "i32 \<Rightarrow> u64 \<Rightarrow> u64 \<Rightarrow> input_engine \<Rightarrow> routed_event list \<times> input_engine" where
  "en_retire task incarnation now e =
     (case fmlookup (en_targets e) task of
        None \<Rightarrow> ([], e)
      | Some target \<Rightarrow>
          if tg_incarnation target \<noteq> incarnation then ([], e)
          else let (cancelled, e1) = cancel_task task now e
               in (cancelled, e1\<lparr>en_targets := fmdrop task (en_targets e1)\<rparr>))"

fun cancel_tasks :: "i32 list \<Rightarrow> u64 \<Rightarrow> input_engine \<Rightarrow> routed_event list \<times> input_engine" where
  "cancel_tasks [] now e = ([], e)"
| "cancel_tasks (task # tasks) now e =
     (let (events, e1) = cancel_task task now e; (more_events, e2) = cancel_tasks tasks now e1 in (events @ more_events, e2))"

definition en_reset :: "u64 \<Rightarrow> input_engine \<Rightarrow> routed_event list \<times> input_engine" where
  "en_reset now e = cancel_tasks (fm_keys (en_targets e)) now (e\<lparr>en_suppressed := {||}\<rparr>)"

definition acknowledge_cancel :: "routed_event \<Rightarrow> input_engine \<Rightarrow> input_engine" where
  "acknowledge_cancel r e =
     (let task = tg_task (re_target r); event = re_event r in
      if ev_kind event = 1 then e\<lparr>en_gestures := fmdrop task (en_gestures e)\<rparr>
      else if ev_kind event = 2 \<and> ev_scan_code event \<le> I32_MAX
      then e\<lparr>en_keys := fmdrop (task, ev_scan_code event) (en_keys e)\<rparr>
      else e)"

subsection \<open>Samples\<close>

definition suppress_touch :: "sample \<Rightarrow> input_engine \<Rightarrow> bool \<times> input_engine" where
  "suppress_touch s e =
     (let identity = (sa_task s, sa_code s) in
      if identity |\<in>| en_suppressed e then
        (True,
         if sa_action s = 2 then e\<lparr>en_suppressed := en_suppressed e |-| {|identity|}\<rparr>
         else if sa_action s = 3 then e\<lparr>en_suppressed := ffilter (\<lambda>(task, _). task \<noteq> sa_task s) (en_suppressed e)\<rparr>
         else e)
      else if list_ex (\<lambda>task. task \<noteq> sa_task s \<and>
          (case fmlookup (en_targets e) task of None \<Rightarrow> False | Some t \<Rightarrow> tg_display t = sa_display s))
          (fm_keys (en_gestures e))
      then (True, if sa_action s = 0 then e\<lparr>en_suppressed := finsert identity (en_suppressed e)\<rparr> else e)
      else (False, e))"

definition touch_action_word :: "u8 \<Rightarrow> nat \<Rightarrow> nat \<Rightarrow> i32" where
  "touch_action_word action index n =
     (if action = 0 then (if n = 1 then 0 else 5 OR push_bit 8 (word_of_nat index))
      else if action = 1 then 2
      else if action = 2 then (if n = 1 then 1 else 6 OR push_bit 8 (word_of_nat index))
      else 3)"

definition en_touch :: "sample \<Rightarrow> input_target \<Rightarrow> f32 \<Rightarrow> f32 \<Rightarrow> f32 \<Rightarrow> (string, input_engine, android_event) op" where
  "en_touch s target x y pressure = (\<lambda>e.
     if MAX_POINTER_ID < sa_code s \<or> 3 < sa_action s then (Inl ''invalid touch sample'', e)
     else
       let task = sa_task s; code = sa_code s; held = fmlookup (en_gestures e) task in
       if sa_action s = 0 \<and> (case held of None \<Rightarrow> False | Some g \<Rightarrow> code |\<in>| fmdom (ge_pointers g))
       then (Inl ''duplicate touch down'', e)
       else case (if sa_action s = 0 \<and> held = None
                  then Some \<lparr>ge_down_time = sa_timestamp s, ge_last_time = sa_timestamp s, ge_pointers = fmempty\<rparr>
                  else held) of
         None \<Rightarrow> (Inl ''touch has no down'', e)
       | Some g \<Rightarrow>
           if sa_action s \<noteq> 0 \<and> code |\<notin>| fmdom (ge_pointers g) then (Inl ''touch pointer has no down'', e)
           else
             let pointers = fmupd code \<lparr>pt_id = code, pt_x = x, pt_y = y, pt_pressure = pressure\<rparr> (ge_pointers g);
                 index = length (takeWhile (\<lambda>i. i \<noteq> code) (fm_keys pointers));
                 action = touch_action_word (sa_action s) index (fmlen pointers);
                 (event, g1) = motion target (g\<lparr>ge_pointers := pointers\<rparr>) action (sa_timestamp s);
                 left = (if sa_action s = 2 then fmdrop code pointers else pointers)
             in (Inr event,
                 e\<lparr>en_gestures := if sa_action s = 3 \<or> fmlen left = 0 then fmdrop task (en_gestures e)
                    else fmupd task (g1\<lparr>ge_pointers := left\<rparr>) (en_gestures e)\<rparr>))"

definition en_key :: "sample \<Rightarrow> u16 \<Rightarrow> u64 \<Rightarrow> (string, input_engine, android_event) op" where
  "en_key s rep serial = (\<lambda>e.
     case android_keycode (sa_code s) of
       None \<Rightarrow> (Inl ''unsupported evdev key'', e)
     | Some code \<Rightarrow>
         let identity = (sa_task s, sa_code s); previous = fmlookup (en_keys e) identity; pressed = (sa_action s = 0) in
         if pressed \<and> rep = 0 \<and> previous \<noteq> None then (Inl ''duplicate key down'', e)
         else if (\<not> pressed \<or> rep \<noteq> 0) \<and> previous = None then (Inl ''key has no down'', e)
         else
           let key = \<lparr>hk_down_time = (case previous of None \<Rightarrow> sa_timestamp s | Some k \<Rightarrow> hk_down_time k),
                 hk_last_time = (case previous of None \<Rightarrow> sa_timestamp s | Some k \<Rightarrow> max (sa_timestamp s) (hk_last_time k)),
                 hk_code = code\<rparr>;
               e1 = (if pressed then
                       let e0 = e\<lparr>en_keys := fmupd identity key (en_keys e)\<rparr> in
                       if rep = 0 then
                         e0\<lparr>en_locks := fmupd (sa_task s)
                           ((case fmlookup (en_locks e0) (sa_task s) of None \<Rightarrow> 0 | Some l \<Rightarrow> l) XOR lock_bit code) (en_locks e0)\<rparr>
                       else e0
                     else e\<lparr>en_keys := fmdrop identity (en_keys e)\<rparr>)
           in if I32_MAX < sa_code s then (Inl ''key scan code'', e1)
              else (Inr (event_default\<lparr>ev_kind := 2, ev_display := sa_display s, ev_action := if pressed then 0 else 1,
                  ev_key_code := code, ev_scan_code := sa_code s, ev_repeat := ucast rep, ev_meta := en_meta (sa_task s) e1,
                  ev_flags := 0x48, ev_down_time := hk_down_time key, ev_event_time := hk_last_time key,
                  ev_serial := serial\<rparr>), e1))"

definition en_process :: "sample \<Rightarrow> (string, input_engine, routed_event option) op" where
  "en_process s = (\<lambda>e.
     case fmlookup (en_targets e) (sa_task s) of
       None \<Rightarrow> (Inr None, e)
     | Some target \<Rightarrow>
         if \<not> (tg_display target = sa_display s \<and> tg_incarnation target = sa_incarnation s) then (Inr None, e)
         else case sa_payload s of
           PTouch x y pressure \<Rightarrow>
             let (suppressed, e1) = suppress_touch s e in
             if suppressed then (Inr None, e1)
             else op_bind (en_touch s target x y pressure)
               (\<lambda>event. op_return (Some \<lparr>re_target = target, re_event = event\<rparr>)) e1
         | PKey rep serial \<Rightarrow>
             op_bind (en_key s rep serial) (\<lambda>event. op_return (Some \<lparr>re_target = target, re_event = event\<rparr>)) e)"

subsection \<open>What Android holds\<close>

text \<open>
  The streams as Android checks them, one per task: the touch identities that are down and the keys that
  are down.  A first contact is a \<open>DOWN\<close>, a further one a \<open>POINTER_DOWN\<close> whose index names the new one,
  every event lists exactly the contacts that are down, and the last one ends with \<open>UP\<close> or \<open>CANCEL\<close>.
\<close>

record android_input =
  an_touch :: "i32 \<Rightarrow> i32 set"
  an_keys :: "(i32 \<times> i32) set"

definition event_ids :: "android_event \<Rightarrow> i32 list" where
  "event_ids event = map pt_id (take (unat (ev_count event)) (ev_pointers event))"

definition touch_stream :: "i32 \<Rightarrow> i32 list \<Rightarrow> i32 set \<Rightarrow> i32 set option" where
  "touch_stream action ids down =
     (let base = action AND 0xFF; index = unat (drop_bit 8 action) in
      if \<not> distinct ids \<or> ids = [] then None
      else if action = 0 then (if down = {} \<and> length ids = 1 then Some (set ids) else None)
      else if action = 1 then (if down = set ids \<and> length ids = 1 then Some {} else None)
      else if action = 2 then (if down = set ids then Some down else None)
      else if action = 3 then (if down = set ids then Some {} else None)
      else if base = 5 then
        (if down \<noteq> {} \<and> index < length ids \<and> down = set ids - {ids ! index} then Some (set ids) else None)
      else if base = 6 then
        (if 2 \<le> length ids \<and> index < length ids \<and> down = set ids then Some (down - {ids ! index}) else None)
      else None)"

definition key_stream :: "android_event \<Rightarrow> i32 \<times> i32 \<Rightarrow> (i32 \<times> i32) set \<Rightarrow> (i32 \<times> i32) set option" where
  "key_stream event key down =
     (if ev_action event = 0 then
        (if (ev_repeat event = 0) = (key \<notin> down) then Some (insert key down) else None)
      else if ev_action event = 1 \<and> key \<in> down then Some (down - {key})
      else None)"

definition android_accepts :: "i32 \<times> android_event \<Rightarrow> android_input \<Rightarrow> android_input option" where
  "android_accepts = (\<lambda>(task, event) a.
     if ev_kind event = 1 then
       map_option (\<lambda>down. a\<lparr>an_touch := (an_touch a)(task := down)\<rparr>)
         (touch_stream (ev_action event) (event_ids event) (an_touch a task))
     else if ev_kind event = 2 then
       map_option (\<lambda>down. a\<lparr>an_keys := down\<rparr>) (key_stream event (task, ev_scan_code event) (an_keys a))
     else Some a)"

definition touched :: "input_engine \<Rightarrow> i32 \<Rightarrow> i32 set" where
  "touched e task = (case fmlookup (en_gestures e) task of None \<Rightarrow> {} | Some g \<Rightarrow> fset (fmdom (ge_pointers g)))"

definition agrees :: "android_input \<Rightarrow> input_engine \<Rightarrow> bool" where
  "agrees a e \<longleftrightarrow> an_touch a = touched e \<and> an_keys a = fset (fmdom (en_keys e))"

subsection \<open>The invariant of the engine\<close>

definition gesture_ok :: "gesture \<Rightarrow> bool" where
  "gesture_ok g \<longleftrightarrow> ge_pointers g \<noteq> fmempty \<and>
     (\<forall>i p. fmlookup (ge_pointers g) i = Some p \<longrightarrow> i \<le> MAX_POINTER_ID \<and> pt_id p = i)"

definition one_per_display :: "input_engine \<Rightarrow> bool" where
  "one_per_display e \<longleftrightarrow> (\<forall>t u a b. t |\<in>| fmdom (en_gestures e) \<longrightarrow> u |\<in>| fmdom (en_gestures e) \<longrightarrow>
     fmlookup (en_targets e) t = Some a \<longrightarrow> fmlookup (en_targets e) u = Some b \<longrightarrow> tg_display a = tg_display b \<longrightarrow> t = u)"

definition en_inv :: "input_engine \<Rightarrow> bool" where
  "en_inv e \<longleftrightarrow> (\<forall>t a. fmlookup (en_targets e) t = Some a \<longrightarrow> tg_task a = t)
     \<and> (\<forall>t g. fmlookup (en_gestures e) t = Some g \<longrightarrow> t |\<in>| fmdom (en_targets e) \<and> gesture_ok g)
     \<and> (\<forall>t c. (t, c) |\<in>| fmdom (en_keys e) \<longrightarrow> t |\<in>| fmdom (en_targets e) \<and> c \<le> MAX_EVDEV_KEYCODE)
     \<and> one_per_display e"

lemma set_fm_keys [simp]: "set (fm_keys m) = fset (fmdom m)"
  by (simp add: fm_keys_def)

lemma distinct_fm_keys [simp]: "distinct (fm_keys m)"
  by (simp add: fm_keys_def sorted_list_of_fset.rep_eq)

lemma length_fm_keys: "length (fm_keys m) = fmlen m"
  by (simp add: fm_keys_def fmlen_def sorted_list_of_fset.rep_eq fcard.rep_eq)

lemma fmvalues_keys: "fmvalues m = map (\<lambda>k. the (fmlookup m k)) (fm_keys m)"
  by (simp add: fmvalues_def fm_keys_def sorted_list_of_fmap_def)

lemma small_codes: "(\<And>i. i |\<in>| fmdom m \<Longrightarrow> i \<le> MAX_POINTER_ID) \<Longrightarrow> fmlen (m :: (u32, 'v) fmap) \<le> 32"
proof -
  assume small: "\<And>i. i |\<in>| fmdom m \<Longrightarrow> i \<le> MAX_POINTER_ID"
  have "fset (fmdom m) \<subseteq> word_of_nat ` {..<32}"
  proof
    fix i assume "i \<in> fset (fmdom m)"
    then have "unat i < 32" using small [of i] by (simp add: MAX_POINTER_ID_def word_le_nat_alt)
    then show "i \<in> word_of_nat ` {..<32}" by (intro image_eqI [of _ _ "unat i"]) simp_all
  qed
  then have "card (fset (fmdom m)) \<le> card (word_of_nat ` {..<32} :: u32 set)" by (intro card_mono) simp_all
  also have "\<dots> \<le> 32" using card_image_le [of "{..<32::nat}" "word_of_nat :: nat \<Rightarrow> u32"] by simp
  finally show ?thesis by (simp add: fmlen_def fcard.rep_eq)
qed

text \<open>An event lists exactly the contacts of its gesture.\<close>

lemma motion_ids:
  assumes "gesture_ok g"
  shows "event_ids (fst (motion target g action now)) = fm_keys (ge_pointers g)"
    and "ev_kind (fst (motion target g action now)) = 1" and "ev_action (fst (motion target g action now)) = action"
    and "snd (motion target g action now) = g\<lparr>ge_last_time := max now (ge_last_time g)\<rparr>"
proof -
  have len: "length (fm_keys (ge_pointers g)) \<le> 32"
    using assms by (auto simp: length_fm_keys gesture_ok_def fmlookup_dom_iff intro!: small_codes)
  then have "unat (word_of_nat (fmlen (ge_pointers g)) :: i32) = length (fm_keys (ge_pointers g))"
    by (simp add: length_fm_keys unat_of_nat)
  moreover have "map (\<lambda>k. pt_id (the (fmlookup (ge_pointers g) k))) (fm_keys (ge_pointers g)) = fm_keys (ge_pointers g)"
    using assms by (intro map_idI) (auto simp: gesture_ok_def fmlookup_dom_iff)
  ultimately show "event_ids (fst (motion target g action now)) = fm_keys (ge_pointers g)"
    using len by (simp add: event_ids_def motion_def Let_def fmvalues_keys comp_def)
qed (simp_all add: motion_def Let_def)

lemma action_word:
  assumes "n < 32"
  shows "(5 OR push_bit 8 (word_of_nat n) :: i32) AND 0xFF = 5" and "(6 OR push_bit 8 (word_of_nat n) :: i32) AND 0xFF = 6"
    and "unat (drop_bit 8 (5 OR push_bit 8 (word_of_nat n) :: i32)) = n"
    and "unat (drop_bit 8 (6 OR push_bit 8 (word_of_nat n) :: i32)) = n"
proof -
  have "n \<in> set [0..<32]" using assms by simp
  then show "(5 OR push_bit 8 (word_of_nat n) :: i32) AND 0xFF = 5" "(6 OR push_bit 8 (word_of_nat n) :: i32) AND 0xFF = 6"
    "unat (drop_bit 8 (5 OR push_bit 8 (word_of_nat n) :: i32)) = n"
    "unat (drop_bit 8 (6 OR push_bit 8 (word_of_nat n) :: i32)) = n"
    by (simp_all add: upt_conv_Cons) (elim disjE; simp)+
qed

subsection \<open>Samples keep the streams\<close>

lemma index_of: "x \<in> set xs \<Longrightarrow> length (takeWhile (\<lambda>i. i \<noteq> x) xs) < length xs \<and> xs ! length (takeWhile (\<lambda>i. i \<noteq> x) xs) = x"
  by (induction xs) auto

lemma stream_step:
  assumes ids: "distinct ids" "set ids = insert code down" "length ids \<le> 32" and "action \<le> 3"
    and fresh: "action = 0 \<longleftrightarrow> code \<notin> down"
  shows "touch_stream (touch_action_word action (length (takeWhile (\<lambda>i. i \<noteq> code) ids)) (length ids)) ids down =
    Some (if action = 3 then {} else if action = 2 then down - {code} else insert code down)"
proof -
  let ?n = "length (takeWhile (\<lambda>i. i \<noteq> code) ids)"
  have n: "?n < length ids" "ids ! ?n = code" using index_of [of code ids] ids(2) by simp_all
  note w = action_word [OF less_le_trans [OF n(1) ids(3)]]
  have other: "(5 OR push_bit 8 (word_of_nat ?n) :: i32) \<notin> {0, 1, 2, 3}" "(6 OR push_bit 8 (word_of_nat ?n) :: i32) \<notin> {0, 1, 2, 3}"
    using w(1,2) by auto
  have some: "ids \<noteq> []" using n by auto
  have "length ids = card (set ids)" using distinct_card [OF ids(1)] by simp
  then have one: "length ids = 1 \<longleftrightarrow> set ids = {code}"
    using ids(2) by (auto simp: card_1_singleton_iff)
  have "action = 0 \<or> action = 1 \<or> action = 2 \<or> action = 3"
  proof -
    have "unat action \<le> 3" using assms(4) by (simp add: word_le_nat_alt)
    then have "unat action \<in> {0, 1, 2, 3}" by auto
    then have "unat action = unat (0 :: u8) \<or> unat action = unat (1 :: u8) \<or> unat action = unat (2 :: u8)
      \<or> unat action = unat (3 :: u8)" by simp
    then show ?thesis by (simp only: word_unat_eq_iff)
  qed
  then consider "action = 0" | "action = 1" | "action = 2" | "action = 3" by blast
  then show ?thesis
  proof cases
    case 1
    then have code: "code \<notin> down" using fresh by simp
    show ?thesis
    proof (cases "length ids = 1")
      case True
      then have "down = {}" using one ids(2) code by auto
      then show ?thesis using True ids some 1 by (simp add: touch_stream_def touch_action_word_def)
    next
      case False
      then have rest: "set ids - {code} \<noteq> {}" "down = set ids - {code}" using one ids(2) code by auto
      have "touch_stream (5 OR push_bit 8 (word_of_nat ?n)) ids (set ids - {code}) = Some (set ids)"
        using rest(1) ids(1) some w(1,3) other n by (simp add: touch_stream_def Let_def)
      then have "touch_stream (5 OR push_bit 8 (word_of_nat ?n)) ids down = Some (insert code down)"
        unfolding rest(2) [symmetric] by (simp only: ids(2))
      then show ?thesis using False 1 by (simp add: touch_action_word_def)
    qed
  next
    case 3
    then have code: "code \<in> down" "set ids = down" using fresh ids(2) by auto
    show ?thesis
    proof (cases "length ids = 1")
      case True
      then show ?thesis using one code ids(1) some 3 by (simp add: touch_stream_def touch_action_word_def)
    next
      case False
      then have "2 \<le> length ids" using some by (cases ids; cases "tl ids") auto
      then show ?thesis using False ids(1) code some 3 w(2,4) other n by (simp add: touch_stream_def touch_action_word_def Let_def)
    qed
  next
    case 2
    then have "code \<in> down" "set ids = down" using fresh ids(2) by auto
    then show ?thesis using 2 ids(1) some by (simp add: touch_stream_def touch_action_word_def insert_absorb)
  next
    case 4
    then have "set ids = down" using fresh ids(2) by auto
    then show ?thesis using 4 ids(1) some by (simp add: touch_stream_def touch_action_word_def)
  qed
qed

lemma touch_runs:
  assumes "en_touch s target x y pressure e = (Inr event, e1)"
  obtains g left where
    "fmlookup (en_gestures e) (sa_task s) = Some g \<or> fmlookup (en_gestures e) (sa_task s) = None \<and> ge_pointers g = fmempty"
    and "touched e (sa_task s) = fset (fmdom (ge_pointers g))"
    and "sa_code s \<le> MAX_POINTER_ID" and "sa_action s \<le> 3"
    and "sa_action s = 0 \<longleftrightarrow> sa_code s |\<notin>| fmdom (ge_pointers g)"
    and "let pointers = fmupd (sa_code s) \<lparr>pt_id = sa_code s, pt_x = x, pt_y = y, pt_pressure = pressure\<rparr> (ge_pointers g) in
      left = (if sa_action s = 2 then fmdrop (sa_code s) pointers else pointers)
      \<and> event = fst (motion target (g\<lparr>ge_pointers := pointers\<rparr>)
          (touch_action_word (sa_action s) (length (takeWhile (\<lambda>i. i \<noteq> sa_code s) (fm_keys pointers))) (fmlen pointers))
          (sa_timestamp s))"
    and "if sa_action s = 3 \<or> fmlen left = 0 then e1 = e\<lparr>en_gestures := fmdrop (sa_task s) (en_gestures e)\<rparr>
      else \<exists>g1. ge_pointers g1 = left \<and> e1 = e\<lparr>en_gestures := fmupd (sa_task s) g1 (en_gestures e)\<rparr>"
proof -
  let ?fresh = "\<lparr>ge_down_time = sa_timestamp s, ge_last_time = sa_timestamp s, ge_pointers = fmempty\<rparr> :: gesture"
  let ?held = "fmlookup (en_gestures e) (sa_task s)"
  obtain g where g: "(if sa_action s = 0 \<and> ?held = None then Some ?fresh else ?held) = Some g"
    using assms by (auto simp: en_touch_def Let_def split: if_splits option.splits)
  have base: "?held = Some g \<or> ?held = None \<and> ge_pointers g = fmempty" using g by (auto split: if_splits)
  have bounds: "sa_code s \<le> MAX_POINTER_ID" "sa_action s \<le> 3"
    using assms by (auto simp: en_touch_def split: if_splits)
  have new: "sa_action s = 0 \<longleftrightarrow> sa_code s |\<notin>| fmdom (ge_pointers g)"
    using assms g base by (auto simp: en_touch_def Let_def split: if_splits option.splits)
  define pointers where
    "pointers = fmupd (sa_code s) \<lparr>pt_id = sa_code s, pt_x = x, pt_y = y, pt_pressure = pressure\<rparr> (ge_pointers g)"
  define left where "left = (if sa_action s = 2 then fmdrop (sa_code s) pointers else pointers)"
  define m where "m = motion target (g\<lparr>ge_pointers := pointers\<rparr>)
      (touch_action_word (sa_action s) (length (takeWhile (\<lambda>i. i \<noteq> sa_code s) (fm_keys pointers))) (fmlen pointers)) (sa_timestamp s)"
  have c: "(MAX_POINTER_ID < sa_code s \<or> 3 < sa_action s) = False"
    "(sa_action s = 0 \<and> (case ?held of None \<Rightarrow> False | Some g \<Rightarrow> sa_code s |\<in>| fmdom (ge_pointers g))) = False"
    "(sa_action s \<noteq> 0 \<and> sa_code s |\<notin>| fmdom (ge_pointers g)) = False"
    using bounds new base by auto
  have "en_touch s target x y pressure e = (Inr (fst m),
      e\<lparr>en_gestures := if sa_action s = 3 \<or> fmlen left = 0 then fmdrop (sa_task s) (en_gestures e)
         else fmupd (sa_task s) ((snd m)\<lparr>ge_pointers := left\<rparr>) (en_gestures e)\<rparr>)"
    by (simp only: en_touch_def Let_def c g if_False option.case case_prod_beta m_def left_def pointers_def)
  from trans [OF assms [symmetric] this]
  have out: "event = fst m" "e1 = e\<lparr>en_gestures := if sa_action s = 3 \<or> fmlen left = 0 then fmdrop (sa_task s) (en_gestures e)
         else fmupd (sa_task s) ((snd m)\<lparr>ge_pointers := left\<rparr>) (en_gestures e)\<rparr>" by simp_all
  show thesis
  proof (rule that [OF base _ bounds new])
    show "touched e (sa_task s) = fset (fmdom (ge_pointers g))" using base by (auto simp: touched_def)
    show "let pointers = fmupd (sa_code s) \<lparr>pt_id = sa_code s, pt_x = x, pt_y = y, pt_pressure = pressure\<rparr> (ge_pointers g) in
      left = (if sa_action s = 2 then fmdrop (sa_code s) pointers else pointers)
      \<and> event = fst (motion target (g\<lparr>ge_pointers := pointers\<rparr>)
          (touch_action_word (sa_action s) (length (takeWhile (\<lambda>i. i \<noteq> sa_code s) (fm_keys pointers))) (fmlen pointers))
          (sa_timestamp s))"
      unfolding pointers_def [symmetric] Let_def using out(1) by (simp add: left_def m_def)
    show "if sa_action s = 3 \<or> fmlen left = 0 then e1 = e\<lparr>en_gestures := fmdrop (sa_task s) (en_gestures e)\<rparr>
      else \<exists>g1. ge_pointers g1 = left \<and> e1 = e\<lparr>en_gestures := fmupd (sa_task s) g1 (en_gestures e)\<rparr>"
      using out(2) by (auto intro!: exI [of _ "(snd m)\<lparr>ge_pointers := left\<rparr>"])
  qed
qed

lemma gestures_inv:
  assumes inv: "en_inv e" and target: "fmlookup (en_targets e) task = Some target"
    and alone: "\<And>t a. t |\<in>| fmdom (en_gestures e) \<Longrightarrow> fmlookup (en_targets e) t = Some a \<Longrightarrow>
      tg_display a = tg_display target \<Longrightarrow> t = task"
    and G: "\<And>t g. fmlookup G t = Some g \<Longrightarrow> fmlookup (en_gestures e) t = Some g \<or> t = task \<and> gesture_ok g"
  shows "en_inv (e\<lparr>en_gestures := G\<rparr>)"
proof -
  have dom: "t |\<in>| fmdom (en_gestures e) \<or> t = task" if "t |\<in>| fmdom G" for t
    using that G by (metis fmdomI fmlookup_dom_iff)
  have "t = u" if "t |\<in>| fmdom G" "u |\<in>| fmdom G" "fmlookup (en_targets e) t = Some a" "fmlookup (en_targets e) u = Some b"
    "tg_display a = tg_display b" for t u a b
  proof -
    note tu = that
    consider "t = task" | "u = task" | "t |\<in>| fmdom (en_gestures e)" "u |\<in>| fmdom (en_gestures e)"
      using dom [OF tu(1)] dom [OF tu(2)] by blast
    then show ?thesis
    proof cases
      case 1
      then show ?thesis using dom [OF tu(2)] alone [of u b] tu target by auto
    next
      case 2
      then show ?thesis using dom [OF tu(1)] alone [of t a] tu target by auto
    next
      case 3
      then show ?thesis using inv tu(3-) unfolding en_inv_def one_per_display_def by blast
    qed
  qed
  then have "one_per_display (e\<lparr>en_gestures := G\<rparr>)" by (simp add: one_per_display_def)
  moreover have "t |\<in>| fmdom (en_targets e) \<and> gesture_ok g" if "fmlookup G t = Some g" for t g
    using G [OF that] inv target by (auto simp: en_inv_def fmdomI)
  ultimately show ?thesis using inv by (simp add: en_inv_def)
qed

lemma touch_ok:
  assumes inv: "en_inv e" and target: "fmlookup (en_targets e) (sa_task s) = Some target"
    and alone: "\<And>t a. t |\<in>| fmdom (en_gestures e) \<Longrightarrow> fmlookup (en_targets e) t = Some a \<Longrightarrow>
      tg_display a = tg_display target \<Longrightarrow> t = sa_task s"
    and run: "en_touch s target x y pressure e = (Inr event, e1)" and agree: "agrees a e"
  shows "en_inv e1 \<and> (\<exists>a1. android_accepts (sa_task s, event) a = Some a1 \<and> agrees a1 e1)"
proof -
  let ?t = "sa_task s" and ?c = "sa_code s"
  obtain g left where g: "fmlookup (en_gestures e) ?t = Some g \<or> fmlookup (en_gestures e) ?t = None \<and> ge_pointers g = fmempty"
    and down: "touched e ?t = fset (fmdom (ge_pointers g))" and small: "?c \<le> MAX_POINTER_ID" "sa_action s \<le> 3"
    and new: "sa_action s = 0 \<longleftrightarrow> ?c |\<notin>| fmdom (ge_pointers g)"
    and ev: "let pointers = fmupd ?c \<lparr>pt_id = ?c, pt_x = x, pt_y = y, pt_pressure = pressure\<rparr> (ge_pointers g) in
      left = (if sa_action s = 2 then fmdrop ?c pointers else pointers)
      \<and> event = fst (motion target (g\<lparr>ge_pointers := pointers\<rparr>)
          (touch_action_word (sa_action s) (length (takeWhile (\<lambda>i. i \<noteq> ?c) (fm_keys pointers))) (fmlen pointers))
          (sa_timestamp s))"
    and e1: "if sa_action s = 3 \<or> fmlen left = 0 then e1 = e\<lparr>en_gestures := fmdrop ?t (en_gestures e)\<rparr>
      else \<exists>g1. ge_pointers g1 = left \<and> e1 = e\<lparr>en_gestures := fmupd ?t g1 (en_gestures e)\<rparr>"
    by (rule touch_runs [OF run])
  define pointers where "pointers = fmupd ?c \<lparr>pt_id = ?c, pt_x = x, pt_y = y, pt_pressure = pressure\<rparr> (ge_pointers g)"
  note ev1 = ev [folded pointers_def, unfolded Let_def]
  have ptr: "i \<le> MAX_POINTER_ID \<and> pt_id p = i" if "fmlookup pointers i = Some p" for i p
    using that g inv small by (auto simp: pointers_def en_inv_def gesture_ok_def split: if_splits)
  have ok: "gesture_ok (g\<lparr>ge_pointers := pointers\<rparr>)"
  proof -
    have "fmlookup pointers ?c \<noteq> None" by (simp add: pointers_def)
    then have "pointers \<noteq> fmempty" by auto
    then show ?thesis using ptr by (simp add: gesture_ok_def)
  qed
  have dom: "set (fm_keys pointers) = insert ?c (touched e ?t)" by (simp add: pointers_def down)
  have "length (fm_keys pointers) \<le> 32"
    unfolding length_fm_keys by (rule small_codes) (use ptr in \<open>auto simp: fmlookup_dom_iff\<close>)
  from stream_step [OF distinct_fm_keys dom this small(2)]
  have accept: "touch_stream (ev_action event) (event_ids event) (touched e ?t) =
      Some (if sa_action s = 3 then {} else if sa_action s = 2 then touched e ?t - {?c} else insert ?c (touched e ?t))"
    using new down by (simp add: ev1 motion_ids [OF ok] length_fm_keys)
  have held: "touched e1 = (touched e)(?t := if sa_action s = 3 then {} else if sa_action s = 2 then touched e ?t - {?c}
      else insert ?c (touched e ?t))"
  proof -
    have l: "fset (fmdom left) = (if sa_action s = 2 then touched e ?t - {?c} else insert ?c (touched e ?t))"
      using new by (auto simp: ev1 pointers_def down)
    have "fmlen left = 0 \<longleftrightarrow> fset (fmdom left) = {}" by (simp add: fmlen_def fcard.rep_eq)
    then have "touched e1 t = (if t = ?t then (if sa_action s = 3 then {} else fset (fmdom left)) else touched e t)" for t
      using e1 by (cases "sa_action s = 3 \<or> fmlen left = 0") (auto simp: touched_def)
    then show ?thesis by (intro ext) (simp add: l)
  qed
  have inv1: "en_inv e1"
  proof -
    have sub: "fmlookup left i = Some p \<Longrightarrow> fmlookup pointers i = Some p" for i p by (simp add: ev1 split: if_splits)
    have gok: "gesture_ok g1" if "ge_pointers g1 = left" "fmlen left \<noteq> 0" for g1
      unfolding gesture_ok_def that(1) using ptr sub that(2) by (auto simp: fmlen_0_iff)
    obtain G where "e1 = e\<lparr>en_gestures := G\<rparr>"
      and G: "\<And>t h. fmlookup G t = Some h \<Longrightarrow> fmlookup (en_gestures e) t = Some h \<or> t = ?t \<and> gesture_ok h"
    proof (cases "sa_action s = 3 \<or> fmlen left = 0")
      case True
      then have "e1 = e\<lparr>en_gestures := fmdrop ?t (en_gestures e)\<rparr>" using e1 by simp
      then show ?thesis by (rule that) (simp split: if_splits)
    next
      case False
      then obtain g1 where "ge_pointers g1 = left" "e1 = e\<lparr>en_gestures := fmupd ?t g1 (en_gestures e)\<rparr>"
        using e1 by (simp only: if_False) blast
      note one = this and that = that
      have "gesture_ok g1" using gok [OF one(1)] False by simp
      show ?thesis
      proof (rule that [OF one(2)])
        fix t h
        assume "fmlookup (fmupd ?t g1 (en_gestures e)) t = Some h"
        then show "fmlookup (en_gestures e) t = Some h \<or> t = ?t \<and> gesture_ok h"
          using \<open>gesture_ok g1\<close> by (cases "t = ?t") simp_all
      qed
    qed
    have "en_inv (e\<lparr>en_gestures := G\<rparr>)"
    proof (rule gestures_inv [OF inv target])
      fix t b
      assume "t |\<in>| fmdom (en_gestures e)" "fmlookup (en_targets e) t = Some b" "tg_display b = tg_display target"
      then show "t = ?t" by (rule alone)
    qed (rule G)
    then show ?thesis by (simp add: \<open>e1 = _\<close>)
  qed
  have kind: "ev_kind event = 1" unfolding conjunct2 [OF ev1] by (rule motion_ids(2) [OF ok])
  have "an_touch a = touched e" using agree by (simp add: agrees_def)
  then have "android_accepts (?t, event) a = Some (a\<lparr>an_touch := touched e1\<rparr>)"
    by (simp only: android_accepts_def case_prod_conv kind simp_thms if_True accept option.map held)
  moreover have "en_keys e1 = en_keys e"
    using e1 by (cases "sa_action s = 3 \<or> fmlen left = 0") auto
  then have "agrees (a\<lparr>an_touch := touched e1\<rparr>) e1"
    using agree by (simp add: agrees_def)
  ultimately show ?thesis using inv1 by blast
qed

lemma table_codes: "android_keycode c = Some code \<Longrightarrow> c \<le> MAX_EVDEV_KEYCODE"
proof -
  assume "android_keycode c = Some code"
  then obtain v where "map_of key_table (uint c) = Some v" by (auto simp: android_keycode_def)
  then have "(uint c, v) \<in> set key_table" by (rule map_of_SomeD)
  moreover have "list_all (\<lambda>(k, _). k \<le> 0x2FF) key_table" by (simp add: key_table_def)
  ultimately have "uint c \<le> 0x2FF" by (auto simp: list_all_iff)
  then show "c \<le> MAX_EVDEV_KEYCODE" by (simp add: MAX_EVDEV_KEYCODE_def word_le_def)
qed

lemma key_ok:
  assumes inv: "en_inv e" and target: "fmlookup (en_targets e) (sa_task s) = Some target"
    and run: "en_key s rep serial e = (Inr event, e1)" and agree: "agrees a e"
  shows "en_inv e1 \<and> (\<exists>a1. android_accepts (sa_task s, event) a = Some a1 \<and> agrees a1 e1)"
proof -
  let ?k = "(sa_task s, sa_code s)"
  obtain code where code: "android_keycode (sa_code s) = Some code"
    using run by (auto simp: en_key_def split: option.splits)
  have small: "sa_code s \<le> MAX_EVDEV_KEYCODE" by (rule table_codes [OF code])
  have fits: "\<not> I32_MAX < sa_code s"
    using small by (auto simp: MAX_EVDEV_KEYCODE_def I32_MAX_def word_less_nat_alt word_le_nat_alt)
  have t: "sa_task s |\<in>| fmdom (en_targets e)" using target by (rule fmdomI)
  have ev: "ev_kind event = 2" "ev_scan_code event = sa_code s" "ev_repeat event = ucast rep"
    "ev_action event = (if sa_action s = 0 then 0 else 1)"
    using run code fits by (auto simp: en_key_def Let_def event_default_def split: if_splits)
  have "uint (ucast rep :: i32) = uint rep"
    using uint_bounded [of rep] by (simp add: unsigned_ucast_eq take_bit_int_eq_self)
  then have rep: "(ucast rep :: i32) = 0 \<longleftrightarrow> rep = 0" by (metis uint_0_iff)
  have same: "en_targets e1 = en_targets e" "en_gestures e1 = en_gestures e"
    using run code fits by (auto simp: en_key_def Let_def split: if_splits)
  have held: "(if sa_action s = 0 then (rep = 0) = (?k |\<notin>| fmdom (en_keys e)) else ?k |\<in>| fmdom (en_keys e))"
    using run code fits by (auto simp: en_key_def Let_def fmlookup_None_iff split: if_splits)
  have keys: "fset (fmdom (en_keys e1)) = (if sa_action s = 0 then insert ?k (fset (fmdom (en_keys e))) else fset (fmdom (en_keys e)) - {?k})"
    using run code fits by (auto simp: en_key_def Let_def split: if_splits)
  have "en_inv e1"
  proof -
    have "x |\<in>| fmdom (en_targets e) \<and> c \<le> MAX_EVDEV_KEYCODE" if "(x, c) |\<in>| fmdom (en_keys e1)" for x c
    proof -
      have "(x, c) = ?k \<or> (x, c) |\<in>| fmdom (en_keys e)" using that keys by (auto split: if_splits)
      then show ?thesis using inv t small by (auto simp: en_inv_def)
    qed
    then show ?thesis using inv same by (simp add: en_inv_def one_per_display_def)
  qed
  moreover have "android_accepts (sa_task s, event) a = Some (a\<lparr>an_keys := fset (fmdom (en_keys e1))\<rparr>)"
    using agree held keys by (auto simp: android_accepts_def key_stream_def ev rep agrees_def)
  moreover have "agrees (a\<lparr>an_keys := fset (fmdom (en_keys e1))\<rparr>) e1"
    using agree same by (simp add: agrees_def touched_def fun_eq_iff)
  ultimately show ?thesis by blast
qed

lemma suppress_keeps:
  assumes "suppress_touch s e = (b, e1)"
  shows "en_targets e1 = en_targets e \<and> en_gestures e1 = en_gestures e \<and> en_keys e1 = en_keys e \<and> en_locks e1 = en_locks e"
    and "\<not> b \<Longrightarrow> t |\<in>| fmdom (en_gestures e) \<Longrightarrow> fmlookup (en_targets e) t = Some a \<Longrightarrow> tg_display a = sa_display s \<Longrightarrow> t = sa_task s"
  using assms by (auto simp: suppress_touch_def Let_def list_ex_iff split: if_splits)

lemma inv_cong:
  "en_targets e1 = en_targets e \<Longrightarrow> en_gestures e1 = en_gestures e \<Longrightarrow> en_keys e1 = en_keys e \<Longrightarrow> en_inv e1 = en_inv e"
  by (simp add: en_inv_def one_per_display_def)

lemma agrees_cong: "en_gestures e1 = en_gestures e \<Longrightarrow> en_keys e1 = en_keys e \<Longrightarrow> agrees a e1 = agrees a e"
  by (simp add: agrees_def touched_def fun_eq_iff)

text \<open>A sample is ignored, or gives an event that continues a stream of its task.\<close>

lemma process_ok:
  assumes inv: "en_inv e" and run: "en_process s e = (Inr r, e1)" and agree: "agrees a e"
  shows "en_inv e1 \<and> (case r of None \<Rightarrow> agrees a e1
    | Some routed \<Rightarrow> tg_task (re_target routed) = sa_task s \<and>
        (\<exists>a1. android_accepts (sa_task s, re_event routed) a = Some a1 \<and> agrees a1 e1))"
proof (cases "\<exists>target. fmlookup (en_targets e) (sa_task s) = Some target \<and> tg_display target = sa_display s
    \<and> tg_incarnation target = sa_incarnation s")
  case False
  then have "r = None" "e1 = e" using run by (auto simp: en_process_def split: option.splits if_splits)
  then show ?thesis using inv agree by simp
next
  case True
  then obtain target where target: "fmlookup (en_targets e) (sa_task s) = Some target"
    and d: "tg_display target = sa_display s" "tg_incarnation target = sa_incarnation s" by blast
  have task: "tg_task target = sa_task s" using inv target by (simp add: en_inv_def)
  show ?thesis
  proof (cases "sa_payload s")
    case (PKey rep serial)
    then obtain event where "en_key s rep serial e = (Inr event, e1)" "r = Some \<lparr>re_target = target, re_event = event\<rparr>"
      using run target d by (auto simp: en_process_def op_bind_def split: prod.splits sum.splits)
    then show ?thesis using key_ok [OF inv target _ agree] task by auto
  next
    case (PTouch x y pressure)
    obtain b e0 where sup: "suppress_touch s e = (b, e0)" by (cases "suppress_touch s e")
    note same = suppress_keeps [OF sup]
    have inv0: "en_inv e0" and agree0: "agrees a e0" and target0: "fmlookup (en_targets e0) (sa_task s) = Some target"
      using inv agree target inv_cong [of e0 e] agrees_cong [of e0 e a] same(1) by simp_all
    show ?thesis
    proof (cases b)
      case True
      then have "r = None" "e1 = e0" using run target d PTouch sup by (simp_all add: en_process_def)
      then show ?thesis using inv0 agree0 by simp
    next
      case False
      then obtain event where ev: "en_touch s target x y pressure e0 = (Inr event, e1)"
        "r = Some \<lparr>re_target = target, re_event = event\<rparr>"
        using run target d PTouch sup by (auto simp: en_process_def op_bind_def split: prod.splits sum.splits)
      have "en_inv e1 \<and> (\<exists>a1. android_accepts (sa_task s, event) a = Some a1 \<and> agrees a1 e1)"
      proof (rule touch_ok [OF inv0 target0 _ ev(1) agree0])
        fix t c
        assume "t |\<in>| fmdom (en_gestures e0)" "fmlookup (en_targets e0) t = Some c" "tg_display c = tg_display target"
        then show "t = sa_task s" using same(2) [OF False, of t c] same(1) d by simp
      qed
      then show ?thesis using ev(2) task by simp
    qed
  qed
qed

subsection \<open>Cancellations end what is held\<close>

text \<open>
  \<open>cancels rs e e1\<close>: the events of \<open>rs\<close> end, one after the other, something that \<open>e\<close> holds, and
  what is left is what \<open>e1\<close> holds.
\<close>

definition valid_cancel :: "input_engine \<Rightarrow> routed_event \<Rightarrow> bool" where
  "valid_cancel e r \<longleftrightarrow>
     (let t = tg_task (re_target r); event = re_event r in
      ev_kind event = 1 \<and> ev_action event = 3 \<and>
        (\<exists>g. fmlookup (en_gestures e) t = Some g \<and> gesture_ok g \<and> event_ids event = fm_keys (ge_pointers g))
      \<or> ev_kind event = 2 \<and> ev_action event = 1 \<and> (t, ev_scan_code event) |\<in>| fmdom (en_keys e)
        \<and> ev_scan_code event \<le> MAX_EVDEV_KEYCODE)"

fun cancels :: "routed_event list \<Rightarrow> input_engine \<Rightarrow> input_engine \<Rightarrow> bool" where
  "cancels [] e e1 \<longleftrightarrow> en_gestures e = en_gestures e1 \<and> en_keys e = en_keys e1"
| "cancels (r # rs) e e1 \<longleftrightarrow> valid_cancel e r \<and> cancels rs (acknowledge_cancel r e) e1"

lemma small_scan: "c \<le> MAX_EVDEV_KEYCODE \<Longrightarrow> c \<le> I32_MAX"
  by (simp add: MAX_EVDEV_KEYCODE_def I32_MAX_def word_le_nat_alt)

lemma acknowledge_targets [simp]: "en_targets (acknowledge_cancel r e) = en_targets e"
  by (simp add: acknowledge_cancel_def Let_def)

lemma cancel_accepted:
  assumes agree: "agrees a e" and valid: "valid_cancel e r"
  shows "\<exists>a1. android_accepts (tg_task (re_target r), re_event r) a = Some a1 \<and> agrees a1 (acknowledge_cancel r e)"
proof -
  let ?t = "tg_task (re_target r)" and ?ev = "re_event r"
  consider (touch) g where "ev_kind ?ev = 1" "ev_action ?ev = 3" "fmlookup (en_gestures e) ?t = Some g" "gesture_ok g"
      "event_ids ?ev = fm_keys (ge_pointers g)"
    | (key) "ev_kind ?ev = 2" "ev_action ?ev = 1" "(?t, ev_scan_code ?ev) |\<in>| fmdom (en_keys e)" "ev_scan_code ?ev \<le> MAX_EVDEV_KEYCODE"
    using valid by (auto simp: valid_cancel_def Let_def)
  then show ?thesis
  proof cases
    case touch
    have "fm_keys (ge_pointers g) \<noteq> []"
      using touch(4) length_fm_keys [of "ge_pointers g"] by (auto simp: gesture_ok_def fmlen_0_iff)
    moreover have "an_touch a ?t = set (fm_keys (ge_pointers g))" using agree touch(3) by (simp add: agrees_def touched_def)
    ultimately have "touch_stream (ev_action ?ev) (event_ids ?ev) (an_touch a ?t) = Some {}"
      using touch(2,5) by (simp add: touch_stream_def)
    then have "android_accepts (?t, ?ev) a = Some (a\<lparr>an_touch := (an_touch a)(?t := {})\<rparr>)"
      using touch(1) by (simp add: android_accepts_def)
    moreover have "touched (acknowledge_cancel r e) = (touched e)(?t := {})"
      using touch(1) by (intro ext) (simp add: acknowledge_cancel_def touched_def Let_def)
    ultimately show ?thesis
      using agree touch(1) by (simp add: agrees_def acknowledge_cancel_def Let_def)
  next
    case key
    have "android_accepts (?t, ?ev) a = Some (a\<lparr>an_keys := an_keys a - {(?t, ev_scan_code ?ev)}\<rparr>)"
      using key agree by (simp add: android_accepts_def key_stream_def agrees_def)
    moreover have "touched (acknowledge_cancel r e) = touched e"
      using key(1) by (intro ext) (simp add: acknowledge_cancel_def touched_def Let_def)
    ultimately show ?thesis
      using agree key small_scan [OF key(4)] by (simp add: agrees_def acknowledge_cancel_def Let_def)
  qed
qed

text \<open>An engine that holds more still holds what an event ends.\<close>

definition holds_more :: "input_engine \<Rightarrow> input_engine \<Rightarrow> bool" where
  "holds_more e d \<longleftrightarrow> (\<forall>t g. fmlookup (en_gestures e) t = Some g \<longrightarrow> fmlookup (en_gestures d) t = Some g)
     \<and> (\<forall>k. k |\<in>| fmdom (en_keys e) \<longrightarrow> k |\<in>| fmdom (en_keys d))"

lemma holds_more_valid: "holds_more e d \<Longrightarrow> valid_cancel e r \<Longrightarrow> valid_cancel d r"
  by (auto simp: holds_more_def valid_cancel_def Let_def)

lemma holds_more_acknowledge:
  "holds_more e d \<Longrightarrow> holds_more (acknowledge_cancel r e) (acknowledge_cancel r d) \<and> holds_more (acknowledge_cancel r e) d"
  unfolding holds_more_def acknowledge_cancel_def Let_def
  by (cases "ev_kind (re_event r) = 1"; cases "ev_kind (re_event r) = 2 \<and> ev_scan_code (re_event r) \<le> I32_MAX") simp_all

lemma holds_more_inv:
  assumes more: "holds_more e1 e" and "en_targets e1 = en_targets e" and "en_inv e"
  shows "en_inv e1"
proof -
  have g: "fmlookup (en_gestures e) t = Some g" if "fmlookup (en_gestures e1) t = Some g" for t g
    using that more unfolding holds_more_def by blast
  have dom: "t |\<in>| fmdom (en_gestures e)" if "t |\<in>| fmdom (en_gestures e1)" for t
    using that g by (meson fmdomI fmlookup_dom_iff)
  have "one_per_display e1"
    using assms(3) dom unfolding en_inv_def one_per_display_def assms(2) by blast
  moreover have "t |\<in>| fmdom (en_targets e1) \<and> gesture_ok h" if "fmlookup (en_gestures e1) t = Some h" for t h
    using assms(3) g [OF that] unfolding en_inv_def assms(2) by blast
  moreover have "t |\<in>| fmdom (en_targets e1) \<and> c \<le> MAX_EVDEV_KEYCODE" if k: "(t, c) |\<in>| fmdom (en_keys e1)" for t c
  proof -
    have "(t, c) |\<in>| fmdom (en_keys e)" using k more unfolding holds_more_def by blast
    then show ?thesis using assms(3) unfolding en_inv_def assms(2) by blast
  qed
  moreover have "tg_task b = t" if "fmlookup (en_targets e1) t = Some b" for t b
    using assms(3) that unfolding en_inv_def assms(2) by blast
  ultimately show ?thesis unfolding en_inv_def by blast
qed

lemma holds_more_refl: "holds_more e e"
  by (simp add: holds_more_def)

lemma acknowledge_inv: "en_inv e \<Longrightarrow> en_inv (acknowledge_cancel r e)"
  by (rule holds_more_inv [OF conjunct2 [OF holds_more_acknowledge [OF holds_more_refl]] acknowledge_targets])

lemma cancels_cong:
  "en_gestures e = en_gestures d \<Longrightarrow> en_keys e = en_keys d \<Longrightarrow> cancels rs e x = cancels rs d x"
proof (induction rs arbitrary: e d)
  case (Cons r rs)
  have "en_gestures (acknowledge_cancel r e) = en_gestures (acknowledge_cancel r d)"
    "en_keys (acknowledge_cancel r e) = en_keys (acknowledge_cancel r d)"
    using Cons.prems by (simp_all add: acknowledge_cancel_def Let_def)
  from Cons.IH [OF this] have "cancels rs (acknowledge_cancel r e) x = cancels rs (acknowledge_cancel r d) x" .
  moreover have "valid_cancel e r = valid_cancel d r" unfolding valid_cancel_def Cons.prems by (rule refl)
  ultimately show ?case by simp
qed simp

lemma cancels_append: "cancels xs e m \<Longrightarrow> cancels ys m d \<Longrightarrow> cancels (xs @ ys) e d"
proof (induction xs arbitrary: e)
  case Nil
  then show ?case using cancels_cong [of e m ys d] by simp
qed simp

lemma cancels_target: "cancels rs e x \<Longrightarrow> en_gestures x = en_gestures y \<Longrightarrow> en_keys x = en_keys y \<Longrightarrow> cancels rs e y"
  by (induction rs arbitrary: e) auto

lemma holds_more_trans: "holds_more x y \<Longrightarrow> holds_more y z \<Longrightarrow> holds_more x z"
  unfolding holds_more_def by blast

lemma fmdrop_absent: "fmlookup m k = None \<Longrightarrow> fmdrop k m = m"
  by (rule fmap_ext) auto

lemma cancel_keys_ok:
  assumes "cancel_keys target now ks e = (evs, e1)"
    and "\<And>owner c. (owner, c) \<in> set ks \<Longrightarrow> owner = tg_task target \<and> c \<le> MAX_EVDEV_KEYCODE"
  shows "cancels evs e e1 \<and> en_gestures e1 = en_gestures e \<and> en_targets e1 = en_targets e \<and> holds_more e1 e
    \<and> (\<forall>k \<in> set ks. k |\<notin>| fmdom (en_keys e1))"
  using assms
proof (induction ks arbitrary: e evs)
  case Nil
  then show ?case by (simp add: holds_more_refl)
next
  case (Cons k ks)
  obtain owner c where k: "k = (owner, c)" by (cases k)
  have own: "owner = tg_task target" "c \<le> MAX_EVDEV_KEYCODE" using Cons.prems(2) k by auto
  show ?case
  proof (cases "fmlookup (en_keys e) k")
    case None
    then have "cancel_keys target now ks e = (evs, e1)" using Cons.prems(1) by simp
    from Cons.IH [OF this] Cons.prems(2)
    have ih: "cancels evs e e1 \<and> en_gestures e1 = en_gestures e \<and> en_targets e1 = en_targets e \<and> holds_more e1 e
      \<and> (\<forall>k \<in> set ks. k |\<notin>| fmdom (en_keys e1))" by auto
    have "k |\<notin>| fmdom (en_keys e)" using None by (rule fmdom_notI)
    then have "k |\<notin>| fmdom (en_keys e1)" using ih unfolding holds_more_def by blast
    then show ?thesis using ih by auto
  next
    case (Some key)
    let ?e = "e\<lparr>en_keys := fmdrop k (en_keys e)\<rparr>"
    obtain evs1 event where run: "cancel_keys target now ks ?e = (evs1, e1)"
      and evs: "evs = \<lparr>re_target = target, re_event = event\<rparr> # evs1"
      and event: "ev_kind event = 2" "ev_action event = 1" "ev_scan_code event = c"
      using Cons.prems(1) Some k by (auto simp: Let_def event_default_def split: prod.splits)
    from Cons.IH [OF run] Cons.prems(2)
    have ih: "cancels evs1 ?e e1 \<and> en_gestures e1 = en_gestures e \<and> en_targets e1 = en_targets e \<and> holds_more e1 ?e
      \<and> (\<forall>k \<in> set ks. k |\<notin>| fmdom (en_keys e1))" by auto
    have "acknowledge_cancel \<lparr>re_target = target, re_event = event\<rparr> e = ?e"
      using event own k small_scan [OF own(2)] by (simp add: acknowledge_cancel_def)
    moreover have "valid_cancel e \<lparr>re_target = target, re_event = event\<rparr>"
      using event own k fmdomI [OF Some] by (simp add: valid_cancel_def)
    moreover have "holds_more ?e e" by (simp add: holds_more_def)
    moreover have "k |\<notin>| fmdom (en_keys ?e)" by simp
    then have "k |\<notin>| fmdom (en_keys e1)" using ih unfolding holds_more_def by blast
    ultimately show ?thesis using ih evs holds_more_trans [of e1 ?e e] by auto
  qed
qed

lemma cancel_task_ok:
  assumes inv: "en_inv e" and run: "cancel_task task now e = (evs, e1)"
  shows "cancels evs e e1 \<and> en_targets e1 = en_targets e \<and> holds_more e1 e \<and> en_inv e1
    \<and> (task |\<in>| fmdom (en_targets e) \<longrightarrow> task |\<notin>| fmdom (en_gestures e1) \<and> (\<forall>c. (task, c) |\<notin>| fmdom (en_keys e1)))"
proof -
  have facts: "cancels evs e e1 \<and> en_targets e1 = en_targets e \<and> holds_more e1 e
    \<and> (task |\<in>| fmdom (en_targets e) \<longrightarrow> task |\<notin>| fmdom (en_gestures e1) \<and> (\<forall>c. (task, c) |\<notin>| fmdom (en_keys e1)))"
  proof (cases "fmlookup (en_targets e) task")
    case None
    then show ?thesis using run by (auto simp: cancel_task_def Let_def holds_more_def fmdom_notI)
  next
    case (Some target)
    have own: "tg_task target = task" using inv Some by (simp add: en_inv_def)
    let ?s = "e\<lparr>en_suppressed := ffilter (\<lambda>(owner, _). owner \<noteq> task) (en_suppressed e)\<rparr>"
    define touches where "touches = (case fmlookup (en_gestures e) task of None \<Rightarrow> []
      | Some g \<Rightarrow> [\<lparr>re_target = target, re_event = fst (motion target g 3 now)\<rparr>])"
    define e2 where "e2 = (case fmlookup (en_gestures e) task of None \<Rightarrow> ?s
      | Some g \<Rightarrow> ?s\<lparr>en_gestures := fmdrop task (en_gestures e)\<rparr>)"
    let ?ks = "filter (\<lambda>(owner, _). owner = task) (fm_keys (en_keys e))"
    obtain keys e3 where k: "cancel_keys target now ?ks e2 = (keys, e3)" by (cases "cancel_keys target now ?ks e2")
    have e2: "en_keys e2 = en_keys e" "en_targets e2 = en_targets e" "en_gestures e2 = fmdrop task (en_gestures e)"
      by (auto simp: e2_def fmdrop_absent split: option.split)
    have out: "evs = touches @ keys" "e1 = e3\<lparr>en_locks := fmdrop task (en_locks e3)\<rparr>"
      using run Some k by (auto simp: cancel_task_def Let_def touches_def e2_def split: option.splits)
    have first: "cancels touches e e2"
    proof (cases "fmlookup (en_gestures e) task")
      case None
      then show ?thesis by (simp add: touches_def e2_def)
    next
      case g: (Some g)
      have ok: "gesture_ok g" using inv g by (auto simp: en_inv_def)
      show ?thesis
        using g ok e2 own by (simp add: touches_def valid_cancel_def motion_ids [OF ok] acknowledge_cancel_def)
    qed
    have "cancels keys e2 e3 \<and> en_gestures e3 = en_gestures e2 \<and> en_targets e3 = en_targets e2 \<and> holds_more e3 e2
        \<and> (\<forall>k \<in> set ?ks. k |\<notin>| fmdom (en_keys e3))"
      using inv own by (intro cancel_keys_ok [OF k]) (auto simp: en_inv_def)
    moreover have "holds_more e2 e" using e2 by (simp add: holds_more_def)
    ultimately have rest: "cancels keys e2 e3" "en_gestures e3 = fmdrop task (en_gestures e)" "en_targets e3 = en_targets e"
      "holds_more e3 e" "\<forall>k \<in> set ?ks. k |\<notin>| fmdom (en_keys e3)"
      using holds_more_trans e2 by auto
    have "(task, c) |\<notin>| fmdom (en_keys e3)" for c
    proof
      assume "(task, c) |\<in>| fmdom (en_keys e3)"
      moreover from this have "(task, c) \<in> set ?ks" using rest(4) by (auto simp: holds_more_def)
      ultimately show False using rest(5) by blast
    qed
    then show ?thesis
      using cancels_target [OF cancels_append [OF first rest(1)], of e1] rest out by (auto simp: holds_more_def)
  qed
  then show ?thesis using holds_more_inv inv by blast
qed

lemma cancel_tasks_ok:
  assumes "en_inv e" and "cancel_tasks tasks now e = (evs, e1)"
  shows "cancels evs e e1 \<and> en_targets e1 = en_targets e \<and> holds_more e1 e \<and> en_inv e1
    \<and> (\<forall>t \<in> set tasks. t |\<in>| fmdom (en_targets e) \<longrightarrow>
         t |\<notin>| fmdom (en_gestures e1) \<and> (\<forall>c. (t, c) |\<notin>| fmdom (en_keys e1)))"
  using assms
proof (induction tasks arbitrary: e evs)
  case Nil
  then show ?case by (simp add: holds_more_refl)
next
  case (Cons task tasks)
  obtain evs0 e0 where first: "cancel_task task now e = (evs0, e0)" by (cases "cancel_task task now e")
  obtain evs2 where rest: "cancel_tasks tasks now e0 = (evs2, e1)" "evs = evs0 @ evs2"
    using Cons.prems(2) first by (auto simp: Let_def split: prod.splits)
  note f = cancel_task_ok [OF Cons.prems(1) first]
  have r: "cancels evs2 e0 e1 \<and> en_targets e1 = en_targets e0 \<and> holds_more e1 e0 \<and> en_inv e1
    \<and> (\<forall>t \<in> set tasks. t |\<in>| fmdom (en_targets e0) \<longrightarrow>
         t |\<notin>| fmdom (en_gestures e1) \<and> (\<forall>c. (t, c) |\<notin>| fmdom (en_keys e1)))"
    using Cons.IH rest f by blast
  have "t |\<in>| fmdom (en_gestures e0)" if "t |\<in>| fmdom (en_gestures e1)" for t
    using that r unfolding holds_more_def by (meson fmdomI fmlookup_dom_iff)
  then have "task |\<in>| fmdom (en_targets e) \<longrightarrow> task |\<notin>| fmdom (en_gestures e1) \<and> (\<forall>c. (task, c) |\<notin>| fmdom (en_keys e1))"
    using f r unfolding holds_more_def by blast
  then show ?case
    using f r rest(2) cancels_append [of evs0 e e0 evs2 e1] holds_more_trans [of e1 e0 e] by simp
qed

text \<open>A reset ends everything.\<close>

lemma reset_ok:
  assumes inv: "en_inv e" and run: "en_reset now e = (evs, e1)"
  shows "cancels evs e e1 \<and> en_targets e1 = en_targets e \<and> en_inv e1 \<and> en_gestures e1 = fmempty \<and> en_keys e1 = fmempty"
proof -
  let ?s = "e\<lparr>en_suppressed := {||}\<rparr>"
  have "en_inv ?s" using inv inv_cong [of ?s e] by simp
  note r = cancel_tasks_ok [OF this run [unfolded en_reset_def]]
  have targets: "en_targets e1 = en_targets e" using r by simp
  have g: "fmlookup (en_gestures e1) t = None" for t
  proof (cases "fmlookup (en_gestures e1) t")
    case (Some g)
    then have "t |\<in>| fmdom (en_targets e)" using r unfolding en_inv_def targets by blast
    then show ?thesis using r fmdomI [OF Some] by simp
  qed
  have k: "fmlookup (en_keys e1) (t, c) = None" for t c
  proof (cases "fmlookup (en_keys e1) (t, c)")
    case (Some key)
    then have "(t, c) |\<in>| fmdom (en_keys e1)" by (rule fmdomI)
    moreover from this have "t |\<in>| fmdom (en_targets e)" using r unfolding en_inv_def targets by blast
    ultimately show ?thesis using r by simp
  qed
  have "en_gestures e1 = fmempty" "en_keys e1 = fmempty"
    using g k by (auto intro!: fmap_ext)
  then show ?thesis using r cancels_cong [of e ?s evs e1] by simp
qed

lemma publish_ok:
  assumes inv: "en_inv e" and run: "en_publish target now e = (evs, e1)"
  shows "cancels evs e e1 \<and> en_inv e1 \<and> en_targets e1 = fmupd (tg_task target) target (en_targets e)"
proof -
  let ?t = "tg_task target"
  obtain e0 where e0: "cancels evs e e0" "en_inv e0" "en_targets e0 = en_targets e" and e1: "e1 = e0\<lparr>en_targets := fmupd ?t target (en_targets e0)\<rparr>"
    and gone: "(\<exists>old. fmlookup (en_targets e) ?t = Some old \<and> tg_display old = tg_display target) \<or> ?t |\<notin>| fmdom (en_gestures e0)"
  proof (cases "\<exists>old. fmlookup (en_targets e) ?t = Some old \<and> target_identity old \<noteq> target_identity target")
    case True
    then obtain e0 where c: "cancel_task ?t now e = (evs, e0)" "e1 = e0\<lparr>en_targets := fmupd ?t target (en_targets e0)\<rparr>"
      using run by (auto simp: en_publish_def split: prod.splits)
    note r = cancel_task_ok [OF inv c(1)]
    then have "?t |\<notin>| fmdom (en_gestures e0)" using True by (auto intro: fmdomI)
    then show ?thesis using that [of e0] r c(2) by blast
  next
    case False
    then have out: "evs = []" "e1 = e\<lparr>en_targets := fmupd ?t target (en_targets e)\<rparr>"
      using run by (auto simp: en_publish_def split: option.splits)
    have "(\<exists>old. fmlookup (en_targets e) ?t = Some old \<and> tg_display old = tg_display target) \<or> ?t |\<notin>| fmdom (en_gestures e)"
    proof (cases "fmlookup (en_targets e) ?t")
      case None
      then have "fmlookup (en_gestures e) ?t \<noteq> Some g" for g using inv fmdom_notI [OF None] unfolding en_inv_def by blast
      then show ?thesis by (simp add: fmlookup_dom_iff)
    next
      case (Some old)
      then show ?thesis using False by (auto simp: target_identity_def)
    qed
    then show ?thesis using that [of e] inv out by simp
  qed
  have "one_per_display e1"
    unfolding one_per_display_def
  proof (intro allI impI)
    fix t u a b
    assume A: "t |\<in>| fmdom (en_gestures e1)" "u |\<in>| fmdom (en_gestures e1)" "fmlookup (en_targets e1) t = Some a"
      "fmlookup (en_targets e1) u = Some b" "tg_display a = tg_display b"
    have old: "\<exists>c0. fmlookup (en_targets e0) x = Some c0 \<and> tg_display c0 = tg_display c"
      if "x |\<in>| fmdom (en_gestures e1)" "fmlookup (en_targets e1) x = Some c" for x c
      using that gone e0(3) e1 by (cases "x = ?t") auto
    obtain a0 b0 where "fmlookup (en_targets e0) t = Some a0" "fmlookup (en_targets e0) u = Some b0" "tg_display a0 = tg_display b0"
      using old [OF A(1,3)] old [OF A(2,4)] A(5) by auto
    then show "t = u" using e0(2) A(1,2) e1 unfolding en_inv_def one_per_display_def by auto
  qed
  then have "en_inv e1" using e0(2) e1 by (auto simp: en_inv_def split: if_splits)
  then show ?thesis using cancels_target [OF e0(1), of e1] e0(3) e1 by simp
qed

lemma retire_ok:
  assumes inv: "en_inv e" and run: "en_retire task incarnation now e = (evs, e1)"
  shows "cancels evs e e1 \<and> en_inv e1
    \<and> en_targets e1 = (if \<exists>a. fmlookup (en_targets e) task = Some a \<and> tg_incarnation a = incarnation
         then fmdrop task (en_targets e) else en_targets e) \<and> holds_more e1 e"
proof (cases "\<exists>a. fmlookup (en_targets e) task = Some a \<and> tg_incarnation a = incarnation")
  case False
  then have "evs = []" "e1 = e" using run by (auto simp: en_retire_def split: option.splits if_splits)
  moreover have "(if \<exists>a. fmlookup (en_targets e) task = Some a \<and> tg_incarnation a = incarnation
      then fmdrop task (en_targets e) else en_targets e) = en_targets e" using False by (rule if_not_P)
  ultimately show ?thesis using inv by (simp add: holds_more_refl)
next
  case True
  then obtain e0 where c: "cancel_task task now e = (evs, e0)" "e1 = e0\<lparr>en_targets := fmdrop task (en_targets e0)\<rparr>"
    using run by (auto simp: en_retire_def split: prod.splits)
  note r = cancel_task_ok [OF inv c(1)]
  have gone: "task |\<notin>| fmdom (en_gestures e0)" "\<And>k. (task, k) |\<notin>| fmdom (en_keys e0)"
    using r True by (auto intro: fmdomI)
  have "en_inv e1"
    unfolding en_inv_def
  proof (intro conjI allI impI)
    show "one_per_display e1"
      using r unfolding en_inv_def one_per_display_def c(2) by (auto split: if_splits)
  qed (use r gone in \<open>auto simp: en_inv_def c(2) fmdomI split: if_splits\<close>)
  then show ?thesis using True r c(2) cancels_target [of evs e e0 e1] by (simp add: holds_more_def)
qed

end
